(* ===== verification/Go_Prelude.thy ===== *)
theory Go_Prelude
  imports Complex_Main "HOL-Library.AList"
begin

text \<open>
  What the components share: how the Go constructs the autoscaler uses are rendered in HOL.

  \<^item> A Go panic and a returned \<open>error\<close> are values of \<open>go_error\<close>; a function that can fail
    returns \<open>go_error + 'a\<close> and \<open>rbind\<close> sequences two such computations.
  \<^item> \<open>float64\<close> is \<open>real\<close>: every operation of the code is the exact operation of \<open>real\<close>, without
    the rounding of IEEE 754. Where the code can divide by zero the infinite result is written
    out (theory \<open>Estimators\<close>).
  \<^item> \<open>time.Time\<close> is the number of nanoseconds since Go's zero time, so the zero value is \<open>0\<close>;
    \<open>time.Duration\<close> is a number of nanoseconds. \<open>Time.Sub\<close> saturates at the range of an int64 and
    integer products wrap around, as in Go.
  \<^item> A Go map is an association list with distinct keys. The order of the list is the order in
    which a \<open>range\<close> statement visits the entries, which Go leaves open: a theorem that holds for
    every list holds for every iteration order.
\<close>

named_theorems go_defs "unfoldings of the embedding of Go"

section \<open>Errors\<close>

datatype go_error =
    Panic string
  | Err string
  | KeyError string

type_synonym 'a result = "go_error + 'a"

definition rbind :: "'a result \<Rightarrow> ('a \<Rightarrow> 'b result) \<Rightarrow> 'b result" where
  "rbind m f = (case m of Inl e \<Rightarrow> Inl e | Inr x \<Rightarrow> f x)"

lemma rbind_simps [simp]:
  "rbind (Inl e) f = Inl e"
  "rbind (Inr x) f = f x"
  by (simp_all add: rbind_def)

lemma rbind_eq_Inr [simp]: "rbind m f = Inr y \<longleftrightarrow> (\<exists>x. m = Inr x \<and> f x = Inr y)"
  by (cases m) auto

lemma rbind_eq_Inl [simp]:
  "rbind m f = Inl e \<longleftrightarrow> m = Inl e \<or> (\<exists>x. m = Inr x \<and> f x = Inl e)"
  by (cases m) auto

lemma rbind_assoc: "rbind (rbind m f) g = rbind m (\<lambda>x. rbind (f x) g)"
  by (cases m) auto

section \<open>Numbers\<close>

type_synonym float64 = real

text \<open>The conversion \<open>int(x)\<close> of a \<open>float64\<close> drops the fraction (rounds towards zero).\<close>

definition go_trunc :: "float64 \<Rightarrow> int" where
  "go_trunc x = (if x < 0 then \<lceil>x\<rceil> else \<lfloor>x\<rfloor>)"

lemma go_trunc_nonneg: "0 \<le> x \<Longrightarrow> go_trunc x = \<lfloor>x\<rfloor>"
  by (simp add: go_trunc_def)

lemma go_trunc_mono: "x \<le> y \<Longrightarrow> go_trunc x \<le> go_trunc y"
proof -
  assume le: "x \<le> y"
  show ?thesis
  proof (cases "x < 0 \<and> 0 \<le> y")
    case True
    then have "\<lceil>x\<rceil> \<le> 0" and "0 \<le> \<lfloor>y\<rfloor>" by (simp_all add: ceiling_le_iff)
    then have "\<lceil>x\<rceil> \<le> \<lfloor>y\<rfloor>" by linarith
    with True show ?thesis by (simp add: go_trunc_def)
  next
    case False
    with le show ?thesis by (auto simp: go_trunc_def intro: ceiling_mono floor_mono)
  qed
qed

lemma go_trunc_of_int [simp]: "go_trunc (of_int n) = n"
  by (simp add: go_trunc_def)

lemma go_trunc_nonneg_iff: "0 \<le> x \<Longrightarrow> 0 \<le> go_trunc x"
  by (simp add: go_trunc_def)

lemma go_trunc_le: "0 \<le> x \<Longrightarrow> of_int (go_trunc x) \<le> x"
  by (simp add: go_trunc_def)

text \<open>Integer division and remainder of Go truncate towards zero.\<close>

definition go_div :: "int \<Rightarrow> int \<Rightarrow> int" where
  "go_div a b = sgn a * sgn b * (\<bar>a\<bar> div \<bar>b\<bar>)"

definition go_mod :: "int \<Rightarrow> int \<Rightarrow> int" where
  "go_mod a b = a - b * go_div a b"

lemma go_mod_pos: "0 \<le> a \<Longrightarrow> 0 < b \<Longrightarrow> go_mod a b = a mod b"
  by (cases "a = 0") (simp_all add: go_mod_def go_div_def minus_mult_div_eq_mod)

lemma go_mod_neg: "a < 0 \<Longrightarrow> 0 < b \<Longrightarrow> go_mod a b = - ((- a) mod b)"
  by (simp add: go_mod_def go_div_def minus_mult_div_eq_mod [symmetric])

definition int64_max :: int where "int64_max = 2 ^ 63 - 1"
definition int64_min :: int where "int64_min = - (2 ^ 63)"

text \<open>A value that leaves the range of an \<open>int64\<close> wraps around.\<close>

definition wrap64 :: "int \<Rightarrow> int" where
  "wrap64 n = (n + 2 ^ 63) mod 2 ^ 64 - 2 ^ 63"

definition in_int64 :: "int \<Rightarrow> bool" where
  "in_int64 n \<longleftrightarrow> int64_min \<le> n \<and> n \<le> int64_max"

lemma wrap64_id: "in_int64 n \<Longrightarrow> wrap64 n = n"
  by (simp add: in_int64_def wrap64_def int64_min_def int64_max_def)

lemma wrap64_range: "in_int64 (wrap64 n)"
proof -
  have "0 \<le> (n + 2 ^ 63) mod 2 ^ 64" and "(n + 2 ^ 63) mod 2 ^ 64 < 2 ^ 64"
    by (rule pos_mod_sign, simp) (rule pos_mod_bound, simp)
  then show ?thesis by (simp add: in_int64_def wrap64_def int64_min_def int64_max_def)
qed

section \<open>Time\<close>

type_synonym time = int
type_synonym duration = int

definition zero_time :: time where "zero_time = 0"
definition time_IsZero :: "time \<Rightarrow> bool" where "time_IsZero t \<longleftrightarrow> t = 0"
definition time_Before :: "time \<Rightarrow> time \<Rightarrow> bool" where "time_Before t u \<longleftrightarrow> t < u"
definition time_After :: "time \<Rightarrow> time \<Rightarrow> bool" where "time_After t u \<longleftrightarrow> u < t"
definition time_Add :: "time \<Rightarrow> duration \<Rightarrow> time" where "time_Add t d = t + d"

text \<open>\<open>t.Sub(u)\<close>: the difference, or the largest or smallest duration when it does not fit.\<close>

definition time_Sub :: "time \<Rightarrow> time \<Rightarrow> duration" where
  "time_Sub t u = max int64_min (min int64_max (t - u))"

text \<open>\<open>t.Round(d)\<close>: the nearest multiple of \<open>d\<close> since the zero time, halves up.\<close>

definition time_Round :: "time \<Rightarrow> duration \<Rightarrow> time" where
  "time_Round t d =
     (if d \<le> 0 then t
      else let r = t mod d in if r + r < d then t - r else t + (d - r))"

definition nanosecond :: duration where "nanosecond = 1"
definition second :: duration where "second = 1000000000"
definition minute :: duration where "minute = 60 * second"
definition hour :: duration where "hour = 60 * minute"

lemmas time_defs = time_IsZero_def time_Before_def time_After_def time_Add_def zero_time_def

lemma time_Sub_exact: "in_int64 (t - u) \<Longrightarrow> time_Sub t u = t - u"
  by (simp add: in_int64_def time_Sub_def)

lemma time_Sub_le: "t - u \<le> c \<Longrightarrow> int64_min \<le> c \<Longrightarrow> time_Sub t u \<le> c"
  by (auto simp: time_Sub_def)

lemma time_Round_multiple: "0 < d \<Longrightarrow> time_Round t d mod d = 0"
proof -
  assume d: "0 < d"
  have 1: "(t - t mod d) mod d = 0" by (simp add: minus_mod_eq_mult_div)
  have "(t - t mod d + d) mod d = 0" using 1 by simp
  then have 2: "(t + (d - t mod d)) mod d = 0" by (simp add: algebra_simps)
  show ?thesis using d 1 2 by (simp add: time_Round_def Let_def)
qed

lemma time_Round_near:
  assumes "0 < d"
  shows "2 * \<bar>time_Round t d - t\<bar> \<le> d"
proof -
  obtain r where r: "t mod d = r" "0 \<le> r" "r < d"
    using pos_mod_sign [OF assms, of t] pos_mod_bound [OF assms, of t] by blast
  then show ?thesis using assms by (auto simp: time_Round_def Let_def)
qed

lemma time_Round_of_multiple: "0 < d \<Longrightarrow> t mod d = 0 \<Longrightarrow> time_Round t d = t"
  by (simp add: time_Round_def)

section \<open>Maps as association lists\<close>

type_synonym ('k, 'v) gomap = "('k \<times> 'v) list"

definition gomap_ok :: "('k, 'v) gomap \<Rightarrow> bool" where
  "gomap_ok m \<longleftrightarrow> distinct (map fst m)"

text \<open>A lookup of a missing key yields the zero value of the value type.\<close>

definition lookup_default :: "'v \<Rightarrow> ('k, 'v) gomap \<Rightarrow> 'k \<Rightarrow> 'v" where
  "lookup_default z m k = (case map_of m k of None \<Rightarrow> z | Some v \<Rightarrow> v)"

definition map_values :: "('k \<Rightarrow> 'v \<Rightarrow> 'w) \<Rightarrow> ('k, 'v) gomap \<Rightarrow> ('k, 'w) gomap" where
  "map_values f m = map (\<lambda>(k, v). (k, f k v)) m"

lemma map_of_map_values: "map_of (map_values f m) k = map_option (f k) (map_of m k)"
  by (induction m) (auto simp: map_values_def)

lemma keys_map_values [simp]: "map fst (map_values f m) = map fst m"
  by (induction m) (auto simp: map_values_def)

lemma gomap_ok_map_values [simp]: "gomap_ok (map_values f m) = gomap_ok m"
  by (simp add: gomap_ok_def)

lemma gomap_ok_Nil [simp]: "gomap_ok []"
  by (simp add: gomap_ok_def)

lemma gomap_ok_update [simp]: "gomap_ok m \<Longrightarrow> gomap_ok (AList.update k v m)"
  by (simp add: gomap_ok_def distinct_update)

lemma gomap_ok_delete [simp]: "gomap_ok m \<Longrightarrow> gomap_ok (AList.delete k m)"
  by (simp add: gomap_ok_def distinct_delete)

lemma map_of_filter_ok:
  assumes "gomap_ok m"
  shows "gomap_ok (filter P m) \<and> map_of (filter P m) k = (case map_of m k of Some v \<Rightarrow> if P (k, v) then Some v else None | None \<Rightarrow> None)"
  using assms
proof (induction m)
  case (Cons e m)
  obtain j v where e: "e = (j, v)" by (cases e)
  have "map_of m j = None" and "gomap_ok m" using Cons.prems by (auto simp: e gomap_ok_def map_of_eq_None_iff)
  then show ?case using Cons by (auto simp: e gomap_ok_def split: option.splits)
qed simp

lemma map_of_update [simp]: "map_of (AList.update k v m) = (map_of m)(k \<mapsto> v)"
  by (rule update_conv')

lemma map_of_delete [simp]: "map_of (AList.delete k m) = (map_of m)(k := None)"
  by (rule delete_conv')

lemma in_set_map_of: "gomap_ok m \<Longrightarrow> (k, v) \<in> set m \<longleftrightarrow> map_of m k = Some v"
  unfolding gomap_ok_def by (metis map_of_SomeD map_of_is_SomeI)

lemma set_AList_update: "set (AList.update k v m) \<subseteq> insert (k, v) (set m)"
  by (induction m) auto

lemma set_AList_delete: "set (AList.delete k m) \<subseteq> set m"
  by (auto simp: AList.delete_eq)

section \<open>Lists\<close>

lemma nth_list_update_if:
  "i < length xs \<Longrightarrow> (xs[i := v]) ! j = (if j = i then v else xs ! j)"
  by (simp add: nth_list_update)

lemma sum_list_update_real:
  "i < length xs \<Longrightarrow> sum_list (xs[i := v]) = sum_list xs - xs ! i + (v :: real)"
proof (induction xs arbitrary: i)
  case Nil
  then show ?case by simp
next
  case (Cons x xs)
  then show ?case by (cases i) auto
qed

lemma sum_list_nonneg_nth: "(\<And>i. i < length xs \<Longrightarrow> 0 \<le> xs ! i) \<Longrightarrow> 0 \<le> sum_list (xs :: real list)"
  by (rule sum_list_nonneg) (auto simp: in_set_conv_nth)

end
