(* ===== verification/Histogram_Options.thy ===== *)
theory Histogram_Options
  imports Go_Prelude
begin

text \<open>
  The bucketing schemes of \<open>pkg/recommender/util/histogram_options.go\<close>: linear and exponential
  buckets, their constructors with the checks of the arguments, \<open>FindBucket\<close> and
  \<open>GetBucketStart\<close>. The interface \<open>HistogramOptions\<close> is the locale \<open>bucketing\<close>, whose laws are
  what the histogram relies on; both schemes and their union interpret it. The linear scheme, which only
  tests use, converts \<open>value / bucketSize\<close> to an integer without a bound; here the integer is unbounded.
\<close>

section \<open>The two schemes\<close>

record linearHistogramOptions =
  lin_numBuckets :: int
  lin_bucketSize :: float64
  lin_epsilon :: float64

record exponentialHistogramOptions =
  exp_numBuckets :: int
  exp_firstBucketSize :: float64
  exp_ratio :: float64
  exp_epsilon :: float64

datatype HistogramOptions =
    LinearOptions linearHistogramOptions
  | ExponentialOptions exponentialHistogramOptions

definition options_log :: "float64 \<Rightarrow> float64 \<Rightarrow> float64" where
  "options_log base x = ln x / ln base"

definition NewLinearHistogramOptions ::
    "float64 \<Rightarrow> float64 \<Rightarrow> float64 \<Rightarrow> HistogramOptions result" where
  "NewLinearHistogramOptions maxValue bucketSize epsilon =
     (if maxValue \<le> 0 \<or> bucketSize \<le> 0 \<or> epsilon \<le> 0
      then Inl (Err ''maxValue and bucketSize must both be positive'')
      else let numBuckets = \<lceil>maxValue / bucketSize\<rceil> + 1
           in Inr (LinearOptions \<lparr>lin_numBuckets = numBuckets, lin_bucketSize = bucketSize,
                                  lin_epsilon = epsilon\<rparr>))"

definition NewExponentialHistogramOptions ::
    "float64 \<Rightarrow> float64 \<Rightarrow> float64 \<Rightarrow> float64 \<Rightarrow> HistogramOptions result" where
  "NewExponentialHistogramOptions maxValue firstBucketSize ratio epsilon =
     (if maxValue \<le> 0 \<or> firstBucketSize \<le> 0 \<or> ratio \<le> 1 \<or> epsilon \<le> 0
      then Inl (Err ''maxValue, firstBucketSize and epsilon must be > 0.0, ratio must be > 1.0'')
      else let numBuckets =
                 \<lceil>options_log ratio (maxValue * (ratio - 1) / firstBucketSize + 1)\<rceil> + 1
           in Inr (ExponentialOptions \<lparr>exp_numBuckets = numBuckets,
                     exp_firstBucketSize = firstBucketSize, exp_ratio = ratio,
                     exp_epsilon = epsilon\<rparr>))"

definition linear_FindBucket :: "linearHistogramOptions \<Rightarrow> float64 \<Rightarrow> int" where
  "linear_FindBucket o' value =
     (let bucket = go_trunc (value / lin_bucketSize o')
      in if bucket < 0 then 0
         else if lin_numBuckets o' \<le> bucket then lin_numBuckets o' - 1
         else bucket)"

definition linear_GetBucketStart :: "linearHistogramOptions \<Rightarrow> int \<Rightarrow> float64 result" where
  "linear_GetBucketStart o' bucket =
     (if bucket < 0 \<or> lin_numBuckets o' \<le> bucket then Inl (Panic ''index out of range'')
      else Inr (of_int bucket * lin_bucketSize o'))"

definition exponential_FindBucket :: "exponentialHistogramOptions \<Rightarrow> float64 \<Rightarrow> int" where
  "exponential_FindBucket o' value =
     (if value < exp_firstBucketSize o' then 0
      else let bucket = go_trunc (options_log (exp_ratio o')
                          (value * (exp_ratio o' - 1) / exp_firstBucketSize o' + 1))
           in if exp_numBuckets o' \<le> bucket then exp_numBuckets o' - 1 else bucket)"

definition exponential_GetBucketStart :: "exponentialHistogramOptions \<Rightarrow> int \<Rightarrow> float64 result" where
  "exponential_GetBucketStart o' bucket =
     (if bucket < 0 \<or> exp_numBuckets o' \<le> bucket then Inl (Panic ''index out of range'')
      else if bucket = 0 then Inr 0
      else Inr (exp_firstBucketSize o' * (exp_ratio o' powr of_int bucket - 1)
                / (exp_ratio o' - 1)))"

section \<open>The interface, dispatched on the scheme\<close>

fun NumBuckets :: "HistogramOptions \<Rightarrow> int" where
  "NumBuckets (LinearOptions l) = lin_numBuckets l"
| "NumBuckets (ExponentialOptions e) = exp_numBuckets e"

fun FindBucket :: "HistogramOptions \<Rightarrow> float64 \<Rightarrow> int" where
  "FindBucket (LinearOptions l) value = linear_FindBucket l value"
| "FindBucket (ExponentialOptions e) value = exponential_FindBucket e value"

fun GetBucketStart :: "HistogramOptions \<Rightarrow> int \<Rightarrow> float64 result" where
  "GetBucketStart (LinearOptions l) bucket = linear_GetBucketStart l bucket"
| "GetBucketStart (ExponentialOptions e) bucket = exponential_GetBucketStart e bucket"

fun Epsilon :: "HistogramOptions \<Rightarrow> float64" where
  "Epsilon (LinearOptions l) = lin_epsilon l"
| "Epsilon (ExponentialOptions e) = exp_epsilon e"

text \<open>What the constructors establish.\<close>

definition linear_wf :: "linearHistogramOptions \<Rightarrow> bool" where
  "linear_wf l \<longleftrightarrow> 1 < lin_numBuckets l \<and> 0 < lin_bucketSize l \<and> 0 < lin_epsilon l"

definition exponential_wf :: "exponentialHistogramOptions \<Rightarrow> bool" where
  "exponential_wf e \<longleftrightarrow>
     1 < exp_numBuckets e \<and> 0 < exp_firstBucketSize e \<and> 1 < exp_ratio e \<and> 0 < exp_epsilon e"

fun options_wf :: "HistogramOptions \<Rightarrow> bool" where
  "options_wf (LinearOptions l) = linear_wf l"
| "options_wf (ExponentialOptions e) = exponential_wf e"

section \<open>The contract of a bucketing scheme\<close>

locale bucketing =
  fixes wf :: "'o \<Rightarrow> bool"
    and num :: "'o \<Rightarrow> int"
    and find :: "'o \<Rightarrow> float64 \<Rightarrow> int"
    and start :: "'o \<Rightarrow> int \<Rightarrow> float64 result"
    and eps :: "'o \<Rightarrow> float64"
  assumes num_gt: "wf c \<Longrightarrow> 1 < num c"
    and eps_pos: "wf c \<Longrightarrow> 0 < eps c"
    and find_nonneg: "wf c \<Longrightarrow> 0 \<le> find c v"
    and find_less: "wf c \<Longrightarrow> find c v < num c"
    and start_Inr: "wf c \<Longrightarrow> 0 \<le> b \<Longrightarrow> b < num c \<Longrightarrow> \<exists>x. start c b = Inr x"
    and start_zero: "wf c \<Longrightarrow> start c 0 = Inr 0"
    and start_less: "wf c \<Longrightarrow> start c a = Inr x \<Longrightarrow> start c b = Inr y \<Longrightarrow> a < b \<Longrightarrow> x < y"
    and find_lower: "wf c \<Longrightarrow> 0 \<le> v \<Longrightarrow> start c (find c v) = Inr x \<Longrightarrow> x \<le> v"
    and find_upper: "wf c \<Longrightarrow> 0 \<le> v \<Longrightarrow> start c (find c v + 1) = Inr x \<Longrightarrow> v < x"
begin

lemma start_le:
  "wf c \<Longrightarrow> start c a = Inr x \<Longrightarrow> start c b = Inr y \<Longrightarrow> a \<le> b \<Longrightarrow> x \<le> y"
  using start_less by (cases "a = b") fastforce+

lemma start_nonneg: "wf c \<Longrightarrow> 0 \<le> b \<Longrightarrow> start c b = Inr x \<Longrightarrow> 0 \<le> x"
  using start_le start_zero by blast

text \<open>\<open>FindBucket\<close> is the inverse of \<open>GetBucketStart\<close>.\<close>

lemma find_start:
  assumes wf: "wf c" and b: "0 \<le> b" "b < num c" and x: "start c b = Inr x"
  shows "find c x = b"
proof (rule antisym)
  have x0: "0 \<le> x" using start_nonneg [OF wf b(1) x] .
  obtain y where y: "start c (find c x) = Inr y"
    using start_Inr [OF wf find_nonneg find_less] wf by blast
  have yx: "y \<le> x" using find_lower [OF wf x0 y] .
  show "find c x \<le> b"
  proof (rule ccontr)
    assume "\<not> find c x \<le> b"
    then have "x < y" using start_less [OF wf x y] by simp
    with yx show False by simp
  qed
  show "b \<le> find c x"
  proof (rule ccontr)
    assume neg: "\<not> b \<le> find c x"
    then obtain z where z: "start c (find c x + 1) = Inr z"
      using start_Inr [OF wf, of "find c x + 1"] find_nonneg [OF wf, of x] b(2) by auto
    have "z \<le> x" using start_le [OF wf z x] neg by simp
    with find_upper [OF wf x0 z] show False by simp
  qed
qed

text \<open>A larger value never falls into an earlier bucket.\<close>

lemma find_mono:
  assumes wf: "wf c" and v: "0 \<le> v" "v \<le> w"
  shows "find c v \<le> find c w"
proof (rule ccontr)
  assume neg: "\<not> find c v \<le> find c w"
  obtain x where x: "start c (find c v) = Inr x"
    using start_Inr [OF wf find_nonneg find_less] wf by blast
  obtain y where y: "start c (find c w + 1) = Inr y"
    using start_Inr [OF wf, of "find c w + 1"] find_nonneg [OF wf, of w] find_less [OF wf, of v] neg
    by auto
  have "w < y" using find_upper [OF wf _ y] v by simp
  moreover have "y \<le> x" using start_le [OF wf y x] neg by simp
  moreover have "x \<le> v" using find_lower [OF wf v(1) x] .
  ultimately show False using v by simp
qed

end

section \<open>Linear buckets\<close>

lemma linear_find_lower:
  assumes "linear_wf l" "0 \<le> v" "linear_GetBucketStart l (linear_FindBucket l v) = Inr x"
  shows "x \<le> v"
proof -
  let ?q = "v / lin_bucketSize l"
  have pos: "0 < lin_bucketSize l" "0 \<le> ?q" using assms by (simp_all add: linear_wf_def)
  have "linear_FindBucket l v \<le> \<lfloor>?q\<rfloor>"
    using pos by (auto simp: linear_FindBucket_def Let_def go_trunc_def)
  then have "of_int (linear_FindBucket l v) \<le> ?q" by (simp add: le_floor_iff)
  then show ?thesis using assms(3) pos
    by (auto simp: linear_GetBucketStart_def pos_le_divide_eq split: if_splits)
qed

lemma linear_find_upper:
  assumes "linear_wf l" "0 \<le> v" "linear_GetBucketStart l (linear_FindBucket l v + 1) = Inr x"
  shows "v < x"
proof -
  let ?q = "v / lin_bucketSize l"
  have pos: "0 < lin_bucketSize l" "0 \<le> ?q" using assms by (simp_all add: linear_wf_def)
  have "linear_FindBucket l v = \<lfloor>?q\<rfloor>"
    using pos assms(3)
    by (auto simp: linear_FindBucket_def linear_GetBucketStart_def Let_def go_trunc_def
        split: if_splits)
  then have "?q < of_int (linear_FindBucket l v + 1)" by simp
  then have "v < of_int (linear_FindBucket l v + 1) * lin_bucketSize l"
    using pos(1) by (simp add: pos_divide_less_eq)
  moreover have "x = of_int (linear_FindBucket l v + 1) * lin_bucketSize l"
    using assms(3) by (auto simp: linear_GetBucketStart_def split: if_splits)
  ultimately show ?thesis by simp
qed

interpretation lin: bucketing linear_wf lin_numBuckets linear_FindBucket linear_GetBucketStart
  lin_epsilon
proof (unfold_locales, goal_cases)
  case (7 c a x b y)
  then show ?case by (auto simp: linear_wf_def linear_GetBucketStart_def split: if_splits)
next
  case (8 c v x)
  then show ?case by (rule linear_find_lower)
next
  case (9 c v x)
  then show ?case by (rule linear_find_upper)
qed (auto simp: linear_wf_def linear_FindBucket_def linear_GetBucketStart_def Let_def)

section \<open>Exponential buckets\<close>

text \<open>The start of bucket \<open>b\<close> before the range check, as a function on the reals.\<close>

definition exp_start :: "exponentialHistogramOptions \<Rightarrow> real \<Rightarrow> real" where
  "exp_start e b = exp_firstBucketSize e * (exp_ratio e powr b - 1) / (exp_ratio e - 1)"

lemma exp_start_less: "exponential_wf e \<Longrightarrow> a < b \<Longrightarrow> exp_start e a < exp_start e b"
  unfolding exp_start_def
  by (intro divide_strict_right_mono mult_strict_left_mono)
    (auto simp: exponential_wf_def powr_less_cancel_iff)

lemma exp_start_le: "exponential_wf e \<Longrightarrow> a \<le> b \<Longrightarrow> exp_start e a \<le> exp_start e b"
  using exp_start_less [of e a b] by (cases "a = b") auto

lemma exp_start_simps [simp]:
  "exp_start e 0 = (if exp_ratio e = 0 then - exp_firstBucketSize e / (exp_ratio e - 1) else 0)"
  "exponential_wf e \<Longrightarrow> exp_start e 1 = exp_firstBucketSize e"
  by (auto simp: exp_start_def exponential_wf_def)

lemma exponential_GetBucketStart_Inr:
  assumes "exponential_wf e" "exponential_GetBucketStart e b = Inr x"
  shows "x = exp_start e (of_int b) \<and> 0 \<le> b \<and> b < exp_numBuckets e"
  using assms
  by (auto simp: exponential_GetBucketStart_def exp_start_def exponential_wf_def split: if_splits)

text \<open>The index the code computes with two logarithms inverts the formula for the start.\<close>

lemma exp_start_log:
  assumes "exponential_wf e" "0 \<le> v"
  shows "exp_start e (options_log (exp_ratio e)
           (v * (exp_ratio e - 1) / exp_firstBucketSize e + 1)) = v"
proof -
  let ?y = "v * (exp_ratio e - 1) / exp_firstBucketSize e + 1"
  have "0 \<le> v * (exp_ratio e - 1) / exp_firstBucketSize e"
    using assms by (simp add: exponential_wf_def)
  then have y: "0 < ?y" by simp
  have "exp_ratio e powr (options_log (exp_ratio e) ?y) = ?y"
    using assms y by (simp add: options_log_def exponential_wf_def log_def [symmetric])
  then show ?thesis using assms by (simp add: exp_start_def exponential_wf_def)
qed

lemma exponential_log_ge_1:
  assumes "exponential_wf e" "exp_firstBucketSize e \<le> v"
  shows "1 \<le> options_log (exp_ratio e) (v * (exp_ratio e - 1) / exp_firstBucketSize e + 1)"
    (is "1 \<le> ?k")
proof (rule ccontr)
  assume "\<not> 1 \<le> ?k"
  then have "exp_start e ?k < exp_start e 1" using exp_start_less [OF assms(1)] by simp
  moreover have "0 \<le> v" using assms by (simp add: exponential_wf_def)
  ultimately show False using exp_start_log [OF assms(1)] assms by simp
qed

lemma exponential_FindBucket_nonneg: "exponential_wf e \<Longrightarrow> 0 \<le> exponential_FindBucket e v"
  using exponential_log_ge_1 [of e v]
  by (auto simp: exponential_FindBucket_def Let_def exponential_wf_def go_trunc_def)

lemma exponential_find_lower:
  assumes wf: "exponential_wf e" and v: "0 \<le> v"
    and x: "exponential_GetBucketStart e (exponential_FindBucket e v) = Inr x"
  shows "x \<le> v"
proof (cases "v < exp_firstBucketSize e")
  case True
  then show ?thesis using x v
    by (auto simp: exponential_FindBucket_def exponential_GetBucketStart_def split: if_splits)
next
  case False
  let ?k = "options_log (exp_ratio e) (v * (exp_ratio e - 1) / exp_firstBucketSize e + 1)"
  have "exponential_FindBucket e v \<le> go_trunc ?k"
    using False by (auto simp: exponential_FindBucket_def Let_def)
  moreover have "of_int (go_trunc ?k) \<le> ?k"
    using exponential_log_ge_1 [OF wf, of v] False by (intro go_trunc_le) simp
  ultimately have "of_int (exponential_FindBucket e v) \<le> ?k"
    by (meson of_int_le_iff order_trans)
  then have "exp_start e (of_int (exponential_FindBucket e v)) \<le> exp_start e ?k"
    by (rule exp_start_le [OF wf])
  then show ?thesis
    using exponential_GetBucketStart_Inr [OF wf x] exp_start_log [OF wf v] by simp
qed

lemma exponential_find_upper:
  assumes wf: "exponential_wf e" and v: "0 \<le> v"
    and x: "exponential_GetBucketStart e (exponential_FindBucket e v + 1) = Inr x"
  shows "v < x"
proof (cases "v < exp_firstBucketSize e")
  case True
  then have "exponential_FindBucket e v = 0" by (simp add: exponential_FindBucket_def)
  with True show ?thesis using exponential_GetBucketStart_Inr [OF wf x] wf by simp
next
  case False
  let ?k = "options_log (exp_ratio e) (v * (exp_ratio e - 1) / exp_firstBucketSize e + 1)"
  have k: "1 \<le> ?k" using exponential_log_ge_1 [OF wf, of v] False by simp
  have "exponential_FindBucket e v = go_trunc ?k"
    using False exponential_GetBucketStart_Inr [OF wf x]
    by (auto simp: exponential_FindBucket_def Let_def split: if_splits)
  then have "?k < of_int (exponential_FindBucket e v + 1)"
    using k by (simp add: go_trunc_nonneg)
  then have "exp_start e ?k < exp_start e (of_int (exponential_FindBucket e v + 1))"
    by (rule exp_start_less [OF wf])
  then show ?thesis
    using exponential_GetBucketStart_Inr [OF wf x] exp_start_log [OF wf v] by simp
qed

interpretation expo: bucketing exponential_wf exp_numBuckets exponential_FindBucket
  exponential_GetBucketStart exp_epsilon
proof (unfold_locales, goal_cases)
  case (3 c v)
  then show ?case by (rule exponential_FindBucket_nonneg)
next
  case (4 c v)
  then show ?case by (auto simp: exponential_FindBucket_def exponential_wf_def Let_def)
next
  case (7 c a x b y)
  have "x = exp_start c (of_int a)" "y = exp_start c (of_int b)"
    using exponential_GetBucketStart_Inr [OF 7(1)] 7(2,3) by simp_all
  then show ?case using exp_start_less [OF 7(1), of "of_int a" "of_int b"] 7(4) by simp
next
  case (8 c v x)
  then show ?case by (rule exponential_find_lower)
next
  case (9 c v x)
  then show ?case by (rule exponential_find_upper)
qed (auto simp: exponential_wf_def exponential_GetBucketStart_def)

section \<open>The interface\<close>

interpretation opts: bucketing options_wf NumBuckets FindBucket GetBucketStart Epsilon
proof (unfold_locales, goal_cases)
  case (1 c) then show ?case using lin.num_gt expo.num_gt by (cases c) auto
next
  case (2 c) then show ?case using lin.eps_pos expo.eps_pos by (cases c) auto
next
  case (3 c v) then show ?case using lin.find_nonneg expo.find_nonneg by (cases c) auto
next
  case (4 c v) then show ?case using lin.find_less expo.find_less by (cases c) auto
next
  case (5 c b) then show ?case using lin.start_Inr expo.start_Inr by (cases c) auto
next
  case (6 c) then show ?case using lin.start_zero expo.start_zero by (cases c) auto
next
  case (7 c a x b y) then show ?case using lin.start_less expo.start_less by (cases c) auto
next
  case (8 c v x) then show ?case using lin.find_lower expo.find_lower by (cases c) auto
next
  case (9 c v x) then show ?case using lin.find_upper expo.find_upper by (cases c) auto
qed

lemma NewLinearHistogramOptions_wf:
  "NewLinearHistogramOptions m s e = Inr c \<Longrightarrow> options_wf c"
  by (auto simp: NewLinearHistogramOptions_def linear_wf_def Let_def ceiling_less_iff
      divide_less_0_iff split: if_splits)

lemma NewExponentialHistogramOptions_wf:
  assumes "NewExponentialHistogramOptions m f r e = Inr c"
  shows "options_wf c"
proof -
  have pos: "0 < m" "0 < f" "1 < r" "0 < e"
    using assms by (auto simp: NewExponentialHistogramOptions_def split: if_splits)
  then have "1 < m * (r - 1) / f + 1" by simp
  then have "0 < ln (m * (r - 1) / f + 1)" "0 < ln r" using pos by (simp_all only: ln_gt_zero)
  then have "0 < options_log r (m * (r - 1) / f + 1)" unfolding options_log_def
    by (rule divide_pos_pos)
  then show ?thesis using assms pos
    by (auto simp: NewExponentialHistogramOptions_def exponential_wf_def Let_def less_ceiling_iff)
qed

end
