(* ===== verification/Histogram.thy ===== *)
theory Histogram
  imports Histogram_Options
begin

text \<open>
  The bucketed histogram of \<open>pkg/recommender/util/histogram.go\<close>: its state, every operation,
  the checkpoint form, and two invariants. \<open>hist_inv\<close> is well-formedness (sizes and signs);
  \<open>hist_tight\<close> is the documented meaning of \<open>minBucket\<close> and \<open>maxBucket\<close>, the first and the last
  non-empty bucket. \<open>hist_reach\<close> has the histograms the code can build, a loaded checkpoint included: in
  all of them the two indices enclose the non-empty buckets, and they are exact unless a checkpoint
  was loaded last. A method that mutates the receiver returns the new histogram. Options are compared
  by their contents; the code compares the interface values, hence addresses: there \<open>Merge\<close> also panics,
  and \<open>Equals\<close> is false, for equal options at different addresses. The recommender builds its options once.
  \<open>String\<close> only formats text and is not modelled.
\<close>

section \<open>State\<close>

record histogram =
  options :: HistogramOptions
  bucketWeight :: "float64 list"
  totalWeight :: float64
  minBucket :: nat
  maxBucket :: nat

record HistogramCheckpoint =
  ReferenceTimestamp :: time
  BucketWeights :: "(int, int) gomap"
  TotalWeight :: float64

definition MaxCheckpointWeight :: int where "MaxCheckpointWeight = 10000"

definition NewHistogram :: "HistogramOptions \<Rightarrow> histogram" where
  "NewHistogram opts =
     \<lparr>options = opts, bucketWeight = replicate (nat (NumBuckets opts)) 0, totalWeight = 0,
      minBucket = nat (NumBuckets opts - 1), maxBucket = 0\<rparr>"

section \<open>Loops over a range of buckets\<close>

text \<open>\<open>for bucket := lo; bucket <= hi; bucket++ { xs[bucket] = f bucket xs[bucket] }\<close>\<close>

definition update_range :: "nat \<Rightarrow> nat \<Rightarrow> (nat \<Rightarrow> 'a \<Rightarrow> 'a) \<Rightarrow> 'a list \<Rightarrow> 'a list" where
  "update_range lo hi f xs = fold (\<lambda>i ys. ys[i := f i (ys ! i)]) [lo ..< Suc hi] xs"

lemma fold_update_nth:
  "distinct is \<Longrightarrow> j < length xs \<Longrightarrow>
   fold (\<lambda>i ys. ys[i := f i (ys ! i)]) is xs ! j = (if j \<in> set is then f j (xs ! j) else xs ! j)"
proof (induction "is" arbitrary: xs)
  case (Cons a "is")
  then show ?case by (cases "j = a") (auto simp: nth_list_update)
qed simp

lemma fold_update_length:
  "length (fold (\<lambda>i ys. ys[i := f i (ys ! i)]) is xs) = length xs"
  by (induction "is" arbitrary: xs) auto

lemma length_update_range [simp]: "length (update_range lo hi f xs) = length xs"
  by (simp only: update_range_def fold_update_length)

lemma nth_update_range:
  "j < length xs \<Longrightarrow>
   update_range lo hi f xs ! j = (if lo \<le> j \<and> j \<le> hi then f j (xs ! j) else xs ! j)"
  by (subst update_range_def, subst fold_update_nth) auto

section \<open>Operations\<close>

definition AddSample :: "histogram \<Rightarrow> float64 \<Rightarrow> float64 \<Rightarrow> histogram result" where
  "AddSample h value weight =
     (if weight < 0 then Inl (Panic ''sample weight must be non-negative'')
      else let bucket = FindBucket (options h) value in
        if bucket < 0 \<or> int (length (bucketWeight h)) \<le> bucket
        then Inl (Panic ''index out of range'')
        else let b = nat bucket;
                 ws = (bucketWeight h)[b := bucketWeight h ! b + weight];
                 eps = Epsilon (options h)
             in Inr (h\<lparr>bucketWeight := ws,
                       totalWeight := totalWeight h + weight,
                       minBucket := (if b < minBucket h \<and> eps \<le> ws ! b then b else minBucket h),
                       maxBucket := (if maxBucket h < b \<and> eps \<le> ws ! b then b else maxBucket h)\<rparr>))"

definition safeSubtract :: "float64 \<Rightarrow> float64 \<Rightarrow> float64 \<Rightarrow> float64" where
  "safeSubtract value sub epsilon = (if value - sub < epsilon then 0 else value - sub)"

text \<open>The two loops of \<open>updateMinAndMaxBucket\<close>.\<close>

function advance_min :: "float64 list \<Rightarrow> float64 \<Rightarrow> nat \<Rightarrow> nat \<Rightarrow> nat" where
  "advance_min ws eps lastBucket b =
     (if ws ! b < eps \<and> b < lastBucket then advance_min ws eps lastBucket (Suc b) else b)"
  by pat_completeness auto
termination
  by (relation "measure (\<lambda>(ws, eps, lastBucket, b). lastBucket - b)") auto

fun retreat_max :: "float64 list \<Rightarrow> float64 \<Rightarrow> nat \<Rightarrow> nat" where
  "retreat_max ws eps 0 = 0"
| "retreat_max ws eps (Suc b) = (if ws ! Suc b < eps then retreat_max ws eps b else Suc b)"

declare advance_min.simps [simp del]

definition updateMinAndMaxBucket :: "histogram \<Rightarrow> histogram" where
  "updateMinAndMaxBucket h =
     (let epsilon = Epsilon (options h); lastBucket = nat (NumBuckets (options h) - 1)
      in h\<lparr>minBucket := advance_min (bucketWeight h) epsilon lastBucket (minBucket h),
           maxBucket := retreat_max (bucketWeight h) epsilon (maxBucket h)\<rparr>)"

definition SubtractSample :: "histogram \<Rightarrow> float64 \<Rightarrow> float64 \<Rightarrow> histogram result" where
  "SubtractSample h value weight =
     (if weight < 0 then Inl (Panic ''sample weight must be non-negative'')
      else let bucket = FindBucket (options h) value; epsilon = Epsilon (options h) in
        if bucket < 0 \<or> int (length (bucketWeight h)) \<le> bucket
        then Inl (Panic ''index out of range'')
        else let b = nat bucket in
          Inr (updateMinAndMaxBucket
            (h\<lparr>totalWeight := safeSubtract (totalWeight h) weight epsilon,
               bucketWeight :=
                 (bucketWeight h)[b := safeSubtract (bucketWeight h ! b) weight epsilon]\<rparr>)))"

definition Merge :: "histogram \<Rightarrow> histogram \<Rightarrow> histogram result" where
  "Merge h other =
     (if options h \<noteq> options other
      then Inl (Panic ''can't merge histograms with different options'')
      else Inr (h\<lparr>
        bucketWeight := update_range (minBucket other) (maxBucket other)
                          (\<lambda>b w. w + bucketWeight other ! b) (bucketWeight h),
        totalWeight := totalWeight h + totalWeight other,
        minBucket := (if minBucket other < minBucket h then minBucket other else minBucket h),
        maxBucket := (if maxBucket h < maxBucket other then maxBucket other else maxBucket h)\<rparr>))"

definition IsEmpty :: "histogram \<Rightarrow> bool" where
  "IsEmpty h \<longleftrightarrow> bucketWeight h ! minBucket h < Epsilon (options h)"

function percentile_loop :: "float64 list \<Rightarrow> nat \<Rightarrow> float64 \<Rightarrow> nat \<Rightarrow> float64 \<Rightarrow> nat" where
  "percentile_loop ws maxB threshold bucket partialSum =
     (if bucket < maxB
      then let ps = partialSum + ws ! bucket
           in if threshold \<le> ps then bucket
              else percentile_loop ws maxB threshold (Suc bucket) ps
      else bucket)"
  by pat_completeness auto
termination
  by (relation "measure (\<lambda>(ws, maxB, t, bucket, s). maxB - bucket)") auto

declare percentile_loop.simps [simp del]

definition Percentile :: "histogram \<Rightarrow> float64 \<Rightarrow> float64 result" where
  "Percentile h percentile =
     (if IsEmpty h then Inr 0
      else let threshold = percentile * totalWeight h;
               bucket = int (percentile_loop (bucketWeight h) (maxBucket h) threshold
                               (minBucket h) 0)
           in if bucket < NumBuckets (options h) - 1
              then GetBucketStart (options h) (bucket + 1)
              else GetBucketStart (options h) bucket)"

definition Equals :: "histogram \<Rightarrow> histogram \<Rightarrow> bool" where
  "Equals h h2 \<longleftrightarrow>
     options h = options h2 \<and> minBucket h = minBucket h2 \<and> maxBucket h = maxBucket h2 \<and>
     list_all (\<lambda>b. let diff = bucketWeight h ! b - bucketWeight h2 ! b
                   in \<not> (diff > 1 / 10 ^ 15 \<or> diff < - (1 / 10 ^ 15)))
       [minBucket h ..< Suc (maxBucket h)]"

text \<open>\<open>round\<close> of \<open>decaying_histogram.go\<close>.\<close>

definition go_round :: "float64 \<Rightarrow> int" where
  "go_round x = \<lfloor>x + 1 / 2\<rfloor>"

definition max_weight :: "histogram \<Rightarrow> float64" where
  "max_weight h = fold (\<lambda>b m. if m < bucketWeight h ! b then bucketWeight h ! b else m)
                    [minBucket h ..< Suc (maxBucket h)] 0"

definition SaveToChekpoint :: "histogram \<Rightarrow> HistogramCheckpoint" where
  "SaveToChekpoint h =
     (let ratio = of_int MaxCheckpointWeight / max_weight h;
          add = (\<lambda>b m. let newWeight = go_round (bucketWeight h ! b * ratio) mod 2 ^ 32
                       in if 0 < newWeight then AList.update (int b) newWeight m else m)
      in \<lparr>ReferenceTimestamp = zero_time,
          BucketWeights = fold add [minBucket h ..< Suc (maxBucket h)] [],
          TotalWeight = totalWeight h\<rparr>)"

text \<open>The check of the buckets of a checkpoint: the first offending one is reported.\<close>

fun check_buckets :: "int \<Rightarrow> (int \<times> int) list \<Rightarrow> go_error option" where
  "check_buckets n [] = None"
| "check_buckets n ((bucket, weight) # bs) =
     (if n \<le> bucket then Some (Err ''Checkpoint has bucket that is exceeding histogram buckets'')
      else if bucket < 0 then Some (Err ''Checkpoint has a negative bucket'')
      else check_buckets n bs)"

definition load_bucket :: "float64 \<Rightarrow> int \<times> int \<Rightarrow> histogram \<Rightarrow> histogram" where
  "load_bucket ratio entry h =
     (case entry of (bucket, weight) \<Rightarrow>
        let b = nat bucket in
        h\<lparr>minBucket := (if b < minBucket h then b else minBucket h),
          maxBucket := (if maxBucket h < b then b else maxBucket h),
          bucketWeight := (bucketWeight h)[b := bucketWeight h ! b + of_int weight * ratio]\<rparr>)"

definition LoadFromCheckpoint :: "histogram \<Rightarrow> HistogramCheckpoint option \<Rightarrow> histogram result" where
  "LoadFromCheckpoint h checkpoint =
     (case checkpoint of
        None \<Rightarrow> Inl (Err ''Cannot load from empty checkpoint'')
      | Some cp \<Rightarrow>
          if TotalWeight cp < 0 then Inl (Err ''Cannot load checkpoint with negative weight'')
          else (case check_buckets (NumBuckets (options h)) (BucketWeights cp) of
              Some e \<Rightarrow> Inl e
            | None \<Rightarrow>
                let sum = sum_list (map snd (BucketWeights cp)) in
                if sum = 0 then Inr h
                else let ratio = TotalWeight cp / of_int sum;
                         h' = fold (load_bucket ratio) (BucketWeights cp) h
                     in Inr (h'\<lparr>totalWeight := totalWeight h' + TotalWeight cp\<rparr>)))"

definition scale :: "histogram \<Rightarrow> float64 \<Rightarrow> histogram result" where
  "scale h factor =
     (if factor < 0 then Inl (Panic ''scale factor must be non-negative'')
      else Inr (updateMinAndMaxBucket
        (h\<lparr>bucketWeight := update_range (minBucket h) (maxBucket h) (\<lambda>_ w. w * factor)
                             (bucketWeight h),
           totalWeight := totalWeight h * factor\<rparr>)))"

section \<open>Invariants\<close>

definition hist_inv :: "histogram \<Rightarrow> bool" where
  "hist_inv h \<longleftrightarrow>
     options_wf (options h) \<and>
     int (length (bucketWeight h)) = NumBuckets (options h) \<and>
     minBucket h < length (bucketWeight h) \<and> maxBucket h < length (bucketWeight h) \<and>
     (\<forall>i < length (bucketWeight h). 0 \<le> bucketWeight h ! i) \<and> 0 \<le> totalWeight h"

definition nonempty_bucket :: "histogram \<Rightarrow> nat \<Rightarrow> bool" where
  "nonempty_bucket h b \<longleftrightarrow> b < length (bucketWeight h) \<and> Epsilon (options h) \<le> bucketWeight h ! b"

text \<open>
  The comments of the struct: \<open>minBucket\<close> is the first non-empty bucket if there is any and the
  last bucket otherwise, \<open>maxBucket\<close> the last non-empty one, and 0 otherwise.
\<close>

definition hist_tight :: "histogram \<Rightarrow> bool" where
  "hist_tight h \<longleftrightarrow>
     (\<forall>i. nonempty_bucket h i \<longrightarrow> minBucket h \<le> i \<and> i \<le> maxBucket h) \<and>
     (nonempty_bucket h (minBucket h) \<or> Suc (minBucket h) = length (bucketWeight h)) \<and>
     (nonempty_bucket h (maxBucket h) \<or> maxBucket h = 0)"

text \<open>What is left of it after a checkpoint was loaded: the non-empty buckets lie between the two indices.\<close>

definition hist_range :: "histogram \<Rightarrow> bool" where
  "hist_range h \<longleftrightarrow> (\<forall>i. nonempty_bucket h i \<longrightarrow> minBucket h \<le> i \<and> i \<le> maxBucket h)"

lemma tight_range: "hist_tight h \<Longrightarrow> hist_range h"
  by (simp add: hist_tight_def hist_range_def)

lemma advance_min_spec:
  assumes "b \<le> n" "r = advance_min ws eps n b"
  shows "b \<le> r \<and> r \<le> n \<and> (\<forall>i. b \<le> i \<and> i < r \<longrightarrow> ws ! i < eps) \<and> (r = n \<or> eps \<le> ws ! r)"
  using assms
proof (induction ws eps n b rule: advance_min.induct)
  case (1 ws eps n b)
  show ?case
  proof (cases "ws ! b < eps \<and> b < n")
    case True
    then have "r = advance_min ws eps n (Suc b)"
      using "1.prems" by (simp add: advance_min.simps [of ws eps n b])
    with 1 True have IH: "Suc b \<le> r \<and> r \<le> n \<and> (\<forall>i. Suc b \<le> i \<and> i < r \<longrightarrow> ws ! i < eps) \<and>
        (r = n \<or> eps \<le> ws ! r)"
      by simp
    with True show ?thesis by (metis Suc_le_lessD Suc_leI le_eq_less_or_eq)
  next
    case False
    with "1.prems" show ?thesis by (auto simp: advance_min.simps [of ws eps n b])
  qed
qed

lemma retreat_max_spec:
  "r = retreat_max ws eps b \<Longrightarrow>
   r \<le> b \<and> (\<forall>i. r < i \<and> i \<le> b \<longrightarrow> ws ! i < eps) \<and> (r = 0 \<or> eps \<le> ws ! r)"
  by (induction ws eps b rule: retreat_max.induct) (auto simp: le_Suc_eq)

lemma updateMinAndMaxBucket_frame [simp]:
  "options (updateMinAndMaxBucket h) = options h"
  "bucketWeight (updateMinAndMaxBucket h) = bucketWeight h"
  "totalWeight (updateMinAndMaxBucket h) = totalWeight h"
  "nonempty_bucket (updateMinAndMaxBucket h) b = nonempty_bucket h b"
  by (simp_all add: updateMinAndMaxBucket_def nonempty_bucket_def Let_def)

text \<open>
  The repair step: whenever every non-empty bucket lies between the two indices,
  \<open>updateMinAndMaxBucket\<close> makes the indices exact again.
\<close>

lemma updateMinAndMaxBucket_tight:
  assumes inv: "hist_inv h"
    and rng: "\<And>i. nonempty_bucket h i \<Longrightarrow> minBucket h \<le> i \<and> i \<le> maxBucket h"
  shows "hist_inv (updateMinAndMaxBucket h) \<and> hist_tight (updateMinAndMaxBucket h)"
proof -
  let ?ws = "bucketWeight h" and ?e = "Epsilon (options h)"
  let ?n = "nat (NumBuckets (options h) - 1)"
  define lo hi where "lo = advance_min ?ws ?e ?n (minBucket h)"
    and "hi = retreat_max ?ws ?e (maxBucket h)"
  have n: "Suc ?n = length ?ws" "minBucket h \<le> ?n"
    using inv by (auto simp: hist_inv_def)
  have lo: "minBucket h \<le> lo \<and> lo \<le> ?n \<and> (\<forall>i. minBucket h \<le> i \<and> i < lo \<longrightarrow> ?ws ! i < ?e) \<and>
      (lo = ?n \<or> ?e \<le> ?ws ! lo)"
    using advance_min_spec [OF n(2) lo_def] .
  have hi: "hi \<le> maxBucket h \<and> (\<forall>i. hi < i \<and> i \<le> maxBucket h \<longrightarrow> ?ws ! i < ?e) \<and>
      (hi = 0 \<or> ?e \<le> ?ws ! hi)"
    using retreat_max_spec [OF hi_def] .
  have upd: "minBucket (updateMinAndMaxBucket h) = lo" "maxBucket (updateMinAndMaxBucket h) = hi"
    by (simp_all add: updateMinAndMaxBucket_def lo_def hi_def Let_def)
  have "lo \<le> i \<and> i \<le> hi" if ne: "nonempty_bucket h i" for i
  proof -
    have "minBucket h \<le> i" "i \<le> maxBucket h" and e: "\<not> ?ws ! i < ?e"
      using rng [OF ne] ne by (auto simp: nonempty_bucket_def)
    then show ?thesis using lo hi e by (meson linorder_not_le)
  qed
  moreover have "nonempty_bucket h lo \<or> Suc lo = length ?ws"
    using lo n by (auto simp: nonempty_bucket_def)
  moreover have "nonempty_bucket h hi \<or> hi = 0"
    using hi inv by (auto simp: nonempty_bucket_def hist_inv_def)
  moreover have "lo < length ?ws" "hi < length ?ws"
    using lo hi n inv by (auto simp: hist_inv_def)
  ultimately show ?thesis using inv upd by (simp add: hist_inv_def hist_tight_def)
qed

section \<open>Every operation keeps the invariants\<close>

lemma hist_invD:
  assumes "hist_inv h"
  shows "options_wf (options h)" "int (length (bucketWeight h)) = NumBuckets (options h)"
    "minBucket h < length (bucketWeight h)" "maxBucket h < length (bucketWeight h)"
    "i < length (bucketWeight h) \<Longrightarrow> 0 \<le> bucketWeight h ! i" "0 \<le> totalWeight h"
    "0 < Epsilon (options h)"
  using assms opts.eps_pos by (auto simp: hist_inv_def)

lemma found_bucket_in_range:
  assumes "hist_inv h"
  shows "0 \<le> FindBucket (options h) v"
    "FindBucket (options h) v < int (length (bucketWeight h))"
    "nat (FindBucket (options h) v) < length (bucketWeight h)"
proof -
  show 1: "0 \<le> FindBucket (options h) v"
    using opts.find_nonneg hist_invD(1) [OF assms] .
  show 2: "FindBucket (options h) v < int (length (bucketWeight h))"
    using opts.find_less [OF hist_invD(1) [OF assms]] hist_invD(2) [OF assms] by simp
  show "nat (FindBucket (options h) v) < length (bucketWeight h)"
    using 1 2 by linarith
qed

lemma NewHistogram_inv: "options_wf opts \<Longrightarrow> hist_inv (NewHistogram opts)"
  using opts.num_gt [of opts] by (auto simp: hist_inv_def NewHistogram_def)

lemma NewHistogram_tight: "options_wf opts \<Longrightarrow> hist_tight (NewHistogram opts)"
  using opts.num_gt [of opts] opts.eps_pos [of opts]
  by (auto simp: hist_tight_def nonempty_bucket_def NewHistogram_def)

lemma AddSample_Inr:
  assumes "hist_inv h" "0 \<le> weight"
  shows "\<exists>h'. AddSample h v weight = Inr h'"
  using found_bucket_in_range [OF assms(1), of v] assms(2)
  by (simp add: AddSample_def Let_def)

text \<open>What one added sample changes: the weight of its bucket and the total.\<close>

lemma AddSample_weights:
  assumes "hist_inv h" "AddSample h v weight = Inr h'"
  shows "options h' = options h"
    "bucketWeight h' = (let b = nat (FindBucket (options h) v)
                        in (bucketWeight h)[b := bucketWeight h ! b + weight])"
    "totalWeight h' = totalWeight h + weight" "0 \<le> weight"
  using assms by (auto simp: AddSample_def Let_def split: if_splits)

lemma AddSample_inv:
  assumes "hist_inv h" "AddSample h v weight = Inr h'"
  shows "hist_inv h'"
  using assms found_bucket_in_range [OF assms(1), of v]
  by (auto simp: AddSample_def hist_inv_def Let_def nth_list_update split: if_splits)

lemma AddSample_range:
  assumes "hist_inv h" "hist_range h" "AddSample h v w = Inr h'"
  shows "hist_range h'"
proof -
  let ?b = "nat (FindBucket (options h) v)"
  have b: "?b < length (bucketWeight h)" by (rule found_bucket_in_range(3) [OF assms(1)])
  have h': "options h' = options h" "bucketWeight h' = (bucketWeight h)[?b := bucketWeight h ! ?b + w]"
    "minBucket h' = (if ?b < minBucket h \<and> Epsilon (options h) \<le> bucketWeight h' ! ?b then ?b else minBucket h)"
    "maxBucket h' = (if maxBucket h < ?b \<and> Epsilon (options h) \<le> bucketWeight h' ! ?b then ?b else maxBucket h)"
    using assms(3) by (auto simp: AddSample_def Let_def split: if_splits)
  have "minBucket h' \<le> i \<and> i \<le> maxBucket h'" if "nonempty_bucket h' i" for i
  proof (cases "i = ?b")
    case True
    then show ?thesis using that by (auto simp: nonempty_bucket_def h'(1,3,4))
  next
    case False
    then have "nonempty_bucket h i" using that by (simp add: nonempty_bucket_def h'(1,2))
    then show ?thesis using assms(2) by (auto simp: hist_range_def h'(3,4))
  qed
  then show ?thesis by (simp add: hist_range_def)
qed

lemma AddSample_tight:
  assumes inv: "hist_inv h" and tight: "hist_tight h" and add: "AddSample h v weight = Inr h'"
  shows "hist_tight h'"
proof -
  define b where "b = nat (FindBucket (options h) v)"
  define ws where "ws = (bucketWeight h)[b := bucketWeight h ! b + weight]"
  have b: "b < length (bucketWeight h)" and w: "0 \<le> weight"
    using found_bucket_in_range [OF inv] AddSample_weights(4) [OF inv add] by (auto simp: b_def)
  have ws: "ws ! i = (if i = b then bucketWeight h ! b + weight else bucketWeight h ! i)"
    "length ws = length (bucketWeight h)" for i
    using b by (auto simp: ws_def nth_list_update)
  have h': "h' = h\<lparr>bucketWeight := ws, totalWeight := totalWeight h + weight,
      minBucket := (if b < minBucket h \<and> Epsilon (options h) \<le> ws ! b then b else minBucket h),
      maxBucket := (if maxBucket h < b \<and> Epsilon (options h) \<le> ws ! b then b else maxBucket h)\<rparr>"
  (is "_ = ?g")
  proof -
    have "AddSample h v weight = Inr ?g"
      using w found_bucket_in_range(1,2) [OF inv, of v]
      by (simp only: AddSample_def Let_def b_def ws_def not_less [symmetric] if_False simp_thms)
    then show ?thesis using add by simp
  qed
  have ne: "nonempty_bucket h' i \<longleftrightarrow>
      (if i = b then Epsilon (options h) \<le> ws ! b else nonempty_bucket h i)" for i
    using b by (auto simp: nonempty_bucket_def h' ws)
  have keep: "nonempty_bucket h i \<Longrightarrow> nonempty_bucket h' i" for i
    unfolding ne using w by (auto simp: nonempty_bucket_def ws)
  have mm: "minBucket h' = (if b < minBucket h \<and> Epsilon (options h) \<le> ws ! b then b else minBucket h)"
    "maxBucket h' = (if maxBucket h < b \<and> Epsilon (options h) \<le> ws ! b then b else maxBucket h)"
    and len: "length (bucketWeight h') = length (bucketWeight h)"
    by (simp_all add: h' ws)
  have 2: "nonempty_bucket h' (minBucket h') \<or> Suc (minBucket h') = length (bucketWeight h')"
  proof (cases "b < minBucket h \<and> Epsilon (options h) \<le> ws ! b")
    case True
    then show ?thesis using ne [of b] by (simp add: mm)
  next
    case False
    then have "minBucket h' = minBucket h" by (auto simp: mm)
    then show ?thesis using tight keep len by (auto simp: hist_tight_def)
  qed
  have 3: "nonempty_bucket h' (maxBucket h') \<or> maxBucket h' = 0"
  proof (cases "maxBucket h < b \<and> Epsilon (options h) \<le> ws ! b")
    case True
    then show ?thesis using ne [of b] by (simp add: mm)
  next
    case False
    then have "maxBucket h' = maxBucket h" by (auto simp: mm)
    then show ?thesis using tight keep by (auto simp: hist_tight_def)
  qed
  show ?thesis using 2 3 AddSample_range [OF inv tight_range [OF tight] add] by (simp add: hist_tight_def hist_range_def)
qed

lemma safeSubtract_bounds:
  "0 < eps \<Longrightarrow> 0 \<le> sub \<Longrightarrow> 0 \<le> value \<Longrightarrow>
   0 \<le> safeSubtract value sub eps \<and> safeSubtract value sub eps \<le> value"
  by (simp add: safeSubtract_def)

text \<open>
  Subtracting and scaling first change the weights and then repair the indices; the repair
  needs only that no bucket outside the indices became non-empty.
\<close>

lemma SubtractSample_unfold:
  assumes "hist_inv h" "SubtractSample h v weight = Inr h'"
  obtains g b where "h' = updateMinAndMaxBucket g" "hist_inv g" "b = nat (FindBucket (options h) v)"
    "options g = options h" "minBucket g = minBucket h" "maxBucket g = maxBucket h"
    "bucketWeight g =
       (bucketWeight h)[b := safeSubtract (bucketWeight h ! b) weight (Epsilon (options h))]"
    "totalWeight g = safeSubtract (totalWeight h) weight (Epsilon (options h))"
    "\<And>i. i < length (bucketWeight h) \<Longrightarrow> bucketWeight g ! i \<le> bucketWeight h ! i"
proof -
  define b where "b = nat (FindBucket (options h) v)"
  let ?g = "h\<lparr>totalWeight := safeSubtract (totalWeight h) weight (Epsilon (options h)),
     bucketWeight :=
       (bucketWeight h)[b := safeSubtract (bucketWeight h ! b) weight (Epsilon (options h))]\<rparr>"
  have w: "0 \<le> weight" and h': "h' = updateMinAndMaxBucket ?g"
    using assms(2) by (auto simp: SubtractSample_def Let_def b_def split: if_splits)
  have b: "b < length (bucketWeight h)" using found_bucket_in_range [OF assms(1)] by (simp add: b_def)
  note bd = safeSubtract_bounds [OF hist_invD(7) [OF assms(1)] w]
  have "hist_inv ?g" using hist_invD [OF assms(1)] bd b
    by (auto simp: hist_inv_def nth_list_update)
  moreover have "bucketWeight ?g ! i \<le> bucketWeight h ! i" if "i < length (bucketWeight h)" for i
    using bd hist_invD(5) [OF assms(1)] b that by (auto simp: nth_list_update)
  ultimately show ?thesis using that [OF h' _ b_def] by simp
qed

lemma SubtractSample_repairs:
  assumes inv: "hist_inv h" and rng: "hist_range h" and sub: "SubtractSample h v weight = Inr h'"
  shows "hist_inv h' \<and> hist_tight h'"
proof -
  from SubtractSample_unfold [OF inv sub] obtain g b where
    g: "h' = updateMinAndMaxBucket g" "hist_inv g" "options g = options h"
      "minBucket g = minBucket h" "maxBucket g = maxBucket h"
      "\<And>i. i < length (bucketWeight h) \<Longrightarrow> bucketWeight g ! i \<le> bucketWeight h ! i"
      "length (bucketWeight g) = length (bucketWeight h)"
    by (metis length_list_update)
  have "nonempty_bucket h i" if "nonempty_bucket g i" for i
    using that g(3,6,7) by (fastforce simp: nonempty_bucket_def)
  then show ?thesis
    unfolding g(1) using rng g(4,5) by (intro updateMinAndMaxBucket_tight g(2)) (auto simp: hist_range_def)
qed

lemma SubtractSample_inv_tight:
  "hist_inv h \<Longrightarrow> hist_tight h \<Longrightarrow> SubtractSample h v weight = Inr h' \<Longrightarrow> hist_inv h' \<and> hist_tight h'"
  using SubtractSample_repairs tight_range by blast

lemma SubtractSample_Inr:
  assumes "hist_inv h" "0 \<le> weight"
  shows "\<exists>h'. SubtractSample h v weight = Inr h'"
  using found_bucket_in_range [OF assms(1), of v] assms(2)
  by (simp add: SubtractSample_def Let_def)

lemma scale_repairs:
  assumes inv: "hist_inv h" and rng: "hist_range h" and sc: "scale h factor = Inr h'"
  shows "hist_inv h' \<and> hist_tight h'"
proof -
  let ?g = "h\<lparr>bucketWeight := update_range (minBucket h) (maxBucket h) (\<lambda>_ w. w * factor)
               (bucketWeight h), totalWeight := totalWeight h * factor\<rparr>"
  have f: "0 \<le> factor" and h': "h' = updateMinAndMaxBucket ?g"
    using sc by (auto simp: scale_def split: if_splits)
  have g: "hist_inv ?g"
    using hist_invD [OF inv] f by (auto simp: hist_inv_def nth_update_range)
  have "minBucket h \<le> i \<and> i \<le> maxBucket h" if "nonempty_bucket ?g i" for i
    using that rng by (auto simp: nonempty_bucket_def hist_range_def nth_update_range split: if_splits)
  then show ?thesis
    unfolding h' by (intro updateMinAndMaxBucket_tight g) auto
qed

lemma scale_inv_tight:
  "hist_inv h \<Longrightarrow> hist_tight h \<Longrightarrow> scale h factor = Inr h' \<Longrightarrow> hist_inv h' \<and> hist_tight h'"
  using scale_repairs tight_range by blast

lemma Merge_inv:
  assumes "hist_inv h" "hist_inv g" "Merge h g = Inr h'"
  shows "hist_inv h'"
  using assms by (auto simp: Merge_def hist_inv_def nth_update_range split: if_splits)

lemma Merge_range:
  assumes "hist_range h" "Merge h g = Inr h'"
  shows "hist_range h'"
proof -
  have h': "options h' = options h" "length (bucketWeight h') = length (bucketWeight h)"
    "minBucket h' = min (minBucket h) (minBucket g)" "maxBucket h' = max (maxBucket h) (maxBucket g)"
    and ws: "i < length (bucketWeight h) \<Longrightarrow> \<not> (minBucket g \<le> i \<and> i \<le> maxBucket g) \<Longrightarrow>
      bucketWeight h' ! i = bucketWeight h ! i" for i
    using assms(2) by (auto simp: Merge_def nth_update_range split: if_splits)
  have "minBucket h' \<le> i \<and> i \<le> maxBucket h'" if ne: "nonempty_bucket h' i" for i
  proof (cases "minBucket g \<le> i \<and> i \<le> maxBucket g")
    case True
    then show ?thesis by (auto simp: h')
  next
    case False
    then have "nonempty_bucket h i" using ne ws [of i] by (auto simp: nonempty_bucket_def h')
    then show ?thesis using assms(1) by (auto simp: hist_range_def h')
  qed
  then show ?thesis by (simp add: hist_range_def)
qed

lemma Merge_tight:
  assumes inv: "hist_inv h" "hist_inv g" and tight: "hist_tight h" "hist_tight g"
    and mg: "Merge h g = Inr h'"
  shows "hist_tight h'"
proof -
  have eq: "options h = options g" using mg by (auto simp: Merge_def split: if_splits)
  have len: "length (bucketWeight g) = length (bucketWeight h)"
    using hist_invD(2) [OF inv(1)] hist_invD(2) [OF inv(2)] eq by simp
  have h': "options h' = options h" "length (bucketWeight h') = length (bucketWeight h)"
    "minBucket h' = min (minBucket h) (minBucket g)" "maxBucket h' = max (maxBucket h) (maxBucket g)"
    and ws: "i < length (bucketWeight h) \<Longrightarrow> bucketWeight h' ! i =
      (if minBucket g \<le> i \<and> i \<le> maxBucket g then bucketWeight h ! i + bucketWeight g ! i
       else bucketWeight h ! i)" for i
    using mg by (auto simp: Merge_def nth_update_range split: if_splits)
  have keep_h: "nonempty_bucket h' i" if "nonempty_bucket h i" for i
    using that hist_invD(5) [OF inv(2), of i] len
    by (auto simp: nonempty_bucket_def h' ws)
  have keep_g: "nonempty_bucket h' i" if "nonempty_bucket g i" for i
  proof -
    have "minBucket g \<le> i \<and> i \<le> maxBucket g" using tight(2) that by (auto simp: hist_tight_def)
    then show ?thesis using that hist_invD(5) [OF inv(1), of i] len eq
      by (auto simp: nonempty_bucket_def h' ws)
  qed
  note keep = keep_h keep_g
  have "nonempty_bucket h' (minBucket h') \<or> Suc (minBucket h') = length (bucketWeight h')"
    using tight keep len hist_invD(3) [OF inv(1)] hist_invD(3) [OF inv(2)]
    by (auto simp: hist_tight_def h' min_def)
  moreover have "nonempty_bucket h' (maxBucket h') \<or> maxBucket h' = 0"
    using tight keep by (auto simp: hist_tight_def h' max_def)
  ultimately show ?thesis using Merge_range [OF tight_range [OF tight(1)] mg] by (simp add: hist_tight_def hist_range_def)
qed

lemma Merge_Inr: "options h = options g \<Longrightarrow> \<exists>h'. Merge h g = Inr h'"
  by (simp add: Merge_def)

lemma scale_Inr: "0 \<le> factor \<Longrightarrow> \<exists>h'. scale h factor = Inr h'"
  by (simp add: scale_def)

lemmas histogram_frames =
  AddSample_weights(1) updateMinAndMaxBucket_frame(1)

lemma SubtractSample_options: "SubtractSample h v w = Inr h' \<Longrightarrow> options h' = options h"
  by (auto simp: SubtractSample_def Let_def split: if_splits)

lemma AddSample_options: "AddSample h v w = Inr h' \<Longrightarrow> options h' = options h"
  by (auto simp: AddSample_def Let_def split: if_splits)

lemma Merge_options: "Merge h g = Inr h' \<Longrightarrow> options h' = options h"
  by (auto simp: Merge_def split: if_splits)

lemma scale_options: "scale h f = Inr h' \<Longrightarrow> options h' = options h"
  by (auto simp: scale_def split: if_splits)

section \<open>Emptiness and percentiles\<close>

lemma IsEmpty_iff:
  assumes "hist_inv h" "hist_tight h"
  shows "IsEmpty h \<longleftrightarrow> (\<forall>b. \<not> nonempty_bucket h b)"
proof
  assume e: "IsEmpty h"
  show "\<forall>b. \<not> nonempty_bucket h b"
  proof (intro allI notI)
    fix b assume b: "nonempty_bucket h b"
    then have "minBucket h \<le> b" using assms(2) by (simp add: hist_tight_def)
    moreover have "\<not> nonempty_bucket h (minBucket h)"
      using e by (simp add: IsEmpty_def nonempty_bucket_def)
    ultimately have "minBucket h = b"
      using assms(2) b by (auto simp: hist_tight_def nonempty_bucket_def)
    with b e show False by (simp add: IsEmpty_def nonempty_bucket_def)
  qed
next
  assume "\<forall>b. \<not> nonempty_bucket h b"
  then show "IsEmpty h"
    using hist_invD(3) [OF assms(1)] by (auto simp: IsEmpty_def nonempty_bucket_def not_le)
qed

text \<open>The cumulative weight of the buckets \<open>lo\<close> to \<open>hi\<close>.\<close>

definition cumulative :: "float64 list \<Rightarrow> nat \<Rightarrow> nat \<Rightarrow> float64" where
  "cumulative ws lo hi = (\<Sum>i = lo..hi. ws ! i)"

lemma cumulative_Suc: "lo < hi \<Longrightarrow> cumulative ws lo hi = ws ! lo + cumulative ws (Suc lo) hi"
  by (simp add: cumulative_def sum.atLeast_Suc_atMost)

lemma cumulative_self [simp]: "cumulative ws b b = ws ! b"
  by (simp add: cumulative_def)

text \<open>
  The loop stops at the first bucket up to which the accumulated weight reaches the threshold,
  and at the last bucket when there is none.
\<close>

lemma percentile_loop_spec:
  assumes "b \<le> n" "r = percentile_loop ws n thr b acc"
  shows "b \<le> r \<and> r \<le> n \<and> (r < n \<longrightarrow> thr \<le> acc + cumulative ws b r) \<and>
    (\<forall>c. b \<le> c \<and> c < r \<longrightarrow> acc + cumulative ws b c < thr)"
  using assms
proof (induction ws n thr b acc rule: percentile_loop.induct)
  case (1 ws n thr b acc)
  note unf = percentile_loop.simps [of ws n thr b acc]
  show ?case
  proof (cases "b < n \<and> acc + ws ! b < thr")
    case True
    then have r: "r = percentile_loop ws n thr (Suc b) (acc + ws ! b)"
      using "1.prems" by (simp add: unf Let_def)
    have IH: "Suc b \<le> r \<and> r \<le> n \<and>
        (r < n \<longrightarrow> thr \<le> acc + ws ! b + cumulative ws (Suc b) r) \<and>
        (\<forall>c. Suc b \<le> c \<and> c < r \<longrightarrow> acc + ws ! b + cumulative ws (Suc b) c < thr)"
      using "1.IH" [OF _ refl] True r by simp
    have "acc + cumulative ws b c < thr" if "b \<le> c" "c < r" for c
      using IH True that cumulative_Suc [of b c ws]
      by (cases "b = c") (auto simp: add.assoc Suc_le_eq)
    then show ?thesis using IH cumulative_Suc [of b r ws] by (auto simp: add.assoc)
  next
    case False
    then have "r = b" using "1.prems" by (auto simp: unf Let_def)
    then show ?thesis using False "1.prems"(1) by auto
  qed
qed

lemma percentile_loop_mono:
  "t \<le> u \<Longrightarrow> percentile_loop ws n t b acc \<le> percentile_loop ws n u b acc"
proof (induction ws n t b acc rule: percentile_loop.induct)
  case (1 ws n t b acc)
  have ge: "b \<le> percentile_loop ws n u b acc"
    by (cases "b \<le> n") (use percentile_loop_spec in blast, simp add: percentile_loop.simps)
  show ?case
  proof (cases "b < n \<and> acc + ws ! b < t")
    case True
    then show ?thesis using 1
      by (simp add: percentile_loop.simps [of ws n t b acc] percentile_loop.simps [of ws n u b acc] Let_def)
  next
    case False
    then have "percentile_loop ws n t b acc = b"
      by (auto simp: percentile_loop.simps [of ws n t b acc] Let_def)
    with ge show ?thesis by simp
  qed
qed

text \<open>The bucket whose end \<open>Percentile\<close> returns.\<close>

definition percentile_bucket :: "histogram \<Rightarrow> float64 \<Rightarrow> nat" where
  "percentile_bucket h p =
     percentile_loop (bucketWeight h) (maxBucket h) (p * totalWeight h) (minBucket h) 0"

definition bucket_end :: "HistogramOptions \<Rightarrow> nat \<Rightarrow> float64 result" where
  "bucket_end opts b =
     (if int b < NumBuckets opts - 1 then GetBucketStart opts (int b + 1)
      else GetBucketStart opts (int b))"

lemma Percentile_eq:
  "Percentile h p = (if IsEmpty h then Inr 0 else bucket_end (options h) (percentile_bucket h p))"
  by (simp add: Percentile_def percentile_bucket_def bucket_end_def Let_def)

lemma nonempty_min_le_max:
  assumes "hist_inv h" "hist_tight h" "\<not> IsEmpty h"
  shows "minBucket h \<le> maxBucket h"
proof -
  have "nonempty_bucket h (minBucket h)"
    using assms hist_invD(3) by (auto simp: IsEmpty_def nonempty_bucket_def)
  then show ?thesis using assms(2) by (auto simp: hist_tight_def)
qed

lemma percentile_bucket_range:
  assumes "hist_inv h" "hist_tight h" "\<not> IsEmpty h"
  shows "minBucket h \<le> percentile_bucket h p" "percentile_bucket h p \<le> maxBucket h"
  using percentile_loop_spec [OF nonempty_min_le_max [OF assms] refl]
  by (auto simp: percentile_bucket_def)

lemma percentile_bucket_in:
  assumes "hist_inv h"
  shows "percentile_bucket h p < length (bucketWeight h)"
proof (cases "minBucket h \<le> maxBucket h")
  case True
  then show ?thesis
    using percentile_loop_spec [OF True refl] hist_invD(4) [OF assms]
    unfolding percentile_bucket_def by (meson le_less_trans)
next
  case False
  then show ?thesis
    using hist_invD(3) [OF assms] by (simp add: percentile_bucket_def percentile_loop.simps)
qed

lemma bucket_end_Inr:
  assumes "options_wf c" "int b < NumBuckets c"
  shows "\<exists>x \<ge> 0. bucket_end c b = Inr x"
proof -
  let ?i = "if int b < NumBuckets c - 1 then int b + 1 else int b"
  have i: "0 \<le> ?i" "?i < NumBuckets c" using assms by auto
  then obtain x where x: "GetBucketStart c ?i = Inr x" using opts.start_Inr [OF assms(1)] by blast
  then show ?thesis using opts.start_nonneg [OF assms(1) i(1) x] by (auto simp: bucket_end_def)
qed

lemma bucket_end_mono:
  assumes "options_wf c" "bucket_end c a = Inr x" "bucket_end c b = Inr y" "a \<le> b"
  shows "x \<le> y"
  using assms opts.start_le [OF assms(1)]
  by (auto simp: bucket_end_def split: if_splits)

lemma Percentile_Inr: "hist_inv h \<Longrightarrow> \<exists>x \<ge> 0. Percentile h p = Inr x"
  using bucket_end_Inr [of "options h" "percentile_bucket h p"] percentile_bucket_in [of h p]
    hist_invD(1,2) [of h]
  by (auto simp: Percentile_eq)

lemma Percentile_mono:
  assumes "hist_inv h" "p \<le> q" "Percentile h p = Inr x" "Percentile h q = Inr y"
  shows "x \<le> y"
proof (cases "IsEmpty h")
  case True
  then show ?thesis using assms by (simp add: Percentile_eq)
next
  case False
  have "p * totalWeight h \<le> q * totalWeight h"
    using assms(2) hist_invD(6) [OF assms(1)] by (rule mult_right_mono)
  then have "percentile_bucket h p \<le> percentile_bucket h q"
    unfolding percentile_bucket_def by (rule percentile_loop_mono)
  then show ?thesis
    using bucket_end_mono [OF hist_invD(1) [OF assms(1)]] assms(3,4) False
    by (simp add: Percentile_eq)
qed

section \<open>The interface the model relies on\<close>

text \<open>
  The interface \<open>util.Histogram\<close>: what \<open>AggregateContainerState\<close> and the estimators need of a
  histogram, whatever its implementation. \<open>same\<close> says that two histograms are of the same type
  and configuration, which \<open>Merge\<close> requires.
\<close>

locale sample_store =
  fixes ok :: "'h \<Rightarrow> bool"
    and same :: "'h \<Rightarrow> 'h \<Rightarrow> bool"
    and add :: "'h \<Rightarrow> float64 \<Rightarrow> float64 \<Rightarrow> time \<Rightarrow> 'h result"
    and sub :: "'h \<Rightarrow> float64 \<Rightarrow> float64 \<Rightarrow> time \<Rightarrow> 'h result"
    and merge :: "'h \<Rightarrow> 'h \<Rightarrow> 'h result"
    and pct :: "'h \<Rightarrow> float64 \<Rightarrow> float64 result"
  assumes same_refl: "same h h"
    and same_sym: "same h g \<Longrightarrow> same g h"
    and same_trans: "same h g \<Longrightarrow> same g k \<Longrightarrow> same h k"
    and add_ok: "ok h \<Longrightarrow> 0 \<le> w \<Longrightarrow> \<exists>h'. add h v w t = Inr h' \<and> ok h' \<and> same h h'"
    and sub_ok: "ok h \<Longrightarrow> 0 \<le> w \<Longrightarrow> \<exists>h'. sub h v w t = Inr h' \<and> ok h' \<and> same h h'"
    and merge_ok: "ok h \<Longrightarrow> ok g \<Longrightarrow> same h g \<Longrightarrow> \<exists>h'. merge h g = Inr h' \<and> ok h' \<and> same h h'"
    and pct_ok: "ok h \<Longrightarrow> \<exists>x \<ge> 0. pct h p = Inr x"
    and pct_mono: "ok h \<Longrightarrow> p \<le> q \<Longrightarrow> pct h p = Inr x \<Longrightarrow> pct h q = Inr y \<Longrightarrow> x \<le> y"
begin

text \<open>Any sequence of samples with non-negative weights is accepted.\<close>

fun add_all :: "'h \<Rightarrow> (float64 \<times> float64 \<times> time) list \<Rightarrow> 'h result" where
  "add_all h [] = Inr h"
| "add_all h ((v, w, t) # ss) = rbind (add h v w t) (\<lambda>h'. add_all h' ss)"

lemma add_all_ok:
  "ok h \<Longrightarrow> \<forall>(v, w, t) \<in> set ss. 0 \<le> w \<Longrightarrow> \<exists>h'. add_all h ss = Inr h' \<and> ok h' \<and> same h h'"
proof (induction ss arbitrary: h)
  case Nil
  then show ?case using same_refl by simp
next
  case (Cons s ss)
  obtain v w t where s: "s = (v, w, t)" by (cases s)
  with Cons.prems obtain h1 where h1: "add h v w t = Inr h1" "ok h1" "same h h1"
    using add_ok [of h w v t] by auto
  then obtain h2 where "add_all h1 ss = Inr h2" "ok h2" "same h1 h2"
    using Cons.IH [of h1] Cons.prems by auto
  then show ?case using h1 s same_trans by auto
qed

text \<open>Merging any number of histograms of one kind into another succeeds.\<close>

fun merge_all :: "'h \<Rightarrow> 'h list \<Rightarrow> 'h result" where
  "merge_all h [] = Inr h"
| "merge_all h (g # gs) = rbind (merge h g) (\<lambda>h'. merge_all h' gs)"

lemma merge_all_ok:
  "ok h \<Longrightarrow> \<forall>g \<in> set gs. ok g \<and> same h g \<Longrightarrow> \<exists>h'. merge_all h gs = Inr h' \<and> ok h' \<and> same h h'"
proof (induction gs arbitrary: h)
  case Nil
  then show ?case using same_refl by simp
next
  case (Cons g gs)
  then obtain h1 where h1: "merge h g = Inr h1" "ok h1" "same h h1"
    using merge_ok [of h g] by auto
  then have "\<forall>k \<in> set gs. ok k \<and> same h1 k"
    using Cons.prems same_sym same_trans by (metis list.set_intros(2))
  then obtain h2 where "merge_all h1 gs = Inr h2" "ok h2" "same h1 h2"
    using Cons.IH [OF h1(2)] by blast
  then show ?case using h1 same_trans by auto
qed

end

definition hist_ok :: "histogram \<Rightarrow> bool" where
  "hist_ok h \<longleftrightarrow> hist_inv h \<and> hist_tight h"

interpretation hist: sample_store hist_ok "\<lambda>h g. options h = options g"
  "\<lambda>h v w t. AddSample h v w" "\<lambda>h v w t. SubtractSample h v w" Merge Percentile
proof (unfold_locales, goal_cases)
  case (4 h w v t)
  then obtain h' where "AddSample h v w = Inr h'" using AddSample_Inr hist_ok_def by blast
  then show ?case
    using 4 AddSample_inv [of h v w h'] AddSample_tight [of h v w h'] AddSample_options [of h v w h']
    by (simp add: hist_ok_def)
next
  case (5 h w v t)
  then obtain h' where "SubtractSample h v w = Inr h'"
    using SubtractSample_Inr hist_ok_def by blast
  then show ?case
    using 5 SubtractSample_inv_tight [of h v w h'] SubtractSample_options [of h v w h']
    by (simp add: hist_ok_def)
next
  case (6 h g)
  then obtain h' where "Merge h g = Inr h'" using Merge_Inr by blast
  then show ?case
    using 6 Merge_inv [of h g h'] Merge_tight [of h g h'] Merge_options [of h g h']
    by (simp add: hist_ok_def)
next
  case (7 h p)
  then show ?case using Percentile_Inr by (simp add: hist_ok_def)
next
  case (8 h p q x y)
  then show ?case using Percentile_mono hist_ok_def by blast
qed auto

section \<open>Checkpoints\<close>

lemma max_weight_fold:
  "m \<le> fold (\<lambda>b m. if m < f b then f b else m) bs m \<and>
   (\<forall>b \<in> set bs. f b \<le> fold (\<lambda>b m. if m < f b then f b else m) bs m) \<and>
   (fold (\<lambda>b m. if m < f b then f b else m) bs m = m \<or>
    (\<exists>b \<in> set bs. fold (\<lambda>b m. if m < f b then f b else m) bs m = f b))"
  for f :: "nat \<Rightarrow> real"
proof (induction bs arbitrary: m)
  case (Cons b bs)
  show ?case using Cons.IH [of "if m < f b then f b else m"] by (auto split: if_splits)
qed simp

lemma max_weight_ge: "minBucket h \<le> b \<Longrightarrow> b \<le> maxBucket h \<Longrightarrow> bucketWeight h ! b \<le> max_weight h"
  using max_weight_fold [of 0 "\<lambda>b. bucketWeight h ! b" "[minBucket h ..< Suc (maxBucket h)]"]
  by (auto simp: max_weight_def)

lemma max_weight_attained:
  "0 < max_weight h \<Longrightarrow> \<exists>b. minBucket h \<le> b \<and> b \<le> maxBucket h \<and> bucketWeight h ! b = max_weight h"
  using max_weight_fold [of 0 "\<lambda>b. bucketWeight h ! b" "[minBucket h ..< Suc (maxBucket h)]"]
  by (fastforce simp: max_weight_def)

text \<open>The integer weight a bucket gets in the checkpoint.\<close>

definition saved_weight :: "histogram \<Rightarrow> nat \<Rightarrow> int" where
  "saved_weight h b = go_round (bucketWeight h ! b * (of_int MaxCheckpointWeight / max_weight h)) mod 2 ^ 32"

lemma update_new_key: "k \<notin> fst ` set m \<Longrightarrow> AList.update k v m = m @ [(k, v)]"
  by (induction m) auto

lemma fold_update_distinct:
  "distinct bs \<Longrightarrow> \<forall>b \<in> set bs. int b \<notin> fst ` set m \<Longrightarrow>
   fold (\<lambda>b m. if 0 < f b then AList.update (int b) (f b) m else m) bs m =
   m @ map (\<lambda>b. (int b, f b)) (filter (\<lambda>b. 0 < f b) bs)" for f :: "nat \<Rightarrow> int"
proof (induction bs arbitrary: m)
  case (Cons b bs)
  have new: "AList.update (int b) (f b) m = m @ [(int b, f b)]"
    using Cons.prems by (simp add: update_new_key)
  have "\<forall>b' \<in> set bs. int b' \<notin> fst ` set (if 0 < f b then AList.update (int b) (f b) m else m)"
    using Cons.prems by (auto simp: new)
  then show ?case using Cons.IH Cons.prems(1) by (simp add: new)
qed simp

lemma BucketWeights_SaveToChekpoint:
  "BucketWeights (SaveToChekpoint h) =
   map (\<lambda>b. (int b, saved_weight h b))
     (filter (\<lambda>b. 0 < saved_weight h b) [minBucket h ..< Suc (maxBucket h)])"
  unfolding SaveToChekpoint_def Let_def saved_weight_def [symmetric]
  by (simp add: fold_update_distinct [where m = "[]"])

lemma TotalWeight_SaveToChekpoint [simp]: "TotalWeight (SaveToChekpoint h) = totalWeight h"
  by (simp add: SaveToChekpoint_def Let_def)

lemma go_round_near: "\<bar>of_int (go_round x) - x\<bar> \<le> 1 / 2"
  unfolding go_round_def using of_int_floor_le [of "x + 1 / 2"] floor_correct [of "x + 1 / 2"]
  by linarith

lemma go_round_mono: "x \<le> y \<Longrightarrow> go_round x \<le> go_round y"
  by (simp add: go_round_def floor_mono)

lemma go_round_of_int [simp]: "go_round (of_int n) = n"
  by (simp add: go_round_def floor_eq_iff)

lemma saved_weight_bounds:
  assumes "hist_inv h" "minBucket h \<le> b" "b \<le> maxBucket h"
  shows "saved_weight h b = go_round (bucketWeight h ! b * (of_int MaxCheckpointWeight / max_weight h))"
    "0 \<le> saved_weight h b" "saved_weight h b \<le> MaxCheckpointWeight"
proof -
  let ?x = "bucketWeight h ! b * (of_int MaxCheckpointWeight / max_weight h)"
  have w: "0 \<le> bucketWeight h ! b" "bucketWeight h ! b \<le> max_weight h"
    using hist_invD(4,5) [OF assms(1)] assms(3) max_weight_ge [OF assms(2,3)] by auto
  have "0 \<le> ?x \<and> ?x \<le> of_int MaxCheckpointWeight"
  proof (cases "max_weight h = 0")
    case False
    then have "0 < max_weight h" using w by linarith
    then show ?thesis using w
      by (simp add: MaxCheckpointWeight_def pos_divide_le_eq)
  qed (simp add: MaxCheckpointWeight_def)
  then have "go_round (of_int 0) \<le> go_round ?x \<and> go_round ?x \<le> go_round (of_int MaxCheckpointWeight)"
    using go_round_mono by (metis of_int_0)
  then have "0 \<le> go_round ?x \<and> go_round ?x \<le> MaxCheckpointWeight" by (simp only: go_round_of_int)
  then show "saved_weight h b = go_round ?x" "0 \<le> saved_weight h b" "saved_weight h b \<le> MaxCheckpointWeight"
    unfolding saved_weight_def MaxCheckpointWeight_def by simp_all
qed

lemma check_buckets_None: "check_buckets n bs = None \<longleftrightarrow> (\<forall>(b, w) \<in> set bs. 0 \<le> b \<and> b < n)"
  by (induction n bs rule: check_buckets.induct) auto

lemma load_bucket_inv:
  assumes "hist_inv h" "0 \<le> b" "b < NumBuckets (options h)" "0 \<le> w" "0 \<le> ratio"
  shows "hist_inv (load_bucket ratio (b, w) h) \<and> options (load_bucket ratio (b, w) h) = options h \<and>
    totalWeight (load_bucket ratio (b, w) h) = totalWeight h"
  using assms by (auto simp: load_bucket_def hist_inv_def Let_def nth_list_update)

lemma load_buckets_inv:
  "hist_inv h \<Longrightarrow> \<forall>(b, w) \<in> set bs. 0 \<le> b \<and> b < NumBuckets (options h) \<and> 0 \<le> w \<Longrightarrow> 0 \<le> ratio \<Longrightarrow>
   hist_inv (fold (load_bucket ratio) bs h) \<and> options (fold (load_bucket ratio) bs h) = options h \<and>
   totalWeight (fold (load_bucket ratio) bs h) = totalWeight h"
proof (induction bs arbitrary: h)
  case (Cons e bs)
  obtain b w where e: "e = (b, w)" by (cases e)
  have "hist_inv (load_bucket ratio e h)" "options (load_bucket ratio e h) = options h"
    "totalWeight (load_bucket ratio e h) = totalWeight h"
    using Cons.prems load_bucket_inv [of h b w ratio] e by auto
  then show ?case using Cons.IH [of "load_bucket ratio e h"] Cons.prems by auto
qed simp

lemma load_bucket_weight:
  assumes "0 \<le> b" "nat b < length (bucketWeight h)" "i < length (bucketWeight h)"
  shows "bucketWeight (load_bucket ratio (b, w) h) ! i =
    bucketWeight h ! i + (if int i = b then of_int w * ratio else 0)"
  using assms by (auto simp: load_bucket_def Let_def nth_list_update)

lemma length_load_bucket [simp]: "length (bucketWeight (load_bucket ratio e h)) = length (bucketWeight h)"
  by (cases e) (simp add: load_bucket_def Let_def)

lemma load_buckets_weight:
  assumes "gomap_ok bs" "\<forall>(b, w) \<in> set bs. 0 \<le> b \<and> nat b < length (bucketWeight h)"
    "i < length (bucketWeight h)"
  shows "bucketWeight (fold (load_bucket ratio) bs h) ! i =
    bucketWeight h ! i + of_int (lookup_default 0 bs (int i)) * ratio"
  using assms
proof (induction bs arbitrary: h)
  case Nil
  then show ?case by (simp add: lookup_default_def)
next
  case (Cons e bs)
  obtain b w where e: "e = (b, w)" by (cases e)
  have new: "int i = b \<Longrightarrow> map_of bs b = None"
    using Cons.prems(1) e by (simp add: gomap_ok_def map_of_eq_None_iff)
  have "bucketWeight (fold (load_bucket ratio) bs (load_bucket ratio e h)) ! i =
      bucketWeight (load_bucket ratio e h) ! i + of_int (lookup_default 0 bs (int i)) * ratio"
    using Cons by (auto simp: gomap_ok_def)
  then show ?case
    using Cons.prems load_bucket_weight [of b h i ratio w] new
    by (auto simp: e lookup_default_def)
qed

lemma LoadFromCheckpoint_eq:
  assumes "hist_inv h" "0 \<le> TotalWeight cp"
    "\<forall>(b, w) \<in> set (BucketWeights cp). 0 \<le> b \<and> b < NumBuckets (options h)"
    "sum_list (map snd (BucketWeights cp)) = n" "n \<noteq> 0"
  shows "LoadFromCheckpoint h (Some cp) =
    (let h' = fold (load_bucket (TotalWeight cp / of_int n)) (BucketWeights cp) h
     in Inr (h'\<lparr>totalWeight := totalWeight h' + TotalWeight cp\<rparr>))"
proof -
  have "check_buckets (NumBuckets (options h)) (BucketWeights cp) = None"
    using assms(3) by (simp add: check_buckets_None)
  then show ?thesis using assms by (simp add: LoadFromCheckpoint_def Let_def)
qed

lemma saved_buckets_ok:
  "gomap_ok (BucketWeights (SaveToChekpoint h))"
  "(b, w) \<in> set (BucketWeights (SaveToChekpoint h)) \<Longrightarrow>
     0 \<le> b \<and> b \<le> int (maxBucket h) \<and> 0 < w"
  by (auto simp: BucketWeights_SaveToChekpoint gomap_ok_def o_def distinct_map inj_on_def)

lemma saved_entry_iff:
  "(int b, w) \<in> set (BucketWeights (SaveToChekpoint h)) \<longleftrightarrow>
   minBucket h \<le> b \<and> b \<le> maxBucket h \<and> w = saved_weight h b \<and> 0 < w"
  by (auto simp: BucketWeights_SaveToChekpoint simp del: upt_Suc)

lemma min_le_max:
  assumes "hist_inv h" "hist_range h" "\<not> IsEmpty h"
  shows "minBucket h \<le> maxBucket h"
  using assms hist_invD(3) [OF assms(1)] by (auto simp: hist_range_def IsEmpty_def nonempty_bucket_def)

lemma saved_sum_pos:
  assumes inv: "hist_inv h" and rng: "hist_range h" and "\<not> IsEmpty h"
  shows "0 < sum_list (map snd (BucketWeights (SaveToChekpoint h)))" "0 < max_weight h"
proof -
  have "0 < bucketWeight h ! minBucket h"
    using assms(3) hist_invD(7) [OF inv] by (simp add: IsEmpty_def)
  then show m: "0 < max_weight h"
    using max_weight_ge [of h "minBucket h"] min_le_max [OF inv rng assms(3)] by simp
  obtain b where b: "minBucket h \<le> b" "b \<le> maxBucket h" "bucketWeight h ! b = max_weight h"
    using max_weight_attained [OF m] by blast
  have "saved_weight h b = MaxCheckpointWeight"
    using saved_weight_bounds(1) [OF inv b(1,2)] b(3) m by simp
  then have "(int b, MaxCheckpointWeight) \<in> set (BucketWeights (SaveToChekpoint h))"
    using b by (simp add: saved_entry_iff MaxCheckpointWeight_def)
  then have "MaxCheckpointWeight \<in> set (map snd (BucketWeights (SaveToChekpoint h)))" by force
  moreover have "\<forall>w \<in> set (map snd (BucketWeights (SaveToChekpoint h))). 0 \<le> w"
    using saved_buckets_ok(2) by fastforce
  ultimately have "MaxCheckpointWeight \<le> sum_list (map snd (BucketWeights (SaveToChekpoint h)))"
    using member_le_sum_list by fastforce
  then show "0 < sum_list (map snd (BucketWeights (SaveToChekpoint h)))"
    by (simp add: MaxCheckpointWeight_def)
qed

lemma saved_sum: 
  assumes "hist_inv h" 
  shows "sum_list (map snd (BucketWeights (SaveToChekpoint h))) = (\<Sum>b = minBucket h..maxBucket h. saved_weight h b)"
proof -
  have pos: "\<not> 0 < saved_weight h b \<Longrightarrow> minBucket h \<le> b \<Longrightarrow> b \<le> maxBucket h \<Longrightarrow> saved_weight h b = 0" for b
    using saved_weight_bounds(2) [OF assms, of b] by linarith
  have "sum_list (map snd (BucketWeights (SaveToChekpoint h))) =
      sum_list (map (saved_weight h) (filter (\<lambda>b. 0 < saved_weight h b) [minBucket h ..< Suc (maxBucket h)]))"
    by (simp add: BucketWeights_SaveToChekpoint comp_def del: upt_Suc)
  also have "\<dots> = sum_list (map (saved_weight h) [minBucket h ..< Suc (maxBucket h)])"
    by (rule sum_list_map_filter) (use pos in auto)
  also have "\<dots> = (\<Sum>b = minBucket h..maxBucket h. saved_weight h b)"
    by (simp add: sum_list_distinct_conv_sum_set atLeastLessThanSuc_atLeastAtMost del: upt_Suc)
  finally show ?thesis .
qed

lemma saved_lookup:
  assumes "minBucket h \<le> b" "b \<le> maxBucket h" "hist_inv h"
  shows "lookup_default 0 (BucketWeights (SaveToChekpoint h)) (int b) = saved_weight h b"
proof (cases "0 < saved_weight h b")
  case True
  then have "map_of (BucketWeights (SaveToChekpoint h)) (int b) = Some (saved_weight h b)"
    using assms saved_buckets_ok(1) [of h]
    by (subst in_set_map_of [symmetric]) (simp_all add: saved_entry_iff)
  then show ?thesis by (simp add: lookup_default_def)
next
  case False
  then have "int b \<notin> fst ` set (BucketWeights (SaveToChekpoint h))"
    by (auto simp: BucketWeights_SaveToChekpoint)
  then show ?thesis
    using False saved_weight_bounds(2) [OF assms(3,1,2)]
    by (simp add: lookup_default_def map_of_eq_None_iff [symmetric])
qed

lemma hist_ok_NewHistogram: "options_wf c \<Longrightarrow> hist_ok (NewHistogram c)"
  by (simp add: hist_ok_def NewHistogram_inv NewHistogram_tight)

section \<open>Reachable histograms\<close>

lemma load_bucket_range: "hist_range h \<Longrightarrow> hist_range (load_bucket ratio e h)"
  by (cases e) (fastforce simp: hist_range_def load_bucket_def nonempty_bucket_def Let_def nth_list_update split: if_splits)

lemma load_buckets_range: "hist_range h \<Longrightarrow> hist_range (fold (load_bucket ratio) bs h)"
  by (induction bs arbitrary: h) (auto intro: load_bucket_range)

lemma LoadFromCheckpoint_range:
  assumes "hist_inv h" "hist_range h" "\<forall>(b, w) \<in> set (BucketWeights cp). 0 \<le> w" "LoadFromCheckpoint h (Some cp) = Inr h'"
  shows "hist_inv h' \<and> hist_range h'"
proof -
  have ok: "0 \<le> TotalWeight cp" "\<forall>(b, w) \<in> set (BucketWeights cp). 0 \<le> b \<and> b < NumBuckets (options h) \<and> 0 \<le> w"
    using assms(3,4) by (auto simp: LoadFromCheckpoint_def check_buckets_None split: if_splits option.splits)
  define n where "n = sum_list (map snd (BucketWeights cp))"
  define g where "g = fold (load_bucket (TotalWeight cp / of_int n)) (BucketWeights cp) h"
  have "0 \<le> n" unfolding n_def using assms(3) by (intro sum_list_nonneg) auto
  then have g: "hist_inv g" "hist_range g"
    using load_buckets_inv [OF assms(1) ok(2), of "TotalWeight cp / of_int n"] load_buckets_range [OF assms(2)] ok(1) by (simp_all add: g_def)
  have "h' = h \<or> h' = g\<lparr>totalWeight := totalWeight g + TotalWeight cp\<rparr>"
    using assms(4) ok by (auto simp: LoadFromCheckpoint_def n_def g_def Let_def split: if_splits option.splits)
  then show ?thesis
    using assms(1,2) g ok(1) by (auto simp: hist_inv_def hist_range_def nonempty_bucket_def)
qed

lemma LoadFromCheckpoint_no_panic: "LoadFromCheckpoint h cp \<noteq> Inl (Panic e)"
proof -
  have "check_buckets n bs \<noteq> Some (Panic e)" for n bs by (induction n bs rule: check_buckets.induct) auto
  then show ?thesis by (auto simp: LoadFromCheckpoint_def Let_def split: option.splits)
qed

text \<open>
  The histograms the code can build. The first argument says whether \<open>minBucket\<close> and \<open>maxBucket\<close>
  are exact: loading a checkpoint gives that up, subtracting and scaling restore it. The weights of a
  checkpoint are unsigned.
\<close>

inductive hist_reach :: "bool \<Rightarrow> histogram \<Rightarrow> bool" where
  new: "options_wf c \<Longrightarrow> hist_reach True (NewHistogram c)"
| add: "hist_reach exact h \<Longrightarrow> AddSample h v w = Inr h' \<Longrightarrow> hist_reach exact h'"
| subtract: "hist_reach exact h \<Longrightarrow> SubtractSample h v w = Inr h' \<Longrightarrow> hist_reach True h'"
| merge: "hist_reach exact h \<Longrightarrow> hist_reach exact' g \<Longrightarrow> Merge h g = Inr h' \<Longrightarrow> hist_reach (exact \<and> exact') h'"
| scale: "hist_reach exact h \<Longrightarrow> scale h factor = Inr h' \<Longrightarrow> hist_reach True h'"
| load: "hist_reach exact h \<Longrightarrow> \<forall>(b, w) \<in> set (BucketWeights cp). 0 \<le> w \<Longrightarrow> LoadFromCheckpoint h (Some cp) = Inr h' \<Longrightarrow>
    hist_reach False h'"

lemma hist_reach_ok: "hist_reach exact h \<Longrightarrow> hist_inv h \<and> hist_range h \<and> (exact \<longrightarrow> hist_tight h)"
proof (induction rule: hist_reach.induct)
  case (new c)
  then show ?case using NewHistogram_inv NewHistogram_tight tight_range by blast
next
  case (add exact h v w h')
  then show ?case using AddSample_inv AddSample_range AddSample_tight by blast
next
  case (subtract exact h v w h')
  then show ?case using SubtractSample_repairs tight_range by blast
next
  case (merge exact h exact' g h')
  then show ?case using Merge_inv Merge_range Merge_tight by blast
next
  case (scale exact h factor h')
  then show ?case using scale_repairs tight_range by blast
next
  case (load exact h cp h')
  then show ?case using LoadFromCheckpoint_range by blast
qed

section \<open>Properties\<close>

text \<open>
  C24. For every histogram the code can build, with samples added and subtracted, merges, scaling and
  checkpoints, \<open>Percentile\<close> returns (it never indexes out of range). When \<open>IsEmpty\<close> reports the
  histogram as empty it returns 0; otherwise it returns the end of the bucket \<open>b\<close> such that the weight
  accumulated up to \<open>b\<close> reaches \<open>percentile * totalWeight\<close>, no earlier bucket reaches it, and \<open>b\<close> is the
  last bucket of the range when none does; all non-empty buckets are in that range. As long as no
  checkpoint was loaded since the indices were last repaired, \<open>IsEmpty\<close> reports exactly the histograms that
  have no non-empty bucket.
\<close>

theorem Percentile_correct:
  assumes "hist_reach exact h"
  shows "(exact \<longrightarrow> IsEmpty h = (\<forall>b. \<not> nonempty_bucket h b)) \<and>
    (if IsEmpty h then Percentile h p = Inr 0
     else \<exists>b x. Percentile h p = Inr x \<and> bucket_end (options h) b = Inr x \<and>
       minBucket h \<le> b \<and> b \<le> maxBucket h \<and>
       (\<forall>c. nonempty_bucket h c \<longrightarrow> minBucket h \<le> c \<and> c \<le> maxBucket h) \<and>
       (p * totalWeight h \<le> cumulative (bucketWeight h) (minBucket h) b \<or> b = maxBucket h) \<and>
       (\<forall>c. minBucket h \<le> c \<and> c < b \<longrightarrow>
         cumulative (bucketWeight h) (minBucket h) c < p * totalWeight h))"
proof -
  have inv: "hist_inv h" and rng: "hist_range h" and tight: "exact \<longrightarrow> hist_tight h"
    using hist_reach_ok [OF assms] by auto
  show ?thesis
  proof (cases "IsEmpty h")
    case True
    then show ?thesis using IsEmpty_iff [OF inv] tight by (auto simp: Percentile_eq)
  next
    case False
    then have "nonempty_bucket h (minBucket h)" using hist_invD(3) [OF inv] by (simp add: IsEmpty_def nonempty_bucket_def)
    then have le: "minBucket h \<le> maxBucket h" and ne: "\<not> (\<forall>b. \<not> nonempty_bucket h b)"
      using rng by (auto simp: hist_range_def)
    define b where "b = percentile_bucket h p"
    have "minBucket h \<le> b \<and> b \<le> maxBucket h \<and>
        (b < maxBucket h \<longrightarrow> p * totalWeight h \<le> 0 + cumulative (bucketWeight h) (minBucket h) b) \<and>
        (\<forall>c. minBucket h \<le> c \<and> c < b \<longrightarrow>
          0 + cumulative (bucketWeight h) (minBucket h) c < p * totalWeight h)"
      unfolding b_def percentile_bucket_def by (rule percentile_loop_spec [OF le refl])
    moreover obtain x where "Percentile h p = Inr x" using Percentile_Inr [OF inv] by blast
    ultimately show ?thesis
      using False ne rng by (auto simp: Percentile_eq b_def [symmetric] hist_range_def)
  qed
qed

text \<open>A concrete histogram: two linear buckets of weight \<open>0.0001\<close> and \<open>0.7\<close>.\<close>

definition two_buckets :: histogram where
  "two_buckets =
     \<lparr>options = LinearOptions \<lparr>lin_numBuckets = 2, lin_bucketSize = 1, lin_epsilon = 1 / 10000\<rparr>,
      bucketWeight = [1 / 10000, 7 / 10], totalWeight = 7001 / 10000, minBucket = 0, maxBucket = 1\<rparr>"

lemma two_buckets_simps [simp]:
  "options two_buckets =
     LinearOptions \<lparr>lin_numBuckets = 2, lin_bucketSize = 1, lin_epsilon = 1 / 10000\<rparr>"
  "bucketWeight two_buckets = [1 / 10000, 7 / 10]" "totalWeight two_buckets = 7001 / 10000"
  "minBucket two_buckets = 0" "maxBucket two_buckets = 1"
  by (simp_all add: two_buckets_def)

lemma nonempty_two_buckets: "nonempty_bucket two_buckets b \<longleftrightarrow> b < 2"
  by (auto simp: nonempty_bucket_def less_2_cases_iff)

lemma hist_ok_two_buckets: "hist_ok two_buckets"
  by (auto simp: hist_ok_def hist_inv_def hist_tight_def nonempty_two_buckets linear_wf_def
      less_Suc_eq)

lemma reach_two_buckets: "hist_reach True two_buckets"
proof -
  let ?o = "LinearOptions \<lparr>lin_numBuckets = 2, lin_bucketSize = 1, lin_epsilon = 1 / 10000\<rparr>"
  let ?h = "\<lparr>options = ?o, bucketWeight = [1 / 10000, 0], totalWeight = 1 / 10000, minBucket = 0, maxBucket = 0\<rparr>"
  have n: "hist_reach True (NewHistogram ?o)" by (rule hist_reach.new) (simp add: linear_wf_def)
  have "AddSample (NewHistogram ?o) 0 (1 / 10000) = Inr ?h"
    by (simp add: AddSample_def NewHistogram_def Let_def linear_FindBucket_def go_trunc_def numeral_2_eq_2)
  note add = hist_reach.add [OF hist_reach.add [OF n this]]
  show ?thesis
    by (rule add [of 1 "7 / 10"]) (simp add: AddSample_def Let_def linear_FindBucket_def go_trunc_def two_buckets_def)
qed

theorem Percentile_correct_witness:
  "hist_reach True two_buckets \<and>
   (\<exists>b x. Percentile two_buckets (1 / 2) = Inr x \<and>
     bucket_end (options two_buckets) b = Inr x \<and> b \<le> 1 \<and>
     (1 / 2 * (7001 / 10000) \<le> cumulative [1 / 10000, 7 / 10] 0 b \<or> b = 1))"
proof -
  have "\<not> IsEmpty two_buckets" by (simp add: IsEmpty_def)
  with Percentile_correct [OF reach_two_buckets, of "1 / 2"] show ?thesis
    using reach_two_buckets unfolding two_buckets_simps by (simp only: if_False) blast
qed

text \<open>
  C25. The invariant of the histogram, in every histogram the code can build: sizes and signs are right,
  and every bucket whose weight reaches \<open>epsilon\<close> lies between \<open>minBucket\<close> and \<open>maxBucket\<close>. The two are
  exactly the first and the last such bucket unless a checkpoint was loaded and neither \<open>SubtractSample\<close>
  nor \<open>scale\<close> has repaired them since. Adding, subtracting and scaling succeed on non-negative arguments,
  merging on equal options, and loading any checkpoint returns without a panic.
\<close>

theorem histogram_invariant:
  assumes "hist_reach exact h"
  shows "hist_inv h \<and> (\<forall>b. nonempty_bucket h b \<longrightarrow> minBucket h \<le> b \<and> b \<le> maxBucket h) \<and> (exact \<longrightarrow> hist_tight h) \<and>
    (\<forall>w \<ge> 0. \<forall>v. (\<exists>h'. AddSample h v w = Inr h') \<and> (\<exists>h'. SubtractSample h v w = Inr h') \<and> (\<exists>h'. scale h w = Inr h')) \<and>
    (\<forall>exact' g. hist_reach exact' g \<and> options h = options g \<longrightarrow> (\<exists>h'. Merge h g = Inr h')) \<and>
    (\<forall>cp e. LoadFromCheckpoint h cp \<noteq> Inl (Panic e))"
proof -
  have "hist_inv h" "hist_range h" "exact \<longrightarrow> hist_tight h" using hist_reach_ok [OF assms] by auto
  then show ?thesis
    using AddSample_Inr SubtractSample_Inr scale_Inr Merge_Inr LoadFromCheckpoint_no_panic unfolding hist_range_def by blast
qed

theorem histogram_invariant_witness:
  "hist_tight two_buckets \<and> (\<exists>h'. SubtractSample two_buckets 0 (1 / 2) = Inr h') \<and> (\<exists>h'. Merge two_buckets two_buckets = Inr h')"
  using histogram_invariant [OF reach_two_buckets] reach_two_buckets by auto

text \<open>
  C37. A histogram saved to a checkpoint and loaded into a new one of the same options keeps its
  total weight. The weight of each bucket relative to the heaviest one is rounded to a whole number of
  ten-thousandths (an error of at most one half), and the bucket gets back the share of the total weight
  that this number has in the sum of these numbers; buckets outside of the range get nothing.
\<close>

theorem checkpoint_roundtrip:
  assumes "hist_reach exact h" "\<not> IsEmpty h"
  shows "\<exists>h' k. LoadFromCheckpoint (NewHistogram (options h)) (Some (SaveToChekpoint h)) = Inr h' \<and>
    totalWeight h' = totalWeight h \<and> 0 < (\<Sum>b = minBucket h..maxBucket h. k b) \<and>
    (\<forall>b. minBucket h \<le> b \<and> b \<le> maxBucket h \<longrightarrow> \<bar>of_int (k b) - bucketWeight h ! b * (10000 / max_weight h)\<bar> \<le> 1 / 2) \<and>
    (\<forall>b < length (bucketWeight h). bucketWeight h' ! b =
       (if minBucket h \<le> b \<and> b \<le> maxBucket h
        then of_int (k b) / of_int (\<Sum>b = minBucket h..maxBucket h. k b) * totalWeight h else 0))"
proof -
  have inv: "hist_inv h" and hr: "hist_range h" using hist_reach_ok [OF assms(1)] by simp_all
  let ?n = "NewHistogram (options h)" and ?bs = "BucketWeights (SaveToChekpoint h)"
  define S where "S = (\<Sum>b = minBucket h..maxBucket h. saved_weight h b)"
  have sum: "sum_list (map snd ?bs) = S" by (simp add: S_def saved_sum [OF inv])
  let ?r = "totalWeight h / of_int S"
  have S: "0 < S" using saved_sum_pos(1) [OF inv hr assms(2)] by (simp add: sum)
  have n: "hist_inv ?n" "options ?n = options h" "totalWeight ?n = 0"
    "length (bucketWeight ?n) = length (bucketWeight h)"
    using NewHistogram_inv [OF hist_invD(1) [OF inv]] hist_invD(2) [OF inv, symmetric]
    by (simp_all add: NewHistogram_def)
  have rng: "\<forall>(b, w) \<in> set ?bs. 0 \<le> b \<and> b < NumBuckets (options ?n) \<and> 0 \<le> w"
    using saved_buckets_ok(2) [of _ _ h] hist_invD(2,4) [OF inv] n(2) by fastforce
  define h1 where "h1 = fold (load_bucket ?r) ?bs ?n"
  have load: "LoadFromCheckpoint ?n (Some (SaveToChekpoint h)) =
      Inr (h1\<lparr>totalWeight := totalWeight h1 + totalWeight h\<rparr>)"
    using LoadFromCheckpoint_eq [OF n(1), of "SaveToChekpoint h" S] rng S hist_invD(6) [OF inv]
    by (auto simp: sum h1_def Let_def)
  have h1: "totalWeight h1 = 0"
    using load_buckets_inv [OF n(1) rng, of ?r] S hist_invD(6) [OF inv] n(3)
    by (simp add: h1_def)
  have "bucketWeight h1 ! b = (if minBucket h \<le> b \<and> b \<le> maxBucket h then of_int (saved_weight h b) / of_int S * totalWeight h else 0)"
    if b: "b < length (bucketWeight h)" for b
  proof -
    have lt: "b < length (bucketWeight ?n)" using b n(4) by simp
    have "\<forall>(b, w) \<in> set ?bs. 0 \<le> b \<and> nat b < length (bucketWeight ?n)"
      using saved_buckets_ok(2) [of _ _ h] hist_invD(4) [OF inv] n(4) by fastforce
    then have w: "bucketWeight h1 ! b = of_int (lookup_default 0 ?bs (int b)) * ?r"
      unfolding h1_def using load_buckets_weight [OF saved_buckets_ok(1) _ lt] lt by (simp add: NewHistogram_def)
    show ?thesis
    proof (cases "minBucket h \<le> b \<and> b \<le> maxBucket h")
      case True
      then show ?thesis using w saved_lookup [OF _ _ inv, of b] by simp
    next
      case False
      then have "map_of ?bs (int b) = None"
        using saved_entry_iff [of b _ h] map_of_SomeD [of ?bs "int b"] by (cases "map_of ?bs (int b)") auto
      then show ?thesis using False w by (auto simp: lookup_default_def)
    qed
  qed
  moreover have "\<bar>of_int (saved_weight h b) - bucketWeight h ! b * (10000 / max_weight h)\<bar> \<le> 1 / 2"
    if b: "minBucket h \<le> b" "b \<le> maxBucket h" for b
    unfolding saved_weight_bounds(1) [OF inv b] using go_round_near by (simp add: MaxCheckpointWeight_def)
  ultimately show ?thesis using load S h1 unfolding S_def
    by (intro exI [of _ "h1\<lparr>totalWeight := totalWeight h1 + totalWeight h\<rparr>"] exI [of _ "saved_weight h"]) simp
qed

theorem checkpoint_roundtrip_witness:
  "\<exists>h'. LoadFromCheckpoint (NewHistogram (options two_buckets)) (Some (SaveToChekpoint two_buckets)) = Inr h' \<and>
    totalWeight h' = totalWeight two_buckets"
proof -
  have "\<not> IsEmpty two_buckets" by (simp add: IsEmpty_def)
  from checkpoint_roundtrip [OF reach_two_buckets this] show ?thesis by blast
qed

text \<open>
  The round trip can lose the data: the struct promises that \<open>minBucket\<close> is the first
  non-empty bucket, but \<open>LoadFromCheckpoint\<close> lowers it without comparing the restored weight with
  \<open>epsilon\<close>. A histogram that is not empty can be saved and loaded into one that \<open>IsEmpty\<close> reports
  as empty, and all whose percentiles are 0, although a bucket of it is not empty.
\<close>

theorem checkpoint_load_breaks_minBucket:
  "\<exists>h h'. hist_ok h \<and> \<not> IsEmpty h \<and>
     LoadFromCheckpoint (NewHistogram (options h)) (Some (SaveToChekpoint h)) = Inr h' \<and>
     \<not> hist_tight h' \<and> IsEmpty h' \<and> (\<exists>b. nonempty_bucket h' b) \<and> (\<forall>p. Percentile h' p = Inr 0)"
proof -
  have max: "max_weight two_buckets = 7 / 10"
    by (simp add: max_weight_def numeral_2_eq_2 upt_rec)
  have save: "SaveToChekpoint two_buckets =
    \<lparr>ReferenceTimestamp = 0, BucketWeights = [(0, 1), (1, 10000)], TotalWeight = 7001 / 10000\<rparr>"
    by (simp add: SaveToChekpoint_def Let_def max MaxCheckpointWeight_def go_round_def upt_rec
        zero_time_def floor_eq_iff)
  let ?h = "\<lparr>options = options two_buckets, bucketWeight = [7001 / 100010000, 7001 / 10001],
    totalWeight = 7001 / 10000, minBucket = 0, maxBucket = 1\<rparr>"
  have load: "LoadFromCheckpoint (NewHistogram (options two_buckets)) (Some (SaveToChekpoint two_buckets)) = Inr ?h"
    by (simp add: save LoadFromCheckpoint_def NewHistogram_def load_bucket_def Let_def numeral_2_eq_2)
  have empty: "IsEmpty ?h" by (simp add: IsEmpty_def)
  have ne: "nonempty_bucket ?h 1" by (simp add: nonempty_bucket_def)
  have inv: "hist_inv ?h" by (auto simp: hist_inv_def linear_wf_def less_Suc_eq)
  have "\<not> hist_tight ?h" using IsEmpty_iff [OF inv] empty ne by blast
  moreover have "\<not> IsEmpty two_buckets" by (simp add: IsEmpty_def)
  ultimately show ?thesis using load hist_ok_two_buckets empty ne by (force simp: Percentile_eq)
qed

end
