(* ===== verification/Decaying_Histogram.thy ===== *)
theory Decaying_Histogram
  imports Histogram
begin

text \<open>
  The decaying histogram of \<open>pkg/recommender/util/decaying_histogram.go\<close>. A sample taken at time
  \<open>t\<close> enters with its weight times \<open>2 ^ ((t - referenceTimestamp) / halfLife)\<close>; before the exponent
  exceeds \<open>maxDecayExponent\<close> the reference is moved and all weights are rescaled.
  \<open>Merge\<close> may rescale its argument as well, so it returns both histograms. \<open>math.Ldexp(1, n)\<close> and
  \<open>math.Exp2(x)\<close> are \<open>2 powr n\<close> and \<open>2 powr x\<close>.
\<close>

record decayingHistogram =
  dh_histogram :: histogram
  halfLife :: duration
  referenceTimestamp :: time

definition maxDecayExponent :: int where "maxDecayExponent = 100"

definition NewDecayingHistogram :: "HistogramOptions \<Rightarrow> duration \<Rightarrow> decayingHistogram" where
  "NewDecayingHistogram opts hl =
     \<lparr>dh_histogram = NewHistogram opts, halfLife = hl, referenceTimestamp = zero_time\<rparr>"

definition decaying_Percentile :: "decayingHistogram \<Rightarrow> float64 \<Rightarrow> float64 result" where
  "decaying_Percentile h percentile = Percentile (dh_histogram h) percentile"

definition shiftReferenceTimestamp :: "decayingHistogram \<Rightarrow> time \<Rightarrow> decayingHistogram result" where
  "shiftReferenceTimestamp h newTimestamp =
     (let newRef = time_Round newTimestamp (halfLife h);
          exponent = go_round (of_int (time_Sub (referenceTimestamp h) newRef)
                               / of_int (halfLife h))
      in rbind (scale (dh_histogram h) (2 powr of_int exponent))
           (\<lambda>g. Inr (h\<lparr>dh_histogram := g, referenceTimestamp := newRef\<rparr>)))"

text \<open>The factor, and the histogram after a possible renormalisation.\<close>

definition decayFactor :: "decayingHistogram \<Rightarrow> time \<Rightarrow> (float64 \<times> decayingHistogram) result" where
  "decayFactor h timestamp =
     (let maxAllowedTimestamp =
            time_Add (referenceTimestamp h) (wrap64 (halfLife h * maxDecayExponent))
      in rbind (if time_After timestamp maxAllowedTimestamp
                then shiftReferenceTimestamp h timestamp else Inr h)
           (\<lambda>h'. Inr (2 powr (of_int (time_Sub timestamp (referenceTimestamp h'))
                              / of_int (halfLife h')), h')))"

definition decaying_AddSample ::
    "decayingHistogram \<Rightarrow> float64 \<Rightarrow> float64 \<Rightarrow> time \<Rightarrow> decayingHistogram result" where
  "decaying_AddSample h v weight t =
     rbind (decayFactor h t) (\<lambda>(factor, h').
       rbind (AddSample (dh_histogram h') v (weight * factor))
         (\<lambda>g. Inr (h'\<lparr>dh_histogram := g\<rparr>)))"

definition decaying_SubtractSample ::
    "decayingHistogram \<Rightarrow> float64 \<Rightarrow> float64 \<Rightarrow> time \<Rightarrow> decayingHistogram result" where
  "decaying_SubtractSample h v weight t =
     rbind (decayFactor h t) (\<lambda>(factor, h').
       rbind (SubtractSample (dh_histogram h') v (weight * factor))
         (\<lambda>g. Inr (h'\<lparr>dh_histogram := g\<rparr>)))"

text \<open>The first half of \<open>Merge\<close>: the older reference is aligned with the younger one.\<close>

definition align_references ::
    "decayingHistogram \<Rightarrow> decayingHistogram \<Rightarrow> (decayingHistogram \<times> decayingHistogram) result" where
  "align_references h other =
     (if time_Before (referenceTimestamp h) (referenceTimestamp other)
      then rbind (shiftReferenceTimestamp h (referenceTimestamp other)) (\<lambda>h'. Inr (h', other))
      else if time_Before (referenceTimestamp other) (referenceTimestamp h)
      then rbind (shiftReferenceTimestamp other (referenceTimestamp h)) (\<lambda>o'. Inr (h, o'))
      else Inr (h, other))"

definition decaying_Merge ::
    "decayingHistogram \<Rightarrow> decayingHistogram \<Rightarrow> (decayingHistogram \<times> decayingHistogram) result" where
  "decaying_Merge h other =
     (if halfLife h \<noteq> halfLife other
      then Inl (Panic ''can't merge decaying histograms with different half life periods'')
      else rbind (align_references h other)
        (\<lambda>(h', o'). rbind (Merge (dh_histogram h') (dh_histogram o'))
           (\<lambda>g. Inr (h'\<lparr>dh_histogram := g\<rparr>, o'))))"

definition decaying_Equals :: "decayingHistogram \<Rightarrow> decayingHistogram \<Rightarrow> bool" where
  "decaying_Equals h h2 \<longleftrightarrow>
     halfLife h = halfLife h2 \<and> referenceTimestamp h = referenceTimestamp h2 \<and>
     Equals (dh_histogram h) (dh_histogram h2)"

definition decaying_IsEmpty :: "decayingHistogram \<Rightarrow> bool" where
  "decaying_IsEmpty h \<longleftrightarrow> IsEmpty (dh_histogram h)"

definition decaying_SaveToChekpoint :: "decayingHistogram \<Rightarrow> HistogramCheckpoint" where
  "decaying_SaveToChekpoint h =
     (SaveToChekpoint (dh_histogram h))\<lparr>ReferenceTimestamp := referenceTimestamp h\<rparr>"

definition decaying_LoadFromCheckpoint ::
    "decayingHistogram \<Rightarrow> HistogramCheckpoint option \<Rightarrow> decayingHistogram result" where
  "decaying_LoadFromCheckpoint h checkpoint =
     rbind (LoadFromCheckpoint (dh_histogram h) checkpoint)
       (\<lambda>g. case checkpoint of
              None \<Rightarrow> Inl (Panic ''nil pointer dereference'')
            | Some cp \<Rightarrow> Inr (h\<lparr>dh_histogram := g, referenceTimestamp := ReferenceTimestamp cp\<rparr>))"

section \<open>Invariant\<close>

text \<open>
  The half life is positive, a hundred of them fit into a \<open>time.Duration\<close>, and, as the struct
  documents, the reference timestamp is a multiple of the half life.
\<close>

definition decaying_ok :: "decayingHistogram \<Rightarrow> bool" where
  "decaying_ok h \<longleftrightarrow>
     hist_ok (dh_histogram h) \<and> 0 < halfLife h \<and> halfLife h * maxDecayExponent \<le> int64_max \<and>
     referenceTimestamp h mod halfLife h = 0"

definition decaying_same :: "decayingHistogram \<Rightarrow> decayingHistogram \<Rightarrow> bool" where
  "decaying_same h g \<longleftrightarrow>
     options (dh_histogram h) = options (dh_histogram g) \<and> halfLife h = halfLife g"

lemma decaying_same_refl [simp]: "decaying_same h h"
  by (simp add: decaying_same_def)

lemma NewDecayingHistogram_ok:
  "options_wf c \<Longrightarrow> 0 < hl \<Longrightarrow> hl * maxDecayExponent \<le> int64_max \<Longrightarrow>
   decaying_ok (NewDecayingHistogram c hl)"
  by (simp add: decaying_ok_def NewDecayingHistogram_def zero_time_def hist_ok_NewHistogram)

lemma shiftReferenceTimestamp_ok:
  assumes "decaying_ok h"
  shows "\<exists>h'. shiftReferenceTimestamp h t = Inr h' \<and> decaying_ok h' \<and> decaying_same h h' \<and>
    referenceTimestamp h' = time_Round t (halfLife h)"
proof -
  let ?f = "2 powr of_int (go_round (of_int (time_Sub (referenceTimestamp h)
    (time_Round t (halfLife h))) / of_int (halfLife h))) :: real"
  obtain g where g: "scale (dh_histogram h) ?f = Inr g" using scale_Inr [of ?f] by auto
  have "hist_ok g" "options g = options (dh_histogram h)"
    using scale_inv_tight [OF _ _ g] scale_options [OF g] assms
    by (simp_all add: decaying_ok_def hist_ok_def)
  then show ?thesis
    using g assms time_Round_multiple
    by (simp add: shiftReferenceTimestamp_def Let_def decaying_ok_def decaying_same_def)
qed

lemma decay_limit: "decaying_ok h \<Longrightarrow> wrap64 (halfLife h * maxDecayExponent) = halfLife h * maxDecayExponent"
  by (rule wrap64_id)
    (auto simp: decaying_ok_def in_int64_def maxDecayExponent_def int64_min_def)

text \<open>\<open>decayFactor\<close> on both branches: with and without renormalisation.\<close>

lemma decayFactor_cases:
  assumes "decaying_ok h"
  obtains f h' where "decayFactor h t = Inr (f, h')" "decaying_ok h'" "decaying_same h h'"
    "f = 2 powr (of_int (time_Sub t (referenceTimestamp h')) / of_int (halfLife h))"
    "if referenceTimestamp h + halfLife h * maxDecayExponent < t
     then shiftReferenceTimestamp h t = Inr h' \<and> referenceTimestamp h' = time_Round t (halfLife h)
     else h' = h"
proof (cases "referenceTimestamp h + halfLife h * maxDecayExponent < t")
  case True
  obtain h' where h': "shiftReferenceTimestamp h t = Inr h'" "decaying_ok h'" "decaying_same h h'"
    "referenceTimestamp h' = time_Round t (halfLife h)"
    using shiftReferenceTimestamp_ok [OF assms] by blast
  have "decayFactor h t =
      Inr (2 powr (of_int (time_Sub t (referenceTimestamp h')) / of_int (halfLife h')), h')"
    using True by (simp only: decayFactor_def Let_def time_defs decay_limit [OF assms] if_True h'(1) rbind_simps)
  then show ?thesis
    using that [OF _ h'(2,3)] True h' by (simp add: decaying_same_def)
next
  case False
  have "decayFactor h t =
      Inr (2 powr (of_int (time_Sub t (referenceTimestamp h)) / of_int (halfLife h)), h)"
    using False by (simp only: decayFactor_def Let_def time_defs decay_limit [OF assms] if_False rbind_simps)
  then show ?thesis
    using that [OF _ assms] False by (simp add: decaying_same_def)
qed

lemma decaying_AddSample_ok:
  assumes "decaying_ok h" "0 \<le> w"
  shows "\<exists>h'. decaying_AddSample h v w t = Inr h' \<and> decaying_ok h' \<and> decaying_same h h'"
proof -
  obtain f h1 where h1: "decayFactor h t = Inr (f, h1)" "decaying_ok h1" "decaying_same h h1" "0 \<le> w * f"
    using decayFactor_cases [OF assms(1), of t] assms(2) by (metis mult_nonneg_nonneg powr_ge_zero)
  then obtain g where "AddSample (dh_histogram h1) v (w * f) = Inr g" "hist_ok g"
    "options (dh_histogram h1) = options g"
    using hist.add_ok [of "dh_histogram h1" "w * f" v] by (auto simp: decaying_ok_def)
  then show ?thesis
    using h1 by (simp add: decaying_AddSample_def decaying_ok_def decaying_same_def)
qed

lemma decaying_SubtractSample_ok:
  assumes "decaying_ok h" "0 \<le> w"
  shows "\<exists>h'. decaying_SubtractSample h v w t = Inr h' \<and> decaying_ok h' \<and> decaying_same h h'"
proof -
  obtain f h1 where h1: "decayFactor h t = Inr (f, h1)" "decaying_ok h1" "decaying_same h h1" "0 \<le> w * f"
    using decayFactor_cases [OF assms(1), of t] assms(2) by (metis mult_nonneg_nonneg powr_ge_zero)
  then obtain g where "SubtractSample (dh_histogram h1) v (w * f) = Inr g" "hist_ok g"
    "options (dh_histogram h1) = options g"
    using hist.sub_ok [of "dh_histogram h1" "w * f" v] by (auto simp: decaying_ok_def)
  then show ?thesis
    using h1 by (simp add: decaying_SubtractSample_def decaying_ok_def decaying_same_def)
qed

text \<open>Before the weights are added both histograms have the younger of the two references.\<close>

lemma decaying_Merge_ok:
  assumes "decaying_ok h" "decaying_ok g" "decaying_same h g"
  shows "\<exists>h' g'. decaying_Merge h g = Inr (h', g') \<and> decaying_ok h' \<and> decaying_same h h' \<and>
    decaying_ok g' \<and> decaying_same g g' \<and>
    referenceTimestamp h' = max (referenceTimestamp h) (referenceTimestamp g) \<and>
    referenceTimestamp g' = max (referenceTimestamp h) (referenceTimestamp g)"
proof -
  let ?m = "max (referenceTimestamp h) (referenceTimestamp g)"
  have hl: "halfLife h = halfLife g" using assms(3) by (simp add: decaying_same_def)
  have rnd: "time_Round ?m (halfLife h) = ?m" "time_Round ?m (halfLife g) = ?m"
    using assms hl by (auto simp: decaying_ok_def max_def time_Round_of_multiple)
  have "\<exists>h1 g1. align_references h g = Inr (h1, g1) \<and> decaying_ok h1 \<and> decaying_same h h1 \<and>
      decaying_ok g1 \<and> decaying_same g g1 \<and> referenceTimestamp h1 = ?m \<and> referenceTimestamp g1 = ?m"
  proof (cases "referenceTimestamp h" "referenceTimestamp g" rule: linorder_cases)
    case less
    then show ?thesis
      using shiftReferenceTimestamp_ok [OF assms(1), of "referenceTimestamp g"] rnd(1) assms(2)
      by (auto simp: align_references_def time_defs)
  next
    case greater
    then show ?thesis
      using shiftReferenceTimestamp_ok [OF assms(2), of "referenceTimestamp h"] rnd(2) assms(1)
      by (auto simp: align_references_def time_defs)
  next
    case equal
    then show ?thesis using assms(1,2) by (simp add: align_references_def time_defs)
  qed
  then obtain h1 g1 where p: "align_references h g = Inr (h1, g1)"
    "decaying_ok h1" "decaying_same h h1" "decaying_ok g1" "decaying_same g g1"
    "referenceTimestamp h1 = ?m" "referenceTimestamp g1 = ?m"
    by blast
  obtain k where k: "Merge (dh_histogram h1) (dh_histogram g1) = Inr k" "hist_ok k"
    "options (dh_histogram h1) = options k"
    using hist.merge_ok [of "dh_histogram h1" "dh_histogram g1"] p(2-5) assms(3)
    by (auto simp: decaying_ok_def decaying_same_def)
  have "decaying_Merge h g = Inr (h1\<lparr>dh_histogram := k\<rparr>, g1)"
    using hl by (simp add: decaying_Merge_def p(1) k(1))
  moreover have "decaying_ok (h1\<lparr>dh_histogram := k\<rparr>)" "decaying_same h (h1\<lparr>dh_histogram := k\<rparr>)"
    using p k by (auto simp: decaying_ok_def decaying_same_def)
  ultimately show ?thesis using p by simp
qed

interpretation decaying: sample_store decaying_ok decaying_same decaying_AddSample
  decaying_SubtractSample "\<lambda>h g. rbind (decaying_Merge h g) (\<lambda>(h', _). Inr h')" decaying_Percentile
proof (unfold_locales, goal_cases)
  case (4 h w v t)
  then show ?case by (rule decaying_AddSample_ok)
next
  case (5 h w v t)
  then show ?case by (rule decaying_SubtractSample_ok)
next
  case (6 h g)
  then show ?case using decaying_Merge_ok [of h g] by auto
next
  case (7 h p)
  then show ?case using hist.pct_ok by (simp add: decaying_ok_def decaying_Percentile_def)
next
  case (8 h p q x y)
  then show ?case
    using hist.pct_mono [of "dh_histogram h" p q x y] by (simp add: decaying_ok_def decaying_Percentile_def)
qed (auto simp: decaying_same_def)

section \<open>The weaker invariant that also restored histograms satisfy\<close>

text \<open>
  A histogram restored from a checkpoint need not be tight and its reference need not be a
  multiple of the half life. Sizes and signs are enough for every operation to succeed, so the
  interface has a second implementation contract with this weaker invariant.
\<close>

definition decaying_inv :: "decayingHistogram \<Rightarrow> bool" where
  "decaying_inv h \<longleftrightarrow>
     hist_inv (dh_histogram h) \<and> 0 < halfLife h \<and> halfLife h * maxDecayExponent \<le> int64_max"

lemma decaying_ok_inv: "decaying_ok h \<Longrightarrow> decaying_inv h"
  by (simp add: decaying_ok_def decaying_inv_def hist_ok_def)

lemma updateMinAndMaxBucket_inv:
  assumes "hist_inv h"
  shows "hist_inv (updateMinAndMaxBucket h)"
proof -
  let ?n = "nat (NumBuckets (options h) - 1)"
  have n: "minBucket h \<le> ?n" "Suc ?n = length (bucketWeight h)" using assms by (auto simp: hist_inv_def)
  have "advance_min (bucketWeight h) (Epsilon (options h)) ?n (minBucket h) \<le> ?n"
    using advance_min_spec [OF n(1) refl] by blast
  moreover have "retreat_max (bucketWeight h) (Epsilon (options h)) (maxBucket h) \<le> maxBucket h"
    using retreat_max_spec [OF refl] by blast
  ultimately show ?thesis
    using assms n(2) by (auto simp: hist_inv_def updateMinAndMaxBucket_def Let_def)
qed

lemma SubtractSample_inv: "hist_inv h \<Longrightarrow> SubtractSample h v w = Inr h' \<Longrightarrow> hist_inv h'"
proof -
  assume inv: "hist_inv h" and s: "SubtractSample h v w = Inr h'"
  let ?b = "nat (FindBucket (options h) v)" and ?e = "Epsilon (options h)"
  have e: "0 < ?e" using inv opts.eps_pos by (simp add: hist_inv_def)
  have "0 \<le> safeSubtract x w ?e" for x using e by (simp add: safeSubtract_def)
  then have "hist_inv (h\<lparr>totalWeight := safeSubtract (totalWeight h) w ?e,
      bucketWeight := (bucketWeight h)[?b := safeSubtract (bucketWeight h ! ?b) w ?e]\<rparr>)"
    using inv by (simp add: hist_inv_def) (metis length_list_update nth_list_update nth_list_update_neq)
  then show ?thesis
    using s updateMinAndMaxBucket_inv by (auto simp: SubtractSample_def Let_def split: if_splits)
qed

lemma scale_inv: "hist_inv h \<Longrightarrow> scale h f = Inr h' \<Longrightarrow> hist_inv h'"
proof -
  assume inv: "hist_inv h" and s: "scale h f = Inr h'"
  then have "hist_inv (h\<lparr>bucketWeight := update_range (minBucket h) (maxBucket h) (\<lambda>_ w. w * f)
      (bucketWeight h), totalWeight := totalWeight h * f\<rparr>)"
    by (auto simp: hist_inv_def nth_update_range scale_def split: if_splits)
  then show ?thesis
    using s updateMinAndMaxBucket_inv by (auto simp: scale_def split: if_splits)
qed

interpretation hist_weak: sample_store hist_inv "\<lambda>h g. options h = options g"
  "\<lambda>h v w t. AddSample h v w" "\<lambda>h v w t. SubtractSample h v w" Merge Percentile
proof (unfold_locales, goal_cases)
  case (4 h w v t)
  then obtain h' where "AddSample h v w = Inr h'" using AddSample_Inr by blast
  then show ?case using 4 AddSample_inv [of h v w h'] AddSample_options [of h v w h'] by simp
next
  case (5 h w v t)
  then obtain h' where "SubtractSample h v w = Inr h'" using SubtractSample_Inr by blast
  then show ?case
    using 5 SubtractSample_inv [of h v w h'] SubtractSample_options [of h v w h'] by simp
next
  case (6 h g)
  then obtain h' where "Merge h g = Inr h'" using Merge_Inr by blast
  then show ?case using 6 Merge_inv [of h g h'] Merge_options [of h g h'] by simp
next
  case (7 h p)
  then show ?case by (rule Percentile_Inr)
next
  case (8 h p q x y)
  then show ?case by (rule Percentile_mono)
qed auto

lemma shiftReferenceTimestamp_inv:
  assumes "decaying_inv h"
  shows "\<exists>h'. shiftReferenceTimestamp h t = Inr h' \<and> decaying_inv h' \<and> decaying_same h h'"
proof -
  let ?f = "2 powr of_int (go_round (of_int (time_Sub (referenceTimestamp h)
    (time_Round t (halfLife h))) / of_int (halfLife h))) :: real"
  obtain g where g: "scale (dh_histogram h) ?f = Inr g" using scale_Inr [of ?f] by auto
  have "hist_inv g" "options g = options (dh_histogram h)"
    using scale_inv [OF _ g] scale_options [OF g] assms by (simp_all add: decaying_inv_def)
  then show ?thesis
    using g assms by (simp add: shiftReferenceTimestamp_def Let_def decaying_inv_def decaying_same_def)
qed

lemma decayFactor_inv:
  assumes "decaying_inv h"
  obtains f h' where "decayFactor h t = Inr (f, h')" "decaying_inv h'" "decaying_same h h'" "0 < f"
proof (cases "time_After t (time_Add (referenceTimestamp h) (wrap64 (halfLife h * maxDecayExponent)))")
  case True
  then show ?thesis
    using that shiftReferenceTimestamp_inv [OF assms, of t]
    by (auto simp: decayFactor_def Let_def)
next
  case False
  then show ?thesis using that assms by (simp add: decayFactor_def Let_def)
qed

lemma align_references_inv:
  assumes "decaying_inv h" "decaying_inv g"
  shows "\<exists>h' g'. align_references h g = Inr (h', g') \<and> decaying_inv h' \<and> decaying_same h h' \<and>
    decaying_inv g' \<and> decaying_same g g'"
  using shiftReferenceTimestamp_inv [OF assms(1), of "referenceTimestamp g"]
    shiftReferenceTimestamp_inv [OF assms(2), of "referenceTimestamp h"] assms
  by (auto simp: align_references_def)

lemma decaying_Merge_inv:
  assumes "decaying_inv h" "decaying_inv g" "decaying_same h g"
  shows "\<exists>h' g'. decaying_Merge h g = Inr (h', g') \<and> decaying_inv h' \<and> decaying_same h h' \<and>
    decaying_inv g' \<and> decaying_same g g'"
proof -
  obtain h1 g1 where p: "align_references h g = Inr (h1, g1)"
    "decaying_inv h1" "decaying_same h h1" "decaying_inv g1" "decaying_same g g1"
    using align_references_inv [OF assms(1,2)] by blast
  obtain k where k: "Merge (dh_histogram h1) (dh_histogram g1) = Inr k" "hist_inv k"
    "options (dh_histogram h1) = options k"
    using hist_weak.merge_ok [of "dh_histogram h1" "dh_histogram g1"] p(2-5) assms(3)
    by (auto simp: decaying_inv_def decaying_same_def)
  have "decaying_Merge h g = Inr (h1\<lparr>dh_histogram := k\<rparr>, g1)"
    using assms(3) by (simp add: decaying_Merge_def decaying_same_def p(1) k(1))
  moreover have "decaying_inv (h1\<lparr>dh_histogram := k\<rparr>)" "decaying_same h (h1\<lparr>dh_histogram := k\<rparr>)"
    using p k by (auto simp: decaying_inv_def decaying_same_def)
  ultimately show ?thesis using p by simp
qed

interpretation decaying_weak: sample_store decaying_inv decaying_same decaying_AddSample
  decaying_SubtractSample "\<lambda>h g. rbind (decaying_Merge h g) (\<lambda>(h', _). Inr h')" decaying_Percentile
proof (unfold_locales, goal_cases)
  case (4 h w v t)
  obtain f h1 where h1: "decayFactor h t = Inr (f, h1)" "decaying_inv h1" "decaying_same h h1" "0 < f"
    by (rule decayFactor_inv [OF 4(1)])
  then show ?case
    using hist_weak.add_ok [of "dh_histogram h1" "w * f" v] 4(2)
    by (auto simp: decaying_AddSample_def decaying_inv_def decaying_same_def)
next
  case (5 h w v t)
  obtain f h1 where h1: "decayFactor h t = Inr (f, h1)" "decaying_inv h1" "decaying_same h h1" "0 < f"
    by (rule decayFactor_inv [OF 5(1)])
  then show ?case
    using hist_weak.sub_ok [of "dh_histogram h1" "w * f" v] 5(2)
    by (auto simp: decaying_SubtractSample_def decaying_inv_def decaying_same_def)
next
  case (6 h g)
  then show ?case using decaying_Merge_inv [of h g] by auto
next
  case (7 h p)
  then show ?case using hist_weak.pct_ok by (simp add: decaying_inv_def decaying_Percentile_def)
next
  case (8 h p q x y)
  then show ?case
    using hist_weak.pct_mono [of "dh_histogram h" p q x y]
    by (simp add: decaying_inv_def decaying_Percentile_def)
qed (auto simp: decaying_same_def)

text \<open>A checkpoint that loads without an error gives a histogram with the weaker invariant.\<close>

lemma LoadFromCheckpoint_inv:
  assumes "hist_inv h" "LoadFromCheckpoint h (Some cp) = Inr h'"
    "\<forall>(b, w) \<in> set (BucketWeights cp). 0 \<le> w"
  shows "hist_inv h' \<and> options h' = options h"
proof (cases "sum_list (map snd (BucketWeights cp)) = 0")
  case True
  then show ?thesis using assms(1,2) by (auto simp: LoadFromCheckpoint_def Let_def split: if_splits option.splits)
next
  case False
  let ?n = "sum_list (map snd (BucketWeights cp))"
  have rng: "\<forall>(b, w) \<in> set (BucketWeights cp). 0 \<le> b \<and> b < NumBuckets (options h)" "0 \<le> TotalWeight cp"
    using assms(2) by (auto simp: LoadFromCheckpoint_def check_buckets_None [symmetric]
        split: if_splits option.splits)
  have "0 \<le> ?n" using assms(3) by (intro sum_list_nonneg) fastforce
  then have "0 \<le> TotalWeight cp / of_int ?n" using rng(2) by simp
  then have "hist_inv (fold (load_bucket (TotalWeight cp / of_int ?n)) (BucketWeights cp) h) \<and>
      options (fold (load_bucket (TotalWeight cp / of_int ?n)) (BucketWeights cp) h) = options h"
    using load_buckets_inv [of h "BucketWeights cp" "TotalWeight cp / of_int ?n"] assms(1,3) rng(1) by auto
  then show ?thesis
    using assms(2) LoadFromCheckpoint_eq [OF assms(1) rng(2,1) refl False] rng(2)
    by (auto simp: Let_def hist_inv_def)
qed

lemma decaying_LoadFromCheckpoint_inv:
  assumes "decaying_inv h" "decaying_LoadFromCheckpoint h (Some cp) = Inr h'"
    "\<forall>(b, w) \<in> set (BucketWeights cp). 0 \<le> w"
  shows "decaying_inv h' \<and> decaying_same h h'"
  using assms LoadFromCheckpoint_inv [of "dh_histogram h" cp]
  by (auto simp: decaying_LoadFromCheckpoint_def decaying_inv_def decaying_same_def)

section \<open>What renormalising does to the weights\<close>




text \<open>The percentile loop commutes with a common positive factor.\<close>

lemma percentile_loop_scale:
  assumes "0 < f" "\<And>i. b \<le> i \<Longrightarrow> i \<le> n \<Longrightarrow> vs ! i = ws ! i * f"
  shows "percentile_loop vs n (thr * f) b (acc * f) = percentile_loop ws n thr b acc"
  using assms(2)
proof (induction ws n thr b acc rule: percentile_loop.induct)
  case (1 ws n thr b acc)
  note unf = percentile_loop.simps [of ws n thr b acc]
    percentile_loop.simps [of vs n "thr * f" b "acc * f"]
  show ?case
  proof (cases "b < n")
    case True
    have eq: "acc * f + vs ! b = (acc + ws ! b) * f" using "1.prems" True by (simp add: distrib_right)
    have "percentile_loop vs n (thr * f) (Suc b) ((acc + ws ! b) * f) =
        percentile_loop ws n thr (Suc b) (acc + ws ! b)" if "\<not> thr \<le> acc + ws ! b"
      using "1.IH" [OF True refl that] "1.prems" by simp
    then show ?thesis using True assms(1) by (simp add: unf eq Let_def)
  qed (simp add: unf)
qed

lemma advance_min_stop: "eps \<le> ws ! b \<Longrightarrow> advance_min ws eps n b = b"
  by (simp add: advance_min.simps)

lemma retreat_max_stop: "eps \<le> ws ! b \<Longrightarrow> retreat_max ws eps b = b"
  by (cases b) auto

section \<open>Properties\<close>

text \<open>
  The decay factor that multiplies a sample's weight is always in \<open>(0, 2 ^ 100]\<close>, whatever the
  time of the sample: a sample too far after the reference moves the reference first, and the
  exponent is then at most one half.
\<close>

theorem decayFactor_bounded:
  assumes "decaying_ok h"
  shows "\<exists>f h'. decayFactor h t = Inr (f, h') \<and> decaying_ok h' \<and> 0 < f \<and> f \<le> 2 ^ 100 \<and>
    (referenceTimestamp h + 100 * halfLife h < t \<longrightarrow> f \<le> 2 powr (1 / 2))"
proof -
  obtain f h' where d: "decayFactor h t = Inr (f, h')" "decaying_ok h'" "decaying_same h h'"
    "f = 2 powr (of_int (time_Sub t (referenceTimestamp h')) / of_int (halfLife h))"
    "if referenceTimestamp h + halfLife h * maxDecayExponent < t
     then shiftReferenceTimestamp h t = Inr h' \<and> referenceTimestamp h' = time_Round t (halfLife h)
     else h' = h"
    by (rule decayFactor_cases [OF assms])
  let ?s = "time_Sub t (referenceTimestamp h')" and ?hl = "halfLife h"
  have hl: "0 < ?hl" using assms by (simp add: decaying_ok_def)
  have near: "2 * ?s \<le> ?hl" if "referenceTimestamp h + 100 * ?hl < t"
  proof -
    have "referenceTimestamp h' = time_Round t ?hl"
      using d(5) that by (simp add: maxDecayExponent_def mult.commute)
    moreover have "t - time_Round t ?hl \<le> ?hl div 2"
      using time_Round_near [OF hl, of t] by arith
    ultimately have "?s \<le> ?hl div 2" using hl by (intro time_Sub_le) (auto simp: int64_min_def)
    then show ?thesis by linarith
  qed
  have far: "?s \<le> 100 * ?hl" if "\<not> referenceTimestamp h + 100 * ?hl < t"
    using d(5) that hl
    by (intro time_Sub_le) (auto simp: maxDecayExponent_def mult.commute int64_min_def)
  have quot: "2 powr (of_int ?s / of_int ?hl) \<le> (2 powr c :: real)" if "of_int ?s \<le> c * of_int ?hl" for c
    using that hl by (intro powr_mono) (simp_all add: pos_divide_le_eq)
  have half: "f \<le> 2 powr (1 / 2)" if "referenceTimestamp h + 100 * ?hl < t"
    unfolding d(4) using near [OF that] by (intro quot) linarith
  have "f \<le> 2 powr 100"
  proof (cases "referenceTimestamp h + 100 * ?hl < t")
    case True
    then show ?thesis using half powr_mono [of "1 / 2" 100 "2 :: real"] by simp
  next
    case False
    then show ?thesis unfolding d(4) using far by (intro quot) linarith
  qed
  then have "f \<le> 2 ^ 100" by (simp add: powr_numeral)
  then show ?thesis using d half by auto
qed

definition day_histogram :: decayingHistogram where
  "day_histogram = \<lparr>dh_histogram = two_buckets, halfLife = 24 * hour, referenceTimestamp = 0\<rparr>"

lemma decaying_ok_day_histogram: "decaying_ok day_histogram"
  by (simp add: decaying_ok_def day_histogram_def hist_ok_two_buckets hour_def minute_def second_def
      maxDecayExponent_def int64_max_def)

theorem decayFactor_bounded_witness:
  "\<exists>f h'. decayFactor day_histogram (101 * 24 * hour) = Inr (f, h') \<and> 0 < f \<and> f \<le> 2 powr (1 / 2)"
proof -
  have "referenceTimestamp day_histogram + 100 * halfLife day_histogram < 101 * 24 * hour"
    by (simp add: day_histogram_def hour_def minute_def second_def)
  then show ?thesis
    using decayFactor_bounded [OF decaying_ok_day_histogram, of "101 * 24 * hour"] by blast
qed

text \<open>
  A decaying histogram whose indices need not be exact, as after loading a checkpoint, with a
  reference at a whole number of half lives.
\<close>

definition decaying_fine :: "decayingHistogram \<Rightarrow> bool" where
  "decaying_fine h \<longleftrightarrow>
     hist_inv (dh_histogram h) \<and> hist_range (dh_histogram h) \<and> 0 < halfLife h \<and>
     halfLife h * maxDecayExponent \<le> int64_max \<and> referenceTimestamp h mod halfLife h = 0"


lemma decaying_LoadFromCheckpoint_fine:
  assumes "decaying_fine h" "\<forall>(b, w) \<in> set (BucketWeights cp). 0 \<le> w" "ReferenceTimestamp cp mod halfLife h = 0"
    "decaying_LoadFromCheckpoint h (Some cp) = Inr h'"
  shows "decaying_fine h'"
  using assms LoadFromCheckpoint_range [of "dh_histogram h" cp]
  by (cases "LoadFromCheckpoint (dh_histogram h) (Some cp)") (auto simp: decaying_fine_def decaying_LoadFromCheckpoint_def)





text \<open>
  Scaling by a positive factor does not change any percentile as long as the first and the
  last non-empty bucket stay non-empty.
\<close>

theorem scale_keeps_percentiles:
  assumes ok: "hist_ok h" and f: "0 < f" and sc: "scale h f = Inr h'"
    and stay: "Epsilon (options h) \<le> bucketWeight h ! minBucket h * f"
      "Epsilon (options h) \<le> bucketWeight h ! maxBucket h * f"
    and ne: "\<not> IsEmpty h"
  shows "Percentile h' p = Percentile h p"
proof -
  have inv: "hist_inv h" and tight: "hist_tight h" using ok by (simp_all add: hist_ok_def)
  have le: "minBucket h \<le> maxBucket h" by (rule nonempty_min_le_max [OF inv tight ne])
  let ?ws = "update_range (minBucket h) (maxBucket h) (\<lambda>_ w. w * f) (bucketWeight h)"
  have ws: "?ws ! i = bucketWeight h ! i * f" if "minBucket h \<le> i" "i \<le> maxBucket h" for i
    using that hist_invD(4) [OF inv] by (simp add: nth_update_range)
  have idx: "advance_min ?ws (Epsilon (options h)) n (minBucket h) = minBucket h"
    "retreat_max ?ws (Epsilon (options h)) (maxBucket h) = maxBucket h" for n
    using stay ws le by (auto intro: advance_min_stop retreat_max_stop)
  have h': "bucketWeight h' = ?ws" "totalWeight h' = totalWeight h * f" "options h' = options h"
    "minBucket h' = minBucket h" "maxBucket h' = maxBucket h"
    using sc idx by (auto simp: scale_def updateMinAndMaxBucket_def Let_def split: if_splits)
  have "percentile_bucket h' p = percentile_bucket h p"
    unfolding percentile_bucket_def h'
    using percentile_loop_scale [OF f, of "minBucket h" "maxBucket h" ?ws "bucketWeight h"
        "p * totalWeight h" 0] ws by (simp add: mult.assoc)
  moreover have "\<not> IsEmpty h'" using stay(1) ws [of "minBucket h"] le by (simp add: IsEmpty_def h')
  ultimately show ?thesis using ne h' by (simp add: Percentile_eq)
qed

theorem scale_keeps_percentiles_witness:
  "\<exists>h'. scale two_buckets 2 = Inr h' \<and> Percentile h' (1 / 2) = Percentile two_buckets (1 / 2)"
proof -
  obtain h' where h': "scale two_buckets 2 = Inr h'" using scale_Inr [of 2] by auto
  have ne: "\<not> IsEmpty two_buckets" by (simp add: IsEmpty_def)
  show ?thesis
    using h' scale_keeps_percentiles [OF hist_ok_two_buckets _ h' _ _ ne, of "1 / 2"] by simp
qed

text \<open>
  The comment of \<open>scale\<close> says that it does not affect the percentiles. It does when buckets
  fall below \<open>epsilon\<close>: a histogram with a positive percentile can be scaled by a positive factor
  to one that counts as empty and reports 0.
\<close>

theorem scale_can_change_percentiles:
  "\<exists>h f h'. hist_ok h \<and> 0 < f \<and> scale h f = Inr h' \<and>
     Percentile h 1 = Inr 1 \<and> Percentile h' 1 = Inr 0"
proof -
  let ?h' = "two_buckets\<lparr>bucketWeight := [1 / 100000000, 7 / 100000],
    totalWeight := 7001 / 100000000, minBucket := 1, maxBucket := 0\<rparr>"
  have "Percentile two_buckets 1 = Inr 1"
    by (simp add: Percentile_def IsEmpty_def percentile_loop.simps linear_GetBucketStart_def Let_def)
  moreover have "scale two_buckets (1 / 10000) = Inr ?h'"
    by (simp add: scale_def update_range_def upt_rec updateMinAndMaxBucket_def Let_def
        advance_min.simps two_buckets_def)
  moreover have "Percentile ?h' 1 = Inr 0" by (simp add: Percentile_eq IsEmpty_def)
  moreover have "0 < (1 / 10000 :: real)" by simp
  ultimately show ?thesis using hist_ok_two_buckets by blast
qed

end
