(* ===== verification/Go_Float.thy ===== *)
theory Go_Float
  imports Go_Prelude
begin

text \<open>
  The special values of IEEE 754, for the code that relies on them: the confidence multiplier
  divides by a confidence that can be 0 and scales by an infinite factor. Finite values are reals,
  without rounding. \<open>math_Pow\<close> follows the special cases the documentation of \<open>math.Pow\<close> lists.
\<close>

datatype xfloat = Fin float64 | PosInf | NegInf | NaN

fun xdiv :: "xfloat \<Rightarrow> xfloat \<Rightarrow> xfloat" where
  "xdiv (Fin x) (Fin y) =
     (if y = 0 then (if x = 0 then NaN else if 0 < x then PosInf else NegInf) else Fin (x / y))"
| "xdiv (Fin x) PosInf = Fin 0"
| "xdiv (Fin x) NegInf = Fin 0"
| "xdiv PosInf (Fin y) = (if 0 \<le> y then PosInf else NegInf)"
| "xdiv NegInf (Fin y) = (if 0 \<le> y then NegInf else PosInf)"
| "xdiv _ _ = NaN"

fun xadd :: "xfloat \<Rightarrow> xfloat \<Rightarrow> xfloat" where
  "xadd (Fin x) (Fin y) = Fin (x + y)"
| "xadd (Fin x) PosInf = PosInf"
| "xadd PosInf (Fin y) = PosInf"
| "xadd PosInf PosInf = PosInf"
| "xadd (Fin x) NegInf = NegInf"
| "xadd NegInf (Fin y) = NegInf"
| "xadd NegInf NegInf = NegInf"
| "xadd _ _ = NaN"

fun xmul :: "xfloat \<Rightarrow> xfloat \<Rightarrow> xfloat" where
  "xmul (Fin x) (Fin y) = Fin (x * y)"
| "xmul (Fin x) PosInf = (if x = 0 then NaN else if 0 < x then PosInf else NegInf)"
| "xmul (Fin x) NegInf = (if x = 0 then NaN else if 0 < x then NegInf else PosInf)"
| "xmul PosInf (Fin y) = (if y = 0 then NaN else if 0 < y then PosInf else NegInf)"
| "xmul NegInf (Fin y) = (if y = 0 then NaN else if 0 < y then NegInf else PosInf)"
| "xmul PosInf PosInf = PosInf"
| "xmul PosInf NegInf = NegInf"
| "xmul NegInf PosInf = NegInf"
| "xmul NegInf NegInf = PosInf"
| "xmul _ _ = NaN"

text \<open>A comparison with NaN is false.\<close>

fun xless :: "xfloat \<Rightarrow> xfloat \<Rightarrow> bool" where
  "xless (Fin x) (Fin y) = (x < y)"
| "xless (Fin x) PosInf = True"
| "xless NegInf (Fin y) = True"
| "xless NegInf PosInf = True"
| "xless _ _ = False"

text \<open>
  \<open>math.Pow(x, y)\<close> for a finite exponent: \<open>x ^ 0 = 1\<close>, an integral exponent is repeated
  multiplication or division, a zero base with a negative exponent is infinite, a negative base
  with a fractional exponent is NaN, and an infinite base is 0 or infinite by the sign of the exponent.
\<close>

definition integral :: "float64 \<Rightarrow> bool" where
  "integral y \<longleftrightarrow> of_int \<lfloor>y\<rfloor> = y"

fun math_Pow :: "xfloat \<Rightarrow> float64 \<Rightarrow> xfloat" where
  "math_Pow x y = (if y = 0 then Fin 1 else
     (case x of
        Fin b \<Rightarrow>
          if b = 0 then (if y < 0 then PosInf else Fin 0)
          else if 0 < b then Fin (b powr y)
          else if integral y then Fin (if even \<lfloor>y\<rfloor> then (- b) powr y else - ((- b) powr y))
          else NaN
      | PosInf \<Rightarrow> if y < 0 then Fin 0 else PosInf
      | NegInf \<Rightarrow> if y < 0 then Fin 0
                  else if integral y \<and> odd \<lfloor>y\<rfloor> then NegInf else PosInf
      | NaN \<Rightarrow> NaN))"

declare math_Pow.simps [simp del]

text \<open>
  \<open>int64(x)\<close>. Outside the range of an int64 the language leaves the result to the implementation;
  the model uses the value of amd64, the smallest int64.
\<close>

fun xint64 :: "xfloat \<Rightarrow> int" where
  "xint64 (Fin x) = (let n = go_trunc x in if in_int64 n then n else int64_min)"
| "xint64 _ = int64_min"

end
