(* ===== verification/Resource_Types.thy ===== *)
theory Resource_Types
  imports Go_Float
begin

text \<open>
  \<open>pkg/recommender/model/types.go\<close>: resource amounts and their conversions, and the part of
  \<open>resource.Quantity\<close> (apimachinery) the autoscaler uses. A quantity is a decimal number with at
  most nine fractional digits, here an integer number of \<open>10 ^ -9\<close> units; sums and differences are
  exact, \<open>Value\<close> and \<open>MilliValue\<close> round away from zero. The format (binary or decimal suffix) only
  matters for printing and is left out, and quantities are taken to be small enough for their
  milli value to fit an int64.
\<close>

section \<open>Quantities\<close>

type_synonym Quantity = int

definition div_away :: "int \<Rightarrow> int \<Rightarrow> int" where
  "div_away a b = sgn a * ((\<bar>a\<bar> + b - 1) div b)"

definition NewMilliQuantity :: "int \<Rightarrow> Quantity" where
  "NewMilliQuantity v = v * 10 ^ 6"

text \<open>\<open>NewScaledQuantity(v, scale)\<close> for the scales \<open>-9\<close> and above.\<close>

definition NewScaledQuantity :: "int \<Rightarrow> int \<Rightarrow> Quantity" where
  "NewScaledQuantity v s = v * 10 ^ nat (9 + s)"

definition q_Value :: "Quantity \<Rightarrow> int" where
  "q_Value q = div_away q (10 ^ 9)"

definition q_MilliValue :: "Quantity \<Rightarrow> int" where
  "q_MilliValue q = div_away q (10 ^ 6)"

definition q_IsZero :: "Quantity \<Rightarrow> bool" where
  "q_IsZero q \<longleftrightarrow> q = 0"

definition q_Cmp :: "Quantity \<Rightarrow> Quantity \<Rightarrow> int" where
  "q_Cmp q y = (if q = y then 0 else if q < y then -1 else 1)"

text \<open>\<open>RoundUp(Scale(0))\<close>: to a whole unit, away from zero.\<close>

definition q_RoundUp0 :: "Quantity \<Rightarrow> Quantity" where
  "q_RoundUp0 q = div_away q (10 ^ 9) * 10 ^ 9"

lemma div_away_0 [simp]: "div_away 0 b = 0"
  by (simp add: div_away_def)

lemma div_away_mult [simp]: "0 < b \<Longrightarrow> div_away (a * b) b = a"
proof (cases "a = 0")
  case False
  assume b: "0 < b"
  have "(\<bar>a\<bar> * b + (b - 1)) div b = \<bar>a\<bar>" using b by (simp add: div_add1_eq [of _ "b - 1"])
  then show ?thesis using b False by (simp add: div_away_def abs_mult sgn_mult add_diff_eq mult.commute abs_mult_sgn)
qed simp

lemma div_away_pos: "0 < b \<Longrightarrow> 0 < a \<Longrightarrow> 0 < div_away a b"
  by (simp add: div_away_def pos_imp_zdiv_pos_iff)

lemma div_away_eq_0_iff: "0 < b \<Longrightarrow> div_away a b = 0 \<longleftrightarrow> a = 0"
  by (auto simp: div_away_def sgn_eq_0_iff zdiv_eq_0_iff)

lemma q_MilliValue_NewMilliQuantity [simp]: "q_MilliValue (NewMilliQuantity v) = v"
  by (simp add: q_MilliValue_def NewMilliQuantity_def)

lemma q_Value_0 [simp]: "q_Value q = 0 \<longleftrightarrow> q = 0"
  by (simp add: q_Value_def div_away_eq_0_iff)

section \<open>Resource names and amounts\<close>

type_synonym ResourceName = string
type_synonym ResourceAmount = int
type_synonym Resources = "(ResourceName, ResourceAmount) gomap"
type_synonym ResourceList = "(ResourceName, Quantity) gomap"

definition ResourceCPU :: ResourceName where "ResourceCPU = ''cpu''"
definition ResourceMemory :: ResourceName where "ResourceMemory = ''memory''"
definition MaxResourceAmount :: ResourceAmount where "MaxResourceAmount = 10 ^ 14"

definition resourceAmountFromFloat :: "xfloat \<Rightarrow> ResourceAmount" where
  "resourceAmountFromFloat amount =
     (if xless amount (Fin 0) then 0
      else if xless (Fin (of_int MaxResourceAmount)) amount then MaxResourceAmount
      else xint64 amount)"

definition CPUAmountFromCores :: "float64 \<Rightarrow> ResourceAmount" where
  "CPUAmountFromCores cores = resourceAmountFromFloat (Fin (cores * 1000))"

definition CoresFromCPUAmount :: "ResourceAmount \<Rightarrow> float64" where
  "CoresFromCPUAmount cpuAmount = of_int cpuAmount / 1000"

definition QuantityFromCPUAmount :: "ResourceAmount \<Rightarrow> Quantity" where
  "QuantityFromCPUAmount cpuAmount = NewScaledQuantity cpuAmount (-3)"

definition MemoryAmountFromBytes :: "float64 \<Rightarrow> ResourceAmount" where
  "MemoryAmountFromBytes bytes = resourceAmountFromFloat (Fin bytes)"

definition BytesFromMemoryAmount :: "ResourceAmount \<Rightarrow> float64" where
  "BytesFromMemoryAmount memoryAmount = of_int memoryAmount"

definition QuantityFromMemoryAmount :: "ResourceAmount \<Rightarrow> Quantity" where
  "QuantityFromMemoryAmount memoryAmount = NewScaledQuantity memoryAmount 0"

definition ScaleResource :: "ResourceAmount \<Rightarrow> xfloat \<Rightarrow> ResourceAmount" where
  "ScaleResource amount factor = resourceAmountFromFloat (xmul (Fin (of_int amount)) factor)"

definition ResourcesAsResourceList :: "Resources \<Rightarrow> ResourceList" where
  "ResourcesAsResourceList resources =
     fold (\<lambda>(key, amount) result.
        if key = ResourceCPU then AList.update ResourceCPU (QuantityFromCPUAmount amount) result
        else if key = ResourceMemory
        then AList.update ResourceMemory (QuantityFromMemoryAmount amount) result
        else result) resources []"

fun ResourceNamesApiToModel :: "ResourceName list \<Rightarrow> ResourceName list" where
  "ResourceNamesApiToModel [] = []"
| "ResourceNamesApiToModel (r # rs) =
     (if r = ResourceCPU then ResourceCPU # ResourceNamesApiToModel rs
      else if r = ResourceMemory then ResourceMemory # ResourceNamesApiToModel rs
      else ResourceNamesApiToModel rs)"

definition RoundResourceAmount :: "ResourceAmount \<Rightarrow> ResourceAmount \<Rightarrow> ResourceAmount result" where
  "RoundResourceAmount amount u =
     (if u = 0 then Inl (Panic ''integer divide by zero'') else Inr (amount - go_mod amount u))"

definition ResourceAmountMax :: "ResourceAmount \<Rightarrow> ResourceAmount \<Rightarrow> ResourceAmount" where
  "ResourceAmountMax amount1 amount2 = (if amount2 < amount1 then amount1 else amount2)"

record PodID =
  pid_Namespace :: string
  PodName :: string

record ContainerID =
  cid_PodID :: PodID
  cid_ContainerName :: string

record VpaID =
  vid_Namespace :: string
  VpaName :: string

section \<open>Lemmas\<close>

lemma ResourceAmountMax_eq_max: "ResourceAmountMax a b = max a b"
  by (simp add: ResourceAmountMax_def)

lemma cpu_ne_memory [simp]: "ResourceCPU \<noteq> ResourceMemory" "ResourceMemory \<noteq> ResourceCPU"
  by (simp_all add: ResourceCPU_def ResourceMemory_def)

lemma resourceAmountFromFloat_Fin:
  "resourceAmountFromFloat (Fin x) =
     (if x < 0 then 0 else if of_int MaxResourceAmount < x then MaxResourceAmount else \<lfloor>x\<rfloor>)"
proof -
  have "in_int64 \<lfloor>x\<rfloor>" if "0 \<le> x" "x \<le> of_int MaxResourceAmount"
  proof -
    have "0 \<le> \<lfloor>x\<rfloor>" "\<lfloor>x\<rfloor> \<le> MaxResourceAmount" using that by (simp_all add: floor_le_iff)
    then show ?thesis by (simp add: in_int64_def int64_min_def int64_max_def MaxResourceAmount_def)
  qed
  then show ?thesis by (auto simp: resourceAmountFromFloat_def go_trunc_def Let_def)
qed

text \<open>A finite value becomes an amount in the documented range from 0 to \<open>MaxResourceAmount\<close>.\<close>

lemma resourceAmountFromFloat_range:
  "0 \<le> resourceAmountFromFloat (Fin x) \<and> resourceAmountFromFloat (Fin x) \<le> MaxResourceAmount"
  by (auto simp: resourceAmountFromFloat_Fin MaxResourceAmount_def floor_le_iff not_less)

lemma resourceAmountFromFloat_mono:
  "x \<le> y \<Longrightarrow> resourceAmountFromFloat (Fin x) \<le> resourceAmountFromFloat (Fin y)"
  using floor_mono [of x y]
  by (auto simp: resourceAmountFromFloat_Fin MaxResourceAmount_def not_less le_floor_iff floor_le_iff)

lemma resourceAmountFromFloat_special:
  "resourceAmountFromFloat PosInf = MaxResourceAmount" "resourceAmountFromFloat NegInf = 0"
  "resourceAmountFromFloat NaN = int64_min"
  by (simp_all add: resourceAmountFromFloat_def)

lemma ScaleResource_mono:
  "a \<le> b \<Longrightarrow> 0 \<le> f \<Longrightarrow> ScaleResource a (Fin f) \<le> ScaleResource b (Fin f)"
  by (simp add: ScaleResource_def resourceAmountFromFloat_mono mult_right_mono)

lemma ScaleResource_le: "0 \<le> a \<Longrightarrow> 0 \<le> f \<Longrightarrow> f \<le> 1 \<Longrightarrow> ScaleResource a (Fin f) \<le> a"
  using mult_left_mono [of f 1 "of_int a :: real"]
  by (auto simp: ScaleResource_def resourceAmountFromFloat_Fin floor_le_iff)

lemma ScaleResource_ge:
  "0 \<le> a \<Longrightarrow> a \<le> MaxResourceAmount \<Longrightarrow> 1 \<le> f \<Longrightarrow> a \<le> ScaleResource a (Fin f)"
  using mult_left_mono [of 1 f "of_int a :: real"]
  by (auto simp: ScaleResource_def resourceAmountFromFloat_Fin le_floor_iff not_less mult_less_0_iff)

text \<open>Rounding down to a multiple of the unit.\<close>

lemma RoundResourceAmount_spec:
  assumes "0 < u" "0 \<le> a"
  shows "\<exists>r. RoundResourceAmount a u = Inr r \<and> r mod u = 0 \<and> r \<le> a \<and> a < r + u"
proof -
  have "RoundResourceAmount a u = Inr (a - a mod u)"
    using assms by (simp add: RoundResourceAmount_def go_mod_pos)
  moreover have "(a - a mod u) mod u = 0" by (simp add: minus_mod_eq_mult_div)
  ultimately show ?thesis
    using pos_mod_sign [OF assms(1), of a] pos_mod_bound [OF assms(1), of a] by fastforce
qed

lemma set_ResourceNamesApiToModel:
  "set (ResourceNamesApiToModel rs) = set rs \<inter> {ResourceCPU, ResourceMemory}"
  by (induction rs) auto

end
