(* ===== verification/Kube_Types.thy ===== *)
theory Kube_Types
  imports Resource_Types "HOL-Library.List_Lexorder" "HOL-Library.Char_ord"
begin

text \<open>
  The API objects the autoscaler reads and writes: label selectors and pods of Kubernetes, the
  \<open>VerticalPodAutoscaler\<close> and its checkpoint (\<open>pkg/apis/autoscaling.k8s.io/v1/types.go\<close>), and the
  queries of \<open>pkg/utils/vpa/api.go\<close>: which VPA controls a pod, its update mode, and the policy of a
  container. Of the Kubernetes objects only the fields the code reads are kept. A nil pointer is
  \<open>None\<close>; string types with named constants stay strings, since the code compares them with values
  outside the named ones.
\<close>

section \<open>Labels and selectors\<close>

type_synonym labels = "(string, string) gomap"

datatype Operator =
    In | NotIn | Equals_op | DoubleEquals | NotEquals | Exists | DoesNotExist | GreaterThan | LessThan

record Requirement =
  key :: string
  operator :: Operator
  strValues :: "string list"

text \<open>\<open>labels.Nothing()\<close> selects nothing; every other selector is a conjunction of requirements.\<close>

datatype Selector = NothingSelector | InternalSelector "Requirement list"

fun parse_digits :: "string \<Rightarrow> int \<Rightarrow> int option" where
  "parse_digits [] acc = Some acc"
| "parse_digits (c # cs) acc =
     (if CHR ''0'' \<le> c \<and> c \<le> CHR ''9''
      then parse_digits cs (acc * 10 + (of_char c - 48)) else None)"

definition ParseInt :: "string \<Rightarrow> int option" where
  "ParseInt s =
     (let negative = (s \<noteq> [] \<and> hd s = CHR ''-'');
          ds = (if s \<noteq> [] \<and> (hd s = CHR ''-'' \<or> hd s = CHR ''+'') then tl s else s)
      in if ds = [] then None
         else case parse_digits ds 0 of
             None \<Rightarrow> None
           | Some n \<Rightarrow> let m = (if negative then - n else n) in if in_int64 m then Some m else None)"

definition Requirement_Matches :: "Requirement \<Rightarrow> labels \<Rightarrow> bool" where
  "Requirement_Matches r ls =
     (case operator r of
        Exists \<Rightarrow> map_of ls (key r) \<noteq> None
      | DoesNotExist \<Rightarrow> map_of ls (key r) = None
      | GreaterThan \<Rightarrow> (case (map_of ls (key r), strValues r) of
            (Some v, [s]) \<Rightarrow> (case (ParseInt v, ParseInt s) of (Some a, Some b) \<Rightarrow> b < a | _ \<Rightarrow> False)
          | _ \<Rightarrow> False)
      | LessThan \<Rightarrow> (case (map_of ls (key r), strValues r) of
            (Some v, [s]) \<Rightarrow> (case (ParseInt v, ParseInt s) of (Some a, Some b) \<Rightarrow> a < b | _ \<Rightarrow> False)
          | _ \<Rightarrow> False)
      | opr \<Rightarrow> (case map_of ls (key r) of
            None \<Rightarrow> opr = NotIn \<or> opr = NotEquals
          | Some v \<Rightarrow> (v \<in> set (strValues r)) \<noteq> (opr = NotIn \<or> opr = NotEquals)))"

fun Matches :: "Selector \<Rightarrow> labels \<Rightarrow> bool" where
  "Matches NothingSelector ls = False"
| "Matches (InternalSelector rs) ls = list_all (\<lambda>r. Requirement_Matches r ls) rs"

fun join :: "string \<Rightarrow> string list \<Rightarrow> string" where
  "join sep [] = []"
| "join sep [s] = s"
| "join sep (s # ss) = s @ sep @ join sep ss"

definition Requirement_String :: "Requirement \<Rightarrow> string" where
  "Requirement_String r =
     (let vals = join '','' (sort (strValues r)) in
      case operator r of
        Exists \<Rightarrow> key r
      | DoesNotExist \<Rightarrow> ''!'' @ key r
      | Equals_op \<Rightarrow> key r @ ''='' @ vals
      | DoubleEquals \<Rightarrow> key r @ ''=='' @ vals
      | NotEquals \<Rightarrow> key r @ ''!='' @ vals
      | In \<Rightarrow> key r @ '' in ('' @ vals @ '')''
      | NotIn \<Rightarrow> key r @ '' notin ('' @ vals @ '')''
      | GreaterThan \<Rightarrow> key r @ ''>'' @ vals
      | LessThan \<Rightarrow> key r @ ''<'' @ vals)"

fun Selector_String :: "Selector \<Rightarrow> string" where
  "Selector_String NothingSelector = []"
| "Selector_String (InternalSelector rs) = join '','' (map Requirement_String rs)"

section \<open>Pods\<close>

record ResourceRequirements =
  Limits :: "ResourceList option"
  Requests :: "ResourceList option"

record Container =
  c_Name :: string
  c_Resources :: ResourceRequirements

record ContainerStateTerminated =
  Reason :: string
  StartedAt :: time
  FinishedAt :: time

record ContainerStatus =
  cs_Name :: string
  RestartCount :: int
  Terminated :: "ContainerStateTerminated option"

record OwnerReference =
  or_Kind :: string
  or_Name :: string
  or_APIVersion :: string
  or_Controller :: "bool option"
  or_UID :: string

type_synonym PodPhase = string

record Pod =
  pod_Namespace :: string
  pod_Name :: string
  pod_GenerateName :: string
  pod_Labels :: labels
  pod_Annotations :: "(string, string) gomap option"
  OwnerReferences :: "OwnerReference list"
  pod_Containers :: "Container list"
  Phase :: PodPhase
  StartTime :: "time option"
  ContainerStatuses :: "ContainerStatus list"
  DeletionTimestamp :: "time option"

text \<open>A nil resource list is read like an empty one.\<close>

definition list_of :: "'a list option \<Rightarrow> 'a list" where
  "list_of xs = (case xs of None \<Rightarrow> [] | Some ys \<Rightarrow> ys)"

lemma list_of_simps [simp]: "list_of None = []" "list_of (Some ys) = ys"
  by (simp_all add: list_of_def)

section \<open>The VerticalPodAutoscaler\<close>

type_synonym UpdateMode = string
type_synonym ContainerScalingMode = string
type_synonym ContainerControlledValues = string

definition UpdateModeOff :: UpdateMode where "UpdateModeOff = ''Off''"
definition UpdateModeInitial :: UpdateMode where "UpdateModeInitial = ''Initial''"
definition UpdateModeRecreate :: UpdateMode where "UpdateModeRecreate = ''Recreate''"
definition UpdateModeAuto :: UpdateMode where "UpdateModeAuto = ''Auto''"
definition ContainerScalingModeAuto :: ContainerScalingMode where
  "ContainerScalingModeAuto = ''Auto''"
definition ContainerScalingModeOff :: ContainerScalingMode where "ContainerScalingModeOff = ''Off''"
definition ContainerControlledValuesRequestsAndLimits :: ContainerControlledValues where
  "ContainerControlledValuesRequestsAndLimits = ''RequestsAndLimits''"
definition ContainerControlledValuesRequestsOnly :: ContainerControlledValues where
  "ContainerControlledValuesRequestsOnly = ''RequestsOnly''"
definition DefaultContainerResourcePolicy :: string where
  "DefaultContainerResourcePolicy = ''*''"

record ContainerResourcePolicy =
  crp_ContainerName :: string
  Mode :: "ContainerScalingMode option"
  MinAllowed :: ResourceList
  MaxAllowed :: ResourceList
  crp_ControlledResources :: "ResourceName list option"
  ControlledValues :: "ContainerControlledValues option"

type_synonym PodResourcePolicy = "ContainerResourcePolicy list"

text \<open>\<open>PodUpdatePolicy\<close> has the optional mode as its only field.\<close>

type_synonym PodUpdatePolicy = "UpdateMode option"

record CrossVersionObjectReference =
  tr_Kind :: string
  tr_Name :: string
  tr_APIVersion :: string

record VerticalPodAutoscalerSpec =
  TargetRef :: "CrossVersionObjectReference option"
  UpdatePolicy :: "PodUpdatePolicy option"
  ResourcePolicy :: "PodResourcePolicy option"

record RecommendedContainerResources =
  rcr_ContainerName :: string
  Target :: ResourceList
  LowerBound :: ResourceList
  UpperBound :: ResourceList
  UncappedTarget :: ResourceList

type_synonym RecommendedPodResources = "RecommendedContainerResources list"

type_synonym ConditionType = string

definition RecommendationProvided :: ConditionType where
  "RecommendationProvided = ''RecommendationProvided''"
definition LowConfidence :: ConditionType where "LowConfidence = ''LowConfidence''"
definition NoPodsMatched :: ConditionType where "NoPodsMatched = ''NoPodsMatched''"
definition FetchingHistory :: ConditionType where "FetchingHistory = ''FetchingHistory''"
definition ConfigDeprecated :: ConditionType where "ConfigDeprecated = ''ConfigDeprecated''"
definition ConfigUnsupported :: ConditionType where "ConfigUnsupported = ''ConfigUnsupported''"

type_synonym ConditionStatus = string

definition ConditionTrue :: ConditionStatus where "ConditionTrue = ''True''"
definition ConditionFalse :: ConditionStatus where "ConditionFalse = ''False''"

record VerticalPodAutoscalerCondition =
  cond_Type :: ConditionType
  cond_Status :: ConditionStatus
  LastTransitionTime :: time
  cond_Reason :: string
  cond_Message :: string

record VerticalPodAutoscalerStatus =
  st_Recommendation :: "RecommendedPodResources option"
  st_Conditions :: "VerticalPodAutoscalerCondition list"

record VerticalPodAutoscaler =
  vpa_Namespace :: string
  vpa_Name :: string
  vpa_Annotations :: "(string, string) gomap"
  CreationTimestamp :: time
  vpa_Spec :: VerticalPodAutoscalerSpec
  vpa_Status :: VerticalPodAutoscalerStatus

section \<open>Which VPA controls a pod\<close>

record VpaWithSelector =
  ws_Vpa :: VerticalPodAutoscaler
  ws_Selector :: Selector

definition PodLabelsMatchVPA :: "string \<Rightarrow> labels \<Rightarrow> string \<Rightarrow> Selector \<Rightarrow> bool" where
  "PodLabelsMatchVPA podNamespace ls vpaNamespace vpaSelector =
     (if podNamespace \<noteq> vpaNamespace then False else Matches vpaSelector ls)"

definition PodMatchesVPA :: "Pod \<Rightarrow> VpaWithSelector \<Rightarrow> bool" where
  "PodMatchesVPA pod v =
     PodLabelsMatchVPA (pod_Namespace pod) (pod_Labels pod) (vpa_Namespace (ws_Vpa v)) (ws_Selector v)"

text \<open>\<open>meta.Time\<close> compares to the nanosecond.\<close>

definition stronger :: "VerticalPodAutoscaler \<Rightarrow> VerticalPodAutoscaler option \<Rightarrow> bool" where
  "stronger a b =
     (case b of
        None \<Rightarrow> True
      | Some b \<Rightarrow>
          if CreationTimestamp a \<noteq> CreationTimestamp b
          then CreationTimestamp a < CreationTimestamp b
          else vpa_Name a < vpa_Name b)"

definition choose_stronger ::
    "Pod \<Rightarrow> VpaWithSelector \<Rightarrow> VpaWithSelector option \<Rightarrow> VpaWithSelector option" where
  "choose_stronger pod v controlling =
     (if PodMatchesVPA pod v \<and> stronger (ws_Vpa v) (map_option ws_Vpa controlling)
      then Some v else controlling)"

definition GetControllingVPAForPod :: "Pod \<Rightarrow> VpaWithSelector list \<Rightarrow> VpaWithSelector option" where
  "GetControllingVPAForPod pod vpas = fold (choose_stronger pod) vpas None"

definition GetUpdateMode :: "VerticalPodAutoscaler \<Rightarrow> UpdateMode" where
  "GetUpdateMode vpa =
     (case UpdatePolicy (vpa_Spec vpa) of
        None \<Rightarrow> UpdateModeAuto
      | Some None \<Rightarrow> UpdateModeAuto
      | Some (Some mode) \<Rightarrow> if mode = [] then UpdateModeAuto else mode)"

fun policy_loop ::
    "string \<Rightarrow> ContainerResourcePolicy option \<Rightarrow> PodResourcePolicy \<Rightarrow> ContainerResourcePolicy option"
where
  "policy_loop containerName defaultPolicy [] = defaultPolicy"
| "policy_loop containerName defaultPolicy (p # ps) =
     (if crp_ContainerName p = containerName then Some p
      else policy_loop containerName
             (if crp_ContainerName p = DefaultContainerResourcePolicy then Some p else defaultPolicy) ps)"

definition GetContainerResourcePolicy ::
    "string \<Rightarrow> PodResourcePolicy option \<Rightarrow> ContainerResourcePolicy option" where
  "GetContainerResourcePolicy containerName policy =
     (case policy of None \<Rightarrow> None | Some ps \<Rightarrow> policy_loop containerName None ps)"

definition GetContainerControlledValues ::
    "string \<Rightarrow> PodResourcePolicy option \<Rightarrow> ContainerControlledValues" where
  "GetContainerControlledValues name policy =
     (case GetContainerResourcePolicy name policy of
        None \<Rightarrow> ContainerControlledValuesRequestsAndLimits
      | Some p \<Rightarrow> (case ControlledValues p of
            None \<Rightarrow> ContainerControlledValuesRequestsAndLimits
          | Some v \<Rightarrow> v))"

section \<open>Lemmas\<close>

text \<open>The order in which VPAs win: by creation, then by name.\<close>

definition strength :: "VpaWithSelector \<Rightarrow> time \<times> string" where
  "strength v = (CreationTimestamp (ws_Vpa v), vpa_Name (ws_Vpa v))"

lemma stronger_iff:
  "stronger (ws_Vpa v) (Some (ws_Vpa w)) \<longleftrightarrow>
     fst (strength v) < fst (strength w) \<or>
     fst (strength v) = fst (strength w) \<and> snd (strength v) < snd (strength w)"
  by (auto simp: stronger_def strength_def)

definition weakly_stronger :: "VpaWithSelector \<Rightarrow> VpaWithSelector \<Rightarrow> bool" where
  "weakly_stronger v w \<longleftrightarrow> \<not> stronger (ws_Vpa w) (Some (ws_Vpa v))"

lemma weakly_stronger_refl: "weakly_stronger v v"
  by (simp add: weakly_stronger_def stronger_iff)

lemma weakly_stronger_trans:
  "weakly_stronger u v \<Longrightarrow> weakly_stronger v w \<Longrightarrow> weakly_stronger u w"
  unfolding weakly_stronger_def stronger_iff by (metis less_trans linorder_less_linear)

lemma stronger_weakly: "stronger (ws_Vpa v) (Some (ws_Vpa w)) \<Longrightarrow> weakly_stronger v w"
  unfolding weakly_stronger_def stronger_iff by (metis less_asym less_irrefl)

lemma fold_choose_stronger:
  "fold (choose_stronger pod) vpas c = r \<Longrightarrow>
   (\<forall>v. c = Some v \<longrightarrow> PodMatchesVPA pod v) \<Longrightarrow>
   (case r of
      None \<Rightarrow> c = None \<and> (\<forall>v \<in> set vpas. \<not> PodMatchesVPA pod v)
    | Some v \<Rightarrow> PodMatchesVPA pod v \<and> (v \<in> set vpas \<or> c = Some v) \<and>
        (\<forall>w \<in> set vpas. PodMatchesVPA pod w \<longrightarrow> weakly_stronger v w) \<and>
        (\<forall>w. c = Some w \<longrightarrow> weakly_stronger v w))"
proof (induction vpas arbitrary: c)
  case Nil
  then show ?case by (auto simp: weakly_stronger_refl split: option.splits)
next
  case (Cons v vpas)
  let ?c = "choose_stronger pod v c"
  have c: "\<forall>u. ?c = Some u \<longrightarrow> PodMatchesVPA pod u"
    using Cons.prems(2) by (auto simp: choose_stronger_def)
  have IH: "case r of
      None \<Rightarrow> ?c = None \<and> (\<forall>v \<in> set vpas. \<not> PodMatchesVPA pod v)
    | Some u \<Rightarrow> PodMatchesVPA pod u \<and> (u \<in> set vpas \<or> ?c = Some u) \<and>
        (\<forall>w \<in> set vpas. PodMatchesVPA pod w \<longrightarrow> weakly_stronger u w) \<and>
        (\<forall>w. ?c = Some w \<longrightarrow> weakly_stronger u w)"
    using Cons.IH [OF _ c] Cons.prems(1) by simp
  have keep: "PodMatchesVPA pod v \<Longrightarrow> \<exists>w. ?c = Some w \<and> weakly_stronger w v"
    by (cases c) (auto simp: choose_stronger_def weakly_stronger_def weakly_stronger_refl
        stronger_iff stronger_def)
  have keep2: "c = Some w \<Longrightarrow> \<exists>u. ?c = Some u \<and> weakly_stronger u w" for w
    using stronger_weakly by (auto simp: choose_stronger_def weakly_stronger_refl)
  show ?case
  proof (cases r)
    case None
    then show ?thesis using IH keep keep2 by (cases c) auto
  next
    case (Some u)
    have sub: "?c = Some u \<Longrightarrow> u = v \<or> c = Some u"
      by (auto simp: choose_stronger_def split: if_splits)
    have 1: "PodMatchesVPA pod v \<Longrightarrow> weakly_stronger u v"
      using IH keep weakly_stronger_trans [of u _ v] unfolding Some by force
    have 2: "weakly_stronger u w" if "c = Some w" for w
      using IH keep2 [OF that] weakly_stronger_trans [of u _ w] unfolding Some by force
    show ?thesis using IH 1 2 sub unfolding Some by auto
  qed
qed

text \<open>
  The VPA that controls a pod is one of the given ones, matches the pod (same namespace, its
  selector matches the labels), and no other matching VPA is stronger: none was created earlier
  and, among equally old ones, none has a smaller name. There is none only if no VPA matches.
\<close>

theorem GetControllingVPAForPod_strongest:
  "case GetControllingVPAForPod pod vpas of
     None \<Rightarrow> \<forall>v \<in> set vpas. \<not> PodMatchesVPA pod v
   | Some v \<Rightarrow> v \<in> set vpas \<and> pod_Namespace pod = vpa_Namespace (ws_Vpa v) \<and>
       Matches (ws_Selector v) (pod_Labels pod) \<and>
       (\<forall>w \<in> set vpas. PodMatchesVPA pod w \<longrightarrow> \<not> stronger (ws_Vpa w) (Some (ws_Vpa v)))"
proof -
  have "PodMatchesVPA pod v \<Longrightarrow> pod_Namespace pod = vpa_Namespace (ws_Vpa v) \<and>
      Matches (ws_Selector v) (pod_Labels pod)" for v
    by (simp add: PodMatchesVPA_def PodLabelsMatchVPA_def split: if_splits)
  then show ?thesis
    using fold_choose_stronger [of pod vpas None, OF refl]
    by (auto simp: GetControllingVPAForPod_def weakly_stronger_def split: option.splits)
qed

definition example_pod :: Pod where
  "example_pod = \<lparr>pod_Namespace = ''ns'', pod_Name = ''web-1'', pod_GenerateName = [],
     pod_Labels = [(''app'', ''web'')], pod_Annotations = None, OwnerReferences = [],
     pod_Containers = [], Phase = ''Running'', StartTime = None, ContainerStatuses = [],
     DeletionTimestamp = None\<rparr>"

definition example_vpa :: "string \<Rightarrow> time \<Rightarrow> VpaWithSelector" where
  "example_vpa name created =
     \<lparr>ws_Vpa = \<lparr>vpa_Namespace = ''ns'', vpa_Name = name, vpa_Annotations = [],
        CreationTimestamp = created,
        vpa_Spec = \<lparr>TargetRef = None, UpdatePolicy = None, ResourcePolicy = None\<rparr>,
        vpa_Status = \<lparr>st_Recommendation = None, st_Conditions = []\<rparr>\<rparr>,
      ws_Selector = InternalSelector
        [\<lparr>key = ''app'', operator = In, strValues = [''web'', ''api'']\<rparr>]\<rparr>"

theorem GetControllingVPAForPod_strongest_witness:
  "GetControllingVPAForPod example_pod [example_vpa ''new'' 7, example_vpa ''old'' 3] =
     Some (example_vpa ''old'' 3) \<and>
   \<not> stronger (ws_Vpa (example_vpa ''new'' 7)) (Some (ws_Vpa (example_vpa ''old'' 3)))"
proof -
  let ?vs = "[example_vpa ''new'' 7, example_vpa ''old'' 3]"
  have m: "PodMatchesVPA example_pod (example_vpa n t)" for n t
    by (simp add: PodMatchesVPA_def PodLabelsMatchVPA_def example_pod_def example_vpa_def
        Requirement_Matches_def)
  have c: "GetControllingVPAForPod example_pod ?vs = Some (example_vpa ''old'' 3)"
    by (simp add: GetControllingVPAForPod_def choose_stronger_def m stronger_def)
      (simp add: example_vpa_def)
  then show ?thesis
    using GetControllingVPAForPod_strongest [of ?vs example_pod] m by simp
qed

text \<open>
  The policy of a container: the first entry with its name, else the last wildcard entry.
\<close>

lemma policy_loop_spec:
  "policy_loop n d ps =
     (case find (\<lambda>p. crp_ContainerName p = n) ps of
        Some p \<Rightarrow> Some p
      | None \<Rightarrow> (case find (\<lambda>p. crp_ContainerName p = DefaultContainerResourcePolicy) (rev ps) of
            Some p \<Rightarrow> Some p
          | None \<Rightarrow> d))"
proof (induction ps arbitrary: d)
  case (Cons p ps)
  have "find P (xs @ [x]) = (case find P xs of Some y \<Rightarrow> Some y | None \<Rightarrow> if P x then Some x else None)"
    for P and x :: ContainerResourcePolicy and xs
    by (induction xs) auto
  with Cons show ?case by (auto split: option.splits)
qed simp

text \<open>
  A selector that selects nothing and one that selects everything print the same, so comparing
  the printed forms does not tell them apart.
\<close>

lemma Selector_String_not_injective:
  "Selector_String NothingSelector = Selector_String (InternalSelector []) \<and>
   Matches (InternalSelector []) ls \<and> \<not> Matches NothingSelector ls"
  by simp

end
