(* ===== verification/Aggregate_State.thy ===== *)
theory Aggregate_State
  imports Decaying_Histogram Kube_Types
begin

text \<open>
  \<open>pkg/recommender/model/aggregations_config.go\<close> and \<open>aggregate_container_state.go\<close>: the state that
  aggregates the usage samples of a set of containers, its checkpoint form, and the merge of
  aggregates by container name. The global configuration (\<open>GetAggregationsConfig\<close>) and the clock
  (\<open>time.Now\<close>) are arguments. Merging renormalises the histograms of its argument too, so it
  returns both states. \<open>ContainerStateAggregator\<close> is the Go interface: the record of its methods
  over an arbitrary state, which \<open>AggregateContainerState\<close> implements here and a reference or a
  proxy into the cluster state implements in \<open>Cluster_State\<close>.
\<close>

section \<open>Configuration\<close>

record AggregationsConfig =
  MemoryAggregationInterval :: duration
  MemoryAggregationIntervalCount :: int
  CPUHistogramOptions :: HistogramOptions
  MemoryHistogramOptions :: HistogramOptions
  HistogramBucketSizeGrowth :: float64
  MemoryHistogramDecayHalfLife :: duration
  CPUHistogramDecayHalfLife :: duration

definition minSampleWeight :: float64 where "minSampleWeight = 1 / 10"
definition epsilon :: float64 where "epsilon = 1 / 1000 * minSampleWeight"
definition DefaultMemoryAggregationIntervalCount :: int where
  "DefaultMemoryAggregationIntervalCount = 8"
definition DefaultMemoryAggregationInterval :: duration where
  "DefaultMemoryAggregationInterval = hour * 24"
definition DefaultHistogramBucketSizeGrowth :: float64 where
  "DefaultHistogramBucketSizeGrowth = 5 / 100"
definition DefaultMemoryHistogramDecayHalfLife :: duration where
  "DefaultMemoryHistogramDecayHalfLife = hour * 24"
definition DefaultCPUHistogramDecayHalfLife :: duration where
  "DefaultCPUHistogramDecayHalfLife = hour * 24"

definition GetMemoryAggregationWindowLength :: "AggregationsConfig \<Rightarrow> duration" where
  "GetMemoryAggregationWindowLength a =
     wrap64 (MemoryAggregationInterval a * MemoryAggregationIntervalCount a)"

definition cpuHistogramOptions :: "float64 \<Rightarrow> HistogramOptions result" where
  "cpuHistogramOptions growth =
     (case NewExponentialHistogramOptions 1000 (1 / 100) (1 + growth) epsilon of
        Inl e \<Rightarrow> Inl (Panic ''Invalid CPU histogram options'') | Inr c \<Rightarrow> Inr c)"

definition memoryHistogramOptions :: "float64 \<Rightarrow> HistogramOptions result" where
  "memoryHistogramOptions growth =
     (case NewExponentialHistogramOptions (10 ^ 12) (10 ^ 7) (1 + growth) epsilon of
        Inl e \<Rightarrow> Inl (Panic ''Invalid memory histogram options'') | Inr c \<Rightarrow> Inr c)"

definition NewAggregationsConfig ::
    "duration \<Rightarrow> int \<Rightarrow> duration \<Rightarrow> duration \<Rightarrow> AggregationsConfig result" where
  "NewAggregationsConfig memoryAggregationInterval memoryAggregationIntervalCount
       memoryHistogramDecayHalfLife cpuHistogramDecayHalfLife =
     rbind (cpuHistogramOptions DefaultHistogramBucketSizeGrowth) (\<lambda>cpu.
       rbind (memoryHistogramOptions DefaultHistogramBucketSizeGrowth) (\<lambda>memory.
         Inr \<lparr>MemoryAggregationInterval = memoryAggregationInterval,
              MemoryAggregationIntervalCount = memoryAggregationIntervalCount,
              CPUHistogramOptions = cpu, MemoryHistogramOptions = memory,
              HistogramBucketSizeGrowth = DefaultHistogramBucketSizeGrowth,
              MemoryHistogramDecayHalfLife = memoryHistogramDecayHalfLife,
              CPUHistogramDecayHalfLife = cpuHistogramDecayHalfLife\<rparr>))"

text \<open>The global configuration, initialised with the defaults on first use.\<close>

definition GetAggregationsConfig ::
    "AggregationsConfig option \<Rightarrow> (AggregationsConfig \<times> AggregationsConfig option) result" where
  "GetAggregationsConfig global =
     (case global of
        Some c \<Rightarrow> Inr (c, global)
      | None \<Rightarrow>
          rbind (NewAggregationsConfig DefaultMemoryAggregationInterval
                   DefaultMemoryAggregationIntervalCount DefaultMemoryHistogramDecayHalfLife
                   DefaultCPUHistogramDecayHalfLife)
            (\<lambda>c. Inr (c, Some c)))"

section \<open>Samples and the aggregator interface\<close>

record ContainerUsageSample =
  MeasureStart :: time
  Usage :: ResourceAmount
  Request :: ResourceAmount
  Resource :: ResourceName

record 'a ContainerStateAggregator =
  op_AddSample :: "'a \<Rightarrow> ContainerUsageSample \<Rightarrow> 'a result"
  op_SubtractSample :: "'a \<Rightarrow> ContainerUsageSample \<Rightarrow> 'a result"
  op_GetLastRecommendation :: "'a \<Rightarrow> (ResourceList option \<times> 'a) result"
  op_NeedsRecommendation :: "'a \<Rightarrow> (bool \<times> 'a) result"
  op_GetUpdateMode :: "'a \<Rightarrow> (UpdateMode option \<times> 'a) result"

section \<open>Aggregate state of containers\<close>

definition SupportedCheckpointVersion :: string where "SupportedCheckpointVersion = ''v3''"
definition DefaultControlledResources :: "ResourceName list" where
  "DefaultControlledResources = [ResourceCPU, ResourceMemory]"

record AggregateContainerState =
  AggregateCPUUsage :: decayingHistogram
  AggregateMemoryPeaks :: decayingHistogram
  FirstSampleStart :: time
  LastSampleStart :: time
  TotalSamplesCount :: int
  CreationTime :: time
  LastRecommendation :: "ResourceList option"
  IsUnderVPA :: bool
  acs_UpdateMode :: "UpdateMode option"
  ScalingMode :: "ContainerScalingMode option"
  ControlledResources :: "ResourceName list option"

record CheckpointStatus =
  cps_Version :: string
  cps_CPUHistogram :: HistogramCheckpoint
  cps_MemoryHistogram :: HistogramCheckpoint
  cps_FirstSampleStart :: time
  cps_LastSampleStart :: time
  cps_TotalSamplesCount :: int
  cps_LastUpdateTime :: time

definition GetLastRecommendation :: "AggregateContainerState \<Rightarrow> ResourceList option" where
  "GetLastRecommendation a = LastRecommendation a"

definition NeedsRecommendation :: "AggregateContainerState \<Rightarrow> bool" where
  "NeedsRecommendation a \<longleftrightarrow>
     IsUnderVPA a \<and> ScalingMode a \<noteq> None \<and> ScalingMode a \<noteq> Some ContainerScalingModeOff"

definition agg_GetUpdateMode :: "AggregateContainerState \<Rightarrow> UpdateMode option" where
  "agg_GetUpdateMode a = acs_UpdateMode a"

definition GetScalingMode :: "AggregateContainerState \<Rightarrow> ContainerScalingMode option" where
  "GetScalingMode a = ScalingMode a"

definition GetControlledResources :: "AggregateContainerState \<Rightarrow> ResourceName list" where
  "GetControlledResources a =
     (case ControlledResources a of Some r \<Rightarrow> r | None \<Rightarrow> DefaultControlledResources)"

definition MarkNotAutoscaled :: "AggregateContainerState \<Rightarrow> AggregateContainerState" where
  "MarkNotAutoscaled a =
     a\<lparr>IsUnderVPA := False, LastRecommendation := None, acs_UpdateMode := None,
       ScalingMode := None, ControlledResources := None\<rparr>"

definition MergeContainerState ::
    "AggregateContainerState \<Rightarrow> AggregateContainerState \<Rightarrow>
     (AggregateContainerState \<times> AggregateContainerState) result" where
  "MergeContainerState a other =
     rbind (decaying_Merge (AggregateCPUUsage a) (AggregateCPUUsage other)) (\<lambda>(cpu, ocpu).
     rbind (decaying_Merge (AggregateMemoryPeaks a) (AggregateMemoryPeaks other)) (\<lambda>(memory, omem).
       Inr (a\<lparr>AggregateCPUUsage := cpu, AggregateMemoryPeaks := memory,
              FirstSampleStart :=
                (if time_IsZero (FirstSampleStart a) \<or>
                    \<not> time_IsZero (FirstSampleStart other) \<and>
                    time_Before (FirstSampleStart other) (FirstSampleStart a)
                 then FirstSampleStart other else FirstSampleStart a),
              LastSampleStart :=
                (if time_After (LastSampleStart other) (LastSampleStart a)
                 then LastSampleStart other else LastSampleStart a),
              TotalSamplesCount := TotalSamplesCount a + TotalSamplesCount other\<rparr>,
            other\<lparr>AggregateCPUUsage := ocpu, AggregateMemoryPeaks := omem\<rparr>)))"

definition NewAggregateContainerState :: "AggregationsConfig \<Rightarrow> time \<Rightarrow> AggregateContainerState" where
  "NewAggregateContainerState config now =
     \<lparr>AggregateCPUUsage =
        NewDecayingHistogram (CPUHistogramOptions config) (CPUHistogramDecayHalfLife config),
      AggregateMemoryPeaks =
        NewDecayingHistogram (MemoryHistogramOptions config) (MemoryHistogramDecayHalfLife config),
      FirstSampleStart = zero_time, LastSampleStart = zero_time, TotalSamplesCount = 0,
      CreationTime = now, LastRecommendation = None, IsUnderVPA = False, acs_UpdateMode = None,
      ScalingMode = None, ControlledResources = None\<rparr>"

definition agg_addCPUSample ::
    "AggregateContainerState \<Rightarrow> ContainerUsageSample \<Rightarrow> AggregateContainerState result" where
  "agg_addCPUSample a sample =
     (let cpuUsageCores = CoresFromCPUAmount (Usage sample);
          cpuRequestCores = CoresFromCPUAmount (Request sample)
      in rbind (decaying_AddSample (AggregateCPUUsage a) cpuUsageCores
                  (max cpuRequestCores minSampleWeight) (MeasureStart sample)) (\<lambda>h.
           Inr (a\<lparr>AggregateCPUUsage := h,
                  LastSampleStart :=
                    (if time_After (MeasureStart sample) (LastSampleStart a)
                     then MeasureStart sample else LastSampleStart a),
                  FirstSampleStart :=
                    (if time_IsZero (FirstSampleStart a) \<or>
                        time_Before (MeasureStart sample) (FirstSampleStart a)
                     then MeasureStart sample else FirstSampleStart a),
                  TotalSamplesCount := TotalSamplesCount a + 1\<rparr>)))"

definition agg_AddSample ::
    "AggregateContainerState \<Rightarrow> ContainerUsageSample \<Rightarrow> AggregateContainerState result" where
  "agg_AddSample a sample =
     (if Resource sample = ResourceCPU then agg_addCPUSample a sample
      else if Resource sample = ResourceMemory
      then rbind (decaying_AddSample (AggregateMemoryPeaks a) (BytesFromMemoryAmount (Usage sample)) 1
                    (MeasureStart sample)) (\<lambda>h. Inr (a\<lparr>AggregateMemoryPeaks := h\<rparr>))
      else Inl (Panic ''AddSample doesn't support resource''))"

definition agg_SubtractSample ::
    "AggregateContainerState \<Rightarrow> ContainerUsageSample \<Rightarrow> AggregateContainerState result" where
  "agg_SubtractSample a sample =
     (if Resource sample = ResourceMemory
      then rbind (decaying_SubtractSample (AggregateMemoryPeaks a)
                    (BytesFromMemoryAmount (Usage sample)) 1 (MeasureStart sample))
             (\<lambda>h. Inr (a\<lparr>AggregateMemoryPeaks := h\<rparr>))
      else Inl (Panic ''SubtractSample doesn't support resource''))"

definition agg_SaveToCheckpoint :: "AggregateContainerState \<Rightarrow> CheckpointStatus" where
  "agg_SaveToCheckpoint a =
     \<lparr>cps_Version = SupportedCheckpointVersion,
      cps_CPUHistogram = decaying_SaveToChekpoint (AggregateCPUUsage a),
      cps_MemoryHistogram = decaying_SaveToChekpoint (AggregateMemoryPeaks a),
      cps_FirstSampleStart = FirstSampleStart a, cps_LastSampleStart = LastSampleStart a,
      cps_TotalSamplesCount = TotalSamplesCount a, cps_LastUpdateTime = zero_time\<rparr>"

text \<open>On an error the state keeps what was assigned before it: the new state is returned in any case.\<close>

definition agg_LoadFromCheckpoint ::
    "AggregateContainerState \<Rightarrow> CheckpointStatus \<Rightarrow> go_error option \<times> AggregateContainerState" where
  "agg_LoadFromCheckpoint a checkpoint =
     (if cps_Version checkpoint \<noteq> SupportedCheckpointVersion
      then (Some (Err ''unsuported checkpoint version''), a)
      else
        let a1 = a\<lparr>TotalSamplesCount := cps_TotalSamplesCount checkpoint,
                   FirstSampleStart := cps_FirstSampleStart checkpoint,
                   LastSampleStart := cps_LastSampleStart checkpoint\<rparr>
        in case decaying_LoadFromCheckpoint (AggregateMemoryPeaks a1)
                  (Some (cps_MemoryHistogram checkpoint)) of
             Inl e \<Rightarrow> (Some e, a1)
           | Inr memory \<Rightarrow>
               let a2 = a1\<lparr>AggregateMemoryPeaks := memory\<rparr>
               in (case decaying_LoadFromCheckpoint (AggregateCPUUsage a2)
                          (Some (cps_CPUHistogram checkpoint)) of
                     Inl e \<Rightarrow> (Some e, a2)
                   | Inr cpu \<Rightarrow> (None, a2\<lparr>AggregateCPUUsage := cpu\<rparr>)))"

definition agg_isEmpty :: "AggregateContainerState \<Rightarrow> bool" where
  "agg_isEmpty a \<longleftrightarrow> TotalSamplesCount a = 0"

definition isExpired :: "AggregationsConfig \<Rightarrow> AggregateContainerState \<Rightarrow> time \<Rightarrow> bool" where
  "isExpired config a now =
     (if agg_isEmpty a
      then GetMemoryAggregationWindowLength config \<le> time_Sub now (CreationTime a)
      else GetMemoryAggregationWindowLength config \<le> time_Sub now (LastSampleStart a))"

definition UpdateFromPolicy ::
    "AggregateContainerState \<Rightarrow> ContainerResourcePolicy option \<Rightarrow> AggregateContainerState" where
  "UpdateFromPolicy a resourcePolicy =
     a\<lparr>ScalingMode :=
         (case resourcePolicy of
            None \<Rightarrow> Some ContainerScalingModeAuto
          | Some p \<Rightarrow> (case Mode p of None \<Rightarrow> Some ContainerScalingModeAuto | Some m \<Rightarrow> Some m)),
       ControlledResources :=
         (case resourcePolicy of
            None \<Rightarrow> Some DefaultControlledResources
          | Some p \<Rightarrow> (case crp_ControlledResources p of
                None \<Rightarrow> Some DefaultControlledResources
              | Some rs \<Rightarrow> Some (ResourceNamesApiToModel rs)))\<rparr>"

text \<open>\<open>AggregateContainerState\<close> as an implementation of the interface.\<close>

definition aggregate_aggregator :: "AggregateContainerState ContainerStateAggregator" where
  "aggregate_aggregator =
     \<lparr>op_AddSample = agg_AddSample, op_SubtractSample = agg_SubtractSample,
      op_GetLastRecommendation = (\<lambda>a. Inr (GetLastRecommendation a, a)),
      op_NeedsRecommendation = (\<lambda>a. Inr (NeedsRecommendation a, a)),
      op_GetUpdateMode = (\<lambda>a. Inr (agg_GetUpdateMode a, a))\<rparr>"

section \<open>Grouping by container name\<close>

record AggregateStateKey =
  ak_namespace :: string
  ak_containerName :: string
  ak_labelSetKey :: string

type_synonym ContainerNameToAggregateStateMap = "(string, AggregateContainerState) gomap"

text \<open>
  The loop over the aggregates in iteration order; it returns the map from container names and the
  input aggregates as merging leaves them.
\<close>

fun aggregate_by_name ::
    "AggregationsConfig \<Rightarrow> time \<Rightarrow> (AggregateStateKey \<times> AggregateContainerState) list \<Rightarrow>
     ContainerNameToAggregateStateMap \<Rightarrow>
     (ContainerNameToAggregateStateMap \<times> (AggregateStateKey \<times> AggregateContainerState) list) result"
where
  "aggregate_by_name config now [] acc = Inr (acc, [])"
| "aggregate_by_name config now ((k, aggregation) # rest) acc =
     (let containerName = ak_containerName k;
          state = (case map_of acc containerName of
                     Some s \<Rightarrow> s | None \<Rightarrow> NewAggregateContainerState config now)
      in rbind (MergeContainerState state aggregation) (\<lambda>(state', aggregation').
           rbind (aggregate_by_name config now rest (AList.update containerName state' acc))
             (\<lambda>(m, ins). Inr (m, (k, aggregation') # ins))))"

definition AggregateStateByContainerName ::
    "AggregationsConfig \<Rightarrow> time \<Rightarrow> (AggregateStateKey, AggregateContainerState) gomap \<Rightarrow>
     (ContainerNameToAggregateStateMap \<times> (AggregateStateKey \<times> AggregateContainerState) list) result"
where
  "AggregateStateByContainerName config now aggregateContainerStateMap =
     aggregate_by_name config now aggregateContainerStateMap []"

section \<open>Invariant\<close>

definition config_ok :: "AggregationsConfig \<Rightarrow> bool" where
  "config_ok config \<longleftrightarrow>
     options_wf (CPUHistogramOptions config) \<and> options_wf (MemoryHistogramOptions config) \<and>
     0 < CPUHistogramDecayHalfLife config \<and>
     CPUHistogramDecayHalfLife config * maxDecayExponent \<le> int64_max \<and>
     0 < MemoryHistogramDecayHalfLife config \<and>
     MemoryHistogramDecayHalfLife config * maxDecayExponent \<le> int64_max \<and>
     0 < MemoryAggregationInterval config"

lemma histogram_options_Inr:
  assumes "0 < growth"
  shows "\<exists>c. cpuHistogramOptions growth = Inr c \<and> options_wf c"
    "\<exists>c. memoryHistogramOptions growth = Inr c \<and> options_wf c"
proof -
  have "\<exists>c. NewExponentialHistogramOptions m f (1 + growth) epsilon = Inr c" if "0 < m" "0 < f" for m f
    using that assms
    by (simp add: NewExponentialHistogramOptions_def epsilon_def minSampleWeight_def Let_def)
  from this [of 1000 "1 / 100"] this [of "10 ^ 12" "10 ^ 7"]
  show "\<exists>c. cpuHistogramOptions growth = Inr c \<and> options_wf c"
    "\<exists>c. memoryHistogramOptions growth = Inr c \<and> options_wf c"
    using NewExponentialHistogramOptions_wf
    by (auto simp: cpuHistogramOptions_def memoryHistogramOptions_def)
qed

lemma NewAggregationsConfig_ok:
  assumes "0 < i" "0 < m" "m * maxDecayExponent \<le> int64_max" "0 < c" "c * maxDecayExponent \<le> int64_max"
  shows "\<exists>config. NewAggregationsConfig i n m c = Inr config \<and> config_ok config \<and>
    MemoryAggregationInterval config = i \<and> MemoryAggregationIntervalCount config = n"
  using histogram_options_Inr [of DefaultHistogramBucketSizeGrowth] assms
  by (auto simp: NewAggregationsConfig_def config_ok_def DefaultHistogramBucketSizeGrowth_def)

lemma GetAggregationsConfig_default:
  "\<exists>config. GetAggregationsConfig None = Inr (config, Some config) \<and> config_ok config \<and>
     MemoryAggregationInterval config = 24 * hour \<and> MemoryAggregationIntervalCount config = 8"
  using NewAggregationsConfig_ok [of DefaultMemoryAggregationInterval
      DefaultMemoryHistogramDecayHalfLife DefaultCPUHistogramDecayHalfLife
      DefaultMemoryAggregationIntervalCount]
  by (auto simp: GetAggregationsConfig_def DefaultMemoryAggregationInterval_def
      DefaultMemoryHistogramDecayHalfLife_def DefaultCPUHistogramDecayHalfLife_def
      DefaultMemoryAggregationIntervalCount_def maxDecayExponent_def int64_max_def
      hour_def minute_def second_def)

text \<open>
  Either no CPU sample was seen and both timestamps are the zero time, or the first sample is not
  after the last one.
\<close>

definition agg_times :: "AggregateContainerState \<Rightarrow> bool" where
  "agg_times a \<longleftrightarrow>
     (TotalSamplesCount a = 0 \<and> FirstSampleStart a = 0 \<and> LastSampleStart a = 0) \<or>
     (0 < TotalSamplesCount a \<and> 0 < FirstSampleStart a \<and> FirstSampleStart a \<le> LastSampleStart a)"

definition agg_histograms :: "AggregationsConfig \<Rightarrow> AggregateContainerState \<Rightarrow> bool" where
  "agg_histograms config a \<longleftrightarrow>
     decaying_inv (AggregateCPUUsage a) \<and> decaying_inv (AggregateMemoryPeaks a) \<and>
     decaying_same (AggregateCPUUsage (NewAggregateContainerState config 0)) (AggregateCPUUsage a) \<and>
     decaying_same (AggregateMemoryPeaks (NewAggregateContainerState config 0)) (AggregateMemoryPeaks a)"

definition agg_ok :: "AggregationsConfig \<Rightarrow> AggregateContainerState \<Rightarrow> bool" where
  "agg_ok config a \<longleftrightarrow> agg_histograms config a \<and> agg_times a"

lemma NewAggregateContainerState_ok: "config_ok config \<Longrightarrow> agg_ok config (NewAggregateContainerState config now)"
  by (simp add: agg_ok_def agg_histograms_def agg_times_def NewAggregateContainerState_def config_ok_def
      decaying_ok_inv NewDecayingHistogram_ok zero_time_def)

lemma agg_histograms_update:
  "agg_histograms config a \<Longrightarrow> decaying_inv h \<Longrightarrow> decaying_same (AggregateCPUUsage a) h \<Longrightarrow>
     agg_histograms config (a\<lparr>AggregateCPUUsage := h\<rparr>)"
  "agg_histograms config a \<Longrightarrow> decaying_inv h \<Longrightarrow> decaying_same (AggregateMemoryPeaks a) h \<Longrightarrow>
     agg_histograms config (a\<lparr>AggregateMemoryPeaks := h\<rparr>)"
  using decaying_weak.same_trans by (auto simp: agg_histograms_def)

lemma agg_histograms_same:
  assumes "agg_histograms config a" "agg_histograms config b"
  shows "decaying_same (AggregateCPUUsage a) (AggregateCPUUsage b)"
    "decaying_same (AggregateMemoryPeaks a) (AggregateMemoryPeaks b)"
  using assms by (auto simp: agg_histograms_def decaying_same_def)

lemma agg_histograms_frame [simp]:
  "agg_histograms config (a\<lparr>LastSampleStart := l\<rparr>) = agg_histograms config a"
  "agg_histograms config (a\<lparr>FirstSampleStart := l\<rparr>) = agg_histograms config a"
  "agg_histograms config (a\<lparr>TotalSamplesCount := n\<rparr>) = agg_histograms config a"
  "agg_histograms config (a\<lparr>IsUnderVPA := v\<rparr>) = agg_histograms config a"
  "agg_histograms config (a\<lparr>LastRecommendation := r\<rparr>) = agg_histograms config a"
  "agg_histograms config (a\<lparr>acs_UpdateMode := u\<rparr>) = agg_histograms config a"
  "agg_histograms config (a\<lparr>ScalingMode := m\<rparr>) = agg_histograms config a"
  "agg_histograms config (a\<lparr>ControlledResources := c\<rparr>) = agg_histograms config a"
  by (simp_all add: agg_histograms_def)

lemma agg_ok_frame [simp]:
  "agg_ok config (MarkNotAutoscaled a) = agg_ok config a"
  "agg_ok config (UpdateFromPolicy a p) = agg_ok config a"
  "agg_ok config (a\<lparr>IsUnderVPA := v\<rparr>) = agg_ok config a"
  "agg_ok config (a\<lparr>LastRecommendation := r\<rparr>) = agg_ok config a"
  "agg_ok config (a\<lparr>acs_UpdateMode := u\<rparr>) = agg_ok config a"
  by (simp_all add: agg_ok_def agg_times_def MarkNotAutoscaled_def UpdateFromPolicy_def)

lemma agg_AddSample_ok:
  assumes ok: "agg_ok config a" and res: "Resource s \<in> {ResourceCPU, ResourceMemory}"
    and t: "0 < MeasureStart s"
  shows "\<exists>a'. agg_AddSample a s = Inr a' \<and> agg_ok config a' \<and>
    TotalSamplesCount a' = TotalSamplesCount a + (if Resource s = ResourceCPU then 1 else 0)"
proof (cases "Resource s = ResourceCPU")
  case True
  obtain h where h: "decaying_AddSample (AggregateCPUUsage a) (CoresFromCPUAmount (Usage s))
      (max (CoresFromCPUAmount (Request s)) minSampleWeight) (MeasureStart s) = Inr h"
      "decaying_inv h" "decaying_same (AggregateCPUUsage a) h"
    using decaying_weak.add_ok [of "AggregateCPUUsage a"
        "max (CoresFromCPUAmount (Request s)) minSampleWeight" "CoresFromCPUAmount (Usage s)"
        "MeasureStart s"] ok
    by (auto simp: agg_ok_def agg_histograms_def minSampleWeight_def le_max_iff_disj)
  have hs: "agg_histograms config (a\<lparr>AggregateCPUUsage := h\<rparr>)"
    using agg_histograms_update(1) h(2,3) ok by (simp add: agg_ok_def)
  have "agg_times a" using ok by (simp add: agg_ok_def)
  then show ?thesis using True h(1) hs t
    by (auto simp: agg_AddSample_def agg_addCPUSample_def agg_ok_def agg_times_def time_defs)
next
  case False
  then have "Resource s = ResourceMemory" using res by simp
  then show ?thesis
    using decaying_weak.add_ok [of "AggregateMemoryPeaks a" 1 "BytesFromMemoryAmount (Usage s)" "MeasureStart s"]
      ok agg_histograms_update(2)
    by (auto simp: agg_AddSample_def agg_ok_def agg_histograms_def [of config a] agg_times_def)
qed

lemma agg_SubtractSample_ok:
  assumes ok: "agg_ok config a" and "Resource s = ResourceMemory"
  shows "\<exists>a'. agg_SubtractSample a s = Inr a' \<and> agg_ok config a' \<and>
    TotalSamplesCount a' = TotalSamplesCount a"
  using decaying_weak.sub_ok [of "AggregateMemoryPeaks a" 1 "BytesFromMemoryAmount (Usage s)" "MeasureStart s"]
    assms agg_histograms_update(2)
  by (auto simp: agg_SubtractSample_def agg_ok_def agg_histograms_def [of config a] agg_times_def)

text \<open>The time stamps of a merge: the earlier first sample (of those that have one), the later last one.\<close>

definition merge_first :: "time \<Rightarrow> time \<Rightarrow> time" where
  "merge_first t u = (if t = 0 then u else if u = 0 then t else min t u)"

lemma MergeContainerState_ok:
  assumes "agg_ok config a" "agg_ok config b"
  shows "\<exists>a' b'. MergeContainerState a b = Inr (a', b') \<and> agg_ok config a' \<and> agg_ok config b' \<and>
    TotalSamplesCount a' = TotalSamplesCount a + TotalSamplesCount b \<and>
    FirstSampleStart a' = merge_first (FirstSampleStart a) (FirstSampleStart b) \<and>
    LastSampleStart a' = max (LastSampleStart a) (LastSampleStart b) \<and>
    TotalSamplesCount b' = TotalSamplesCount b \<and>
    FirstSampleStart b' = FirstSampleStart b \<and> LastSampleStart b' = LastSampleStart b"
proof -
  have hs: "agg_histograms config a" "agg_histograms config b"
    and ts: "agg_times a" "agg_times b" using assms by (simp_all add: agg_ok_def)
  have inv: "decaying_inv (AggregateCPUUsage a)" "decaying_inv (AggregateCPUUsage b)"
    "decaying_inv (AggregateMemoryPeaks a)" "decaying_inv (AggregateMemoryPeaks b)"
    using hs by (simp_all add: agg_histograms_def)
  obtain c c' where c: "decaying_Merge (AggregateCPUUsage a) (AggregateCPUUsage b) = Inr (c, c')"
    "decaying_inv c" "decaying_same (AggregateCPUUsage a) c" "decaying_inv c'"
    "decaying_same (AggregateCPUUsage b) c'"
    using decaying_Merge_inv [OF inv(1,2) agg_histograms_same(1) [OF hs]] by blast
  obtain m m' where m: "decaying_Merge (AggregateMemoryPeaks a) (AggregateMemoryPeaks b) = Inr (m, m')"
    "decaying_inv m" "decaying_same (AggregateMemoryPeaks a) m" "decaying_inv m'"
    "decaying_same (AggregateMemoryPeaks b) m'"
    using decaying_Merge_inv [OF inv(3,4) agg_histograms_same(2) [OF hs]] by blast
  have 1: "agg_histograms config (a\<lparr>AggregateCPUUsage := c, AggregateMemoryPeaks := m\<rparr>)"
    using agg_histograms_update(2) [OF agg_histograms_update(1) [OF hs(1) c(2,3)] m(2)] m(3) by simp
  have 2: "agg_histograms config (b\<lparr>AggregateCPUUsage := c', AggregateMemoryPeaks := m'\<rparr>)"
    using agg_histograms_update(2) [OF agg_histograms_update(1) [OF hs(2) c(4,5)] m(4)] m(5) by simp
  show ?thesis using 1 2 ts
    by (auto simp: MergeContainerState_def c(1) m(1) agg_ok_def agg_times_def time_defs merge_first_def)
qed

lemma agg_LoadFromCheckpoint_histograms:
  assumes "agg_histograms config a" "agg_LoadFromCheckpoint a cp = (e, a')"
    "\<forall>(b, w) \<in> set (BucketWeights (cps_CPUHistogram cp)). 0 \<le> w"
    "\<forall>(b, w) \<in> set (BucketWeights (cps_MemoryHistogram cp)). 0 \<le> w"
  shows "agg_histograms config a'"
proof (cases "cps_Version cp = SupportedCheckpointVersion")
  case False
  then show ?thesis using assms(1,2) by (simp add: agg_LoadFromCheckpoint_def)
next
  case True
  let ?a1 = "a\<lparr>TotalSamplesCount := cps_TotalSamplesCount cp, FirstSampleStart := cps_FirstSampleStart cp,
    LastSampleStart := cps_LastSampleStart cp\<rparr>"
  have h1: "agg_histograms config ?a1" using assms(1) by simp
  show ?thesis
  proof (cases "decaying_LoadFromCheckpoint (AggregateMemoryPeaks a) (Some (cps_MemoryHistogram cp))")
    case (Inl x)
    then show ?thesis using assms(2) True h1 by (auto simp: agg_LoadFromCheckpoint_def Let_def)
  next
    case (Inr m)
    have "decaying_inv m \<and> decaying_same (AggregateMemoryPeaks a) m"
      using decaying_LoadFromCheckpoint_inv [OF _ Inr assms(4)] assms(1) by (simp add: agg_histograms_def)
    then have h2: "agg_histograms config (?a1\<lparr>AggregateMemoryPeaks := m\<rparr>)"
      using agg_histograms_update(2) [OF h1] by simp
    show ?thesis
    proof (cases "decaying_LoadFromCheckpoint (AggregateCPUUsage a) (Some (cps_CPUHistogram cp))")
      case (Inl x)
      then show ?thesis using assms(2) True Inr h2 by (auto simp: agg_LoadFromCheckpoint_def Let_def)
    next
      case c: (Inr c)
      have "decaying_inv c \<and> decaying_same (AggregateCPUUsage a) c"
        using decaying_LoadFromCheckpoint_inv [OF _ c assms(3)] assms(1) by (simp add: agg_histograms_def)
      then have "agg_histograms config (?a1\<lparr>AggregateMemoryPeaks := m, AggregateCPUUsage := c\<rparr>)"
        using agg_histograms_update(1) [OF h2] by simp
      then show ?thesis using assms(2) True Inr c by (auto simp: agg_LoadFromCheckpoint_def Let_def)
    qed
  qed
qed

section \<open>The contract of an aggregator\<close>

text \<open>
  What a container relies on when it hands its samples to an aggregator: CPU and memory samples
  with a time stamp are accepted, memory samples can be taken back, and the queries succeed.
\<close>

locale container_aggregator =
  fixes ops :: "'a ContainerStateAggregator"
    and ok :: "'a \<Rightarrow> bool"
  assumes add_ok: "ok a \<Longrightarrow> Resource s \<in> {ResourceCPU, ResourceMemory} \<Longrightarrow> 0 < MeasureStart s \<Longrightarrow>
      \<exists>a'. op_AddSample ops a s = Inr a' \<and> ok a'"
    and sub_ok: "ok a \<Longrightarrow> Resource s = ResourceMemory \<Longrightarrow> 0 < MeasureStart s \<Longrightarrow>
      \<exists>a'. op_SubtractSample ops a s = Inr a' \<and> ok a'"
    and recommendation_ok: "ok a \<Longrightarrow> \<exists>r a'. op_GetLastRecommendation ops a = Inr (r, a') \<and> ok a'"
    and needs_ok: "ok a \<Longrightarrow> \<exists>r a'. op_NeedsRecommendation ops a = Inr (r, a') \<and> ok a'"
    and mode_ok: "ok a \<Longrightarrow> \<exists>r a'. op_GetUpdateMode ops a = Inr (r, a') \<and> ok a'"

interpretation aggregate: container_aggregator aggregate_aggregator "agg_ok config" for config
proof (unfold_locales, goal_cases)
  case (1 a s)
  then show ?case using agg_AddSample_ok [of config a s] by (auto simp: aggregate_aggregator_def)
next
  case (2 a s)
  then show ?case using agg_SubtractSample_ok [of config a s] by (auto simp: aggregate_aggregator_def)
qed (auto simp: aggregate_aggregator_def)

section \<open>Merging by container name\<close>

definition same_name ::
    "string \<Rightarrow> (AggregateStateKey \<times> AggregateContainerState) list \<Rightarrow> AggregateContainerState list" where
  "same_name n states = map snd (filter (\<lambda>(k, a). ak_containerName k = n) states)"

lemma same_name_simps [simp]:
  "same_name n [] = []"
  "same_name n ((k, a) # states) = (if ak_containerName k = n then a # same_name n states else same_name n states)"
  by (simp_all add: same_name_def)

definition merged_from ::
    "AggregateContainerState \<Rightarrow> AggregateContainerState list \<Rightarrow> AggregateContainerState \<Rightarrow> bool" where
  "merged_from base as r \<longleftrightarrow>
     TotalSamplesCount r = TotalSamplesCount base + sum_list (map TotalSamplesCount as) \<and>
     FirstSampleStart r = fold merge_first (map FirstSampleStart as) (FirstSampleStart base) \<and>
     LastSampleStart r = fold max (map LastSampleStart as) (LastSampleStart base)"

lemma aggregate_by_name_spec:
  assumes "config_ok config" "\<forall>(k, a) \<in> set states. agg_ok config a" "\<forall>(n, a) \<in> set acc. agg_ok config a"
    "gomap_ok acc"
  shows "\<exists>m ins. aggregate_by_name config now states acc = Inr (m, ins) \<and> gomap_ok m \<and>
    fst ` set m = fst ` set acc \<union> (ak_containerName \<circ> fst) ` set states \<and>
    (\<forall>n r. map_of m n = Some r \<longrightarrow> agg_ok config r \<and>
      merged_from (case map_of acc n of Some s \<Rightarrow> s | None \<Rightarrow> NewAggregateContainerState config now)
        (same_name n states) r)"
  using assms(2-4)
proof (induction states arbitrary: acc)
  case Nil
  have "agg_ok config r" if "map_of acc n = Some r" for n r
    using map_of_SomeD [OF that] Nil.prems(2) by auto
  then show ?case using Nil.prems by (auto simp: merged_from_def)
next
  case (Cons e states)
  obtain k a where e: "e = (k, a)" by (cases e)
  let ?n = "ak_containerName k"
  define base where "base = (case map_of acc ?n of Some s \<Rightarrow> s | None \<Rightarrow> NewAggregateContainerState config now)"
  have base: "agg_ok config base"
    using NewAggregateContainerState_ok [OF assms(1)] Cons.prems(2) map_of_SomeD [of acc ?n]
    by (auto simp: base_def split: option.splits)
  obtain b a' where mg: "MergeContainerState base a = Inr (b, a')" "agg_ok config b"
    "TotalSamplesCount b = TotalSamplesCount base + TotalSamplesCount a"
    "FirstSampleStart b = merge_first (FirstSampleStart base) (FirstSampleStart a)"
    "LastSampleStart b = max (LastSampleStart base) (LastSampleStart a)"
    using MergeContainerState_ok [OF base, of a] Cons.prems(1) e by auto
  let ?acc = "AList.update ?n b acc"
  have ok': "\<forall>(n, a) \<in> set ?acc. agg_ok config a"
    using Cons.prems(2) mg(2) set_AList_update [of ?n b acc] by blast
  obtain m ins where IH: "aggregate_by_name config now states ?acc = Inr (m, ins)" "gomap_ok m"
    "fst ` set m = fst ` set ?acc \<union> (ak_containerName \<circ> fst) ` set states"
    "\<forall>n r. map_of m n = Some r \<longrightarrow> agg_ok config r \<and>
      merged_from (case map_of ?acc n of Some s \<Rightarrow> s | None \<Rightarrow> NewAggregateContainerState config now)
        (same_name n states) r"
    using Cons.IH [of ?acc] ok' Cons.prems by auto
  have "merged_from (case map_of acc n of Some s \<Rightarrow> s | None \<Rightarrow> NewAggregateContainerState config now)
      (same_name n (e # states)) r" if "map_of m n = Some r" for n r
  proof (cases "n = ?n")
    case True
    then have "merged_from b (same_name n states) r" using IH(4) [rule_format, OF that] by simp
    then show ?thesis
      using True mg(3-5) by (simp add: merged_from_def e base_def max.commute [of "LastSampleStart a"]
          merge_first_def min.commute)
  next
    case False
    then show ?thesis using IH(4) [rule_format, OF that] by (auto simp: e)
  qed
  then show ?case
    using IH by (auto simp: e mg(1) base_def [symmetric] dom_update Let_def)
qed

lemma fold_merge_first:
  "(fold merge_first ts u = 0 \<longleftrightarrow> u = 0 \<and> (\<forall>t \<in> set ts. t = 0)) \<and>
   fold merge_first ts u \<in> insert u (set ts) \<and>
   (\<forall>t \<in> insert u (set ts). t \<noteq> 0 \<longrightarrow> fold merge_first ts u \<le> t)"
proof (induction ts arbitrary: u)
  case (Cons t ts)
  have "merge_first t u = 0 \<longleftrightarrow> t = 0 \<and> u = 0" "merge_first t u = t \<or> merge_first t u = u"
    "t \<noteq> 0 \<longrightarrow> merge_first t u \<le> t" "u \<noteq> 0 \<longrightarrow> merge_first t u \<le> u"
    by (auto simp: merge_first_def min_def)
  note mf = this
  let ?f = "fold merge_first ts (merge_first t u)"
  have ih: "?f = 0 \<longleftrightarrow> merge_first t u = 0 \<and> (\<forall>t \<in> set ts. t = 0)"
    "?f = merge_first t u \<or> ?f \<in> set ts" "\<And>x. x \<in> set ts \<Longrightarrow> x \<noteq> 0 \<Longrightarrow> ?f \<le> x"
    "merge_first t u \<noteq> 0 \<Longrightarrow> ?f \<le> merge_first t u"
    using Cons.IH [of "merge_first t u"] by auto
  have "t \<noteq> 0 \<longrightarrow> ?f \<le> t" "u \<noteq> 0 \<longrightarrow> ?f \<le> u" using mf ih(4) by auto
  moreover have "?f \<in> insert u (set (t # ts))" using mf(2) ih(2) by auto
  ultimately show ?case using ih(1,3) mf(1) by auto
qed simp

lemma fold_max_Max: "fold max ts u = Max (insert u (set ts))" for u :: int
  using Max.set_eq_fold [of u ts] by simp

text \<open>
  Grouping the aggregates of a VPA by container name never panics and, whatever the iteration
  order of the map, the result has exactly the container names that occur; for each of them the
  sample count is the sum, the last sample the latest, and the first sample the earliest among the
  aggregates of that name that have one (the zero time if none has).
\<close>

theorem AggregateStateByContainerName_correct:
  assumes "config_ok config" "\<forall>(k, a) \<in> set states. agg_ok config a"
  shows "\<exists>m ins. AggregateStateByContainerName config now states = Inr (m, ins) \<and> gomap_ok m \<and>
    fst ` set m = (ak_containerName \<circ> fst) ` set states \<and>
    (\<forall>n r. map_of m n = Some r \<longrightarrow> agg_ok config r \<and>
      (let as = same_name n states in
       TotalSamplesCount r = sum_list (map TotalSamplesCount as) \<and>
       LastSampleStart r = Max (insert 0 (LastSampleStart ` set as)) \<and>
       (FirstSampleStart r = 0 \<longleftrightarrow> (\<forall>a \<in> set as. FirstSampleStart a = 0)) \<and>
       FirstSampleStart r \<in> insert 0 (FirstSampleStart ` set as) \<and>
       (\<forall>a \<in> set as. FirstSampleStart a \<noteq> 0 \<longrightarrow> FirstSampleStart r \<le> FirstSampleStart a)))"
proof -
  obtain m ins where m: "aggregate_by_name config now states [] = Inr (m, ins)" "gomap_ok m"
    "fst ` set m = (ak_containerName \<circ> fst) ` set states"
    "\<forall>n r. map_of m n = Some r \<longrightarrow> agg_ok config r \<and>
      merged_from (NewAggregateContainerState config now) (same_name n states) r"
    using aggregate_by_name_spec [OF assms(1,2), of "[]" now] by auto
  have new: "TotalSamplesCount (NewAggregateContainerState config now) = 0"
    "FirstSampleStart (NewAggregateContainerState config now) = 0"
    "LastSampleStart (NewAggregateContainerState config now) = 0"
    by (simp_all add: NewAggregateContainerState_def zero_time_def)
  have "agg_ok config r \<and> (let as = same_name n states in
       TotalSamplesCount r = sum_list (map TotalSamplesCount as) \<and>
       LastSampleStart r = Max (insert 0 (LastSampleStart ` set as)) \<and>
       (FirstSampleStart r = 0 \<longleftrightarrow> (\<forall>a \<in> set as. FirstSampleStart a = 0)) \<and>
       FirstSampleStart r \<in> insert 0 (FirstSampleStart ` set as) \<and>
       (\<forall>a \<in> set as. FirstSampleStart a \<noteq> 0 \<longrightarrow> FirstSampleStart r \<le> FirstSampleStart a))"
    if "map_of m n = Some r" for n r
  proof -
    have r: "agg_ok config r" "merged_from (NewAggregateContainerState config now) (same_name n states) r"
      using m(4) that by blast+
    show ?thesis
      using r fold_merge_first [of "map FirstSampleStart (same_name n states)" 0]
      by (auto simp: merged_from_def new fold_max_Max Let_def)
  qed
  then show ?thesis using m(1-3) by (simp add: AggregateStateByContainerName_def)
qed

theorem AggregateStateByContainerName_correct_witness:
  "\<exists>config a m ins. TotalSamplesCount a = 1 \<and>
     AggregateStateByContainerName config 0
       [(\<lparr>ak_namespace = ''ns'', ak_containerName = ''c'', ak_labelSetKey = ''1''\<rparr>, a),
        (\<lparr>ak_namespace = ''ns'', ak_containerName = ''c'', ak_labelSetKey = ''2''\<rparr>, a)] = Inr (m, ins) \<and>
     (\<forall>r. map_of m ''c'' = Some r \<longrightarrow> TotalSamplesCount r = 2)"
proof -
  obtain config where c: "config_ok config" using GetAggregationsConfig_default by blast
  obtain a where a: "agg_ok config a" "TotalSamplesCount a = 1"
    using agg_AddSample_ok [OF NewAggregateContainerState_ok [OF c, of 0],
        of "\<lparr>MeasureStart = 5, Usage = 1, Request = 1, Resource = ResourceCPU\<rparr>"]
    by (auto simp: NewAggregateContainerState_def)
  define s where "s = [(\<lparr>ak_namespace = ''ns'', ak_containerName = ''c'', ak_labelSetKey = ''1''\<rparr>, a),
    (\<lparr>ak_namespace = ''ns'', ak_containerName = ''c'', ak_labelSetKey = ''2''\<rparr>, a)]"
  have ok: "\<forall>(k, a) \<in> set s. agg_ok config a" using a(1) by (simp add: s_def)
  obtain m ins where m: "AggregateStateByContainerName config 0 s = Inr (m, ins)"
    "\<forall>n r. map_of m n = Some r \<longrightarrow> TotalSamplesCount r = sum_list (map TotalSamplesCount (same_name n s))"
  proof (rule exE [OF AggregateStateByContainerName_correct [OF c ok, of 0]], elim exE conjE)
    fix m ins
    assume m: "AggregateStateByContainerName config 0 s = Inr (m, ins)"
      and r: "\<forall>n r. map_of m n = Some r \<longrightarrow> agg_ok config r \<and> (let as = same_name n s in
       TotalSamplesCount r = sum_list (map TotalSamplesCount as) \<and>
       LastSampleStart r = Max (insert 0 (LastSampleStart ` set as)) \<and>
       (FirstSampleStart r = 0 \<longleftrightarrow> (\<forall>a \<in> set as. FirstSampleStart a = 0)) \<and>
       FirstSampleStart r \<in> insert 0 (FirstSampleStart ` set as) \<and>
       (\<forall>a \<in> set as. FirstSampleStart a \<noteq> 0 \<longrightarrow> FirstSampleStart r \<le> FirstSampleStart a))"
    have "TotalSamplesCount r = sum_list (map TotalSamplesCount (same_name n s))"
      if "map_of m n = Some r" for n r
      using r [rule_format, OF that] unfolding Let_def by (elim conjE)
    then show thesis using that [OF m] by simp
  qed
  have "TotalSamplesCount r = 2" if "map_of m ''c'' = Some r" for r
    using m(2) [rule_format, OF that] a(2) by (simp add: s_def)
  then show ?thesis using a(2) m(1) unfolding s_def by blast
qed

end
