(* ===== verification/Container_State.thy ===== *)
theory Container_State
  imports Aggregate_State "HOL-Library.Multiset"
begin

text \<open>
  \<open>pkg/recommender/model/container.go\<close>: the state of one container and how it turns usage samples
  and OOM events into samples of its aggregator. The operations take the aggregator as the methods
  of the Go interface (\<open>ops\<close>) and the state \<open>a\<close> these methods act on, and return the new container,
  the new aggregator state and the quality observations made on the way. The samples handed to
  \<open>metrics_quality\<close> are returned as values, since the metrics registry is not part of the model.
\<close>

section \<open>State\<close>

text \<open>
  A container points to its aggregator either through a proxy, which looks the aggregate up in
  the cluster state by container, or directly; a direct reference is an address of the store of
  aggregates of \<open>Cluster_State\<close>.
\<close>

datatype aggregator_ref =
    ContainerStateAggregatorProxy ContainerID
  | AggregateRef nat

record ContainerState =
  cst_Request :: Resources
  LastCPUSampleStart :: time
  memoryPeak :: ResourceAmount
  oomPeak :: ResourceAmount
  WindowEnd :: time
  lastMemorySampleStart :: time
  aggregator :: aggregator_ref

datatype quality =
    ObserveQualityMetrics float64 float64 bool ResourceName "UpdateMode option"
  | ObserveQualityMetricsRecommendationMissing float64 bool ResourceName "UpdateMode option"

definition OOMBumpUpRatio :: float64 where "OOMBumpUpRatio = 12 / 10"
definition OOMMinBumpUp :: float64 where "OOMMinBumpUp = 100 * 1024 * 1024"

definition NewContainerState :: "Resources \<Rightarrow> aggregator_ref \<Rightarrow> ContainerState" where
  "NewContainerState request aggr =
     \<lparr>cst_Request = request, LastCPUSampleStart = zero_time, memoryPeak = 0, oomPeak = 0,
      WindowEnd = zero_time, lastMemorySampleStart = zero_time, aggregator = aggr\<rparr>"

section \<open>Operations\<close>

definition isValid :: "ContainerUsageSample \<Rightarrow> ResourceName \<Rightarrow> bool" where
  "isValid sample expectedResource \<longleftrightarrow> 0 \<le> Usage sample \<and> Resource sample = expectedResource"

definition truncate :: "duration \<Rightarrow> duration \<Rightarrow> duration" where
  "truncate d m = (if m \<le> 0 then d else d - go_mod d m)"

definition observeQualityMetrics ::
    "'a ContainerStateAggregator \<Rightarrow> 'a \<Rightarrow> ResourceAmount \<Rightarrow> bool \<Rightarrow> ResourceName \<Rightarrow>
     (quality list \<times> 'a) result" where
  "observeQualityMetrics ops a usage isOOM resource =
     rbind (op_NeedsRecommendation ops a) (\<lambda>(needs, a).
     if \<not> needs then Inr ([], a)
     else rbind (op_GetUpdateMode ops a) (\<lambda>(mode, a).
       let usageValue = (if resource = ResourceCPU then CoresFromCPUAmount usage
                         else if resource = ResourceMemory then BytesFromMemoryAmount usage else 0)
       in rbind (op_GetLastRecommendation ops a) (\<lambda>(lastRec, a).
         case lastRec of
           None \<Rightarrow> Inr ([ObserveQualityMetricsRecommendationMissing usageValue isOOM resource mode], a)
         | Some _ \<Rightarrow> rbind (op_GetLastRecommendation ops a) (\<lambda>(lastRec, a).
             let recommendation = lookup_default 0 (list_of lastRec) resource
             in if q_IsZero recommendation
                then Inr ([ObserveQualityMetricsRecommendationMissing usageValue isOOM resource mode], a)
                else if resource = ResourceCPU
                then Inr ([ObserveQualityMetrics usageValue (of_int (q_MilliValue recommendation) / 1000)
                             isOOM resource mode], a)
                else if resource = ResourceMemory
                then Inr ([ObserveQualityMetrics usageValue (of_int (q_Value recommendation))
                             isOOM resource mode], a)
                else Inr ([], a)))))"

definition addCPUSample ::
    "'a ContainerStateAggregator \<Rightarrow> ContainerState \<Rightarrow> 'a \<Rightarrow> ContainerUsageSample \<Rightarrow>
     (bool \<times> ContainerState \<times> 'a \<times> quality list) result" where
  "addCPUSample ops container a sample =
     (if \<not> isValid sample ResourceCPU \<or> \<not> time_After (MeasureStart sample) (LastCPUSampleStart container)
      then Inr (False, container, a, [])
      else rbind (observeQualityMetrics ops a (Usage sample) False ResourceCPU) (\<lambda>(obs, a).
           rbind (op_AddSample ops a sample) (\<lambda>a.
             Inr (True, container\<lparr>LastCPUSampleStart := MeasureStart sample\<rparr>, a, obs))))"

definition GetMaxMemoryPeak :: "ContainerState \<Rightarrow> ResourceAmount" where
  "GetMaxMemoryPeak container = ResourceAmountMax (memoryPeak container) (oomPeak container)"

definition peak_sample :: "ContainerState \<Rightarrow> ContainerUsageSample \<Rightarrow> ResourceAmount \<Rightarrow> ContainerUsageSample" where
  "peak_sample container sample usage =
     \<lparr>MeasureStart = WindowEnd container, Usage = usage, Request = Request sample,
      Resource = ResourceMemory\<rparr>"

text \<open>
  The first half of \<open>addMemorySample\<close>: inside the current window a higher peak replaces the old
  one, later samples open a new window. It returns whether a new peak is to be added.
\<close>

definition move_window ::
    "AggregationsConfig \<Rightarrow> 'a ContainerStateAggregator \<Rightarrow> ContainerState \<Rightarrow> 'a \<Rightarrow>
     ContainerUsageSample \<Rightarrow> (bool \<times> ContainerState \<times> 'a) result" where
  "move_window config ops container a sample =
     (let ts = MeasureStart sample in
      if time_Before ts (WindowEnd container)
      then let oldMaxMem = GetMaxMemoryPeak container in
           if oldMaxMem \<noteq> 0 \<and> oldMaxMem < Usage sample
           then rbind (op_SubtractSample ops a (peak_sample container sample oldMaxMem))
                  (\<lambda>a. Inr (True, container, a))
           else Inr (False, container, a)
      else let interval = MemoryAggregationInterval config;
               shift = wrap64 (truncate (time_Sub ts (WindowEnd container)) interval + interval)
           in Inr (True, container\<lparr>WindowEnd := time_Add (WindowEnd container) shift,
                                   memoryPeak := 0, oomPeak := 0\<rparr>, a))"

definition addMemorySample ::
    "AggregationsConfig \<Rightarrow> 'a ContainerStateAggregator \<Rightarrow> ContainerState \<Rightarrow> 'a \<Rightarrow>
     ContainerUsageSample \<Rightarrow> bool \<Rightarrow> (bool \<times> ContainerState \<times> 'a \<times> quality list) result" where
  "addMemorySample config ops container a sample isOOM =
     (let ts = MeasureStart sample in
      if \<not> isValid sample ResourceMemory \<or>
         \<not> isOOM \<and> time_Before ts (lastMemorySampleStart container)
      then Inr (False, container, a, [])
      else let c1 = container\<lparr>lastMemorySampleStart := ts\<rparr>;
               c2 = (if time_IsZero (WindowEnd c1) then c1\<lparr>WindowEnd := ts\<rparr> else c1)
           in rbind (move_window config ops c2 a sample) (\<lambda>(addNewPeak, c3, a).
              rbind (observeQualityMetrics ops a (Usage sample) isOOM ResourceMemory) (\<lambda>(obs, a).
              if addNewPeak
              then rbind (op_AddSample ops a (peak_sample c3 sample (Usage sample))) (\<lambda>a.
                     Inr (True, if isOOM then c3\<lparr>oomPeak := Usage sample\<rparr>
                                else c3\<lparr>memoryPeak := Usage sample\<rparr>, a, obs))
              else Inr (True, c3, a, obs))))"

definition oom_memory_needed :: "ContainerState \<Rightarrow> ResourceAmount \<Rightarrow> ResourceAmount" where
  "oom_memory_needed container requestedMemory =
     (let memoryUsed = ResourceAmountMax requestedMemory (memoryPeak container)
      in ResourceAmountMax (wrap64 (memoryUsed + MemoryAmountFromBytes OOMMinBumpUp))
           (ScaleResource memoryUsed (Fin OOMBumpUpRatio)))"

definition RecordOOM ::
    "AggregationsConfig \<Rightarrow> 'a ContainerStateAggregator \<Rightarrow> ContainerState \<Rightarrow> 'a \<Rightarrow> time \<Rightarrow>
     ResourceAmount \<Rightarrow> (go_error option \<times> ContainerState \<times> 'a \<times> quality list) result" where
  "RecordOOM config ops container a timestamp requestedMemory =
     (if time_Before timestamp
           (time_Add (WindowEnd container) (wrap64 (- 1 * MemoryAggregationInterval config)))
      then Inr (Some (Err ''OOM event will be discarded - it is too old''), container, a, [])
      else let oomMemorySample =
                 \<lparr>MeasureStart = timestamp, Usage = oom_memory_needed container requestedMemory,
                  Request = 0, Resource = ResourceMemory\<rparr>
           in rbind (addMemorySample config ops container a oomMemorySample True)
                (\<lambda>(added, container, a, obs).
                   Inr (if added then None else Some (Err ''adding OOM sample failed''),
                        container, a, obs)))"

definition container_AddSample ::
    "AggregationsConfig \<Rightarrow> 'a ContainerStateAggregator \<Rightarrow> ContainerState \<Rightarrow> 'a \<Rightarrow>
     ContainerUsageSample \<Rightarrow> (bool \<times> ContainerState \<times> 'a \<times> quality list) result" where
  "container_AddSample config ops container a sample =
     (if Resource sample = ResourceCPU then addCPUSample ops container a sample
      else if Resource sample = ResourceMemory then addMemorySample config ops container a sample False
      else Inr (False, container, a, []))"

section \<open>Arithmetic of the window\<close>

lemma truncate_window:
  assumes "0 \<le> d" "0 < m"
  shows "truncate d m \<le> d" "d < truncate d m + m" "0 \<le> truncate d m" "truncate d m mod m = 0"
proof -
  have t: "truncate d m = d - d mod m" using assms by (simp add: truncate_def go_mod_pos)
  show "truncate d m \<le> d" "d < truncate d m + m" "0 \<le> truncate d m" "truncate d m mod m = 0"
    unfolding t using assms pos_mod_bound [of m d] pos_mod_sign [of m d] zmod_le_nonneg_dividend [of d m]
    by (linarith, linarith, linarith, simp add: minus_mod_eq_mult_div)
qed

text \<open>A sample at or after the end of the window moves the end by whole intervals to just after it.\<close>

lemma window_shift:
  assumes "w \<le> t" "0 < i" "in_int64 (t - w + i)"
  shows "\<exists>k. time_Add w (wrap64 (truncate (time_Sub t w) i + i)) = w + k * i \<and> 0 < k \<and>
    t < w + k * i \<and> w + k * i \<le> t + i"
proof -
  have fits: "in_int64 (t - w)" using assms by (simp add: in_int64_def int64_min_def)
  have tr: "truncate (t - w) i \<le> t - w" "t - w < truncate (t - w) i + i" "0 \<le> truncate (t - w) i"
    "truncate (t - w) i mod i = 0"
    using truncate_window [of "t - w" i] assms by simp_all
  then obtain k where k: "truncate (t - w) i = i * k" by (auto simp: mod_eq_0_iff_dvd dvd_def)
  have "in_int64 (truncate (t - w) i + i)"
    using tr assms by (auto simp: in_int64_def int64_min_def)
  then have "time_Add w (wrap64 (truncate (time_Sub t w) i + i)) = w + (k + 1) * i"
    by (simp add: time_Sub_exact [OF fits] wrap64_id time_defs k algebra_simps)
  moreover have "0 \<le> k" using tr(3) assms(2) k by (simp add: zero_le_mult_iff)
  moreover have "(k + 1) * i = truncate (t - w) i + i" by (simp add: k algebra_simps)
  ultimately show ?thesis using tr(1,2) by (intro exI [of _ "k + 1"]) auto
qed

section \<open>Containers never make a well-behaved aggregator fail\<close>

definition window_start :: "ContainerState \<Rightarrow> time \<Rightarrow> time" where
  "window_start c t = (if WindowEnd c = 0 then t else WindowEnd c)"

text \<open>The time stamp can be reached from the end of the current window without overflow.\<close>

definition window_fits :: "AggregationsConfig \<Rightarrow> ContainerState \<Rightarrow> time \<Rightarrow> bool" where
  "window_fits config c t \<longleftrightarrow> in_int64 (t - window_start c t + MemoryAggregationInterval config)"

text \<open>The four ways \<open>addMemorySample\<close> goes.\<close>

lemma addMemorySample_discard:
  "\<not> isValid s ResourceMemory \<or> \<not> oom \<and> MeasureStart s < lastMemorySampleStart c \<Longrightarrow>
   addMemorySample config ops c a s oom = Inr (False, c, a, [])"
  by (auto simp: addMemorySample_def time_defs Let_def)

definition new_window :: "AggregationsConfig \<Rightarrow> ContainerState \<Rightarrow> time \<Rightarrow> ContainerState" where
  "new_window config c t =
     c\<lparr>lastMemorySampleStart := t,
       WindowEnd := time_Add (window_start c t)
         (wrap64 (truncate (time_Sub t (window_start c t)) (MemoryAggregationInterval config)
                  + MemoryAggregationInterval config)),
       memoryPeak := 0, oomPeak := 0\<rparr>"

definition set_peak :: "bool \<Rightarrow> ResourceAmount \<Rightarrow> ContainerState \<Rightarrow> ContainerState" where
  "set_peak oom u c = (if oom then c\<lparr>oomPeak := u\<rparr> else c\<lparr>memoryPeak := u\<rparr>)"

lemma addMemorySample_accept:
  assumes "isValid s ResourceMemory" "oom \<or> lastMemorySampleStart c \<le> MeasureStart s"
  shows "addMemorySample config ops c a s oom =
    (let t = MeasureStart s; c1 = c\<lparr>lastMemorySampleStart := t\<rparr>;
         observe = (\<lambda>a. observeQualityMetrics ops a (Usage s) oom ResourceMemory);
         add = (\<lambda>c' a. rbind (observe a) (\<lambda>(obs, a).
           rbind (op_AddSample ops a (peak_sample c' s (Usage s))) (\<lambda>a.
             Inr (True, set_peak oom (Usage s) c', a, obs))))
     in if WindowEnd c \<noteq> 0 \<and> t < WindowEnd c
        then if GetMaxMemoryPeak c \<noteq> 0 \<and> GetMaxMemoryPeak c < Usage s
             then rbind (op_SubtractSample ops a (peak_sample c s (GetMaxMemoryPeak c))) (add c1)
             else rbind (observe a) (\<lambda>(obs, a). Inr (True, c1, a, obs))
        else add (new_window config c t) a)"
proof -
  have guard: "\<not> (\<not> isValid s ResourceMemory \<or> \<not> oom \<and> MeasureStart s < lastMemorySampleStart c)"
    using assms by auto
  let ?c1 = "c\<lparr>lastMemorySampleStart := MeasureStart s\<rparr>"
  let ?c2 = "if WindowEnd ?c1 = 0 then ?c1\<lparr>WindowEnd := MeasureStart s\<rparr> else ?c1"
  have unf: "addMemorySample config ops c a s oom =
      rbind (move_window config ops ?c2 a s) (\<lambda>(addNewPeak, c3, a).
      rbind (observeQualityMetrics ops a (Usage s) oom ResourceMemory) (\<lambda>(obs, a).
      if addNewPeak
      then rbind (op_AddSample ops a (peak_sample c3 s (Usage s))) (\<lambda>a.
             Inr (True, set_peak oom (Usage s) c3, a, obs))
      else Inr (True, c3, a, obs)))"
    using guard by (simp only: addMemorySample_def time_defs Let_def if_False set_peak_def)
  have pk: "GetMaxMemoryPeak (c\<lparr>lastMemorySampleStart := t\<rparr>) = GetMaxMemoryPeak c"
    "peak_sample (c\<lparr>lastMemorySampleStart := t\<rparr>) s u = peak_sample c s u" for t u
    by (simp_all add: GetMaxMemoryPeak_def peak_sample_def)
  consider "WindowEnd c \<noteq> 0 \<and> MeasureStart s < WindowEnd c" | "WindowEnd c = 0"
    | "WindowEnd c \<noteq> 0" "\<not> MeasureStart s < WindowEnd c"
    by blast
  then show ?thesis
    by cases (simp_all add: unf move_window_def time_defs Let_def pk rbind_assoc new_window_def
        window_start_def)
qed

lemma new_window_later:
  assumes "0 < t" "window_fits config c t" "0 < MemoryAggregationInterval config"
    "WindowEnd c = 0 \<or> WindowEnd c \<le> t"
  shows "t < WindowEnd (new_window config c t)" "WindowEnd c < WindowEnd (new_window config c t) \<or> WindowEnd c = 0"
    "WindowEnd (new_window config c t) \<le> t + MemoryAggregationInterval config"
  using window_shift [of "window_start c t" t "MemoryAggregationInterval config"] assms
  by (auto simp: new_window_def window_fits_def window_start_def split: if_splits)

context container_aggregator
begin

lemma observe_ok: "ok a \<Longrightarrow> \<exists>obs a'. observeQualityMetrics ops a u oom r = Inr (obs, a') \<and> ok a'"
proof -
  assume a: "ok a"
  obtain n a1 where 1: "op_NeedsRecommendation ops a = Inr (n, a1)" "ok a1" using needs_ok [OF a] by blast
  obtain m a2 where 2: "op_GetUpdateMode ops a1 = Inr (m, a2)" "ok a2" using mode_ok [OF 1(2)] by blast
  obtain l a3 where 3: "op_GetLastRecommendation ops a2 = Inr (l, a3)" "ok a3"
    using recommendation_ok [OF 2(2)] by blast
  obtain l' a4 where 4: "op_GetLastRecommendation ops a3 = Inr (l', a4)" "ok a4"
    using recommendation_ok [OF 3(2)] by blast
  show ?thesis
    using 1 2 3 4 by (cases l) (simp_all add: observeQualityMetrics_def Let_def)
qed

lemma add_peak_ok:
  assumes "ok a" "0 < WindowEnd c'"
  shows "\<exists>a' obs. rbind (observeQualityMetrics ops a u oom r) (\<lambda>(obs, a).
      rbind (op_AddSample ops a (peak_sample c' s v)) (\<lambda>a. Inr (True, f, a, obs))) =
    Inr (True, f, a', obs) \<and> ok a'"
proof -
  obtain obs a1 where o: "observeQualityMetrics ops a u oom r = Inr (obs, a1)" "ok a1"
    using observe_ok [OF assms(1)] by blast
  then show ?thesis
    using add_ok [OF o(2), of "peak_sample c' s v"] assms(2) by (auto simp: peak_sample_def)
qed

lemma addMemorySample_ok:
  assumes "ok a" "0 < MeasureStart s" "0 < MemoryAggregationInterval config"
    "window_fits config c (MeasureStart s)" "0 \<le> WindowEnd c"
  shows "\<exists>r c' a' obs. addMemorySample config ops c a s oom = Inr (r, c', a', obs) \<and> ok a' \<and> 0 \<le> WindowEnd c'"
proof (cases "isValid s ResourceMemory \<and> (oom \<or> lastMemorySampleStart c \<le> MeasureStart s)")
  case False
  then show ?thesis using addMemorySample_discard [of s oom c config ops a] assms by auto
next
  case True
  note acc = addMemorySample_accept [OF conjunct1 [OF True] conjunct2 [OF True], of config ops a]
  let ?t = "MeasureStart s" and ?c1 = "c\<lparr>lastMemorySampleStart := MeasureStart s\<rparr>"
  have sp: "WindowEnd (set_peak oom u x) = WindowEnd x" for u x by (simp add: set_peak_def)
  show ?thesis
  proof (cases "WindowEnd c \<noteq> 0 \<and> ?t < WindowEnd c")
    case inside: True
    show ?thesis
    proof (cases "GetMaxMemoryPeak c \<noteq> 0 \<and> GetMaxMemoryPeak c < Usage s")
      case True
      obtain a1 where a1: "op_SubtractSample ops a (peak_sample c s (GetMaxMemoryPeak c)) = Inr a1" "ok a1"
        using sub_ok [OF assms(1), of "peak_sample c s (GetMaxMemoryPeak c)"] inside assms(5)
        by (auto simp: peak_sample_def)
      show ?thesis
        using add_peak_ok [OF a1(2), of ?c1] inside True assms(5) sp
        by (simp add: acc a1(1) Let_def) (metis (no_types, lifting) ContainerState.select_convs(5)
            ContainerState.surjective ContainerState.update_convs(6) sp)
    next
      case False
      then show ?thesis using inside observe_ok [OF assms(1)] assms(5) by (fastforce simp: acc Let_def)
    qed
  next
    case False
    then have pos: "0 < WindowEnd (new_window config c ?t)"
      using new_window_later(1) [OF assms(2,4,3)] assms(2) by (auto simp: not_less)
    show ?thesis
      using add_peak_ok [OF assms(1) pos] False sp [of "Usage s" "new_window config c ?t"] pos
      by (simp add: acc Let_def) (metis less_imp_le)
  qed
qed

lemma container_AddSample_ok:
  assumes "ok a" "0 < MeasureStart s" "0 < MemoryAggregationInterval config"
    "window_fits config c (MeasureStart s)" "0 \<le> WindowEnd c"
  shows "\<exists>r c' a' obs. container_AddSample config ops c a s = Inr (r, c', a', obs) \<and> ok a' \<and> 0 \<le> WindowEnd c'"
proof (cases "Resource s = ResourceCPU \<and> isValid s ResourceCPU \<and> LastCPUSampleStart c < MeasureStart s")
  case True
  obtain obs a1 where o: "observeQualityMetrics ops a (Usage s) False ResourceCPU = Inr (obs, a1)" "ok a1"
    using observe_ok [OF assms(1)] by blast
  then show ?thesis
    using True add_ok [OF o(2), of s] assms(2,5)
    by (auto simp: container_AddSample_def addCPUSample_def time_defs)
next
  case False
  then show ?thesis
    using addMemorySample_ok [OF assms, of False] assms(1,5)
    by (auto simp: container_AddSample_def addCPUSample_def time_defs)
qed

lemma RecordOOM_ok:
  assumes "ok a" "0 < t" "0 < MemoryAggregationInterval config" "window_fits config c t" "0 \<le> WindowEnd c"
  shows "\<exists>r c' a' obs. RecordOOM config ops c a t m = Inr (r, c', a', obs) \<and> ok a' \<and> 0 \<le> WindowEnd c'"
proof -
  let ?s = "\<lparr>MeasureStart = t, Usage = oom_memory_needed c m, Request = 0, Resource = ResourceMemory\<rparr>"
  obtain r c' a' obs where "addMemorySample config ops c a ?s True = Inr (r, c', a', obs)" "ok a'" "0 \<le> WindowEnd c'"
    using addMemorySample_ok [of a ?s config c True] assms by auto
  then show ?thesis using assms(1,5) by (simp add: RecordOOM_def Let_def)
qed

end

section \<open>One memory peak per aggregation interval\<close>

text \<open>
  The recorder is the strictest aggregator: it keeps the multiset of memory samples, by time stamp
  and usage, and refuses to take back a sample that it does not hold. What a container does to it
  is what it asks of any aggregator.
\<close>

type_synonym peaks = "(time \<times> ResourceAmount) multiset"

definition recorder :: "peaks ContainerStateAggregator" where
  "recorder =
     \<lparr>op_AddSample = (\<lambda>M s.
        if Resource s = ResourceMemory then Inr (add_mset (MeasureStart s, Usage s) M)
        else if Resource s = ResourceCPU then Inr M
        else Inl (Panic ''AddSample doesn't support resource'')),
      op_SubtractSample = (\<lambda>M s.
        if Resource s = ResourceMemory \<and> (MeasureStart s, Usage s) \<in># M
        then Inr (M - {#(MeasureStart s, Usage s)#})
        else Inl (Panic ''not a sample that was aggregated in the past'')),
      op_GetLastRecommendation = (\<lambda>M. Inr (None, M)),
      op_NeedsRecommendation = (\<lambda>M. Inr (False, M)),
      op_GetUpdateMode = (\<lambda>M. Inr (None, M))\<rparr>"

definition peaks_at :: "peaks \<Rightarrow> time \<Rightarrow> peaks" where
  "peaks_at M t = filter_mset (\<lambda>p. fst p = t) M"

definition one_peak :: "ContainerState \<Rightarrow> peaks \<Rightarrow> bool" where
  "one_peak c M \<longleftrightarrow>
     0 \<le> memoryPeak c \<and> 0 \<le> oomPeak c \<and>
     (if WindowEnd c = 0 then M = {#}
      else 0 < WindowEnd c \<and> peaks_at M (WindowEnd c) = {#(WindowEnd c, GetMaxMemoryPeak c)#} \<and>
           (\<forall>p \<in># M. fst p \<le> WindowEnd c) \<and> (\<forall>t. size (peaks_at M t) \<le> 1))"

text \<open>
  The runs of a container. Beside the container and the recorder they have the usages that were taken
  in the current interval, in their order: an accepted sample or OOM event before the end of the window is one more, a later one opens a
  new interval.
\<close>

definition noted :: "ContainerState \<Rightarrow> time \<Rightarrow> ResourceAmount \<Rightarrow> ResourceAmount list \<Rightarrow> ResourceAmount list" where
  "noted c t u us = (if WindowEnd c \<noteq> 0 \<and> t < WindowEnd c then us @ [u] else [u])"

inductive container_reach :: "AggregationsConfig \<Rightarrow> ContainerState \<Rightarrow> peaks \<Rightarrow> ResourceAmount list \<Rightarrow> bool" for config where
  start: "container_reach config (NewContainerState request aggr) {#} []"
| sample: "container_reach config c M us \<Longrightarrow> 0 < MeasureStart s \<Longrightarrow> window_fits config c (MeasureStart s) \<Longrightarrow>
    container_AddSample config recorder c M s = Inr (added, c', M', obs) \<Longrightarrow>
    container_reach config c' M' (if added \<and> Resource s = ResourceMemory then noted c (MeasureStart s) (Usage s) us else us)"
| oom: "container_reach config c M us \<Longrightarrow> 0 < t \<Longrightarrow> window_fits config c t \<Longrightarrow>
    RecordOOM config recorder c M t m = Inr (err, c', M', obs) \<Longrightarrow>
    container_reach config c' M' (if err = None then noted c t (oom_memory_needed c m) us else us)"

text \<open>
  The current peak is the largest of these usages, but for the guard \<open>oldMaxMem != 0\<close>: when the first one
  is 0 the peak stays 0.
\<close>

definition interval_peak :: "ResourceAmount list \<Rightarrow> ResourceAmount" where
  "interval_peak us = (if hd us = 0 then 0 else Max (set us))"

definition peak_of :: "ContainerState \<Rightarrow> ResourceAmount list \<Rightarrow> bool" where
  "peak_of c us \<longleftrightarrow> WindowEnd c \<noteq> 0 \<longrightarrow> us \<noteq> [] \<and> (\<forall>u \<in> set us. 0 \<le> u) \<and> GetMaxMemoryPeak c = interval_peak us"

lemma observe_recorder [simp]: "observeQualityMetrics recorder M u oom r = Inr ([], M)"
  by (simp add: observeQualityMetrics_def recorder_def)

lemma recorder_add_peak [simp]:
  "op_AddSample recorder M (peak_sample c s u) = Inr (add_mset (WindowEnd c, u) M)"
  by (simp add: recorder_def peak_sample_def)

lemma recorder_add_cpu: "Resource s = ResourceCPU \<Longrightarrow> op_AddSample recorder M s = Inr M"
  by (simp add: recorder_def)

lemma recorder_sub_peak:
  "op_SubtractSample recorder M (peak_sample c s u) =
     (if (WindowEnd c, u) \<in># M then Inr (M - {#(WindowEnd c, u)#})
      else Inl (Panic ''not a sample that was aggregated in the past''))"
  by (simp add: recorder_def peak_sample_def)

lemma peaks_at_simps [simp]:
  "peaks_at {#} t = {#}"
  "peaks_at (add_mset p M) t = (if fst p = t then add_mset p (peaks_at M t) else peaks_at M t)"
  "peaks_at (M - N) t = peaks_at M t - peaks_at N t"
  by (simp_all add: peaks_at_def)

lemma peaks_at_none: "(\<forall>p \<in># M. fst p < t) \<Longrightarrow> peaks_at M t = {#}"
  unfolding peaks_at_def filter_mset_eq_conv by auto

lemma GetMaxMemoryPeak_set_peak:
  "GetMaxMemoryPeak c < u \<Longrightarrow> GetMaxMemoryPeak (set_peak oom u c) = u"
  "0 \<le> u \<Longrightarrow> GetMaxMemoryPeak (set_peak oom u (new_window config c t)) = u"
  by (auto simp: GetMaxMemoryPeak_def set_peak_def new_window_def ResourceAmountMax_eq_max)

lemma set_peak_frame [simp]: "WindowEnd (set_peak oom u c) = WindowEnd c"
  "lastMemorySampleStart (set_peak oom u c) = lastMemorySampleStart c"
  by (simp_all add: set_peak_def)

lemma set_peak_nonneg:
  "0 \<le> u \<Longrightarrow> 0 \<le> memoryPeak c \<Longrightarrow> 0 \<le> oomPeak c \<Longrightarrow>
     0 \<le> memoryPeak (set_peak oom u c) \<and> 0 \<le> oomPeak (set_peak oom u c)"
  by (simp add: set_peak_def)

lemma one_peak_replace:
  assumes "one_peak c M" "WindowEnd c \<noteq> 0" "GetMaxMemoryPeak c < u" "0 \<le> u"
  shows "(WindowEnd c, GetMaxMemoryPeak c) \<in># M"
    "one_peak (set_peak oom u (c\<lparr>lastMemorySampleStart := t\<rparr>))
       (add_mset (WindowEnd c, u) (M - {#(WindowEnd c, GetMaxMemoryPeak c)#}))"
proof -
  let ?p = "(WindowEnd c, GetMaxMemoryPeak c)"
  have inv: "peaks_at M (WindowEnd c) = {#?p#}" "\<forall>p \<in># M. fst p \<le> WindowEnd c" "\<forall>t. size (peaks_at M t) \<le> 1"
    "0 < WindowEnd c" "0 \<le> memoryPeak c" "0 \<le> oomPeak c"
    using assms(1,2) by (auto simp: one_peak_def)
  show mem: "?p \<in># M"
    using inv(1) by (metis (no_types, lifting) filter_mset_eq_conv insert_DiffM2 peaks_at_def
        subset_eq_diff_conv union_single_eq_member mset_subset_eqD multi_member_last)
  have max: "GetMaxMemoryPeak (set_peak oom u (c\<lparr>lastMemorySampleStart := t\<rparr>)) = u"
    using assms(3) by (intro GetMaxMemoryPeak_set_peak(1)) (simp add: GetMaxMemoryPeak_def)
  have sz: "size (peaks_at (M - {#?p#}) s) \<le> 1" for s
    using inv(3) [rule_format, of s] size_mset_mono [of "peaks_at M s - peaks_at {#?p#} s" "peaks_at M s"]
    by (simp del: peaks_at_simps(2))
  show "one_peak (set_peak oom u (c\<lparr>lastMemorySampleStart := t\<rparr>)) (add_mset (WindowEnd c, u) (M - {#?p#}))"
    using inv sz assms(4) max set_peak_nonneg [of u "c\<lparr>lastMemorySampleStart := t\<rparr>" oom]
    by (auto simp: one_peak_def dest: in_diffD)
qed

lemma one_peak_new_window:
  assumes "one_peak c M" "0 < t" "window_fits config c t" "0 < MemoryAggregationInterval config"
    "WindowEnd c = 0 \<or> WindowEnd c \<le> t" "0 \<le> u"
  shows "one_peak (set_peak oom u (new_window config c t))
    (add_mset (WindowEnd (new_window config c t), u) M)"
proof -
  let ?w = "WindowEnd (new_window config c t)"
  have w: "t < ?w" "WindowEnd c < ?w \<or> WindowEnd c = 0" using new_window_later [OF assms(2-5)] by auto
  have old: "\<forall>p \<in># M. fst p < ?w" using assms(1) w(2) by (fastforce simp: one_peak_def split: if_splits)
  have sz: "size (peaks_at M s) \<le> 1" for s
    using assms(1) by (auto simp: one_peak_def split: if_splits)
  have "0 \<le> memoryPeak (set_peak oom u (new_window config c t))" "0 \<le> oomPeak (set_peak oom u (new_window config c t))"
    using set_peak_nonneg [OF assms(6), of "new_window config c t" oom] by (auto simp: new_window_def)
  then show ?thesis
    using w assms(2,6) old peaks_at_none [OF old] sz GetMaxMemoryPeak_set_peak(2) [OF assms(6), of oom config c t]
    by (auto simp: one_peak_def less_imp_le)
qed

lemma addMemorySample_one_peak:
  assumes inv: "one_peak c M" and t: "0 < MeasureStart s" "window_fits config c (MeasureStart s)"
    and i: "0 < MemoryAggregationInterval config"
  shows "\<exists>r c' M'. addMemorySample config recorder c M s oom = Inr (r, c', M', []) \<and> one_peak c' M'"
proof (cases "isValid s ResourceMemory \<and> (oom \<or> lastMemorySampleStart c \<le> MeasureStart s)")
  case False
  then show ?thesis using addMemorySample_discard [of s oom c config recorder M] inv by auto
next
  case True
  note acc = addMemorySample_accept [OF conjunct1 [OF True] conjunct2 [OF True], of config recorder M]
  have u: "0 \<le> Usage s" using True by (simp add: isValid_def)
  show ?thesis
  proof (cases "WindowEnd c \<noteq> 0 \<and> MeasureStart s < WindowEnd c")
    case inside: True
    have keep: "one_peak (c\<lparr>lastMemorySampleStart := MeasureStart s\<rparr>) M"
      using inv by (auto simp: one_peak_def GetMaxMemoryPeak_def split: if_splits)
    show ?thesis
    proof (cases "GetMaxMemoryPeak c \<noteq> 0 \<and> GetMaxMemoryPeak c < Usage s")
      case True
      then show ?thesis
        using inside one_peak_replace [OF inv conjunct1 [OF inside] conjunct2 [OF True] u]
        by (auto simp: acc Let_def recorder_sub_peak)
    next
      case False
      then have "addMemorySample config recorder c M s oom =
          Inr (True, c\<lparr>lastMemorySampleStart := MeasureStart s\<rparr>, M, [])"
        using inside by (auto simp: acc Let_def)
      then show ?thesis using keep by auto
    qed
  next
    case False
    then show ?thesis
      using one_peak_new_window [OF inv t i _ u] by (auto simp: acc Let_def not_less)
  qed
qed

lemma interval_peak_zero:
  assumes "us \<noteq> []" "\<forall>u \<in> set us. 0 \<le> u"
  shows "interval_peak us = 0 \<longleftrightarrow> hd us = 0"
proof -
  have "hd us \<in> set us" using assms(1) by simp
  then have "0 \<le> hd us" "hd us \<le> Max (set us)" using assms(2) by auto
  then show ?thesis by (auto simp: interval_peak_def)
qed

lemma interval_peak_more:
  "us \<noteq> [] \<Longrightarrow> hd us \<noteq> 0 \<Longrightarrow> interval_peak (us @ [u]) = max (interval_peak us) u"
  "us \<noteq> [] \<Longrightarrow> hd us = 0 \<Longrightarrow> interval_peak (us @ [u]) = 0"
  by (simp_all add: interval_peak_def Max_insert max.commute)

lemma addMemorySample_peak_of:
  assumes "peak_of c us" "addMemorySample config recorder c M s oom = Inr (r, c', M', obs)"
  shows "peak_of c' (if r then noted c (MeasureStart s) (Usage s) us else us)"
proof (cases "isValid s ResourceMemory \<and> (oom \<or> lastMemorySampleStart c \<le> MeasureStart s)")
  case False
  then show ?thesis using addMemorySample_discard [of s oom c config recorder M] assms by auto
next
  case True
  note acc = addMemorySample_accept [OF conjunct1 [OF True] conjunct2 [OF True], of config recorder M]
  have u: "0 \<le> Usage s" using True by (simp add: isValid_def)
  let ?c1 = "c\<lparr>lastMemorySampleStart := MeasureStart s\<rparr>"
  have g1: "GetMaxMemoryPeak ?c1 = GetMaxMemoryPeak c" by (simp add: GetMaxMemoryPeak_def)
  show ?thesis
  proof (cases "WindowEnd c \<noteq> 0 \<and> MeasureStart s < WindowEnd c")
    case inside: True
    then have p: "us \<noteq> []" "\<forall>u \<in> set us. 0 \<le> u" "GetMaxMemoryPeak c = interval_peak us" using assms(1) by (auto simp: peak_of_def)
    note z = interval_peak_zero [OF p(1,2)]
    show ?thesis
    proof (cases "GetMaxMemoryPeak c \<noteq> 0 \<and> GetMaxMemoryPeak c < Usage s")
      case True
      then have "r" "c' = set_peak oom (Usage s) ?c1"
        using assms(2) inside by (auto simp: acc Let_def recorder_sub_peak split: if_splits)
      then show ?thesis
        using True inside p u z GetMaxMemoryPeak_set_peak(1) [of ?c1 "Usage s" oom] g1 interval_peak_more(1) [OF p(1), of "Usage s"]
        by (auto simp: peak_of_def noted_def)
    next
      case False
      then have "r" "c' = ?c1" using assms(2) inside by (auto simp: acc Let_def split: if_splits)
      then show ?thesis
        using False inside p u z g1 interval_peak_more [OF p(1), of "Usage s"] by (auto simp: peak_of_def noted_def)
    qed
  next
    case False
    then have "r" "c' = set_peak oom (Usage s) (new_window config c (MeasureStart s))"
      using assms(2) by (auto simp: acc Let_def)
    then show ?thesis
      using False u GetMaxMemoryPeak_set_peak(2) [OF u, of oom config c "MeasureStart s"] by (auto simp: peak_of_def noted_def interval_peak_def)
  qed
qed

lemma container_step_peak_of:
  assumes "peak_of c us" "container_AddSample config recorder c M s = Inr (added, c', M', obs)"
  shows "peak_of c' (if added \<and> Resource s = ResourceMemory then noted c (MeasureStart s) (Usage s) us else us)"
proof -
  have "peak_of (c\<lparr>LastCPUSampleStart := x\<rparr>) us" for x using assms(1) by (simp add: peak_of_def GetMaxMemoryPeak_def)
  then show ?thesis
    using assms addMemorySample_peak_of [OF assms(1), of config M s False added c' M' obs]
    by (auto simp: container_AddSample_def addCPUSample_def recorder_add_cpu split: if_splits)
qed

lemma RecordOOM_step_peak_of:
  assumes "peak_of c us" "RecordOOM config recorder c M t m = Inr (err, c', M', obs)"
  shows "peak_of c' (if err = None then noted c t (oom_memory_needed c m) us else us)"
proof -
  let ?s = "\<lparr>MeasureStart = t, Usage = oom_memory_needed c m, Request = 0, Resource = ResourceMemory\<rparr>"
  show ?thesis
    using assms addMemorySample_peak_of [OF assms(1), of config M ?s True]
    by (cases "addMemorySample config recorder c M ?s True") (fastforce simp: RecordOOM_def Let_def split: if_splits)+
qed

lemma container_step_one_peak:
  assumes inv: "one_peak c M" and t: "0 < MeasureStart s" "window_fits config c (MeasureStart s)"
    and i: "0 < MemoryAggregationInterval config"
  shows "\<exists>r c' M' obs. container_AddSample config recorder c M s = Inr (r, c', M', obs) \<and> one_peak c' M'"
proof -
  have "one_peak (c\<lparr>LastCPUSampleStart := x\<rparr>) M" for x
    using inv by (auto simp: one_peak_def GetMaxMemoryPeak_def split: if_splits)
  then show ?thesis
    using addMemorySample_one_peak [OF assms, of False] inv
    by (auto simp: container_AddSample_def addCPUSample_def recorder_add_cpu)
qed

lemma RecordOOM_step_one_peak:
  assumes "one_peak c M" "0 < t" "window_fits config c t" "0 < MemoryAggregationInterval config"
  shows "\<exists>r c' M' obs. RecordOOM config recorder c M t m = Inr (r, c', M', obs) \<and> one_peak c' M'"
proof -
  let ?s = "\<lparr>MeasureStart = t, Usage = oom_memory_needed c m, Request = 0, Resource = ResourceMemory\<rparr>"
  obtain r c' M' where "addMemorySample config recorder c M ?s True = Inr (r, c', M', [])" "one_peak c' M'"
    using addMemorySample_one_peak [of c M ?s config True] assms by auto
  then show ?thesis using assms(1) by (simp add: RecordOOM_def Let_def)
qed

text \<open>
  C23. Whatever usage samples and OOM events a container is given, in whatever order, its aggregator
  holds at most one memory peak for each aggregation interval. The one of the current interval is the
  largest usage that was taken in the interval, unless the first usage taken is 0, in which case the peak stays
  0. The container only ever takes back a sample that the aggregator holds, so no event makes a strict
  aggregator panic.
\<close>

theorem container_one_peak_per_interval:
  assumes "container_reach config c M us" "0 < MemoryAggregationInterval config"
  shows "(\<forall>t. size (peaks_at M t) \<le> 1) \<and>
    (WindowEnd c \<noteq> 0 \<longrightarrow> us \<noteq> [] \<and> peaks_at M (WindowEnd c) = {#(WindowEnd c, if hd us = 0 then 0 else Max (set us))#}) \<and>
    (\<forall>s. 0 < MeasureStart s \<and> window_fits config c (MeasureStart s) \<longrightarrow>
      (\<exists>r. container_AddSample config recorder c M s = Inr r)) \<and>
    (\<forall>t m. 0 < t \<and> window_fits config c t \<longrightarrow> (\<exists>r. RecordOOM config recorder c M t m = Inr r))"
proof -
  have inv: "one_peak c M \<and> peak_of c us"
    using assms(1)
  proof induction
    case (start request aggr)
    then show ?case by (simp add: one_peak_def peak_of_def NewContainerState_def zero_time_def)
  next
    case (sample c M us s added c' M' obs)
    then show ?case using container_step_one_peak [OF _ _ _ assms(2), of c M s] container_step_peak_of by auto
  next
    case (oom c M us t m err c' M' obs)
    then show ?case using RecordOOM_step_one_peak [OF _ _ _ assms(2), of c M t m] RecordOOM_step_peak_of by auto
  qed
  then have "(\<forall>t. size (peaks_at M t) \<le> 1) \<and>
      (WindowEnd c \<noteq> 0 \<longrightarrow> us \<noteq> [] \<and> peaks_at M (WindowEnd c) = {#(WindowEnd c, if hd us = 0 then 0 else Max (set us))#})"
    by (auto simp: one_peak_def peak_of_def interval_peak_def split: if_splits)
  then show ?thesis
    using container_step_one_peak [OF conjunct1 [OF inv] _ _ assms(2)] RecordOOM_step_one_peak [OF conjunct1 [OF inv] _ _ assms(2)]
    by (metis (no_types, lifting))
qed

definition memory_sample :: "time \<Rightarrow> ResourceAmount \<Rightarrow> ContainerUsageSample" where
  "memory_sample t u = \<lparr>MeasureStart = t, Usage = u, Request = 0, Resource = ResourceMemory\<rparr>"

definition day_config :: AggregationsConfig where
  "day_config =
     \<lparr>MemoryAggregationInterval = 24 * hour, MemoryAggregationIntervalCount = 8,
      CPUHistogramOptions = LinearOptions \<lparr>lin_numBuckets = 2, lin_bucketSize = 1, lin_epsilon = 1 / 10\<rparr>,
      MemoryHistogramOptions = LinearOptions \<lparr>lin_numBuckets = 2, lin_bucketSize = 1, lin_epsilon = 1 / 10\<rparr>,
      HistogramBucketSizeGrowth = 1, MemoryHistogramDecayHalfLife = 24 * hour,
      CPUHistogramDecayHalfLife = 24 * hour\<rparr>"

definition idle_container :: ContainerState where
  "idle_container = NewContainerState [] (AggregateRef 0)"

lemmas container_eval =
  container_AddSample_def addMemorySample_def move_window_def isValid_def time_defs Let_def
  peak_sample_def GetMaxMemoryPeak_def ResourceAmountMax_def wrap64_def truncate_def time_Sub_def
  go_mod_def go_div_def int64_min_def int64_max_def hour_def minute_def second_def
  idle_container_def NewContainerState_def memory_sample_def day_config_def recorder_def

lemma first_peak:
  "container_AddSample day_config recorder idle_container {#} (memory_sample 7 10) =
     Inr (True, idle_container\<lparr>lastMemorySampleStart := 7, WindowEnd := 7 + 24 * hour, memoryPeak := 10\<rparr>,
       {#(7 + 24 * hour, 10)#}, [])"
  by (simp add: container_eval observeQualityMetrics_def)

lemma second_peak:
  "container_AddSample day_config recorder (idle_container\<lparr>lastMemorySampleStart := 7, WindowEnd := 7 + 24 * hour, memoryPeak := 10\<rparr>)
     {#(7 + 24 * hour, 10)#} (memory_sample 8 30) =
     Inr (True, idle_container\<lparr>lastMemorySampleStart := 8, WindowEnd := 7 + 24 * hour, memoryPeak := 30\<rparr>,
       {#(7 + 24 * hour, 30)#}, [])"
  by (simp add: container_eval observeQualityMetrics_def)

theorem container_one_peak_per_interval_witness:
  "\<exists>c M us. container_reach day_config c M us \<and> us = [10, 30] \<and> peaks_at M (WindowEnd c) = {#(WindowEnd c, 30)#}"
proof -
  let ?c = "idle_container\<lparr>lastMemorySampleStart := 7, WindowEnd := 7 + 24 * hour, memoryPeak := 10\<rparr>"
  let ?d = "?c\<lparr>lastMemorySampleStart := 8, memoryPeak := 30\<rparr>"
  let ?M = "{#(7 + 24 * hour, 10)#} :: peaks" and ?N = "{#(7 + 24 * hour, 30)#} :: peaks"
  have i: "0 < MemoryAggregationInterval day_config" by (simp add: container_eval)
  have "container_reach day_config idle_container {#} []"
    unfolding idle_container_def by (rule container_reach.start)
  from container_reach.sample [OF this _ _ first_peak] have "container_reach day_config ?c ?M [10]"
    by (simp add: memory_sample_def window_fits_def window_start_def in_int64_def container_eval noted_def)
  from container_reach.sample [OF this _ _ second_peak] have r: "container_reach day_config ?d ?N [10, 30]"
    by (simp add: memory_sample_def window_fits_def window_start_def in_int64_def container_eval noted_def)
  have "WindowEnd ?d \<noteq> 0" by (simp add: hour_def minute_def second_def)
  then have "peaks_at ?N (WindowEnd ?d) = {#(WindowEnd ?d, 30)#}" using container_one_peak_per_interval [OF r i] by simp
  then show ?thesis using r by blast
qed

text \<open>
  A container whose first memory sample of an interval is 0 does not see the peaks of the
  rest of that interval: the guard \<open>oldMaxMem != 0\<close> keeps every later sample of the interval,
  however large, and also an OOM event, from replacing the peak 0, although the sample is
  reported as aggregated.
\<close>

theorem zero_peak_hides_interval:
  assumes "WindowEnd c \<noteq> 0" "GetMaxMemoryPeak c = 0" "MeasureStart s < WindowEnd c"
    "isValid s ResourceMemory" "oom \<or> lastMemorySampleStart c \<le> MeasureStart s"
  shows "addMemorySample config recorder c M s oom =
    Inr (True, c\<lparr>lastMemorySampleStart := MeasureStart s\<rparr>, M, [])"
  using addMemorySample_accept [OF assms(4,5), of config recorder M] assms(1-3) by (simp add: Let_def)

theorem zero_peak_hides_interval_witness:
  "\<exists>c M us. container_reach day_config c M us \<and>
     addMemorySample day_config recorder c M (memory_sample 8 (10 ^ 9)) False =
       Inr (True, c\<lparr>lastMemorySampleStart := 8\<rparr>, M, []) \<and> M = {#(7 + 24 * hour, 0)#}"
proof -
  let ?c = "idle_container\<lparr>lastMemorySampleStart := 7, WindowEnd := 7 + 24 * hour\<rparr>"
  let ?M = "{#(7 + 24 * hour, 0)#} :: peaks"
  have z: "container_AddSample day_config recorder idle_container {#} (memory_sample 7 0) = Inr (True, ?c, ?M, [])"
    by (simp add: container_eval observeQualityMetrics_def)
  have "container_reach day_config idle_container {#} []"
    unfolding idle_container_def by (rule container_reach.start)
  from container_reach.sample [OF this _ _ z] have "container_reach day_config ?c ?M [0]"
    by (simp add: memory_sample_def window_fits_def window_start_def in_int64_def container_eval noted_def)
  moreover have "addMemorySample day_config recorder ?c ?M (memory_sample 8 (10 ^ 9)) False =
      Inr (True, ?c\<lparr>lastMemorySampleStart := MeasureStart (memory_sample 8 (10 ^ 9))\<rparr>, ?M, [])"
    by (rule zero_peak_hides_interval)
      (simp_all add: memory_sample_def isValid_def GetMaxMemoryPeak_def ResourceAmountMax_def
        idle_container_def NewContainerState_def hour_def minute_def second_def)
  ultimately show ?thesis by (auto simp: memory_sample_def)
qed

section \<open>OOM events\<close>

lemma oom_bump:
  assumes "0 \<le> m" "m \<le> MaxResourceAmount div 2" "0 \<le> memoryPeak c" "memoryPeak c \<le> MaxResourceAmount div 2"
  shows "m + 100 * 1024 * 1024 \<le> oom_memory_needed c m" "\<lfloor>12 / 10 * real_of_int m\<rfloor> \<le> oom_memory_needed c m"
proof -
  let ?u = "ResourceAmountMax m (memoryPeak c)"
  have u: "m \<le> ?u" "0 \<le> ?u" "?u \<le> MaxResourceAmount div 2"
    using assms by (simp_all add: ResourceAmountMax_eq_max)
  have "MemoryAmountFromBytes OOMMinBumpUp = 100 * 1024 * 1024"
    by (simp add: MemoryAmountFromBytes_def OOMMinBumpUp_def resourceAmountFromFloat_Fin MaxResourceAmount_def)
  moreover have "wrap64 (?u + 100 * 1024 * 1024) = ?u + 100 * 1024 * 1024"
    using u by (intro wrap64_id) (simp add: in_int64_def int64_min_def int64_max_def MaxResourceAmount_def)
  ultimately have n: "oom_memory_needed c m = max (?u + 100 * 1024 * 1024) (ScaleResource ?u (Fin OOMBumpUpRatio))"
    by (simp add: oom_memory_needed_def Let_def ResourceAmountMax_eq_max)
  then show "m + 100 * 1024 * 1024 \<le> oom_memory_needed c m" using u by simp
  have "real_of_int ?u * OOMBumpUpRatio \<le> of_int MaxResourceAmount"
    using u(3) by (simp add: OOMBumpUpRatio_def MaxResourceAmount_def)
  then have "ScaleResource ?u (Fin OOMBumpUpRatio) = \<lfloor>real_of_int ?u * OOMBumpUpRatio\<rfloor>"
    using u(2) by (simp add: ScaleResource_def resourceAmountFromFloat_Fin OOMBumpUpRatio_def mult_less_0_iff)
  moreover have "\<lfloor>12 / 10 * real_of_int m\<rfloor> \<le> \<lfloor>real_of_int ?u * OOMBumpUpRatio\<rfloor>"
    using u(1) by (intro floor_mono) (simp add: OOMBumpUpRatio_def)
  ultimately show "\<lfloor>12 / 10 * real_of_int m\<rfloor> \<le> oom_memory_needed c m" using n by linarith
qed

text \<open>
  An OOM event that is not too old leaves the container with a peak for its interval that is
  at least 100 MiB and at least 20 per cent above the memory the container had requested, and
  that peak is in the aggregate, unless the interval had started with a sample of 0.
\<close>

theorem RecordOOM_bumps_peak:
  assumes reach: "one_peak c M" and t: "0 < t" "window_fits config c t"
    and i: "0 < MemoryAggregationInterval config" "MemoryAggregationInterval config \<le> int64_max"
    and recent: "WindowEnd c - MemoryAggregationInterval config \<le> t"
    and m: "0 \<le> m" "m \<le> MaxResourceAmount div 2" "memoryPeak c \<le> MaxResourceAmount div 2"
    and nz: "WindowEnd c \<le> t \<or> GetMaxMemoryPeak c \<noteq> 0"
  shows "\<exists>c' M'. RecordOOM config recorder c M t m = Inr (None, c', M', []) \<and>
    (WindowEnd c', GetMaxMemoryPeak c') \<in># M' \<and> t < WindowEnd c' \<and>
    m + 100 * 1024 * 1024 \<le> GetMaxMemoryPeak c' \<and> \<lfloor>12 / 10 * real_of_int m\<rfloor> \<le> GetMaxMemoryPeak c'"
proof -
  let ?u = "oom_memory_needed c m"
  let ?s = "\<lparr>MeasureStart = t, Usage = ?u, Request = 0, Resource = ResourceMemory\<rparr>"
  have pk: "0 \<le> memoryPeak c" "0 \<le> oomPeak c" using reach by (simp_all add: one_peak_def)
  note b = oom_bump [OF m(1,2) pk(1) m(3)]
  have v: "isValid ?s ResourceMemory" using b(1) m(1) by (simp add: isValid_def)
  have w0: "WindowEnd c = 0 \<or> 0 < WindowEnd c" using reach by (auto simp: one_peak_def split: if_splits)
  obtain c' M' where a: "addMemorySample config recorder c M ?s True = Inr (True, c', M', [])"
    "one_peak c' M'" "t < WindowEnd c'" "?u \<le> GetMaxMemoryPeak c'"
  proof -
    have or: "True \<or> lastMemorySampleStart c \<le> MeasureStart ?s" by simp
    note acc = addMemorySample_accept [OF v or, of config recorder M]
    obtain r c' M' where x: "addMemorySample config recorder c M ?s True = Inr (r, c', M', [])" "one_peak c' M'"
      using addMemorySample_one_peak [OF reach, of ?s config True] t i(1) by auto
    have "r \<and> t < WindowEnd c' \<and> ?u \<le> GetMaxMemoryPeak c'"
    proof (cases "WindowEnd c \<noteq> 0 \<and> t < WindowEnd c")
      case True
      then have "GetMaxMemoryPeak c \<noteq> 0" using nz by simp
      then show ?thesis
        using x(1) True GetMaxMemoryPeak_set_peak(1) [of c ?u True]
        by (auto simp: acc Let_def recorder_sub_peak GetMaxMemoryPeak_def set_peak_def
            ResourceAmountMax_eq_max split: if_splits)
    next
      case False
      then have "WindowEnd c = 0 \<or> WindowEnd c \<le> t" using w0 by auto
      note later = new_window_later(1) [OF t i(1) this]
      show ?thesis
        using x(1) False later GetMaxMemoryPeak_set_peak(2) [of ?u True config c t] b(1) m(1)
        by (auto simp: acc Let_def)
    qed
    then show ?thesis using that x by auto
  qed
  have "wrap64 (- 1 * MemoryAggregationInterval config) = - 1 * MemoryAggregationInterval config"
    using i by (intro wrap64_id) (simp add: in_int64_def int64_min_def int64_max_def)
  then have "\<not> time_Before t (time_Add (WindowEnd c) (wrap64 (- 1 * MemoryAggregationInterval config)))"
    using recent by (simp add: time_defs)
  then have "RecordOOM config recorder c M t m = Inr (None, c', M', [])"
    using a(1) by (simp add: RecordOOM_def Let_def)
  moreover have "(WindowEnd c', GetMaxMemoryPeak c') \<in># M'"
    using a(2,3) t(1) by (metis (no_types, lifting) filter_mset_eq_conv insert_DiffM2 less_asym' multi_member_last
        mset_subset_eqD one_peak_def peaks_at_def multiset_filter_subset)
  ultimately show ?thesis using a(3,4) b by auto
qed

theorem RecordOOM_bumps_peak_witness:
  "\<exists>c c' M M'. RecordOOM day_config recorder c M 9 (10 ^ 8) = Inr (None, c', M', []) \<and>
     10 ^ 8 + 100 * 1024 * 1024 \<le> GetMaxMemoryPeak c'"
proof -
  let ?c = "idle_container\<lparr>lastMemorySampleStart := 7, WindowEnd := 7 + 24 * hour, memoryPeak := 10\<rparr>"
  let ?M = "{#(7 + 24 * hour, 10)#} :: peaks"
  have "one_peak ?c ?M" "window_fits day_config ?c 9" "0 < MemoryAggregationInterval day_config"
    "MemoryAggregationInterval day_config \<le> int64_max"
    "WindowEnd ?c - MemoryAggregationInterval day_config \<le> 9" "memoryPeak ?c \<le> MaxResourceAmount div 2"
    "WindowEnd ?c \<le> 9 \<or> GetMaxMemoryPeak ?c \<noteq> 0" "(10 ^ 8 :: int) \<le> MaxResourceAmount div 2"
    by (auto simp: one_peak_def window_fits_def window_start_def in_int64_def container_eval MaxResourceAmount_def)
  from RecordOOM_bumps_peak [OF this(1) _ this(2-5) _ this(8,6,7)] show ?thesis by (simp; blast)
qed

text \<open>
  With the aggregate state of the recommender as its aggregator, no usage sample and no OOM
  event makes a container panic, and the invariant of the aggregate is kept.
\<close>

theorem container_never_panics:
  assumes "config_ok config" "agg_ok config a" "0 \<le> WindowEnd c"
    "0 < MeasureStart s" "window_fits config c (MeasureStart s)"
  shows "(\<exists>r c' a' obs. container_AddSample config aggregate_aggregator c a s = Inr (r, c', a', obs) \<and>
      agg_ok config a' \<and> 0 \<le> WindowEnd c') \<and>
    (\<exists>r c' a' obs. RecordOOM config aggregate_aggregator c a (MeasureStart s) m = Inr (r, c', a', obs) \<and>
      agg_ok config a' \<and> 0 \<le> WindowEnd c')"
  using assms aggregate.container_AddSample_ok [of config a s config c]
    aggregate.RecordOOM_ok [of config a "MeasureStart s" config c m]
  by (simp add: config_ok_def)

theorem container_never_panics_witness:
  "\<exists>r c' a' obs. container_AddSample day_config aggregate_aggregator idle_container
     (NewAggregateContainerState day_config 0) (memory_sample 7 10) = Inr (r, c', a', obs) \<and> agg_ok day_config a'"
proof -
  have c: "config_ok day_config"
    by (simp add: config_ok_def day_config_def linear_wf_def maxDecayExponent_def int64_max_def
        hour_def minute_def second_def)
  have "0 \<le> WindowEnd idle_container" "0 < MeasureStart (memory_sample 7 10)"
    "window_fits day_config idle_container (MeasureStart (memory_sample 7 10))"
    by (simp_all add: container_eval window_fits_def window_start_def in_int64_def)
  then show ?thesis
    using container_never_panics [OF c NewAggregateContainerState_ok [OF c]] by blast
qed

end
