(* ===== verification/Estimators.thy ===== *)
theory Estimators
  imports Container_State
begin

text \<open>
  \<open>pkg/recommender/logic/estimator.go\<close> and \<open>recommender.go\<close>: the tower of resource estimators and
  the recommender that turns the aggregated state of each container into a target and a lower and
  an upper bound. The confidence multiplier divides by a confidence that is 0 without history, so
  the factors are values of \<open>xfloat\<close>. The command line flags are the record \<open>recommender_flags\<close>.
\<close>

section \<open>Estimators\<close>

datatype ResourceEstimator =
    ConstEstimator Resources
  | PercentileEstimator float64 float64
  | MarginEstimator float64 ResourceEstimator
  | MinResourcesEstimator Resources ResourceEstimator
  | ConfidenceMultiplier float64 float64 ResourceEstimator

definition NewConstEstimator :: "Resources \<Rightarrow> ResourceEstimator" where
  "NewConstEstimator resources = ConstEstimator resources"

definition NewPercentileEstimator :: "float64 \<Rightarrow> float64 \<Rightarrow> ResourceEstimator" where
  "NewPercentileEstimator cpuPercentile memoryPercentile =
     PercentileEstimator cpuPercentile memoryPercentile"

definition WithMargin :: "float64 \<Rightarrow> ResourceEstimator \<Rightarrow> ResourceEstimator" where
  "WithMargin marginFraction baseEstimator = MarginEstimator marginFraction baseEstimator"

definition WithMinResources :: "Resources \<Rightarrow> ResourceEstimator \<Rightarrow> ResourceEstimator" where
  "WithMinResources minResources baseEstimator = MinResourcesEstimator minResources baseEstimator"

definition WithConfidenceMultiplier ::
    "float64 \<Rightarrow> float64 \<Rightarrow> ResourceEstimator \<Rightarrow> ResourceEstimator" where
  "WithConfidenceMultiplier multiplier exponent baseEstimator =
     ConfidenceMultiplier multiplier exponent baseEstimator"

definition getConfidence :: "AggregateContainerState \<Rightarrow> float64" where
  "getConfidence s =
     (let lifespanInDays =
            of_int (time_Sub (LastSampleStart s) (FirstSampleStart s)) / of_int (hour * 24);
          samplesAmount = of_int (TotalSamplesCount s) / (60 * 24)
      in min lifespanInDays samplesAmount)"

definition confidence_factor :: "float64 \<Rightarrow> float64 \<Rightarrow> float64 \<Rightarrow> xfloat" where
  "confidence_factor multiplier exponent confidence =
     math_Pow (xadd (Fin 1) (xdiv (Fin multiplier) (Fin confidence))) exponent"

fun GetResourceEstimation :: "ResourceEstimator \<Rightarrow> AggregateContainerState \<Rightarrow> Resources result" where
  "GetResourceEstimation (ConstEstimator resources) s = Inr resources"
| "GetResourceEstimation (PercentileEstimator cpuPercentile memoryPercentile) s =
     rbind (decaying_Percentile (AggregateCPUUsage s) cpuPercentile) (\<lambda>cpu.
     rbind (decaying_Percentile (AggregateMemoryPeaks s) memoryPercentile) (\<lambda>memory.
       Inr [(ResourceCPU, CPUAmountFromCores cpu), (ResourceMemory, MemoryAmountFromBytes memory)]))"
| "GetResourceEstimation (MarginEstimator marginFraction baseEstimator) s =
     rbind (GetResourceEstimation baseEstimator s) (\<lambda>originalResources.
       Inr (map_values (\<lambda>resource amount.
              wrap64 (amount + ScaleResource amount (Fin marginFraction))) originalResources))"
| "GetResourceEstimation (MinResourcesEstimator minResources baseEstimator) s =
     rbind (GetResourceEstimation baseEstimator s) (\<lambda>originalResources.
       Inr (map_values (\<lambda>resource amount.
              if amount < lookup_default 0 minResources resource
              then lookup_default 0 minResources resource else amount) originalResources))"
| "GetResourceEstimation (ConfidenceMultiplier multiplier exponent baseEstimator) s =
     rbind (GetResourceEstimation baseEstimator s) (\<lambda>originalResources.
       Inr (map_values (\<lambda>resource amount.
              ScaleResource amount (confidence_factor multiplier exponent (getConfidence s)))
              originalResources))"

section \<open>The recommender\<close>

record recommender_flags =
  safetyMarginFraction :: float64
  podMinCPUMillicores :: float64
  podMinMemoryMb :: float64

definition default_flags :: recommender_flags where
  "default_flags = \<lparr>safetyMarginFraction = 15 / 100, podMinCPUMillicores = 25, podMinMemoryMb = 250\<rparr>"

record ContainerEstimate =
  est_Target :: Resources
  est_LowerBound :: Resources
  est_UpperBound :: Resources

record podResourceRecommender =
  targetEstimator :: ResourceEstimator
  lowerBoundEstimator :: ResourceEstimator
  upperBoundEstimator :: ResourceEstimator

definition FilterControlledResources :: "Resources \<Rightarrow> ResourceName list \<Rightarrow> Resources" where
  "FilterControlledResources estimation controlledResources =
     fold (\<lambda>resource result.
        case map_of estimation resource of
          Some amount \<Rightarrow> AList.update resource amount result
        | None \<Rightarrow> result) controlledResources []"

definition estimateContainerResources ::
    "podResourceRecommender \<Rightarrow> AggregateContainerState \<Rightarrow> ContainerEstimate result" where
  "estimateContainerResources r s =
     rbind (GetResourceEstimation (targetEstimator r) s) (\<lambda>target.
     rbind (GetResourceEstimation (lowerBoundEstimator r) s) (\<lambda>lower.
     rbind (GetResourceEstimation (upperBoundEstimator r) s) (\<lambda>upper.
       Inr \<lparr>est_Target = FilterControlledResources target (GetControlledResources s),
            est_LowerBound = FilterControlledResources lower (GetControlledResources s),
            est_UpperBound = FilterControlledResources upper (GetControlledResources s)\<rparr>)))"

fun estimate_all ::
    "podResourceRecommender \<Rightarrow> ContainerNameToAggregateStateMap \<Rightarrow> (string, ContainerEstimate) gomap result"
where
  "estimate_all r [] = Inr []"
| "estimate_all r ((containerName, s) # rest) =
     rbind (estimateContainerResources r s) (\<lambda>e.
     rbind (estimate_all r rest) (\<lambda>es. Inr ((containerName, e) # es)))"

definition min_resources :: "recommender_flags \<Rightarrow> nat \<Rightarrow> Resources" where
  "min_resources flags n =
     (let fraction = 1 / of_nat n
      in [(ResourceCPU, ScaleResource (CPUAmountFromCores (podMinCPUMillicores flags * (1 / 1000))) (Fin fraction)),
          (ResourceMemory, ScaleResource (MemoryAmountFromBytes (podMinMemoryMb flags * 1024 * 1024)) (Fin fraction))])"

definition GetRecommendedPodResources ::
    "recommender_flags \<Rightarrow> podResourceRecommender \<Rightarrow> ContainerNameToAggregateStateMap \<Rightarrow>
     (string, ContainerEstimate) gomap result" where
  "GetRecommendedPodResources flags r containerNameToAggregateStateMap =
     (if length containerNameToAggregateStateMap = 0 then Inr []
      else let minResources = min_resources flags (length containerNameToAggregateStateMap);
               recommender = \<lparr>targetEstimator = WithMinResources minResources (targetEstimator r),
                 lowerBoundEstimator = WithMinResources minResources (lowerBoundEstimator r),
                 upperBoundEstimator = WithMinResources minResources (upperBoundEstimator r)\<rparr>
           in estimate_all recommender containerNameToAggregateStateMap)"

definition CreatePodResourceRecommender :: "recommender_flags \<Rightarrow> podResourceRecommender" where
  "CreatePodResourceRecommender flags =
     (let target = WithMargin (safetyMarginFraction flags) (NewPercentileEstimator (9 / 10) (9 / 10));
          lower = WithMargin (safetyMarginFraction flags) (NewPercentileEstimator (5 / 10) (5 / 10));
          upper = WithMargin (safetyMarginFraction flags) (NewPercentileEstimator (95 / 100) (95 / 100))
      in \<lparr>targetEstimator = target,
          lowerBoundEstimator = WithConfidenceMultiplier (1 / 1000) (- 2) lower,
          upperBoundEstimator = WithConfidenceMultiplier 1 1 upper\<rparr>)"

section \<open>Factors and margins\<close>

lemma confidence_factor_zero [simp]:
  "0 < m \<Longrightarrow> e < 0 \<Longrightarrow> confidence_factor m e 0 = Fin 0"
  "0 < m \<Longrightarrow> 0 < e \<Longrightarrow> confidence_factor m e 0 = PosInf"
  by (simp_all add: confidence_factor_def math_Pow.simps)

lemma confidence_factor_pos:
  assumes "0 \<le> m" "0 < c"
  shows "confidence_factor m e c = Fin ((1 + m / c) powr e)"
proof -
  have "0 < 1 + m / c" using assms by (simp add: add_pos_nonneg)
  then show ?thesis using assms by (simp add: confidence_factor_def math_Pow.simps)
qed

lemma ScaleResource_nonneg: "0 \<le> ScaleResource a (Fin f)"
  using resourceAmountFromFloat_range by (simp add: ScaleResource_def)

lemma lower_factor:
  assumes "0 \<le> c" "0 \<le> a"
  shows "0 \<le> ScaleResource a (confidence_factor (1 / 1000) (- 2) c)"
    "ScaleResource a (confidence_factor (1 / 1000) (- 2) c) \<le> a"
proof -
  obtain f where f: "confidence_factor (1 / 1000) (- 2) c = Fin f" "0 \<le> f" "f \<le> 1"
  proof (cases "c = 0")
    case True
    then show ?thesis using that [of 0] by simp
  next
    case False
    have "1 \<le> 1 + 1 / 1000 / c" using assms(1) by simp
    then have "(1 + 1 / 1000 / c) powr - 2 \<le> 1" using powr_mono [of "- 2" 0 "1 + 1 / 1000 / c"] by (simp split: if_splits)
    then show ?thesis using that confidence_factor_pos [of "1 / 1000" c "- 2"] assms(1) False by simp
  qed
  show "0 \<le> ScaleResource a (confidence_factor (1 / 1000) (- 2) c)"
    "ScaleResource a (confidence_factor (1 / 1000) (- 2) c) \<le> a"
    using f ScaleResource_nonneg ScaleResource_le [OF assms(2)] by auto
qed

text \<open>
  Without history the upper bound of a positive amount is the largest amount. The product of 0 and
  an infinite factor is NaN, whose conversion is the smallest int64.
\<close>

lemma upper_factor:
  assumes "0 \<le> c" "0 \<le> a" "a \<le> MaxResourceAmount" "0 < a \<or> 0 < c"
  shows "a \<le> ScaleResource a (confidence_factor 1 1 c)"
proof (cases "c = 0")
  case True
  then show ?thesis using assms by (simp add: ScaleResource_def resourceAmountFromFloat_special)
next
  case False
  have "confidence_factor 1 1 c = Fin (1 + 1 / c)" "1 \<le> 1 + 1 / c"
    using confidence_factor_pos [of 1 c 1] assms(1) False by (simp_all add: add_nonneg_nonneg)
  then show ?thesis using ScaleResource_ge [OF assms(2,3)] by simp
qed

lemma upper_factor_NaN: "ScaleResource 0 (confidence_factor 1 1 0) = int64_min"
  by (simp add: ScaleResource_def resourceAmountFromFloat_special)

definition with_margin :: "float64 \<Rightarrow> ResourceAmount \<Rightarrow> ResourceAmount" where
  "with_margin f a = wrap64 (a + ScaleResource a (Fin f))"

lemma with_margin_eq:
  assumes "0 \<le> a" "a \<le> MaxResourceAmount div 2" "0 \<le> f" "f \<le> 1"
  shows "with_margin f a = a + ScaleResource a (Fin f)"
proof -
  have "0 \<le> ScaleResource a (Fin f)" "ScaleResource a (Fin f) \<le> a"
    using ScaleResource_nonneg ScaleResource_le assms by auto
  then show ?thesis unfolding with_margin_def using assms
    by (intro wrap64_id) (simp add: in_int64_def int64_min_def int64_max_def MaxResourceAmount_def)
qed

lemma with_margin_mono:
  assumes "0 \<le> a" "a \<le> b" "b \<le> MaxResourceAmount div 2" "0 \<le> f" "f \<le> 1"
  shows "0 \<le> with_margin f a" "with_margin f a \<le> with_margin f b" "with_margin f b \<le> MaxResourceAmount"
  using assms with_margin_eq [of a f] with_margin_eq [of b f] ScaleResource_mono [of a b f]
    ScaleResource_nonneg [of a f] ScaleResource_le [of b f]
  by (auto simp: MaxResourceAmount_def)

lemma getConfidence_nonneg: "agg_times a \<Longrightarrow> 0 \<le> getConfidence a"
proof -
  assume t: "agg_times a"
  then have "0 \<le> time_Sub (LastSampleStart a) (FirstSampleStart a)"
    by (auto simp: agg_times_def time_Sub_def int64_max_def int64_min_def)
  then show ?thesis using t
    by (auto simp: getConfidence_def agg_times_def hour_def minute_def second_def)
qed

section \<open>The largest value a histogram can report\<close>

lemma exponential_start_bound:
  assumes "NewExponentialHistogramOptions m f r e = Inr c" "GetBucketStart c b = Inr x"
  shows "x \<le> r * m + f"
proof -
  let ?y = "m * (r - 1) / f + 1"
  have pos: "0 < m" "0 < f" "1 < r" "0 < e"
    using assms(1) by (auto simp: NewExponentialHistogramOptions_def split: if_splits)
  obtain o' where c: "c = ExponentialOptions o'" "exp_firstBucketSize o' = f" "exp_ratio o' = r"
    "exp_numBuckets o' = \<lceil>options_log r ?y\<rceil> + 1"
    using assms(1) by (auto simp: NewExponentialHistogramOptions_def Let_def split: if_splits)
  have wf: "exponential_wf o'" using NewExponentialHistogramOptions_wf [OF assms(1)] by (simp add: c(1))
  have b: "0 \<le> b" "b < exp_numBuckets o'"
    using assms(2) by (auto simp: c(1) exponential_GetBucketStart_def split: if_splits)
  have y: "1 < ?y" using pos by simp
  have "of_int b \<le> options_log r ?y + 1" using b(2) unfolding c(4) by linarith
  then have "r powr of_int b \<le> r powr (options_log r ?y + 1)" using pos by (intro powr_mono) simp_all
  also have "options_log r ?y = log r ?y" by (simp add: options_log_def log_def)
  also have "r powr (log r ?y + 1) = r * ?y"
    using pos powr_log_cancel [of r ?y] y by (simp only: powr_add powr_one') (simp add: mult.commute)
  finally have p: "r powr of_int b - 1 \<le> r * ?y - 1" by simp
  have "x = f * (r powr of_int b - 1) / (r - 1)"
    using assms(2) b pos by (auto simp: c exponential_GetBucketStart_def split: if_splits)
  also have "\<dots> \<le> f * (r * ?y - 1) / (r - 1)"
    using p pos by (intro divide_right_mono mult_left_mono) simp_all
  also have "f * (r * ?y - 1) = (r * m + f) * (r - 1)" using pos by (simp add: field_simps)
  also have "(r * m + f) * (r - 1) / (r - 1) = r * m + f" using pos by simp
  finally show ?thesis .
qed

definition percentile_limit :: "HistogramOptions \<Rightarrow> float64 \<Rightarrow> bool" where
  "percentile_limit c limit \<longleftrightarrow> (\<forall>b x. GetBucketStart c b = Inr x \<longrightarrow> x \<le> limit)"

lemma config_limits:
  assumes "NewAggregationsConfig i n m c = Inr config"
  shows "percentile_limit (CPUHistogramOptions config) (10 ^ 10)"
    "percentile_limit (MemoryHistogramOptions config) (10 ^ 13)"
proof -
  let ?g = "1 + DefaultHistogramBucketSizeGrowth"
  have "NewExponentialHistogramOptions 1000 (1 / 100) ?g epsilon = Inr (CPUHistogramOptions config)"
    "NewExponentialHistogramOptions (10 ^ 12) (10 ^ 7) ?g epsilon = Inr (MemoryHistogramOptions config)"
    using assms by (auto simp: NewAggregationsConfig_def cpuHistogramOptions_def memoryHistogramOptions_def
        split: sum.splits)
  from exponential_start_bound [OF this(1)] exponential_start_bound [OF this(2)]
  show "percentile_limit (CPUHistogramOptions config) (10 ^ 10)"
    "percentile_limit (MemoryHistogramOptions config) (10 ^ 13)"
    by (fastforce simp: percentile_limit_def DefaultHistogramBucketSizeGrowth_def)+
qed

lemma decaying_Percentile_limit:
  assumes "decaying_inv h" "percentile_limit (options (dh_histogram h)) limit" "0 \<le> limit"
  shows "\<exists>x. decaying_Percentile h p = Inr x \<and> 0 \<le> x \<and> x \<le> limit"
proof -
  obtain x where x: "decaying_Percentile h p = Inr x" "0 \<le> x" using decaying_weak.pct_ok [OF assms(1)] by blast
  have "x \<le> limit"
    using x(1) assms(2,3)
    by (auto simp: decaying_Percentile_def Percentile_eq bucket_end_def percentile_limit_def split: if_splits)
  then show ?thesis using x by blast
qed

section \<open>Monotonicity of the recommender\<close>

text \<open>The three values of one resource as the recommender computes them from a percentile's amount.\<close>

definition final_lower :: "float64 \<Rightarrow> ResourceAmount \<Rightarrow> float64 \<Rightarrow> ResourceAmount \<Rightarrow> ResourceAmount" where
  "final_lower f mn c a =
     (let v = ScaleResource (with_margin f a) (confidence_factor (1 / 1000) (- 2) c)
      in if v < mn then mn else v)"

definition final_target :: "float64 \<Rightarrow> ResourceAmount \<Rightarrow> ResourceAmount \<Rightarrow> ResourceAmount" where
  "final_target f mn a = (let v = with_margin f a in if v < mn then mn else v)"

definition final_upper :: "float64 \<Rightarrow> ResourceAmount \<Rightarrow> float64 \<Rightarrow> ResourceAmount \<Rightarrow> ResourceAmount" where
  "final_upper f mn c a =
     (let v = ScaleResource (with_margin f a) (confidence_factor 1 1 c)
      in if v < mn then mn else v)"

lemma final_ordered:
  assumes a: "0 \<le> a1" "a1 \<le> a2" "a2 \<le> a3" "a3 \<le> MaxResourceAmount div 2"
    and f: "0 \<le> f" "f \<le> 1" and c: "0 \<le> c" and mn: "0 \<le> mn"
  shows "mn \<le> final_lower f mn c a1" "final_lower f mn c a1 \<le> final_target f mn a2"
    "final_target f mn a2 \<le> final_upper f mn c a3"
proof -
  have m12: "0 \<le> with_margin f a1" "with_margin f a1 \<le> with_margin f a2"
    using with_margin_mono [of a1 a2 f] a f by auto
  have m23: "0 \<le> with_margin f a2" "with_margin f a2 \<le> with_margin f a3" "with_margin f a3 \<le> MaxResourceAmount"
    using with_margin_mono [of a2 a3 f] a f by auto
  show "mn \<le> final_lower f mn c a1" by (simp add: final_lower_def Let_def)
  show "final_lower f mn c a1 \<le> final_target f mn a2"
    using lower_factor [OF c m12(1)] m12(2) by (auto simp: final_lower_def final_target_def Let_def)
  show "final_target f mn a2 \<le> final_upper f mn c a3"
  proof (cases "0 < with_margin f a3 \<or> 0 < c")
    case True
    then have "with_margin f a3 \<le> ScaleResource (with_margin f a3) (confidence_factor 1 1 c)"
      using upper_factor [OF c _ m23(3)] m23(1,2) by auto
    then show ?thesis using m23(2) by (auto simp: final_upper_def final_target_def Let_def)
  next
    case False
    then have "with_margin f a2 = 0" "with_margin f a3 = 0" "c = 0" using m23 c by auto
    then show ?thesis using mn
      by (auto simp: final_upper_def final_target_def Let_def upper_factor_NaN int64_min_def)
  qed
qed

lemma map_of_FilterControlledResources:
  "map_of (FilterControlledResources es cs) r = (if r \<in> set cs then map_of es r else None)"
proof -
  have "map_of (fold (\<lambda>resource result. case map_of es resource of
      Some amount \<Rightarrow> AList.update resource amount result | None \<Rightarrow> result) cs acc) r =
    (if r \<in> set cs \<and> map_of es r \<noteq> None then map_of es r else map_of acc r)" for acc
    by (induction cs arbitrary: acc) (auto split: option.splits)
  then show ?thesis by (auto simp: FilterControlledResources_def)
qed

definition estimate_ordered :: "Resources \<Rightarrow> ResourceName list \<Rightarrow> ContainerEstimate \<Rightarrow> bool" where
  "estimate_ordered mins controlled e \<longleftrightarrow>
     (\<forall>r. if r \<in> set controlled \<inter> {ResourceCPU, ResourceMemory}
          then \<exists>l t u. map_of (est_LowerBound e) r = Some l \<and> map_of (est_Target e) r = Some t \<and>
                 map_of (est_UpperBound e) r = Some u \<and>
                 lookup_default 0 mins r \<le> l \<and> l \<le> t \<and> t \<le> u
          else map_of (est_LowerBound e) r = None \<and> map_of (est_Target e) r = None \<and>
               map_of (est_UpperBound e) r = None)"

definition full_recommender :: "recommender_flags \<Rightarrow> Resources \<Rightarrow> podResourceRecommender" where
  "full_recommender flags mins =
     (let r = CreatePodResourceRecommender flags
      in \<lparr>targetEstimator = WithMinResources mins (targetEstimator r),
          lowerBoundEstimator = WithMinResources mins (lowerBoundEstimator r),
          upperBoundEstimator = WithMinResources mins (upperBoundEstimator r)\<rparr>)"

lemma amount_of_percentile:
  assumes "decaying_inv h" "percentile_limit (options (dh_histogram h)) limit" "0 \<le> limit" "k * limit \<le> 5 * 10 ^ 13" "0 \<le> k"
  obtains x1 x2 x3 where "decaying_Percentile h (5 / 10) = Inr x1" "decaying_Percentile h (9 / 10) = Inr x2"
    "decaying_Percentile h (95 / 100) = Inr x3"
    "0 \<le> resourceAmountFromFloat (Fin (x1 * k))"
    "resourceAmountFromFloat (Fin (x1 * k)) \<le> resourceAmountFromFloat (Fin (x2 * k))"
    "resourceAmountFromFloat (Fin (x2 * k)) \<le> resourceAmountFromFloat (Fin (x3 * k))"
    "resourceAmountFromFloat (Fin (x3 * k)) \<le> MaxResourceAmount div 2"
proof -
  obtain x1 where 1: "decaying_Percentile h (5 / 10) = Inr x1" "0 \<le> x1" using decaying_weak.pct_ok [OF assms(1)] by blast
  obtain x2 where 2: "decaying_Percentile h (9 / 10) = Inr x2" using decaying_weak.pct_ok [OF assms(1)] by blast
  obtain x3 where 3: "decaying_Percentile h (95 / 100) = Inr x3" "x3 \<le> limit"
    using decaying_Percentile_limit [OF assms(1-3)] by blast
  have le: "x1 \<le> x2" "x2 \<le> x3"
    using decaying_weak.pct_mono [OF assms(1) _ 1(1) 2] decaying_weak.pct_mono [OF assms(1) _ 2 3(1)] by auto
  have "x3 * k \<le> 5 * 10 ^ 13" using mult_right_mono [OF 3(2) assms(5)] assms(4) by (simp add: mult.commute)
  then have "resourceAmountFromFloat (Fin (x3 * k)) \<le> MaxResourceAmount div 2"
    by (auto simp: resourceAmountFromFloat_Fin MaxResourceAmount_def floor_le_iff)
  then show ?thesis
    using that [OF 1(1) 2 3(1)] le assms(5) resourceAmountFromFloat_range
    by (simp add: resourceAmountFromFloat_mono mult_right_mono)
qed

lemma estimateContainerResources_ordered:
  assumes config: "percentile_limit (CPUHistogramOptions config) (10 ^ 10)"
      "percentile_limit (MemoryHistogramOptions config) (10 ^ 13)"
    and ok: "agg_ok config s" and f: "0 \<le> safetyMarginFraction flags" "safetyMarginFraction flags \<le> 1"
    and mins: "\<And>r. 0 \<le> lookup_default 0 mins r"
  shows "\<exists>e. estimateContainerResources (full_recommender flags mins) s = Inr e \<and>
    estimate_ordered mins (GetControlledResources s) e"
proof -
  let ?f = "safetyMarginFraction flags" and ?c = "getConfidence s"
  let ?mc = "lookup_default 0 mins ResourceCPU" and ?mm = "lookup_default 0 mins ResourceMemory"
  have inv: "decaying_inv (AggregateCPUUsage s)" "decaying_inv (AggregateMemoryPeaks s)"
    "options (dh_histogram (AggregateCPUUsage s)) = CPUHistogramOptions config"
    "options (dh_histogram (AggregateMemoryPeaks s)) = MemoryHistogramOptions config"
    using ok by (auto simp: agg_ok_def agg_histograms_def decaying_same_def NewAggregateContainerState_def
        NewDecayingHistogram_def NewHistogram_def)
  have c: "0 \<le> ?c" using ok getConfidence_nonneg by (simp add: agg_ok_def)
  obtain c1 c2 c3 where cpu: "decaying_Percentile (AggregateCPUUsage s) (5 / 10) = Inr c1"
    "decaying_Percentile (AggregateCPUUsage s) (9 / 10) = Inr c2"
    "decaying_Percentile (AggregateCPUUsage s) (95 / 100) = Inr c3"
    "0 \<le> CPUAmountFromCores c1" "CPUAmountFromCores c1 \<le> CPUAmountFromCores c2"
    "CPUAmountFromCores c2 \<le> CPUAmountFromCores c3" "CPUAmountFromCores c3 \<le> MaxResourceAmount div 2"
    unfolding CPUAmountFromCores_def
    by (rule amount_of_percentile [of "AggregateCPUUsage s" "10 ^ 10" 1000])
      (simp_all add: inv config(1) [simplified])
  obtain m1 m2 m3 where mem: "decaying_Percentile (AggregateMemoryPeaks s) (5 / 10) = Inr m1"
    "decaying_Percentile (AggregateMemoryPeaks s) (9 / 10) = Inr m2"
    "decaying_Percentile (AggregateMemoryPeaks s) (95 / 100) = Inr m3"
    "0 \<le> MemoryAmountFromBytes m1" "MemoryAmountFromBytes m1 \<le> MemoryAmountFromBytes m2"
    "MemoryAmountFromBytes m2 \<le> MemoryAmountFromBytes m3" "MemoryAmountFromBytes m3 \<le> MaxResourceAmount div 2"
    unfolding MemoryAmountFromBytes_def
    by (rule amount_of_percentile [of "AggregateMemoryPeaks s" "10 ^ 13" 1])
      (simp_all add: inv config(2) [simplified])
  let ?r = "full_recommender flags mins"
  have low: "GetResourceEstimation (lowerBoundEstimator ?r) s =
      Inr [(ResourceCPU, final_lower ?f ?mc ?c (CPUAmountFromCores c1)),
           (ResourceMemory, final_lower ?f ?mm ?c (MemoryAmountFromBytes m1))]"
    and tar: "GetResourceEstimation (targetEstimator ?r) s =
      Inr [(ResourceCPU, final_target ?f ?mc (CPUAmountFromCores c2)),
           (ResourceMemory, final_target ?f ?mm (MemoryAmountFromBytes m2))]"
    and upp: "GetResourceEstimation (upperBoundEstimator ?r) s =
      Inr [(ResourceCPU, final_upper ?f ?mc ?c (CPUAmountFromCores c3)),
           (ResourceMemory, final_upper ?f ?mm ?c (MemoryAmountFromBytes m3))]"
    unfolding full_recommender_def CreatePodResourceRecommender_def WithMinResources_def
      WithConfidenceMultiplier_def WithMargin_def NewPercentileEstimator_def Let_def
    by (simp_all only: podResourceRecommender.select_convs GetResourceEstimation.simps cpu mem rbind_simps
        map_values_def list.map prod.case final_lower_def final_target_def final_upper_def with_margin_def Let_def)
  show ?thesis
    using final_ordered [OF cpu(4-7) f c mins, of ResourceCPU] final_ordered [OF mem(4-7) f c mins, of ResourceMemory]
    by (auto simp: estimateContainerResources_def low tar upp estimate_ordered_def map_of_FilterControlledResources)
qed

lemma estimate_all_ordered:
  "(\<And>n s. (n, s) \<in> set m \<Longrightarrow> \<exists>e. estimateContainerResources r s = Inr e \<and> P s e) \<Longrightarrow>
   \<exists>es. estimate_all r m = Inr es \<and> list_all2 (\<lambda>(n, s) (n', e). n = n' \<and> P s e) m es"
proof (induction m)
  case (Cons x m)
  obtain n s where x: "x = (n, s)" by (cases x)
  obtain e where e: "estimateContainerResources r s = Inr e" "P s e" using Cons.prems [of n s] x by auto
  obtain es where "estimate_all r m = Inr es" "list_all2 (\<lambda>(n, s) (n', e). n = n' \<and> P s e) m es"
    using Cons.IH Cons.prems by auto
  then show ?case using e by (simp add: x)
qed simp

lemma GetRecommendedPodResources_ordered:
  assumes "NewAggregationsConfig i n mh ch = Inr config"
    and "\<forall>(name, s) \<in> set states. agg_ok config s"
    and "0 \<le> safetyMarginFraction flags" "safetyMarginFraction flags \<le> 1"
  shows "\<exists>es. GetRecommendedPodResources flags (CreatePodResourceRecommender flags) states = Inr es \<and>
    list_all2 (\<lambda>(name, s) (name', e). name = name' \<and>
      estimate_ordered (min_resources flags (length states)) (GetControlledResources s) e) states es"
proof (cases "states = []")
  case True
  then show ?thesis by (simp add: GetRecommendedPodResources_def)
next
  case False
  let ?mins = "min_resources flags (length states)"
  have mins: "0 \<le> lookup_default 0 ?mins r" for r
    by (simp add: min_resources_def lookup_default_def Let_def ScaleResource_nonneg)
  have eq: "GetRecommendedPodResources flags (CreatePodResourceRecommender flags) states =
      estimate_all (full_recommender flags ?mins) states"
    using False by (simp add: GetRecommendedPodResources_def full_recommender_def Let_def)
  show ?thesis unfolding eq
    by (rule estimate_all_ordered, rule estimateContainerResources_ordered [OF config_limits [OF assms(1)]])
      (use assms mins in auto)
qed

text \<open>
  C1. The recommendation is well ordered. For every set of aggregated container states the
  recommender returns, for each container in turn and exactly for its controlled resources among
  CPU and memory, a lower bound, a target and an upper bound with
  minimum share <= lower bound <= target <= upper bound. This includes containers without any
  history, where the confidence is 0 and the factor of the upper bound is infinite.
\<close>

theorem recommendation_ordered:
  assumes "NewAggregationsConfig i n mh ch = Inr config"
    and "\<forall>(name, s) \<in> set states. agg_ok config s"
    and "0 \<le> safetyMarginFraction flags" "safetyMarginFraction flags \<le> 1"
  shows "\<exists>es. GetRecommendedPodResources flags (CreatePodResourceRecommender flags) states = Inr es \<and>
    list_all2 (\<lambda>(name, s) (name', e). name = name' \<and>
      estimate_ordered (min_resources flags (length states)) (GetControlledResources s) e) states es"
  using assms by (rule GetRecommendedPodResources_ordered)

theorem recommendation_ordered_witness:
  "\<exists>config s es. agg_ok config s \<and> getConfidence s = 0 \<and>
     GetRecommendedPodResources default_flags (CreatePodResourceRecommender default_flags) [(''c'', s)] = Inr es \<and>
     length es = 1"
proof -
  obtain config where c: "NewAggregationsConfig (24 * hour) 8 (24 * hour) (24 * hour) = Inr config" "config_ok config"
    using NewAggregationsConfig_ok [of "24 * hour" "24 * hour" "24 * hour" 8]
    by (auto simp: hour_def minute_def second_def maxDecayExponent_def int64_max_def)
  let ?s = "NewAggregateContainerState config 0"
  have ok: "\<forall>(name, s) \<in> set [(''c'', ?s)]. agg_ok config s"
    using NewAggregateContainerState_ok [OF c(2)] by simp
  have "getConfidence ?s = 0"
    by (simp add: getConfidence_def NewAggregateContainerState_def time_Sub_def int64_min_def int64_max_def)
  moreover obtain es where es: "GetRecommendedPodResources default_flags
      (CreatePodResourceRecommender default_flags) [(''c'', ?s)] = Inr es" "length es = 1"
    using recommendation_ordered [OF c(1) ok, of default_flags] list_all2_lengthD
    by (fastforce simp: default_flags_def)
  ultimately show ?thesis using ok by auto
qed

end
