(* ===== verification/Vpa_Model.thy ===== *)
theory Vpa_Model
  imports Estimators
begin

text \<open>
  \<open>pkg/recommender/model/vpa.go\<close>: the VPA object of the recommender with its conditions, its links
  to aggregate states and its recommendation. Aggregate states are shared by pointer between the
  cluster state, the VPAs and the containers, so they live in a store (a list of states, indexed
  by address) that the operations take and return. The clock is an argument.
\<close>

section \<open>Conditions\<close>

type_synonym vpaConditionsMap = "(ConditionType, VerticalPodAutoscalerCondition) gomap"

definition conditions_Set ::
    "time \<Rightarrow> vpaConditionsMap \<Rightarrow> ConditionType \<Rightarrow> bool \<Rightarrow> string \<Rightarrow> string \<Rightarrow> vpaConditionsMap" where
  "conditions_Set now conditionsMap conditionType status reason message =
     (let st = (if status then ConditionTrue else ConditionFalse);
          transition = (case map_of conditionsMap conditionType of
                          Some old \<Rightarrow> if cond_Status old = st then LastTransitionTime old else now
                        | None \<Rightarrow> now)
      in AList.update conditionType
           \<lparr>cond_Type = conditionType, cond_Status = st, LastTransitionTime = transition,
            cond_Reason = reason, cond_Message = message\<rparr> conditionsMap)"

definition conditions_AsList :: "vpaConditionsMap \<Rightarrow> VerticalPodAutoscalerCondition list" where
  "conditions_AsList conditionsMap = sort_key cond_Type (map snd conditionsMap)"

definition ConditionActive :: "vpaConditionsMap \<Rightarrow> ConditionType \<Rightarrow> bool" where
  "ConditionActive conditionsMap conditionType =
     (case map_of conditionsMap conditionType of
        None \<Rightarrow> False | Some c \<Rightarrow> cond_Status c = ConditionTrue)"

section \<open>The VPA object\<close>

type_synonym store = "AggregateContainerState list"
type_synonym aggregateContainerStatesMap = "(AggregateStateKey, nat) gomap"

record Vpa =
  vpa_ID :: VpaID
  PodSelector :: Selector
  Annotations :: "(string, string) gomap"
  Conditions :: vpaConditionsMap
  Recommendation :: "RecommendedPodResources option"
  aggregateContainerStates :: aggregateContainerStatesMap
  vpa_ResourcePolicy :: "PodResourcePolicy option"
  ContainersInitialAggregateState :: ContainerNameToAggregateStateMap
  vpa_UpdateMode :: "UpdateMode option"
  Created :: time
  CheckpointWritten :: time
  vpa_TargetRef :: "CrossVersionObjectReference option"
  PodCount :: int

definition NewVpa :: "VpaID \<Rightarrow> Selector \<Rightarrow> time \<Rightarrow> Vpa" where
  "NewVpa vid selector created =
     \<lparr>vpa_ID = vid, PodSelector = selector, Annotations = [], Conditions = [], Recommendation = None,
      aggregateContainerStates = [], vpa_ResourcePolicy = None, ContainersInitialAggregateState = [],
      vpa_UpdateMode = None, Created = created, CheckpointWritten = zero_time, vpa_TargetRef = None,
      PodCount = 0\<rparr>"

definition UsesAggregation :: "Vpa \<Rightarrow> AggregateStateKey \<Rightarrow> bool" where
  "UsesAggregation vpa aggregationKey \<longleftrightarrow> map_of (aggregateContainerStates vpa) aggregationKey \<noteq> None"

text \<open>The labels of an aggregation key are those its label set key stands for.\<close>

definition matchesAggregation :: "Vpa \<Rightarrow> AggregateStateKey \<Rightarrow> labels \<Rightarrow> bool" where
  "matchesAggregation vpa aggregationKey ls =
     (if vid_Namespace (vpa_ID vpa) \<noteq> ak_namespace aggregationKey then False
      else Matches (PodSelector vpa) ls)"

definition UseAggregationIfMatching ::
    "Vpa \<Rightarrow> store \<Rightarrow> AggregateStateKey \<Rightarrow> labels \<Rightarrow> nat \<Rightarrow> Vpa \<times> store" where
  "UseAggregationIfMatching vpa st aggregationKey ls aggregation =
     (if UsesAggregation vpa aggregationKey then (vpa, st)
      else if matchesAggregation vpa aggregationKey ls
      then (vpa\<lparr>aggregateContainerStates :=
                  AList.update aggregationKey aggregation (aggregateContainerStates vpa)\<rparr>,
            st[aggregation :=
                 UpdateFromPolicy ((st ! aggregation)\<lparr>IsUnderVPA := True, acs_UpdateMode := vpa_UpdateMode vpa\<rparr>)
                   (GetContainerResourcePolicy (ak_containerName aggregationKey) (vpa_ResourcePolicy vpa))])
      else (vpa, st))"

text \<open>The change of a recommendation reported to the metrics.\<close>

record recommendation_change =
  rc_old :: "ResourceList option"
  rc_new :: ResourceList
  rc_mode :: "UpdateMode option"
  rc_count :: int

definition record_recommendation ::
    "Vpa \<Rightarrow> RecommendedContainerResources \<Rightarrow> AggregateStateKey \<times> nat \<Rightarrow>
     store \<times> recommendation_change list \<Rightarrow> store \<times> recommendation_change list" where
  "record_recommendation vpa rec entry acc =
     (let (container, addr) = entry; (st, changes) = acc in
      if ak_containerName container = rcr_ContainerName rec
      then (st[addr := (st ! addr)\<lparr>LastRecommendation := Some (UncappedTarget rec)\<rparr>],
            changes @ [\<lparr>rc_old = LastRecommendation (st ! addr), rc_new = UncappedTarget rec,
                        rc_mode = vpa_UpdateMode vpa, rc_count = PodCount vpa\<rparr>])
      else acc)"

definition UpdateRecommendation ::
    "Vpa \<Rightarrow> store \<Rightarrow> RecommendedPodResources \<Rightarrow> Vpa \<times> store \<times> recommendation_change list" where
  "UpdateRecommendation vpa st recommendation =
     (let (st', changes) =
            fold (\<lambda>rec. fold (record_recommendation vpa rec) (aggregateContainerStates vpa))
              recommendation (st, [])
      in (vpa\<lparr>Recommendation := Some recommendation\<rparr>, st', changes))"

definition DeleteAggregation :: "Vpa \<Rightarrow> store \<Rightarrow> AggregateStateKey \<Rightarrow> Vpa \<times> store" where
  "DeleteAggregation vpa st aggregationKey =
     (case map_of (aggregateContainerStates vpa) aggregationKey of
        None \<Rightarrow> (vpa, st)
      | Some addr \<Rightarrow>
          (vpa\<lparr>aggregateContainerStates := AList.delete aggregationKey (aggregateContainerStates vpa)\<rparr>,
           st[addr := MarkNotAutoscaled (st ! addr)]))"

text \<open>Merging the checkpoints; the checkpointed states are renormalised on the way.\<close>

fun merge_checkpoints ::
    "AggregationsConfig \<Rightarrow> time \<Rightarrow> ContainerNameToAggregateStateMap \<Rightarrow> ContainerNameToAggregateStateMap \<Rightarrow>
     (ContainerNameToAggregateStateMap \<times> ContainerNameToAggregateStateMap) result" where
  "merge_checkpoints config now [] m = Inr (m, [])"
| "merge_checkpoints config now ((containerName, aggregation) # rest) m =
     (let state = (case map_of m containerName of
                     Some s \<Rightarrow> s | None \<Rightarrow> NewAggregateContainerState config now)
      in rbind (MergeContainerState state aggregation) (\<lambda>(state', aggregation').
         rbind (merge_checkpoints config now rest (AList.update containerName state' m)) (\<lambda>(m', rest').
           Inr (m', (containerName, aggregation') # rest'))))"

definition MergeCheckpointedState ::
    "AggregationsConfig \<Rightarrow> time \<Rightarrow> Vpa \<Rightarrow> ContainerNameToAggregateStateMap \<Rightarrow>
     (ContainerNameToAggregateStateMap \<times> Vpa) result" where
  "MergeCheckpointedState config now vpa m =
     rbind (merge_checkpoints config now (ContainersInitialAggregateState vpa) m) (\<lambda>(m', initial).
       Inr (m', vpa\<lparr>ContainersInitialAggregateState := initial\<rparr>))"

text \<open>
  The states by container name, and the VPA and the store as renormalising leaves them.
\<close>

definition vpa_AggregateStateByContainerName ::
    "AggregationsConfig \<Rightarrow> time \<Rightarrow> Vpa \<Rightarrow> store \<Rightarrow>
     (ContainerNameToAggregateStateMap \<times> Vpa \<times> store) result" where
  "vpa_AggregateStateByContainerName config now vpa st =
     rbind (AggregateStateByContainerName config now
              (map_values (\<lambda>_ addr. st ! addr) (aggregateContainerStates vpa))) (\<lambda>(m, ins).
       let st' = fold (\<lambda>((_, addr), (_, a)) s. s[addr := a]) (zip (aggregateContainerStates vpa) ins) st
       in rbind (MergeCheckpointedState config now vpa m) (\<lambda>(m', vpa'). Inr (m', vpa', st')))"

definition HasRecommendation :: "Vpa \<Rightarrow> bool" where
  "HasRecommendation vpa \<longleftrightarrow> Recommendation vpa \<noteq> None \<and> 0 < length (list_of (Recommendation vpa))"

text \<open>
  \<open>SetResourcePolicy\<close> and \<open>SetUpdateMode\<close> return early when they are given the very pointer the VPA
  already has. Whether a pointer is the same one is an argument; equal pointers have equal values.
\<close>

definition SetResourcePolicy ::
    "bool \<Rightarrow> Vpa \<Rightarrow> store \<Rightarrow> PodResourcePolicy option \<Rightarrow> Vpa \<times> store" where
  "SetResourcePolicy samePointer vpa st resourcePolicy =
     (if resourcePolicy = vpa_ResourcePolicy vpa \<and> (samePointer \<or> resourcePolicy = None) then (vpa, st)
      else (vpa\<lparr>vpa_ResourcePolicy := resourcePolicy\<rparr>,
            fold (\<lambda>(container, addr) s.
                    s[addr := UpdateFromPolicy (s ! addr)
                                (GetContainerResourcePolicy (ak_containerName container) resourcePolicy)])
              (aggregateContainerStates vpa) st))"

definition SetUpdateMode :: "bool \<Rightarrow> Vpa \<Rightarrow> store \<Rightarrow> PodUpdatePolicy option \<Rightarrow> Vpa \<times> store" where
  "SetUpdateMode samePointer vpa st updatePolicy =
     (let set_all = (\<lambda>mode. (vpa\<lparr>vpa_UpdateMode := mode\<rparr>,
            fold (\<lambda>(_, addr) s. s[addr := (s ! addr)\<lparr>acs_UpdateMode := mode\<rparr>])
              (aggregateContainerStates vpa) st))
      in case updatePolicy of
           None \<Rightarrow> set_all None
         | Some mode \<Rightarrow>
             if mode = vpa_UpdateMode vpa \<and> (samePointer \<or> mode = None) then (vpa, st) else set_all mode)"

definition UpdateConditions :: "time \<Rightarrow> Vpa \<Rightarrow> bool \<Rightarrow> Vpa" where
  "UpdateConditions now vpa podsMatched =
     (let reason = (if podsMatched then [] else ''NoPodsMatched'');
          msg = (if podsMatched then [] else ''No pods match this VPA object'');
          c1 = (if podsMatched then AList.delete NoPodsMatched (Conditions vpa)
                else conditions_Set now (Conditions vpa) NoPodsMatched True reason msg);
          c2 = (if HasRecommendation vpa then conditions_Set now c1 RecommendationProvided True [] []
                else conditions_Set now c1 RecommendationProvided False reason msg)
      in vpa\<lparr>Conditions := c2\<rparr>)"

definition AsStatus :: "Vpa \<Rightarrow> VerticalPodAutoscalerStatus" where
  "AsStatus vpa =
     \<lparr>st_Recommendation = Recommendation vpa, st_Conditions = conditions_AsList (Conditions vpa)\<rparr>"

definition HasMatchedPods :: "Vpa \<Rightarrow> bool" where
  "HasMatchedPods vpa =
     (case map_of (Conditions vpa) NoPodsMatched of
        Some c \<Rightarrow> cond_Status c \<noteq> ConditionTrue | None \<Rightarrow> True)"

section \<open>Properties of the conditions\<close>

lemma condition_names [simp]:
  "NoPodsMatched \<noteq> RecommendationProvided" "RecommendationProvided \<noteq> NoPodsMatched"
  "ConditionTrue \<noteq> ConditionFalse" "ConditionFalse \<noteq> ConditionTrue"
  by (simp_all add: NoPodsMatched_def RecommendationProvided_def ConditionTrue_def ConditionFalse_def)

lemma conditions_Set_lookup:
  "map_of (conditions_Set now m t status reason msg) t' =
     (if t' = t then Some \<lparr>cond_Type = t, cond_Status = (if status then ConditionTrue else ConditionFalse),
          LastTransitionTime = (case map_of m t of
              Some old \<Rightarrow> if cond_Status old = (if status then ConditionTrue else ConditionFalse)
                          then LastTransitionTime old else now
            | None \<Rightarrow> now),
          cond_Reason = reason, cond_Message = msg\<rparr>
      else map_of m t')"
  by (simp add: conditions_Set_def Let_def)

lemma gomap_ok_conditions_Set [simp]: "gomap_ok m \<Longrightarrow> gomap_ok (conditions_Set now m t s r msg)"
  by (simp add: conditions_Set_def Let_def)

text \<open>
  After \<open>UpdateConditions\<close> the conditions say what the VPA is in: whether pods matched,
  whether there is a recommendation, and every condition that keeps its status keeps the time of
  its last transition. The list put into the status has every condition once, ordered by type.
\<close>

theorem UpdateConditions_correct:
  assumes "gomap_ok (Conditions vpa)"
    and "\<forall>t c. map_of (Conditions vpa) t = Some c \<longrightarrow> cond_Type c = t"
  shows "let v = UpdateConditions now vpa podsMatched in
    HasMatchedPods v = podsMatched \<and>
    ConditionActive (Conditions v) RecommendationProvided = HasRecommendation vpa \<and>
    (\<forall>t c c'. map_of (Conditions vpa) t = Some c \<and> map_of (Conditions v) t = Some c' \<and>
       cond_Status c = cond_Status c' \<longrightarrow> LastTransitionTime c = LastTransitionTime c') \<and>
    sorted_wrt (\<lambda>c d. cond_Type c < cond_Type d) (st_Conditions (AsStatus v)) \<and>
    set (st_Conditions (AsStatus v)) = {c. \<exists>t. map_of (Conditions v) t = Some c}"
proof -
  define v where "v = UpdateConditions now vpa podsMatched"
  have look: "map_of (Conditions v) t =
      (if t = RecommendationProvided then Some \<lparr>cond_Type = RecommendationProvided,
         cond_Status = (if HasRecommendation vpa then ConditionTrue else ConditionFalse),
         LastTransitionTime = (case map_of (Conditions vpa) RecommendationProvided of
              Some old \<Rightarrow> if cond_Status old = (if HasRecommendation vpa then ConditionTrue else ConditionFalse)
                          then LastTransitionTime old else now
            | None \<Rightarrow> now),
         cond_Reason = (if HasRecommendation vpa \<or> podsMatched then [] else ''NoPodsMatched''),
         cond_Message = (if HasRecommendation vpa \<or> podsMatched then [] else ''No pods match this VPA object'')\<rparr>
       else if t = NoPodsMatched then (if podsMatched then None else Some \<lparr>cond_Type = NoPodsMatched,
         cond_Status = ConditionTrue,
         LastTransitionTime = (case map_of (Conditions vpa) NoPodsMatched of
              Some old \<Rightarrow> if cond_Status old = ConditionTrue then LastTransitionTime old else now
            | None \<Rightarrow> now),
         cond_Reason = ''NoPodsMatched'', cond_Message = ''No pods match this VPA object''\<rparr>)
       else map_of (Conditions vpa) t)" for t
    by (auto simp: v_def UpdateConditions_def Let_def conditions_Set_lookup)
  have ok: "gomap_ok (Conditions v)"
    using assms(1) by (auto simp: v_def UpdateConditions_def Let_def)
  have types: "cond_Type c = t" if "map_of (Conditions v) t = Some c" for t c
    using that assms(2) by (auto simp: look split: if_splits)
  have tys: "map (cond_Type \<circ> snd) (Conditions v) = map fst (Conditions v)"
    using types ok in_set_map_of [of "Conditions v"] by (auto intro!: map_cong)
  then have "distinct (map cond_Type (map snd (Conditions v)))"
    using ok unfolding gomap_ok_def map_map by (simp only:)
  then have "distinct (map cond_Type (conditions_AsList (Conditions v)))"
    unfolding conditions_AsList_def by (metis mset_eq_imp_distinct_iff mset_map mset_sort)
  moreover have "sorted (map cond_Type (conditions_AsList (Conditions v)))"
    by (simp add: conditions_AsList_def)
  ultimately have "sorted_wrt (<) (map cond_Type (conditions_AsList (Conditions v)))"
    by (simp add: strict_sorted_iff)
  then have srt: "sorted_wrt (\<lambda>c d. cond_Type c < cond_Type d) (st_Conditions (AsStatus v))"
    by (simp add: AsStatus_def sorted_wrt_map)
  have "set (st_Conditions (AsStatus v)) = snd ` set (Conditions v)"
    by (simp add: AsStatus_def conditions_AsList_def)
  then have st: "set (st_Conditions (AsStatus v)) = {c. \<exists>t. map_of (Conditions v) t = Some c}"
    unfolding in_set_map_of [OF ok, symmetric] by force
  have keep: "\<forall>t c c'. map_of (Conditions vpa) t = Some c \<and> map_of (Conditions v) t = Some c' \<and>
       cond_Status c = cond_Status c' \<longrightarrow> LastTransitionTime c = LastTransitionTime c'"
    by (auto simp: look)
  have "HasMatchedPods v = podsMatched" "ConditionActive (Conditions v) RecommendationProvided = HasRecommendation vpa"
    by (auto simp: HasMatchedPods_def ConditionActive_def look)
  then show ?thesis using srt st keep by (simp only: v_def Let_def)
qed

theorem UpdateConditions_correct_witness:
  "HasMatchedPods (UpdateConditions 9 (NewVpa \<lparr>vid_Namespace = ''ns'', VpaName = ''v''\<rparr> NothingSelector 1) False) = False"
  using UpdateConditions_correct [of "NewVpa \<lparr>vid_Namespace = ''ns'', VpaName = ''v''\<rparr> NothingSelector 1" 9 False]
  by (simp add: NewVpa_def Let_def)

end
