(* ===== verification/Cluster_State.thy ===== *)
theory Cluster_State
  imports Vpa_Model
begin

text \<open>
  \<open>pkg/recommender/model/cluster.go\<close>: pods with their containers, VPAs, and the map of aggregate
  states, with every operation on them. The aggregate states are in the store \<open>cs_store\<close>; the map
  \<open>aggregateStateMap\<close>, the VPAs and containers with a direct reference hold addresses, which is how
  the code shares them. An address is never reused. The aggregator of a container is implemented
  over the cluster state, by a proxy that finds or creates the aggregate, or by a direct reference.
\<close>

section \<open>State\<close>

definition label_String :: "labels \<Rightarrow> string" where
  "label_String ls = join '','' (sort (map (\<lambda>(k, v). k @ ''='' @ v) ls))"

record PodState =
  ps_ID :: PodID
  ps_labelSetKey :: string
  Containers :: "(string, ContainerState) gomap"
  ps_Phase :: PodPhase

record ClusterState =
  Pods :: "(PodID, PodState) gomap"
  Vpas :: "(VpaID, Vpa) gomap"
  EmptyVPAs :: "(VpaID, time) gomap"
  ObservedVpas :: "VerticalPodAutoscaler list"
  aggregateStateMap :: aggregateContainerStatesMap
  labelSetMap :: "(string, labels) gomap"
  cs_store :: store

definition RecommendationMissingMaxDuration :: duration where
  "RecommendationMissingMaxDuration = 30 * minute"

definition StateMapSize :: "ClusterState \<Rightarrow> nat" where
  "StateMapSize cluster = length (aggregateStateMap cluster)"

definition NewClusterState :: ClusterState where
  "NewClusterState =
     \<lparr>Pods = [], Vpas = [], EmptyVPAs = [], ObservedVpas = [], aggregateStateMap = [],
      labelSetMap = [], cs_store = []\<rparr>"

definition newPod :: "PodID \<Rightarrow> PodState" where
  "newPod pid = \<lparr>ps_ID = pid, ps_labelSetKey = [], Containers = [], ps_Phase = []\<rparr>"

section \<open>Aggregate states of containers\<close>

definition getLabelSetKey :: "ClusterState \<Rightarrow> labels \<Rightarrow> string \<times> ClusterState" where
  "getLabelSetKey cluster labelSet =
     (let k = label_String labelSet
      in (k, cluster\<lparr>labelSetMap := AList.update k labelSet (labelSetMap cluster)\<rparr>))"

definition MakeAggregateStateKey :: "PodState \<Rightarrow> string \<Rightarrow> AggregateStateKey" where
  "MakeAggregateStateKey pod containerName =
     \<lparr>ak_namespace = pid_Namespace (ps_ID pod), ak_containerName = containerName,
      ak_labelSetKey = ps_labelSetKey pod\<rparr>"

definition key_Labels :: "ClusterState \<Rightarrow> AggregateStateKey \<Rightarrow> labels" where
  "key_Labels cluster k = lookup_default [] (labelSetMap cluster) (ak_labelSetKey k)"

definition aggregateStateKeyForContainerID :: "ClusterState \<Rightarrow> ContainerID \<Rightarrow> AggregateStateKey result" where
  "aggregateStateKeyForContainerID cluster containerID =
     (case map_of (Pods cluster) (cid_PodID containerID) of
        None \<Rightarrow> Inl (Panic ''Pod not present in the ClusterState'')
      | Some pod \<Rightarrow> Inr (MakeAggregateStateKey pod (cid_ContainerName containerID)))"

text \<open>Linking one aggregation with every VPA, in iteration order.\<close>

fun link_vpas ::
    "AggregateStateKey \<Rightarrow> labels \<Rightarrow> nat \<Rightarrow> (VpaID \<times> Vpa) list \<Rightarrow> store \<Rightarrow> (VpaID \<times> Vpa) list \<times> store" where
  "link_vpas k ls addr [] st = ([], st)"
| "link_vpas k ls addr ((vid, vpa) # rest) st =
     (let (vpa', st1) = UseAggregationIfMatching vpa st k ls addr;
          (rest', st2) = link_vpas k ls addr rest st1
      in ((vid, vpa') # rest', st2))"

definition findOrCreateAggregateContainerState ::
    "AggregationsConfig \<Rightarrow> time \<Rightarrow> ClusterState \<Rightarrow> ContainerID \<Rightarrow> (nat \<times> ClusterState) result" where
  "findOrCreateAggregateContainerState config now cluster containerID =
     rbind (aggregateStateKeyForContainerID cluster containerID) (\<lambda>k.
       case map_of (aggregateStateMap cluster) k of
         Some addr \<Rightarrow> Inr (addr, cluster)
       | None \<Rightarrow>
           let addr = length (cs_store cluster);
               st = cs_store cluster @ [NewAggregateContainerState config now];
               (vpas, st') = link_vpas k (key_Labels cluster k) addr (Vpas cluster) st
           in Inr (addr, cluster\<lparr>aggregateStateMap := AList.update k addr (aggregateStateMap cluster),
                                 Vpas := vpas, cs_store := st'\<rparr>))"

text \<open>The two implementations of the aggregator interface.\<close>

definition locate_aggregate ::
    "AggregationsConfig \<Rightarrow> time \<Rightarrow> aggregator_ref \<Rightarrow> ClusterState \<Rightarrow> (nat \<times> ClusterState) result" where
  "locate_aggregate config now r cluster =
     (case r of
        ContainerStateAggregatorProxy containerID \<Rightarrow>
          findOrCreateAggregateContainerState config now cluster containerID
      | AggregateRef addr \<Rightarrow> Inr (addr, cluster))"

definition cluster_aggregator ::
    "AggregationsConfig \<Rightarrow> time \<Rightarrow> aggregator_ref \<Rightarrow> ClusterState ContainerStateAggregator" where
  "cluster_aggregator config now r =
     (let update = (\<lambda>f cluster sample. rbind (locate_aggregate config now r cluster) (\<lambda>(addr, cluster).
            rbind (f (cs_store cluster ! addr) sample) (\<lambda>a.
              Inr (cluster\<lparr>cs_store := (cs_store cluster)[addr := a]\<rparr>))))
      in \<lparr>op_AddSample = update agg_AddSample, op_SubtractSample = update agg_SubtractSample,
          op_GetLastRecommendation = (\<lambda>cluster. rbind (locate_aggregate config now r cluster) (\<lambda>(addr, cluster).
            Inr (GetLastRecommendation (cs_store cluster ! addr), cluster))),
          op_NeedsRecommendation = (\<lambda>cluster. rbind (locate_aggregate config now r cluster) (\<lambda>(addr, cluster).
            Inr (NeedsRecommendation (cs_store cluster ! addr), cluster))),
          op_GetUpdateMode = (\<lambda>cluster. rbind (locate_aggregate config now r cluster) (\<lambda>(addr, cluster).
            Inr (agg_GetUpdateMode (cs_store cluster ! addr), cluster)))\<rparr>)"

section \<open>Pods\<close>

definition pod_matches_vpa :: "ClusterState \<Rightarrow> string \<Rightarrow> string \<Rightarrow> Vpa \<Rightarrow> bool" where
  "pod_matches_vpa cluster podNamespace podLabelSetKey vpa =
     PodLabelsMatchVPA podNamespace (lookup_default [] (labelSetMap cluster) podLabelSetKey)
       (vid_Namespace (vpa_ID vpa)) (PodSelector vpa)"

definition addPodToItsVpa :: "ClusterState \<Rightarrow> PodState \<Rightarrow> ClusterState" where
  "addPodToItsVpa cluster pod =
     cluster\<lparr>Vpas := map_values (\<lambda>_ vpa.
        if pod_matches_vpa cluster (pid_Namespace (ps_ID pod)) (ps_labelSetKey pod) vpa
        then vpa\<lparr>PodCount := PodCount vpa + 1\<rparr> else vpa) (Vpas cluster)\<rparr>"

definition removePodFromItsVpa :: "ClusterState \<Rightarrow> PodState \<Rightarrow> ClusterState" where
  "removePodFromItsVpa cluster pod =
     cluster\<lparr>Vpas := map_values (\<lambda>_ vpa.
        if pod_matches_vpa cluster (pid_Namespace (ps_ID pod)) (ps_labelSetKey pod) vpa
        then vpa\<lparr>PodCount := PodCount vpa - 1\<rparr> else vpa) (Vpas cluster)\<rparr>"

text \<open>
  The loop over the containers of a pod whose labels changed: each container gets a direct
  reference to the aggregate state of its new key.
\<close>

fun relink_containers ::
    "AggregationsConfig \<Rightarrow> time \<Rightarrow> PodID \<Rightarrow> (string \<times> ContainerState) list \<Rightarrow> ClusterState \<Rightarrow>
     ((string \<times> ContainerState) list \<times> ClusterState) result" where
  "relink_containers config now podID [] cluster = Inr ([], cluster)"
| "relink_containers config now podID ((containerName, container) # rest) cluster =
     rbind (findOrCreateAggregateContainerState config now cluster
              \<lparr>cid_PodID = podID, cid_ContainerName = containerName\<rparr>) (\<lambda>(addr, cluster).
     rbind (relink_containers config now podID rest cluster) (\<lambda>(rest', cluster).
       Inr ((containerName, container\<lparr>aggregator := AggregateRef addr\<rparr>) # rest', cluster)))"

definition AddOrUpdatePod ::
    "AggregationsConfig \<Rightarrow> time \<Rightarrow> ClusterState \<Rightarrow> PodID \<Rightarrow> labels \<Rightarrow> PodPhase \<Rightarrow> ClusterState result" where
  "AddOrUpdatePod config now cluster podID newLabels phase =
     (let podExists = (map_of (Pods cluster) podID \<noteq> None);
          pod = (case map_of (Pods cluster) podID of Some p \<Rightarrow> p | None \<Rightarrow> newPod podID);
          c1 = (if podExists then cluster else cluster\<lparr>Pods := AList.update podID pod (Pods cluster)\<rparr>);
          (newlabelSetKey, c2) = getLabelSetKey c1 newLabels;
          c3 = (if podExists \<and> ps_labelSetKey pod \<noteq> newlabelSetKey then removePodFromItsVpa c2 pod else c2)
      in if \<not> podExists \<or> ps_labelSetKey pod \<noteq> newlabelSetKey
         then let pod1 = pod\<lparr>ps_labelSetKey := newlabelSetKey\<rparr>;
                  c4 = c3\<lparr>Pods := AList.update podID pod1 (Pods c3)\<rparr>
              in rbind (relink_containers config now podID (Containers pod1) c4) (\<lambda>(containers, c5).
                   let pod2 = pod1\<lparr>Containers := containers\<rparr>;
                       c6 = addPodToItsVpa c5 pod2
                   in Inr (c6\<lparr>Pods := AList.update podID (pod2\<lparr>ps_Phase := phase\<rparr>) (Pods c6)\<rparr>))
         else Inr (c3\<lparr>Pods := AList.update podID (pod\<lparr>ps_Phase := phase\<rparr>) (Pods c3)\<rparr>))"

definition GetContainer :: "ClusterState \<Rightarrow> ContainerID \<Rightarrow> ContainerState option" where
  "GetContainer cluster containerID =
     (case map_of (Pods cluster) (cid_PodID containerID) of
        None \<Rightarrow> None
      | Some pod \<Rightarrow> map_of (Containers pod) (cid_ContainerName containerID))"

definition DeletePod :: "ClusterState \<Rightarrow> PodID \<Rightarrow> ClusterState" where
  "DeletePod cluster podID =
     (let c1 = (case map_of (Pods cluster) podID of
                  Some pod \<Rightarrow> removePodFromItsVpa cluster pod | None \<Rightarrow> cluster)
      in c1\<lparr>Pods := AList.delete podID (Pods c1)\<rparr>)"

definition update_container :: "ClusterState \<Rightarrow> ContainerID \<Rightarrow> ContainerState \<Rightarrow> ClusterState" where
  "update_container cluster containerID container =
     (case map_of (Pods cluster) (cid_PodID containerID) of
        None \<Rightarrow> cluster
      | Some pod \<Rightarrow> cluster\<lparr>Pods := AList.update (cid_PodID containerID)
          (pod\<lparr>Containers := AList.update (cid_ContainerName containerID) container (Containers pod)\<rparr>)
          (Pods cluster)\<rparr>)"

text \<open>An operation that returns an \<open>error\<close> returns it with the state; a panic is the left value.\<close>

definition AddOrUpdateContainer ::
    "AggregationsConfig \<Rightarrow> time \<Rightarrow> ClusterState \<Rightarrow> ContainerID \<Rightarrow> Resources \<Rightarrow>
     (go_error option \<times> ClusterState) result" where
  "AddOrUpdateContainer config now cluster containerID request =
     (case map_of (Pods cluster) (cid_PodID containerID) of
        None \<Rightarrow> Inr (Some (KeyError (PodName (cid_PodID containerID))), cluster)
      | Some pod \<Rightarrow> (case map_of (Containers pod) (cid_ContainerName containerID) of
            None \<Rightarrow>
              rbind (findOrCreateAggregateContainerState config now cluster containerID) (\<lambda>(_, cluster).
                Inr (None, update_container cluster containerID
                  (NewContainerState request (ContainerStateAggregatorProxy containerID))))
          | Some container \<Rightarrow>
              Inr (None, update_container cluster containerID (container\<lparr>cst_Request := request\<rparr>))))"

definition cluster_AddSample ::
    "AggregationsConfig \<Rightarrow> time \<Rightarrow> ClusterState \<Rightarrow> ContainerID \<Rightarrow> ContainerUsageSample \<Rightarrow>
     (go_error option \<times> ClusterState \<times> quality list) result" where
  "cluster_AddSample config now cluster containerID sample =
     (case map_of (Pods cluster) (cid_PodID containerID) of
        None \<Rightarrow> Inr (Some (KeyError (PodName (cid_PodID containerID))), cluster, [])
      | Some pod \<Rightarrow> (case map_of (Containers pod) (cid_ContainerName containerID) of
            None \<Rightarrow> Inr (Some (KeyError (cid_ContainerName containerID)), cluster, [])
          | Some container \<Rightarrow>
              rbind (container_AddSample config (cluster_aggregator config now (aggregator container))
                       container cluster sample) (\<lambda>(added, container', cluster', obs).
                Inr (if added then None else Some (Err ''sample discarded (invalid or out of order)''),
                     update_container cluster' containerID container', obs))))"

definition cluster_RecordOOM ::
    "AggregationsConfig \<Rightarrow> time \<Rightarrow> ClusterState \<Rightarrow> ContainerID \<Rightarrow> time \<Rightarrow> ResourceAmount \<Rightarrow>
     (go_error option \<times> ClusterState \<times> quality list) result" where
  "cluster_RecordOOM config now cluster containerID timestamp requestedMemory =
     (case map_of (Pods cluster) (cid_PodID containerID) of
        None \<Rightarrow> Inr (Some (KeyError (PodName (cid_PodID containerID))), cluster, [])
      | Some pod \<Rightarrow> (case map_of (Containers pod) (cid_ContainerName containerID) of
            None \<Rightarrow> Inr (Some (KeyError (cid_ContainerName containerID)), cluster, [])
          | Some container \<Rightarrow>
              rbind (RecordOOM config (cluster_aggregator config now (aggregator container))
                       container cluster timestamp requestedMemory) (\<lambda>(err, container', cluster', obs).
                Inr (case err of None \<Rightarrow> None | Some _ \<Rightarrow> Some (Err ''error while recording OOM''),
                     update_container cluster' containerID container', obs))))"

section \<open>VPAs\<close>

definition GetMatchingPods :: "ClusterState \<Rightarrow> Vpa \<Rightarrow> PodID list" where
  "GetMatchingPods cluster vpa =
     map fst (filter (\<lambda>(podID, pod).
       pod_matches_vpa cluster (pid_Namespace podID) (ps_labelSetKey pod) vpa) (Pods cluster))"

definition DeleteVpa :: "ClusterState \<Rightarrow> VpaID \<Rightarrow> go_error option \<times> ClusterState" where
  "DeleteVpa cluster vpaID =
     (case map_of (Vpas cluster) vpaID of
        None \<Rightarrow> (Some (KeyError (VpaName vpaID)), cluster)
      | Some vpa \<Rightarrow>
          (None, cluster\<lparr>cs_store := fold (\<lambda>(_, addr) s. s[addr := MarkNotAutoscaled (s ! addr)])
                           (aggregateContainerStates vpa) (cs_store cluster),
                         Vpas := AList.delete vpaID (Vpas cluster),
                         EmptyVPAs := AList.delete vpaID (EmptyVPAs cluster)\<rparr>))"

definition link_aggregations ::
    "ClusterState \<Rightarrow> (AggregateStateKey \<times> nat) list \<Rightarrow> Vpa \<times> store \<Rightarrow> Vpa \<times> store" where
  "link_aggregations cluster aggs acc =
     fold (\<lambda>(k, addr) (vpa, st). UseAggregationIfMatching vpa st k (key_Labels cluster k) addr) aggs acc"

definition status_conditions :: "VerticalPodAutoscaler \<Rightarrow> vpaConditionsMap" where
  "status_conditions apiObject =
     fold (\<lambda>condition m. AList.update (cond_Type condition) condition m) (st_Conditions (vpa_Status apiObject)) []"

text \<open>
  \<open>sameMode\<close> and \<open>samePolicy\<close> tell whether the object still has the pointers of the last call.
\<close>

definition AddOrUpdateVpa ::
    "bool \<Rightarrow> bool \<Rightarrow> ClusterState \<Rightarrow> VerticalPodAutoscaler \<Rightarrow> Selector \<Rightarrow> go_error option \<times> ClusterState" where
  "AddOrUpdateVpa sameMode samePolicy cluster apiObject selector =
     (let vpaID = \<lparr>vid_Namespace = vpa_Namespace apiObject, VpaName = vpa_Name apiObject\<rparr>;
          conditionsMap = status_conditions apiObject;
          currentRecommendation =
            (if ConditionActive conditionsMap RecommendationProvided
             then st_Recommendation (vpa_Status apiObject) else None);
          changed = (case map_of (Vpas cluster) vpaID of
                       Some vpa \<Rightarrow> Selector_String (PodSelector vpa) \<noteq> Selector_String selector
                     | None \<Rightarrow> False);
          c1 = (if changed then snd (DeleteVpa cluster vpaID) else cluster);
          (vpa, c2) =
            (case map_of (Vpas c1) vpaID of
               Some vpa \<Rightarrow> (vpa, c1)
             | None \<Rightarrow>
                 let (vpa, st) = link_aggregations c1 (aggregateStateMap c1)
                       (NewVpa vpaID selector (CreationTimestamp apiObject), cs_store c1)
                 in (vpa\<lparr>PodCount := int (length (GetMatchingPods c1 vpa))\<rparr>, c1\<lparr>cs_store := st\<rparr>));
          vpa1 = vpa\<lparr>vpa_TargetRef := TargetRef (vpa_Spec apiObject), Annotations := vpa_Annotations apiObject,
                     Conditions := conditionsMap, Recommendation := currentRecommendation\<rparr>;
          (vpa2, st2) = SetUpdateMode sameMode vpa1 (cs_store c2) (UpdatePolicy (vpa_Spec apiObject));
          (vpa3, st3) = SetResourcePolicy samePolicy vpa2 st2 (ResourcePolicy (vpa_Spec apiObject))
      in (None, c2\<lparr>Vpas := AList.update vpaID vpa3 (Vpas c2), cs_store := st3\<rparr>))"

section \<open>Garbage collection\<close>

definition PodSucceeded :: PodPhase where "PodSucceeded = ''Succeeded''"
definition PodFailed :: PodPhase where "PodFailed = ''Failed''"

definition getActiveAggregateStateKeys :: "ClusterState \<Rightarrow> AggregateStateKey list" where
  "getActiveAggregateStateKeys cluster =
     concat (map (\<lambda>(_, pod).
       if ps_Phase pod = PodSucceeded \<or> ps_Phase pod = PodFailed then []
       else map (\<lambda>(container, _). MakeAggregateStateKey pod container) (Containers pod)) (Pods cluster))"

definition keys_to_delete :: "AggregationsConfig \<Rightarrow> time \<Rightarrow> ClusterState \<Rightarrow> AggregateStateKey list" where
  "keys_to_delete config now cluster =
     (let activeKeys = getActiveAggregateStateKeys cluster in
      map fst (filter (\<lambda>(k, addr).
        (k \<notin> set activeKeys \<and> agg_isEmpty (cs_store cluster ! addr)) \<or>
        isExpired config (cs_store cluster ! addr) now) (aggregateStateMap cluster)))"

fun unlink_vpas ::
    "AggregateStateKey \<Rightarrow> (VpaID \<times> Vpa) list \<Rightarrow> store \<Rightarrow> (VpaID \<times> Vpa) list \<times> store" where
  "unlink_vpas k [] st = ([], st)"
| "unlink_vpas k ((vid, vpa) # rest) st =
     (let (vpa', st1) = DeleteAggregation vpa st k; (rest', st2) = unlink_vpas k rest st1
      in ((vid, vpa') # rest', st2))"

definition delete_key :: "AggregateStateKey \<Rightarrow> ClusterState \<Rightarrow> ClusterState" where
  "delete_key k cluster =
     (let (vpas, st) = unlink_vpas k (Vpas cluster) (cs_store cluster)
      in cluster\<lparr>aggregateStateMap := AList.delete k (aggregateStateMap cluster), Vpas := vpas, cs_store := st\<rparr>)"

definition GarbageCollectAggregateCollectionStates ::
    "AggregationsConfig \<Rightarrow> ClusterState \<Rightarrow> time \<Rightarrow> ClusterState" where
  "GarbageCollectAggregateCollectionStates config cluster now =
     fold delete_key (keys_to_delete config now cluster) cluster"

definition RecordRecommendation :: "ClusterState \<Rightarrow> Vpa \<Rightarrow> time \<Rightarrow> go_error option \<times> ClusterState" where
  "RecordRecommendation cluster vpa now =
     (if Recommendation vpa \<noteq> None \<and> 0 < length (list_of (Recommendation vpa))
      then (None, cluster\<lparr>EmptyVPAs := AList.delete (vpa_ID vpa) (EmptyVPAs cluster)\<rparr>)
      else (case map_of (EmptyVPAs cluster) (vpa_ID vpa) of
          None \<Rightarrow> (None, cluster\<lparr>EmptyVPAs := AList.update (vpa_ID vpa) now (EmptyVPAs cluster)\<rparr>)
        | Some lastLogged \<Rightarrow>
            if time_Before (time_Add lastLogged RecommendationMissingMaxDuration) now
            then (Some (Err ''VPA is missing recommendation for too long''),
                  cluster\<lparr>EmptyVPAs := AList.update (vpa_ID vpa) now (EmptyVPAs cluster)\<rparr>)
            else (None, cluster)))"

section \<open>Counting entries of a map\<close>

definition count_if :: "('k \<Rightarrow> 'v \<Rightarrow> bool) \<Rightarrow> ('k, 'v) gomap \<Rightarrow> int" where
  "count_if P m = int (length (filter (\<lambda>(k, v). P k v) m))"

lemma count_if_Nil [simp]: "count_if P [] = 0"
  by (simp add: count_if_def)

lemma count_if_Cons [simp]: "count_if P ((k, v) # m) = (if P k v then 1 else 0) + count_if P m"
  by (simp add: count_if_def)

lemma count_if_update:
  "gomap_ok m \<Longrightarrow> count_if P (AList.update k v m) =
     count_if P m - (case map_of m k of Some w \<Rightarrow> if P k w then 1 else 0 | None \<Rightarrow> 0) + (if P k v then 1 else 0)"
proof (induction m)
  case (Cons e m)
  obtain k' w where e: "e = (k', w)" by (cases e)
  then show ?case using Cons by (cases "k' = k") (auto simp: gomap_ok_def)
qed simp

lemma count_if_delete:
  "gomap_ok m \<Longrightarrow> count_if P (AList.delete k m) =
     count_if P m - (case map_of m k of Some w \<Rightarrow> if P k w then 1 else 0 | None \<Rightarrow> 0)"
proof (induction m)
  case (Cons e m)
  obtain k' w where e: "e = (k', w)" by (cases e)
  have "map_of m k = None \<Longrightarrow> AList.delete k m = m" by (simp add: map_of_eq_None_iff)
  then show ?case using Cons e by (cases "k' = k") (auto simp: gomap_ok_def map_of_eq_None_iff)
qed simp

lemma count_if_cong: "(\<And>k v. (k, v) \<in> set m \<Longrightarrow> P k v = Q k v) \<Longrightarrow> count_if P m = count_if Q m"
  unfolding count_if_def by (metis (mono_tags, lifting) case_prodE case_prod_conv filter_cong)

section \<open>Label sets\<close>

text \<open>
  A label set is an association list in the order in which \<open>Set.String\<close> prints it; label keys
  contain neither \<open>=\<close> nor \<open>,\<close> and label values no \<open>,\<close>. The printed form then identifies it.
\<close>

definition label_pair :: "string \<times> string \<Rightarrow> string" where
  "label_pair = (\<lambda>(k, v). k @ ''='' @ v)"

definition wf_labels :: "labels \<Rightarrow> bool" where
  "wf_labels ls \<longleftrightarrow> sorted (map label_pair ls) \<and>
     (\<forall>(k, v) \<in> set ls. CHR ''='' \<notin> set k \<and> CHR '','' \<notin> set k \<and> CHR '','' \<notin> set v)"

lemma append_sep_inject:
  "x \<notin> set a \<Longrightarrow> x \<notin> set b \<Longrightarrow> a @ x # c = b @ x # d \<longleftrightarrow> a = b \<and> c = d"
proof (induction a arbitrary: b)
  case Nil
  then show ?case by (cases b) auto
next
  case (Cons y a)
  then show ?case by (cases b) auto
qed

lemma label_pair_inject:
  "CHR ''='' \<notin> set k \<Longrightarrow> CHR ''='' \<notin> set k' \<Longrightarrow> label_pair (k, v) = label_pair (k', v') \<longleftrightarrow> k = k' \<and> v = v'"
  by (simp add: label_pair_def append_sep_inject)

lemma join_Cons: "join sep (s # ss) = (if ss = [] then s else s @ sep @ join sep ss)"
  by (cases ss) simp_all

lemma join_eq_Nil: "\<forall>s \<in> set ss. s \<noteq> [] \<Longrightarrow> join sep ss = [] \<longleftrightarrow> ss = []"
  by (cases ss) (simp_all add: join_Cons)

lemma sep_in_join: "ss \<noteq> [] \<Longrightarrow> x \<in> set (s @ [x] @ join [x] ss)"
  by simp

lemma join_inject:
  assumes "\<forall>s \<in> set ss. s \<noteq> [] \<and> x \<notin> set s" "\<forall>s \<in> set ts. s \<noteq> [] \<and> x \<notin> set s" "join [x] ss = join [x] ts"
  shows "ss = ts"
  using assms
proof (induction ss arbitrary: ts)
  case Nil
  then show ?case using join_eq_Nil [of ts "[x]"] by simp
next
  case (Cons s ss)
  have "join [x] ts \<noteq> []" using Cons.prems join_eq_Nil [of "s # ss" "[x]"] by simp
  then obtain t ts' where ts: "ts = t # ts'" by (cases ts) simp_all
  have x: "x \<notin> set s" "x \<notin> set t" using Cons.prems by (auto simp: ts)
  have eq: "(if ss = [] then s else s @ [x] @ join [x] ss) = (if ts' = [] then t else t @ [x] @ join [x] ts')"
    using Cons.prems(3) by (simp only: ts join_Cons)
  show ?case
  proof (cases "ss = []")
    case True
    then have "ts' = []" using eq x by (metis sep_in_join)
    then show ?thesis using eq True by (simp add: ts)
  next
    case False
    then have "ts' \<noteq> []" using eq x by (metis sep_in_join)
    then have "s = t" "join [x] ss = join [x] ts'" using False eq by (simp_all add: append_sep_inject [OF x])
    then show ?thesis using Cons.IH [of ts'] Cons.prems(1,2) by (simp add: ts)
  qed
qed

lemma label_String_wf: "wf_labels ls \<Longrightarrow> label_String ls = join '','' (map label_pair ls)"
  unfolding wf_labels_def label_String_def label_pair_def [symmetric] by (simp add: sorted_sort_id)

lemma label_String_inject:
  assumes "wf_labels ls" "wf_labels ls'" "label_String ls = label_String ls'"
  shows "ls = ls'"
proof -
  have "map label_pair ls = map label_pair ls'"
    by (rule join_inject [of _ "CHR '',''"])
      (use assms in \<open>auto simp: label_String_wf, auto simp: wf_labels_def label_pair_def\<close>)
  moreover have "inj_on label_pair (set ls \<union> set ls')"
    using assms(1,2) by (auto simp: wf_labels_def inj_on_def label_pair_inject split: prod.splits)
  ultimately show ?thesis using map_inj_on by blast
qed

section \<open>Invariant\<close>

definition pod_in_vpa :: "ClusterState \<Rightarrow> Vpa \<Rightarrow> PodID \<Rightarrow> PodState \<Rightarrow> bool" where
  "pod_in_vpa cluster vpa pid pod = pod_matches_vpa cluster (pid_Namespace pid) (ps_labelSetKey pod) vpa"

text \<open>Every VPA counts exactly the pods of the model that it matches.\<close>

definition counts_ok :: "ClusterState \<Rightarrow> bool" where
  "counts_ok cluster \<longleftrightarrow>
     (\<forall>vpa \<in> snd ` set (Vpas cluster). PodCount vpa = count_if (pod_in_vpa cluster vpa) (Pods cluster))"

text \<open>Every VPA is linked with exactly the aggregations of the model that it matches.\<close>

definition links_ok :: "ClusterState \<Rightarrow> bool" where
  "links_ok cluster \<longleftrightarrow>
     (\<forall>vpa \<in> snd ` set (Vpas cluster). \<forall>k. map_of (aggregateContainerStates vpa) k =
        (if matchesAggregation vpa k (key_Labels cluster k) then map_of (aggregateStateMap cluster) k else None))"

definition maps_ok :: "ClusterState \<Rightarrow> bool" where
  "maps_ok cluster \<longleftrightarrow>
     gomap_ok (Pods cluster) \<and> gomap_ok (Vpas cluster) \<and> gomap_ok (aggregateStateMap cluster) \<and>
     (\<forall>(pid, pod) \<in> set (Pods cluster). ps_ID pod = pid \<and> map_of (labelSetMap cluster) (ps_labelSetKey pod) \<noteq> None) \<and>
     (\<forall>(vid, vpa) \<in> set (Vpas cluster). vpa_ID vpa = vid) \<and>
     (\<forall>(s, ls) \<in> set (labelSetMap cluster). wf_labels ls \<and> label_String ls = s) \<and>
     (\<forall>(k, addr) \<in> set (aggregateStateMap cluster). map_of (labelSetMap cluster) (ak_labelSetKey k) \<noteq> None)"

definition states_ok :: "AggregationsConfig \<Rightarrow> store \<Rightarrow> bool" where
  "states_ok config st \<longleftrightarrow> (\<forall>a \<in> set st. agg_ok config a)"

lemma states_ok_update:
  "states_ok config st \<Longrightarrow> (i < length st \<Longrightarrow> agg_ok config (st ! i) \<Longrightarrow> agg_ok config b) \<Longrightarrow>
   states_ok config (st[i := b])"
  using set_update_subset_insert [of st i b]
  by (cases "i < length st") (auto simp: states_ok_def list_update_beyond)

lemma states_ok_nth: "states_ok config st \<Longrightarrow> i < length st \<Longrightarrow> agg_ok config (st ! i)"
  by (simp add: states_ok_def)

text \<open>Every address in use is in the store and every stored state satisfies its invariant.\<close>

definition store_ok :: "AggregationsConfig \<Rightarrow> ClusterState \<Rightarrow> bool" where
  "store_ok config cluster \<longleftrightarrow>
     states_ok config (cs_store cluster) \<and>
     (\<forall>(k, addr) \<in> set (aggregateStateMap cluster). addr < length (cs_store cluster)) \<and>
     (\<forall>(pid, pod) \<in> set (Pods cluster). \<forall>(n, c) \<in> set (Containers pod). 0 \<le> WindowEnd c \<and>
        (case aggregator c of
           AggregateRef addr \<Rightarrow> addr < length (cs_store cluster)
         | ContainerStateAggregatorProxy cid \<Rightarrow> cid = \<lparr>cid_PodID = pid, cid_ContainerName = n\<rparr>))"

definition cluster_ok :: "AggregationsConfig \<Rightarrow> ClusterState \<Rightarrow> bool" where
  "cluster_ok config cluster \<longleftrightarrow>
     counts_ok cluster \<and> links_ok cluster \<and> maps_ok cluster \<and> store_ok config cluster"

lemma NewClusterState_ok: "cluster_ok config NewClusterState"
  by (simp add: cluster_ok_def counts_ok_def links_ok_def maps_ok_def store_ok_def states_ok_def NewClusterState_def)

text \<open>
  Two VPAs that differ only in what does not matter for counting, and in nothing but what they
  record besides their links.
\<close>

definition vpa_same :: "Vpa \<Rightarrow> Vpa \<Rightarrow> bool" where
  "vpa_same v w \<longleftrightarrow> vpa_ID v = vpa_ID w \<and> PodSelector v = PodSelector w"

lemma vpa_same_refl [simp]: "vpa_same v v"
  by (simp add: vpa_same_def)

lemma vpa_same_in: "vpa_same v w \<Longrightarrow> labelSetMap c = labelSetMap d \<Longrightarrow> pod_in_vpa c v = pod_in_vpa d w"
  by (simp add: fun_eq_iff vpa_same_def pod_in_vpa_def pod_matches_vpa_def)

lemma vpa_same_matches: "vpa_same v w \<Longrightarrow> matchesAggregation v k ls = matchesAggregation w k ls"
  by (simp add: vpa_same_def matchesAggregation_def)

lemma UseAggregation_spec:
  assumes "UseAggregationIfMatching vpa st k ls addr = (vpa', st')"
  shows "vpa_same vpa vpa'" "PodCount vpa' = PodCount vpa" "length st' = length st"
    "aggregateContainerStates vpa' =
      (if map_of (aggregateContainerStates vpa) k = None \<and> matchesAggregation vpa k ls
       then AList.update k addr (aggregateContainerStates vpa) else aggregateContainerStates vpa)"
    "states_ok config st \<Longrightarrow> states_ok config st'"
  using assms
  by (auto intro!: states_ok_update simp: UseAggregationIfMatching_def UsesAggregation_def vpa_same_def split: if_splits)

lemma link_vpas_spec:
  assumes "link_vpas k ls addr vs st = (vs', st')"
  shows "length st' = length st \<and> map fst vs' = map fst vs \<and>
    (states_ok config st \<longrightarrow> states_ok config st') \<and>
    (\<forall>v' \<in> snd ` set vs'. \<exists>v \<in> snd ` set vs. vpa_same v v' \<and> PodCount v' = PodCount v \<and>
      aggregateContainerStates v' =
        (if map_of (aggregateContainerStates v) k = None \<and> matchesAggregation v k ls
         then AList.update k addr (aggregateContainerStates v) else aggregateContainerStates v)) \<and>
    (\<forall>(i, v') \<in> set vs'. \<exists>v. (i, v) \<in> set vs \<and> vpa_same v v')"
  using assms
proof (induction vs arbitrary: st vs' st')
  case (Cons e vs)
  obtain i v where e: "e = (i, v)" by (cases e)
  obtain v1 st1 where u: "UseAggregationIfMatching v st k ls addr = (v1, st1)" by fastforce
  obtain vs2 st2 where l: "link_vpas k ls addr vs st1 = (vs2, st2)" by fastforce
  have r: "vs' = (i, v1) # vs2" "st' = st2" using Cons.prems by (simp_all add: e u l)
  note IH = Cons.IH [OF l]
  note s = UseAggregation_spec [OF u]
  show ?case using IH s unfolding r e by (auto; blast)
qed simp

section \<open>Counting pods independently of the links\<close>

definition vpa_counts :: "ClusterState \<Rightarrow> VpaID \<Rightarrow> Selector \<Rightarrow> int" where
  "vpa_counts cluster vid sel = count_if (\<lambda>pid pod. PodLabelsMatchVPA (pid_Namespace pid)
     (lookup_default [] (labelSetMap cluster) (ps_labelSetKey pod)) (vid_Namespace vid) sel) (Pods cluster)"

definition counts_with :: "(VpaID \<Rightarrow> Selector \<Rightarrow> int) \<Rightarrow> ClusterState \<Rightarrow> bool" where
  "counts_with f cluster \<longleftrightarrow> (\<forall>vpa \<in> snd ` set (Vpas cluster). PodCount vpa = f (vpa_ID vpa) (PodSelector vpa))"

lemma counts_ok_iff: "counts_ok cluster \<longleftrightarrow> counts_with (vpa_counts cluster) cluster"
  by (simp add: counts_ok_def counts_with_def vpa_counts_def pod_in_vpa_def [abs_def] pod_matches_vpa_def)

definition core_ok :: "AggregationsConfig \<Rightarrow> ClusterState \<Rightarrow> bool" where
  "core_ok config cluster \<longleftrightarrow> links_ok cluster \<and> maps_ok cluster \<and> store_ok config cluster"

lemma cluster_ok_iff: "cluster_ok config c \<longleftrightarrow> core_ok config c \<and> counts_with (vpa_counts c) c"
  by (auto simp: cluster_ok_def core_ok_def counts_ok_iff)

text \<open>What finding or creating an aggregate, or recording a sample, leaves alone.\<close>

definition same_pods :: "ClusterState \<Rightarrow> ClusterState \<Rightarrow> bool" where
  "same_pods c d \<longleftrightarrow> Pods d = Pods c \<and> labelSetMap d = labelSetMap c \<and> length (cs_store c) \<le> length (cs_store d)"

lemma same_pods_refl [simp]: "same_pods c c"
  by (simp add: same_pods_def)

lemma same_pods_trans: "same_pods a b \<Longrightarrow> same_pods b c \<Longrightarrow> same_pods a c"
  by (simp add: same_pods_def)

lemma store_ok_grow:
  assumes "store_ok config c" "same_pods c d" "states_ok config (cs_store d)"
    "\<forall>(k, addr) \<in> set (aggregateStateMap d). addr < length (cs_store d)"
  shows "store_ok config d"
  unfolding store_ok_def
proof (intro conjI assms(3,4), clarify)
  fix pid pod n ct
  assume "(pid, pod) \<in> set (Pods d)" "(n, ct) \<in> set (Containers pod)"
  then have "0 \<le> WindowEnd ct" "case aggregator ct of AggregateRef addr \<Rightarrow> addr < length (cs_store c)
      | ContainerStateAggregatorProxy cid \<Rightarrow> cid = \<lparr>cid_PodID = pid, cid_ContainerName = n\<rparr>"
    using assms(1,2) by (fastforce simp: store_ok_def same_pods_def)+
  then show "0 \<le> WindowEnd ct \<and> (case aggregator ct of
      ContainerStateAggregatorProxy cid \<Rightarrow> cid = \<lparr>cid_PodID = pid, cid_ContainerName = n\<rparr>
      | AggregateRef addr \<Rightarrow> addr < length (cs_store d))"
    using assms(2) by (cases "aggregator ct") (auto simp: same_pods_def)
qed

lemma findOrCreate_ok:
  assumes cfg: "config_ok config" and core: "core_ok config c"
    and pod: "map_of (Pods c) (cid_PodID cid) = Some pod"
  shows "\<exists>addr d. findOrCreateAggregateContainerState config now c cid = Inr (addr, d) \<and> core_ok config d \<and>
    same_pods c d \<and> addr < length (cs_store d) \<and>
    map_of (aggregateStateMap d) (MakeAggregateStateKey pod (cid_ContainerName cid)) = Some addr \<and>
    (\<forall>f. counts_with f c \<longrightarrow> counts_with f d)"
proof -
  let ?k = "MakeAggregateStateKey pod (cid_ContainerName cid)"
  have links: "links_ok c" and maps: "maps_ok c" and st: "store_ok config c"
    using core by (simp_all add: core_ok_def)
  have k: "aggregateStateKeyForContainerID c cid = Inr ?k"
    using pod by (simp add: aggregateStateKeyForContainerID_def)
  show ?thesis
  proof (cases "map_of (aggregateStateMap c) ?k")
    case (Some addr)
    then have "addr < length (cs_store c)"
      using st map_of_SomeD [OF Some] by (auto simp: store_ok_def)
    then show ?thesis using Some k core by (simp add: findOrCreateAggregateContainerState_def)
  next
    case None
    let ?addr = "length (cs_store c)" and ?st = "cs_store c @ [NewAggregateContainerState config now]"
    let ?ls = "key_Labels c ?k"
    obtain vs st' where l: "link_vpas ?k ?ls ?addr (Vpas c) ?st = (vs, st')" by fastforce
    let ?d = "c\<lparr>aggregateStateMap := AList.update ?k ?addr (aggregateStateMap c), Vpas := vs, cs_store := st'\<rparr>"
    have eq: "findOrCreateAggregateContainerState config now c cid = Inr (?addr, ?d)"
      by (simp add: findOrCreateAggregateContainerState_def k None l Let_def)
    note sp = link_vpas_spec [OF l, of config]
    have len: "length st' = Suc ?addr" using sp by simp
    have same: "same_pods c ?d" by (simp add: same_pods_def len)
    have ok': "states_ok config st'"
      using sp st NewAggregateContainerState_ok [OF cfg] by (auto simp: store_ok_def states_ok_def)
    have lab: "map_of (labelSetMap c) (ak_labelSetKey ?k) \<noteq> None"
      using maps map_of_SomeD [OF pod] by (auto simp: maps_ok_def MakeAggregateStateKey_def)
    have "store_ok config ?d"
      using st len ok' set_AList_update [of ?k ?addr "aggregateStateMap c"]
      by (intro store_ok_grow [OF st same]) (auto simp: store_ok_def less_Suc_eq)
    moreover have "maps_ok ?d"
    proof -
      have "gomap_ok vs" using maps sp by (simp add: maps_ok_def gomap_ok_def)
      moreover have "\<forall>(vid, vpa) \<in> set vs. vpa_ID vpa = vid"
        using maps sp unfolding maps_ok_def vpa_same_def by (fastforce split: prod.splits)
      ultimately show ?thesis
        using maps lab set_AList_update [of ?k ?addr "aggregateStateMap c"] by (auto simp: maps_ok_def)
    qed
    moreover have "links_ok ?d"
      unfolding links_ok_def
    proof (intro ballI allI)
      fix v' k' assume v': "v' \<in> snd ` set (Vpas ?d)"
      then obtain v where v: "v \<in> snd ` set (Vpas c)" "vpa_same v v'"
        "aggregateContainerStates v' = (if map_of (aggregateContainerStates v) ?k = None \<and> matchesAggregation v ?k ?ls
           then AList.update ?k ?addr (aggregateContainerStates v) else aggregateContainerStates v)"
        using sp by fastforce
      have lv: "map_of (aggregateContainerStates v) k'' = (if matchesAggregation v k'' (key_Labels c k'')
          then map_of (aggregateStateMap c) k'' else None)" for k''
        using links [unfolded links_ok_def, rule_format, OF v(1)] .
      have "map_of (aggregateContainerStates v) ?k = None" using lv [of ?k] None by simp
      then show "map_of (aggregateContainerStates v') k' = (if matchesAggregation v' k' (key_Labels ?d k')
          then map_of (aggregateStateMap ?d) k' else None)"
        using lv [of k'] v(2,3) by (auto simp: key_Labels_def vpa_same_matches [OF v(2), symmetric])
    qed
    moreover have "counts_with f ?d" if "counts_with f c" for f
      unfolding counts_with_def
    proof
      fix v' assume "v' \<in> snd ` set (Vpas ?d)"
      then obtain v where "v \<in> snd ` set (Vpas c)" "vpa_same v v'" "PodCount v' = PodCount v"
        using sp by fastforce
      then show "PodCount v' = f (vpa_ID v') (PodSelector v')"
        using that by (auto simp: counts_with_def vpa_same_def)
    qed
    ultimately show ?thesis using eq same len by (simp add: core_ok_def)
  qed
qed

section \<open>The aggregator of a container in the cluster\<close>

definition ref_valid :: "aggregator_ref \<Rightarrow> ClusterState \<Rightarrow> bool" where
  "ref_valid r c = (case r of
     AggregateRef addr \<Rightarrow> addr < length (cs_store c)
   | ContainerStateAggregatorProxy cid \<Rightarrow> map_of (Pods c) (cid_PodID cid) \<noteq> None)"

text \<open>The states in which the aggregator \<open>r\<close> works: as \<open>c0\<close> but for aggregates.\<close>

definition aggregator_ok ::
    "AggregationsConfig \<Rightarrow> aggregator_ref \<Rightarrow> ClusterState \<Rightarrow> (VpaID \<Rightarrow> Selector \<Rightarrow> int) \<Rightarrow> ClusterState \<Rightarrow> bool" where
  "aggregator_ok config r c0 f c \<longleftrightarrow>
     config_ok config \<and> core_ok config c \<and> same_pods c0 c \<and> counts_with f c \<and> ref_valid r c"

lemma locate_aggregate_ok:
  assumes "aggregator_ok config r c0 f c"
  shows "\<exists>addr d. locate_aggregate config now r c = Inr (addr, d) \<and> aggregator_ok config r c0 f d \<and>
    addr < length (cs_store d)"
proof (cases r)
  case (AggregateRef addr)
  then show ?thesis using assms by (simp add: locate_aggregate_def aggregator_ok_def ref_valid_def)
next
  case (ContainerStateAggregatorProxy cid)
  then obtain pod where pod: "map_of (Pods c) (cid_PodID cid) = Some pod"
    using assms by (auto simp: aggregator_ok_def ref_valid_def)
  have a: "config_ok config" "core_ok config c" "same_pods c0 c" "counts_with f c" "ref_valid r c"
    using assms by (simp_all add: aggregator_ok_def)
  obtain addr d where d: "findOrCreateAggregateContainerState config now c cid = Inr (addr, d)"
    "core_ok config d" "same_pods c d" "addr < length (cs_store d)" "\<forall>f. counts_with f c \<longrightarrow> counts_with f d"
    using findOrCreate_ok [OF a(1,2) pod] by blast
  have "ref_valid r d" using pod d(3) by (simp add: ref_valid_def ContainerStateAggregatorProxy same_pods_def)
  then show ?thesis using d a ContainerStateAggregatorProxy same_pods_trans [OF a(3) d(3)]
    by (simp add: locate_aggregate_def aggregator_ok_def)
qed

lemma core_ok_store_update:
  assumes "core_ok config c" "agg_ok config a"
  shows "core_ok config (c\<lparr>cs_store := (cs_store c)[addr := a]\<rparr>)"
proof -
  let ?d = "c\<lparr>cs_store := (cs_store c)[addr := a]\<rparr>"
  have st: "store_ok config c" using assms(1) by (simp add: core_ok_def)
  have "states_ok config (cs_store ?d)"
    using st assms(2) by (simp add: store_ok_def states_ok_update)
  moreover have "\<forall>(k, addr) \<in> set (aggregateStateMap ?d). addr < length (cs_store ?d)"
    using st by (simp add: store_ok_def)
  moreover have "same_pods c ?d" by (simp add: same_pods_def)
  ultimately have "store_ok config ?d" using store_ok_grow [OF st] by blast
  moreover have "links_ok ?d" "maps_ok ?d"
    using assms(1) by (simp_all add: core_ok_def links_ok_def maps_ok_def key_Labels_def)
  ultimately show ?thesis by (simp add: core_ok_def)
qed

lemma aggregator_ok_store_update:
  "aggregator_ok config r c0 f c \<Longrightarrow> agg_ok config a \<Longrightarrow>
   aggregator_ok config r c0 f (c\<lparr>cs_store := (cs_store c)[addr := a]\<rparr>)"
  using core_ok_store_update [of config c a addr]
  by (auto simp: aggregator_ok_def same_pods_def counts_with_def ref_valid_def split: aggregator_ref.splits)

lemma aggregator_ok_state:
  "aggregator_ok config r c0 f c \<Longrightarrow> addr < length (cs_store c) \<Longrightarrow> agg_ok config (cs_store c ! addr)"
  by (simp add: aggregator_ok_def core_ok_def store_ok_def states_ok_nth)

interpretation cluster: container_aggregator "cluster_aggregator config now r" "aggregator_ok config r c0 f"
  for config now r c0 f
proof (unfold_locales, goal_cases)
  case (1 c s)
  obtain addr d where d: "locate_aggregate config now r c = Inr (addr, d)" "aggregator_ok config r c0 f d"
    "addr < length (cs_store d)" using locate_aggregate_ok [OF 1(1)] by blast
  obtain a where "agg_AddSample (cs_store d ! addr) s = Inr a" "agg_ok config a"
    using agg_AddSample_ok [OF aggregator_ok_state [OF d(2,3)] 1(2,3)] by blast
  then show ?case using d aggregator_ok_store_update [OF d(2)] by (simp add: cluster_aggregator_def Let_def)
next
  case (2 c s)
  obtain addr d where d: "locate_aggregate config now r c = Inr (addr, d)" "aggregator_ok config r c0 f d"
    "addr < length (cs_store d)" using locate_aggregate_ok [OF 2(1)] by blast
  obtain a where "agg_SubtractSample (cs_store d ! addr) s = Inr a" "agg_ok config a"
    using agg_SubtractSample_ok [OF aggregator_ok_state [OF d(2,3)] 2(2)] by blast
  then show ?case using d aggregator_ok_store_update [OF d(2)] by (simp add: cluster_aggregator_def Let_def)
next
  case (3 c)
  then show ?case using locate_aggregate_ok [OF 3, of now] by (auto simp: cluster_aggregator_def Let_def)
next
  case (4 c)
  then show ?case using locate_aggregate_ok [OF 4, of now] by (auto simp: cluster_aggregator_def Let_def)
next
  case (5 c)
  then show ?case using locate_aggregate_ok [OF 5, of now] by (auto simp: cluster_aggregator_def Let_def)
qed

section \<open>Samples and OOM events keep the invariant\<close>

lemma aggregator_new_window [simp]: "aggregator (new_window config c t) = aggregator c"
  by (simp add: new_window_def)

lemma aggregator_set_peak [simp]: "aggregator (set_peak oom u c) = aggregator c"
  by (simp add: set_peak_def)

lemma addMemorySample_aggregator:
  assumes "addMemorySample config ops c a s oom = Inr (r, c', a', obs)"
  shows "aggregator c' = aggregator c"
proof (cases "isValid s ResourceMemory \<and> (oom \<or> lastMemorySampleStart c \<le> MeasureStart s)")
  case False
  then show ?thesis using assms addMemorySample_discard [of s oom c config ops a] by auto
next
  case True
  show ?thesis
    using assms addMemorySample_accept [OF conjunct1 [OF True] conjunct2 [OF True], of config ops a]
    by (auto simp: Let_def split: if_splits)
qed

lemma container_AddSample_aggregator:
  "container_AddSample config ops c a s = Inr (r, c', a', obs) \<Longrightarrow> aggregator c' = aggregator c"
  using addMemorySample_aggregator [of config ops c a s False]
  by (auto simp: container_AddSample_def addCPUSample_def split: if_splits)

lemma RecordOOM_aggregator:
  "RecordOOM config ops c a t m = Inr (r, c', a', obs) \<Longrightarrow> aggregator c' = aggregator c"
  using addMemorySample_aggregator [of config ops c a "\<lparr>MeasureStart = t, Usage = oom_memory_needed c m,
      Request = 0, Resource = ResourceMemory\<rparr>" True]
  by (auto simp: RecordOOM_def Let_def split: if_splits)

text \<open>A container as the invariant wants it, in the pod \<open>pid\<close> under the name \<open>n\<close>.\<close>

definition container_fits :: "ClusterState \<Rightarrow> PodID \<Rightarrow> string \<Rightarrow> ContainerState \<Rightarrow> bool" where
  "container_fits c pid n ct \<longleftrightarrow> 0 \<le> WindowEnd ct \<and> (case aggregator ct of
     AggregateRef addr \<Rightarrow> addr < length (cs_store c)
   | ContainerStateAggregatorProxy cid \<Rightarrow> cid = \<lparr>cid_PodID = pid, cid_ContainerName = n\<rparr>)"

lemma store_ok_iff:
  "store_ok config c \<longleftrightarrow> states_ok config (cs_store c) \<and>
     (\<forall>(k, addr) \<in> set (aggregateStateMap c). addr < length (cs_store c)) \<and>
     (\<forall>(pid, pod) \<in> set (Pods c). \<forall>(n, ct) \<in> set (Containers pod). container_fits c pid n ct)"
  by (simp add: store_ok_def container_fits_def)

lemma container_fits_cong: "cs_store c = cs_store d \<Longrightarrow> container_fits c = container_fits d"
  by (auto simp: container_fits_def fun_eq_iff split: aggregator_ref.splits)

lemma store_ok_cong:
  "Pods d = Pods c \<Longrightarrow> cs_store d = cs_store c \<Longrightarrow> aggregateStateMap d = aggregateStateMap c \<Longrightarrow>
   store_ok config d = store_ok config c"
  using container_fits_cong [of d c] by (simp add: store_ok_iff)

lemma Ball_subset: "A \<subseteq> B \<Longrightarrow> \<forall>x \<in> B. P x \<Longrightarrow> \<forall>x \<in> A. P x"
  by blast

text \<open>Replacing a pod by one with the same identity and labels.\<close>

lemma update_pod_ok:
  assumes core: "core_ok config c" and pod: "map_of (Pods c) pid = Some pod"
    and same: "ps_ID pod' = ps_ID pod" "ps_labelSetKey pod' = ps_labelSetKey pod"
    and cts: "\<forall>(n, ct) \<in> set (Containers pod'). container_fits c pid n ct"
  shows "core_ok config (c\<lparr>Pods := AList.update pid pod' (Pods c)\<rparr>)"
    "vpa_counts (c\<lparr>Pods := AList.update pid pod' (Pods c)\<rparr>) = vpa_counts c"
proof -
  let ?d = "c\<lparr>Pods := AList.update pid pod' (Pods c)\<rparr>"
  have maps: "maps_ok c" and st: "store_ok config c" and links: "links_ok c" using core by (simp_all add: core_ok_def)
  have sub: "set (AList.update pid pod' (Pods c)) \<subseteq> insert (pid, pod') (set (Pods c))" by (rule set_AList_update)
  have p: "ps_ID pod = pid" "map_of (labelSetMap c) (ps_labelSetKey pod) \<noteq> None"
    using maps map_of_SomeD [OF pod] by (auto simp: maps_ok_def)
  have "\<forall>(pid, pod) \<in> set (AList.update pid pod' (Pods c)).
      \<forall>(n, ct) \<in> set (Containers pod). container_fits c pid n ct"
    by (rule Ball_subset [OF sub]) (use st cts in \<open>simp add: store_ok_iff\<close>)
  then have "store_ok config ?d"
    using st container_fits_cong [of ?d c] by (simp add: store_ok_iff)
  moreover have "maps_ok ?d"
    using maps sub p same by (auto simp: maps_ok_def)
  moreover have "links_ok ?d" using links by (simp add: links_ok_def key_Labels_def)
  ultimately show "core_ok config ?d" by (simp add: core_ok_def)
  have "gomap_ok (Pods c)" using maps by (simp add: maps_ok_def)
  then show "vpa_counts ?d = vpa_counts c"
    using pod same by (auto simp: fun_eq_iff vpa_counts_def count_if_update)
qed

lemma update_container_ok:
  assumes core: "core_ok config c" and pod: "map_of (Pods c) (cid_PodID cid) = Some pod"
    and ct: "container_fits c (cid_PodID cid) (cid_ContainerName cid) ct"
    and counts: "counts_with (vpa_counts c) c"
  shows "cluster_ok config (update_container c cid ct)"
proof -
  let ?p = "pod\<lparr>Containers := AList.update (cid_ContainerName cid) ct (Containers pod)\<rparr>"
  have "\<forall>(n, ct) \<in> set (Containers pod). container_fits c (cid_PodID cid) n ct"
    using core map_of_SomeD [OF pod] by (auto simp: core_ok_def store_ok_iff)
  then have cts: "\<forall>(n, ct) \<in> set (Containers ?p). container_fits c (cid_PodID cid) n ct"
    using ct set_AList_update [of "cid_ContainerName cid" ct "Containers pod"] by auto
  have "update_container c cid ct = c\<lparr>Pods := AList.update (cid_PodID cid) ?p (Pods c)\<rparr>"
    by (simp add: update_container_def pod)
  then show ?thesis
    using update_pod_ok [OF core pod _ _ cts] counts by (simp add: cluster_ok_iff counts_with_def)
qed

lemma vpa_counts_same_pods: "same_pods c d \<Longrightarrow> vpa_counts d = vpa_counts c"
  by (simp add: vpa_counts_def fun_eq_iff same_pods_def)

lemma GetContainer_aggregator_ok:
  assumes "config_ok config" "cluster_ok config c" "map_of (Pods c) (cid_PodID cid) = Some pod"
    "map_of (Containers pod) (cid_ContainerName cid) = Some ct"
  shows "aggregator_ok config (aggregator ct) c (vpa_counts c) c" "0 \<le> WindowEnd ct"
proof -
  have "container_fits c (cid_PodID cid) (cid_ContainerName cid) ct"
    using assms(2) map_of_SomeD [OF assms(3)] map_of_SomeD [OF assms(4)]
    by (auto simp: cluster_ok_def store_ok_iff)
  then show "aggregator_ok config (aggregator ct) c (vpa_counts c) c" "0 \<le> WindowEnd ct"
    using assms(1-3) by (auto simp: cluster_ok_iff aggregator_ok_def ref_valid_def container_fits_def
        split: aggregator_ref.splits)
qed

lemma store_container_ok:
  assumes ok: "aggregator_ok config (aggregator ct) c (vpa_counts c) d" and pod: "map_of (Pods c) (cid_PodID cid) = Some pod"
    and old: "map_of (Containers pod) (cid_ContainerName cid) = Some ct"
    and new: "aggregator ct' = aggregator ct" "0 \<le> WindowEnd ct'"
    and fits: "container_fits c (cid_PodID cid) (cid_ContainerName cid) ct"
  shows "cluster_ok config (update_container d cid ct')"
proof -
  have d: "core_ok config d" "same_pods c d" "counts_with (vpa_counts c) d"
    using ok by (simp_all add: aggregator_ok_def)
  have "container_fits d (cid_PodID cid) (cid_ContainerName cid) ct'"
    using fits new d(2) by (auto simp: container_fits_def same_pods_def split: aggregator_ref.splits)
  moreover have "map_of (Pods d) (cid_PodID cid) = Some pod" using pod d(2) by (simp add: same_pods_def)
  ultimately show ?thesis
    using update_container_ok [OF d(1)] d(3) vpa_counts_same_pods [OF d(2)] by simp
qed

lemma cluster_AddSample_ok:
  assumes cfg: "config_ok config" and ok: "cluster_ok config c" and t: "0 < MeasureStart s"
    and fits: "\<And>ct. GetContainer c cid = Some ct \<Longrightarrow> window_fits config ct (MeasureStart s)"
  shows "\<exists>e c' obs. cluster_AddSample config now c cid s = Inr (e, c', obs) \<and> cluster_ok config c'"
proof (cases "GetContainer c cid")
  case None
  then show ?thesis using ok by (auto simp: cluster_AddSample_def GetContainer_def split: option.splits)
next
  case (Some ct)
  then obtain pod where p: "map_of (Pods c) (cid_PodID cid) = Some pod" "map_of (Containers pod) (cid_ContainerName cid) = Some ct"
    by (auto simp: GetContainer_def split: option.splits)
  note a = GetContainer_aggregator_ok [OF cfg ok p]
  have i: "0 < MemoryAggregationInterval config" using cfg by (simp add: config_ok_def)
  obtain r ct' d obs where s: "container_AddSample config (cluster_aggregator config now (aggregator ct)) ct c s = Inr (r, ct', d, obs)"
    "aggregator_ok config (aggregator ct) c (vpa_counts c) d" "0 \<le> WindowEnd ct'"
    using cluster.container_AddSample_ok [OF a(1) t i fits [OF Some] a(2)] by blast
  have f: "container_fits c (cid_PodID cid) (cid_ContainerName cid) ct"
    using ok map_of_SomeD [OF p(1)] map_of_SomeD [OF p(2)] by (auto simp: cluster_ok_def store_ok_iff)
  have "cluster_ok config (update_container d cid ct')"
    using store_container_ok [OF s(2) p container_AddSample_aggregator [OF s(1)] s(3) f] .
  then show ?thesis by (simp add: cluster_AddSample_def p s(1))
qed

lemma cluster_RecordOOM_ok:
  assumes cfg: "config_ok config" and ok: "cluster_ok config c" and t: "0 < t"
    and fits: "\<And>ct. GetContainer c cid = Some ct \<Longrightarrow> window_fits config ct t"
  shows "\<exists>e c' obs. cluster_RecordOOM config now c cid t m = Inr (e, c', obs) \<and> cluster_ok config c'"
proof (cases "GetContainer c cid")
  case None
  then show ?thesis using ok by (auto simp: cluster_RecordOOM_def GetContainer_def split: option.splits)
next
  case (Some ct)
  then obtain pod where p: "map_of (Pods c) (cid_PodID cid) = Some pod" "map_of (Containers pod) (cid_ContainerName cid) = Some ct"
    by (auto simp: GetContainer_def split: option.splits)
  note a = GetContainer_aggregator_ok [OF cfg ok p]
  have i: "0 < MemoryAggregationInterval config" using cfg by (simp add: config_ok_def)
  obtain r ct' d obs where s: "RecordOOM config (cluster_aggregator config now (aggregator ct)) ct c t m = Inr (r, ct', d, obs)"
    "aggregator_ok config (aggregator ct) c (vpa_counts c) d" "0 \<le> WindowEnd ct'"
    using cluster.RecordOOM_ok [OF a(1) t i fits [OF Some] a(2)] by blast
  have f: "container_fits c (cid_PodID cid) (cid_ContainerName cid) ct"
    using ok map_of_SomeD [OF p(1)] map_of_SomeD [OF p(2)] by (auto simp: cluster_ok_def store_ok_iff)
  have "cluster_ok config (update_container d cid ct')"
    using store_container_ok [OF s(2) p RecordOOM_aggregator [OF s(1)] s(3) f] .
  then show ?thesis by (simp add: cluster_RecordOOM_def p s(1))
qed

lemma AddOrUpdateContainer_ok:
  assumes cfg: "config_ok config" and ok: "cluster_ok config c"
  shows "\<exists>e c'. AddOrUpdateContainer config now c cid request = Inr (e, c') \<and> cluster_ok config c'"
proof (cases "map_of (Pods c) (cid_PodID cid)")
  case None
  then show ?thesis using ok by (simp add: AddOrUpdateContainer_def)
next
  case pod: (Some pod)
  have core: "core_ok config c" and counts: "counts_with (vpa_counts c) c" using ok by (simp_all add: cluster_ok_iff)
  show ?thesis
  proof (cases "map_of (Containers pod) (cid_ContainerName cid)")
    case None
    obtain addr d where d: "findOrCreateAggregateContainerState config now c cid = Inr (addr, d)"
      "core_ok config d" "same_pods c d" "\<forall>f. counts_with f c \<longrightarrow> counts_with f d"
      using findOrCreate_ok [OF cfg core pod] by blast
    have "container_fits d (cid_PodID cid) (cid_ContainerName cid)
        (NewContainerState request (ContainerStateAggregatorProxy cid))"
      by (simp add: container_fits_def NewContainerState_def zero_time_def)
    then show ?thesis
      using update_container_ok [OF d(2), of cid pod] d pod counts None vpa_counts_same_pods [OF d(3)]
      by (simp add: AddOrUpdateContainer_def same_pods_def)
  next
    case (Some ct)
    have "container_fits c (cid_PodID cid) (cid_ContainerName cid) ct"
      using ok map_of_SomeD [OF pod] map_of_SomeD [OF Some] by (auto simp: cluster_ok_def store_ok_iff)
    then have "container_fits c (cid_PodID cid) (cid_ContainerName cid) (ct\<lparr>cst_Request := request\<rparr>)"
      by (simp add: container_fits_def)
    then show ?thesis
      using update_container_ok [OF core pod _ counts] pod Some by (simp add: AddOrUpdateContainer_def)
  qed
qed

section \<open>Pods keep the invariant\<close>

definition pod_selected :: "ClusterState \<Rightarrow> VpaID \<Rightarrow> Selector \<Rightarrow> PodID \<Rightarrow> PodState \<Rightarrow> bool" where
  "pod_selected c vid sel pid pod = PodLabelsMatchVPA (pid_Namespace pid)
     (lookup_default [] (labelSetMap c) (ps_labelSetKey pod)) (vid_Namespace vid) sel"

lemma vpa_counts_eq: "vpa_counts c vid sel = count_if (pod_selected c vid sel) (Pods c)"
  by (simp add: vpa_counts_def pod_selected_def [abs_def])

lemma pod_selected_cong: "labelSetMap d = labelSetMap c \<Longrightarrow> pod_selected d = pod_selected c"
  by (simp add: fun_eq_iff pod_selected_def)

lemma vpa_counts_cong: "labelSetMap d = labelSetMap c \<Longrightarrow> Pods d = Pods c \<Longrightarrow> vpa_counts d = vpa_counts c"
  by (simp add: fun_eq_iff vpa_counts_def)

lemma label_insert_ok:
  assumes "core_ok config c" "wf_labels ls"
  shows "core_ok config (c\<lparr>labelSetMap := AList.update (label_String ls) ls (labelSetMap c)\<rparr>)"
    "vpa_counts (c\<lparr>labelSetMap := AList.update (label_String ls) ls (labelSetMap c)\<rparr>) = vpa_counts c"
proof -
  let ?m = "AList.update (label_String ls) ls (labelSetMap c)" and ?d = "c\<lparr>labelSetMap := AList.update (label_String ls) ls (labelSetMap c)\<rparr>"
  have known: "map_of (labelSetMap c) (label_String ls) \<in> {None, Some ls}"
    using assms label_String_inject by (fastforce simp: core_ok_def maps_ok_def dest: map_of_SomeD)
  have keep: "map_of ?m k = map_of (labelSetMap c) k" if "map_of (labelSetMap c) k \<noteq> None" for k
    using known that by auto
  have maps: "maps_ok c" and links: "links_ok c" and st: "store_ok config c" using assms(1) by (simp_all add: core_ok_def)
  have look: "lookup_default [] ?m k = lookup_default [] (labelSetMap c) k" if "map_of (labelSetMap c) k \<noteq> None" for k
    by (simp only: lookup_default_def keep [OF that])
  have lab: "key_Labels ?d k = key_Labels c k" if "map_of (aggregateStateMap c) k \<noteq> None" for k
  proof -
    have "map_of (labelSetMap c) (ak_labelSetKey k) \<noteq> None"
      using maps that by (auto simp: maps_ok_def dest!: map_of_SomeD)
    from look [OF this] show ?thesis by (simp add: key_Labels_def)
  qed
  have "map_of (aggregateContainerStates v) k = (if matchesAggregation v k (key_Labels ?d k)
      then map_of (aggregateStateMap ?d) k else None)" if "v \<in> snd ` set (Vpas c)" for v k
    using links [unfolded links_ok_def, rule_format, OF that, of k] lab [of k]
    by (cases "map_of (aggregateStateMap c) k") auto
  then have "links_ok ?d" by (simp add: links_ok_def)
  moreover have "maps_ok ?d"
    using maps assms(2) set_AList_update [of "label_String ls" ls "labelSetMap c"] by (auto simp: maps_ok_def)
  moreover have "store_ok config ?d" using st store_ok_cong [of ?d c] by simp
  ultimately show "core_ok config ?d" by (simp add: core_ok_def)
  have "lookup_default [] ?m (ps_labelSetKey pod) = lookup_default [] (labelSetMap c) (ps_labelSetKey pod)"
    if "(pid, pod) \<in> set (Pods c)" for pid pod
    using maps that by (intro look) (auto simp: maps_ok_def)
  then show "vpa_counts ?d = vpa_counts c"
    by (intro ext) (auto simp: vpa_counts_def intro!: count_if_cong)
qed

lemma set_pod_ok:
  assumes core: "core_ok config c" and p: "ps_ID pod = pid" "map_of (labelSetMap c) (ps_labelSetKey pod) \<noteq> None"
    and cts: "\<forall>(n, ct) \<in> set (Containers pod). container_fits c pid n ct"
  shows "core_ok config (c\<lparr>Pods := AList.update pid pod (Pods c)\<rparr>)"
    "vpa_counts (c\<lparr>Pods := AList.update pid pod (Pods c)\<rparr>) vid sel = vpa_counts c vid sel
      - (case map_of (Pods c) pid of Some q \<Rightarrow> if pod_selected c vid sel pid q then 1 else 0 | None \<Rightarrow> 0)
      + (if pod_selected c vid sel pid pod then 1 else 0)"
proof -
  let ?d = "c\<lparr>Pods := AList.update pid pod (Pods c)\<rparr>"
  have maps: "maps_ok c" and st: "store_ok config c" and links: "links_ok c" using core by (simp_all add: core_ok_def)
  have sub: "set (AList.update pid pod (Pods c)) \<subseteq> insert (pid, pod) (set (Pods c))" by (rule set_AList_update)
  have "\<forall>(pid, pod) \<in> set (AList.update pid pod (Pods c)). \<forall>(n, ct) \<in> set (Containers pod). container_fits c pid n ct"
    by (rule Ball_subset [OF sub]) (use st cts in \<open>simp add: store_ok_iff\<close>)
  then have "store_ok config ?d"
    using st container_fits_cong [of ?d c] by (simp add: store_ok_iff)
  moreover have "maps_ok ?d" using maps sub p by (auto simp: maps_ok_def)
  moreover have "links_ok ?d" using links by (simp add: links_ok_def key_Labels_def)
  ultimately show "core_ok config ?d" by (simp add: core_ok_def)
  have "gomap_ok (Pods c)" using maps by (simp add: maps_ok_def)
  moreover have "pod_selected ?d = pod_selected c" by (simp add: fun_eq_iff pod_selected_def)
  ultimately show "vpa_counts ?d vid sel = vpa_counts c vid sel
      - (case map_of (Pods c) pid of Some q \<Rightarrow> if pod_selected c vid sel pid q then 1 else 0 | None \<Rightarrow> 0)
      + (if pod_selected c vid sel pid pod then 1 else 0)"
    by (simp add: vpa_counts_eq count_if_update)
qed

lemma core_ok_vpas:
  assumes core: "core_ok config c" and keys: "map fst vs = map fst (Vpas c)"
    and same: "\<forall>(i, v') \<in> set vs. \<exists>v. (i, v) \<in> set (Vpas c) \<and> vpa_same v v' \<and>
      aggregateContainerStates v' = aggregateContainerStates v"
  shows "core_ok config (c\<lparr>Vpas := vs\<rparr>)"
proof -
  let ?d = "c\<lparr>Vpas := vs\<rparr>"
  have maps: "maps_ok c" and st: "store_ok config c" and links: "links_ok c" using core by (simp_all add: core_ok_def)
  have "links_ok ?d"
    unfolding links_ok_def
  proof (intro ballI allI)
    fix v' k assume "v' \<in> snd ` set (Vpas ?d)"
    then obtain i where "(i, v') \<in> set vs" by auto
    then obtain v where v: "(i, v) \<in> set (Vpas c)" "vpa_same v v'" "aggregateContainerStates v' = aggregateContainerStates v"
      using same by blast
    have "v \<in> snd ` set (Vpas c)" using v(1) by force
    from links [unfolded links_ok_def, rule_format, OF this, of k]
    show "map_of (aggregateContainerStates v') k = (if matchesAggregation v' k (key_Labels ?d k)
        then map_of (aggregateStateMap ?d) k else None)"
      using v by (simp add: key_Labels_def vpa_same_matches)
  qed
  moreover have "vpa_ID v' = i" if v': "(i, v') \<in> set vs" for i v'
  proof -
    obtain v where "(i, v) \<in> set (Vpas c)" "vpa_same v v'" using same v' by blast
    then show ?thesis using maps by (auto simp: maps_ok_def vpa_same_def)
  qed
  then have "\<forall>(i, v') \<in> set vs. vpa_ID v' = i" by blast
  then have "maps_ok ?d" using maps keys by (simp add: maps_ok_def gomap_ok_def)
  moreover have "store_ok config ?d" using st store_ok_cong [of ?d c] by simp
  ultimately show ?thesis by (simp add: core_ok_def)
qed

definition shift_count :: "int \<Rightarrow> ClusterState \<Rightarrow> PodState \<Rightarrow> Vpa \<Rightarrow> Vpa" where
  "shift_count n c pod vpa = (if pod_matches_vpa c (pid_Namespace (ps_ID pod)) (ps_labelSetKey pod) vpa
     then vpa\<lparr>PodCount := PodCount vpa + n\<rparr> else vpa)"

lemma removePodFromItsVpa_eq: "removePodFromItsVpa c pod = c\<lparr>Vpas := map_values (\<lambda>_. shift_count (- 1) c pod) (Vpas c)\<rparr>"
  by (simp only: removePodFromItsVpa_def shift_count_def [abs_def] diff_conv_add_uminus)

lemma addPodToItsVpa_eq: "addPodToItsVpa c pod = c\<lparr>Vpas := map_values (\<lambda>_. shift_count 1 c pod) (Vpas c)\<rparr>"
  by (simp add: addPodToItsVpa_def shift_count_def [abs_def])

lemma shift_count_ok:
  assumes "core_ok config c"
  shows "core_ok config (c\<lparr>Vpas := map_values (\<lambda>_. shift_count n c pod) (Vpas c)\<rparr>)"
    "counts_with f c \<Longrightarrow> counts_with (\<lambda>vid sel. f vid sel + (if pod_selected c vid sel (ps_ID pod) pod then n else 0))
       (c\<lparr>Vpas := map_values (\<lambda>_. shift_count n c pod) (Vpas c)\<rparr>)"
proof -
  show "core_ok config (c\<lparr>Vpas := map_values (\<lambda>_. shift_count n c pod) (Vpas c)\<rparr>)"
    by (rule core_ok_vpas [OF assms]) (auto simp: map_values_def shift_count_def vpa_same_def intro!: bexI)
  show "counts_with (\<lambda>vid sel. f vid sel + (if pod_selected c vid sel (ps_ID pod) pod then n else 0))
       (c\<lparr>Vpas := map_values (\<lambda>_. shift_count n c pod) (Vpas c)\<rparr>)" if "counts_with f c"
    using that by (fastforce simp: counts_with_def map_values_def shift_count_def pod_selected_def pod_matches_vpa_def)
qed

lemma DeletePod_ok:
  assumes "cluster_ok config c"
  shows "cluster_ok config (DeletePod c pid)"
proof -
  have core: "core_ok config c" and cnt: "counts_with (vpa_counts c) c" using assms by (simp_all add: cluster_ok_iff)
  have maps: "maps_ok c" using core by (simp add: core_ok_def)
  have del: "core_ok config (d\<lparr>Pods := AList.delete pid (Pods d)\<rparr>)" if "core_ok config d" for d
  proof -
    let ?e = "d\<lparr>Pods := AList.delete pid (Pods d)\<rparr>"
    have sub: "set (AList.delete pid (Pods d)) \<subseteq> set (Pods d)" by (rule set_AList_delete)
    have "\<forall>(pid, pod) \<in> set (AList.delete pid (Pods d)). \<forall>(n, ct) \<in> set (Containers pod). container_fits d pid n ct"
      by (rule Ball_subset [OF sub]) (use that in \<open>simp add: core_ok_def store_ok_iff\<close>)
    then have "store_ok config ?e"
      using that container_fits_cong [of ?e d] by (simp add: core_ok_def store_ok_iff)
    moreover have "maps_ok ?e" using that sub by (auto simp: core_ok_def maps_ok_def)
    moreover have "links_ok ?e" using that by (simp add: core_ok_def links_ok_def key_Labels_def)
    ultimately show ?thesis by (simp add: core_ok_def)
  qed
  have vc: "vpa_counts (d\<lparr>Pods := AList.delete pid (Pods d)\<rparr>) vid sel = vpa_counts d vid sel -
      (case map_of (Pods d) pid of Some q \<Rightarrow> if pod_selected d vid sel pid q then 1 else 0 | None \<Rightarrow> 0)"
    if "gomap_ok (Pods d)" for d vid sel
    using that pod_selected_cong [of "d\<lparr>Pods := AList.delete pid (Pods d)\<rparr>" d]
    by (simp add: vpa_counts_eq count_if_delete)
  show ?thesis
  proof (cases "map_of (Pods c) pid")
    case None
    then show ?thesis
      using del [OF core] vc [of c] cnt maps by (simp add: DeletePod_def cluster_ok_iff counts_with_def maps_ok_def)
  next
    case (Some pod)
    let ?d = "removePodFromItsVpa c pod"
    have pid: "ps_ID pod = pid" using maps map_of_SomeD [OF Some] by (auto simp: maps_ok_def)
    have d: "Pods ?d = Pods c" "labelSetMap ?d = labelSetMap c" by (simp_all add: removePodFromItsVpa_def)
    have "vpa_counts ?d = vpa_counts c" "pod_selected ?d = pod_selected c"
      by (simp_all add: fun_eq_iff vpa_counts_def pod_selected_def d)
    moreover have "core_ok config ?d" "counts_with (\<lambda>vid sel. vpa_counts c vid sel +
        (if pod_selected c vid sel pid pod then - 1 else 0)) ?d"
      using shift_count_ok [OF core, where n = "- 1" and pod = pod] cnt by (simp_all add: removePodFromItsVpa_eq pid)
    ultimately show ?thesis
      using Some del [of ?d] vc [of ?d] maps d(1)
      by (auto simp: DeletePod_def cluster_ok_iff counts_with_def maps_ok_def)
  qed
qed

lemma relink_containers_ok:
  assumes "config_ok config" "core_ok config c" "map_of (Pods c) pid = Some pod"
    "\<forall>(n, ct) \<in> set cts. 0 \<le> WindowEnd ct"
  shows "\<exists>cts' d. relink_containers config now pid cts c = Inr (cts', d) \<and> core_ok config d \<and> same_pods c d \<and>
    (\<forall>f. counts_with f c \<longrightarrow> counts_with f d) \<and> (\<forall>(n, ct) \<in> set cts'. container_fits d pid n ct)"
  using assms(2-4)
proof (induction cts arbitrary: c)
  case (Cons e cts)
  obtain n ct where e: "e = (n, ct)" by (cases e)
  let ?cid = "\<lparr>cid_PodID = pid, cid_ContainerName = n\<rparr>"
  have pod: "map_of (Pods c) (cid_PodID ?cid) = Some pod" using Cons.prems(2) by simp
  obtain addr d where d: "findOrCreateAggregateContainerState config now c ?cid = Inr (addr, d)"
    "core_ok config d" "same_pods c d" "addr < length (cs_store d)" "\<forall>f. counts_with f c \<longrightarrow> counts_with f d"
    using findOrCreate_ok [OF assms(1) Cons.prems(1) pod, of now] by blast
  obtain cts' d' where d': "relink_containers config now pid cts d = Inr (cts', d')" "core_ok config d'" "same_pods d d'"
    "\<forall>f. counts_with f d \<longrightarrow> counts_with f d'" "\<forall>(n, ct) \<in> set cts'. container_fits d' pid n ct"
    using Cons.IH [OF d(2)] Cons.prems(2,3) d(3) by (auto simp: same_pods_def)
  have "container_fits d' pid n (ct\<lparr>aggregator := AggregateRef addr\<rparr>)"
    using Cons.prems(3) d(4) d'(3) by (simp add: container_fits_def e same_pods_def)
  then show ?case using d d' same_pods_trans [OF d(3) d'(3)] by (simp add: e)
qed simp

lemma AddOrUpdatePod_ok:
  assumes cfg: "config_ok config" and ok: "cluster_ok config c" and lc: "wf_labels ls"
  shows "\<exists>c'. AddOrUpdatePod config now c pid ls phase = Inr c' \<and> cluster_ok config c'"
proof -
  let ?key = "label_String ls"
  let ?cl = "c\<lparr>labelSetMap := AList.update ?key ls (labelSetMap c)\<rparr>"
  have core: "core_ok config c" and cnt: "counts_with (vpa_counts c) c" using ok by (simp_all add: cluster_ok_iff)
  have cl: "core_ok config ?cl" "vpa_counts ?cl = vpa_counts c" by (rule label_insert_ok [OF core lc])+
  have cntl: "counts_with (vpa_counts c) ?cl" using cnt by (simp add: counts_with_def)
  have maps: "maps_ok ?cl" and st: "store_ok config ?cl" using cl(1) by (simp_all add: core_ok_def)
  show ?thesis
  proof (cases "\<exists>pod. map_of (Pods c) pid = Some pod \<and> ps_labelSetKey pod = ?key")
    case True
    then obtain pod where pod: "map_of (Pods c) pid = Some pod" "ps_labelSetKey pod = ?key" by blast
    have pid: "ps_ID pod = pid" using maps map_of_SomeD [OF pod(1)] by (auto simp: maps_ok_def)
    have "\<forall>(n, ct) \<in> set (Containers pod). container_fits ?cl pid n ct"
      using st map_of_SomeD [OF pod(1)] by (auto simp: store_ok_iff)
    then have "core_ok config (?cl\<lparr>Pods := AList.update pid (pod\<lparr>ps_Phase := phase\<rparr>) (Pods ?cl)\<rparr>)"
      "vpa_counts (?cl\<lparr>Pods := AList.update pid (pod\<lparr>ps_Phase := phase\<rparr>) (Pods ?cl)\<rparr>) = vpa_counts ?cl"
      using update_pod_ok [OF cl(1), of pid pod "pod\<lparr>ps_Phase := phase\<rparr>"] pod by simp_all
    then show ?thesis
      using pod cntl cl(2)
      by (simp add: AddOrUpdatePod_def getLabelSetKey_def Let_def cluster_ok_iff counts_with_def)
  next
    case False
    define old where "old = map_of (Pods c) pid"
    define pod where "pod = (case old of Some p \<Rightarrow> p | None \<Rightarrow> newPod pid)"
    define pod1 where "pod1 = pod\<lparr>ps_labelSetKey := ?key\<rparr>"
    define f where "f vid sel = vpa_counts c vid sel -
      (case old of Some q \<Rightarrow> if pod_selected ?cl vid sel pid q then 1 else 0 | None \<Rightarrow> 0)" for vid sel
    define c3 where "c3 = (case old of Some q \<Rightarrow> removePodFromItsVpa ?cl q | None \<Rightarrow> ?cl)"
    have ids: "ps_ID pod = pid" "\<forall>(n, ct) \<in> set (Containers pod). container_fits ?cl pid n ct"
    proof -
      have "ps_ID pod = pid \<and> (\<forall>(n, ct) \<in> set (Containers pod). container_fits ?cl pid n ct)"
      proof (cases old)
        case (Some q)
        then have q: "(pid, q) \<in> set (Pods ?cl)" by (simp add: old_def map_of_SomeD)
        then show ?thesis
          using bspec [OF conjunct2 [OF conjunct2 [OF st [unfolded store_ok_iff]]] q] maps Some
          by (auto simp: maps_ok_def pod_def)
      qed (simp add: pod_def newPod_def)
      then show "ps_ID pod = pid" "\<forall>(n, ct) \<in> set (Containers pod). container_fits ?cl pid n ct" by auto
    qed
    have c3: "core_ok config c3" "counts_with f c3" "Pods c3 = Pods c" "labelSetMap c3 = labelSetMap ?cl" "cs_store c3 = cs_store c"
    proof -
      have "core_ok config c3 \<and> counts_with f c3 \<and> Pods c3 = Pods c \<and> labelSetMap c3 = labelSetMap ?cl \<and> cs_store c3 = cs_store c"
      proof (cases old)
        case None
        then have "f = vpa_counts c" by (simp add: f_def fun_eq_iff)
        then show ?thesis using None cl(1) cntl by (simp add: c3_def)
      next
        case (Some q)
        then have q: "q = pod" by (simp add: pod_def)
        have "f = (\<lambda>vid sel. vpa_counts c vid sel + (if pod_selected ?cl vid sel (ps_ID pod) pod then - 1 else 0))"
          by (auto simp: f_def fun_eq_iff Some q ids(1))
        then show ?thesis
          using Some q shift_count_ok [OF cl(1), where n = "- 1" and pod = pod] cntl
          by (simp add: c3_def removePodFromItsVpa_eq)
      qed
      then show "core_ok config c3" "counts_with f c3" "Pods c3 = Pods c" "labelSetMap c3 = labelSetMap ?cl" "cs_store c3 = cs_store c"
        by auto
    qed
    let ?c4 = "c3\<lparr>Pods := AList.update pid pod1 (Pods c3)\<rparr>"
    have fits3: "\<forall>(n, ct) \<in> set (Containers pod1). container_fits c3 pid n ct"
      using ids(2) container_fits_cong [of c3 ?cl] c3(5) by (simp add: pod1_def)
    have c4: "core_ok config ?c4" "vpa_counts ?c4 vid sel = f vid sel + (if pod_selected c3 vid sel pid pod1 then 1 else 0)" for vid sel
      using set_pod_ok [OF c3(1), of pod1 pid] ids(1) fits3 c3(3,4) pod_selected_cong [OF c3(4)]
        vpa_counts_cong [OF c3(4)] by (simp_all add: pod1_def f_def old_def cl(2) split: option.split)
    have pod4: "map_of (Pods ?c4) pid = Some pod1" by simp
    have "\<forall>(n, ct) \<in> set (Containers pod1). 0 \<le> WindowEnd ct" using fits3 by (auto simp: container_fits_def)
    from relink_containers_ok [OF cfg c4(1) pod4 this, of now]
    obtain cts c5 where c5: "relink_containers config now pid (Containers pod1) ?c4 = Inr (cts, c5)" "core_ok config c5"
      "same_pods ?c4 c5" "\<forall>f. counts_with f ?c4 \<longrightarrow> counts_with f c5" "\<forall>(n, ct) \<in> set cts. container_fits c5 pid n ct"
      by blast
    let ?pod2 = "pod1\<lparr>Containers := cts\<rparr>"
    let ?c6 = "addPodToItsVpa c5 ?pod2"
    have sel: "pod_selected c5 vid sel pid ?pod2 = pod_selected c3 vid sel pid pod1" for vid sel
      using c5(3) by (simp add: pod_selected_def same_pods_def)
    have c6: "core_ok config ?c6" "counts_with (\<lambda>vid sel. f vid sel + (if pod_selected c3 vid sel pid pod1 then 1 else 0)) ?c6"
    proof -
      show "core_ok config ?c6" unfolding addPodToItsVpa_eq by (rule shift_count_ok(1) [OF c5(2)])
      have "counts_with f c5" using c5(4) c3(2) by (simp add: counts_with_def)
      from shift_count_ok(2) [OF c5(2) this, where n = 1 and pod = ?pod2]
      show "counts_with (\<lambda>vid sel. f vid sel + (if pod_selected c3 vid sel pid pod1 then 1 else 0)) ?c6"
        unfolding addPodToItsVpa_eq using sel ids(1) by (simp add: pod1_def)
    qed
    have p6: "map_of (Pods ?c6) pid = Some pod1" "labelSetMap ?c6 = labelSetMap ?c4" "Pods ?c6 = Pods ?c4" "cs_store ?c6 = cs_store c5"
      using c5(3) by (simp_all add: addPodToItsVpa_def same_pods_def)
    have fits6: "\<forall>(n, ct) \<in> set (Containers (?pod2\<lparr>ps_Phase := phase\<rparr>)). container_fits ?c6 pid n ct"
      using c5(5) container_fits_cong [OF p6(4)] by simp
    let ?c7 = "?c6\<lparr>Pods := AList.update pid (?pod2\<lparr>ps_Phase := phase\<rparr>) (Pods ?c6)\<rparr>"
    have c7: "core_ok config ?c7" "vpa_counts ?c7 = vpa_counts ?c6"
      using update_pod_ok [OF c6(1) p6(1) _ _ fits6] by simp_all
    have "vpa_counts ?c6 = (\<lambda>vid sel. f vid sel + (if pod_selected c3 vid sel pid pod1 then 1 else 0))"
      using vpa_counts_cong [OF p6(2,3)] c4(2) by (simp add: fun_eq_iff)
    then have "cluster_ok config ?c7" using c7 c6(2) by (simp add: cluster_ok_iff counts_with_def)
    moreover have "AddOrUpdatePod config now c pid ls phase = Inr ?c7"
    proof (cases old)
      case None
      then show ?thesis using c5(1)
        by (simp add: AddOrUpdatePod_def getLabelSetKey_def Let_def old_def pod_def pod1_def c3_def)
    next
      case (Some q)
      then have "ps_labelSetKey q \<noteq> ?key" using False by (simp add: old_def)
      then show ?thesis using c5(1) Some
        by (simp add: AddOrUpdatePod_def getLabelSetKey_def Let_def old_def pod_def pod1_def c3_def)
    qed
    ultimately show ?thesis by blast
  qed
qed

section \<open>VPAs keep the invariant\<close>

lemma fold_store_ok:
  "states_ok config st \<Longrightarrow> (\<And>e a. agg_ok config a \<Longrightarrow> agg_ok config (g e a)) \<Longrightarrow>
   states_ok config (fold (\<lambda>(k, addr) s. s[addr := g k (s ! addr)]) es st) \<and>
   length (fold (\<lambda>(k, addr) s. s[addr := g k (s ! addr)]) es st) = length st"
proof (induction es arbitrary: st)
  case (Cons e es)
  obtain k addr where e: "e = (k, addr)" by (cases e)
  have "states_ok config (st[addr := g k (st ! addr)])"
    using Cons.prems by (intro states_ok_update) auto
  then show ?case using Cons.IH [of "st[addr := g k (st ! addr)]"] Cons.prems(2) by (simp add: e)
qed simp

lemma SetUpdateMode_spec:
  assumes "SetUpdateMode same vpa st mode = (vpa', st')" "states_ok config st"
  shows "states_ok config st'" "length st' = length st" "vpa_same vpa vpa'" "PodCount vpa' = PodCount vpa"
    "aggregateContainerStates vpa' = aggregateContainerStates vpa"
  using assms fold_store_ok [OF assms(2), of "\<lambda>k a. a\<lparr>acs_UpdateMode := m\<rparr>" "aggregateContainerStates vpa" for m]
  by (auto simp: SetUpdateMode_def Let_def vpa_same_def split: option.splits if_splits)

lemma SetResourcePolicy_spec:
  assumes "SetResourcePolicy same vpa st policy = (vpa', st')" "states_ok config st"
  shows "states_ok config st'" "length st' = length st" "vpa_same vpa vpa'" "PodCount vpa' = PodCount vpa"
    "aggregateContainerStates vpa' = aggregateContainerStates vpa"
  using assms fold_store_ok [OF assms(2), of "\<lambda>k a. UpdateFromPolicy a
      (GetContainerResourcePolicy (ak_containerName k) policy)" "aggregateContainerStates vpa"]
  by (auto simp: SetResourcePolicy_def vpa_same_def split: if_splits)

lemma link_aggregations_spec:
  assumes "gomap_ok aggs" "states_ok config st" "link_aggregations c aggs (vpa, st) = (vpa', st')"
  shows "states_ok config st' \<and> length st' = length st \<and> vpa_same vpa vpa' \<and> PodCount vpa' = PodCount vpa \<and>
    (\<forall>k. map_of (aggregateContainerStates vpa') k =
       (case map_of (aggregateContainerStates vpa) k of
          Some a \<Rightarrow> Some a
        | None \<Rightarrow> if matchesAggregation vpa k (key_Labels c k) then map_of aggs k else None))"
  using assms
proof (induction aggs arbitrary: vpa st)
  case Nil
  then show ?case by (auto simp: link_aggregations_def split: option.splits)
next
  case (Cons e aggs)
  obtain k addr where e: "e = (k, addr)" by (cases e)
  obtain v1 st1 where u: "UseAggregationIfMatching vpa st k (key_Labels c k) addr = (v1, st1)" by fastforce
  note us = UseAggregation_spec [OF u]
  have fresh: "map_of aggs k = None" using Cons.prems(1) by (simp add: e gomap_ok_def map_of_eq_None_iff)
  have IH: "states_ok config st' \<and> length st' = length st1 \<and> vpa_same v1 vpa' \<and> PodCount vpa' = PodCount v1 \<and>
    (\<forall>k. map_of (aggregateContainerStates vpa') k =
       (case map_of (aggregateContainerStates v1) k of
          Some a \<Rightarrow> Some a
        | None \<Rightarrow> if matchesAggregation v1 k (key_Labels c k) then map_of aggs k else None))"
    using Cons.IH [of st1 v1] Cons.prems us(5) [OF Cons.prems(2)] u
    by (simp add: link_aggregations_def e gomap_ok_def)
  then show ?case
    using us(1-4) fresh vpa_same_matches [OF us(1)]
    by (auto simp: e vpa_same_def split: option.splits if_splits)
qed

text \<open>Writing back one VPA and a store in which its aggregates changed.\<close>

lemma set_vpa_ok:
  assumes ok: "cluster_ok config c" and st: "states_ok config st" "length st = length (cs_store c)"
    and v: "vpa_ID v = vid" "PodCount v = vpa_counts c vid (PodSelector v)"
      "\<And>k. map_of (aggregateContainerStates v) k =
        (if matchesAggregation v k (key_Labels c k) then map_of (aggregateStateMap c) k else None)"
  shows "cluster_ok config (c\<lparr>Vpas := AList.update vid v (Vpas c), cs_store := st\<rparr>)"
proof -
  let ?d = "c\<lparr>Vpas := AList.update vid v (Vpas c), cs_store := st\<rparr>"
  have maps: "maps_ok c" and links: "links_ok c" and sto: "store_ok config c" and cnt: "counts_with (vpa_counts c) c"
    using ok by (simp_all add: cluster_ok_iff core_ok_def)
  have sub: "set (AList.update vid v (Vpas c)) \<subseteq> insert (vid, v) (set (Vpas c))" by (rule set_AList_update)
  then have sub': "snd ` set (Vpas ?d) \<subseteq> insert v (snd ` set (Vpas c))" by auto
  have "store_ok config ?d"
    by (rule store_ok_grow [OF sto]) (use st sto in \<open>auto simp: same_pods_def store_ok_def\<close>)
  moreover have "maps_ok ?d" using maps sub v(1) by (auto simp: maps_ok_def)
  moreover have "links_ok ?d"
    unfolding links_ok_def
    by (rule Ball_subset [OF sub']) (use links v(3) in \<open>simp add: links_ok_def key_Labels_def\<close>)
  moreover have "counts_with (vpa_counts c) ?d"
    unfolding counts_with_def
    by (rule Ball_subset [OF sub']) (use cnt v(1,2) in \<open>simp add: counts_with_def\<close>)
  moreover have "vpa_counts ?d = vpa_counts c" by (rule vpa_counts_cong) simp_all
  ultimately show ?thesis by (simp add: cluster_ok_iff core_ok_def)
qed

lemma DeleteVpa_ok:
  assumes "cluster_ok config c"
  shows "cluster_ok config (snd (DeleteVpa c vid))"
proof (cases "map_of (Vpas c) vid")
  case None
  then show ?thesis using assms by (simp add: DeleteVpa_def)
next
  case (Some vpa)
  let ?st = "fold (\<lambda>(_, addr) s. s[addr := MarkNotAutoscaled (s ! addr)]) (aggregateContainerStates vpa) (cs_store c)"
  let ?d = "c\<lparr>cs_store := ?st, Vpas := AList.delete vid (Vpas c), EmptyVPAs := AList.delete vid (EmptyVPAs c)\<rparr>"
  have maps: "maps_ok c" and links: "links_ok c" and sto: "store_ok config c" and cnt: "counts_with (vpa_counts c) c"
    using assms by (simp_all add: cluster_ok_iff core_ok_def)
  have st: "states_ok config ?st" "length ?st = length (cs_store c)"
    using fold_store_ok [of config "cs_store c" "\<lambda>k. MarkNotAutoscaled" "aggregateContainerStates vpa"] sto
    by (auto simp: store_ok_def)
  have sub: "set (AList.delete vid (Vpas c)) \<subseteq> set (Vpas c)" by (rule set_AList_delete)
  then have sub': "snd ` set (Vpas ?d) \<subseteq> snd ` set (Vpas c)" by auto
  have "store_ok config ?d"
    by (rule store_ok_grow [OF sto]) (use st sto in \<open>auto simp: same_pods_def store_ok_def\<close>)
  moreover have "maps_ok ?d" using maps sub by (auto simp: maps_ok_def)
  moreover have "links_ok ?d"
    unfolding links_ok_def
    by (rule Ball_subset [OF sub']) (use links in \<open>simp add: links_ok_def key_Labels_def\<close>)
  moreover have "counts_with (vpa_counts c) ?d"
    unfolding counts_with_def by (rule Ball_subset [OF sub']) (use cnt in \<open>simp add: counts_with_def\<close>)
  moreover have "vpa_counts ?d = vpa_counts c" by (rule vpa_counts_cong) simp_all
  ultimately show ?thesis using Some by (simp add: DeleteVpa_def cluster_ok_iff core_ok_def)
qed

lemma GetMatchingPods_count: "int (length (GetMatchingPods c vpa)) = vpa_counts c (vpa_ID vpa) (PodSelector vpa)"
  by (simp add: GetMatchingPods_def vpa_counts_def count_if_def pod_matches_vpa_def)

lemma AddOrUpdateVpa_ok:
  assumes ok: "cluster_ok config c"
  shows "\<exists>c'. AddOrUpdateVpa sameMode samePolicy c obj sel = (None, c') \<and> cluster_ok config c'"
proof -
  define vid where "vid = \<lparr>vid_Namespace = vpa_Namespace obj, VpaName = vpa_Name obj\<rparr>"
  define changed where "changed = (case map_of (Vpas c) vid of
    Some vpa \<Rightarrow> Selector_String (PodSelector vpa) \<noteq> Selector_String sel | None \<Rightarrow> False)"
  define c1 where "c1 = (if changed then snd (DeleteVpa c vid) else c)"
  have ok1: "cluster_ok config c1" using ok DeleteVpa_ok by (simp add: c1_def)
  define start where "start = (case map_of (Vpas c1) vid of Some vpa \<Rightarrow> (vpa, c1)
    | None \<Rightarrow> let (vpa, st) = link_aggregations c1 (aggregateStateMap c1)
                       (NewVpa vid sel (CreationTimestamp obj), cs_store c1)
              in (vpa\<lparr>PodCount := int (length (GetMatchingPods c1 vpa))\<rparr>, c1\<lparr>cs_store := st\<rparr>))"
  obtain vpa c2 where s: "start = (vpa, c2)" by fastforce
  have maps1: "maps_ok c1" and links1: "links_ok c1" and sto1: "store_ok config c1" and cnt1: "counts_with (vpa_counts c1) c1"
    using ok1 by (simp_all add: cluster_ok_iff core_ok_def)
  have st: "\<exists>st. c2 = c1\<lparr>cs_store := st\<rparr> \<and> states_ok config st \<and> length st = length (cs_store c1) \<and>
      vpa_ID vpa = vid \<and> PodCount vpa = vpa_counts c1 vid (PodSelector vpa) \<and>
      (\<forall>k. map_of (aggregateContainerStates vpa) k =
        (if matchesAggregation vpa k (key_Labels c1 k) then map_of (aggregateStateMap c1) k else None))"
  proof (cases "map_of (Vpas c1) vid")
    case (Some v)
    then have v: "vpa = v" "c2 = c1" "(vid, v) \<in> set (Vpas c1)" using s by (auto simp: start_def map_of_SomeD)
    have mem: "v \<in> snd ` set (Vpas c1)" using v(3) by force
    have "vpa_ID v = vid" using maps1 v(3) by (auto simp: maps_ok_def)
    then show ?thesis
      using v(1,2) sto1 links1 [unfolded links_ok_def, rule_format, OF mem] cnt1 [unfolded counts_with_def, rule_format, OF mem]
      by (intro exI [of _ "cs_store c1"]) (simp add: store_ok_def)
  next
    case None
    obtain v st where l: "link_aggregations c1 (aggregateStateMap c1)
        (NewVpa vid sel (CreationTimestamp obj), cs_store c1) = (v, st)" by fastforce
    have "gomap_ok (aggregateStateMap c1)" "states_ok config (cs_store c1)"
      using maps1 sto1 by (simp_all add: maps_ok_def store_ok_def)
    note sp = link_aggregations_spec [OF this l]
    have v: "vpa = v\<lparr>PodCount := int (length (GetMatchingPods c1 v))\<rparr>" "c2 = c1\<lparr>cs_store := st\<rparr>"
      using s None by (simp_all add: start_def l)
    have "vpa_same (NewVpa vid sel (CreationTimestamp obj)) v" using sp by simp
    then have same: "vpa_ID v = vid" "PodSelector v = sel" by (simp_all add: vpa_same_def NewVpa_def)
    have "map_of (aggregateContainerStates v) k = (if matchesAggregation v k (key_Labels c1 k)
        then map_of (aggregateStateMap c1) k else None)" for k
      using sp vpa_same_matches [OF \<open>vpa_same _ v\<close>, of k] by (auto simp: NewVpa_def)
    then show ?thesis
      using sp v same GetMatchingPods_count [of c1 v] by (auto simp: matchesAggregation_def)
  qed
  then obtain st where c2: "c2 = c1\<lparr>cs_store := st\<rparr>" "states_ok config st" "length st = length (cs_store c1)"
    "vpa_ID vpa = vid" "PodCount vpa = vpa_counts c1 vid (PodSelector vpa)"
    "\<And>k. map_of (aggregateContainerStates vpa) k =
      (if matchesAggregation vpa k (key_Labels c1 k) then map_of (aggregateStateMap c1) k else None)"
    by blast
  define vpa1 where "vpa1 = vpa\<lparr>vpa_TargetRef := TargetRef (vpa_Spec obj), Annotations := vpa_Annotations obj,
    Conditions := status_conditions obj, Recommendation := (if ConditionActive (status_conditions obj) RecommendationProvided
       then st_Recommendation (vpa_Status obj) else None)\<rparr>"
  obtain vpa2 st2 where m: "SetUpdateMode sameMode vpa1 (cs_store c2) (UpdatePolicy (vpa_Spec obj)) = (vpa2, st2)" by fastforce
  obtain vpa3 st3 where p: "SetResourcePolicy samePolicy vpa2 st2 (ResourcePolicy (vpa_Spec obj)) = (vpa3, st3)" by fastforce
  have "states_ok config (cs_store c2)" using c2(1,2) by simp
  note m' = SetUpdateMode_spec [OF m this]
  note p' = SetResourcePolicy_spec [OF p m'(1)]
  have v3: "vpa_ID vpa3 = vid" "PodSelector vpa3 = PodSelector vpa" "PodCount vpa3 = PodCount vpa"
    "aggregateContainerStates vpa3 = aggregateContainerStates vpa"
    using m' p' c2(4) by (auto simp: vpa_same_def vpa1_def)
  have "cluster_ok config (c1\<lparr>Vpas := AList.update vid vpa3 (Vpas c1), cs_store := st3\<rparr>)"
    by (rule set_vpa_ok [OF ok1]) (use p'(1,2) m'(2) c2 v3 in \<open>simp_all add: matchesAggregation_def\<close>)
  moreover have "AddOrUpdateVpa sameMode samePolicy c obj sel =
      (None, c2\<lparr>Vpas := AList.update vid vpa3 (Vpas c2), cs_store := st3\<rparr>)"
    unfolding AddOrUpdateVpa_def Let_def vid_def [symmetric] changed_def [symmetric] c1_def [symmetric]
    using s m p by (simp add: start_def [unfolded Let_def] vpa1_def)
  ultimately show ?thesis by (simp add: c2(1))
qed

end
