(* ===== verification/Cluster_Lifecycle.thy ===== *)
theory Cluster_Lifecycle
  imports Cluster_State
begin

text \<open>
  The life of a cluster state: garbage collection of aggregate states keeps the invariant, every
  state that a sequence of operations of \<open>cluster.go\<close> reaches satisfies it, and what that means for
  pod counts, for the links between VPAs and aggregations, and for samples after a label change.
\<close>

section \<open>Garbage collection keeps the invariant\<close>

lemma DeleteAggregation_spec:
  assumes "DeleteAggregation vpa st k = (vpa', st')"
  shows "vpa_same vpa vpa'" "PodCount vpa' = PodCount vpa" "length st' = length st"
    "\<And>j. map_of (aggregateContainerStates vpa') j = (if j = k then None else map_of (aggregateContainerStates vpa) j)"
    "states_ok config st \<Longrightarrow> states_ok config st'"
  using assms
  by (auto intro!: states_ok_update simp: DeleteAggregation_def vpa_same_def delete_conv' split: option.splits)

lemma unlink_vpas_spec:
  assumes "unlink_vpas k vs st = (vs', st')"
  shows "length st' = length st \<and> map fst vs' = map fst vs \<and> (states_ok config st \<longrightarrow> states_ok config st') \<and>
    (\<forall>v' \<in> snd ` set vs'. \<exists>v \<in> snd ` set vs. vpa_same v v' \<and> PodCount v' = PodCount v \<and>
      (\<forall>j. map_of (aggregateContainerStates v') j =
         (if j = k then None else map_of (aggregateContainerStates v) j))) \<and>
    (\<forall>(i, v') \<in> set vs'. \<exists>v. (i, v) \<in> set vs \<and> vpa_same v v')"
  using assms
proof (induction vs arbitrary: st vs' st')
  case (Cons e vs)
  obtain i v where e: "e = (i, v)" by (cases e)
  obtain v1 st1 where u: "DeleteAggregation v st k = (v1, st1)" by fastforce
  obtain vs2 st2 where l: "unlink_vpas k vs st1 = (vs2, st2)" by fastforce
  have r: "vs' = (i, v1) # vs2" "st' = st2" using Cons.prems by (simp_all add: e u l)
  note IH = Cons.IH [OF l]
  note s = DeleteAggregation_spec [OF u]
  show ?case using IH s unfolding r e by (auto; blast)
qed simp

lemma delete_key_spec:
  assumes "cluster_ok config c"
  shows "cluster_ok config (delete_key k c)" "Pods (delete_key k c) = Pods c"
    "aggregateStateMap (delete_key k c) = AList.delete k (aggregateStateMap c)"
proof -
  obtain vs st where u: "unlink_vpas k (Vpas c) (cs_store c) = (vs, st)" by fastforce
  let ?d = "c\<lparr>aggregateStateMap := AList.delete k (aggregateStateMap c), Vpas := vs, cs_store := st\<rparr>"
  have d: "delete_key k c = ?d" by (simp add: delete_key_def u)
  note sp = unlink_vpas_spec [OF u, of config]
  have maps: "maps_ok c" and links: "links_ok c" and sto: "store_ok config c" and cnt: "counts_with (vpa_counts c) c"
    using assms by (simp_all add: cluster_ok_iff core_ok_def)
  have sub: "set (AList.delete k (aggregateStateMap c)) \<subseteq> set (aggregateStateMap c)" by (rule set_AList_delete)
  have "store_ok config ?d"
    by (rule store_ok_grow [OF sto]) (use sp sto sub in \<open>auto simp: same_pods_def store_ok_def\<close>)
  moreover have "maps_ok ?d"
  proof -
    have "gomap_ok vs" using maps sp by (simp add: maps_ok_def gomap_ok_def)
    moreover have "\<forall>(vid, vpa) \<in> set vs. vpa_ID vpa = vid"
      using maps sp unfolding maps_ok_def vpa_same_def by (fastforce split: prod.splits)
    ultimately show ?thesis using maps sub by (auto simp: maps_ok_def)
  qed
  moreover have "links_ok ?d"
    unfolding links_ok_def
  proof (intro ballI allI)
    fix v' j assume "v' \<in> snd ` set (Vpas ?d)"
    then have "v' \<in> snd ` set vs" by simp
    then obtain v where v: "v \<in> snd ` set (Vpas c)" "vpa_same v v'"
      "\<forall>j. map_of (aggregateContainerStates v') j = (if j = k then None else map_of (aggregateContainerStates v) j)"
      using sp by blast
    show "map_of (aggregateContainerStates v') j = (if matchesAggregation v' j (key_Labels ?d j)
        then map_of (aggregateStateMap ?d) j else None)"
      using links [unfolded links_ok_def, rule_format, OF v(1), of j] v(3) vpa_same_matches [OF v(2)]
      by (simp add: key_Labels_def delete_conv')
  qed
  moreover have "counts_with (vpa_counts c) ?d"
    unfolding counts_with_def
  proof
    fix v' assume "v' \<in> snd ` set (Vpas ?d)"
    then have "v' \<in> snd ` set vs" by simp
    then obtain v where "v \<in> snd ` set (Vpas c)" "vpa_same v v'" "PodCount v' = PodCount v"
      using sp by blast
    then show "PodCount v' = vpa_counts c (vpa_ID v') (PodSelector v')"
      using cnt by (auto simp: counts_with_def vpa_same_def)
  qed
  moreover have "vpa_counts ?d = vpa_counts c" by (rule vpa_counts_cong) simp_all
  ultimately show "cluster_ok config (delete_key k c)" by (simp add: d cluster_ok_iff core_ok_def)
  show "Pods (delete_key k c) = Pods c" "aggregateStateMap (delete_key k c) = AList.delete k (aggregateStateMap c)"
    by (simp_all add: d)
qed

lemma fold_delete_key:
  "cluster_ok config c \<Longrightarrow> cluster_ok config (fold delete_key ks c) \<and> Pods (fold delete_key ks c) = Pods c \<and>
   (\<forall>k. map_of (aggregateStateMap (fold delete_key ks c)) k =
      (if k \<in> set ks then None else map_of (aggregateStateMap c) k))"
proof (induction ks arbitrary: c)
  case (Cons k ks)
  note d = delete_key_spec [OF Cons.prems, of k]
  show ?case using Cons.IH [OF d(1)] d(2,3) by (auto simp: delete_conv')
qed simp

text \<open>The aggregations that the comment on the collector calls obsolete.\<close>

definition obsolete :: "AggregationsConfig \<Rightarrow> time \<Rightarrow> ClusterState \<Rightarrow> AggregateStateKey \<Rightarrow> nat \<Rightarrow> bool" where
  "obsolete config now c k addr \<longleftrightarrow>
     (let a = cs_store c ! addr in
      (TotalSamplesCount a = 0 \<and> k \<notin> set (getActiveAggregateStateKeys c)) \<or>
      (TotalSamplesCount a \<noteq> 0 \<and> GetMemoryAggregationWindowLength config \<le> time_Sub now (LastSampleStart a)) \<or>
      (TotalSamplesCount a = 0 \<and> GetMemoryAggregationWindowLength config \<le> time_Sub now (CreationTime a)))"

lemma keys_to_delete_obsolete:
  assumes "gomap_ok (aggregateStateMap c)" "map_of (aggregateStateMap c) k = Some addr"
  shows "k \<in> set (keys_to_delete config now c) \<longleftrightarrow> obsolete config now c k addr"
proof -
  have "(k, addr') \<in> set (aggregateStateMap c) \<longleftrightarrow> addr' = addr" for addr'
    using assms by (metis Some_eq_map_of_iff gomap_ok_def option.inject)
  then show ?thesis
    by (auto simp: keys_to_delete_def obsolete_def isExpired_def agg_isEmpty_def Let_def image_iff split: if_splits)
qed

text \<open>
  C30. Garbage collection removes exactly the obsolete aggregations: those without samples that no
  container of a live pod contributes to, and those whose last sample (or creation, without
  samples) is at least the memory aggregation window old. Every other aggregation stays, at its
  address, no VPA keeps a link to a removed one, the pods and their containers are untouched and
  the invariant of the cluster state is kept.
\<close>

theorem GarbageCollect_removes_exactly_obsolete:
  assumes "cluster_ok config c" "c' = GarbageCollectAggregateCollectionStates config c now"
  shows "cluster_ok config c' \<and> Pods c' = Pods c \<and>
    (\<forall>k. map_of (aggregateStateMap c') k = (case map_of (aggregateStateMap c) k of
       None \<Rightarrow> None
     | Some addr \<Rightarrow> if obsolete config now c k addr then None else Some addr)) \<and>
    (\<forall>vpa \<in> snd ` set (Vpas c'). \<forall>k addr. map_of (aggregateContainerStates vpa) k = Some addr \<longrightarrow>
       map_of (aggregateStateMap c') k = Some addr \<and> \<not> obsolete config now c k addr)"
proof -
  note f = fold_delete_key [OF assms(1), of "keys_to_delete config now c"]
  have c': "c' = fold delete_key (keys_to_delete config now c) c"
    by (simp add: assms(2) GarbageCollectAggregateCollectionStates_def)
  have ok: "cluster_ok config c'" "Pods c' = Pods c" using f by (simp_all add: c')
  have g: "gomap_ok (aggregateStateMap c)" using assms(1) by (simp add: cluster_ok_def maps_ok_def)
  have m: "map_of (aggregateStateMap c') k = (case map_of (aggregateStateMap c) k of
       None \<Rightarrow> None | Some addr \<Rightarrow> if obsolete config now c k addr then None else Some addr)" for k
    using f keys_to_delete_obsolete [OF g, of k _ config now] by (simp add: c' split: option.split)
  have "map_of (aggregateStateMap c') k = Some addr \<and> \<not> obsolete config now c k addr"
    if v: "vpa \<in> snd ` set (Vpas c')" "map_of (aggregateContainerStates vpa) k = Some addr" for vpa k addr
  proof -
    have "links_ok c'" using ok(1) by (simp add: cluster_ok_def)
    from this [unfolded links_ok_def, rule_format, OF v(1), of k] v(2)
    have "map_of (aggregateStateMap c') k = Some addr" by (simp split: if_splits)
    then show ?thesis using m [of k] by (simp split: option.splits if_splits)
  qed
  then show ?thesis using ok m by blast
qed

section \<open>Reachable cluster states\<close>

text \<open>
  The states that sequences of operations reach. Samples and OOM events carry positive times whose
  distance to the memory window of the container fits a duration.
\<close>

inductive cluster_reach :: "AggregationsConfig \<Rightarrow> ClusterState \<Rightarrow> bool" for config where
  new: "cluster_reach config NewClusterState"
| add_pod: "cluster_reach config c \<Longrightarrow> wf_labels ls \<Longrightarrow>
    AddOrUpdatePod config now c pid ls phase = Inr c' \<Longrightarrow> cluster_reach config c'"
| delete_pod: "cluster_reach config c \<Longrightarrow> cluster_reach config (DeletePod c pid)"
| add_container: "cluster_reach config c \<Longrightarrow>
    AddOrUpdateContainer config now c cid request = Inr (e, c') \<Longrightarrow> cluster_reach config c'"
| add_sample: "cluster_reach config c \<Longrightarrow> 0 < MeasureStart s \<Longrightarrow>
    (\<And>ct. GetContainer c cid = Some ct \<Longrightarrow> window_fits config ct (MeasureStart s)) \<Longrightarrow>
    cluster_AddSample config now c cid s = Inr (e, c', obs) \<Longrightarrow> cluster_reach config c'"
| record_oom: "cluster_reach config c \<Longrightarrow> 0 < t \<Longrightarrow>
    (\<And>ct. GetContainer c cid = Some ct \<Longrightarrow> window_fits config ct t) \<Longrightarrow>
    cluster_RecordOOM config now c cid t m = Inr (e, c', obs) \<Longrightarrow> cluster_reach config c'"
| add_vpa: "cluster_reach config c \<Longrightarrow>
    AddOrUpdateVpa sameMode samePolicy c obj sel = (e, c') \<Longrightarrow> cluster_reach config c'"
| delete_vpa: "cluster_reach config c \<Longrightarrow> cluster_reach config (snd (DeleteVpa c vid))"
| collect: "cluster_reach config c \<Longrightarrow>
    cluster_reach config (GarbageCollectAggregateCollectionStates config c now)"
| recommend: "cluster_reach config c \<Longrightarrow> RecordRecommendation c vpa now = (e, c') \<Longrightarrow> cluster_reach config c'"

lemma cluster_ok_cong:
  assumes "cluster_ok config c" "Pods d = Pods c" "Vpas d = Vpas c" "aggregateStateMap d = aggregateStateMap c"
    "labelSetMap d = labelSetMap c" "cs_store d = cs_store c"
  shows "cluster_ok config d"
proof -
  have "vpa_counts d = vpa_counts c" using assms by (intro vpa_counts_cong)
  moreover have "store_ok config d = store_ok config c" using assms by (intro store_ok_cong) auto
  moreover have "key_Labels d = key_Labels c" using assms by (simp add: key_Labels_def fun_eq_iff)
  ultimately show ?thesis using assms by (simp add: cluster_ok_iff core_ok_def counts_with_def links_ok_def maps_ok_def)
qed

lemma RecordRecommendation_ok:
  "cluster_ok config c \<Longrightarrow> RecordRecommendation c vpa now = (e, c') \<Longrightarrow> cluster_ok config c'"
  by (rule cluster_ok_cong [of config c]) (auto simp: RecordRecommendation_def split: if_splits option.splits)

lemma GarbageCollect_ok:
  "cluster_ok config c \<Longrightarrow> cluster_ok config (GarbageCollectAggregateCollectionStates config c now)"
  using fold_delete_key by (simp add: GarbageCollectAggregateCollectionStates_def)

lemma cluster_reach_ok:
  assumes "cluster_reach config c" "config_ok config"
  shows "cluster_ok config c"
  using assms(1)
proof induction
  case new
  show ?case by (rule NewClusterState_ok)
next
  case (add_pod c ls now pid phase c')
  then show ?case using AddOrUpdatePod_ok [OF assms(2), of c ls now pid phase] by auto
next
  case (delete_pod c pid)
  then show ?case by (intro DeletePod_ok)
next
  case (add_container c now cid request e c')
  then show ?case using AddOrUpdateContainer_ok [OF assms(2), of c now cid request] by auto
next
  case (add_sample c s cid now e c' obs)
  then show ?case using cluster_AddSample_ok [OF assms(2), of c s cid now] by auto
next
  case (record_oom c t cid now m e c' obs)
  then show ?case using cluster_RecordOOM_ok [OF assms(2), of c t cid now m] by auto
next
  case (add_vpa c sameMode samePolicy obj sel e c')
  then show ?case using AddOrUpdateVpa_ok [of config c sameMode samePolicy obj sel] by auto
next
  case (delete_vpa c vid)
  then show ?case by (intro DeleteVpa_ok)
next
  case (collect c now)
  then show ?case by (intro GarbageCollect_ok)
next
  case (recommend c vpa now e c')
  then show ?case using RecordRecommendation_ok by blast
qed

text \<open>
  C3. In every state that a sequence of operations reaches, each VPA counts exactly the pods of
  the cluster that it matches, it is linked with exactly the aggregations of the cluster that it
  matches (the same states, not copies), and no operation panics: adding or updating a pod or a
  container, and a sample or OOM event with a time that fits the memory window, return.
\<close>

theorem cluster_invariant:
  assumes "cluster_reach config c" "config_ok config"
  shows "(\<forall>vpa \<in> snd ` set (Vpas c). PodCount vpa = int (length (GetMatchingPods c vpa))) \<and>
    (\<forall>vpa \<in> snd ` set (Vpas c). \<forall>k. map_of (aggregateContainerStates vpa) k =
       (if matchesAggregation vpa k (key_Labels c k) then map_of (aggregateStateMap c) k else None)) \<and>
    (\<forall>now pid ls phase. wf_labels ls \<longrightarrow> (\<exists>c'. AddOrUpdatePod config now c pid ls phase = Inr c')) \<and>
    (\<forall>now cid request. \<exists>r. AddOrUpdateContainer config now c cid request = Inr r) \<and>
    (\<forall>now cid s. 0 < MeasureStart s \<longrightarrow>
       (\<forall>ct. GetContainer c cid = Some ct \<longrightarrow> window_fits config ct (MeasureStart s)) \<longrightarrow>
       (\<exists>r. cluster_AddSample config now c cid s = Inr r)) \<and>
    (\<forall>now cid t m. 0 < t \<longrightarrow> (\<forall>ct. GetContainer c cid = Some ct \<longrightarrow> window_fits config ct t) \<longrightarrow>
       (\<exists>r. cluster_RecordOOM config now c cid t m = Inr r))"
proof (intro conjI)
  note ok = cluster_reach_ok [OF assms]
  show "\<forall>vpa \<in> snd ` set (Vpas c). PodCount vpa = int (length (GetMatchingPods c vpa))"
    using ok by (simp add: cluster_ok_iff counts_with_def GetMatchingPods_count)
  show "\<forall>vpa \<in> snd ` set (Vpas c). \<forall>k. map_of (aggregateContainerStates vpa) k =
      (if matchesAggregation vpa k (key_Labels c k) then map_of (aggregateStateMap c) k else None)"
    using ok by (simp add: cluster_ok_def links_ok_def)
  show "\<forall>now pid ls phase. wf_labels ls \<longrightarrow> (\<exists>c'. AddOrUpdatePod config now c pid ls phase = Inr c')"
    using AddOrUpdatePod_ok [OF assms(2) ok] by blast
  show "\<forall>now cid request. \<exists>r. AddOrUpdateContainer config now c cid request = Inr r"
    using AddOrUpdateContainer_ok [OF assms(2) ok] by blast
  show "\<forall>now cid s. 0 < MeasureStart s \<longrightarrow>
      (\<forall>ct. GetContainer c cid = Some ct \<longrightarrow> window_fits config ct (MeasureStart s)) \<longrightarrow>
      (\<exists>r. cluster_AddSample config now c cid s = Inr r)"
    using cluster_AddSample_ok [OF assms(2) ok] by blast
  show "\<forall>now cid t m. 0 < t \<longrightarrow> (\<forall>ct. GetContainer c cid = Some ct \<longrightarrow> window_fits config ct t) \<longrightarrow>
      (\<exists>r. cluster_RecordOOM config now c cid t m = Inr r)"
    using cluster_RecordOOM_ok [OF assms(2) ok] by blast
qed

section \<open>A small cluster\<close>

definition web_pod :: PodID where
  "web_pod = \<lparr>pid_Namespace = ''ns'', PodName = ''web''\<rparr>"

definition web_container :: ContainerID where
  "web_container = \<lparr>cid_PodID = web_pod, cid_ContainerName = ''c''\<rparr>"

definition web_vpa :: VerticalPodAutoscaler where
  "web_vpa =
     \<lparr>vpa_Namespace = ''ns'', vpa_Name = ''v'', vpa_Annotations = [], CreationTimestamp = 1,
      vpa_Spec = \<lparr>TargetRef = None, UpdatePolicy = None, ResourcePolicy = None\<rparr>,
      vpa_Status = \<lparr>st_Recommendation = None, st_Conditions = []\<rparr>\<rparr>"

lemma day_config_ok: "config_ok day_config"
  by (simp add: config_ok_def day_config_def hour_def minute_def second_def linear_wf_def maxDecayExponent_def int64_max_def)

lemmas cluster_eval = AddOrUpdatePod_def getLabelSetKey_def Let_def NewClusterState_def label_String_def
  addPodToItsVpa_def removePodFromItsVpa_def pod_matches_vpa_def newPod_def map_values_def
  AddOrUpdateContainer_def findOrCreateAggregateContainerState_def aggregateStateKeyForContainerID_def
  MakeAggregateStateKey_def key_Labels_def lookup_default_def update_container_def
  AddOrUpdateVpa_def status_conditions_def ConditionActive_def link_aggregations_def
  UseAggregationIfMatching_def UsesAggregation_def matchesAggregation_def SetUpdateMode_def SetResourcePolicy_def
  GetMatchingPods_def PodLabelsMatchVPA_def NewVpa_def web_pod_def web_container_def web_vpa_def

definition web_cluster :: ClusterState where
  "web_cluster =
     \<lparr>Pods = [(web_pod, \<lparr>ps_ID = web_pod, ps_labelSetKey = ''app=x'', Containers = [], ps_Phase = ''Running''\<rparr>)],
      Vpas = [], EmptyVPAs = [], ObservedVpas = [], aggregateStateMap = [],
      labelSetMap = [(''app=x'', [(''app'', ''x'')])], cs_store = []\<rparr>"

lemma web_cluster_add: "AddOrUpdatePod config 1 NewClusterState web_pod [(''app'', ''x'')] ''Running'' = Inr web_cluster"
  by (simp add: cluster_eval web_cluster_def)

theorem cluster_invariant_witness:
  "\<exists>c vpa. cluster_reach day_config c \<and> vpa \<in> snd ` set (Vpas c) \<and> GetMatchingPods c vpa = [web_pod] \<and> PodCount vpa = 1"
proof -
  define c where "c = snd (AddOrUpdateVpa True True web_cluster web_vpa (InternalSelector []))"
  have "cluster_reach day_config web_cluster"
    by (rule add_pod [OF new _ web_cluster_add]) (simp add: wf_labels_def)
  then have r: "cluster_reach day_config c"
    by (rule add_vpa [where e = None and sameMode = True and samePolicy = True and obj = web_vpa and sel = "InternalSelector []"])
      (simp add: c_def AddOrUpdateVpa_def Let_def split: prod.split)
  have "\<exists>vpa. vpa \<in> snd ` set (Vpas c) \<and> GetMatchingPods c vpa = [web_pod]"
    by (simp add: c_def cluster_eval web_cluster_def)
  then obtain vpa where v: "vpa \<in> snd ` set (Vpas c)" "GetMatchingPods c vpa = [web_pod]" by blast
  have "PodCount vpa = int (length (GetMatchingPods c vpa))"
    using conjunct1 [OF cluster_invariant [OF r day_config_ok]] v(1) by (rule bspec)
  then have "PodCount vpa = 1" using v(2) by simp
  then show ?thesis using r v by blast
qed

text \<open>The cluster after its pod got a container and then other labels.\<close>

definition relabelled_cluster :: ClusterState where
  "relabelled_cluster =
     \<lparr>Pods = [(web_pod, \<lparr>ps_ID = web_pod, ps_labelSetKey = ''app=y'',
        Containers = [(''c'', NewContainerState [] (AggregateRef 1))], ps_Phase = ''Running''\<rparr>)],
      Vpas = [], EmptyVPAs = [], ObservedVpas = [],
      aggregateStateMap =
        [(\<lparr>ak_namespace = ''ns'', ak_containerName = ''c'', ak_labelSetKey = ''app=x''\<rparr>, 0),
         (\<lparr>ak_namespace = ''ns'', ak_containerName = ''c'', ak_labelSetKey = ''app=y''\<rparr>, 1)],
      labelSetMap = [(''app=x'', [(''app'', ''x'')]), (''app=y'', [(''app'', ''y'')])],
      cs_store = [NewAggregateContainerState day_config 1, NewAggregateContainerState day_config 1]\<rparr>"

lemma relabelled_cluster_reach: "cluster_reach day_config relabelled_cluster"
proof -
  have w: "cluster_reach day_config web_cluster"
    by (rule add_pod [OF new _ web_cluster_add]) (simp add: wf_labels_def)
  obtain c where c: "AddOrUpdateContainer day_config 1 web_cluster web_container [] = Inr (None, c)"
    "AddOrUpdatePod day_config 1 c web_pod [(''app'', ''y'')] ''Running'' = Inr relabelled_cluster"
    by (simp add: cluster_eval web_cluster_def relabelled_cluster_def NewContainerState_def)
  have "cluster_reach day_config c" by (rule add_container [OF w c(1)])
  then show ?thesis by (rule add_pod [OF _ _ c(2)]) (simp add: wf_labels_def)
qed

lemma relabelled_collected:
  "GarbageCollectAggregateCollectionStates day_config relabelled_cluster (9 * 24 * hour) =
     relabelled_cluster\<lparr>aggregateStateMap := []\<rparr>"
  by (simp add: GarbageCollectAggregateCollectionStates_def keys_to_delete_def isExpired_def relabelled_cluster_def
      Let_def agg_isEmpty_def NewAggregateContainerState_def GetMemoryAggregationWindowLength_def day_config_def
      time_Sub_def hour_def minute_def second_def delete_key_def wrap64_def int64_min_def int64_max_def)

theorem GarbageCollect_removes_exactly_obsolete_witness:
  "\<exists>c'. c' = GarbageCollectAggregateCollectionStates day_config relabelled_cluster (2 * hour) \<and>
     map_of (aggregateStateMap c') \<lparr>ak_namespace = ''ns'', ak_containerName = ''c'', ak_labelSetKey = ''app=x''\<rparr> = None \<and>
     map_of (aggregateStateMap c') \<lparr>ak_namespace = ''ns'', ak_containerName = ''c'', ak_labelSetKey = ''app=y''\<rparr> = Some 1"
proof -
  let ?x = "\<lparr>ak_namespace = ''ns'', ak_containerName = ''c'', ak_labelSetKey = ''app=x''\<rparr>"
  let ?y = "\<lparr>ak_namespace = ''ns'', ak_containerName = ''c'', ak_labelSetKey = ''app=y''\<rparr>"
  note ok = cluster_reach_ok [OF relabelled_cluster_reach day_config_ok]
  have x: "obsolete day_config (2 * hour) relabelled_cluster ?x 0"
    and y: "\<not> obsolete day_config (2 * hour) relabelled_cluster ?y 1"
    by (simp_all add: obsolete_def relabelled_cluster_def getActiveAggregateStateKeys_def MakeAggregateStateKey_def
        NewAggregateContainerState_def GetMemoryAggregationWindowLength_def day_config_def PodSucceeded_def PodFailed_def
        time_Sub_def hour_def minute_def second_def wrap64_def int64_min_def int64_max_def web_pod_def)
  have m: "map_of (aggregateStateMap relabelled_cluster) ?x = Some 0" "map_of (aggregateStateMap relabelled_cluster) ?y = Some 1"
    by (simp_all add: relabelled_cluster_def)
  show ?thesis
    using conjunct1 [OF conjunct2 [OF conjunct2 [OF GarbageCollect_removes_exactly_obsolete [OF ok refl, of "2 * hour"]]]] m x y
    by simp
qed

section \<open>Samples of a container whose pod changed its labels\<close>

text \<open>States that differ from \<open>c0\<close> in nothing but the aggregate at \<open>addr\<close>.\<close>

definition only_at :: "AggregationsConfig \<Rightarrow> nat \<Rightarrow> ClusterState \<Rightarrow> ClusterState \<Rightarrow> bool" where
  "only_at config addr c0 c \<longleftrightarrow> states_ok config (cs_store c) \<and> addr < length (cs_store c) \<and>
     (\<exists>a. c = c0\<lparr>cs_store := (cs_store c0)[addr := a]\<rparr>)"

lemma only_at_update:
  "only_at config addr c0 c \<Longrightarrow> agg_ok config a \<Longrightarrow> only_at config addr c0 (c\<lparr>cs_store := (cs_store c)[addr := a]\<rparr>)"
  by (auto simp: only_at_def states_ok_update)

interpretation direct: container_aggregator "cluster_aggregator config now (AggregateRef addr)" "only_at config addr c0"
  for config now addr c0
proof (unfold_locales, goal_cases)
  case (1 c s)
  then have "agg_ok config (cs_store c ! addr)" by (simp add: only_at_def states_ok_nth)
  then obtain a where "agg_AddSample (cs_store c ! addr) s = Inr a" "agg_ok config a"
    using agg_AddSample_ok 1(2,3) by blast
  then show ?case using only_at_update [OF 1(1)] by (simp add: cluster_aggregator_def Let_def locate_aggregate_def)
next
  case (2 c s)
  then have "agg_ok config (cs_store c ! addr)" by (simp add: only_at_def states_ok_nth)
  then obtain a where "agg_SubtractSample (cs_store c ! addr) s = Inr a" "agg_ok config a"
    using agg_SubtractSample_ok 2(2) by blast
  then show ?case using only_at_update [OF 2(1)] by (simp add: cluster_aggregator_def Let_def locate_aggregate_def)
qed (auto simp: cluster_aggregator_def Let_def locate_aggregate_def)

text \<open>
  After its pod's labels changed, a container refers to its aggregate directly, and no longer
  through the proxy that creates a missing aggregate. Once that aggregate has been collected, no
  sample of the container reaches an aggregation of the cluster or of a VPA again: a sample is
  accepted, and changes neither the map of aggregations, nor the VPAs, nor any state in them.
\<close>

theorem relabelled_container_loses_samples:
  assumes "config_ok config" "cluster_ok config c" "GetContainer c cid = Some ct" "aggregator ct = AggregateRef addr"
    "addr \<notin> snd ` set (aggregateStateMap c)" "0 < MeasureStart s" "window_fits config ct (MeasureStart s)"
  shows "\<exists>e c' obs. cluster_AddSample config now c cid s = Inr (e, c', obs) \<and>
    aggregateStateMap c' = aggregateStateMap c \<and> Vpas c' = Vpas c \<and>
    (\<forall>k i. map_of (aggregateStateMap c) k = Some i \<longrightarrow> cs_store c' ! i = cs_store c ! i)"
proof -
  obtain pod where p: "map_of (Pods c) (cid_PodID cid) = Some pod" "map_of (Containers pod) (cid_ContainerName cid) = Some ct"
    using assms(3) by (auto simp: GetContainer_def split: option.splits)
  have f: "container_fits c (cid_PodID cid) (cid_ContainerName cid) ct"
    using assms(2) map_of_SomeD [OF p(1)] map_of_SomeD [OF p(2)] by (auto simp: cluster_ok_def store_ok_iff)
  then have w: "0 \<le> WindowEnd ct" and addr: "addr < length (cs_store c)"
    using assms(4) by (simp_all add: container_fits_def)
  have "only_at config addr c c"
    using assms(2) addr by (auto simp: only_at_def cluster_ok_def store_ok_def intro!: exI [of _ "cs_store c ! addr"])
  moreover have "0 < MemoryAggregationInterval config" using assms(1) by (simp add: config_ok_def)
  ultimately obtain r ct' d obs where
    s: "container_AddSample config (cluster_aggregator config now (AggregateRef addr)) ct c s = Inr (r, ct', d, obs)"
      "only_at config addr c d"
    using direct.container_AddSample_ok assms(6,7) w by blast
  let ?c' = "update_container d cid ct'"
  obtain a where d: "d = c\<lparr>cs_store := (cs_store c)[addr := a]\<rparr>" using s(2) by (auto simp: only_at_def)
  have c': "aggregateStateMap ?c' = aggregateStateMap c" "Vpas ?c' = Vpas c" "cs_store ?c' = (cs_store c)[addr := a]"
    by (simp_all add: update_container_def d split: option.split)
  have "i \<noteq> addr" if "map_of (aggregateStateMap c) k = Some i" for k i
    using assms(5) map_of_SomeD [OF that] by force
  then have "\<forall>k i. map_of (aggregateStateMap c) k = Some i \<longrightarrow> (cs_store c)[addr := a] ! i = cs_store c ! i"
    by (metis nth_list_update_neq)
  then show ?thesis using c' p s(1) assms(4) by (simp add: cluster_AddSample_def nth_list_update)
qed

theorem relabelled_container_loses_samples_witness:
  "\<exists>c ct e c' obs. cluster_reach day_config c \<and> GetContainer c web_container = Some ct \<and>
     cluster_AddSample day_config (9 * 24 * hour) c web_container (memory_sample (9 * 24 * hour) 10) = Inr (e, c', obs) \<and>
     aggregateStateMap c' = []"
proof -
  let ?c = "relabelled_cluster\<lparr>aggregateStateMap := []\<rparr>" and ?ct = "NewContainerState [] (AggregateRef 1)"
  have r: "cluster_reach day_config ?c"
    using collect [OF relabelled_cluster_reach, of "9 * 24 * hour"] by (simp only: relabelled_collected)
  have ct: "GetContainer ?c web_container = Some ?ct"
    by (simp add: GetContainer_def relabelled_cluster_def web_container_def)
  have m: "aggregateStateMap ?c = []" by simp
  have fits: "window_fits day_config ?ct (MeasureStart (memory_sample (9 * 24 * hour) 10))"
    "0 < MeasureStart (memory_sample (9 * 24 * hour) 10)"
    by (simp_all add: container_eval window_fits_def window_start_def in_int64_def)
  obtain e c' obs where
    "cluster_AddSample day_config (9 * 24 * hour) ?c web_container (memory_sample (9 * 24 * hour) 10) = Inr (e, c', obs)"
    "aggregateStateMap c' = aggregateStateMap ?c"
    using relabelled_container_loses_samples
      [OF day_config_ok cluster_reach_ok [OF r day_config_ok] ct _ _ fits(2,1), of 1 "9 * 24 * hour"]
    by (auto simp: NewContainerState_def)
  then show ?thesis using r ct m by metis
qed

end
