(* ===== verification/Cluster_Bounds.thy ===== *)
theory Cluster_Bounds
  imports Cluster_Lifecycle
begin

text \<open>
  What the operations of the cluster state leave alone: the checkpointed states of the VPAs, and the
  range of times in which the memory windows of the containers lie. Both are invariants that the
  operations keep, besides the one of theory \<open>Cluster_State\<close>.
\<close>

section \<open>What an aggregator does to its state\<close>

text \<open>A relation between the states before and after, kept by every operation of an aggregator.\<close>

locale aggregator_frame =
  fixes ops :: "'a ContainerStateAggregator" and R :: "'a \<Rightarrow> 'a \<Rightarrow> bool"
  assumes frame_refl: "R a a"
    and frame_trans: "R a b \<Longrightarrow> R b c \<Longrightarrow> R a c"
    and frame_add: "op_AddSample ops a s = Inr b \<Longrightarrow> R a b"
    and frame_sub: "op_SubtractSample ops a s = Inr b \<Longrightarrow> R a b"
    and frame_last: "op_GetLastRecommendation ops a = Inr (l, b) \<Longrightarrow> R a b"
    and frame_needs: "op_NeedsRecommendation ops a = Inr (n, b) \<Longrightarrow> R a b"
    and frame_mode: "op_GetUpdateMode ops a = Inr (m, b) \<Longrightarrow> R a b"
begin

lemma observe_frame:
  assumes "observeQualityMetrics ops a u oom r = Inr (obs, b)"
  shows "R a b"
proof -
  obtain needs a1 where 1: "op_NeedsRecommendation ops a = Inr (needs, a1)"
    using assms by (auto simp: observeQualityMetrics_def)
  show ?thesis
  proof (cases needs)
    case False
    then show ?thesis using assms 1 frame_needs [OF 1] by (simp add: observeQualityMetrics_def)
  next
    case True
    obtain mode a2 where 2: "op_GetUpdateMode ops a1 = Inr (mode, a2)"
      using assms 1 True by (auto simp: observeQualityMetrics_def)
    obtain l a3 where 3: "op_GetLastRecommendation ops a2 = Inr (l, a3)"
      using assms 1 2 True by (auto simp: observeQualityMetrics_def Let_def)
    have r: "R a a3" using frame_trans [OF frame_trans [OF frame_needs [OF 1] frame_mode [OF 2]] frame_last [OF 3]] .
    show ?thesis
    proof (cases l)
      case None
      then show ?thesis using assms 1 2 3 True r by (simp add: observeQualityMetrics_def Let_def)
    next
      case (Some x)
      then obtain l' a4 where 4: "op_GetLastRecommendation ops a3 = Inr (l', a4)" "b = a4"
        using assms 1 2 3 True by (auto simp: observeQualityMetrics_def Let_def split: if_splits)
      then show ?thesis using frame_trans [OF r frame_last [OF 4(1)]] by simp
    qed
  qed
qed

lemma move_window_frame:
  "move_window config ops ct a s = Inr (new, ct', b) \<Longrightarrow> R a b"
  by (auto simp: move_window_def Let_def frame_refl frame_sub split: if_splits)

lemma addMemorySample_frame:
  assumes "addMemorySample config ops ct a s oom = Inr (r, ct', b, obs)"
  shows "R a b"
proof (cases "\<not> isValid s ResourceMemory \<or> \<not> oom \<and> time_Before (MeasureStart s) (lastMemorySampleStart ct)")
  case True
  then show ?thesis using assms by (simp add: addMemorySample_def Let_def frame_refl)
next
  case False
  then obtain c2 new c3 a1 obs' a2 where m: "move_window config ops c2 a s = Inr (new, c3, a1)"
    and o: "observeQualityMetrics ops a1 (Usage s) oom ResourceMemory = Inr (obs', a2)"
    and e: "b = a2 \<or> op_AddSample ops a2 (peak_sample c3 s (Usage s)) = Inr b"
    using assms by (auto simp: addMemorySample_def Let_def split: if_splits)
  have "R a a2" using frame_trans [OF move_window_frame [OF m] observe_frame [OF o]] .
  then show ?thesis using e frame_trans frame_add by blast
qed

lemma container_AddSample_frame:
  assumes "container_AddSample config ops ct a s = Inr (r, ct', b, obs)"
  shows "R a b"
proof -
  have "R a b" if c: "addCPUSample ops ct a s = Inr (r, ct', b, obs)"
  proof (cases "\<not> isValid s ResourceCPU \<or> \<not> time_After (MeasureStart s) (LastCPUSampleStart ct)")
    case True
    then show ?thesis using c by (simp add: addCPUSample_def frame_refl)
  next
    case False
    then obtain obs' a1 where "observeQualityMetrics ops a (Usage s) False ResourceCPU = Inr (obs', a1)"
      "op_AddSample ops a1 s = Inr b"
      using c by (auto simp: addCPUSample_def split: if_splits)
    then show ?thesis using frame_trans observe_frame frame_add by blast
  qed
  then show ?thesis
    using assms addMemorySample_frame frame_refl by (auto simp: container_AddSample_def split: if_splits)
qed

lemma RecordOOM_frame:
  "RecordOOM config ops ct a t m = Inr (e, ct', b, obs) \<Longrightarrow> R a b"
  using addMemorySample_frame by (fastforce simp: RecordOOM_def Let_def frame_refl split: if_splits)

end

section \<open>Pods and checkpointed states are left alone\<close>

text \<open>Every VPA of the new state has the checkpointed states of one of the old state, or none.\<close>

definition initials :: "(VpaID, Vpa) gomap \<Rightarrow> ContainerNameToAggregateStateMap set" where
  "initials vs = (\<lambda>(_, vpa). ContainersInitialAggregateState vpa) ` set vs"

lemma initials_simps [simp]:
  "initials [] = {}" "initials ((i, v) # vs) = insert (ContainersInitialAggregateState v) (initials vs)"
  by (simp_all add: initials_def)

lemma initials_map_values:
  "(\<And>k v. ContainersInitialAggregateState (f k v) = ContainersInitialAggregateState v) \<Longrightarrow>
   initials (map_values f vs) = initials vs"
  by (induction vs) (auto simp: map_values_def)

lemma initials_update: "initials (AList.update i v vs) \<subseteq> insert (ContainersInitialAggregateState v) (initials vs)"
  using set_AList_update [of i v vs] by (auto simp: initials_def)

lemma initials_delete: "initials (AList.delete i vs) \<subseteq> initials vs"
  using set_AList_delete [of i vs] by (auto simp: initials_def)

text \<open>Every VPA links a key at most once.\<close>

definition keyed :: "(VpaID, Vpa) gomap \<Rightarrow> bool" where
  "keyed vs \<longleftrightarrow> (\<forall>(_, vpa) \<in> set vs. gomap_ok (aggregateContainerStates vpa))"

lemma keyed_simps [simp]:
  "keyed []" "keyed ((i, v) # vs) \<longleftrightarrow> gomap_ok (aggregateContainerStates v) \<and> keyed vs"
  by (simp_all add: keyed_def)

lemma keyed_map_values:
  "(\<And>k v. aggregateContainerStates (f k v) = aggregateContainerStates v) \<Longrightarrow> keyed (map_values f vs) = keyed vs"
  by (induction vs) (auto simp: map_values_def)

lemma keyed_update: "keyed vs \<Longrightarrow> gomap_ok (aggregateContainerStates v) \<Longrightarrow> keyed (AList.update i v vs)"
  using set_AList_update [of i v vs] by (auto simp: keyed_def)

lemma keyed_delete: "keyed vs \<Longrightarrow> keyed (AList.delete i vs)"
  using set_AList_delete [of i vs] unfolding keyed_def by blast

lemma keyed_lookup: "keyed vs \<Longrightarrow> map_of vs i = Some v \<Longrightarrow> gomap_ok (aggregateContainerStates v)"
  using map_of_SomeD [of vs i v] by (auto simp: keyed_def)

definition vpas_from :: "ClusterState \<Rightarrow> ClusterState \<Rightarrow> bool" where
  "vpas_from c d \<longleftrightarrow> initials (Vpas d) \<subseteq> insert [] (initials (Vpas c)) \<and> (keyed (Vpas c) \<longrightarrow> keyed (Vpas d))"

lemma vpas_from_refl [simp]: "vpas_from c c"
  by (auto simp: vpas_from_def)

lemma vpas_from_trans [trans]: "vpas_from a b \<Longrightarrow> vpas_from b c \<Longrightarrow> vpas_from a c"
  by (auto simp: vpas_from_def)

lemma link_vpas_initial:
  "link_vpas k ls addr vs st = (vs', st') \<Longrightarrow> initials vs' = initials vs \<and> (keyed vs \<longrightarrow> keyed vs')"
proof (induction k ls addr vs st arbitrary: vs' st' rule: link_vpas.induct)
  case (2 k ls addr vid vpa rest st)
  obtain v1 s1 where u: "UseAggregationIfMatching vpa st k ls addr = (v1, s1)" by fastforce
  obtain r s2 where l: "link_vpas k ls addr rest s1 = (r, s2)" by fastforce
  have "ContainersInitialAggregateState v1 = ContainersInitialAggregateState vpa"
    "gomap_ok (aggregateContainerStates vpa) \<Longrightarrow> gomap_ok (aggregateContainerStates v1)"
    using u by (auto simp: UseAggregationIfMatching_def split: if_splits)
  moreover have "initials r = initials rest \<and> (keyed rest \<longrightarrow> keyed r)" using "2.IH" [OF u [symmetric] refl l] .
  ultimately show ?case using "2.prems" u l by auto
qed simp

lemma findOrCreate_frame:
  assumes "findOrCreateAggregateContainerState config now c cid = Inr (addr, d)"
  shows "Pods d = Pods c \<and> vpas_from c d"
proof -
  have "\<And>k ls a st. initials (fst (link_vpas k ls a (Vpas c) st)) = initials (Vpas c)"
    "\<And>k ls a st. keyed (Vpas c) \<Longrightarrow> keyed (fst (link_vpas k ls a (Vpas c) st))"
    using link_vpas_initial by (metis prod.collapse)+
  then show ?thesis using assms
    by (auto simp: findOrCreateAggregateContainerState_def vpas_from_def Let_def case_prod_beta split: option.splits)
qed

definition pods_frame :: "ClusterState \<Rightarrow> ClusterState \<Rightarrow> bool" where
  "pods_frame c d \<longleftrightarrow> Pods d = Pods c \<and> vpas_from c d"

lemma locate_frame: "locate_aggregate config now r c = Inr (addr, d) \<Longrightarrow> pods_frame c d"
  using findOrCreate_frame by (auto simp: locate_aggregate_def pods_frame_def vpas_from_refl split: aggregator_ref.splits)

interpretation cluster_frame: aggregator_frame "cluster_aggregator config now r" pods_frame for config now r
proof
  show "pods_frame a a" for a by (simp add: pods_frame_def vpas_from_refl)
  show "pods_frame a b \<Longrightarrow> pods_frame b c \<Longrightarrow> pods_frame a c" for a b c
    using vpas_from_trans by (auto simp: pods_frame_def)
  have store: "pods_frame a (b\<lparr>cs_store := st\<rparr>)" if "pods_frame a b" for a b st
    using that by (auto simp: pods_frame_def vpas_from_def)
  show "op_AddSample (cluster_aggregator config now r) a s = Inr b \<Longrightarrow> pods_frame a b"
    "op_SubtractSample (cluster_aggregator config now r) a s = Inr b \<Longrightarrow> pods_frame a b" for a s b
    using store [OF locate_frame] by (auto simp: cluster_aggregator_def)
  show "op_GetLastRecommendation (cluster_aggregator config now r) a = Inr (l, b) \<Longrightarrow> pods_frame a b" for a l b
    using locate_frame by (auto simp: cluster_aggregator_def)
  show "op_NeedsRecommendation (cluster_aggregator config now r) a = Inr (n, b) \<Longrightarrow> pods_frame a b" for a n b
    using locate_frame by (auto simp: cluster_aggregator_def)
  show "op_GetUpdateMode (cluster_aggregator config now r) a = Inr (m, b) \<Longrightarrow> pods_frame a b" for a m b
    using locate_frame by (auto simp: cluster_aggregator_def)
qed

section \<open>The times of memory windows\<close>

text \<open>
  Times are counted from the year 1 and durations span 292 years, so that differences of times are
  exact only for times of a common era: \<open>lo\<close> is its begin. A window that has not begun is at time 0.
\<close>

definition window_in :: "time \<Rightarrow> ContainerState \<Rightarrow> bool" where
  "window_in lo ct \<longleftrightarrow> WindowEnd ct = 0 \<or> (lo \<le> WindowEnd ct \<and> WindowEnd ct \<le> lo + int64_max)"

definition time_in :: "AggregationsConfig \<Rightarrow> time \<Rightarrow> time \<Rightarrow> bool" where
  "time_in config lo t \<longleftrightarrow> 0 < t \<and> lo \<le> t \<and> t + MemoryAggregationInterval config \<le> lo + int64_max"

lemma window_fits_in:
  assumes "window_in lo ct" "time_in config lo t" "0 < MemoryAggregationInterval config"
  shows "window_fits config ct t"
  using assms by (auto simp: window_in_def time_in_def window_fits_def window_start_def in_int64_def int64_min_def int64_max_def)

lemma addMemorySample_window:
  assumes "addMemorySample config ops ct a s oom = Inr (r, ct', b, obs)" "window_in lo ct"
    "time_in config lo (MeasureStart s)" "0 < MemoryAggregationInterval config"
  shows "window_in lo ct'"
proof (cases "isValid s ResourceMemory \<and> (oom \<or> lastMemorySampleStart ct \<le> MeasureStart s)")
  case False
  then show ?thesis using assms(1,2) addMemorySample_discard [of s oom ct config ops a] by auto
next
  case True
  have new: "window_in lo (new_window config ct (MeasureStart s))" if "\<not> (WindowEnd ct \<noteq> 0 \<and> MeasureStart s < WindowEnd ct)"
    using new_window_later [of "MeasureStart s" config ct] that window_fits_in [OF assms(2-4)] assms(3,4)
    by (auto simp: window_in_def time_in_def)
  have "WindowEnd ct' = WindowEnd ct \<or> (\<not> (WindowEnd ct \<noteq> 0 \<and> MeasureStart s < WindowEnd ct) \<and>
      WindowEnd ct' = WindowEnd (new_window config ct (MeasureStart s)))"
    using assms(1) addMemorySample_accept [OF conjunct1 [OF True] conjunct2 [OF True], of config ops a]
    by (auto simp: Let_def set_peak_def split: if_splits)
  then show ?thesis using new assms(2) by (auto simp: window_in_def)
qed

lemma container_AddSample_window:
  assumes "container_AddSample config ops ct a s = Inr (r, ct', b, obs)" "window_in lo ct"
    "time_in config lo (MeasureStart s)" "0 < MemoryAggregationInterval config"
  shows "window_in lo ct'"
  using assms addMemorySample_window [of config ops ct a s False]
  by (auto simp: container_AddSample_def addCPUSample_def window_in_def split: if_splits)

lemma RecordOOM_window:
  assumes "RecordOOM config ops ct a t m = Inr (e, ct', b, obs)" "window_in lo ct" "time_in config lo t"
    "0 < MemoryAggregationInterval config"
  shows "window_in lo ct'"
  using assms addMemorySample_window [of config ops ct a
      "\<lparr>MeasureStart = t, Usage = oom_memory_needed ct m, Request = 0, Resource = ResourceMemory\<rparr>" True]
  by (auto simp: RecordOOM_def Let_def split: if_splits)

definition pods_all :: "(ContainerState \<Rightarrow> bool) \<Rightarrow> (PodID, PodState) gomap \<Rightarrow> bool" where
  "pods_all Q pods \<longleftrightarrow> (\<forall>(pid, pod) \<in> set pods. \<forall>(n, ct) \<in> set (Containers pod). Q ct)"

lemma pods_all_update:
  "pods_all Q pods \<Longrightarrow> (\<forall>(n, ct) \<in> set (Containers pod). Q ct) \<Longrightarrow> pods_all Q (AList.update pid pod pods)"
  using set_AList_update [of pid pod pods] by (auto simp: pods_all_def dest!: subsetD)

lemma pods_all_delete: "pods_all Q pods \<Longrightarrow> pods_all Q (AList.delete pid pods)"
  using set_AList_delete [of pid pods] unfolding pods_all_def by blast

lemma pods_all_lookup:
  "pods_all Q pods \<Longrightarrow> map_of pods pid = Some pod \<Longrightarrow> \<forall>(n, ct) \<in> set (Containers pod). Q ct"
  using map_of_SomeD [of pods pid pod] by (auto simp: pods_all_def)

lemma pods_all_update_container:
  assumes "pods_all Q (Pods c)" "Q ct"
  shows "pods_all Q (Pods (update_container c cid ct))"
proof (cases "map_of (Pods c) (cid_PodID cid)")
  case (Some pod)
  have "\<forall>(n, ct) \<in> set (AList.update (cid_ContainerName cid) ct (Containers pod)). Q ct"
    using pods_all_lookup [OF assms(1) Some] assms(2) set_AList_update [of "cid_ContainerName cid" ct "Containers pod"] by blast
  then show ?thesis using pods_all_update [OF assms(1)] Some by (simp add: update_container_def)
qed (simp add: update_container_def assms(1))

lemma GetContainer_all: "pods_all Q (Pods c) \<Longrightarrow> GetContainer c cid = Some ct \<Longrightarrow> Q ct"
  using pods_all_lookup map_of_SomeD by (fastforce simp: GetContainer_def split: option.splits)

section \<open>The whole invariant\<close>

definition initial_ok :: "AggregationsConfig \<Rightarrow> ClusterState \<Rightarrow> bool" where
  "initial_ok config c \<longleftrightarrow> (\<forall>m \<in> initials (Vpas c). \<forall>(n, a) \<in> set m. agg_ok config a)"

lemma initial_ok_from: "initial_ok config c \<Longrightarrow> vpas_from c d \<Longrightarrow> initial_ok config d"
  by (auto simp: initial_ok_def vpas_from_def dest!: subsetD)

definition model_ok :: "AggregationsConfig \<Rightarrow> time \<Rightarrow> ClusterState \<Rightarrow> bool" where
  "model_ok config lo c \<longleftrightarrow> cluster_ok config c \<and> initial_ok config c \<and> keyed (Vpas c) \<and> pods_all (window_in lo) (Pods c)"

lemma model_ok_step:
  "model_ok config lo c \<Longrightarrow> cluster_ok config d \<Longrightarrow> vpas_from c d \<Longrightarrow>
   pods_all (window_in lo) (Pods d) \<Longrightarrow> model_ok config lo d"
  using initial_ok_from by (auto simp: model_ok_def vpas_from_def)

lemma NewClusterState_model: "model_ok config lo NewClusterState"
  using NewClusterState_ok by (simp add: model_ok_def initial_ok_def pods_all_def NewClusterState_def)

section \<open>Every operation keeps it\<close>

lemma relink_frame:
  assumes "relink_containers config now pid cs c = Inr (cs', d)"
  shows "pods_frame c d \<and> map (\<lambda>(n, ct). WindowEnd ct) cs' = map (\<lambda>(n, ct). WindowEnd ct) cs"
  using assms
proof (induction config now pid cs c arbitrary: cs' d rule: relink_containers.induct)
  case (2 config now pid n ct rest c)
  then obtain addr c1 rest' c2 where f: "findOrCreateAggregateContainerState config now c
      \<lparr>cid_PodID = pid, cid_ContainerName = n\<rparr> = Inr (addr, c1)"
    and r: "relink_containers config now pid rest c1 = Inr (rest', c2)"
    and e: "cs' = (n, ct\<lparr>aggregator := AggregateRef addr\<rparr>) # rest'" "d = c2"
    by auto
  have "pods_frame c c1" using findOrCreate_frame [OF f] by (simp add: pods_frame_def)
  then show ?case using "2.IH" [OF r] cluster_frame.frame_trans e by auto
qed (simp add: pods_frame_def)

text \<open>A property of containers that depends on their window only.\<close>

definition window_property :: "(ContainerState \<Rightarrow> bool) \<Rightarrow> bool" where
  "window_property Q \<longleftrightarrow> (\<forall>ct ct'. WindowEnd ct = WindowEnd ct' \<longrightarrow> Q ct \<longrightarrow> Q ct')"

lemma window_property_in: "window_property (window_in lo)"
  by (simp add: window_property_def window_in_def)

lemma window_property_cong:
  "window_property Q \<Longrightarrow> map (\<lambda>(n, ct). WindowEnd ct) cs' = map (\<lambda>(n, ct). WindowEnd ct) cs \<Longrightarrow>
   (\<forall>(n, ct) \<in> set cs. Q ct) \<Longrightarrow> (\<forall>(n, ct) \<in> set cs'. Q ct)"
proof (induction cs' arbitrary: cs)
  case (Cons x cs')
  then obtain y ys where cs: "cs = y # ys" by (cases cs) auto
  obtain n ct m ct0 where xy: "x = (n, ct)" "y = (m, ct0)" by (cases x; cases y) auto
  have "Q ct" using Cons.prems cs xy unfolding window_property_def by auto
  moreover have "\<forall>(n, ct) \<in> set cs'. Q ct" using Cons.IH [of ys] Cons.prems cs by auto
  ultimately show ?case by (simp add: xy)
qed simp

lemma shift_vpas [simp]:
  "initials (Vpas (removePodFromItsVpa c pod)) = initials (Vpas c)" "Pods (removePodFromItsVpa c pod) = Pods c"
  "initials (Vpas (addPodToItsVpa c pod)) = initials (Vpas c)" "Pods (addPodToItsVpa c pod) = Pods c"
  "keyed (Vpas (removePodFromItsVpa c pod)) = keyed (Vpas c)" "keyed (Vpas (addPodToItsVpa c pod)) = keyed (Vpas c)"
  by (auto simp: removePodFromItsVpa_def addPodToItsVpa_def initials_map_values keyed_map_values)

lemma AddOrUpdatePod_frame:
  assumes r: "AddOrUpdatePod config now c pid ls phase = Inr c'" and w: "pods_all Q (Pods c)" and q: "window_property Q"
  shows "vpas_from c c' \<and> pods_all Q (Pods c')"
proof -
  define pod where "pod = (case map_of (Pods c) pid of Some p \<Rightarrow> p | None \<Rightarrow> newPod pid)"
  have pw: "\<forall>(n, ct) \<in> set (Containers pod). Q ct"
    using pods_all_lookup [OF w] by (auto simp: pod_def newPod_def split: option.splits)
  define c1 where "c1 = (if map_of (Pods c) pid \<noteq> None then c else c\<lparr>Pods := AList.update pid pod (Pods c)\<rparr>)"
  define c2 where "c2 = c1\<lparr>labelSetMap := AList.update (label_String ls) ls (labelSetMap c1)\<rparr>"
  define c3 where "c3 = (if map_of (Pods c) pid \<noteq> None \<and> ps_labelSetKey pod \<noteq> label_String ls then removePodFromItsVpa c2 pod else c2)"
  have i3: "initials (Vpas c3) = initials (Vpas c)" "keyed (Vpas c3) = keyed (Vpas c)" by (simp_all add: c3_def c2_def c1_def)
  have w3: "pods_all Q (Pods c3)"
    using w pods_all_update [OF w pw] by (simp add: c3_def c2_def c1_def)
  show ?thesis
  proof (cases "map_of (Pods c) pid = None \<or> ps_labelSetKey pod \<noteq> label_String ls")
    case False
    then have "c' = c3\<lparr>Pods := AList.update pid (pod\<lparr>ps_Phase := phase\<rparr>) (Pods c3)\<rparr>"
      using r by (simp add: AddOrUpdatePod_def getLabelSetKey_def Let_def pod_def c1_def c2_def c3_def)
    then show ?thesis using i3 pods_all_update [OF w3, of "pod\<lparr>ps_Phase := phase\<rparr>"] pw
      by (auto simp: vpas_from_def)
  next
    case True
    let ?p1 = "pod\<lparr>ps_labelSetKey := label_String ls\<rparr>"
    let ?c4 = "c3\<lparr>Pods := AList.update pid ?p1 (Pods c3)\<rparr>"
    have eq: "AddOrUpdatePod config now c pid ls phase =
        rbind (relink_containers config now pid (Containers pod) ?c4) (\<lambda>(cs, c5).
          Inr ((addPodToItsVpa c5 (?p1\<lparr>Containers := cs\<rparr>))\<lparr>Pods := AList.update pid
            (?p1\<lparr>Containers := cs, ps_Phase := phase\<rparr>) (Pods c5)\<rparr>))"
      using True [unfolded pod_def] by (auto simp: AddOrUpdatePod_def getLabelSetKey_def Let_def pod_def c1_def c2_def c3_def)
    obtain cs c5 where l: "relink_containers config now pid (Containers pod) ?c4 = Inr (cs, c5)"
      and c': "c' = (addPodToItsVpa c5 (?p1\<lparr>Containers := cs\<rparr>))\<lparr>Pods := AList.update pid
        (?p1\<lparr>Containers := cs, ps_Phase := phase\<rparr>) (Pods c5)\<rparr>"
      using r unfolding eq by auto
    note f = relink_frame [OF l]
    have "\<forall>(n, ct) \<in> set cs. Q ct" using window_property_cong [OF q conjunct2 [OF f] pw] .
    moreover have "pods_all Q (Pods c5)"
      using f pods_all_update [OF w3, of ?p1] pw by (simp add: pods_frame_def)
    ultimately have "pods_all Q (Pods c')" using pods_all_update c' by simp
    moreover have "vpas_from c c'" using f i3 c' by (simp add: pods_frame_def vpas_from_def)
    ultimately show ?thesis by blast
  qed
qed

lemma AddOrUpdatePod_model:
  assumes "config_ok config" "model_ok config lo c" "wf_labels ls"
  shows "\<exists>c'. AddOrUpdatePod config now c pid ls phase = Inr c' \<and> model_ok config lo c'"
proof -
  obtain c' where "AddOrUpdatePod config now c pid ls phase = Inr c'" "cluster_ok config c'"
    using AddOrUpdatePod_ok [OF assms(1) _ assms(3), of c now pid phase] assms(2) by (auto simp: model_ok_def)
  then show ?thesis using AddOrUpdatePod_frame window_property_in model_ok_step [OF assms(2)] assms(2) by (auto simp: model_ok_def)
qed

lemma DeletePod_model:
  assumes "model_ok config lo c"
  shows "model_ok config lo (DeletePod c pid)"
proof (rule model_ok_step [OF assms])
  show "cluster_ok config (DeletePod c pid)" using assms DeletePod_ok by (simp add: model_ok_def)
  show "vpas_from c (DeletePod c pid)" by (auto simp: DeletePod_def Let_def vpas_from_def split: option.split)
  show "pods_all (window_in lo) (Pods (DeletePod c pid))"
    using assms pods_all_delete by (auto simp: DeletePod_def Let_def model_ok_def split: option.split)
qed

lemma AddOrUpdateContainer_model:
  assumes "config_ok config" "model_ok config lo c"
  shows "\<exists>e c'. AddOrUpdateContainer config now c cid request = Inr (e, c') \<and> model_ok config lo c'"
proof -
  have w: "pods_all (window_in lo) (Pods c)" using assms(2) by (simp add: model_ok_def)
  obtain e c' where r: "AddOrUpdateContainer config now c cid request = Inr (e, c')" "cluster_ok config c'"
    using AddOrUpdateContainer_ok [OF assms(1), of c now cid request] assms(2) by (auto simp: model_ok_def)
  have upd: "vpas_from c (update_container d cid ct) \<and> pods_all (window_in lo) (Pods (update_container d cid ct))"
    if "pods_frame c d" "window_in lo ct" for d ct
    using that pods_all_update_container [of "window_in lo" d ct cid] w
    by (auto simp: pods_frame_def vpas_from_def update_container_def split: option.splits)
  have "vpas_from c c' \<and> pods_all (window_in lo) (Pods c')"
  proof (cases "map_of (Pods c) (cid_PodID cid)")
    case None
    then show ?thesis using r w by (simp add: AddOrUpdateContainer_def)
  next
    case (Some pod)
    show ?thesis
    proof (cases "map_of (Containers pod) (cid_ContainerName cid)")
      case None
      then obtain addr d where f: "findOrCreateAggregateContainerState config now c cid = Inr (addr, d)"
        and c': "c' = update_container d cid (NewContainerState request (ContainerStateAggregatorProxy cid))"
        using r Some by (auto simp: AddOrUpdateContainer_def)
      have "window_in lo (NewContainerState request (ContainerStateAggregatorProxy cid))"
        by (simp add: window_in_def NewContainerState_def zero_time_def)
      then show ?thesis using upd findOrCreate_frame [OF f] c' by (simp add: pods_frame_def)
    next
      case ct: (Some ct)
      then have "window_in lo ct" using pods_all_lookup [OF w Some] map_of_SomeD [OF ct] by auto
      then have "window_in lo (ct\<lparr>cst_Request := request\<rparr>)" by (simp add: window_in_def)
      then show ?thesis using upd [of c] r Some ct by (auto simp: AddOrUpdateContainer_def pods_frame_def)
    qed
  qed
  then show ?thesis using model_ok_step [OF assms(2) r(2)] r(1) by blast
qed

lemma update_container_model:
  assumes "model_ok config lo c" "cluster_ok config (update_container d cid ct)" "pods_frame c d" "window_in lo ct"
  shows "model_ok config lo (update_container d cid ct)"
proof (rule model_ok_step [OF assms(1,2)])
  show "vpas_from c (update_container d cid ct)"
    using assms(3) by (auto simp: pods_frame_def vpas_from_def update_container_def split: option.splits)
  show "pods_all (window_in lo) (Pods (update_container d cid ct))"
    using assms by (intro pods_all_update_container) (auto simp: pods_frame_def model_ok_def)
qed

lemma cluster_AddSample_model:
  assumes "config_ok config" "model_ok config lo c" "time_in config lo (MeasureStart s)"
  shows "\<exists>e c' obs. cluster_AddSample config now c cid s = Inr (e, c', obs) \<and> model_ok config lo c'"
proof -
  have ok: "cluster_ok config c" and w: "pods_all (window_in lo) (Pods c)" using assms(2) by (simp_all add: model_ok_def)
  have i: "0 < MemoryAggregationInterval config" using assms(1) by (simp add: config_ok_def)
  obtain e c' obs where r: "cluster_AddSample config now c cid s = Inr (e, c', obs)" and ok': "cluster_ok config c'"
    using cluster_AddSample_ok [OF assms(1) ok, of s cid now] window_fits_in [OF GetContainer_all [OF w] assms(3) i] assms(3)
    by (auto simp: time_in_def)
  have "model_ok config lo c'"
  proof (cases "GetContainer c cid")
    case None
    then show ?thesis using r assms(2) by (auto simp: cluster_AddSample_def GetContainer_def split: option.splits)
  next
    case (Some ct)
    then obtain b ct' d obs' where a: "container_AddSample config (cluster_aggregator config now (aggregator ct)) ct c s = Inr (b, ct', d, obs')"
      and c': "c' = update_container d cid ct'"
      using r by (auto simp: cluster_AddSample_def GetContainer_def split: option.splits)
    show ?thesis unfolding c'
      by (rule update_container_model [OF assms(2) ok' [unfolded c'] cluster_frame.container_AddSample_frame [OF a]
            container_AddSample_window [OF a GetContainer_all [OF w Some] assms(3) i]])
  qed
  then show ?thesis using r by blast
qed

lemma cluster_RecordOOM_model:
  assumes "config_ok config" "model_ok config lo c" "time_in config lo t"
  shows "\<exists>e c' obs. cluster_RecordOOM config now c cid t m = Inr (e, c', obs) \<and> model_ok config lo c'"
proof -
  have ok: "cluster_ok config c" and w: "pods_all (window_in lo) (Pods c)" using assms(2) by (simp_all add: model_ok_def)
  have i: "0 < MemoryAggregationInterval config" using assms(1) by (simp add: config_ok_def)
  obtain e c' obs where r: "cluster_RecordOOM config now c cid t m = Inr (e, c', obs)" and ok': "cluster_ok config c'"
    using cluster_RecordOOM_ok [OF assms(1) ok, of t cid now m] window_fits_in [OF GetContainer_all [OF w] assms(3) i] assms(3)
    by (auto simp: time_in_def)
  have "model_ok config lo c'"
  proof (cases "GetContainer c cid")
    case None
    then show ?thesis using r assms(2) by (auto simp: cluster_RecordOOM_def GetContainer_def split: option.splits)
  next
    case (Some ct)
    then obtain b ct' d obs' where a: "RecordOOM config (cluster_aggregator config now (aggregator ct)) ct c t m = Inr (b, ct', d, obs')"
      and c': "c' = update_container d cid ct'"
      using r by (auto simp: cluster_RecordOOM_def GetContainer_def split: option.splits)
    show ?thesis unfolding c'
      by (rule update_container_model [OF assms(2) ok' [unfolded c'] cluster_frame.RecordOOM_frame [OF a]
            RecordOOM_window [OF a GetContainer_all [OF w Some] assms(3) i]])
  qed
  then show ?thesis using r by blast
qed

lemma DeleteVpa_frame: "pods_frame c (snd (DeleteVpa c vid))"
  using initials_delete keyed_delete by (auto simp: DeleteVpa_def pods_frame_def vpas_from_def split: option.split)

lemma DeleteVpa_model:
  assumes "model_ok config lo c"
  shows "model_ok config lo (snd (DeleteVpa c vid))"
  using model_ok_step [OF assms DeleteVpa_ok] DeleteVpa_frame [of c vid] assms by (simp add: model_ok_def pods_frame_def)

lemma link_aggregations_initial:
  "ContainersInitialAggregateState (fst (link_aggregations c aggs acc)) = ContainersInitialAggregateState (fst acc)"
  "gomap_ok (aggregateContainerStates (fst acc)) \<Longrightarrow> gomap_ok (aggregateContainerStates (fst (link_aggregations c aggs acc)))"
  by (induction aggs arbitrary: acc)
    (auto simp: link_aggregations_def UseAggregationIfMatching_def case_prod_beta)

lemma SetUpdateMode_initial [simp]:
  "ContainersInitialAggregateState (fst (SetUpdateMode same vpa st mode)) = ContainersInitialAggregateState vpa"
  "aggregateContainerStates (fst (SetUpdateMode same vpa st mode)) = aggregateContainerStates vpa"
  by (simp_all add: SetUpdateMode_def Let_def split: option.split)

lemma SetResourcePolicy_initial [simp]:
  "ContainersInitialAggregateState (fst (SetResourcePolicy same vpa st policy)) = ContainersInitialAggregateState vpa"
  "aggregateContainerStates (fst (SetResourcePolicy same vpa st policy)) = aggregateContainerStates vpa"
  by (simp_all add: SetResourcePolicy_def)

lemma AddOrUpdateVpa_frame:
  assumes vid: "vid = \<lparr>vid_Namespace = vpa_Namespace obj, VpaName = vpa_Name obj\<rparr>"
  shows "pods_frame c (snd (AddOrUpdateVpa sameMode samePolicy c obj sel))"
    "fst ` set (Vpas (snd (AddOrUpdateVpa sameMode samePolicy c obj sel))) = insert vid (fst ` set (Vpas c))"
proof -
  define changed where "changed = (case map_of (Vpas c) vid of
    Some vpa \<Rightarrow> Selector_String (PodSelector vpa) \<noteq> Selector_String sel | None \<Rightarrow> False)"
  define c1 where "c1 = (if changed then snd (DeleteVpa c vid) else c)"
  define lk where "lk = link_aggregations c1 (aggregateStateMap c1) (NewVpa vid sel (CreationTimestamp obj), cs_store c1)"
  define vc where "vc = (case map_of (Vpas c1) vid of Some vpa \<Rightarrow> (vpa, c1)
    | None \<Rightarrow> ((fst lk)\<lparr>PodCount := int (length (GetMatchingPods c1 (fst lk)))\<rparr>, c1\<lparr>cs_store := snd lk\<rparr>))"
  have c1: "pods_frame c c1" using DeleteVpa_frame by (simp add: c1_def pods_frame_def)
  have "ContainersInitialAggregateState (fst vc) \<in> insert [] (initials (Vpas c1))" "Pods (snd vc) = Pods c1" "Vpas (snd vc) = Vpas c1"
    using link_aggregations_initial(1) [of c1 "aggregateStateMap c1" "(NewVpa vid sel (CreationTimestamp obj), cs_store c1)"]
      map_of_SomeD [of "Vpas c1" vid]
    by (force simp: vc_def lk_def NewVpa_def initials_def image_iff split: option.splits)+
  moreover have "gomap_ok (aggregateContainerStates (fst vc))" if "keyed (Vpas c1)"
    using link_aggregations_initial(2) [of "(NewVpa vid sel (CreationTimestamp obj), cs_store c1)" c1 "aggregateStateMap c1"]
      keyed_lookup [OF that] by (auto simp: vc_def lk_def NewVpa_def gomap_ok_def split: option.splits)
  moreover define v1 where "v1 = (fst vc)\<lparr>vpa_TargetRef := TargetRef (vpa_Spec obj), Annotations := vpa_Annotations obj,
    Conditions := status_conditions obj, Recommendation := (if ConditionActive (status_conditions obj) RecommendationProvided
      then st_Recommendation (vpa_Status obj) else None)\<rparr>"
  moreover define um where "um = SetUpdateMode sameMode v1 (cs_store (snd vc)) (UpdatePolicy (vpa_Spec obj))"
  moreover define rp where "rp = SetResourcePolicy samePolicy (fst um) (snd um) (ResourcePolicy (vpa_Spec obj))"
  moreover have "snd (AddOrUpdateVpa sameMode samePolicy c obj sel) =
      (snd vc)\<lparr>Vpas := AList.update vid (fst rp) (Vpas (snd vc)), cs_store := snd rp\<rparr>"
    unfolding rp_def um_def v1_def vc_def lk_def c1_def changed_def vid AddOrUpdateVpa_def
    by (simp only: Let_def case_prod_beta snd_conv fst_conv)
  moreover have "insert vid (fst ` set (Vpas c1)) = insert vid (fst ` set (Vpas c))"
    by (auto simp: c1_def DeleteVpa_def AList.delete_eq image_iff split: option.splits)
  ultimately show "pods_frame c (snd (AddOrUpdateVpa sameMode samePolicy c obj sel))"
    "fst ` set (Vpas (snd (AddOrUpdateVpa sameMode samePolicy c obj sel))) = insert vid (fst ` set (Vpas c))"
    using c1 initials_update [of vid "fst rp" "Vpas c1"] keyed_update [of "Vpas c1" "fst rp" vid]
    by (auto simp: pods_frame_def vpas_from_def dom_update)
qed

lemma AddOrUpdateVpa_model:
  assumes "model_ok config lo c"
  shows "\<exists>c'. AddOrUpdateVpa sameMode samePolicy c obj sel = (None, c') \<and> model_ok config lo c'"
  using AddOrUpdateVpa_ok [of config c sameMode samePolicy obj sel] AddOrUpdateVpa_frame(1) [OF refl, of c sameMode samePolicy obj sel]
    model_ok_step [OF assms] assms by (auto simp: model_ok_def pods_frame_def)

lemma unlink_vpas_initial:
  "unlink_vpas k vs st = (vs', st') \<Longrightarrow> initials vs' = initials vs \<and> (keyed vs \<longrightarrow> keyed vs')"
proof (induction k vs st arbitrary: vs' st' rule: unlink_vpas.induct)
  case (2 k vid vpa rest st)
  obtain v1 s1 where u: "DeleteAggregation vpa st k = (v1, s1)" by fastforce
  obtain r s2 where l: "unlink_vpas k rest s1 = (r, s2)" by fastforce
  have "ContainersInitialAggregateState v1 = ContainersInitialAggregateState vpa"
    "gomap_ok (aggregateContainerStates vpa) \<Longrightarrow> gomap_ok (aggregateContainerStates v1)"
    using u by (auto simp: DeleteAggregation_def split: option.splits)
  moreover have "initials r = initials rest \<and> (keyed rest \<longrightarrow> keyed r)" using "2.IH" [OF u [symmetric] refl l] .
  ultimately show ?case using "2.prems" u l by auto
qed simp

lemma GarbageCollect_model:
  assumes "model_ok config lo c"
  shows "model_ok config lo (GarbageCollectAggregateCollectionStates config c now)"
proof -
  have "vpas_from d (delete_key k d)" for k d
    using unlink_vpas_initial [of k "Vpas d" "cs_store d" "fst (unlink_vpas k (Vpas d) (cs_store d))" "snd (unlink_vpas k (Vpas d) (cs_store d))"]
    by (auto simp: delete_key_def Let_def vpas_from_def case_prod_beta)
  then have "vpas_from d (fold delete_key ks d)" for ks d
    by (induction ks arbitrary: d) (simp, metis fold_simps(2) vpas_from_trans)
  then show ?thesis
    using model_ok_step [OF assms GarbageCollect_ok] fold_delete_key [of config c] assms
    by (auto simp: model_ok_def GarbageCollectAggregateCollectionStates_def)
qed

lemma model_ok_cong:
  assumes "model_ok config lo c" "Pods d = Pods c" "Vpas d = Vpas c" "aggregateStateMap d = aggregateStateMap c"
    "labelSetMap d = labelSetMap c" "cs_store d = cs_store c"
  shows "model_ok config lo d"
  using assms cluster_ok_cong by (auto simp: model_ok_def initial_ok_def)

lemma RecordRecommendation_model:
  assumes "model_ok config lo c" "RecordRecommendation c vpa now = (e, c')"
  shows "model_ok config lo c'"
  by (rule model_ok_cong [OF assms(1)]) (use assms(2) in \<open>auto simp: RecordRecommendation_def split: if_splits option.splits\<close>)

text \<open>Writing back a VPA and a store in which nothing that matters for the links has changed.\<close>

lemma set_vpa_model:
  assumes ok: "model_ok config lo c" and v: "map_of (Vpas c) vid = Some v" and st: "states_ok config st" "length st = length (cs_store c)"
    and v': "vpa_same v v'" "PodCount v' = PodCount v" "aggregateContainerStates v' = aggregateContainerStates v"
      "\<forall>(n, a) \<in> set (ContainersInitialAggregateState v'). agg_ok config a"
  shows "model_ok config lo (c\<lparr>Vpas := AList.update vid v' (Vpas c), cs_store := st\<rparr>)"
proof -
  have cok: "cluster_ok config c" using ok by (simp add: model_ok_def)
  have in_set: "(vid, v) \<in> set (Vpas c)" "v \<in> snd ` set (Vpas c)" using map_of_SomeD [OF v] by force+
  have id: "vpa_ID v = vid" using cok in_set(1) by (auto simp: cluster_ok_def maps_ok_def)
  have "cluster_ok config (c\<lparr>Vpas := AList.update vid v' (Vpas c), cs_store := st\<rparr>)"
  proof (rule set_vpa_ok [OF cok st])
    show "vpa_ID v' = vid" using v'(1) id by (simp add: vpa_same_def)
    show "PodCount v' = vpa_counts c vid (PodSelector v')"
      using cok in_set(2) v'(1,2) id by (auto simp: cluster_ok_iff counts_with_def vpa_same_def)
    show "map_of (aggregateContainerStates v') k =
        (if matchesAggregation v' k (key_Labels c k) then map_of (aggregateStateMap c) k else None)" for k
      using cok in_set(2) v'(1,3) vpa_same_matches by (auto simp: cluster_ok_def links_ok_def)
  qed
  moreover have "initial_ok config (c\<lparr>Vpas := AList.update vid v' (Vpas c), cs_store := st\<rparr>)"
    using ok v'(4) initials_update [of vid v' "Vpas c"] by (auto simp: model_ok_def initial_ok_def dest!: subsetD)
  moreover have "keyed (AList.update vid v' (Vpas c))"
    using ok v'(3) keyed_update keyed_lookup [OF _ v] by (simp add: model_ok_def)
  ultimately show ?thesis using ok by (simp add: model_ok_def)
qed

lemma model_initial:
  "model_ok config lo c \<Longrightarrow> map_of (Vpas c) vid = Some v \<Longrightarrow> \<forall>(n, a) \<in> set (ContainersInitialAggregateState v). agg_ok config a"
  using map_of_SomeD [of "Vpas c" vid v] by (force simp: model_ok_def initial_ok_def initials_def)

end
