(* ===== verification/Annotations.thy ===== *)
theory Annotations
  imports Kube_Types "HOL-Library.Multiset"
begin

text \<open>
  \<open>pkg/utils/annotations/vpa_observed_containers.go\<close>: the annotation with the names of the containers
  that the admission controller saw, which the updater reads back, and the two library routines it
  rests on, \<open>strings.Split\<close> and \<open>validation.IsDNS1123Label\<close>.
\<close>

section \<open>Splitting a string\<close>

text \<open>\<open>strings.Split\<close> with a non-empty separator: cut at each leftmost occurrence.\<close>

fun split_from :: "string \<Rightarrow> string \<Rightarrow> string \<Rightarrow> string list" where
  "split_from sep acc [] = [rev acc]"
| "split_from sep acc (c # cs) =
     (if take (length sep) (c # cs) = sep
      then rev acc # split_from sep [] (drop (length sep - 1) cs)
      else split_from sep (c # acc) cs)"

definition str_Split :: "string \<Rightarrow> string \<Rightarrow> string list" where
  "str_Split s sep = split_from sep [] s"

section \<open>DNS labels\<close>

definition alnum :: "char \<Rightarrow> bool" where
  "alnum c \<longleftrightarrow> (CHR ''a'' \<le> c \<and> c \<le> CHR ''z'') \<or> (CHR ''0'' \<le> c \<and> c \<le> CHR ''9'')"

text \<open>At most 63 characters that match \<open>[a-z0-9]([-a-z0-9]*[a-z0-9])?\<close>.\<close>

definition IsDNS1123Label :: "string \<Rightarrow> bool" where
  "IsDNS1123Label s \<longleftrightarrow> length s \<le> 63 \<and> s \<noteq> [] \<and> alnum (hd s) \<and> alnum (s ! (length s - 1)) \<and>
     list_all (\<lambda>c. alnum c \<or> c = CHR ''-'') s"

section \<open>The annotation\<close>

definition VpaObservedContainersLabel :: string where
  "VpaObservedContainersLabel = ''vpaObservedContainers''"

definition listSeparator :: string where "listSeparator = '', ''"

definition GetVpaObservedContainersValue :: "Pod \<Rightarrow> string" where
  "GetVpaObservedContainersValue pod = join listSeparator (map c_Name (pod_Containers pod))"

definition ParseVpaObservedContainersValue :: "string \<Rightarrow> string list result" where
  "ParseVpaObservedContainersValue v =
     (if v = [] then Inr []
      else let containerNames = str_Split v listSeparator
           in if list_all IsDNS1123Label containerNames then Inr containerNames
              else Inl (Err ''incorrect format: not a valid container name''))"

section \<open>Round trip\<close>

lemma take_sep_no_comma:
  "CHR '','' \<notin> set s \<Longrightarrow> s \<noteq> [] \<Longrightarrow> take (length listSeparator) (s @ rest) \<noteq> listSeparator"
  by (cases s) (auto simp: listSeparator_def)

lemma split_from_name:
  "CHR '','' \<notin> set s \<Longrightarrow>
   split_from listSeparator acc (s @ rest) = split_from listSeparator (rev s @ acc) rest"
proof (induction s arbitrary: acc)
  case (Cons c s)
  have "take (length listSeparator) (c # s @ rest) \<noteq> listSeparator"
    using take_sep_no_comma [of "c # s" rest] Cons.prems by simp
  then show ?case using Cons by simp
qed simp

lemma split_from_sep: "split_from listSeparator acc (listSeparator @ rest) = rev acc # split_from listSeparator [] rest"
  by (simp add: listSeparator_def)

lemma Split_join:
  assumes "ns \<noteq> []" "\<forall>n \<in> set ns. CHR '','' \<notin> set n"
  shows "split_from listSeparator [] (join listSeparator ns) = ns"
  using assms
proof (induction ns)
  case (Cons s ss)
  show ?case
  proof (cases ss)
    case Nil
    then show ?thesis using Cons.prems split_from_name [of s "[]" "[]"] by simp
  next
    case (Cons t ts)
    then have "split_from listSeparator [] (join listSeparator ss) = ss" using Cons.IH Cons.prems by simp
    then show ?thesis
      using Cons Cons.prems split_from_name [of s "[]" "listSeparator @ join listSeparator ss"] by (simp add: split_from_sep)
  qed
qed simp

lemma DNS1123_no_comma: "IsDNS1123Label s \<Longrightarrow> CHR '','' \<notin> set s \<and> s \<noteq> []"
  by (auto simp: IsDNS1123Label_def list_all_iff alnum_def)

text \<open>
  What the admission controller writes into the annotation is read back exactly: for a pod
  whose container names are DNS labels, as the API server requires, parsing the annotation value
  yields the names of the containers in order. Conversely, a value that parses consists of DNS
  labels only.
\<close>

theorem observed_containers_roundtrip:
  "(list_all IsDNS1123Label (map c_Name (pod_Containers pod)) \<longrightarrow>
      ParseVpaObservedContainersValue (GetVpaObservedContainersValue pod) = Inr (map c_Name (pod_Containers pod))) \<and>
   (ParseVpaObservedContainersValue v = Inr ns \<longrightarrow> list_all IsDNS1123Label ns)"
proof (intro conjI impI)
  let ?ns = "map c_Name (pod_Containers pod)"
  assume a: "list_all IsDNS1123Label ?ns"
  show "ParseVpaObservedContainersValue (GetVpaObservedContainersValue pod) = Inr ?ns"
  proof (cases "?ns = []")
    case True
    then show ?thesis by (simp add: ParseVpaObservedContainersValue_def GetVpaObservedContainersValue_def)
  next
    case False
    have c: "\<forall>n \<in> set ?ns. CHR '','' \<notin> set n" and e: "\<forall>n \<in> set ?ns. n \<noteq> []"
      using a DNS1123_no_comma by (auto simp: list_all_iff)
    have "join listSeparator ?ns \<noteq> []" using False e by (cases "(listSeparator, ?ns)" rule: join.cases) auto
    then show ?thesis using Split_join [OF False c] a
      by (simp add: ParseVpaObservedContainersValue_def GetVpaObservedContainersValue_def str_Split_def Let_def)
  qed
next
  assume "ParseVpaObservedContainersValue v = Inr ns"
  then show "list_all IsDNS1123Label ns"
    by (auto simp: ParseVpaObservedContainersValue_def Let_def split: if_splits)
qed

theorem observed_containers_roundtrip_witness:
  "ParseVpaObservedContainersValue ''web, log-1'' = Inr [''web'', ''log-1'']"
proof -
  define pod where "pod = example_pod\<lparr>pod_Containers :=
    map (\<lambda>n. \<lparr>c_Name = n, c_Resources = \<lparr>Limits = None, Requests = None\<rparr>\<rparr>) [''web'', ''log-1'']\<rparr>"
  have "GetVpaObservedContainersValue pod = ''web, log-1''" "map c_Name (pod_Containers pod) = [''web'', ''log-1'']"
    by (simp_all add: pod_def GetVpaObservedContainersValue_def listSeparator_def)
  moreover have "list_all IsDNS1123Label [''web'', ''log-1'']" by code_simp
  ultimately show ?thesis using observed_containers_roundtrip [of pod "[]" "[]"] by simp
qed

end
