(* ===== verification/Input_Sources.thy ===== *)
theory Input_Sources
  imports Aggregate_State Annotations
begin

text \<open>
  What feeds the recommender: pod specifications (\<open>pkg/recommender/input/spec/spec_client.go\<close>), usage
  metrics (\<open>input/metrics/metrics_client.go\<close>), out-of-memory events (\<open>input/oom/observer.go\<close>) and
  the history kept by Prometheus (\<open>input/history/history_provider.go\<close>). The pod lister, the metrics
  API, the Prometheus API, the parser of quantities and \<open>sort.Slice\<close> are arguments.
\<close>

section \<open>Pod specifications\<close>

text \<open>The image of a container is carried along by the code and never read; it is left out.\<close>

record BasicContainerSpec =
  bcs_ID :: ContainerID
  bcs_Request :: Resources

record BasicPodSpec =
  bps_ID :: PodID
  bps_PodLabels :: labels
  bps_Containers :: "BasicContainerSpec list"
  bps_Phase :: PodPhase

definition calculateRequestedResources :: "Container \<Rightarrow> Resources" where
  "calculateRequestedResources container =
     (let requests = list_of (Requests (c_Resources container))
      in [(ResourceCPU, q_MilliValue (lookup_default 0 requests ResourceCPU)),
          (ResourceMemory, q_Value (lookup_default 0 requests ResourceMemory))])"

definition newContainerSpec :: "PodID \<Rightarrow> Container \<Rightarrow> BasicContainerSpec" where
  "newContainerSpec podID container =
     \<lparr>bcs_ID = \<lparr>cid_PodID = podID, cid_ContainerName = c_Name container\<rparr>,
      bcs_Request = calculateRequestedResources container\<rparr>"

definition newContainerSpecs :: "PodID \<Rightarrow> Pod \<Rightarrow> BasicContainerSpec list" where
  "newContainerSpecs podID pod = map (newContainerSpec podID) (pod_Containers pod)"

definition newBasicPodSpec :: "Pod \<Rightarrow> BasicPodSpec" where
  "newBasicPodSpec pod =
     (let podId = \<lparr>pid_Namespace = pod_Namespace pod, PodName = pod_Name pod\<rparr>
      in \<lparr>bps_ID = podId, bps_PodLabels = pod_Labels pod, bps_Containers = newContainerSpecs podId pod,
          bps_Phase = Phase pod\<rparr>)"

definition GetPodSpecs :: "Pod list result \<Rightarrow> BasicPodSpec list result" where
  "GetPodSpecs listed = rbind listed (\<lambda>pods. Inr (map newBasicPodSpec pods))"

section \<open>Usage metrics\<close>

record ContainerMetricsSnapshot =
  cms_ID :: ContainerID
  SnapshotTime :: time
  SnapshotWindow :: duration
  cms_Usage :: Resources

record ContainerMetrics =
  cm_Name :: string
  cm_Usage :: ResourceList

record PodMetrics =
  pm_Namespace :: string
  pm_Name :: string
  pm_Timestamp :: time
  pm_Window :: duration
  pm_Containers :: "ContainerMetrics list"

definition calculateUsage :: "ResourceList \<Rightarrow> Resources" where
  "calculateUsage containerUsage =
     [(ResourceCPU, q_MilliValue (lookup_default 0 containerUsage ResourceCPU)),
      (ResourceMemory, q_Value (lookup_default 0 containerUsage ResourceMemory))]"

definition newContainerMetricsSnapshot :: "ContainerMetrics \<Rightarrow> PodMetrics \<Rightarrow> ContainerMetricsSnapshot" where
  "newContainerMetricsSnapshot containerMetrics podMetrics =
     \<lparr>cms_ID = \<lparr>cid_PodID = \<lparr>pid_Namespace = pm_Namespace podMetrics, PodName = pm_Name podMetrics\<rparr>,
                cid_ContainerName = cm_Name containerMetrics\<rparr>,
      SnapshotTime = pm_Timestamp podMetrics, SnapshotWindow = pm_Window podMetrics,
      cms_Usage = calculateUsage (cm_Usage containerMetrics)\<rparr>"

definition createContainerMetricsSnapshots :: "PodMetrics \<Rightarrow> ContainerMetricsSnapshot list" where
  "createContainerMetricsSnapshots podMetrics =
     map (\<lambda>containerMetrics. newContainerMetricsSnapshot containerMetrics podMetrics) (pm_Containers podMetrics)"

definition GetContainersMetrics :: "PodMetrics list result \<Rightarrow> ContainerMetricsSnapshot list result" where
  "GetContainersMetrics listed =
     rbind listed (\<lambda>podMetricsList. Inr (concat (map createContainerMetricsSnapshots podMetricsList)))"

section \<open>Out-of-memory events\<close>

record OomInfo =
  oi_Timestamp :: time
  oi_Memory :: ResourceAmount
  oi_ContainerID :: ContainerID

record Event =
  ev_Reason :: string
  ev_InvolvedKind :: string
  ev_InvolvedNamespace :: string
  ev_InvolvedName :: string
  ev_Annotations :: "(string, string) gomap"
  ev_CreationTimestamp :: time

definition extractArray :: "Event \<Rightarrow> string \<Rightarrow> string list" where
  "extractArray event annotationsKey =
     (case map_of (ev_Annotations event) annotationsKey of None \<Rightarrow> [] | Some str \<Rightarrow> str_Split str '','')"

definition parseEvictionEvent :: "(string \<Rightarrow> Quantity option) \<Rightarrow> Event \<Rightarrow> OomInfo list" where
  "parseEvictionEvent parseQuantity event =
     (if ev_Reason event \<noteq> ''Evicted'' \<or> ev_InvolvedKind event \<noteq> ''Pod'' then []
      else
        let offendingContainers = extractArray event ''offending_containers'';
            offendingContainersUsage = extractArray event ''offending_containers_usage'';
            starvedResource = extractArray event ''starved_resource''
        in if length offendingContainers \<noteq> length offendingContainersUsage \<or>
              length offendingContainers \<noteq> length starvedResource then []
           else List.map_filter (\<lambda>(container, usage, starved).
                  if starved \<noteq> ''memory'' then None
                  else (case parseQuantity usage of
                      None \<Rightarrow> None
                    | Some memory \<Rightarrow> Some
                        \<lparr>oi_Timestamp = ev_CreationTimestamp event, oi_Memory = q_Value memory,
                         oi_ContainerID = \<lparr>cid_PodID = \<lparr>pid_Namespace = ev_InvolvedNamespace event, PodName = ev_InvolvedName event\<rparr>,
                                           cid_ContainerName = container\<rparr>\<rparr>))
                  (zip offendingContainers (zip offendingContainersUsage starvedResource)))"

text \<open>
  The observer is a channel that holds at most 5000 events, oldest first; a send to a full channel
  waits for a receiver, so that here a send that would not be accepted is \<open>None\<close>.
\<close>

definition oom_channel_capacity :: nat where "oom_channel_capacity = 5000"

fun send_all :: "'a list \<Rightarrow> 'a list \<Rightarrow> 'a list option" where
  "send_all channel [] = Some channel"
| "send_all channel (x # xs) =
     (if length channel < oom_channel_capacity then send_all (channel @ [x]) xs else None)"

definition OnEvent :: "(string \<Rightarrow> Quantity option) \<Rightarrow> OomInfo list \<Rightarrow> Event \<Rightarrow> OomInfo list option" where
  "OnEvent parseQuantity channel event = send_all channel (parseEvictionEvent parseQuantity event)"

definition findStatus :: "string \<Rightarrow> ContainerStatus list \<Rightarrow> ContainerStatus option" where
  "findStatus name containerStatuses = find (\<lambda>s. cs_Name s = name) containerStatuses"

definition findSpec :: "string \<Rightarrow> Container list \<Rightarrow> Container option" where
  "findSpec name containers = find (\<lambda>c. c_Name c = name) containers"

definition oom_of_status :: "Pod \<Rightarrow> Pod \<Rightarrow> ContainerStatus \<Rightarrow> OomInfo option" where
  "oom_of_status oldPod newPod containerStatus =
     (case Terminated containerStatus of
        None \<Rightarrow> None
      | Some terminated \<Rightarrow>
          if \<not> (0 < RestartCount containerStatus \<and> Reason terminated = ''OOMKilled'') then None
          else (case findStatus (cs_Name containerStatus) (ContainerStatuses oldPod) of
              None \<Rightarrow> None
            | Some oldStatus \<Rightarrow>
                if \<not> RestartCount oldStatus < RestartCount containerStatus then None
                else (case findSpec (cs_Name containerStatus) (pod_Containers oldPod) of
                    None \<Rightarrow> None
                  | Some oldSpec \<Rightarrow> Some
                      \<lparr>oi_Timestamp = FinishedAt terminated,
                       oi_Memory = q_Value (lookup_default 0 (list_of (Requests (c_Resources oldSpec))) ResourceMemory),
                       oi_ContainerID = \<lparr>cid_PodID = \<lparr>pid_Namespace = pod_Namespace newPod, PodName = pod_Name newPod\<rparr>,
                                         cid_ContainerName = cs_Name containerStatus\<rparr>\<rparr>)))"

text \<open>Objects that are no pods are logged and then dereferenced as nil pods.\<close>

definition OnUpdate :: "OomInfo list \<Rightarrow> Pod option \<Rightarrow> Pod option \<Rightarrow> OomInfo list option result" where
  "OnUpdate channel oldObj newObj =
     (case newObj of
        None \<Rightarrow> Inl (Panic ''nil pointer dereference'')
      | Some newPod \<Rightarrow> (case oldObj of
            None \<Rightarrow>
              if list_ex (\<lambda>s. 0 < RestartCount s \<and> (case Terminated s of None \<Rightarrow> False | Some t \<Rightarrow> Reason t = ''OOMKilled'')) (ContainerStatuses newPod)
              then Inl (Panic ''nil pointer dereference'') else Inr (Some channel)
          | Some oldPod \<Rightarrow>
              Inr (send_all channel (List.map_filter (oom_of_status oldPod newPod) (ContainerStatuses newPod)))))"

lemma send_all_fifo:
  "send_all channel xs = (if xs = [] \<or> length channel + length xs \<le> oom_channel_capacity then Some (channel @ xs) else None)"
  by (induction channel xs rule: send_all.induct) auto

section \<open>History from Prometheus\<close>

record PrometheusHistoryProviderConfig =
  HistoryLength :: string
  HistoryResolution :: string
  PodLabelPrefix :: string
  PodLabelsMetricName :: string
  PodNamespaceLabel :: string
  PodNameLabel :: string
  CtrNamespaceLabel :: string
  CtrPodNameLabel :: string
  CtrNameLabel :: string
  CadvisorMetricsJobName :: string
  phc_Namespace :: string

record PodHistory =
  LastLabels :: labels
  LastSeen :: time
  Samples :: "(string, ContainerUsageSample list) gomap"

definition newEmptyHistory :: PodHistory where
  "newEmptyHistory = \<lparr>LastLabels = [], LastSeen = zero_time, Samples = []\<rparr>"

text \<open>A time series: its labels and its samples. A query that returns no matrix is \<open>None\<close>.\<close>

type_synonym series = "(string, string) gomap \<times> (time \<times> float64) list"

definition getContainerIDFromLabels :: "PrometheusHistoryProviderConfig \<Rightarrow> (string, string) gomap \<Rightarrow> ContainerID result" where
  "getContainerIDFromLabels config metric =
     (case map_of metric (CtrNamespaceLabel config) of
        None \<Rightarrow> Inl (Err (''no '' @ CtrNamespaceLabel config @ '' label''))
      | Some namespace \<Rightarrow> (case map_of metric (CtrPodNameLabel config) of
            None \<Rightarrow> Inl (Err (''no '' @ CtrPodNameLabel config @ '' label''))
          | Some podName \<Rightarrow> (case map_of metric (CtrNameLabel config) of
                None \<Rightarrow> Inl (Err (''no '' @ CtrNameLabel config @ '' label on container data''))
              | Some containerName \<Rightarrow>
                  Inr \<lparr>cid_PodID = \<lparr>pid_Namespace = namespace, PodName = podName\<rparr>, cid_ContainerName = containerName\<rparr>)))"

definition getPodIDFromLabels :: "PrometheusHistoryProviderConfig \<Rightarrow> (string, string) gomap \<Rightarrow> PodID result" where
  "getPodIDFromLabels config metric =
     (case map_of metric (PodNamespaceLabel config) of
        None \<Rightarrow> Inl (Err (''no '' @ PodNamespaceLabel config @ '' label''))
      | Some namespace \<Rightarrow> (case map_of metric (PodNameLabel config) of
            None \<Rightarrow> Inl (Err (''no '' @ PodNameLabel config @ '' label''))
          | Some podName \<Rightarrow> Inr \<lparr>pid_Namespace = namespace, PodName = podName\<rparr>))"

definition TrimPrefix :: "string \<Rightarrow> string \<Rightarrow> string" where
  "TrimPrefix s prefix = (if take (length prefix) s = prefix then drop (length prefix) s else s)"

definition getPodLabelsMap :: "PrometheusHistoryProviderConfig \<Rightarrow> (string, string) gomap \<Rightarrow> labels" where
  "getPodLabelsMap config metric =
     fold (\<lambda>(k, v) podLabels.
       let podLabelKey = TrimPrefix k (PodLabelPrefix config)
       in if podLabelKey \<noteq> k then AList.update podLabelKey v podLabels else podLabels) metric []"

definition resourceAmountFromValue :: "float64 \<Rightarrow> ResourceName \<Rightarrow> ResourceAmount" where
  "resourceAmountFromValue v resource =
     (if resource = ResourceCPU then CPUAmountFromCores v
      else if resource = ResourceMemory then MemoryAmountFromBytes v else 0)"

definition getContainerUsageSamplesFromSamples :: "(time \<times> float64) list \<Rightarrow> ResourceName \<Rightarrow> ContainerUsageSample list" where
  "getContainerUsageSamplesFromSamples samples resource =
     map (\<lambda>(t, v). \<lparr>MeasureStart = t, Usage = resourceAmountFromValue v resource, Request = 0, Resource = resource\<rparr>) samples"

type_synonym history = "(PodID, PodHistory) gomap"

fun add_series :: "PrometheusHistoryProviderConfig \<Rightarrow> ResourceName \<Rightarrow> series list \<Rightarrow> history \<Rightarrow> history result" where
  "add_series config resource [] res = Inr res"
| "add_series config resource ((metric, vals) # matrix) res =
     (case getContainerIDFromLabels config metric of
        Inl _ \<Rightarrow> Inl (Err ''cannot get container ID from labels'')
      | Inr containerID \<Rightarrow>
       let podHistory = lookup_default newEmptyHistory res (cid_PodID containerID);
           samples = lookup_default [] (Samples podHistory) (cid_ContainerName containerID) @
                     getContainerUsageSamplesFromSamples vals resource
       in add_series config resource matrix
            (AList.update (cid_PodID containerID)
               (podHistory\<lparr>Samples := AList.update (cid_ContainerName containerID) samples (Samples podHistory)\<rparr>) res))"

definition readResourceHistory ::
    "PrometheusHistoryProviderConfig \<Rightarrow> (string \<Rightarrow> series list option result) \<Rightarrow> history \<Rightarrow> string \<Rightarrow> ResourceName \<Rightarrow> history result" where
  "readResourceHistory config queryRange res query resource =
     rbind (queryRange query) (\<lambda>answer.
       case answer of
         None \<Rightarrow> Inl (Err ''expected query to return a matrix'')
       | Some matrix \<Rightarrow> add_series config resource matrix res)"

text \<open>The history is updated in place: what was read before an error stays. An empty series panics.\<close>

fun add_last_labels :: "PrometheusHistoryProviderConfig \<Rightarrow> series list \<Rightarrow> history \<Rightarrow> go_error option \<times> history" where
  "add_last_labels config [] res = (None, res)"
| "add_last_labels config ((metric, vals) # matrix) res =
     (case getPodIDFromLabels config metric of
        Inl e \<Rightarrow> (Some (Err ''cannot get container ID from labels''), res)
      | Inr podID \<Rightarrow>
          let podHistory = lookup_default newEmptyHistory res podID;
              res1 = (if map_of res podID = None then AList.update podID podHistory res else res)
          in if vals = [] then (Some (Panic ''index out of range''), res1)
             else let seen = fst (last vals) in
               add_last_labels config matrix
                 (if time_After seen (LastSeen podHistory)
                  then AList.update podID (podHistory\<lparr>LastSeen := seen, LastLabels := getPodLabelsMap config metric\<rparr>) res1
                  else res1))"

definition readLastLabels ::
    "PrometheusHistoryProviderConfig \<Rightarrow> (string \<Rightarrow> series list option result) \<Rightarrow> history \<Rightarrow> string \<Rightarrow> go_error option \<times> history" where
  "readLastLabels config instant res query =
     (case instant query of
        Inl e \<Rightarrow> (Some (Err ''cannot get timeseries for labels''), res)
      | Inr None \<Rightarrow> (Some (Err ''expected query to return a matrix''), res)
      | Inr (Some matrix) \<Rightarrow> add_last_labels config matrix res)"

definition pod_selector :: "PrometheusHistoryProviderConfig \<Rightarrow> string" where
  "pod_selector config =
     (let quoted = (\<lambda>s. [CHR 0x22] @ s @ [CHR 0x22]);
          s0 = (if CadvisorMetricsJobName config \<noteq> [] then ''job='' @ quoted (CadvisorMetricsJobName config) @ '', '' else []);
          s1 = s0 @ CtrPodNameLabel config @ ''=~'' @ quoted ''.+'' @ '', '' @ CtrNameLabel config @ ''!='' @ quoted ''POD'' @
               '', '' @ CtrNameLabel config @ ''!='' @ quoted []
      in if phc_Namespace config \<noteq> [] then s1 @ '', '' @ CtrNamespaceLabel config @ ''='' @ quoted (phc_Namespace config) else s1)"

definition GetClusterHistory ::
    "(ContainerUsageSample list \<Rightarrow> ContainerUsageSample list) \<Rightarrow> PrometheusHistoryProviderConfig \<Rightarrow>
     (string \<Rightarrow> series list option result) \<Rightarrow> (string \<Rightarrow> series list option result) \<Rightarrow> history result" where
  "GetClusterHistory sortSlice config queryRange instant =
     (let podSelector = pod_selector config;
          historicalCpuQuery = ''rate(container_cpu_usage_seconds_total{'' @ podSelector @ ''}['' @ HistoryResolution config @ ''])'';
          historicalMemoryQuery = ''container_memory_working_set_bytes{'' @ podSelector @ ''}''
      in rbind (readResourceHistory config queryRange [] historicalCpuQuery ResourceCPU) (\<lambda>res.
         rbind (readResourceHistory config queryRange res historicalMemoryQuery ResourceMemory) (\<lambda>res.
           let res = map_values (\<lambda>_ h. h\<lparr>Samples := map_values (\<lambda>_. sortSlice) (Samples h)\<rparr>) res
           in case readLastLabels config instant res (PodLabelsMetricName config) of
                (Some (Panic p), _) \<Rightarrow> Inl (Panic p)
              | (_, res') \<Rightarrow> Inr res')))"

end
