(* ===== verification/Controller_Fetcher.thy ===== *)
theory Controller_Fetcher
  imports Kube_Types
begin

text \<open>
  \<open>pkg/recommender/input/controller_fetcher/controller_fetcher.go\<close>: the topmost well-known or scalable
  controller above a controller, found by following owner references. The informers, the REST
  mapper and the scale sub-resource of the API server are fields of the fetcher. The search is a
  loop that may follow owners for ever if there are infinitely many of them; it is a partial
  function, and it is shown to return whenever finitely many controllers can be reached.
\<close>

section \<open>Controllers and the fetcher\<close>

record ControllerKey =
  ck_Namespace :: string
  ck_Kind :: string
  ck_Name :: string

record ControllerKeyWithAPIVersion = ControllerKey +
  ck_ApiVersion :: string

text \<open>What an informer stores: the controllers by type, with the owners of the object.\<close>

datatype controller_object =
    DaemonSet "OwnerReference list"
  | Deployment "OwnerReference list"
  | StatefulSet "OwnerReference list"
  | ReplicaSet "OwnerReference list"
  | Job "OwnerReference list"
  | CronJob "OwnerReference list"
  | ReplicationController "OwnerReference list"
  | UnknownObject

text \<open>
  A store answers with an error, with nothing, or with an object. A scale, possibly nil, is
  represented by its owners.
\<close>

record controllerFetcher =
  informersMap :: "(string, string \<Rightarrow> controller_object option result) gomap"
  RESTMappings :: "string \<times> string \<Rightarrow> string list result"
  Scales_Get :: "string \<Rightarrow> string \<Rightarrow> string \<Rightarrow> OwnerReference list option result"
  IsNotFound :: "go_error \<Rightarrow> bool"

definition nodeKind :: string where "nodeKind = ''Node''"

fun getOwnerController :: "OwnerReference list \<Rightarrow> string \<Rightarrow> ControllerKeyWithAPIVersion option" where
  "getOwnerController [] namespace = None"
| "getOwnerController (owner # owners) namespace =
     (if or_Controller owner = Some True
      then Some \<lparr>ck_Namespace = namespace, ck_Kind = or_Kind owner, ck_Name = or_Name owner,
                 ck_ApiVersion = or_APIVersion owner\<rparr>
      else getOwnerController owners namespace)"

definition getParentOfWellKnownController ::
    "(string \<Rightarrow> controller_object option result) \<Rightarrow> ControllerKeyWithAPIVersion \<Rightarrow>
     ControllerKeyWithAPIVersion option result" where
  "getParentOfWellKnownController informer controllerKey =
     (let namespace = ck_Namespace controllerKey; name = ck_Name controllerKey in
      rbind (informer (namespace @ ''/'' @ name)) (\<lambda>obj.
        case obj of
          None \<Rightarrow> Inl (Err (ck_Kind controllerKey @ '' '' @ namespace @ ''/'' @ name @ '' does not exist''))
        | Some (DaemonSet owners) \<Rightarrow> Inr (getOwnerController owners namespace)
        | Some (Deployment owners) \<Rightarrow> Inr (getOwnerController owners namespace)
        | Some (StatefulSet owners) \<Rightarrow> Inr (getOwnerController owners namespace)
        | Some (ReplicaSet owners) \<Rightarrow> Inr (getOwnerController owners namespace)
        | Some (Job owners) \<Rightarrow> Inr (getOwnerController owners namespace)
        | Some (CronJob owners) \<Rightarrow> Inr (getOwnerController owners namespace)
        | Some (ReplicationController owners) \<Rightarrow> Inr (getOwnerController owners namespace)
        | Some UnknownObject \<Rightarrow> Inl (Err ''Don't know how to read owner controller'')))"

text \<open>The group of an API version, \<open>schema.ParseGroupVersion\<close>: what is before its only slash.\<close>

definition parse_group :: "string \<Rightarrow> string result" where
  "parse_group gv =
     (if gv = [] \<or> gv = ''/'' then Inr []
      else if count_list gv (CHR ''/'') = 0 then Inr []
      else if count_list gv (CHR ''/'') = 1 then Inr (takeWhile (\<lambda>c. c \<noteq> CHR ''/'') gv)
      else Inl (Err (''unexpected GroupVersion string: '' @ gv)))"

definition groupKind :: "ControllerKeyWithAPIVersion \<Rightarrow> (string \<times> string) result" where
  "groupKind c = rbind (parse_group (ck_ApiVersion c)) (\<lambda>group. Inr (group, ck_Kind c))"

definition isWellKnown :: "controllerFetcher \<Rightarrow> ControllerKeyWithAPIVersion \<Rightarrow> bool" where
  "isWellKnown f k \<longleftrightarrow> map_of (informersMap f) (ck_Kind k) \<noteq> None"

text \<open>
  The guard for nodes looks at the kind only when the group kind could not be read, and then the
  kind is the empty zero value.
\<close>

definition isWellKnownOrScalable :: "controllerFetcher \<Rightarrow> ControllerKeyWithAPIVersion \<Rightarrow> bool" where
  "isWellKnownOrScalable f k =
     (if isWellKnown f k then True
      else if (case groupKind k of Inl _ \<Rightarrow> [] = nodeKind | Inr gk \<Rightarrow> False) then False
      else (case groupKind k of
          Inl _ \<Rightarrow> False
        | Inr gk \<Rightarrow> (case RESTMappings f gk of
              Inl _ \<Rightarrow> False
            | Inr mappings \<Rightarrow>
                list_ex (\<lambda>groupResource. case Scales_Get f (ck_Namespace k) groupResource (ck_Name k) of
                  Inr (Some _) \<Rightarrow> True | _ \<Rightarrow> False) mappings)))"

text \<open>The loop over the mappings keeps the last error; without mappings there is neither owner nor error.\<close>

fun first_scale_owner ::
    "controllerFetcher \<Rightarrow> string \<Rightarrow> string \<Rightarrow> string list \<Rightarrow> go_error option \<Rightarrow>
     ControllerKeyWithAPIVersion option result" where
  "first_scale_owner f namespace name [] lastError =
     (case lastError of None \<Rightarrow> Inr None | Some e \<Rightarrow> Inl e)"
| "first_scale_owner f namespace name (groupResource # mappings) lastError =
     (case Scales_Get f namespace groupResource name of
        Inl e \<Rightarrow> first_scale_owner f namespace name mappings (Some e)
      | Inr None \<Rightarrow> Inl (Panic ''nil pointer dereference'')
      | Inr (Some owners) \<Rightarrow> Inr (getOwnerController owners namespace))"

definition getOwnerForScaleResource ::
    "controllerFetcher \<Rightarrow> string \<times> string \<Rightarrow> string \<Rightarrow> string \<Rightarrow> ControllerKeyWithAPIVersion option result" where
  "getOwnerForScaleResource f gk namespace name =
     (if snd gk = nodeKind then Inl (Err ''node is not a valid owner'')
      else rbind (RESTMappings f gk) (\<lambda>mappings. first_scale_owner f namespace name mappings None))"

definition getParentOfController ::
    "controllerFetcher \<Rightarrow> ControllerKeyWithAPIVersion \<Rightarrow> ControllerKeyWithAPIVersion option result" where
  "getParentOfController f controllerKey =
     (case map_of (informersMap f) (ck_Kind controllerKey) of
        Some informer \<Rightarrow> getParentOfWellKnownController informer controllerKey
      | None \<Rightarrow>
          rbind (groupKind controllerKey) (\<lambda>gk.
            case getOwnerForScaleResource f gk (ck_Namespace controllerKey) (ck_Name controllerKey) of
              Inl (Panic p) \<Rightarrow> Inl (Panic p)
            | Inl e \<Rightarrow> if IsNotFound f e then Inr None else Inl (Err ''Unhandled targetRef'')
            | Inr owner \<Rightarrow> Inr owner))"

partial_function (option) topmost_loop ::
    "controllerFetcher \<Rightarrow> ControllerKeyWithAPIVersion list \<Rightarrow> ControllerKeyWithAPIVersion option \<Rightarrow>
     ControllerKeyWithAPIVersion \<Rightarrow> ControllerKeyWithAPIVersion option result option" where
  "topmost_loop f visited topMost k =
     (case getParentOfController f k of
        Inl err \<Rightarrow> Some (Inl err)
      | Inr None \<Rightarrow> Some (Inr topMost)
      | Inr (Some owner) \<Rightarrow>
          let topMost' = (if isWellKnownOrScalable f owner then Some owner else topMost)
          in if owner \<in> set visited then Some (Inl (Err ''Cycle detected in ownership chain''))
             else topmost_loop f (k # visited) topMost' owner)"

definition FindTopMostWellKnownOrScalable ::
    "controllerFetcher \<Rightarrow> ControllerKeyWithAPIVersion option \<Rightarrow>
     ControllerKeyWithAPIVersion option result option" where
  "FindTopMostWellKnownOrScalable f controller =
     (case controller of
        None \<Rightarrow> Some (Inr None)
      | Some k \<Rightarrow> topmost_loop f [k] (if isWellKnownOrScalable f k then Some k else None) k)"

section \<open>Chains of owners\<close>

fun owner_path :: "controllerFetcher \<Rightarrow> ControllerKeyWithAPIVersion list \<Rightarrow> bool" where
  "owner_path f [] = False"
| "owner_path f [k] = True"
| "owner_path f (k # k' # ks) \<longleftrightarrow> getParentOfController f k = Inr (Some k') \<and> owner_path f (k' # ks)"

text \<open>The last entry of a chain that is well known or scalable, or else a default.\<close>

definition topmost :: "controllerFetcher \<Rightarrow> ControllerKeyWithAPIVersion list \<Rightarrow>
    ControllerKeyWithAPIVersion option \<Rightarrow> ControllerKeyWithAPIVersion option" where
  "topmost f ks best = fold (\<lambda>k best. if isWellKnownOrScalable f k then Some k else best) ks best"

inductive_set owners :: "controllerFetcher \<Rightarrow> ControllerKeyWithAPIVersion \<Rightarrow> ControllerKeyWithAPIVersion set"
  for f k where
  self: "k \<in> owners f k"
| parent: "x \<in> owners f k \<Longrightarrow> getParentOfController f x = Inr (Some y) \<Longrightarrow> y \<in> owners f k"

lemma owner_path_snoc:
  "ks \<noteq> [] \<Longrightarrow> owner_path f (ks @ [x]) \<longleftrightarrow> owner_path f ks \<and> getParentOfController f (last ks) = Inr (Some x)"
proof (induction ks)
  case (Cons k ks)
  then show ?case by (cases ks) auto
qed simp

lemma owner_path_in_owners: "owner_path f ks \<Longrightarrow> hd ks \<in> owners f k \<Longrightarrow> set ks \<subseteq> owners f k"
proof (induction f ks rule: owner_path.induct)
  case (3 f a b ks)
  then have "b \<in> owners f k" by (auto intro: owners.parent)
  then show ?case using 3 by auto
qed auto

lemma loop_along_path:
  "owner_path f (k # ks) \<Longrightarrow> distinct (k # ks) \<Longrightarrow> set visited \<inter> set ks = {} \<Longrightarrow>
   topmost_loop f visited best k = topmost_loop f (rev (butlast (k # ks)) @ visited) (topmost f ks best) (last (k # ks))"
proof (induction ks arbitrary: k visited best)
  case (Cons x ks)
  have p: "getParentOfController f k = Inr (Some x)" "owner_path f (x # ks)" using Cons.prems(1) by simp_all
  have "topmost_loop f visited best k =
      topmost_loop f (k # visited) (if isWellKnownOrScalable f x then Some x else best) x"
    using Cons.prems(3) p(1) by (subst topmost_loop.simps) auto
  also have "\<dots> = topmost_loop f (rev (butlast (x # ks)) @ k # visited) (topmost f (x # ks) best) (last (x # ks))"
    by (subst Cons.IH [OF p(2)]) (use Cons.prems in \<open>auto simp: topmost_def\<close>)
  finally show ?case by simp
qed (simp add: topmost_def)

lemma loop_at_cycle:
  assumes "getParentOfController f k = Inr (Some x)" "x \<in> set visited \<or> x = k"
  shows "topmost_loop f visited best k = Some (Inl (Err ''Cycle detected in ownership chain''))"
proof (cases "x \<in> set visited")
  case True
  then show ?thesis using assms(1) by (subst topmost_loop.simps) simp
next
  case False
  then have "x = k" using assms(2) by simp
  moreover have "topmost_loop f (k # visited) b k = Some (Inl (Err ''Cycle detected in ownership chain''))" for b
    using assms(1) \<open>x = k\<close> by (subst topmost_loop.simps) simp
  ultimately show ?thesis using assms(1) False by (subst topmost_loop.simps) (simp add: Let_def)
qed

lemma maximal_path:
  assumes "finite (owners f k)"
  obtains ks where "owner_path f (k # ks)" "distinct (k # ks)"
    "\<And>x. getParentOfController f (last (k # ks)) = Inr (Some x) \<Longrightarrow> x \<in> set (k # ks)"
proof -
  let ?P = "\<lambda>ks. owner_path f (k # ks) \<and> distinct (k # ks)"
  have bound: "length ks < Suc (card (owners f k))" if "?P ks" for ks
  proof -
    have "set (k # ks) \<subseteq> owners f k" using that by (intro owner_path_in_owners) (auto intro: owners.self)
    then have "card (set (k # ks)) \<le> card (owners f k)" by (rule card_mono [OF assms])
    then show ?thesis using that distinct_card [of "k # ks"] by simp
  qed
  have "?P []" by simp
  then obtain ks where ks: "?P ks" and max: "\<And>ks'. ?P ks' \<Longrightarrow> length ks' \<le> length ks"
    using ex_has_greatest_nat [of ?P "[]" length "Suc (card (owners f k))"] bound by blast
  have "x \<in> set (k # ks)" if p: "getParentOfController f (last (k # ks)) = Inr (Some x)" for x
  proof (rule ccontr)
    assume "x \<notin> set (k # ks)"
    moreover have "owner_path f ((k # ks) @ [x])" using ks p by (subst owner_path_snoc) auto
    ultimately have "?P (ks @ [x])" using ks by auto
    then show False using max by fastforce
  qed
  then show thesis using that ks by blast
qed

text \<open>
  C34. The search for the topmost controller returns whenever finitely many controllers can be
  reached over owner references, even when they own each other in a cycle. It follows one chain
  of distinct owners. If the chain ends, the result is the last controller on it that is well
  known or scalable; an error of a lookup is returned; and if the chain leads back to itself,
  that is reported as an error.
\<close>

theorem FindTopMost_terminates:
  assumes "finite (owners f k)"
  shows "\<exists>ks. owner_path f (k # ks) \<and> distinct (k # ks) \<and>
    FindTopMostWellKnownOrScalable f (Some k) =
      Some (case getParentOfController f (last (k # ks)) of
              Inl err \<Rightarrow> Inl err
            | Inr None \<Rightarrow> Inr (topmost f (k # ks) None)
            | Inr (Some x) \<Rightarrow> Inl (Err ''Cycle detected in ownership chain'')) \<and>
    (\<forall>x. getParentOfController f (last (k # ks)) = Inr (Some x) \<longrightarrow> x \<in> set (k # ks))"
proof -
  obtain ks where p: "owner_path f (k # ks)" "distinct (k # ks)"
    and cyc: "\<And>x. getParentOfController f (last (k # ks)) = Inr (Some x) \<Longrightarrow> x \<in> set (k # ks)"
    using maximal_path [OF assms] by blast
  let ?l = "last (k # ks)" and ?v = "rev (butlast (k # ks)) @ [k]"
  have "FindTopMostWellKnownOrScalable f (Some k) = topmost_loop f ?v (topmost f (k # ks) None) ?l"
    using loop_along_path [OF p, of "[k]"] p(2) by (simp add: FindTopMostWellKnownOrScalable_def topmost_def)
  moreover have "topmost_loop f ?v best ?l =
      Some (case getParentOfController f ?l of
              Inl err \<Rightarrow> Inl err | Inr None \<Rightarrow> Inr best
            | Inr (Some x) \<Rightarrow> Inl (Err ''Cycle detected in ownership chain''))" for best
  proof (cases "\<exists>x. getParentOfController f ?l = Inr (Some x)")
    case True
    then obtain x where x: "getParentOfController f ?l = Inr (Some x)" by blast
    have "set (k # ks) = set (butlast (k # ks)) \<union> {?l}"
      using append_butlast_last_id [of "k # ks"] by (metis list.distinct(1) list.set(1) list.simps(15) set_append)
    then have "x \<in> set ?v \<or> x = ?l" using cyc [OF x] by auto
    then show ?thesis using loop_at_cycle [OF x] x by simp
  next
    case False
    then show ?thesis by (subst topmost_loop.simps) (auto split: sum.split option.split)
  qed
  ultimately show ?thesis using p cyc by metis
qed

section \<open>A deployment and its replica set\<close>

definition web_key :: "string \<Rightarrow> ControllerKeyWithAPIVersion" where
  "web_key kind = \<lparr>ck_Namespace = ''ns'', ck_Kind = kind, ck_Name = ''web'', ck_ApiVersion = ''apps/v1''\<rparr>"

definition web_fetcher :: controllerFetcher where
  "web_fetcher =
     \<lparr>informersMap =
        [(''ReplicaSet'', \<lambda>_. Inr (Some (ReplicaSet
            [\<lparr>or_Kind = ''Deployment'', or_Name = ''web'', or_APIVersion = ''apps/v1'', or_Controller = Some True, or_UID = []\<rparr>]))),
         (''Deployment'', \<lambda>_. Inr (Some (Deployment [])))],
      RESTMappings = (\<lambda>_. Inr []), Scales_Get = (\<lambda>_ _ _. Inl (Err ''no scale'')), IsNotFound = (\<lambda>_. False)\<rparr>"

lemma web_parents:
  "getParentOfController web_fetcher (web_key ''ReplicaSet'') = Inr (Some (web_key ''Deployment''))"
  "getParentOfController web_fetcher (web_key ''Deployment'') = Inr None"
  by (simp_all add: getParentOfController_def web_fetcher_def web_key_def getParentOfWellKnownController_def)

lemma web_owners: "owners web_fetcher (web_key ''ReplicaSet'') \<subseteq> {web_key ''ReplicaSet'', web_key ''Deployment''}"
proof
  fix x assume "x \<in> owners web_fetcher (web_key ''ReplicaSet'')"
  then show "x \<in> {web_key ''ReplicaSet'', web_key ''Deployment''}"
    by induction (auto simp: web_parents)
qed

theorem FindTopMost_terminates_witness:
  "FindTopMostWellKnownOrScalable web_fetcher (Some (web_key ''ReplicaSet'')) = Some (Inr (Some (web_key ''Deployment'')))"
proof -
  have "finite (owners web_fetcher (web_key ''ReplicaSet''))" by (rule finite_subset [OF web_owners]) simp
  from FindTopMost_terminates [OF this] obtain ks where
    ks: "owner_path web_fetcher (web_key ''ReplicaSet'' # ks)" "distinct (web_key ''ReplicaSet'' # ks)"
    and r: "FindTopMostWellKnownOrScalable web_fetcher (Some (web_key ''ReplicaSet'')) =
      Some (case getParentOfController web_fetcher (last (web_key ''ReplicaSet'' # ks)) of
              Inl err \<Rightarrow> Inl err
            | Inr None \<Rightarrow> Inr (topmost web_fetcher (web_key ''ReplicaSet'' # ks) None)
            | Inr (Some x) \<Rightarrow> Inl (Err ''Cycle detected in ownership chain''))"
    and c: "\<forall>x. getParentOfController web_fetcher (last (web_key ''ReplicaSet'' # ks)) = Inr (Some x) \<longrightarrow>
      x \<in> set (web_key ''ReplicaSet'' # ks)"
    by blast
  have "web_key ''Deployment'' \<noteq> web_key ''ReplicaSet''" by (simp add: web_key_def)
  then have "ks = [web_key ''Deployment'']"
    using ks c by (cases "(web_fetcher, ks)" rule: owner_path.cases) (auto simp: web_parents)
  moreover have "isWellKnownOrScalable web_fetcher (web_key ''Deployment'')"
    by (simp add: isWellKnownOrScalable_def isWellKnown_def web_fetcher_def web_key_def)
  ultimately show ?thesis using r by (simp add: web_parents topmost_def)
qed

text \<open>
  A node is treated like any other owner: when its kind has a scale sub-resource it counts as
  scalable, because the guard that is to exclude nodes can never hold.
\<close>

theorem node_guard_is_dead:
  "isWellKnownOrScalable f (k\<lparr>ck_Kind := nodeKind\<rparr>) \<longleftrightarrow>
     (\<exists>informer. map_of (informersMap f) nodeKind = Some informer) \<or>
     (\<exists>group mappings. parse_group (ck_ApiVersion k) = Inr group \<and> RESTMappings f (group, nodeKind) = Inr mappings \<and>
        (\<exists>groupResource scale. groupResource \<in> set mappings \<and> Scales_Get f (ck_Namespace k) groupResource (ck_Name k) = Inr (Some scale)))"
proof -
  have "(case r of Inr (Some _) \<Rightarrow> True | _ \<Rightarrow> False) \<longleftrightarrow> (\<exists>scale. r = Inr (Some scale))"
    for r :: "OwnerReference list option result"
    by (cases r) (auto split: option.split)
  then show ?thesis
    by (cases "parse_group (ck_ApiVersion k)")
      (auto simp: isWellKnownOrScalable_def isWellKnown_def groupKind_def nodeKind_def list_ex_iff
        split: sum.splits)
qed

end
