(* ===== verification/Target_Fetcher.thy ===== *)
theory Target_Fetcher
  imports Controller_Fetcher
begin

text \<open>
  \<open>pkg/target/fetcher.go\<close>: the label selector of the controller a VPA points to, read from an informer
  for the well-known kinds and from the scale sub-resource otherwise, together with the conversion
  \<open>LabelSelectorAsSelector\<close> of the API machinery that it applies. The validation of label keys and
  values and the parser of selector strings are fields of the fetcher.
\<close>

section \<open>Label selectors\<close>

record LabelSelectorRequirement =
  lsr_Key :: string
  lsr_Operator :: string
  lsr_Values :: "string list"

record LabelSelector =
  MatchLabels :: labels
  MatchExpressions :: "LabelSelectorRequirement list"

definition selector_operator :: "string \<Rightarrow> Operator option" where
  "selector_operator s =
     (if s = ''In'' then Some In else if s = ''NotIn'' then Some NotIn
      else if s = ''Exists'' then Some Exists else if s = ''DoesNotExist'' then Some DoesNotExist else None)"

text \<open>For the operators that a label selector can have.\<close>

definition NewRequirement ::
    "(string \<Rightarrow> bool) \<Rightarrow> (string \<Rightarrow> bool) \<Rightarrow> string \<Rightarrow> Operator \<Rightarrow> string list \<Rightarrow> Requirement result" where
  "NewRequirement validKey validValue k opr vals =
     (if \<not> validKey k then Inl (Err ''invalid label key'')
      else if opr \<in> {In, NotIn} \<and> vals = [] then Inl (Err ''values set can't be empty'')
      else if opr \<in> {Equals_op, DoubleEquals, NotEquals} \<and> length vals \<noteq> 1
      then Inl (Err ''exact-match compatibility requires one single value'')
      else if opr \<in> {Exists, DoesNotExist} \<and> vals \<noteq> [] then Inl (Err ''values set must be empty'')
      else if opr \<in> {GreaterThan, LessThan} \<and> length vals \<noteq> 1 then Inl (Err ''exactly one value is required'')
      else if opr \<in> {GreaterThan, LessThan} \<and> ParseInt (hd vals) = None then Inl (Err ''the value must be an integer'')
      else if \<not> list_all validValue vals then Inl (Err ''invalid label value'')
      else Inr \<lparr>key = k, operator = opr, strValues = vals\<rparr>)"

fun add_labels :: "(string \<Rightarrow> bool) \<Rightarrow> (string \<Rightarrow> bool) \<Rightarrow> labels \<Rightarrow> Requirement list \<Rightarrow> Requirement list result" where
  "add_labels validKey validValue [] rs = Inr rs"
| "add_labels validKey validValue ((k, v) # ls) rs =
     rbind (NewRequirement validKey validValue k Equals_op [v]) (\<lambda>r.
       add_labels validKey validValue ls (sort_key key (rs @ [r])))"

fun add_expressions ::
    "(string \<Rightarrow> bool) \<Rightarrow> (string \<Rightarrow> bool) \<Rightarrow> LabelSelectorRequirement list \<Rightarrow> Requirement list \<Rightarrow> Requirement list result" where
  "add_expressions validKey validValue [] rs = Inr rs"
| "add_expressions validKey validValue (e # es) rs =
     (case selector_operator (lsr_Operator e) of
        None \<Rightarrow> Inl (Err ''not a valid pod selector operator'')
      | Some opr \<Rightarrow>
          rbind (NewRequirement validKey validValue (lsr_Key e) opr (lsr_Values e)) (\<lambda>r.
            add_expressions validKey validValue es (sort_key key (rs @ [r]))))"

definition LabelSelectorAsSelector ::
    "(string \<Rightarrow> bool) \<Rightarrow> (string \<Rightarrow> bool) \<Rightarrow> LabelSelector option \<Rightarrow> Selector result" where
  "LabelSelectorAsSelector validKey validValue ps =
     (case ps of
        None \<Rightarrow> Inr NothingSelector
      | Some ls \<Rightarrow>
          if length (MatchLabels ls) + length (MatchExpressions ls) = 0 then Inr (InternalSelector [])
          else rbind (add_labels validKey validValue (MatchLabels ls) []) (\<lambda>rs.
               rbind (add_expressions validKey validValue (MatchExpressions ls) rs) (\<lambda>rs.
                 Inr (InternalSelector rs))))"

definition SetAsLabelSelector :: "labels option \<Rightarrow> LabelSelector option" where
  "SetAsLabelSelector ls = map_option (\<lambda>l. \<lparr>MatchLabels = l, MatchExpressions = []\<rparr>) ls"

section \<open>The fetcher\<close>

text \<open>The objects an informer stores, with the selector of the workload.\<close>

datatype workload =
    DaemonSetSelector "LabelSelector option"
  | DeploymentSelector "LabelSelector option"
  | StatefulSetSelector "LabelSelector option"
  | ReplicaSetSelector "LabelSelector option"
  | JobSelector "LabelSelector option"
  | CronJobTemplateLabels "labels option"
  | ReplicationControllerSelector "labels option"
  | UnknownWorkload

record vpaTargetSelectorFetcher =
  tf_informersMap :: "(string, string \<Rightarrow> workload option result) gomap"
  tf_RESTMappings :: "string \<times> string \<Rightarrow> string list result"
  tf_Scales_Get :: "string \<Rightarrow> string \<Rightarrow> string \<Rightarrow> string result"
  labels_Parse :: "string \<Rightarrow> Selector result"
  validLabelKey :: "string \<Rightarrow> bool"
  validLabelValue :: "string \<Rightarrow> bool"

definition getLabelSelector ::
    "vpaTargetSelectorFetcher \<Rightarrow> (string \<Rightarrow> workload option result) \<Rightarrow> string \<Rightarrow> string \<Rightarrow> string \<Rightarrow> Selector result" where
  "getLabelSelector f informer kind namespace name =
     (let convert = LabelSelectorAsSelector (validLabelKey f) (validLabelValue f) in
      rbind (informer (namespace @ ''/'' @ name)) (\<lambda>obj.
        case obj of
          None \<Rightarrow> Inl (Err (kind @ '' '' @ namespace @ ''/'' @ name @ '' does not exist''))
        | Some (DaemonSetSelector s) \<Rightarrow> convert s
        | Some (DeploymentSelector s) \<Rightarrow> convert s
        | Some (StatefulSetSelector s) \<Rightarrow> convert s
        | Some (ReplicaSetSelector s) \<Rightarrow> convert s
        | Some (JobSelector s) \<Rightarrow> convert s
        | Some (CronJobTemplateLabels ls) \<Rightarrow> convert (SetAsLabelSelector ls)
        | Some (ReplicationControllerSelector ls) \<Rightarrow> convert (SetAsLabelSelector ls)
        | Some UnknownWorkload \<Rightarrow> Inl (Err ''Don't know how to read label seletor'')))"

text \<open>
  A nil selector without an error is the value \<open>Inr None\<close>: it is what the loop leaves when there is
  no mapping at all.
\<close>

fun first_scale_selector ::
    "vpaTargetSelectorFetcher \<Rightarrow> string \<Rightarrow> string \<Rightarrow> string list \<Rightarrow> go_error option \<Rightarrow> Selector option result" where
  "first_scale_selector f namespace name [] lastError =
     (case lastError of None \<Rightarrow> Inr None | Some e \<Rightarrow> Inl e)"
| "first_scale_selector f namespace name (groupResource # mappings) lastError =
     (case tf_Scales_Get f namespace groupResource name of
        Inl e \<Rightarrow> first_scale_selector f namespace name mappings (Some e)
      | Inr statusSelector \<Rightarrow>
          if statusSelector = [] then Inl (Err ''empty selector for scale sub-resource'')
          else rbind (labels_Parse f statusSelector) (\<lambda>selector. Inr (Some selector)))"

definition getLabelSelectorFromResource ::
    "vpaTargetSelectorFetcher \<Rightarrow> string \<times> string \<Rightarrow> string \<Rightarrow> string \<Rightarrow> Selector option result" where
  "getLabelSelectorFromResource f gk namespace name =
     rbind (tf_RESTMappings f gk) (\<lambda>mappings. first_scale_selector f namespace name mappings None)"

definition Fetch :: "vpaTargetSelectorFetcher \<Rightarrow> VerticalPodAutoscaler \<Rightarrow> Selector option result" where
  "Fetch f vpa =
     (case TargetRef (vpa_Spec vpa) of
        None \<Rightarrow> Inl (Err ''targetRef not defined'')
      | Some target \<Rightarrow> (case map_of (tf_informersMap f) (tr_Kind target) of
            Some informer \<Rightarrow>
              rbind (getLabelSelector f informer (tr_Kind target) (vpa_Namespace vpa) (tr_Name target))
                (\<lambda>selector. Inr (Some selector))
          | None \<Rightarrow>
              rbind (parse_group (tr_APIVersion target)) (\<lambda>group.
                case getLabelSelectorFromResource f (group, tr_Kind target) (vpa_Namespace vpa) (tr_Name target) of
                  Inl _ \<Rightarrow> Inl (Err ''Unhandled targetRef'')
                | Inr selector \<Rightarrow> Inr selector)))"

section \<open>What a converted selector selects\<close>

lemma NewRequirement_Inr:
  "NewRequirement validKey validValue k opr vals = Inr r \<Longrightarrow> r = \<lparr>key = k, operator = opr, strValues = vals\<rparr>"
  by (simp add: NewRequirement_def split: if_splits)

lemma add_labels_matches:
  "add_labels vk vv ls rs = Inr rs' \<Longrightarrow>
   list_all (\<lambda>r. Requirement_Matches r pod) rs' \<longleftrightarrow>
   list_all (\<lambda>r. Requirement_Matches r pod) rs \<and> (\<forall>(k, v) \<in> set ls. map_of pod k = Some v)"
proof (induction vk vv ls rs arbitrary: rs' rule: add_labels.induct)
  case (2 vk vv k v ls rs)
  then obtain r where r: "NewRequirement vk vv k Equals_op [v] = Inr r" by auto
  have "Requirement_Matches r pod \<longleftrightarrow> map_of pod k = Some v"
    using NewRequirement_Inr [OF r] by (simp add: Requirement_Matches_def split: option.split)
  then show ?case using "2.IH" [of r rs'] "2.prems" r by (auto simp: list_all_iff)
qed simp

definition expression_holds :: "labels \<Rightarrow> LabelSelectorRequirement \<Rightarrow> bool" where
  "expression_holds pod e \<longleftrightarrow>
     (if lsr_Operator e = ''In'' then \<exists>v \<in> set (lsr_Values e). map_of pod (lsr_Key e) = Some v
      else if lsr_Operator e = ''NotIn'' then \<forall>v \<in> set (lsr_Values e). map_of pod (lsr_Key e) \<noteq> Some v
      else if lsr_Operator e = ''Exists'' then map_of pod (lsr_Key e) \<noteq> None
      else map_of pod (lsr_Key e) = None)"

lemma add_expressions_matches:
  "add_expressions vk vv es rs = Inr rs' \<Longrightarrow>
   list_all (\<lambda>r. Requirement_Matches r pod) rs' \<longleftrightarrow>
   list_all (\<lambda>r. Requirement_Matches r pod) rs \<and> (\<forall>e \<in> set es. expression_holds pod e)"
proof (induction vk vv es rs arbitrary: rs' rule: add_expressions.induct)
  case (2 vk vv e es rs)
  then obtain opr r where o: "selector_operator (lsr_Operator e) = Some opr"
    and r: "NewRequirement vk vv (lsr_Key e) opr (lsr_Values e) = Inr r" by (auto split: option.splits)
  have "Requirement_Matches r pod \<longleftrightarrow> expression_holds pod e"
    using NewRequirement_Inr [OF r] o
    by (auto simp: Requirement_Matches_def selector_operator_def expression_holds_def split: option.splits if_splits)
  then show ?case using "2.IH" [OF o, of r rs'] "2.prems" o r by (auto simp: list_all_iff)
qed simp

lemma LabelSelectorAsSelector_matches:
  assumes "LabelSelectorAsSelector vk vv (Some ls) = Inr sel"
  shows "Matches sel pod \<longleftrightarrow> (\<forall>(k, v) \<in> set (MatchLabels ls). map_of pod k = Some v) \<and>
    (\<forall>e \<in> set (MatchExpressions ls). expression_holds pod e)"
  using assms add_labels_matches [of vk vv "MatchLabels ls" "[]" _ pod]
    add_expressions_matches [of vk vv "MatchExpressions ls" _ _ pod]
  by (auto simp: LabelSelectorAsSelector_def split: if_splits)

text \<open>
  What the interface promises, that a selector is returned where there is no error, rests on the
  REST mapper never answering with an empty list.
\<close>

lemma first_scale_selector_Some:
  "mappings \<noteq> [] \<or> lastError \<noteq> None \<Longrightarrow> first_scale_selector f ns name mappings lastError = Inr s \<Longrightarrow> s \<noteq> None"
  by (induction f ns name mappings lastError rule: first_scale_selector.induct)
    (auto split: sum.splits if_splits option.splits)

lemma Fetch_not_nil:
  assumes "\<And>gk. tf_RESTMappings f gk \<noteq> Inr []" "Fetch f vpa = Inr s"
  shows "s \<noteq> None"
proof -
  have "s' \<noteq> None" if g: "getLabelSelectorFromResource f gk ns name = Inr s'" for gk ns name s'
  proof -
    obtain mappings where m: "tf_RESTMappings f gk = Inr mappings"
      "first_scale_selector f ns name mappings None = Inr s'"
      using g by (auto simp: getLabelSelectorFromResource_def)
    then have "mappings \<noteq> []" using assms(1) [of gk] by auto
    then show ?thesis using first_scale_selector_Some m(2) by blast
  qed
  then have "\<exists>sel. s' = Some sel"
    if "(case getLabelSelectorFromResource f gk ns name of Inl _ \<Rightarrow> Inl e | Inr selector \<Rightarrow> Inr selector) = Inr s'"
    for gk ns name s' and e :: go_error using that by (simp split: sum.splits)
  then show ?thesis using assms(2) by (auto simp: Fetch_def split: option.splits simp del: not_None_eq)
qed

lemma Fetch_nil_without_mapping:
  assumes "TargetRef (vpa_Spec vpa) = Some target" "map_of (tf_informersMap f) (tr_Kind target) = None"
    "parse_group (tr_APIVersion target) = Inr g" "tf_RESTMappings f (g, tr_Kind target) = Inr []"
  shows "Fetch f vpa = Inr None"
  using assms by (simp add: Fetch_def getLabelSelectorFromResource_def)

end
