(* ===== verification/Cluster_Feeder.thy ===== *)
theory Cluster_Feeder
  imports Cluster_Bounds Input_Sources Target_Fetcher
begin

text \<open>
  \<open>pkg/recommender/input/cluster_feeder.go\<close>: how VPA objects, pods, usage samples, OOM events, history
  and checkpoints get into the cluster state. What the feeder reads is an argument: the answers of
  the listers and clients, the selector fetcher, the controller fetcher and the clock. The time of
  one call of the feeder is a single value. Errors that the code logs and then ignores have no
  effect here either; panics are left values.
\<close>

section \<open>Selectors and conditions of a VPA\<close>

record condition =
  conditionType :: ConditionType
  cond_delete :: bool
  message :: string

definition no_condition :: condition where
  "no_condition = \<lparr>conditionType = [], cond_delete = False, message = []\<rparr>"

text \<open>
  \<open>fetchTop\<close> is the controller fetcher, e.g. \<open>FindTopMostWellKnownOrScalable\<close>; it returns nil or a key.
\<close>

definition validateTargetRef ::
    "(ControllerKeyWithAPIVersion \<Rightarrow> ControllerKeyWithAPIVersion option result) \<Rightarrow> VerticalPodAutoscaler \<Rightarrow> bool \<times> condition" where
  "validateTargetRef fetchTop vpa =
     (case TargetRef (vpa_Spec vpa) of
        None \<Rightarrow> (False, no_condition)
      | Some target \<Rightarrow>
          let k = \<lparr>ck_Namespace = vpa_Namespace vpa, ck_Kind = tr_Kind target, ck_Name = tr_Name target,
                   ck_ApiVersion = tr_APIVersion target\<rparr>;
              unsupported = (\<lambda>msg. (False, \<lparr>conditionType = ConfigUnsupported, cond_delete = False, message = msg\<rparr>))
          in (case fetchTop k of
                Inl _ \<Rightarrow> unsupported ''Error checking if target is a topmost well-known or scalable controller''
              | Inr None \<Rightarrow> unsupported ''Unknown error during checking if target is a topmost well-known or scalable controller''
              | Inr (Some best) \<Rightarrow>
                  if best \<noteq> k
                  then unsupported ''The targetRef controller has a parent but it should point to a topmost well-known or scalable controller''
                  else (True, no_condition)))"

definition getSelector ::
    "(VerticalPodAutoscaler \<Rightarrow> Selector option result) \<Rightarrow>
     (ControllerKeyWithAPIVersion \<Rightarrow> ControllerKeyWithAPIVersion option result) \<Rightarrow>
     VerticalPodAutoscaler \<Rightarrow> Selector \<times> condition list" where
  "getSelector fetch fetchTop vpa =
     (let remove = (\<lambda>t. \<lparr>conditionType = t, cond_delete = True, message = []\<rparr>) in
      case fetch vpa of
        Inr (Some selector) \<Rightarrow>
          let (validTargetRef, unsupportedCondition) = validateTargetRef fetchTop vpa
          in if \<not> validTargetRef then (NothingSelector, [unsupportedCondition, remove ConfigDeprecated])
             else (selector, [remove ConfigUnsupported, remove ConfigDeprecated])
      | r \<Rightarrow>
          (NothingSelector,
           [\<lparr>conditionType = ConfigUnsupported, cond_delete = False,
              message = (case r of Inl (Err e) \<Rightarrow> ''Cannot read targetRef. Reason: '' @ e | _ \<Rightarrow> ''Cannot read targetRef'')\<rparr>,
            remove ConfigDeprecated]))"

definition apply_condition :: "time \<Rightarrow> condition \<Rightarrow> vpaConditionsMap \<Rightarrow> vpaConditionsMap" where
  "apply_condition now c m =
     (if cond_delete c then AList.delete (conditionType c) m
      else conditions_Set now m (conditionType c) True [] (message c))"

section \<open>Loading VPA objects\<close>

record feeder_inputs =
  fi_now :: time
  fi_fetch :: "VerticalPodAutoscaler \<Rightarrow> Selector option result"
  fi_fetchTop :: "ControllerKeyWithAPIVersion \<Rightarrow> ControllerKeyWithAPIVersion option result"
  fi_sameMode :: "VerticalPodAutoscaler \<Rightarrow> bool"
  fi_samePolicy :: "VerticalPodAutoscaler \<Rightarrow> bool"

definition crd_id :: "VerticalPodAutoscaler \<Rightarrow> VpaID" where
  "crd_id crd = \<lparr>vid_Namespace = vpa_Namespace crd, VpaName = vpa_Name crd\<rparr>"

definition set_conditions :: "time \<Rightarrow> VpaID \<Rightarrow> condition list \<Rightarrow> ClusterState \<Rightarrow> ClusterState result" where
  "set_conditions now vpaID conditions c =
     (if conditions = [] then Inr c
      else (case map_of (Vpas c) vpaID of
          None \<Rightarrow> Inl (Panic ''nil pointer dereference'')
        | Some vpa \<Rightarrow> Inr (c\<lparr>Vpas := AList.update vpaID
            (vpa\<lparr>Conditions := fold (apply_condition now) conditions (Conditions vpa)\<rparr>) (Vpas c)\<rparr>)))"

fun add_vpas :: "feeder_inputs \<Rightarrow> VerticalPodAutoscaler list \<Rightarrow> VpaID list \<Rightarrow> ClusterState \<Rightarrow> (VpaID list \<times> ClusterState) result" where
  "add_vpas io [] vpaKeys c = Inr (vpaKeys, c)"
| "add_vpas io (crd # crds) vpaKeys c =
     (let (selector, conditions) = getSelector (fi_fetch io) (fi_fetchTop io) crd;
          (err, c1) = AddOrUpdateVpa (fi_sameMode io crd) (fi_samePolicy io crd) c crd selector
      in if err = None
         then rbind (set_conditions (fi_now io) (crd_id crd) conditions c1) (add_vpas io crds (crd_id crd # vpaKeys))
         else add_vpas io crds vpaKeys c1)"

definition LoadVPAs :: "feeder_inputs \<Rightarrow> VerticalPodAutoscaler list result \<Rightarrow> ClusterState \<Rightarrow> ClusterState result" where
  "LoadVPAs io listed c =
     (case listed of
        Inl _ \<Rightarrow> Inr c
      | Inr vpaCRDs \<Rightarrow>
          rbind (add_vpas io vpaCRDs [] c) (\<lambda>(vpaKeys, c1).
            let gone = filter (\<lambda>vid. vid \<notin> set vpaKeys) (map fst (Vpas c1));
                c2 = fold (\<lambda>vid c. snd (DeleteVpa c vid)) gone c1
            in Inr (c2\<lparr>ObservedVpas := vpaCRDs\<rparr>)))"

section \<open>Loading pods\<close>

definition matchesVPA :: "ClusterState \<Rightarrow> BasicPodSpec \<Rightarrow> bool" where
  "matchesVPA c pod =
     list_ex (\<lambda>(vpaKey, vpa). vid_Namespace vpaKey = pid_Namespace (bps_ID pod) \<and> Matches (PodSelector vpa) (bps_PodLabels pod))
       (Vpas c)"

definition pods_by_id :: "BasicPodSpec list \<Rightarrow> (PodID, BasicPodSpec) gomap" where
  "pods_by_id podSpecs = fold (\<lambda>spec m. AList.update (bps_ID spec) spec m) podSpecs []"

fun add_containers :: "AggregationsConfig \<Rightarrow> time \<Rightarrow> BasicContainerSpec list \<Rightarrow> ClusterState \<Rightarrow> ClusterState result" where
  "add_containers config now [] c = Inr c"
| "add_containers config now (spec # specs) c =
     rbind (AddOrUpdateContainer config now c (bcs_ID spec) (bcs_Request spec)) (\<lambda>(_, c1).
       add_containers config now specs c1)"

fun add_pods_to_cluster ::
    "AggregationsConfig \<Rightarrow> time \<Rightarrow> bool \<Rightarrow> BasicPodSpec list \<Rightarrow> ClusterState \<Rightarrow> ClusterState result" where
  "add_pods_to_cluster config now memorySaveMode [] c = Inr c"
| "add_pods_to_cluster config now memorySaveMode (pod # pods) c =
     (if memorySaveMode \<and> \<not> matchesVPA c pod then add_pods_to_cluster config now memorySaveMode pods c
      else rbind (AddOrUpdatePod config now c (bps_ID pod) (bps_PodLabels pod) (bps_Phase pod)) (\<lambda>c1.
           rbind (add_containers config now (bps_Containers pod) c1)
             (add_pods_to_cluster config now memorySaveMode pods)))"

text \<open>An error of the specification client is only logged: the list of pods is then empty.\<close>

definition LoadPods ::
    "AggregationsConfig \<Rightarrow> time \<Rightarrow> bool \<Rightarrow> BasicPodSpec list result \<Rightarrow> ClusterState \<Rightarrow> ClusterState result" where
  "LoadPods config now memorySaveMode specs c =
     (let podSpecs = (case specs of Inl _ \<Rightarrow> [] | Inr ps \<Rightarrow> ps);
          pods = pods_by_id podSpecs;
          c1 = fold (\<lambda>k c. DeletePod c k) (filter (\<lambda>k. map_of pods k = None) (map fst (Pods c))) c
      in add_pods_to_cluster config now memorySaveMode (map snd pods) c1)"

section \<open>Loading usage samples and OOM events\<close>

definition newContainerUsageSamplesWithKey :: "ContainerMetricsSnapshot \<Rightarrow> (ContainerID \<times> ContainerUsageSample) list" where
  "newContainerUsageSamplesWithKey metrics =
     map (\<lambda>(metricName, resourceAmount).
       (cms_ID metrics, \<lparr>MeasureStart = SnapshotTime metrics, Usage = resourceAmount, Request = 0, Resource = metricName\<rparr>))
       (cms_Usage metrics)"

record sample_counts =
  sampleCount :: nat
  droppedSampleCount :: nat

fun is_KeyError :: "go_error \<Rightarrow> bool" where
  "is_KeyError (KeyError _) = True"
| "is_KeyError _ = False"

definition count_sample :: "bool \<Rightarrow> go_error option \<Rightarrow> sample_counts \<Rightarrow> sample_counts" where
  "count_sample memorySaveMode err n =
     (case err of
        None \<Rightarrow> n\<lparr>sampleCount := sampleCount n + 1\<rparr>
      | Some e \<Rightarrow> if is_KeyError e \<and> memorySaveMode then n
                  else n\<lparr>droppedSampleCount := droppedSampleCount n + 1\<rparr>)"

fun add_samples ::
    "AggregationsConfig \<Rightarrow> time \<Rightarrow> bool \<Rightarrow> (ContainerID \<times> ContainerUsageSample) list \<Rightarrow> ClusterState \<Rightarrow> sample_counts \<Rightarrow>
     (ClusterState \<times> sample_counts) result" where
  "add_samples config now memorySaveMode [] c n = Inr (c, n)"
| "add_samples config now memorySaveMode ((cid, sample) # samples) c n =
     rbind (cluster_AddSample config now c cid sample) (\<lambda>(err, c1, _).
       add_samples config now memorySaveMode samples c1 (count_sample memorySaveMode err n))"

text \<open>The events that are in the channel until it is found empty.\<close>

fun record_ooms :: "AggregationsConfig \<Rightarrow> time \<Rightarrow> OomInfo list \<Rightarrow> ClusterState \<Rightarrow> ClusterState result" where
  "record_ooms config now [] c = Inr c"
| "record_ooms config now (oomInfo # ooms) c =
     rbind (cluster_RecordOOM config now c (oi_ContainerID oomInfo) (oi_Timestamp oomInfo) (oi_Memory oomInfo)) (\<lambda>(_, c1, _).
       record_ooms config now ooms c1)"

definition LoadRealTimeMetrics ::
    "AggregationsConfig \<Rightarrow> time \<Rightarrow> bool \<Rightarrow> ContainerMetricsSnapshot list result \<Rightarrow> OomInfo list \<Rightarrow> ClusterState \<Rightarrow>
     (ClusterState \<times> sample_counts) result" where
  "LoadRealTimeMetrics config now memorySaveMode metrics ooms c =
     (let containersMetrics = (case metrics of Inl _ \<Rightarrow> [] | Inr ms \<Rightarrow> ms) in
      rbind (add_samples config now memorySaveMode (concat (map newContainerUsageSamplesWithKey containersMetrics)) c
               \<lparr>sampleCount = 0, droppedSampleCount = 0\<rparr>) (\<lambda>(c1, n).
      rbind (record_ooms config now ooms c1) (\<lambda>c2. Inr (c2, n))))"

section \<open>History\<close>

definition PodUnknown :: PodPhase where "PodUnknown = ''Unknown''"

definition history_samples :: "PodID \<Rightarrow> PodHistory \<Rightarrow> (ContainerID \<times> ContainerUsageSample) list" where
  "history_samples podID podHistory =
     concat (map (\<lambda>(containerName, sampleList).
       map (\<lambda>sample. (\<lparr>cid_PodID = podID, cid_ContainerName = containerName\<rparr>, sample)) sampleList) (Samples podHistory))"

fun init_pods :: "AggregationsConfig \<Rightarrow> time \<Rightarrow> history \<Rightarrow> ClusterState \<Rightarrow> sample_counts \<Rightarrow> (ClusterState \<times> sample_counts) result" where
  "init_pods config now [] c n = Inr (c, n)"
| "init_pods config now ((podID, podHistory) # rest) c n =
     rbind (AddOrUpdatePod config now c podID (LastLabels podHistory) PodUnknown) (\<lambda>c1.
     rbind (add_samples config now False (history_samples podID podHistory) c1 n) (\<lambda>(c2, n).
       init_pods config now rest c2 n))"

text \<open>The counts of accepted and refused samples are kept for the statements; the code logs each refusal.\<close>

definition InitFromHistoryProvider ::
    "AggregationsConfig \<Rightarrow> time \<Rightarrow> history result \<Rightarrow> ClusterState \<Rightarrow> (ClusterState \<times> sample_counts) result" where
  "InitFromHistoryProvider config now clusterHistory c =
     init_pods config now (case clusterHistory of Inl _ \<Rightarrow> [] | Inr h \<Rightarrow> h) c \<lparr>sampleCount = 0, droppedSampleCount = 0\<rparr>"

section \<open>Checkpoints\<close>

record VerticalPodAutoscalerCheckpoint =
  cp_Namespace :: string
  cp_Name :: string
  cp_ContainerName :: string
  cp_VPAObjectName :: string
  cp_Status :: CheckpointStatus

definition cp_vpa :: "VerticalPodAutoscalerCheckpoint \<Rightarrow> VpaID" where
  "cp_vpa checkpoint = \<lparr>vid_Namespace = cp_Namespace checkpoint, VpaName = cp_VPAObjectName checkpoint\<rparr>"

definition setVpaCheckpoint ::
    "AggregationsConfig \<Rightarrow> time \<Rightarrow> VerticalPodAutoscalerCheckpoint \<Rightarrow> ClusterState \<Rightarrow> go_error option \<times> ClusterState" where
  "setVpaCheckpoint config now checkpoint c =
     (case map_of (Vpas c) (cp_vpa checkpoint) of
        None \<Rightarrow> (Some (Err ''cannot load checkpoint to missing VPA object''), c)
      | Some vpa \<Rightarrow>
          (case agg_LoadFromCheckpoint (NewAggregateContainerState config now) (cp_Status checkpoint) of
             (Some _, _) \<Rightarrow> (Some (Err ''cannot load checkpoint for VPA''), c)
           | (None, cs) \<Rightarrow> (None, c\<lparr>Vpas := AList.update (cp_vpa checkpoint)
               (vpa\<lparr>ContainersInitialAggregateState :=
                      AList.update (cp_ContainerName checkpoint) cs (ContainersInitialAggregateState vpa)\<rparr>) (Vpas c)\<rparr>)))"

text \<open>\<open>order\<close> is the order in which the set of namespaces is iterated; a list that failed is empty.\<close>

definition InitFromCheckpoints ::
    "AggregationsConfig \<Rightarrow> feeder_inputs \<Rightarrow> VerticalPodAutoscaler list result \<Rightarrow> (string list \<Rightarrow> string list) \<Rightarrow>
     (string \<Rightarrow> VerticalPodAutoscalerCheckpoint list result) \<Rightarrow> ClusterState \<Rightarrow> ClusterState result" where
  "InitFromCheckpoints config io listed order checkpoints c =
     rbind (LoadVPAs io listed c) (\<lambda>c1.
       let namespaces = order (remdups (map (\<lambda>(_, v). vid_Namespace (vpa_ID v)) (Vpas c1)));
           items = concat (map (\<lambda>namespace. case checkpoints namespace of Inl _ \<Rightarrow> [] | Inr items \<Rightarrow> items) namespaces)
       in Inr (fold (\<lambda>checkpoint c. snd (setVpaCheckpoint config (fi_now io) checkpoint c)) items c1))"

text \<open>The deletions that are requested from the API server, in order.\<close>

definition GarbageCollectCheckpoints ::
    "feeder_inputs \<Rightarrow> VerticalPodAutoscaler list result \<Rightarrow> string list result \<Rightarrow>
     (string \<Rightarrow> VerticalPodAutoscalerCheckpoint list result) \<Rightarrow> ClusterState \<Rightarrow> ((string \<times> string) list \<times> ClusterState) result" where
  "GarbageCollectCheckpoints io listed namespaceList checkpoints c =
     rbind (LoadVPAs io listed c) (\<lambda>c1.
       case namespaceList of
         Inl _ \<Rightarrow> Inr ([], c1)
       | Inr namespaces \<Rightarrow>
           Inr (concat (map (\<lambda>namespace.
             map (\<lambda>checkpoint. (namespace, cp_Name checkpoint))
               (filter (\<lambda>checkpoint. map_of (Vpas c1) (cp_vpa checkpoint) = None)
                 (case checkpoints namespace of Inl _ \<Rightarrow> [] | Inr items \<Rightarrow> items))) namespaces), c1))"

end
