(* ===== verification/Vpa_Aggregation.thy ===== *)
theory Vpa_Aggregation
  imports Cluster_Bounds
begin

text \<open>
  Aggregating the states of one VPA by container name, as the recommender and the checkpoint
  writer do for every VPA. Merging renormalises the histograms it reads, so the store and the
  checkpointed states change as well; the lemmas say that this never panics, keeps the cluster
  invariant, and yields exactly the container names of the VPA.
\<close>

definition keys_of :: "('k, 'v) gomap \<Rightarrow> 'k set" where
  "keys_of m = fst ` set m"

lemma keys_delete [simp]: "keys_of (AList.delete k m) = keys_of m - {k}"
  by (auto simp: keys_of_def AList.delete_eq image_iff)

lemma keys_update [simp]: "keys_of (AList.update k v m) = insert k (keys_of m)"
  by (simp add: keys_of_def dom_update)

lemma keys_Nil [simp]: "keys_of [] = {}"
  by (simp add: keys_of_def)

lemma keys_Cons [simp]: "keys_of (x # m) = insert (fst x) (keys_of m)"
  by (simp add: keys_of_def)

lemma keys_lookup: "k \<in> keys_of m \<longleftrightarrow> map_of m k \<noteq> None"
  by (simp add: keys_of_def map_of_eq_None_iff)

definition all_ok :: "AggregationsConfig \<Rightarrow> ('k, AggregateContainerState) gomap \<Rightarrow> bool" where
  "all_ok config m \<longleftrightarrow> (\<forall>(n, a) \<in> set m. agg_ok config a)"

lemma all_ok_simps [simp]:
  "all_ok config []" "all_ok config ((n, a) # m) \<longleftrightarrow> agg_ok config a \<and> all_ok config m"
  by (simp_all add: all_ok_def)

lemma all_ok_lookup: "all_ok config m \<Longrightarrow> map_of m n = Some a \<Longrightarrow> agg_ok config a"
  using map_of_SomeD [of m n a] by (auto simp: all_ok_def)

lemma all_ok_update: "all_ok config m \<Longrightarrow> agg_ok config a \<Longrightarrow> all_ok config (AList.update n a m)"
  using set_AList_update [of n a m] by (auto simp: all_ok_def)

lemma lookup_or_new_ok:
  "config_ok config \<Longrightarrow> all_ok config m \<Longrightarrow>
   agg_ok config (case map_of m n of Some s \<Rightarrow> s | None \<Rightarrow> NewAggregateContainerState config now)"
  using NewAggregateContainerState_ok all_ok_lookup by (auto split: option.split)

lemma aggregate_by_name_inputs:
  assumes "config_ok config" "all_ok config states" "all_ok config acc" "gomap_ok acc"
  shows "\<exists>m ins. aggregate_by_name config now states acc = Inr (m, ins) \<and> gomap_ok m \<and> all_ok config m \<and>
    keys_of m = keys_of acc \<union> ak_containerName ` keys_of states \<and> map fst ins = map fst states \<and> all_ok config ins"
  using assms(2-4)
proof (induction states arbitrary: acc)
  case (Cons e states)
  obtain k a where e: "e = (k, a)" by (cases e)
  obtain b a' where mg: "MergeContainerState (case map_of acc (ak_containerName k) of Some s \<Rightarrow> s
      | None \<Rightarrow> NewAggregateContainerState config now) a = Inr (b, a')" "agg_ok config b" "agg_ok config a'"
    using MergeContainerState_ok [OF lookup_or_new_ok [OF assms(1) Cons.prems(2)], of a] Cons.prems(1) e by fastforce
  show ?case
    using Cons.IH [of "AList.update (ak_containerName k) b acc"] Cons.prems mg all_ok_update [OF Cons.prems(2) mg(2)]
    by (auto simp: e Let_def)
qed simp

lemma merge_checkpoints_model:
  assumes "config_ok config" "all_ok config initial" "all_ok config m" "gomap_ok m"
  shows "\<exists>m' initial'. merge_checkpoints config now initial m = Inr (m', initial') \<and> gomap_ok m' \<and> all_ok config m' \<and>
    keys_of m' = keys_of m \<union> keys_of initial \<and> map fst initial' = map fst initial \<and> all_ok config initial'"
  using assms(2-4)
proof (induction initial arbitrary: m)
  case (Cons e initial)
  obtain n a where e: "e = (n, a)" by (cases e)
  obtain b a' where mg: "MergeContainerState (case map_of m n of Some s \<Rightarrow> s
      | None \<Rightarrow> NewAggregateContainerState config now) a = Inr (b, a')" "agg_ok config b" "agg_ok config a'"
    using MergeContainerState_ok [OF lookup_or_new_ok [OF assms(1) Cons.prems(2)], of a] Cons.prems(1) e by fastforce
  show ?case
    using Cons.IH [of "AList.update n b m"] Cons.prems mg all_ok_update [OF Cons.prems(2) mg(2)]
    by (auto simp: e Let_def)
qed simp

lemma write_back_ok:
  assumes "states_ok config st" "all_ok config ins"
  shows "states_ok config (fold (\<lambda>((_, addr), (_, a)) s. s[addr := a]) (zip refs ins) st) \<and>
    length (fold (\<lambda>((_, addr), (_, a)) s. s[addr := a]) (zip refs ins) st) = length st"
  using assms
proof (induction refs arbitrary: ins st)
  case (Cons r refs)
  show ?case
  proof (cases ins)
    case ins: (Cons i rest)
    obtain k addr n a where ri: "r = (k, addr)" "i = (n, a)" by (cases r; cases i) auto
    have "states_ok config (st[addr := a])" using states_ok_update [OF Cons.prems(1)] Cons.prems(2) ri ins by simp
    then show ?thesis using Cons.IH [of "st[addr := a]" rest] Cons.prems(2) ri ins by simp
  qed (use Cons.prems in simp)
qed simp

text \<open>The container names of a VPA: those of its aggregations and those of its checkpoints.\<close>

definition container_names :: "Vpa \<Rightarrow> string set" where
  "container_names v = ak_containerName ` keys_of (aggregateContainerStates v) \<union> keys_of (ContainersInitialAggregateState v)"

lemma keys_of_map_values [simp]: "keys_of (map_values f m) = keys_of m"
  by (force simp: keys_of_def map_values_def)

lemma linked_in_store:
  assumes "model_ok config lo c" "map_of (Vpas c) vid = Some v" "(k, addr) \<in> set (aggregateContainerStates v)"
  shows "addr < length (cs_store c)"
proof -
  have l: "\<forall>vpa \<in> snd ` set (Vpas c). \<forall>k. map_of (aggregateContainerStates vpa) k =
      (if matchesAggregation vpa k (key_Labels c k) then map_of (aggregateStateMap c) k else None)"
    and s: "\<forall>(k, addr) \<in> set (aggregateStateMap c). addr < length (cs_store c)"
    and g: "gomap_ok (aggregateContainerStates v)"
    using assms(1) keyed_lookup [OF _ assms(2)] by (simp_all add: model_ok_def cluster_ok_def links_ok_def store_ok_def)
  have "v \<in> snd ` set (Vpas c)" using map_of_SomeD [OF assms(2)] by force
  moreover have "map_of (aggregateContainerStates v) k = Some addr" using assms(3) g by (simp add: gomap_ok_def)
  ultimately have "map_of (aggregateStateMap c) k = Some addr" using l by (metis option.distinct(1))
  then show ?thesis using s map_of_SomeD [of "aggregateStateMap c" k addr] by auto
qed

text \<open>One VPA is aggregated: the result, and the cluster with what renormalising has changed.\<close>

lemma vpa_AggregateStateByContainerName_model:
  assumes "config_ok config" "model_ok config lo c" "map_of (Vpas c) vid = Some v"
  shows "\<exists>m initial st'. vpa_AggregateStateByContainerName config now v (cs_store c) =
      Inr (m, v\<lparr>ContainersInitialAggregateState := initial\<rparr>, st') \<and>
    gomap_ok m \<and> all_ok config m \<and> keys_of m = container_names v \<and>
    map fst initial = map fst (ContainersInitialAggregateState v) \<and> all_ok config initial \<and>
    states_ok config st' \<and> length st' = length (cs_store c)"
proof -
  have st: "states_ok config (cs_store c)" using assms(2) by (simp add: model_ok_def cluster_ok_def store_ok_def)
  let ?s = "map_values (\<lambda>_ addr. cs_store c ! addr) (aggregateContainerStates v)"
  have s: "all_ok config ?s"
    using linked_in_store [OF assms(2,3)] states_ok_nth [OF st] by (auto simp: all_ok_def map_values_def)
  obtain m ins where a: "aggregate_by_name config now ?s [] = Inr (m, ins)" "gomap_ok m" "all_ok config m"
    "keys_of m = ak_containerName ` keys_of (aggregateContainerStates v)" "all_ok config ins"
    using aggregate_by_name_inputs [OF assms(1) s, of "[]" now] by (auto simp: gomap_ok_def)
  have "all_ok config (ContainersInitialAggregateState v)" using model_initial [OF assms(2,3)] by (simp add: all_ok_def)
  then obtain m' initial where b: "merge_checkpoints config now (ContainersInitialAggregateState v) m = Inr (m', initial)"
    "gomap_ok m'" "all_ok config m'" "keys_of m' = keys_of m \<union> keys_of (ContainersInitialAggregateState v)"
    "map fst initial = map fst (ContainersInitialAggregateState v)" "all_ok config initial"
    using merge_checkpoints_model [OF assms(1) _ a(3,2)] by blast
  show ?thesis
    using a(1,4) b write_back_ok [OF st a(5), of "aggregateContainerStates v"]
    by (simp add: vpa_AggregateStateByContainerName_def AggregateStateByContainerName_def MergeCheckpointedState_def
        container_names_def) blast
qed

lemma aggregated_model:
  assumes "model_ok config lo c" "map_of (Vpas c) vid = Some v" "all_ok config initial" "states_ok config st'"
    "length st' = length (cs_store c)"
  shows "model_ok config lo (c\<lparr>Vpas := AList.update vid (v\<lparr>ContainersInitialAggregateState := initial\<rparr>) (Vpas c), cs_store := st'\<rparr>)"
  by (rule set_vpa_model [OF assms(1,2,4,5)]) (use assms(3) in \<open>simp_all add: vpa_same_def all_ok_def\<close>)

lemma container_names_aggregated [simp]:
  "map fst initial = map fst (ContainersInitialAggregateState v) \<Longrightarrow>
   container_names (v\<lparr>ContainersInitialAggregateState := initial\<rparr>) = container_names v"
  by (simp add: container_names_def keys_of_def flip: set_map)

end
