(* ===== verification/Feeder_Correct.thy ===== *)
theory Feeder_Correct
  imports Cluster_Feeder Vpa_Aggregation
begin

text \<open>
  What the feeder does to the cluster state: every load keeps the invariant and returns, VPAs and
  pods of the model are afterwards exactly those of the API server, orphaned checkpoints are
  removed and no others, and two failures: an error while listing pods forgets all pods, and no
  sample of the history reaches the model.
\<close>

section \<open>VPA objects\<close>

lemma set_conditions_model:
  assumes "model_ok config lo c" "conditions \<noteq> [] \<Longrightarrow> map_of (Vpas c) vid \<noteq> None"
  shows "\<exists>c'. set_conditions now vid conditions c = Inr c' \<and> model_ok config lo c' \<and> keys_of (Vpas c') = keys_of (Vpas c)"
proof (cases "conditions = []")
  case True
  then show ?thesis using assms(1) by (simp add: set_conditions_def)
next
  case False
  then obtain v where v: "map_of (Vpas c) vid = Some v" using assms(2) by auto
  let ?v = "v\<lparr>Conditions := fold (apply_condition now) conditions (Conditions v)\<rparr>"
  have st: "states_ok config (cs_store c)" using assms(1) by (simp add: model_ok_def cluster_ok_def store_ok_def)
  have "model_ok config lo (c\<lparr>Vpas := AList.update vid ?v (Vpas c), cs_store := cs_store c\<rparr>)"
    by (rule set_vpa_model [OF assms(1) v st]) (use model_initial [OF assms(1) v] in \<open>simp_all add: vpa_same_def\<close>)
  moreover have "vid \<in> keys_of (Vpas c)" using v by (simp add: keys_lookup)
  ultimately show ?thesis using False v by (auto simp: set_conditions_def insert_absorb)
qed

lemma crd_id_AddOrUpdateVpa:
  "keys_of (Vpas (snd (AddOrUpdateVpa sameMode samePolicy c crd sel))) = insert (crd_id crd) (keys_of (Vpas c))"
  unfolding keys_of_def by (rule AddOrUpdateVpa_frame(2)) (simp add: crd_id_def)

lemma add_vpas_model:
  assumes "model_ok config lo c"
  shows "\<exists>c'. add_vpas io crds ks c = Inr (rev (map crd_id crds) @ ks, c') \<and> model_ok config lo c' \<and>
    keys_of (Vpas c') = crd_id ` set crds \<union> keys_of (Vpas c)"
  using assms
proof (induction crds arbitrary: ks c)
  case (Cons crd crds)
  obtain sel conds where g: "getSelector (fi_fetch io) (fi_fetchTop io) crd = (sel, conds)" by fastforce
  obtain c1 where a: "AddOrUpdateVpa (fi_sameMode io crd) (fi_samePolicy io crd) c crd sel = (None, c1)" "model_ok config lo c1"
    using AddOrUpdateVpa_model [OF Cons.prems] by blast
  have k1: "keys_of (Vpas c1) = insert (crd_id crd) (keys_of (Vpas c))"
    using crd_id_AddOrUpdateVpa [of "fi_sameMode io crd" "fi_samePolicy io crd" c crd sel] a(1) by simp
  then have "map_of (Vpas c1) (crd_id crd) \<noteq> None" using keys_lookup [of "crd_id crd" "Vpas c1"] by simp
  then obtain c2 where s: "set_conditions (fi_now io) (crd_id crd) conds c1 = Inr c2" "model_ok config lo c2"
    "keys_of (Vpas c2) = keys_of (Vpas c1)"
    using set_conditions_model [OF a(2)] by blast
  show ?case using Cons.IH [OF s(2), of "crd_id crd # ks"] k1 s g a(1) by (auto simp: Let_def)
qed simp

lemma fold_DeleteVpa_model:
  "model_ok config lo c \<Longrightarrow> model_ok config lo (fold (\<lambda>vid c. snd (DeleteVpa c vid)) vids c) \<and>
   keys_of (Vpas (fold (\<lambda>vid c. snd (DeleteVpa c vid)) vids c)) = keys_of (Vpas c) - set vids"
proof (induction vids arbitrary: c)
  case (Cons vid vids)
  have "vid \<notin> keys_of (Vpas c)" if "map_of (Vpas c) vid = None" using that by (simp add: keys_lookup)
  then have "keys_of (Vpas (snd (DeleteVpa c vid))) = keys_of (Vpas c) - {vid}"
    by (auto simp: DeleteVpa_def split: option.split)
  then show ?case using Cons.IH [OF DeleteVpa_model [OF Cons.prems, of vid]] by auto
qed simp

lemma LoadVPAs_model:
  assumes "model_ok config lo c"
  shows "\<exists>c'. LoadVPAs io listed c = Inr c' \<and> model_ok config lo c' \<and>
    (\<forall>crds. listed = Inr crds \<longrightarrow> keys_of (Vpas c') = crd_id ` set crds \<and> ObservedVpas c' = crds)"
proof (cases listed)
  case (Inl e)
  then show ?thesis using assms by (simp add: LoadVPAs_def)
next
  case (Inr crds)
  obtain c1 where a: "add_vpas io crds [] c = Inr (rev (map crd_id crds), c1)" "model_ok config lo c1"
    "keys_of (Vpas c1) = crd_id ` set crds \<union> keys_of (Vpas c)"
    using add_vpas_model [OF assms, of io crds "[]"] by auto
  let ?gone = "filter (\<lambda>vid. vid \<notin> crd_id ` set crds) (map fst (Vpas c1))"
  let ?c2 = "fold (\<lambda>vid c. snd (DeleteVpa c vid)) ?gone c1"
  note f = fold_DeleteVpa_model [OF a(2), of ?gone]
  have "model_ok config lo (?c2\<lparr>ObservedVpas := crds\<rparr>)"
    by (rule model_ok_cong [OF conjunct1 [OF f]]) simp_all
  moreover have "keys_of (Vpas ?c2) = crd_id ` set crds" using f a(3) by (auto simp: keys_of_def)
  ultimately show ?thesis using Inr a(1) by (simp add: LoadVPAs_def Let_def)
qed

section \<open>Pods\<close>

lemma AddOrUpdatePod_keys:
  assumes "AddOrUpdatePod config now c pid ls phase = Inr c'"
  shows "keys_of (Pods c') = insert pid (keys_of (Pods c))"
proof -
  have k: "relink_containers config now pid cs c4 = Inr (cs', c5) \<Longrightarrow> Pods c5 = Pods c4" for cs cs' c4 c5
    using relink_frame by (simp add: pods_frame_def)
  have "map_of (Pods c') x = None \<longleftrightarrow> x \<noteq> pid \<and> map_of (Pods c) x = None" for x using assms
    by (auto simp: AddOrUpdatePod_def getLabelSetKey_def Let_def dest!: k split: if_splits)
  then have "x \<notin> keys_of (Pods c') \<longleftrightarrow> x \<notin> insert pid (keys_of (Pods c))" for x by (simp add: keys_lookup)
  then show ?thesis by blast
qed

lemma update_container_keys: "keys_of (Pods (update_container c cid ct)) = keys_of (Pods c)"
proof (cases "map_of (Pods c) (cid_PodID cid)")
  case (Some pod)
  then have "cid_PodID cid \<in> keys_of (Pods c)" by (simp add: keys_lookup)
  then show ?thesis using Some by (simp add: update_container_def insert_absorb)
qed (simp add: update_container_def)

lemma AddOrUpdateContainer_keys:
  assumes "AddOrUpdateContainer config now c cid request = Inr (e, c')"
  shows "keys_of (Pods c') = keys_of (Pods c)"
proof -
  have "c' = c \<or> (\<exists>d ct. c' = update_container d cid ct \<and> Pods d = Pods c)"
    using assms findOrCreate_frame [of config now c cid]
    by (force simp: AddOrUpdateContainer_def split: option.splits)
  then show ?thesis by (elim disjE exE conjE) (simp_all only: update_container_keys)
qed

lemma add_containers_model:
  assumes "config_ok config" "model_ok config lo c"
  shows "\<exists>c'. add_containers config now specs c = Inr c' \<and> model_ok config lo c' \<and> keys_of (Pods c') = keys_of (Pods c)"
  using assms(2)
proof (induction specs arbitrary: c)
  case (Cons s specs)
  obtain e c1 where a: "AddOrUpdateContainer config now c (bcs_ID s) (bcs_Request s) = Inr (e, c1)" "model_ok config lo c1"
    using AddOrUpdateContainer_model [OF assms(1) Cons.prems] by blast
  then show ?case using Cons.IH [OF a(2)] AddOrUpdateContainer_keys [OF a(1)] by auto
qed simp

lemma add_pods_model:
  assumes "config_ok config" "model_ok config lo c" "\<forall>pod \<in> set pods. wf_labels (bps_PodLabels pod)"
  shows "\<exists>c'. add_pods_to_cluster config now saver pods c = Inr c' \<and> model_ok config lo c' \<and>
    keys_of (Pods c') \<subseteq> bps_ID ` set pods \<union> keys_of (Pods c) \<and> keys_of (Pods c) \<subseteq> keys_of (Pods c') \<and>
    (\<not> saver \<longrightarrow> bps_ID ` set pods \<subseteq> keys_of (Pods c'))"
  using assms(2,3)
proof (induction pods arbitrary: c)
  case (Cons pod pods)
  show ?case
  proof (cases "saver \<and> \<not> matchesVPA c pod")
    case True
    then show ?thesis using Cons.IH [OF Cons.prems(1)] Cons.prems(2) by auto
  next
    case False
    obtain c1 where p: "AddOrUpdatePod config now c (bps_ID pod) (bps_PodLabels pod) (bps_Phase pod) = Inr c1" "model_ok config lo c1"
      using AddOrUpdatePod_model [OF assms(1) Cons.prems(1)] Cons.prems(2) by (metis list.set_intros(1))
    obtain c2 where q: "add_containers config now (bps_Containers pod) c1 = Inr c2" "model_ok config lo c2"
      "keys_of (Pods c2) = keys_of (Pods c1)"
      using add_containers_model [OF assms(1) p(2)] by blast
    have k: "keys_of (Pods c2) = insert (bps_ID pod) (keys_of (Pods c))" using AddOrUpdatePod_keys [OF p(1)] q(3) by simp
    obtain c3 where r: "add_pods_to_cluster config now saver pods c2 = Inr c3" "model_ok config lo c3"
      "keys_of (Pods c3) \<subseteq> bps_ID ` set pods \<union> keys_of (Pods c2)" "keys_of (Pods c2) \<subseteq> keys_of (Pods c3)"
      "\<not> saver \<longrightarrow> bps_ID ` set pods \<subseteq> keys_of (Pods c3)"
      using Cons.IH [OF q(2)] Cons.prems(2) by auto
    have "add_pods_to_cluster config now saver (pod # pods) c = Inr c3" using False p(1) q(1) r(1) by auto
    then show ?thesis using r(2-5) k by auto
  qed
qed auto

lemma fold_DeletePod_model:
  "model_ok config lo c \<Longrightarrow> model_ok config lo (fold (\<lambda>k c. DeletePod c k) ks c) \<and>
   keys_of (Pods (fold (\<lambda>k c. DeletePod c k) ks c)) = keys_of (Pods c) - set ks"
proof (induction ks arbitrary: c)
  case (Cons k ks)
  have "keys_of (Pods (DeletePod c k)) = keys_of (Pods c) - {k}"
    by (simp add: DeletePod_def Let_def split: option.split)
  then show ?case using Cons.IH [OF DeletePod_model [OF Cons.prems, of k]] by auto
qed simp

lemma pods_by_id_spec:
  "keys_of (fold (\<lambda>spec m. AList.update (bps_ID spec) spec m) specs m) = bps_ID ` set specs \<union> keys_of m \<and>
   (\<forall>(k, s) \<in> set (fold (\<lambda>spec m. AList.update (bps_ID spec) spec m) specs m). (s \<in> set specs \<and> bps_ID s = k) \<or> (k, s) \<in> set m)"
proof (induction specs arbitrary: m)
  case (Cons s specs)
  show ?case using Cons.IH [of "AList.update (bps_ID s) s m"] set_AList_update [of "bps_ID s" s m]
    by (auto 0 4)
qed auto

lemma LoadPods_model:
  assumes "config_ok config" "model_ok config lo c"
    "\<forall>ps. specs = Inr ps \<longrightarrow> (\<forall>pod \<in> set ps. wf_labels (bps_PodLabels pod))"
  shows "\<exists>c'. LoadPods config now saver specs c = Inr c' \<and> model_ok config lo c' \<and>
    keys_of (Pods c') \<subseteq> (case specs of Inl _ \<Rightarrow> {} | Inr ps \<Rightarrow> bps_ID ` set ps) \<and>
    (\<not> saver \<longrightarrow> (case specs of Inl _ \<Rightarrow> {} | Inr ps \<Rightarrow> bps_ID ` set ps) \<subseteq> keys_of (Pods c'))"
proof -
  define ps where "ps = (case specs of Inl _ \<Rightarrow> [] | Inr ps \<Rightarrow> ps)"
  define pods where "pods = pods_by_id ps"
  have keys: "keys_of pods = bps_ID ` set ps"
    and vals: "\<forall>(k, s) \<in> set pods. s \<in> set ps \<and> bps_ID s = k"
    using pods_by_id_spec [of ps "[]"] by (auto simp: pods_def pods_by_id_def)
  have ids: "bps_ID ` set (map snd pods) = bps_ID ` set ps"
  proof -
    have "bps_ID ` snd ` set pods = keys_of pods" unfolding image_image keys_of_def using vals by (intro image_cong refl) auto
    then show ?thesis using keys by simp
  qed
  have wf: "\<forall>pod \<in> set (map snd pods). wf_labels (bps_PodLabels pod)"
    using vals assms(3) by (auto simp: ps_def split: sum.splits)
  let ?old = "filter (\<lambda>k. map_of pods k = None) (map fst (Pods c))"
  note f = fold_DeletePod_model [OF assms(2), of ?old]
  have k: "keys_of (Pods (fold (\<lambda>k c. DeletePod c k) ?old c)) \<subseteq> bps_ID ` set ps"
  proof
    fix x assume "x \<in> keys_of (Pods (fold (\<lambda>k c. DeletePod c k) ?old c))"
    then have "x \<in> keys_of (Pods c) - set ?old" using f by simp
    then have "map_of pods x \<noteq> None" by (auto simp: keys_of_def)
    then show "x \<in> bps_ID ` set ps" using keys keys_lookup [of x pods] by simp
  qed
  have e: "(case specs of Inl _ \<Rightarrow> {} | Inr ps \<Rightarrow> bps_ID ` set ps) = bps_ID ` set ps"
    by (auto simp: ps_def split: sum.splits)
  show ?thesis
    using add_pods_model [OF assms(1) conjunct1 [OF f] wf, of now saver] k unfolding e ids LoadPods_def
    by (simp add: ps_def [symmetric] pods_def [symmetric] Let_def) (metis (no_types, lifting) Un_absorb2)
qed

section \<open>Samples and OOM events\<close>

lemma add_samples_model:
  assumes "config_ok config" "model_ok config lo c" "\<forall>(cid, s) \<in> set samples. time_in config lo (MeasureStart s)"
  shows "\<exists>c' n'. add_samples config now saver samples c n = Inr (c', n') \<and> model_ok config lo c'"
  using assms(2,3)
proof (induction samples arbitrary: c n)
  case (Cons x samples)
  obtain cid s where x: "x = (cid, s)" by (cases x)
  obtain e c1 obs where a: "cluster_AddSample config now c cid s = Inr (e, c1, obs)" "model_ok config lo c1"
    using cluster_AddSample_model [OF assms(1) Cons.prems(1), of s now cid] Cons.prems(2) x by auto
  then show ?case using Cons.IH [OF a(2)] Cons.prems(2) x by auto
qed simp

lemma record_ooms_model:
  assumes "config_ok config" "model_ok config lo c" "\<forall>o' \<in> set ooms. time_in config lo (oi_Timestamp o')"
  shows "\<exists>c'. record_ooms config now ooms c = Inr c' \<and> model_ok config lo c'"
  using assms(2,3)
proof (induction ooms arbitrary: c)
  case (Cons x ooms)
  obtain e c1 obs where a: "cluster_RecordOOM config now c (oi_ContainerID x) (oi_Timestamp x) (oi_Memory x) = Inr (e, c1, obs)"
    "model_ok config lo c1"
    using cluster_RecordOOM_model [OF assms(1) Cons.prems(1)] Cons.prems(2) by (metis list.set_intros(1))
  then show ?case using Cons.IH [OF a(2)] Cons.prems(2) by auto
qed simp

lemma LoadRealTimeMetrics_model:
  assumes "config_ok config" "model_ok config lo c"
    "\<And>ms m. metrics = Inr ms \<Longrightarrow> m \<in> set ms \<Longrightarrow> time_in config lo (SnapshotTime m)"
    "\<forall>o' \<in> set ooms. time_in config lo (oi_Timestamp o')"
  shows "\<exists>c' n. LoadRealTimeMetrics config now saver metrics ooms c = Inr (c', n) \<and> model_ok config lo c'"
proof -
  let ?ms = "case metrics of Inl _ \<Rightarrow> [] | Inr ms \<Rightarrow> ms"
  have "\<forall>(cid, s) \<in> set (concat (map newContainerUsageSamplesWithKey ?ms)). time_in config lo (MeasureStart s)"
    using assms(3) by (auto simp: newContainerUsageSamplesWithKey_def split: sum.splits)
  from add_samples_model [OF assms(1,2) this, of now saver "\<lparr>sampleCount = 0, droppedSampleCount = 0\<rparr>"]
  obtain c1 n where a: "add_samples config now saver (concat (map newContainerUsageSamplesWithKey ?ms)) c
      \<lparr>sampleCount = 0, droppedSampleCount = 0\<rparr> = Inr (c1, n)" "model_ok config lo c1" by blast
  then show ?thesis using record_ooms_model [OF assms(1) a(2) assms(4), of now] by (auto simp: LoadRealTimeMetrics_def Let_def)
qed

section \<open>The observed VPAs\<close>

text \<open>Loading pods and samples leaves the list of observed VPAs alone.\<close>

definition observed_frame :: "ClusterState \<Rightarrow> ClusterState \<Rightarrow> bool" where
  "observed_frame c d \<longleftrightarrow> ObservedVpas d = ObservedVpas c"

lemma findOrCreate_observed:
  "findOrCreateAggregateContainerState config now c cid = Inr (addr, d) \<Longrightarrow> observed_frame c d"
  by (auto simp: findOrCreateAggregateContainerState_def observed_frame_def Let_def case_prod_beta split: option.splits)

lemma locate_observed: "locate_aggregate config now r c = Inr (addr, d) \<Longrightarrow> observed_frame c d"
  using findOrCreate_observed by (auto simp: locate_aggregate_def observed_frame_def split: aggregator_ref.splits)

interpretation observed: aggregator_frame "cluster_aggregator config now r" observed_frame for config now r
proof
  have store: "observed_frame a (b\<lparr>cs_store := st\<rparr>)" if "observed_frame a b" for a b st
    using that by (simp add: observed_frame_def)
  show "op_AddSample (cluster_aggregator config now r) a s = Inr b \<Longrightarrow> observed_frame a b"
    "op_SubtractSample (cluster_aggregator config now r) a s = Inr b \<Longrightarrow> observed_frame a b" for a s b
    using store [OF locate_observed] by (auto simp: cluster_aggregator_def)
  show "op_GetLastRecommendation (cluster_aggregator config now r) a = Inr (l, b) \<Longrightarrow> observed_frame a b" for a l b
    using locate_observed by (auto simp: cluster_aggregator_def)
  show "op_NeedsRecommendation (cluster_aggregator config now r) a = Inr (n, b) \<Longrightarrow> observed_frame a b" for a n b
    using locate_observed by (auto simp: cluster_aggregator_def)
  show "op_GetUpdateMode (cluster_aggregator config now r) a = Inr (m, b) \<Longrightarrow> observed_frame a b" for a m b
    using locate_observed by (auto simp: cluster_aggregator_def)
qed (simp_all add: observed_frame_def)

lemma update_container_observed: "ObservedVpas (update_container c cid ct) = ObservedVpas c"
  by (simp add: update_container_def split: option.split)

lemma relink_observed: "relink_containers config now pid cs c = Inr (cs', d) \<Longrightarrow> observed_frame c d"
proof (induction config now pid cs c arbitrary: cs' d rule: relink_containers.induct)
  case (2 config now pid n ct rest c)
  then obtain addr c1 rest' where f: "findOrCreateAggregateContainerState config now c
      \<lparr>cid_PodID = pid, cid_ContainerName = n\<rparr> = Inr (addr, c1)"
    and r: "relink_containers config now pid rest c1 = Inr (rest', d)"
    by auto
  show ?case using findOrCreate_observed [OF f] "2.IH" [OF r] by (simp add: observed_frame_def)
qed (simp add: observed_frame_def)

lemma AddOrUpdatePod_observed:
  "AddOrUpdatePod config now c pid ls phase = Inr c' \<Longrightarrow> ObservedVpas c' = ObservedVpas c"
  by (auto simp: AddOrUpdatePod_def getLabelSetKey_def Let_def removePodFromItsVpa_def addPodToItsVpa_def observed_frame_def
      dest!: relink_observed split: if_splits)

lemma AddOrUpdateContainer_observed:
  "AddOrUpdateContainer config now c cid request = Inr (e, c') \<Longrightarrow> ObservedVpas c' = ObservedVpas c"
  by (auto simp: AddOrUpdateContainer_def update_container_observed observed_frame_def dest!: findOrCreate_observed split: option.splits)

lemma cluster_AddSample_observed:
  "cluster_AddSample config now c cid s = Inr (e, c', obs) \<Longrightarrow> ObservedVpas c' = ObservedVpas c"
  by (auto simp: cluster_AddSample_def update_container_observed observed_frame_def
      dest!: observed.container_AddSample_frame split: option.splits)

lemma cluster_RecordOOM_observed:
  "cluster_RecordOOM config now c cid t m = Inr (e, c', obs) \<Longrightarrow> ObservedVpas c' = ObservedVpas c"
  by (auto simp: cluster_RecordOOM_def update_container_observed observed_frame_def
      dest!: observed.RecordOOM_frame split: option.splits)

lemma add_containers_observed: "add_containers config now specs c = Inr c' \<Longrightarrow> ObservedVpas c' = ObservedVpas c"
proof (induction specs arbitrary: c)
  case (Cons s specs)
  then show ?case using AddOrUpdateContainer_observed by fastforce
qed simp

lemma add_pods_observed: "add_pods_to_cluster config now saver pods c = Inr c' \<Longrightarrow> ObservedVpas c' = ObservedVpas c"
proof (induction pods arbitrary: c)
  case (Cons pod pods)
  show ?case
  proof (cases "saver \<and> \<not> matchesVPA c pod")
    case False
    then obtain c1 c2 where "AddOrUpdatePod config now c (bps_ID pod) (bps_PodLabels pod) (bps_Phase pod) = Inr c1"
      "add_containers config now (bps_Containers pod) c1 = Inr c2" "add_pods_to_cluster config now saver pods c2 = Inr c'"
      using Cons.prems by auto
    then show ?thesis using AddOrUpdatePod_observed add_containers_observed Cons.IH by metis
  qed (use Cons in simp)
qed simp

lemma LoadPods_observed:
  assumes "LoadPods config now saver specs c = Inr c'"
  shows "ObservedVpas c' = ObservedVpas c"
proof -
  have "ObservedVpas (DeletePod d k) = ObservedVpas d" for d k
    by (simp add: DeletePod_def Let_def removePodFromItsVpa_def split: option.split)
  then have "ObservedVpas (fold (\<lambda>k c. DeletePod c k) ks d) = ObservedVpas d" for ks d
    by (induction ks arbitrary: d) simp_all
  then show ?thesis using assms add_pods_observed by (fastforce simp: LoadPods_def Let_def)
qed

lemma add_samples_observed: "add_samples config now saver samples c n = Inr (c', n') \<Longrightarrow> ObservedVpas c' = ObservedVpas c"
proof (induction samples arbitrary: c n)
  case (Cons x samples)
  then show ?case using cluster_AddSample_observed by (cases x) fastforce
qed simp

lemma record_ooms_observed: "record_ooms config now ooms c = Inr c' \<Longrightarrow> ObservedVpas c' = ObservedVpas c"
proof (induction ooms arbitrary: c)
  case (Cons x ooms)
  then show ?case using cluster_RecordOOM_observed by fastforce
qed simp

lemma LoadRealTimeMetrics_observed:
  "LoadRealTimeMetrics config now saver metrics ooms c = Inr (c', n) \<Longrightarrow> ObservedVpas c' = ObservedVpas c"
  by (auto simp: LoadRealTimeMetrics_def Let_def dest!: add_samples_observed record_ooms_observed)

section \<open>Checkpoints\<close>

text \<open>Checkpoints as the checkpoint writer stores them: weights are not negative, times are those of an aggregate.\<close>

definition checkpoint_ok :: "CheckpointStatus \<Rightarrow> bool" where
  "checkpoint_ok cp \<longleftrightarrow>
     (\<forall>(b, w) \<in> set (BucketWeights (cps_CPUHistogram cp)). 0 \<le> w) \<and>
     (\<forall>(b, w) \<in> set (BucketWeights (cps_MemoryHistogram cp)). 0 \<le> w) \<and>
     ((cps_TotalSamplesCount cp = 0 \<and> cps_FirstSampleStart cp = 0 \<and> cps_LastSampleStart cp = 0) \<or>
      (0 < cps_TotalSamplesCount cp \<and> 0 < cps_FirstSampleStart cp \<and> cps_FirstSampleStart cp \<le> cps_LastSampleStart cp))"

lemma agg_LoadFromCheckpoint_ok:
  assumes "config_ok config" "checkpoint_ok cp" "agg_LoadFromCheckpoint (NewAggregateContainerState config now) cp = (None, a)"
  shows "agg_ok config a"
proof -
  have "agg_histograms config (NewAggregateContainerState config now)"
    using NewAggregateContainerState_ok [OF assms(1)] by (simp add: agg_ok_def)
  from agg_LoadFromCheckpoint_histograms [OF this assms(3)] have "agg_histograms config a"
    using assms(2) by (simp add: checkpoint_ok_def)
  moreover have "agg_times a"
    using assms(2,3) by (auto simp: agg_LoadFromCheckpoint_def agg_times_def checkpoint_ok_def Let_def split: if_splits sum.splits)
  ultimately show ?thesis by (simp add: agg_ok_def)
qed

lemma setVpaCheckpoint_model:
  assumes "config_ok config" "model_ok config lo c" "checkpoint_ok (cp_Status cp)"
  shows "model_ok config lo (snd (setVpaCheckpoint config now cp c))"
proof (cases "fst (setVpaCheckpoint config now cp c)")
  case (Some e)
  then show ?thesis using assms(2) by (auto simp: setVpaCheckpoint_def split: option.splits prod.splits)
next
  case None
  then obtain v a where v: "map_of (Vpas c) (cp_vpa cp) = Some v"
    and a: "agg_LoadFromCheckpoint (NewAggregateContainerState config now) (cp_Status cp) = (None, a)"
    by (auto simp: setVpaCheckpoint_def split: option.splits prod.splits)
  let ?i = "AList.update (cp_ContainerName cp) a (ContainersInitialAggregateState v)"
  let ?v = "v\<lparr>ContainersInitialAggregateState := ?i\<rparr>"
  have st: "states_ok config (cs_store c)" using assms(2) by (simp add: model_ok_def cluster_ok_def store_ok_def)
  have "\<forall>(n, b) \<in> set ?i. agg_ok config b"
    using model_initial [OF assms(2) v] agg_LoadFromCheckpoint_ok [OF assms(1,3) a]
      set_AList_update [of "cp_ContainerName cp" a "ContainersInitialAggregateState v"] by blast
  then have "model_ok config lo (c\<lparr>Vpas := AList.update (cp_vpa cp) ?v (Vpas c), cs_store := cs_store c\<rparr>)"
    by (intro set_vpa_model [OF assms(2) v st]) (simp_all add: vpa_same_def)
  then show ?thesis using v a by (simp add: setVpaCheckpoint_def)
qed

lemma items_in:
  "cp \<in> set (case checkpoints ns of Inl _ \<Rightarrow> [] | Inr items \<Rightarrow> items) \<longleftrightarrow> (\<exists>cps. checkpoints ns = Inr cps \<and> cp \<in> set cps)"
  by (cases "checkpoints ns") auto

lemma InitFromCheckpoints_model:
  assumes "config_ok config" "model_ok config lo c"
    "\<And>ns cps cp. checkpoints ns = Inr cps \<Longrightarrow> cp \<in> set cps \<Longrightarrow> checkpoint_ok (cp_Status cp)"
  shows "\<exists>c'. InitFromCheckpoints config io listed order checkpoints c = Inr c' \<and> model_ok config lo c'"
proof -
  obtain c1 where l: "LoadVPAs io listed c = Inr c1" "model_ok config lo c1" using LoadVPAs_model [OF assms(2)] by blast
  have f: "model_ok config lo (fold (\<lambda>cp c. snd (setVpaCheckpoint config now cp c)) items d)"
    if "model_ok config lo d" "\<forall>cp \<in> set items. checkpoint_ok (cp_Status cp)" for items d now
    using that
  proof (induction items arbitrary: d)
    case (Cons cp items)
    then show ?case using setVpaCheckpoint_model [OF assms(1) Cons.prems(1), of cp now] by simp
  qed simp
  have "\<forall>cp \<in> set (concat (map (\<lambda>ns. case checkpoints ns of Inl _ \<Rightarrow> [] | Inr items \<Rightarrow> items) nss)). checkpoint_ok (cp_Status cp)"
    for nss
  proof
    fix cp assume "cp \<in> set (concat (map (\<lambda>ns. case checkpoints ns of Inl _ \<Rightarrow> [] | Inr items \<Rightarrow> items) nss))"
    then obtain ns where "cp \<in> set (case checkpoints ns of Inl _ \<Rightarrow> [] | Inr items \<Rightarrow> items)" by auto
    then show "checkpoint_ok (cp_Status cp)" using assms(3) unfolding items_in by blast
  qed
  then show ?thesis unfolding InitFromCheckpoints_def l(1) Let_def using f [OF l(2)] by simp
qed

lemma GarbageCollectCheckpoints_model:
  assumes "model_ok config lo c"
  shows "\<exists>deleted c'. GarbageCollectCheckpoints io listed namespaces checkpoints c = Inr (deleted, c') \<and> model_ok config lo c'"
proof -
  obtain c1 where l: "LoadVPAs io listed c = Inr c1" "model_ok config lo c1" using LoadVPAs_model [OF assms] by blast
  then show ?thesis by (cases namespaces) (simp_all add: GarbageCollectCheckpoints_def)
qed

text \<open>
  Garbage collection of checkpoints requests the deletion of exactly the orphaned ones: of a
  checkpoint found in one of the namespaces it is requested if and only if the VPA it belongs to
  is not among the VPA objects that were listed. The cluster state is then in step with that list.
\<close>

theorem GarbageCollectCheckpoints_exact:
  assumes "model_ok config lo c"
  shows "\<exists>deleted c'. GarbageCollectCheckpoints io (Inr crds) (Inr namespaces) checkpoints c = Inr (deleted, c') \<and>
    (\<forall>ns name. (ns, name) \<in> set deleted \<longleftrightarrow> ns \<in> set namespaces \<and>
       (\<exists>cps cp. checkpoints ns = Inr cps \<and> cp \<in> set cps \<and> cp_Name cp = name \<and> cp_vpa cp \<notin> crd_id ` set crds)) \<and>
    model_ok config lo c' \<and> ObservedVpas c' = crds"
proof -
  obtain c1 where l: "LoadVPAs io (Inr crds) c = Inr c1" "model_ok config lo c1" "keys_of (Vpas c1) = crd_id ` set crds"
    "ObservedVpas c1 = crds"
    using LoadVPAs_model [OF assms, of io "Inr crds"] by (elim exE conjE) simp
  define it where "it = (\<lambda>ns. case checkpoints ns of Inl _ \<Rightarrow> [] | Inr items \<Rightarrow> items)"
  have none: "map_of (Vpas c1) v = None \<longleftrightarrow> v \<notin> crd_id ` set crds" for v using keys_lookup [of v "Vpas c1"] l(3) by auto
  have it: "cp \<in> set (it ns) \<longleftrightarrow> (\<exists>cps. checkpoints ns = Inr cps \<and> cp \<in> set cps)" for cp ns
    unfolding it_def by (rule items_in)
  define del where "del = concat (map (\<lambda>namespace. map (\<lambda>checkpoint. (namespace, cp_Name checkpoint))
      (filter (\<lambda>checkpoint. map_of (Vpas c1) (cp_vpa checkpoint) = None) (it namespace))) namespaces)"
  have "(ns, name) \<in> set del \<longleftrightarrow> ns \<in> set namespaces \<and>
       (\<exists>cp. cp \<in> set (it ns) \<and> cp_Name cp = name \<and> cp_vpa cp \<notin> crd_id ` set crds)" for ns name
    unfolding del_def none by auto
  then have "(ns, name) \<in> set del \<longleftrightarrow> ns \<in> set namespaces \<and>
       (\<exists>cps cp. checkpoints ns = Inr cps \<and> cp \<in> set cps \<and> cp_Name cp = name \<and> cp_vpa cp \<notin> crd_id ` set crds)" for ns name
    unfolding it by blast
  moreover have "GarbageCollectCheckpoints io (Inr crds) (Inr namespaces) checkpoints c = Inr (del, c1)"
    by (simp add: GarbageCollectCheckpoints_def l(1) del_def it_def)
  ultimately show ?thesis using l(2,4) by (intro exI [of _ del] exI [of _ c1]) simp
qed

theorem GarbageCollectCheckpoints_exact_witness:
  "\<forall>st. \<exists>deleted c'. GarbageCollectCheckpoints \<lparr>fi_now = 5, fi_fetch = \<lambda>_. Inr None, fi_fetchTop = \<lambda>_. Inr None,
      fi_sameMode = \<lambda>_. False, fi_samePolicy = \<lambda>_. False\<rparr> (Inr []) (Inr [''ns''])
      (\<lambda>_. Inr [\<lparr>cp_Namespace = ''ns'', cp_Name = ''cp'', cp_ContainerName = ''c'', cp_VPAObjectName = ''v'', cp_Status = st\<rparr>])
      NewClusterState = Inr (deleted, c') \<and> (''ns'', ''cp'') \<in> set deleted"
proof
  fix st
  let ?cps = "\<lambda>_. Inr [\<lparr>cp_Namespace = ''ns'', cp_Name = ''cp'', cp_ContainerName = ''c'', cp_VPAObjectName = ''v'', cp_Status = st\<rparr>] :: VerticalPodAutoscalerCheckpoint list result"
  let ?io = "\<lparr>fi_now = 5, fi_fetch = \<lambda>_. Inr None, fi_fetchTop = \<lambda>_. Inr None, fi_sameMode = \<lambda>_. False, fi_samePolicy = \<lambda>_. False\<rparr>"
  obtain deleted c' where d: "GarbageCollectCheckpoints ?io (Inr []) (Inr [''ns'']) ?cps NewClusterState = Inr (deleted, c')"
    and m: "\<forall>ns name. (ns, name) \<in> set deleted \<longleftrightarrow> ns \<in> set [''ns''] \<and>
       (\<exists>cps cp. ?cps ns = Inr cps \<and> cp \<in> set cps \<and> cp_Name cp = name \<and> cp_vpa cp \<notin> crd_id ` set [])"
    using GarbageCollectCheckpoints_exact [OF NewClusterState_model [of undefined 0], of ?io "[]" "[''ns'']" ?cps]
    by (elim exE conjE) (rule that)
  have "(''ns'', ''cp'') \<in> set deleted" by (subst m [rule_format]) simp
  with d show "\<exists>deleted c'. GarbageCollectCheckpoints ?io (Inr []) (Inr [''ns'']) ?cps NewClusterState = Inr (deleted, c') \<and>
      (''ns'', ''cp'') \<in> set deleted" by blast
qed

text \<open>
  An error of the API server while pods are listed is only logged, and the empty list that
  comes with it is taken for the pods of the cluster: whatever the model knew, all pods and with
  them all containers are forgotten.
\<close>

theorem LoadPods_error_forgets_pods:
  assumes "config_ok config" "model_ok config lo c"
  shows "\<exists>c'. LoadPods config now saver (Inl e) c = Inr c' \<and> Pods c' = [] \<and> model_ok config lo c'"
proof -
  obtain c' where "LoadPods config now saver (Inl e) c = Inr c'" "model_ok config lo c'" "keys_of (Pods c') \<subseteq> {}"
    using LoadPods_model [OF assms, of "Inl e" now saver] by auto
  then show ?thesis by (auto simp: keys_of_def)
qed

theorem LoadPods_error_forgets_pods_witness:
  "\<exists>config c1 c2. LoadPods config 5 False (Inr [\<lparr>bps_ID = \<lparr>pid_Namespace = ''ns'', PodName = ''p''\<rparr>, bps_PodLabels = [],
      bps_Containers = [], bps_Phase = ''Running''\<rparr>]) NewClusterState = Inr c1 \<and> Pods c1 \<noteq> [] \<and>
    LoadPods config 5 False (Inl (Err ''timeout'')) c1 = Inr c2 \<and> Pods c2 = []"
proof -
  obtain config where c: "config_ok config"
    using NewAggregationsConfig_ok [of "24 * hour" "24 * hour" "24 * hour" 8]
    by (auto simp: hour_def minute_def second_def maxDecayExponent_def int64_max_def)
  let ?pod = "\<lparr>bps_ID = \<lparr>pid_Namespace = ''ns'', PodName = ''p''\<rparr>, bps_PodLabels = [], bps_Containers = [], bps_Phase = ''Running''\<rparr>"
  obtain c1 where l: "LoadPods config 5 False (Inr [?pod]) NewClusterState = Inr c1" "model_ok config 0 c1"
    "{bps_ID ?pod} \<subseteq> keys_of (Pods c1)"
    using LoadPods_model [OF c NewClusterState_model [of _ 0], of "Inr [?pod]" 5 False] by (auto simp: wf_labels_def)
  then have "Pods c1 \<noteq> []" by auto
  then show ?thesis using LoadPods_error_forgets_pods [OF c l(2), of 5 False "Err ''timeout''"] l(1) by blast
qed

section \<open>History\<close>

lemma add_samples_unknown:
  assumes "pods_all (\<lambda>_. False) (Pods c)"
  shows "add_samples config now False samples c n = Inr (c, n\<lparr>droppedSampleCount := droppedSampleCount n + length samples\<rparr>)"
proof (induction samples arbitrary: n)
  case (Cons x samples)
  obtain cid s where x: "x = (cid, s)" by (cases x)
  have "map_of (Containers pod) name = None" if "map_of (Pods c) pid = Some pod" for pid pod name
    using pods_all_lookup [OF assms that] by (cases "Containers pod") auto
  then have "\<exists>e. cluster_AddSample config now c cid s = Inr (Some e, c, [])"
    by (simp add: cluster_AddSample_def split: option.split)
  then obtain e where "cluster_AddSample config now c cid s = Inr (Some e, c, [])" ..
  then show ?case using Cons.IH by (simp add: x count_sample_def)
qed simp

lemma init_pods_unknown:
  assumes "config_ok config" "model_ok config lo c" "pods_all (\<lambda>_. False) (Pods c)"
    "\<forall>(podID, podHistory) \<in> set hs. wf_labels (LastLabels podHistory)"
  shows "\<exists>c'. init_pods config now hs c n = Inr (c', n\<lparr>droppedSampleCount := droppedSampleCount n +
      (\<Sum>(podID, podHistory) \<leftarrow> hs. length (history_samples podID podHistory))\<rparr>) \<and>
    model_ok config lo c' \<and> pods_all (\<lambda>_. False) (Pods c')"
  using assms(2-4)
proof (induction hs arbitrary: c n)
  case (Cons h hs)
  obtain pid ph where h: "h = (pid, ph)" by (cases h)
  obtain c1 where a: "AddOrUpdatePod config now c pid (LastLabels ph) PodUnknown = Inr c1" "model_ok config lo c1"
    using AddOrUpdatePod_model [OF assms(1) Cons.prems(1)] Cons.prems(3) h by (metis (no_types, lifting) case_prodD list.set_intros(1))
  have "pods_all (\<lambda>_. False) (Pods c1)"
    using AddOrUpdatePod_frame [OF a(1) Cons.prems(2)] by (simp add: window_property_def)
  then show ?case using Cons.IH [OF a(2), of "n\<lparr>droppedSampleCount := droppedSampleCount n + length (history_samples pid ph)\<rparr>"]
      Cons.prems(3) a(1) by (simp add: h add_samples_unknown add.assoc)
qed simp

lemma init_pods_model:
  assumes "config_ok config" "model_ok config lo c"
    "\<forall>(pid, ph) \<in> set hs. wf_labels (LastLabels ph) \<and> (\<forall>(n, samples) \<in> set (Samples ph). \<forall>s \<in> set samples. time_in config lo (MeasureStart s))"
  shows "\<exists>c' n'. init_pods config now hs c n = Inr (c', n') \<and> model_ok config lo c'"
  using assms(2,3)
proof (induction hs arbitrary: c n)
  case (Cons h hs)
  obtain pid ph where h: "h = (pid, ph)" by (cases h)
  have wf: "wf_labels (LastLabels ph)" and t: "\<forall>(cid, s) \<in> set (history_samples pid ph). time_in config lo (MeasureStart s)"
    using Cons.prems(2) by (auto simp: h history_samples_def)
  obtain c1 where a: "AddOrUpdatePod config now c pid (LastLabels ph) PodUnknown = Inr c1" "model_ok config lo c1"
    using AddOrUpdatePod_model [OF assms(1) Cons.prems(1) wf] by blast
  obtain c2 n2 where b: "add_samples config now False (history_samples pid ph) c1 n = Inr (c2, n2)" "model_ok config lo c2"
    using add_samples_model [OF assms(1) a(2) t] by blast
  show ?case using Cons.IH [OF b(2)] Cons.prems(2) a(1) b(1) by (simp add: h)
qed simp

text \<open>
  C38. No sample of the history reaches the model: the feeder adds the pods of the history but
  never their containers, so every sample that the history provider returns is refused for an
  unknown container, and the pods that are added have no containers.
\<close>

theorem history_samples_lost:
  assumes "config_ok config" "\<forall>(podID, podHistory) \<in> set h. wf_labels (LastLabels podHistory)"
  shows "\<exists>c' n. InitFromHistoryProvider config now (Inr h) NewClusterState = Inr (c', n) \<and> sampleCount n = 0 \<and>
    droppedSampleCount n = (\<Sum>(podID, podHistory) \<leftarrow> h. length (history_samples podID podHistory)) \<and>
    (\<forall>pod \<in> snd ` set (Pods c'). Containers pod = [])"
proof -
  have "pods_all (\<lambda>_. False) (Pods NewClusterState)" by (simp add: pods_all_def NewClusterState_def)
  from init_pods_unknown [OF assms(1) NewClusterState_model [of _ 0] this assms(2), of now "\<lparr>sampleCount = 0, droppedSampleCount = 0\<rparr>"]
  obtain c' where i: "InitFromHistoryProvider config now (Inr h) NewClusterState = Inr (c', \<lparr>sampleCount = 0,
      droppedSampleCount = (\<Sum>(podID, podHistory) \<leftarrow> h. length (history_samples podID podHistory))\<rparr>)"
    and e: "pods_all (\<lambda>_. False) (Pods c')"
    by (auto simp: InitFromHistoryProvider_def)
  have "\<forall>pod \<in> snd ` set (Pods c'). Containers pod = []"
  proof
    fix pod assume "pod \<in> snd ` set (Pods c')"
    then have "\<forall>(n, ct) \<in> set (Containers pod). False" using e by (auto simp: pods_all_def)
    then show "Containers pod = []" by (cases "Containers pod") auto
  qed
  with i show ?thesis by simp
qed

theorem history_samples_lost_witness:
  "\<exists>config c' n. InitFromHistoryProvider config 5 (Inr [(\<lparr>pid_Namespace = ''ns'', PodName = ''p''\<rparr>,
       \<lparr>LastLabels = [], LastSeen = 4, Samples = [(''c'', [\<lparr>MeasureStart = 4, Usage = 100, Request = 0, Resource = ResourceCPU\<rparr>])]\<rparr>)])
       NewClusterState = Inr (c', n) \<and> sampleCount n = 0 \<and> droppedSampleCount n = 1"
proof -
  obtain config where c: "config_ok config"
    using NewAggregationsConfig_ok [of "24 * hour" "24 * hour" "24 * hour" 8]
    by (auto simp: hour_def minute_def second_def maxDecayExponent_def int64_max_def)
  show ?thesis
    using history_samples_lost [OF c, of "[(\<lparr>pid_Namespace = ''ns'', PodName = ''p''\<rparr>,
       \<lparr>LastLabels = [], LastSeen = 4, Samples = [(''c'', [\<lparr>MeasureStart = 4, Usage = 100, Request = 0, Resource = ResourceCPU\<rparr>])]\<rparr>)]" 5]
    by (auto simp: wf_labels_def history_samples_def)
qed

end
