(* ===== verification/Go_Sort.thy ===== *)
theory Go_Sort
  imports Go_Prelude "HOL-Library.Multiset"
begin

text \<open>
  Sorting as the \<open>sort\<close> package of Go documents it: a function that gets the order and returns an
  ordered permutation, with ties in any order. The components take it as an argument and rely on
  \<open>sort_ok\<close> only; insertion sort, which the package itself uses for short slices, satisfies it.
\<close>

definition strict_weak_order :: "('a \<Rightarrow> 'a \<Rightarrow> bool) \<Rightarrow> bool" where
  "strict_weak_order lt \<longleftrightarrow>
     (\<forall>a. \<not> lt a a) \<and> (\<forall>a b c. lt a b \<longrightarrow> lt b c \<longrightarrow> lt a c) \<and>
     (\<forall>a b c. \<not> lt a b \<longrightarrow> \<not> lt b c \<longrightarrow> \<not> lt a c)"

text \<open>What \<open>sort.Sort\<close> and \<open>sort.Slice\<close> promise for a strict weak order.\<close>

definition sort_ok :: "(('a \<Rightarrow> 'a \<Rightarrow> bool) \<Rightarrow> 'a list \<Rightarrow> 'a list) \<Rightarrow> bool" where
  "sort_ok sort_Sort \<longleftrightarrow> (\<forall>lt xs. strict_weak_order lt \<longrightarrow>
     mset (sort_Sort lt xs) = mset xs \<and> sorted_wrt (\<lambda>a b. \<not> lt b a) (sort_Sort lt xs))"

fun insert_sorted :: "('a \<Rightarrow> 'a \<Rightarrow> bool) \<Rightarrow> 'a \<Rightarrow> 'a list \<Rightarrow> 'a list" where
  "insert_sorted lt x [] = [x]"
| "insert_sorted lt x (y # ys) = (if lt y x then y # insert_sorted lt x ys else x # y # ys)"

definition insertionSort :: "('a \<Rightarrow> 'a \<Rightarrow> bool) \<Rightarrow> 'a list \<Rightarrow> 'a list" where
  "insertionSort lt xs = foldr (insert_sorted lt) xs []"

lemma mset_insert_sorted: "mset (insert_sorted lt x xs) = add_mset x (mset xs)"
  by (induction xs) auto

lemma sorted_insert_sorted:
  assumes "strict_weak_order lt" "sorted_wrt (\<lambda>a b. \<not> lt b a) xs"
  shows "sorted_wrt (\<lambda>a b. \<not> lt b a) (insert_sorted lt x xs)"
  using assms(2)
proof (induction xs)
  case (Cons y ys)
  have m: "set (insert_sorted lt x ys) = insert x (set ys)"
    using mset_insert_sorted [of lt x ys] by (metis set_mset_add_mset_insert set_mset_mset)
  have asym: "lt y x \<Longrightarrow> \<not> lt x y" and tr: "\<not> lt z y \<Longrightarrow> \<not> lt y x \<Longrightarrow> \<not> lt z x" for z
    using assms(1) unfolding strict_weak_order_def by blast+
  show ?case using Cons asym tr by (auto simp: m)
qed simp

lemma insertionSort_ok: "sort_ok (insertionSort :: ('a \<Rightarrow> 'a \<Rightarrow> bool) \<Rightarrow> 'a list \<Rightarrow> 'a list)"
proof -
  have "mset (insertionSort lt xs) = mset xs \<and>
    (strict_weak_order lt \<longrightarrow> sorted_wrt (\<lambda>a b. \<not> lt b a) (insertionSort lt xs))" for lt and xs :: "'a list"
    by (induction xs) (simp_all add: insertionSort_def mset_insert_sorted sorted_insert_sorted)
  then show ?thesis by (simp add: sort_ok_def)
qed

end
