(* ===== verification/Checkpoint_Writer.thy ===== *)
theory Checkpoint_Writer
  imports Cluster_Feeder Vpa_Aggregation Go_Sort
begin

text \<open>
  \<open>pkg/recommender/checkpoint/checkpoint_writer.go\<close> and \<open>CreateOrUpdateVpaCheckpoint\<close> of
  \<open>pkg/utils/vpa/api.go\<close>: writing the aggregated histograms of every VPA to the API server, the
  longest unwritten first, until the context expires. The API server is a pair of functions that
  answer a patch and a creation; the context is asked once per VPA, and its answers are a function
  of the number of VPAs that were handled before. \<open>sort.Slice\<close> is an argument.
\<close>

section \<open>Which VPAs are written\<close>

definition isFetchingHistory :: "Vpa \<Rightarrow> bool" where
  "isFetchingHistory vpa =
     (case map_of (Conditions vpa) FetchingHistory of
        None \<Rightarrow> False
      | Some condition \<Rightarrow> cond_Status condition = ConditionTrue)"

type_synonym vpa_sorter = "(Vpa \<Rightarrow> Vpa \<Rightarrow> bool) \<Rightarrow> Vpa list \<Rightarrow> Vpa list"

definition written_before :: "Vpa \<Rightarrow> Vpa \<Rightarrow> bool" where
  "written_before v w = time_Before (CheckpointWritten v) (CheckpointWritten w)"

definition getVpasToCheckpoint :: "vpa_sorter \<Rightarrow> (VpaID, Vpa) gomap \<Rightarrow> Vpa list" where
  "getVpasToCheckpoint sort_Slice clusterVpas =
     sort_Slice written_before (filter (\<lambda>vpa. \<not> isFetchingHistory vpa) (map snd clusterVpas))"

section \<open>What is written\<close>

definition subtractCurrentContainerMemoryPeak ::
    "AggregateContainerState \<Rightarrow> ContainerState \<Rightarrow> time \<Rightarrow> AggregateContainerState result" where
  "subtractCurrentContainerMemoryPeak a container now =
     (if time_Before now (WindowEnd container)
      then rbind (decaying_SubtractSample (AggregateMemoryPeaks a)
                    (BytesFromMemoryAmount (GetMaxMemoryPeak container)) 1 (WindowEnd container))
             (\<lambda>h. Inr (a\<lparr>AggregateMemoryPeaks := h\<rparr>))
      else Inr a)"

fun subtract_containers ::
    "Vpa \<Rightarrow> time \<Rightarrow> PodState \<Rightarrow> (string \<times> ContainerState) list \<Rightarrow> ContainerNameToAggregateStateMap \<Rightarrow>
     ContainerNameToAggregateStateMap result" where
  "subtract_containers vpa now pod [] m = Inr m"
| "subtract_containers vpa now pod ((containerName, container) # rest) m =
     (if UsesAggregation vpa (MakeAggregateStateKey pod containerName)
      then (case map_of m containerName of
              Some a \<Rightarrow> rbind (subtractCurrentContainerMemoryPeak a container now) (\<lambda>a'.
                subtract_containers vpa now pod rest (AList.update containerName a' m))
            | None \<Rightarrow> subtract_containers vpa now pod rest m)
      else subtract_containers vpa now pod rest m)"

fun subtract_pods ::
    "Vpa \<Rightarrow> time \<Rightarrow> (PodID \<times> PodState) list \<Rightarrow> ContainerNameToAggregateStateMap \<Rightarrow> ContainerNameToAggregateStateMap result" where
  "subtract_pods vpa now [] m = Inr m"
| "subtract_pods vpa now ((_, pod) # rest) m =
     rbind (subtract_containers vpa now pod (Containers pod) m) (subtract_pods vpa now rest)"

text \<open>The states to be written, and the cluster, whose histograms aggregation renormalises.\<close>

definition buildAggregateContainerStateMap ::
    "AggregationsConfig \<Rightarrow> VpaID \<Rightarrow> ClusterState \<Rightarrow> time \<Rightarrow> (ContainerNameToAggregateStateMap \<times> ClusterState) result" where
  "buildAggregateContainerStateMap config vid cluster now =
     (case map_of (Vpas cluster) vid of
        None \<Rightarrow> Inl (Panic ''nil pointer dereference'')
      | Some vpa \<Rightarrow>
          rbind (vpa_AggregateStateByContainerName config now vpa (cs_store cluster)) (\<lambda>(m, vpa', st').
          rbind (subtract_pods vpa' now (Pods cluster) m) (\<lambda>m'.
            Inr (m', cluster\<lparr>Vpas := AList.update vid vpa' (Vpas cluster), cs_store := st'\<rparr>))))"

section \<open>Writing\<close>

text \<open>The answers of the API server: the text of an error, or nothing.\<close>

record checkpoint_client =
  cc_Patch :: "string \<Rightarrow> VerticalPodAutoscalerCheckpoint \<Rightarrow> string option"
  cc_Create :: "string \<Rightarrow> VerticalPodAutoscalerCheckpoint \<Rightarrow> string option"

definition strings_Contains :: "string \<Rightarrow> string \<Rightarrow> bool" where
  "strings_Contains s sub = list_ex (\<lambda>i. take (length sub) (drop i s) = sub) [0..<Suc (length s)]"

definition CreateOrUpdateVpaCheckpoint ::
    "checkpoint_client \<Rightarrow> string \<Rightarrow> VerticalPodAutoscalerCheckpoint \<Rightarrow> go_error option" where
  "CreateOrUpdateVpaCheckpoint client namespace vpaCheckpoint =
     (let err = cc_Patch client namespace vpaCheckpoint;
          err' = (case err of
                    Some e \<Rightarrow> if strings_Contains e (CHR 0x22 # cp_Name vpaCheckpoint @ CHR 0x22 # '' not found'')
                              then cc_Create client namespace vpaCheckpoint else err
                  | None \<Rightarrow> None)
      in map_option (\<lambda>e. Err (''Cannot save checkpoint for vpa. Reason: '' @ e)) err')"

record checkpoint_write =
  cw_vpa :: VpaID
  cw_checkpoint :: VerticalPodAutoscalerCheckpoint
  cw_err :: "go_error option"

definition set_written :: "time \<Rightarrow> VpaID \<Rightarrow> ClusterState \<Rightarrow> ClusterState" where
  "set_written now vid cluster =
     (case map_of (Vpas cluster) vid of
        None \<Rightarrow> cluster
      | Some vpa \<Rightarrow> cluster\<lparr>Vpas := AList.update vid (vpa\<lparr>CheckpointWritten := now\<rparr>) (Vpas cluster)\<rparr>)"

text \<open>
  The containers of one VPA; the writes that are attempted are collected for the statements, and
  \<open>minCheckpoints\<close> is decremented for each of them.
\<close>

fun store_containers ::
    "checkpoint_client \<Rightarrow> time \<Rightarrow> VpaID \<Rightarrow> (string \<times> AggregateContainerState) list \<Rightarrow> int \<Rightarrow> checkpoint_write list \<Rightarrow>
     ClusterState \<Rightarrow> int \<times> checkpoint_write list \<times> ClusterState" where
  "store_containers client now vid [] minCheckpoints ws cluster = (minCheckpoints, ws, cluster)"
| "store_containers client now vid ((container, a) # rest) minCheckpoints ws cluster =
     (let vpaCheckpoint = \<lparr>cp_Namespace = [], cp_Name = VpaName vid @ ''-'' @ container, cp_ContainerName = container,
            cp_VPAObjectName = VpaName vid, cp_Status = agg_SaveToCheckpoint a\<rparr>;
          err = CreateOrUpdateVpaCheckpoint client (vid_Namespace vid) vpaCheckpoint;
          cluster' = (case err of Some _ \<Rightarrow> cluster | None \<Rightarrow> set_written now vid cluster)
      in store_containers client now vid rest (minCheckpoints - 1)
           (ws @ [\<lparr>cw_vpa = vid, cw_checkpoint = vpaCheckpoint, cw_err = err\<rparr>]) cluster')"

fun store_vpas ::
    "AggregationsConfig \<Rightarrow> checkpoint_client \<Rightarrow> (nat \<Rightarrow> go_error option) \<Rightarrow> time \<Rightarrow> nat \<Rightarrow> VpaID list \<Rightarrow> int \<Rightarrow>
     checkpoint_write list \<Rightarrow> ClusterState \<Rightarrow> (go_error option \<times> checkpoint_write list \<times> ClusterState) result" where
  "store_vpas config client ctxErr now i [] minCheckpoints ws cluster = Inr (None, ws, cluster)"
| "store_vpas config client ctxErr now i (vid # vids) minCheckpoints ws cluster =
     (if ctxErr i \<noteq> None \<and> minCheckpoints \<le> 0 then Inr (ctxErr i, ws, cluster)
      else rbind (buildAggregateContainerStateMap config vid cluster now) (\<lambda>(m, cluster1).
        let (minCheckpoints', ws', cluster2) = store_containers client now vid m minCheckpoints ws cluster1
        in store_vpas config client ctxErr now (i + 1) vids minCheckpoints' ws' cluster2))"

definition StoreCheckpoints ::
    "AggregationsConfig \<Rightarrow> vpa_sorter \<Rightarrow> checkpoint_client \<Rightarrow> (nat \<Rightarrow> go_error option) \<Rightarrow> time \<Rightarrow> int \<Rightarrow> ClusterState \<Rightarrow>
     (go_error option \<times> checkpoint_write list \<times> ClusterState) result" where
  "StoreCheckpoints config sort_Slice client ctxErr now minCheckpoints cluster =
     store_vpas config client ctxErr now 0 (map vpa_ID (getVpasToCheckpoint sort_Slice (Vpas cluster))) minCheckpoints [] cluster"

section \<open>Building the states never fails\<close>

lemma subtractCurrentContainerMemoryPeak_ok:
  assumes "agg_ok config a"
  shows "\<exists>a'. subtractCurrentContainerMemoryPeak a container now = Inr a' \<and> agg_ok config a'"
proof -
  let ?s = "\<lparr>MeasureStart = WindowEnd container, Usage = GetMaxMemoryPeak container, Request = 0, Resource = ResourceMemory\<rparr>"
  have "subtractCurrentContainerMemoryPeak a container now =
      (if time_Before now (WindowEnd container) then agg_SubtractSample a ?s else Inr a)"
    by (simp add: subtractCurrentContainerMemoryPeak_def agg_SubtractSample_def)
  then show ?thesis using agg_SubtractSample_ok [OF assms, of ?s] assms by auto
qed

lemma subtract_containers_ok:
  assumes "all_ok config m" "gomap_ok m"
  shows "\<exists>m'. subtract_containers vpa now pod cs m = Inr m' \<and> all_ok config m' \<and> gomap_ok m' \<and> keys_of m' = keys_of m"
  using assms
proof (induction cs arbitrary: m)
  case (Cons x cs)
  obtain n ct where x: "x = (n, ct)" by (cases x)
  show ?case
  proof (cases "UsesAggregation vpa (MakeAggregateStateKey pod n) \<and> map_of m n \<noteq> None")
    case False
    then show ?thesis using Cons.IH [OF Cons.prems] by (auto simp: x)
  next
    case True
    then obtain a where a: "map_of m n = Some a" by auto
    obtain a' where s: "subtractCurrentContainerMemoryPeak a ct now = Inr a'" "agg_ok config a'"
      using subtractCurrentContainerMemoryPeak_ok [OF all_ok_lookup [OF Cons.prems(1) a]] by blast
    have "n \<in> keys_of m" using a by (simp add: keys_lookup)
    then show ?thesis
      using Cons.IH [OF all_ok_update [OF Cons.prems(1) s(2), of n]] Cons.prems(2) True a s(1) by (auto simp: x insert_absorb)
  qed
qed simp

lemma subtract_pods_ok:
  assumes "all_ok config m" "gomap_ok m"
  shows "\<exists>m'. subtract_pods vpa now pods m = Inr m' \<and> all_ok config m' \<and> gomap_ok m' \<and> keys_of m' = keys_of m"
  using assms
proof (induction pods arbitrary: m)
  case (Cons x pods)
  obtain pid pod where x: "x = (pid, pod)" by (cases x)
  show ?case using subtract_containers_ok [OF Cons.prems, of vpa now pod "Containers pod"] Cons.IH by (fastforce simp: x)
qed simp

text \<open>The container names of a VPA of the cluster, and that they stay.\<close>

definition names_in :: "ClusterState \<Rightarrow> VpaID \<Rightarrow> string set" where
  "names_in c vid = (case map_of (Vpas c) vid of None \<Rightarrow> {} | Some v \<Rightarrow> container_names v)"

definition same_vpas :: "ClusterState \<Rightarrow> ClusterState \<Rightarrow> bool" where
  "same_vpas c d \<longleftrightarrow> names_in d = names_in c \<and> keys_of (Vpas d) = keys_of (Vpas c)"

lemma same_vpas_refl [simp]: "same_vpas c c"
  by (simp add: same_vpas_def)

lemma same_vpas_trans: "same_vpas a b \<Longrightarrow> same_vpas b c \<Longrightarrow> same_vpas a c"
  by (simp add: same_vpas_def)

lemma same_vpas_set:
  assumes "map_of (Vpas c) vid = Some v" "container_names v' = container_names v"
  shows "same_vpas c (c\<lparr>Vpas := AList.update vid v' (Vpas c), cs_store := st\<rparr>)"
proof -
  have "vid \<in> keys_of (Vpas c)" using assms(1) by (simp add: keys_lookup)
  then show ?thesis using assms by (auto simp: same_vpas_def names_in_def insert_absorb fun_eq_iff)
qed

lemma buildAggregateContainerStateMap_model:
  assumes "config_ok config" "model_ok config lo c" "vid \<in> keys_of (Vpas c)"
  shows "\<exists>m c'. buildAggregateContainerStateMap config vid c now = Inr (m, c') \<and> model_ok config lo c' \<and>
    same_vpas c c' \<and> keys_of m = names_in c vid"
proof -
  obtain v where v: "map_of (Vpas c) vid = Some v" using assms(3) by (auto simp: keys_lookup)
  obtain m initial st' where a: "vpa_AggregateStateByContainerName config now v (cs_store c) =
      Inr (m, v\<lparr>ContainersInitialAggregateState := initial\<rparr>, st')" "gomap_ok m" "all_ok config m" "keys_of m = container_names v"
    "map fst initial = map fst (ContainersInitialAggregateState v)" "all_ok config initial" "states_ok config st'"
    "length st' = length (cs_store c)"
    using vpa_AggregateStateByContainerName_model [OF assms(1,2) v] by blast
  obtain m' where s: "subtract_pods (v\<lparr>ContainersInitialAggregateState := initial\<rparr>) now (Pods c) m = Inr m'" "keys_of m' = keys_of m"
    using subtract_pods_ok [OF a(3,2)] by blast
  have "buildAggregateContainerStateMap config vid c now = Inr (m', c\<lparr>Vpas := AList.update vid
      (v\<lparr>ContainersInitialAggregateState := initial\<rparr>) (Vpas c), cs_store := st'\<rparr>)"
    using v a(1) s(1) by (simp add: buildAggregateContainerStateMap_def)
  then show ?thesis
    using aggregated_model [OF assms(2) v a(6-8)] same_vpas_set [OF v container_names_aggregated [OF a(5)], of st'] a(4) s(2)
    by (simp add: names_in_def v)
qed

section \<open>Which checkpoints are written\<close>

definition what :: "checkpoint_write \<Rightarrow> VpaID \<times> string" where
  "what w = (cw_vpa w, cp_ContainerName (cw_checkpoint w))"

lemma set_written_model:
  assumes "model_ok config lo c"
  shows "model_ok config lo (set_written now vid c) \<and> same_vpas c (set_written now vid c)"
proof (cases "map_of (Vpas c) vid")
  case (Some v)
  have st: "states_ok config (cs_store c)" using assms by (simp add: model_ok_def cluster_ok_def store_ok_def)
  have eq: "set_written now vid c =
      c\<lparr>Vpas := AList.update vid (v\<lparr>CheckpointWritten := now\<rparr>) (Vpas c), cs_store := cs_store c\<rparr>"
    by (simp add: set_written_def Some)
  have "container_names (v\<lparr>CheckpointWritten := now\<rparr>) = container_names v" by (simp add: container_names_def)
  then show ?thesis unfolding eq
    using set_vpa_model [OF assms Some st refl, of "v\<lparr>CheckpointWritten := now\<rparr>"] model_initial [OF assms Some]
      same_vpas_set [OF Some, of "v\<lparr>CheckpointWritten := now\<rparr>" "cs_store c"] by (simp add: vpa_same_def)
qed (simp add: set_written_def assms)

lemma store_containers_model:
  assumes "model_ok config lo c"
  shows "\<exists>new c'. store_containers client now vid m k ws c = (k - int (length new), ws @ new, c') \<and>
    map what new = map (\<lambda>(n, a). (vid, n)) m \<and> model_ok config lo c' \<and> same_vpas c c'"
  using assms
proof (induction m arbitrary: k ws c)
  case (Cons x m)
  obtain n a where x: "x = (n, a)" by (cases x)
  define cp where "cp = \<lparr>cp_Namespace = [], cp_Name = VpaName vid @ ''-'' @ n, cp_ContainerName = n, cp_VPAObjectName = VpaName vid,
    cp_Status = agg_SaveToCheckpoint a\<rparr>"
  define err where "err = CreateOrUpdateVpaCheckpoint client (vid_Namespace vid) cp"
  define c1 where "c1 = (case err of Some _ \<Rightarrow> c | None \<Rightarrow> set_written now vid c)"
  have c1: "model_ok config lo c1" "same_vpas c c1"
    using set_written_model [OF Cons.prems, of now vid] Cons.prems by (auto simp: c1_def split: option.split)
  let ?w = "\<lparr>cw_vpa = vid, cw_checkpoint = cp, cw_err = err\<rparr>"
  obtain new c' where ih: "store_containers client now vid m (k - 1) (ws @ [?w]) c1 = (k - 1 - int (length new), (ws @ [?w]) @ new, c')"
    "map what new = map (\<lambda>(n, a). (vid, n)) m" "model_ok config lo c'" "same_vpas c1 c'"
    using Cons.IH [OF c1(1)] by blast
  have "store_containers client now vid (x # m) k ws c = (k - int (length (?w # new)), ws @ ?w # new, c')"
    unfolding x store_containers.simps Let_def cp_def [symmetric] err_def [symmetric] c1_def [symmetric]
    using ih(1) by simp
  moreover have "map what (?w # new) = map (\<lambda>(n, a). (vid, n)) (x # m)" using ih(2) by (simp add: what_def cp_def x)
  ultimately show ?case using ih(3) same_vpas_trans [OF c1(2) ih(4)] by blast
qed simp

lemma store_vpas_model:
  assumes "config_ok config" "model_ok config lo c" "set vids \<subseteq> keys_of (Vpas c)"
  shows "\<exists>err new c'. store_vpas config client ctxErr now i vids k ws c = Inr (err, ws @ new, c') \<and> model_ok config lo c' \<and>
    (err = None \<longrightarrow> what ` set new = (SIGMA vid : set vids. names_in c vid)) \<and>
    (err \<noteq> None \<longrightarrow> k \<le> int (length new)) \<and>
    what ` set new \<subseteq> (SIGMA vid : set vids. names_in c vid) \<and>
    ((\<forall>vid. R vid vid) \<longrightarrow> sorted_wrt R vids \<longrightarrow> sorted_wrt R (map cw_vpa new))"
  using assms(2,3)
proof (induction vids arbitrary: i k ws c)
  case (Cons vid vids)
  show ?case
  proof (cases "ctxErr i \<noteq> None \<and> k \<le> 0")
    case True
    then show ?thesis using Cons.prems(1) by (intro exI [of _ "ctxErr i"] exI [of _ "[]"] exI [of _ c]) auto
  next
    case False
    obtain m c1 where b: "buildAggregateContainerStateMap config vid c now = Inr (m, c1)" "model_ok config lo c1"
      "same_vpas c c1" "keys_of m = names_in c vid"
      using buildAggregateContainerStateMap_model [OF assms(1) Cons.prems(1)] Cons.prems(2) by (metis insert_subset list.simps(15))
    obtain new1 c2 where s: "store_containers client now vid m k ws c1 = (k - int (length new1), ws @ new1, c2)"
      "map what new1 = map (\<lambda>(n, a). (vid, n)) m" "model_ok config lo c2" "same_vpas c1 c2"
      using store_containers_model [OF b(2)] by blast
    have same: "same_vpas c c2" using same_vpas_trans [OF b(3) s(4)] .
    then have "set vids \<subseteq> keys_of (Vpas c2)" using Cons.prems(2) by (simp add: same_vpas_def)
    from Cons.IH [OF s(3) this, of "i + 1" "k - int (length new1)" "ws @ new1"] obtain err new2 c3 where ih:
      "store_vpas config client ctxErr now (i + 1) vids (k - int (length new1)) (ws @ new1) c2 = Inr (err, (ws @ new1) @ new2, c3)"
      "model_ok config lo c3" "err = None \<longrightarrow> what ` set new2 = (SIGMA vid : set vids. names_in c2 vid)"
      "err \<noteq> None \<longrightarrow> k - int (length new1) \<le> int (length new2)"
      "what ` set new2 \<subseteq> (SIGMA vid : set vids. names_in c2 vid)"
      "(\<forall>vid. R vid vid) \<longrightarrow> sorted_wrt R vids \<longrightarrow> sorted_wrt R (map cw_vpa new2)"
      by (elim exE conjE) (rule that)
    have n: "names_in c2 = names_in c" using same by (simp add: same_vpas_def)
    have "what ` set new1 = set (map (\<lambda>(n, a). (vid, n)) m)" unfolding s(2) [symmetric] by simp
    also have "\<dots> = {vid} \<times> names_in c vid" unfolding b(4) [symmetric] by (force simp: keys_of_def)
    finally have w1: "what ` set new1 = {vid} \<times> names_in c vid" .
    have "store_vpas config client ctxErr now i (vid # vids) k ws c = Inr (err, ws @ (new1 @ new2), c3)"
      using False b(1) s(1) ih(1) by auto
    moreover have "sorted_wrt R (map cw_vpa (new1 @ new2))" if "\<forall>vid. R vid vid" "sorted_wrt R (vid # vids)"
    proof -
      have 1: "cw_vpa w = vid" if "w \<in> set new1" for w using imageI [OF that, of what] w1 by (auto simp: what_def)
      have 2: "cw_vpa w \<in> set vids" if "w \<in> set new2" for w using imageI [OF that, of what] ih(5) by (auto simp: what_def)
      have "sorted_wrt R (map cw_vpa new1)" using 1 that(1) by (auto simp: sorted_wrt_map sorted_wrt_iff_nth_less)
      then show ?thesis using 1 2 ih(6) that by (auto simp: sorted_wrt_append)
    qed
    ultimately show ?thesis using ih(2-5) w1 n
      by (intro exI [of _ err] exI [of _ "new1 @ new2"] exI [of _ c3]) (auto simp: image_Un)
  qed
qed auto

lemma written_before_order: "strict_weak_order written_before"
  by (auto simp: strict_weak_order_def written_before_def time_Before_def)

definition age_in :: "ClusterState \<Rightarrow> VpaID \<Rightarrow> time" where
  "age_in c vid = (case map_of (Vpas c) vid of None \<Rightarrow> 0 | Some v \<Rightarrow> CheckpointWritten v)"

lemma getVpasToCheckpoint_model:
  assumes "model_ok config lo c" "sort_ok sort_Slice"
  shows "set (map vpa_ID (getVpasToCheckpoint sort_Slice (Vpas c))) =
      {vid. \<exists>v. map_of (Vpas c) vid = Some v \<and> \<not> isFetchingHistory v}"
    "sorted_wrt (\<lambda>a b. age_in c a \<le> age_in c b) (map vpa_ID (getVpasToCheckpoint sort_Slice (Vpas c)))"
proof -
  let ?vs = "getVpasToCheckpoint sort_Slice (Vpas c)"
  have g: "gomap_ok (Vpas c)" and id: "\<forall>(vid, vpa) \<in> set (Vpas c). vpa_ID vpa = vid"
    using assms(1) by (simp_all add: model_ok_def cluster_ok_def maps_ok_def)
  have s: "mset ?vs = mset (filter (\<lambda>vpa. \<not> isFetchingHistory vpa) (map snd (Vpas c)))"
    "sorted_wrt (\<lambda>v w. \<not> written_before w v) ?vs"
    using assms(2) written_before_order unfolding sort_ok_def getVpasToCheckpoint_def by blast+
  have mem: "v \<in> set ?vs \<longleftrightarrow> map_of (Vpas c) (vpa_ID v) = Some v \<and> \<not> isFetchingHistory v" for v
  proof -
    have "v \<in> set ?vs \<longleftrightarrow> v \<in> snd ` set (Vpas c) \<and> \<not> isFetchingHistory v"
      using arg_cong [OF s(1), of set_mset] by auto
    moreover have "v \<in> snd ` set (Vpas c) \<longleftrightarrow> map_of (Vpas c) (vpa_ID v) = Some v"
      unfolding in_set_map_of [OF g, symmetric] using id by force
    ultimately show ?thesis by simp
  qed
  show "set (map vpa_ID ?vs) = {vid. \<exists>v. map_of (Vpas c) vid = Some v \<and> \<not> isFetchingHistory v}"
  proof (intro set_eqI iffI)
    fix vid assume "vid \<in> {vid. \<exists>v. map_of (Vpas c) vid = Some v \<and> \<not> isFetchingHistory v}"
    then obtain v where v: "map_of (Vpas c) vid = Some v" "\<not> isFetchingHistory v" by blast
    then have "vpa_ID v = vid" using id map_of_SomeD [OF v(1)] by auto
    then show "vid \<in> set (map vpa_ID ?vs)" using v mem [of v] by auto
  qed (use mem in auto)
  have "age_in c (vpa_ID v) = CheckpointWritten v" if "v \<in> set ?vs" for v
    using that by (simp add: mem age_in_def)
  then show "sorted_wrt (\<lambda>a b. age_in c a \<le> age_in c b) (map vpa_ID ?vs)"
    unfolding sorted_wrt_map using sorted_wrt_mono_rel [OF _ s(2)] by (auto simp: written_before_def time_Before_def)
qed

lemma StoreCheckpoints_spec:
  assumes "config_ok config" "model_ok config lo c" "sort_ok sort_Slice"
  shows "\<exists>err ws c'. StoreCheckpoints config sort_Slice client ctxErr now minCheckpoints c = Inr (err, ws, c') \<and>
    model_ok config lo c' \<and>
    (let wanted = {(vid, n). \<exists>v. map_of (Vpas c) vid = Some v \<and> \<not> isFetchingHistory v \<and> n \<in> container_names v} in
     (err = None \<longrightarrow> what ` set ws = wanted) \<and>
     (err \<noteq> None \<longrightarrow> minCheckpoints \<le> int (length ws)) \<and>
     what ` set ws \<subseteq> wanted) \<and>
    sorted_wrt (\<lambda>w w'. age_in c (cw_vpa w) \<le> age_in c (cw_vpa w')) ws"
proof -
  note g = getVpasToCheckpoint_model [OF assms(2,3)]
  let ?vids = "map vpa_ID (getVpasToCheckpoint sort_Slice (Vpas c))"
  have sub: "set ?vids \<subseteq> keys_of (Vpas c)" unfolding g(1) by (auto simp: keys_lookup)
  have "(SIGMA vid : set ?vids. names_in c vid) =
      {(vid, n). \<exists>v. map_of (Vpas c) vid = Some v \<and> \<not> isFetchingHistory v \<and> n \<in> container_names v}"
    unfolding g(1) by (auto simp: names_in_def)
  with store_vpas_model [OF assms(1,2) sub, of client ctxErr now 0 minCheckpoints "[]" "\<lambda>a b. age_in c a \<le> age_in c b"] g(2)
  show ?thesis unfolding StoreCheckpoints_def Let_def by (simp add: sorted_wrt_map)
qed

lemma StoreCheckpoints_model:
  assumes "config_ok config" "model_ok config lo c" "sort_ok sort_Slice"
  shows "\<exists>err ws c'. StoreCheckpoints config sort_Slice client ctxErr now minCheckpoints c = Inr (err, ws, c') \<and> model_ok config lo c'"
  using StoreCheckpoints_spec [OF assms] by blast

text \<open>
  C33. Storing checkpoints never panics and keeps the model. When the context stays valid to the
  end, a write is attempted for exactly the containers of the VPAs that are not loading their
  history; when it expires, at least the required minimum of writes was attempted. No other
  checkpoint is ever written, and the VPAs are served in the order of their last write, the
  oldest first, so that none is starved by the time limit.
\<close>

theorem StoreCheckpoints_progress:
  assumes "config_ok config" "model_ok config lo c" "sort_ok sort_Slice"
  shows "\<exists>err ws c'. StoreCheckpoints config sort_Slice client ctxErr now minCheckpoints c = Inr (err, ws, c') \<and>
    model_ok config lo c' \<and>
    (let wanted = {(vid, n). \<exists>v. map_of (Vpas c) vid = Some v \<and> \<not> isFetchingHistory v \<and> n \<in> container_names v} in
     (err = None \<longrightarrow> what ` set ws = wanted) \<and>
     (err \<noteq> None \<longrightarrow> minCheckpoints \<le> int (length ws)) \<and>
     what ` set ws \<subseteq> wanted) \<and>
    sorted_wrt (\<lambda>w w'. age_in c (cw_vpa w) \<le> age_in c (cw_vpa w')) ws"
  using assms by (rule StoreCheckpoints_spec)

text \<open>A cluster with one VPA that was restored from the checkpoint of one container.\<close>

definition restored_cluster :: "AggregationsConfig \<Rightarrow> ClusterState" where
  "restored_cluster config = NewClusterState\<lparr>Vpas := [(\<lparr>vid_Namespace = ''ns'', VpaName = ''v''\<rparr>,
     (NewVpa \<lparr>vid_Namespace = ''ns'', VpaName = ''v''\<rparr> NothingSelector 1)\<lparr>ContainersInitialAggregateState :=
        [(''c'', NewAggregateContainerState config 0)]\<rparr>)]\<rparr>"

lemma restored_cluster_model: "config_ok config \<Longrightarrow> model_ok config lo (restored_cluster config)"
  using NewAggregateContainerState_ok [of config 0]
  by (simp add: restored_cluster_def model_ok_def cluster_ok_def counts_ok_def links_ok_def maps_ok_def store_ok_def
      states_ok_def NewClusterState_def NewVpa_def gomap_ok_def initial_ok_def pods_all_def)

theorem StoreCheckpoints_progress_witness:
  "\<exists>config err ws c'. StoreCheckpoints config insertionSort \<lparr>cc_Patch = \<lambda>_ _. None, cc_Create = \<lambda>_ _. None\<rparr>
       (\<lambda>_. Some (Err ''context deadline exceeded'')) 9 1 (restored_cluster config) = Inr (err, ws, c') \<and>
     what ` set ws = {(\<lparr>vid_Namespace = ''ns'', VpaName = ''v''\<rparr>, ''c'')}"
proof -
  obtain config where c: "config_ok config" using GetAggregationsConfig_default by blast
  let ?v = "\<lparr>vid_Namespace = ''ns'', VpaName = ''v''\<rparr>"
  let ?wanted = "{(vid, n). \<exists>v. map_of (Vpas (restored_cluster config)) vid = Some v \<and> \<not> isFetchingHistory v \<and> n \<in> container_names v}"
  have w: "?wanted = {(?v, ''c'')}"
    by (auto simp: restored_cluster_def NewVpa_def isFetchingHistory_def container_names_def split: if_splits)
  obtain err ws c' where s: "StoreCheckpoints config insertionSort \<lparr>cc_Patch = \<lambda>_ _. None, cc_Create = \<lambda>_ _. None\<rparr>
       (\<lambda>_. Some (Err ''context deadline exceeded'')) 9 1 (restored_cluster config) = Inr (err, ws, c')"
    "err = None \<longrightarrow> what ` set ws = ?wanted" "err \<noteq> None \<longrightarrow> 1 \<le> int (length ws)" "what ` set ws \<subseteq> ?wanted"
    using StoreCheckpoints_progress [OF c restored_cluster_model [OF c, of 0] insertionSort_ok,
        of "\<lparr>cc_Patch = \<lambda>_ _. None, cc_Create = \<lambda>_ _. None\<rparr>" "\<lambda>_. Some (Err ''context deadline exceeded'')" 9 1]
    unfolding Let_def by (elim exE conjE) (rule that)
  have "what ` set ws \<noteq> {}" if "err \<noteq> None" using s(3) that by auto
  then have "what ` set ws = {(?v, ''c'')}" using s(2) subset_singletonD [OF s(4) [unfolded w]] unfolding w by blast
  with s(1) show ?thesis by (intro exI [of _ config] exI [of _ err] exI [of _ ws] exI [of _ c'] conjI)
qed

end
