(* ===== verification/Limit_Scaling.thy ===== *)
theory Limit_Scaling
  imports Kube_Types
begin

text \<open>
  \<open>pkg/utils/vpa/limit_and_request_scaling.go\<close> and \<open>pkg/utils/limitrange/limit_range_calculator.go\<close>:
  limits in proportion to requests, and the limit range item that stands for all limit ranges of a
  namespace. \<open>big.Int.Div\<close> is Euclidean division and panics on 0. What the informer's lister
  returns is an argument.
\<close>

section \<open>Proportional scaling\<close>

datatype roundingMode = noRounding | roundUpToFullUnit | roundDownToFullUnit

definition big_Div :: "int \<Rightarrow> int \<Rightarrow> int result" where
  "big_Div x y = (if y = 0 then Inl (Panic ''division by zero'') else Inr (sgn y * (x div \<bar>y\<bar>)))"

definition scaleQuantityProportionally ::
    "Quantity \<Rightarrow> Quantity \<Rightarrow> Quantity \<Rightarrow> roundingMode \<Rightarrow> (Quantity \<times> bool) result" where
  "scaleQuantityProportionally scaledQuantity scaleBase scaleResult rounding =
     rbind (big_Div (q_MilliValue scaledQuantity * q_MilliValue scaleResult) (q_MilliValue scaleBase))
       (\<lambda>scaledOriginal.
          if in_int64 scaledOriginal
          then let result = NewMilliQuantity scaledOriginal in
               Inr (case rounding of
                      noRounding \<Rightarrow> result
                    | roundUpToFullUnit \<Rightarrow> q_RoundUp0 result
                    | roundDownToFullUnit \<Rightarrow> q_RoundUp0 (result - NewMilliQuantity 999), False)
          else Inr (NewMilliQuantity int64_max, True))"

text \<open>The limit to start from: the default one when the container has none.\<close>

definition effective_limit :: "Quantity option \<Rightarrow> Quantity option \<Rightarrow> Quantity option" where
  "effective_limit originalLimit defaultLimit =
     (case originalLimit of
        None \<Rightarrow> defaultLimit
      | Some l \<Rightarrow> if q_Value l = 0 \<and> defaultLimit \<noteq> None then defaultLimit else Some l)"

definition getProportionalResourceLimit ::
    "ResourceName \<Rightarrow> Quantity option \<Rightarrow> Quantity option \<Rightarrow> Quantity \<Rightarrow> Quantity option \<Rightarrow>
     (Quantity option \<times> string) result" where
  "getProportionalResourceLimit resourceName originalLimit originalRequest recommendedRequest defaultLimit =
     (case effective_limit originalLimit defaultLimit of
        None \<Rightarrow> Inr (None, [])
      | Some limit \<Rightarrow>
          if q_Value limit = 0 then Inr (None, [])
          else (case originalRequest of
              None \<Rightarrow> Inr (Some recommendedRequest, [])
            | Some request \<Rightarrow>
                if q_Value request = 0 then Inr (Some recommendedRequest, [])
                else if q_MilliValue request = q_MilliValue limit then Inr (Some recommendedRequest, [])
                else rbind (scaleQuantityProportionally limit request recommendedRequest noRounding)
                  (\<lambda>(result, capped).
                     Inr (Some result,
                          if \<not> capped then []
                          else resourceName @ '': failed to keep limit to request ratio; capping limit to int64''))))"

text \<open>\<open>ResourceList.Cpu\<close> and \<open>ResourceList.Memory\<close> return a zero quantity for a missing entry.\<close>

definition rl_get :: "ResourceList \<Rightarrow> ResourceName \<Rightarrow> Quantity" where
  "rl_get rl resource = lookup_default 0 rl resource"

definition GetProportionalLimit ::
    "ResourceList \<Rightarrow> ResourceList \<Rightarrow> ResourceList \<Rightarrow> ResourceList \<Rightarrow>
     (ResourceList option \<times> string list) result" where
  "GetProportionalLimit originalLimit originalRequest recommendation defaultLimit =
     rbind (getProportionalResourceLimit ResourceCPU (Some (rl_get originalLimit ResourceCPU))
              (Some (rl_get originalRequest ResourceCPU)) (rl_get recommendation ResourceCPU)
              (Some (rl_get defaultLimit ResourceCPU))) (\<lambda>(cpuLimit, cpuAnnotation).
     rbind (getProportionalResourceLimit ResourceMemory (Some (rl_get originalLimit ResourceMemory))
              (Some (rl_get originalRequest ResourceMemory)) (rl_get recommendation ResourceMemory)
              (Some (rl_get defaultLimit ResourceMemory))) (\<lambda>(memLimit, memAnnotation).
       if memLimit = None \<and> cpuLimit = None then Inr (None, [])
       else Inr (Some ((case cpuLimit of None \<Rightarrow> [] | Some q \<Rightarrow> [(ResourceCPU, q)]) @
                       (case memLimit of None \<Rightarrow> [] | Some q \<Rightarrow> [(ResourceMemory, q)])),
                 (if cpuAnnotation = [] then [] else [cpuAnnotation]) @
                 (if memAnnotation = [] then [] else [memAnnotation]))))"

definition GetBoundaryRequest ::
    "Quantity option \<Rightarrow> Quantity option \<Rightarrow> Quantity \<Rightarrow> Quantity option \<Rightarrow> Quantity result" where
  "GetBoundaryRequest originalRequest originalLimit boundaryLimit defaultLimit =
     (case effective_limit originalLimit defaultLimit of
        None \<Rightarrow> Inr 0
      | Some limit \<Rightarrow>
          if q_Value limit = 0 then Inr 0
          else (case originalRequest of
              None \<Rightarrow> Inr boundaryLimit
            | Some request \<Rightarrow>
                if q_Value request = 0 then Inr boundaryLimit
                else rbind (scaleQuantityProportionally request limit boundaryLimit noRounding)
                  (\<lambda>(result, _). Inr result)))"

section \<open>Limit ranges\<close>

type_synonym LimitType = string

definition LimitTypeContainer :: LimitType where "LimitTypeContainer = ''Container''"
definition LimitTypePod :: LimitType where "LimitTypePod = ''Pod''"

record LimitRangeItem =
  lri_Type :: LimitType
  lri_Max :: "ResourceList option"
  lri_Min :: "ResourceList option"
  lri_Default :: "ResourceList option"

type_synonym LimitRange = "LimitRangeItem list"

definition updatedResult ::
    "ResourceList option \<Rightarrow> ResourceList option \<Rightarrow> ResourceName \<Rightarrow> (Quantity \<Rightarrow> Quantity \<Rightarrow> Quantity) \<Rightarrow>
     ResourceList option" where
  "updatedResult result lrItem resourceName picker =
     (case lrItem of
        None \<Rightarrow> result
      | Some item \<Rightarrow> (case result of
            None \<Rightarrow> Some item
          | Some r \<Rightarrow> (case map_of item resourceName of
                None \<Rightarrow> Some r
              | Some lrResource \<Rightarrow> (case map_of r resourceName of
                    None \<Rightarrow> Some (AList.update resourceName lrResource r)
                  | Some resultResource \<Rightarrow>
                      Some (AList.update resourceName (picker resultResource lrResource) r)))))"

definition pickLowerMax :: "Quantity \<Rightarrow> Quantity \<Rightarrow> Quantity" where
  "pickLowerMax q1 q2 = (if q_Cmp q1 q2 < 0 then q1 else q2)"

definition chooseHigherMin :: "Quantity \<Rightarrow> Quantity \<Rightarrow> Quantity" where
  "chooseHigherMin q1 q2 = (if q_Cmp q1 q2 > 0 then q1 else q2)"

definition add_limit_item :: "LimitType \<Rightarrow> LimitRangeItem \<Rightarrow> LimitRangeItem \<Rightarrow> LimitRangeItem" where
  "add_limit_item limitType lri result =
     (if lri_Type lri = limitType \<and> (lri_Max lri \<noteq> None \<or> lri_Default lri \<noteq> None \<or> lri_Min lri \<noteq> None)
      then result\<lparr>
        lri_Default := (if lri_Default lri \<noteq> None then lri_Default lri else lri_Default result),
        lri_Max := updatedResult (updatedResult (lri_Max result) (lri_Max lri) ResourceCPU pickLowerMax)
                     (lri_Max lri) ResourceMemory pickLowerMax,
        lri_Min := updatedResult (updatedResult (lri_Min result) (lri_Min lri) ResourceCPU chooseHigherMin)
                     (lri_Min lri) ResourceMemory chooseHigherMin\<rparr>
      else result)"

definition getLimitRangeItem ::
    "LimitRange list result \<Rightarrow> LimitType \<Rightarrow> LimitRangeItem option result" where
  "getLimitRangeItem listed limitType =
     (case listed of
        Inl e \<Rightarrow> Inl (Err ''error loading limit ranges'')
      | Inr limitRanges \<Rightarrow>
          let result = fold (\<lambda>lr. fold (add_limit_item limitType) lr) limitRanges
                         \<lparr>lri_Type = limitType, lri_Max = None, lri_Min = None, lri_Default = None\<rparr>
          in if lri_Min result \<noteq> None \<or> lri_Max result \<noteq> None \<or> lri_Default result \<noteq> None
             then Inr (Some result) else Inr None)"

text \<open>The calculator: its two queries, with what the lister returns per namespace.\<close>

record LimitRangeCalculator =
  GetContainerLimitRangeItem :: "string \<Rightarrow> LimitRangeItem option result"
  GetPodLimitRangeItem :: "string \<Rightarrow> LimitRangeItem option result"

definition limitsChecker :: "(string \<Rightarrow> LimitRange list result) \<Rightarrow> LimitRangeCalculator" where
  "limitsChecker lister =
     \<lparr>GetContainerLimitRangeItem = (\<lambda>namespace. getLimitRangeItem (lister namespace) LimitTypeContainer),
      GetPodLimitRangeItem = (\<lambda>namespace. getLimitRangeItem (lister namespace) LimitTypePod)\<rparr>"

definition noopLimitsRangeCalculator :: LimitRangeCalculator where
  "noopLimitsRangeCalculator =
     \<lparr>GetContainerLimitRangeItem = (\<lambda>namespace. Inr None), GetPodLimitRangeItem = (\<lambda>namespace. Inr None)\<rparr>"

section \<open>Quantities in milli units\<close>

lemma div_away_mono:
  assumes "0 < b" "x \<le> y"
  shows "div_away x b \<le> div_away y b"
proof -
  have nn: "0 \<le> (\<bar>z\<bar> + b - 1) div b" for z using assms(1) by (intro pos_imp_zdiv_nonneg_iff [THEN iffD2]) auto
  have up: "(\<bar>x\<bar> + b - 1) div b \<le> (\<bar>y\<bar> + b - 1) div b" if "0 \<le> x"
    using assms that by (intro zdiv_mono1) auto
  have down: "(\<bar>y\<bar> + b - 1) div b \<le> (\<bar>x\<bar> + b - 1) div b" if "y \<le> 0"
    using assms that by (intro zdiv_mono1) auto
  show ?thesis
    using nn [of x] nn [of y] up down assms(2)
    by (cases "x = 0"; cases "y = 0"; cases "0 < x"; cases "0 < y") (auto simp: div_away_def sgn_if)
qed

lemma q_MilliValue_mono: "x \<le> y \<Longrightarrow> q_MilliValue x \<le> q_MilliValue y"
  by (simp add: q_MilliValue_def div_away_mono)

lemma q_MilliValue_pos: "0 < q \<Longrightarrow> 0 < q_MilliValue q"
  by (simp add: q_MilliValue_def div_away_pos)

lemma q_MilliValue_nonneg: "0 \<le> q \<Longrightarrow> 0 \<le> q_MilliValue q"
  using q_MilliValue_mono [of 0 q] by (simp add: q_MilliValue_def)

lemma q_MilliValue_NewMilli [simp]: "q_MilliValue (NewMilliQuantity n) = n"
  by (simp add: q_MilliValue_def NewMilliQuantity_def)

lemma q_MilliValue_ge: "0 \<le> q \<Longrightarrow> q \<le> NewMilliQuantity (q_MilliValue q)"
proof (cases "0 < q")
  case True
  have "q \<le> (q + 10 ^ 6 - 1) div 10 ^ 6 * 10 ^ 6" by simp
  then show ?thesis using True by (simp add: q_MilliValue_def div_away_def NewMilliQuantity_def)
qed (simp add: q_MilliValue_def NewMilliQuantity_def)

lemma euclid_bounds:
  fixes x y :: int
  assumes "0 < y"
  shows "x div y * y \<le> x" "x < (x div y + 1) * y"
  using pos_mod_bound [OF assms, of x] pos_mod_sign [OF assms, of x] div_mult_mod_eq [of x y]
  by (linarith, unfold distrib_right, linarith)

text \<open>
  A container's limit follows its request. When the original limit is at least the original
  request, the limit computed for a recommended request exists, is at least that request (so that
  the pod stays valid) and, up to one milli unit, in the original proportion to it, unless it had
  to be capped to an int64, which the annotation says.
\<close>

theorem proportional_limit_correct:
  assumes "effective_limit originalLimit dflt = Some L" "0 < R" "R \<le> L"
    "0 \<le> recommended" "q_MilliValue recommended \<le> int64_max"
  shows "\<exists>l ann. getProportionalResourceLimit name originalLimit (Some R) recommended dflt = Inr (Some l, ann) \<and>
    recommended \<le> l \<and>
    (ann = [] \<longrightarrow>
       q_MilliValue l * q_MilliValue R \<le> q_MilliValue L * q_MilliValue recommended \<and>
       q_MilliValue L * q_MilliValue recommended < (q_MilliValue l + 1) * q_MilliValue R)"
proof (cases "q_MilliValue R = q_MilliValue L")
  case True
  then show ?thesis
    using assms q_MilliValue_pos [OF assms(2)] q_MilliValue_nonneg [OF assms(4)]
    by (auto simp: getProportionalResourceLimit_def algebra_simps)
next
  case False
  let ?r = "q_MilliValue R" and ?l = "q_MilliValue L" and ?c = "q_MilliValue recommended"
  have pos: "0 < ?r" "?r \<le> ?l" "0 \<le> ?c"
    using q_MilliValue_pos q_MilliValue_mono q_MilliValue_nonneg assms by auto
  let ?d = "?l * ?c div ?r"
  have d: "?d * ?r \<le> ?l * ?c" "?l * ?c < (?d + 1) * ?r"
    using euclid_bounds [OF pos(1), of "?l * ?c"] by simp_all
  have "?c * ?r div ?r \<le> ?d" using pos by (intro zdiv_mono1) (auto simp: mult.commute intro: mult_right_mono)
  then have cd: "?c \<le> ?d" using pos(1) by simp
  have ne: "q_Value L \<noteq> 0" "q_Value R \<noteq> 0" using assms(2,3) by auto
  have eq: "getProportionalResourceLimit name originalLimit (Some R) recommended dflt =
      (if in_int64 ?d then Inr (Some (NewMilliQuantity ?d), [])
       else Inr (Some (NewMilliQuantity int64_max),
              name @ '': failed to keep limit to request ratio; capping limit to int64''))"
    using assms(1) False ne pos(1)
    by (simp add: getProportionalResourceLimit_def scaleQuantityProportionally_def big_Div_def Let_def)
  have le: "recommended \<le> NewMilliQuantity n" if "?c \<le> n" for n
    using q_MilliValue_ge [OF assms(4)] that by (simp add: NewMilliQuantity_def)
  show ?thesis
  proof (cases "in_int64 ?d")
    case True
    then show ?thesis using d le [OF cd] by (simp add: eq)
  next
    case False
    then show ?thesis using le [OF assms(5)] by (simp add: eq)
  qed
qed

theorem proportional_limit_correct_witness:
  "\<exists>l ann. getProportionalResourceLimit ''cpu'' (Some (NewMilliQuantity 300)) (Some (NewMilliQuantity 200))
     (NewMilliQuantity 1000) None = Inr (Some l, ann) \<and> NewMilliQuantity 1000 \<le> l"
  using proportional_limit_correct [of "Some (NewMilliQuantity 300)" None "NewMilliQuantity 300"
      "NewMilliQuantity 200" "NewMilliQuantity 1000" "''cpu''"]
  by (auto simp: effective_limit_def NewMilliQuantity_def int64_max_def q_MilliValue_def div_away_def)

section \<open>The strictest limit range\<close>

definition lookup_opt :: "ResourceList option \<Rightarrow> ResourceName \<Rightarrow> Quantity option" where
  "lookup_opt rl r = (case rl of None \<Rightarrow> None | Some m \<Rightarrow> map_of m r)"

fun combine :: "('q \<Rightarrow> 'q \<Rightarrow> 'q) \<Rightarrow> 'q option \<Rightarrow> 'q option \<Rightarrow> 'q option" where
  "combine p None y = y"
| "combine p x None = x"
| "combine p (Some a) (Some b) = Some (p a b)"

lemma combine_None2 [simp]: "combine p x None = x"
  by (cases x) auto

lemma updatedResult_twice:
  assumes "\<And>q. p q q = q" "r \<in> {ResourceCPU, ResourceMemory}"
  shows "lookup_opt (updatedResult (updatedResult result item ResourceCPU p) item ResourceMemory p) r =
    combine p (lookup_opt result r) (lookup_opt item r)"
  using assms by (auto simp: updatedResult_def lookup_opt_def split: option.splits)

lemma pick_idem: "pickLowerMax q q = q" "chooseHigherMin q q = q"
  by (simp_all add: pickLowerMax_def chooseHigherMin_def)

lemma pick_eq: "pickLowerMax = min" "chooseHigherMin = max"
  by (auto simp: fun_eq_iff pickLowerMax_def chooseHigherMin_def q_Cmp_def)

definition limit_values ::
    "LimitType \<Rightarrow> (LimitRangeItem \<Rightarrow> ResourceList option) \<Rightarrow> ResourceName \<Rightarrow> LimitRangeItem list \<Rightarrow> Quantity set" where
  "limit_values ty get r items = {q. \<exists>i \<in> set items. lri_Type i = ty \<and> lookup_opt (get i) r = Some q}"

lemma finite_limit_values: "finite (limit_values ty get r items)"
proof -
  have "limit_values ty get r items \<subseteq> (\<lambda>i. the (lookup_opt (get i) r)) ` set items"
    by (force simp: limit_values_def)
  then show ?thesis by (rule finite_subset) simp
qed

lemma limit_values_Cons:
  "limit_values ty get r (i # items) =
     (if lri_Type i = ty then set_option (lookup_opt (get i) r) else {}) \<union> limit_values ty get r items"
  by (auto simp: limit_values_def)

lemma fold_add_limit_item:
  assumes "r \<in> {ResourceCPU, ResourceMemory}"
  shows "lookup_opt (lri_Max (fold (add_limit_item ty) items acc)) r =
      fold (\<lambda>i x. if lri_Type i = ty then combine min x (lookup_opt (lri_Max i) r) else x) items
        (lookup_opt (lri_Max acc) r) \<and>
    lookup_opt (lri_Min (fold (add_limit_item ty) items acc)) r =
      fold (\<lambda>i x. if lri_Type i = ty then combine max x (lookup_opt (lri_Min i) r) else x) items
        (lookup_opt (lri_Min acc) r)"
proof (induction items arbitrary: acc)
  case (Cons i items)
  have "lookup_opt (lri_Max (add_limit_item ty i acc)) r =
      (if lri_Type i = ty then combine min (lookup_opt (lri_Max acc) r) (lookup_opt (lri_Max i) r)
       else lookup_opt (lri_Max acc) r)"
    "lookup_opt (lri_Min (add_limit_item ty i acc)) r =
      (if lri_Type i = ty then combine max (lookup_opt (lri_Min acc) r) (lookup_opt (lri_Min i) r)
       else lookup_opt (lri_Min acc) r)"
    using updatedResult_twice [of pickLowerMax, OF pick_idem(1) assms]
      updatedResult_twice [of chooseHigherMin, OF pick_idem(2) assms]
    by (auto simp: add_limit_item_def pick_eq lookup_opt_def)
  then show ?case by (simp only: Cons fold_simps)
qed simp

lemma fold_combine_Min:
  fixes x :: "Quantity option"
  shows "fold (\<lambda>i x. if lri_Type i = ty then combine min x (lookup_opt (get i) r) else x) items x =
    (if set_option x \<union> limit_values ty get r items = {} then None
     else Some (Min (set_option x \<union> limit_values ty get r items)))"
proof (induction items arbitrary: x)
  case Nil
  then show ?case by (cases x) (auto simp: limit_values_def)
next
  case (Cons i items)
  let ?V = "limit_values ty get r items"
  have "Min (insert (min a b) ?V) = Min (insert a (insert b ?V))" for a b
    using finite_limit_values [of ty get r items] by (cases "?V = {}") (simp_all add: min.assoc)
  then show ?case
    by (cases x; cases "lookup_opt (get i) r") (simp_all add: Cons limit_values_Cons)
qed

lemma fold_combine_Max:
  fixes x :: "Quantity option"
  shows "fold (\<lambda>i x. if lri_Type i = ty then combine max x (lookup_opt (get i) r) else x) items x =
    (if set_option x \<union> limit_values ty get r items = {} then None
     else Some (Max (set_option x \<union> limit_values ty get r items)))"
proof (induction items arbitrary: x)
  case Nil
  then show ?case by (cases x) (auto simp: limit_values_def)
next
  case (Cons i items)
  let ?V = "limit_values ty get r items"
  have "Max (insert (max a b) ?V) = Max (insert a (insert b ?V))" for a b
    using finite_limit_values [of ty get r items] by (cases "?V = {}") (simp_all add: max.assoc)
  then show ?case
    by (cases x; cases "lookup_opt (get i) r") (simp_all add: Cons limit_values_Cons)
qed

lemma fold_concat_items: "fold (\<lambda>lr. fold f lr) lrs acc = fold f (concat lrs) acc"
  by (induction lrs arbitrary: acc) simp_all

text \<open>
  The limit range item of a namespace stands for all of them: for CPU and memory its maximum
  is the lowest maximum and its minimum the highest minimum that any item of the asked type gives,
  and it gives none where no item does. Without any such item there is no result.
\<close>

theorem getLimitRangeItem_strictest:
  assumes "r \<in> {ResourceCPU, ResourceMemory}"
  shows "\<exists>item. getLimitRangeItem (Inr limitRanges) ty = Inr item \<and>
    (let mx = limit_values ty lri_Max r (concat limitRanges);
         mn = limit_values ty lri_Min r (concat limitRanges)
     in (case item of
           None \<Rightarrow> mx = {} \<and> mn = {}
         | Some i \<Rightarrow> lookup_opt (lri_Max i) r = (if mx = {} then None else Some (Min mx)) \<and>
                     lookup_opt (lri_Min i) r = (if mn = {} then None else Some (Max mn))))"
proof -
  let ?res = "fold (\<lambda>lr. fold (add_limit_item ty) lr) limitRanges
    \<lparr>lri_Type = ty, lri_Max = None, lri_Min = None, lri_Default = None\<rparr>"
  let ?mx = "limit_values ty lri_Max r (concat limitRanges)" and ?mn = "limit_values ty lri_Min r (concat limitRanges)"
  have mx: "lookup_opt (lri_Max ?res) r = (if ?mx = {} then None else Some (Min ?mx))"
    and mn: "lookup_opt (lri_Min ?res) r = (if ?mn = {} then None else Some (Max ?mn))"
    unfolding fold_concat_items fold_add_limit_item [OF assms, THEN conjunct1]
      fold_add_limit_item [OF assms, THEN conjunct2] fold_combine_Min fold_combine_Max
    by (simp_all add: lookup_opt_def)
  show ?thesis
    using mx mn by (auto simp: getLimitRangeItem_def Let_def lookup_opt_def split: if_splits)
qed

theorem getLimitRangeItem_strictest_witness:
  "\<exists>i. getLimitRangeItem (Inr [[\<lparr>lri_Type = ''Pod'', lri_Max = Some [(''cpu'', 5)], lri_Min = None, lri_Default = None\<rparr>],
      [\<lparr>lri_Type = ''Pod'', lri_Max = Some [(''cpu'', 3)], lri_Min = None, lri_Default = None\<rparr>]]) ''Pod'' = Inr (Some i) \<and>
    lookup_opt (lri_Max i) ''cpu'' = Some 3"
proof -
  let ?a = "\<lparr>lri_Type = ''Pod'', lri_Max = Some [(''cpu'', 5)], lri_Min = None, lri_Default = None\<rparr> :: LimitRangeItem"
  let ?b = "\<lparr>lri_Type = ''Pod'', lri_Max = Some [(''cpu'', 3)], lri_Min = None, lri_Default = None\<rparr> :: LimitRangeItem"
  have cpu: "''cpu'' \<in> {ResourceCPU, ResourceMemory}" by (simp add: ResourceCPU_def)
  have mx: "limit_values ''Pod'' lri_Max ''cpu'' (concat [[?a], [?b]]) = {3, 5}"
    by (auto simp: limit_values_def lookup_opt_def)
  obtain item where item: "getLimitRangeItem (Inr [[?a], [?b]]) ''Pod'' = Inr item"
    "case item of None \<Rightarrow> False | Some i \<Rightarrow> lookup_opt (lri_Max i) ''cpu'' = Some 3"
    using getLimitRangeItem_strictest [OF cpu, of "[[?a], [?b]]" "''Pod''"]
    unfolding mx Let_def by (auto split: option.splits)
  then show ?thesis by (cases item) auto
qed

end
