(* ===== verification/Capping.thy ===== *)
theory Capping
  imports Limit_Scaling
begin

text \<open>
  \<open>pkg/utils/vpa/capping.go\<close> and \<open>sequential_processor.go\<close>: a recommendation is adjusted to the
  limit ranges of the namespace, to the policy of the VPA and to the limits of the container. A
  closure that picks one of the three lists of a recommendation is a value of \<open>Field\<close>. The lists
  are updated in place in the code: \<open>capProportionallyToPodLimitRange\<close> writes through to the
  recommendation it is given, what it returns here is also what that recommendation becomes. A list of
  resources is never nil here: the assignment to a nil one, which panics in Go, is the insertion into an
  empty one.
\<close>

section \<open>Capping single values\<close>

type_synonym cappingAction = string

definition cappedToMinAllowed :: cappingAction where "cappedToMinAllowed = ''capped to minAllowed''"
definition cappedToMaxAllowed :: cappingAction where "cappedToMaxAllowed = ''capped to maxAllowed''"
definition cappedToLimit :: cappingAction where "cappedToLimit = ''capped to container limit''"
definition cappedProportionallyToMaxLimit :: cappingAction where
  "cappedProportionallyToMaxLimit = ''capped to fit Max in container LimitRange''"
definition cappedProportionallyToMinLimit :: cappingAction where
  "cappedProportionallyToMinLimit = ''capped to fit Min in container LimitRange''"

definition toCappingAnnotation :: "ResourceName \<Rightarrow> cappingAction \<Rightarrow> string" where
  "toCappingAnnotation resourceName action = resourceName @ '' '' @ action"

definition maybeCapToMax :: "Quantity \<Rightarrow> ResourceName \<Rightarrow> ResourceList \<Rightarrow> Quantity \<times> bool" where
  "maybeCapToMax recommended resourceName maxs =
     (case map_of maxs resourceName of
        None \<Rightarrow> (recommended, False)
      | Some maxResource \<Rightarrow>
          if \<not> q_IsZero maxResource \<and> q_Cmp recommended maxResource > 0 then (maxResource, True)
          else (recommended, False))"

definition maybeCapToMin :: "Quantity \<Rightarrow> ResourceName \<Rightarrow> ResourceList \<Rightarrow> Quantity \<times> bool" where
  "maybeCapToMin recommended resourceName mins =
     (case map_of mins resourceName of
        None \<Rightarrow> (recommended, False)
      | Some minResource \<Rightarrow>
          if \<not> q_IsZero minResource \<and> q_Cmp recommended minResource < 0 then (minResource, True)
          else (recommended, False))"

definition maybeCapToPolicyMin :: "Quantity \<Rightarrow> ResourceName \<Rightarrow> ContainerResourcePolicy \<Rightarrow> Quantity \<times> bool" where
  "maybeCapToPolicyMin recommended resourceName containerPolicy =
     maybeCapToMin recommended resourceName (MinAllowed containerPolicy)"

definition maybeCapToPolicyMax :: "Quantity \<Rightarrow> ResourceName \<Rightarrow> ContainerResourcePolicy \<Rightarrow> Quantity \<times> bool" where
  "maybeCapToPolicyMax recommended resourceName containerPolicy =
     maybeCapToMax recommended resourceName (MaxAllowed containerPolicy)"

text \<open>The loop that caps every entry to a minimum and then to a maximum, noting what it did.\<close>

fun cap_entries ::
    "(Quantity \<Rightarrow> ResourceName \<Rightarrow> Quantity \<times> bool) \<Rightarrow> (Quantity \<Rightarrow> ResourceName \<Rightarrow> Quantity \<times> bool) \<Rightarrow>
     cappingAction \<Rightarrow> cappingAction \<Rightarrow> ResourceList \<Rightarrow> ResourceList \<times> string list" where
  "cap_entries capMin capMax minAction maxAction [] = ([], [])"
| "cap_entries capMin capMax minAction maxAction ((resourceName, recommended) # rest) =
     (let (cappedToMin, isMin) = capMin recommended resourceName;
          (cappedToMax, isMax) = capMax cappedToMin resourceName;
          (rest', annotations) = cap_entries capMin capMax minAction maxAction rest
      in ((resourceName, cappedToMax) # rest',
          (if isMin then [toCappingAnnotation resourceName minAction] else []) @
          (if isMax then [toCappingAnnotation resourceName maxAction] else []) @ annotations))"

definition applyVPAPolicy ::
    "ResourceList \<Rightarrow> ContainerResourcePolicy option \<Rightarrow> ResourceList \<times> string list" where
  "applyVPAPolicy recommendation policy =
     (case policy of
        None \<Rightarrow> (recommendation, [])
      | Some p \<Rightarrow> cap_entries (\<lambda>q r. maybeCapToPolicyMin q r p) (\<lambda>q r. maybeCapToPolicyMax q r p)
                    cappedToMinAllowed cappedToMaxAllowed recommendation)"

definition cap_to_limit :: "ResourceName \<times> Quantity \<Rightarrow> ResourceList \<times> string list \<Rightarrow> ResourceList \<times> string list" where
  "cap_to_limit entry st =
     (let (resourceName, limit) = entry; (recommendation, annotations) = st in
      case map_of recommendation resourceName of
        None \<Rightarrow> (recommendation, annotations)
      | Some recommendedValue \<Rightarrow>
          if q_MilliValue limit < q_MilliValue recommendedValue
          then (AList.update resourceName limit recommendation,
                annotations @ [toCappingAnnotation resourceName cappedToLimit])
          else (recommendation, annotations))"

definition capRecommendationToContainerLimit ::
    "ResourceList \<Rightarrow> Container \<Rightarrow> ResourceList \<times> string list" where
  "capRecommendationToContainerLimit recommendation container =
     fold cap_to_limit (list_of (Limits (c_Resources container))) (recommendation, [])"

section \<open>Limit ranges of containers\<close>

definition getBoundaryRecommendation ::
    "ResourceList \<Rightarrow> Container \<Rightarrow> ResourceList option \<Rightarrow> ResourceList option \<Rightarrow> ResourceList result" where
  "getBoundaryRecommendation recommendation container boundaryLimit defaultLimit =
     (case boundaryLimit of
        None \<Rightarrow> Inr []
      | Some boundary \<Rightarrow>
          let requests = list_of (Requests (c_Resources container));
              limits = list_of (Limits (c_Resources container))
          in rbind (GetBoundaryRequest (Some (rl_get requests ResourceCPU)) (Some (rl_get limits ResourceCPU))
                      (rl_get boundary ResourceCPU) (Some (rl_get (list_of defaultLimit) ResourceCPU))) (\<lambda>boundaryCpu.
             rbind (GetBoundaryRequest (Some (rl_get requests ResourceMemory)) (Some (rl_get limits ResourceMemory))
                      (rl_get boundary ResourceMemory) (Some (rl_get (list_of defaultLimit) ResourceMemory))) (\<lambda>boundaryMem.
               Inr [(ResourceCPU, boundaryCpu), (ResourceMemory, boundaryMem)])))"

definition getMaxAllowedRecommendation ::
    "ResourceList \<Rightarrow> Container \<Rightarrow> LimitRangeItem option \<Rightarrow> ResourceList result" where
  "getMaxAllowedRecommendation recommendation container podLimitRange =
     (case podLimitRange of
        None \<Rightarrow> Inr []
      | Some lr \<Rightarrow> getBoundaryRecommendation recommendation container (lri_Max lr) (lri_Default lr))"

definition getMinAllowedRecommendation ::
    "ResourceList \<Rightarrow> Container \<Rightarrow> LimitRangeItem option \<Rightarrow> ResourceList result" where
  "getMinAllowedRecommendation recommendation container podLimitRange =
     (case podLimitRange of
        None \<Rightarrow> Inr []
      | Some lr \<Rightarrow>
          rbind (getBoundaryRecommendation recommendation container (lri_Min lr) (lri_Default lr)) (\<lambda>minForLimit.
            case lri_Min lr of
              None \<Rightarrow> Inr minForLimit
            | Some minForRequest \<Rightarrow>
                let raise = (\<lambda>r result. if q_Cmp (rl_get minForRequest r) (rl_get minForLimit r) > 0
                                        then AList.update r (rl_get minForRequest r) result else result)
                in Inr (raise ResourceMemory (raise ResourceCPU minForLimit))))"

definition applyContainerLimitRange ::
    "ResourceList \<Rightarrow> Container \<Rightarrow> LimitRangeItem option \<Rightarrow> (ResourceList \<times> string list) result" where
  "applyContainerLimitRange recommendation container limitRange =
     (case limitRange of
        None \<Rightarrow> Inr (recommendation, [])
      | Some lr \<Rightarrow>
          rbind (getMaxAllowedRecommendation recommendation container limitRange) (\<lambda>maxAllowed.
          rbind (getMinAllowedRecommendation recommendation container limitRange) (\<lambda>minAllowed.
            Inr (cap_entries (\<lambda>q r. maybeCapToMin q r minAllowed) (\<lambda>q r. maybeCapToMax q r maxAllowed)
                   cappedProportionallyToMinLimit cappedProportionallyToMaxLimit recommendation))))"

section \<open>One container\<close>

definition process_list ::
    "Container \<Rightarrow> LimitRangeItem option \<Rightarrow> ContainerResourcePolicy option \<Rightarrow> ContainerControlledValues \<Rightarrow>
     ResourceList \<Rightarrow> (ResourceList \<times> string list) result" where
  "process_list container limitRange containerPolicy controlledValues recommendation =
     rbind (applyContainerLimitRange recommendation container limitRange) (\<lambda>(r1, limitAnnotations).
       let (r2, annotations) = applyVPAPolicy r1 containerPolicy
       in if controlledValues = ContainerControlledValuesRequestsOnly
          then let (r3, capAnnotations) = capRecommendationToContainerLimit r2 container
               in Inr (r3, limitAnnotations @ annotations @ capAnnotations)
          else Inr (r2, limitAnnotations @ annotations))"

definition getCappedRecommendationForContainer ::
    "Container \<Rightarrow> RecommendedContainerResources option \<Rightarrow> PodResourcePolicy option \<Rightarrow> LimitRangeItem option \<Rightarrow>
     (RecommendedContainerResources \<times> string list) result" where
  "getCappedRecommendationForContainer container containerRecommendation policy limitRange =
     (case containerRecommendation of
        None \<Rightarrow> Inl (Err ''no recommendation available for container'')
      | Some rec \<Rightarrow>
          let containerPolicy = GetContainerResourcePolicy (c_Name container) policy;
              controlledValues = GetContainerControlledValues (c_Name container) policy;
              process = process_list container limitRange containerPolicy controlledValues
          in rbind (process (Target rec)) (\<lambda>(target, annotations).
             rbind (process (LowerBound rec)) (\<lambda>(lower, _).
             rbind (process (UpperBound rec)) (\<lambda>(upper, _).
               Inr (rec\<lparr>Target := target, LowerBound := lower, UpperBound := upper\<rparr>, annotations)))))"

definition applyVPAPolicyForContainer ::
    "string \<Rightarrow> RecommendedContainerResources option \<Rightarrow> PodResourcePolicy option \<Rightarrow>
     RecommendedContainerResources result" where
  "applyVPAPolicyForContainer containerName containerRecommendation policy =
     (case containerRecommendation of
        None \<Rightarrow> Inl (Err ''no recommendation available for container'')
      | Some rec \<Rightarrow> (case GetContainerResourcePolicy containerName policy of
            None \<Rightarrow> Inr rec
          | Some p \<Rightarrow>
              let process = (\<lambda>rl. fst (cap_entries (\<lambda>q r. maybeCapToPolicyMin q r p)
                                         (\<lambda>q r. maybeCapToPolicyMax q r p) [] [] rl))
              in Inr (rec\<lparr>Target := process (Target rec), LowerBound := process (LowerBound rec),
                         UpperBound := process (UpperBound rec)\<rparr>)))"

fun apply_policy_all ::
    "PodResourcePolicy option \<Rightarrow> RecommendedPodResources \<Rightarrow> RecommendedPodResources result" where
  "apply_policy_all policy [] = Inr []"
| "apply_policy_all policy (rec # recs) =
     (case applyVPAPolicyForContainer (rcr_ContainerName rec) (Some rec) policy of
        Inl e \<Rightarrow> Inl (Err ''cannot apply policy on recommendation for container'')
      | Inr rec' \<Rightarrow> rbind (apply_policy_all policy recs) (\<lambda>recs'. Inr (rec' # recs')))"

definition ApplyVPAPolicy ::
    "RecommendedPodResources option \<Rightarrow> PodResourcePolicy option \<Rightarrow> RecommendedPodResources option result" where
  "ApplyVPAPolicy podRecommendation policy =
     (case podRecommendation of
        None \<Rightarrow> Inr None
      | Some recs \<Rightarrow> (case policy of
            None \<Rightarrow> Inr podRecommendation
          | Some _ \<Rightarrow> rbind (apply_policy_all policy recs) (\<lambda>recs'. Inr (Some recs'))))"

definition GetRecommendationForContainer ::
    "string \<Rightarrow> RecommendedPodResources option \<Rightarrow> RecommendedContainerResources option" where
  "GetRecommendationForContainer containerName recommendation =
     (case recommendation of
        None \<Rightarrow> None
      | Some recs \<Rightarrow> find (\<lambda>rec. rcr_ContainerName rec = containerName) recs)"

definition getContainer :: "string \<Rightarrow> Pod \<Rightarrow> Container option" where
  "getContainer containerName pod = find (\<lambda>c. c_Name c = containerName) (pod_Containers pod)"

section \<open>Limit ranges of pods\<close>

datatype Field = TargetField | LowerBoundField | UpperBoundField

fun get_field :: "Field \<Rightarrow> RecommendedContainerResources \<Rightarrow> ResourceList" where
  "get_field TargetField rec = Target rec"
| "get_field LowerBoundField rec = LowerBound rec"
| "get_field UpperBoundField rec = UpperBound rec"

fun set_field :: "Field \<Rightarrow> ResourceList \<Rightarrow> RecommendedContainerResources \<Rightarrow> RecommendedContainerResources" where
  "set_field TargetField rl rec = rec\<lparr>Target := rl\<rparr>"
| "set_field LowerBoundField rl rec = rec\<lparr>LowerBound := rl\<rparr>"
| "set_field UpperBoundField rl rec = rec\<lparr>UpperBound := rl\<rparr>"

text \<open>The sums of the proportional limits and of the recommendations over the pod's containers.\<close>

fun pod_sums ::
    "ResourceName \<Rightarrow> Field \<Rightarrow> Quantity \<Rightarrow> (Container \<times> RecommendedContainerResources) list \<Rightarrow>
     (Quantity \<times> Quantity) result" where
  "pod_sums resourceName field defaultLimit [] = Inr (0, 0)"
| "pod_sums resourceName field defaultLimit ((container, rec) # rest) =
     (let limit = rl_get (list_of (Limits (c_Resources container))) resourceName;
          request = rl_get (list_of (Requests (c_Resources container))) resourceName;
          recommendation = rl_get (get_field field rec) resourceName
      in rbind (getProportionalResourceLimit resourceName (Some limit) (Some request) recommendation
                  (Some defaultLimit)) (\<lambda>(containerLimit, _).
         rbind (pod_sums resourceName field defaultLimit rest) (\<lambda>(sumLimit, sumRecommendation).
           Inr ((case containerLimit of None \<Rightarrow> 0 | Some l \<Rightarrow> l) + sumLimit,
                recommendation + sumRecommendation))))"

text \<open>\<open>for i := range pod.Spec.Containers\<close>: rescale the entry of the \<open>i\<close>-th recommendation.\<close>

fun rescale_all ::
    "ResourceName \<Rightarrow> Field \<Rightarrow> (Quantity \<Rightarrow> Quantity result) \<Rightarrow> nat list \<Rightarrow>
     RecommendedContainerResources list \<Rightarrow> RecommendedContainerResources list result" where
  "rescale_all resourceName field scale [] resources = Inr resources"
| "rescale_all resourceName field scale (i # is) resources =
     (if length resources \<le> i then Inl (Panic ''index out of range'')
      else rbind (scale (rl_get (get_field field (resources ! i)) resourceName)) (\<lambda>q.
        rescale_all resourceName field scale is
          (resources[i := set_field field (AList.update resourceName q (get_field field (resources ! i)))
                            (resources ! i)])))"

definition applyPodLimitRange ::
    "RecommendedContainerResources list \<Rightarrow> Pod \<Rightarrow> LimitRangeItem \<Rightarrow> ResourceName \<Rightarrow> Field \<Rightarrow>
     RecommendedContainerResources list result" where
  "applyPodLimitRange resources pod limitRange resourceName field =
     (let minLimit = rl_get (list_of (lri_Min limitRange)) resourceName;
          maxLimit = rl_get (list_of (lri_Max limitRange)) resourceName;
          defaultLimit = rl_get (list_of (lri_Default limitRange)) resourceName;
          containers = pod_Containers pod
      in rbind (pod_sums resourceName field defaultLimit (zip containers resources)) (\<lambda>(sumLimit, sumRecommendation).
        if q_Cmp minLimit sumLimit \<le> 0 \<and> q_Cmp minLimit sumRecommendation \<le> 0 \<and>
           (q_IsZero maxLimit \<or> q_Cmp maxLimit sumLimit \<ge> 0)
        then Inr resources
        else if q_Cmp minLimit sumRecommendation > 0 \<and> \<not> q_IsZero sumLimit
        then rescale_all resourceName field
               (\<lambda>request. rbind (scaleQuantityProportionally request sumRecommendation minLimit
                                   (if resourceName = ResourceMemory then roundUpToFullUnit else noRounding))
                            (\<lambda>(q, _). Inr q))
               [0 ..< length containers] resources
        else if q_IsZero sumLimit then Inr resources
        else let target0 = (if q_Cmp minLimit sumLimit > 0 then minLimit else 0);
                 targetTotalLimit =
                   (if \<not> q_IsZero maxLimit \<and> q_Cmp maxLimit sumLimit < 0 then maxLimit else target0)
             in rescale_all resourceName field
                  (\<lambda>limit. rbind (scaleQuantityProportionally limit sumLimit targetTotalLimit
                                    (if resourceName = ResourceMemory then roundDownToFullUnit else noRounding))
                             (\<lambda>(q, _). Inr q))
                  [0 ..< length containers] resources))"

definition capProportionallyToPodLimitRange ::
    "LimitRangeCalculator \<Rightarrow> RecommendedContainerResources list \<Rightarrow> Pod \<Rightarrow>
     RecommendedContainerResources list result" where
  "capProportionallyToPodLimitRange calculator containerRecommendations pod =
     (case GetPodLimitRangeItem calculator (pod_Namespace pod) of
        Inl e \<Rightarrow> Inl (Err ''error obtaining limit range'')
      | Inr None \<Rightarrow> Inr containerRecommendations
      | Inr (Some lr) \<Rightarrow>
          rbind (applyPodLimitRange containerRecommendations pod lr ResourceCPU UpperBoundField) (\<lambda>r.
          rbind (applyPodLimitRange r pod lr ResourceMemory UpperBoundField) (\<lambda>r.
          rbind (applyPodLimitRange r pod lr ResourceCPU TargetField) (\<lambda>r.
          rbind (applyPodLimitRange r pod lr ResourceMemory TargetField) (\<lambda>r.
          rbind (applyPodLimitRange r pod lr ResourceCPU LowerBoundField) (\<lambda>r.
            applyPodLimitRange r pod lr ResourceMemory LowerBoundField))))))"

section \<open>The processors\<close>

type_synonym ContainerToAnnotationsMap = "(string, string list) gomap"

type_synonym RecommendationProcessor =
  "RecommendedPodResources option \<Rightarrow> PodResourcePolicy option \<Rightarrow> VerticalPodAutoscalerCondition list \<Rightarrow> Pod \<Rightarrow>
   (RecommendedPodResources option \<times> ContainerToAnnotationsMap) result"

fun cap_containers ::
    "LimitRangeCalculator \<Rightarrow> PodResourcePolicy option \<Rightarrow> Pod \<Rightarrow> RecommendedContainerResources list \<Rightarrow>
     ContainerToAnnotationsMap \<Rightarrow> (RecommendedPodResources \<times> ContainerToAnnotationsMap) result" where
  "cap_containers calculator policy pod [] annotationsMap = Inr ([], annotationsMap)"
| "cap_containers calculator policy pod (rec # recs) annotationsMap =
     (case getContainer (rcr_ContainerName rec) pod of
        None \<Rightarrow> cap_containers calculator policy pod recs annotationsMap
      | Some container \<Rightarrow>
          let containerLimitRange = (case GetContainerLimitRangeItem calculator (pod_Namespace pod) of
                                       Inl e \<Rightarrow> None | Inr item \<Rightarrow> item)
          in rbind (getCappedRecommendationForContainer container (Some rec) policy containerLimitRange)
               (\<lambda>(updated, annotations).
                  rbind (cap_containers calculator policy pod recs
                           (if annotations \<noteq> [] then AList.update (rcr_ContainerName rec) annotations annotationsMap
                            else annotationsMap))
                    (\<lambda>(recs', m). Inr (updated # recs', m))))"

definition capping_Apply :: "LimitRangeCalculator \<Rightarrow> RecommendationProcessor" where
  "capping_Apply calculator podRecommendation policy conditions pod =
     (if podRecommendation = None \<and> policy = None then Inr (None, [])
      else let recs = list_of podRecommendation
           in rbind (capProportionallyToPodLimitRange calculator recs pod) (\<lambda>adjusted.
              rbind (cap_containers calculator policy pod adjusted []) (\<lambda>(recs', m). Inr (Some recs', m))))"

definition merge_annotations ::
    "ContainerToAnnotationsMap \<Rightarrow> ContainerToAnnotationsMap \<Rightarrow> ContainerToAnnotationsMap" where
  "merge_annotations new acc =
     fold (\<lambda>(container, newAnnotations) m.
        case map_of m container of
          Some annotations \<Rightarrow> AList.update container (annotations @ newAnnotations) m
        | None \<Rightarrow> AList.update container newAnnotations m) new acc"

fun sequential_loop ::
    "RecommendationProcessor list \<Rightarrow> RecommendedPodResources option \<Rightarrow> PodResourcePolicy option \<Rightarrow>
     VerticalPodAutoscalerCondition list \<Rightarrow> Pod \<Rightarrow> ContainerToAnnotationsMap \<Rightarrow>
     (RecommendedPodResources option \<times> ContainerToAnnotationsMap) result" where
  "sequential_loop [] recommendation policy conditions pod acc = Inr (recommendation, acc)"
| "sequential_loop (p # ps) recommendation policy conditions pod acc =
     rbind (p recommendation policy conditions pod) (\<lambda>(recommendation', m).
       sequential_loop ps recommendation' policy conditions pod (merge_annotations m acc))"

definition sequential_Apply :: "RecommendationProcessor list \<Rightarrow> RecommendationProcessor" where
  "sequential_Apply processors podRecommendation policy conditions pod =
     sequential_loop processors podRecommendation policy conditions pod []"

section \<open>What capping guarantees\<close>

lemma maybeCapToMax_le:
  "fst (maybeCapToMax q r maxs) \<le> q"
  "map_of maxs r = Some m \<Longrightarrow> m \<noteq> 0 \<Longrightarrow> fst (maybeCapToMax q r maxs) \<le> m"
  "fst (maybeCapToMax q r maxs) = q \<or> (\<exists>m. map_of maxs r = Some m \<and> m \<noteq> 0 \<and> fst (maybeCapToMax q r maxs) = m)"
  by (auto simp: maybeCapToMax_def q_Cmp_def q_IsZero_def split: option.splits)

lemma maybeCapToMin_ge:
  "map_of mins r = Some m \<Longrightarrow> m \<noteq> 0 \<Longrightarrow> m \<le> fst (maybeCapToMin q r mins)"
  by (auto simp: maybeCapToMin_def q_Cmp_def q_IsZero_def split: option.splits)

lemma map_of_cap_entries:
  "map_of (fst (cap_entries capMin capMax a b rl)) r =
     map_option (\<lambda>q. fst (capMax (fst (capMin q r)) r)) (map_of rl r)"
  by (induction rl) (auto simp: Let_def split: prod.splits)

lemma GetBoundaryRequest_Inr: "\<exists>q. GetBoundaryRequest req limit b dflt = Inr q"
proof -
  have "\<exists>r. scaleQuantityProportionally x l y m = Inr r" if "q_Value l \<noteq> 0" for x l y m
    using that by (auto simp: scaleQuantityProportionally_def big_Div_def q_MilliValue_def div_away_eq_0_iff Let_def)
  then show ?thesis
    by (auto simp: GetBoundaryRequest_def split: option.splits)
qed

lemma getBoundaryRecommendation_Inr: "\<exists>rl. getBoundaryRecommendation rec c b d = Inr rl"
proof (cases b)
  case (Some bl)
  let ?rq = "list_of (Requests (c_Resources c))" and ?lm = "list_of (Limits (c_Resources c))"
  obtain x where x: "GetBoundaryRequest (Some (rl_get ?rq ResourceCPU)) (Some (rl_get ?lm ResourceCPU))
      (rl_get bl ResourceCPU) (Some (rl_get (list_of d) ResourceCPU)) = Inr x"
    using GetBoundaryRequest_Inr by blast
  obtain y where y: "GetBoundaryRequest (Some (rl_get ?rq ResourceMemory)) (Some (rl_get ?lm ResourceMemory))
      (rl_get bl ResourceMemory) (Some (rl_get (list_of d) ResourceMemory)) = Inr y"
    using GetBoundaryRequest_Inr by blast
  show ?thesis using Some x y by (simp add: getBoundaryRecommendation_def Let_def)
qed (simp add: getBoundaryRecommendation_def)

lemma applyContainerLimitRange_Inr: "\<exists>r. applyContainerLimitRange rl c lr = Inr r"
proof (cases lr)
  case (Some item)
  obtain mx where mx: "getMaxAllowedRecommendation rl c lr = Inr mx"
    using getBoundaryRecommendation_Inr [of rl c "lri_Max item"] Some by (auto simp: getMaxAllowedRecommendation_def)
  obtain b where b: "getBoundaryRecommendation rl c (lri_Min item) (lri_Default item) = Inr b"
    using getBoundaryRecommendation_Inr by blast
  obtain mn where "getMinAllowedRecommendation rl c lr = Inr mn"
    using Some b by (cases "lri_Min item") (auto simp: getMinAllowedRecommendation_def Let_def)
  then show ?thesis using Some mx by (simp add: applyContainerLimitRange_def)
qed (simp add: applyContainerLimitRange_def)

text \<open>Capping to the limits of the container only lowers values, to at most the limit, and never below one.\<close>

lemma fold_cap_to_limit:
  assumes "map_of (fst (fold cap_to_limit ls st)) r = Some q"
  shows "\<exists>q0. map_of (fst st) r = Some q0 \<and> q \<le> q0 \<and> (q = q0 \<or> (r, q) \<in> set ls) \<and>
    (\<forall>l. (r, l) \<in> set ls \<longrightarrow> q_MilliValue q \<le> q_MilliValue l)"
  using assms
proof (induction ls arbitrary: st)
  case (Cons e ls)
  obtain n l where e: "e = (n, l)" by (cases e)
  obtain rl as where st: "st = (rl, as)" by (cases st)
  obtain q1 where q1: "map_of (fst (cap_to_limit e st)) r = Some q1" "q \<le> q1" "q = q1 \<or> (r, q) \<in> set ls"
    "\<forall>l. (r, l) \<in> set ls \<longrightarrow> q_MilliValue q \<le> q_MilliValue l"
    using Cons.IH [of "cap_to_limit e st"] Cons.prems by auto
  have lt: "q_MilliValue a < q_MilliValue b \<Longrightarrow> a \<le> b" for a b
    using q_MilliValue_mono [of b a] by linarith
  have step: "\<exists>q0. map_of rl r = Some q0 \<and> q1 \<le> q0 \<and> (q1 = q0 \<or> n = r \<and> q1 = l) \<and> (n = r \<longrightarrow> q_MilliValue q1 \<le> q_MilliValue l)"
    using q1(1) lt by (auto simp: cap_to_limit_def e st split: option.splits if_splits)
  then show ?case using q1(2-4) q_MilliValue_mono [OF q1(2)] by (auto simp: e st)
qed simp

lemma process_list_spec:
  obtains r1 where "process_list c lr p cv rl =
    Inr (let r2 = fst (applyVPAPolicy r1 p)
         in if cv = ContainerControlledValuesRequestsOnly
            then fst (capRecommendationToContainerLimit r2 c) else r2, snd (projr (process_list c lr p cv rl)))"
proof -
  obtain r1 a1 where r1: "applyContainerLimitRange rl c lr = Inr (r1, a1)"
    using applyContainerLimitRange_Inr by fastforce
  show ?thesis
    by (rule that [of r1]) (simp add: process_list_def r1 Let_def split: prod.split)
qed

text \<open>
  What a value obeys: the maximum of the policy; its minimum, as far as that is within the maximum and the
  value is not the limit of the container, to which it is lowered when only requests are controlled; in that
  case also the limit.
\<close>

definition obeys_policy :: "Container \<Rightarrow> PodResourcePolicy option \<Rightarrow> ResourceList \<Rightarrow> bool" where
  "obeys_policy container policy rl \<longleftrightarrow>
     (let limits = list_of (Limits (c_Resources container));
          requestsOnly = (GetContainerControlledValues (c_Name container) policy = ContainerControlledValuesRequestsOnly)
      in (\<forall>r q p. map_of rl r = Some q \<and> GetContainerResourcePolicy (c_Name container) policy = Some p \<longrightarrow>
            (\<forall>M. map_of (MaxAllowed p) r = Some M \<and> M \<noteq> 0 \<longrightarrow> q \<le> M) \<and>
            (\<forall>m. map_of (MinAllowed p) r = Some m \<and> m \<noteq> 0 \<and> (\<forall>M. map_of (MaxAllowed p) r = Some M \<and> M \<noteq> 0 \<longrightarrow> m \<le> M) \<longrightarrow>
               m \<le> q \<or> requestsOnly \<and> (r, q) \<in> set limits)) \<and>
         (\<forall>r q l. map_of rl r = Some q \<and> (r, l) \<in> set limits \<and> requestsOnly \<longrightarrow> q_MilliValue q \<le> q_MilliValue l))"

definition rec_obeys_policy :: "Container \<Rightarrow> PodResourcePolicy option \<Rightarrow> RecommendedContainerResources \<Rightarrow> bool" where
  "rec_obeys_policy container policy rec \<longleftrightarrow>
     obeys_policy container policy (Target rec) \<and> obeys_policy container policy (LowerBound rec) \<and> obeys_policy container policy (UpperBound rec)"

lemma applyVPAPolicy_bounds:
  assumes "map_of (fst (applyVPAPolicy rl (Some p))) r = Some q"
  shows "map_of (MaxAllowed p) r = Some M \<Longrightarrow> M \<noteq> 0 \<Longrightarrow> q \<le> M"
    and "map_of (MinAllowed p) r = Some m \<Longrightarrow> m \<noteq> 0 \<Longrightarrow>
      (\<And>M. map_of (MaxAllowed p) r = Some M \<Longrightarrow> M \<noteq> 0 \<Longrightarrow> m \<le> M) \<Longrightarrow> m \<le> q"
proof -
  obtain q0 where q: "q = fst (maybeCapToMax (fst (maybeCapToMin q0 r (MinAllowed p))) r (MaxAllowed p))"
    using assms by (auto simp: applyVPAPolicy_def map_of_cap_entries maybeCapToPolicyMin_def maybeCapToPolicyMax_def)
  show "map_of (MaxAllowed p) r = Some M \<Longrightarrow> M \<noteq> 0 \<Longrightarrow> q \<le> M"
    unfolding q by (rule maybeCapToMax_le(2))
  show "m \<le> q" if "map_of (MinAllowed p) r = Some m" "m \<noteq> 0"
    "\<And>M. map_of (MaxAllowed p) r = Some M \<Longrightarrow> M \<noteq> 0 \<Longrightarrow> m \<le> M"
    using maybeCapToMin_ge [OF that(1,2), of q0] that(3)
      maybeCapToMax_le(3) [of "fst (maybeCapToMin q0 r (MinAllowed p))" r "MaxAllowed p"] unfolding q by auto
qed

lemma process_list_obeys:
  "\<exists>rl' as. process_list c lr (GetContainerResourcePolicy (c_Name c) policy)
     (GetContainerControlledValues (c_Name c) policy) rl = Inr (rl', as) \<and> obeys_policy c policy rl'"
proof -
  let ?p = "GetContainerResourcePolicy (c_Name c) policy" and ?cv = "GetContainerControlledValues (c_Name c) policy"
  obtain r1 where r1: "process_list c lr ?p ?cv rl = Inr (let r2 = fst (applyVPAPolicy r1 ?p)
      in if ?cv = ContainerControlledValuesRequestsOnly then fst (capRecommendationToContainerLimit r2 c) else r2,
      snd (projr (process_list c lr ?p ?cv rl)))"
    by (rule process_list_spec)
  let ?r2 = "fst (applyVPAPolicy r1 ?p)"
  define rl' where "rl' = (if ?cv = ContainerControlledValuesRequestsOnly
    then fst (capRecommendationToContainerLimit ?r2 c) else ?r2)"
  let ?limits = "list_of (Limits (c_Resources c))"
  have low: "\<exists>q0. map_of ?r2 r = Some q0 \<and> q \<le> q0 \<and> (q = q0 \<or> ?cv = ContainerControlledValuesRequestsOnly \<and> (r, q) \<in> set ?limits) \<and>
      (\<forall>l. (r, l) \<in> set (list_of (Limits (c_Resources c))) \<and> ?cv = ContainerControlledValuesRequestsOnly \<longrightarrow>
         q_MilliValue q \<le> q_MilliValue l)" if "map_of rl' r = Some q" for r q
    using that fold_cap_to_limit [of "list_of (Limits (c_Resources c))" "(?r2, [])" r q]
    by (auto simp: rl'_def capRecommendationToContainerLimit_def split: if_splits)
  have "obeys_policy c policy rl'"
    unfolding obeys_policy_def Let_def
  proof (intro conjI allI impI, goal_cases)
    case (1 r q p M)
    then obtain q0 where "map_of ?r2 r = Some q0" "q \<le> q0" using low by blast
    then show ?case using 1 applyVPAPolicy_bounds(1) [of r1 p r q0 M] by auto
  next
    case (2 r q p m)
    then obtain q0 where q0: "map_of ?r2 r = Some q0" "q = q0 \<or> ?cv = ContainerControlledValuesRequestsOnly \<and> (r, q) \<in> set ?limits"
      using low by blast
    then have "m \<le> q0" using 2 applyVPAPolicy_bounds(2) [of r1 p r q0 m] by auto
    then show ?case using q0(2) by blast
  next
    case (3 r q l)
    then show ?case using low by blast
  qed
  then show ?thesis using r1 by (auto simp: rl'_def Let_def)
qed

lemma capped_container:
  "\<exists>rec' annotations. getCappedRecommendationForContainer container (Some rec) policy limitRange = Inr (rec', annotations) \<and>
     rcr_ContainerName rec' = rcr_ContainerName rec \<and> rec_obeys_policy container policy rec'"
proof -
  let ?p = "process_list container limitRange (GetContainerResourcePolicy (c_Name container) policy)
    (GetContainerControlledValues (c_Name container) policy)"
  obtain t a where t: "?p (Target rec) = Inr (t, a)" "obeys_policy container policy t" using process_list_obeys by blast
  obtain l b where l: "?p (LowerBound rec) = Inr (l, b)" "obeys_policy container policy l" using process_list_obeys by blast
  obtain u c where u: "?p (UpperBound rec) = Inr (u, c)" "obeys_policy container policy u" using process_list_obeys by blast
  show ?thesis using t l u by (simp add: getCappedRecommendationForContainer_def rec_obeys_policy_def)
qed

lemma cap_containers_obey:
  "\<exists>recs' m'. cap_containers calculator policy pod recs m = Inr (recs', m') \<and>
     map rcr_ContainerName recs' = filter (\<lambda>n. getContainer n pod \<noteq> None) (map rcr_ContainerName recs) \<and>
     list_all (\<lambda>rec. \<exists>container. getContainer (rcr_ContainerName rec) pod = Some container \<and> rec_obeys_policy container policy rec) recs'"
proof (induction recs arbitrary: m)
  case (Cons rec recs)
  show ?case
  proof (cases "getContainer (rcr_ContainerName rec) pod")
    case None
    then show ?thesis using Cons.IH by simp
  next
    case (Some container)
    define lr where "lr = (case GetContainerLimitRangeItem calculator (pod_Namespace pod) of Inl e \<Rightarrow> None | Inr item \<Rightarrow> item)"
    obtain rec' as where rec': "getCappedRecommendationForContainer container (Some rec) policy lr = Inr (rec', as)"
        "rcr_ContainerName rec' = rcr_ContainerName rec" "rec_obeys_policy container policy rec'"
      using capped_container by blast
    obtain recs' m' where "cap_containers calculator policy pod recs (if as \<noteq> [] then AList.update (rcr_ContainerName rec) as m else m) = Inr (recs', m')"
        "map rcr_ContainerName recs' = filter (\<lambda>n. getContainer n pod \<noteq> None) (map rcr_ContainerName recs)"
        "list_all (\<lambda>rec. \<exists>container. getContainer (rcr_ContainerName rec) pod = Some container \<and> rec_obeys_policy container policy rec) recs'"
      using Cons.IH by blast
    then show ?thesis using Some rec' by (simp add: lr_def [symmetric])
  qed
qed simp

text \<open>
  C22. Capping the recommendation of a pod fails only when the limit range of pods cannot be applied to it,
  and gives nothing only when there is neither a recommendation nor a policy. Otherwise it gives, of the
  recommendations after that limit range, those for containers of the pod, in their order; and in each the target
  and both bounds obey the policy of the VPA: no value exceeds a maximum the policy sets; none is below a
  minimum that does not itself exceed the maximum, except for a value that equals the limit of the container
  when only requests are controlled; and when only requests are controlled no value exceeds a limit. This
  holds whatever the limit ranges of the namespace ask for.
\<close>

theorem capped_obeys_policy:
  "case capping_Apply calculator podRecommendation policy conditions pod of
     Inl e \<Rightarrow> capProportionallyToPodLimitRange calculator (list_of podRecommendation) pod = Inl e
   | Inr (None, _) \<Rightarrow> podRecommendation = None \<and> policy = None
   | Inr (Some recs, _) \<Rightarrow>
       (\<exists>adjusted. capProportionallyToPodLimitRange calculator (list_of podRecommendation) pod = Inr adjusted \<and>
          map rcr_ContainerName recs = filter (\<lambda>n. getContainer n pod \<noteq> None) (map rcr_ContainerName adjusted)) \<and>
       list_all (\<lambda>rec. \<exists>container. getContainer (rcr_ContainerName rec) pod = Some container \<and> rec_obeys_policy container policy rec) recs"
proof (cases "capProportionallyToPodLimitRange calculator (list_of podRecommendation) pod")
  case (Inr adjusted)
  obtain recs m where "cap_containers calculator policy pod adjusted [] = Inr (recs, m)"
      "map rcr_ContainerName recs = filter (\<lambda>n. getContainer n pod \<noteq> None) (map rcr_ContainerName adjusted)"
      "list_all (\<lambda>rec. \<exists>container. getContainer (rcr_ContainerName rec) pod = Some container \<and> rec_obeys_policy container policy rec) recs"
    using cap_containers_obey by blast
  then show ?thesis using Inr by (simp add: capping_Apply_def Let_def)
qed (simp add: capping_Apply_def Let_def)

section \<open>The limit range of a pod\<close>

definition limited_container :: "string \<Rightarrow> Container" where
  "limited_container n =
     \<lparr>c_Name = n, c_Resources = \<lparr>Limits = Some [(ResourceMemory, 2 * 10 ^ 9), (ResourceCPU, 2 * 10 ^ 9)],
                                Requests = Some [(ResourceMemory, 10 ^ 9), (ResourceCPU, 10 ^ 9)]\<rparr>\<rparr>"

definition two_container_pod :: Pod where
  "two_container_pod = example_pod\<lparr>pod_Containers := [limited_container ''a'', limited_container ''b'']\<rparr>"

definition cpu_only :: "string \<Rightarrow> ResourceList \<Rightarrow> RecommendedContainerResources" where
  "cpu_only n rl = \<lparr>rcr_ContainerName = n, Target = rl, LowerBound = rl, UpperBound = rl, UncappedTarget = rl\<rparr>"

lemmas pod_limit_eval =
  applyPodLimitRange_def getProportionalResourceLimit_def effective_limit_def scaleQuantityProportionally_def
  big_Div_def two_container_pod_def limited_container_def cpu_only_def example_pod_def rl_get_def lookup_default_def
  q_MilliValue_def q_Value_def div_away_def q_Cmp_def q_IsZero_def q_RoundUp0_def in_int64_def int64_min_def
  int64_max_def NewMilliQuantity_def Let_def upt_rec

text \<open>
  \<open>applyPodLimitRange\<close> skips the containers of the pod that have no recommendation when it
  adds up the limits, but not when it rescales: with fewer recommendations than containers and a
  total limit above the maximum it reads past the end and panics.
\<close>

theorem pod_limit_range_panics:
  "applyPodLimitRange [cpu_only ''a'' [(ResourceCPU, 4 * 10 ^ 9)]] two_container_pod
     \<lparr>lri_Type = LimitTypePod, lri_Max = Some [(ResourceCPU, 10 ^ 9)], lri_Min = None, lri_Default = None\<rparr>
     ResourceCPU TargetField = Inl (Panic ''index out of range'')"
  by (simp add: pod_limit_eval)

text \<open>
  Rescaling memory rounds down by subtracting 999 milli units and rounding to a full unit,
  away from zero, which makes -1 of 0. A container without a memory recommendation, in a pod whose
  memory limits exceed the maximum of the limit range, is given a memory request of -1 byte.
\<close>

theorem pod_limit_range_negative_memory:
  "\<exists>recs. applyPodLimitRange
     [cpu_only ''a'' [(ResourceMemory, 4 * 10 ^ 9)], cpu_only ''b'' [(ResourceCPU, 10 ^ 9)]] two_container_pod
     \<lparr>lri_Type = LimitTypePod, lri_Max = Some [(ResourceMemory, 10 ^ 9)], lri_Min = None, lri_Default = None\<rparr>
     ResourceMemory TargetField = Inr recs \<and>
     map_of (Target (recs ! 1)) ResourceMemory = Some (- 1 * 10 ^ 9)"
  by (simp add: pod_limit_eval)

end
