(* ===== verification/Recommender.thy ===== *)
theory Recommender
  imports Feeder_Correct Checkpoint_Writer Capping
begin

text \<open>
  \<open>pkg/recommender/routines\<close>: the main loop of the recommender (\<open>recommender.go\<close>, \<open>vpa.go\<close>) and
  \<open>UpdateVpaStatusIfNeeded\<close> of \<open>pkg/utils/vpa/api.go\<close>. One iteration loads VPAs, pods, samples and OOM
  events into the cluster state, computes the recommendation of every VPA and publishes it,
  stores checkpoints and collects garbage. What the iteration reads from the API servers and the
  clock is the record \<open>run_inputs\<close>; what it sends is returned.
\<close>

section \<open>Recommendations of one VPA\<close>

definition autoscalingDisabled :: "ContainerResourcePolicy option \<Rightarrow> bool" where
  "autoscalingDisabled policy =
     (case policy of None \<Rightarrow> False | Some p \<Rightarrow> Mode p = Some ContainerScalingModeOff)"

definition GetContainerNameToAggregateStateMap ::
    "AggregationsConfig \<Rightarrow> time \<Rightarrow> Vpa \<Rightarrow> store \<Rightarrow> (ContainerNameToAggregateStateMap \<times> Vpa \<times> store) result" where
  "GetContainerNameToAggregateStateMap config now vpa st =
     rbind (vpa_AggregateStateByContainerName config now vpa st) (\<lambda>(m, vpa', st').
       let policy = (\<lambda>containerName. GetContainerResourcePolicy containerName (vpa_ResourcePolicy vpa'))
       in Inr (map (\<lambda>(containerName, a). (containerName, UpdateFromPolicy a (policy containerName)))
                 (filter (\<lambda>(containerName, a). \<not> autoscalingDisabled (policy containerName) \<and> 0 < TotalSamplesCount a) m),
               vpa', st'))"

definition raw_recommendation :: "(string, ContainerEstimate) gomap \<Rightarrow> RecommendedPodResources" where
  "raw_recommendation resources =
     map (\<lambda>(containerName, res).
       \<lparr>rcr_ContainerName = containerName, Target = ResourcesAsResourceList (est_Target res),
        LowerBound = ResourcesAsResourceList (est_LowerBound res),
        UpperBound = ResourcesAsResourceList (est_UpperBound res),
        UncappedTarget = ResourcesAsResourceList (est_Target res)\<rparr>) resources"

definition getCappedRecommendation ::
    "(string, ContainerEstimate) gomap \<Rightarrow> PodResourcePolicy option \<Rightarrow> RecommendedPodResources result" where
  "getCappedRecommendation resources policy =
     (case ApplyVPAPolicy (Some (raw_recommendation resources)) policy of
        Inl (Panic e) \<Rightarrow> Inl (Panic e)
      | Inl _ \<Rightarrow> Inr (raw_recommendation resources)
      | Inr None \<Rightarrow> Inl (Panic ''nil pointer dereference'')
      | Inr (Some capped) \<Rightarrow> Inr capped)"

section \<open>Publishing\<close>

text \<open>
  The status that is sent, if it differs from the one the API server has. The comparison
  \<open>Semantic.DeepEqual\<close> of the API machinery is an argument.
\<close>

type_synonym status_equality = "VerticalPodAutoscalerStatus \<Rightarrow> VerticalPodAutoscalerStatus \<Rightarrow> bool"

definition UpdateVpaStatusIfNeeded ::
    "status_equality \<Rightarrow> VpaID \<Rightarrow> VerticalPodAutoscalerStatus \<Rightarrow> VerticalPodAutoscalerStatus \<Rightarrow>
     (VpaID \<times> VerticalPodAutoscalerStatus) list" where
  "UpdateVpaStatusIfNeeded deepEqual vid newStatus oldStatus =
     (if \<not> deepEqual oldStatus newStatus then [(vid, newStatus)] else [])"

definition update_vpa ::
    "AggregationsConfig \<Rightarrow> recommender_flags \<Rightarrow> podResourceRecommender \<Rightarrow> status_equality \<Rightarrow> time \<Rightarrow> VerticalPodAutoscaler \<Rightarrow>
     ClusterState \<Rightarrow> (ClusterState \<times> (VpaID \<times> VerticalPodAutoscalerStatus) list) result" where
  "update_vpa config flags podResourceRecommender deepEqual now observedVpa cluster =
     (case map_of (Vpas cluster) (crd_id observedVpa) of
        None \<Rightarrow> Inr (cluster, [])
      | Some vpa \<Rightarrow>
          rbind (GetContainerNameToAggregateStateMap config now vpa (cs_store cluster)) (\<lambda>(m, vpa1, st1).
          rbind (GetRecommendedPodResources flags podResourceRecommender m) (\<lambda>resources.
          rbind (getCappedRecommendation resources (ResourcePolicy (vpa_Spec observedVpa))) (\<lambda>recommendation.
            let (vpa2, st2, _) = UpdateRecommendation vpa1 st1 recommendation;
                vpa3 = UpdateConditions now vpa2 (0 < PodCount vpa2);
                cluster1 = cluster\<lparr>Vpas := AList.update (crd_id observedVpa) vpa3 (Vpas cluster), cs_store := st2\<rparr>;
                cluster2 = snd (RecordRecommendation cluster1 vpa3 now)
            in Inr (cluster2, UpdateVpaStatusIfNeeded deepEqual (vpa_ID vpa3) (AsStatus vpa3) (vpa_Status observedVpa))))))"

fun update_vpas ::
    "AggregationsConfig \<Rightarrow> recommender_flags \<Rightarrow> podResourceRecommender \<Rightarrow> status_equality \<Rightarrow> time \<Rightarrow> VerticalPodAutoscaler list \<Rightarrow>
     ClusterState \<Rightarrow> (ClusterState \<times> (VpaID \<times> VerticalPodAutoscalerStatus) list) result" where
  "update_vpas config flags r deepEqual now [] cluster = Inr (cluster, [])"
| "update_vpas config flags r deepEqual now (observedVpa # rest) cluster =
     rbind (update_vpa config flags r deepEqual now observedVpa cluster) (\<lambda>(cluster1, published).
     rbind (update_vpas config flags r deepEqual now rest cluster1) (\<lambda>(cluster2, more).
       Inr (cluster2, published @ more)))"

definition UpdateVPAs ::
    "AggregationsConfig \<Rightarrow> recommender_flags \<Rightarrow> podResourceRecommender \<Rightarrow> status_equality \<Rightarrow> time \<Rightarrow> ClusterState \<Rightarrow>
     (ClusterState \<times> (VpaID \<times> VerticalPodAutoscalerStatus) list) result" where
  "UpdateVPAs config flags r deepEqual now cluster =
     update_vpas config flags r deepEqual now (ObservedVpas cluster) cluster"

section \<open>The main loop\<close>

definition AggregateContainerStateGCInterval :: duration where
  "AggregateContainerStateGCInterval = 1 * hour"

record recommender =
  clusterState :: ClusterState
  checkpointsGCInterval :: duration
  lastCheckpointGC :: time
  podResourceRecommender_of :: podResourceRecommender
  useCheckpoints :: bool
  lastAggregateContainerStateGC :: time

record run_inputs =
  ri_feeder :: feeder_inputs
  ri_vpas :: "VerticalPodAutoscaler list result"
  ri_pods :: "BasicPodSpec list result"
  ri_metrics :: "ContainerMetricsSnapshot list result"
  ri_ooms :: "OomInfo list"
  ri_now :: time
  ri_client :: checkpoint_client
  ri_ctxErr :: "nat \<Rightarrow> go_error option"
  ri_written :: time
  ri_vpas_gc :: "VerticalPodAutoscaler list result"
  ri_namespaces :: "string list result"
  ri_checkpoints :: "string \<Rightarrow> VerticalPodAutoscalerCheckpoint list result"
  ri_gcTime :: time

record run_outputs =
  ro_published :: "(VpaID \<times> VerticalPodAutoscalerStatus) list"
  ro_writes :: "checkpoint_write list"
  ro_deleted :: "(string \<times> string) list"

text \<open>\<open>ri_now\<close> is the time at the begin of the call, \<open>ri_written\<close> the time after the checkpoints are stored.\<close>

definition MaintainCheckpoints ::
    "AggregationsConfig \<Rightarrow> vpa_sorter \<Rightarrow> run_inputs \<Rightarrow> int \<Rightarrow> recommender \<Rightarrow>
     (recommender \<times> checkpoint_write list \<times> (string \<times> string) list) result" where
  "MaintainCheckpoints config sort_Slice inp minCheckpointsPerRun r =
     (if useCheckpoints r
      then rbind (StoreCheckpoints config sort_Slice (ri_client inp) (ri_ctxErr inp) (ri_now inp) minCheckpointsPerRun (clusterState r))
             (\<lambda>(_, ws, cluster1).
               if checkpointsGCInterval r < time_Sub (ri_written inp) (lastCheckpointGC r)
               then rbind (GarbageCollectCheckpoints (ri_feeder inp) (ri_vpas_gc inp) (ri_namespaces inp) (ri_checkpoints inp) cluster1)
                      (\<lambda>(deleted, cluster2).
                        Inr (r\<lparr>clusterState := cluster2, lastCheckpointGC := ri_now inp\<rparr>, ws, deleted))
               else Inr (r\<lparr>clusterState := cluster1\<rparr>, ws, []))
      else Inr (r, [], []))"

definition GarbageCollect :: "AggregationsConfig \<Rightarrow> time \<Rightarrow> recommender \<Rightarrow> recommender" where
  "GarbageCollect config gcTime r =
     (if AggregateContainerStateGCInterval < time_Sub gcTime (lastAggregateContainerStateGC r)
      then r\<lparr>clusterState := GarbageCollectAggregateCollectionStates config (clusterState r) gcTime,
             lastAggregateContainerStateGC := gcTime\<rparr>
      else r)"

definition recommender_RunOnce ::
    "AggregationsConfig \<Rightarrow> recommender_flags \<Rightarrow> status_equality \<Rightarrow> vpa_sorter \<Rightarrow> bool \<Rightarrow> int \<Rightarrow> run_inputs \<Rightarrow> recommender \<Rightarrow>
     (recommender \<times> run_outputs) result" where
  "recommender_RunOnce config flags deepEqual sort_Slice memorySaver minCheckpointsPerRun inp r =
     rbind (LoadVPAs (ri_feeder inp) (ri_vpas inp) (clusterState r)) (\<lambda>c1.
     rbind (LoadPods config (ri_now inp) memorySaver (ri_pods inp) c1) (\<lambda>c2.
     rbind (LoadRealTimeMetrics config (ri_now inp) memorySaver (ri_metrics inp) (ri_ooms inp) c2) (\<lambda>(c3, _).
     rbind (UpdateVPAs config flags (podResourceRecommender_of r) deepEqual (ri_now inp) c3) (\<lambda>(c4, published).
     rbind (MaintainCheckpoints config sort_Slice inp minCheckpointsPerRun (r\<lparr>clusterState := c4\<rparr>)) (\<lambda>(r5, ws, deleted).
       Inr (GarbageCollect config (ri_gcTime inp) r5,
            \<lparr>ro_published = published, ro_writes = ws, ro_deleted = deleted\<rparr>))))))"

definition recommender_Make ::
    "ClusterState \<Rightarrow> podResourceRecommender \<Rightarrow> duration \<Rightarrow> bool \<Rightarrow> time \<Rightarrow> recommender" where
  "recommender_Make cluster podResourceRecommender gcInterval checkpoints now =
     \<lparr>clusterState = cluster, checkpointsGCInterval = gcInterval, lastCheckpointGC = now,
      podResourceRecommender_of = podResourceRecommender, useCheckpoints = checkpoints, lastAggregateContainerStateGC = now\<rparr>"

end
