(* ===== verification/Recommender_Correct.thy ===== *)
theory Recommender_Correct
  imports Recommender
begin

text \<open>
  The main loop of the recommender never panics and keeps the invariant of the cluster state, and
  every recommendation it publishes is ordered and obeys the resource policy of its VPA.
\<close>

section \<open>Recommendations are ordered and obey the policy\<close>

definition recommendation_ok :: "PodResourcePolicy option \<Rightarrow> RecommendedContainerResources \<Rightarrow> bool" where
  "recommendation_ok policy rec \<longleftrightarrow>
     (\<forall>r. (map_of (LowerBound rec) r = None \<and> map_of (Target rec) r = None \<and> map_of (UpperBound rec) r = None) \<or>
        (\<exists>l t u. map_of (LowerBound rec) r = Some l \<and> map_of (Target rec) r = Some t \<and> map_of (UpperBound rec) r = Some u \<and>
           l \<le> t \<and> t \<le> u \<and>
           (\<forall>p. GetContainerResourcePolicy (rcr_ContainerName rec) policy = Some p \<longrightarrow>
              (\<forall>M. map_of (MaxAllowed p) r = Some M \<and> M \<noteq> 0 \<longrightarrow> u \<le> M) \<and>
              (\<forall>m. map_of (MinAllowed p) r = Some m \<and> m \<noteq> 0 \<and>
                 (\<forall>M. map_of (MaxAllowed p) r = Some M \<and> M \<noteq> 0 \<longrightarrow> m \<le> M) \<longrightarrow> m \<le> l))))"

definition triple_ordered :: "ResourceList \<Rightarrow> ResourceList \<Rightarrow> ResourceList \<Rightarrow> bool" where
  "triple_ordered lower target upper \<longleftrightarrow>
     (\<forall>r. (map_of lower r = None \<and> map_of target r = None \<and> map_of upper r = None) \<or>
        (\<exists>l t u. map_of lower r = Some l \<and> map_of target r = Some t \<and> map_of upper r = Some u \<and> l \<le> t \<and> t \<le> u))"

lemma map_of_ResourcesAsResourceList:
  assumes "gomap_ok rs"
  shows "map_of (ResourcesAsResourceList rs) r =
    (if r = ResourceCPU then map_option QuantityFromCPUAmount (map_of rs ResourceCPU)
     else if r = ResourceMemory then map_option QuantityFromMemoryAmount (map_of rs ResourceMemory) else None)"
proof -
  let ?f = "\<lambda>(key, amount) result.
        if key = ResourceCPU then AList.update ResourceCPU (QuantityFromCPUAmount amount) result
        else if key = ResourceMemory
        then AList.update ResourceMemory (QuantityFromMemoryAmount amount) result
        else result"
  have "map_of (fold ?f rs acc) r =
    (if r = ResourceCPU \<and> map_of rs ResourceCPU \<noteq> None then map_option QuantityFromCPUAmount (map_of rs ResourceCPU)
     else if r = ResourceMemory \<and> map_of rs ResourceMemory \<noteq> None then map_option QuantityFromMemoryAmount (map_of rs ResourceMemory)
     else map_of acc r)" for acc
    using assms
  proof (induction rs arbitrary: acc)
    case (Cons x rs)
    obtain k a where x: "x = (k, a)" by (cases x)
    have k: "map_of rs k = None" and rs: "gomap_ok rs" using Cons.prems x by (simp_all add: gomap_ok_def map_of_eq_None_iff)
    have ne: "ResourceCPU \<noteq> ResourceMemory" by (simp add: ResourceCPU_def ResourceMemory_def)
    consider "k = ResourceCPU" | "k = ResourceMemory" | "k \<noteq> ResourceCPU" "k \<noteq> ResourceMemory" by blast
    then show ?case
    proof cases
      case 1
      then show ?thesis using k ne Cons.IH [OF rs, of "?f x acc"] by (auto simp: x)
    next
      case 2
      then show ?thesis using k ne Cons.IH [OF rs, of "?f x acc"] by (auto simp: x)
    next
      case 3
      then show ?thesis using Cons.IH [OF rs, of "?f x acc"] by (auto simp: x)
    qed
  qed simp
  then show ?thesis by (auto simp: ResourcesAsResourceList_def)
qed

lemma quantities_mono:
  "a \<le> b \<Longrightarrow> QuantityFromCPUAmount a \<le> QuantityFromCPUAmount b"
  "a \<le> b \<Longrightarrow> QuantityFromMemoryAmount a \<le> QuantityFromMemoryAmount b"
  by (simp_all add: QuantityFromCPUAmount_def QuantityFromMemoryAmount_def NewScaledQuantity_def)

definition estimate_maps :: "ContainerEstimate \<Rightarrow> bool" where
  "estimate_maps e \<longleftrightarrow> gomap_ok (est_LowerBound e) \<and> gomap_ok (est_Target e) \<and> gomap_ok (est_UpperBound e)"

lemma gomap_ok_FilterControlledResources: "gomap_ok (FilterControlledResources es cs)"
proof -
  have "gomap_ok acc \<Longrightarrow> gomap_ok (fold (\<lambda>resource result. case map_of es resource of
      Some amount \<Rightarrow> AList.update resource amount result | None \<Rightarrow> result) cs acc)" for acc
    by (induction cs arbitrary: acc) (auto split: option.splits)
  then show ?thesis by (simp add: FilterControlledResources_def gomap_ok_def)
qed

lemma estimate_all_maps: "estimate_all r m = Inr es \<Longrightarrow> \<forall>(n, e) \<in> set es. estimate_maps e"
proof (induction r m arbitrary: es rule: estimate_all.induct)
  case (2 r n s rest)
  then obtain e es' where e: "estimateContainerResources r s = Inr e" "estimate_all r rest = Inr es'" "es = (n, e) # es'" by auto
  have "estimate_maps e"
    using e(1) by (auto simp: estimateContainerResources_def estimate_maps_def gomap_ok_FilterControlledResources)
  then show ?case using "2.IH" [OF e(2)] e(3) by simp
qed simp

lemma estimate_triple:
  assumes "estimate_ordered mins cs e" "estimate_maps e"
  shows "triple_ordered (ResourcesAsResourceList (est_LowerBound e)) (ResourcesAsResourceList (est_Target e))
    (ResourcesAsResourceList (est_UpperBound e))"
  unfolding triple_ordered_def
proof
  fix r
  have "(map_of (est_LowerBound e) r = None \<and> map_of (est_Target e) r = None \<and> map_of (est_UpperBound e) r = None) \<or>
      (\<exists>l t u. map_of (est_LowerBound e) r = Some l \<and> map_of (est_Target e) r = Some t \<and> map_of (est_UpperBound e) r = Some u \<and>
        l \<le> t \<and> t \<le> u)"
    using assms(1) unfolding estimate_ordered_def by (metis (full_types))
  then show "(map_of (ResourcesAsResourceList (est_LowerBound e)) r = None \<and> map_of (ResourcesAsResourceList (est_Target e)) r = None \<and>
        map_of (ResourcesAsResourceList (est_UpperBound e)) r = None) \<or>
      (\<exists>l t u. map_of (ResourcesAsResourceList (est_LowerBound e)) r = Some l \<and> map_of (ResourcesAsResourceList (est_Target e)) r = Some t \<and>
        map_of (ResourcesAsResourceList (est_UpperBound e)) r = Some u \<and> l \<le> t \<and> t \<le> u)"
    using assms(2) quantities_mono by (auto simp: estimate_maps_def map_of_ResourcesAsResourceList)
qed

text \<open>Capping to a policy is a monotone function of the value, for each resource.\<close>

definition policy_cap :: "ContainerResourcePolicy \<Rightarrow> ResourceName \<Rightarrow> Quantity \<Rightarrow> Quantity" where
  "policy_cap p r q = fst (maybeCapToPolicyMax (fst (maybeCapToPolicyMin q r p)) r p)"

lemma maybeCap_mono:
  "q \<le> q' \<Longrightarrow> fst (maybeCapToMin q r mins) \<le> fst (maybeCapToMin q' r mins)"
  "q \<le> q' \<Longrightarrow> fst (maybeCapToMax q r maxs) \<le> fst (maybeCapToMax q' r maxs)"
  by (auto simp: maybeCapToMin_def maybeCapToMax_def q_Cmp_def split: option.splits)

lemma policy_cap_mono: "q \<le> q' \<Longrightarrow> policy_cap p r q \<le> policy_cap p r q'"
  by (simp add: policy_cap_def maybeCapToPolicyMin_def maybeCapToPolicyMax_def maybeCap_mono)

lemma policy_cap_bounds:
  "map_of (MaxAllowed p) r = Some M \<Longrightarrow> M \<noteq> 0 \<Longrightarrow> policy_cap p r q \<le> M"
  "map_of (MinAllowed p) r = Some m \<Longrightarrow> m \<noteq> 0 \<Longrightarrow> (\<forall>M. map_of (MaxAllowed p) r = Some M \<and> M \<noteq> 0 \<longrightarrow> m \<le> M) \<Longrightarrow> m \<le> policy_cap p r q"
proof -
  show "map_of (MaxAllowed p) r = Some M \<Longrightarrow> M \<noteq> 0 \<Longrightarrow> policy_cap p r q \<le> M"
    by (simp add: policy_cap_def maybeCapToPolicyMax_def maybeCapToMax_le(2))
  show "m \<le> policy_cap p r q" if "map_of (MinAllowed p) r = Some m" "m \<noteq> 0" "\<forall>M. map_of (MaxAllowed p) r = Some M \<and> M \<noteq> 0 \<longrightarrow> m \<le> M"
    using maybeCapToMin_ge [OF that(1,2), of q] that(3)
      maybeCapToMax_le(3) [of "fst (maybeCapToMin q r (MinAllowed p))" r "MaxAllowed p"]
    by (auto simp: policy_cap_def maybeCapToPolicyMin_def maybeCapToPolicyMax_def)
qed

lemma applyVPAPolicyForContainer_ok:
  assumes "triple_ordered (LowerBound rec) (Target rec) (UpperBound rec)"
  shows "\<exists>rec'. applyVPAPolicyForContainer (rcr_ContainerName rec) (Some rec) policy = Inr rec' \<and> recommendation_ok policy rec' \<and>
    rcr_ContainerName rec' = rcr_ContainerName rec"
proof (cases "GetContainerResourcePolicy (rcr_ContainerName rec) policy")
  case None
  then show ?thesis using assms unfolding triple_ordered_def
    by (simp add: applyVPAPolicyForContainer_def recommendation_ok_def)
next
  case (Some p)
  let ?process = "\<lambda>rl. fst (cap_entries (\<lambda>q r. maybeCapToPolicyMin q r p) (\<lambda>q r. maybeCapToPolicyMax q r p) [] [] rl)"
  let ?rec = "rec\<lparr>Target := ?process (Target rec), LowerBound := ?process (LowerBound rec), UpperBound := ?process (UpperBound rec)\<rparr>"
  have look: "map_of (?process rl) r = map_option (policy_cap p r) (map_of rl r)" for rl r
    by (simp add: map_of_cap_entries policy_cap_def fun_eq_iff cong: option.map_cong)
  have "recommendation_ok policy ?rec"
    unfolding recommendation_ok_def
  proof (intro allI, goal_cases)
    case (1 r)
    consider "map_of (LowerBound rec) r = None" "map_of (Target rec) r = None" "map_of (UpperBound rec) r = None"
      | l t u where "map_of (LowerBound rec) r = Some l" "map_of (Target rec) r = Some t" "map_of (UpperBound rec) r = Some u" "l \<le> t" "t \<le> u"
      using assms [unfolded triple_ordered_def, rule_format, of r] by (elim disjE exE conjE)
    then show ?case
    proof cases
      case 2
      then show ?thesis using Some policy_cap_mono [of l t p r] policy_cap_mono [of t u p r]
          policy_cap_bounds(1) [of p r _ u] policy_cap_bounds(2) [of p r _ l] by (intro disjI2) (simp add: look)
    qed (simp add: look)
  qed
  then show ?thesis using Some by (simp add: applyVPAPolicyForContainer_def Let_def)
qed

lemma apply_policy_all_ok:
  "\<forall>rec \<in> set recs. triple_ordered (LowerBound rec) (Target rec) (UpperBound rec) \<Longrightarrow>
   \<exists>recs'. apply_policy_all policy recs = Inr recs' \<and> (\<forall>rec \<in> set recs'. recommendation_ok policy rec)"
proof (induction recs)
  case (Cons rec recs)
  then show ?case using applyVPAPolicyForContainer_ok [of rec policy] by fastforce
qed simp

lemma getCappedRecommendation_ok:
  assumes "\<forall>(n, e) \<in> set resources. triple_ordered (ResourcesAsResourceList (est_LowerBound e))
    (ResourcesAsResourceList (est_Target e)) (ResourcesAsResourceList (est_UpperBound e))"
  shows "\<exists>recs. getCappedRecommendation resources policy = Inr recs \<and> (\<forall>rec \<in> set recs. recommendation_ok policy rec)"
proof -
  let ?raw = "raw_recommendation resources"
  have raw: "\<forall>rec \<in> set ?raw. triple_ordered (LowerBound rec) (Target rec) (UpperBound rec)"
    using assms by (auto simp: raw_recommendation_def)
  show ?thesis
  proof (cases policy)
    case None
    have "recommendation_ok None rec" if "rec \<in> set ?raw" for rec
      using raw that unfolding triple_ordered_def recommendation_ok_def by (simp add: GetContainerResourcePolicy_def)
    then show ?thesis using None by (simp add: getCappedRecommendation_def ApplyVPAPolicy_def)
  next
    case (Some p)
    then show ?thesis using apply_policy_all_ok [OF raw, of policy] by (auto simp: getCappedRecommendation_def ApplyVPAPolicy_def)
  qed
qed

section \<open>Updating the VPAs\<close>

lemma GetContainerNameToAggregateStateMap_model:
  assumes "config_ok config" "model_ok config lo c" "map_of (Vpas c) vid = Some v"
  shows "\<exists>m initial st'. GetContainerNameToAggregateStateMap config now v (cs_store c) =
      Inr (m, v\<lparr>ContainersInitialAggregateState := initial\<rparr>, st') \<and> all_ok config m \<and> all_ok config initial \<and>
    states_ok config st' \<and> length st' = length (cs_store c)"
proof -
  obtain m initial st' where a: "vpa_AggregateStateByContainerName config now v (cs_store c) =
      Inr (m, v\<lparr>ContainersInitialAggregateState := initial\<rparr>, st')" "all_ok config m" "all_ok config initial"
    "states_ok config st'" "length st' = length (cs_store c)"
    using vpa_AggregateStateByContainerName_model [OF assms] by blast
  let ?policy = "\<lambda>n. GetContainerResourcePolicy n (vpa_ResourcePolicy v)"
  let ?m = "map (\<lambda>(n, a). (n, UpdateFromPolicy a (?policy n)))
    (filter (\<lambda>(n, a). \<not> autoscalingDisabled (?policy n) \<and> 0 < TotalSamplesCount a) m)"
  have "all_ok config ?m" using a(2) by (auto simp: all_ok_def)
  moreover have "GetContainerNameToAggregateStateMap config now v (cs_store c) =
      Inr (?m, v\<lparr>ContainersInitialAggregateState := initial\<rparr>, st')"
    by (simp add: GetContainerNameToAggregateStateMap_def a(1) Let_def)
  ultimately show ?thesis using a(3-5) by blast
qed

lemma record_recommendation_ok:
  assumes "states_ok config (fst acc)"
  shows "states_ok config (fst (record_recommendation v rec e acc)) \<and> length (fst (record_recommendation v rec e acc)) = length (fst acc)"
  using assms states_ok_update by (auto simp: record_recommendation_def case_prod_beta Let_def)

lemma UpdateRecommendation_model:
  assumes "states_ok config st"
  shows "\<exists>st' changes. UpdateRecommendation v st recs = (v\<lparr>Recommendation := Some recs\<rparr>, st', changes) \<and>
    states_ok config st' \<and> length st' = length st"
proof -
  have inner: "states_ok config (fst (fold (record_recommendation v rec) es acc)) \<and>
      length (fst (fold (record_recommendation v rec) es acc)) = length (fst acc)" if "states_ok config (fst acc)" for rec es acc
    using that
  proof (induction es arbitrary: acc)
    case (Cons e es)
    then show ?case using record_recommendation_ok [OF Cons.prems, of v rec e] Cons.IH [of "record_recommendation v rec e acc"] by simp
  qed simp
  have "states_ok config (fst (fold (\<lambda>rec. fold (record_recommendation v rec) (aggregateContainerStates v)) recs acc)) \<and>
      length (fst (fold (\<lambda>rec. fold (record_recommendation v rec) (aggregateContainerStates v)) recs acc)) = length (fst acc)"
    if "states_ok config (fst acc)" for acc
    using that
  proof (induction recs arbitrary: acc)
    case (Cons rec recs)
    then show ?case using inner [OF Cons.prems, of rec "aggregateContainerStates v"]
        Cons.IH [of "fold (record_recommendation v rec) (aggregateContainerStates v) acc"] by simp
  qed simp
  from this [of "(st, [])"] show ?thesis using assms by (simp add: UpdateRecommendation_def case_prod_beta) (metis prod.collapse)
qed

text \<open>A published status: it has a recommendation, all of whose containers are ordered and obey the policy.\<close>

definition published_ok :: "VerticalPodAutoscaler list \<Rightarrow> VpaID \<times> VerticalPodAutoscalerStatus \<Rightarrow> bool" where
  "published_ok crds p \<longleftrightarrow>
     (\<exists>crd \<in> set crds. \<exists>recs. crd_id crd = fst p \<and> st_Recommendation (snd p) = Some recs \<and>
        (\<forall>rec \<in> set recs. recommendation_ok (ResourcePolicy (vpa_Spec crd)) rec))"

text \<open>The configuration is one the constructor accepts, and the safety margin is a fraction.\<close>

definition setup_ok :: "AggregationsConfig \<Rightarrow> recommender_flags \<Rightarrow> bool" where
  "setup_ok config flags \<longleftrightarrow>
     (\<exists>i n mh ch. NewAggregationsConfig i n mh ch = Inr config) \<and> config_ok config \<and>
     0 \<le> safetyMarginFraction flags \<and> safetyMarginFraction flags \<le> 1"

lemma recommended_ok:
  assumes "setup_ok config flags" "all_ok config m"
  shows "\<exists>resources. GetRecommendedPodResources flags (CreatePodResourceRecommender flags) m = Inr resources \<and>
    (\<forall>(n, e) \<in> set resources. triple_ordered (ResourcesAsResourceList (est_LowerBound e))
       (ResourcesAsResourceList (est_Target e)) (ResourcesAsResourceList (est_UpperBound e)))"
proof -
  obtain i n mh ch where "NewAggregationsConfig i n mh ch = Inr config" using assms(1) by (auto simp: setup_ok_def)
  from GetRecommendedPodResources_ordered [OF this, of m flags] obtain es where
    e: "GetRecommendedPodResources flags (CreatePodResourceRecommender flags) m = Inr es" and
    o: "list_all2 (\<lambda>(name, s) (name', e). name = name' \<and>
      estimate_ordered (min_resources flags (length m)) (GetControlledResources s) e) m es"
    using assms by (auto simp: setup_ok_def all_ok_def)
  have maps: "\<forall>(n, e) \<in> set es. estimate_maps e"
    using e estimate_all_maps by (auto simp: GetRecommendedPodResources_def Let_def split: if_splits)
  have "triple_ordered (ResourcesAsResourceList (est_LowerBound x)) (ResourcesAsResourceList (est_Target x))
      (ResourcesAsResourceList (est_UpperBound x))" if mem: "(n, x) \<in> set es" for n x
  proof -
    obtain j where j: "j < length es" "es ! j = (n, x)" using mem by (auto simp: in_set_conv_nth)
    have "estimate_ordered (min_resources flags (length m)) (GetControlledResources (snd (m ! j))) x"
      using list_all2_nthD2 [OF o j(1)] j(2) by (simp add: case_prod_beta)
    then show ?thesis using estimate_triple maps mem by auto
  qed
  then show ?thesis using e by auto
qed

lemma UpdateConditions_frame:
  "vpa_ID (UpdateConditions now v b) = vpa_ID v" "PodSelector (UpdateConditions now v b) = PodSelector v"
  "PodCount (UpdateConditions now v b) = PodCount v" "aggregateContainerStates (UpdateConditions now v b) = aggregateContainerStates v"
  "ContainersInitialAggregateState (UpdateConditions now v b) = ContainersInitialAggregateState v"
  "Recommendation (UpdateConditions now v b) = Recommendation v"
  by (simp_all add: UpdateConditions_def Let_def)

lemma update_vpa_model:
  assumes "setup_ok config flags" "model_ok config lo c"
  shows "\<exists>c' published. update_vpa config flags (CreatePodResourceRecommender flags) deepEqual now crd c = Inr (c', published) \<and>
    model_ok config lo c' \<and> (\<forall>p \<in> set published. published_ok [crd] p)"
proof (cases "map_of (Vpas c) (crd_id crd)")
  case None
  then show ?thesis using assms(2) by (simp add: update_vpa_def)
next
  case (Some v)
  have ok: "config_ok config" using assms(1) by (simp add: setup_ok_def)
  obtain m initial st1 where a: "GetContainerNameToAggregateStateMap config now v (cs_store c) =
      Inr (m, v\<lparr>ContainersInitialAggregateState := initial\<rparr>, st1)" "all_ok config m" "all_ok config initial"
    "states_ok config st1" "length st1 = length (cs_store c)"
    using GetContainerNameToAggregateStateMap_model [OF ok assms(2) Some] by blast
  obtain resources where r: "GetRecommendedPodResources flags (CreatePodResourceRecommender flags) m = Inr resources"
    "\<forall>(n, e) \<in> set resources. triple_ordered (ResourcesAsResourceList (est_LowerBound e))
       (ResourcesAsResourceList (est_Target e)) (ResourcesAsResourceList (est_UpperBound e))"
    using recommended_ok [OF assms(1) a(2)] by blast
  obtain recs where g: "getCappedRecommendation resources (ResourcePolicy (vpa_Spec crd)) = Inr recs"
    "\<forall>rec \<in> set recs. recommendation_ok (ResourcePolicy (vpa_Spec crd)) rec"
    using getCappedRecommendation_ok [OF r(2)] by blast
  let ?v1 = "v\<lparr>ContainersInitialAggregateState := initial\<rparr>"
  obtain st2 changes where u: "UpdateRecommendation ?v1 st1 recs = (?v1\<lparr>Recommendation := Some recs\<rparr>, st2, changes)"
    "states_ok config st2" "length st2 = length st1"
    using UpdateRecommendation_model [OF a(4)] by blast
  let ?v2 = "?v1\<lparr>Recommendation := Some recs\<rparr>"
  define v3 where "v3 = UpdateConditions now ?v2 (0 < PodCount ?v2)"
  define c1 where "c1 = c\<lparr>Vpas := AList.update (crd_id crd) v3 (Vpas c), cs_store := st2\<rparr>"
  have f: "vpa_ID v3 = vpa_ID v" "PodSelector v3 = PodSelector v" "PodCount v3 = PodCount v"
    "aggregateContainerStates v3 = aggregateContainerStates v" "ContainersInitialAggregateState v3 = initial" "Recommendation v3 = Some recs"
    by (simp_all add: v3_def UpdateConditions_frame)
  have c1: "model_ok config lo c1" unfolding c1_def
    by (rule set_vpa_model [OF assms(2) Some u(2)]) (use f a(3,5) u(3) in \<open>simp_all add: vpa_same_def all_ok_def\<close>)
  have id: "vpa_ID v3 = crd_id crd"
    using assms(2) map_of_SomeD [OF Some] f(1) by (auto simp: model_ok_def cluster_ok_def maps_ok_def)
  have "update_vpa config flags (CreatePodResourceRecommender flags) deepEqual now crd c =
      Inr (snd (RecordRecommendation c1 v3 now), UpdateVpaStatusIfNeeded deepEqual (vpa_ID v3) (AsStatus v3) (vpa_Status crd))"
    using Some a(1) r(1) g(1) u(1) by (simp add: update_vpa_def Let_def v3_def c1_def)
  moreover have "model_ok config lo (snd (RecordRecommendation c1 v3 now))"
    using RecordRecommendation_model [OF c1, of v3 now] by (metis prod.collapse)
  moreover have "\<forall>p \<in> set (UpdateVpaStatusIfNeeded deepEqual (vpa_ID v3) (AsStatus v3) (vpa_Status crd)). published_ok [crd] p"
    using id f(6) g(2) by (auto simp: UpdateVpaStatusIfNeeded_def published_ok_def AsStatus_def)
  ultimately show ?thesis by blast
qed

lemma update_vpas_model:
  assumes "setup_ok config flags" "model_ok config lo c"
  shows "\<exists>c' published. update_vpas config flags (CreatePodResourceRecommender flags) deepEqual now crds c = Inr (c', published) \<and>
    model_ok config lo c' \<and> (\<forall>p \<in> set published. published_ok crds p)"
  using assms(2)
proof (induction crds arbitrary: c)
  case (Cons crd crds)
  obtain c1 p1 where 1: "update_vpa config flags (CreatePodResourceRecommender flags) deepEqual now crd c = Inr (c1, p1)"
    "model_ok config lo c1" "\<forall>p \<in> set p1. published_ok [crd] p"
    using update_vpa_model [OF assms(1) Cons.prems] by blast
  obtain c2 p2 where 2: "update_vpas config flags (CreatePodResourceRecommender flags) deepEqual now crds c1 = Inr (c2, p2)"
    "model_ok config lo c2" "\<forall>p \<in> set p2. published_ok crds p"
    using Cons.IH [OF 1(2)] by (elim exE conjE) (rule that)
  have "published_ok (crd # crds) p" if "published_ok [crd] p \<or> published_ok crds p" for p
    using that unfolding published_ok_def by (elim disjE bexE) auto
  then have "\<forall>p \<in> set (p1 @ p2). published_ok (crd # crds) p" using 1(3) 2(3) by (metis Un_iff set_append)
  then show ?case using 1(1) 2(1,2) by auto
qed simp

section \<open>The main loop\<close>

definition inputs_ok :: "AggregationsConfig \<Rightarrow> time \<Rightarrow> run_inputs \<Rightarrow> bool" where
  "inputs_ok config lo inp \<longleftrightarrow>
     (\<forall>ps. ri_pods inp = Inr ps \<longrightarrow> (\<forall>pod \<in> set ps. wf_labels (bps_PodLabels pod))) \<and>
     (\<forall>ms. ri_metrics inp = Inr ms \<longrightarrow> (\<forall>m \<in> set ms. time_in config lo (SnapshotTime m))) \<and>
     (\<forall>o' \<in> set (ri_ooms inp). time_in config lo (oi_Timestamp o'))"

lemma MaintainCheckpoints_model:
  assumes "config_ok config" "sort_ok sort_Slice" "model_ok config lo (clusterState r)"
  shows "\<exists>r' ws deleted. MaintainCheckpoints config sort_Slice inp k r = Inr (r', ws, deleted) \<and> model_ok config lo (clusterState r') \<and>
    podResourceRecommender_of r' = podResourceRecommender_of r"
proof (cases "useCheckpoints r")
  case False
  then show ?thesis using assms(3) by (simp add: MaintainCheckpoints_def)
next
  case True
  obtain err ws c1 where s: "StoreCheckpoints config sort_Slice (ri_client inp) (ri_ctxErr inp) (ri_now inp) k (clusterState r) = Inr (err, ws, c1)"
    "model_ok config lo c1"
    using StoreCheckpoints_model [OF assms(1,3,2)] by blast
  obtain deleted c2 where g: "GarbageCollectCheckpoints (ri_feeder inp) (ri_vpas_gc inp) (ri_namespaces inp) (ri_checkpoints inp) c1 = Inr (deleted, c2)"
    "model_ok config lo c2"
    using GarbageCollectCheckpoints_model [OF s(2)] by blast
  show ?thesis using True s g by (simp add: MaintainCheckpoints_def)
qed

lemma GarbageCollect_recommender_model:
  assumes "model_ok config lo (clusterState r)"
  shows "model_ok config lo (clusterState (GarbageCollect config t r))"
  using assms GarbageCollect_model by (simp add: GarbageCollect_def)

lemma RunOnce_model:
  assumes "setup_ok config flags" "sort_ok sort_Slice" "inputs_ok config lo inp"
    "podResourceRecommender_of r = CreatePodResourceRecommender flags" "model_ok config lo (clusterState r)"
  shows "\<exists>r' out. recommender_RunOnce config flags deepEqual sort_Slice saver k inp r = Inr (r', out) \<and>
    model_ok config lo (clusterState r') \<and> podResourceRecommender_of r' = podResourceRecommender_of r \<and>
    (\<forall>crds. ri_vpas inp = Inr crds \<longrightarrow> (\<forall>p \<in> set (ro_published out). published_ok crds p))"
proof -
  have ok: "config_ok config" using assms(1) by (simp add: setup_ok_def)
  obtain c1 where 1: "LoadVPAs (ri_feeder inp) (ri_vpas inp) (clusterState r) = Inr c1" "model_ok config lo c1"
    "\<forall>crds. ri_vpas inp = Inr crds \<longrightarrow> ObservedVpas c1 = crds"
    using LoadVPAs_model [OF assms(5), of "ri_feeder inp" "ri_vpas inp"] by blast
  obtain c2 where 2: "LoadPods config (ri_now inp) saver (ri_pods inp) c1 = Inr c2" "model_ok config lo c2"
    using LoadPods_model [OF ok 1(2), of "ri_pods inp" "ri_now inp" saver] assms(3) unfolding inputs_ok_def by blast
  obtain c3 n where 3: "LoadRealTimeMetrics config (ri_now inp) saver (ri_metrics inp) (ri_ooms inp) c2 = Inr (c3, n)"
    "model_ok config lo c3"
    using LoadRealTimeMetrics_model [OF ok 2(2), of "ri_metrics inp" "ri_ooms inp" "ri_now inp" saver] assms(3)
    unfolding inputs_ok_def by blast
  have obs: "ObservedVpas c3 = ObservedVpas c1"
    using LoadRealTimeMetrics_observed [OF 3(1)] LoadPods_observed [OF 2(1)] by simp
  obtain c4 published where 4: "UpdateVPAs config flags (podResourceRecommender_of r) deepEqual (ri_now inp) c3 = Inr (c4, published)"
    "model_ok config lo c4" "\<forall>p \<in> set published. published_ok (ObservedVpas c3) p"
    using update_vpas_model [OF assms(1) 3(2)] unfolding UpdateVPAs_def assms(4) by blast
  obtain r5 ws deleted where 5: "MaintainCheckpoints config sort_Slice inp k (r\<lparr>clusterState := c4\<rparr>) = Inr (r5, ws, deleted)"
    "model_ok config lo (clusterState r5)" "podResourceRecommender_of r5 = podResourceRecommender_of r"
    using MaintainCheckpoints_model [OF ok assms(2), of lo "r\<lparr>clusterState := c4\<rparr>" inp k] 4(2) by auto
  let ?out = "\<lparr>ro_published = published, ro_writes = ws, ro_deleted = deleted\<rparr>"
  have "recommender_RunOnce config flags deepEqual sort_Slice saver k inp r = Inr (GarbageCollect config (ri_gcTime inp) r5, ?out)"
    using 1(1) 2(1) 3(1) 4(1) 5(1) by (simp add: recommender_RunOnce_def)
  moreover have "podResourceRecommender_of (GarbageCollect config (ri_gcTime inp) r5) = podResourceRecommender_of r"
    using 5(3) by (simp add: GarbageCollect_def)
  ultimately show ?thesis using GarbageCollect_recommender_model [OF 5(2)] 4(3) obs 1(3) by auto
qed

text \<open>
  The life of a recommender: it starts empty, is filled from checkpoints or from a history
  provider, and then runs its loop. Only what the API server is assumed to deliver is required of
  the inputs: checkpoints as the writer stores them, labels as Kubernetes allows them, and times
  of the era that begins at \<open>lo\<close>.
\<close>

inductive recommender_reach :: "AggregationsConfig \<Rightarrow> recommender_flags \<Rightarrow> time \<Rightarrow> recommender \<Rightarrow> bool"
  for config :: AggregationsConfig and flags :: recommender_flags and lo :: time where
  make: "recommender_reach config flags lo
    (recommender_Make NewClusterState (CreatePodResourceRecommender flags) gcInterval checkpoints now)"
| from_checkpoints: "recommender_reach config flags lo r \<Longrightarrow>
    \<forall>ns cps. cp_list ns = Inr cps \<longrightarrow> (\<forall>cp \<in> set cps. checkpoint_ok (cp_Status cp)) \<Longrightarrow>
    InitFromCheckpoints config io listed order cp_list (clusterState r) = Inr c \<Longrightarrow>
    recommender_reach config flags lo (r\<lparr>clusterState := c\<rparr>)"
| from_history: "recommender_reach config flags lo r \<Longrightarrow>
    \<forall>(pid, ph) \<in> set h. wf_labels (LastLabels ph) \<and> (\<forall>(n, samples) \<in> set (Samples ph). \<forall>s \<in> set samples. time_in config lo (MeasureStart s)) \<Longrightarrow>
    InitFromHistoryProvider config now (Inr h) (clusterState r) = Inr (c, counts) \<Longrightarrow>
    recommender_reach config flags lo (r\<lparr>clusterState := c\<rparr>)"
| run: "recommender_reach config flags lo r \<Longrightarrow> sort_ok sort_Slice \<Longrightarrow> inputs_ok config lo inp \<Longrightarrow>
    recommender_RunOnce config flags deepEqual sort_Slice saver k inp r = Inr (r', out) \<Longrightarrow>
    recommender_reach config flags lo r'"

lemma recommender_reach_model:
  assumes "recommender_reach config flags lo r" "setup_ok config flags"
  shows "model_ok config lo (clusterState r) \<and> podResourceRecommender_of r = CreatePodResourceRecommender flags"
  using assms
proof (induction rule: recommender_reach.induct)
  case (make gcInterval checkpoints now)
  show ?case using NewClusterState_model by (simp add: recommender_Make_def)
next
  case (from_checkpoints r cp_list io listed order c)
  then show ?case using InitFromCheckpoints_model [of config lo "clusterState r" cp_list io listed order] by (auto simp: setup_ok_def)
next
  case (from_history r h now c counts)
  then show ?case
    using init_pods_model [of config lo "clusterState r" h now "\<lparr>sampleCount = 0, droppedSampleCount = 0\<rparr>"]
    by (auto simp: setup_ok_def InitFromHistoryProvider_def)
next
  case (run r sort_Slice inp deepEqual saver k r' out)
  then show ?case using RunOnce_model [of config flags sort_Slice lo inp r deepEqual saver k] by auto
qed

text \<open>
  C2. The recommender never fails. In every state it can reach, from whatever sequence of
  checkpoints, history and earlier iterations, and for whatever the API servers answer, including
  errors, an iteration of the main loop returns: no map lookup, histogram or policy code panics.
  Every status it publishes belongs to a listed VPA object and carries a recommendation in which,
  for each container and resource, lower bound <= target <= upper bound, the upper bound does not
  exceed the maximum of the resource policy, and the lower bound is not below its minimum (where
  that does not exceed the maximum).
\<close>

theorem recommender_never_fails:
  assumes "setup_ok config flags" "recommender_reach config flags lo r" "sort_ok sort_Slice" "inputs_ok config lo inp"
  shows "\<exists>r' out. recommender_RunOnce config flags deepEqual sort_Slice saver k inp r = Inr (r', out) \<and>
    recommender_reach config flags lo r' \<and>
    (\<forall>crds. ri_vpas inp = Inr crds \<longrightarrow> (\<forall>p \<in> set (ro_published out). published_ok crds p))"
proof -
  have m: "model_ok config lo (clusterState r)" "podResourceRecommender_of r = CreatePodResourceRecommender flags"
    using recommender_reach_model [OF assms(2,1)] by blast+
  obtain r' out where o: "recommender_RunOnce config flags deepEqual sort_Slice saver k inp r = Inr (r', out)"
    "\<forall>crds. ri_vpas inp = Inr crds \<longrightarrow> (\<forall>p \<in> set (ro_published out). published_ok crds p)"
    using RunOnce_model [OF assms(1,3,4) m(2,1)] by blast
  show ?thesis using o recommender_reach.run [OF assms(2-4) o(1)] by blast
qed

theorem recommender_never_fails_witness:
  "\<exists>config r1 out1. recommender_RunOnce config default_flags (=) insertionSort False 10
     \<lparr>ri_feeder = \<lparr>fi_now = 5, fi_fetch = \<lambda>_. Inr None, fi_fetchTop = \<lambda>_. Inr None, fi_sameMode = \<lambda>_. False, fi_samePolicy = \<lambda>_. False\<rparr>,
      ri_vpas = Inr [], ri_pods = Inl (Err ''timeout''),
      ri_metrics = Inr [], ri_ooms = [\<lparr>oi_Timestamp = 7, oi_Memory = 100, oi_ContainerID = \<lparr>cid_PodID = \<lparr>pid_Namespace = ''ns'', PodName = ''p''\<rparr>,
        cid_ContainerName = ''c''\<rparr>\<rparr>], ri_now = 8, ri_client = \<lparr>cc_Patch = \<lambda>_ _. None, cc_Create = \<lambda>_ _. None\<rparr>, ri_ctxErr = \<lambda>_. None,
      ri_written = 9, ri_vpas_gc = Inl (Err ''timeout''), ri_namespaces = Inr [], ri_checkpoints = \<lambda>_. Inr [], ri_gcTime = 10\<rparr>
     (recommender_Make NewClusterState (CreatePodResourceRecommender default_flags) (10 * minute) True 3) = Inr (r1, out1)"
proof -
  obtain config where c: "NewAggregationsConfig (24 * hour) 8 (24 * hour) (24 * hour) = Inr config" "config_ok config"
    using NewAggregationsConfig_ok [of "24 * hour" "24 * hour" "24 * hour" 8]
    by (auto simp: hour_def minute_def second_def maxDecayExponent_def int64_max_def)
  have s: "setup_ok config default_flags" using c by (auto simp: setup_ok_def default_flags_def)
  have i: "MemoryAggregationInterval config = 24 * hour"
    using c(1) by (auto simp: NewAggregationsConfig_def)
  let ?inp = "\<lparr>ri_feeder = \<lparr>fi_now = 5, fi_fetch = \<lambda>_. Inr None, fi_fetchTop = \<lambda>_. Inr None, fi_sameMode = \<lambda>_. False, fi_samePolicy = \<lambda>_. False\<rparr>,
      ri_vpas = Inr [], ri_pods = Inl (Err ''timeout''),
      ri_metrics = Inr [], ri_ooms = [\<lparr>oi_Timestamp = 7, oi_Memory = 100, oi_ContainerID = \<lparr>cid_PodID = \<lparr>pid_Namespace = ''ns'', PodName = ''p''\<rparr>,
        cid_ContainerName = ''c''\<rparr>\<rparr>], ri_now = 8, ri_client = \<lparr>cc_Patch = \<lambda>_ _. None, cc_Create = \<lambda>_ _. None\<rparr>, ri_ctxErr = \<lambda>_. None,
      ri_written = 9, ri_vpas_gc = Inl (Err ''timeout''), ri_namespaces = Inr [], ri_checkpoints = \<lambda>_. Inr [], ri_gcTime = 10\<rparr>"
  have "inputs_ok config 0 ?inp"
    by (simp add: inputs_ok_def time_in_def i hour_def minute_def second_def int64_max_def)
  from recommender_never_fails [OF s recommender_reach.make insertionSort_ok this, of "(=)" False 10 "10 * minute" True 3]
  show ?thesis by blast
qed

end
