(* ===== verification/Priority.thy ===== *)
theory Priority
  imports Capping Annotations Go_Sort
begin

text \<open>
  \<open>pkg/updater/priority\<close>: which pods of a VPA are worth updating and in which order
  (\<open>update_priority_calculator.go\<close>, \<open>priority_processor.go\<close>), and the chain of admission plugins that
  may veto an eviction (\<open>pod_eviction_admission.go\<close>). The recommendation processor, the priority
  processor and \<open>sort.Sort\<close> are arguments; of the last only what Go documents is used, that the
  result is an ordered permutation (ties in any order).
\<close>

section \<open>Priorities\<close>

record PodPriority =
  OutsideRecommendedRange :: bool
  ScaleUp :: bool
  ResourceDiff :: float64

definition Less :: "PodPriority \<Rightarrow> PodPriority \<Rightarrow> bool" where
  "Less p other =
     (if ScaleUp p \<noteq> ScaleUp other then ScaleUp other else ResourceDiff p < ResourceDiff other)"

definition parseVpaObservedContainers :: "Pod \<Rightarrow> bool \<times> string list" where
  "parseVpaObservedContainers pod =
     (case map_of (list_of (pod_Annotations pod)) VpaObservedContainersLabel of
        None \<Rightarrow> (False, [])
      | Some observedContainers \<Rightarrow>
          (case ParseVpaObservedContainersValue observedContainers of
             Inl _ \<Rightarrow> (False, [])
           | Inr containers \<Rightarrow> (True, containers)))"

record priority_state =
  outsideRecommendedRange :: bool
  scaleUp :: bool
  totalRequestPerResource :: "(ResourceName, int) gomap"
  totalRecommendedPerResource :: "(ResourceName, int) gomap"

definition add_total :: "ResourceName \<Rightarrow> int \<Rightarrow> (ResourceName, int) gomap \<Rightarrow> (ResourceName, int) gomap" where
  "add_total r v m = AList.update r (wrap64 (lookup_default 0 m r + v)) m"

definition out_of_range :: "RecommendedContainerResources \<Rightarrow> ResourceName \<Rightarrow> Quantity \<Rightarrow> bool" where
  "out_of_range rec r request =
     ((case map_of (LowerBound rec) r of None \<Rightarrow> False | Some lowerBound \<Rightarrow> q_Cmp request lowerBound < 0) \<or>
      (case map_of (UpperBound rec) r of None \<Rightarrow> False | Some upperBound \<Rightarrow> 0 < q_Cmp request upperBound))"

definition priority_resource ::
    "Container \<Rightarrow> RecommendedContainerResources \<Rightarrow> ResourceName \<times> Quantity \<Rightarrow> priority_state \<Rightarrow> priority_state" where
  "priority_resource podContainer rec = (\<lambda>(r, recommended) s.
     let s1 = s\<lparr>totalRecommendedPerResource := add_total r (q_MilliValue recommended) (totalRecommendedPerResource s)\<rparr>
     in case map_of (list_of (Requests (c_Resources podContainer))) r of
          Some request \<Rightarrow>
            s1\<lparr>totalRequestPerResource := add_total r (q_MilliValue request) (totalRequestPerResource s1),
               scaleUp := (if q_MilliValue request < q_MilliValue recommended then True else scaleUp s1),
               outsideRecommendedRange := (if out_of_range rec r request then True else outsideRecommendedRange s1)\<rparr>
        | None \<Rightarrow> s1\<lparr>scaleUp := True, outsideRecommendedRange := True\<rparr>)"

definition priority_container ::
    "bool \<Rightarrow> string list \<Rightarrow> RecommendedPodResources option \<Rightarrow> Container \<Rightarrow> priority_state \<Rightarrow> priority_state" where
  "priority_container hasObservedContainers vpaContainerSet recommendation podContainer s =
     (if hasObservedContainers \<and> c_Name podContainer \<notin> set vpaContainerSet then s
      else (case GetRecommendationForContainer (c_Name podContainer) recommendation of
              None \<Rightarrow> s
            | Some recommendedRequest \<Rightarrow>
                fold (priority_resource podContainer recommendedRequest) (Target recommendedRequest) s))"

definition resource_diff :: "(ResourceName, int) gomap \<Rightarrow> (ResourceName, int) gomap \<Rightarrow> float64" where
  "resource_diff requests recommended =
     sum_list (map (\<lambda>(r, totalRecommended).
       let totalRequest = max (of_int (lookup_default 0 requests r)) 1
       in \<bar>totalRequest - of_int totalRecommended\<bar> / totalRequest) recommended)"

definition GetUpdatePriority ::
    "Pod \<Rightarrow> VerticalPodAutoscaler \<Rightarrow> RecommendedPodResources option \<Rightarrow> PodPriority" where
  "GetUpdatePriority pod vpa recommendation =
     (let (hasObservedContainers, vpaContainerSet) = parseVpaObservedContainers pod;
          s = fold (priority_container hasObservedContainers vpaContainerSet recommendation) (pod_Containers pod)
                \<lparr>outsideRecommendedRange = False, scaleUp = False, totalRequestPerResource = [],
                 totalRecommendedPerResource = []\<rparr>
      in \<lparr>OutsideRecommendedRange = outsideRecommendedRange s, ScaleUp = scaleUp s,
          ResourceDiff = resource_diff (totalRequestPerResource s) (totalRecommendedPerResource s)\<rparr>)"

section \<open>Admission plugins\<close>

record 's PodEvictionAdmission =
  op_LoopInit :: "Pod list \<Rightarrow> (VerticalPodAutoscaler, Pod list) gomap \<Rightarrow> 's \<Rightarrow> 's"
  op_Admit :: "Pod \<Rightarrow> RecommendedPodResources option \<Rightarrow> 's \<Rightarrow> bool \<times> 's"
  op_CleanUp :: "'s \<Rightarrow> 's"

definition noopPodEvictionAdmission :: "'s PodEvictionAdmission" where
  "noopPodEvictionAdmission =
     \<lparr>op_LoopInit = (\<lambda>_ _ s. s), op_Admit = (\<lambda>_ _ s. (True, s)), op_CleanUp = (\<lambda>s. s)\<rparr>"

fun admit_all ::
    "'s PodEvictionAdmission list \<Rightarrow> Pod \<Rightarrow> RecommendedPodResources option \<Rightarrow> 's list \<Rightarrow> bool \<times> 's list" where
  "admit_all (a # as) pod rec (s # ss) =
     (let (admit, s') = op_Admit a pod rec s
      in if \<not> admit then (False, s' # ss)
         else let (r, ss') = admit_all as pod rec ss in (r, s' # ss'))"
| "admit_all as pod rec ss = (True, ss)"

text \<open>The state of the chain is the list of the states of its plugins.\<close>

definition sequentialPodEvictionAdmission :: "'s PodEvictionAdmission list \<Rightarrow> 's list PodEvictionAdmission" where
  "sequentialPodEvictionAdmission admissions =
     \<lparr>op_LoopInit = (\<lambda>live controlled ss. map2 (\<lambda>a s. op_LoopInit a live controlled s) admissions ss),
      op_Admit = admit_all admissions,
      op_CleanUp = (\<lambda>ss. map2 (\<lambda>a s. op_CleanUp a s) admissions ss)\<rparr>"

section \<open>The calculator\<close>

definition defaultUpdateThreshold :: float64 where "defaultUpdateThreshold = 1 / 10"
definition podLifetimeUpdateThreshold :: duration where "podLifetimeUpdateThreshold = hour * 12"

record prioritizedPod =
  pp_pod :: Pod
  pp_priority :: PodPriority
  pp_recommendation :: "RecommendedPodResources option"

type_synonym PriorityProcessor =
  "Pod \<Rightarrow> VerticalPodAutoscaler \<Rightarrow> RecommendedPodResources option \<Rightarrow> PodPriority"

record UpdatePriorityCalculator =
  calc_vpa :: VerticalPodAutoscaler
  calc_pods :: "prioritizedPod list"
  MinChangePriority :: float64
  recommendationProcessor :: RecommendationProcessor
  priorityProcessor :: PriorityProcessor

definition NewUpdatePriorityCalculator ::
    "VerticalPodAutoscaler \<Rightarrow> float64 option \<Rightarrow> RecommendationProcessor \<Rightarrow> PriorityProcessor \<Rightarrow> UpdatePriorityCalculator" where
  "NewUpdatePriorityCalculator vpa config processor prio =
     \<lparr>calc_vpa = vpa, calc_pods = [],
      MinChangePriority = (case config of None \<Rightarrow> defaultUpdateThreshold | Some c \<Rightarrow> c),
      recommendationProcessor = processor, priorityProcessor = prio\<rparr>"

definition quick_oom_status :: "duration \<Rightarrow> bool \<Rightarrow> string list \<Rightarrow> PodResourcePolicy option \<Rightarrow> ContainerStatus \<Rightarrow> bool" where
  "quick_oom_status evictAfterOOMThreshold hasObservedContainers vpaContainerSet policy cs =
     (if hasObservedContainers \<and> cs_Name cs \<notin> set vpaContainerSet then False
      else if (case GetContainerResourcePolicy (cs_Name cs) policy of
                 None \<Rightarrow> False | Some crp \<Rightarrow> Mode crp = Some ContainerScalingModeOff) then False
      else (case Terminated cs of
              None \<Rightarrow> False
            | Some t \<Rightarrow> Reason t = ''OOMKilled'' \<and> time_Sub (FinishedAt t) (StartedAt t) < evictAfterOOMThreshold))"

definition detect_quickOOM :: "duration \<Rightarrow> PodResourcePolicy option \<Rightarrow> Pod \<Rightarrow> bool" where
  "detect_quickOOM evictAfterOOMThreshold policy pod =
     (let (hasObservedContainers, vpaContainerSet) = parseVpaObservedContainers pod
      in list_ex (quick_oom_status evictAfterOOMThreshold hasObservedContainers vpaContainerSet policy)
           (ContainerStatuses pod))"

text \<open>A panic of the recommendation processor propagates; an error skips the pod.\<close>

definition AddPod ::
    "duration \<Rightarrow> UpdatePriorityCalculator \<Rightarrow> Pod \<Rightarrow> time \<Rightarrow> UpdatePriorityCalculator result" where
  "AddPod evictAfterOOMThreshold calc pod now =
     (case recommendationProcessor calc (st_Recommendation (vpa_Status (calc_vpa calc)))
             (ResourcePolicy (vpa_Spec (calc_vpa calc))) (st_Conditions (vpa_Status (calc_vpa calc))) pod of
        Inl (Panic p) \<Rightarrow> Inl (Panic p)
      | Inl _ \<Rightarrow> Inr calc
      | Inr (processedRecommendation, _) \<Rightarrow>
          let updatePriority = priorityProcessor calc pod (calc_vpa calc) processedRecommendation;
              quickOOM = detect_quickOOM evictAfterOOMThreshold (ResourcePolicy (vpa_Spec (calc_vpa calc))) pod;
              rejected =
                (if \<not> OutsideRecommendedRange updatePriority \<and> \<not> quickOOM
                 then (case StartTime pod of
                         None \<Rightarrow> True
                       | Some t \<Rightarrow> if time_Before now (time_Add t podLifetimeUpdateThreshold) then True
                                   else ResourceDiff updatePriority < MinChangePriority calc)
                 else False)
          in if rejected then Inr calc
             else if quickOOM \<and> ResourceDiff updatePriority = 0 then Inr calc
             else Inr (calc\<lparr>calc_pods := calc_pods calc @
                    [\<lparr>pp_pod = pod, pp_priority = updatePriority, pp_recommendation = processedRecommendation\<rparr>]\<rparr>))"

type_synonym sorter = "(prioritizedPod \<Rightarrow> prioritizedPod \<Rightarrow> bool) \<Rightarrow> prioritizedPod list \<Rightarrow> prioritizedPod list"

definition byPriorityDesc :: "prioritizedPod \<Rightarrow> prioritizedPod \<Rightarrow> bool" where
  "byPriorityDesc a b = Less (pp_priority b) (pp_priority a)"

fun admit_pods ::
    "'s PodEvictionAdmission option \<Rightarrow> 's \<Rightarrow> prioritizedPod list \<Rightarrow> Pod list \<times> 's" where
  "admit_pods admission s [] = ([], s)"
| "admit_pods admission s (p # ps) =
     (let (ok, s') = (case admission of None \<Rightarrow> (True, s) | Some a \<Rightarrow> op_Admit a (pp_pod p) (pp_recommendation p) s);
          (rest, s'') = admit_pods admission s' ps
      in (if ok then pp_pod p # rest else rest, s''))"

definition GetSortedPods ::
    "sorter \<Rightarrow> 's PodEvictionAdmission option \<Rightarrow> 's \<Rightarrow> UpdatePriorityCalculator \<Rightarrow> Pod list \<times> 's \<times> UpdatePriorityCalculator" where
  "GetSortedPods sort_Sort admission s calc =
     (let sorted_pods = sort_Sort byPriorityDesc (calc_pods calc);
          (result, s') = admit_pods admission s sorted_pods
      in (result, s', calc\<lparr>calc_pods := sorted_pods\<rparr>))"

section \<open>The order of priorities\<close>

lemma Less_strict_weak_order: "strict_weak_order Less"
  unfolding strict_weak_order_def Less_def by (auto split: if_splits)

lemma byPriorityDesc_order: "strict_weak_order byPriorityDesc"
  using Less_strict_weak_order unfolding strict_weak_order_def byPriorityDesc_def by blast

lemma admit_pods_subset:
  "\<exists>ps'. fst (admit_pods admission s ps) = map pp_pod ps' \<and> mset ps' \<subseteq># mset ps \<and>
     (sorted_wrt R ps \<longrightarrow> sorted_wrt R ps') \<and> set ps' \<subseteq> set ps \<and> (admission = None \<longrightarrow> ps' = ps)"
proof (induction ps arbitrary: s)
  case (Cons p ps)
  obtain ok s' where a: "(case admission of None \<Rightarrow> (True, s) | Some a \<Rightarrow> op_Admit a (pp_pod p) (pp_recommendation p) s) = (ok, s')"
    by fastforce
  obtain ps' where ps': "fst (admit_pods admission s' ps) = map pp_pod ps'" "mset ps' \<subseteq># mset ps"
    "sorted_wrt R ps \<longrightarrow> sorted_wrt R ps'" "set ps' \<subseteq> set ps" "admission = None \<longrightarrow> ps' = ps"
    using Cons.IH [of s'] by blast
  show ?case
  proof (cases ok)
    case True
    then show ?thesis using a ps' by (intro exI [of _ "p # ps'"]) (auto simp: Let_def split: prod.split)
  next
    case False
    then have "admission \<noteq> None" using a by (auto split: option.splits)
    then show ?thesis using a ps' False subset_mset.order_trans [OF ps'(2), of "add_mset p (mset ps)"]
      by (intro exI [of _ ps']) (auto simp: Let_def split: prod.split)
  qed
qed simp

text \<open>
  The pods returned for update are pods the calculator accepted, each at most as often as it
  was accepted, and never is a pod of higher priority behind one of lower priority: pods with a
  container that wants to grow come first, among equals the one with the larger relative change.
  Without an admission plugin all accepted pods are returned. This holds for every sorting routine
  that orders a slice, however it treats ties.
\<close>

theorem GetSortedPods_by_priority:
  assumes "sort_ok sort_Sort"
  shows "\<exists>ps. fst (GetSortedPods sort_Sort admission s calc) = map pp_pod ps \<and> mset ps \<subseteq># mset (calc_pods calc) \<and>
    sorted_wrt (\<lambda>a b. \<not> Less (pp_priority a) (pp_priority b)) ps \<and>
    (admission = None \<longrightarrow> mset ps = mset (calc_pods calc))"
proof -
  let ?xs = "sort_Sort byPriorityDesc (calc_pods calc)"
  have m: "mset ?xs = mset (calc_pods calc)" and o: "sorted_wrt (\<lambda>a b. \<not> byPriorityDesc b a) ?xs"
    using assms byPriorityDesc_order unfolding sort_ok_def by blast+
  have o': "sorted_wrt (\<lambda>a b. \<not> Less (pp_priority a) (pp_priority b)) ?xs"
    using o by (simp add: byPriorityDesc_def)
  have "fst (GetSortedPods sort_Sort admission s calc) = fst (admit_pods admission s ?xs)"
    by (simp add: GetSortedPods_def Let_def split: prod.split)
  then show ?thesis using admit_pods_subset [of admission s ?xs "\<lambda>a b. \<not> Less (pp_priority a) (pp_priority b)"] m o' by metis
qed

definition prio :: "bool \<Rightarrow> float64 \<Rightarrow> PodPriority" where
  "prio up d = \<lparr>OutsideRecommendedRange = True, ScaleUp = up, ResourceDiff = d\<rparr>"

definition example_vpa1 :: VerticalPodAutoscaler where
  "example_vpa1 = ws_Vpa (example_vpa ''v'' 1)"

theorem GetSortedPods_by_priority_witness:
  "\<exists>calc (ps :: prioritizedPod list). length (calc_pods calc) = 2 \<and>
     fst (GetSortedPods insertionSort (Some noopPodEvictionAdmission) () calc) = map pp_pod ps \<and>
     sorted_wrt (\<lambda>a b. \<not> Less (pp_priority a) (pp_priority b)) ps"
proof -
  define calc where "calc = (NewUpdatePriorityCalculator example_vpa1 None (sequential_Apply []) GetUpdatePriority)\<lparr>calc_pods :=
    [\<lparr>pp_pod = example_pod, pp_priority = prio False 3, pp_recommendation = None\<rparr>,
     \<lparr>pp_pod = example_pod, pp_priority = prio True 1, pp_recommendation = None\<rparr>]\<rparr>"
  have "length (calc_pods calc) = 2" by (simp add: calc_def)
  moreover obtain ps :: "prioritizedPod list" where "fst (GetSortedPods insertionSort (Some noopPodEvictionAdmission) () calc) = map pp_pod ps"
    "sorted_wrt (\<lambda>a b. \<not> Less (pp_priority a) (pp_priority b)) ps"
    using GetSortedPods_by_priority [OF insertionSort_ok, of "Some noopPodEvictionAdmission" "()" calc] by auto
  ultimately show ?thesis by (intro exI [of _ calc] exI [of _ ps] conjI)
qed

section \<open>Which pods are accepted\<close>

text \<open>
  A pod whose recommendation can be processed is accepted for update exactly when one of its
  scaled containers was killed for lack of memory soon after its start and the update changes its
  resources, or else when a request is outside the recommended range, or the pod has run for at
  least twelve hours (not twenty-four, as the comment has it) and the relative change reaches the
  minimum. No other pod is added and none is removed.
\<close>

theorem AddPod_accepts:
  assumes "recommendationProcessor calc (st_Recommendation (vpa_Status (calc_vpa calc)))
      (ResourcePolicy (vpa_Spec (calc_vpa calc))) (st_Conditions (vpa_Status (calc_vpa calc))) pod = Inr (rec, annotations)"
    "p = priorityProcessor calc pod (calc_vpa calc) rec"
    "oom = detect_quickOOM threshold (ResourcePolicy (vpa_Spec (calc_vpa calc))) pod"
  shows "\<exists>calc'. AddPod threshold calc pod now = Inr calc' \<and>
    calc_pods calc' = calc_pods calc @
      (if (oom \<and> ResourceDiff p \<noteq> 0) \<or>
          (\<not> oom \<and> (OutsideRecommendedRange p \<or>
             (\<exists>t. StartTime pod = Some t \<and> t + 12 * hour \<le> now \<and> MinChangePriority calc \<le> ResourceDiff p)))
       then [\<lparr>pp_pod = pod, pp_priority = p, pp_recommendation = rec\<rparr>] else [])"
  using assms(1)
  by (auto simp: AddPod_def assms(2,3) Let_def time_defs podLifetimeUpdateThreshold_def not_less
      split: option.splits)

theorem AddPod_accepts_witness:
  "\<exists>calc'. AddPod (10 * minute)
      (NewUpdatePriorityCalculator example_vpa1 None (sequential_Apply []) (\<lambda>_ _ _. prio False 1)) example_pod 0 = Inr calc' \<and>
     map pp_pod (calc_pods calc') = [example_pod]"
proof -
  let ?calc = "NewUpdatePriorityCalculator example_vpa1 None (sequential_Apply []) (\<lambda>_ _ _. prio False 1)"
  have p: "recommendationProcessor ?calc (st_Recommendation (vpa_Status (calc_vpa ?calc)))
      (ResourcePolicy (vpa_Spec (calc_vpa ?calc))) (st_Conditions (vpa_Status (calc_vpa ?calc))) example_pod =
      Inr (st_Recommendation (vpa_Status example_vpa1), [])"
    by (simp add: NewUpdatePriorityCalculator_def sequential_Apply_def)
  have "\<not> detect_quickOOM (10 * minute) (ResourcePolicy (vpa_Spec (calc_vpa ?calc))) example_pod"
    by (simp add: detect_quickOOM_def example_pod_def split: prod.split)
  then show ?thesis
    using AddPod_accepts [OF p refl refl, of "10 * minute" 0]
    by (auto simp: NewUpdatePriorityCalculator_def prio_def)
qed

section \<open>The update priority, declaratively\<close>

text \<open>
  One entry for every resource recommended for an observed container: the resource, the
  recommendation of the container, the recommended amount and the request, if there is one.
\<close>

type_synonym priority_entry = "ResourceName \<times> RecommendedContainerResources \<times> Quantity \<times> Quantity option"

definition container_entries :: "Pod \<Rightarrow> RecommendedPodResources option \<Rightarrow> Container \<Rightarrow> priority_entry list" where
  "container_entries pod recommendation c =
     (if fst (parseVpaObservedContainers pod) \<and> c_Name c \<notin> set (snd (parseVpaObservedContainers pod)) then []
      else (case GetRecommendationForContainer (c_Name c) recommendation of
              None \<Rightarrow> []
            | Some rec \<Rightarrow> map (\<lambda>(r, q). (r, rec, q, map_of (list_of (Requests (c_Resources c))) r)) (Target rec)))"

definition priority_entries :: "Pod \<Rightarrow> RecommendedPodResources option \<Rightarrow> priority_entry list" where
  "priority_entries pod recommendation = concat (map (container_entries pod recommendation) (pod_Containers pod))"

fun entry_grows :: "priority_entry \<Rightarrow> bool" where
  "entry_grows (r, rec, q, None) = True"
| "entry_grows (r, rec, q, Some request) = (q_MilliValue request < q_MilliValue q)"

fun entry_outside :: "priority_entry \<Rightarrow> bool" where
  "entry_outside (r, rec, q, None) = True"
| "entry_outside (r, rec, q, Some request) = out_of_range rec r request"

definition total_recommended :: "priority_entry list \<Rightarrow> ResourceName \<Rightarrow> int" where
  "total_recommended es r = sum_list (map (\<lambda>(_, _, q, _). q_MilliValue q) (filter (\<lambda>e. fst e = r) es))"

definition total_request :: "priority_entry list \<Rightarrow> ResourceName \<Rightarrow> int" where
  "total_request es r = sum_list (map (\<lambda>(_, _, _, p). case p of None \<Rightarrow> 0 | Some q \<Rightarrow> q_MilliValue q)
     (filter (\<lambda>e. fst e = r) es))"

definition relative_change :: "priority_entry list \<Rightarrow> ResourceName \<Rightarrow> float64" where
  "relative_change es r =
     (let total = max (of_int (wrap64 (total_request es r))) 1
      in \<bar>total - of_int (wrap64 (total_recommended es r))\<bar> / total)"

definition priority_entry_step :: "priority_entry \<Rightarrow> priority_state \<Rightarrow> priority_state" where
  "priority_entry_step = (\<lambda>(r, rec, q, request) s.
     let s1 = s\<lparr>totalRecommendedPerResource := add_total r (q_MilliValue q) (totalRecommendedPerResource s)\<rparr>
     in case request of
          Some p \<Rightarrow>
            s1\<lparr>totalRequestPerResource := add_total r (q_MilliValue p) (totalRequestPerResource s1),
               scaleUp := (if q_MilliValue p < q_MilliValue q then True else scaleUp s1),
               outsideRecommendedRange := (if out_of_range rec r p then True else outsideRecommendedRange s1)\<rparr>
        | None \<Rightarrow> s1\<lparr>scaleUp := True, outsideRecommendedRange := True\<rparr>)"

lemma priority_container_entries:
  "priority_container (fst (parseVpaObservedContainers pod)) (snd (parseVpaObservedContainers pod)) recommendation c s =
     fold priority_entry_step (container_entries pod recommendation c) s"
proof -
  have "fold (priority_resource c rec) xs s =
      fold priority_entry_step (map (\<lambda>(r, q). (r, rec, q, map_of (list_of (Requests (c_Resources c))) r)) xs) s" for rec xs s
    by (induction xs arbitrary: s) (auto simp: priority_resource_def priority_entry_step_def)
  then show ?thesis by (simp add: priority_container_def container_entries_def split: option.split)
qed

lemma fold_priority_container:
  "fold (priority_container (fst (parseVpaObservedContainers pod)) (snd (parseVpaObservedContainers pod)) recommendation) cs s =
     fold priority_entry_step (concat (map (container_entries pod recommendation) cs)) s"
  by (induction cs arbitrary: s) (simp_all add: priority_container_entries)

lemma wrap64_add: "wrap64 (wrap64 a + b) = wrap64 (a + b)"
  by (simp add: wrap64_def) (metis (no_types, opaque_lifting) add.assoc add.commute mod_add_left_eq)

lemma lookup_add_total:
  "lookup_default 0 (add_total r v m) k = (if k = r then wrap64 (lookup_default 0 m r + v) else lookup_default 0 m k)"
  by (simp add: add_total_def lookup_default_def)

definition priority_spec :: "priority_entry list \<Rightarrow> priority_state \<Rightarrow> bool" where
  "priority_spec es s \<longleftrightarrow>
     scaleUp s = list_ex entry_grows es \<and> outsideRecommendedRange s = list_ex entry_outside es \<and>
     (\<forall>r. lookup_default 0 (totalRequestPerResource s) r = wrap64 (total_request es r)) \<and>
     (\<forall>r. lookup_default 0 (totalRecommendedPerResource s) r = wrap64 (total_recommended es r)) \<and>
     gomap_ok (totalRecommendedPerResource s) \<and> fst ` set (totalRecommendedPerResource s) = fst ` set es"

lemma priority_spec_step:
  assumes "priority_spec es s"
  shows "priority_spec (es @ [e]) (priority_entry_step e s)"
proof -
  obtain r rec q p where e: "e = (r, rec, q, p)" by (cases e)
  have keys: "fst ` set (add_total r v m) = insert r (fst ` set m)" for v and m :: "(ResourceName, int) gomap"
    by (simp add: add_total_def update_keys dom_map_of_conv_image_fst [symmetric])
  have ok: "gomap_ok m \<Longrightarrow> gomap_ok (add_total r v m)" for v m by (simp add: add_total_def)
  show ?thesis
    using assms unfolding e priority_spec_def
    by (cases p) (simp_all add: priority_entry_step_def lookup_add_total wrap64_add total_request_def
        total_recommended_def keys ok Let_def disj_commute)
qed

lemma priority_spec_fold:
  "priority_spec es (fold priority_entry_step es
     \<lparr>outsideRecommendedRange = False, scaleUp = False, totalRequestPerResource = [], totalRecommendedPerResource = []\<rparr>)"
proof (induction es rule: rev_induct)
  case Nil
  then show ?case
    by (simp add: priority_spec_def lookup_default_def total_request_def total_recommended_def wrap64_def)
next
  case (snoc e es)
  then show ?case using priority_spec_step by simp
qed

lemma sum_list_gomap:
  "gomap_ok m \<Longrightarrow> sum_list (map (\<lambda>(k, v). g k v) m) = (\<Sum>k \<in> fst ` set m. g k (lookup_default d m k))"
proof (induction m)
  case (Cons e m)
  obtain k v where e: "e = (k, v)" by (cases e)
  have k: "k \<notin> fst ` set m" using Cons.prems by (auto simp: e gomap_ok_def)
  have "(\<Sum>j \<in> fst ` set m. g j (lookup_default d ((k, v) # m) j)) = (\<Sum>j \<in> fst ` set m. g j (lookup_default d m j))"
    using k by (intro sum.cong) (auto simp: lookup_default_def)
  then show ?case using Cons k by (simp add: e gomap_ok_def lookup_default_def)
qed simp

text \<open>
  C31. The update priority is what its description says: the pod wants to grow when some recommended
  amount of an observed container exceeds its request (or there is no request), it is outside the
  recommended range when some request is (or is missing), and the difference is the sum over the
  recommended resources of the relative change of the pod's total, which never is negative. The
  totals are int64 sums that wrap around.
\<close>

theorem GetUpdatePriority_correct:
  "let es = priority_entries pod recommendation; p = GetUpdatePriority pod vpa recommendation in
   ScaleUp p = list_ex entry_grows es \<and> OutsideRecommendedRange p = list_ex entry_outside es \<and>
   ResourceDiff p = (\<Sum>r \<in> fst ` set es. relative_change es r) \<and> 0 \<le> ResourceDiff p"
proof -
  define es where "es = priority_entries pod recommendation"
  define s where "s = fold priority_entry_step es
    \<lparr>outsideRecommendedRange = False, scaleUp = False, totalRequestPerResource = [], totalRecommendedPerResource = []\<rparr>"
  have sp: "priority_spec es s" by (simp add: s_def priority_spec_fold)
  have p: "GetUpdatePriority pod vpa recommendation =
    \<lparr>OutsideRecommendedRange = outsideRecommendedRange s, ScaleUp = scaleUp s,
     ResourceDiff = resource_diff (totalRequestPerResource s) (totalRecommendedPerResource s)\<rparr>"
    by (simp add: GetUpdatePriority_def Let_def case_prod_beta fold_priority_container s_def es_def priority_entries_def)
  have ok: "gomap_ok (totalRecommendedPerResource s)" using sp by (simp add: priority_spec_def)
  have d: "resource_diff (totalRequestPerResource s) (totalRecommendedPerResource s) = (\<Sum>r \<in> fst ` set es. relative_change es r)"
    using sp by (simp add: resource_diff_def sum_list_gomap [OF ok, of _ 0] priority_spec_def relative_change_def Let_def)
  have "0 \<le> relative_change es r" for r by (simp add: relative_change_def Let_def)
  then have "0 \<le> (\<Sum>r \<in> fst ` set es. relative_change es r)" by (rule sum_nonneg)
  then show ?thesis using sp by (simp add: p d priority_spec_def es_def [symmetric])
qed

end
