(* ===== verification/Eviction.thy ===== *)
theory Eviction
  imports Kube_Types
begin

text \<open>
  \<open>pkg/updater/eviction/pods_eviction_restriction.go\<close>: the budget of evictions of each group of
  replicas. The answer of the API server to an eviction and the stores of the informers are
  parameters. A store answers \<open>GetByKey\<close> with an error, with no object, or with an object, which
  may not have the expected type.
\<close>

section \<open>Data\<close>

definition PodPending :: PodPhase where "PodPending = ''Pending''"

type_synonym controllerKind = string

definition replicationController :: controllerKind where "replicationController = ''ReplicationController''"
definition statefulSet :: controllerKind where "statefulSet = ''StatefulSet''"
definition replicaSet :: controllerKind where "replicaSet = ''ReplicaSet''"
definition job :: controllerKind where "job = ''Job''"

record podReplicaCreator =
  prc_Namespace :: string
  prc_Name :: string
  prc_Kind :: controllerKind

record singleGroupStats =
  configured :: int
  pending :: int
  running :: int
  evictionTolerance :: int
  evicted :: int

record podsEvictionRestriction =
  podToReplicaCreatorMap :: "(string, podReplicaCreator) gomap"
  creatorToSingleGroupStatsMap :: "(podReplicaCreator, singleGroupStats) gomap"

datatype store_object = Replicated "int option" | OtherObject

type_synonym informer_store = "string \<Rightarrow> store_object option result"

record podsEvictionRestrictionFactory =
  rcInformer :: informer_store
  ssInformer :: informer_store
  rsInformer :: informer_store
  minReplicas :: int
  evictionToleranceFraction :: float64

section \<open>Deciding and recording evictions\<close>

definition getPodID :: "Pod option \<Rightarrow> string" where
  "getPodID pod = (case pod of None \<Rightarrow> '''' | Some pod \<Rightarrow> pod_Namespace pod @ ''/'' @ pod_Name pod)"

definition group_CanEvict :: "singleGroupStats \<Rightarrow> bool" where
  "group_CanEvict s =
     (let shouldBeAlive = configured s - evictionTolerance s
      in if shouldBeAlive < running s - evicted s then True
         else running s = configured s \<and> evictionTolerance s = 0 \<and> evicted s = 0)"

definition CanEvict :: "podsEvictionRestriction \<Rightarrow> Pod \<Rightarrow> bool" where
  "CanEvict e pod =
     (case map_of (podToReplicaCreatorMap e) (getPodID (Some pod)) of
        None \<Rightarrow> False
      | Some cr \<Rightarrow>
          if Phase pod = PodPending then True
          else (case map_of (creatorToSingleGroupStatsMap e) cr of
                  None \<Rightarrow> False
                | Some s \<Rightarrow> group_CanEvict s))"

text \<open>\<open>api\<close> is the answer of the API server to the eviction request for a namespace and a name.\<close>

definition Evict ::
    "(string \<Rightarrow> string \<Rightarrow> go_error option) \<Rightarrow> podsEvictionRestriction \<Rightarrow> Pod \<Rightarrow>
     go_error option \<times> podsEvictionRestriction" where
  "Evict api e podToEvict =
     (case map_of (podToReplicaCreatorMap e) (getPodID (Some podToEvict)) of
        None \<Rightarrow> (Some (Err ''pod not suitable for eviction : not in replicated pods map''), e)
      | Some cr \<Rightarrow>
          if \<not> CanEvict e podToEvict
          then (Some (Err ''cannot evict pod : eviction budget exceeded''), e)
          else (case api (pod_Namespace podToEvict) (pod_Name podToEvict) of
              Some err \<Rightarrow> (Some err, e)
            | None \<Rightarrow>
                if Phase podToEvict \<noteq> PodPending
                then (case map_of (creatorToSingleGroupStatsMap e) cr of
                    None \<Rightarrow> (Some (Err ''Internal error - cannot find stats for replication group''), e)
                  | Some s \<Rightarrow>
                      (None, e\<lparr>creatorToSingleGroupStatsMap :=
                                AList.update cr (s\<lparr>evicted := evicted s + 1\<rparr>) (creatorToSingleGroupStatsMap e)\<rparr>))
                else (None, e)))"

section \<open>Creating the restriction\<close>

text \<open>
  The first owner that is a controller, or the zero value: the result is never nil. An owner
  without the optional \<open>Controller\<close> flag is dereferenced.
\<close>

fun find_controller :: "OwnerReference list \<Rightarrow> OwnerReference result" where
  "find_controller [] =
     Inr \<lparr>or_Kind = '''', or_Name = '''', or_APIVersion = '''', or_Controller = None, or_UID = []\<rparr>"
| "find_controller (r # rs) =
     (case or_Controller r of
        None \<Rightarrow> Inl (Panic ''nil pointer dereference'')
      | Some c \<Rightarrow> if c then Inr r else find_controller rs)"

definition managingControllerRef :: "Pod \<Rightarrow> OwnerReference option result" where
  "managingControllerRef pod = rbind (find_controller (OwnerReferences pod)) (\<lambda>r. Inr (Some r))"

definition getPodReplicaCreator :: "Pod \<Rightarrow> podReplicaCreator option result" where
  "getPodReplicaCreator pod =
     rbind (managingControllerRef pod) (\<lambda>creator.
       case creator of
         None \<Rightarrow> Inr None
       | Some r \<Rightarrow> Inr (Some \<lparr>prc_Namespace = pod_Namespace pod, prc_Name = or_Name r, prc_Kind = or_Kind r\<rparr>))"

definition store_replicas :: "string \<Rightarrow> informer_store \<Rightarrow> podReplicaCreator \<Rightarrow> int result" where
  "store_replicas what store creator =
     (case store (prc_Namespace creator @ ''/'' @ prc_Name creator) of
        Inl _ \<Rightarrow> Inl (Err (what @ '' is not available''))
      | Inr None \<Rightarrow> Inl (Err (what @ '' does not exist''))
      | Inr (Some OtherObject) \<Rightarrow> Inl (Err (''Failed to parse '' @ what))
      | Inr (Some (Replicated replicas)) \<Rightarrow>
          (case replicas of
             None \<Rightarrow> Inl (Err (what @ '' has no replicas config''))
           | Some n \<Rightarrow> if n = 0 then Inl (Err (what @ '' has no replicas config'')) else Inr n))"

definition getReplicaCount :: "podsEvictionRestrictionFactory \<Rightarrow> podReplicaCreator \<Rightarrow> int result" where
  "getReplicaCount f creator =
     (if prc_Kind creator = replicationController then store_replicas ''replication controller'' (rcInformer f) creator
      else if prc_Kind creator = replicaSet then store_replicas ''replica set'' (rsInformer f) creator
      else if prc_Kind creator = statefulSet then store_replicas ''stateful set'' (ssInformer f) creator
      else Inr 0)"

fun group_live_pods ::
    "Pod list \<Rightarrow> (podReplicaCreator, Pod list) gomap \<Rightarrow> (podReplicaCreator, Pod list) gomap result" where
  "group_live_pods [] livePods = Inr livePods"
| "group_live_pods (pod # pods) livePods =
     rbind (getPodReplicaCreator pod) (\<lambda>creator.
       case creator of
         None \<Rightarrow> group_live_pods pods livePods
       | Some cr \<Rightarrow>
           group_live_pods pods (AList.update cr (lookup_default [] livePods cr @ [pod]) livePods))"

definition configured_replicas :: "podsEvictionRestrictionFactory \<Rightarrow> podReplicaCreator \<Rightarrow> Pod list \<Rightarrow> int result" where
  "configured_replicas f creator replicas =
     (if prc_Kind creator = job then Inr (int (length replicas)) else getReplicaCount f creator)"

definition pending_count :: "Pod list \<Rightarrow> int" where
  "pending_count replicas = int (length (filter (\<lambda>pod. Phase pod = PodPending) replicas))"

definition group_stats :: "podsEvictionRestrictionFactory \<Rightarrow> int \<Rightarrow> Pod list \<Rightarrow> singleGroupStats" where
  "group_stats f n replicas =
     \<lparr>configured = n, pending = pending_count replicas,
      running = int (length replicas) - pending_count replicas,
      evictionTolerance = go_trunc (of_int n * evictionToleranceFraction f), evicted = 0\<rparr>"

definition add_group ::
    "podsEvictionRestrictionFactory \<Rightarrow> podReplicaCreator \<times> Pod list \<Rightarrow> podsEvictionRestriction \<Rightarrow> podsEvictionRestriction"
where
  "add_group f = (\<lambda>(creator, replicas) e.
     if int (length replicas) < minReplicas f then e
     else (case configured_replicas f creator replicas of
         Inl _ \<Rightarrow> e
       | Inr n \<Rightarrow>
           e\<lparr>podToReplicaCreatorMap :=
               fold (\<lambda>pod m. AList.update (getPodID (Some pod)) creator m) replicas (podToReplicaCreatorMap e),
             creatorToSingleGroupStatsMap :=
               AList.update creator (group_stats f n replicas) (creatorToSingleGroupStatsMap e)\<rparr>))"

definition NewPodsEvictionRestriction ::
    "podsEvictionRestrictionFactory \<Rightarrow> Pod list \<Rightarrow> podsEvictionRestriction result" where
  "NewPodsEvictionRestriction f pods =
     rbind (group_live_pods pods []) (\<lambda>livePods.
       Inr (fold (add_group f) livePods \<lparr>podToReplicaCreatorMap = [], creatorToSingleGroupStatsMap = []\<rparr>))"

section \<open>The groups of a new restriction\<close>

definition group_of :: "Pod list \<Rightarrow> podReplicaCreator \<Rightarrow> Pod list" where
  "group_of pods cr = filter (\<lambda>pod. getPodReplicaCreator pod = Inr (Some cr)) pods"

definition pod_key :: "Pod \<Rightarrow> string" where
  "pod_key pod = getPodID (Some pod)"

text \<open>The statistics the factory computes for a creator, if it admits the group.\<close>

definition admitted :: "podsEvictionRestrictionFactory \<Rightarrow> podReplicaCreator \<Rightarrow> Pod list \<Rightarrow> singleGroupStats option" where
  "admitted f cr replicas =
     (if int (length replicas) < minReplicas f then None
      else (case configured_replicas f cr replicas of Inl _ \<Rightarrow> None | Inr n \<Rightarrow> Some (group_stats f n replicas)))"

lemma group_live_pods_spec:
  assumes "group_live_pods pods m = Inr m'" "gomap_ok m" "\<And>cr. map_of m cr \<noteq> Some []"
  shows "gomap_ok m' \<and> (\<forall>cr. map_of m' cr = (let g = lookup_default [] m cr @ group_of pods cr in if g = [] then None else Some g))"
  using assms
proof (induction pods arbitrary: m)
  case Nil
  then show ?case by (auto simp: group_of_def lookup_default_def Let_def split: option.splits)
next
  case (Cons pod pods)
  obtain c where c: "getPodReplicaCreator pod = Inr c"
    using Cons.prems(1) by (cases "getPodReplicaCreator pod") auto
  then obtain cr where cr: "getPodReplicaCreator pod = Inr (Some cr)"
    by (auto simp: getPodReplicaCreator_def managingControllerRef_def)
  let ?m = "AList.update cr (lookup_default [] m cr @ [pod]) m"
  have "group_live_pods pods ?m = Inr m'" using Cons.prems(1) by (simp add: cr)
  moreover have "map_of ?m k \<noteq> Some []" for k using Cons.prems(3) by simp
  ultimately have "gomap_ok m' \<and> (\<forall>cr. map_of m' cr =
      (let g = lookup_default [] ?m cr @ group_of pods cr in if g = [] then None else Some g))"
    using Cons.IH [of ?m] Cons.prems(2) by simp
  moreover have "lookup_default [] ?m k @ group_of pods k = lookup_default [] m k @ group_of (pod # pods) k" for k
    by (simp add: lookup_default_def group_of_def cr)
  ultimately show ?case by simp
qed

lemma group_live_pods_groups:
  "group_live_pods pods [] = Inr m \<Longrightarrow> gomap_ok m \<and>
   (\<forall>cr. map_of m cr = (if group_of pods cr = [] then None else Some (group_of pods cr)))"
  using group_live_pods_spec [of pods "[]" m] by (simp add: lookup_default_def Let_def)

lemma fold_pod_keys:
  "map_of (fold (\<lambda>pod m. AList.update (getPodID (Some pod)) cr m) replicas m) i =
     (if i \<in> pod_key ` set replicas then Some cr else map_of m i)"
  by (induction replicas arbitrary: m) (auto simp: pod_key_def)

lemma add_group_spec:
  "creatorToSingleGroupStatsMap (add_group f (cr, replicas) e) =
     (case admitted f cr replicas of
        None \<Rightarrow> creatorToSingleGroupStatsMap e
      | Some s \<Rightarrow> AList.update cr s (creatorToSingleGroupStatsMap e))"
  "map_of (podToReplicaCreatorMap (add_group f (cr, replicas) e)) i =
     (if admitted f cr replicas \<noteq> None \<and> i \<in> pod_key ` set replicas then Some cr
      else map_of (podToReplicaCreatorMap e) i)"
  by (auto simp: add_group_def admitted_def fold_pod_keys split: sum.splits)

lemma fold_add_group_stats:
  "gomap_ok m \<Longrightarrow> map_of (creatorToSingleGroupStatsMap (fold (add_group f) m e)) cr =
     (case map_of m cr of
        None \<Rightarrow> map_of (creatorToSingleGroupStatsMap e) cr
      | Some replicas \<Rightarrow> (case admitted f cr replicas of
            None \<Rightarrow> map_of (creatorToSingleGroupStatsMap e) cr | Some s \<Rightarrow> Some s))"
proof (induction m arbitrary: e)
  case (Cons g m)
  obtain k replicas where g: "g = (k, replicas)" by (cases g)
  have fresh: "map_of m k = None" using Cons.prems by (simp add: g gomap_ok_def map_of_eq_None_iff)
  let ?st = "map_of (creatorToSingleGroupStatsMap e) cr"
  have st: "map_of (creatorToSingleGroupStatsMap (add_group f g e)) cr =
      (if k = cr \<and> admitted f k replicas \<noteq> None then admitted f k replicas else ?st)"
    by (cases "admitted f k replicas") (auto simp: g add_group_spec)
  note IH = Cons.IH [of "add_group f g e", unfolded st]
  show ?case
    using IH Cons.prems fresh by (cases "k = cr") (auto simp: g gomap_ok_def split: option.splits)
qed simp

lemma fold_add_group_pods:
  "map_of (podToReplicaCreatorMap (fold (add_group f) m e)) i = Some cr \<Longrightarrow>
   map_of (podToReplicaCreatorMap e) i = Some cr \<or>
   (\<exists>replicas. (cr, replicas) \<in> set m \<and> admitted f cr replicas \<noteq> None \<and> i \<in> pod_key ` set replicas)"
proof (induction m arbitrary: e)
  case (Cons g m)
  obtain k replicas where g: "g = (k, replicas)" by (cases g)
  have "map_of (podToReplicaCreatorMap (add_group f g e)) i = Some cr \<or>
      (\<exists>replicas. (cr, replicas) \<in> set m \<and> admitted f cr replicas \<noteq> None \<and> i \<in> pod_key ` set replicas)"
    by (rule Cons.IH) (use Cons.prems in simp)
  then show ?case
  proof
    assume "map_of (podToReplicaCreatorMap (add_group f g e)) i = Some cr"
    then show ?thesis by (cases "admitted f k replicas \<noteq> None \<and> i \<in> pod_key ` set replicas") (auto simp: g add_group_spec)
  qed auto
qed simp

lemma fold_add_group_present:
  "map_of (podToReplicaCreatorMap e) i \<noteq> None \<or>
   (\<exists>(k, replicas) \<in> set m. admitted f k replicas \<noteq> None \<and> i \<in> pod_key ` set replicas) \<Longrightarrow>
   map_of (podToReplicaCreatorMap (fold (add_group f) m e)) i \<noteq> None"
proof (induction m arbitrary: e)
  case (Cons g m)
  obtain k replicas where g: "g = (k, replicas)" by (cases g)
  have "map_of (podToReplicaCreatorMap (add_group f g e)) i \<noteq> None \<or>
      (\<exists>(k, replicas) \<in> set m. admitted f k replicas \<noteq> None \<and> i \<in> pod_key ` set replicas)"
    using Cons.prems by (fastforce simp: g add_group_spec)
  from Cons.IH [OF this] show ?case by simp
qed simp

lemma NewPodsEvictionRestriction_spec:
  assumes "NewPodsEvictionRestriction f pods = Inr e"
  shows "map_of (creatorToSingleGroupStatsMap e) cr = (if group_of pods cr = [] then None else admitted f cr (group_of pods cr))"
    "map_of (podToReplicaCreatorMap e) i = Some cr \<Longrightarrow>
       admitted f cr (group_of pods cr) \<noteq> None \<and> i \<in> pod_key ` set (group_of pods cr)"
    "pod \<in> set (group_of pods cr) \<Longrightarrow> admitted f cr (group_of pods cr) \<noteq> None \<Longrightarrow>
       map_of (podToReplicaCreatorMap e) (pod_key pod) \<noteq> None"
proof -
  define e0 where "e0 = \<lparr>podToReplicaCreatorMap = [], creatorToSingleGroupStatsMap = []\<rparr>"
  obtain m where m: "group_live_pods pods [] = Inr m" "e = fold (add_group f) m e0"
    using assms by (auto simp: NewPodsEvictionRestriction_def e0_def)
  note g = group_live_pods_groups [OF m(1)]
  have e0: "map_of (podToReplicaCreatorMap e0) = Map.empty" "map_of (creatorToSingleGroupStatsMap e0) = Map.empty"
    by (simp_all add: e0_def)
  have ok: "gomap_ok m" using g by simp
  have mem: "(k, replicas) \<in> set m \<longleftrightarrow> replicas = group_of pods k \<and> group_of pods k \<noteq> []" for k replicas
    using g by (auto simp: in_set_map_of split: if_splits)
  show "map_of (creatorToSingleGroupStatsMap e) cr = (if group_of pods cr = [] then None else admitted f cr (group_of pods cr))"
    using fold_add_group_stats [OF ok, of f e0 cr] g by (simp add: m(2) e0 split: option.split)
  show "admitted f cr (group_of pods cr) \<noteq> None \<and> i \<in> pod_key ` set (group_of pods cr)"
    if "map_of (podToReplicaCreatorMap e) i = Some cr"
    using fold_add_group_pods [of f m e0 i cr] that by (auto simp: m(2) e0 mem)
  show "map_of (podToReplicaCreatorMap e) (pod_key pod) \<noteq> None"
    if "pod \<in> set (group_of pods cr)" "admitted f cr (group_of pods cr) \<noteq> None"
  proof -
    have "(cr, group_of pods cr) \<in> set m" using that(1) by (auto simp: mem)
    then show ?thesis unfolding m(2) using that by (intro fold_add_group_present) blast
  qed
qed

section \<open>Runs of evictions\<close>

text \<open>
  What can happen to a restriction created for \<open>pods\<close>: attempts to evict any of the pods, with any
  answers of the API server. \<open>gone\<close> lists the pods whose eviction succeeded.
\<close>

inductive evict_reach ::
    "podsEvictionRestrictionFactory \<Rightarrow> Pod list \<Rightarrow> podsEvictionRestriction \<Rightarrow> Pod list \<Rightarrow> bool" for f pods where
  created: "NewPodsEvictionRestriction f pods = Inr e \<Longrightarrow> evict_reach f pods e []"
| evicted: "evict_reach f pods e gone \<Longrightarrow> pod \<in> set pods \<Longrightarrow> Evict api e pod = (None, e') \<Longrightarrow>
    evict_reach f pods e' (pod # gone)"
| refused: "evict_reach f pods e gone \<Longrightarrow> pod \<in> set pods \<Longrightarrow> Evict api e pod = (Some err, e') \<Longrightarrow>
    evict_reach f pods e' gone"

definition running_of :: "Pod list \<Rightarrow> podReplicaCreator \<Rightarrow> Pod list" where
  "running_of pods cr = filter (\<lambda>pod. Phase pod \<noteq> PodPending) (group_of pods cr)"

lemma running_count: "int (length replicas) - pending_count replicas = int (length (filter (\<lambda>pod. Phase pod \<noteq> PodPending) replicas))"
  by (induction replicas) (auto simp: pending_count_def)

lemma running_of_Cons:
  "running_of (pod # pods) cr =
     (if getPodReplicaCreator pod = Inr (Some cr) \<and> Phase pod \<noteq> PodPending then pod # running_of pods cr
      else running_of pods cr)"
  by (simp add: running_of_def group_of_def)

text \<open>The statistics of a group after \<open>n\<close> evictions, within the budget.\<close>

definition within_budget :: "singleGroupStats \<Rightarrow> bool" where
  "within_budget s \<longleftrightarrow> 0 \<le> evicted s \<and>
     (evicted s = 0 \<or> configured s - evictionTolerance s \<le> running s - evicted s \<or>
      (evicted s = 1 \<and> running s = configured s \<and> evictionTolerance s = 0))"

lemma within_budget_Suc: "within_budget s \<Longrightarrow> group_CanEvict s \<Longrightarrow> within_budget (s\<lparr>evicted := evicted s + 1\<rparr>)"
  by (auto simp: within_budget_def group_CanEvict_def Let_def split: if_splits)

definition restriction_ok ::
    "podsEvictionRestrictionFactory \<Rightarrow> Pod list \<Rightarrow> podsEvictionRestriction \<Rightarrow> Pod list \<Rightarrow> bool" where
  "restriction_ok f pods e gone \<longleftrightarrow>
     (\<forall>cr. map_of (creatorToSingleGroupStatsMap e) cr = (if group_of pods cr = [] then None
        else map_option (evicted_update (\<lambda>_. int (length (running_of gone cr)))) (admitted f cr (group_of pods cr)))) \<and>
     (\<forall>cr s. map_of (creatorToSingleGroupStatsMap e) cr = Some s \<longrightarrow> within_budget s) \<and>
     (\<forall>pod \<in> set pods. \<forall>cr. map_of (podToReplicaCreatorMap e) (pod_key pod) = Some cr \<longleftrightarrow>
        getPodReplicaCreator pod = Inr (Some cr) \<and> admitted f cr (group_of pods cr) \<noteq> None) \<and>
     (\<forall>cr. running_of gone cr \<noteq> [] \<longrightarrow> group_of pods cr \<noteq> [] \<and> admitted f cr (group_of pods cr) \<noteq> None)"

lemma in_group_of: "pod \<in> set (group_of pods cr) \<longleftrightarrow> pod \<in> set pods \<and> getPodReplicaCreator pod = Inr (Some cr)"
  by (auto simp: group_of_def)

lemma admitted_evicted_0: "admitted f cr replicas = Some s \<Longrightarrow> evicted s = 0"
  by (auto simp: admitted_def group_stats_def split: if_splits sum.splits)

lemma restriction_okD:
  assumes "restriction_ok f pods e gone"
  shows "map_of (creatorToSingleGroupStatsMap e) cr = (if group_of pods cr = [] then None
        else map_option (evicted_update (\<lambda>_. int (length (running_of gone cr)))) (admitted f cr (group_of pods cr)))"
    "map_of (creatorToSingleGroupStatsMap e) cr = Some s \<Longrightarrow> within_budget s"
    "pod \<in> set pods \<Longrightarrow> map_of (podToReplicaCreatorMap e) (pod_key pod) = Some cr \<longleftrightarrow>
        getPodReplicaCreator pod = Inr (Some cr) \<and> admitted f cr (group_of pods cr) \<noteq> None"
    "running_of gone cr \<noteq> [] \<Longrightarrow> group_of pods cr \<noteq> [] \<and> admitted f cr (group_of pods cr) \<noteq> None"
  using assms unfolding restriction_ok_def by blast+

lemma mapped_stats:
  assumes "restriction_ok f pods e gone" "pod \<in> set pods" "map_of (podToReplicaCreatorMap e) (pod_key pod) = Some cr"
  shows "\<exists>s. map_of (creatorToSingleGroupStatsMap e) cr = Some s"
    "getPodReplicaCreator pod = Inr (Some cr)" "group_of pods cr \<noteq> []"
proof -
  have a: "getPodReplicaCreator pod = Inr (Some cr)" "admitted f cr (group_of pods cr) \<noteq> None"
    using restriction_okD(3) [OF assms(1,2), of cr] assms(3) by auto
  then have "pod \<in> set (group_of pods cr)" using assms(2) by (simp add: in_group_of)
  then show g: "group_of pods cr \<noteq> []" by auto
  show "\<exists>s. map_of (creatorToSingleGroupStatsMap e) cr = Some s"
    using restriction_okD(1) [OF assms(1), of cr] g a(2) by auto
  show "getPodReplicaCreator pod = Inr (Some cr)" by (rule a)
qed

lemma created_ok:
  assumes new: "NewPodsEvictionRestriction f pods = Inr e" and ids: "distinct (map pod_key pods)"
  shows "restriction_ok f pods e []"
proof -
  note n = NewPodsEvictionRestriction_spec [OF new]
  have z: "map_option (evicted_update (\<lambda>_. 0)) (admitted f cr (group_of pods cr)) = admitted f cr (group_of pods cr)" for cr
    using admitted_evicted_0 [of f cr "group_of pods cr"] by (cases "admitted f cr (group_of pods cr)") auto
  have budget: "within_budget s" if "map_of (creatorToSingleGroupStatsMap e) cr = Some s" for cr s
    using that n(1) [of cr] admitted_evicted_0 [of f cr "group_of pods cr" s]
    by (auto simp: within_budget_def split: if_splits)
  have some: "getPodReplicaCreator pod = Inr (Some cr) \<and> admitted f cr (group_of pods cr) \<noteq> None"
    if p: "pod \<in> set pods" and mp: "map_of (podToReplicaCreatorMap e) (pod_key pod) = Some cr" for pod cr
  proof -
    obtain q where q: "q \<in> set (group_of pods cr)" "pod_key pod = pod_key q" "admitted f cr (group_of pods cr) \<noteq> None"
      using n(2) [OF mp] by auto
    have "q = pod" using q(1,2) p ids by (auto simp: in_group_of distinct_map inj_on_def)
    then show ?thesis using q by (simp add: in_group_of)
  qed
  have "map_of (podToReplicaCreatorMap e) (pod_key pod) = Some cr"
    if p: "pod \<in> set pods" and c: "getPodReplicaCreator pod = Inr (Some cr)" "admitted f cr (group_of pods cr) \<noteq> None" for pod cr
  proof -
    have "pod \<in> set (group_of pods cr)" using p c(1) by (simp add: in_group_of)
    then obtain k where "map_of (podToReplicaCreatorMap e) (pod_key pod) = Some k" using n(3) c(2) by blast
    then show ?thesis using some [OF p] c(1) by fastforce
  qed
  then have "map_of (podToReplicaCreatorMap e) (pod_key pod) = Some cr \<longleftrightarrow>
      getPodReplicaCreator pod = Inr (Some cr) \<and> admitted f cr (group_of pods cr) \<noteq> None"
    if "pod \<in> set pods" for pod cr using some that by metis
  moreover have "running_of [] cr = []" for cr by (simp add: running_of_def group_of_def)
  ultimately show ?thesis
    unfolding restriction_ok_def using budget by (simp only: n(1) z list.size of_nat_0 if_cancel) simp
qed

lemma Evict_refused_same:
  assumes "restriction_ok f pods e gone" "pod \<in> set pods" "Evict api e pod = (Some err, e')"
  shows "e' = e"
  using assms(3) mapped_stats(1) [OF assms(1,2)]
  by (fastforce simp: Evict_def pod_key_def split: option.splits if_splits)

lemma Evict_done:
  assumes "Evict api e pod = (None, e')"
  shows "\<exists>cr. map_of (podToReplicaCreatorMap e) (pod_key pod) = Some cr \<and>
    (if Phase pod = PodPending then e' = e
     else \<exists>s. map_of (creatorToSingleGroupStatsMap e) cr = Some s \<and> group_CanEvict s \<and>
       e' = e\<lparr>creatorToSingleGroupStatsMap := AList.update cr (s\<lparr>evicted := evicted s + 1\<rparr>) (creatorToSingleGroupStatsMap e)\<rparr>)"
proof -
  obtain cr where cr: "map_of (podToReplicaCreatorMap e) (getPodID (Some pod)) = Some cr"
    using assms by (auto simp: Evict_def split: option.splits)
  have "CanEvict e pod" "api (pod_Namespace pod) (pod_Name pod) = None"
    using assms cr by (auto simp: Evict_def split: if_splits option.splits)
  then show ?thesis
    using assms cr by (cases "map_of (creatorToSingleGroupStatsMap e) cr")
      (auto simp: Evict_def CanEvict_def pod_key_def split: if_splits)
qed

lemma evicted_ok:
  assumes ok: "restriction_ok f pods e gone" and pod: "pod \<in> set pods" and ev: "Evict api e pod = (None, e')"
  shows "restriction_ok f pods e' (pod # gone)"
proof (cases "Phase pod = PodPending")
  case 1: True
  then have e: "e' = e" using Evict_done [OF ev] by auto
  have "running_of (pod # gone) k = running_of gone k" for k using 1 by (simp add: running_of_Cons)
  then show ?thesis using ok e by (simp add: restriction_ok_def)
next
  case False
  then obtain cr s where 2: "map_of (podToReplicaCreatorMap e) (pod_key pod) = Some cr" "Phase pod \<noteq> PodPending"
      "map_of (creatorToSingleGroupStatsMap e) cr = Some s" "group_CanEvict s"
      "e' = e\<lparr>creatorToSingleGroupStatsMap := AList.update cr (s\<lparr>evicted := evicted s + 1\<rparr>) (creatorToSingleGroupStatsMap e)\<rparr>"
    using Evict_done [OF ev] by auto
  note m = mapped_stats [OF ok pod 2(1)]
  note d = restriction_okD [OF ok]
  have run: "running_of (pod # gone) k = (if k = cr then pod # running_of gone k else running_of gone k)" for k
    using m(2) 2(2) by (simp add: running_of_Cons)
  have s: "map_option (evicted_update (\<lambda>_. int (length (running_of gone cr)))) (admitted f cr (group_of pods cr)) = Some s"
    using d(1) [of cr] m(3) 2(3) by simp
  then have s': "map_option (evicted_update (\<lambda>_. int (length (running_of (pod # gone) cr)))) (admitted f cr (group_of pods cr))
      = Some (s\<lparr>evicted := evicted s + 1\<rparr>)" by (auto simp: run)
  have adm: "admitted f cr (group_of pods cr) \<noteq> None" using s by auto
  have "map_of (creatorToSingleGroupStatsMap e') k = (if group_of pods k = [] then None
        else map_option (evicted_update (\<lambda>_. int (length (running_of (pod # gone) k)))) (admitted f k (group_of pods k)))" for k
    using d(1) [of k] s' m(3) by (cases "k = cr") (auto simp: 2(5) run)
  moreover have "within_budget t" if "map_of (creatorToSingleGroupStatsMap e') k = Some t" for k t
    using that d(2) within_budget_Suc [OF d(2) [OF 2(3)] 2(4)] by (auto simp: 2(5) split: if_splits)
  moreover have "group_of pods k \<noteq> [] \<and> admitted f k (group_of pods k) \<noteq> None" if "running_of (pod # gone) k \<noteq> []" for k
    using that d(4) m(3) adm by (auto simp: run split: if_splits)
  moreover have "podToReplicaCreatorMap e' = podToReplicaCreatorMap e" by (simp add: 2(5))
  ultimately show ?thesis unfolding restriction_ok_def using d(3) by simp
qed

lemma evict_reach_ok:
  assumes "evict_reach f pods e gone" "distinct (map pod_key pods)"
  shows "restriction_ok f pods e gone"
  using assms(1)
proof induction
  case (created e)
  then show ?case using created_ok assms(2) by blast
next
  case (evicted e gone pod api e')
  then show ?case using evicted_ok by blast
next
  case (refused e gone pod api err e')
  then show ?case using Evict_refused_same by blast
qed

lemma reach_stats:
  assumes "evict_reach f pods e gone" "distinct (map pod_key pods)" "group_of pods cr \<noteq> []"
    "minReplicas f \<le> int (length (group_of pods cr))" "configured_replicas f cr (group_of pods cr) = Inr n"
  shows "map_of (creatorToSingleGroupStatsMap e) cr =
    Some ((group_stats f n (group_of pods cr))\<lparr>evicted := int (length (running_of gone cr))\<rparr>)"
  using restriction_okD(1) [OF evict_reach_ok [OF assms(1,2)], of cr] assms(3-5) by (simp add: admitted_def)

lemma reach_CanEvict:
  assumes "evict_reach f pods e gone" "distinct (map pod_key pods)" "pod \<in> set (group_of pods cr)"
    "minReplicas f \<le> int (length (group_of pods cr))" "configured_replicas f cr (group_of pods cr) = Inr n"
  shows "CanEvict e pod \<longleftrightarrow> Phase pod = PodPending \<or>
    group_CanEvict ((group_stats f n (group_of pods cr))\<lparr>evicted := int (length (running_of gone cr))\<rparr>)"
proof -
  have ne: "group_of pods cr \<noteq> []" using assms(3) by auto
  have "admitted f cr (group_of pods cr) \<noteq> None" using assms(4,5) by (simp add: admitted_def)
  then have "map_of (podToReplicaCreatorMap e) (pod_key pod) = Some cr"
    using restriction_okD(3) [OF evict_reach_ok [OF assms(1,2)], of pod cr] assms(3) by (simp add: in_group_of)
  then show ?thesis using reach_stats [OF assms(1,2) ne assms(4,5)] by (simp add: CanEvict_def pod_key_def)
qed

lemma reach_budget:
  assumes "evict_reach f pods e gone" "distinct (map pod_key pods)" "running_of gone cr \<noteq> []"
  shows "\<exists>n. configured_replicas f cr (group_of pods cr) = Inr n \<and> minReplicas f \<le> int (length (group_of pods cr)) \<and>
    n - max 1 (go_trunc (of_int n * evictionToleranceFraction f)) \<le>
      int (length (running_of pods cr)) - int (length (running_of gone cr))"
proof -
  note ok = restriction_okD [OF evict_reach_ok [OF assms(1,2)]]
  have g: "group_of pods cr \<noteq> []" "admitted f cr (group_of pods cr) \<noteq> None" using ok(4) [OF assms(3)] by auto
  then obtain n where n: "minReplicas f \<le> int (length (group_of pods cr))" "configured_replicas f cr (group_of pods cr) = Inr n"
    by (auto simp: admitted_def split: if_splits sum.splits)
  have "within_budget ((group_stats f n (group_of pods cr))\<lparr>evicted := int (length (running_of gone cr))\<rparr>)"
    by (rule ok(2) [OF reach_stats [OF assms(1,2) g(1) n]])
  then show ?thesis using n assms(3) by (auto simp: within_budget_def group_stats_def running_count running_of_def)
qed

text \<open>
  C20. Whatever evictions are attempted and whatever the API server answers, once a running pod of
  a group of replicas has been evicted the running pods that remain are at least the configured
  number of replicas less the eviction tolerance, or less one where the tolerance is zero; and the
  group had at least the minimal number of live replicas to begin with.
\<close>

theorem eviction_budget:
  assumes "evict_reach f pods e gone" "distinct (map pod_key pods)" "running_of gone cr \<noteq> []"
  shows "\<exists>n. configured_replicas f cr (group_of pods cr) = Inr n \<and> minReplicas f \<le> int (length (group_of pods cr)) \<and>
    n - max 1 (go_trunc (of_int n * evictionToleranceFraction f)) \<le>
      int (length (running_of pods cr)) - int (length (running_of gone cr))"
  by (rule reach_budget [OF assms])

text \<open>
  C32. While the configured number of replicas of an admitted group runs, a running pod of the group
  can be evicted exactly as long as fewer pods than the tolerance (at least one) have been evicted;
  a pending pod of the group can always be evicted.
\<close>

theorem eviction_progress:
  assumes "evict_reach f pods e gone" "distinct (map pod_key pods)" "pod \<in> set (group_of pods cr)"
    "minReplicas f \<le> int (length (group_of pods cr))" "configured_replicas f cr (group_of pods cr) = Inr n"
    "int (length (running_of pods cr)) = n" "0 \<le> evictionToleranceFraction f"
  shows "CanEvict e pod \<longleftrightarrow> Phase pod = PodPending \<or>
    int (length (running_of gone cr)) < max 1 (go_trunc (of_int n * evictionToleranceFraction f))"
proof -
  have "0 \<le> of_int n * evictionToleranceFraction f" using assms(6,7) by (metis mult_nonneg_nonneg of_int_0_le_iff of_nat_0_le_iff)
  then have "0 \<le> go_trunc (of_int n * evictionToleranceFraction f)" by (rule go_trunc_nonneg_iff)
  moreover have run: "int (length (group_of pods cr)) - pending_count (group_of pods cr) = n"
    using assms(6) by (simp add: running_count running_of_def)
  moreover have "group_CanEvict ((group_stats f n (group_of pods cr))\<lparr>evicted := k\<rparr>) \<longleftrightarrow>
      k < max 1 (go_trunc (of_int n * evictionToleranceFraction f))" if "0 \<le> k" for k
    using calculation that by (auto simp: group_CanEvict_def group_stats_def run Let_def)
  ultimately show ?thesis by (simp add: reach_CanEvict [OF assms(1-5)])
qed

text \<open>
  Pods whose owner is no replication controller, replica set, stateful set or job, in particular
  pods without any controller, form a group with zero configured replicas: every running pod of
  such a group can be evicted, down to the last one, although the restriction is to evict only
  replicated pods.
\<close>

theorem unmanaged_pods_evictable:
  assumes "evict_reach f pods e gone" "distinct (map pod_key pods)" "pod \<in> set (group_of pods cr)"
    "prc_Kind cr \<notin> {replicationController, replicaSet, statefulSet, job}"
    "minReplicas f \<le> int (length (group_of pods cr))" "length (running_of gone cr) < length (running_of pods cr)"
  shows "CanEvict e pod"
proof -
  have n: "configured_replicas f cr (group_of pods cr) = Inr 0"
    using assms(4) by (simp add: configured_replicas_def getReplicaCount_def)
  show ?thesis
    using assms(6) by (simp add: reach_CanEvict [OF assms(1-3,5) n] group_CanEvict_def group_stats_def running_count
        running_of_def [of pods] go_trunc_def)
qed

section \<open>Concrete groups\<close>

definition owned_pod :: "string \<Rightarrow> OwnerReference list \<Rightarrow> Pod" where
  "owned_pod n owners = example_pod\<lparr>pod_Name := n, OwnerReferences := owners\<rparr>"

definition web_rs :: OwnerReference where
  "web_rs = \<lparr>or_Kind = replicaSet, or_Name = ''web'', or_APIVersion = ''apps/v1'', or_Controller = Some True, or_UID = []\<rparr>"

definition three_replicas :: podsEvictionRestrictionFactory where
  "three_replicas =
     \<lparr>rcInformer = (\<lambda>_. Inr None), ssInformer = (\<lambda>_. Inr None), rsInformer = (\<lambda>_. Inr (Some (Replicated (Some 3)))),
      minReplicas = 2, evictionToleranceFraction = 1 / 2\<rparr>"

definition web_pods :: "Pod list" where
  "web_pods = map (\<lambda>n. owned_pod n [web_rs]) [''a'', ''b'', ''c'']"

definition bare_pods :: "Pod list" where
  "bare_pods = map (\<lambda>n. owned_pod n []) [''a'', ''b'']"

definition web_creator :: podReplicaCreator where
  "web_creator = \<lparr>prc_Namespace = pod_Namespace example_pod, prc_Name = ''web'', prc_Kind = replicaSet\<rparr>"

definition bare_creator :: podReplicaCreator where
  "bare_creator = \<lparr>prc_Namespace = pod_Namespace example_pod, prc_Name = [], prc_Kind = []\<rparr>"

lemmas eviction_eval = NewPodsEvictionRestriction_def getPodReplicaCreator_def managingControllerRef_def
  web_pods_def bare_pods_def owned_pod_def web_rs_def web_creator_def bare_creator_def example_pod_def
  group_of_def running_of_def pod_key_def getPodID_def PodPending_def lookup_default_def

lemma web_reach:
  "\<exists>e. evict_reach three_replicas web_pods e [hd web_pods] \<and>
     distinct (map pod_key web_pods) \<and> group_of web_pods web_creator = web_pods"
proof -
  obtain e where e: "NewPodsEvictionRestriction three_replicas web_pods = Inr e" by (simp add: eviction_eval)
  have d: "distinct (map pod_key web_pods)" "group_of web_pods web_creator = web_pods" by (simp_all add: eviction_eval)
  note r = evict_reach.created [OF e]
  have c: "configured_replicas three_replicas web_creator (group_of web_pods web_creator) = Inr 3"
    "minReplicas three_replicas \<le> int (length (group_of web_pods web_creator))"
    unfolding d(2) by (simp_all add: configured_replicas_def getReplicaCount_def store_replicas_def three_replicas_def
        web_creator_def replicationController_def replicaSet_def job_def web_pods_def)
  have p: "hd web_pods \<in> set (group_of web_pods web_creator)" by (simp add: d(2)) (simp add: web_pods_def)
  have ev: "CanEvict e (hd web_pods)"
    unfolding reach_CanEvict [OF r d(1) p c(2,1)]
    by (simp add: group_CanEvict_def group_stats_def three_replicas_def d(2) pending_count_def go_trunc_def)
      (simp add: eviction_eval)
  have "fst (Evict (\<lambda>_ _. None) e (hd web_pods)) = None"
    using ev by (auto simp: Evict_def CanEvict_def split: option.splits if_splits)
  then obtain e' where "Evict (\<lambda>_ _. None) e (hd web_pods) = (None, e')" by (metis prod.collapse)
  moreover have "hd web_pods \<in> set web_pods" by (simp add: web_pods_def)
  ultimately show ?thesis using evict_reach.evicted [OF r] d by blast
qed

lemma web_group:
  "configured_replicas three_replicas web_creator web_pods = Inr 3" "minReplicas three_replicas \<le> int (length web_pods)"
  "go_trunc (3 * evictionToleranceFraction three_replicas) = 1" "length (running_of [hd web_pods] web_creator) = 1"
  "length (running_of web_pods web_creator) = 3"
  by (simp_all add: configured_replicas_def getReplicaCount_def store_replicas_def three_replicas_def go_trunc_def
      replicationController_def replicaSet_def job_def eviction_eval)

theorem eviction_budget_witness:
  "\<exists>e. evict_reach three_replicas web_pods e [hd web_pods] \<and> running_of [hd web_pods] web_creator \<noteq> [] \<and>
     (3 :: int) - max 1 1 \<le> int (length (running_of web_pods web_creator)) - int (length (running_of [hd web_pods] web_creator))"
proof -
  obtain e where e: "evict_reach three_replicas web_pods e [hd web_pods]" "distinct (map pod_key web_pods)"
    "group_of web_pods web_creator = web_pods" using web_reach by blast
  have ne: "running_of [hd web_pods] web_creator \<noteq> []" using web_group(4) by auto
  show ?thesis using eviction_budget [OF e(1,2) ne] e(1) ne web_group by (auto simp: e(3))
qed

theorem eviction_progress_witness:
  "\<exists>e. evict_reach three_replicas web_pods e [hd web_pods] \<and> \<not> CanEvict e (hd web_pods)"
proof -
  obtain e where e: "evict_reach three_replicas web_pods e [hd web_pods]" "distinct (map pod_key web_pods)"
    "group_of web_pods web_creator = web_pods" using web_reach by blast
  have p: "hd web_pods \<in> set (group_of web_pods web_creator)" unfolding e(3) by (simp add: web_pods_def)
  have c: "minReplicas three_replicas \<le> int (length (group_of web_pods web_creator))"
    "configured_replicas three_replicas web_creator (group_of web_pods web_creator) = Inr 3"
    unfolding e(3) by (rule web_group)+
  have "Phase (hd web_pods) \<noteq> PodPending" by (simp add: eviction_eval)
  then show ?thesis
    using eviction_progress [OF e(1,2) p c] e(1) web_group by (auto simp: three_replicas_def)
qed

theorem unmanaged_pods_evictable_witness:
  "\<exists>e. evict_reach three_replicas bare_pods e [] \<and> (\<forall>pod \<in> set bare_pods. OwnerReferences pod = [] \<and> CanEvict e pod)"
proof -
  obtain e where e: "NewPodsEvictionRestriction three_replicas bare_pods = Inr e" by (simp add: eviction_eval)
  note r = evict_reach.created [OF e]
  have d: "distinct (map pod_key bare_pods)" "group_of bare_pods bare_creator = bare_pods"
    "length (running_of bare_pods bare_creator) = 2" "length (running_of [] bare_creator) = 0"
    by (simp_all add: eviction_eval)
  have "CanEvict e pod" if "pod \<in> set bare_pods" for pod
    by (rule unmanaged_pods_evictable [OF r d(1), of pod bare_creator])
      (use that d in \<open>simp_all add: bare_creator_def replicationController_def replicaSet_def statefulSet_def job_def
         three_replicas_def\<close>, simp add: bare_pods_def)
  moreover have "OwnerReferences pod = []" if "pod \<in> set bare_pods" for pod
    using that by (auto simp: bare_pods_def owned_pod_def)
  ultimately show ?thesis using r by blast
qed

end
