(* ===== verification/Updater.thy ===== *)
theory Updater
  imports Priority Eviction
begin

text \<open>
  \<open>pkg/updater/logic/updater.go\<close>: one iteration of the updater. What the iteration reads from the
  cluster is an argument (\<open>updater_inputs\<close>): the status of the admission controller, the lists of
  VPAs and pods, the selectors, the answers of the rate limiter and of the API server to the n-th
  request, and the clock. The result lists the evicted pods of every VPA in order. A selector is
  fetched or there is an error: the case that a fetcher returns neither, in which the code would
  dereference nil, is not represented. When a later step of an iteration panics the result is the panic, without
  the evictions made before it.
\<close>

section \<open>One iteration\<close>

record 's updater =
  evictionFactory :: podsEvictionRestrictionFactory
  u_recommendationProcessor :: RecommendationProcessor
  evictionAdmission :: "'s PodEvictionAdmission option"
  u_priorityProcessor :: PriorityProcessor
  useAdmissionControllerStatus :: bool
  evictAfterOOMThreshold :: duration
  u_sort :: sorter

record updater_inputs =
  in_statusValid :: "bool result"
  in_vpas :: "VerticalPodAutoscaler list result"
  in_selector :: "VerticalPodAutoscaler \<Rightarrow> Selector result"
  in_pods :: "Pod list result"
  in_wait :: "nat \<Rightarrow> go_error option"
  in_evict :: "nat \<Rightarrow> string \<Rightarrow> string \<Rightarrow> go_error option"
  in_now :: "Pod \<Rightarrow> time"

definition select_vpas ::
    "(VerticalPodAutoscaler \<Rightarrow> Selector result) \<Rightarrow> VerticalPodAutoscaler list \<Rightarrow> VpaWithSelector list" where
  "select_vpas fetch vpaList =
     concat (map (\<lambda>vpa.
       if GetUpdateMode vpa \<noteq> UpdateModeRecreate \<and> GetUpdateMode vpa \<noteq> UpdateModeAuto then []
       else (case fetch vpa of Inl _ \<Rightarrow> [] | Inr selector \<Rightarrow> [\<lparr>ws_Vpa = vpa, ws_Selector = selector\<rparr>])) vpaList)"

definition filterDeletedPods :: "Pod list \<Rightarrow> Pod list" where
  "filterDeletedPods pods = filter (\<lambda>pod. DeletionTimestamp pod = None) pods"

definition filterNonEvictablePods :: "Pod list \<Rightarrow> podsEvictionRestriction \<Rightarrow> Pod list" where
  "filterNonEvictablePods pods evictionRestriction = filter (CanEvict evictionRestriction) pods"

definition controlled_pods :: "VpaWithSelector list \<Rightarrow> Pod list \<Rightarrow> (VerticalPodAutoscaler, Pod list) gomap" where
  "controlled_pods vpas allLivePods =
     fold (\<lambda>pod m. case GetControllingVPAForPod pod vpas of
             None \<Rightarrow> m
           | Some controllingVPA \<Rightarrow>
               AList.update (ws_Vpa controllingVPA) (lookup_default [] m (ws_Vpa controllingVPA) @ [pod]) m)
       allLivePods []"

fun add_pods :: "duration \<Rightarrow> (Pod \<Rightarrow> time) \<Rightarrow> UpdatePriorityCalculator \<Rightarrow> Pod list \<Rightarrow> UpdatePriorityCalculator result" where
  "add_pods threshold now calc [] = Inr calc"
| "add_pods threshold now calc (pod # pods) =
     rbind (AddPod threshold calc pod (now pod)) (\<lambda>calc'. add_pods threshold now calc' pods)"

definition getPodsUpdateOrder ::
    "'s updater \<Rightarrow> (Pod \<Rightarrow> time) \<Rightarrow> 's \<Rightarrow> Pod list \<Rightarrow> VerticalPodAutoscaler \<Rightarrow> (Pod list \<times> 's) result" where
  "getPodsUpdateOrder u now s pods vpa =
     rbind (add_pods (evictAfterOOMThreshold u) now
              (NewUpdatePriorityCalculator vpa None (u_recommendationProcessor u) (u_priorityProcessor u)) pods)
       (\<lambda>calc. let (result, s', _) = GetSortedPods (u_sort u) (evictionAdmission u) s calc in Inr (result, s'))"

text \<open>
  The inner loop; \<open>n\<close> counts the requests so far. It returns whether it ran to its end, the
  restriction, the evicted pods and the counter. A failing rate limiter ends the iteration.
\<close>

fun evict_pods ::
    "(nat \<Rightarrow> go_error option) \<Rightarrow> (nat \<Rightarrow> string \<Rightarrow> string \<Rightarrow> go_error option) \<Rightarrow> podsEvictionRestriction \<Rightarrow> Pod list \<Rightarrow> nat \<Rightarrow>
     bool \<times> podsEvictionRestriction \<times> Pod list \<times> nat" where
  "evict_pods wait api e [] n = (True, e, [], n)"
| "evict_pods wait api e (pod # pods) n =
     (if \<not> CanEvict e pod then evict_pods wait api e pods n
      else (case wait n of
          Some _ \<Rightarrow> (False, e, [], Suc n)
        | None \<Rightarrow>
            let (err, e') = Evict (api n) e pod;
                (finished, e'', gone, n') = evict_pods wait api e' pods (Suc n)
            in (finished, e'', if err = None then pod # gone else gone, n')))"

fun evict_vpas ::
    "'s updater \<Rightarrow> updater_inputs \<Rightarrow> 's \<Rightarrow> (VerticalPodAutoscaler \<times> Pod list) list \<Rightarrow> nat \<Rightarrow>
     ((VerticalPodAutoscaler \<times> Pod list) list \<times> 's) result" where
  "evict_vpas u io s [] n = Inr ([], s)"
| "evict_vpas u io s ((vpa, livePods) # rest) n =
     rbind (NewPodsEvictionRestriction (evictionFactory u) livePods) (\<lambda>evictionLimiter.
     rbind (getPodsUpdateOrder u (in_now io) s (filterNonEvictablePods livePods evictionLimiter) vpa) (\<lambda>(podsForUpdate, s').
       let (finished, _, gone, n') = evict_pods (in_wait io) (in_evict io) evictionLimiter podsForUpdate n
       in if finished
          then rbind (evict_vpas u io s' rest n') (\<lambda>(more, s''). Inr ((vpa, gone) # more, s''))
          else Inr ([(vpa, gone)], s')))"

definition RunOnce :: "'s updater \<Rightarrow> updater_inputs \<Rightarrow> 's \<Rightarrow> ((VerticalPodAutoscaler \<times> Pod list) list \<times> 's) result" where
  "RunOnce u io s =
     (if useAdmissionControllerStatus u \<and> in_statusValid io \<noteq> Inr True then Inr ([], s)
      else (case in_vpas io of
          Inl _ \<Rightarrow> Inl (Panic ''failed get VPA list'')
        | Inr vpaList \<Rightarrow>
            let vpas = select_vpas (in_selector io) vpaList in
            if vpas = [] then Inr ([], case evictionAdmission u of None \<Rightarrow> s | Some a \<Rightarrow> op_CleanUp a s)
            else (case in_pods io of
                Inl _ \<Rightarrow> Inr ([], s)
              | Inr podsList \<Rightarrow>
                  let allLivePods = filterDeletedPods podsList;
                      controlledPods = controlled_pods vpas allLivePods;
                      s1 = (case evictionAdmission u of None \<Rightarrow> s | Some a \<Rightarrow> op_LoopInit a allLivePods controlledPods s)
                  in evict_vpas u io s1 controlledPods 0)))"

section \<open>What an iteration evicts\<close>

lemma subset_add_mset: "A \<subseteq># B \<Longrightarrow> A \<subseteq># add_mset x B"
  by (auto simp: subseteq_mset_def le_SucI)

lemma distinct_submset:
  assumes "distinct xs" "mset ys \<subseteq># mset xs"
  shows "distinct ys"
proof -
  have "count (mset ys) a = (if a \<in> set ys then 1 else 0)" for a
  proof -
    have "count (mset ys) a \<le> count (mset xs) a" using assms(2) by (rule mset_subset_eq_count)
    also have "\<dots> \<le> 1" using assms(1) by (simp add: distinct_count_atmost_1)
    finally show ?thesis using count_greater_zero_iff [of "mset ys" a] by (cases "a \<in> set ys") (simp_all del: count_greater_zero_iff)
  qed
  then show ?thesis by (simp add: distinct_count_atmost_1)
qed

lemma evict_pods_reach:
  assumes "evict_reach f livePods e gone0" "set pods \<subseteq> set livePods" "evict_pods wait api e pods n = (fin, e', gone, n')"
  shows "\<exists>gone'. evict_reach f livePods e' gone' \<and> mset gone' = mset gone + mset gone0 \<and> mset gone \<subseteq># mset pods"
  using assms
proof (induction pods arbitrary: e gone0 n fin e' gone n')
  case (Cons pod pods)
  show ?case
  proof (cases "CanEvict e pod")
    case False
    then obtain gone' where "evict_reach f livePods e' gone'" "mset gone' = mset gone + mset gone0" "mset gone \<subseteq># mset pods"
      using Cons.IH [of e gone0 n fin e' gone n'] Cons.prems by auto
    then show ?thesis using subset_add_mset by (intro exI [of _ gone']) simp
  next
    case True
    show ?thesis
    proof (cases "wait n")
      case (Some err)
      then show ?thesis using True Cons.prems by auto
    next
      case None
      obtain err e1 where ev: "Evict (api n) e pod = (err, e1)" by fastforce
      obtain fin' e2 gone2 n2 where r: "evict_pods wait api e1 pods (Suc n) = (fin', e2, gone2, n2)" by (metis prod_cases4)
      have eq: "e' = e2" "gone = (if err = None then pod # gone2 else gone2)"
        using Cons.prems(3) True None ev r by (auto simp: Let_def)
      have pod: "pod \<in> set livePods" and sub: "set pods \<subseteq> set livePods" using Cons.prems(2) by auto
      have "evict_reach f livePods e1 (if err = None then pod # gone0 else gone0)"
        using Cons.prems(1) pod ev by (cases err) (auto intro: evict_reach.evicted evict_reach.refused)
      from Cons.IH [OF this sub r] obtain gone' where
        "evict_reach f livePods e2 gone'" "mset gone' = mset gone2 + mset (if err = None then pod # gone0 else gone0)"
        "mset gone2 \<subseteq># mset pods" by blast
      then show ?thesis unfolding eq
        using subset_add_mset by (intro exI [of _ gone']) auto
    qed
  qed
qed auto

lemma AddPod_pods:
  assumes "AddPod threshold calc pod now = Inr calc'"
  shows "\<exists>ps. calc_pods calc' = calc_pods calc @ ps \<and> mset (map pp_pod ps) \<subseteq># {#pod#}"
  using assms
  by (auto simp: AddPod_def Let_def split: sum.splits go_error.splits prod.splits if_splits option.splits)

lemma add_pods_pods:
  "add_pods threshold now calc pods = Inr calc' \<Longrightarrow>
   \<exists>ps. calc_pods calc' = calc_pods calc @ ps \<and> mset (map pp_pod ps) \<subseteq># mset pods"
proof (induction pods arbitrary: calc)
  case (Cons pod pods)
  obtain calc1 where c: "AddPod threshold calc pod (now pod) = Inr calc1" "add_pods threshold now calc1 pods = Inr calc'"
    using Cons.prems by auto
  obtain ps where ps: "calc_pods calc1 = calc_pods calc @ ps" "mset (map pp_pod ps) \<subseteq># {#pod#}"
    using AddPod_pods [OF c(1)] by blast
  obtain qs where qs: "calc_pods calc' = calc_pods calc1 @ qs" "mset (map pp_pod qs) \<subseteq># mset pods"
    using Cons.IH [OF c(2)] by blast
  have "mset (map pp_pod (ps @ qs)) \<subseteq># {#pod#} + mset pods"
    using subset_mset.add_mono [OF ps(2) qs(2)] by simp
  then show ?case using ps(1) qs(1) by (intro exI [of _ "ps @ qs"]) simp
qed simp

lemma sorted_pods_subset:
  assumes "sort_ok sort_Sort"
  shows "mset (fst (GetSortedPods sort_Sort admission s calc)) \<subseteq># mset (map pp_pod (calc_pods calc))"
proof -
  let ?xs = "sort_Sort byPriorityDesc (calc_pods calc)"
  have m: "mset ?xs = mset (calc_pods calc)" using assms byPriorityDesc_order unfolding sort_ok_def by blast
  obtain ps' where "fst (admit_pods admission s ?xs) = map pp_pod ps'" "mset ps' \<subseteq># mset ?xs"
    using admit_pods_subset [of admission s ?xs "\<lambda>_ _. True"] by blast
  then show ?thesis using image_mset_subseteq_mono [of "mset ps'" "mset ?xs" pp_pod]
    by (simp add: GetSortedPods_def Let_def m case_prod_beta)
qed

lemma getPodsUpdateOrder_subset:
  assumes "sort_ok (u_sort u)" "getPodsUpdateOrder u now s pods vpa = Inr (result, s')"
  shows "mset result \<subseteq># mset pods"
proof -
  obtain calc where c: "add_pods (evictAfterOOMThreshold u) now
      (NewUpdatePriorityCalculator vpa None (u_recommendationProcessor u) (u_priorityProcessor u)) pods = Inr calc"
    "result = fst (GetSortedPods (u_sort u) (evictionAdmission u) s calc)"
    using assms(2) by (auto simp: getPodsUpdateOrder_def Let_def case_prod_beta)
  have "mset (map pp_pod (calc_pods calc)) \<subseteq># mset pods"
    using add_pods_pods [OF c(1)] by (auto simp: NewUpdatePriorityCalculator_def)
  then show ?thesis using sorted_pods_subset [OF assms(1), of "evictionAdmission u" s calc] c(2)
    by (metis subset_mset.order_trans)
qed

lemma evict_vpas_reach:
  assumes "sort_ok (u_sort u)" "evict_vpas u io s controlled n = Inr (evictions, s')" "(vpa, gone) \<in> set evictions"
  shows "\<exists>livePods e gone'. (vpa, livePods) \<in> set controlled \<and> evict_reach (evictionFactory u) livePods e gone' \<and>
    mset gone' = mset gone \<and> mset gone \<subseteq># mset livePods"
  using assms(2,3)
proof (induction controlled arbitrary: s n evictions s')
  case (Cons c controlled)
  obtain v livePods where c: "c = (v, livePods)" by (cases c)
  obtain e where e: "NewPodsEvictionRestriction (evictionFactory u) livePods = Inr e"
    using Cons.prems(1) by (auto simp: c)
  obtain pods s1 where p: "getPodsUpdateOrder u (in_now io) s (filterNonEvictablePods livePods e) v = Inr (pods, s1)"
    using Cons.prems(1) by (auto simp: c e)
  obtain fin e1 gone1 n1 where g: "evict_pods (in_wait io) (in_evict io) e pods n = (fin, e1, gone1, n1)" by (metis prod_cases4)
  have "mset (filterNonEvictablePods livePods e) \<subseteq># mset livePods"
    by (simp add: filterNonEvictablePods_def multiset_filter_subset mset_filter)
  then have sub: "mset pods \<subseteq># mset livePods"
    using getPodsUpdateOrder_subset [OF assms(1) p] by (rule subset_mset.order_trans [rotated])
  then have "set pods \<subseteq> set livePods" by (metis set_mset_mono set_mset_mset)
  from evict_pods_reach [OF evict_reach.created [OF e] this g] obtain gone' where
    r: "evict_reach (evictionFactory u) livePods e1 gone'" "mset gone' = mset gone1" "mset gone1 \<subseteq># mset pods" by auto
  show ?case
  proof (cases "(vpa, gone) = (v, gone1)")
    case True
    have "mset gone1 \<subseteq># mset livePods" using r(3) sub by (rule subset_mset.order_trans)
    then have "(vpa, livePods) \<in> set (c # controlled) \<and> evict_reach (evictionFactory u) livePods e1 gone' \<and>
        mset gone' = mset gone \<and> mset gone \<subseteq># mset livePods"
      using True r by (simp add: c)
    then show ?thesis by blast
  next
    case False
    then obtain more s2 where m: "evict_vpas u io s1 controlled n1 = Inr (more, s2)" "(vpa, gone) \<in> set more"
      using Cons.prems by (auto simp: c e p g Let_def split: if_splits)
    then show ?thesis using Cons.IH [OF m] by auto
  qed
qed simp

lemma controlled_pods_spec:
  "gomap_ok (controlled_pods vpas pods) \<and>
   (\<forall>vpa livePods. map_of (controlled_pods vpas pods) vpa = Some livePods \<longrightarrow>
      livePods = filter (\<lambda>pod. map_option ws_Vpa (GetControllingVPAForPod pod vpas) = Some vpa) pods \<and> livePods \<noteq> [])"
proof -
  define step where "step pod m = (case GetControllingVPAForPod pod vpas of
      None \<Rightarrow> m | Some w \<Rightarrow> AList.update (ws_Vpa w) (lookup_default [] m (ws_Vpa w) @ [pod]) m)"
    for pod and m :: "(VerticalPodAutoscaler, Pod list) gomap"
  define mine where "mine vpa = filter (\<lambda>pod. map_option ws_Vpa (GetControllingVPAForPod pod vpas) = Some vpa)" for vpa
  have "gomap_ok (fold step pods []) \<and> (\<forall>vpa. lookup_default [] (fold step pods []) vpa = mine vpa pods \<and>
      map_of (fold step pods []) vpa \<noteq> Some [])"
  proof (induction pods rule: rev_induct)
    case Nil
    then show ?case by (simp add: lookup_default_def mine_def)
  next
    case (snoc pod pods)
    then show ?case
      by (cases "GetControllingVPAForPod pod vpas") (auto simp: step_def lookup_default_def mine_def)
  qed
  moreover have "controlled_pods vpas pods = fold step pods []"
    by (simp add: controlled_pods_def step_def [abs_def])
  ultimately have "gomap_ok (controlled_pods vpas pods)"
    "lookup_default [] (controlled_pods vpas pods) vpa = mine vpa pods" "map_of (controlled_pods vpas pods) vpa \<noteq> Some []" for vpa
    by simp_all
  then show ?thesis unfolding mine_def lookup_default_def by (metis option.simps(5))
qed

lemma GetControllingVPAForPod_mem: "GetControllingVPAForPod pod vpas = Some w \<Longrightarrow> w \<in> set vpas"
  using fold_choose_stronger [of pod vpas None, OF refl] by (auto simp: GetControllingVPAForPod_def)

lemma select_vpas_mode:
  "w \<in> set (select_vpas fetch vpaList) \<Longrightarrow>
   ws_Vpa w \<in> set vpaList \<and> GetUpdateMode (ws_Vpa w) \<in> {UpdateModeRecreate, UpdateModeAuto} \<and> fetch (ws_Vpa w) = Inr (ws_Selector w)"
  by (auto simp: select_vpas_def split: if_splits sum.splits)

text \<open>
  C5. Whatever an iteration of the updater evicts is safe. It evicts only pods that are not being
  deleted and that are controlled by the VPA they are evicted for, which is in mode Recreate or
  Auto; each pod at most once; nothing at all while the status of the admission controller is not
  known to be valid, if that is to be observed; and for every group of replicas among the pods of
  a VPA the running pods that remain are within the eviction budget of the group.
\<close>

theorem RunOnce_safe:
  assumes "sort_ok (u_sort u)" "RunOnce u io s = Inr (evictions, s')" "(vpa, gone) \<in> set evictions"
    "in_pods io = Inr podsList" "distinct (map pod_key podsList)" "in_vpas io = Inr vpaList"
    "livePods = filter (\<lambda>pod. DeletionTimestamp pod = None \<and>
       map_option ws_Vpa (GetControllingVPAForPod pod (select_vpas (in_selector io) vpaList)) = Some vpa) podsList"
  shows "(useAdmissionControllerStatus u \<longrightarrow> in_statusValid io = Inr True) \<and>
    vpa \<in> set vpaList \<and> GetUpdateMode vpa \<in> {UpdateModeRecreate, UpdateModeAuto} \<and>
    mset gone \<subseteq># mset livePods \<and> distinct gone \<and>
    (\<forall>cr. running_of gone cr \<noteq> [] \<longrightarrow>
       (\<exists>n. configured_replicas (evictionFactory u) cr (group_of livePods cr) = Inr n \<and>
          n - max 1 (go_trunc (of_int n * evictionToleranceFraction (evictionFactory u))) \<le>
            int (length (running_of livePods cr)) - int (length (running_of gone cr))))"
proof -
  let ?vpas = "select_vpas (in_selector io) vpaList"
  have st: "useAdmissionControllerStatus u \<longrightarrow> in_statusValid io = Inr True"
    using assms(2,3) by (auto simp: RunOnce_def split: if_splits)
  obtain s1 where run: "evict_vpas u io s1 (controlled_pods ?vpas (filterDeletedPods podsList)) 0 = Inr (evictions, s')"
    using assms(2,3,4,6) by (auto simp: RunOnce_def Let_def split: if_splits)
  obtain lp e gone' where r: "(vpa, lp) \<in> set (controlled_pods ?vpas (filterDeletedPods podsList))"
    "evict_reach (evictionFactory u) lp e gone'" "mset gone' = mset gone" "mset gone \<subseteq># mset lp"
    using evict_vpas_reach [OF assms(1) run assms(3)] by blast
  have cp: "lp = filter (\<lambda>pod. map_option ws_Vpa (GetControllingVPAForPod pod ?vpas) = Some vpa) (filterDeletedPods podsList)" "lp \<noteq> []"
    using controlled_pods_spec [of ?vpas "filterDeletedPods podsList"] r(1) by (auto simp: in_set_map_of)
  have lp: "lp = livePods" by (simp add: cp(1) assms(7) filterDeletedPods_def conj_commute)
  obtain pod where "pod \<in> set livePods" using cp(2) lp by (cases livePods) auto
  then obtain w where w: "GetControllingVPAForPod pod ?vpas = Some w" "ws_Vpa w = vpa" by (auto simp: assms(7))
  have "w \<in> set ?vpas" using w(1) by (rule GetControllingVPAForPod_mem)
  then have vpa: "vpa \<in> set vpaList" "GetUpdateMode vpa \<in> {UpdateModeRecreate, UpdateModeAuto}"
    using select_vpas_mode [of w] w(2) by auto
  have d: "distinct (map pod_key livePods)" using assms(5) by (simp add: assms(7) distinct_map_filter)
  then have "distinct livePods" by (simp add: distinct_map)
  then have dg: "distinct gone" using distinct_submset r(4) unfolding lp by blast
  have len: "length (running_of gone cr) = length (running_of gone' cr)" for cr
    using r(3) by (metis group_of_def running_of_def mset_filter size_mset)
  have "\<exists>n. configured_replicas (evictionFactory u) cr (group_of livePods cr) = Inr n \<and>
      n - max 1 (go_trunc (of_int n * evictionToleranceFraction (evictionFactory u))) \<le>
        int (length (running_of livePods cr)) - int (length (running_of gone cr))" if "running_of gone cr \<noteq> []" for cr
  proof -
    have "running_of gone' cr \<noteq> []" using that len [of cr] by auto
    then show ?thesis using reach_budget [OF r(2) d [folded lp], of cr] len [of cr] by (auto simp: lp)
  qed
  then show ?thesis using st vpa dg r(4) lp by blast
qed

section \<open>A concrete iteration\<close>

definition plain_updater :: "unit updater" where
  "plain_updater =
     \<lparr>evictionFactory = three_replicas, u_recommendationProcessor = sequential_Apply [],
      evictionAdmission = Some noopPodEvictionAdmission, u_priorityProcessor = (\<lambda>_ _ _. prio True 1),
      useAdmissionControllerStatus = True, evictAfterOOMThreshold = 10 * minute, u_sort = insertionSort\<rparr>"

definition web_inputs :: updater_inputs where
  "web_inputs =
     \<lparr>in_statusValid = Inr True, in_vpas = Inr [example_vpa1], in_selector = (\<lambda>_. Inr (InternalSelector [])),
      in_pods = Inr web_pods, in_wait = (\<lambda>_. None), in_evict = (\<lambda>_ _ _. None), in_now = (\<lambda>_. 0)\<rparr>"

lemma web_select: "select_vpas (in_selector web_inputs) [example_vpa1] =
    [\<lparr>ws_Vpa = example_vpa1, ws_Selector = InternalSelector []\<rparr>]"
  by (simp add: select_vpas_def web_inputs_def GetUpdateMode_def example_vpa1_def example_vpa_def)

lemma web_controlling:
  "p \<in> set web_pods \<Longrightarrow> GetControllingVPAForPod p [\<lparr>ws_Vpa = example_vpa1, ws_Selector = InternalSelector []\<rparr>] =
     Some \<lparr>ws_Vpa = example_vpa1, ws_Selector = InternalSelector []\<rparr>"
  by (auto simp: GetControllingVPAForPod_def choose_stronger_def PodMatchesVPA_def PodLabelsMatchVPA_def stronger_def
      example_vpa1_def example_vpa_def web_pods_def owned_pod_def example_pod_def)

definition web_restriction :: "int \<Rightarrow> podsEvictionRestriction" where
  "web_restriction n =
     \<lparr>podToReplicaCreatorMap = map (\<lambda>pod. (pod_key pod, web_creator)) web_pods,
      creatorToSingleGroupStatsMap =
        [(web_creator, \<lparr>configured = 3, pending = 0, running = 3, evictionTolerance = 1, evicted = n\<rparr>)]\<rparr>"

lemma web_restriction_new: "NewPodsEvictionRestriction three_replicas web_pods = Inr (web_restriction 0)"
proof -
  have "group_live_pods web_pods [] = Inr [(web_creator, web_pods)]" by (simp add: eviction_eval)
  moreover have "group_stats three_replicas 3 web_pods = \<lparr>configured = 3, pending = 0, running = 3, evictionTolerance = 1, evicted = 0\<rparr>"
    using web_group(3) by (simp add: group_stats_def pending_count_def) (simp add: eviction_eval)
  moreover have "fold (\<lambda>pod m. AList.update (getPodID (Some pod)) web_creator m) web_pods [] =
      map (\<lambda>pod. (pod_key pod, web_creator)) web_pods" by (simp add: eviction_eval)
  ultimately show ?thesis
    using web_group(1,2)
    by (simp add: NewPodsEvictionRestriction_def add_group_def web_restriction_def)
qed

lemma web_CanEvict: "pod \<in> set web_pods \<Longrightarrow> CanEvict (web_restriction n) pod \<longleftrightarrow> n < 1"
  by (auto simp: CanEvict_def web_restriction_def group_CanEvict_def web_pods_def pod_key_def getPodID_def owned_pod_def
      example_pod_def PodPending_def)

lemma web_Evict: "pod \<in> set web_pods \<Longrightarrow> Evict (\<lambda>_ _. None) (web_restriction 0) pod = (None, web_restriction 1)"
proof -
  assume p: "pod \<in> set web_pods"
  have "map_of (podToReplicaCreatorMap (web_restriction 0)) (getPodID (Some pod)) = Some web_creator" "Phase pod \<noteq> PodPending"
    using p by (auto simp: web_restriction_def web_pods_def pod_key_def getPodID_def owned_pod_def example_pod_def PodPending_def)
  then show ?thesis using web_CanEvict [OF p, of 0] by (simp add: Evict_def) (simp add: web_restriction_def)
qed

lemma web_order: "getPodsUpdateOrder plain_updater now () web_pods example_vpa1 = Inr (web_pods, ())"
  by (simp add: getPodsUpdateOrder_def plain_updater_def web_pods_def NewUpdatePriorityCalculator_def AddPod_def
      sequential_Apply_def Let_def prio_def detect_quickOOM_def owned_pod_def example_pod_def GetSortedPods_def
      insertionSort_def byPriorityDesc_def Less_def noopPodEvictionAdmission_def case_prod_beta)

lemma web_run: "RunOnce plain_updater web_inputs () = Inr ([(example_vpa1, [hd web_pods])], ())"
proof -
  have c: "controlled_pods [\<lparr>ws_Vpa = example_vpa1, ws_Selector = InternalSelector []\<rparr>] web_pods = [(example_vpa1, web_pods)]"
    using web_controlling by (simp add: controlled_pods_def web_pods_def lookup_default_def)
  have f: "filterDeletedPods web_pods = web_pods" "filterNonEvictablePods web_pods (web_restriction 0) = web_pods"
    using web_CanEvict [of _ 0] by (simp_all add: filterNonEvictablePods_def filter_id_conv)
      (simp add: filterDeletedPods_def web_pods_def owned_pod_def example_pod_def)
  obtain p q r where w: "web_pods = [p, q, r]" by (simp add: web_pods_def)
  have e: "evict_pods (\<lambda>_. None) (\<lambda>_ _ _. None) (web_restriction 0) web_pods 0 = (True, web_restriction 1, [hd web_pods], 1)"
    using web_CanEvict [unfolded w] web_Evict [unfolded w] unfolding w by simp
  have v: "evict_vpas plain_updater web_inputs () [(example_vpa1, web_pods)] 0 = Inr ([(example_vpa1, [hd web_pods])], ())"
    using web_restriction_new web_order [of "in_now web_inputs"] e f(2)
    by (simp add: web_inputs_def) (simp add: plain_updater_def)
  have "select_vpas (in_selector web_inputs) [example_vpa1] \<noteq> []" by (simp add: web_select)
  then show ?thesis
    using c f(1) v web_select
    by (simp add: RunOnce_def plain_updater_def web_inputs_def noopPodEvictionAdmission_def Let_def)
qed

theorem RunOnce_safe_witness:
  "\<exists>evictions. RunOnce plain_updater web_inputs () = Inr (evictions, ()) \<and> evictions = [(example_vpa1, [hd web_pods])] \<and>
     GetUpdateMode example_vpa1 \<in> {UpdateModeRecreate, UpdateModeAuto}"
proof -
  have "sort_ok (u_sort plain_updater)" "in_pods web_inputs = Inr web_pods" "in_vpas web_inputs = Inr [example_vpa1]"
    "distinct (map pod_key web_pods)"
    using insertionSort_ok web_reach by (simp_all add: plain_updater_def web_inputs_def)
  from RunOnce_safe [OF this(1) web_run _ this(2,4,3) refl, of example_vpa1 "[hd web_pods]"] web_run show ?thesis by simp
qed

end
