(* ===== verification/Go_Strings.thy ===== *)
theory Go_Strings
  imports Go_Prelude
begin

text \<open>
  Printing and scanning of numbers, as Go's \<open>fmt\<close> does it: \<open>%d\<close> for natural numbers, \<open>%f\<close> for
  floats in both directions, and the value of a string of decimal digits.
\<close>

section \<open>Natural numbers\<close>

definition digits :: string where "digits = ''0123456789''"

fun show_nat :: "nat \<Rightarrow> string" where
  "show_nat n = (if n < 10 then [digits ! n] else show_nat (n div 10) @ [digits ! (n mod 10)])"

declare show_nat.simps [simp del]

definition show_int :: "int \<Rightarrow> string" where
  "show_int i = (if i < 0 then ''-'' @ show_nat (nat (- i)) else show_nat (nat i))"

lemma digit_inj: "m < 10 \<Longrightarrow> n < 10 \<Longrightarrow> digits ! m = digits ! n \<longleftrightarrow> m = n"
  by (rule nth_eq_iff_index_eq) (simp_all add: digits_def)

lemma show_nat_not_Nil: "show_nat n \<noteq> []"
  by (subst show_nat.simps) simp

lemma show_nat_inject: "show_nat m = show_nat n \<longleftrightarrow> m = n"
proof (induction m arbitrary: n rule: show_nat.induct)
  case (1 m)
  show ?case
  proof (cases "m < 10")
    case True
    then have "show_nat m = [digits ! m]" by (simp add: show_nat.simps [of m])
    then show ?thesis
      using True show_nat_not_Nil [of "n div 10"] by (subst (2) show_nat.simps) (auto simp: digit_inj)
  next
    case False
    then have m: "show_nat m = show_nat (m div 10) @ [digits ! (m mod 10)]" by (simp add: show_nat.simps [of m])
    show ?thesis
    proof (cases "n < 10")
      case True
      then show ?thesis using False show_nat_not_Nil [of "m div 10"] by (simp add: m show_nat.simps [of n])
    next
      case n: False
      have "m = n" if "m div 10 = n div 10" "m mod 10 = n mod 10" using that by (metis div_mult_mod_eq)
      then show ?thesis using 1 [OF False, of "n div 10"] n by (auto simp: m show_nat.simps [of n] digit_inj)
    qed
  qed
qed

definition is_digit :: "char \<Rightarrow> bool" where
  "is_digit c \<longleftrightarrow> 48 \<le> (of_char c :: nat) \<and> (of_char c :: nat) \<le> 57"

definition digit_value :: "char \<Rightarrow> nat" where
  "digit_value c = of_char c - 48"

fun decimal_from :: "nat \<Rightarrow> string \<Rightarrow> nat" where
  "decimal_from n [] = n"
| "decimal_from n (c # cs) = decimal_from (10 * n + digit_value c) cs"

definition decimal :: "string \<Rightarrow> nat" where
  "decimal s = decimal_from 0 s"

lemma is_digit_digits: "n < 10 \<Longrightarrow> is_digit (digits ! n) \<and> digit_value (digits ! n) = n"
proof -
  have "\<forall>n < 10. is_digit (digits ! n) \<and> digit_value (digits ! n) = n" by code_simp
  then show "n < 10 \<Longrightarrow> ?thesis" by blast
qed

lemma digit_value_less: "is_digit c \<Longrightarrow> digit_value c < 10"
  by (auto simp: is_digit_def digit_value_def)

lemma decimal_from_append: "decimal_from n (s @ t) = decimal_from (decimal_from n s) t"
  by (induction s arbitrary: n) auto

lemma decimal_from_shift: "decimal_from n s = n * 10 ^ length s + decimal s"
proof (induction s arbitrary: n)
  case (Cons c s)
  have "decimal (c # s) = digit_value c * 10 ^ length s + decimal s" using Cons [of "digit_value c"] by (simp add: decimal_def)
  then show ?case using Cons [of "10 * n + digit_value c"] by (simp add: algebra_simps)
qed (simp add: decimal_def)

lemma decimal_append: "decimal (s @ t) = decimal s * 10 ^ length t + decimal t"
  using decimal_from_append [of 0 s t] decimal_from_shift [of "decimal s" t] by (simp only: decimal_def)

lemma decimal_Nil [simp]: "decimal [] = 0"
  by (simp add: decimal_def)

lemma decimal_bound: "list_all is_digit s \<Longrightarrow> decimal s < 10 ^ length s"
proof (induction s rule: rev_induct)
  case (snoc c s)
  then have "decimal s + 1 \<le> 10 ^ length s" "digit_value c < 10" by (auto simp: digit_value_less)
  moreover have "decimal [c] = digit_value c" by (simp add: decimal_def)
  ultimately show ?case by (simp add: decimal_append)
qed simp

lemma show_nat_decimal: "list_all is_digit (show_nat n) \<and> decimal (show_nat n) = n"
proof (induction n rule: show_nat.induct)
  case (1 n)
  have one: "decimal [c] = digit_value c" for c by (simp add: decimal_def)
  show ?case
  proof (cases "n < 10")
    case True
    then show ?thesis using is_digit_digits [OF True] by (simp add: show_nat.simps [of n] one)
  next
    case False
    then have "show_nat n = show_nat (n div 10) @ [digits ! (n mod 10)]" by (simp add: show_nat.simps [of n])
    then show ?thesis using 1 [OF False] is_digit_digits [of "n mod 10"] by (simp add: decimal_append one)
  qed
qed

section \<open>Floats\<close>

text \<open>
  \<open>Sscanf(s, "%f", &x)\<close>: the longest prefix of a sign, digits, a fraction and an exponent is converted.
  It fails without digits, and after an exponent letter without digits. An exponent to base two
  (letter \<open>p\<close>) is taken for a failure: no string the code scans has digits after that letter.
\<close>

definition split_sign :: "string \<Rightarrow> bool \<times> string" where
  "split_sign s =
     (case s of c # cs \<Rightarrow> if c = CHR ''-'' then (True, cs) else if c = CHR ''+'' then (False, cs) else (False, s)
      | [] \<Rightarrow> (False, s))"

definition scan_mantissa :: "string \<Rightarrow> string \<times> string \<times> string" where
  "scan_mantissa s =
     (let ip = takeWhile is_digit s; s1 = dropWhile is_digit s
      in case s1 of
           c # cs \<Rightarrow> if c = CHR ''.'' then (ip, takeWhile is_digit cs, dropWhile is_digit cs) else (ip, [], s1)
         | [] \<Rightarrow> (ip, [], []))"

definition scan_exponent :: "float64 \<Rightarrow> string \<Rightarrow> float64 option" where
  "scan_exponent x s =
     (case s of
        [] \<Rightarrow> Some x
      | c # cs \<Rightarrow>
          if c \<notin> set ''eEpP'' then Some x
          else let (neg, ds) = split_sign cs; e = takeWhile is_digit ds
               in if e = [] \<or> c \<in> set ''pP'' then None
                  else Some (if neg then x / 10 ^ decimal e else x * 10 ^ decimal e))"

definition scan_float :: "string \<Rightarrow> float64 option" where
  "scan_float s =
     (let (neg, s1) = split_sign s; (ip, fp, rest) = scan_mantissa s1;
          x = real (decimal (ip @ fp)) / 10 ^ length fp
      in if ip = [] \<and> fp = [] then None else scan_exponent (if neg then - x else x) rest)"

text \<open>\<open>Sprintf("%f", x)\<close>: six decimals, rounded to the nearest, ties to even.\<close>

definition round_even :: "float64 \<Rightarrow> int" where
  "round_even x = (let f = \<lfloor>x\<rfloor>; d = x - of_int f in if d < 1 / 2 \<or> d = 1 / 2 \<and> even f then f else f + 1)"

definition six_digits :: "nat \<Rightarrow> string" where
  "six_digits n = replicate (6 - length (show_nat n)) CHR ''0'' @ show_nat n"

definition sprintf_f :: "float64 \<Rightarrow> string" where
  "sprintf_f x =
     (let n = nat (round_even (\<bar>x\<bar> * 10 ^ 6))
      in (if x < 0 then ''-'' else []) @ show_nat (n div 10 ^ 6) @ ''.'' @ six_digits (n mod 10 ^ 6))"

lemma round_even_of_int: "round_even (of_int n) = n"
  by (simp add: round_even_def)

lemma sprintf_f_of_nat: "sprintf_f (real n) = show_nat n @ ''.000000''"
proof -
  have "round_even (\<bar>real n\<bar> * 10 ^ 6) = int (n * 10 ^ 6)" using round_even_of_int [of "int (n * 10 ^ 6)"] by simp
  moreover have "six_digits 0 = ''000000''" by code_simp
  moreover have "nat (int (n * 10 ^ 6)) = n * 10 ^ 6" by (rule nat_int)
  ultimately show ?thesis unfolding sprintf_f_def Let_def by simp
qed

lemma scan_float_plain:
  assumes d: "list_all is_digit ds" "ds \<noteq> []" and s: "s = [] \<or> \<not> is_digit (hd s) \<and> hd s \<notin> set ''.eEpP''"
  shows "scan_float (ds @ s) = Some (real (decimal ds))"
proof -
  obtain c cs where ds: "ds = c # cs" using d(2) by (cases ds) auto
  have "is_digit c" using d(1) by (simp add: ds)
  then have "split_sign (ds @ s) = (False, ds @ s)" by (auto simp: split_sign_def ds is_digit_def)
  moreover have "takeWhile is_digit (ds @ s) = ds" "dropWhile is_digit (ds @ s) = s"
    using d(1) s by (auto simp: takeWhile_append dropWhile_append list_all_iff takeWhile_eq_Nil_iff dropWhile_eq_self_iff)
  then have "scan_mantissa (ds @ s) = (ds, [], s)" using s by (auto simp: scan_mantissa_def split: list.split)
  moreover have "scan_exponent x s = Some x" for x using s by (cases s) (auto simp: scan_exponent_def)
  ultimately show ?thesis using d(2) by (simp add: scan_float_def)
qed

end
