(* ===== verification/Admission.thy ===== *)
theory Admission
  imports Capping Annotations Go_Strings
begin

text \<open>
  \<open>pkg/admission-controller\<close>: the recommendation for the containers of a new pod
  (\<open>resource/pod/recommendation\<close>), the JSON patches that set it (\<open>resource/pod/patch\<close>), the handlers
  for pods and VPAs (\<open>resource/pod/handler.go\<close>, \<open>resource/vpa\<close>) and the server that answers an
  admission review (\<open>logic/server.go\<close>). Parsing of JSON, printing of a quantity and the listers are
  parameters. A selector fetcher returns a selector or an error, never neither.
\<close>

section \<open>Patches\<close>

datatype patch_value =
    EmptyAnnotations
  | StringValue string
  | EmptyResourceRequirements
  | EmptyResourceList
  | PodUpdatePolicyValue UpdateMode

record PatchRecord =
  Op :: string
  Path :: string
  Value :: patch_value

definition GetAddEmptyAnnotationsPatch :: PatchRecord where
  "GetAddEmptyAnnotationsPatch = \<lparr>Op = ''add'', Path = ''/metadata/annotations'', Value = EmptyAnnotations\<rparr>"

definition GetAddAnnotationPatch :: "string \<Rightarrow> string \<Rightarrow> PatchRecord" where
  "GetAddAnnotationPatch annotationName annotationValue =
     \<lparr>Op = ''add'', Path = ''/metadata/annotations/'' @ annotationName, Value = StringValue annotationValue\<rparr>"

definition getAddResourceRequirementValuePatch ::
    "(Quantity \<Rightarrow> string) \<Rightarrow> nat \<Rightarrow> string \<Rightarrow> ResourceName \<Rightarrow> Quantity \<Rightarrow> PatchRecord" where
  "getAddResourceRequirementValuePatch q_String i kind r quantity =
     \<lparr>Op = ''add'', Path = ''/spec/containers/'' @ show_nat i @ ''/resources/'' @ kind @ ''/'' @ r,
      Value = StringValue (q_String quantity)\<rparr>"

definition getPatchInitializingEmptyResources :: "nat \<Rightarrow> PatchRecord" where
  "getPatchInitializingEmptyResources i =
     \<lparr>Op = ''add'', Path = ''/spec/containers/'' @ show_nat i @ ''/resources'', Value = EmptyResourceRequirements\<rparr>"

definition getPatchInitializingEmptyResourcesSubfield :: "nat \<Rightarrow> string \<Rightarrow> PatchRecord" where
  "getPatchInitializingEmptyResourcesSubfield i kind =
     \<lparr>Op = ''add'', Path = ''/spec/containers/'' @ show_nat i @ ''/resources/'' @ kind, Value = EmptyResourceList\<rparr>"

section \<open>Recommended resources\<close>

record ContainerResources =
  cr_Limits :: "ResourceList option"
  cr_Requests :: "ResourceList option"

text \<open>Writing to a nil map panics.\<close>

definition append_annotations ::
    "string \<Rightarrow> string list \<Rightarrow> ContainerToAnnotationsMap option \<Rightarrow> ContainerToAnnotationsMap option result" where
  "append_annotations name new annotations =
     (case annotations of
        None \<Rightarrow> Inl (Panic ''assignment to entry in nil map'')
      | Some m \<Rightarrow> Inr (Some (AList.update name (lookup_default [] m name @ new) m)))"

definition container_resources ::
    "PodResourcePolicy option \<Rightarrow> LimitRangeItem option \<Rightarrow> Container \<Rightarrow> ResourceList option \<Rightarrow>
     ContainerToAnnotationsMap option \<Rightarrow> (ContainerResources \<times> ContainerToAnnotationsMap option) result" where
  "container_resources vpaResourcePolicy limitRange container requests annotations =
     (let defaultLimit = (case limitRange of None \<Rightarrow> [] | Some item \<Rightarrow> list_of (lri_Default item)) in
      if GetContainerControlledValues (c_Name container) vpaResourcePolicy = ContainerControlledValuesRequestsAndLimits
      then rbind (GetProportionalLimit (list_of (Limits (c_Resources container))) (list_of (Requests (c_Resources container)))
                    (list_of requests) defaultLimit) (\<lambda>(proportionalLimits, limitAnnotations).
             case proportionalLimits of
               None \<Rightarrow> Inr (\<lparr>cr_Limits = None, cr_Requests = requests\<rparr>, annotations)
             | Some l \<Rightarrow>
                 rbind (if limitAnnotations \<noteq> [] then append_annotations (c_Name container) limitAnnotations annotations
                        else Inr annotations) (\<lambda>annotations'.
                   Inr (\<lparr>cr_Limits = Some l, cr_Requests = requests\<rparr>, annotations')))
      else Inr (\<lparr>cr_Limits = None, cr_Requests = requests\<rparr>, annotations))"

fun resources_loop ::
    "PodResourcePolicy option \<Rightarrow> RecommendedPodResources \<Rightarrow> LimitRangeItem option \<Rightarrow> bool \<Rightarrow> Container list \<Rightarrow>
     ContainerToAnnotationsMap option \<Rightarrow> (ContainerResources list \<times> ContainerToAnnotationsMap option) result" where
  "resources_loop policy podRecommendation limitRange addAll [] annotations = Inr ([], annotations)"
| "resources_loop policy podRecommendation limitRange addAll (container # containers) annotations =
     rbind (case GetRecommendationForContainer (c_Name container) (Some podRecommendation) of
              None \<Rightarrow>
                if \<not> addAll then Inr (\<lparr>cr_Limits = None, cr_Requests = None\<rparr>, annotations)
                else container_resources policy limitRange container (Requests (c_Resources container)) annotations
            | Some recommendation \<Rightarrow>
                container_resources policy limitRange container (Some (Target recommendation)) annotations)
       (\<lambda>(r, annotations').
     rbind (resources_loop policy podRecommendation limitRange addAll containers annotations') (\<lambda>(rs, annotations'').
       Inr (r # rs, annotations'')))"

definition GetContainersResources ::
    "Pod \<Rightarrow> PodResourcePolicy option \<Rightarrow> RecommendedPodResources \<Rightarrow> LimitRangeItem option \<Rightarrow> bool \<Rightarrow>
     ContainerToAnnotationsMap option \<Rightarrow> (ContainerResources list \<times> ContainerToAnnotationsMap option) result" where
  "GetContainersResources pod vpaResourcePolicy podRecommendation limitRange addAll annotations =
     resources_loop vpaResourcePolicy podRecommendation limitRange addAll (pod_Containers pod) annotations"

definition GetContainersResourcesForPod ::
    "LimitRangeCalculator \<Rightarrow> RecommendationProcessor \<Rightarrow> Pod option \<Rightarrow> VerticalPodAutoscaler option \<Rightarrow>
     (ContainerResources list \<times> ContainerToAnnotationsMap option) result" where
  "GetContainersResourcesForPod calculator processor pod vpa =
     (case (vpa, pod) of
        (Some vpa, Some pod) \<Rightarrow>
          rbind (case st_Recommendation (vpa_Status vpa) of
                   None \<Rightarrow> Inr (Some [], None)
                 | Some r \<Rightarrow>
                     rbind (processor (Some r) (ResourcePolicy (vpa_Spec vpa)) (st_Conditions (vpa_Status vpa)) pod)
                       (\<lambda>(rec, annotations). Inr (rec, Some annotations))) (\<lambda>(recommendedPodResources, annotations).
          rbind (GetContainerLimitRangeItem calculator (pod_Namespace pod)) (\<lambda>containerLimitRange.
            let resourcePolicy =
                  (if UpdatePolicy (vpa_Spec vpa) \<noteq> Some (Some UpdateModeOff) then ResourcePolicy (vpa_Spec vpa) else None)
            in case recommendedPodResources of
                 None \<Rightarrow> Inl (Panic ''nil pointer dereference'')
               | Some rec \<Rightarrow> GetContainersResources pod resourcePolicy rec containerLimitRange False annotations))
      | _ \<Rightarrow> Inr ([], None))"

section \<open>Patches for the resources of a pod\<close>

definition ResourceUpdatesAnnotation :: string where "ResourceUpdatesAnnotation = ''vpaUpdates''"

definition appendPatchesAndAnnotations ::
    "(Quantity \<Rightarrow> string) \<Rightarrow> PatchRecord list \<Rightarrow> string list \<Rightarrow> ResourceList option \<Rightarrow> nat \<Rightarrow> ResourceList option \<Rightarrow>
     string \<Rightarrow> string \<Rightarrow> PatchRecord list \<times> string list" where
  "appendPatchesAndAnnotations q_String patches annotations current containerIndex resources fieldName resourceName =
     (let patches1 = (if current = None \<and> list_of resources \<noteq> []
                      then patches @ [getPatchInitializingEmptyResourcesSubfield containerIndex fieldName] else patches)
      in (patches1 @ map (\<lambda>(r, request). getAddResourceRequirementValuePatch q_String containerIndex fieldName r request)
                       (list_of resources),
          annotations @ map (\<lambda>(r, request). r @ '' '' @ resourceName) (list_of resources)))"

definition getContainerPatch ::
    "(Quantity \<Rightarrow> string) \<Rightarrow> Pod \<Rightarrow> nat \<Rightarrow> ContainerToAnnotationsMap \<Rightarrow> ContainerResources \<Rightarrow> (PatchRecord list \<times> string) result" where
  "getContainerPatch q_String pod i annotationsPerContainer containerResources =
     (if length (pod_Containers pod) \<le> i then Inl (Panic ''index out of range'')
      else
        let c = pod_Containers pod ! i;
            patches = (if Limits (c_Resources c) = None \<and> Requests (c_Resources c) = None
                       then [getPatchInitializingEmptyResources i] else []);
            annotations = lookup_default [] annotationsPerContainer (c_Name c);
            (patches1, annotations1) = appendPatchesAndAnnotations q_String patches annotations
              (Requests (c_Resources c)) i (cr_Requests containerResources) ''requests'' ''request'';
            (patches2, annotations2) = appendPatchesAndAnnotations q_String patches1 annotations1
              (Limits (c_Resources c)) i (cr_Limits containerResources) ''limits'' ''limit''
        in Inr (patches2, ''container '' @ show_nat i @ '': '' @ join '', '' annotations2))"

fun container_patches ::
    "(Quantity \<Rightarrow> string) \<Rightarrow> Pod \<Rightarrow> ContainerToAnnotationsMap \<Rightarrow> nat \<Rightarrow> ContainerResources list \<Rightarrow>
     (PatchRecord list \<times> string list) result" where
  "container_patches q_String pod annotationsPerContainer i [] = Inr ([], [])"
| "container_patches q_String pod annotationsPerContainer i (r # rs) =
     rbind (getContainerPatch q_String pod i annotationsPerContainer r) (\<lambda>(newPatches, newUpdatesAnnotation).
     rbind (container_patches q_String pod annotationsPerContainer (Suc i) rs) (\<lambda>(patches, updates).
       Inr (newPatches @ patches, newUpdatesAnnotation # updates)))"

type_synonym Calculator = "Pod \<Rightarrow> VerticalPodAutoscaler \<Rightarrow> PatchRecord list result"

definition resourcesUpdates_CalculatePatches ::
    "(Quantity \<Rightarrow> string) \<Rightarrow> (Pod \<Rightarrow> VerticalPodAutoscaler \<Rightarrow> (ContainerResources list \<times> ContainerToAnnotationsMap option) result) \<Rightarrow>
     Calculator" where
  "resourcesUpdates_CalculatePatches q_String provider pod vpa =
     (case provider pod vpa of
        Inl (Panic p) \<Rightarrow> Inl (Panic p)
      | Inl _ \<Rightarrow> Inl (Err ''Failed to calculate resource patch for pod'')
      | Inr (containersResources, annotations) \<Rightarrow>
          rbind (container_patches q_String pod (list_of annotations) 0 containersResources) (\<lambda>(result, updatesAnnotation).
            Inr (result @ (if updatesAnnotation = [] then []
                           else [GetAddAnnotationPatch ResourceUpdatesAnnotation
                                   (''Pod resources updated by '' @ vpa_Name vpa @ '': '' @ join ''; '' updatesAnnotation)]))))"

definition observedContainers_CalculatePatches :: Calculator where
  "observedContainers_CalculatePatches pod vpa =
     Inr [GetAddAnnotationPatch VpaObservedContainersLabel (GetVpaObservedContainersValue pod)]"

section \<open>Handlers\<close>

type_synonym VpaLister = "string \<Rightarrow> VerticalPodAutoscaler list result"

definition GetMatchingVPA ::
    "VpaLister \<Rightarrow> (VerticalPodAutoscaler \<Rightarrow> Selector result) \<Rightarrow> Pod \<Rightarrow> VerticalPodAutoscaler option" where
  "GetMatchingVPA vpaLister fetch pod =
     (case vpaLister (pod_Namespace pod) of
        Inl _ \<Rightarrow> None
      | Inr configs \<Rightarrow>
          let onConfigs = concat (map (\<lambda>vpaConfig.
                if GetUpdateMode vpaConfig = UpdateModeOff then []
                else (case fetch vpaConfig of
                        Inl _ \<Rightarrow> [] | Inr selector \<Rightarrow> [\<lparr>ws_Vpa = vpaConfig, ws_Selector = selector\<rparr>])) configs)
          in map_option ws_Vpa (GetControllingVPAForPod pod onConfigs))"

record AdmissionRequest =
  ar_Group :: string
  ar_Resource :: string
  ar_Version :: string
  ar_Namespace :: string
  ar_Operation :: string
  ar_Raw :: string

fun calculate_patches :: "Calculator list \<Rightarrow> Pod \<Rightarrow> VerticalPodAutoscaler \<Rightarrow> PatchRecord list \<Rightarrow> PatchRecord list result" where
  "calculate_patches [] pod vpa patches = Inr patches"
| "calculate_patches (c # cs) pod vpa patches =
     rbind (c pod vpa) (\<lambda>partialPatches. calculate_patches cs pod vpa (patches @ partialPatches))"

definition pod_GetPatches ::
    "(string \<Rightarrow> Pod result) \<Rightarrow> (Pod \<Rightarrow> Pod result) \<Rightarrow> (Pod \<Rightarrow> VerticalPodAutoscaler option) \<Rightarrow> Calculator list \<Rightarrow>
     AdmissionRequest \<Rightarrow> PatchRecord list result" where
  "pod_GetPatches unmarshal preProcess getMatchingVPA patchCalculators ar =
     (if ar_Version ar \<noteq> ''v1'' then Inl (Err ''only v1 Pods are supported'')
      else rbind (unmarshal (ar_Raw ar)) (\<lambda>pod0.
        let pod = (if pod_Name pod0 = []
                   then pod0\<lparr>pod_Name := pod_GenerateName pod0 @ ''%'', pod_Namespace := ar_Namespace ar\<rparr> else pod0)
        in case getMatchingVPA pod of
             None \<Rightarrow> Inr []
           | Some controllingVpa \<Rightarrow>
               rbind (preProcess pod) (\<lambda>pod.
                 calculate_patches patchCalculators pod controllingVpa
                   (if pod_Annotations pod = None then [GetAddEmptyAnnotationsPatch] else []))))"

definition possibleUpdateModes :: "UpdateMode list" where
  "possibleUpdateModes = [UpdateModeOff, UpdateModeInitial, UpdateModeRecreate, UpdateModeAuto]"

definition possibleScalingModes :: "ContainerScalingMode list" where
  "possibleScalingModes = [ContainerScalingModeAuto, ContainerScalingModeOff]"

definition max_below_min :: "ContainerResourcePolicy \<Rightarrow> bool" where
  "max_below_min policy = list_ex (\<lambda>(r, m).
     case map_of (MaxAllowed policy) r of None \<Rightarrow> False | Some M \<Rightarrow> q_Cmp M m < 0) (MinAllowed policy)"

fun validate_policies :: "ContainerResourcePolicy list \<Rightarrow> go_error option" where
  "validate_policies [] = None"
| "validate_policies (policy # policies) =
     (if crp_ContainerName policy = [] then Some (Err ''ContainerPolicies.ContainerName is required'')
      else if (case Mode policy of None \<Rightarrow> False | Some mode \<Rightarrow> mode \<notin> set possibleScalingModes)
      then Some (Err ''unexpected Mode value'')
      else if max_below_min policy then Some (Err ''max resource is lower than min'')
      else if Mode policy = Some ContainerScalingModeOff \<and>
              ControlledValues policy = Some ContainerControlledValuesRequestsAndLimits
      then Some (Err ''ControlledValues should not be specified if container scaling mode is off.'')
      else validate_policies policies)"

definition validateVPA :: "VerticalPodAutoscaler \<Rightarrow> bool \<Rightarrow> go_error option" where
  "validateVPA vpa isCreate =
     (case UpdatePolicy (vpa_Spec vpa) of
        Some None \<Rightarrow> Some (Err ''UpdateMode is required if UpdatePolicy is used'')
      | p \<Rightarrow>
          if (case p of Some (Some mode) \<Rightarrow> mode \<notin> set possibleUpdateModes | _ \<Rightarrow> False)
          then Some (Err ''unexpected UpdateMode value'')
          else (case validate_policies (list_of (ResourcePolicy (vpa_Spec vpa))) of
                  Some err \<Rightarrow> Some err
                | None \<Rightarrow>
                    if isCreate \<and> TargetRef (vpa_Spec vpa) = None then Some (Err ''TargetRef is required'') else None))"

definition Create :: string where "Create = ''CREATE''"

definition vpa_GetPatches ::
    "(string \<Rightarrow> VerticalPodAutoscaler result) \<Rightarrow> (VerticalPodAutoscaler \<Rightarrow> bool \<Rightarrow> VerticalPodAutoscaler result) \<Rightarrow>
     AdmissionRequest \<Rightarrow> PatchRecord list result" where
  "vpa_GetPatches parseVPA preProcess ar =
     (let isCreate = (ar_Operation ar = Create) in
      rbind (parseVPA (ar_Raw ar)) (\<lambda>vpa.
      rbind (preProcess vpa isCreate) (\<lambda>vpa.
        case validateVPA vpa isCreate of
          Some err \<Rightarrow> Inl err
        | None \<Rightarrow> Inr (if UpdatePolicy (vpa_Spec vpa) = None
                       then [\<lparr>Op = ''add'', Path = ''/spec/updatePolicy'', Value = PodUpdatePolicyValue UpdateModeAuto\<rparr>]
                       else []))))"

section \<open>The server\<close>

record Handler =
  GroupResource :: "string \<times> string"
  AdmissionResource :: string
  DisallowIncorrectObjects :: bool
  GetPatches :: "AdmissionRequest \<Rightarrow> PatchRecord list result"

definition pod_handler :: "(AdmissionRequest \<Rightarrow> PatchRecord list result) \<Rightarrow> Handler" where
  "pod_handler getPatches =
     \<lparr>GroupResource = ([], ''pods''), AdmissionResource = ''Pod'', DisallowIncorrectObjects = False, GetPatches = getPatches\<rparr>"

definition vpa_handler :: "(AdmissionRequest \<Rightarrow> PatchRecord list result) \<Rightarrow> Handler" where
  "vpa_handler getPatches =
     \<lparr>GroupResource = (''autoscaling.k8s.io'', ''verticalpodautoscalers''), AdmissionResource = ''VPA'',
      DisallowIncorrectObjects = True, GetPatches = getPatches\<rparr>"

type_synonym resourceHandlers = "(string \<times> string, Handler) gomap"

definition RegisterResourceHandler :: "Handler \<Rightarrow> resourceHandlers \<Rightarrow> resourceHandlers" where
  "RegisterResourceHandler h handlers = AList.update (GroupResource h) h handlers"

definition NewAdmissionServer :: "Handler \<Rightarrow> Handler \<Rightarrow> resourceHandlers" where
  "NewAdmissionServer podHandler vpaHandler =
     RegisterResourceHandler vpaHandler (RegisterResourceHandler podHandler [])"

record AdmissionResponse =
  Allowed :: bool
  Result :: "go_error option"
  Patch :: "PatchRecord list option"

definition admit ::
    "(string \<Rightarrow> AdmissionRequest option result) \<Rightarrow> resourceHandlers \<Rightarrow> string \<Rightarrow>
     (AdmissionResponse \<times> string \<times> string) result" where
  "admit unmarshalReview handlers data =
     (let response = \<lparr>Allowed = True, Result = None, Patch = None\<rparr> in
      case unmarshalReview data of
        Inl _ \<Rightarrow> Inr (response, ''error'', ''unknown'')
      | Inr None \<Rightarrow> Inl (Panic ''nil pointer dereference'')
      | Inr (Some request) \<Rightarrow>
          (case map_of handlers (ar_Group request, ar_Resource request) of
             None \<Rightarrow> Inr (response, ''error'', ''unknown'')
           | Some handler \<Rightarrow>
               (case GetPatches handler request of
                  Inl (Panic p) \<Rightarrow> Inl (Panic p)
                | Inl err \<Rightarrow>
                    Inr (if DisallowIncorrectObjects handler then response\<lparr>Allowed := False, Result := Some err\<rparr> else response,
                         ''error'', AdmissionResource handler)
                | Inr patches \<Rightarrow>
                    if patches = [] then Inr (response, ''skipped'', AdmissionResource handler)
                    else Inr (response\<lparr>Patch := Some patches\<rparr>, ''applied'', AdmissionResource handler))))"

end
