(* ===== verification/Admission_Patches.thy ===== *)
theory Admission_Patches
  imports Admission
begin

text \<open>
  What the patches of the admission controller do to a pod. A document is read through JSON
  pointers: a function from lists of segments to the value there. The meaning of an \<open>add\<close> operation
  is that of RFC 6902: the parent has to exist, and the member is created or replaced.
\<close>

section \<open>JSON pointers and documents\<close>

type_synonym document = "string list \<Rightarrow> patch_value option"

definition parse_pointer :: "string \<Rightarrow> string list" where
  "parse_pointer path = tl (str_Split path ''/'')"

definition pointer :: "string list \<Rightarrow> string" where
  "pointer segments = concat (map (\<lambda>s. CHR ''/'' # s) segments)"

definition under :: "string list \<Rightarrow> string list \<Rightarrow> bool" where
  "under p q \<longleftrightarrow> take (length p) q = p"

definition apply_patch :: "PatchRecord \<Rightarrow> document \<Rightarrow> document option" where
  "apply_patch patch d =
     (let p = parse_pointer (Path patch) in
      if Op patch = ''add'' \<and> p \<noteq> [] \<and> d (butlast p) \<noteq> None
      then Some (\<lambda>q. if q = p then Some (Value patch) else if under p q then None else d q)
      else None)"

fun apply_patches :: "PatchRecord list \<Rightarrow> document \<Rightarrow> document option" where
  "apply_patches [] d = Some d"
| "apply_patches (p # ps) d = (case apply_patch p d of None \<Rightarrow> None | Some d' \<Rightarrow> apply_patches ps d')"

lemma apply_patches_append:
  "apply_patches (ps @ qs) d = (case apply_patches ps d of None \<Rightarrow> None | Some d' \<Rightarrow> apply_patches qs d')"
  by (induction ps arbitrary: d) (auto split: option.split)

lemma split_from_slash:
  "CHR ''/'' \<notin> set s \<Longrightarrow> split_from ''/'' acc (s @ rest) = split_from ''/'' (rev s @ acc) rest"
  by (induction s arbitrary: acc) auto

lemma split_pointer: "\<forall>s \<in> set segs. CHR ''/'' \<notin> set s \<Longrightarrow> split_from ''/'' acc (pointer segs) = rev acc # segs"
proof (induction segs arbitrary: acc)
  case (Cons s segs)
  have "split_from ''/'' [] (s @ pointer segs) = s # segs"
    using Cons.prems Cons.IH [of "rev s"] by (simp add: split_from_slash)
  then show ?case by (simp add: pointer_def)
qed (simp add: pointer_def)

lemma parse_pointer_pointer: "\<forall>s \<in> set segs. CHR ''/'' \<notin> set s \<Longrightarrow> parse_pointer (pointer segs) = segs"
  by (simp add: parse_pointer_def str_Split_def split_pointer)

section \<open>Printed numbers\<close>

lemma show_nat_no_slash: "CHR ''/'' \<notin> set (show_nat n)"
proof (induction n rule: show_nat.induct)
  case (1 n)
  have "digits ! k \<in> set digits" if "k < 10" for k using that by (intro nth_mem) (simp add: digits_def)
  moreover have "CHR ''/'' \<notin> set digits" by (simp add: digits_def)
  ultimately have d: "digits ! k \<noteq> CHR ''/''" if "k < 10" for k using that by metis
  show ?case
  proof (cases "n < 10")
    case True
    then show ?thesis using d [of n] by (simp add: show_nat.simps [of n])
  next
    case False
    then show ?thesis using 1 [OF False] d [of "n mod 10"] by (simp add: show_nat.simps [of n])
  qed
qed

section \<open>The fields of a container\<close>

definition resources_path :: "nat \<Rightarrow> string list" where
  "resources_path i = [''spec'', ''containers'', show_nat i, ''resources'']"

lemma apply_add:
  assumes "Op patch = ''add''" "Path patch = pointer p" "\<forall>s \<in> set p. CHR ''/'' \<notin> set s" "p \<noteq> []" "d (butlast p) \<noteq> None"
  shows "apply_patch patch d = Some (\<lambda>q. if q = p then Some (Value patch) else if under p q then None else d q)"
  using assms by (simp add: apply_patch_def parse_pointer_pointer)

definition no_slash :: "ResourceList \<Rightarrow> bool" where
  "no_slash rl \<longleftrightarrow> (\<forall>(r, q) \<in> set rl. CHR ''/'' \<notin> set r)"

lemma patch_fields:
  "Path (getPatchInitializingEmptyResources i) = pointer (resources_path i)"
  "Path (getPatchInitializingEmptyResourcesSubfield i kind) = pointer (resources_path i @ [kind])"
  "Path (getAddResourceRequirementValuePatch q_String i kind r q) = pointer (resources_path i @ [kind, r])"
  "Op (getPatchInitializingEmptyResources i) = ''add''"
  "Op (getPatchInitializingEmptyResourcesSubfield i kind) = ''add''"
  "Op (getAddResourceRequirementValuePatch q_String i kind r q) = ''add''"
  "Value (getAddResourceRequirementValuePatch q_String i kind r q) = StringValue (q_String q)"
  by (simp_all add: pointer_def resources_path_def getPatchInitializingEmptyResources_def
      getPatchInitializingEmptyResourcesSubfield_def getAddResourceRequirementValuePatch_def)

lemma resources_path_no_slash: "\<forall>s \<in> set (resources_path i). CHR ''/'' \<notin> set s"
  using show_nat_no_slash by (simp add: resources_path_def)

lemma under_same_length: "length p = length q \<Longrightarrow> under p q \<longleftrightarrow> p = q"
  by (auto simp: under_def)

lemma under_append: "under (p @ a) q \<Longrightarrow> under p q"
  by (simp add: under_def) (metis append_eq_conv_conj take_add take_take min.absorb1 le_add1 length_append append_take_drop_id)

lemma fill_field:
  assumes "gomap_ok rl" "no_slash rl" "CHR ''/'' \<notin> set kind" "d (resources_path i @ [kind]) \<noteq> None"
  shows "\<exists>d'. apply_patches (map (\<lambda>(r, q). getAddResourceRequirementValuePatch q_String i kind r q) rl) d = Some d' \<and>
    (\<forall>(r, q) \<in> set rl. d' (resources_path i @ [kind, r]) = Some (StringValue (q_String q))) \<and>
    (\<forall>r. r \<notin> fst ` set rl \<longrightarrow> d' (resources_path i @ [kind, r]) = d (resources_path i @ [kind, r])) \<and>
    d' (resources_path i @ [kind]) = d (resources_path i @ [kind]) \<and>
    (\<forall>q. \<not> under (resources_path i @ [kind]) q \<longrightarrow> d' q = d q)"
  using assms(1,2,4)
proof (induction rl arbitrary: d)
  case (Cons e rl)
  obtain r v where e: "e = (r, v)" by (cases e)
  let ?p = "resources_path i @ [kind, r]"
  let ?patch = "getAddResourceRequirementValuePatch q_String i kind r v"
  define d1 where "d1 = (\<lambda>q. if q = ?p then Some (Value ?patch) else if under ?p q then None else d q)"
  have "apply_patch ?patch d = Some d1"
    unfolding d1_def
    by (rule apply_add)
      (use Cons.prems assms(3) resources_path_no_slash [of i] in
        \<open>simp_all add: patch_fields e no_slash_def butlast_append ball_Un\<close>)
  moreover have d1: "d1 (resources_path i @ [kind]) = d (resources_path i @ [kind])"
    "d1 ?p = Some (StringValue (q_String v))"
    "\<And>s. s \<noteq> r \<Longrightarrow> d1 (resources_path i @ [kind, s]) = d (resources_path i @ [kind, s])"
    "\<And>q. \<not> under (resources_path i @ [kind]) q \<Longrightarrow> d1 q = d q"
    using under_append [of "resources_path i @ [kind]" "[r]"]
    by (auto simp: d1_def under_def patch_fields resources_path_def)
  moreover have "gomap_ok rl" "no_slash rl" "r \<notin> fst ` set rl"
    using Cons.prems by (auto simp: e gomap_ok_def no_slash_def)
  ultimately show ?case
    using Cons.IH [of d1] Cons.prems(3) by (auto simp: e)
qed auto

text \<open>What a document holds after the resources of one field of a container were set.\<close>

definition field_set ::
    "(Quantity \<Rightarrow> string) \<Rightarrow> nat \<Rightarrow> string \<Rightarrow> ResourceList option \<Rightarrow> ResourceList option \<Rightarrow> document \<Rightarrow> document \<Rightarrow> bool" where
  "field_set q_String i kind current resources d d' \<longleftrightarrow>
     (\<forall>(r, q) \<in> set (list_of resources). d' (resources_path i @ [kind, r]) = Some (StringValue (q_String q))) \<and>
     (\<forall>r. current \<noteq> None \<longrightarrow> r \<notin> fst ` set (list_of resources) \<longrightarrow>
        d' (resources_path i @ [kind, r]) = d (resources_path i @ [kind, r]))"

lemma set_field:
  assumes "gomap_ok (list_of resources)" "no_slash (list_of resources)" "CHR ''/'' \<notin> set kind"
    "d (resources_path i) \<noteq> None" "current \<noteq> None \<Longrightarrow> d (resources_path i @ [kind]) \<noteq> None"
    "new = fst (appendPatchesAndAnnotations q_String [] [] current i resources kind what)"
  shows "\<exists>d'. apply_patches new d = Some d' \<and> field_set q_String i kind current resources d d' \<and>
    (\<forall>q. \<not> under (resources_path i @ [kind]) q \<longrightarrow> d' q = d q)"
proof (cases "list_of resources = []")
  case True
  then show ?thesis by (auto simp: assms(6) appendPatchesAndAnnotations_def field_set_def)
next
  case False
  let ?p = "resources_path i @ [kind]"
  define init where "init = (if current = None then [getPatchInitializingEmptyResourcesSubfield i kind] else [])"
  define d1 where "d1 = (if current = None then (\<lambda>q. if q = ?p then Some (Value (getPatchInitializingEmptyResourcesSubfield i kind))
    else if under ?p q then None else d q) else d)"
  have "apply_patch (getPatchInitializingEmptyResourcesSubfield i kind) d =
      Some (\<lambda>q. if q = ?p then Some (Value (getPatchInitializingEmptyResourcesSubfield i kind)) else if under ?p q then None else d q)"
    by (rule apply_add) (use assms(3,4) resources_path_no_slash [of i] in \<open>simp_all add: patch_fields ball_Un\<close>)
  then have 1: "apply_patches init d = Some d1" by (simp add: init_def d1_def)
  have 2: "d1 ?p \<noteq> None" "current \<noteq> None \<Longrightarrow> d1 = d" "\<And>q. \<not> under ?p q \<Longrightarrow> d1 q = d q"
    using assms(5) by (auto simp: d1_def under_def)
  have new: "new = init @ map (\<lambda>(r, q). getAddResourceRequirementValuePatch q_String i kind r q) (list_of resources)"
    using False by (simp add: assms(6) appendPatchesAndAnnotations_def init_def Let_def)
  from fill_field [where d = d1 and i = i and q_String = q_String, OF assms(1,2,3) 2(1)] obtain d' where
    d': "apply_patches (map (\<lambda>(r, q). getAddResourceRequirementValuePatch q_String i kind r q) (list_of resources)) d1 = Some d'"
    "\<forall>(r, q) \<in> set (list_of resources). d' (resources_path i @ [kind, r]) = Some (StringValue (q_String q))"
    "\<forall>r. r \<notin> fst ` set (list_of resources) \<longrightarrow> d' (resources_path i @ [kind, r]) = d1 (resources_path i @ [kind, r])"
    "\<forall>q. \<not> under ?p q \<longrightarrow> d' q = d1 q" by blast
  have "field_set q_String i kind current resources d d'" using d'(2,3) 2(2) by (auto simp: field_set_def)
  then show ?thesis using 1 d'(1,4) 2(3) by (simp add: new apply_patches_append)
qed

text \<open>The document of a pod, as far as the patches rely on it.\<close>

definition container_in_doc :: "document \<Rightarrow> nat \<Rightarrow> Container \<Rightarrow> bool" where
  "container_in_doc d i c \<longleftrightarrow>
     d [''spec'', ''containers'', show_nat i] \<noteq> None \<and>
     (Requests (c_Resources c) \<noteq> None \<or> Limits (c_Resources c) \<noteq> None \<longrightarrow> d (resources_path i) \<noteq> None) \<and>
     (Requests (c_Resources c) \<noteq> None \<longrightarrow> d (resources_path i @ [''requests'']) \<noteq> None) \<and>
     (Limits (c_Resources c) \<noteq> None \<longrightarrow> d (resources_path i @ [''limits'']) \<noteq> None)"

definition resources_ok :: "ContainerResources \<Rightarrow> bool" where
  "resources_ok r \<longleftrightarrow> gomap_ok (list_of (cr_Requests r)) \<and> no_slash (list_of (cr_Requests r)) \<and>
     gomap_ok (list_of (cr_Limits r)) \<and> no_slash (list_of (cr_Limits r))"

definition container_set :: "(Quantity \<Rightarrow> string) \<Rightarrow> nat \<Rightarrow> Container \<Rightarrow> ContainerResources \<Rightarrow> document \<Rightarrow> document \<Rightarrow> bool" where
  "container_set q_String i c r d d' \<longleftrightarrow>
     field_set q_String i ''requests'' (Requests (c_Resources c)) (cr_Requests r) d d' \<and>
     field_set q_String i ''limits'' (Limits (c_Resources c)) (cr_Limits r) d d'"

lemma field_set_cong:
  assumes "field_set q_String i kind current resources d d1"
    "\<And>r. d' (resources_path i @ [kind, r]) = d1 (resources_path i @ [kind, r])"
    "\<And>r. current \<noteq> None \<Longrightarrow> d0 (resources_path i @ [kind, r]) = d (resources_path i @ [kind, r])"
  shows "field_set q_String i kind current resources d0 d'"
  using assms by (auto simp: field_set_def)

lemma set_container:
  assumes "getContainerPatch q_String pod i annotations r = Inr (patches, update)" "resources_ok r"
    "container_in_doc d i (pod_Containers pod ! i)"
  shows "\<exists>d'. apply_patches patches d = Some d' \<and> container_set q_String i (pod_Containers pod ! i) r d d' \<and>
    (\<forall>q. \<not> under (resources_path i) q \<longrightarrow> d' q = d q)"
proof -
  let ?c = "pod_Containers pod ! i" and ?p = "resources_path i"
  let ?req = "Requests (c_Resources ?c)" and ?lim = "Limits (c_Resources ?c)"
  let ?e = "getPatchInitializingEmptyResources i"
  define init where "init = (if ?lim = None \<and> ?req = None then [?e] else [])"
  define d1 where "d1 = (if ?lim = None \<and> ?req = None
    then (\<lambda>q. if q = ?p then Some (Value ?e) else if under ?p q then None else d q) else d)"
  define p1 where "p1 = fst (appendPatchesAndAnnotations q_String [] [] ?req i (cr_Requests r) ''requests'' ''request'')"
  define p2 where "p2 = fst (appendPatchesAndAnnotations q_String [] [] ?lim i (cr_Limits r) ''limits'' ''limit'')"
  have patches: "patches = init @ p1 @ p2"
    using assms(1) by (auto simp: getContainerPatch_def Let_def appendPatchesAndAnnotations_def init_def p1_def p2_def
        split: if_splits)
  have ini: "apply_patches init d = Some d1"
    using assms(3) apply_add [of ?e ?p d] resources_path_no_slash [of i]
    by (auto simp: init_def d1_def patch_fields container_in_doc_def resources_path_def)
  have f1: "d1 ?p \<noteq> None" "\<And>q. \<not> under ?p q \<Longrightarrow> d1 q = d q" "?lim \<noteq> None \<or> ?req \<noteq> None \<Longrightarrow> d1 = d"
    using assms(3) by (auto simp: d1_def container_in_doc_def under_def)
  have ok: "gomap_ok (list_of (cr_Requests r))" "no_slash (list_of (cr_Requests r))"
    "gomap_ok (list_of (cr_Limits r))" "no_slash (list_of (cr_Limits r))" using assms(2) by (simp_all add: resources_ok_def)
  have r1: "d1 (?p @ [''requests'']) \<noteq> None" if "?req \<noteq> None"
    using f1(3) that assms(3) by (simp add: container_in_doc_def)
  have l1: "d1 (?p @ [''limits'']) \<noteq> None" if "?lim \<noteq> None"
    using f1(3) that assms(3) by (simp add: container_in_doc_def)
  obtain d2 where d2: "apply_patches p1 d1 = Some d2" "field_set q_String i ''requests'' ?req (cr_Requests r) d1 d2"
    "\<forall>q. \<not> under (?p @ [''requests'']) q \<longrightarrow> d2 q = d1 q"
    using set_field [where d = d1 and i = i, OF ok(1,2) _ f1(1) r1 p1_def] by auto
  have disj: "\<not> under (?p @ [''requests'']) (?p @ ''limits'' # s)" "\<not> under (?p @ [''limits'']) (?p @ ''requests'' # s)"
    "\<not> under (?p @ [''requests'']) ?p" for s by (simp_all add: under_def resources_path_def)
  have l2: "d2 ?p \<noteq> None" "?lim \<noteq> None \<Longrightarrow> d2 (?p @ [''limits'']) \<noteq> None"
    using d2(3) disj(1) [of "[]"] disj(3) f1(1) l1 by auto
  obtain d3 where d3: "apply_patches p2 d2 = Some d3" "field_set q_String i ''limits'' ?lim (cr_Limits r) d2 d3"
    "\<forall>q. \<not> under (?p @ [''limits'']) q \<longrightarrow> d3 q = d2 q"
    using set_field [where d = d2 and i = i, OF ok(3,4) _ l2(1) l2(2) p2_def] by auto
  have "field_set q_String i ''requests'' ?req (cr_Requests r) d d3"
    by (rule field_set_cong [OF d2(2)]) (use d3(3) disj(2) f1(3) in auto)
  moreover have "field_set q_String i ''limits'' ?lim (cr_Limits r) d d3"
    by (rule field_set_cong [OF d3(2)]) (use d2(3) disj(1) f1(3) in auto)
  moreover have "d3 q = d q" if "\<not> under ?p q" for q
    using d3(3) d2(3) f1(2) that under_append [of ?p] by metis
  ultimately show ?thesis using ini d2(1) d3(1) by (simp add: patches apply_patches_append container_set_def)
qed

lemma under_resources:
  "under (resources_path i) (resources_path j @ s) \<longleftrightarrow> i = j"
  "\<not> under (resources_path i) [''spec'', ''containers'', x]"
  by (auto simp: under_def resources_path_def show_nat_inject)

lemma under_resources_self: "under (resources_path i) (resources_path j) \<longleftrightarrow> i = j"
  using under_resources(1) [of i j "[]"] by simp

lemma container_set_cong:
  assumes "container_set q_String i c r d d1" "\<And>q. under (resources_path i) q \<Longrightarrow> d' q = d1 q"
    "\<And>q. under (resources_path i) q \<Longrightarrow> d0 q = d q"
  shows "container_set q_String i c r d0 d'"
proof -
  have "d' (resources_path i @ s) = d1 (resources_path i @ s)" "d0 (resources_path i @ s) = d (resources_path i @ s)" for s
    using assms(2,3) under_resources(1) [of i i s] by blast+
  then show ?thesis using assms(1) unfolding container_set_def by (auto elim!: field_set_cong)
qed

lemma set_containers:
  assumes "container_patches q_String pod annotations i rs = Inr (patches, updates)" "\<forall>r \<in> set rs. resources_ok r"
    "\<forall>k < length rs. container_in_doc d (i + k) (pod_Containers pod ! (i + k))"
  shows "\<exists>d'. apply_patches patches d = Some d' \<and>
    (\<forall>k < length rs. container_set q_String (i + k) (pod_Containers pod ! (i + k)) (rs ! k) d d') \<and>
    (\<forall>q. (\<forall>k < length rs. \<not> under (resources_path (i + k)) q) \<longrightarrow> d' q = d q)"
  using assms
proof (induction rs arbitrary: i d patches updates)
  case (Cons r rs)
  obtain ps u ps' us where p: "getContainerPatch q_String pod i annotations r = Inr (ps, u)"
    "container_patches q_String pod annotations (Suc i) rs = Inr (ps', us)" "patches = ps @ ps'"
    using Cons.prems(1) by auto
  have c0: "container_in_doc d i (pod_Containers pod ! i)" using Cons.prems(3) by auto
  have rok: "resources_ok r" using Cons.prems(2) by simp
  obtain d1 where d1: "apply_patches ps d = Some d1" "container_set q_String i (pod_Containers pod ! i) r d d1"
    "\<forall>q. \<not> under (resources_path i) q \<longrightarrow> d1 q = d q"
    using set_container [OF p(1) rok c0] by blast
  have other: "d1 (resources_path j @ s) = d (resources_path j @ s)" if "j \<noteq> i" for j s
    using d1(3) under_resources(1) [of i j s] that by simp
  have keep: "container_in_doc d1 (Suc i + k) (pod_Containers pod ! (Suc i + k))" if "k < length rs" for k
    using Cons.prems(3) [rule_format, of "Suc k"] that d1(3) under_resources other [of "Suc i + k" "[]"] other [of "Suc i + k"]
    by (simp add: container_in_doc_def)
  obtain d2 where d2: "apply_patches ps' d1 = Some d2"
    "\<forall>k < length rs. container_set q_String (Suc i + k) (pod_Containers pod ! (Suc i + k)) (rs ! k) d1 d2"
    "\<forall>q. (\<forall>k < length rs. \<not> under (resources_path (Suc i + k)) q) \<longrightarrow> d2 q = d1 q"
  proof -
    have "\<forall>r \<in> set rs. resources_ok r" using Cons.prems(2) by simp
    moreover have "\<forall>k < length rs. container_in_doc d1 (Suc i + k) (pod_Containers pod ! (Suc i + k))" using keep by blast
    ultimately show thesis using Cons.IH [OF p(2)] that by blast
  qed
  have sep: "under (resources_path i) q \<Longrightarrow> under (resources_path j) q \<Longrightarrow> i = j" for i j q
    by (auto simp: under_def resources_path_def show_nat_inject [symmetric])
  have "container_set q_String (i + k) (pod_Containers pod ! (i + k)) ((r # rs) ! k) d d2" if k: "k < length (r # rs)" for k
  proof (cases k)
    case 0
    have "d2 q = d1 q" if "under (resources_path i) q" for q
      using d2(3) sep [OF that] by (metis add_Suc less_add_Suc1 less_irrefl)
    then show ?thesis using container_set_cong [OF d1(2)] 0 by simp
  next
    case (Suc k')
    have "container_set q_String (Suc i + k') (pod_Containers pod ! (Suc i + k')) (rs ! k') d1 d2"
      using d2(2) k Suc by simp
    moreover have "d q = d1 q" if "under (resources_path (Suc i + k')) q" for q
      using d1(3) sep [of "Suc i + k'" q i] that by fastforce
    ultimately show ?thesis using container_set_cong [of q_String "Suc i + k'" _ "rs ! k'" d1 d2 d2 d] Suc by simp
  qed
  moreover have "d2 q = d q" if nu: "\<forall>k < length (r # rs). \<not> under (resources_path (i + k)) q" for q
  proof -
    have "\<not> under (resources_path i) q" using nu [rule_format, of 0] by simp
    moreover have "\<not> under (resources_path (Suc i + k)) q" if "k < length rs" for k
      using nu [rule_format, of "Suc k"] that by simp
    ultimately show ?thesis using d1(3) d2(3) by simp
  qed
  ultimately show ?case using d1(1) d2(1) by (simp add: p(3) apply_patches_append)
qed simp

section \<open>The patches of a pod\<close>

definition pod_in_doc :: "document \<Rightarrow> Pod \<Rightarrow> bool" where
  "pod_in_doc d pod \<longleftrightarrow> d [''metadata''] \<noteq> None \<and>
     (pod_Annotations pod \<noteq> None \<longrightarrow> d [''metadata'', ''annotations''] \<noteq> None) \<and>
     (\<forall>i < length (pod_Containers pod). container_in_doc d i (pod_Containers pod ! i))"

lemma container_patches_Inr:
  "i + length rs \<le> length (pod_Containers pod) \<Longrightarrow>
   \<exists>patches updates. container_patches q_String pod annotations i rs = Inr (patches, updates) \<and> length updates = length rs"
proof (induction rs arbitrary: i)
  case (Cons r rs)
  obtain ps us where "container_patches q_String pod annotations (Suc i) rs = Inr (ps, us)" "length us = length rs"
    using Cons.IH [of "Suc i"] Cons.prems by auto
  then show ?case using Cons.prems by (simp add: getContainerPatch_def Let_def split: prod.split)
qed simp

lemma add_annotation:
  assumes "d [''metadata'', ''annotations''] \<noteq> None" "CHR ''/'' \<notin> set n"
  shows "\<exists>d'. apply_patch (GetAddAnnotationPatch n v) d = Some d' \<and> d' [''metadata'', ''annotations'', n] = Some (StringValue v) \<and>
    (\<forall>q. \<not> under [''metadata'', ''annotations'', n] q \<longrightarrow> d' q = d q)"
proof -
  have "apply_patch (GetAddAnnotationPatch n v) d = Some (\<lambda>q. if q = [''metadata'', ''annotations'', n]
      then Some (Value (GetAddAnnotationPatch n v)) else if under [''metadata'', ''annotations'', n] q then None else d q)"
    by (rule apply_add) (use assms in \<open>simp_all add: GetAddAnnotationPatch_def pointer_def\<close>)
  then show ?thesis by (auto simp: under_def GetAddAnnotationPatch_def)
qed

text \<open>
  C21. The patches for an admitted pod apply to it in the given order, each finding the object it
  adds to, and afterwards every recommended request and limit is at its place in the container it
  is for, the other requests and limits that were set are unchanged, and the names of the
  containers are in the annotation the updater reads.
\<close>

theorem pod_patches_apply:
  assumes "ar_Version ar = ''v1''" "unmarshal (ar_Raw ar) = Inr pod0"
    "pod1 = (if pod_Name pod0 = [] then pod0\<lparr>pod_Name := pod_GenerateName pod0 @ ''%'', pod_Namespace := ar_Namespace ar\<rparr> else pod0)"
    "getMatchingVPA pod1 = Some vpa" "preProcess pod1 = Inr pod" "provider pod vpa = Inr (rs, annotations)"
    "length rs \<le> length (pod_Containers pod)" "\<forall>r \<in> set rs. resources_ok r" "pod_in_doc d pod"
  shows "\<exists>patches d'. pod_GetPatches unmarshal preProcess getMatchingVPA
      [resourcesUpdates_CalculatePatches q_String provider, observedContainers_CalculatePatches] ar = Inr patches \<and>
    apply_patches patches d = Some d' \<and>
    (\<forall>i < length rs. container_set q_String i (pod_Containers pod ! i) (rs ! i) d d') \<and>
    d' [''metadata'', ''annotations'', VpaObservedContainersLabel] = Some (StringValue (GetVpaObservedContainersValue pod))"
proof -
  let ?A = "[''metadata'', ''annotations'']"
  define init where "init = (if pod_Annotations pod = None then [GetAddEmptyAnnotationsPatch] else [])"
  define d0 where "d0 = (if pod_Annotations pod = None then (\<lambda>q. if q = ?A then Some (Value GetAddEmptyAnnotationsPatch)
    else if under ?A q then None else d q) else d)"
  have "apply_patch GetAddEmptyAnnotationsPatch d = Some (\<lambda>q. if q = ?A then Some (Value GetAddEmptyAnnotationsPatch)
      else if under ?A q then None else d q)"
    by (rule apply_add) (use assms(9) in \<open>simp_all add: GetAddEmptyAnnotationsPatch_def pointer_def pod_in_doc_def\<close>)
  then have i: "apply_patches init d = Some d0" by (simp add: init_def d0_def)
  have d0: "d0 ?A \<noteq> None" "\<And>q. \<not> under ?A q \<Longrightarrow> d0 q = d q"
    using assms(9) by (auto simp: d0_def pod_in_doc_def under_def)
  have sep: "\<not> under ?A (resources_path k @ s)" "\<not> under ?A [''spec'', ''containers'', x]"
    "\<not> under (resources_path k) (?A @ t)" for k s x t by (auto simp: under_def resources_path_def)
  have doc: "container_in_doc d0 k (pod_Containers pod ! k)" if "k < length (pod_Containers pod)" for k
    using assms(9) that d0(2) sep(1) [of k "[]"] sep(1) [of k] sep(2) by (simp add: pod_in_doc_def container_in_doc_def)
  obtain ps us where cp: "container_patches q_String pod (list_of annotations) 0 rs = Inr (ps, us)" "length us = length rs"
    using container_patches_Inr [of 0 rs pod q_String "list_of annotations"] assms(7) by auto
  obtain d1 where d1: "apply_patches ps d0 = Some d1"
    "\<forall>k < length rs. container_set q_String k (pod_Containers pod ! k) (rs ! k) d0 d1"
    "\<forall>q. (\<forall>k < length rs. \<not> under (resources_path k) q) \<longrightarrow> d1 q = d0 q"
    using set_containers [OF cp(1) assms(8), of d0] doc assms(7) by auto
  have a1: "d1 ?A \<noteq> None" using d1(3) sep(3) [of _ "[]"] d0(1) by simp
  define msg where "msg = ''Pod resources updated by '' @ vpa_Name vpa @ '': '' @ join ''; '' us"
  define upd where "upd = (if us = [] then [] else [GetAddAnnotationPatch ResourceUpdatesAnnotation msg])"
  obtain d2 where d2: "apply_patches upd d1 = Some d2" "\<forall>q. \<not> under (?A @ [ResourceUpdatesAnnotation]) q \<longrightarrow> d2 q = d1 q"
  proof (cases "us = []")
    case False
    have "CHR ''/'' \<notin> set ResourceUpdatesAnnotation" by (simp add: ResourceUpdatesAnnotation_def)
    then show thesis
      using add_annotation [where d = d1 and n = ResourceUpdatesAnnotation and v = msg, OF a1] that False
      by (auto simp: upd_def)
  qed (use that in \<open>simp add: upd_def\<close>)
  have a2: "d2 ?A \<noteq> None" using d2(2) a1 by (simp add: under_def)
  obtain d3 where d3: "apply_patch (GetAddAnnotationPatch VpaObservedContainersLabel (GetVpaObservedContainersValue pod)) d2 = Some d3"
    "d3 (?A @ [VpaObservedContainersLabel]) = Some (StringValue (GetVpaObservedContainersValue pod))"
    "\<forall>q. \<not> under (?A @ [VpaObservedContainersLabel]) q \<longrightarrow> d3 q = d2 q"
  proof -
    have "CHR ''/'' \<notin> set VpaObservedContainersLabel" by (simp add: VpaObservedContainersLabel_def)
    then show thesis
      using add_annotation [where d = d2 and n = VpaObservedContainersLabel and v = "GetVpaObservedContainersValue pod", OF a2] that
      by auto
  qed
  have same: "d3 q = d1 q" "d q = d0 q" if "under (resources_path k) q" for k q
  proof -
    have "\<not> under (?A @ [x]) q" "\<not> under ?A q" for x using that by (cases q; auto simp: under_def resources_path_def)+
    then show "d3 q = d1 q" "d q = d0 q" using d3(3) d2(2) d0(2) by simp_all
  qed
  have "container_set q_String k (pod_Containers pod ! k) (rs ! k) d d3" if "k < length rs" for k
    using container_set_cong [of q_String k _ "rs ! k" d0 d1 d3 d] d1(2) that same by blast
  moreover have "pod_GetPatches unmarshal preProcess getMatchingVPA
      [resourcesUpdates_CalculatePatches q_String provider, observedContainers_CalculatePatches] ar =
      Inr (init @ (ps @ upd) @ [GetAddAnnotationPatch VpaObservedContainersLabel (GetVpaObservedContainersValue pod)])"
    using assms(1,2,4-6) cp(1)
    by (simp add: pod_GetPatches_def assms(3) [symmetric] resourcesUpdates_CalculatePatches_def
        observedContainers_CalculatePatches_def init_def upd_def msg_def)
  ultimately show ?thesis using i d1(1) d2(1) d3(1,2) by (simp add: apply_patches_append)
qed

definition doc_pod :: Pod where
  "doc_pod = example_pod\<lparr>pod_Containers :=
     [\<lparr>c_Name = ''c'', c_Resources = \<lparr>Limits = None, Requests = None\<rparr>\<rparr>]\<rparr>"

definition pod_request :: AdmissionRequest where
  "pod_request = \<lparr>ar_Group = [], ar_Resource = ''pods'', ar_Version = ''v1'', ar_Namespace = ''ns'', ar_Operation = Create, ar_Raw = []\<rparr>"

theorem pod_patches_apply_witness:
  "\<exists>patches d'. pod_GetPatches (\<lambda>_. Inr doc_pod) Inr (\<lambda>_. Some (ws_Vpa (example_vpa ''v'' 1)))
       [resourcesUpdates_CalculatePatches (\<lambda>_. ''1'')
          (\<lambda>_ _. Inr ([\<lparr>cr_Limits = None, cr_Requests = Some [(ResourceCPU, 10 ^ 9)]\<rparr>], None)),
        observedContainers_CalculatePatches] pod_request = Inr patches \<and>
     apply_patches patches (\<lambda>q. if length q \<le> 3 then Some EmptyAnnotations else None) = Some d' \<and>
     d' [''spec'', ''containers'', ''0'', ''resources'', ''requests'', ''cpu''] = Some (StringValue ''1'')"
proof -
  let ?d = "\<lambda>q :: string list. if length q \<le> 3 then Some EmptyAnnotations else None"
  let ?r = "\<lparr>cr_Limits = None, cr_Requests = Some [(ResourceCPU, 10 ^ 9)]\<rparr>"
  have h: "pod_in_doc ?d doc_pod" "\<forall>r \<in> set [?r]. resources_ok r" "length [?r] \<le> length (pod_Containers doc_pod)"
    "ar_Version pod_request = ''v1''" "pod_Name doc_pod \<noteq> []"
    by (simp_all add: pod_in_doc_def container_in_doc_def doc_pod_def example_pod_def resources_ok_def no_slash_def
        ResourceCPU_def gomap_ok_def pod_request_def)
  have z: "show_nat 0 = ''0''" by (simp add: show_nat.simps [of 0] digits_def)
  obtain patches d' where "pod_GetPatches (\<lambda>_. Inr doc_pod) Inr (\<lambda>_. Some (ws_Vpa (example_vpa ''v'' 1)))
       [resourcesUpdates_CalculatePatches (\<lambda>_. ''1'') (\<lambda>_ _. Inr ([?r], None)), observedContainers_CalculatePatches] pod_request = Inr patches"
    "apply_patches patches ?d = Some d'" "\<forall>i < length [?r]. container_set (\<lambda>_. ''1'') i (pod_Containers doc_pod ! i) ([?r] ! i) ?d d'"
    using pod_patches_apply [where unmarshal = "\<lambda>_. Inr doc_pod" and preProcess = Inr and ar = pod_request
        and getMatchingVPA = "\<lambda>_. Some (ws_Vpa (example_vpa ''v'' 1))" and provider = "\<lambda>_ _. Inr ([?r], None)"
        and q_String = "\<lambda>_. ''1''", OF h(4) refl refl refl refl refl, of ?d] h by auto
  then show ?thesis by (fastforce simp: container_set_def field_set_def resources_path_def z ResourceCPU_def)
qed

section \<open>Validation of VPAs\<close>

text \<open>
  C35. A VPA passes validation exactly when an update policy has one of the four modes, every
  container policy names its container, has a known scaling mode, no minimum above the maximum of
  the same resource, and does not control limits with scaling off, and on creation the target is
  given.
\<close>

theorem validateVPA_correct:
  "validateVPA vpa isCreate = None \<longleftrightarrow>
     (case UpdatePolicy (vpa_Spec vpa) of None \<Rightarrow> True | Some mode \<Rightarrow> \<exists>m \<in> set possibleUpdateModes. mode = Some m) \<and>
     (\<forall>p \<in> set (list_of (ResourcePolicy (vpa_Spec vpa))).
        crp_ContainerName p \<noteq> [] \<and> Mode p \<in> {None, Some ContainerScalingModeAuto, Some ContainerScalingModeOff} \<and>
        (\<forall>(r, m) \<in> set (MinAllowed p). \<forall>M. map_of (MaxAllowed p) r = Some M \<longrightarrow> m \<le> M) \<and>
        \<not> (Mode p = Some ContainerScalingModeOff \<and> ControlledValues p = Some ContainerControlledValuesRequestsAndLimits)) \<and>
     (isCreate \<longrightarrow> TargetRef (vpa_Spec vpa) \<noteq> None)"
proof -
  have mm: "max_below_min p \<longleftrightarrow> \<not> (\<forall>(r, m) \<in> set (MinAllowed p). \<forall>M. map_of (MaxAllowed p) r = Some M \<longrightarrow> m \<le> M)" for p
  proof -
    have "(case map_of (MaxAllowed p) r of None \<Rightarrow> False | Some M \<Rightarrow> q_Cmp M m < 0) \<longleftrightarrow>
        \<not> (\<forall>M. map_of (MaxAllowed p) r = Some M \<longrightarrow> m \<le> M)" for r m
      by (auto simp: q_Cmp_def split: option.split)
    then show ?thesis unfolding max_below_min_def list_ex_iff by (auto simp: case_prod_beta)
  qed
  have mode: "(case Mode p of None \<Rightarrow> False | Some mode \<Rightarrow> mode \<notin> set possibleScalingModes) \<longleftrightarrow>
      Mode p \<notin> {None, Some ContainerScalingModeAuto, Some ContainerScalingModeOff}" for p
    by (auto simp: possibleScalingModes_def split: option.splits)
  have "validate_policies ps = None \<longleftrightarrow> (\<forall>p \<in> set ps.
        crp_ContainerName p \<noteq> [] \<and> Mode p \<in> {None, Some ContainerScalingModeAuto, Some ContainerScalingModeOff} \<and>
        (\<forall>(r, m) \<in> set (MinAllowed p). \<forall>M. map_of (MaxAllowed p) r = Some M \<longrightarrow> m \<le> M) \<and>
        \<not> (Mode p = Some ContainerScalingModeOff \<and> ControlledValues p = Some ContainerControlledValuesRequestsAndLimits))" for ps
    by (induction ps) (simp_all only: validate_policies.simps mm mode, auto)
  note policies = this [of "list_of (ResourcePolicy (vpa_Spec vpa))"]
  have cs: "(case v of None \<Rightarrow> x | Some err \<Rightarrow> Some err) = None \<longleftrightarrow> v = None \<and> x = None" for v x :: "go_error option"
    by (cases v) auto
  show ?thesis
  proof (cases "UpdatePolicy (vpa_Spec vpa)")
    case None
    then show ?thesis unfolding validateVPA_def by (simp add: cs policies)
  next
    case (Some p)
    then show ?thesis unfolding validateVPA_def by (cases p) (simp_all add: cs policies)
  qed
qed

theorem validateVPA_correct_witness: "validateVPA (ws_Vpa (example_vpa ''v'' 1)) False = None"
  using validateVPA_correct [of "ws_Vpa (example_vpa ''v'' 1)" False] by (simp add: example_vpa_def)

section \<open>Admission\<close>

lemma validate_policies_no_panic: "validate_policies ps \<noteq> Some (Panic e)"
  by (induction ps) (auto split: option.splits if_splits)

lemma validateVPA_no_panic: "validateVPA vpa isCreate \<noteq> Some (Panic e)"
  using validate_policies_no_panic by (auto simp: validateVPA_def Let_def split: option.splits if_splits)

text \<open>The VPA object of a request is well-formed: it can be parsed and pre-processed, and it validates.\<close>

definition good_vpa ::
    "(string \<Rightarrow> VerticalPodAutoscaler result) \<Rightarrow> (VerticalPodAutoscaler \<Rightarrow> bool \<Rightarrow> VerticalPodAutoscaler result) \<Rightarrow> AdmissionRequest \<Rightarrow> bool" where
  "good_vpa parseVPA preProcess request \<longleftrightarrow>
     (\<exists>vpa vpa'. parseVPA (ar_Raw request) = Inr vpa \<and> preProcess vpa (ar_Operation request = Create) = Inr vpa' \<and>
        validateVPA vpa' (ar_Operation request = Create) = None)"

lemma vpa_GetPatches_cases:
  assumes "\<And>raw p. parseVPA raw \<noteq> Inl (Panic p)" "\<And>vpa c p. preProcess vpa c \<noteq> Inl (Panic p)"
  shows "vpa_GetPatches parseVPA preProcess request \<noteq> Inl (Panic p)"
    "(\<exists>e. vpa_GetPatches parseVPA preProcess request = Inl e) \<longleftrightarrow> \<not> good_vpa parseVPA preProcess request"
proof -
  let ?c = "ar_Operation request = Create"
  show "vpa_GetPatches parseVPA preProcess request \<noteq> Inl (Panic p)"
    using assms validateVPA_no_panic
    by (cases "parseVPA (ar_Raw request)"; cases "preProcess (projr (parseVPA (ar_Raw request))) ?c")
      (auto simp: vpa_GetPatches_def Let_def split: option.splits)
  show "(\<exists>e. vpa_GetPatches parseVPA preProcess request = Inl e) \<longleftrightarrow> \<not> good_vpa parseVPA preProcess request"
    by (cases "parseVPA (ar_Raw request)"; cases "preProcess (projr (parseVPA (ar_Raw request))) ?c")
      (auto simp: vpa_GetPatches_def good_vpa_def Let_def split: option.splits)
qed

text \<open>
  C36. The server, with its handler of VPA objects, whatever the handler of pods calculates, as long as no
  handler panics. A review that cannot be parsed is let in without a patch; one without a request makes the
  server panic. A review with a request is answered, and the object is kept out exactly when it is a VPA
  object that cannot be parsed or pre-processed or does not validate: pods, and objects of other kinds, are
  never kept out, even when no patch could be calculated. A patch is returned only when the handler of the
  object calculated at least one.
\<close>

theorem admit_blocks_only_bad_vpas:
  assumes "handlers = NewAdmissionServer (pod_handler podPatches) (vpa_handler (vpa_GetPatches parseVPA preProcess))"
    "\<And>request p. podPatches request \<noteq> Inl (Panic p)" "\<And>raw p. parseVPA raw \<noteq> Inl (Panic p)" "\<And>vpa c p. preProcess vpa c \<noteq> Inl (Panic p)"
  shows "case unmarshalReview data of
      Inl _ \<Rightarrow> admit unmarshalReview handlers data = Inr (\<lparr>Allowed = True, Result = None, Patch = None\<rparr>, ''error'', ''unknown'')
    | Inr None \<Rightarrow> (\<exists>p. admit unmarshalReview handlers data = Inl (Panic p))
    | Inr (Some request) \<Rightarrow>
        (\<exists>response status res. admit unmarshalReview handlers data = Inr (response, status, res) \<and>
           (\<not> Allowed response \<longleftrightarrow> (ar_Group request, ar_Resource request) = (''autoscaling.k8s.io'', ''verticalpodautoscalers'') \<and>
              \<not> good_vpa parseVPA preProcess request) \<and>
           (\<forall>ps. Patch response = Some ps \<longrightarrow> ps \<noteq> [] \<and> status = ''applied'' \<and>
              (if (ar_Group request, ar_Resource request) = ([], ''pods'') then podPatches request = Inr ps
               else vpa_GetPatches parseVPA preProcess request = Inr ps)))"
proof -
  have v: "vpa_GetPatches parseVPA preProcess rq \<noteq> Inl (Panic p)"
      "(\<exists>e. vpa_GetPatches parseVPA preProcess rq = Inl e) \<longleftrightarrow> \<not> good_vpa parseVPA preProcess rq" for rq p
    by (rule vpa_GetPatches_cases; rule assms(3,4))+
  show ?thesis
  proof (cases "unmarshalReview data")
    case (Inr request)
    show ?thesis
    proof (cases request)
      case (Some rq)
      show ?thesis
        using assms(2) [of rq] v(1) [of rq] v(2) [of rq] Inr Some
        by (cases "podPatches rq"; cases "vpa_GetPatches parseVPA preProcess rq")
          (auto simp: admit_def assms(1) NewAdmissionServer_def RegisterResourceHandler_def pod_handler_def vpa_handler_def
            Let_def split: go_error.splits)
    qed (simp add: Inr admit_def)
  qed (simp add: admit_def)
qed

theorem admit_blocks_only_bad_vpas_witness:
  "\<exists>response status res. admit (\<lambda>_. Inr (Some pod_request))
      (NewAdmissionServer (pod_handler (\<lambda>_. Inl (Err ''x''))) (vpa_handler (vpa_GetPatches (\<lambda>_. Inl (Err ''y'')) (\<lambda>vpa _. Inr vpa)))) [] =
      Inr (response, status, res) \<and> Allowed response"
proof -
  have "ar_Group pod_request \<noteq> ''autoscaling.k8s.io''" by (simp add: pod_request_def)
  then show ?thesis
    using admit_blocks_only_bad_vpas [of _ "\<lambda>_. Inl (Err ''x'')" "\<lambda>_. Inl (Err ''y'')" "\<lambda>vpa _. Inr vpa" "\<lambda>_. Inr (Some pod_request)" "[]", OF refl]
    by auto
qed

text \<open>
  A review that parses but has no request makes the server panic, although it is meant to let
  everything it cannot handle pass.
\<close>

theorem admit_panics_without_request:
  "admit (\<lambda>_. Inr None) handlers data = Inl (Panic ''nil pointer dereference'')"
  by (simp add: admit_def)

end
