(* ===== verification/Status_Lease.thy ===== *)
theory Status_Lease
  imports Go_Prelude
begin

text \<open>
  \<open>pkg/utils/status/status_object.go\<close>: the lease by which the admission controller tells the updater
  that it is alive. The API server is a lease, or none, together with an answer to every call:
  each call may fail before it has an effect. A call that succeeds has its effect.
\<close>

record Lease =
  lease_CreationTimestamp :: time
  RenewTime :: "time option"
  HolderIdentity :: string

text \<open>The classes of API errors the code distinguishes.\<close>

datatype api_error = NotFound | Conflict | AlreadyExists | Retryable string | Permanent string | WaitTimeout

type_synonym 'a api = "api_error + 'a"

definition AdmissionControllerStatusTimeout :: duration where "AdmissionControllerStatusTimeout = 1 * minute"
definition retryBackoffInitialDuration :: duration where "retryBackoffInitialDuration = 100 * (second div 1000)"
definition retryBackoffFactor :: nat where "retryBackoffFactor = 3"
definition retryBackoffSteps :: nat where "retryBackoffSteps = 3"

text \<open>Whether an error is transient: the API errors and network errors that are retried.\<close>

fun isRetryable :: "api_error \<Rightarrow> bool" where
  "isRetryable (Retryable _) = True"
| "isRetryable _ = False"

text \<open>
  Calls are numbered; \<open>fails n\<close> is the error, if any, with which call \<open>n\<close> fails before it has an
  effect. The state is the lease, if there is one, and the number of the next call.
\<close>

record server =
  sv_lease :: "Lease option"
  sv_calls :: nat

type_synonym failures = "nat \<Rightarrow> api_error option"

definition lease_Get :: "failures \<Rightarrow> server \<Rightarrow> Lease api \<times> server" where
  "lease_Get fails s =
     (case fails (sv_calls s) of
        Some e \<Rightarrow> Inl e
      | None \<Rightarrow> (case sv_lease s of None \<Rightarrow> Inl NotFound | Some l \<Rightarrow> Inr l), s\<lparr>sv_calls := Suc (sv_calls s)\<rparr>)"

definition lease_Create :: "failures \<Rightarrow> time \<Rightarrow> Lease \<Rightarrow> server \<Rightarrow> api_error option \<times> server" where
  "lease_Create fails now l s =
     (let s' = s\<lparr>sv_calls := Suc (sv_calls s)\<rparr> in
      case fails (sv_calls s) of
        Some e \<Rightarrow> (Some e, s')
      | None \<Rightarrow> if sv_lease s = None then (None, s'\<lparr>sv_lease := Some (l\<lparr>lease_CreationTimestamp := now\<rparr>)\<rparr>)
                else (Some AlreadyExists, s'))"

definition lease_Update :: "failures \<Rightarrow> Lease \<Rightarrow> server \<Rightarrow> api_error option \<times> server" where
  "lease_Update fails l s =
     (let s' = s\<lparr>sv_calls := Suc (sv_calls s)\<rparr> in
      case fails (sv_calls s) of
        Some e \<Rightarrow> (Some e, s')
      | None \<Rightarrow> if sv_lease s = None then (Some NotFound, s') else (None, s'\<lparr>sv_lease := Some l\<rparr>))"

section \<open>The client\<close>

definition newLease :: "string \<Rightarrow> Lease" where
  "newLease holderIdentity = \<lparr>lease_CreationTimestamp = zero_time, RenewTime = None, HolderIdentity = holderIdentity\<rparr>"

definition create :: "failures \<Rightarrow> string \<Rightarrow> time \<Rightarrow> server \<Rightarrow> api_error option \<times> server" where
  "create fails holderIdentity now s =
     (let (err, s') = lease_Create fails now (newLease holderIdentity) s
      in (if err = Some AlreadyExists then None else err, s'))"

definition updateFn :: "failures \<Rightarrow> string \<Rightarrow> time \<Rightarrow> server \<Rightarrow> api_error option \<times> server" where
  "updateFn fails holderIdentity now s =
     (case lease_Get fails s of
        (Inl e, s') \<Rightarrow> if e = NotFound then create fails holderIdentity now s' else (Some e, s')
      | (Inr lease, s') \<Rightarrow>
          let (err, s'') = lease_Update fails (lease\<lparr>RenewTime := Some now, HolderIdentity := holderIdentity\<rparr>) s'
          in (if err = Some Conflict then None else err, s''))"

text \<open>\<open>wait.ExponentialBackoff\<close> with the given number of steps; the waiting itself has no effect.\<close>

fun exponential_backoff :: "nat \<Rightarrow> ('s \<Rightarrow> api_error option \<times> 's) \<Rightarrow> 's \<Rightarrow> api_error option \<times> 's" where
  "exponential_backoff 0 fn s = (Some WaitTimeout, s)"
| "exponential_backoff (Suc steps) fn s =
     (let (err, s') = fn s in
      case err of
        None \<Rightarrow> (None, s')
      | Some e \<Rightarrow> if isRetryable e then exponential_backoff steps fn s' else (Some e, s'))"

definition retryWithExponentialBackOff :: "('s \<Rightarrow> api_error option \<times> 's) \<Rightarrow> 's \<Rightarrow> api_error option \<times> 's" where
  "retryWithExponentialBackOff fn s = exponential_backoff retryBackoffSteps fn s"

definition UpdateStatus :: "failures \<Rightarrow> string \<Rightarrow> time \<Rightarrow> server \<Rightarrow> api_error option \<times> server" where
  "UpdateStatus fails holderIdentity now s = retryWithExponentialBackOff (updateFn fails holderIdentity now) s"

text \<open>The closure that remembers the lease: the state of the retries is the server and the lease.\<close>

definition getFn :: "failures \<Rightarrow> Lease option \<times> server \<Rightarrow> api_error option \<times> (Lease option \<times> server)" where
  "getFn fails st =
     (case lease_Get fails (snd st) of
        (Inl e, s') \<Rightarrow> (Some e, (None, s'))
      | (Inr lease, s') \<Rightarrow> (None, (Some lease, s')))"

definition getStatus :: "failures \<Rightarrow> server \<Rightarrow> Lease api \<times> server" where
  "getStatus fails s =
     (let (err, (lease, s')) = retryWithExponentialBackOff (getFn fails) (None, s) in
      (case (err, lease) of (None, Some l) \<Rightarrow> Inr l | (Some e, _) \<Rightarrow> Inl e | (None, None) \<Rightarrow> Inl NotFound, s'))"

definition isStatusValid :: "Lease \<Rightarrow> duration \<Rightarrow> time \<Rightarrow> bool" where
  "isStatusValid status leaseTimeout now \<longleftrightarrow>
     time_After (time_Add (lease_CreationTimestamp status) leaseTimeout) now \<or>
     (case RenewTime status of None \<Rightarrow> False | Some t \<Rightarrow> time_After (time_Add t leaseTimeout) now)"

definition IsStatusValid :: "failures \<Rightarrow> duration \<Rightarrow> time \<Rightarrow> server \<Rightarrow> bool api \<times> server" where
  "IsStatusValid fails statusTimeout now s =
     (case getStatus fails s of
        (Inl e, s') \<Rightarrow> (Inl e, s')
      | (Inr status, s') \<Rightarrow> (Inr (isStatusValid status statusTimeout now), s'))"

section \<open>Retries\<close>

lemma backoff_invariant:
  assumes "exponential_backoff n fn s = (err, s')" "P s" "\<And>s e s'. P s \<Longrightarrow> fn s = (e, s') \<Longrightarrow> P s'"
  shows "P s'"
  using assms(1,2)
proof (induction n arbitrary: s)
  case (Suc n)
  obtain e t where f: "fn s = (e, t)" by fastforce
  then have "P t" using Suc.prems assms(3) by blast
  then show ?case using Suc f by (auto split: option.splits if_splits)
qed simp

lemma backoff_success:
  assumes "exponential_backoff n fn s = (None, s')" "P s"
    "\<And>s e s'. P s \<Longrightarrow> fn s = (e, s') \<Longrightarrow> P s'" "\<And>s s'. P s \<Longrightarrow> fn s = (None, s') \<Longrightarrow> Q s'"
  shows "Q s'"
  using assms(1,2)
proof (induction n arbitrary: s)
  case (Suc n)
  obtain e t where f: "fn s = (e, t)" by fastforce
  then have "P t" using Suc.prems assms(3) by blast
  then show ?case using Suc f assms(4) by (auto split: option.splits if_splits)
qed simp

text \<open>Two calls per attempt, three attempts.\<close>

lemma updateFn_calls: "updateFn fails holder now s = (err, s') \<Longrightarrow> sv_calls s' \<le> sv_calls s + 2"
  by (auto simp: updateFn_def lease_Get_def lease_Update_def create_def lease_Create_def Let_def
      split: sum.splits option.splits if_splits)

lemma backoff_calls:
  assumes "exponential_backoff n (updateFn fails holder now) s = (err, s')"
  shows "sv_calls s' \<le> sv_calls s + 2 * n"
  using assms
proof (induction n arbitrary: s)
  case (Suc n)
  obtain e t where f: "updateFn fails holder now s = (e, t)" by fastforce
  show ?case using Suc.IH [of t] Suc.prems updateFn_calls [OF f] f by (fastforce split: option.splits if_splits)
qed simp

lemma UpdateStatus_calls: "UpdateStatus fails holder now s = (err, s') \<Longrightarrow> sv_calls s' \<le> sv_calls s + 6"
  using backoff_calls by (fastforce simp: UpdateStatus_def retryWithExponentialBackOff_def retryBackoffSteps_def)

section \<open>The heartbeat\<close>

definition plain_failures :: "failures \<Rightarrow> bool" where
  "plain_failures fails \<longleftrightarrow> (\<forall>n. fails n \<notin> {Some NotFound, Some Conflict, Some AlreadyExists})"

definition created_before :: "time \<Rightarrow> server \<Rightarrow> bool" where
  "created_before now s \<longleftrightarrow> (\<forall>l. sv_lease s = Some l \<longrightarrow> lease_CreationTimestamp l \<le> now)"

definition renewed_at :: "time \<Rightarrow> server \<Rightarrow> bool" where
  "renewed_at now s \<longleftrightarrow> (\<exists>l. sv_lease s = Some l \<and> lease_CreationTimestamp l \<le> now \<and>
     (RenewTime l = Some now \<or> (RenewTime l = None \<and> lease_CreationTimestamp l = now)))"

lemma updateFn_created: "created_before now s \<Longrightarrow> updateFn fails holder now s = (err, s') \<Longrightarrow> created_before now s'"
  by (auto simp: created_before_def updateFn_def lease_Get_def lease_Update_def create_def lease_Create_def Let_def
      split: sum.splits option.splits if_splits)

lemma updateFn_renews:
  "plain_failures fails \<Longrightarrow> created_before now s \<Longrightarrow> updateFn fails holder now s = (None, s') \<Longrightarrow> renewed_at now s'"
  by (auto simp: plain_failures_def created_before_def renewed_at_def newLease_def updateFn_def lease_Get_def
      lease_Update_def create_def lease_Create_def Let_def split: sum.splits option.splits if_splits)

lemma UpdateStatus_renews:
  assumes "plain_failures fails" "created_before now s" "UpdateStatus fails holder now s = (None, s')"
  shows "renewed_at now s'"
proof (rule backoff_success [where P = "created_before now" and Q = "renewed_at now"])
  show "exponential_backoff retryBackoffSteps (updateFn fails holder now) s = (None, s')"
    using assms(3) by (simp add: UpdateStatus_def retryWithExponentialBackOff_def)
qed (use assms updateFn_created updateFn_renews in blast)+

lemma getFn_lease: "getFn fails st = (err, st') \<Longrightarrow> sv_lease (snd st') = sv_lease (snd st)"
  by (auto simp: getFn_def lease_Get_def split: sum.splits option.splits)

lemma getFn_success: "getFn fails st = (None, st') \<Longrightarrow> fst st' = sv_lease (snd st)"
  by (auto simp: getFn_def lease_Get_def split: sum.splits option.splits)

lemma getStatus_lease:
  assumes "getStatus fails s = (Inr l, s')"
  shows "sv_lease s = Some l"
proof -
  obtain err lease t where b: "exponential_backoff retryBackoffSteps (getFn fails) (None, s) = (err, lease, t)"
    by (metis prod.exhaust)
  have e: "err = None" "lease = Some l"
    using assms b by (auto simp: getStatus_def retryWithExponentialBackOff_def split: option.splits)
  have "fst (lease, t) = sv_lease s"
  proof (rule backoff_success [where P = "\<lambda>st. sv_lease (snd st) = sv_lease s" and Q = "\<lambda>st. fst st = sv_lease s"])
    show "exponential_backoff retryBackoffSteps (getFn fails) (None, s) = (None, lease, t)" using b e(1) by simp
    show "sv_lease (snd (None, s)) = sv_lease s" by simp
    show "\<And>st err st'. sv_lease (snd st) = sv_lease s \<Longrightarrow> getFn fails st = (err, st') \<Longrightarrow> sv_lease (snd st') = sv_lease s"
      using getFn_lease by metis
    show "\<And>st st'. sv_lease (snd st) = sv_lease s \<Longrightarrow> getFn fails st = (None, st') \<Longrightarrow> fst st' = sv_lease s"
      using getFn_success by metis
  qed
  then show ?thesis using e by simp
qed

text \<open>
  A heartbeat keeps the status valid for exactly the timeout. After a status update that
  returned without an error, in which no other replica interfered, a validity check that can read
  the lease says that the status is valid exactly while less than the timeout has passed since the
  update, whether the update renewed the lease or created it, and however many attempts it took.
\<close>

theorem heartbeat_valid_until_timeout:
  assumes "UpdateStatus fails holder now s = (None, s1)" "plain_failures fails" "created_before now s"
    "IsStatusValid fails' timeout now' s1 = (Inr b, s2)"
  shows "b \<longleftrightarrow> now' < now + timeout"
proof -
  obtain l where l: "sv_lease s1 = Some l" "lease_CreationTimestamp l \<le> now"
    "RenewTime l = Some now \<or> (RenewTime l = None \<and> lease_CreationTimestamp l = now)"
    using UpdateStatus_renews [OF assms(2,3,1)] by (auto simp: renewed_at_def)
  obtain l' where "getStatus fails' s1 = (Inr l', s2)" "b = isStatusValid l' timeout now'"
    using assms(4) by (auto simp: IsStatusValid_def split: prod.splits sum.splits)
  moreover from this(1) have "l' = l" using getStatus_lease l(1) by fastforce
  ultimately show ?thesis using l(2,3)
    by (auto simp: isStatusValid_def time_defs)
qed

theorem heartbeat_valid_until_timeout_witness:
  "\<exists>s1 s2. UpdateStatus (\<lambda>n. if n = 0 then Some (Retryable ''timeout'') else None) ''a'' 1000 \<lparr>sv_lease = None, sv_calls = 0\<rparr> = (None, s1) \<and>
     IsStatusValid (\<lambda>_. None) 60 1059 s1 = (Inr True, s2)"
proof -
  let ?f = "\<lambda>n. if n = 0 then Some (Retryable ''timeout'') else None :: api_error option"
  let ?s = "\<lparr>sv_lease = None, sv_calls = 0 :: nat\<rparr>"
  have "\<exists>s1. UpdateStatus ?f ''a'' 1000 ?s = (None, s1) \<and> (\<exists>b s2. IsStatusValid (\<lambda>_. None) 60 1059 s1 = (Inr b, s2))"
    by (simp add: UpdateStatus_def retryWithExponentialBackOff_def retryBackoffSteps_def numeral_3_eq_3 updateFn_def
        lease_Get_def create_def lease_Create_def newLease_def IsStatusValid_def getStatus_def getFn_def)
  then obtain s1 b s2 where u: "UpdateStatus ?f ''a'' 1000 ?s = (None, s1)"
    and v: "IsStatusValid (\<lambda>_. None) 60 1059 s1 = (Inr b, s2)" by blast
  have "b \<longleftrightarrow> (1059 :: time) < 1000 + 60"
    by (rule heartbeat_valid_until_timeout [OF u _ _ v]) (simp_all add: plain_failures_def created_before_def)
  then show ?thesis using u v by auto
qed

end
