(* ===== verification/Cluster_Snapshot.thy ===== *)
theory Cluster_Snapshot
  imports Go_Prelude
begin

text \<open>
  The cluster snapshots of the cluster autoscaler (\<open>cluster-autoscaler/simulator\<close>): the reference
  implementation \<open>basic_cluster_snapshot.go\<close>, which copies everything on a fork, and the optimised
  \<open>delta_cluster_snapshot.go\<close>, which keeps added, modified and deleted nodes on top of a base and
  caches the lists it has built. The node information of the scheduler framework is a parameter, a
  record of the functions the snapshots call.

  Node infos are values here, without the counter of the framework that numbers their changes. The
  code changes one in place only in \<open>addPod\<close> and \<open>removePod\<close>, on an info of the current level, and
  then clears the caches of that level; \<open>Clone\<close> keeps the value. A \<open>RemovePod\<close> that fails, because
  the pod has no UID, has changed nothing.
\<close>

section \<open>The scheduler framework\<close>

record ('n, 'p, 'i) framework =
  fw_NodeName :: "'n \<Rightarrow> string"
  fw_SetNode :: "'n \<Rightarrow> 'i result"
  fw_InfoName :: "'i \<Rightarrow> string"
  fw_Pods :: "'i \<Rightarrow> 'p list"
  fw_PodIs :: "string \<Rightarrow> string \<Rightarrow> 'p \<Rightarrow> bool"
  fw_AddPod :: "'p \<Rightarrow> 'i \<Rightarrow> 'i"
  fw_RemovePod :: "'p \<Rightarrow> 'i \<Rightarrow> 'i result"
  fw_PodsWithAffinity :: "'i \<Rightarrow> 'p list"
  fw_PodsWithRequiredAntiAffinity :: "'i \<Rightarrow> 'p list"

datatype snapshot_error =
    errNodeNotFound
  | NodeAlreadyInSnapshot string
  | CannotSetNode go_error
  | CannotRemovePod go_error
  | PodNotInSnapshot string string
  | AlreadyForked

type_synonym 's outcome = "snapshot_error option \<times> 's"

text \<open>A loop that returns at the first error.\<close>

fun until_error :: "('x \<Rightarrow> 's \<Rightarrow> 's outcome) \<Rightarrow> 'x list \<Rightarrow> 's \<Rightarrow> 's outcome" where
  "until_error f [] s = (None, s)"
| "until_error f (x # xs) s =
     (let (err, s') = f x s in if err \<noteq> None then (err, s') else until_error f xs s')"

section \<open>The basic snapshot\<close>

type_synonym 'i nodeInfoMap = "(string, 'i) gomap"

definition listNodeInfos :: "'i nodeInfoMap \<Rightarrow> 'i list" where
  "listNodeInfos data = map snd data"

definition listNodeInfosThatHavePodsWithAffinityList :: "('n, 'p, 'i) framework \<Rightarrow> 'i nodeInfoMap \<Rightarrow> 'i list" where
  "listNodeInfosThatHavePodsWithAffinityList fw data =
     filter (\<lambda>v. 0 < length (fw_PodsWithAffinity fw v)) (map snd data)"

definition listNodeInfosThatHavePodsWithRequiredAntiAffinityList :: "('n, 'p, 'i) framework \<Rightarrow> 'i nodeInfoMap \<Rightarrow> 'i list" where
  "listNodeInfosThatHavePodsWithRequiredAntiAffinityList fw data =
     filter (\<lambda>v. 0 < length (fw_PodsWithRequiredAntiAffinity fw v)) (map snd data)"

definition basic_addNode :: "('n, 'p, 'i) framework \<Rightarrow> 'n \<Rightarrow> 'i nodeInfoMap \<Rightarrow> 'i nodeInfoMap outcome" where
  "basic_addNode fw node data =
     (if map_of data (fw_NodeName fw node) \<noteq> None then (Some (NodeAlreadyInSnapshot (fw_NodeName fw node)), data)
      else (case fw_SetNode fw node of
              Inl e \<Rightarrow> (Some (CannotSetNode e), data)
            | Inr nodeInfo \<Rightarrow> (None, AList.update (fw_NodeName fw node) nodeInfo data)))"

definition basic_removeNode :: "string \<Rightarrow> 'i nodeInfoMap \<Rightarrow> 'i nodeInfoMap outcome" where
  "basic_removeNode nodeName data =
     (if map_of data nodeName = None then (Some errNodeNotFound, data) else (None, AList.delete nodeName data))"

definition basic_addPod :: "('n, 'p, 'i) framework \<Rightarrow> 'p \<Rightarrow> string \<Rightarrow> 'i nodeInfoMap \<Rightarrow> 'i nodeInfoMap outcome" where
  "basic_addPod fw pod nodeName data =
     (case map_of data nodeName of
        None \<Rightarrow> (Some errNodeNotFound, data)
      | Some nodeInfo \<Rightarrow> (None, AList.update nodeName (fw_AddPod fw pod nodeInfo) data))"

text \<open>The search for the pod on a node info and its removal, the same text in both implementations.\<close>

definition remove_from_info :: "('n, 'p, 'i) framework \<Rightarrow> string \<Rightarrow> string \<Rightarrow> 'i \<Rightarrow> snapshot_error + 'i" where
  "remove_from_info fw namespace podName nodeInfo =
     (case find (fw_PodIs fw namespace podName) (fw_Pods fw nodeInfo) of
        None \<Rightarrow> Inl (PodNotInSnapshot namespace podName)
      | Some pod \<Rightarrow> (case fw_RemovePod fw pod nodeInfo of
            Inl e \<Rightarrow> Inl (CannotRemovePod e)
          | Inr nodeInfo' \<Rightarrow> Inr nodeInfo'))"

definition basic_removePod ::
    "('n, 'p, 'i) framework \<Rightarrow> string \<Rightarrow> string \<Rightarrow> string \<Rightarrow> 'i nodeInfoMap \<Rightarrow> 'i nodeInfoMap outcome" where
  "basic_removePod fw namespace podName nodeName data =
     (case map_of data nodeName of
        None \<Rightarrow> (Some errNodeNotFound, data)
      | Some nodeInfo \<Rightarrow> (case remove_from_info fw namespace podName nodeInfo of
            Inl e \<Rightarrow> (Some e, data)
          | Inr nodeInfo' \<Rightarrow> (None, AList.update nodeName nodeInfo' data)))"

record 'i BasicClusterSnapshot =
  bs_baseData :: "'i nodeInfoMap"
  bs_forkedData :: "'i nodeInfoMap option"

definition getInternalData :: "'i BasicClusterSnapshot \<Rightarrow> 'i nodeInfoMap" where
  "getInternalData snapshot = (case bs_forkedData snapshot of Some d \<Rightarrow> d | None \<Rightarrow> bs_baseData snapshot)"

definition on_internal :: "('i nodeInfoMap \<Rightarrow> 'i nodeInfoMap outcome) \<Rightarrow> 'i BasicClusterSnapshot \<Rightarrow> 'i BasicClusterSnapshot outcome" where
  "on_internal f snapshot =
     (let (err, d) = f (getInternalData snapshot) in
      (err, if bs_forkedData snapshot \<noteq> None then snapshot\<lparr>bs_forkedData := Some d\<rparr> else snapshot\<lparr>bs_baseData := d\<rparr>))"

definition basic_Clear :: "'i BasicClusterSnapshot" where
  "basic_Clear = \<lparr>bs_baseData = [], bs_forkedData = None\<rparr>"

definition basic_Fork :: "'i BasicClusterSnapshot \<Rightarrow> 'i BasicClusterSnapshot outcome" where
  "basic_Fork snapshot =
     (if bs_forkedData snapshot \<noteq> None then (Some AlreadyForked, snapshot)
      else (None, snapshot\<lparr>bs_forkedData := Some (bs_baseData snapshot)\<rparr>))"

definition basic_Revert :: "'i BasicClusterSnapshot \<Rightarrow> 'i BasicClusterSnapshot outcome" where
  "basic_Revert snapshot = (None, snapshot\<lparr>bs_forkedData := None\<rparr>)"

definition basic_Commit :: "'i BasicClusterSnapshot \<Rightarrow> 'i BasicClusterSnapshot outcome" where
  "basic_Commit snapshot =
     (case bs_forkedData snapshot of
        None \<Rightarrow> (None, snapshot)
      | Some d \<Rightarrow> (None, snapshot\<lparr>bs_baseData := d, bs_forkedData := None\<rparr>))"

section \<open>The delta snapshot\<close>

text \<open>
  One level of the chain; a chain is the list of its levels, the current one first, and the \<open>nil\<close>
  base of the last level is the empty list. The set of deleted nodes is a list without
  duplicates, a cache that is \<open>nil\<close> is \<open>None\<close>.
\<close>

record 'i internalDeltaSnapshotData =
  addedNodeInfoMap :: "'i nodeInfoMap"
  modifiedNodeInfoMap :: "'i nodeInfoMap"
  deletedNodeInfos :: "string list"
  nodeInfoList :: "'i list option"
  havePodsWithAffinity :: "'i list option"
  havePodsWithRequiredAntiAffinity :: "'i list option"

type_synonym 'i chain = "'i internalDeltaSnapshotData list"

definition newInternalDeltaSnapshotData :: "'i internalDeltaSnapshotData" where
  "newInternalDeltaSnapshotData =
     \<lparr>addedNodeInfoMap = [], modifiedNodeInfoMap = [], deletedNodeInfos = [], nodeInfoList = None,
      havePodsWithAffinity = None, havePodsWithRequiredAntiAffinity = None\<rparr>"

definition getNodeInfoLocal :: "'i internalDeltaSnapshotData \<Rightarrow> string \<Rightarrow> 'i option" where
  "getNodeInfoLocal data name =
     (case map_of (addedNodeInfoMap data) name of
        Some nodeInfo \<Rightarrow> Some nodeInfo
      | None \<Rightarrow> map_of (modifiedNodeInfoMap data) name)"

fun getNodeInfo :: "'i chain \<Rightarrow> string \<Rightarrow> 'i option" where
  "getNodeInfo [] name = None"
| "getNodeInfo (data # base) name =
     (case getNodeInfoLocal data name of
        Some nodeInfo \<Rightarrow> Some nodeInfo
      | None \<Rightarrow> if name \<in> set (deletedNodeInfos data) then None else getNodeInfo base name)"

definition buildNodeInfoList :: "('n, 'p, 'i) framework \<Rightarrow> 'i internalDeltaSnapshotData \<Rightarrow> 'i list \<Rightarrow> 'i list" where
  "buildNodeInfoList fw data baseList =
     (if deletedNodeInfos data \<noteq> [] \<or> modifiedNodeInfoMap data \<noteq> []
      then map (\<lambda>bni. case map_of (modifiedNodeInfoMap data) (fw_InfoName fw bni) of Some mni \<Rightarrow> mni | None \<Rightarrow> bni)
             (filter (\<lambda>bni. fw_InfoName fw bni \<notin> set (deletedNodeInfos data)) baseList)
      else baseList) @ map snd (addedNodeInfoMap data)"

text \<open>The list, and the chain with the lists that were built on the way.\<close>

fun getNodeInfoList :: "('n, 'p, 'i) framework \<Rightarrow> 'i chain \<Rightarrow> 'i list \<times> 'i chain" where
  "getNodeInfoList fw [] = ([], [])"
| "getNodeInfoList fw (data # base) =
     (case nodeInfoList data of
        Some l \<Rightarrow> (l, data # base)
      | None \<Rightarrow> let (baseList, base') = getNodeInfoList fw base;
                    l = buildNodeInfoList fw data baseList
                in (l, data\<lparr>nodeInfoList := Some l\<rparr> # base'))"

definition clearPodCaches :: "'i internalDeltaSnapshotData \<Rightarrow> 'i internalDeltaSnapshotData" where
  "clearPodCaches data = data\<lparr>havePodsWithAffinity := None, havePodsWithRequiredAntiAffinity := None\<rparr>"

definition clearCaches :: "'i internalDeltaSnapshotData \<Rightarrow> 'i internalDeltaSnapshotData" where
  "clearCaches data = clearPodCaches (data\<lparr>nodeInfoList := None\<rparr>)"

fun addNodeInfo :: "('n, 'p, 'i) framework \<Rightarrow> 'i \<Rightarrow> 'i chain \<Rightarrow> 'i chain outcome" where
  "addNodeInfo fw nodeInfo [] = (None, [])"
| "addNodeInfo fw nodeInfo (data # base) =
     (let name = fw_InfoName fw nodeInfo in
      if getNodeInfo (data # base) name \<noteq> None then (Some (NodeAlreadyInSnapshot name), data # base)
      else let data1 = (if name \<in> set (deletedNodeInfos data)
                        then data\<lparr>deletedNodeInfos := removeAll name (deletedNodeInfos data),
                                  modifiedNodeInfoMap := AList.update name nodeInfo (modifiedNodeInfoMap data)\<rparr>
                        else data\<lparr>addedNodeInfoMap := AList.update name nodeInfo (addedNodeInfoMap data)\<rparr>);
               data2 = data1\<lparr>nodeInfoList := map_option (\<lambda>l. l @ [nodeInfo]) (nodeInfoList data1)\<rparr>
           in (None, (if 0 < length (fw_Pods fw nodeInfo) then clearPodCaches data2 else data2) # base))"

definition delta_addNode :: "('n, 'p, 'i) framework \<Rightarrow> 'n \<Rightarrow> 'i chain \<Rightarrow> 'i chain outcome" where
  "delta_addNode fw node chain =
     (case fw_SetNode fw node of
        Inl e \<Rightarrow> (Some (CannotSetNode e), chain)
      | Inr nodeInfo \<Rightarrow> addNodeInfo fw nodeInfo chain)"

fun delta_removeNode :: "string \<Rightarrow> 'i chain \<Rightarrow> 'i chain outcome" where
  "delta_removeNode nodeName [] = (Some errNodeNotFound, [])"
| "delta_removeNode nodeName (data # base) =
     (let foundInDelta = (map_of (addedNodeInfoMap data) nodeName \<noteq> None);
          data1 = data\<lparr>addedNodeInfoMap := AList.delete nodeName (addedNodeInfoMap data),
                       modifiedNodeInfoMap := AList.delete nodeName (modifiedNodeInfoMap data)\<rparr>
      in if nodeName \<in> set (deletedNodeInfos data) then (Some errNodeNotFound, data1 # base)
         else let foundInBase = (getNodeInfo base nodeName \<noteq> None);
                  data2 = (if foundInBase then data1\<lparr>deletedNodeInfos := nodeName # deletedNodeInfos data1\<rparr> else data1)
              in if \<not> foundInBase \<and> \<not> foundInDelta then (Some errNodeNotFound, data2 # base)
                 else (None, clearCaches data2 # base))"

text \<open>The info that may be changed, copied from the base when the level does not have it.\<close>

fun nodeInfoToModify :: "string \<Rightarrow> 'i chain \<Rightarrow> 'i option \<times> 'i chain" where
  "nodeInfoToModify nodeName [] = (None, [])"
| "nodeInfoToModify nodeName (data # base) =
     (case getNodeInfoLocal data nodeName of
        Some dni \<Rightarrow> (Some dni, data # base)
      | None \<Rightarrow>
          if nodeName \<in> set (deletedNodeInfos data) then (None, data # base)
          else (case getNodeInfo base nodeName of
                  None \<Rightarrow> (None, data # base)
                | Some bni \<Rightarrow> (Some bni, clearCaches (data\<lparr>modifiedNodeInfoMap :=
                    AList.update nodeName bni (modifiedNodeInfoMap data)\<rparr>) # base)))"

text \<open>The change of an info in place, wherever the level keeps it.\<close>

fun set_local :: "string \<Rightarrow> 'i \<Rightarrow> 'i chain \<Rightarrow> 'i chain" where
  "set_local nodeName nodeInfo [] = []"
| "set_local nodeName nodeInfo (data # base) =
     (if map_of (addedNodeInfoMap data) nodeName \<noteq> None
      then data\<lparr>addedNodeInfoMap := AList.update nodeName nodeInfo (addedNodeInfoMap data)\<rparr>
      else data\<lparr>modifiedNodeInfoMap := AList.update nodeName nodeInfo (modifiedNodeInfoMap data)\<rparr>) # base"

fun clear_level :: "'i chain \<Rightarrow> 'i chain" where
  "clear_level [] = []"
| "clear_level (data # base) = clearCaches data # base"

definition delta_addPod :: "('n, 'p, 'i) framework \<Rightarrow> 'p \<Rightarrow> string \<Rightarrow> 'i chain \<Rightarrow> 'i chain outcome" where
  "delta_addPod fw pod nodeName chain =
     (case nodeInfoToModify nodeName chain of
        (None, chain1) \<Rightarrow> (Some errNodeNotFound, chain1)
      | (Some ni, chain1) \<Rightarrow> (None, clear_level (set_local nodeName (fw_AddPod fw pod ni) chain1)))"

definition delta_removePod ::
    "('n, 'p, 'i) framework \<Rightarrow> string \<Rightarrow> string \<Rightarrow> string \<Rightarrow> 'i chain \<Rightarrow> 'i chain outcome" where
  "delta_removePod fw namespace name nodeName chain =
     (case nodeInfoToModify nodeName chain of
        (None, chain1) \<Rightarrow> (Some errNodeNotFound, chain1)
      | (Some ni, chain1) \<Rightarrow> (case remove_from_info fw namespace name ni of
            Inl e \<Rightarrow> (Some e, chain1)
          | Inr ni' \<Rightarrow> (None, clear_level (set_local nodeName ni' chain1))))"

definition delta_fork :: "'i chain \<Rightarrow> 'i chain" where
  "delta_fork chain = newInternalDeltaSnapshotData # chain"

text \<open>The three loops over the base; on an error the level stays, with the base as far as it was changed.\<close>

definition replace_node :: "('n, 'p, 'i) framework \<Rightarrow> 'i \<Rightarrow> 'i chain \<Rightarrow> 'i chain outcome" where
  "replace_node fw nodeInfo base =
     (let (err, base1) = delta_removeNode (fw_InfoName fw nodeInfo) base
      in if err \<noteq> None then (err, base1) else addNodeInfo fw nodeInfo base1)"

fun delta_commit :: "('n, 'p, 'i) framework \<Rightarrow> 'i chain \<Rightarrow> 'i chain outcome" where
  "delta_commit fw [] = (None, [])"
| "delta_commit fw (data # base) =
     (if base = [] then (None, data # base)
      else let (err1, base1) = until_error delta_removeNode (deletedNodeInfos data) base
           in if err1 \<noteq> None then (err1, data # base1)
              else let (err2, base2) = until_error (replace_node fw) (map snd (modifiedNodeInfoMap data)) base1
                   in if err2 \<noteq> None then (err2, data # base2)
                      else let (err3, base3) = until_error (addNodeInfo fw) (map snd (addedNodeInfoMap data)) base2
                           in if err3 \<noteq> None then (err3, data # base3) else (None, base3))"

definition delta_Fork :: "'i chain \<Rightarrow> 'i chain outcome" where
  "delta_Fork chain = (if 1 < length chain then (Some AlreadyForked, chain) else (None, delta_fork chain))"

definition delta_Revert :: "'i chain \<Rightarrow> 'i chain outcome" where
  "delta_Revert chain = (None, if 1 < length chain then tl chain else chain)"

definition delta_Clear :: "'i chain" where
  "delta_Clear = [newInternalDeltaSnapshotData]"

fun HavePodsWithAffinityList :: "('n, 'p, 'i) framework \<Rightarrow> 'i chain \<Rightarrow> 'i list \<times> 'i chain" where
  "HavePodsWithAffinityList fw [] = ([], [])"
| "HavePodsWithAffinityList fw (data # base) =
     (case havePodsWithAffinity data of
        Some l \<Rightarrow> (l, data # base)
      | None \<Rightarrow>
          (case getNodeInfoList fw (data # base) of
             (l, []) \<Rightarrow> ([], [])
           | (l, data1 # base1) \<Rightarrow>
               let l' = filter (\<lambda>node. 0 < length (fw_PodsWithAffinity fw node)) l
               in (l', data1\<lparr>havePodsWithAffinity := Some l'\<rparr> # base1)))"

fun HavePodsWithRequiredAntiAffinityList :: "('n, 'p, 'i) framework \<Rightarrow> 'i chain \<Rightarrow> 'i list \<times> 'i chain" where
  "HavePodsWithRequiredAntiAffinityList fw [] = ([], [])"
| "HavePodsWithRequiredAntiAffinityList fw (data # base) =
     (case havePodsWithRequiredAntiAffinity data of
        Some l \<Rightarrow> (l, data # base)
      | None \<Rightarrow>
          (case getNodeInfoList fw (data # base) of
             (l, []) \<Rightarrow> ([], [])
           | (l, data1 # base1) \<Rightarrow>
               let l' = filter (\<lambda>node. 0 < length (fw_PodsWithRequiredAntiAffinity fw node)) l
               in (l', data1\<lparr>havePodsWithRequiredAntiAffinity := Some l'\<rparr> # base1)))"

section \<open>The interface\<close>

datatype ('n, 'p) snapshot_op =
    AddNode 'n
  | AddNodes "'n list"
  | AddNodeWithPods 'n "'p list"
  | RemoveNode string
  | AddPod_to 'p string
  | RemovePod string string string
  | Fork
  | Revert
  | Commit
  | Clear
  | ListNodes
  | ListPodsWithAffinity
  | ListPodsWithRequiredAntiAffinity
  | GetNode string

datatype 'i observation = Done "snapshot_error option" | Infos "'i list" | Info "'i option"

definition finished :: "'s outcome \<Rightarrow> 'i observation \<times> 's" where
  "finished r = (Done (fst r), snd r)"

definition with_pods ::
    "('s \<Rightarrow> 's outcome) \<Rightarrow> ('p \<Rightarrow> 's \<Rightarrow> 's outcome) \<Rightarrow> 'p list \<Rightarrow> 's \<Rightarrow> 's outcome" where
  "with_pods addNode addPod pods s =
     (let (err, s') = addNode s in if err \<noteq> None then (err, s') else until_error addPod pods s')"

fun basic_exec ::
    "('n, 'p, 'i) framework \<Rightarrow> ('n, 'p) snapshot_op \<Rightarrow> 'i BasicClusterSnapshot \<Rightarrow> 'i observation \<times> 'i BasicClusterSnapshot" where
  "basic_exec fw (AddNode n) s = finished (on_internal (basic_addNode fw n) s)"
| "basic_exec fw (AddNodes ns) s = finished (on_internal (until_error (basic_addNode fw) ns) s)"
| "basic_exec fw (AddNodeWithPods n ps) s =
     finished (with_pods (on_internal (basic_addNode fw n)) (\<lambda>p. on_internal (basic_addPod fw p (fw_NodeName fw n))) ps s)"
| "basic_exec fw (RemoveNode name) s = finished (on_internal (basic_removeNode name) s)"
| "basic_exec fw (AddPod_to p name) s = finished (on_internal (basic_addPod fw p name) s)"
| "basic_exec fw (RemovePod ns p name) s = finished (on_internal (basic_removePod fw ns p name) s)"
| "basic_exec fw Fork s = finished (basic_Fork s)"
| "basic_exec fw Revert s = finished (basic_Revert s)"
| "basic_exec fw Commit s = finished (basic_Commit s)"
| "basic_exec fw Clear s = finished (None, basic_Clear)"
| "basic_exec fw ListNodes s = (Infos (listNodeInfos (getInternalData s)), s)"
| "basic_exec fw ListPodsWithAffinity s = (Infos (listNodeInfosThatHavePodsWithAffinityList fw (getInternalData s)), s)"
| "basic_exec fw ListPodsWithRequiredAntiAffinity s =
     (Infos (listNodeInfosThatHavePodsWithRequiredAntiAffinityList fw (getInternalData s)), s)"
| "basic_exec fw (GetNode name) s = (Info (map_of (getInternalData s) name), s)"

fun delta_exec :: "('n, 'p, 'i) framework \<Rightarrow> ('n, 'p) snapshot_op \<Rightarrow> 'i chain \<Rightarrow> 'i observation \<times> 'i chain" where
  "delta_exec fw (AddNode n) s = finished (delta_addNode fw n s)"
| "delta_exec fw (AddNodes ns) s = finished (until_error (delta_addNode fw) ns s)"
| "delta_exec fw (AddNodeWithPods n ps) s = finished (with_pods (delta_addNode fw n) (\<lambda>p. delta_addPod fw p (fw_NodeName fw n)) ps s)"
| "delta_exec fw (RemoveNode name) s = finished (delta_removeNode name s)"
| "delta_exec fw (AddPod_to p name) s = finished (delta_addPod fw p name s)"
| "delta_exec fw (RemovePod ns p name) s = finished (delta_removePod fw ns p name s)"
| "delta_exec fw Fork s = finished (delta_Fork s)"
| "delta_exec fw Revert s = finished (delta_Revert s)"
| "delta_exec fw Commit s = finished (delta_commit fw s)"
| "delta_exec fw Clear s = finished (None, delta_Clear)"
| "delta_exec fw ListNodes s = (let (l, s') = getNodeInfoList fw s in (Infos l, s'))"
| "delta_exec fw ListPodsWithAffinity s = (let (l, s') = HavePodsWithAffinityList fw s in (Infos l, s'))"
| "delta_exec fw ListPodsWithRequiredAntiAffinity s = (let (l, s') = HavePodsWithRequiredAntiAffinityList fw s in (Infos l, s'))"
| "delta_exec fw (GetNode name) s = (Info (getNodeInfo s name), s)"

end
