(* ===== verification/Snapshot_Refinement.thy ===== *)
theory Snapshot_Refinement
  imports Cluster_Snapshot "HOL-Library.Multiset"
begin

text \<open>
  What a cluster snapshot promises, and that both implementations keep the promise. The abstract
  state is the map of the nodes and, in a fork, the map it was forked from. A locale states that an
  implementation simulates the abstract snapshot, and it is interpreted for the basic and for the
  delta snapshot; two simulations of the same abstract snapshot give the same answers.
\<close>

section \<open>What the scheduler framework promises\<close>

text \<open>
  As documented there: a new node info has no pods and the name of its node, pods come and go
  without changing the name, and the pods with affinity are a subset of the pods.
\<close>

definition framework_ok :: "('n, 'p, 'i) framework \<Rightarrow> bool" where
  "framework_ok fw \<longleftrightarrow>
     (\<forall>n. \<exists>i. fw_SetNode fw n = Inr i \<and> fw_InfoName fw i = fw_NodeName fw n \<and> fw_Pods fw i = []) \<and>
     (\<forall>p i. fw_InfoName fw (fw_AddPod fw p i) = fw_InfoName fw i) \<and>
     (\<forall>p i j. fw_RemovePod fw p i = Inr j \<longrightarrow> fw_InfoName fw j = fw_InfoName fw i) \<and>
     (\<forall>i. set (fw_PodsWithAffinity fw i) \<subseteq> set (fw_Pods fw i) \<and>
          set (fw_PodsWithRequiredAntiAffinity fw i) \<subseteq> set (fw_Pods fw i))"

section \<open>The abstract snapshot\<close>

type_synonym 'i view = "(string \<rightharpoonup> 'i) \<times> (string \<rightharpoonup> 'i) option"

definition spec_addNode :: "('n, 'p, 'i) framework \<Rightarrow> 'n \<Rightarrow> (string \<rightharpoonup> 'i) \<Rightarrow> (string \<rightharpoonup> 'i) outcome" where
  "spec_addNode fw node m =
     (if m (fw_NodeName fw node) \<noteq> None then (Some (NodeAlreadyInSnapshot (fw_NodeName fw node)), m)
      else (case fw_SetNode fw node of
              Inl e \<Rightarrow> (Some (CannotSetNode e), m)
            | Inr i \<Rightarrow> (None, m(fw_NodeName fw node \<mapsto> i))))"

definition spec_removeNode :: "string \<Rightarrow> (string \<rightharpoonup> 'i) \<Rightarrow> (string \<rightharpoonup> 'i) outcome" where
  "spec_removeNode name m = (if m name = None then (Some errNodeNotFound, m) else (None, m(name := None)))"

definition spec_modify :: "('i \<Rightarrow> snapshot_error + 'i) \<Rightarrow> string \<Rightarrow> (string \<rightharpoonup> 'i) \<Rightarrow> (string \<rightharpoonup> 'i) outcome" where
  "spec_modify f name m =
     (case m name of
        None \<Rightarrow> (Some errNodeNotFound, m)
      | Some i \<Rightarrow> (case f i of Inl e \<Rightarrow> (Some e, m) | Inr j \<Rightarrow> (None, m(name \<mapsto> j))))"

datatype 'i answer = Outcome "snapshot_error option" | Selection "'i \<Rightarrow> bool" | Lookup "'i option"

definition on_current :: "((string \<rightharpoonup> 'i) \<Rightarrow> (string \<rightharpoonup> 'i) outcome) \<Rightarrow> 'i view \<Rightarrow> 'i answer \<times> 'i view" where
  "on_current f v = (let (err, m) = f (fst v) in (Outcome err, m, snd v))"

fun spec_exec :: "('n, 'p, 'i) framework \<Rightarrow> ('n, 'p) snapshot_op \<Rightarrow> 'i view \<Rightarrow> 'i answer \<times> 'i view" where
  "spec_exec fw (AddNode n) v = on_current (spec_addNode fw n) v"
| "spec_exec fw (AddNodes ns) v = on_current (until_error (spec_addNode fw) ns) v"
| "spec_exec fw (AddNodeWithPods n ps) v =
     on_current (with_pods (spec_addNode fw n) (\<lambda>p. spec_modify (\<lambda>i. Inr (fw_AddPod fw p i)) (fw_NodeName fw n)) ps) v"
| "spec_exec fw (RemoveNode name) v = on_current (spec_removeNode name) v"
| "spec_exec fw (AddPod_to p name) v = on_current (spec_modify (\<lambda>i. Inr (fw_AddPod fw p i)) name) v"
| "spec_exec fw (RemovePod ns p name) v = on_current (spec_modify (remove_from_info fw ns p) name) v"
| "spec_exec fw Fork v = (if snd v \<noteq> None then (Outcome (Some AlreadyForked), v) else (Outcome None, fst v, Some (fst v)))"
| "spec_exec fw Revert v = (Outcome None, case snd v of None \<Rightarrow> v | Some b \<Rightarrow> (b, None))"
| "spec_exec fw Commit v = (Outcome None, fst v, None)"
| "spec_exec fw Clear v = (Outcome None, Map.empty, None)"
| "spec_exec fw ListNodes v = (Selection (\<lambda>_. True), v)"
| "spec_exec fw ListPodsWithAffinity v = (Selection (\<lambda>i. 0 < length (fw_PodsWithAffinity fw i)), v)"
| "spec_exec fw ListPodsWithRequiredAntiAffinity v = (Selection (\<lambda>i. 0 < length (fw_PodsWithRequiredAntiAffinity fw i)), v)"
| "spec_exec fw (GetNode name) v = (Lookup (fst v name), v)"

text \<open>A list of node infos shows what a map holds: every info that is selected, once, in any order.\<close>

definition enumerates :: "('n, 'p, 'i) framework \<Rightarrow> ('i \<Rightarrow> bool) \<Rightarrow> 'i list \<Rightarrow> (string \<rightharpoonup> 'i) \<Rightarrow> bool" where
  "enumerates fw P l m \<longleftrightarrow> distinct l \<and> (\<forall>i. i \<in> set l \<longleftrightarrow> m (fw_InfoName fw i) = Some i \<and> P i)"

fun meets :: "('n, 'p, 'i) framework \<Rightarrow> 'i answer \<Rightarrow> (string \<rightharpoonup> 'i) \<Rightarrow> 'i observation \<Rightarrow> bool" where
  "meets fw (Outcome err) m (Done err') \<longleftrightarrow> err = err'"
| "meets fw (Selection P) m (Infos l) \<longleftrightarrow> enumerates fw P l m"
| "meets fw (Lookup i) m (Info j) \<longleftrightarrow> i = j"
| "meets fw _ m _ \<longleftrightarrow> False"

section \<open>Simulation\<close>

definition state_after :: "('op \<Rightarrow> 's \<Rightarrow> 'o \<times> 's) \<Rightarrow> 'op list \<Rightarrow> 's \<Rightarrow> 's" where
  "state_after exec ops s = fold (\<lambda>op s. snd (exec op s)) ops s"

text \<open>The operations between a fork and its end.\<close>

fun within_fork :: "('n, 'p) snapshot_op \<Rightarrow> bool" where
  "within_fork op \<longleftrightarrow> op \<noteq> Fork \<and> op \<noteq> Revert \<and> op \<noteq> Commit \<and> op \<noteq> Clear"

lemma spec_within_fork: "within_fork op \<Longrightarrow> snd (snd (spec_exec fw op v)) = snd v"
  by (cases op) (auto simp: on_current_def case_prod_beta Let_def)

fun run :: "('op \<Rightarrow> 's \<Rightarrow> 'o \<times> 's) \<Rightarrow> 'op list \<Rightarrow> 's \<Rightarrow> 'o list" where
  "run exec [] s = []"
| "run exec (op # ops) s = (let (obs, s') = exec op s in obs # run exec ops s')"

fun same_observation :: "'i observation \<Rightarrow> 'i observation \<Rightarrow> bool" where
  "same_observation (Done e) (Done e') \<longleftrightarrow> e = e'"
| "same_observation (Infos l) (Infos l') \<longleftrightarrow> mset l = mset l'"
| "same_observation (Info i) (Info j) \<longleftrightarrow> i = j"
| "same_observation _ _ \<longleftrightarrow> False"

lemma enumerates_unique: "enumerates fw P l m \<Longrightarrow> enumerates fw P l' m \<Longrightarrow> mset l = mset l'"
  unfolding enumerates_def by (subst set_eq_iff_mset_eq_distinct [symmetric]) auto

lemma meets_same: "meets fw a m obs \<Longrightarrow> meets fw a m obs' \<Longrightarrow> same_observation obs obs'"
  by (cases a; cases obs; cases obs') (auto dest: enumerates_unique)

locale cluster_snapshot =
  fixes exec :: "('n, 'p, 'i) framework \<Rightarrow> ('n, 'p) snapshot_op \<Rightarrow> 's \<Rightarrow> 'i observation \<times> 's"
    and inv :: "('n, 'p, 'i) framework \<Rightarrow> 's \<Rightarrow> bool"
    and view :: "'s \<Rightarrow> 'i view"
    and empty :: 's
  assumes simulates: "framework_ok fw \<Longrightarrow> inv fw s \<Longrightarrow> exec fw op s = (obs, s') \<Longrightarrow>
      inv fw s' \<and> view s' = snd (spec_exec fw op (view s)) \<and> meets fw (fst (spec_exec fw op (view s))) (fst (view s)) obs"
    and starts: "inv fw empty \<and> view empty = (Map.empty, None)"
begin

lemma run_meets:
  assumes "framework_ok fw" "inv fw s"
  shows "length (run (exec fw) ops s) = length ops \<and>
    (\<forall>k < length ops. \<exists>v. v = fold (\<lambda>op v. snd (spec_exec fw op v)) (take k ops) (view s) \<and>
       meets fw (fst (spec_exec fw (ops ! k) v)) (fst v) (run (exec fw) ops s ! k))"
  using assms(2)
proof (induction ops arbitrary: s)
  case Nil
  then show ?case by simp
next
  case (Cons op ops)
  obtain obs s' where e: "exec fw op s = (obs, s')" by (cases "exec fw op s")
  note s = simulates [OF assms(1) Cons.prems e]
  then have inv: "inv fw s'" by blast
  show ?case using Cons.IH [OF inv] s by (auto simp: e nth_Cons' less_Suc_eq_0_disj take_Cons')
qed

end

context cluster_snapshot
begin

lemma state_after_view:
  assumes "framework_ok fw" "inv fw s"
  shows "inv fw (state_after (exec fw) ops s) \<and>
    view (state_after (exec fw) ops s) = state_after (spec_exec fw) ops (view s)"
  using assms(2)
proof (induction ops arbitrary: s)
  case (Cons op ops)
  obtain obs s' where e: "exec fw op s = (obs, s')" by (cases "exec fw op s")
  then show ?case using Cons.IH [of s'] simulates [OF assms(1) Cons.prems e] by (simp add: state_after_def)
qed (simp add: state_after_def)

lemma spec_fork_kept: "\<forall>op \<in> set ops. within_fork op \<Longrightarrow> snd (state_after (spec_exec fw) ops v) = snd v"
  by (induction ops arbitrary: v) (auto simp: state_after_def spec_within_fork simp del: within_fork.simps)

lemma revert_restores:
  assumes "framework_ok fw" "inv fw s" "snd (view s) = None" "\<forall>op \<in> set ops. within_fork op"
  shows "view (state_after (exec fw) (Fork # ops @ [Revert]) s) = view s"
  using state_after_view [OF assms(1,2), of "Fork # ops @ [Revert]"] assms(3) spec_fork_kept [OF assms(4), of fw "(fst (view s), Some (fst (view s)))"]
  by (cases "view s") (simp add: state_after_def)

lemma commit_keeps:
  assumes "framework_ok fw" "inv fw s" "snd (view s) = None" "\<forall>op \<in> set ops. within_fork op"
  shows "view (state_after (exec fw) (Fork # ops @ [Commit]) s) = view (state_after (exec fw) ops s)"
proof -
  have "fst (spec_exec fw op (m, b)) = fst (spec_exec fw op (m, b')) \<and>
      fst (snd (spec_exec fw op (m, b))) = fst (snd (spec_exec fw op (m, b')))" if "within_fork op" for op and m :: "string \<rightharpoonup> 'i" and b b'
    using that by (cases op) (auto simp: on_current_def case_prod_beta Let_def)
  then have "fst (state_after (spec_exec fw) ops (m, b)) = fst (state_after (spec_exec fw) ops (m, b'))" for m :: "string \<rightharpoonup> 'i" and b b'
    using assms(4)
  proof (induction ops arbitrary: m b b')
    case (Cons op ops)
    then show ?case unfolding state_after_def by (auto simp del: within_fork.simps) (metis prod.collapse)
  qed (simp add: state_after_def)
  note same = this [of "fst (view s)" "Some (fst (view s))" None]
  show ?thesis
    using state_after_view [OF assms(1,2), of "Fork # ops @ [Commit]"] state_after_view [OF assms(1,2), of ops] assms(3) same
      spec_fork_kept [OF assms(4), of fw "view s"]
    by (cases "view s") (simp add: state_after_def prod_eq_iff)
qed

end

locale cluster_snapshots =
  one: cluster_snapshot exec1 inv1 view1 empty1 + two: cluster_snapshot exec2 inv2 view2 empty2
  for exec1 :: "('n, 'p, 'i) framework \<Rightarrow> ('n, 'p) snapshot_op \<Rightarrow> 's \<Rightarrow> 'i observation \<times> 's"
    and inv1 view1 empty1
    and exec2 :: "('n, 'p, 'i) framework \<Rightarrow> ('n, 'p) snapshot_op \<Rightarrow> 't \<Rightarrow> 'i observation \<times> 't"
    and inv2 view2 empty2
begin

lemma runs_agree:
  assumes "framework_ok fw"
  shows "list_all2 same_observation (run (exec1 fw) ops empty1) (run (exec2 fw) ops empty2)"
proof (rule list_all2_all_nthI)
  show "length (run (exec1 fw) ops empty1) = length (run (exec2 fw) ops empty2)"
    using one.run_meets [OF assms, of empty1 ops] two.run_meets [OF assms, of empty2 ops] one.starts two.starts by simp
next
  fix k assume "k < length (run (exec1 fw) ops empty1)"
  then show "same_observation (run (exec1 fw) ops empty1 ! k) (run (exec2 fw) ops empty2 ! k)"
    using one.run_meets [OF assms, of empty1 ops] two.run_meets [OF assms, of empty2 ops] one.starts two.starts
    by (auto intro!: meets_same)
qed

end

section \<open>The basic snapshot\<close>

definition named :: "('n, 'p, 'i) framework \<Rightarrow> (string \<rightharpoonup> 'i) \<Rightarrow> bool" where
  "named fw m \<longleftrightarrow> (\<forall>k i. m k = Some i \<longrightarrow> fw_InfoName fw i = k)"

lemma named_simps [simp]: "named fw Map.empty" "named fw m \<Longrightarrow> named fw (m(k := None))"
  "named fw m \<Longrightarrow> fw_InfoName fw i = k \<Longrightarrow> named fw (m(k \<mapsto> i))"
  by (auto simp: named_def)

lemma framework_okD:
  assumes "framework_ok fw"
  shows "fw_SetNode fw n = Inr i \<Longrightarrow> fw_InfoName fw i = fw_NodeName fw n \<and> fw_Pods fw i = []"
    and "fw_SetNode fw n \<noteq> Inl e"
    and "fw_InfoName fw (fw_AddPod fw p i) = fw_InfoName fw i"
    and "fw_RemovePod fw p i = Inr j \<Longrightarrow> fw_InfoName fw j = fw_InfoName fw i"
    and "fw_Pods fw i = [] \<Longrightarrow> fw_PodsWithAffinity fw i = []"
    and "fw_Pods fw i = [] \<Longrightarrow> fw_PodsWithRequiredAntiAffinity fw i = []"
proof -
  have *: "\<exists>i. fw_SetNode fw n = Inr i \<and> fw_InfoName fw i = fw_NodeName fw n \<and> fw_Pods fw i = []" for n
    using assms unfolding framework_ok_def by blast
  show "fw_SetNode fw n \<noteq> Inl e" using * [of n] by auto
  show "fw_InfoName fw i = fw_NodeName fw n \<and> fw_Pods fw i = []" if "fw_SetNode fw n = Inr i" using * [of n] that by auto
  show "fw_InfoName fw (fw_AddPod fw p i) = fw_InfoName fw i" using assms unfolding framework_ok_def by blast
  show "fw_InfoName fw j = fw_InfoName fw i" if "fw_RemovePod fw p i = Inr j" using assms that unfolding framework_ok_def by blast
  have "set (fw_PodsWithAffinity fw i) \<subseteq> set (fw_Pods fw i) \<and> set (fw_PodsWithRequiredAntiAffinity fw i) \<subseteq> set (fw_Pods fw i)"
    using assms unfolding framework_ok_def by blast
  then show "fw_Pods fw i = [] \<Longrightarrow> fw_PodsWithAffinity fw i = []" "fw_Pods fw i = [] \<Longrightarrow> fw_PodsWithRequiredAntiAffinity fw i = []"
    by auto
qed

lemma remove_from_info_name:
  "framework_ok fw \<Longrightarrow> remove_from_info fw ns p i = Inr j \<Longrightarrow> fw_InfoName fw j = fw_InfoName fw i"
  by (auto simp: remove_from_info_def dest: framework_okD(4) split: option.splits sum.splits)

text \<open>The nodes of a level, as an association list, behave like the abstract map.\<close>

definition data_ok :: "('n, 'p, 'i) framework \<Rightarrow> 'i nodeInfoMap \<Rightarrow> bool" where
  "data_ok fw d \<longleftrightarrow> gomap_ok d \<and> named fw (map_of d)"

text \<open>A step on the concrete state that is a step on the abstract map.\<close>

definition implements :: "('s \<Rightarrow> bool) \<Rightarrow> ('s \<Rightarrow> string \<rightharpoonup> 'i) \<Rightarrow> ('s \<Rightarrow> 's outcome) \<Rightarrow>
    ((string \<rightharpoonup> 'i) \<Rightarrow> (string \<rightharpoonup> 'i) outcome) \<Rightarrow> bool" where
  "implements I ab f g \<longleftrightarrow> (\<forall>s. I s \<longrightarrow> I (snd (f s)) \<and> g (ab s) = (fst (f s), ab (snd (f s))))"

lemma implements_until_error:
  "(\<And>x. implements I ab (f x) (g x)) \<Longrightarrow> implements I ab (until_error f xs) (until_error g xs)"
proof (induction xs)
  case (Cons x xs)
  then have "implements I ab (f x) (g x)" "implements I ab (until_error f xs) (until_error g xs)" by blast+
  then show ?case by (auto simp: implements_def case_prod_beta Let_def)
qed (simp add: implements_def)

lemma implements_with_pods:
  "implements I ab f g \<Longrightarrow> (\<And>p. implements I ab (f' p) (g' p)) \<Longrightarrow> implements I ab (with_pods f f' ps) (with_pods g g' ps)"
  using implements_until_error [of I ab f' g' ps] by (auto simp: implements_def with_pods_def case_prod_beta Let_def)

lemma basic_implements:
  assumes "framework_ok fw"
  shows "implements (data_ok fw) map_of (basic_addNode fw n) (spec_addNode fw n)"
    and "implements (data_ok fw) map_of (basic_removeNode name) (spec_removeNode name)"
    and "implements (data_ok fw) map_of (basic_addPod fw p name) (spec_modify (\<lambda>i. Inr (fw_AddPod fw p i)) name)"
    and "implements (data_ok fw) map_of (basic_removePod fw ns pn name) (spec_modify (remove_from_info fw ns pn) name)"
  using framework_okD [OF assms] remove_from_info_name [OF assms]
  by (auto simp: implements_def data_ok_def basic_addNode_def spec_addNode_def basic_removeNode_def spec_removeNode_def
      basic_addPod_def basic_removePod_def spec_modify_def update_conv' delete_conv' named_def split: sum.splits option.splits)

definition basic_inv :: "('n, 'p, 'i) framework \<Rightarrow> 'i BasicClusterSnapshot \<Rightarrow> bool" where
  "basic_inv fw s \<longleftrightarrow> data_ok fw (bs_baseData s) \<and> (\<forall>d. bs_forkedData s = Some d \<longrightarrow> data_ok fw d)"

definition basic_view :: "'i BasicClusterSnapshot \<Rightarrow> 'i view" where
  "basic_view s = (map_of (getInternalData s), map_option (\<lambda>_. map_of (bs_baseData s)) (bs_forkedData s))"

lemma on_internal_facts:
  fixes f :: "'i nodeInfoMap \<Rightarrow> 'i nodeInfoMap outcome" and s :: "'i BasicClusterSnapshot"
  shows "fst (on_internal f s) = fst (f (getInternalData s))"
    and "getInternalData (snd (on_internal f s)) = snd (f (getInternalData s))"
    and "snd (basic_view (snd (on_internal f s))) = snd (basic_view s)"
    and "basic_inv fw s \<Longrightarrow> data_ok fw (snd (f (getInternalData s))) \<Longrightarrow> basic_inv fw (snd (on_internal f s))"
  by (cases "bs_forkedData s"; simp add: on_internal_def getInternalData_def basic_view_def basic_inv_def case_prod_beta Let_def)+

lemma on_internal_implements:
  assumes i: "implements (data_ok fw) map_of f g" and inv: "basic_inv fw s" and e: "finished (on_internal f s) = (obs, s')"
  shows "basic_inv fw s' \<and> basic_view s' = snd (on_current g (basic_view s)) \<and>
    meets fw (fst (on_current g (basic_view s))) m obs"
proof -
  define d where "d = getInternalData s"
  have "data_ok fw d" using inv by (auto simp: d_def basic_inv_def getInternalData_def split: option.split)
  then have "data_ok fw (snd (f d))" and g: "g (map_of d) = (fst (f d), map_of (snd (f d)))"
    using i unfolding implements_def by blast+
  then have "basic_inv fw s'" using on_internal_facts(4) [OF inv, of f] e by (simp add: d_def finished_def)
  moreover have "basic_view s' = (map_of (snd (f d)), snd (basic_view s))"
    using e on_internal_facts(2,3) [of f s] by (intro prod_eqI) (auto simp: finished_def d_def basic_view_def)
  moreover have "obs = Done (fst (f d))" using e on_internal_facts(1) [of f s] by (simp add: finished_def d_def)
  moreover have "fst (basic_view s) = map_of d" by (simp add: basic_view_def d_def)
  ultimately show ?thesis by (simp add: on_current_def g)
qed

lemma on_internal_until_error: "until_error (\<lambda>x. on_internal (f x)) xs s = on_internal (until_error f xs) s"
proof (induction xs arbitrary: s)
  case (Cons x xs)
  then show ?case by (auto simp: on_internal_def getInternalData_def case_prod_beta Let_def split: option.splits)
qed (auto simp: on_internal_def getInternalData_def split: option.splits)

lemma on_internal_with_pods:
  "with_pods (on_internal f) (\<lambda>p. on_internal (f' p)) ps s = on_internal (with_pods f f' ps) s"
  unfolding with_pods_def on_internal_until_error
  by (cases "bs_forkedData s") (simp_all add: on_internal_def getInternalData_def case_prod_beta Let_def)

lemma enumerates_data:
  assumes "data_ok fw d"
  shows "enumerates fw P (filter P (map snd d)) (map_of d)"
proof -
  have g: "gomap_ok d" and n: "named fw (map_of d)" using assms by (auto simp: data_ok_def)
  have "fst x = fw_InfoName fw (snd x)" if "x \<in> set d" for x
    using that n in_set_map_of [OF g, of "fst x" "snd x"] by (simp add: named_def)
  then have m: "map fst d = map (fw_InfoName fw) (map snd d)" by simp
  have "distinct (map (fw_InfoName fw) (map snd d))" using g unfolding m [symmetric] gomap_ok_def .
  then have "distinct (map snd d)" by (simp only: distinct_map)
  moreover have "i \<in> set (map snd d) \<longleftrightarrow> map_of d (fw_InfoName fw i) = Some i" for i
    using in_set_map_of [OF g] n by (force simp: named_def)
  ultimately show ?thesis by (simp add: enumerates_def)
qed

lemma basic_simulates:
  assumes fw: "framework_ok fw" and inv: "basic_inv fw s" and e: "basic_exec fw op s = (obs, s')"
  shows "basic_inv fw s' \<and> basic_view s' = snd (spec_exec fw op (basic_view s)) \<and>
    meets fw (fst (spec_exec fw op (basic_view s))) (fst (basic_view s)) obs"
proof -
  note i = basic_implements [OF fw] and on = on_internal_implements [OF _ inv]
  have d: "data_ok fw (getInternalData s)" using inv by (auto simp: basic_inv_def getInternalData_def split: option.split)
  have v: "fst (basic_view s) = map_of (getInternalData s)" by (simp add: basic_view_def)
  show ?thesis
  proof (cases op)
    case (AddNode n)
    then show ?thesis using on [OF i(1)] e by simp
  next
    case (AddNodes ns)
    then show ?thesis using on [OF implements_until_error, OF i(1)] e by simp
  next
    case (AddNodeWithPods n ps)
    then show ?thesis using on [OF implements_with_pods, OF i(1) i(3)] e by (simp add: on_internal_with_pods)
  next
    case (RemoveNode name)
    then show ?thesis using on [OF i(2)] e by simp
  next
    case (AddPod_to p name)
    then show ?thesis using on [OF i(3)] e by simp
  next
    case (RemovePod ns p name)
    then show ?thesis using on [OF i(4)] e by simp
  next
    case ListNodes
    then show ?thesis using enumerates_data [OF d, of "\<lambda>_. True"] inv e v by (auto simp: listNodeInfos_def)
  next
    case ListPodsWithAffinity
    then show ?thesis using enumerates_data [OF d] inv e v by (auto simp: listNodeInfosThatHavePodsWithAffinityList_def)
  next
    case ListPodsWithRequiredAntiAffinity
    then show ?thesis using enumerates_data [OF d] inv e v by (auto simp: listNodeInfosThatHavePodsWithRequiredAntiAffinityList_def)
  qed (use e inv in \<open>auto simp: basic_view_def basic_inv_def getInternalData_def finished_def basic_Fork_def basic_Revert_def
      basic_Commit_def basic_Clear_def data_ok_def split: option.splits if_splits\<close>)
qed

interpretation basic: cluster_snapshot basic_exec basic_inv basic_view basic_Clear
proof (unfold_locales, goal_cases)
  case (1 fw s op obs s')
  then show ?case by (rule basic_simulates)
next
  case (2 fw)
  then show ?case by (simp add: basic_inv_def basic_view_def basic_Clear_def getInternalData_def data_ok_def)
qed

section \<open>The delta snapshot\<close>

text \<open>The nodes a level shows on top of its base, and what keeps a level consistent with the base.\<close>

definition level_map :: "'i internalDeltaSnapshotData \<Rightarrow> (string \<rightharpoonup> 'i) \<Rightarrow> string \<rightharpoonup> 'i" where
  "level_map data bm k =
     (case getNodeInfoLocal data k of
        Some i \<Rightarrow> Some i
      | None \<Rightarrow> if k \<in> set (deletedNodeInfos data) then None else bm k)"

lemma getNodeInfo_Cons: "getNodeInfo (data # base) = level_map data (getNodeInfo base)"
  by (simp add: fun_eq_iff level_map_def)

definition cache_ok :: "('n, 'p, 'i) framework \<Rightarrow> ('i \<Rightarrow> bool) \<Rightarrow> 'i list option \<Rightarrow> (string \<rightharpoonup> 'i) \<Rightarrow> bool" where
  "cache_ok fw P c m \<longleftrightarrow> (\<forall>l. c = Some l \<longrightarrow> enumerates fw P l m)"

definition caches_ok :: "('n, 'p, 'i) framework \<Rightarrow> (string \<rightharpoonup> 'i) \<Rightarrow> 'i internalDeltaSnapshotData \<Rightarrow> bool" where
  "caches_ok fw m data \<longleftrightarrow>
     cache_ok fw (\<lambda>_. True) (nodeInfoList data) m \<and>
     cache_ok fw (\<lambda>i. 0 < length (fw_PodsWithAffinity fw i)) (havePodsWithAffinity data) m \<and>
     cache_ok fw (\<lambda>i. 0 < length (fw_PodsWithRequiredAntiAffinity fw i)) (havePodsWithRequiredAntiAffinity data) m"

definition delta_ok :: "('n, 'p, 'i) framework \<Rightarrow> (string \<rightharpoonup> 'i) \<Rightarrow> 'i internalDeltaSnapshotData \<Rightarrow> bool" where
  "delta_ok fw bm data \<longleftrightarrow>
     data_ok fw (addedNodeInfoMap data) \<and> data_ok fw (modifiedNodeInfoMap data) \<and> distinct (deletedNodeInfos data) \<and>
     (\<forall>k. map_of (addedNodeInfoMap data) k \<noteq> None \<longrightarrow> bm k = None) \<and>
     (\<forall>k. map_of (modifiedNodeInfoMap data) k \<noteq> None \<longrightarrow> bm k \<noteq> None \<and> k \<notin> set (deletedNodeInfos data)) \<and>
     (\<forall>k \<in> set (deletedNodeInfos data). bm k \<noteq> None)"

definition level_ok :: "('n, 'p, 'i) framework \<Rightarrow> (string \<rightharpoonup> 'i) \<Rightarrow> 'i internalDeltaSnapshotData \<Rightarrow> bool" where
  "level_ok fw bm data \<longleftrightarrow> delta_ok fw bm data \<and> caches_ok fw (level_map data bm) data"

fun chain_ok :: "('n, 'p, 'i) framework \<Rightarrow> 'i chain \<Rightarrow> bool" where
  "chain_ok fw [] \<longleftrightarrow> True"
| "chain_ok fw (data # base) \<longleftrightarrow> chain_ok fw base \<and> level_ok fw (getNodeInfo base) data"

lemma cache_ok_None [simp]: "cache_ok fw P None m"
  by (simp add: cache_ok_def)

lemma level_map_cong:
  "addedNodeInfoMap d = addedNodeInfoMap e \<Longrightarrow> modifiedNodeInfoMap d = modifiedNodeInfoMap e \<Longrightarrow>
   deletedNodeInfos d = deletedNodeInfos e \<Longrightarrow> level_map d bm = level_map e bm"
  by (simp only: fun_eq_iff level_map_def getNodeInfoLocal_def) simp

lemma level_map_caches [simp]:
  "level_map (data\<lparr>nodeInfoList := l\<rparr>) bm = level_map data bm"
  "level_map (data\<lparr>havePodsWithAffinity := l\<rparr>) bm = level_map data bm"
  "level_map (data\<lparr>havePodsWithRequiredAntiAffinity := l\<rparr>) bm = level_map data bm"
  "level_map (clearPodCaches data) bm = level_map data bm"
  "level_map (clearCaches data) bm = level_map data bm"
  by (rule level_map_cong; simp add: clearPodCaches_def clearCaches_def)+

lemma delta_ok_caches [simp]:
  "delta_ok fw bm (data\<lparr>nodeInfoList := l\<rparr>) = delta_ok fw bm data"
  "delta_ok fw bm (data\<lparr>havePodsWithAffinity := l\<rparr>) = delta_ok fw bm data"
  "delta_ok fw bm (data\<lparr>havePodsWithRequiredAntiAffinity := l\<rparr>) = delta_ok fw bm data"
  "delta_ok fw bm (clearPodCaches data) = delta_ok fw bm data"
  "delta_ok fw bm (clearCaches data) = delta_ok fw bm data"
  by (simp_all add: delta_ok_def clearPodCaches_def clearCaches_def)

lemma caches_ok_clearCaches [simp]: "caches_ok fw m (clearCaches data)"
  by (simp add: caches_ok_def clearCaches_def clearPodCaches_def)

lemma level_ok_clearCaches [simp]: "level_ok fw bm (clearCaches data) = delta_ok fw bm data"
  by (simp add: level_ok_def)

lemma map_of_delete_absent: "map_of d k = None \<Longrightarrow> AList.delete k d = d"
  by (simp add: map_of_eq_None_iff delete_idem)

subsection \<open>Lists\<close>

lemma enumerates_filter: "enumerates fw (\<lambda>_. True) l m \<Longrightarrow> enumerates fw P (filter P l) m"
  by (auto simp: enumerates_def)

lemma enumerates_snoc:
  "enumerates fw P l m \<Longrightarrow> m (fw_InfoName fw i) = None \<Longrightarrow> P i \<Longrightarrow> enumerates fw P (l @ [i]) (m(fw_InfoName fw i \<mapsto> i))"
  by (auto simp: enumerates_def)

lemma enumerates_irrelevant:
  "enumerates fw P l m \<Longrightarrow> m (fw_InfoName fw i) = None \<Longrightarrow> \<not> P i \<Longrightarrow> enumerates fw P l (m(fw_InfoName fw i \<mapsto> i))"
  by (auto simp: enumerates_def)

lemma enumerates_build:
  assumes d: "delta_ok fw bm data" and b: "enumerates fw (\<lambda>_. True) l bm" and nb: "named fw bm"
  shows "enumerates fw (\<lambda>_. True) (buildNodeInfoList fw data l) (level_map data bm)"
proof -
  define pick where "pick i = (case map_of (modifiedNodeInfoMap data) (fw_InfoName fw i) of Some j \<Rightarrow> j | None \<Rightarrow> i)" for i
  define kept where "kept = filter (\<lambda>i. fw_InfoName fw i \<notin> set (deletedNodeInfos data)) l"
  have n: "named fw (map_of (modifiedNodeInfoMap data))" using d by (simp add: delta_ok_def data_ok_def)
  then have nm: "fw_InfoName fw (pick i) = fw_InfoName fw i" for i
    by (auto simp: pick_def named_def split: option.split)
  have bl: "i \<in> set l \<longleftrightarrow> bm (fw_InfoName fw i) = Some i" for i using b by (auto simp: enumerates_def)
  have dl: "distinct l" using b by (simp add: enumerates_def)
  have build: "buildNodeInfoList fw data l = map pick kept @ map snd (addedNodeInfoMap data)"
    by (auto simp: buildNodeInfoList_def pick_def [abs_def] kept_def filter_id_conv intro!: map_idI)
  have a: "enumerates fw (\<lambda>_. True) (map snd (addedNodeInfoMap data)) (map_of (addedNodeInfoMap data))"
    using enumerates_data [of fw "addedNodeInfoMap data" "\<lambda>_. True"] d by (simp add: delta_ok_def)
  have "inj_on pick (set l)"
    by (rule inj_onI) (metis bl nm option.inject)
  then have "distinct (map pick kept)" using dl by (auto simp: kept_def distinct_map inj_on_def)
  moreover have kept: "j \<in> set (map pick kept) \<longleftrightarrow>
      (map_of (addedNodeInfoMap data) (fw_InfoName fw j) = None \<and> level_map data bm (fw_InfoName fw j) = Some j)" for j
  proof
    assume "j \<in> set (map pick kept)"
    then obtain i where i: "i \<in> set l" "fw_InfoName fw i \<notin> set (deletedNodeInfos data)" "j = pick i"
      by (auto simp: kept_def)
    then have "map_of (addedNodeInfoMap data) (fw_InfoName fw i) = None" using bl [of i] d by (auto simp: delta_ok_def)
    then show "map_of (addedNodeInfoMap data) (fw_InfoName fw j) = None \<and> level_map data bm (fw_InfoName fw j) = Some j"
      using i bl [of i] unfolding i(3) nm by (auto simp: level_map_def getNodeInfoLocal_def pick_def split: option.split)
  next
    assume j: "map_of (addedNodeInfoMap data) (fw_InfoName fw j) = None \<and> level_map data bm (fw_InfoName fw j) = Some j"
    show "j \<in> set (map pick kept)"
    proof (cases "map_of (modifiedNodeInfoMap data) (fw_InfoName fw j)")
      case None
      then show ?thesis using j bl [of j] by (auto simp: level_map_def getNodeInfoLocal_def kept_def pick_def intro!: image_eqI [of _ _ j] split: if_splits)
    next
      case (Some j')
      then have "j' = j" using j by (auto simp: level_map_def getNodeInfoLocal_def)
      obtain i where i: "bm (fw_InfoName fw j) = Some i" "fw_InfoName fw j \<notin> set (deletedNodeInfos data)"
        using d Some by (auto simp: delta_ok_def)
      then have "i \<in> set kept" "fw_InfoName fw i = fw_InfoName fw j" using nb bl [of i] by (auto simp: named_def kept_def)
      then show ?thesis using Some \<open>j' = j\<close> by (auto simp: pick_def intro!: image_eqI [of _ _ i])
    qed
  qed
  moreover have added: "j \<in> set (map snd (addedNodeInfoMap data)) \<longleftrightarrow> map_of (addedNodeInfoMap data) (fw_InfoName fw j) = Some j"
    and "distinct (map snd (addedNodeInfoMap data))" for j
    using a by (auto simp: enumerates_def)
  ultimately have "distinct (buildNodeInfoList fw data l)" unfolding build distinct_append by fastforce
  moreover have "level_map data bm k = Some j" if "map_of (addedNodeInfoMap data) k = Some j" for k j
    using that by (simp add: level_map_def getNodeInfoLocal_def)
  then have "j \<in> set (buildNodeInfoList fw data l) \<longleftrightarrow> level_map data bm (fw_InfoName fw j) = Some j" for j
    unfolding build set_append Un_iff kept added by (cases "map_of (addedNodeInfoMap data) (fw_InfoName fw j)") force+
  ultimately show ?thesis by (simp add: enumerates_def)
qed

lemma named_chain: "chain_ok fw c \<Longrightarrow> named fw (getNodeInfo c)"
proof (induction c)
  case (Cons data base)
  then show ?case
    by (auto simp: getNodeInfo_Cons level_map_def getNodeInfoLocal_def level_ok_def delta_ok_def data_ok_def named_def
        split: option.splits if_splits)
qed (simp add: named_def)

lemma getNodeInfoList_ok:
  "chain_ok fw c \<Longrightarrow> getNodeInfoList fw c = (l, c') \<Longrightarrow>
   enumerates fw (\<lambda>_. True) l (getNodeInfo c) \<and> chain_ok fw c' \<and> length c' = length c \<and>
   getNodeInfo c' = getNodeInfo c \<and> getNodeInfo (tl c') = getNodeInfo (tl c)"
proof (induction fw c arbitrary: l c' rule: getNodeInfoList.induct)
  case (1 fw)
  then show ?case by (simp add: enumerates_def)
next
  case (2 fw data base)
  have lv: "level_ok fw (getNodeInfo base) data" and ch: "chain_ok fw base" using "2.prems" by simp_all
  show ?case
  proof (cases "nodeInfoList data")
    case None
    obtain bl base' where b: "getNodeInfoList fw base = (bl, base')" by (cases "getNodeInfoList fw base")
    note ih = "2.IH" [OF None ch b]
    then have "enumerates fw (\<lambda>_. True) (buildNodeInfoList fw data bl) (level_map data (getNodeInfo base))"
      using lv named_chain [OF ch] by (intro enumerates_build) (auto simp: level_ok_def)
    then show ?thesis using "2.prems"(2) ih lv ch
      by (auto simp: None b Let_def getNodeInfo_Cons level_ok_def caches_ok_def cache_ok_def simp del: getNodeInfo.simps)
  next
    case (Some l')
    then show ?thesis using "2.prems" lv by (auto simp: level_ok_def caches_ok_def cache_ok_def getNodeInfo_Cons simp del: getNodeInfo.simps)
  qed
qed

subsection \<open>Operations\<close>

text \<open>The operations work on the current level: the base below it stays as it is.\<close>

definition top_ok :: "('n, 'p, 'i) framework \<Rightarrow> 'i chain \<Rightarrow> 'i chain \<Rightarrow> bool" where
  "top_ok fw base c \<longleftrightarrow> c \<noteq> [] \<and> tl c = base \<and> chain_ok fw c"

lemma top_okE:
  assumes "top_ok fw base c"
  obtains data where "c = data # base" "chain_ok fw base" "delta_ok fw (getNodeInfo base) data"
    "caches_ok fw (level_map data (getNodeInfo base)) data"
  using assms by (cases c) (auto simp: top_ok_def level_ok_def)

lemma top_ok_Cons: "top_ok fw base (data # base') \<longleftrightarrow>
    base' = base \<and> chain_ok fw base \<and> delta_ok fw (getNodeInfo base) data \<and> caches_ok fw (level_map data (getNodeInfo base)) data"
  by (auto simp: top_ok_def level_ok_def)

definition spec_addInfo :: "('n, 'p, 'i) framework \<Rightarrow> 'i \<Rightarrow> (string \<rightharpoonup> 'i) \<Rightarrow> (string \<rightharpoonup> 'i) outcome" where
  "spec_addInfo fw i m =
     (if m (fw_InfoName fw i) \<noteq> None then (Some (NodeAlreadyInSnapshot (fw_InfoName fw i)), m)
      else (None, m(fw_InfoName fw i \<mapsto> i)))"

lemma level_map_added:
  "map_of (addedNodeInfoMap data) k = Some i \<Longrightarrow> level_map data bm k = Some i"
  by (simp add: level_map_def getNodeInfoLocal_def)

lemma addNodeInfo_delta:
  fixes data :: "'i internalDeltaSnapshotData"
  assumes d: "delta_ok fw bm data" and free: "level_map data bm k = None" and k: "fw_InfoName fw i = k"
  defines "data1 \<equiv> (if k \<in> set (deletedNodeInfos data)
     then data\<lparr>deletedNodeInfos := removeAll k (deletedNodeInfos data),
               modifiedNodeInfoMap := AList.update k i (modifiedNodeInfoMap data)\<rparr>
     else data\<lparr>addedNodeInfoMap := AList.update k i (addedNodeInfoMap data)\<rparr>)"
  shows "delta_ok fw bm data1" and "level_map data1 bm = (level_map data bm)(k \<mapsto> i)"
proof -
  have f: "map_of (addedNodeInfoMap data) k = None" "map_of (modifiedNodeInfoMap data) k = None"
    "k \<in> set (deletedNodeInfos data) \<or> bm k = None"
    using free by (auto simp: level_map_def getNodeInfoLocal_def split: option.splits if_splits)
  show "delta_ok fw bm data1"
    using d f k by (auto simp: data1_def delta_ok_def data_ok_def update_conv' distinct_removeAll)
  show "level_map data1 bm = (level_map data bm)(k \<mapsto> i)"
    using f by (auto simp: data1_def level_map_def getNodeInfoLocal_def update_conv' fun_eq_iff split: option.splits)
qed

lemma addNodeInfo_caches:
  assumes fw: "framework_ok fw" and c: "caches_ok fw m data" and free: "m (fw_InfoName fw i) = None"
  defines "data2 \<equiv> data\<lparr>nodeInfoList := map_option (\<lambda>l. l @ [i]) (nodeInfoList data)\<rparr>"
  shows "caches_ok fw (m(fw_InfoName fw i \<mapsto> i)) (if 0 < length (fw_Pods fw i) then clearPodCaches data2 else data2)"
proof -
  have "cache_ok fw (\<lambda>_. True) (nodeInfoList data2) (m(fw_InfoName fw i \<mapsto> i))"
    using c enumerates_snoc [of fw _ _ m i] free by (auto simp: data2_def caches_ok_def cache_ok_def)
  moreover have "cache_ok fw P x (m(fw_InfoName fw i \<mapsto> i))" if "cache_ok fw P x m" "\<not> P i" for P x
    using that enumerates_irrelevant [of fw _ _ m i] free by (auto simp: cache_ok_def)
  ultimately show ?thesis using c framework_okD(5,6) [OF fw, of i]
    by (auto simp: caches_ok_def clearPodCaches_def data2_def)
qed

lemma addNodeInfo_implements:
  assumes fw: "framework_ok fw"
  shows "implements (top_ok fw base) getNodeInfo (addNodeInfo fw i) (spec_addInfo fw i)"
  unfolding implements_def
proof (intro allI impI)
  fix c assume "top_ok fw base c"
  then obtain data where c: "c = data # base" and b: "chain_ok fw base" and d: "delta_ok fw (getNodeInfo base) data"
    and ca: "caches_ok fw (level_map data (getNodeInfo base)) data" by (rule top_okE)
  show "top_ok fw base (snd (addNodeInfo fw i c)) \<and>
      spec_addInfo fw i (getNodeInfo c) = (fst (addNodeInfo fw i c), getNodeInfo (snd (addNodeInfo fw i c)))"
  proof (cases "level_map data (getNodeInfo base) (fw_InfoName fw i)")
    case None
    note a = addNodeInfo_delta [OF d None refl]
    define data1 where "data1 = (if fw_InfoName fw i \<in> set (deletedNodeInfos data)
     then data\<lparr>deletedNodeInfos := removeAll (fw_InfoName fw i) (deletedNodeInfos data),
               modifiedNodeInfoMap := AList.update (fw_InfoName fw i) i (modifiedNodeInfoMap data)\<rparr>
     else data\<lparr>addedNodeInfoMap := AList.update (fw_InfoName fw i) i (addedNodeInfoMap data)\<rparr>)"
    note a = a [folded data1_def]
    have "caches_ok fw (level_map data (getNodeInfo base)) data1"
      using ca by (simp add: data1_def caches_ok_def)
    note ca1 = addNodeInfo_caches [OF fw this None, folded a(2)]
    show ?thesis using ca1 a b None
      by (auto simp: c Let_def getNodeInfo_Cons top_ok_Cons spec_addInfo_def data1_def [symmetric] simp del: getNodeInfo.simps)
  next
    case (Some j)
    then show ?thesis using b d ca by (simp add: c Let_def getNodeInfo_Cons top_ok_Cons spec_addInfo_def del: getNodeInfo.simps)
  qed
qed

lemma delta_addNode_implements:
  assumes "framework_ok fw"
  shows "implements (top_ok fw base) getNodeInfo (delta_addNode fw n) (spec_addNode fw n)"
proof (cases "fw_SetNode fw n")
  case (Inr i)
  then have "delta_addNode fw n = addNodeInfo fw i" "spec_addNode fw n = spec_addInfo fw i"
    using framework_okD(1) [OF assms Inr] by (auto simp: fun_eq_iff delta_addNode_def spec_addNode_def spec_addInfo_def)
  then show ?thesis using addNodeInfo_implements [OF assms] by simp
qed (use framework_okD(2) [OF assms] in blast)

lemma removeNode_delta:
  assumes d: "delta_ok fw bm data" and k: "k \<notin> set (deletedNodeInfos data)"
  defines "data1 \<equiv> data\<lparr>addedNodeInfoMap := AList.delete k (addedNodeInfoMap data),
                       modifiedNodeInfoMap := AList.delete k (modifiedNodeInfoMap data)\<rparr>"
  defines "data2 \<equiv> (if bm k \<noteq> None then data1\<lparr>deletedNodeInfos := k # deletedNodeInfos data1\<rparr> else data1)"
  shows "delta_ok fw bm data2" and "level_map data2 bm = (level_map data bm)(k := None)"
proof -
  show "delta_ok fw bm data2"
    using d k by (auto simp: data2_def data1_def delta_ok_def data_ok_def delete_conv')
  show "level_map data2 bm = (level_map data bm)(k := None)"
    using k by (auto simp: data2_def data1_def level_map_def getNodeInfoLocal_def delete_conv' fun_eq_iff split: option.splits)
qed

lemma delta_removeNode_implements: "implements (top_ok fw base) getNodeInfo (delta_removeNode k) (spec_removeNode k)"
  unfolding implements_def
proof (intro allI impI)
  fix c assume "top_ok fw base c"
  then obtain data where c: "c = data # base" and b: "chain_ok fw base" and d: "delta_ok fw (getNodeInfo base) data"
    and ca: "caches_ok fw (level_map data (getNodeInfo base)) data" by (rule top_okE)
  let ?bm = "getNodeInfo base" and ?a = "map_of (addedNodeInfoMap data) k" and ?m = "map_of (modifiedNodeInfoMap data) k"
  have shown: "level_map data ?bm k \<noteq> None \<longleftrightarrow> k \<notin> set (deletedNodeInfos data) \<and> (?bm k \<noteq> None \<or> ?a \<noteq> None)"
    using d by (auto simp: level_map_def getNodeInfoLocal_def delta_ok_def split: option.splits)
  show "top_ok fw base (snd (delta_removeNode k c)) \<and>
      spec_removeNode k (getNodeInfo c) = (fst (delta_removeNode k c), getNodeInfo (snd (delta_removeNode k c)))"
  proof (cases "level_map data ?bm k")
    case None
    then have "?a = None" "?m = None"
      by (auto simp: level_map_def getNodeInfoLocal_def split: option.splits)
    then have same: "data\<lparr>addedNodeInfoMap := AList.delete k (addedNodeInfoMap data),
        modifiedNodeInfoMap := AList.delete k (modifiedNodeInfoMap data)\<rparr> = data"
      by (simp add: map_of_delete_absent)
    have "delta_removeNode k c = (Some errNodeNotFound, c)"
      using shown None \<open>?a = None\<close> by (auto simp: c Let_def same)
    then show ?thesis using None b d ca by (simp add: c top_ok_Cons spec_removeNode_def getNodeInfo_Cons del: getNodeInfo.simps)
  next
    case (Some i)
    then have k: "k \<notin> set (deletedNodeInfos data)" and f: "?bm k \<noteq> None \<or> ?a \<noteq> None" using shown by auto
    show ?thesis using removeNode_delta [OF d k] f b k Some
      by (auto simp: c Let_def top_ok_Cons spec_removeNode_def getNodeInfo_Cons simp del: getNodeInfo.simps)
  qed
qed

text \<open>The two changes of pods, over any change of an info that keeps its name.\<close>

definition delta_modify :: "('i \<Rightarrow> snapshot_error + 'i) \<Rightarrow> string \<Rightarrow> 'i chain \<Rightarrow> 'i chain outcome" where
  "delta_modify f k c =
     (case nodeInfoToModify k c of
        (None, c1) \<Rightarrow> (Some errNodeNotFound, c1)
      | (Some i, c1) \<Rightarrow> (case f i of Inl e \<Rightarrow> (Some e, c1) | Inr j \<Rightarrow> (None, clear_level (set_local k j c1))))"

lemma delta_modify_instances:
  "delta_addPod fw p k = delta_modify (\<lambda>i. Inr (fw_AddPod fw p i)) k"
  "delta_removePod fw ns pn k = delta_modify (remove_from_info fw ns pn) k"
  by (auto simp: fun_eq_iff delta_modify_def delta_addPod_def delta_removePod_def split: prod.split option.split)

lemma nodeInfoToModify_ok:
  assumes t: "top_ok fw base c" and e: "nodeInfoToModify k c = (r, c1)"
  shows "r = getNodeInfo c k \<and> top_ok fw base c1 \<and> getNodeInfo c1 = getNodeInfo c \<and>
    (\<forall>i. r = Some i \<longrightarrow> (\<exists>data. c1 = data # base \<and> getNodeInfoLocal data k = Some i))"
proof -
  obtain data where c: "c = data # base" and b: "chain_ok fw base" and d: "delta_ok fw (getNodeInfo base) data"
    and ca: "caches_ok fw (level_map data (getNodeInfo base)) data" using t by (rule top_okE)
  show ?thesis
  proof (cases "getNodeInfoLocal data k = None \<and> k \<notin> set (deletedNodeInfos data) \<and> getNodeInfo base k \<noteq> None")
    case True
    then obtain i where i: "getNodeInfo base k = Some i" by auto
    define data1 where "data1 = data\<lparr>modifiedNodeInfoMap := AList.update k i (modifiedNodeInfoMap data)\<rparr>"
    have "fw_InfoName fw i = k" using named_chain [OF b] i by (simp add: named_def)
    then have "delta_ok fw (getNodeInfo base) data1"
      using d True i by (auto simp: data1_def delta_ok_def data_ok_def update_conv')
    moreover have "level_map data1 (getNodeInfo base) = level_map data (getNodeInfo base)"
      using True i by (auto simp: data1_def level_map_def getNodeInfoLocal_def update_conv' fun_eq_iff split: option.splits)
    moreover have "getNodeInfoLocal (clearCaches data1) k = Some i"
      using True by (auto simp: data1_def getNodeInfoLocal_def clearCaches_def clearPodCaches_def update_conv' split: option.splits)
    ultimately show ?thesis using True i b e
      by (auto simp: c data1_def [symmetric] top_ok_Cons getNodeInfo_Cons simp del: getNodeInfo.simps) (simp add: level_map_def)
  next
    case False
    then show ?thesis using e b d ca
      by (auto simp: c top_ok_Cons split: option.splits if_splits)
  qed
qed

lemma set_local_ok:
  assumes t: "top_ok fw base (data # base)" and i: "getNodeInfoLocal data k = Some i" and j: "fw_InfoName fw j = k"
  shows "top_ok fw base (clear_level (set_local k j (data # base))) \<and>
    getNodeInfo (clear_level (set_local k j (data # base))) = (getNodeInfo (data # base))(k \<mapsto> j)"
proof -
  define data1 where "data1 = (if map_of (addedNodeInfoMap data) k \<noteq> None
      then data\<lparr>addedNodeInfoMap := AList.update k j (addedNodeInfoMap data)\<rparr>
      else data\<lparr>modifiedNodeInfoMap := AList.update k j (modifiedNodeInfoMap data)\<rparr>)"
  have d: "delta_ok fw (getNodeInfo base) data" and b: "chain_ok fw base" using t by (auto simp: top_ok_Cons)
  have "delta_ok fw (getNodeInfo base) data1"
    using d i j by (auto simp: data1_def delta_ok_def data_ok_def update_conv' getNodeInfoLocal_def split: option.splits)
  moreover have "level_map data1 (getNodeInfo base) = (level_map data (getNodeInfo base))(k \<mapsto> j)"
    using i by (auto simp: data1_def level_map_def getNodeInfoLocal_def update_conv' fun_eq_iff split: option.splits)
  moreover have "clear_level (set_local k j (data # base)) = clearCaches data1 # base" by (simp add: data1_def)
  ultimately show ?thesis using b by (simp add: top_ok_Cons getNodeInfo_Cons del: getNodeInfo.simps set_local.simps)
qed

lemma delta_modify_implements:
  assumes "\<And>i j. f i = Inr j \<Longrightarrow> fw_InfoName fw j = fw_InfoName fw i"
  shows "implements (top_ok fw base) getNodeInfo (delta_modify f k) (spec_modify f k)"
  unfolding implements_def
proof (intro allI impI)
  fix c assume t: "top_ok fw base c"
  obtain r c1 where e: "nodeInfoToModify k c = (r, c1)" by (cases "nodeInfoToModify k c")
  note n = nodeInfoToModify_ok [OF t e]
  have "fw_InfoName fw i = k" if "getNodeInfo c k = Some i" for i
    using that t named_chain [of fw c] by (auto simp: top_ok_def named_def)
  then have nm: "fw_InfoName fw j = k" if "getNodeInfo c k = Some i" "f i = Inr j" for i j using that assms by auto
  show "top_ok fw base (snd (delta_modify f k c)) \<and>
      spec_modify f k (getNodeInfo c) = (fst (delta_modify f k c), getNodeInfo (snd (delta_modify f k c)))"
  proof (cases "\<exists>i j. r = Some i \<and> f i = Inr j")
    case True
    then obtain i j data where r: "r = Some i" "f i = Inr j" "c1 = data # base" "getNodeInfoLocal data k = Some i" using n by blast
    have r': "getNodeInfo c k = Some i" "getNodeInfo (data # base) = getNodeInfo c" "top_ok fw base (data # base)" using n r by auto
    have "delta_modify f k c = (None, clear_level (set_local k j (data # base)))" using e r by (simp add: delta_modify_def)
    moreover have "spec_modify f k (getNodeInfo c) = (None, (getNodeInfo c)(k \<mapsto> j))" using r r'(1) by (simp add: spec_modify_def)
    ultimately show ?thesis
      using set_local_ok [OF r'(3) r(4) nm [OF r'(1) r(2)]] by (simp only: r'(2) fst_conv snd_conv simp_thms)
  next
    case False
    then have "snd (delta_modify f k c) = c1" "spec_modify f k (getNodeInfo c) = (fst (delta_modify f k c), getNodeInfo c)"
      using conjunct1 [OF n] e by (auto simp: delta_modify_def spec_modify_def split: option.splits sum.splits)
    then show ?thesis using n by simp
  qed
qed

subsection \<open>Commit\<close>

definition spec_replace :: "('n, 'p, 'i) framework \<Rightarrow> 'i \<Rightarrow> (string \<rightharpoonup> 'i) \<Rightarrow> (string \<rightharpoonup> 'i) outcome" where
  "spec_replace fw i m =
     (let (err, m1) = spec_removeNode (fw_InfoName fw i) m in if err \<noteq> None then (err, m1) else spec_addInfo fw i m1)"

lemma replace_node_implements:
  assumes "framework_ok fw"
  shows "implements (top_ok fw base) getNodeInfo (replace_node fw i) (spec_replace fw i)"
  using addNodeInfo_implements [OF assms, of base i] delta_removeNode_implements [of fw base "fw_InfoName fw i"]
  unfolding implements_def replace_node_def spec_replace_def by (simp add: case_prod_beta Let_def)

lemma until_error_step: "f x s = (None, s') \<Longrightarrow> until_error f (x # xs) s = until_error f xs s'"
  by simp

lemma remove_all:
  "distinct ks \<Longrightarrow> (\<forall>k \<in> set ks. m k \<noteq> None) \<Longrightarrow> until_error spec_removeNode ks m = (None, m |` (- set ks))"
proof (induction ks arbitrary: m)
  case (Cons k ks)
  have "(m(k := None)) |` (- set ks) = m |` (- set (k # ks))" by (auto simp: restrict_map_def fun_eq_iff)
  moreover have "spec_removeNode k m = (None, m(k := None))" using Cons.prems by (simp add: spec_removeNode_def)
  moreover have "until_error spec_removeNode ks (m(k := None)) = (None, (m(k := None)) |` (- set ks))"
    using Cons.prems by (intro Cons.IH) auto
  ultimately show ?case using until_error_step [of spec_removeNode k m "m(k := None)" ks] by simp
qed (simp add: restrict_map_def)

text \<open>The loops over the modified and over the added infos, which differ in what must be there before.\<close>

lemma fill_all:
  assumes f: "\<And>i m. Q (m (fw_InfoName fw i)) \<Longrightarrow> f i m = (None, m(fw_InfoName fw i \<mapsto> i))"
  shows "data_ok fw d \<Longrightarrow> (\<forall>k. map_of d k \<noteq> None \<longrightarrow> Q (m k)) \<Longrightarrow> until_error f (map snd d) m = (None, m ++ map_of d)"
proof (induction d arbitrary: m)
  case (Cons e d)
  obtain k i where e: "e = (k, i)" by (cases e)
  have g: "gomap_ok ((k, i) # d)" and n: "named fw (map_of ((k, i) # d))" using Cons.prems(1) by (auto simp: e data_ok_def)
  have k: "map_of d k = None" using g by (simp add: gomap_ok_def map_of_eq_None_iff)
  moreover have "named fw (map_of d)" using n k unfolding named_def by (metis map_of_Cons_code(2) option.distinct(1))
  ultimately have d: "data_ok fw d" using g by (simp add: data_ok_def gomap_ok_def)
  have i: "fw_InfoName fw i = k" using n by (simp add: named_def)
  have "Q ((m(k \<mapsto> i)) k')" if "map_of d k' \<noteq> None" for k'
    using that k Cons.prems(2) by (cases "k' = k") (auto simp: e)
  then have "until_error f (map snd d) (m(k \<mapsto> i)) = (None, m(k \<mapsto> i) ++ map_of d)" by (intro Cons.IH [OF d]) blast
  moreover have "m(k \<mapsto> i) ++ map_of d = m ++ map_of ((k, i) # d)" using k by (simp add: map_add_upd_left domIff)
  moreover have "f i m = (None, m(k \<mapsto> i))" using f [of m i] Cons.prems(2) i by (simp add: e)
  ultimately show ?case using until_error_step [of f i m "m(k \<mapsto> i)" "map snd d"] by (simp only: e list.map snd_conv)
qed simp

lemma add_all:
  "data_ok fw d \<Longrightarrow> (\<forall>k. map_of d k \<noteq> None \<longrightarrow> m k = None) \<Longrightarrow>
   until_error (spec_addInfo fw) (map snd d) m = (None, m ++ map_of d)"
  by (rule fill_all [of "\<lambda>x. x = None"]) (auto simp: spec_addInfo_def)

lemma replace_all:
  "data_ok fw d \<Longrightarrow> (\<forall>k. map_of d k \<noteq> None \<longrightarrow> m k \<noteq> None) \<Longrightarrow>
   until_error (spec_replace fw) (map snd d) m = (None, m ++ map_of d)"
  by (rule fill_all [of "\<lambda>x. x \<noteq> None"]) (auto simp: spec_replace_def spec_removeNode_def spec_addInfo_def)

lemma loop_implements:
  assumes "\<And>x. implements I ab (f x) (g x)" "I s" "ab s = m" "until_error g xs m = (e, m')"
  shows "\<exists>s'. until_error f xs s = (e, s') \<and> I s' \<and> ab s' = m'"
  using implements_until_error [of I ab f g xs, OF assms(1)] assms(2-4)
  unfolding implements_def by (cases "until_error f xs s") force

lemma delta_commit_ok:
  assumes fw: "framework_ok fw" and ok: "chain_ok fw (data # base)" and ne: "base \<noteq> []"
  shows "\<exists>c. delta_commit fw (data # base) = (None, c) \<and> top_ok fw (tl base) c \<and> getNodeInfo c = getNodeInfo (data # base)"
proof -
  have d: "delta_ok fw (getNodeInfo base) data" and t: "top_ok fw (tl base) base"
    using ok ne by (auto simp: level_ok_def top_ok_def)
  let ?m1 = "getNodeInfo base |` (- set (deletedNodeInfos data))"
  let ?m2 = "?m1 ++ map_of (modifiedNodeInfoMap data)"
  have s1: "until_error spec_removeNode (deletedNodeInfos data) (getNodeInfo base) = (None, ?m1)"
    using d by (intro remove_all) (auto simp: delta_ok_def)
  have s2: "until_error (spec_replace fw) (map snd (modifiedNodeInfoMap data)) ?m1 = (None, ?m2)"
    using d by (intro replace_all) (auto simp: delta_ok_def restrict_map_def)
  have s3: "until_error (spec_addInfo fw) (map snd (addedNodeInfoMap data)) ?m2 = (None, ?m2 ++ map_of (addedNodeInfoMap data))"
    using d by (intro add_all) (fastforce simp: delta_ok_def restrict_map_def map_add_def split: option.splits)+
  obtain c1 where c1: "until_error delta_removeNode (deletedNodeInfos data) base = (None, c1)" "top_ok fw (tl base) c1" "getNodeInfo c1 = ?m1"
    using loop_implements [of _ getNodeInfo delta_removeNode spec_removeNode, OF delta_removeNode_implements t refl s1] by blast
  obtain c2 where c2: "until_error (replace_node fw) (map snd (modifiedNodeInfoMap data)) c1 = (None, c2)" "top_ok fw (tl base) c2" "getNodeInfo c2 = ?m2"
    using loop_implements [of _ getNodeInfo "replace_node fw" "spec_replace fw", OF replace_node_implements [OF fw] c1(2,3) s2] by blast
  obtain c3 where c3: "until_error (addNodeInfo fw) (map snd (addedNodeInfoMap data)) c2 = (None, c3)" "top_ok fw (tl base) c3"
      "getNodeInfo c3 = ?m2 ++ map_of (addedNodeInfoMap data)"
    using loop_implements [of _ getNodeInfo "addNodeInfo fw" "spec_addInfo fw", OF addNodeInfo_implements [OF fw] c2(2,3) s3] by blast
  have "?m2 ++ map_of (addedNodeInfoMap data) = level_map data (getNodeInfo base)"
    by (auto simp: fun_eq_iff level_map_def getNodeInfoLocal_def map_add_def restrict_map_def split: option.split)
  then show ?thesis using c1(1) c2(1) c3 ne by (simp add: getNodeInfo_Cons del: getNodeInfo.simps)
qed

subsection \<open>The whole interface\<close>

definition delta_inv :: "('n, 'p, 'i) framework \<Rightarrow> 'i chain \<Rightarrow> bool" where
  "delta_inv fw c \<longleftrightarrow> chain_ok fw c \<and> (length c = 1 \<or> length c = 2)"

definition delta_view :: "'i chain \<Rightarrow> 'i view" where
  "delta_view c = (getNodeInfo c, if 1 < length c then Some (getNodeInfo (tl c)) else None)"

lemma length_Suc_tl: "xs \<noteq> [] \<Longrightarrow> length xs = Suc (length (tl xs))"
  by simp

lemma getNodeInfo_Nil: "getNodeInfo [] = Map.empty"
  by (simp add: fun_eq_iff)

lemma on_top:
  assumes "implements (top_ok fw (tl c)) getNodeInfo f g" and inv: "delta_inv fw c" and e: "finished (f c) = (obs, c')"
  shows "delta_inv fw c' \<and> delta_view c' = snd (on_current g (delta_view c)) \<and> meets fw (fst (on_current g (delta_view c))) m obs"
proof -
  have "top_ok fw (tl c) c" using inv by (auto simp: top_ok_def delta_inv_def)
  then have t: "top_ok fw (tl c) (snd (f c))" and g: "g (getNodeInfo c) = (fst (f c), getNodeInfo (snd (f c)))"
    using assms(1) unfolding implements_def by blast+
  have c': "c' = snd (f c)" "obs = Done (fst (f c))" using e by (auto simp: finished_def)
  have l: "length c' = length c" "tl c' = tl c" "chain_ok fw c'"
    using t inv length_Suc_tl [of c'] length_Suc_tl [of c] by (auto simp: c'(1) top_ok_def delta_inv_def)
  then show ?thesis using inv g by (simp add: delta_inv_def delta_view_def on_current_def c')
qed

lemma chain_filter_caches:
  assumes c: "chain_ok fw c" "c \<noteq> []"
  shows "HavePodsWithAffinityList fw c = (l, c') \<Longrightarrow>
      enumerates fw (\<lambda>i. 0 < length (fw_PodsWithAffinity fw i)) l (getNodeInfo c) \<and> chain_ok fw c' \<and> length c' = length c \<and>
      getNodeInfo c' = getNodeInfo c \<and> getNodeInfo (tl c') = getNodeInfo (tl c)"
    and "HavePodsWithRequiredAntiAffinityList fw c = (l, c') \<Longrightarrow>
      enumerates fw (\<lambda>i. 0 < length (fw_PodsWithRequiredAntiAffinity fw i)) l (getNodeInfo c) \<and> chain_ok fw c' \<and> length c' = length c \<and>
      getNodeInfo c' = getNodeInfo c \<and> getNodeInfo (tl c') = getNodeInfo (tl c)"
proof -
  obtain data base where cc: "c = data # base" using c(2) by (cases c) auto
  obtain l1 c1 where g: "getNodeInfoList fw c = (l1, c1)" by (cases "getNodeInfoList fw c")
  note n = getNodeInfoList_ok [OF c(1) g]
  then obtain data1 base1 where c1: "c1 = data1 # base1" using c(2) by (cases c1) auto
  have lv: "level_ok fw (getNodeInfo base) data" and lv1: "level_ok fw (getNodeInfo base1) data1" and b1: "chain_ok fw base1"
    using c(1) n by (auto simp: cc c1)
  have m1: "level_map data1 (getNodeInfo base1) = getNodeInfo c" using n by (auto simp: c1 getNodeInfo_Cons simp del: getNodeInfo.simps)
  have e: "enumerates fw P (filter P l1) (getNodeInfo c)" for P using n enumerates_filter by blast
  show "enumerates fw (\<lambda>i. 0 < length (fw_PodsWithAffinity fw i)) l (getNodeInfo c) \<and> chain_ok fw c' \<and> length c' = length c \<and>
      getNodeInfo c' = getNodeInfo c \<and> getNodeInfo (tl c') = getNodeInfo (tl c)"
    if h: "HavePodsWithAffinityList fw c = (l, c')"
  proof (cases "havePodsWithAffinity data")
    case None
    then have "l = filter (\<lambda>i. 0 < length (fw_PodsWithAffinity fw i)) l1 \<and> c' = data1\<lparr>havePodsWithAffinity := Some l\<rparr> # base1"
      using h g by (auto simp: cc c1 Let_def)
    then show ?thesis using e [of "\<lambda>i. 0 < length (fw_PodsWithAffinity fw i)"] lv1 b1 n m1
      by (auto simp: c1 level_ok_def caches_ok_def cache_ok_def getNodeInfo_Cons simp del: getNodeInfo.simps)
  next
    case (Some x)
    then show ?thesis using h lv c by (auto simp: cc level_ok_def caches_ok_def cache_ok_def getNodeInfo_Cons simp del: getNodeInfo.simps)
  qed
  show "enumerates fw (\<lambda>i. 0 < length (fw_PodsWithRequiredAntiAffinity fw i)) l (getNodeInfo c) \<and> chain_ok fw c' \<and> length c' = length c \<and>
      getNodeInfo c' = getNodeInfo c \<and> getNodeInfo (tl c') = getNodeInfo (tl c)"
    if h: "HavePodsWithRequiredAntiAffinityList fw c = (l, c')"
  proof (cases "havePodsWithRequiredAntiAffinity data")
    case None
    then have "l = filter (\<lambda>i. 0 < length (fw_PodsWithRequiredAntiAffinity fw i)) l1 \<and> c' = data1\<lparr>havePodsWithRequiredAntiAffinity := Some l\<rparr> # base1"
      using h g by (auto simp: cc c1 Let_def)
    then show ?thesis using e [of "\<lambda>i. 0 < length (fw_PodsWithRequiredAntiAffinity fw i)"] lv1 b1 n m1
      by (auto simp: c1 level_ok_def caches_ok_def cache_ok_def getNodeInfo_Cons simp del: getNodeInfo.simps)
  next
    case (Some x)
    then show ?thesis using h lv c by (auto simp: cc level_ok_def caches_ok_def cache_ok_def getNodeInfo_Cons simp del: getNodeInfo.simps)
  qed
qed

lemma new_level_ok: "level_ok fw bm newInternalDeltaSnapshotData" "level_map newInternalDeltaSnapshotData bm = bm"
  by (simp_all add: level_ok_def delta_ok_def caches_ok_def data_ok_def newInternalDeltaSnapshotData_def fun_eq_iff
      level_map_def getNodeInfoLocal_def)

lemma forks_simulate:
  assumes fw: "framework_ok fw" and inv: "delta_inv fw c" and op: "op \<in> {Fork, Revert, Commit, Clear}"
    and e: "delta_exec fw op c = (obs, c')"
  shows "delta_inv fw c' \<and> delta_view c' = snd (spec_exec fw op (delta_view c)) \<and>
    meets fw (fst (spec_exec fw op (delta_view c))) m obs"
proof (cases "length c = 1")
  case True
  then obtain data where c: "c = [data]" by (auto simp: length_Suc_conv)
  then show ?thesis using inv op e
    by (auto simp: delta_inv_def delta_view_def delta_Fork_def delta_fork_def delta_Revert_def delta_Clear_def finished_def new_level_ok
        getNodeInfo_Cons getNodeInfo_Nil simp del: getNodeInfo.simps)
next
  case False
  then obtain data b where c: "c = [data, b]" using inv by (auto simp: delta_inv_def length_Suc_conv numeral_2_eq_2)
  obtain x where x: "delta_commit fw c = (None, x)" "top_ok fw [] x" "getNodeInfo x = getNodeInfo c"
    using delta_commit_ok [OF fw, of data "[b]"] inv by (auto simp: c delta_inv_def simp del: delta_commit.simps getNodeInfo.simps)
  then have "length x = 1" "chain_ok fw x" by (cases x; auto simp: top_ok_def)+
  then show ?thesis using inv op e x c
    by (auto simp: delta_inv_def delta_view_def delta_Fork_def delta_Revert_def delta_Clear_def finished_def new_level_ok
        getNodeInfo_Cons getNodeInfo_Nil simp del: getNodeInfo.simps delta_commit.simps)
qed

lemma read_keeps:
  "delta_inv fw c \<Longrightarrow> chain_ok fw c' \<Longrightarrow> length c' = length c \<Longrightarrow> getNodeInfo c' = getNodeInfo c \<Longrightarrow>
   getNodeInfo (tl c') = getNodeInfo (tl c) \<Longrightarrow> delta_inv fw c' \<and> delta_view c' = delta_view c"
  by (simp add: delta_inv_def delta_view_def)

lemma lists_simulate:
  assumes inv: "delta_inv fw c" and op: "op \<in> {ListNodes, ListPodsWithAffinity, ListPodsWithRequiredAntiAffinity}"
    and e: "delta_exec fw op c = (obs, c')"
  shows "delta_inv fw c' \<and> delta_view c' = snd (spec_exec fw op (delta_view c)) \<and>
    meets fw (fst (spec_exec fw op (delta_view c))) (fst (delta_view c)) obs"
proof -
  have c: "chain_ok fw c" "c \<noteq> []" using inv by (auto simp: delta_inv_def)
  have v: "fst (delta_view c) = getNodeInfo c" by (simp add: delta_view_def)
  obtain l1 c1 l2 c2 l3 c3 where g: "getNodeInfoList fw c = (l1, c1)" "HavePodsWithAffinityList fw c = (l2, c2)"
      "HavePodsWithRequiredAntiAffinityList fw c = (l3, c3)" by (meson surj_pair)
  note n = getNodeInfoList_ok [OF c(1) g(1)] chain_filter_caches(1) [OF c g(2)] chain_filter_caches(2) [OF c g(3)]
  have k: "delta_inv fw c1 \<and> delta_view c1 = delta_view c" "delta_inv fw c2 \<and> delta_view c2 = delta_view c"
      "delta_inv fw c3 \<and> delta_view c3 = delta_view c" using n read_keeps [OF inv] by blast+
  consider "op = ListNodes" | "op = ListPodsWithAffinity" | "op = ListPodsWithRequiredAntiAffinity" using op by blast
  then show ?thesis
  proof cases
    case 1
    then have "obs = Infos l1 \<and> c' = c1" using e g by simp
    then show ?thesis using 1 n(1) k(1) v by simp
  next
    case 2
    then have "obs = Infos l2 \<and> c' = c2" using e g by simp
    then show ?thesis using 2 n(2) k(2) v by simp
  next
    case 3
    then have "obs = Infos l3 \<and> c' = c3" using e g by simp
    then show ?thesis using 3 n(3) k(3) v by simp
  qed
qed

lemma delta_simulates:
  assumes fw: "framework_ok fw" and inv: "delta_inv fw c" and e: "delta_exec fw op c = (obs, c')"
  shows "delta_inv fw c' \<and> delta_view c' = snd (spec_exec fw op (delta_view c)) \<and>
    meets fw (fst (spec_exec fw op (delta_view c))) (fst (delta_view c)) obs"
proof -
  note add = delta_addNode_implements [OF fw] and on = on_top [OF _ inv]
  have pod: "implements (top_ok fw base) getNodeInfo (delta_addPod fw p k) (spec_modify (\<lambda>i. Inr (fw_AddPod fw p i)) k)" for base p k
    unfolding delta_modify_instances by (rule delta_modify_implements) (auto simp: framework_okD(3) [OF fw])
  have unpod: "implements (top_ok fw base) getNodeInfo (delta_removePod fw ns pn k) (spec_modify (remove_from_info fw ns pn) k)" for base ns pn k
    unfolding delta_modify_instances by (rule delta_modify_implements) (rule remove_from_info_name [OF fw])
  show ?thesis
  proof (cases op)
    case (AddNode n)
    then show ?thesis using on [OF add] e by simp
  next
    case (AddNodes ns)
    then show ?thesis using on [OF implements_until_error, OF add] e by simp
  next
    case (AddNodeWithPods n ps)
    then show ?thesis using on [OF implements_with_pods, OF add pod] e by simp
  next
    case (RemoveNode name)
    then show ?thesis using on [OF delta_removeNode_implements] e by simp
  next
    case (AddPod_to p name)
    then show ?thesis using on [OF pod] e by simp
  next
    case (RemovePod ns p name)
    then show ?thesis using on [OF unpod] e by simp
  next
    case (GetNode name)
    then show ?thesis using inv e by (auto simp: delta_view_def)
  qed (use forks_simulate [OF fw inv _ e] lists_simulate [OF inv _ e] in blast)+
qed

interpretation delta: cluster_snapshot delta_exec delta_inv delta_view delta_Clear
proof (unfold_locales, goal_cases)
  case (1 fw s op obs s')
  then show ?case by (rule delta_simulates)
next
  case (2 fw)
  then show ?case by (simp add: delta_inv_def delta_view_def delta_Clear_def new_level_ok getNodeInfo_Cons getNodeInfo_Nil del: getNodeInfo.simps)
qed

interpretation both: cluster_snapshots basic_exec basic_inv basic_view basic_Clear delta_exec delta_inv delta_view delta_Clear
  by unfold_locales

section \<open>Properties\<close>

text \<open>
  C4. The optimised snapshot is indistinguishable from the reference snapshot: for every sequence of
  operations from the empty snapshot, forks, commits and failing operations included, the delta
  snapshot returns the same errors and the same node infos as the basic one, lists up to their order.
\<close>

theorem delta_refines_basic:
  assumes "framework_ok fw"
  shows "list_all2 same_observation (run (basic_exec fw) ops basic_Clear) (run (delta_exec fw) ops delta_Clear)"
  by (rule both.runs_agree [OF assms])

text \<open>A framework in which an info is a name with its pods, and a pod has a name and an affinity.\<close>

definition small_framework :: "(string, string \<times> bool, string \<times> (string \<times> bool) list) framework" where
  "small_framework =
     \<lparr>fw_NodeName = (\<lambda>n. n), fw_SetNode = (\<lambda>n. Inr (n, [])), fw_InfoName = fst, fw_Pods = snd,
      fw_PodIs = (\<lambda>namespace n p. fst p = n), fw_AddPod = (\<lambda>p i. (fst i, snd i @ [p])),
      fw_RemovePod = (\<lambda>p i. Inr (fst i, remove1 p (snd i))),
      fw_PodsWithAffinity = (\<lambda>i. filter snd (snd i)), fw_PodsWithRequiredAntiAffinity = (\<lambda>i. [])\<rparr>"

lemma small_framework_ok: "framework_ok small_framework"
  by (auto simp: framework_ok_def small_framework_def)

theorem delta_refines_basic_witness:
  "list_all2 same_observation
     (run (basic_exec small_framework) [AddNodes [''a'', ''b''], Fork, AddPod_to (''p'', True) ''a'', RemoveNode ''b'', Commit, ListPodsWithAffinity] basic_Clear)
     (run (delta_exec small_framework) [AddNodes [''a'', ''b''], Fork, AddPod_to (''p'', True) ''a'', RemoveNode ''b'', Commit, ListPodsWithAffinity] delta_Clear) \<and>
   run (delta_exec small_framework) [AddNodes [''a'', ''b''], Fork, AddPod_to (''p'', True) ''a'', RemoveNode ''b'', Commit, ListPodsWithAffinity] delta_Clear
     = [Done None, Done None, Done None, Done None, Done None, Infos [(''a'', [(''p'', True)])]]"
  by (rule conjI [OF delta_refines_basic [OF small_framework_ok]]) code_simp

text \<open>
  A fork is a transaction: whatever is done between a fork and its end, reverting gives back the
  nodes there were and committing gives what the same operations give without a fork; neither can
  leave the snapshot forked.
\<close>

theorem delta_fork_transaction:
  assumes "framework_ok fw" "delta_inv fw c" "length c = 1" "\<forall>op \<in> set ops. within_fork op"
  shows "delta_view (state_after (delta_exec fw) (Fork # ops @ [Revert]) c) = delta_view c \<and>
    delta_view (state_after (delta_exec fw) (Fork # ops @ [Commit]) c) = delta_view (state_after (delta_exec fw) ops c)"
  using delta.revert_restores [OF assms(1,2) _ assms(4)] delta.commit_keeps [OF assms(1,2) _ assms(4)] assms(3)
  by (simp add: delta_view_def)

theorem delta_fork_transaction_witness:
  "getNodeInfo (state_after (delta_exec small_framework) [Fork, AddNode ''a'', Commit] delta_Clear) ''a'' = Some (''a'', []) \<and>
   delta_view (state_after (delta_exec small_framework) (Fork # [AddNode ''a''] @ [Revert]) delta_Clear) = delta_view delta_Clear \<and>
   delta_view (state_after (delta_exec small_framework) (Fork # [AddNode ''a''] @ [Commit]) delta_Clear) =
     delta_view (state_after (delta_exec small_framework) [AddNode ''a''] delta_Clear)"
proof -
  have "delta_inv small_framework delta_Clear" using delta.starts by blast
  moreover have "length (delta_Clear :: (string \<times> (string \<times> bool) list) chain) = 1" by (simp add: delta_Clear_def)
  moreover have "getNodeInfo (state_after (delta_exec small_framework) [Fork, AddNode ''a'', Commit] delta_Clear) ''a'' = Some (''a'', [])"
    by code_simp
  ultimately show ?thesis
    using delta_fork_transaction [OF small_framework_ok, of delta_Clear "[AddNode ''a'']"] by simp
qed

end
