(* ===== verification/Nanny.thy ===== *)
theory Nanny
  imports Kube_Types Go_Strings
begin

text \<open>
  The addon resizer (\<open>addon-resizer\<close>): a container that scales the resources of one deployment with
  the number of nodes. The estimator (\<open>nanny/estimator.go\<close>), the decision and the poll loop
  (\<open>nanny/nanny_lib.go\<close>), the client (\<open>nanny/kubernetes_client.go\<close>) and the configuration (\<open>main.go\<close>).
  Parsing of a quantity is a parameter, and so are the listers and the API server.
\<close>

section \<open>The estimator\<close>

text \<open>The code reads the quantity \<open>ExtraPerNode\<close> only through its string.\<close>

record Resource =
  Base :: Quantity
  ExtraPerNode :: string
  res_Name :: ResourceName

record ResourceListPair =
  lower :: ResourceList
  upper :: ResourceList

record EstimatorResult =
  RecommendedRange :: ResourceListPair
  AcceptableRange :: ResourceListPair

record Estimator =
  est_Resources :: "Resource list"
  AcceptanceOffset :: int
  RecommendationOffset :: int

definition getOffsetNodeCount :: "int \<Rightarrow> int \<Rightarrow> (float64 \<Rightarrow> int) \<Rightarrow> int" where
  "getOffsetNodeCount nodeCount offset rounder =
     wrap64 (wrap64 nodeCount + rounder (of_int nodeCount * of_int offset / 100)) mod 2 ^ 64"

text \<open>The overhead of a number of nodes; \<open>read\<close> is the number of items that \<open>Sscanf\<close> has scanned.\<close>

definition overhead_string :: "int \<Rightarrow> string \<Rightarrow> string" where
  "overhead_string numNodes perNodeString =
     (let (read, perNode) = (case scan_float perNodeString of Some x \<Rightarrow> (1, x) | None \<Rightarrow> (0, 0))
      in sprintf_f (perNode * of_int numNodes) @ drop read perNodeString)"

fun calculateResources ::
    "(string \<Rightarrow> Quantity result) \<Rightarrow> int \<Rightarrow> Resource list \<Rightarrow> ResourceList \<Rightarrow> ResourceList result" where
  "calculateResources MustParse numNodes [] resourceList = Inr resourceList"
| "calculateResources MustParse numNodes (r # rs) resourceList =
     (case MustParse (overhead_string numNodes (ExtraPerNode r)) of
        Inl e \<Rightarrow> Inl e
      | Inr overhead \<Rightarrow> calculateResources MustParse numNodes rs (AList.update (res_Name r) (Base r + overhead) resourceList))"

definition nodesAndOffsetToRange ::
    "(string \<Rightarrow> Quantity result) \<Rightarrow> int \<Rightarrow> int \<Rightarrow> Resource list \<Rightarrow> ResourceListPair result" where
  "nodesAndOffsetToRange MustParse numNodes offset res =
     rbind (calculateResources MustParse (getOffsetNodeCount numNodes (- offset) floor) res []) (\<lambda>lo.
     rbind (calculateResources MustParse (getOffsetNodeCount numNodes offset ceiling) res []) (\<lambda>up.
     Inr \<lparr>lower = lo, upper = up\<rparr>))"

definition scaleWithNodes :: "(string \<Rightarrow> Quantity result) \<Rightarrow> Estimator \<Rightarrow> int \<Rightarrow> EstimatorResult result" where
  "scaleWithNodes MustParse e numNodes =
     rbind (nodesAndOffsetToRange MustParse numNodes (RecommendationOffset e) (est_Resources e)) (\<lambda>r.
     rbind (nodesAndOffsetToRange MustParse numNodes (AcceptanceOffset e) (est_Resources e)) (\<lambda>a.
     Inr \<lparr>RecommendedRange = r, AcceptableRange = a\<rparr>))"

section \<open>The decision\<close>

datatype operation = unknown | scaleDown | scaleUp

datatype updateResult = noChange | postpone | overwrite

definition ResourceStorage :: ResourceName where "ResourceStorage = ''storage''"

definition checkResource :: "EstimatorResult \<Rightarrow> ResourceList \<Rightarrow> ResourceName \<Rightarrow> ResourceList option \<times> operation" where
  "checkResource er actual res =
     (case (map_of actual res, map_of (lower (AcceptableRange er)) res, map_of (upper (AcceptableRange er)) res) of
        (None, None, None) \<Rightarrow> (None, unknown)
      | (Some v, Some expMin, Some expMax) \<Rightarrow>
          if q_Cmp v expMin = -1 then (Some (lower (RecommendedRange er)), scaleUp)
          else if q_Cmp v expMax = 1 then (Some (upper (RecommendedRange er)), scaleDown)
          else (None, unknown)
      | _ \<Rightarrow> (Some (lower (RecommendedRange er)), unknown))"

fun first_overwrite ::
    "EstimatorResult \<Rightarrow> (ResourceList \<times> ResourceName) list \<Rightarrow> ResourceRequirements option \<times> operation" where
  "first_overwrite er [] = (None, unknown)"
| "first_overwrite er ((actual, resourceType) # rest) =
     (case checkResource er actual resourceType of
        (Some newReqs, op) \<Rightarrow> (Some \<lparr>Limits = Some newReqs, Requests = Some newReqs\<rparr>, op)
      | (None, op) \<Rightarrow> first_overwrite er rest)"

definition shouldOverwriteResources ::
    "EstimatorResult \<Rightarrow> ResourceList \<Rightarrow> ResourceList \<Rightarrow> ResourceRequirements option \<times> operation" where
  "shouldOverwriteResources er limits reqs =
     first_overwrite er [(l, r). l \<leftarrow> [limits, reqs], r \<leftarrow> [ResourceCPU, ResourceMemory, ResourceStorage]]"

section \<open>The client\<close>

record Deployment =
  dep_Name :: string
  dep_Containers :: "Container list"

record kubernetesClient =
  kc_deployment :: string
  kc_pod :: string
  kc_container :: string

text \<open>What the listers and the API server answer during one poll, and the two readings of the clock.\<close>

record poll_answers =
  nodeLister_List :: "string list \<times> go_error option"
  podLister_Get :: "string \<Rightarrow> Pod result"
  deploymentLister_Get :: "string \<Rightarrow> Deployment result"
  deploymentClient_Update :: "Deployment \<Rightarrow> go_error option"
  poll_now :: time
  poll_changed :: time

definition CountNodes :: "poll_answers \<Rightarrow> int \<times> go_error option" where
  "CountNodes w = (int (length (fst (nodeLister_List w))), snd (nodeLister_List w))"

definition client_ContainerResources :: "kubernetesClient \<Rightarrow> poll_answers \<Rightarrow> ResourceRequirements result" where
  "client_ContainerResources k w =
     rbind (podLister_Get w (kc_pod k)) (\<lambda>pod.
       case find (\<lambda>c. c_Name c = kc_container k) (pod_Containers pod) of
         Some c \<Rightarrow> Inr (c_Resources c)
       | None \<Rightarrow> Inl (Err ''container was not found''))"

fun set_resources :: "string \<Rightarrow> ResourceRequirements \<Rightarrow> Container list \<Rightarrow> Container list option" where
  "set_resources name r [] = None"
| "set_resources name r (c # cs) =
     (if c_Name c = name then Some (c\<lparr>c_Resources := r\<rparr> # cs) else map_option ((#) c) (set_resources name r cs))"

text \<open>The error, and the object that was sent to the API server.\<close>

definition UpdateDeployment ::
    "kubernetesClient \<Rightarrow> poll_answers \<Rightarrow> ResourceRequirements \<Rightarrow> go_error option \<times> Deployment option" where
  "UpdateDeployment k w r =
     (case deploymentLister_Get w (kc_deployment k) of
        Inl e \<Rightarrow> (Some e, None)
      | Inr dep \<Rightarrow> (case set_resources (kc_container k) r (dep_Containers dep) of
            None \<Rightarrow> (Some (Err ''container was not found''), None)
          | Some cs \<Rightarrow> (deploymentClient_Update w (dep\<lparr>dep_Containers := cs\<rparr>), Some (dep\<lparr>dep_Containers := cs\<rparr>))))"

section \<open>Polling\<close>

record nanny_config =
  nc_estimator :: Estimator
  nc_client :: kubernetesClient
  scaleDownDelay :: duration
  scaleUpDelay :: duration

definition updateResources ::
    "(string \<Rightarrow> Quantity result) \<Rightarrow> nanny_config \<Rightarrow> poll_answers \<Rightarrow> time \<Rightarrow> (updateResult \<times> Deployment option) result" where
  "updateResources MustParse cfg w lastChange =
     (let (num, err) = CountNodes w in
      if num = 0 then Inr (noChange, None)
      else if err \<noteq> None then Inr (noChange, None)
      else case client_ContainerResources (nc_client cfg) w of
        Inl e \<Rightarrow> Inr (noChange, None)
      | Inr resources \<Rightarrow>
          rbind (scaleWithNodes MustParse (nc_estimator cfg) num) (\<lambda>estimation.
            case shouldOverwriteResources estimation (list_of (Limits resources)) (list_of (Requests resources)) of
              (None, op) \<Rightarrow> Inr (noChange, None)
            | (Some req, op) \<Rightarrow>
                if (op = scaleDown \<and> time_Before (poll_now w) (time_Add lastChange (scaleDownDelay cfg))) \<or>
                   (op = scaleUp \<and> time_Before (poll_now w) (time_Add lastChange (scaleUpDelay cfg)))
                then Inr (postpone, None)
                else let (err, sent) = UpdateDeployment (nc_client cfg) w req
                     in if err \<noteq> None then Inr (noChange, sent) else Inr (overwrite, sent)))"

text \<open>The endless loop, for as many polls as there are answers: the results, or the panic of \<open>MustParse\<close>.\<close>

fun PollAPIServer ::
    "(string \<Rightarrow> Quantity result) \<Rightarrow> nanny_config \<Rightarrow> poll_answers list \<Rightarrow> time \<Rightarrow> (updateResult \<times> Deployment option) list result" where
  "PollAPIServer MustParse cfg [] lastChange = Inr []"
| "PollAPIServer MustParse cfg (w # ws) lastChange =
     rbind (updateResources MustParse cfg w lastChange) (\<lambda>r.
     rbind (PollAPIServer MustParse cfg ws (if fst r = overwrite then poll_changed w else lastChange)) (\<lambda>rs.
     Inr (r # rs)))"

section \<open>Configuration\<close>

record nanny_flags =
  flag_deployment :: string
  baseCPU :: string
  cpuPerNode :: string
  baseMemory :: string
  memoryPerNode :: string
  baseStorage :: string
  storagePerNode :: string
  recommendationOffset :: int
  acceptanceOffset :: int

definition noValue :: string where "noValue = ''MISSING''"

definition checkPercentageFlagBounds :: "int \<Rightarrow> bool" where
  "checkPercentageFlagBounds flagValue \<longleftrightarrow> \<not> (flagValue < 0 \<or> flagValue > 100)"

definition monitored ::
    "(string \<Rightarrow> Quantity result) \<Rightarrow> (string \<Rightarrow> string result) \<Rightarrow> string \<Rightarrow> string \<Rightarrow> ResourceName \<Rightarrow> Resource list result" where
  "monitored MustParse canonical base extra name =
     (if base = noValue then Inr []
      else rbind (MustParse base) (\<lambda>b. rbind (canonical extra) (\<lambda>e. Inr [\<lparr>Base = b, ExtraPerNode = e, res_Name = name\<rparr>])))"

text \<open>
  The estimator that \<open>main\<close> builds from the flags, or the fatal error; \<open>canonical\<close> parses a quantity and
  prints it.
\<close>

definition main_estimator :: "(string \<Rightarrow> Quantity result) \<Rightarrow> (string \<Rightarrow> string result) \<Rightarrow> nanny_flags \<Rightarrow> Estimator result" where
  "main_estimator MustParse canonical flags =
     (if flag_deployment flags = [] then Inl (Err ''Must specify a deployment.'')
      else if \<not> checkPercentageFlagBounds (recommendationOffset flags) then Inl (Err ''recommendation-offset flag must be between 0 and 100'')
      else if \<not> checkPercentageFlagBounds (acceptanceOffset flags) then Inl (Err ''acceptance-offset flag must be between 0 and 100'')
      else rbind (monitored MustParse canonical (baseCPU flags) (cpuPerNode flags) ''cpu'') (\<lambda>c.
           rbind (monitored MustParse canonical (baseMemory flags) (memoryPerNode flags) ''memory'') (\<lambda>m.
           rbind (monitored MustParse canonical (baseStorage flags) (memoryPerNode flags) ''storage'') (\<lambda>s.
           Inr \<lparr>est_Resources = c @ m @ s, AcceptanceOffset = acceptanceOffset flags,
                RecommendationOffset = recommendationOffset flags\<rparr>))))"

end
