(* ===== verification/Nanny_Correct.thy ===== *)
theory Nanny_Correct
  imports Nanny
begin

text \<open>
  The addon resizer is right: what it computes for a number of nodes, that a rewritten deployment
  is left alone while the number of nodes stays, that the delays are kept; and where it is not.
\<close>

section \<open>What the parser of quantities promises\<close>

text \<open>
  A decimal number with a suffix is the product, rounded up to a billionth and capped; \<open>mult\<close> gives
  what a suffix stands for, in billionths.
\<close>

definition max_quantity :: Quantity where
  "max_quantity = (2 ^ 63 - 1) * 10 ^ 9"

definition parse_ok :: "(string \<Rightarrow> Quantity result) \<Rightarrow> (string \<rightharpoonup> int) \<Rightarrow> bool" where
  "parse_ok MustParse mult \<longleftrightarrow>
     (\<forall>ip fp s m. ip \<noteq> [] \<and> list_all is_digit ip \<and> list_all is_digit fp \<and> mult s = Some m \<longrightarrow> 0 \<le> m \<and>
        MustParse (ip @ ''.'' @ fp @ s) = Inr (min max_quantity \<lceil>real (decimal (ip @ fp)) / 10 ^ length fp * of_int m\<rceil>))"

section \<open>The overhead of a number of nodes\<close>

text \<open>A quantity that is printed as a whole number with a suffix that is no exponent.\<close>

definition plain_suffix :: "string \<Rightarrow> bool" where
  "plain_suffix s \<longleftrightarrow> s = [] \<or> \<not> is_digit (hd s) \<and> hd s \<notin> set ''.eEpP''"

definition canonical_extra :: "(string \<rightharpoonup> int) \<Rightarrow> string \<Rightarrow> bool" where
  "canonical_extra mult s \<longleftrightarrow>
     takeWhile is_digit s \<noteq> [] \<and> plain_suffix (dropWhile is_digit s) \<and> mult (dropWhile is_digit s) \<noteq> None"

definition extra_digits :: "string \<Rightarrow> string" where
  "extra_digits s = takeWhile is_digit s"

definition extra_unit :: "(string \<rightharpoonup> int) \<Rightarrow> string \<Rightarrow> int" where
  "extra_unit mult s = (case mult (dropWhile is_digit s) of Some m \<Rightarrow> m | None \<Rightarrow> 0)"

text \<open>The digits after the first are printed once more, behind the six decimals of the product.\<close>

definition extra_tail :: "string \<Rightarrow> real" where
  "extra_tail s = real (decimal (tl (extra_digits s))) / 10 ^ (6 + length (tl (extra_digits s)))"

definition overhead_of :: "(string \<rightharpoonup> int) \<Rightarrow> string \<Rightarrow> int \<Rightarrow> Quantity" where
  "overhead_of mult s n =
     min max_quantity \<lceil>(real (decimal (extra_digits s)) * of_int n + extra_tail s) * of_int (extra_unit mult s)\<rceil>"

lemma takeWhile_digits: "list_all is_digit (takeWhile is_digit s)"
  by (auto simp: list_all_iff dest: set_takeWhileD)


lemma MustParse_overhead:
  assumes p: "parse_ok MustParse mult" and c: "canonical_extra mult s" and n: "0 \<le> n"
  shows "MustParse (overhead_string n s) = Inr (overhead_of mult s n)" and "0 \<le> extra_unit mult s"
proof -
  let ?ds = "takeWhile is_digit s" and ?suf = "dropWhile is_digit s"
  obtain m where m: "mult ?suf = Some m" and ds: "?ds \<noteq> []" and suf: "plain_suffix ?suf"
    using c by (auto simp: canonical_extra_def)
  obtain d dt where dd: "?ds = d # dt" using ds by (cases ?ds) auto
  have digits: "list_all is_digit ?ds" by (rule takeWhile_digits)
  have scan: "scan_float s = Some (real (decimal ?ds))"
    using scan_float_plain [OF digits ds, of ?suf] suf by (simp add: plain_suffix_def)
  have prod: "real (decimal ?ds) * of_int n = real (decimal ?ds * nat n)" using n by simp
  have f: "sprintf_f (real (decimal ?ds) * of_int n) = show_nat (decimal ?ds * nat n) @ ''.000000''"
    unfolding prod by (rule sprintf_f_of_nat)
  have "drop 1 s = drop 1 (?ds @ ?suf)" by simp
  then have dr: "drop 1 s = dt @ ?suf" by (simp add: dd del: takeWhile_dropWhile_id)
  let ?ip = "show_nat (decimal ?ds * nat n)" and ?fp = "''000000'' @ dt"
  have st: "overhead_string n s = ?ip @ ''.'' @ ?fp @ ?suf"
    unfolding overhead_string_def using scan f dr by simp
  have z: "list_all is_digit ''000000''" "decimal (''000000'' @ dt) = decimal dt"
    by (code_simp, simp add: decimal_append, code_simp)
  have "list_all is_digit ?fp" using digits z(1) by (simp add: dd)
  then have pv: "0 \<le> m \<and> MustParse (overhead_string n s) =
      Inr (min max_quantity \<lceil>real (decimal (?ip @ ?fp)) / 10 ^ length ?fp * of_int m\<rceil>)"
    using p show_nat_not_Nil show_nat_decimal m unfolding parse_ok_def st by blast
  have v: "real (decimal (?ip @ ?fp)) / 10 ^ length ?fp = real (decimal ?ds) * of_int n + extra_tail s"
  proof -
    have l: "length ?fp = 6 + length dt" by simp
    have "real (decimal (?ip @ ?fp)) = real (decimal ?ds) * of_int n * 10 ^ length ?fp + real (decimal dt)"
      unfolding decimal_append [of ?ip] z(2) using show_nat_decimal [of "decimal ?ds * nat n"] n by simp
    then show ?thesis unfolding l extra_tail_def extra_digits_def dd list.sel by (simp add: add_divide_distrib)
  qed
  show "MustParse (overhead_string n s) = Inr (overhead_of mult s n)" and "0 \<le> extra_unit mult s"
    using pv unfolding v by (simp_all add: overhead_of_def extra_digits_def extra_unit_def m)
qed

lemma overhead_mono:
  assumes "0 \<le> extra_unit mult s" "k \<le> n"
  shows "overhead_of mult s k \<le> overhead_of mult s n"
proof -
  have "real (decimal (extra_digits s)) * of_int k \<le> real (decimal (extra_digits s)) * of_int n"
    using assms(2) by (intro mult_left_mono) auto
  then have "(real (decimal (extra_digits s)) * of_int k + extra_tail s) * of_int (extra_unit mult s)
      \<le> (real (decimal (extra_digits s)) * of_int n + extra_tail s) * of_int (extra_unit mult s)"
    using assms(1) by (intro mult_right_mono) auto
  then show ?thesis unfolding overhead_of_def by (intro min.mono ceiling_mono) auto
qed

definition estimate_for :: "(string \<rightharpoonup> int) \<Rightarrow> int \<Rightarrow> Resource list \<Rightarrow> (ResourceName \<times> Quantity) list" where
  "estimate_for mult n rs = map (\<lambda>r. (res_Name r, Base r + overhead_of mult (ExtraPerNode r) n)) rs"

definition nanny_resources_ok :: "(string \<rightharpoonup> int) \<Rightarrow> Resource list \<Rightarrow> bool" where
  "nanny_resources_ok mult rs \<longleftrightarrow> distinct (map res_Name rs) \<and> list_all (\<lambda>r. canonical_extra mult (ExtraPerNode r)) rs"

lemma calculateResources_total:
  assumes p: "parse_ok MustParse mult" and n: "0 \<le> n"
  shows "nanny_resources_ok mult rs \<Longrightarrow> \<exists>l. calculateResources MustParse n rs acc = Inr l \<and> map_of l = map_of acc ++ map_of (estimate_for mult n rs)"
proof (induction rs arbitrary: acc)
  case (Cons r rs)
  let ?q = "Base r + overhead_of mult (ExtraPerNode r) n"
  have r: "MustParse (overhead_string n (ExtraPerNode r)) = Inr (overhead_of mult (ExtraPerNode r) n)"
    using Cons.prems MustParse_overhead(1) [OF p _ n] by (simp add: nanny_resources_ok_def)
  obtain l where l: "calculateResources MustParse n rs (AList.update (res_Name r) ?q acc) = Inr l"
      "map_of l = map_of (AList.update (res_Name r) ?q acc) ++ map_of (estimate_for mult n rs)"
    using Cons.IH Cons.prems unfolding nanny_resources_ok_def by fastforce
  have "map_of (estimate_for mult n rs) (res_Name r) = None"
    using Cons.prems by (auto simp: map_of_eq_None_iff estimate_for_def nanny_resources_ok_def image_image)
  then have "map_of l = map_of acc ++ map_of (estimate_for mult n (r # rs))"
    unfolding l(2) by (simp add: update_conv' map_add_upd_left domIff estimate_for_def)
  then show ?case using l(1) r by simp
qed (simp add: estimate_for_def)

section \<open>Ranges\<close>

lemma offset_counts:
  assumes n: "0 \<le> n" "n < 2 ^ 61" and off: "0 \<le> off" "off \<le> 100"
  shows "getOffsetNodeCount n (- off) floor = n - \<lceil>of_int n * of_int off / 100 :: real\<rceil>"
    and "getOffsetNodeCount n off ceiling = n + \<lceil>of_int n * of_int off / 100 :: real\<rceil>"
    and "0 \<le> \<lceil>of_int n * of_int off / 100 :: real\<rceil>" and "\<lceil>of_int n * of_int off / 100 :: real\<rceil> \<le> n"
proof -
  let ?x = "of_int n * of_int off / 100 :: real"
  have "0 \<le> ?x" using n off by simp
  then show c0: "0 \<le> \<lceil>?x\<rceil>" by linarith
  have "of_int n * of_int off \<le> of_int n * (100 :: real)" using n off by (intro mult_left_mono) auto
  then show c1: "\<lceil>?x\<rceil> \<le> n" by (simp add: ceiling_le_iff)
  have w: "wrap64 k = k" "wrap64 k mod 2 ^ 64 = k" if "0 \<le> k" "k < 2 ^ 63" for k
    using wrap64_id [of k] that by (auto simp: in_int64_def int64_min_def int64_max_def)
  define c where "c = \<lceil>?x\<rceil>"
  have cb: "0 \<le> c" "c \<le> n" using c0 c1 by (simp_all add: c_def)
  have "\<lfloor>of_int n * of_int (- off) / 100 :: real\<rfloor> = - c" unfolding c_def by (simp add: floor_minus [symmetric])
  then have "getOffsetNodeCount n (- off) floor = wrap64 (wrap64 n - c) mod 2 ^ 64"
    unfolding getOffsetNodeCount_def by simp
  moreover have "wrap64 n = n" using w(1) [of n] n by simp
  moreover have "wrap64 (n - c) mod 2 ^ 64 = n - c" "wrap64 (n + c) mod 2 ^ 64 = n + c" using cb n by (intro w(2); simp)+
  ultimately show "getOffsetNodeCount n (- off) floor = n - \<lceil>?x\<rceil>" and "getOffsetNodeCount n off ceiling = n + \<lceil>?x\<rceil>"
    unfolding getOffsetNodeCount_def c_def [symmetric] by (simp_all only:)
qed

text \<open>The node counts at the ends of the range of an offset.\<close>

definition low_count :: "int \<Rightarrow> int \<Rightarrow> int" where
  "low_count n off = n - \<lceil>of_int n * of_int off / 100 :: real\<rceil>"

definition high_count :: "int \<Rightarrow> int \<Rightarrow> int" where
  "high_count n off = n + \<lceil>of_int n * of_int off / 100 :: real\<rceil>"

lemma counts_nested:
  assumes "0 \<le> n" "0 \<le> r" "r \<le> a"
  shows "low_count n a \<le> low_count n r \<and> low_count n r \<le> high_count n r \<and> high_count n r \<le> high_count n a"
proof -
  have "of_int n * of_int r \<le> of_int n * (of_int a :: real)" using assms by (intro mult_left_mono) auto
  then have "\<lceil>of_int n * of_int r / 100 :: real\<rceil> \<le> \<lceil>of_int n * of_int a / 100 :: real\<rceil>" by (intro ceiling_mono) simp
  moreover have "0 \<le> \<lceil>of_int n * of_int r / 100 :: real\<rceil>"
    using assms(1,2) by (simp add: le_ceiling_iff) (smt (verit) divide_nonneg_pos mult_nonneg_nonneg of_int_nonneg)
  ultimately show ?thesis by (simp add: low_count_def high_count_def)
qed

definition offsets_ok :: "Estimator \<Rightarrow> bool" where
  "offsets_ok e \<longleftrightarrow> 0 \<le> RecommendationOffset e \<and> RecommendationOffset e \<le> AcceptanceOffset e \<and> AcceptanceOffset e \<le> 100"

lemma nodesAndOffsetToRange_total:
  assumes p: "parse_ok MustParse mult" and rs: "nanny_resources_ok mult rs" and n: "0 \<le> n" "n < 2 ^ 61" and off: "0 \<le> off" "off \<le> 100"
  shows "\<exists>x. nodesAndOffsetToRange MustParse n off rs = Inr x \<and>
    map_of (lower x) = map_of (estimate_for mult (low_count n off) rs) \<and>
    map_of (upper x) = map_of (estimate_for mult (high_count n off) rs)"
proof -
  note c = offset_counts [OF n off]
  have "0 \<le> low_count n off" "0 \<le> high_count n off" using c(3,4) n by (auto simp: low_count_def high_count_def)
  then obtain lo up where
    "calculateResources MustParse (low_count n off) rs [] = Inr lo" "map_of lo = map_of (estimate_for mult (low_count n off) rs)"
    "calculateResources MustParse (high_count n off) rs [] = Inr up" "map_of up = map_of (estimate_for mult (high_count n off) rs)"
    using calculateResources_total [OF p _ rs, of "low_count n off" "[]"] calculateResources_total [OF p _ rs, of "high_count n off" "[]"]
    by auto
  then show ?thesis unfolding nodesAndOffsetToRange_def c(1,2) low_count_def [symmetric] high_count_def [symmetric] by auto
qed

lemma scaleWithNodes_total:
  assumes p: "parse_ok MustParse mult" and rs: "nanny_resources_ok mult (est_Resources e)" and o: "offsets_ok e" and n: "0 \<le> n" "n < 2 ^ 61"
  shows "\<exists>er. scaleWithNodes MustParse e n = Inr er \<and>
    map_of (lower (RecommendedRange er)) = map_of (estimate_for mult (low_count n (RecommendationOffset e)) (est_Resources e)) \<and>
    map_of (upper (RecommendedRange er)) = map_of (estimate_for mult (high_count n (RecommendationOffset e)) (est_Resources e)) \<and>
    map_of (lower (AcceptableRange er)) = map_of (estimate_for mult (low_count n (AcceptanceOffset e)) (est_Resources e)) \<and>
    map_of (upper (AcceptableRange er)) = map_of (estimate_for mult (high_count n (AcceptanceOffset e)) (est_Resources e))"
  using nodesAndOffsetToRange_total [OF p rs n, of "RecommendationOffset e"] nodesAndOffsetToRange_total [OF p rs n, of "AcceptanceOffset e"] o
  unfolding offsets_ok_def scaleWithNodes_def by auto

lemma estimate_for_mono:
  assumes p: "parse_ok MustParse mult" and rs: "nanny_resources_ok mult rs" and k: "k \<le> n"
  shows "rel_option (\<le>) (map_of (estimate_for mult k rs) x) (map_of (estimate_for mult n rs) x)"
  using rs
proof (induction rs)
  case (Cons r rs)
  have "canonical_extra mult (ExtraPerNode r)" using Cons.prems by (simp add: nanny_resources_ok_def)
  then have "overhead_of mult (ExtraPerNode r) k \<le> overhead_of mult (ExtraPerNode r) n"
    using MustParse_overhead(2) [OF p, of _ 0] overhead_mono [OF _ k] by simp
  then show ?case using Cons by (auto simp: estimate_for_def nanny_resources_ok_def)
qed (simp add: estimate_for_def)

section \<open>The decision\<close>

lemma no_overwrite:
  assumes "\<And>x. rel_option (\<le>) (map_of (lower (AcceptableRange er)) x) (map_of l x)"
    and "\<And>x. rel_option (\<le>) (map_of l x) (map_of (upper (AcceptableRange er)) x)"
  shows "shouldOverwriteResources er l l = (None, unknown)"
proof -
  have c: "checkResource er l x = (None, unknown)" for x
    using assms(1,2) [of x]
    by (cases "map_of l x"; cases "map_of (lower (AcceptableRange er)) x"; cases "map_of (upper (AcceptableRange er)) x")
      (auto simp: checkResource_def q_Cmp_def)
  show ?thesis unfolding shouldOverwriteResources_def by (simp add: c)
qed

lemma first_overwrite_result:
  "first_overwrite er xs = (Some req, op) \<Longrightarrow>
   \<exists>l \<in> {lower (RecommendedRange er), upper (RecommendedRange er)}. req = \<lparr>Limits = Some l, Requests = Some l\<rparr>"
proof (induction xs)
  case (Cons x xs)
  then show ?case
    by (cases x) (auto simp: checkResource_def split: prod.splits option.splits if_splits)
qed simp

section \<open>Properties\<close>




text \<open>
  The resizer settles: when the acceptance offset is at least the recommendation offset, the
  requirements it would write for a number of nodes are accepted for that number of nodes, so that
  the deployment is not rewritten again until the number of nodes changes.
\<close>

theorem rewritten_resources_accepted:
  assumes p: "parse_ok MustParse mult" and rs: "nanny_resources_ok mult (est_Resources e)" and o: "offsets_ok e" and n: "0 \<le> n" "n < 2 ^ 61"
  shows "\<exists>er. scaleWithNodes MustParse e n = Inr er \<and>
    (\<forall>limits reqs. case shouldOverwriteResources er limits reqs of
       (None, op) \<Rightarrow> op = unknown
     | (Some req, op) \<Rightarrow>
         shouldOverwriteResources er (list_of (Limits req)) (list_of (Requests req)) = (None, unknown))"
proof -
  let ?rs = "est_Resources e" and ?r = "RecommendationOffset e" and ?a = "AcceptanceOffset e"
  obtain er where er: "scaleWithNodes MustParse e n = Inr er"
    and m: "map_of (lower (RecommendedRange er)) = map_of (estimate_for mult (low_count n ?r) ?rs)"
      "map_of (upper (RecommendedRange er)) = map_of (estimate_for mult (high_count n ?r) ?rs)"
      "map_of (lower (AcceptableRange er)) = map_of (estimate_for mult (low_count n ?a) ?rs)"
      "map_of (upper (AcceptableRange er)) = map_of (estimate_for mult (high_count n ?a) ?rs)"
    using scaleWithNodes_total [OF p rs o n] by blast
  have c: "low_count n ?a \<le> low_count n ?r" "low_count n ?r \<le> high_count n ?r" "high_count n ?r \<le> high_count n ?a"
    using counts_nested [of n ?r ?a] n o by (auto simp: offsets_ok_def)
  note mono = estimate_for_mono [OF p rs]
  have acc: "shouldOverwriteResources er l l = (None, unknown)"
    if "l \<in> {lower (RecommendedRange er), upper (RecommendedRange er)}" for l
    using that
  proof (elim insertE emptyE; intro no_overwrite; unfold m; hypsubst)
    show "rel_option (\<le>) (map_of (estimate_for mult (low_count n ?a) ?rs) x) (map_of (lower (RecommendedRange er)) x)" for x
      unfolding m by (rule mono [OF c(1)])
    show "rel_option (\<le>) (map_of (lower (RecommendedRange er)) x) (map_of (estimate_for mult (high_count n ?a) ?rs) x)" for x
      unfolding m by (rule mono) (use c in simp)
    show "rel_option (\<le>) (map_of (estimate_for mult (low_count n ?a) ?rs) x) (map_of (upper (RecommendedRange er)) x)" for x
      unfolding m by (rule mono) (use c in simp)
    show "rel_option (\<le>) (map_of (upper (RecommendedRange er)) x) (map_of (estimate_for mult (high_count n ?a) ?rs) x)" for x
      unfolding m by (rule mono [OF c(3)])
  qed
  have un: "first_overwrite er xs = (None, op) \<Longrightarrow> op = unknown" for xs op
    by (induction er xs rule: first_overwrite.induct) (auto split: prod.splits option.splits)
  show ?thesis
  proof (intro exI conjI allI, rule er)
    fix limits reqs
    obtain req op where q: "shouldOverwriteResources er limits reqs = (req, op)" by (cases "shouldOverwriteResources er limits reqs")
    show "case shouldOverwriteResources er limits reqs of (None, op) \<Rightarrow> op = unknown
     | (Some req, op) \<Rightarrow> shouldOverwriteResources er (list_of (Limits req)) (list_of (Requests req)) = (None, unknown)"
    proof (cases req)
      case None
      then have "op = unknown" using q un unfolding shouldOverwriteResources_def by blast
      then show ?thesis using q None by simp
    next
      case (Some x)
      then obtain l where "l \<in> {lower (RecommendedRange er), upper (RecommendedRange er)}" "x = \<lparr>Limits = Some l, Requests = Some l\<rparr>"
        using q first_overwrite_result unfolding shouldOverwriteResources_def by blast
      then show ?thesis using acc q Some by simp
    qed
  qed
qed

text \<open>A parser for the suffixes of a table, which the witnesses use.\<close>

definition suffix_table :: "(string \<times> int) list" where
  "suffix_table = [([], 10 ^ 9), (''m'', 10 ^ 6), (''Mi'', 2 ^ 20 * 10 ^ 9), (''e3'', 10 ^ 12)]"

definition table_parse :: "string \<Rightarrow> Quantity result" where
  "table_parse s =
     (let ip = takeWhile is_digit s; s1 = dropWhile is_digit s; s2 = (case s1 of c # cs \<Rightarrow> if c = CHR ''.'' then cs else s1 | [] \<Rightarrow> []);
          fp = (if s2 = s1 then [] else takeWhile is_digit s2)
      in case map_of suffix_table (drop (length fp) s2) of
           Some m \<Rightarrow> Inr (min max_quantity \<lceil>real (decimal (ip @ fp)) / 10 ^ length fp * of_int m\<rceil>)
         | None \<Rightarrow> Inl (Panic ''cannot parse''))"

lemma suffix_table_facts: "map_of suffix_table s = Some m \<Longrightarrow> 0 \<le> m \<and> (s = [] \<or> \<not> is_digit (hd s))"
  by (auto simp: suffix_table_def is_digit_def split: if_splits)

lemma table_parse_ok: "parse_ok table_parse (map_of suffix_table)"
  unfolding parse_ok_def
proof (intro allI impI, elim conjE)
  fix ip fp s and m :: int
  assume ip: "ip \<noteq> []" "list_all is_digit ip" and fp: "list_all is_digit fp" and m: "map_of suffix_table s = Some m"
  have dot: "\<not> is_digit CHR ''.''" by code_simp
  have t1: "takeWhile is_digit (ip @ ''.'' @ fp @ s) = ip" "dropWhile is_digit (ip @ ''.'' @ fp @ s) = ''.'' @ fp @ s"
    using ip dot by (auto simp: takeWhile_append dropWhile_append list_all_iff)
  have t2: "takeWhile is_digit (fp @ s) = fp"
    using fp suffix_table_facts [OF m] by (auto simp: takeWhile_append list_all_iff takeWhile_eq_Nil_iff)
  show "0 \<le> m \<and> table_parse (ip @ ''.'' @ fp @ s) = Inr (min max_quantity \<lceil>real (decimal (ip @ fp)) / 10 ^ length fp * of_int m\<rceil>)"
    using suffix_table_facts [OF m] m unfolding table_parse_def t1 by (simp add: t2 Let_def)
qed

definition example_resources :: "Resource list" where
  "example_resources =
     [\<lparr>Base = 100 * 10 ^ 6, ExtraPerNode = ''12m'', res_Name = ''cpu''\<rparr>,
      \<lparr>Base = 2 ^ 20 * 10 ^ 9, ExtraPerNode = ''3Mi'', res_Name = ''memory''\<rparr>]"

definition example_estimator :: Estimator where
  "example_estimator = \<lparr>est_Resources = example_resources, AcceptanceOffset = 20, RecommendationOffset = 10\<rparr>"

lemma example_resources_ok: "nanny_resources_ok (map_of suffix_table) example_resources"
  by code_simp


theorem rewritten_resources_accepted_witness:
  "\<exists>er. scaleWithNodes table_parse example_estimator 5 = Inr er \<and>
    (\<forall>limits reqs. case shouldOverwriteResources er limits reqs of
       (None, op) \<Rightarrow> op = unknown
     | (Some req, op) \<Rightarrow>
         shouldOverwriteResources er (list_of (Limits req)) (list_of (Requests req)) = (None, unknown))"
  by (rule rewritten_resources_accepted [OF table_parse_ok])
    (simp_all add: example_estimator_def example_resources_ok offsets_ok_def)

lemma updateResources_overwrite:
  assumes "updateResources MustParse cfg w lastChange = Inr (overwrite, sent)"
    and "client_ContainerResources (nc_client cfg) w = Inr res"
    and "scaleWithNodes MustParse (nc_estimator cfg) (fst (CountNodes w)) = Inr er"
    and "shouldOverwriteResources er (list_of (Limits res)) (list_of (Requests res)) = (req, op)"
  shows "(op = scaleDown \<longrightarrow> lastChange + scaleDownDelay cfg \<le> poll_now w) \<and>
    (op = scaleUp \<longrightarrow> lastChange + scaleUpDelay cfg \<le> poll_now w)"
  using assms by (auto simp: updateResources_def case_prod_beta Let_def time_Before_def time_Add_def split: if_splits option.splits)

text \<open>The time of the last change is the initial one until the first rewrite.\<close>

lemma PollAPIServer_first:
  "PollAPIServer MustParse cfg ws t = Inr rs \<Longrightarrow> k < length ws \<Longrightarrow> \<forall>i < k. fst (rs ! i) \<noteq> overwrite \<Longrightarrow>
   updateResources MustParse cfg (ws ! k) t = Inr (rs ! k)"
proof (induction ws arbitrary: rs k t)
  case (Cons w ws)
  obtain r rs' where r: "updateResources MustParse cfg w t = Inr r" "rs = r # rs'"
      "PollAPIServer MustParse cfg ws (if fst r = overwrite then poll_changed w else t) = Inr rs'"
    using Cons.prems(1) by auto
  show ?case
  proof (cases k)
    case (Suc k')
    then have "fst r \<noteq> overwrite" "\<forall>i < k'. fst (rs' ! i) \<noteq> overwrite" using Cons.prems(3) by (auto simp: r(2))
    then show ?thesis using Cons.IH [of t rs' k'] r Cons.prems(2) Suc by simp
  qed (use r in simp)
qed simp

lemma PollAPIServer_last:
  "PollAPIServer MustParse cfg ws t0 = Inr rs \<Longrightarrow> k < length ws \<Longrightarrow> j < k \<Longrightarrow> fst (rs ! j) = overwrite \<Longrightarrow>
   \<forall>i. j < i \<and> i < k \<longrightarrow> fst (rs ! i) \<noteq> overwrite \<Longrightarrow>
   updateResources MustParse cfg (ws ! k) (poll_changed (ws ! j)) = Inr (rs ! k)"
proof (induction ws arbitrary: t0 rs k j)
  case (Cons w ws)
  obtain r rs' where r: "updateResources MustParse cfg w t0 = Inr r" "rs = r # rs'"
      "PollAPIServer MustParse cfg ws (if fst r = overwrite then poll_changed w else t0) = Inr rs'"
    using Cons.prems(1) by auto
  obtain k' where k: "k = Suc k'" using Cons.prems(3) by (cases k) auto
  have between: "fst (rs' ! i) \<noteq> overwrite" if "j < Suc i" "i < k'" for i
    using Cons.prems(5) that by (auto simp: r(2) k dest: spec [of _ "Suc i"])
  show ?case
  proof (cases j)
    case 0
    then show ?thesis using PollAPIServer_first [of MustParse cfg ws "poll_changed w" rs' k'] r Cons.prems between by (simp add: k)
  next
    case (Suc j')
    then show ?thesis using Cons.IH [OF r(3), of k' j'] Cons.prems between by (simp add: r(2) k)
  qed
qed simp

text \<open>
  C29. The delays are kept: in every run of the poll loop, a rewrite that lowers (raises) resources
  comes at least the delay for scaling down (up) after the last rewrite before it.
\<close>

theorem nanny_delays_kept:
  assumes "PollAPIServer MustParse cfg ws t0 = Inr rs" "k < length ws" "fst (rs ! k) = overwrite"
    and "j < k" "fst (rs ! j) = overwrite" "\<forall>i. j < i \<and> i < k \<longrightarrow> fst (rs ! i) \<noteq> overwrite"
    and "client_ContainerResources (nc_client cfg) (ws ! k) = Inr res"
    and "scaleWithNodes MustParse (nc_estimator cfg) (fst (CountNodes (ws ! k))) = Inr er"
    and "shouldOverwriteResources er (list_of (Limits res)) (list_of (Requests res)) = (req, op)"
  shows "(op = scaleDown \<longrightarrow> poll_changed (ws ! j) + scaleDownDelay cfg \<le> poll_now (ws ! k)) \<and>
    (op = scaleUp \<longrightarrow> poll_changed (ws ! j) + scaleUpDelay cfg \<le> poll_now (ws ! k))"
proof -
  have "updateResources MustParse cfg (ws ! k) (poll_changed (ws ! j)) = Inr (overwrite, snd (rs ! k))"
    using PollAPIServer_last [OF assms(1,2,4,5,6)] assms(3) by (metis prod.collapse)
  then show ?thesis using updateResources_overwrite assms(7-9) by blast
qed

definition example_pod_with :: "Quantity \<Rightarrow> Pod" where
  "example_pod_with q =
     \<lparr>pod_Namespace = ''n'', pod_Name = ''p'', pod_GenerateName = [], pod_Labels = [], pod_Annotations = None, OwnerReferences = [],
      pod_Containers = [\<lparr>c_Name = ''c'', c_Resources = \<lparr>Limits = Some [(''cpu'', q)], Requests = Some [(''cpu'', q)]\<rparr>\<rparr>],
      Phase = ''Running'', StartTime = None, ContainerStatuses = [], DeletionTimestamp = None\<rparr>"

definition example_poll :: "Quantity \<Rightarrow> time \<Rightarrow> poll_answers" where
  "example_poll q t =
     \<lparr>nodeLister_List = (replicate 10 ''node'', None), podLister_Get = (\<lambda>_. Inr (example_pod_with q)),
      deploymentLister_Get = (\<lambda>_. Inr \<lparr>dep_Name = ''d'', dep_Containers = pod_Containers (example_pod_with q)\<rparr>),
      deploymentClient_Update = (\<lambda>_. None), poll_now = t, poll_changed = t + 1\<rparr>"

definition example_nanny :: nanny_config where
  "example_nanny =
     \<lparr>nc_estimator = \<lparr>est_Resources = [\<lparr>Base = 0, ExtraPerNode = ''12m'', res_Name = ''cpu''\<rparr>], AcceptanceOffset = 20, RecommendationOffset = 10\<rparr>,
      nc_client = \<lparr>kc_deployment = ''d'', kc_pod = ''p'', kc_container = ''c''\<rparr>, scaleDownDelay = 100, scaleUpDelay = 10\<rparr>"

lemmas estimate_eval = estimate_for_def overhead_of_def extra_digits_def extra_tail_def extra_unit_def decimal_def digit_value_def
  is_digit_def max_quantity_def suffix_table_def low_count_def high_count_def

lemma example_decision:
  "\<exists>er req. scaleWithNodes table_parse (nc_estimator example_nanny) 10 = Inr er \<and>
     shouldOverwriteResources er [(''cpu'', 10 ^ 9)] [(''cpu'', 10 ^ 9)] = (Some req, scaleDown)"
proof -
  let ?e = "nc_estimator example_nanny"
  have "nanny_resources_ok (map_of suffix_table) (est_Resources ?e)"
    by (simp add: example_nanny_def nanny_resources_ok_def canonical_extra_def plain_suffix_def suffix_table_def is_digit_def)
  then obtain er where er: "scaleWithNodes table_parse ?e 10 = Inr er"
      "map_of (lower (AcceptableRange er)) = map_of (estimate_for (map_of suffix_table) (low_count 10 20) (est_Resources ?e))"
      "map_of (upper (AcceptableRange er)) = map_of (estimate_for (map_of suffix_table) (high_count 10 20) (est_Resources ?e))"
    using scaleWithNodes_total [OF table_parse_ok, of ?e 10] by (auto simp: offsets_ok_def example_nanny_def)
  have "checkResource er [(''cpu'', 10 ^ 9)] ResourceCPU = (Some (upper (RecommendedRange er)), scaleDown)"
    unfolding checkResource_def er(2,3) by (simp add: example_nanny_def estimate_eval ResourceCPU_def q_Cmp_def)
  then show ?thesis using er(1) by (simp add: shouldOverwriteResources_def)
qed

lemma example_poll_simps:
  "client_ContainerResources (nc_client example_nanny) (example_poll q t) =
     Inr \<lparr>Limits = Some [(''cpu'', q)], Requests = Some [(''cpu'', q)]\<rparr>"
  "fst (CountNodes (example_poll q t)) = 10" "snd (CountNodes (example_poll q t)) = None"
  "\<exists>sent. UpdateDeployment (nc_client example_nanny) (example_poll q t) req = (None, sent)"
  by (simp_all add: client_ContainerResources_def example_nanny_def example_poll_def example_pod_with_def CountNodes_def UpdateDeployment_def)

lemma example_poll_overwrites:
  assumes "t0 + 100 \<le> t"
  shows "\<exists>sent. updateResources table_parse example_nanny (example_poll (10 ^ 9) t) t0 = Inr (overwrite, sent)"
proof -
  obtain er req where er: "scaleWithNodes table_parse (nc_estimator example_nanny) 10 = Inr er"
      "shouldOverwriteResources er [(''cpu'', 10 ^ 9)] [(''cpu'', 10 ^ 9)] = (Some req, scaleDown)" using example_decision by blast
  obtain sent where s: "UpdateDeployment (nc_client example_nanny) (example_poll (10 ^ 9) t) req = (None, sent)"
    using example_poll_simps(4) by blast
  have n: "CountNodes (example_poll (10 ^ 9) t) = (10, None)" using example_poll_simps(2,3) by (metis prod.collapse)
  have "scaleDownDelay example_nanny = 100" "poll_now (example_poll (10 ^ 9) t) = t" by (simp_all add: example_nanny_def example_poll_def)
  then show ?thesis using assms er s n unfolding updateResources_def example_poll_simps(1) by (simp add: time_Before_def time_Add_def)
qed

theorem nanny_delays_kept_witness:
  "poll_changed (example_poll (10 ^ 9) 1000) + scaleDownDelay example_nanny \<le> poll_now (example_poll (10 ^ 9) 2000)"
proof -
  let ?ws = "[example_poll (10 ^ 9) 1000, example_poll (10 ^ 9) 2000]"
  let ?res = "\<lparr>Limits = Some [(''cpu'', 10 ^ 9)], Requests = Some [(''cpu'', 10 ^ 9)]\<rparr>"
  obtain s1 where s1: "updateResources table_parse example_nanny (example_poll (10 ^ 9) 1000) 0 = Inr (overwrite, s1)"
    using example_poll_overwrites [of 0 1000] by auto
  have c: "poll_changed (example_poll (10 ^ 9) 1000) = 1001" by (simp add: example_poll_def)
  obtain s2 where s2: "updateResources table_parse example_nanny (example_poll (10 ^ 9) 2000) 1001 = Inr (overwrite, s2)"
    using example_poll_overwrites [of 1001 2000] by auto
  have rs: "PollAPIServer table_parse example_nanny ?ws 0 = Inr [(overwrite, s1), (overwrite, s2)]"
    unfolding PollAPIServer.simps s1 rbind_simps fst_conv simp_thms if_True c s2 by simp
  obtain er req where er: "scaleWithNodes table_parse (nc_estimator example_nanny) 10 = Inr er"
      "shouldOverwriteResources er [(''cpu'', 10 ^ 9)] [(''cpu'', 10 ^ 9)] = (Some req, scaleDown)" using example_decision by blast
  have er': "scaleWithNodes table_parse (nc_estimator example_nanny) (fst (CountNodes (?ws ! 1))) = Inr er"
    using er(1) by (simp add: example_poll_simps(2))
  have so: "shouldOverwriteResources er (list_of (Limits ?res)) (list_of (Requests ?res)) = (Some req, scaleDown)" using er(2) by simp
  have res: "client_ContainerResources (nc_client example_nanny) (?ws ! 1) = Inr ?res" by (simp add: example_poll_simps(1))
  show ?thesis using nanny_delays_kept [OF rs _ _ _ _ _ res er' so, of 0] by auto
qed

text \<open>
  The extra amount is misread when it is written with an exponent: an extra of \<open>1e3\<close> adds a
  million units for one node, because the count of scanned items is taken for the number of scanned
  characters and the exponent is applied twice.
\<close>

theorem exponent_applied_twice:
  assumes "parse_ok MustParse mult" "mult ''e3'' = Some (10 ^ 12)"
  shows "calculateResources MustParse 1 [\<lparr>Base = 0, ExtraPerNode = ''1e3'', res_Name = ''memory''\<rparr>] [] = Inr [(''memory'', 10 ^ 6 * 10 ^ 9)]"
proof -
  have "scan_float ''1e3'' = Some 1000"
    by (simp add: scan_float_def split_sign_def scan_mantissa_def scan_exponent_def is_digit_def decimal_def digit_value_def)
  moreover have "show_nat 1000 = ''1000''" by (simp add: show_nat.simps digits_def)
  ultimately have s: "overhead_string 1 ''1e3'' = ''1000'' @ ''.'' @ ''000000'' @ ''e3''"
    using sprintf_f_of_nat [of 1000] by (simp add: overhead_string_def)
  have "''1000'' \<noteq> []" "list_all is_digit ''1000''" "list_all is_digit ''000000''" by (simp_all add: is_digit_def)
  then have "MustParse (''1000'' @ ''.'' @ ''000000'' @ ''e3'') =
      Inr (min max_quantity \<lceil>real (decimal (''1000'' @ ''000000'')) / 10 ^ length ''000000'' * of_int (10 ^ 12)\<rceil>)"
    using assms unfolding parse_ok_def by blast
  moreover have "real (decimal (''1000'' @ ''000000'')) / 10 ^ length ''000000'' * of_int (10 ^ 12) = of_int (10 ^ 15)"
    by (simp add: decimal_def digit_value_def)
  ultimately have "MustParse (overhead_string 1 ''1e3'') = Inr (10 ^ 15)"
    unfolding s by (simp only: ceiling_of_int) (simp add: max_quantity_def)
  then show ?thesis by simp
qed

theorem exponent_applied_twice_witness:
  "calculateResources table_parse 1 [\<lparr>Base = 0, ExtraPerNode = ''1e3'', res_Name = ''memory''\<rparr>] [] = Inr [(''memory'', 10 ^ 6 * 10 ^ 9)]
   \<and> map_of suffix_table ''e3'' = Some (10 ^ 12)"
proof -
  have e: "map_of suffix_table ''e3'' = Some (10 ^ 12)" by (simp add: suffix_table_def)
  show ?thesis using exponent_applied_twice [OF table_parse_ok e] e by (rule conjI)
qed

text \<open>
  The flag for the extra storage per node is ignored: a monitored storage resource gets the extra
  amount of memory, whatever the flag says.
\<close>

theorem storage_uses_extra_memory:
  assumes "main_estimator MustParse canonical flags = Inr e" "baseStorage flags \<noteq> noValue"
  shows "(\<exists>r \<in> set (est_Resources e). res_Name r = ''storage'' \<and> canonical (memoryPerNode flags) = Inr (ExtraPerNode r)) \<and>
    main_estimator MustParse canonical (flags\<lparr>storagePerNode := x\<rparr>) = Inr e"
  using assms by (auto simp: main_estimator_def monitored_def split: if_splits)

definition storage_flags :: nanny_flags where
  "storage_flags =
     \<lparr>flag_deployment = ''d'', baseCPU = noValue, cpuPerNode = ''12m'', baseMemory = noValue, memoryPerNode = ''3Mi'', baseStorage = ''0.0'',
      storagePerNode = ''7'', recommendationOffset = 10, acceptanceOffset = 20\<rparr>"

theorem storage_uses_extra_memory_witness:
  "\<exists>e. main_estimator table_parse Inr storage_flags = Inr e \<and>
     (\<exists>r \<in> set (est_Resources e). res_Name r = ''storage'' \<and> ExtraPerNode r = ''3Mi'')"
proof -
  have "table_parse (''0'' @ ''.'' @ ''0'' @ []) = Inr 0"
    by (simp add: table_parse_def suffix_table_def is_digit_def decimal_def digit_value_def max_quantity_def)
  then obtain e where e: "main_estimator table_parse Inr storage_flags = Inr e"
    by (simp add: main_estimator_def storage_flags_def monitored_def noValue_def checkPercentageFlagBounds_def)
  moreover have "baseStorage storage_flags \<noteq> noValue" "memoryPerNode storage_flags = ''3Mi''" by (simp_all add: storage_flags_def noValue_def)
  ultimately show ?thesis using storage_uses_extra_memory [of table_parse Inr storage_flags e] by (metis sum.inject(2))
qed

text \<open>
  The flags accept an acceptance offset below the recommendation offset, although their
  description rules it out. The resizer then never settles: the values it writes are out of the
  accepted range for the same number of nodes, and are written again on every poll.
\<close>

definition restless_flags :: nanny_flags where
  "restless_flags =
     \<lparr>flag_deployment = ''d'', baseCPU = ''0.0'', cpuPerNode = ''12m'', baseMemory = noValue, memoryPerNode = ''0Mi'', baseStorage = noValue,
      storagePerNode = ''0'', recommendationOffset = 10, acceptanceOffset = 0\<rparr>"

theorem offsets_unchecked_never_settle:
  "\<exists>e er. main_estimator table_parse Inr restless_flags = Inr e \<and> scaleWithNodes table_parse e 10 = Inr er \<and>
     shouldOverwriteResources er (upper (RecommendedRange er)) (upper (RecommendedRange er)) =
       (Some \<lparr>Limits = Some (upper (RecommendedRange er)), Requests = Some (upper (RecommendedRange er))\<rparr>, scaleDown)"
proof -
  let ?rs = "[\<lparr>Base = 0, ExtraPerNode = ''12m'', res_Name = ''cpu''\<rparr>]" and ?t = "map_of suffix_table"
  let ?e = "\<lparr>est_Resources = ?rs, AcceptanceOffset = 0, RecommendationOffset = 10\<rparr>"
  have "table_parse (''0'' @ ''.'' @ ''0'' @ []) = Inr 0"
    by (simp add: table_parse_def suffix_table_def is_digit_def decimal_def digit_value_def max_quantity_def)
  then have e: "main_estimator table_parse Inr restless_flags = Inr ?e"
    by (simp add: main_estimator_def restless_flags_def monitored_def noValue_def checkPercentageFlagBounds_def)
  have ok: "nanny_resources_ok ?t ?rs"
    by (simp add: nanny_resources_ok_def canonical_extra_def plain_suffix_def suffix_table_def is_digit_def)
  obtain r a where r: "nodesAndOffsetToRange table_parse 10 10 ?rs = Inr r" "map_of (upper r) = map_of (estimate_for ?t (high_count 10 10) ?rs)"
    and a: "nodesAndOffsetToRange table_parse 10 0 ?rs = Inr a" "map_of (lower a) = map_of (estimate_for ?t (low_count 10 0) ?rs)"
      "map_of (upper a) = map_of (estimate_for ?t (high_count 10 0) ?rs)"
    using nodesAndOffsetToRange_total [OF table_parse_ok ok, of 10 10] nodesAndOffsetToRange_total [OF table_parse_ok ok, of 10 0] by auto
  let ?er = "\<lparr>RecommendedRange = r, AcceptableRange = a\<rparr>"
  have er: "scaleWithNodes table_parse ?e 10 = Inr ?er" using r(1) a(1) by (simp add: scaleWithNodes_def)
  have "checkResource ?er (upper r) ResourceCPU = (Some (upper r), scaleDown)"
    unfolding checkResource_def EstimatorResult.simps r(2) a(2,3) by (simp add: estimate_eval ResourceCPU_def q_Cmp_def)
  then show ?thesis using e er by (intro exI [of _ ?e] exI [of _ ?er]) (simp add: shouldOverwriteResources_def)
qed

end
