(* ===== verification/Balancing.thy ===== *)
theory Balancing
  imports Go_Sort
begin

text \<open>
  The distribution of a scale-up over similar node groups
  (\<open>cluster-autoscaler/processors/nodegroupset/balancing_processor.go\<close>). A node group is a parameter
  type with its target size, which the cloud provider may fail to tell, and its maximal size. The loop
  over indices of the slice is kept as it is, an index out of range is a panic; that it terminates,
  does not panic and balances the groups is proved from the loop invariants its comment states.
\<close>

section \<open>The processor\<close>

record 'g node_groups =
  ng_Id :: "'g \<Rightarrow> string"
  ng_TargetSize :: "'g \<Rightarrow> int result"
  ng_MaxSize :: "'g \<Rightarrow> int"

record 'g ScaleUpInfo =
  Group :: 'g
  CurrentSize :: int
  NewSize :: int
  MaxSize :: int

fun find_similar ::
    "'g node_groups \<Rightarrow> ('i \<Rightarrow> 'i \<Rightarrow> bool) \<Rightarrow> (string, 'i) gomap \<Rightarrow> string \<Rightarrow> 'i \<Rightarrow> 'g list \<Rightarrow> 'g list" where
  "find_similar cp comparator nodeInfos nodeGroupId nodeInfo [] = []"
| "find_similar cp comparator nodeInfos nodeGroupId nodeInfo (ng # ngs) =
     (let rest = find_similar cp comparator nodeInfos nodeGroupId nodeInfo ngs in
      if ng_Id cp ng = nodeGroupId then rest
      else case map_of nodeInfos (ng_Id cp ng) of
        None \<Rightarrow> rest
      | Some ngNodeInfo \<Rightarrow> if comparator nodeInfo ngNodeInfo then ng # rest else rest)"

definition FindSimilarNodeGroups ::
    "'g node_groups \<Rightarrow> ('i \<Rightarrow> 'i \<Rightarrow> bool) \<Rightarrow> 'g list \<Rightarrow> 'g \<Rightarrow> (string, 'i) gomap \<Rightarrow> 'g list result" where
  "FindSimilarNodeGroups cp comparator all_groups nodeGroup nodeInfosForGroups =
     (case map_of nodeInfosForGroups (ng_Id cp nodeGroup) of
        None \<Rightarrow> Inl (Err ''failed to find template node for node group'')
      | Some nodeInfo \<Rightarrow> Inr (find_similar cp comparator nodeInfosForGroups (ng_Id cp nodeGroup) nodeInfo all_groups))"

text \<open>The infos of the groups that are not at their maximal size, and their free capacity.\<close>

fun scale_up_infos :: "'g node_groups \<Rightarrow> 'g list \<Rightarrow> ('g ScaleUpInfo list \<times> int) result" where
  "scale_up_infos cp [] = Inr ([], 0)"
| "scale_up_infos cp (ng # ngs) =
     rbind (ng_TargetSize cp ng) (\<lambda>currentSize.
     rbind (scale_up_infos cp ngs) (\<lambda>(infos, totalCapacity).
       if currentSize = ng_MaxSize cp ng then Inr (infos, totalCapacity)
       else Inr (\<lparr>Group = ng, CurrentSize = currentSize, NewSize = currentSize, MaxSize = ng_MaxSize cp ng\<rparr> # infos,
                 if ng_MaxSize cp ng - currentSize > 0 then totalCapacity + (ng_MaxSize cp ng - currentSize) else totalCapacity)))"

definition swap :: "'a list \<Rightarrow> nat \<Rightarrow> nat \<Rightarrow> 'a list" where
  "swap xs i j = xs[i := xs ! j, j := xs ! i]"

text \<open>
  The index of the next iteration; \<open>infos\<close> is the slice after the change of this one, so that the
  pointer \<open>currentInfo\<close> refers to its element at \<open>currentIndex\<close>.
\<close>

definition next_index :: "'g ScaleUpInfo list \<Rightarrow> nat \<Rightarrow> nat \<Rightarrow> nat" where
  "next_index infos startIndex currentIndex =
     (if currentIndex + 1 < length infos \<and> NewSize (infos ! currentIndex) > NewSize (infos ! (currentIndex + 1))
      then currentIndex + 1 else startIndex)"

function balance_loop :: "'g ScaleUpInfo list \<Rightarrow> nat \<Rightarrow> nat \<Rightarrow> int \<Rightarrow> 'g ScaleUpInfo list result" where
  "balance_loop infos startIndex currentIndex newNodes =
     (if newNodes \<le> 0 then Inr infos
      else if \<not> currentIndex < length infos then Inl (Panic ''index out of range'')
      else if NewSize (infos ! currentIndex) < MaxSize (infos ! currentIndex)
      then let infos' = infos[currentIndex := (infos ! currentIndex)\<lparr>NewSize := NewSize (infos ! currentIndex) + 1\<rparr>]
           in balance_loop infos' startIndex (next_index infos' startIndex currentIndex) (newNodes - 1)
      else if \<not> startIndex < length infos then Inl (Panic ''index out of range'')
      else let infos' = swap infos startIndex currentIndex
           in balance_loop infos' (startIndex + 1) (next_index infos' (startIndex + 1) currentIndex) newNodes)"
  by pat_completeness auto

text \<open>As the comment says, each iteration allocates a node or removes a group.\<close>

termination
  by (relation "measure (\<lambda>(infos, startIndex, currentIndex, newNodes). nat newNodes + (length infos - startIndex))")
    (auto simp: swap_def)

declare balance_loop.simps [simp del]

definition BalanceScaleUpBetweenGroups ::
    "(('g ScaleUpInfo \<Rightarrow> 'g ScaleUpInfo \<Rightarrow> bool) \<Rightarrow> 'g ScaleUpInfo list \<Rightarrow> 'g ScaleUpInfo list) \<Rightarrow>
     'g node_groups \<Rightarrow> 'g list \<Rightarrow> int \<Rightarrow> 'g ScaleUpInfo list result" where
  "BalanceScaleUpBetweenGroups sort_Slice cp groups newNodes =
     (if groups = [] then Inl (Err ''Can't balance scale up between 0 groups'')
      else rbind (scale_up_infos cp groups) (\<lambda>(infos, totalCapacity).
        let newNodes = (if totalCapacity < newNodes then totalCapacity else newNodes);
            infos = sort_Slice (\<lambda>a b. CurrentSize a < CurrentSize b) infos
        in rbind (balance_loop infos 0 0 newNodes) (\<lambda>infos.
             Inr (filter (\<lambda>info. NewSize info \<noteq> CurrentSize info) infos))))"

section \<open>The loop invariants\<close>

text \<open>What an info says about its group, which no iteration changes.\<close>

definition ident :: "'g ScaleUpInfo \<Rightarrow> 'g \<times> int \<times> int" where
  "ident x = (Group x, CurrentSize x, MaxSize x)"

definition free_capacity :: "'g ScaleUpInfo list \<Rightarrow> int" where
  "free_capacity xs = sum_list (map (\<lambda>x. max 0 (MaxSize x - NewSize x)) xs)"

definition total_size :: "'g ScaleUpInfo list \<Rightarrow> int" where
  "total_size xs = sum_list (map NewSize xs)"

definition within_limits :: "'g ScaleUpInfo list \<Rightarrow> bool" where
  "within_limits xs \<longleftrightarrow> (\<forall>x \<in> set xs. CurrentSize x \<le> NewSize x \<and> (CurrentSize x < NewSize x \<longrightarrow> NewSize x \<le> MaxSize x))"

text \<open>A group that was enlarged is at most one node larger than any group that still had room.\<close>

definition balanced :: "'g ScaleUpInfo list \<Rightarrow> bool" where
  "balanced xs \<longleftrightarrow> (\<forall>x \<in> set xs. \<forall>y \<in> set xs. CurrentSize x < NewSize x \<and> NewSize y < MaxSize y \<longrightarrow> NewSize x \<le> NewSize y + 1)"

text \<open>
  The groups before \<open>startIndex\<close> are full; those up to \<open>currentIndex\<close> have got one node more in this
  round; from \<open>currentIndex\<close> on the groups are ordered by size; no enlarged group is more than one
  node ahead.
\<close>

definition loop_inv :: "'g ScaleUpInfo list \<Rightarrow> nat \<Rightarrow> nat \<Rightarrow> bool" where
  "loop_inv xs st cur \<longleftrightarrow> st \<le> cur \<and> cur < length xs \<and>
     (\<forall>i < st. MaxSize (xs ! i) \<le> NewSize (xs ! i)) \<and>
     (\<forall>i. st \<le> i \<and> i < cur \<longrightarrow> NewSize (xs ! i) = NewSize (xs ! cur) + 1) \<and>
     (\<forall>i j. cur \<le> i \<and> i < j \<and> j < length xs \<longrightarrow> NewSize (xs ! i) \<le> NewSize (xs ! j)) \<and>
     (\<forall>x \<in> set xs. CurrentSize x < NewSize x \<longrightarrow> NewSize x \<le> NewSize (xs ! cur) + 1)"

lemma loop_invD:
  assumes "loop_inv xs st cur"
  shows "st \<le> cur" "cur < length xs" "i < st \<Longrightarrow> MaxSize (xs ! i) \<le> NewSize (xs ! i)"
    "st \<le> i \<Longrightarrow> i < cur \<Longrightarrow> NewSize (xs ! i) = NewSize (xs ! cur) + 1"
    "cur \<le> i \<Longrightarrow> i \<le> j \<Longrightarrow> j < length xs \<Longrightarrow> NewSize (xs ! i) \<le> NewSize (xs ! j)"
    "x \<in> set xs \<Longrightarrow> CurrentSize x < NewSize x \<Longrightarrow> NewSize x \<le> NewSize (xs ! cur) + 1"
  using assms unfolding loop_inv_def by (auto simp: le_less)

text \<open>
  Both kinds of iteration end in the same situation: the groups from the new start to the current
  index have size \<open>n + 1\<close>, those behind are ordered and not smaller than \<open>n\<close>.
\<close>

lemma loop_inv_next:
  assumes cur: "st \<le> cur \<or> st = cur + 1" "cur < length xs" "st < length xs"
    and full: "\<And>i. i < st \<Longrightarrow> MaxSize (xs ! i) \<le> NewSize (xs ! i)"
    and round: "\<And>i. st \<le> i \<Longrightarrow> i \<le> cur \<Longrightarrow> NewSize (xs ! i) = n + 1"
    and at: "NewSize (xs ! cur) = n + 1 \<or> st = cur + 1 \<and> NewSize (xs ! cur) = n"
    and behind: "\<And>i. cur < i \<Longrightarrow> i < length xs \<Longrightarrow> n \<le> NewSize (xs ! i)"
    and ord: "\<And>i j. cur < i \<Longrightarrow> i < j \<Longrightarrow> j < length xs \<Longrightarrow> NewSize (xs ! i) \<le> NewSize (xs ! j)"
    and inc: "\<And>x. x \<in> set xs \<Longrightarrow> CurrentSize x < NewSize x \<Longrightarrow> NewSize x \<le> n + 1"
  shows "loop_inv xs st (next_index xs st cur)"
proof (cases "cur + 1 < length xs \<and> NewSize (xs ! cur) > NewSize (xs ! (cur + 1))")
  case True
  then have nx: "next_index xs st cur = cur + 1" by (simp add: next_index_def)
  have b: "n \<le> NewSize (xs ! (cur + 1))" using True behind [of "cur + 1"] by simp
  then have c: "NewSize (xs ! cur) = n + 1" and e: "NewSize (xs ! (cur + 1)) = n" using True at by auto
  show ?thesis unfolding nx loop_inv_def e using cur True full round ord inc c by (auto simp: less_Suc_eq_le)
next
  case False
  then have nx: "next_index xs st cur = st" by (auto simp: next_index_def)
  have le: "n + 1 \<le> NewSize (xs ! j)" if "cur < j" "j < length xs" "st \<le> cur" for j
  proof -
    have "NewSize (xs ! cur) = n + 1" using round [of cur] that by simp
    then have "n + 1 \<le> NewSize (xs ! (cur + 1))" using False that by simp
    then show ?thesis using ord [of "cur + 1" j] that by (cases "j = cur + 1") auto
  qed
  have "NewSize (xs ! i) \<le> NewSize (xs ! j)" if "st \<le> i" "i < j" "j < length xs" for i j
  proof (cases "i \<le> cur")
    case True
    then show ?thesis using that round [of i] round [of j] le [of j] by (cases "j \<le> cur") auto
  next
    case False
    then show ?thesis using ord [of i j] that by simp
  qed
  moreover have "n \<le> NewSize (xs ! st)" using cur round [of st] behind [of st] by (cases "st \<le> cur") auto
  then have "NewSize x \<le> NewSize (xs ! st) + 1" if "x \<in> set xs" "CurrentSize x < NewSize x" for x using inc [OF that] by linarith
  ultimately show ?thesis unfolding nx loop_inv_def using cur full by auto
qed

lemma add_step:
  assumes inv: "loop_inv xs st cur" and room: "NewSize (xs ! cur) < MaxSize (xs ! cur)"
  defines "xs' \<equiv> xs[cur := (xs ! cur)\<lparr>NewSize := NewSize (xs ! cur) + 1\<rparr>]"
  shows "loop_inv xs' st (next_index xs' st cur)"
proof (rule loop_inv_next [where n = "NewSize (xs ! cur)"])
  note d = loop_invD [OF inv]
  have nth: "xs' ! i = (if i = cur then (xs ! cur)\<lparr>NewSize := NewSize (xs ! cur) + 1\<rparr> else xs ! i)" if "i < length xs" for i
    using that by (simp add: xs'_def nth_list_update)
  have len: "length xs' = length xs" by (simp add: xs'_def)
  show "st \<le> cur \<or> st = cur + 1" "cur < length xs'" "st < length xs'" using d(1,2) len by auto
  show "MaxSize (xs' ! i) \<le> NewSize (xs' ! i)" if "i < st" for i using d(1,2) d(3) [OF that] that nth [of i] by simp
  show "NewSize (xs' ! i) = NewSize (xs ! cur) + 1" if "st \<le> i" "i \<le> cur" for i
    using d(2) d(4) [of i] that nth [of i] by simp
  show "NewSize (xs' ! cur) = NewSize (xs ! cur) + 1 \<or> st = cur + 1 \<and> NewSize (xs' ! cur) = NewSize (xs ! cur)"
    using nth [OF d(2)] by simp
  show "NewSize (xs ! cur) \<le> NewSize (xs' ! i)" if "cur < i" "i < length xs'" for i
    using d(5) [of cur i] that nth [of i] len by simp
  show "NewSize (xs' ! i) \<le> NewSize (xs' ! j)" if "cur < i" "i < j" "j < length xs'" for i j
    using d(5) [of i j] that nth [of i] nth [of j] len by simp
  show "NewSize x \<le> NewSize (xs ! cur) + 1" if "x \<in> set xs'" "CurrentSize x < NewSize x" for x
    using that d(6) [of x] by (auto simp: xs'_def dest!: set_update_subset_insert [THEN subsetD])
qed

lemma remove_step:
  assumes inv: "loop_inv xs st cur" and full: "MaxSize (xs ! cur) \<le> NewSize (xs ! cur)" and more: "st + 1 < length xs"
  shows "loop_inv (swap xs st cur) (st + 1) (next_index (swap xs st cur) (st + 1) cur)"
proof (rule loop_inv_next [where n = "NewSize (xs ! cur)"])
  note d = loop_invD [OF inv]
  have nth: "swap xs st cur ! i = (if i = cur then xs ! st else if i = st then xs ! cur else xs ! i)" if "i < length xs" for i
    using that d(1,2) by (auto simp: swap_def nth_list_update)
  have len: "length (swap xs st cur) = length xs" by (simp add: swap_def)
  show "st + 1 \<le> cur \<or> st + 1 = cur + 1" "cur < length (swap xs st cur)" "st + 1 < length (swap xs st cur)" using d(1,2) more len by auto
  show "MaxSize (swap xs st cur ! i) \<le> NewSize (swap xs st cur ! i)" if "i < st + 1" for i
    using d(1,2) d(3) [of i] full that nth [of i] by (cases "i = st") auto
  show "NewSize (swap xs st cur ! i) = NewSize (xs ! cur) + 1" if "st + 1 \<le> i" "i \<le> cur" for i
    using d(2) d(4) [of i] d(4) [of st] that nth [of i] by auto
  show "NewSize (swap xs st cur ! cur) = NewSize (xs ! cur) + 1 \<or> st + 1 = cur + 1 \<and> NewSize (swap xs st cur ! cur) = NewSize (xs ! cur)"
    using nth [OF d(2)] d(1) d(4) [of st] by (cases "st = cur") auto
  show "NewSize (xs ! cur) \<le> NewSize (swap xs st cur ! i)" if "cur < i" "i < length (swap xs st cur)" for i
    using d(1) d(5) [of cur i] that nth [of i] len by simp
  show "NewSize (swap xs st cur ! i) \<le> NewSize (swap xs st cur ! j)" if "cur < i" "i < j" "j < length (swap xs st cur)" for i j
    using d(1) d(5) [of i j] that nth [of i] nth [of j] len by simp
  have "set (swap xs st cur) = set xs" using d(1,2) by (simp add: swap_def)
  then show "NewSize x \<le> NewSize (xs ! cur) + 1" if "x \<in> set (swap xs st cur)" "CurrentSize x < NewSize x" for x
    using that d(6) [of x] by simp
qed

section \<open>The result\<close>

lemma sum_list_update_int: "i < length xs \<Longrightarrow> sum_list (xs[i := x]) = sum_list xs - xs ! i + (x :: int)"
proof (induction xs arbitrary: i)
  case (Cons y ys)
  then show ?case by (cases i) auto
qed simp

lemma sums_swap:
  assumes "i < length xs" "j < length xs"
  shows "mset (swap xs i j) = mset xs" and "sum_list (map f (swap xs i j)) = sum_list (map (f :: _ \<Rightarrow> int) xs)"
proof -
  show m: "mset (swap xs i j) = mset xs" using assms mset_swap [of j xs i] by (simp add: swap_def)
  show "sum_list (map f (swap xs i j)) = sum_list (map f xs)"
    using m by (metis mset_map sum_mset_sum_list)
qed

lemma free_capacity_pos: "0 < free_capacity xs \<Longrightarrow> \<exists>i < length xs. NewSize (xs ! i) < MaxSize (xs ! i)"
proof (rule ccontr)
  assume p: "0 < free_capacity xs" and "\<not> (\<exists>i < length xs. NewSize (xs ! i) < MaxSize (xs ! i))"
  then have "MaxSize x \<le> NewSize x" if "x \<in> set xs" for x using that by (metis in_set_conv_nth not_less)
  then have "map (\<lambda>x. max 0 (MaxSize x - NewSize x)) xs = map (\<lambda>_. 0) xs" by (intro map_cong) auto
  then have "free_capacity xs = 0" unfolding free_capacity_def by (simp only:) simp
  then show False using p by simp
qed

lemma loop_inv_balanced: "loop_inv xs st cur \<Longrightarrow> balanced xs"
  unfolding balanced_def
proof (intro ballI impI, elim conjE)
  fix x y
  assume inv: "loop_inv xs st cur" and x: "x \<in> set xs" "CurrentSize x < NewSize x" and y: "y \<in> set xs" "NewSize y < MaxSize y"
  note d = loop_invD [OF inv]
  obtain j where j: "j < length xs" "y = xs ! j" using y(1) by (auto simp: in_set_conv_nth)
  have "st \<le> j" using d(3) [of j] y(2) j by (meson not_le)
  then have "NewSize (xs ! cur) \<le> NewSize y" using d(4) [of j] d(5) [of cur j] j by (cases "j < cur") auto
  then show "NewSize x \<le> NewSize y + 1" using d(6) [OF x] by simp
qed

lemma balance_loop_correct:
  "loop_inv xs st cur \<Longrightarrow> within_limits xs \<Longrightarrow> newNodes \<le> free_capacity xs \<Longrightarrow>
   \<exists>ys. balance_loop xs st cur newNodes = Inr ys \<and> mset (map ident ys) = mset (map ident xs) \<and>
     total_size ys = total_size xs + max 0 newNodes \<and> within_limits ys \<and> balanced ys"
proof (induction xs st cur newNodes rule: balance_loop.induct)
  case (1 xs st cur newNodes)
  note d = loop_invD [OF "1.prems"(1)]
  show ?case
  proof (cases "newNodes \<le> 0")
    case True
    then show ?thesis using "1.prems" loop_inv_balanced by (subst balance_loop.simps) auto
  next
    case pos: False
    show ?thesis
    proof (cases "NewSize (xs ! cur) < MaxSize (xs ! cur)")
      case room: True
      define xs' where "xs' = xs[cur := (xs ! cur)\<lparr>NewSize := NewSize (xs ! cur) + 1\<rparr>]"
      have inv: "loop_inv xs' st (next_index xs' st cur)"
        using add_step [OF "1.prems"(1) room] unfolding xs'_def .
      have lim: "within_limits xs'"
        using "1.prems"(2) room nth_mem [OF d(2)] by (fastforce simp: xs'_def within_limits_def dest!: set_update_subset_insert [THEN subsetD])
      have "map ident xs' = map ident xs"
        using d(2) by (intro nth_equalityI) (auto simp: xs'_def ident_def nth_list_update)
      moreover have "total_size xs' = total_size xs + 1" "free_capacity xs' = free_capacity xs - 1"
        using d(2) room by (simp_all add: xs'_def total_size_def free_capacity_def map_update sum_list_update_int)
      moreover have "balance_loop xs st cur newNodes = balance_loop xs' st (next_index xs' st cur) (newNodes - 1)"
        using pos room d(2) by (subst balance_loop.simps) (simp add: xs'_def Let_def)
      ultimately show ?thesis using "1.IH"(1) [OF pos _ room xs'_def inv lim] d(2) "1.prems"(3) pos by auto
    next
      case full: False
      define xs' where "xs' = swap xs st cur"
      have st: "st < length xs" using d(1,2) by simp
      have same: "mset xs' = mset xs" "total_size xs' = total_size xs" "free_capacity xs' = free_capacity xs"
        using sums_swap [OF st d(2)] by (simp_all add: xs'_def total_size_def free_capacity_def)
      have lim: "within_limits xs'" using "1.prems"(2) mset_eq_setD [OF same(1)] by (simp add: within_limits_def)
      obtain i where i: "i < length xs'" "NewSize (xs' ! i) < MaxSize (xs' ! i)"
        using free_capacity_pos [of xs'] "1.prems"(3) pos same(3) by auto
      have "xs' ! st = xs ! cur" using st d(1,2) by (auto simp: xs'_def swap_def nth_list_update)
      then have "i \<noteq> st" using i full by auto
      moreover have "i \<noteq> k" if "k < st" for k
        using d(3) [OF that] that d(1,2) i by (auto simp: xs'_def swap_def nth_list_update)
      ultimately have "st + 1 < length xs" using i by (auto simp: xs'_def swap_def) (metis Suc_lessI linorder_neqE_nat order.strict_trans)
      then have inv: "loop_inv xs' (st + 1) (next_index xs' (st + 1) cur)"
        using remove_step [OF "1.prems"(1)] full unfolding xs'_def by simp
      have "balance_loop xs st cur newNodes = balance_loop xs' (st + 1) (next_index xs' (st + 1) cur) newNodes"
        using pos full d(2) st by (subst balance_loop.simps) (simp add: xs'_def Let_def)
      then show ?thesis using "1.IH"(2) [OF pos _ full _ xs'_def inv lim] d(2) st same "1.prems"(3) by (auto simp: mset_map)
    qed
  qed
qed

definition start_info :: "'g node_groups \<Rightarrow> ('g \<Rightarrow> int) \<Rightarrow> 'g \<Rightarrow> 'g ScaleUpInfo" where
  "start_info cp size_of g = \<lparr>Group = g, CurrentSize = size_of g, NewSize = size_of g, MaxSize = ng_MaxSize cp g\<rparr>"

lemma scale_up_infos_ok:
  "\<forall>g \<in> set groups. ng_TargetSize cp g = Inr (size_of g) \<Longrightarrow>
   scale_up_infos cp groups =
     (let infos = map (start_info cp size_of) (filter (\<lambda>g. size_of g \<noteq> ng_MaxSize cp g) groups) in Inr (infos, free_capacity infos))"
  by (induction groups) (auto simp: free_capacity_def start_info_def Let_def)

lemma start_loop_inv:
  assumes "sorted_wrt (\<lambda>a b. NewSize a \<le> NewSize b) xs" "\<forall>x \<in> set xs. NewSize x = CurrentSize x" "xs \<noteq> []"
  shows "loop_inv xs 0 0"
  using assms by (auto simp: loop_inv_def sorted_wrt_iff_nth_less)

lemma balance_loop_start:
  assumes s: "sorted_wrt (\<lambda>a b. NewSize a \<le> NewSize b) xs" and new: "\<forall>x \<in> set xs. NewSize x = CurrentSize x" and n: "newNodes \<le> free_capacity xs"
  shows "\<exists>ys. balance_loop xs 0 0 newNodes = Inr ys \<and> mset (map ident ys) = mset (map ident xs) \<and>
    total_size ys = total_size xs + max 0 newNodes \<and> within_limits ys \<and> balanced ys"
proof (cases "xs = []")
  case True
  then show ?thesis using n by (subst balance_loop.simps) (simp add: free_capacity_def within_limits_def balanced_def total_size_def)
next
  case False
  have "within_limits xs" using new by (simp add: within_limits_def)
  then show ?thesis using balance_loop_correct [OF start_loop_inv [OF s new False] _ n] by simp
qed

text \<open>The sum of the differences, from the sums of the sizes and the unchanged data of the groups.\<close>

lemma increments_total:
  assumes "mset (map ident ys) = mset (map ident xs)" "total_size ys = total_size xs + k" "\<forall>x \<in> set xs. NewSize x = CurrentSize x"
  shows "sum_list (map (\<lambda>x. NewSize x - CurrentSize x) ys) = k"
proof -
  have c: "map CurrentSize zs = map (fst \<circ> snd) (map ident zs)" for zs :: "'a ScaleUpInfo list" by (simp add: ident_def)
  have "sum_mset (image_mset (fst \<circ> snd) (mset (map ident ys))) = sum_mset (image_mset (fst \<circ> snd) (mset (map ident xs)))"
    using assms(1) by simp
  then have "sum_list (map CurrentSize ys) = sum_list (map CurrentSize xs)" unfolding c by (simp only: mset_map [symmetric] sum_mset_sum_list)
  moreover have "map NewSize xs = map CurrentSize xs" using assms(3) by simp
  then have "total_size xs = sum_list (map CurrentSize xs)" unfolding total_size_def by (simp only:)
  ultimately show ?thesis using assms(2) by (simp add: sum_list_subtractf total_size_def)
qed

lemma balance_scale_up:
  assumes sort: "sort_ok sort_Slice" and groups: "groups \<noteq> []"
    and size: "\<forall>g \<in> set groups. ng_TargetSize cp g = Inr (size_of g)"
  shows "\<exists>infos. BalanceScaleUpBetweenGroups sort_Slice cp groups newNodes = Inr (filter (\<lambda>x. NewSize x \<noteq> CurrentSize x) infos) \<and>
    mset (map ident infos) = mset (map (\<lambda>g. (g, size_of g, ng_MaxSize cp g)) (filter (\<lambda>g. size_of g \<noteq> ng_MaxSize cp g) groups)) \<and>
    sum_list (map (\<lambda>x. NewSize x - CurrentSize x) infos) =
      max 0 (min newNodes (sum_list (map (\<lambda>g. max 0 (ng_MaxSize cp g - size_of g)) groups))) \<and>
    within_limits infos \<and> balanced infos"
proof -
  define rest where "rest = filter (\<lambda>g. size_of g \<noteq> ng_MaxSize cp g) groups"
  define start where "start = map (start_info cp size_of) rest"
  define xs where "xs = sort_Slice (\<lambda>a b. CurrentSize a < CurrentSize b) start"
  have "strict_weak_order (\<lambda>a b :: 'a ScaleUpInfo. CurrentSize a < CurrentSize b)" by (auto simp: strict_weak_order_def)
  then have ms: "mset xs = mset start" and so: "sorted_wrt (\<lambda>a b. \<not> CurrentSize b < CurrentSize a) xs"
    using sort unfolding sort_ok_def xs_def by blast+
  have new: "\<forall>x \<in> set xs. NewSize x = CurrentSize x"
    using mset_eq_setD [OF ms] by (auto simp: start_def start_info_def)
  have so': "sorted_wrt (\<lambda>a b. NewSize a \<le> NewSize b) xs"
    by (rule sorted_wrt_mono_rel [OF _ so]) (use new in auto)
  have fc: "free_capacity xs = free_capacity start"
    unfolding free_capacity_def sum_mset_sum_list [symmetric] mset_map ms ..
  let ?n = "if free_capacity start < newNodes then free_capacity start else newNodes"
  have n: "?n \<le> free_capacity xs" by (simp add: fc)
  obtain ys where ys: "balance_loop xs 0 0 ?n = Inr ys" "mset (map ident ys) = mset (map ident xs)"
      "total_size ys = total_size xs + max 0 ?n" "within_limits ys" "balanced ys"
    using balance_loop_start [OF so' new n] by blast
  have "free_capacity start = sum_list (map (\<lambda>g. max 0 (ng_MaxSize cp g - size_of g)) groups)"
    unfolding start_def rest_def by (induction groups) (auto simp: free_capacity_def start_info_def)
  then have "max 0 ?n = max 0 (min newNodes (sum_list (map (\<lambda>g. max 0 (ng_MaxSize cp g - size_of g)) groups)))" by auto
  then have "sum_list (map (\<lambda>x. NewSize x - CurrentSize x) ys) = max 0 (min newNodes (sum_list (map (\<lambda>g. max 0 (ng_MaxSize cp g - size_of g)) groups)))"
    using increments_total [OF ys(2,3) new] by simp
  moreover have "mset (map ident ys) = mset (map (\<lambda>g. (g, size_of g, ng_MaxSize cp g)) rest)"
    using ys(2) ms by (simp add: start_def mset_map multiset.map_comp comp_def ident_def start_info_def)
  moreover have "BalanceScaleUpBetweenGroups sort_Slice cp groups newNodes = Inr (filter (\<lambda>x. NewSize x \<noteq> CurrentSize x) ys)"
  proof -
    have i: "scale_up_infos cp groups = Inr (start, free_capacity start)"
      using scale_up_infos_ok [OF size] by (simp add: Let_def start_def rest_def)
    show ?thesis unfolding BalanceScaleUpBetweenGroups_def i rbind_simps prod.case Let_def xs_def [symmetric] ys(1)
      using groups by (simp only: if_False rbind_simps)
  qed
  ultimately show ?thesis using ys(4,5) unfolding rest_def by blast
qed

text \<open>
  C11. The balancing of a scale-up terminates without a panic and is right: as many nodes are added
  as requested, or as the groups have room for; no group is enlarged beyond its maximal size, groups
  at their maximal size are left out and nothing but the size of a group is changed; and the sizes
  are as even as they can be: an enlarged group is at most one node larger than any group that is
  not full.
\<close>

theorem BalanceScaleUpBetweenGroups_correct:
  assumes sort: "sort_ok sort_Slice" and groups: "groups \<noteq> []"
    and size: "\<forall>g \<in> set groups. ng_TargetSize cp g = Inr (size_of g)"
  shows "\<exists>infos. BalanceScaleUpBetweenGroups sort_Slice cp groups newNodes = Inr (filter (\<lambda>x. NewSize x \<noteq> CurrentSize x) infos) \<and>
    mset (map ident infos) = mset (map (\<lambda>g. (g, size_of g, ng_MaxSize cp g)) (filter (\<lambda>g. size_of g \<noteq> ng_MaxSize cp g) groups)) \<and>
    sum_list (map (\<lambda>x. NewSize x - CurrentSize x) infos) =
      max 0 (min newNodes (sum_list (map (\<lambda>g. max 0 (ng_MaxSize cp g - size_of g)) groups))) \<and>
    within_limits infos \<and> balanced infos"
  by (rule balance_scale_up [OF assms])

definition example_groups :: "(string \<times> int \<times> int) node_groups" where
  "example_groups = \<lparr>ng_Id = fst, ng_TargetSize = (\<lambda>g. Inr (fst (snd g))), ng_MaxSize = (\<lambda>g. snd (snd g))\<rparr>"

theorem BalanceScaleUpBetweenGroups_correct_witness:
  "\<exists>infos. BalanceScaleUpBetweenGroups insertionSort example_groups [(''a'', 1, 10), (''b'', 3, 4), (''c'', 2, 10)] 6
       = Inr (filter (\<lambda>x. NewSize x \<noteq> CurrentSize x) infos) \<and>
     sum_list (map (\<lambda>x. NewSize x - CurrentSize x) infos) = 6 \<and> within_limits infos \<and> balanced infos"
  using BalanceScaleUpBetweenGroups_correct [OF insertionSort_ok, of "[(''a'', 1, 10), (''b'', 3, 4), (''c'', 2, 10)]" example_groups "\<lambda>g. fst (snd g)" 6]
  by (auto simp: example_groups_def)

end
