(* ===== verification/Node_State.thy ===== *)
theory Node_State
  imports Balancing
begin

text \<open>
  Nodes and cloud instances as the cluster autoscaler sees them: the readiness of a node
  (\<open>utils/kubernetes/ready.go\<close>, \<open>utils/deletetaint\<close>, \<open>isNodeStillStarting\<close> of \<open>clusterstate\<close>), the data types
  of the cloud provider (\<open>cloudprovider/cloud_provider.go\<close>), which is a parameter, and the cache of its
  instances (\<open>clusterstate/utils/node_instances_cache.go\<close>).
\<close>

section \<open>Nodes\<close>

record NodeCondition =
  cond_Type :: string
  cond_Status :: string
  cond_LastTransitionTime :: time

record Node =
  node_Name :: string
  node_ProviderID :: string
  node_CreationTimestamp :: time
  node_Unschedulable :: bool
  node_Taints :: "string list"
  node_Conditions :: "NodeCondition list"

definition NodeReady :: string where "NodeReady = ''Ready''"
definition NodeDiskPressure :: string where "NodeDiskPressure = ''DiskPressure''"
definition NodeNetworkUnavailable :: string where "NodeNetworkUnavailable = ''NetworkUnavailable''"

definition later :: "time \<Rightarrow> time \<Rightarrow> time" where
  "later t u = (if time_Before t u then u else t)"

definition readiness_step :: "bool \<times> bool \<times> time \<Rightarrow> NodeCondition \<Rightarrow> bool \<times> bool \<times> time" where
  "readiness_step acc cond =
     (let (canNodeBeReady, readyFound, lastTransitionTime) = acc in
      if cond_Type cond = NodeReady
      then (canNodeBeReady \<and> \<not> (cond_Status cond = ''False'' \<or> cond_Status cond = ''Unknown''), True,
            later lastTransitionTime (cond_LastTransitionTime cond))
      else if cond_Type cond = NodeDiskPressure \<or> cond_Type cond = NodeNetworkUnavailable
      then (canNodeBeReady \<and> cond_Status cond \<noteq> ''True'', readyFound, later lastTransitionTime (cond_LastTransitionTime cond))
      else acc)"

definition GetReadinessState :: "Node \<Rightarrow> bool \<times> time \<times> go_error option" where
  "GetReadinessState node =
     (let (canNodeBeReady, readyFound, lastTransitionTime) = foldl readiness_step (True, False, zero_time) (node_Conditions node)
      in if \<not> readyFound then (False, zero_time, Some (Err ''readiness information not found''))
         else (canNodeBeReady, lastTransitionTime, None))"

definition IsNodeReadyAndSchedulable :: "Node \<Rightarrow> bool" where
  "IsNodeReadyAndSchedulable node \<longleftrightarrow> fst (GetReadinessState node) \<and> \<not> node_Unschedulable node"

definition GetUnreadyNodeCopy :: "'z Node_scheme \<Rightarrow> 'z Node_scheme" where
  "GetUnreadyNodeCopy node =
     node\<lparr>node_Conditions := \<lparr>cond_Type = NodeReady, cond_Status = ''False'', cond_LastTransitionTime = node_CreationTimestamp node\<rparr>
            # filter (\<lambda>c. cond_Type c \<noteq> NodeReady) (node_Conditions node)\<rparr>"

definition ToBeDeletedTaint :: string where "ToBeDeletedTaint = ''ToBeDeletedByClusterAutoscaler''"
definition DeletionCandidateTaint :: string where "DeletionCandidateTaint = ''DeletionCandidateOfClusterAutoscaler''"

definition hasTaint :: "Node \<Rightarrow> string \<Rightarrow> bool" where
  "hasTaint node taintKey \<longleftrightarrow> taintKey \<in> set (node_Taints node)"

definition HasToBeDeletedTaint :: "Node \<Rightarrow> bool" where
  "HasToBeDeletedTaint node = hasTaint node ToBeDeletedTaint"

definition HasDeletionCandidateTaint :: "Node \<Rightarrow> bool" where
  "HasDeletionCandidateTaint node = hasTaint node DeletionCandidateTaint"

definition MaxStatusSettingDelayAfterCreation :: duration where "MaxStatusSettingDelayAfterCreation = 2 * minute"

definition isNodeStillStarting :: "Node \<Rightarrow> bool" where
  "isNodeStillStarting node \<longleftrightarrow>
     list_ex (\<lambda>c. (cond_Type c = NodeReady \<and> cond_Status c \<noteq> ''True'' \<or>
                   cond_Type c = NodeDiskPressure \<and> cond_Status c = ''True'' \<or>
                   cond_Type c = NodeNetworkUnavailable \<and> cond_Status c = ''True'') \<and>
                  time_Sub (cond_LastTransitionTime c) (node_CreationTimestamp node) < MaxStatusSettingDelayAfterCreation)
       (node_Conditions node)"

section \<open>The cloud provider\<close>

datatype InstanceState = InstanceRunning | InstanceCreating | InstanceDeleting

record InstanceErrorInfo =
  ErrorClass :: int
  ErrorCode :: string
  ErrorMessage :: string

definition OutOfResourcesErrorClass :: int where "OutOfResourcesErrorClass = 1"
definition OtherErrorClass :: int where "OtherErrorClass = 99"

record InstanceStatus =
  is_State :: InstanceState
  is_ErrorInfo :: "InstanceErrorInfo option"

record Instance =
  inst_Id :: string
  inst_Status :: "InstanceStatus option"

text \<open>
  What the provider answers during one call of an operation: its node groups, and for each the
  instances it lists at the first and at a second attempt; and the group of a node, if any.
\<close>

record 'g cloud_provider = "'g node_groups" +
  cp_NodeGroups :: "'g list"
  ng_MinSize :: "'g \<Rightarrow> int"
  ng_Nodes :: "nat \<Rightarrow> 'g \<Rightarrow> Instance list result"
  cp_NodeGroupForNode :: "Node \<Rightarrow> 'g option \<times> go_error option"

definition fakeNode :: "Instance \<Rightarrow> Node" where
  "fakeNode i =
     \<lparr>node_Name = inst_Id i, node_ProviderID = inst_Id i, node_CreationTimestamp = zero_time, node_Unschedulable = False,
      node_Taints = [], node_Conditions = []\<rparr>"

section \<open>The cache of the instances\<close>

record cacheEntry =
  ce_instances :: "Instance list"
  ce_refreshTime :: time

type_synonym instances_cache = "(string, cacheEntry) gomap"

definition CloudProviderNodeInstancesCacheEntryFreshnessThreshold :: duration where
  "CloudProviderNodeInstancesCacheEntryFreshnessThreshold = 5 * minute"

definition isStale :: "cacheEntry \<Rightarrow> time \<Rightarrow> bool" where
  "isStale e now = time_Before (time_Add (ce_refreshTime e) CloudProviderNodeInstancesCacheEntryFreshnessThreshold) now"

definition removeEntriesForNonExistingNodeGroupsLocked :: "'g cloud_provider \<Rightarrow> instances_cache \<Rightarrow> instances_cache" where
  "removeEntriesForNonExistingNodeGroupsLocked cp cache =
     filter (\<lambda>(i, e). i \<in> set (map (ng_Id cp) (cp_NodeGroups cp))) cache"

definition fetchCloudProviderNodeInstancesForNodeGroup ::
    "'g cloud_provider \<Rightarrow> nat \<Rightarrow> time \<Rightarrow> 'g \<Rightarrow> instances_cache \<Rightarrow> Instance list result \<times> instances_cache" where
  "fetchCloudProviderNodeInstancesForNodeGroup cp attempt now g cache =
     (case ng_Nodes cp attempt g of
        Inl e \<Rightarrow> (Inl e, cache)
      | Inr is \<Rightarrow> (Inr is, AList.update (ng_Id cp g) \<lparr>ce_instances = is, ce_refreshTime = now\<rparr> cache))"

definition GetCloudProviderNodeInstancesForNodeGroup ::
    "'g cloud_provider \<Rightarrow> time \<Rightarrow> 'g \<Rightarrow> instances_cache \<Rightarrow> Instance list result \<times> instances_cache" where
  "GetCloudProviderNodeInstancesForNodeGroup cp now g cache =
     (case map_of cache (ng_Id cp g) of
        Some e \<Rightarrow> (Inr (ce_instances e), cache)
      | None \<Rightarrow> fetchCloudProviderNodeInstancesForNodeGroup cp 1 now g cache)"

text \<open>The concurrent fetches of the missing entries write an entry each; they are taken in turn.\<close>

definition fetch_missing :: "'g cloud_provider \<Rightarrow> time \<Rightarrow> instances_cache \<Rightarrow> instances_cache" where
  "fetch_missing cp now cache =
     foldl (\<lambda>c g. if map_of cache (ng_Id cp g) = None then snd (fetchCloudProviderNodeInstancesForNodeGroup cp 0 now g c) else c)
       cache (cp_NodeGroups cp)"

fun collect_instances ::
    "'g cloud_provider \<Rightarrow> time \<Rightarrow> 'g list \<Rightarrow> (string, Instance list) gomap \<Rightarrow> instances_cache \<Rightarrow>
     (string, Instance list) gomap result \<times> instances_cache" where
  "collect_instances cp now [] results cache = (Inr results, cache)"
| "collect_instances cp now (g # gs) results cache =
     (case GetCloudProviderNodeInstancesForNodeGroup cp now g cache of
        (Inl e, cache') \<Rightarrow> (Inl e, cache')
      | (Inr is, cache') \<Rightarrow> collect_instances cp now gs (AList.update (ng_Id cp g) is results) cache')"

definition GetCloudProviderNodeInstances ::
    "'g cloud_provider \<Rightarrow> time \<Rightarrow> instances_cache \<Rightarrow> (string, Instance list) gomap result \<times> instances_cache" where
  "GetCloudProviderNodeInstances cp now cache = collect_instances cp now (cp_NodeGroups cp) [] (fetch_missing cp now cache)"

definition InvalidateCacheEntry :: "'g cloud_provider \<Rightarrow> 'g \<Rightarrow> instances_cache \<Rightarrow> instances_cache" where
  "InvalidateCacheEntry cp g cache = AList.delete (ng_Id cp g) cache"

text \<open>A failure is logged, and the nil list of instances is stored all the same.\<close>

definition cache_Refresh :: "'g cloud_provider \<Rightarrow> time \<Rightarrow> instances_cache \<Rightarrow> instances_cache" where
  "cache_Refresh cp now cache =
     foldl (\<lambda>c g. AList.update (ng_Id cp g)
              \<lparr>ce_instances = (case ng_Nodes cp 0 g of Inr is \<Rightarrow> is | Inl _ \<Rightarrow> []), ce_refreshTime = now\<rparr> c)
       (removeEntriesForNonExistingNodeGroupsLocked cp cache) (cp_NodeGroups cp)"

end
