(* ===== verification/Backoff.thy ===== *)
theory Backoff
  imports Go_Prelude
begin

text \<open>
  Exponential backoff of node groups (\<open>cluster-autoscaler/utils/backoff/exponential_backoff.go\<close>). What
  the users of the interface \<open>Backoff\<close> may rely on is a locale, interpreted on the exponential
  backoff. The node info, error class and error code that the interface passes are not used by this
  implementation.
\<close>

section \<open>Exponential backoff\<close>

record exponentialBackoffInfo =
  bo_duration :: duration
  backoffUntil :: time
  lastFailedExecution :: time

record exponentialBackoff =
  maxBackoffDuration :: duration
  initialBackoffDuration :: duration
  backoffResetTimeout :: duration
  backoffInfo :: "(string, exponentialBackoffInfo) gomap"

definition NewExponentialBackoff :: "duration \<Rightarrow> duration \<Rightarrow> duration \<Rightarrow> exponentialBackoff" where
  "NewExponentialBackoff initial maximal resetTimeout =
     \<lparr>maxBackoffDuration = maximal, initialBackoffDuration = initial, backoffResetTimeout = resetTimeout, backoffInfo = []\<rparr>"

definition next_duration :: "exponentialBackoff \<Rightarrow> string \<Rightarrow> time \<Rightarrow> duration" where
  "next_duration b key currentTime =
     (case map_of (backoffInfo b) key of
        None \<Rightarrow> initialBackoffDuration b
      | Some info \<Rightarrow>
          if time_Before (backoffUntil info) currentTime
          then let d = wrap64 (2 * bo_duration info) in if d > maxBackoffDuration b then maxBackoffDuration b else d
          else bo_duration info)"

definition exp_Backoff :: "exponentialBackoff \<Rightarrow> string \<Rightarrow> time \<Rightarrow> time \<times> exponentialBackoff" where
  "exp_Backoff b key currentTime =
     (let d = next_duration b key currentTime; u = time_Add currentTime d
      in (u, b\<lparr>backoffInfo := AList.update key
                 \<lparr>bo_duration = d, backoffUntil = u, lastFailedExecution = currentTime\<rparr> (backoffInfo b)\<rparr>))"

definition IsBackedOff :: "exponentialBackoff \<Rightarrow> string \<Rightarrow> time \<Rightarrow> bool" where
  "IsBackedOff b key currentTime =
     (case map_of (backoffInfo b) key of None \<Rightarrow> False | Some info \<Rightarrow> time_After (backoffUntil info) currentTime)"

definition RemoveBackoff :: "exponentialBackoff \<Rightarrow> string \<Rightarrow> exponentialBackoff" where
  "RemoveBackoff b key = b\<lparr>backoffInfo := AList.delete key (backoffInfo b)\<rparr>"

definition RemoveStaleBackoffData :: "exponentialBackoff \<Rightarrow> time \<Rightarrow> exponentialBackoff" where
  "RemoveStaleBackoffData b currentTime =
     b\<lparr>backoffInfo := filter (\<lambda>(key, info). \<not> time_Before (time_Add (lastFailedExecution info) (backoffResetTimeout b)) currentTime)
         (backoffInfo b)\<rparr>"

section \<open>The interface\<close>

text \<open>
  After a failure a group is backed off until the returned time and no longer; the other groups are
  not affected; a success ends the backoff; removing stale data never ends a backoff that still runs.
\<close>

locale group_backoff =
  fixes fail :: "'b \<Rightarrow> string \<Rightarrow> time \<Rightarrow> time \<times> 'b"
    and backed_off :: "'b \<Rightarrow> string \<Rightarrow> time \<Rightarrow> bool"
    and succeed :: "'b \<Rightarrow> string \<Rightarrow> 'b"
    and drop_stale :: "'b \<Rightarrow> time \<Rightarrow> 'b"
    and ok :: "'b \<Rightarrow> bool"
  assumes fail: "ok b \<Longrightarrow> fail b k t = (u, b') \<Longrightarrow>
      ok b' \<and> t < u \<and> (\<forall>t'. backed_off b' k t' \<longleftrightarrow> t' < u) \<and> (\<forall>j t'. j \<noteq> k \<longrightarrow> backed_off b' j t' = backed_off b j t')"
    and succeed: "ok b \<Longrightarrow> ok (succeed b k) \<and> \<not> backed_off (succeed b k) k t \<and>
      (\<forall>j t'. j \<noteq> k \<longrightarrow> backed_off (succeed b k) j t' = backed_off b j t')"
    and drop_stale: "ok b \<Longrightarrow> ok (drop_stale b t) \<and> (\<forall>j t'. t \<le> t' \<longrightarrow> backed_off (drop_stale b t) j t' = backed_off b j t')"
begin

text \<open>A failure is remembered through every event that is not about the same group.\<close>

lemma fail_then_others:
  assumes "ok b" "fail b k t = (u, b1)" "j \<noteq> k" "t' < u"
  shows "backed_off (snd (fail b1 j s)) k t' \<and> backed_off (succeed b1 j) k t'"
proof -
  have b1: "ok b1" "backed_off b1 k t'" using fail [OF assms(1,2)] assms(4) by auto
  obtain u2 b2 where b2: "fail b1 j s = (u2, b2)" by (cases "fail b1 j s")
  then show ?thesis using fail [OF b1(1) b2] succeed [OF b1(1), of j] assms(3) b1(2) by auto
qed

end

definition info_ok :: "exponentialBackoff \<Rightarrow> exponentialBackoffInfo \<Rightarrow> bool" where
  "info_ok b info \<longleftrightarrow> initialBackoffDuration b \<le> bo_duration info \<and> bo_duration info \<le> maxBackoffDuration b \<and>
     backoffUntil info = lastFailedExecution info + bo_duration info"

definition backoff_ok :: "exponentialBackoff \<Rightarrow> bool" where
  "backoff_ok b \<longleftrightarrow> 0 < initialBackoffDuration b \<and> initialBackoffDuration b \<le> maxBackoffDuration b \<and>
     maxBackoffDuration b \<le> backoffResetTimeout b \<and> maxBackoffDuration b < 2 ^ 62 \<and>
     gomap_ok (backoffInfo b) \<and> (\<forall>(k, info) \<in> set (backoffInfo b). info_ok b info)"

lemma backoff_ok_lookup: "backoff_ok b \<Longrightarrow> map_of (backoffInfo b) k = Some info \<Longrightarrow> info_ok b info"
  unfolding backoff_ok_def using map_of_SomeD [of "backoffInfo b" k info] by blast

lemma next_duration_bounds:
  assumes "backoff_ok b"
  shows "initialBackoffDuration b \<le> next_duration b k t \<and> next_duration b k t \<le> maxBackoffDuration b"
proof (cases "map_of (backoffInfo b) k")
  case None
  then show ?thesis using assms by (simp add: next_duration_def backoff_ok_def)
next
  case (Some info)
  have i: "info_ok b info" by (rule backoff_ok_lookup [OF assms Some])
  have "0 < bo_duration info" "bo_duration info < 2 ^ 62" using i assms by (auto simp: info_ok_def backoff_ok_def)
  then have "wrap64 (2 * bo_duration info) = 2 * bo_duration info"
    by (intro wrap64_id) (simp add: in_int64_def int64_min_def int64_max_def)
  then show ?thesis using Some i assms by (auto simp: next_duration_def info_ok_def backoff_ok_def Let_def)
qed

lemma info_ok_cong:
  "maxBackoffDuration b' = maxBackoffDuration b \<Longrightarrow> initialBackoffDuration b' = initialBackoffDuration b \<Longrightarrow> info_ok b' = info_ok b"
  by (simp add: info_ok_def fun_eq_iff)

lemma exp_Backoff_ok:
  assumes "backoff_ok b"
  shows "backoff_ok (snd (exp_Backoff b k t))"
proof -
  define i where "i = \<lparr>bo_duration = next_duration b k t, backoffUntil = time_Add t (next_duration b k t), lastFailedExecution = t\<rparr>"
  have "info_ok b i" using next_duration_bounds [OF assms, of k t] by (simp add: i_def info_ok_def time_Add_def)
  then show ?thesis using assms set_AList_update [of k i "backoffInfo b"]
    by (fastforce simp: exp_Backoff_def Let_def i_def [symmetric] backoff_ok_def info_ok_def)
qed

interpretation exponential: group_backoff exp_Backoff IsBackedOff RemoveBackoff RemoveStaleBackoffData backoff_ok
proof (unfold_locales, goal_cases)
  case (1 b k t u b')
  have "backoff_ok b'" using exp_Backoff_ok [OF 1(1), of k t] 1(2) by simp
  moreover have "t < u" using 1(2) next_duration_bounds [OF 1(1), of k t] 1(1)
    by (auto simp: exp_Backoff_def Let_def time_Add_def backoff_ok_def)
  ultimately show ?case using 1(2) by (auto simp: exp_Backoff_def Let_def IsBackedOff_def update_conv' time_After_def)
next
  case (2 b k t)
  have "backoff_ok (RemoveBackoff b k)"
    using 2 set_AList_delete [of k "backoffInfo b"] unfolding backoff_ok_def RemoveBackoff_def by (fastforce simp: info_ok_def)
  then show ?case by (auto simp: IsBackedOff_def RemoveBackoff_def delete_conv')
next
  case (3 b t)
  let ?keep = "\<lambda>(key :: string, info). \<not> time_Before (time_Add (lastFailedExecution info) (backoffResetTimeout b)) t"
  have g: "gomap_ok (backoffInfo b)" using 3 by (simp add: backoff_ok_def)
  note f = map_of_filter_ok [OF g, of ?keep]
  have ok: "backoff_ok (RemoveStaleBackoffData b t)"
    using 3 f by (auto simp: backoff_ok_def RemoveStaleBackoffData_def info_ok_def)
  have "IsBackedOff (RemoveStaleBackoffData b t) j t' = IsBackedOff b j t'" if "t \<le> t'" for j t'
  proof (cases "map_of (backoffInfo b) j")
    case None
    then show ?thesis using f [of j] by (simp add: IsBackedOff_def RemoveStaleBackoffData_def)
  next
    case (Some info)
    have i: "info_ok b info" by (rule backoff_ok_lookup [OF 3 Some])
    have "\<not> t' < backoffUntil info" if "\<not> ?keep (j, info)"
      using that \<open>t \<le> t'\<close> i 3 by (auto simp: info_ok_def backoff_ok_def time_Before_def time_Add_def)
    then show ?thesis using f [of j] Some by (auto simp: IsBackedOff_def RemoveStaleBackoffData_def time_After_def)
  qed
  then show ?case using ok by blast
qed

end
