(* ===== verification/Cluster_Registry.thy ===== *)
theory Cluster_Registry
  imports Node_State Backoff Go_Strings
begin

text \<open>
  The cluster state registry of the cluster autoscaler (\<open>clusterstate/clusterstate.go\<close>): what it knows
  about the nodes of every node group, the scale-ups and scale-downs under way, which sizes are
  acceptable, and whether a group may be scaled up. The cloud provider is a parameter of each call,
  the backoff is the exponential one. Metrics, log messages and events are left out; the node infos
  of the groups are only handed to the backoff, which does not read them.
\<close>

section \<open>State\<close>

definition MaxNodeStartupTime :: duration where "MaxNodeStartupTime = 15 * minute"
definition MaxNodeGroupBackoffDuration :: duration where "MaxNodeGroupBackoffDuration = 30 * minute"
definition InitialNodeGroupBackoffDuration :: duration where "InitialNodeGroupBackoffDuration = 5 * minute"
definition NodeGroupBackoffResetTimeout :: duration where "NodeGroupBackoffResetTimeout = 3 * hour"

text \<open>The backoff the autoscaler is built with (\<open>core/autoscaler.go\<close>).\<close>

definition default_backoff :: exponentialBackoff where
  "default_backoff =
     NewExponentialBackoff InitialNodeGroupBackoffDuration MaxNodeGroupBackoffDuration NodeGroupBackoffResetTimeout"

lemma default_backoff_ok: "backoff_ok default_backoff"
  by (simp add: default_backoff_def NewExponentialBackoff_def backoff_ok_def InitialNodeGroupBackoffDuration_def
      MaxNodeGroupBackoffDuration_def NodeGroupBackoffResetTimeout_def hour_def minute_def second_def)

record 'g ScaleUpRequest =
  sur_NodeGroup :: 'g
  sur_Time :: time
  ExpectedAddTime :: time
  Increase :: int

record 'g ScaleDownRequest =
  sdr_NodeName :: string
  sdr_NodeGroup :: 'g
  sdr_Time :: time
  ExpectedDeleteTime :: time

record ClusterStateRegistryConfig =
  MaxTotalUnreadyPercentage :: float64
  OkTotalUnreadyCount :: int
  MaxNodeProvisionTime :: duration

record IncorrectNodeGroupSize =
  ExpectedSize :: int
  inc_CurrentSize :: int
  FirstObserved :: time

record UnregisteredNode =
  un_Node :: Node
  UnregisteredSince :: time

record 'g ScaleUpFailure =
  suf_NodeGroup :: 'g
  suf_Reason :: string
  suf_Time :: time

record AcceptableRange =
  MinNodes :: int
  MaxNodes :: int
  CurrentTarget :: int

record Readiness =
  Ready :: int
  Unready :: int
  Deleted :: int
  LongNotStarted :: int
  NotStarted :: int
  Registered :: int
  LongUnregistered :: int
  Unregistered :: int
  rd_Time :: time

definition no_Readiness :: Readiness where
  "no_Readiness = \<lparr>Ready = 0, Unready = 0, Deleted = 0, LongNotStarted = 0, NotStarted = 0, Registered = 0,
     LongUnregistered = 0, Unregistered = 0, rd_Time = zero_time\<rparr>"

definition no_AcceptableRange :: AcceptableRange where
  "no_AcceptableRange = \<lparr>MinNodes = 0, MaxNodes = 0, CurrentTarget = 0\<rparr>"

record 'g ClusterStateRegistry =
  csr_config :: ClusterStateRegistryConfig
  scaleUpRequests :: "(string, 'g ScaleUpRequest) gomap"
  scaleDownRequests :: "'g ScaleDownRequest list"
  csr_nodes :: "Node list"
  perNodeGroupReadiness :: "(string, Readiness) gomap"
  totalReadiness :: Readiness
  acceptableRanges :: "(string, AcceptableRange) gomap"
  incorrectNodeGroupSizes :: "(string, IncorrectNodeGroupSize) gomap"
  unregisteredNodes :: "(string, UnregisteredNode) gomap"
  candidatesForScaleDown :: "(string, string list) gomap"
  csr_backoff :: exponentialBackoff
  lastScaleDownUpdateTime :: time
  cloudProviderNodeInstances :: "(string, Instance list) gomap"
  previousCloudProviderNodeInstances :: "(string, Instance list) gomap"
  instancesCache :: instances_cache
  scaleUpFailures :: "(string, 'g ScaleUpFailure list) gomap"

definition NewClusterStateRegistry :: "ClusterStateRegistryConfig \<Rightarrow> exponentialBackoff \<Rightarrow> 'g ClusterStateRegistry" where
  "NewClusterStateRegistry config backoff =
     \<lparr>csr_config = config, scaleUpRequests = [], scaleDownRequests = [], csr_nodes = [], perNodeGroupReadiness = [],
      totalReadiness = no_Readiness, acceptableRanges = [], incorrectNodeGroupSizes = [], unregisteredNodes = [],
      candidatesForScaleDown = [], csr_backoff = backoff, lastScaleDownUpdateTime = zero_time,
      cloudProviderNodeInstances = [], previousCloudProviderNodeInstances = [], instancesCache = [], scaleUpFailures = []\<rparr>"

section \<open>Scale requests\<close>

definition RegisterOrUpdateScaleUp ::
    "'g cloud_provider \<Rightarrow> 'g \<Rightarrow> int \<Rightarrow> time \<Rightarrow> 'g ClusterStateRegistry \<Rightarrow> 'g ClusterStateRegistry" where
  "RegisterOrUpdateScaleUp cp nodeGroup delta currentTime csr =
     (let key = ng_Id cp nodeGroup; addTime = time_Add currentTime (MaxNodeProvisionTime (csr_config csr)) in
      case map_of (scaleUpRequests csr) key of
        None \<Rightarrow>
          if delta > 0
          then csr\<lparr>scaleUpRequests := AList.update key
                 \<lparr>sur_NodeGroup = nodeGroup, sur_Time = currentTime, ExpectedAddTime = addTime, Increase = delta\<rparr> (scaleUpRequests csr)\<rparr>
          else csr
      | Some r \<Rightarrow>
          if Increase r + delta \<le> 0 then csr\<lparr>scaleUpRequests := AList.delete key (scaleUpRequests csr)\<rparr>
          else let r1 = r\<lparr>Increase := Increase r + delta\<rparr>;
                   r2 = (if delta > 0 then r1\<lparr>sur_Time := currentTime, ExpectedAddTime := addTime\<rparr> else r1)
               in csr\<lparr>scaleUpRequests := AList.update key r2 (scaleUpRequests csr)\<rparr>)"

definition RegisterScaleDown :: "'g ScaleDownRequest \<Rightarrow> 'g ClusterStateRegistry \<Rightarrow> 'g ClusterStateRegistry" where
  "RegisterScaleDown request csr = csr\<lparr>scaleDownRequests := scaleDownRequests csr @ [request]\<rparr>"

definition backoffNodeGroup :: "'g cloud_provider \<Rightarrow> 'g \<Rightarrow> time \<Rightarrow> 'g ClusterStateRegistry \<Rightarrow> 'g ClusterStateRegistry" where
  "backoffNodeGroup cp nodeGroup currentTime csr =
     csr\<lparr>csr_backoff := snd (exp_Backoff (csr_backoff csr) (ng_Id cp nodeGroup) currentTime)\<rparr>"

definition RegisterFailedScaleUp ::
    "'g cloud_provider \<Rightarrow> 'g \<Rightarrow> string \<Rightarrow> time \<Rightarrow> 'g ClusterStateRegistry \<Rightarrow> 'g ClusterStateRegistry" where
  "RegisterFailedScaleUp cp nodeGroup reason currentTime csr =
     backoffNodeGroup cp nodeGroup currentTime
       (csr\<lparr>scaleUpFailures := AList.update (ng_Id cp nodeGroup)
              (lookup_default [] (scaleUpFailures csr) (ng_Id cp nodeGroup)
                 @ [\<lparr>suf_NodeGroup = nodeGroup, suf_Reason = reason, suf_Time = currentTime\<rparr>]) (scaleUpFailures csr)\<rparr>)"

definition getProvisionedAndTargetSizesForNodeGroup :: "'g ClusterStateRegistry \<Rightarrow> string \<Rightarrow> (int \<times> int) option" where
  "getProvisionedAndTargetSizesForNodeGroup csr nodeGroupName =
     (if length (acceptableRanges csr) = 0 then None
      else case map_of (acceptableRanges csr) nodeGroupName of
        None \<Rightarrow> None
      | Some acceptable \<Rightarrow> (case map_of (perNodeGroupReadiness csr) nodeGroupName of
            None \<Rightarrow> Some (0, CurrentTarget acceptable)
          | Some r \<Rightarrow> Some (Registered r - NotStarted r - LongNotStarted r, CurrentTarget acceptable)))"

definition areThereUpcomingNodesInNodeGroup :: "'g ClusterStateRegistry \<Rightarrow> string \<Rightarrow> bool" where
  "areThereUpcomingNodesInNodeGroup csr name =
     (case getProvisionedAndTargetSizesForNodeGroup csr name of None \<Rightarrow> False | Some (provisioned, target) \<Rightarrow> target > provisioned)"

definition IsNodeGroupAtTargetSize :: "'g ClusterStateRegistry \<Rightarrow> string \<Rightarrow> bool" where
  "IsNodeGroupAtTargetSize csr name =
     (case getProvisionedAndTargetSizesForNodeGroup csr name of None \<Rightarrow> False | Some (provisioned, target) \<Rightarrow> target = provisioned)"

definition IsNodeGroupScalingUp :: "'g ClusterStateRegistry \<Rightarrow> string \<Rightarrow> bool" where
  "IsNodeGroupScalingUp csr name \<longleftrightarrow>
     areThereUpcomingNodesInNodeGroup csr name \<and> map_of (scaleUpRequests csr) name \<noteq> None"

definition update_request ::
    "'g cloud_provider \<Rightarrow> time \<Rightarrow> 'g ClusterStateRegistry \<Rightarrow> string \<times> 'g ScaleUpRequest \<Rightarrow> 'g ClusterStateRegistry" where
  "update_request cp currentTime csr entry =
     (let (name, r) = entry in
      if \<not> areThereUpcomingNodesInNodeGroup csr name
      then csr\<lparr>scaleUpRequests := AList.delete name (scaleUpRequests csr),
               csr_backoff := RemoveBackoff (csr_backoff csr) (ng_Id cp (sur_NodeGroup r))\<rparr>
      else if time_Before (ExpectedAddTime r) currentTime
      then (let csr1 = RegisterFailedScaleUp cp (sur_NodeGroup r) ''timeout'' currentTime csr
            in csr1\<lparr>scaleUpRequests := AList.delete name (scaleUpRequests csr1)\<rparr>)
      else csr)"

definition updateScaleRequests :: "'g cloud_provider \<Rightarrow> time \<Rightarrow> 'g ClusterStateRegistry \<Rightarrow> 'g ClusterStateRegistry" where
  "updateScaleRequests cp currentTime csr =
     (let csr1 = csr\<lparr>csr_backoff := RemoveStaleBackoffData (csr_backoff csr) currentTime\<rparr>;
          csr2 = foldl (update_request cp currentTime) csr1 (scaleUpRequests csr1)
      in csr2\<lparr>scaleDownRequests := filter (\<lambda>r. time_After (ExpectedDeleteTime r) currentTime) (scaleDownRequests csr2)\<rparr>)"

section \<open>Acceptable ranges and readiness\<close>

fun target_sizes :: "'g cloud_provider \<Rightarrow> 'g list \<Rightarrow> (string, int) gomap \<Rightarrow> (string, int) gomap result" where
  "target_sizes cp [] result = Inr result"
| "target_sizes cp (ng # ngs) result =
     (case ng_TargetSize cp ng of Inl e \<Rightarrow> Inl e | Inr sz \<Rightarrow> target_sizes cp ngs (AList.update (ng_Id cp ng) sz result))"

definition getTargetSizes :: "'g cloud_provider \<Rightarrow> (string, int) gomap result" where
  "getTargetSizes cp = target_sizes cp (cp_NodeGroups cp) []"

definition updateAcceptableRanges ::
    "'g cloud_provider \<Rightarrow> (string, int) gomap \<Rightarrow> 'g ClusterStateRegistry \<Rightarrow> 'g ClusterStateRegistry" where
  "updateAcceptableRanges cp targetSize csr =
     (let r1 = foldl (\<lambda>m ng. let size = lookup_default 0 targetSize (ng_Id cp ng);
                                 readiness = lookup_default no_Readiness (perNodeGroupReadiness csr) (ng_Id cp ng)
                             in AList.update (ng_Id cp ng)
                                  \<lparr>MinNodes = size - LongUnregistered readiness, MaxNodes = size, CurrentTarget = size\<rparr> m)
                 [] (cp_NodeGroups cp);
          r2 = foldl (\<lambda>m (name, request). let a = lookup_default no_AcceptableRange m name
                                          in AList.update name (a\<lparr>MinNodes := MinNodes a - Increase request\<rparr>) m)
                 r1 (scaleUpRequests csr);
          r3 = foldl (\<lambda>m request. let name = ng_Id cp (sdr_NodeGroup request); a = lookup_default no_AcceptableRange m name
                                  in AList.update name (a\<lparr>MaxNodes := MaxNodes a + 1\<rparr>) m)
                 r2 (scaleDownRequests csr)
      in csr\<lparr>acceptableRanges := r3\<rparr>)"

definition update_readiness :: "time \<Rightarrow> Node \<Rightarrow> bool \<Rightarrow> Readiness \<Rightarrow> Readiness" where
  "update_readiness currentTime node ready current =
     (let c = current\<lparr>Registered := Registered current + 1\<rparr> in
      if HasToBeDeletedTaint node then c\<lparr>Deleted := Deleted c + 1\<rparr>
      else if isNodeStillStarting node \<and> time_Before (time_Add (node_CreationTimestamp node) MaxNodeStartupTime) currentTime
      then c\<lparr>LongNotStarted := LongNotStarted c + 1\<rparr>
      else if isNodeStillStarting node then c\<lparr>NotStarted := NotStarted c + 1\<rparr>
      else if ready then c\<lparr>Ready := Ready c + 1\<rparr>
      else c\<lparr>Unready := Unready c + 1\<rparr>)"

definition count_node ::
    "'g cloud_provider \<Rightarrow> time \<Rightarrow> (string, Readiness) gomap \<times> Readiness \<Rightarrow> Node \<Rightarrow> (string, Readiness) gomap \<times> Readiness" where
  "count_node cp currentTime acc node =
     (let (perNodeGroup, total) = acc; ready = fst (GetReadinessState node)
      in (case fst (cp_NodeGroupForNode cp node) of
            None \<Rightarrow> perNodeGroup
          | Some g \<Rightarrow> AList.update (ng_Id cp g)
                (update_readiness currentTime node ready (lookup_default no_Readiness perNodeGroup (ng_Id cp g))) perNodeGroup,
          update_readiness currentTime node ready total))"

definition count_unregistered ::
    "'g cloud_provider \<Rightarrow> duration \<Rightarrow> time \<Rightarrow> (string, Readiness) gomap \<times> Readiness \<Rightarrow> UnregisteredNode \<Rightarrow> (string, Readiness) gomap \<times> Readiness" where
  "count_unregistered cp provisionTime currentTime acc u =
     (let (perNodeGroup, total) = acc in
      case cp_NodeGroupForNode cp (un_Node u) of
        (Some g, None) \<Rightarrow>
          let copy = lookup_default no_Readiness perNodeGroup (ng_Id cp g) in
          if time_Before (time_Add (UnregisteredSince u) provisionTime) currentTime
          then (AList.update (ng_Id cp g) (copy\<lparr>LongUnregistered := LongUnregistered copy + 1\<rparr>) perNodeGroup,
                total\<lparr>LongUnregistered := LongUnregistered total + 1\<rparr>)
          else (AList.update (ng_Id cp g) (copy\<lparr>Unregistered := Unregistered copy + 1\<rparr>) perNodeGroup,
                total\<lparr>Unregistered := Unregistered total + 1\<rparr>)
      | _ \<Rightarrow> acc)"

definition updateReadinessStats :: "'g cloud_provider \<Rightarrow> time \<Rightarrow> 'g ClusterStateRegistry \<Rightarrow> 'g ClusterStateRegistry" where
  "updateReadinessStats cp currentTime csr =
     (let acc1 = foldl (count_node cp currentTime) ([], no_Readiness\<lparr>rd_Time := currentTime\<rparr>) (csr_nodes csr);
          (perNodeGroup, total) = foldl (count_unregistered cp (MaxNodeProvisionTime (csr_config csr)) currentTime) acc1
                                    (map snd (unregisteredNodes csr))
      in csr\<lparr>perNodeGroupReadiness := map_values (\<lambda>_ r. r\<lparr>rd_Time := currentTime\<rparr>) perNodeGroup, totalReadiness := total\<rparr>)"

definition updateIncorrectNodeGroupSizes :: "'g cloud_provider \<Rightarrow> time \<Rightarrow> 'g ClusterStateRegistry \<Rightarrow> 'g ClusterStateRegistry" where
  "updateIncorrectNodeGroupSizes cp currentTime csr =
     (let result = foldl (\<lambda>m ng. let key = ng_Id cp ng in
            case (map_of (acceptableRanges csr) key, map_of (perNodeGroupReadiness csr) key) of
              (Some a, Some r) \<Rightarrow>
                if Registered r > MaxNodes a \<or> Registered r < MinNodes a
                then let incorrect = \<lparr>ExpectedSize = CurrentTarget a, inc_CurrentSize = Registered r, FirstObserved = currentTime\<rparr>
                     in AList.update key
                          (case map_of (incorrectNodeGroupSizes csr) key of
                             Some existing \<Rightarrow>
                               if inc_CurrentSize incorrect = inc_CurrentSize existing \<and> ExpectedSize incorrect = ExpectedSize existing
                               then existing else incorrect
                           | None \<Rightarrow> incorrect) m
                else m
            | _ \<Rightarrow> m) [] (cp_NodeGroups cp)
      in csr\<lparr>incorrectNodeGroupSizes := result\<rparr>)"

definition updateUnregisteredNodes :: "UnregisteredNode list \<Rightarrow> 'g ClusterStateRegistry \<Rightarrow> 'g ClusterStateRegistry" where
  "updateUnregisteredNodes nodes csr =
     csr\<lparr>unregisteredNodes := foldl (\<lambda>m u. AList.update (node_Name (un_Node u))
            (case map_of (unregisteredNodes csr) (node_Name (un_Node u)) of Some prev \<Rightarrow> prev | None \<Rightarrow> u) m) [] nodes\<rparr>"

definition getNotRegisteredNodes ::
    "Node list \<Rightarrow> (string, Instance list) gomap \<Rightarrow> time \<Rightarrow> UnregisteredNode list" where
  "getNotRegisteredNodes allNodes instances now =
     map (\<lambda>i. \<lparr>un_Node = fakeNode i, UnregisteredSince = now\<rparr>)
       (filter (\<lambda>i. inst_Id i \<notin> set (map node_ProviderID allNodes)) (concat (map snd instances)))"

definition UpdateScaleDownCandidates ::
    "'g cloud_provider \<Rightarrow> Node list \<Rightarrow> time \<Rightarrow> 'g ClusterStateRegistry \<Rightarrow> 'g ClusterStateRegistry" where
  "UpdateScaleDownCandidates cp nodes now csr =
     csr\<lparr>candidatesForScaleDown := foldl (\<lambda>m node. case cp_NodeGroupForNode cp node of
              (Some g, None) \<Rightarrow> AList.update (ng_Id cp g) (lookup_default [] m (ng_Id cp g) @ [node_Name node]) m
            | _ \<Rightarrow> m) [] nodes,
         lastScaleDownUpdateTime := now\<rparr>"

section \<open>Instances that could not be created\<close>

record errorCode =
  code :: string
  class_of :: int

definition creation_error :: "Instance \<Rightarrow> (errorCode \<times> string) option" where
  "creation_error i =
     (case inst_Status i of
        Some st \<Rightarrow> (case is_ErrorInfo st of
            Some e \<Rightarrow> if is_State st = InstanceCreating then Some (\<lparr>code = ErrorCode e, class_of = ErrorClass e\<rparr>, ErrorMessage e) else None
          | None \<Rightarrow> None)
      | None \<Rightarrow> None)"

text \<open>
  The code of each failed instance, the messages of each code without repetition, and the instances
  of each code.
\<close>

definition add_instance_error ::
    "(string, errorCode) gomap \<times> (errorCode, string list) gomap \<times> (errorCode, Instance list) gomap \<Rightarrow> Instance \<Rightarrow>
     (string, errorCode) gomap \<times> (errorCode, string list) gomap \<times> (errorCode, Instance list) gomap" where
  "add_instance_error acc i =
     (case creation_error i of
        None \<Rightarrow> acc
      | Some (ec, msg) \<Rightarrow>
          let (codes, messages, instances) = acc; known = lookup_default [] messages ec
          in (AList.update (inst_Id i) ec codes,
              AList.update ec (if msg \<in> set known then known else known @ [msg]) messages,
              AList.update ec (lookup_default [] instances ec @ [i]) instances))"

definition buildInstanceToErrorCodeMappings ::
    "Instance list \<Rightarrow> (string, errorCode) gomap \<times> (errorCode, string list) gomap \<times> (errorCode, Instance list) gomap" where
  "buildInstanceToErrorCodeMappings instances = foldl add_instance_error ([], [], []) instances"

fun join_messages :: "string list \<Rightarrow> string" where
  "join_messages [] = []"
| "join_messages [m] = m"
| "join_messages (m # ms) = m @ '', '' @ join_messages ms"

definition buildErrorMessageEventString :: "string list \<Rightarrow> string" where
  "buildErrorMessageEventString msgs = join_messages msgs @ (if length msgs > 3 then '', ...'' else [])"

definition handle_error_code ::
    "'g cloud_provider \<Rightarrow> 'g \<Rightarrow> (string, errorCode) gomap \<Rightarrow> time \<Rightarrow> 'g ClusterStateRegistry \<Rightarrow> errorCode \<times> Instance list \<Rightarrow> 'g ClusterStateRegistry" where
  "handle_error_code cp nodeGroup previous currentTime csr entry =
     (let (ec, instances) = entry; unseen = filter (\<lambda>i. map_of previous (inst_Id i) = None) instances in
      if length unseen > 0 \<and> IsNodeGroupScalingUp csr (ng_Id cp nodeGroup)
      then RegisterFailedScaleUp cp nodeGroup (code ec) currentTime
             (RegisterOrUpdateScaleUp cp nodeGroup (- int (length unseen)) currentTime csr)
      else csr)"

definition handleInstanceCreationErrorsForNodeGroup ::
    "'g cloud_provider \<Rightarrow> 'g \<Rightarrow> Instance list \<Rightarrow> Instance list \<Rightarrow> time \<Rightarrow> 'g ClusterStateRegistry \<Rightarrow> 'g ClusterStateRegistry" where
  "handleInstanceCreationErrorsForNodeGroup cp nodeGroup currentInstances previousInstances currentTime csr =
     (let (_, _, errorCodeToInstance) = buildInstanceToErrorCodeMappings currentInstances;
          (previous, _, _) = buildInstanceToErrorCodeMappings previousInstances
      in foldl (handle_error_code cp nodeGroup previous currentTime) csr errorCodeToInstance)"

definition handleInstanceCreationErrors :: "'g cloud_provider \<Rightarrow> time \<Rightarrow> 'g ClusterStateRegistry \<Rightarrow> 'g ClusterStateRegistry" where
  "handleInstanceCreationErrors cp currentTime csr =
     foldl (\<lambda>c ng. handleInstanceCreationErrorsForNodeGroup cp ng
              (lookup_default [] (cloudProviderNodeInstances c) (ng_Id cp ng))
              (lookup_default [] (previousCloudProviderNodeInstances c) (ng_Id cp ng)) currentTime c)
       csr (cp_NodeGroups cp)"

definition GetCreatedNodesWithErrors :: "'g ClusterStateRegistry \<Rightarrow> Node list" where
  "GetCreatedNodesWithErrors csr =
     concat (map (\<lambda>(_, instances). let (_, _, byCode) = buildInstanceToErrorCodeMappings instances
                                   in map fakeNode (concat (map snd byCode))) (cloudProviderNodeInstances csr))"

section \<open>Updates\<close>

text \<open>The instances, with the entries of groups that are scaling up fetched again.\<close>

definition getCloudProviderNodeInstances ::
    "'g cloud_provider \<Rightarrow> time \<Rightarrow> 'g ClusterStateRegistry \<Rightarrow> (string, Instance list) gomap result \<times> 'g ClusterStateRegistry" where
  "getCloudProviderNodeInstances cp now csr =
     (let cache = foldl (\<lambda>c ng. if IsNodeGroupScalingUp csr (ng_Id cp ng) then InvalidateCacheEntry cp ng c else c)
                    (instancesCache csr) (cp_NodeGroups cp);
          (r, cache') = GetCloudProviderNodeInstances cp now cache
      in (r, csr\<lparr>instancesCache := cache'\<rparr>))"

definition UpdateNodes ::
    "'g cloud_provider \<Rightarrow> Node list \<Rightarrow> time \<Rightarrow> 'g ClusterStateRegistry \<Rightarrow> go_error option \<times> 'g ClusterStateRegistry" where
  "UpdateNodes cp nodes currentTime csr =
     (case getTargetSizes cp of
        Inl e \<Rightarrow> (Some e, csr)
      | Inr targetSizes \<Rightarrow>
          (case getCloudProviderNodeInstances cp currentTime csr of
             (Inl e, csr1) \<Rightarrow> (Some e, csr1)
           | (Inr instances, csr1) \<Rightarrow>
               let csr2 = csr1\<lparr>csr_nodes := nodes, previousCloudProviderNodeInstances := cloudProviderNodeInstances csr1,
                               cloudProviderNodeInstances := instances\<rparr>;
                   csr3 = updateUnregisteredNodes (getNotRegisteredNodes nodes instances currentTime) csr2;
                   csr4 = updateReadinessStats cp currentTime csr3;
                   csr5 = updateAcceptableRanges cp targetSizes csr4;
                   csr6 = updateScaleRequests cp currentTime csr5;
                   csr7 = handleInstanceCreationErrors cp currentTime csr6;
                   csr8 = updateAcceptableRanges cp targetSizes csr7
               in (None, updateIncorrectNodeGroupSizes cp currentTime csr8)))"

text \<open>A failure to get the sizes is logged, and the ranges are computed from the empty map.\<close>

definition Recalculate :: "'g cloud_provider \<Rightarrow> 'g ClusterStateRegistry \<Rightarrow> 'g ClusterStateRegistry" where
  "Recalculate cp csr = updateAcceptableRanges cp (case getTargetSizes cp of Inr m \<Rightarrow> m | Inl _ \<Rightarrow> []) csr"

definition RefreshCloudProviderNodeInstancesCache :: "'g cloud_provider \<Rightarrow> time \<Rightarrow> 'g ClusterStateRegistry \<Rightarrow> 'g ClusterStateRegistry" where
  "RefreshCloudProviderNodeInstancesCache cp now csr = csr\<lparr>instancesCache := cache_Refresh cp now (instancesCache csr)\<rparr>"

definition InvalidateNodeInstancesCacheEntry :: "'g cloud_provider \<Rightarrow> 'g \<Rightarrow> 'g ClusterStateRegistry \<Rightarrow> 'g ClusterStateRegistry" where
  "InvalidateNodeInstancesCacheEntry cp ng csr = csr\<lparr>instancesCache := InvalidateCacheEntry cp ng (instancesCache csr)\<rparr>"

definition PeriodicCleanup :: "'g ClusterStateRegistry \<Rightarrow> 'g ClusterStateRegistry" where
  "PeriodicCleanup csr = csr\<lparr>scaleUpFailures := []\<rparr>"

section \<open>Queries\<close>

definition IsClusterHealthy :: "'g ClusterStateRegistry \<Rightarrow> bool" where
  "IsClusterHealthy csr \<longleftrightarrow>
     \<not> (Unready (totalReadiness csr) > OkTotalUnreadyCount (csr_config csr) \<and>
        of_int (Unready (totalReadiness csr)) > MaxTotalUnreadyPercentage (csr_config csr) / 100 * real (length (csr_nodes csr)))"

definition IsNodeGroupHealthy :: "'g ClusterStateRegistry \<Rightarrow> string \<Rightarrow> bool" where
  "IsNodeGroupHealthy csr nodeGroupName =
     (case map_of (acceptableRanges csr) nodeGroupName of
        None \<Rightarrow> False
      | Some a \<Rightarrow> (case map_of (perNodeGroupReadiness csr) nodeGroupName of
            None \<Rightarrow> CurrentTarget a = 0 \<or> MinNodes a = 0 \<and> CurrentTarget a > 0
          | Some r \<Rightarrow>
              let unjustifiedUnready = (if Ready r < MinNodes a then MinNodes a - Ready r else 0)
              in \<not> (unjustifiedUnready > OkTotalUnreadyCount (csr_config csr) \<and>
                    of_int unjustifiedUnready > MaxTotalUnreadyPercentage (csr_config csr) / 100 *
                      of_int (Ready r + Unready r + NotStarted r + LongNotStarted r))))"

definition IsNodeGroupSafeToScaleUp :: "'g cloud_provider \<Rightarrow> 'g ClusterStateRegistry \<Rightarrow> 'g \<Rightarrow> time \<Rightarrow> bool" where
  "IsNodeGroupSafeToScaleUp cp csr nodeGroup now \<longleftrightarrow>
     IsNodeGroupHealthy csr (ng_Id cp nodeGroup) \<and> \<not> IsBackedOff (csr_backoff csr) (ng_Id cp nodeGroup) now"

definition GetUpcomingNodes :: "'g cloud_provider \<Rightarrow> 'g ClusterStateRegistry \<Rightarrow> (string, int) gomap" where
  "GetUpcomingNodes cp csr =
     foldl (\<lambda>m ng. let key = ng_Id cp ng; r = lookup_default no_Readiness (perNodeGroupReadiness csr) key;
                       a = lookup_default no_AcceptableRange (acceptableRanges csr) key;
                       newNodes = CurrentTarget a - (Ready r + Unready r + LongNotStarted r + LongUnregistered r)
                   in if newNodes \<le> 0 then m else AList.update key newNodes m) [] (cp_NodeGroups cp)"

definition GetAutoscaledNodesCount :: "'g ClusterStateRegistry \<Rightarrow> int \<times> int" where
  "GetAutoscaledNodesCount csr =
     (sum_list (map (\<lambda>(_, r). Registered r - NotStarted r - LongNotStarted r) (perNodeGroupReadiness csr)),
      sum_list (map (\<lambda>(_, a). CurrentTarget a) (acceptableRanges csr)))"

definition GetIncorrectNodeGroupSize :: "'g ClusterStateRegistry \<Rightarrow> string \<Rightarrow> IncorrectNodeGroupSize option" where
  "GetIncorrectNodeGroupSize csr name = map_of (incorrectNodeGroupSizes csr) name"

definition GetUnregisteredNodes :: "'g ClusterStateRegistry \<Rightarrow> UnregisteredNode list" where
  "GetUnregisteredNodes csr = map snd (unregisteredNodes csr)"

end
