(* ===== verification/Cluster_Status.thy ===== *)
theory Cluster_Status
  imports Cluster_Registry
begin

text \<open>
  The status the cluster autoscaler publishes (\<open>GetStatus\<close> of \<open>clusterstate/clusterstate.go\<close>, types of
  \<open>clusterstate/api/types.go\<close>): a condition for health, scale-up and scale-down of every node group and of
  the cluster, with the time since when it has its status. The last status, which the registry
  keeps, is passed and returned.
\<close>

section \<open>Conditions\<close>

datatype ConditionKind = ClusterAutoscalerHealth | ClusterAutoscalerScaleDown | ClusterAutoscalerScaleUp

datatype ClusterAutoscalerConditionStatus =
    ClusterAutoscalerHealthy | ClusterAutoscalerUnhealthy
  | ClusterAutoscalerCandidatesPresent | ClusterAutoscalerNoCandidates
  | ClusterAutoscalerNeeded | ClusterAutoscalerNotNeeded
  | ClusterAutoscalerInProgress | ClusterAutoscalerNoActivity | ClusterAutoscalerBackoff

record ClusterAutoscalerCondition =
  cac_Type :: ConditionKind
  cac_Status :: ClusterAutoscalerConditionStatus
  cac_Message :: string
  LastProbeTime :: time
  LastTransitionTime :: time

record NodeGroupStatus =
  ProviderID :: string
  ngs_Conditions :: "ClusterAutoscalerCondition list"

record ClusterAutoscalerStatus =
  NodeGroupStatuses :: "NodeGroupStatus list"
  ClusterwideConditions :: "ClusterAutoscalerCondition list"

definition status_condition :: "ConditionKind \<Rightarrow> ClusterAutoscalerConditionStatus \<Rightarrow> string \<Rightarrow> time \<Rightarrow> ClusterAutoscalerCondition" where
  "status_condition ty st msg probe = \<lparr>cac_Type = ty, cac_Status = st, cac_Message = msg, LastProbeTime = probe, LastTransitionTime = zero_time\<rparr>"

definition readiness_message :: "Readiness \<Rightarrow> string" where
  "readiness_message r =
     ''ready='' @ show_int (Ready r) @ '' unready='' @ show_int (Unready r) @ '' notStarted='' @ show_int (NotStarted r)
     @ '' longNotStarted='' @ show_int (LongNotStarted r) @ '' registered='' @ show_int (Registered r)
     @ '' longUnregistered='' @ show_int (LongUnregistered r)"

definition buildHealthStatusNodeGroup :: "bool \<Rightarrow> Readiness \<Rightarrow> AcceptableRange \<Rightarrow> int \<Rightarrow> int \<Rightarrow> ClusterAutoscalerCondition" where
  "buildHealthStatusNodeGroup isReady r a minSize maxSize =
     status_condition ClusterAutoscalerHealth (if isReady then ClusterAutoscalerHealthy else ClusterAutoscalerUnhealthy)
       (readiness_message r @ '' cloudProviderTarget='' @ show_int (CurrentTarget a) @ '' (minSize='' @ show_int minSize
        @ '', maxSize='' @ show_int maxSize @ '')'') (rd_Time r)"

definition buildScaleUpStatusNodeGroup :: "bool \<Rightarrow> bool \<Rightarrow> Readiness \<Rightarrow> AcceptableRange \<Rightarrow> ClusterAutoscalerCondition" where
  "buildScaleUpStatusNodeGroup isScaleUpInProgress isSafeToScaleUp r a =
     status_condition ClusterAutoscalerScaleUp
       (if isScaleUpInProgress then ClusterAutoscalerInProgress
        else if \<not> isSafeToScaleUp then ClusterAutoscalerBackoff else ClusterAutoscalerNoActivity)
       (''ready='' @ show_int (Ready r) @ '' cloudProviderTarget='' @ show_int (CurrentTarget a)) (rd_Time r)"

definition candidates_condition :: "nat \<Rightarrow> time \<Rightarrow> ClusterAutoscalerCondition" where
  "candidates_condition n lastProbed =
     status_condition ClusterAutoscalerScaleDown
       (if n > 0 then ClusterAutoscalerCandidatesPresent else ClusterAutoscalerNoCandidates)
       (''candidates='' @ show_nat n) lastProbed"

definition buildScaleDownStatusNodeGroup :: "string list \<Rightarrow> time \<Rightarrow> ClusterAutoscalerCondition" where
  "buildScaleDownStatusNodeGroup candidates lastProbed = candidates_condition (length candidates) lastProbed"

definition buildHealthStatusClusterwide :: "bool \<Rightarrow> Readiness \<Rightarrow> ClusterAutoscalerCondition" where
  "buildHealthStatusClusterwide isReady r =
     status_condition ClusterAutoscalerHealth (if isReady then ClusterAutoscalerHealthy else ClusterAutoscalerUnhealthy)
       (readiness_message r) (rd_Time r)"

definition buildScaleUpStatusClusterwide :: "NodeGroupStatus list \<Rightarrow> Readiness \<Rightarrow> ClusterAutoscalerCondition" where
  "buildScaleUpStatusClusterwide statuses r =
     status_condition ClusterAutoscalerScaleUp
       (if list_ex (\<lambda>s. list_ex (\<lambda>c. cac_Type c = ClusterAutoscalerScaleUp \<and> cac_Status c = ClusterAutoscalerInProgress) (ngs_Conditions s)) statuses
        then ClusterAutoscalerInProgress else ClusterAutoscalerNoActivity)
       (''ready='' @ show_int (Ready r) @ '' registered='' @ show_int (Registered r)) (rd_Time r)"

definition buildScaleDownStatusClusterwide :: "(string, string list) gomap \<Rightarrow> time \<Rightarrow> ClusterAutoscalerCondition" where
  "buildScaleDownStatusClusterwide candidates lastProbed =
     candidates_condition (sum_list (map (\<lambda>(_, names). length names) candidates)) lastProbed"

section \<open>Transitions\<close>

definition updateLastTransitionSingleList ::
    "ClusterAutoscalerCondition list \<Rightarrow> ClusterAutoscalerCondition list \<Rightarrow> ClusterAutoscalerCondition list" where
  "updateLastTransitionSingleList oldConds newConds =
     map (\<lambda>c. case find (\<lambda>old. cac_Type c = cac_Type old) oldConds of
                Some old \<Rightarrow> if cac_Status c = cac_Status old then c\<lparr>LastTransitionTime := LastTransitionTime old\<rparr>
                            else c\<lparr>LastTransitionTime := LastProbeTime c\<rparr>
              | None \<Rightarrow> c\<lparr>LastTransitionTime := LastProbeTime c\<rparr>) newConds"

definition updateLastTransition :: "ClusterAutoscalerStatus \<Rightarrow> ClusterAutoscalerStatus \<Rightarrow> ClusterAutoscalerStatus" where
  "updateLastTransition oldStatus newStatus =
     \<lparr>NodeGroupStatuses = map (\<lambda>s.
          let oldConds = (case find (\<lambda>o'. ProviderID s = ProviderID o') (NodeGroupStatuses oldStatus) of
                            Some o' \<Rightarrow> ngs_Conditions o' | None \<Rightarrow> [])
          in s\<lparr>ngs_Conditions := updateLastTransitionSingleList oldConds (ngs_Conditions s)\<rparr>) (NodeGroupStatuses newStatus),
      ClusterwideConditions = updateLastTransitionSingleList (ClusterwideConditions oldStatus) (ClusterwideConditions newStatus)\<rparr>"

definition node_group_status :: "'g cloud_provider \<Rightarrow> 'g ClusterStateRegistry \<Rightarrow> time \<Rightarrow> 'g \<Rightarrow> NodeGroupStatus" where
  "node_group_status cp csr now ng =
     (let key = ng_Id cp ng; r = lookup_default no_Readiness (perNodeGroupReadiness csr) key;
          a = lookup_default no_AcceptableRange (acceptableRanges csr) key
      in \<lparr>ProviderID = key,
          ngs_Conditions =
            [buildHealthStatusNodeGroup (IsNodeGroupHealthy csr key) r a (ng_MinSize cp ng) (ng_MaxSize cp ng),
             buildScaleUpStatusNodeGroup (IsNodeGroupScalingUp csr key) (IsNodeGroupSafeToScaleUp cp csr ng now) r a,
             buildScaleDownStatusNodeGroup (lookup_default [] (candidatesForScaleDown csr) key) (lastScaleDownUpdateTime csr)]\<rparr>)"

definition GetStatus :: "'g cloud_provider \<Rightarrow> 'g ClusterStateRegistry \<Rightarrow> time \<Rightarrow> ClusterAutoscalerStatus \<Rightarrow> ClusterAutoscalerStatus" where
  "GetStatus cp csr now lastStatus =
     (let statuses = map (node_group_status cp csr now) (cp_NodeGroups cp)
      in updateLastTransition lastStatus
           \<lparr>NodeGroupStatuses = statuses,
            ClusterwideConditions =
              [buildHealthStatusClusterwide (IsClusterHealthy csr) (totalReadiness csr),
               buildScaleUpStatusClusterwide statuses (totalReadiness csr),
               buildScaleDownStatusClusterwide (candidatesForScaleDown csr) (lastScaleDownUpdateTime csr)]\<rparr>)"

end
