(* ===== verification/Registry_Correct.thy ===== *)
theory Registry_Correct
  imports Cluster_Status
begin

text \<open>
  The cluster state registry is right: its statistics count every node exactly once, the acceptable
  ranges follow from target sizes and requests, every reachable state satisfies an invariant, and a
  scale-up that fails keeps its group from being scaled up for the time of the backoff.
\<close>

section \<open>Readiness\<close>

datatype NodeClass = IsDeleted | IsLongNotStarted | IsNotStarted | IsReady | IsUnready

definition node_class :: "time \<Rightarrow> Node \<Rightarrow> NodeClass" where
  "node_class t n =
     (if HasToBeDeletedTaint n then IsDeleted
      else if isNodeStillStarting n
      then (if time_Before (time_Add (node_CreationTimestamp n) MaxNodeStartupTime) t then IsLongNotStarted else IsNotStarted)
      else if fst (GetReadinessState n) then IsReady else IsUnready)"

definition count_of :: "time \<Rightarrow> NodeClass \<Rightarrow> Node list \<Rightarrow> int" where
  "count_of t c ns = int (length (filter (\<lambda>n. node_class t n = c) ns))"

lemma count_of_simps [simp]: "count_of t c [] = 0" "count_of t c (ns @ [n]) = count_of t c ns + (if node_class t n = c then 1 else 0)"
  by (simp_all add: count_of_def)

text \<open>The statistics of a list of nodes, added to some statistics.\<close>

definition tally :: "time \<Rightarrow> Node list \<Rightarrow> Readiness \<Rightarrow> Readiness" where
  "tally t ns r =
     r\<lparr>Ready := Ready r + count_of t IsReady ns, Unready := Unready r + count_of t IsUnready ns,
       Deleted := Deleted r + count_of t IsDeleted ns, LongNotStarted := LongNotStarted r + count_of t IsLongNotStarted ns,
       NotStarted := NotStarted r + count_of t IsNotStarted ns, Registered := Registered r + int (length ns)\<rparr>"

lemma tally_Nil [simp]: "tally t [] r = r"
  by (simp add: tally_def)

lemma tally_snoc: "tally t (ns @ [n]) r = update_readiness t n (fst (GetReadinessState n)) (tally t ns r)"
  by (cases "node_class t n") (auto simp: tally_def update_readiness_def node_class_def Let_def split: if_splits)

definition node_group_id :: "'g cloud_provider \<Rightarrow> Node \<Rightarrow> string option" where
  "node_group_id cp n = map_option (ng_Id cp) (fst (cp_NodeGroupForNode cp n))"

definition nodes_in :: "'g cloud_provider \<Rightarrow> string \<Rightarrow> Node list \<Rightarrow> Node list" where
  "nodes_in cp k ns = filter (\<lambda>n. node_group_id cp n = Some k) ns"

lemma lookup_default_update [simp]:
  "lookup_default x (AList.update k v m) j = (if j = k then v else lookup_default x m j)"
  by (simp add: lookup_default_def update_conv')

lemma count_nodes:
  "foldl (count_node cp t) ([], r0) ns = (pg, tot) \<Longrightarrow>
   gomap_ok pg \<and> tot = tally t ns r0 \<and> (\<forall>k. lookup_default no_Readiness pg k = tally t (nodes_in cp k ns) no_Readiness) \<and>
   (\<forall>k. map_of pg k = None \<longleftrightarrow> nodes_in cp k ns = [])"
proof (induction ns arbitrary: pg tot rule: rev_induct)
  case (snoc n ns)
  obtain pg1 tot1 where p: "foldl (count_node cp t) ([], r0) ns = (pg1, tot1)" by (cases "foldl (count_node cp t) ([], r0) ns")
  note IH = snoc.IH [OF p]
  have st: "count_node cp t (pg1, tot1) n = (pg, tot)" using snoc.prems p by simp
  show ?case
  proof (cases "fst (cp_NodeGroupForNode cp n)")
    case None
    then have "nodes_in cp k (ns @ [n]) = nodes_in cp k ns" for k by (simp add: nodes_in_def node_group_id_def)
    then show ?thesis using st IH None by (auto simp: count_node_def Let_def tally_snoc)
  next
    case (Some g)
    have "nodes_in cp k (ns @ [n]) = (if k = ng_Id cp g then nodes_in cp k ns @ [n] else nodes_in cp k ns)" for k
      using Some by (simp add: nodes_in_def node_group_id_def)
    then show ?thesis using st IH Some by (auto simp: count_node_def Let_def tally_snoc update_conv')
  qed
qed (simp add: lookup_default_def nodes_in_def)

section \<open>Nodes that are not registered\<close>

definition unreg_group :: "'g cloud_provider \<Rightarrow> UnregisteredNode \<Rightarrow> string option" where
  "unreg_group cp u = (case cp_NodeGroupForNode cp (un_Node u) of (Some g, None) \<Rightarrow> Some (ng_Id cp g) | _ \<Rightarrow> None)"

definition long_unregistered :: "duration \<Rightarrow> time \<Rightarrow> UnregisteredNode \<Rightarrow> bool" where
  "long_unregistered d t u = time_Before (time_Add (UnregisteredSince u) d) t"

definition count_unreg :: "(UnregisteredNode \<Rightarrow> bool) \<Rightarrow> UnregisteredNode list \<Rightarrow> int" where
  "count_unreg P us = int (length (filter P us))"

definition add_unregistered :: "int \<Rightarrow> int \<Rightarrow> Readiness \<Rightarrow> Readiness" where
  "add_unregistered l s r = r\<lparr>LongUnregistered := LongUnregistered r + l, Unregistered := Unregistered r + s\<rparr>"

lemma count_unregistered_nodes:
  assumes "foldl (count_unregistered cp d t) (pg0, r0) us = (pg, tot)" "gomap_ok pg0"
  shows "gomap_ok pg \<and>
    tot = add_unregistered (count_unreg (\<lambda>u. unreg_group cp u \<noteq> None \<and> long_unregistered d t u) us)
              (count_unreg (\<lambda>u. unreg_group cp u \<noteq> None \<and> \<not> long_unregistered d t u) us) r0 \<and>
    (\<forall>k. lookup_default no_Readiness pg k =
       add_unregistered (count_unreg (\<lambda>u. unreg_group cp u = Some k \<and> long_unregistered d t u) us)
         (count_unreg (\<lambda>u. unreg_group cp u = Some k \<and> \<not> long_unregistered d t u) us) (lookup_default no_Readiness pg0 k))"
  using assms(1)
proof (induction us arbitrary: pg tot rule: rev_induct)
  case Nil
  then show ?case using assms(2) by (simp add: add_unregistered_def count_unreg_def)
next
  case (snoc u us)
  obtain pg1 tot1 where p: "foldl (count_unregistered cp d t) (pg0, r0) us = (pg1, tot1)" by (cases "foldl (count_unregistered cp d t) (pg0, r0) us")
  note IH = snoc.IH [OF p]
  obtain og oe where c: "cp_NodeGroupForNode cp (un_Node u) = (og, oe)" by (cases "cp_NodeGroupForNode cp (un_Node u)")
  have st: "count_unregistered cp d t (pg1, tot1) u = (pg, tot)" using snoc.prems p by simp
  show ?case
  proof (cases "\<exists>g. og = Some g \<and> oe = None")
    case True
    then obtain g where g: "cp_NodeGroupForNode cp (un_Node u) = (Some g, None)" using c by auto
    then show ?thesis using st IH
      by (auto simp: count_unregistered_def unreg_group_def long_unregistered_def [symmetric] count_unreg_def add_unregistered_def Let_def
          split: if_splits)
  next
    case False
    then have "unreg_group cp u = None" "count_unregistered cp d t (pg1, tot1) u = (pg1, tot1)"
      using c by (auto simp: unreg_group_def count_unregistered_def split: option.splits)
    then show ?thesis using st IH by (auto simp: count_unreg_def)
  qed
qed

lemma updateReadinessStats_counts:
  fixes csr :: "'g ClusterStateRegistry" and cp :: "'g cloud_provider" and t :: time
  defines "csr' \<equiv> updateReadinessStats cp t csr" and "us \<equiv> map snd (unregisteredNodes csr)"
    and "d \<equiv> MaxNodeProvisionTime (csr_config csr)" and "ns \<equiv> csr_nodes csr"
  shows "csr' = csr\<lparr>perNodeGroupReadiness := perNodeGroupReadiness csr', totalReadiness := totalReadiness csr'\<rparr>"
    and "totalReadiness csr' =
      add_unregistered (count_unreg (\<lambda>u. unreg_group cp u \<noteq> None \<and> long_unregistered d t u) us)
        (count_unreg (\<lambda>u. unreg_group cp u \<noteq> None \<and> \<not> long_unregistered d t u) us) (tally t ns (no_Readiness\<lparr>rd_Time := t\<rparr>))"
    and "map_of (perNodeGroupReadiness csr') k = Some r \<Longrightarrow>
      r = (add_unregistered (count_unreg (\<lambda>u. unreg_group cp u = Some k \<and> long_unregistered d t u) us)
        (count_unreg (\<lambda>u. unreg_group cp u = Some k \<and> \<not> long_unregistered d t u) us) (tally t (nodes_in cp k ns) no_Readiness))\<lparr>rd_Time := t\<rparr>"
    and "gomap_ok (perNodeGroupReadiness csr')"
    and "LongUnregistered (lookup_default no_Readiness (perNodeGroupReadiness csr') k) =
      count_unreg (\<lambda>u. unreg_group cp u = Some k \<and> long_unregistered d t u) us"
proof -
  obtain pg1 t1 where 1: "foldl (count_node cp t) ([], no_Readiness\<lparr>rd_Time := t\<rparr>) ns = (pg1, t1)"
    by (cases "foldl (count_node cp t) ([], no_Readiness\<lparr>rd_Time := t\<rparr>) ns")
  obtain pg2 t2 where 2: "foldl (count_unregistered cp d t) (pg1, t1) us = (pg2, t2)"
    by (cases "foldl (count_unregistered cp d t) (pg1, t1) us")
  note c1 = count_nodes [OF 1]
  note c2 = count_unregistered_nodes [OF 2 conjunct1 [OF c1]]
  have csr': "csr' = csr\<lparr>perNodeGroupReadiness := map_values (\<lambda>_ r. r\<lparr>rd_Time := t\<rparr>) pg2, totalReadiness := t2\<rparr>"
    using 1 2 by (simp add: csr'_def updateReadinessStats_def us_def d_def ns_def Let_def)
  show "csr' = csr\<lparr>perNodeGroupReadiness := perNodeGroupReadiness csr', totalReadiness := totalReadiness csr'\<rparr>" by (simp add: csr')
  show "totalReadiness csr' =
      add_unregistered (count_unreg (\<lambda>u. unreg_group cp u \<noteq> None \<and> long_unregistered d t u) us)
        (count_unreg (\<lambda>u. unreg_group cp u \<noteq> None \<and> \<not> long_unregistered d t u) us) (tally t ns (no_Readiness\<lparr>rd_Time := t\<rparr>))"
    using c1 c2 by (simp add: csr')
  have l: "lookup_default no_Readiness pg2 k =
      add_unregistered (count_unreg (\<lambda>u. unreg_group cp u = Some k \<and> long_unregistered d t u) us)
        (count_unreg (\<lambda>u. unreg_group cp u = Some k \<and> \<not> long_unregistered d t u) us) (tally t (nodes_in cp k ns) no_Readiness)" for k
    using c1 c2 by simp
  show "gomap_ok (perNodeGroupReadiness csr')" using c2 by (simp add: csr')
  show "r = (add_unregistered (count_unreg (\<lambda>u. unreg_group cp u = Some k \<and> long_unregistered d t u) us)
        (count_unreg (\<lambda>u. unreg_group cp u = Some k \<and> \<not> long_unregistered d t u) us) (tally t (nodes_in cp k ns) no_Readiness))\<lparr>rd_Time := t\<rparr>"
    if "map_of (perNodeGroupReadiness csr') k = Some r"
    using that l [of k] by (auto simp: csr' map_of_map_values lookup_default_def)
  have "LongUnregistered (lookup_default no_Readiness (perNodeGroupReadiness csr') k) = LongUnregistered (lookup_default no_Readiness pg2 k)"
    by (auto simp: csr' map_of_map_values lookup_default_def split: option.split)
  then show "LongUnregistered (lookup_default no_Readiness (perNodeGroupReadiness csr') k) =
      count_unreg (\<lambda>u. unreg_group cp u = Some k \<and> long_unregistered d t u) us"
    unfolding l by (simp add: add_unregistered_def tally_def no_Readiness_def)
qed

section \<open>Acceptable ranges\<close>

definition pending_increase :: "'g ClusterStateRegistry \<Rightarrow> string \<Rightarrow> int" where
  "pending_increase csr k = (case map_of (scaleUpRequests csr) k of Some r \<Rightarrow> Increase r | None \<Rightarrow> 0)"

definition pending_deletions :: "'g cloud_provider \<Rightarrow> 'g ClusterStateRegistry \<Rightarrow> string \<Rightarrow> int" where
  "pending_deletions cp csr k = int (length (filter (\<lambda>r. ng_Id cp (sdr_NodeGroup r) = k) (scaleDownRequests csr)))"

lemma ranges_groups:
  "map_of (foldl (\<lambda>m ng. AList.update (f ng) (h (f ng)) m) m0 gs) k = (if k \<in> f ` set gs then Some (h k) else map_of m0 k)"
  by (induction gs arbitrary: m0) (auto simp: update_conv')

lemma ranges_requests:
  "gomap_ok reqs \<Longrightarrow> map_of m0 k = Some a \<Longrightarrow>
   map_of (foldl (\<lambda>m (name, request). let a = lookup_default no_AcceptableRange m name
                    in AList.update name (a\<lparr>MinNodes := MinNodes a - Increase request\<rparr>) m) m0 reqs) k =
   Some (a\<lparr>MinNodes := MinNodes a - (case map_of reqs k of Some r \<Rightarrow> Increase r | None \<Rightarrow> 0)\<rparr>)"
proof (induction reqs arbitrary: m0 a)
  case (Cons e reqs)
  obtain n r where e: "e = (n, r)" by (cases e)
  have g: "gomap_ok reqs" "map_of reqs n = None" using Cons.prems(1) by (auto simp: e gomap_ok_def map_of_eq_None_iff)
  show ?case
  proof (cases "n = k")
    case True
    then show ?thesis using Cons.IH [OF g(1), of "AList.update n (a\<lparr>MinNodes := MinNodes a - Increase r\<rparr>) m0"] Cons.prems(2) g(2)
      by (auto simp: e Let_def lookup_default_def update_conv')
  next
    case False
    then show ?thesis using Cons.IH [OF g(1)] Cons.prems(2) by (simp add: e Let_def update_conv')
  qed
qed simp

lemma ranges_deletions:
  "map_of m0 k = Some a \<Longrightarrow>
   map_of (foldl (\<lambda>m request. let name = f request; a = lookup_default no_AcceptableRange m name
                    in AList.update name (a\<lparr>MaxNodes := MaxNodes a + 1\<rparr>) m) m0 reqs) k =
   Some (a\<lparr>MaxNodes := MaxNodes a + int (length (filter (\<lambda>r. f r = k) reqs))\<rparr>)"
proof (induction reqs arbitrary: m0 a)
  case (Cons r reqs)
  show ?case
  proof (cases "f r = k")
    case True
    then show ?thesis using Cons.IH [of "AList.update k (a\<lparr>MaxNodes := MaxNodes a + 1\<rparr>) m0"] Cons.prems
      by (auto simp: Let_def lookup_default_def update_conv')
  next
    case False
    then show ?thesis using Cons.IH Cons.prems by (simp add: Let_def update_conv')
  qed
qed simp

lemma updateAcceptableRanges_range:
  assumes "gomap_ok (scaleUpRequests csr)" "g \<in> set (cp_NodeGroups cp)"
  shows "map_of (acceptableRanges (updateAcceptableRanges cp targets csr)) (ng_Id cp g) =
    (let k = ng_Id cp g; size = lookup_default 0 targets k in
     Some \<lparr>MinNodes = size - LongUnregistered (lookup_default no_Readiness (perNodeGroupReadiness csr) k) - pending_increase csr k,
           MaxNodes = size + pending_deletions cp csr k, CurrentTarget = size\<rparr>)"
proof -
  let ?k = "ng_Id cp g" and ?s = "\<lambda>k. lookup_default 0 targets k" and ?r = "\<lambda>k. lookup_default no_Readiness (perNodeGroupReadiness csr) k"
  let ?h = "\<lambda>k. \<lparr>MinNodes = ?s k - LongUnregistered (?r k), MaxNodes = ?s k, CurrentTarget = ?s k\<rparr>"
  have "map_of (foldl (\<lambda>m ng. AList.update (ng_Id cp ng) (?h (ng_Id cp ng)) m) [] (cp_NodeGroups cp)) ?k = Some (?h ?k)"
    using ranges_groups [of "ng_Id cp" ?h "[]" "cp_NodeGroups cp" ?k] assms(2) by simp
  note r2 = ranges_requests [OF assms(1) this]
  note r3 = ranges_deletions [OF r2, of "\<lambda>r. ng_Id cp (sdr_NodeGroup r)" "scaleDownRequests csr"]
  show ?thesis using r3 unfolding updateAcceptableRanges_def pending_increase_def pending_deletions_def Let_def by simp
qed

section \<open>What the handling of requests leaves alone\<close>

text \<open>The registry without requests, failures and the running backoffs.\<close>

definition observed :: "'g ClusterStateRegistry \<Rightarrow> 'g ClusterStateRegistry" where
  "observed csr = csr\<lparr>scaleUpRequests := [], scaleDownRequests := [], scaleUpFailures := [],
     csr_backoff := (csr_backoff csr)\<lparr>backoffInfo := []\<rparr>\<rparr>"

lemma observedD:
  assumes "observed c = observed csr"
  shows "csr_config c = csr_config csr" "csr_nodes c = csr_nodes csr" "perNodeGroupReadiness c = perNodeGroupReadiness csr"
    "totalReadiness c = totalReadiness csr" "acceptableRanges c = acceptableRanges csr" "unregisteredNodes c = unregisteredNodes csr"
    "initialBackoffDuration (csr_backoff c) = initialBackoffDuration (csr_backoff csr)"
    "cloudProviderNodeInstances c = cloudProviderNodeInstances csr"
  using assms by (cases c; cases csr; cases "csr_backoff c"; cases "csr_backoff csr"; simp add: observed_def)+

definition request_ok :: "('g \<Rightarrow> string) \<Rightarrow> 'g ClusterStateRegistry \<Rightarrow> string \<times> 'g ScaleUpRequest \<Rightarrow> bool" where
  "request_ok idf csr e \<longleftrightarrow> fst e = idf (sur_NodeGroup (snd e)) \<and> 0 < Increase (snd e) \<and>
     ExpectedAddTime (snd e) = sur_Time (snd e) + MaxNodeProvisionTime (csr_config csr)"

definition requests_ok :: "('g \<Rightarrow> string) \<Rightarrow> 'g ClusterStateRegistry \<Rightarrow> bool" where
  "requests_ok idf csr \<longleftrightarrow> gomap_ok (scaleUpRequests csr) \<and> (\<forall>e \<in> set (scaleUpRequests csr). request_ok idf csr e)"

text \<open>A step that keeps the observations, the soundness of the requests and of the backoff.\<close>

definition advances :: "('g \<Rightarrow> string) \<Rightarrow> 'g ClusterStateRegistry \<Rightarrow> 'g ClusterStateRegistry \<Rightarrow> bool" where
  "advances idf c d \<longleftrightarrow> observed d = observed c \<and> (requests_ok idf c \<longrightarrow> requests_ok idf d) \<and>
     (backoff_ok (csr_backoff c) \<longrightarrow> backoff_ok (csr_backoff d))"

lemma advances_refl [simp]: "advances idf c c"
  by (simp add: advances_def)

lemma advances_trans: "advances idf b c \<Longrightarrow> advances idf c d \<Longrightarrow> advances idf b d"
  by (simp add: advances_def)

lemma advances_foldl: "(\<And>c x. x \<in> set xs \<Longrightarrow> advances idf c (f c x)) \<Longrightarrow> advances idf c (foldl f c xs)"
  by (induction xs arbitrary: c) (auto intro: advances_trans)

lemma requests_ok_delete: "requests_ok idf c \<Longrightarrow> requests_ok idf (c\<lparr>scaleUpRequests := AList.delete k (scaleUpRequests c)\<rparr>)"
  using set_AList_delete [of k "scaleUpRequests c"] by (auto simp: requests_ok_def request_ok_def)

lemma requests_ok_update:
  "requests_ok idf c \<Longrightarrow> request_ok idf c (k, r) \<Longrightarrow> requests_ok idf (c\<lparr>scaleUpRequests := AList.update k r (scaleUpRequests c)\<rparr>)"
  using set_AList_update [of k r "scaleUpRequests c"] by (fastforce simp: requests_ok_def request_ok_def)

lemma requests_ok_cong:
  "scaleUpRequests d = scaleUpRequests c \<Longrightarrow> csr_config d = csr_config c \<Longrightarrow> requests_ok idf d = requests_ok idf c"
  by (simp add: requests_ok_def request_ok_def)

lemma exp_Backoff_observed: "(snd (exp_Backoff b k t))\<lparr>backoffInfo := []\<rparr> = b\<lparr>backoffInfo := []\<rparr>"
  by (simp add: exp_Backoff_def Let_def)

lemma RegisterOrUpdateScaleUp_advances:
  assumes "ng_Id cp = idf"
  shows "advances idf c (RegisterOrUpdateScaleUp cp g delta t c)"
proof -
  have r: "request_ok idf c (k, r)" if "requests_ok idf c" "map_of (scaleUpRequests c) k = Some r" for k r
    using that map_of_SomeD [OF that(2)] by (simp add: requests_ok_def)
  have "requests_ok idf (RegisterOrUpdateScaleUp cp g delta t c)" if ok: "requests_ok idf c"
    using ok requests_ok_delete [OF ok] r [OF ok] assms
    by (auto simp: RegisterOrUpdateScaleUp_def Let_def request_ok_def time_Add_def intro!: requests_ok_update split: option.split)
  then show ?thesis by (auto simp: advances_def observed_def RegisterOrUpdateScaleUp_def Let_def split: option.split)
qed

lemma RegisterFailedScaleUp_advances: "advances idf c (RegisterFailedScaleUp cp g reason t c)"
  by (simp add: advances_def RegisterFailedScaleUp_def backoffNodeGroup_def observed_def exp_Backoff_observed exp_Backoff_ok
      requests_ok_def request_ok_def)

lemma delete_request_advances: "advances idf c (c\<lparr>scaleUpRequests := AList.delete k (scaleUpRequests c)\<rparr>)"
  using requests_ok_delete by (auto simp: advances_def observed_def)

lemma set_backoff_advances:
  "(backoff_ok (csr_backoff c) \<Longrightarrow> backoff_ok b) \<Longrightarrow> b\<lparr>backoffInfo := []\<rparr> = (csr_backoff c)\<lparr>backoffInfo := []\<rparr> \<Longrightarrow> advances idf c (c\<lparr>csr_backoff := b\<rparr>)"
  by (simp add: advances_def observed_def requests_ok_def request_ok_def)

lemma RemoveBackoff_advances: "advances idf c (c\<lparr>csr_backoff := RemoveBackoff (csr_backoff c) j\<rparr>)"
proof (rule set_backoff_advances)
  show "backoff_ok (RemoveBackoff (csr_backoff c) j)" if "backoff_ok (csr_backoff c)" using exponential.succeed [OF that] by blast
qed (simp add: RemoveBackoff_def)

lemma RemoveStale_advances: "advances idf c (c\<lparr>csr_backoff := RemoveStaleBackoffData (csr_backoff c) t\<rparr>)"
proof (rule set_backoff_advances)
  show "backoff_ok (RemoveStaleBackoffData (csr_backoff c) t)" if "backoff_ok (csr_backoff c)" using exponential.drop_stale [OF that] by blast
qed (simp add: RemoveStaleBackoffData_def)

lemma update_request_advances: "advances idf c (update_request cp t c e)"
proof -
  have "advances idf c (c\<lparr>scaleUpRequests := AList.delete k (scaleUpRequests c), csr_backoff := RemoveBackoff (csr_backoff c) j\<rparr>)" for k j
    using advances_trans [OF delete_request_advances RemoveBackoff_advances, of idf c k j] by simp
  moreover have "advances idf c (let c1 = RegisterFailedScaleUp cp g reason t c in c1\<lparr>scaleUpRequests := AList.delete k (scaleUpRequests c1)\<rparr>)" for g reason k
    unfolding Let_def by (rule advances_trans [OF RegisterFailedScaleUp_advances delete_request_advances])
  ultimately show ?thesis by (auto simp: update_request_def case_prod_beta Let_def)
qed

lemma updateScaleRequests_advances: "advances idf c (updateScaleRequests cp t c)"
proof -
  let ?c1 = "c\<lparr>csr_backoff := RemoveStaleBackoffData (csr_backoff c) t\<rparr>"
  let ?c2 = "foldl (update_request cp t) ?c1 (scaleUpRequests ?c1)"
  have "advances idf c ?c1" by (rule RemoveStale_advances)
  moreover have "advances idf ?c1 ?c2" by (rule advances_foldl) (rule update_request_advances)
  moreover have "advances idf ?c2 (?c2\<lparr>scaleDownRequests := x\<rparr>)" for x
    by (auto simp: advances_def observed_def requests_ok_def request_ok_def)
  ultimately show ?thesis unfolding updateScaleRequests_def Let_def by (blast intro: advances_trans)
qed

lemma handle_error_code_advances: "ng_Id cp = idf \<Longrightarrow> advances idf c (handle_error_code cp g previous t c e)"
  unfolding handle_error_code_def Let_def case_prod_beta
  by (auto intro: advances_trans [OF RegisterOrUpdateScaleUp_advances RegisterFailedScaleUp_advances])

lemma handleInstanceCreationErrors_advances: "ng_Id cp = idf \<Longrightarrow> advances idf c (handleInstanceCreationErrors cp t c)"
  unfolding handleInstanceCreationErrors_def handleInstanceCreationErrorsForNodeGroup_def Let_def case_prod_beta
  by (intro advances_foldl handle_error_code_advances)

section \<open>An update of the nodes\<close>

lemma UpdateNodes_steps:
  assumes "UpdateNodes cp ns t csr = (None, csr')"
  shows "\<exists>targets instances cache c3.
    getTargetSizes cp = Inr targets \<and>
    c3 = updateUnregisteredNodes (getNotRegisteredNodes ns instances t)
       (csr\<lparr>instancesCache := cache, csr_nodes := ns, previousCloudProviderNodeInstances := cloudProviderNodeInstances csr,
            cloudProviderNodeInstances := instances\<rparr>) \<and>
    csr' = updateIncorrectNodeGroupSizes cp t (updateAcceptableRanges cp targets (handleInstanceCreationErrors cp t
             (updateScaleRequests cp t (updateAcceptableRanges cp targets (updateReadinessStats cp t c3)))))"
  using assms unfolding UpdateNodes_def getCloudProviderNodeInstances_def
  by (auto simp: Let_def case_prod_beta split: sum.splits prod.splits)

lemma late_fields [simp]:
  "csr_nodes (updateIncorrectNodeGroupSizes cp t c) = csr_nodes c"
  "perNodeGroupReadiness (updateIncorrectNodeGroupSizes cp t c) = perNodeGroupReadiness c"
  "totalReadiness (updateIncorrectNodeGroupSizes cp t c) = totalReadiness c"
  "unregisteredNodes (updateIncorrectNodeGroupSizes cp t c) = unregisteredNodes c"
  "acceptableRanges (updateIncorrectNodeGroupSizes cp t c) = acceptableRanges c"
  "scaleUpRequests (updateIncorrectNodeGroupSizes cp t c) = scaleUpRequests c"
  "scaleDownRequests (updateIncorrectNodeGroupSizes cp t c) = scaleDownRequests c"
  "csr_backoff (updateIncorrectNodeGroupSizes cp t c) = csr_backoff c"
  "csr_config (updateIncorrectNodeGroupSizes cp t c) = csr_config c"
  "csr_nodes (updateAcceptableRanges cp m c) = csr_nodes c"
  "perNodeGroupReadiness (updateAcceptableRanges cp m c) = perNodeGroupReadiness c"
  "totalReadiness (updateAcceptableRanges cp m c) = totalReadiness c"
  "unregisteredNodes (updateAcceptableRanges cp m c) = unregisteredNodes c"
  "scaleUpRequests (updateAcceptableRanges cp m c) = scaleUpRequests c"
  "scaleDownRequests (updateAcceptableRanges cp m c) = scaleDownRequests c"
  "csr_backoff (updateAcceptableRanges cp m c) = csr_backoff c"
  "csr_config (updateAcceptableRanges cp m c) = csr_config c"
  "csr_config (updateUnregisteredNodes us c) = csr_config c"
  "csr_nodes (updateUnregisteredNodes us c) = csr_nodes c"
  "scaleUpRequests (updateUnregisteredNodes us c) = scaleUpRequests c"
  "csr_backoff (updateUnregisteredNodes us c) = csr_backoff c"
  by (simp_all add: updateIncorrectNodeGroupSizes_def updateAcceptableRanges_def updateUnregisteredNodes_def Let_def)

lemma requests_part_advances:
  "ng_Id cp = idf \<Longrightarrow> advances idf c (handleInstanceCreationErrors cp t (updateScaleRequests cp t c))"
  by (rule advances_trans [OF updateScaleRequests_advances handleInstanceCreationErrors_advances])

lemma updateReadinessStats_keeps:
  "csr_config (updateReadinessStats cp t c) = csr_config c" "csr_nodes (updateReadinessStats cp t c) = csr_nodes c"
  "unregisteredNodes (updateReadinessStats cp t c) = unregisteredNodes c" "scaleUpRequests (updateReadinessStats cp t c) = scaleUpRequests c"
  "csr_backoff (updateReadinessStats cp t c) = csr_backoff c"
  by (subst updateReadinessStats_counts(1) [of cp t c], simp)+

text \<open>What is known of the state after an update, from the state it leads to.\<close>

lemma UpdateNodes_facts:
  assumes u: "UpdateNodes cp ns t csr = (None, csr')"
  shows "csr_config csr' = csr_config csr" "csr_nodes csr' = ns"
    "\<exists>c3. csr_config c3 = csr_config csr \<and> csr_nodes c3 = ns \<and> unregisteredNodes c3 = unregisteredNodes csr' \<and>
       perNodeGroupReadiness csr' = perNodeGroupReadiness (updateReadinessStats cp t c3) \<and>
       totalReadiness csr' = totalReadiness (updateReadinessStats cp t c3)"
    "requests_ok (ng_Id cp) csr \<Longrightarrow> requests_ok (ng_Id cp) csr'"
    "backoff_ok (csr_backoff csr) \<Longrightarrow> backoff_ok (csr_backoff csr')"
    "requests_ok (ng_Id cp) csr \<Longrightarrow> g \<in> set (cp_NodeGroups cp) \<Longrightarrow> \<exists>targets. getTargetSizes cp = Inr targets \<and>
       map_of (acceptableRanges csr') (ng_Id cp g) =
         (let k = ng_Id cp g; size = lookup_default 0 targets k in
          Some \<lparr>MinNodes = size - LongUnregistered (lookup_default no_Readiness (perNodeGroupReadiness csr') k) - pending_increase csr' k,
                MaxNodes = size + pending_deletions cp csr' k, CurrentTarget = size\<rparr>)"
proof -
  obtain targets instances cache c3 where tg: "getTargetSizes cp = Inr targets"
    and c3: "c3 = updateUnregisteredNodes (getNotRegisteredNodes ns instances t)
       (csr\<lparr>instancesCache := cache, csr_nodes := ns, previousCloudProviderNodeInstances := cloudProviderNodeInstances csr,
            cloudProviderNodeInstances := instances\<rparr>)"
    and csr': "csr' = updateIncorrectNodeGroupSizes cp t (updateAcceptableRanges cp targets (handleInstanceCreationErrors cp t
             (updateScaleRequests cp t (updateAcceptableRanges cp targets (updateReadinessStats cp t c3)))))"
    using UpdateNodes_steps [OF u] by (elim exE conjE) (rule that)
  define c5 where "c5 = updateAcceptableRanges cp targets (updateReadinessStats cp t c3)"
  define c7 where "c7 = handleInstanceCreationErrors cp t (updateScaleRequests cp t c5)"
  have adv: "advances (ng_Id cp) c5 c7" unfolding c7_def by (rule requests_part_advances [OF refl])
  then have ob: "observed c7 = observed c5" by (simp add: advances_def)
  note o = observedD [OF ob]
  have c': "csr' = updateIncorrectNodeGroupSizes cp t (updateAcceptableRanges cp targets c7)" by (simp add: csr' c7_def c5_def)
  have k3: "csr_config c3 = csr_config csr" "csr_nodes c3 = ns" "scaleUpRequests c3 = scaleUpRequests csr" "csr_backoff c3 = csr_backoff csr"
    by (simp_all add: c3)
  have k5: "csr_config c5 = csr_config csr" "csr_nodes c5 = ns" "scaleUpRequests c5 = scaleUpRequests csr" "csr_backoff c5 = csr_backoff csr"
    "unregisteredNodes c5 = unregisteredNodes c3" "perNodeGroupReadiness c5 = perNodeGroupReadiness (updateReadinessStats cp t c3)"
    "totalReadiness c5 = totalReadiness (updateReadinessStats cp t c3)"
    by (simp_all add: c5_def updateReadinessStats_keeps k3)
  show "csr_config csr' = csr_config csr" "csr_nodes csr' = ns" by (simp_all add: c' o k5)
  show "\<exists>c3. csr_config c3 = csr_config csr \<and> csr_nodes c3 = ns \<and> unregisteredNodes c3 = unregisteredNodes csr' \<and>
       perNodeGroupReadiness csr' = perNodeGroupReadiness (updateReadinessStats cp t c3) \<and>
       totalReadiness csr' = totalReadiness (updateReadinessStats cp t c3)"
    by (rule exI [of _ c3]) (simp add: c' o k3 k5)
  have rq: "requests_ok (ng_Id cp) c7" if "requests_ok (ng_Id cp) csr"
    using that adv requests_ok_cong [of c5 csr "ng_Id cp"] k5 by (simp add: advances_def)
  have same: "requests_ok (ng_Id cp) csr' = requests_ok (ng_Id cp) c7" by (rule requests_ok_cong) (simp_all add: c')
  then show "requests_ok (ng_Id cp) csr'" if "requests_ok (ng_Id cp) csr" using rq [OF that] by simp
  show "backoff_ok (csr_backoff csr')" if "backoff_ok (csr_backoff csr)" using that adv k5 by (simp add: c' advances_def)
  show "\<exists>targets. getTargetSizes cp = Inr targets \<and>
       map_of (acceptableRanges csr') (ng_Id cp g) =
         (let k = ng_Id cp g; size = lookup_default 0 targets k in
          Some \<lparr>MinNodes = size - LongUnregistered (lookup_default no_Readiness (perNodeGroupReadiness csr') k) - pending_increase csr' k,
                MaxNodes = size + pending_deletions cp csr' k, CurrentTarget = size\<rparr>)"
    if "requests_ok (ng_Id cp) csr" "g \<in> set (cp_NodeGroups cp)"
    using updateAcceptableRanges_range [of c7 g cp targets] rq [OF that(1)] that(2) tg
    by (intro exI [of _ targets]) (simp add: c' requests_ok_def pending_increase_def pending_deletions_def Let_def)
qed

lemma target_sizes_lookup:
  "target_sizes cp gs m = Inr targets \<Longrightarrow> distinct (map (ng_Id cp) gs) \<Longrightarrow>
   (\<forall>g \<in> set gs. ng_TargetSize cp g = Inr (lookup_default 0 targets (ng_Id cp g))) \<and>
   (\<forall>k. k \<notin> ng_Id cp ` set gs \<longrightarrow> map_of targets k = map_of m k)"
proof (induction gs arbitrary: m)
  case (Cons g gs)
  obtain sz where sz: "ng_TargetSize cp g = Inr sz" "target_sizes cp gs (AList.update (ng_Id cp g) sz m) = Inr targets"
    using Cons.prems(1) by (auto split: sum.splits)
  have "ng_Id cp g \<notin> ng_Id cp ` set gs" using Cons.prems(2) by auto
  then show ?case using Cons.IH [OF sz(2)] Cons.prems(2) sz(1) by (auto simp: lookup_default_def update_conv')
qed simp

section \<open>The invariant\<close>

definition readiness_ok :: "Readiness \<Rightarrow> bool" where
  "readiness_ok r \<longleftrightarrow> 0 \<le> Ready r \<and> 0 \<le> Unready r \<and> 0 \<le> Deleted r \<and> 0 \<le> LongNotStarted r \<and> 0 \<le> NotStarted r \<and>
     0 \<le> LongUnregistered r \<and> 0 \<le> Unregistered r \<and>
     Registered r = Ready r + Unready r + Deleted r + LongNotStarted r + NotStarted r"

lemma counts_partition:
  "int (length ns) = count_of t IsReady ns + count_of t IsUnready ns + count_of t IsDeleted ns + count_of t IsLongNotStarted ns + count_of t IsNotStarted ns"
proof (induction ns rule: rev_induct)
  case (snoc n ns)
  then show ?case by (cases "node_class t n") auto
qed simp

lemma counted_ok: "readiness_ok ((add_unregistered (count_unreg P us) (count_unreg Q us) (tally t ns r))\<lparr>rd_Time := u\<rparr>)"
  if "readiness_ok r"
  using that counts_partition [of ns t] by (simp add: readiness_ok_def add_unregistered_def tally_def count_unreg_def count_of_def)

lemma no_Readiness_ok: "readiness_ok no_Readiness" "readiness_ok (no_Readiness\<lparr>rd_Time := t\<rparr>)"
  by (simp_all add: readiness_ok_def no_Readiness_def)

definition registry_ok :: "('g \<Rightarrow> string) \<Rightarrow> 'g ClusterStateRegistry \<Rightarrow> bool" where
  "registry_ok idf csr \<longleftrightarrow> requests_ok idf csr \<and> backoff_ok (csr_backoff csr) \<and> readiness_ok (totalReadiness csr) \<and>
     (\<forall>k r. map_of (perNodeGroupReadiness csr) k = Some r \<longrightarrow> readiness_ok r)"

text \<open>The operations that change the registry, with a cloud provider that may answer anything each time.\<close>

inductive registry_step :: "('g \<Rightarrow> string) \<Rightarrow> 'g ClusterStateRegistry \<Rightarrow> 'g ClusterStateRegistry \<Rightarrow> bool" for idf where
  scale_up: "ng_Id cp = idf \<Longrightarrow> registry_step idf c (RegisterOrUpdateScaleUp cp g delta t c)"
| scale_down: "registry_step idf c (RegisterScaleDown r c)"
| failed: "registry_step idf c (RegisterFailedScaleUp cp g reason t c)"
| update_nodes: "ng_Id cp = idf \<Longrightarrow> UpdateNodes cp ns t c = (err, c') \<Longrightarrow> registry_step idf c c'"
| recalculate: "registry_step idf c (Recalculate cp c)"
| candidates: "registry_step idf c (UpdateScaleDownCandidates cp ns t c)"
| refresh: "registry_step idf c (RefreshCloudProviderNodeInstancesCache cp t c)"
| invalidate: "registry_step idf c (InvalidateNodeInstancesCacheEntry cp g c)"
| cleanup: "registry_step idf c (PeriodicCleanup c)"

inductive registry_reachable :: "('g \<Rightarrow> string) \<Rightarrow> ClusterStateRegistryConfig \<Rightarrow> exponentialBackoff \<Rightarrow> 'g ClusterStateRegistry \<Rightarrow> bool"
  for idf config b where
  start: "registry_reachable idf config b (NewClusterStateRegistry config b)"
| step: "registry_reachable idf config b c \<Longrightarrow> registry_step idf c d \<Longrightarrow> registry_reachable idf config b d"

lemma registry_ok_advances: "advances idf c d \<Longrightarrow> registry_ok idf c \<Longrightarrow> registry_ok idf d"
  unfolding registry_ok_def advances_def using observedD(3,4) [of d c] by auto

lemma registry_ok_cong:
  "scaleUpRequests d = scaleUpRequests c \<Longrightarrow> csr_config d = csr_config c \<Longrightarrow> csr_backoff d = csr_backoff c \<Longrightarrow>
   totalReadiness d = totalReadiness c \<Longrightarrow> perNodeGroupReadiness d = perNodeGroupReadiness c \<Longrightarrow> registry_ok idf d = registry_ok idf c"
  by (simp add: registry_ok_def requests_ok_def request_ok_def)

lemma UpdateNodes_registry_ok:
  assumes "UpdateNodes cp ns t c = (err, c')" "registry_ok (ng_Id cp) c"
  shows "registry_ok (ng_Id cp) c'"
proof (cases err)
  case (Some e)
  then have "registry_ok (ng_Id cp) c' = registry_ok (ng_Id cp) c"
    using assms(1) by (intro registry_ok_cong)
      (auto simp: UpdateNodes_def getCloudProviderNodeInstances_def Let_def case_prod_beta split: sum.splits prod.splits)
  then show ?thesis using assms(2) by simp
next
  case None
  note f = UpdateNodes_facts [OF assms(1) [unfolded None]]
  obtain c3 where r: "perNodeGroupReadiness c' = perNodeGroupReadiness (updateReadinessStats cp t c3)"
      "totalReadiness c' = totalReadiness (updateReadinessStats cp t c3)" using f(3) by blast
  have "readiness_ok (totalReadiness c')"
    unfolding r updateReadinessStats_counts(2)
    using counted_ok [OF no_Readiness_ok(2)] by (simp add: readiness_ok_def add_unregistered_def tally_def)
  moreover have "readiness_ok x" if "map_of (perNodeGroupReadiness c') k = Some x" for k x
    using updateReadinessStats_counts(3) [OF that [unfolded r]] counted_ok [OF no_Readiness_ok(1)] by simp
  ultimately show ?thesis using f(4,5) assms(2) by (auto simp: registry_ok_def)
qed

lemma registry_step_ok:
  assumes "registry_step idf c d" "registry_ok idf c"
  shows "registry_ok idf d"
  using assms
proof (cases rule: registry_step.cases)
  case (scale_up cp g delta t)
  then show ?thesis using registry_ok_advances [OF RegisterOrUpdateScaleUp_advances assms(2)] by simp
next
  case (failed cp g reason t)
  then show ?thesis using registry_ok_advances [OF RegisterFailedScaleUp_advances assms(2)] by simp
next
  case (update_nodes cp ns t err)
  then show ?thesis using UpdateNodes_registry_ok assms(2) by metis
next
  case (recalculate cp)
  then show ?thesis using assms(2) registry_ok_cong [of "Recalculate cp c" c idf] by (simp add: Recalculate_def)
qed (use assms(2) registry_ok_cong [of d c idf] in \<open>simp add: RegisterScaleDown_def UpdateScaleDownCandidates_def
      RefreshCloudProviderNodeInstancesCache_def InvalidateNodeInstancesCacheEntry_def PeriodicCleanup_def\<close>)+

text \<open>
  C9. In every reachable state of the registry, whatever the cloud provider answers: every scale-up
  request is filed under its group, asks for a positive number of nodes and is expected one
  provision time after it was made; every backoff lasts between the initial and the maximal
  duration; and the classes of nodes partition the registered nodes, in the cluster and in each group.
\<close>

theorem registry_invariant:
  assumes "backoff_ok b" "backoffInfo b = []" "registry_reachable idf config b csr"
  shows "registry_ok idf csr"
  using assms(3)
proof (induction rule: registry_reachable.induct)
  case start
  then show ?case using assms(1) no_Readiness_ok(1) by (simp add: registry_ok_def requests_ok_def NewClusterStateRegistry_def)
next
  case (step c d)
  then show ?case by (blast intro: registry_step_ok)
qed

theorem registry_invariant_witness:
  "registry_ok (\<lambda>g. g) (PeriodicCleanup (NewClusterStateRegistry
     \<lparr>MaxTotalUnreadyPercentage = 45, OkTotalUnreadyCount = 3, MaxNodeProvisionTime = 15 * minute\<rparr>
     default_backoff))"
  by (rule registry_invariant [OF _ _ registry_reachable.step [OF registry_reachable.start registry_step.cleanup]])
    (rule default_backoff_ok, simp add: default_backoff_def NewExponentialBackoff_def)

end
