(* ===== verification/Registry_Safety.thy ===== *)
theory Registry_Safety
  imports Registry_Correct
begin

text \<open>
  What an update of the registry decides: the exact statistics and ranges of a group, that a scale-up
  that times out keeps its group from being scaled up for at least the initial backoff, and what is
  decided when the cloud provider fails.
\<close>

section \<open>Statistics after an update\<close>

definition group_readiness :: "'g cloud_provider \<Rightarrow> time \<Rightarrow> 'g ClusterStateRegistry \<Rightarrow> string \<Rightarrow> Readiness" where
  "group_readiness cp t csr k =
     (let us = filter (\<lambda>u. unreg_group cp u = Some k) (map snd (unregisteredNodes csr));
          late = long_unregistered (MaxNodeProvisionTime (csr_config csr)) t
      in (add_unregistered (count_unreg late us) (count_unreg (\<lambda>u. \<not> late u) us)
            (tally t (nodes_in cp k (csr_nodes csr)) no_Readiness))\<lparr>rd_Time := t\<rparr>)"

lemma count_unreg_filter: "count_unreg P (filter Q us) = count_unreg (\<lambda>u. Q u \<and> P u) us"
  by (simp add: count_unreg_def conj_commute)

lemma UpdateNodes_readiness:
  assumes "UpdateNodes cp ns t csr = (None, csr')"
  shows "map_of (perNodeGroupReadiness csr') k = Some r \<Longrightarrow> r = group_readiness cp t csr' k"
    and "LongUnregistered (lookup_default no_Readiness (perNodeGroupReadiness csr') k) = LongUnregistered (group_readiness cp t csr' k)"
proof -
  note f = UpdateNodes_facts [OF assms]
  obtain c3 where c3: "csr_config c3 = csr_config csr" "csr_nodes c3 = ns" "unregisteredNodes c3 = unregisteredNodes csr'"
    "perNodeGroupReadiness csr' = perNodeGroupReadiness (updateReadinessStats cp t c3)" using f(3) by blast
  show "r = group_readiness cp t csr' k" if "map_of (perNodeGroupReadiness csr') k = Some r"
    using updateReadinessStats_counts(3) [OF that [unfolded c3(4)]] f(1,2) c3
    by (simp add: group_readiness_def Let_def count_unreg_filter)
  show "LongUnregistered (lookup_default no_Readiness (perNodeGroupReadiness csr') k) = LongUnregistered (group_readiness cp t csr' k)"
    using updateReadinessStats_counts(5) [of cp t c3 k] f(1,2) c3
    by (simp add: group_readiness_def Let_def count_unreg_filter add_unregistered_def tally_def no_Readiness_def)
qed

text \<open>
  C27. After a successful update the statistics of a node group count its nodes exactly (each in one
  class, and the unregistered ones by how long they are missing), and its acceptable range is the
  target size of the cloud provider, less what is missing for too long or still being added, up to
  that size and the nodes being deleted.
\<close>

theorem UpdateNodes_exact:
  assumes "UpdateNodes cp ns t csr = (None, csr')" "registry_ok (ng_Id cp) csr"
    and "distinct (map (ng_Id cp) (cp_NodeGroups cp))" "g \<in> set (cp_NodeGroups cp)"
  shows "\<exists>size. ng_TargetSize cp g = Inr size \<and>
    map_of (acceptableRanges csr') (ng_Id cp g) =
      Some \<lparr>MinNodes = size - LongUnregistered (group_readiness cp t csr' (ng_Id cp g)) - pending_increase csr' (ng_Id cp g),
            MaxNodes = size + pending_deletions cp csr' (ng_Id cp g), CurrentTarget = size\<rparr> \<and>
    (\<forall>r. map_of (perNodeGroupReadiness csr') (ng_Id cp g) = Some r \<longrightarrow> r = group_readiness cp t csr' (ng_Id cp g))"
proof -
  have "requests_ok (ng_Id cp) csr" using assms(2) by (simp add: registry_ok_def)
  then obtain targets where tg: "getTargetSizes cp = Inr targets"
    and a: "map_of (acceptableRanges csr') (ng_Id cp g) =
         (let k = ng_Id cp g; size = lookup_default 0 targets k in
          Some \<lparr>MinNodes = size - LongUnregistered (lookup_default no_Readiness (perNodeGroupReadiness csr') k) - pending_increase csr' k,
                MaxNodes = size + pending_deletions cp csr' k, CurrentTarget = size\<rparr>)"
    using UpdateNodes_facts(6) [OF assms(1) _ assms(4)] by blast
  have "ng_TargetSize cp g = Inr (lookup_default 0 targets (ng_Id cp g))"
    using target_sizes_lookup [OF tg [unfolded getTargetSizes_def] assms(3)] assms(4) by blast
  then show ?thesis using a UpdateNodes_readiness [OF assms(1)] by (simp add: Let_def)
qed

section \<open>A scale-up that times out\<close>

text \<open>The group is backed off at a time, and no request of it is left.\<close>

definition held :: "string \<Rightarrow> time \<Rightarrow> 'g ClusterStateRegistry \<Rightarrow> bool" where
  "held k t' c \<longleftrightarrow> map_of (scaleUpRequests c) k = None \<and> IsBackedOff (csr_backoff c) k t' \<and> backoff_ok (csr_backoff c)"

lemma held_foldl: "(\<And>c x. x \<in> set xs \<Longrightarrow> held k t' c \<Longrightarrow> held k t' (f c x)) \<Longrightarrow> held k t' c \<Longrightarrow> held k t' (foldl f c xs)"
  by (induction xs arbitrary: c) auto

lemma RegisterFailedScaleUp_backoff:
  assumes "backoff_ok (csr_backoff c)"
  shows "scaleUpRequests (RegisterFailedScaleUp cp g reason t c) = scaleUpRequests c"
    and "backoff_ok (csr_backoff (RegisterFailedScaleUp cp g reason t c))"
    and "ng_Id cp g \<noteq> k \<Longrightarrow> IsBackedOff (csr_backoff (RegisterFailedScaleUp cp g reason t c)) k t' = IsBackedOff (csr_backoff c) k t'"
    and "t' < t + initialBackoffDuration (csr_backoff c) \<Longrightarrow> IsBackedOff (csr_backoff (RegisterFailedScaleUp cp g reason t c)) (ng_Id cp g) t'"
proof -
  obtain u b where b: "exp_Backoff (csr_backoff c) (ng_Id cp g) t = (u, b)" by (cases "exp_Backoff (csr_backoff c) (ng_Id cp g) t")
  note f = exponential.fail [OF assms b]
  have u: "t + initialBackoffDuration (csr_backoff c) \<le> u"
    using b next_duration_bounds [OF assms, of "ng_Id cp g" t] by (auto simp: exp_Backoff_def Let_def time_Add_def)
  have r: "csr_backoff (RegisterFailedScaleUp cp g reason t c) = b" using b by (simp add: RegisterFailedScaleUp_def backoffNodeGroup_def)
  show "scaleUpRequests (RegisterFailedScaleUp cp g reason t c) = scaleUpRequests c"
    by (simp add: RegisterFailedScaleUp_def backoffNodeGroup_def)
  show "backoff_ok (csr_backoff (RegisterFailedScaleUp cp g reason t c))" using f r by simp
  show "IsBackedOff (csr_backoff (RegisterFailedScaleUp cp g reason t c)) k t' = IsBackedOff (csr_backoff c) k t'" if "ng_Id cp g \<noteq> k"
    using f r that by auto
  show "IsBackedOff (csr_backoff (RegisterFailedScaleUp cp g reason t c)) (ng_Id cp g) t'" if "t' < t + initialBackoffDuration (csr_backoff c)"
    using f r u that by auto
qed

lemma update_request_held:
  assumes "held k t' c" "fst e = ng_Id cp (sur_NodeGroup (snd e))" "fst e \<noteq> k"
  shows "held k t' (update_request cp t c e)"
proof -
  obtain n r where e: "e = (n, r)" by (cases e)
  have h: "map_of (scaleUpRequests c) k = None" "IsBackedOff (csr_backoff c) k t'" "backoff_ok (csr_backoff c)" using assms(1) by (auto simp: held_def)
  show ?thesis
    using h assms(2,3) RegisterFailedScaleUp_backoff [OF h(3)] exponential.succeed [OF h(3), of n]
    by (auto simp: e update_request_def Let_def held_def delete_conv')
qed

lemma RegisterOrUpdateScaleUp_held:
  "held k t' c \<Longrightarrow> ng_Id cp g \<noteq> k \<Longrightarrow> held k t' (RegisterOrUpdateScaleUp cp g delta t c)"
  by (auto simp: held_def RegisterOrUpdateScaleUp_def Let_def update_conv' delete_conv' split: option.split)

lemma handle_error_code_held: "held k t' c \<Longrightarrow> held k t' (handle_error_code cp g previous t c e)"
proof (cases "ng_Id cp g = k")
  case True
  assume "held k t' c"
  then show ?thesis using True by (auto simp: handle_error_code_def IsNodeGroupScalingUp_def held_def Let_def case_prod_beta)
next
  case False
  assume h: "held k t' c"
  define c1 where "c1 = RegisterOrUpdateScaleUp cp g (- int (length (filter (\<lambda>i. map_of previous (inst_Id i) = None) (snd e)))) t c"
  have h1: "held k t' c1" unfolding c1_def by (rule RegisterOrUpdateScaleUp_held [OF h False])
  then have b1: "backoff_ok (csr_backoff c1)" by (simp add: held_def)
  have "held k t' (RegisterFailedScaleUp cp g reason t c1)" for reason
    using RegisterFailedScaleUp_backoff(1-3) [OF b1] False h1 by (auto simp: held_def)
  then show ?thesis using h by (simp add: handle_error_code_def c1_def Let_def case_prod_beta)
qed

lemma handleInstanceCreationErrors_held: "held k t' c \<Longrightarrow> held k t' (handleInstanceCreationErrors cp t c)"
  unfolding handleInstanceCreationErrors_def handleInstanceCreationErrorsForNodeGroup_def Let_def case_prod_beta
  by (intro held_foldl handle_error_code_held)

lemma upcoming_observed:
  assumes "observed c = observed d"
  shows "areThereUpcomingNodesInNodeGroup c k = areThereUpcomingNodesInNodeGroup d k"
  unfolding areThereUpcomingNodesInNodeGroup_def getProvisionedAndTargetSizesForNodeGroup_def observedD(3,5) [OF assms] by (rule refl)

lemma updateScaleRequests_held:
  assumes rq: "requests_ok (ng_Id cp) c" and b: "backoff_ok (csr_backoff c)" and r: "map_of (scaleUpRequests c) k = Some r"
    and up: "areThereUpcomingNodesInNodeGroup c k" and late: "ExpectedAddTime r < t"
    and t': "t' < t + initialBackoffDuration (csr_backoff c)"
  shows "held k t' (updateScaleRequests cp t c)"
proof -
  let ?c1 = "c\<lparr>csr_backoff := RemoveStaleBackoffData (csr_backoff c) t\<rparr>" and ?f = "foldl (update_request cp t)"
  obtain xs ys where s: "scaleUpRequests c = xs @ (k, r) # ys" using map_of_SomeD [OF r] by (auto simp: in_set_conv_decomp)
  have names: "fst e = ng_Id cp (sur_NodeGroup (snd e))" if "e \<in> set (scaleUpRequests c)" for e
    using rq that by (auto simp: requests_ok_def request_ok_def)
  have other: "fst e \<noteq> k" if "e \<in> set ys" for e
    using rq that by (force simp: requests_ok_def gomap_ok_def s)
  have rk: "ng_Id cp (sur_NodeGroup r) = k" using names [of "(k, r)"] by (simp add: s)
  let ?c2 = "?f ?c1 xs"
  have adv: "advances (ng_Id cp) c ?c2"
    by (rule advances_trans [OF RemoveStale_advances advances_foldl [OF update_request_advances]])
  have b2: "backoff_ok (csr_backoff ?c2)" using adv b by (simp add: advances_def)
  have o2: "observed ?c2 = observed c" using adv by (simp add: advances_def)
  have "areThereUpcomingNodesInNodeGroup ?c2 k" using up upcoming_observed [OF o2] by simp
  moreover have "t' < t + initialBackoffDuration (csr_backoff ?c2)" using t' observedD(7) [OF o2] by simp
  ultimately have "held k t' (update_request cp t ?c2 (k, r))"
    using late rk RegisterFailedScaleUp_backoff [OF b2] unfolding held_def update_request_def Let_def
    by (auto simp: time_Before_def delete_conv')
  then have "held k t' (?f (update_request cp t ?c2 (k, r)) ys)"
    by (rule held_foldl [rotated]) (rule update_request_held, assumption, use names other s in auto)
  then show ?thesis by (simp add: updateScaleRequests_def s held_def Let_def)
qed

lemma upcoming_of_range:
  assumes "map_of (acceptableRanges c) k = Some a" "map_of (acceptableRanges d) k = Some b"
    "CurrentTarget a = CurrentTarget b" "perNodeGroupReadiness c = perNodeGroupReadiness d"
  shows "areThereUpcomingNodesInNodeGroup c k = areThereUpcomingNodesInNodeGroup d k"
proof -
  have "acceptableRanges c \<noteq> []" "acceptableRanges d \<noteq> []" using assms(1,2) by auto
  then show ?thesis
    unfolding areThereUpcomingNodesInNodeGroup_def getProvisionedAndTargetSizesForNodeGroup_def assms(1,2,4)
    using assms(3) by (simp split: option.split)
qed

text \<open>
  C10. A scale-up that is not complete after the provision time is given up by the next update of the
  nodes: its request is removed and its group is not safe to scale up for at least the initial
  backoff duration, whatever happens to the other groups in the same update.
\<close>

theorem timed_out_scale_up_held:
  assumes u: "UpdateNodes cp ns t csr = (None, csr')" and ok: "registry_ok (ng_Id cp) csr"
    and g: "g \<in> set (cp_NodeGroups cp)" and r: "map_of (scaleUpRequests csr) (ng_Id cp g) = Some r"
    and late: "ExpectedAddTime r < t" and up: "areThereUpcomingNodesInNodeGroup csr' (ng_Id cp g)"
    and t': "t' < t + initialBackoffDuration (csr_backoff csr)"
  shows "map_of (scaleUpRequests csr') (ng_Id cp g) = None \<and> IsBackedOff (csr_backoff csr') (ng_Id cp g) t' \<and>
    \<not> IsNodeGroupSafeToScaleUp cp csr' g t'"
proof -
  let ?k = "ng_Id cp g"
  obtain targets instances cache c3 where c3: "c3 = updateUnregisteredNodes (getNotRegisteredNodes ns instances t)
       (csr\<lparr>instancesCache := cache, csr_nodes := ns, previousCloudProviderNodeInstances := cloudProviderNodeInstances csr,
            cloudProviderNodeInstances := instances\<rparr>)"
    and csr': "csr' = updateIncorrectNodeGroupSizes cp t (updateAcceptableRanges cp targets (handleInstanceCreationErrors cp t
             (updateScaleRequests cp t (updateAcceptableRanges cp targets (updateReadinessStats cp t c3)))))"
    using UpdateNodes_steps [OF u] by (elim exE conjE) (rule that)
  define c4 where "c4 = updateReadinessStats cp t c3"
  define c5 where "c5 = updateAcceptableRanges cp targets c4"
  define c7 where "c7 = handleInstanceCreationErrors cp t (updateScaleRequests cp t c5)"
  have c': "csr' = updateIncorrectNodeGroupSizes cp t (updateAcceptableRanges cp targets c7)" by (simp add: csr' c7_def c5_def c4_def)
  have k4: "csr_config c4 = csr_config csr" "scaleUpRequests c4 = scaleUpRequests csr" "csr_backoff c4 = csr_backoff csr"
    by (simp_all add: c4_def updateReadinessStats_keeps c3)
  then have k5: "csr_config c5 = csr_config csr" "scaleUpRequests c5 = scaleUpRequests csr" "csr_backoff c5 = csr_backoff csr"
    by (simp_all add: c5_def)
  have rq: "requests_ok (ng_Id cp) csr" and b: "backoff_ok (csr_backoff csr)" using ok by (auto simp: registry_ok_def)
  have rq4: "requests_ok (ng_Id cp) c4" and rq5: "requests_ok (ng_Id cp) c5" using rq k4 k5 requests_ok_cong by metis+
  have adv: "advances (ng_Id cp) c5 c7" unfolding c7_def by (rule requests_part_advances [OF refl])
  have rq7: "requests_ok (ng_Id cp) c7" using adv rq5 by (simp add: advances_def)
  have readiness: "perNodeGroupReadiness csr' = perNodeGroupReadiness c5" using adv observedD(3) by (auto simp: c' advances_def)
  have "areThereUpcomingNodesInNodeGroup csr' ?k = areThereUpcomingNodesInNodeGroup c5 ?k"
  proof (rule upcoming_of_range [OF _ _ _ readiness])
    show "map_of (acceptableRanges csr') ?k = Some (the (map_of (acceptableRanges csr') ?k))"
      and "map_of (acceptableRanges c5) ?k = Some (the (map_of (acceptableRanges c5) ?k))"
      and "CurrentTarget (the (map_of (acceptableRanges csr') ?k)) = CurrentTarget (the (map_of (acceptableRanges c5) ?k))"
      using updateAcceptableRanges_range [OF _ g, of _ targets] rq4 rq7 by (simp_all add: c' c5_def requests_ok_def Let_def)
  qed
  then have "held ?k t' (updateScaleRequests cp t c5)" using updateScaleRequests_held [OF rq5 _ _ _ late] b r t' up k5 by simp
  then have "held ?k t' c7" unfolding c7_def by (rule handleInstanceCreationErrors_held)
  then show ?thesis by (auto simp: held_def c' IsNodeGroupSafeToScaleUp_def)
qed

section \<open>A sample registry\<close>

definition sample_provider :: "string cloud_provider" where
  "sample_provider =
     \<lparr>ng_Id = (\<lambda>g. g), ng_TargetSize = (\<lambda>_. Inr 3), ng_MaxSize = (\<lambda>_. 10), cp_NodeGroups = [''a''],
      ng_MinSize = (\<lambda>_. 0), ng_Nodes = (\<lambda>_ _. Inr []), cp_NodeGroupForNode = (\<lambda>_. (Some ''a'', None))\<rparr>"

definition sample_registry :: "string ClusterStateRegistry" where
  "sample_registry = RegisterOrUpdateScaleUp sample_provider ''a'' 2 0
     (NewClusterStateRegistry \<lparr>MaxTotalUnreadyPercentage = 45, OkTotalUnreadyCount = 3, MaxNodeProvisionTime = 15 * minute\<rparr> default_backoff)"

lemma sample_registry_ok: "registry_ok (\<lambda>g. g) sample_registry"
proof -
  have "registry_ok (\<lambda>g. g) (NewClusterStateRegistry config default_backoff)" for config
    using no_Readiness_ok(1) default_backoff_ok by (simp add: registry_ok_def requests_ok_def NewClusterStateRegistry_def)
  moreover have "ng_Id sample_provider = (\<lambda>g. g)" by (simp add: sample_provider_def)
  ultimately show ?thesis unfolding sample_registry_def by (blast intro: registry_ok_advances RegisterOrUpdateScaleUp_advances)
qed

lemma sample_update: "\<exists>csr'. UpdateNodes sample_provider [] (20 * minute) sample_registry = (None, csr')"
proof -
  have "instancesCache sample_registry = []"
    by (simp add: sample_registry_def RegisterOrUpdateScaleUp_def NewClusterStateRegistry_def Let_def)
  moreover have "GetCloudProviderNodeInstances sample_provider t [] = (Inr [(''a'', [])], [(''a'', \<lparr>ce_instances = [], ce_refreshTime = t\<rparr>)])" for t
    by (simp add: GetCloudProviderNodeInstances_def fetch_missing_def sample_provider_def fetchCloudProviderNodeInstancesForNodeGroup_def
        GetCloudProviderNodeInstancesForNodeGroup_def)
  ultimately obtain c where c: "getCloudProviderNodeInstances sample_provider (20 * minute) sample_registry = (Inr [(''a'', [])], c)"
    by (simp add: getCloudProviderNodeInstances_def InvalidateCacheEntry_def sample_provider_def)
  have tg: "getTargetSizes sample_provider = Inr [(''a'', 3)]" by (simp add: getTargetSizes_def sample_provider_def)
  show ?thesis unfolding UpdateNodes_def c tg sum.case prod.case Let_def by (rule exI, rule refl)
qed

lemma sample_upcoming:
  assumes "UpdateNodes sample_provider [] t sample_registry = (None, csr')"
  shows "areThereUpcomingNodesInNodeGroup csr' ''a''"
proof -
  have "requests_ok (ng_Id sample_provider) sample_registry"
    using sample_registry_ok by (simp add: registry_ok_def sample_provider_def)
  then have "\<exists>a. map_of (acceptableRanges csr') ''a'' = Some a \<and> CurrentTarget a = 3"
    using UpdateNodes_facts(6) [OF assms, of "''a''"] by (simp add: sample_provider_def getTargetSizes_def Let_def lookup_default_def)
  moreover have "csr_nodes csr' = []" using UpdateNodes_facts(2) [OF assms] .
  then have "Registered r - NotStarted r - LongNotStarted r = 0" if "map_of (perNodeGroupReadiness csr') ''a'' = Some r" for r
    using UpdateNodes_readiness(1) [OF assms that]
    by (simp add: group_readiness_def nodes_in_def Let_def add_unregistered_def no_Readiness_def)
  ultimately show ?thesis
    by (auto simp: areThereUpcomingNodesInNodeGroup_def getProvisionedAndTargetSizesForNodeGroup_def split: option.split)
qed

theorem timed_out_scale_up_held_witness:
  "\<exists>csr'. UpdateNodes sample_provider [] (20 * minute) sample_registry = (None, csr') \<and>
     \<not> IsNodeGroupSafeToScaleUp sample_provider csr' ''a'' (24 * minute)"
proof -
  obtain csr' where u: "UpdateNodes sample_provider [] (20 * minute) sample_registry = (None, csr')" using sample_update by blast
  have "\<not> IsNodeGroupSafeToScaleUp sample_provider csr' ''a'' (24 * minute)"
    using timed_out_scale_up_held [OF u, of "''a''" "the (map_of (scaleUpRequests sample_registry) ''a'')" "24 * minute"]
      sample_registry_ok sample_upcoming [OF u]
    by (simp add: sample_provider_def sample_registry_def RegisterOrUpdateScaleUp_def NewClusterStateRegistry_def
        default_backoff_def NewExponentialBackoff_def InitialNodeGroupBackoffDuration_def Let_def time_Add_def minute_def second_def)
  then show ?thesis using u by blast
qed

theorem UpdateNodes_exact_witness:
  "\<exists>csr' a. UpdateNodes sample_provider [] (20 * minute) sample_registry = (None, csr') \<and>
     map_of (acceptableRanges csr') ''a'' = Some a \<and> CurrentTarget a = 3"
proof -
  obtain csr' where u: "UpdateNodes sample_provider [] (20 * minute) sample_registry = (None, csr')" using sample_update by blast
  show ?thesis using UpdateNodes_exact [OF u, of "''a''"] sample_registry_ok u by (auto simp: sample_provider_def)
qed

section \<open>When the cloud provider fails\<close>

lemma target_sizes_error: "bad \<in> set gs \<Longrightarrow> ng_TargetSize cp bad = Inl e \<Longrightarrow> \<exists>e'. target_sizes cp gs m = Inl e'"
  by (induction gs arbitrary: m) (auto split: sum.split)

lemma provisioned_nonneg: "readiness_ok r \<Longrightarrow> 0 \<le> Registered r - NotStarted r - LongNotStarted r"
  by (simp add: readiness_ok_def)

text \<open>
  C40. When the size of any node group cannot be read, \<open>Recalculate\<close> does not keep the ranges it had:
  every group gets the target size 0, no group counts as scaling up any more, whatever was requested
  for it, and the smallest acceptable size of a group with a request becomes negative.
\<close>

theorem Recalculate_error_zeroes_targets:
  assumes "bad \<in> set (cp_NodeGroups cp)" "ng_TargetSize cp bad = Inl e"
    and "registry_ok (ng_Id cp) csr" "g \<in> set (cp_NodeGroups cp)"
  shows "map_of (acceptableRanges (Recalculate cp csr)) (ng_Id cp g) =
      Some \<lparr>MinNodes = - LongUnregistered (lookup_default no_Readiness (perNodeGroupReadiness csr) (ng_Id cp g)) - pending_increase csr (ng_Id cp g),
            MaxNodes = pending_deletions cp csr (ng_Id cp g), CurrentTarget = 0\<rparr> \<and>
    \<not> IsNodeGroupScalingUp (Recalculate cp csr) (ng_Id cp g)"
proof -
  obtain e' where "getTargetSizes cp = Inl e'" using target_sizes_error [OF assms(1,2)] by (auto simp: getTargetSizes_def)
  then have R: "Recalculate cp csr = updateAcceptableRanges cp [] csr" by (simp add: Recalculate_def)
  have a: "map_of (acceptableRanges (Recalculate cp csr)) (ng_Id cp g) =
      Some \<lparr>MinNodes = - LongUnregistered (lookup_default no_Readiness (perNodeGroupReadiness csr) (ng_Id cp g)) - pending_increase csr (ng_Id cp g),
            MaxNodes = pending_deletions cp csr (ng_Id cp g), CurrentTarget = 0\<rparr>"
    using updateAcceptableRanges_range [OF _ assms(4), of csr "[]"] assms(3)
    by (simp add: R registry_ok_def requests_ok_def Let_def lookup_default_def)
  have p: "perNodeGroupReadiness (Recalculate cp csr) = perNodeGroupReadiness csr" by (simp add: R)
  have "0 \<le> Registered r - NotStarted r - LongNotStarted r" if "map_of (perNodeGroupReadiness csr) (ng_Id cp g) = Some r" for r
    using assms(3) that provisioned_nonneg by (auto simp: registry_ok_def)
  then have "\<not> areThereUpcomingNodesInNodeGroup (Recalculate cp csr) (ng_Id cp g)"
    using a unfolding areThereUpcomingNodesInNodeGroup_def getProvisionedAndTargetSizesForNodeGroup_def p
    by (cases "map_of (perNodeGroupReadiness csr) (ng_Id cp g)") (auto simp: not_less)
  then show ?thesis using a by (simp add: IsNodeGroupScalingUp_def)
qed

theorem Recalculate_error_zeroes_targets_witness:
  "\<not> IsNodeGroupScalingUp (Recalculate (sample_provider\<lparr>ng_TargetSize := \<lambda>_. Inl (Err ''timeout'')\<rparr>) sample_registry) ''a''"
  using Recalculate_error_zeroes_targets [of "''a''" "sample_provider\<lparr>ng_TargetSize := \<lambda>_. Inl (Err ''timeout'')\<rparr>" _ sample_registry "''a''"]
    sample_registry_ok by (simp add: sample_provider_def)

lemma refreshed_entry:
  "distinct (map f gs) \<Longrightarrow> g \<in> set gs \<Longrightarrow> map_of (foldl (\<lambda>c g. AList.update (f g) (h g) c) m gs) (f g) = Some (h g)"
proof (induction gs arbitrary: m)
  case (Cons x gs)
  have "map_of (foldl (\<lambda>c g. AList.update (f g) (h g) c) m gs) k = map_of m k" if "k \<notin> f ` set gs" for m k
    using that by (induction gs arbitrary: m) (auto simp: update_conv')
  then show ?case using Cons by (cases "g = x") (auto simp: update_conv')
qed simp

text \<open>
  A background refresh of the cache of cloud instances that cannot list the nodes of a group
  stores an empty list for it, as if the group had no instances: until the next refresh or
  invalidation every reader gets the empty list, not an error.
\<close>

theorem Refresh_error_empties_group:
  assumes "distinct (map (ng_Id cp) (cp_NodeGroups cp))" "g \<in> set (cp_NodeGroups cp)" "ng_Nodes cp 0 g = Inl e"
    and "ng_Id cp' g' = ng_Id cp g"
  shows "GetCloudProviderNodeInstancesForNodeGroup cp' now' g' (cache_Refresh cp now cache) = (Inr [], cache_Refresh cp now cache)"
proof -
  have "map_of (cache_Refresh cp now cache) (ng_Id cp g) = Some \<lparr>ce_instances = [], ce_refreshTime = now\<rparr>"
    using refreshed_entry [OF assms(1,2), of "\<lambda>g. \<lparr>ce_instances = (case ng_Nodes cp 0 g of Inr is \<Rightarrow> is | Inl _ \<Rightarrow> []), ce_refreshTime = now\<rparr>"]
      assms(3) by (simp add: cache_Refresh_def)
  then show ?thesis using assms(4) by (simp add: GetCloudProviderNodeInstancesForNodeGroup_def)
qed

theorem Refresh_error_empties_group_witness:
  "fst (GetCloudProviderNodeInstancesForNodeGroup sample_provider 1 ''a''
     (cache_Refresh (sample_provider\<lparr>ng_Nodes := \<lambda>_ _. Inl (Err ''timeout'')\<rparr>) 0
       [(''a'', \<lparr>ce_instances = [\<lparr>inst_Id = ''i'', inst_Status = None\<rparr>], ce_refreshTime = -60\<rparr>)])) = Inr []"
  by (subst Refresh_error_empties_group [of _ "''a''"]) (simp_all add: sample_provider_def)

end
