(* ===== verification/Drain.thy ===== *)
theory Drain
  imports Target_Fetcher
begin

text \<open>
  Which pods of a node have to be moved when the node is drained, and which pods forbid it
  (\<open>cluster-autoscaler/utils/drain/drain.go\<close>, \<open>utils/pod/pod.go\<close>, \<open>utils/tpu/tpu.go\<close>,
  \<open>simulator/drain.go\<close>). The listers of controllers are a parameter; a lister answers with an error,
  with nothing, or with an object, of which only the replicas are read. The conversion of label
  selectors is that of theory \<open>Target_Fetcher\<close>.
\<close>

section \<open>Pods\<close>

record Volume =
  HostPath :: bool
  EmptyDir :: bool

record ca_Pod = Pod +
  RestartPolicy :: string
  pod_Volumes :: "Volume list"
  pod_NodeName :: string
  pod_UID :: string
  pod_Priority :: "int option"
  NominatedNodeName :: string

fun GetControllerOf :: "OwnerReference list \<Rightarrow> OwnerReference option" where
  "GetControllerOf [] = None"
| "GetControllerOf (r # rs) = (if or_Controller r = Some True then Some r else GetControllerOf rs)"

definition annotation :: "'z Pod_scheme \<Rightarrow> string \<Rightarrow> string option" where
  "annotation pod k = map_of (list_of (pod_Annotations pod)) k"

definition DaemonSetPodAnnotationKey :: string where
  "DaemonSetPodAnnotationKey = ''cluster-autoscaler.kubernetes.io/daemonset-pod''"

definition IsDaemonSetPod :: "'z Pod_scheme \<Rightarrow> bool" where
  "IsDaemonSetPod pod \<longleftrightarrow>
     (case GetControllerOf (OwnerReferences pod) of Some r \<Rightarrow> or_Kind r = ''DaemonSet'' | None \<Rightarrow> False) \<or>
     annotation pod DaemonSetPodAnnotationKey = Some ''true''"

definition IsMirrorPod :: "'z Pod_scheme \<Rightarrow> bool" where
  "IsMirrorPod pod \<longleftrightarrow> annotation pod ''kubernetes.io/config.mirror'' \<noteq> None"

definition IsStaticPod :: "'z Pod_scheme \<Rightarrow> bool" where
  "IsStaticPod pod =
     (case annotation pod ''kubernetes.io/config.source'' of Some source \<Rightarrow> source \<noteq> ''api'' | None \<Rightarrow> False)"

definition ResourceTPUPrefix :: string where "ResourceTPUPrefix = ''cloud-tpus.google.com/''"

definition is_TPU :: "string \<Rightarrow> bool" where
  "is_TPU name \<longleftrightarrow> take (length ResourceTPUPrefix) name = ResourceTPUPrefix"

definition hasTPURequest :: "'z Pod_scheme \<Rightarrow> bool" where
  "hasTPURequest pod = list_ex (\<lambda>c. list_ex (\<lambda>(name, _). is_TPU name) (list_of (Requests (c_Resources c)))) (pod_Containers pod)"

definition clearTPURequest :: "'z Pod_scheme \<Rightarrow> 'z Pod_scheme" where
  "clearTPURequest pod =
     pod\<lparr>pod_Containers := map (\<lambda>c. c\<lparr>c_Resources := (c_Resources c)\<lparr>Requests :=
            map_option (filter (\<lambda>(name, _). \<not> is_TPU name)) (Requests (c_Resources c))\<rparr>\<rparr>) (pod_Containers pod)\<rparr>"

definition ClearTPURequests :: "'z Pod_scheme list \<Rightarrow> 'z Pod_scheme list" where
  "ClearTPURequests pods = map (\<lambda>pod. if hasTPURequest pod then clearTPURequest pod else pod) pods"

section \<open>What blocks a drain\<close>

datatype BlockingPodReason =
    NoReason
  | ControllerNotFound
  | MinReplicasReached
  | NotReplicated
  | LocalStorageRequested
  | NotSafeToEvictAnnotation
  | UnmovableKubeSystemPod
  | NotEnoughPdb
  | UnexpectedError

record BlockingPod =
  bp_Pod :: ca_Pod
  bp_Reason :: BlockingPodReason

record PodDisruptionBudget =
  pdb_Namespace :: string
  pdb_Selector :: "LabelSelector option"
  DisruptionsAllowed :: int

record ListerRegistry =
  ReplicationControllerLister :: "string \<Rightarrow> string \<Rightarrow> int option option result"
  DaemonSetLister :: "string \<Rightarrow> string \<Rightarrow> unit result"
  JobLister :: "string \<Rightarrow> string \<Rightarrow> unit option result"
  ReplicaSetLister :: "string \<Rightarrow> string \<Rightarrow> int option option result"
  StatefulSetLister :: "string \<Rightarrow> string \<Rightarrow> unit option result"
  NotFound :: "go_error \<Rightarrow> bool"

text \<open>The validity of label keys and values, which the conversion of selectors checks.\<close>

record label_rules =
  ValidKey :: "string \<Rightarrow> bool"
  ValidValue :: "string \<Rightarrow> bool"

type_synonym 'a drain_result = "(BlockingPod option \<times> go_error) + 'a"

definition PodDeletionTimeout :: duration where "PodDeletionTimeout = 12 * minute"

definition PodSafeToEvictKey :: string where
  "PodSafeToEvictKey = ''cluster-autoscaler.kubernetes.io/safe-to-evict''"

definition hasSafeToEvictAnnotation :: "ca_Pod \<Rightarrow> bool" where
  "hasSafeToEvictAnnotation pod \<longleftrightarrow> annotation pod PodSafeToEvictKey = Some ''true''"

definition hasNotSafeToEvictAnnotation :: "ca_Pod \<Rightarrow> bool" where
  "hasNotSafeToEvictAnnotation pod \<longleftrightarrow> annotation pod PodSafeToEvictKey = Some ''false''"

definition isPodTerminal :: "ca_Pod \<Rightarrow> bool" where
  "isPodTerminal pod \<longleftrightarrow>
     RestartPolicy pod = ''Never'' \<and> (Phase pod = ''Succeeded'' \<or> Phase pod = ''Failed'') \<or>
     RestartPolicy pod = ''OnFailure'' \<and> Phase pod = ''Succeeded'' \<or>
     Phase pod = ''Failed''"

definition isLocalVolume :: "Volume \<Rightarrow> bool" where
  "isLocalVolume v \<longleftrightarrow> HostPath v \<or> EmptyDir v"

definition HasLocalStorage :: "ca_Pod \<Rightarrow> bool" where
  "HasLocalStorage pod = list_ex isLocalVolume (pod_Volumes pod)"

definition pdb_selector :: "label_rules \<Rightarrow> PodDisruptionBudget \<Rightarrow> Selector result" where
  "pdb_selector lr pdb = LabelSelectorAsSelector (ValidKey lr) (ValidValue lr) (pdb_Selector pdb)"

fun checkKubeSystemPDBs :: "label_rules \<Rightarrow> ca_Pod \<Rightarrow> PodDisruptionBudget list \<Rightarrow> bool result" where
  "checkKubeSystemPDBs lr pod [] = Inr False"
| "checkKubeSystemPDBs lr pod (pdb # pdbs) =
     rbind (pdb_selector lr pdb) (\<lambda>selector.
       if Matches selector (pod_Labels pod) then Inr True else checkKubeSystemPDBs lr pod pdbs)"

definition refKind :: "ca_Pod \<Rightarrow> string" where
  "refKind pod = (case GetControllerOf (OwnerReferences pod) of Some r \<Rightarrow> or_Kind r | None \<Rightarrow> [])"

definition refName :: "ca_Pod \<Rightarrow> string" where
  "refName pod = (case GetControllerOf (OwnerReferences pod) of Some r \<Rightarrow> or_Name r | None \<Rightarrow> [])"

text \<open>
  What the controller of a pod says: that the pod belongs to a daemon set, that it is replicated, or
  a reason to block.
\<close>

definition replicas_answer :: "int \<Rightarrow> int option option result \<Rightarrow> (BlockingPodReason \<times> go_error) + (bool \<times> bool)" where
  "replicas_answer minReplica answer =
     (case answer of
        Inr (Some (Some n)) \<Rightarrow> if n < minReplica then Inl (MinReplicasReached, Err ''too few replicas'') else Inr (False, True)
      | Inr (Some None) \<Rightarrow> Inr (False, True)
      | _ \<Rightarrow> Inl (ControllerNotFound, Err ''controller is not available''))"

definition exists_answer :: "unit option result \<Rightarrow> (BlockingPodReason \<times> go_error) + (bool \<times> bool)" where
  "exists_answer answer =
     (case answer of Inr (Some _) \<Rightarrow> Inr (False, True) | _ \<Rightarrow> Inl (ControllerNotFound, Err ''controller is not available''))"

definition check_controller ::
    "bool \<Rightarrow> ListerRegistry \<Rightarrow> int \<Rightarrow> ca_Pod \<Rightarrow> (BlockingPodReason \<times> go_error) + (bool \<times> bool)" where
  "check_controller checkReferences listers minReplica pod =
     (let kind = refKind pod; name = refName pod; ns = pod_Namespace pod in
      if kind = ''ReplicationController''
      then (if checkReferences then replicas_answer minReplica (ReplicationControllerLister listers ns name) else Inr (False, True))
      else if IsDaemonSetPod pod
      then (if checkReferences \<and> kind = ''DaemonSet''
            then (case DaemonSetLister listers ns name of
                    Inl e \<Rightarrow> Inl (if NotFound listers e then ControllerNotFound else UnexpectedError, Err ''error getting daemonset'')
                  | Inr _ \<Rightarrow> Inr (True, False))
            else Inr (True, False))
      else if kind = ''Job''
      then (if checkReferences then exists_answer (JobLister listers ns name) else Inr (False, True))
      else if kind = ''ReplicaSet''
      then (if checkReferences then replicas_answer minReplica (ReplicaSetLister listers ns name) else Inr (False, True))
      else if kind = ''StatefulSet''
      then (if checkReferences then exists_answer (StatefulSetLister listers ns name) else Inr (False, True))
      else Inr (False, False))"

text \<open>Why a pod that is neither annotated as safe nor terminated forbids the drain, if it does.\<close>

definition eviction_problem ::
    "label_rules \<Rightarrow> PodDisruptionBudget list \<Rightarrow> bool \<Rightarrow> bool \<Rightarrow> bool \<Rightarrow> ca_Pod \<Rightarrow> (BlockingPodReason \<times> go_error) option" where
  "eviction_problem lr kubeSystemPDBs skipNodesWithSystemPods skipNodesWithLocalStorage replicated pod =
     (let after_system =
            (if HasLocalStorage pod \<and> skipNodesWithLocalStorage
             then Some (LocalStorageRequested, Err ''pod with local storage present'')
             else if hasNotSafeToEvictAnnotation pod
             then Some (NotSafeToEvictAnnotation, Err ''pod annotated as not safe to evict present'')
             else None)
      in if \<not> replicated then Some (NotReplicated, Err ''not replicated'')
         else if pod_Namespace pod = ''kube-system'' \<and> skipNodesWithSystemPods
         then (case checkKubeSystemPDBs lr pod kubeSystemPDBs of
                 Inl e \<Rightarrow> Some (UnexpectedError, e)
               | Inr False \<Rightarrow> Some (UnmovableKubeSystemPod, Err ''non-daemonset, non-mirrored, non-pdb-assigned kube-system pod present'')
               | Inr True \<Rightarrow> after_system)
         else after_system)"

definition deleted_long_ago :: "time \<Rightarrow> ca_Pod \<Rightarrow> bool" where
  "deleted_long_ago currentTime pod =
     (case DeletionTimestamp pod of
        Some t \<Rightarrow> time_Before t (time_Add currentTime (-1 * PodDeletionTimeout))
      | None \<Rightarrow> False)"

fun drain_loop ::
    "label_rules \<Rightarrow> PodDisruptionBudget list \<Rightarrow> bool \<Rightarrow> bool \<Rightarrow> bool \<Rightarrow> ListerRegistry \<Rightarrow> int \<Rightarrow> time \<Rightarrow>
     ca_Pod list \<Rightarrow> ca_Pod list \<Rightarrow> ca_Pod list drain_result" where
  "drain_loop lr kubeSystemPDBs sys local refs listers minReplica currentTime pods [] = Inr pods"
| "drain_loop lr kubeSystemPDBs sys local refs listers minReplica currentTime pods (pod # podList) =
     (let continue_with = (\<lambda>ps. drain_loop lr kubeSystemPDBs sys local refs listers minReplica currentTime ps podList);
          block = (\<lambda>(reason, e). Inl (Some \<lparr>bp_Pod = pod, bp_Reason = reason\<rparr>, e)) in
      if IsMirrorPod pod then continue_with pods
      else if deleted_long_ago currentTime pod then continue_with pods
      else (case check_controller refs listers minReplica pod of
              Inl problem \<Rightarrow> block problem
            | Inr (daemonsetPod, replicated) \<Rightarrow>
                if daemonsetPod then continue_with pods
                else if hasSafeToEvictAnnotation pod \<or> isPodTerminal pod then continue_with (pods @ [pod])
                else (case eviction_problem lr kubeSystemPDBs sys local replicated pod of
                        Some problem \<Rightarrow> block problem
                      | None \<Rightarrow> continue_with (pods @ [pod]))))"

definition GetPodsForDeletionOnNodeDrain ::
    "label_rules \<Rightarrow> ca_Pod list \<Rightarrow> PodDisruptionBudget list \<Rightarrow> bool \<Rightarrow> bool \<Rightarrow> bool \<Rightarrow> ListerRegistry \<Rightarrow> int \<Rightarrow> time \<Rightarrow>
     ca_Pod list drain_result" where
  "GetPodsForDeletionOnNodeDrain lr podList pdbs sys local refs listers minReplica currentTime =
     drain_loop lr (filter (\<lambda>pdb. pdb_Namespace pdb = ''kube-system'') pdbs) sys local refs listers minReplica currentTime [] podList"

section \<open>The simulator's checks\<close>

fun checkPdbs :: "label_rules \<Rightarrow> ca_Pod list \<Rightarrow> PodDisruptionBudget list \<Rightarrow> unit drain_result" where
  "checkPdbs lr pods [] = Inr ()"
| "checkPdbs lr pods (pdb # pdbs) =
     (case pdb_selector lr pdb of
        Inl e \<Rightarrow> Inl (None, e)
      | Inr selector \<Rightarrow>
          (case find (\<lambda>pod. pod_Namespace pod = pdb_Namespace pdb \<and> Matches selector (pod_Labels pod) \<and> DisruptionsAllowed pdb < 1) pods of
             Some pod \<Rightarrow> Inl (Some \<lparr>bp_Pod = pod, bp_Reason = NotEnoughPdb\<rparr>, Err ''not enough pod disruption budget to move'')
           | None \<Rightarrow> checkPdbs lr pods pdbs))"

definition with_pdbs :: "label_rules \<Rightarrow> PodDisruptionBudget list \<Rightarrow> ca_Pod list drain_result \<Rightarrow> ca_Pod list drain_result" where
  "with_pdbs lr pdbs r =
     (case r of
        Inl e \<Rightarrow> Inl e
      | Inr pods \<Rightarrow> (case checkPdbs lr pods pdbs of Inl e \<Rightarrow> Inl e | Inr _ \<Rightarrow> Inr pods))"

text \<open>Without references the listers, which are nil in the code, are not called.\<close>

definition FastGetPodsToMove ::
    "label_rules \<Rightarrow> ListerRegistry \<Rightarrow> time \<Rightarrow> ca_Pod list \<Rightarrow> bool \<Rightarrow> bool \<Rightarrow> PodDisruptionBudget list \<Rightarrow> ca_Pod list drain_result" where
  "FastGetPodsToMove lr listers now nodePods sys local pdbs =
     with_pdbs lr pdbs (GetPodsForDeletionOnNodeDrain lr nodePods pdbs sys local False listers 0 now)"

definition DetailedGetPodsForMove ::
    "label_rules \<Rightarrow> time \<Rightarrow> ca_Pod list \<Rightarrow> bool \<Rightarrow> bool \<Rightarrow> ListerRegistry \<Rightarrow> int \<Rightarrow> PodDisruptionBudget list \<Rightarrow> ca_Pod list drain_result" where
  "DetailedGetPodsForMove lr now nodePods sys local listers minReplicaCount pdbs =
     with_pdbs lr pdbs (GetPodsForDeletionOnNodeDrain lr nodePods pdbs sys local True listers minReplicaCount now)"

section \<open>The drain is safe\<close>

text \<open>Pods that a drain does not care about, and pods that may be moved.\<close>

definition left_alone :: "time \<Rightarrow> ca_Pod \<Rightarrow> bool" where
  "left_alone now pod \<longleftrightarrow> IsMirrorPod pod \<or> deleted_long_ago now pod \<or> refKind pod \<noteq> ''ReplicationController'' \<and> IsDaemonSetPod pod"

definition enough_replicas :: "int \<Rightarrow> int option option result \<Rightarrow> bool" where
  "enough_replicas minReplica answer =
     (case answer of Inr (Some None) \<Rightarrow> True | Inr (Some (Some n)) \<Rightarrow> minReplica \<le> n | _ \<Rightarrow> False)"

definition controller_fine :: "bool \<Rightarrow> ListerRegistry \<Rightarrow> int \<Rightarrow> ca_Pod \<Rightarrow> bool" where
  "controller_fine refs listers minReplica pod \<longleftrightarrow>
     (refs \<longrightarrow>
       (let k = refKind pod; ns = pod_Namespace pod; name = refName pod in
        if k = ''ReplicationController'' then enough_replicas minReplica (ReplicationControllerLister listers ns name)
        else if k = ''DaemonSet'' then \<exists>u. DaemonSetLister listers ns name = Inr u
        else if IsDaemonSetPod pod then True
        else if k = ''Job'' then JobLister listers ns name = Inr (Some ())
        else if k = ''ReplicaSet'' then enough_replicas minReplica (ReplicaSetLister listers ns name)
        else if k = ''StatefulSet'' then StatefulSetLister listers ns name = Inr (Some ())
        else True))"

definition replicated_kind :: "ca_Pod \<Rightarrow> bool" where
  "replicated_kind pod \<longleftrightarrow> refKind pod \<in> {''ReplicationController'', ''Job'', ''ReplicaSet'', ''StatefulSet''}"

definition covered_by :: "label_rules \<Rightarrow> PodDisruptionBudget list \<Rightarrow> ca_Pod \<Rightarrow> bool" where
  "covered_by lr pdbs pod \<longleftrightarrow> (\<exists>pdb \<in> set pdbs. \<exists>s. pdb_selector lr pdb = Inr s \<and> Matches s (pod_Labels pod))"

definition may_move :: "label_rules \<Rightarrow> PodDisruptionBudget list \<Rightarrow> bool \<Rightarrow> bool \<Rightarrow> ca_Pod \<Rightarrow> bool" where
  "may_move lr pdbs sys local pod \<longleftrightarrow>
     hasSafeToEvictAnnotation pod \<or> isPodTerminal pod \<or>
     (replicated_kind pod \<and> \<not> hasNotSafeToEvictAnnotation pod \<and> (local \<longrightarrow> \<not> HasLocalStorage pod) \<and>
      (sys \<and> pod_Namespace pod = ''kube-system'' \<longrightarrow> covered_by lr (filter (\<lambda>pdb. pdb_Namespace pdb = ''kube-system'') pdbs) pod))"

definition budget_left :: "label_rules \<Rightarrow> PodDisruptionBudget list \<Rightarrow> ca_Pod \<Rightarrow> bool" where
  "budget_left lr pdbs pod \<longleftrightarrow>
     (\<forall>pdb \<in> set pdbs. \<forall>s. pdb_selector lr pdb = Inr s \<longrightarrow> pod_Namespace pod = pdb_Namespace pdb \<longrightarrow> Matches s (pod_Labels pod) \<longrightarrow>
        1 \<le> DisruptionsAllowed pdb)"

definition selectors_valid :: "label_rules \<Rightarrow> PodDisruptionBudget list \<Rightarrow> bool" where
  "selectors_valid lr pdbs \<longleftrightarrow> (\<forall>pdb \<in> set pdbs. \<exists>s. pdb_selector lr pdb = Inr s)"

lemma checkPdbs_ok: "checkPdbs lr pods pdbs = Inr () \<longleftrightarrow> selectors_valid lr pdbs \<and> (\<forall>pod \<in> set pods. budget_left lr pdbs pod)"
proof (induction pdbs)
  case (Cons pdb pdbs)
  show ?case
  proof (cases "pdb_selector lr pdb")
    case (Inr s)
    let ?P = "\<lambda>pod. pod_Namespace pod = pdb_Namespace pdb \<and> Matches s (pod_Labels pod) \<and> DisruptionsAllowed pdb < 1"
    show ?thesis
    proof (cases "find ?P pods")
      case None
      then have "\<forall>pod \<in> set pods. \<not> ?P pod" by (simp add: find_None_iff)
      then show ?thesis using Cons.IH None Inr by (auto simp: selectors_valid_def budget_left_def)
    next
      case (Some pod)
      then have "?P pod" "pod \<in> set pods" by (auto simp: find_Some_iff)
      then show ?thesis using Some Inr by (auto simp: budget_left_def)
    qed
  qed (auto simp: selectors_valid_def)
qed (auto simp: selectors_valid_def budget_left_def)

lemma checkKubeSystemPDBs_valid: "selectors_valid lr pdbs \<Longrightarrow> checkKubeSystemPDBs lr pod pdbs = Inr (covered_by lr pdbs pod)"
proof (induction pdbs)
  case (Cons pdb pdbs)
  then obtain s where s: "pdb_selector lr pdb = Inr s" by (auto simp: selectors_valid_def)
  show ?case using Cons s by (auto simp: selectors_valid_def covered_by_def)
qed (simp add: covered_by_def)

lemma answers_Inr [simp]:
  "replicas_answer m a = Inr x \<longleftrightarrow> x = (False, True) \<and> enough_replicas m a"
  "exists_answer b = Inr x \<longleftrightarrow> x = (False, True) \<and> b = Inr (Some ())"
  by (auto simp: replicas_answer_def enough_replicas_def exists_answer_def split: sum.splits option.splits)

lemma DaemonSet_kind: "refKind pod = ''DaemonSet'' \<Longrightarrow> IsDaemonSetPod pod"
  by (auto simp: refKind_def IsDaemonSetPod_def split: option.splits)

lemma check_controller_Inr:
  "check_controller refs listers minReplica pod = Inr (d, r) \<longleftrightarrow>
     controller_fine refs listers minReplica pod \<and> d = (refKind pod \<noteq> ''ReplicationController'' \<and> IsDaemonSetPod pod) \<and>
     r = (\<not> d \<and> replicated_kind pod)"
proof (cases "refKind pod = ''ReplicationController''")
  case True
  then show ?thesis by (auto simp: check_controller_def controller_fine_def replicated_kind_def Let_def)
next
  case nrc: False
  show ?thesis
  proof (cases "IsDaemonSetPod pod")
    case True
    then show ?thesis using nrc
      by (cases "DaemonSetLister listers (pod_Namespace pod) (refName pod)")
        (auto simp: check_controller_def controller_fine_def Let_def)
  next
    case False
    then have "refKind pod \<noteq> ''DaemonSet''" using DaemonSet_kind by blast
    then show ?thesis using nrc False by (auto simp: check_controller_def controller_fine_def replicated_kind_def Let_def)
  qed
qed

lemma check_controller_Inl:
  "\<exists>e. check_controller refs listers minReplica pod = Inl e" if "\<not> controller_fine refs listers minReplica pod"
  using check_controller_Inr that by (cases "check_controller refs listers minReplica pod") auto

lemma eviction_problem_None:
  assumes "selectors_valid lr pdbs"
  shows "eviction_problem lr pdbs sys local replicated pod = None \<longleftrightarrow>
    replicated \<and> \<not> hasNotSafeToEvictAnnotation pod \<and> (local \<longrightarrow> \<not> HasLocalStorage pod) \<and>
    (sys \<and> pod_Namespace pod = ''kube-system'' \<longrightarrow> covered_by lr pdbs pod)"
  using checkKubeSystemPDBs_valid [OF assms, of pod]
  by (cases "covered_by lr pdbs pod") (auto simp: eviction_problem_def Let_def)

lemma drain_loop_Inr:
  assumes "selectors_valid lr pdbs"
  defines "kube \<equiv> filter (\<lambda>pdb. pdb_Namespace pdb = ''kube-system'') pdbs"
  shows "drain_loop lr kube sys local refs listers minReplica now acc pods = Inr ps \<longleftrightarrow>
    ps = acc @ filter (\<lambda>p. \<not> left_alone now p) pods \<and>
    (\<forall>p \<in> set pods. \<not> IsMirrorPod p \<and> \<not> deleted_long_ago now p \<longrightarrow> controller_fine refs listers minReplica p) \<and>
    (\<forall>p \<in> set pods. \<not> left_alone now p \<longrightarrow> may_move lr pdbs sys local p)"
proof (induction pods arbitrary: acc)
  case (Cons pod pods)
  let ?loop = "drain_loop lr kube sys local refs listers minReplica now"
  have v: "selectors_valid lr kube" using assms by (auto simp: selectors_valid_def)
  note ep = eviction_problem_None [OF v, of sys local _ pod]
  consider (skip) "IsMirrorPod pod \<or> deleted_long_ago now pod"
    | (bad) "\<not> IsMirrorPod pod" "\<not> deleted_long_ago now pod" "\<not> controller_fine refs listers minReplica pod"
    | (fine) "\<not> IsMirrorPod pod" "\<not> deleted_long_ago now pod" "controller_fine refs listers minReplica pod" by blast
  then show ?case
  proof cases
    case skip
    then have eq: "?loop acc (pod # pods) = ?loop acc pods" by (auto simp: Let_def)
    have "left_alone now pod" using skip by (auto simp: left_alone_def)
    then show ?thesis unfolding eq Cons.IH using skip by auto
  next
    case bad
    obtain reason e where "check_controller refs listers minReplica pod = Inl (reason, e)" using check_controller_Inl [OF bad(3)] by fastforce
    then have "?loop acc (pod # pods) = Inl (Some \<lparr>bp_Pod = pod, bp_Reason = reason\<rparr>, e)" using bad by (simp add: Let_def)
    then show ?thesis using bad by simp
  next
    case fine
    define d where "d = (refKind pod \<noteq> ''ReplicationController'' \<and> IsDaemonSetPod pod)"
    have c: "check_controller refs listers minReplica pod = Inr (d, \<not> d \<and> replicated_kind pod)"
      using fine(3) check_controller_Inr by (simp add: d_def)
    have l: "left_alone now pod = d" using fine by (simp add: left_alone_def d_def)
    have m: "may_move lr pdbs sys local pod \<longleftrightarrow> hasSafeToEvictAnnotation pod \<or> isPodTerminal pod \<or>
        eviction_problem lr kube sys local (replicated_kind pod) pod = None"
      using ep [of "replicated_kind pod"] by (auto simp: may_move_def kube_def)
    show ?thesis
    proof (cases "d \<or> may_move lr pdbs sys local pod")
      case True
      then have eq: "?loop acc (pod # pods) = ?loop (if d then acc else acc @ [pod]) pods" using fine c m by (auto simp: Let_def)
      show ?thesis unfolding eq Cons.IH using True fine l by auto
    next
      case False
      then obtain reason e where "eviction_problem lr kube sys local (replicated_kind pod) pod = Some (reason, e)" using m by auto
      then have "?loop acc (pod # pods) = Inl (Some \<lparr>bp_Pod = pod, bp_Reason = reason\<rparr>, e)" using False fine c m by (simp add: Let_def)
      then show ?thesis using False l by simp
    qed
  qed
qed auto

text \<open>
  When the selectors of some budget cannot be read the check of the budgets fails in the end.
\<close>

lemma with_pdbs_iff: "with_pdbs lr pdbs r = Inr ps \<longleftrightarrow> r = Inr ps \<and> checkPdbs lr ps pdbs = Inr ()"
  by (auto simp: with_pdbs_def split: sum.splits)

lemma with_pdbs_Inr:
  "with_pdbs lr pdbs (GetPodsForDeletionOnNodeDrain lr nodePods pdbs sys local refs listers minReplica now) = Inr ps \<longleftrightarrow>
    selectors_valid lr pdbs \<and> ps = filter (\<lambda>p. \<not> left_alone now p) nodePods \<and>
    (\<forall>p \<in> set nodePods. \<not> IsMirrorPod p \<and> \<not> deleted_long_ago now p \<longrightarrow> controller_fine refs listers minReplica p) \<and>
    (\<forall>p \<in> set ps. may_move lr pdbs sys local p \<and> budget_left lr pdbs p)"
proof (cases "selectors_valid lr pdbs")
  case True
  show ?thesis
    unfolding with_pdbs_iff checkPdbs_ok GetPodsForDeletionOnNodeDrain_def drain_loop_Inr [OF True] append_Nil
    using True by auto
next
  case False
  then show ?thesis unfolding with_pdbs_iff checkPdbs_ok by blast
qed

text \<open>
  C12. The detailed check of a node allows the drain exactly when every pod that has to be moved may be
  moved: its controller exists and wants enough replicas, it is annotated as safe, has terminated, or is
  replicated, not annotated as unsafe, without local storage and, in the system namespace, covered by
  a disruption budget; and every budget that covers it allows a disruption. The pods to move are then
  all pods but mirror pods, daemon set pods and pods whose deletion has timed out.
\<close>

theorem DetailedGetPodsForMove_correct:
  "DetailedGetPodsForMove lr now nodePods sys local listers minReplicaCount pdbs = Inr ps \<longleftrightarrow>
    selectors_valid lr pdbs \<and> ps = filter (\<lambda>p. \<not> left_alone now p) nodePods \<and>
    list_all (\<lambda>p. IsMirrorPod p \<or> deleted_long_ago now p \<or> controller_fine True listers minReplicaCount p) nodePods \<and>
    list_all (\<lambda>p. may_move lr pdbs sys local p \<and> budget_left lr pdbs p) ps"
  unfolding DetailedGetPodsForMove_def with_pdbs_Inr list_all_iff by blast

text \<open>
  C18. The fast check never refuses a drain that the detailed check allows, and finds the same pods to
  move; they differ only in the state of the controllers.
\<close>

theorem fast_check_overapproximates:
  assumes "DetailedGetPodsForMove lr now nodePods sys local listers minReplicaCount pdbs = Inr ps"
  shows "FastGetPodsToMove lr listers' now nodePods sys local pdbs = Inr ps"
  using assms unfolding DetailedGetPodsForMove_def FastGetPodsToMove_def with_pdbs_Inr by (auto simp: controller_fine_def)

definition sample_pod :: ca_Pod where
  "sample_pod =
     \<lparr>pod_Namespace = ''default'', pod_Name = ''p'', pod_GenerateName = [], pod_Labels = [], pod_Annotations = None,
      OwnerReferences = [\<lparr>or_Kind = ''ReplicaSet'', or_Name = ''r'', or_APIVersion = ''apps/v1'', or_Controller = Some True, or_UID = []\<rparr>],
      pod_Containers = [], Phase = ''Running'', StartTime = None, ContainerStatuses = [], DeletionTimestamp = None,
      RestartPolicy = ''Always'', pod_Volumes = [], pod_NodeName = ''n'', pod_UID = ''u'',
      pod_Priority = None, NominatedNodeName = []\<rparr>"

definition sample_listers :: ListerRegistry where
  "sample_listers =
     \<lparr>ReplicationControllerLister = (\<lambda>_ _. Inr None), DaemonSetLister = (\<lambda>_ _. Inl (Err ''gone'')), JobLister = (\<lambda>_ _. Inr None),
      ReplicaSetLister = (\<lambda>_ _. Inr (Some (Some 2))), StatefulSetLister = (\<lambda>_ _. Inr None), NotFound = (\<lambda>_. True)\<rparr>"

theorem fast_check_overapproximates_witness:
  "FastGetPodsToMove \<lparr>ValidKey = (\<lambda>_. True), ValidValue = (\<lambda>_. True)\<rparr> sample_listers 0 [sample_pod] True True [] = Inr [sample_pod]"
  by (rule fast_check_overapproximates [of _ _ _ _ _ sample_listers 1]) code_simp

end
