(* ===== verification/Usage_Tracker.thy ===== *)
theory Usage_Tracker
  imports Go_Prelude
begin

text \<open>
  The usage tracker of the scale-down simulation (\<open>cluster-autoscaler/simulator/tracker.go\<close>): which node
  would take pods of which other node. When a node is removed, the nodes whose pods would have gone
  to the same places have to be looked at again, so that their timers are dropped. The records of the
  code are pointers that only the tracker holds; here they are values of its map.
\<close>

section \<open>The tracker\<close>

definition maxUsageRecorded :: nat where "maxUsageRecorded = 50"

record UsageRecord =
  usingTooMany :: bool
  ur_using :: "(string, time) gomap"
  usedByTooMany :: bool
  ur_usedBy :: "(string, time) gomap"

type_synonym UsageTracker = "(string, UsageRecord) gomap"

definition NewUsageTracker :: UsageTracker where "NewUsageTracker = []"

definition new_record :: UsageRecord where
  "new_record = \<lparr>usingTooMany = False, ur_using = [], usedByTooMany = False, ur_usedBy = []\<rparr>"

definition tracker_Get :: "UsageTracker \<Rightarrow> string \<Rightarrow> UsageRecord option" where
  "tracker_Get tracker node = map_of tracker node"

definition add_using :: "string \<Rightarrow> time \<Rightarrow> UsageRecord \<Rightarrow> UsageRecord" where
  "add_using nodeB timestamp r =
     (if length (ur_using r) \<ge> maxUsageRecorded then r\<lparr>usingTooMany := True\<rparr>
      else r\<lparr>ur_using := AList.update nodeB timestamp (ur_using r)\<rparr>)"

definition add_usedBy :: "string \<Rightarrow> time \<Rightarrow> UsageRecord \<Rightarrow> UsageRecord" where
  "add_usedBy nodeA timestamp r =
     (if length (ur_usedBy r) \<ge> maxUsageRecorded then r\<lparr>usedByTooMany := True\<rparr>
      else r\<lparr>ur_usedBy := AList.update nodeA timestamp (ur_usedBy r)\<rparr>)"

definition change_record :: "(UsageRecord \<Rightarrow> UsageRecord) \<Rightarrow> string \<Rightarrow> UsageTracker \<Rightarrow> UsageTracker" where
  "change_record f node tracker = AList.update node (f (lookup_default new_record tracker node)) tracker"

definition RegisterUsage :: "string \<Rightarrow> string \<Rightarrow> time \<Rightarrow> UsageTracker \<Rightarrow> UsageTracker" where
  "RegisterUsage nodeA nodeB timestamp tracker =
     change_record (add_usedBy nodeA timestamp) nodeB (change_record (add_using nodeB timestamp) nodeA tracker)"

text \<open>A change of a record that is there, and nothing otherwise.\<close>

definition in_record :: "(UsageRecord \<Rightarrow> UsageRecord) \<Rightarrow> UsageTracker \<Rightarrow> string \<Rightarrow> UsageTracker" where
  "in_record f tracker node = (case map_of tracker node of Some r \<Rightarrow> AList.update node (f r) tracker | None \<Rightarrow> tracker)"

definition drop_usedBy :: "string \<Rightarrow> UsageRecord \<Rightarrow> UsageRecord" where
  "drop_usedBy node r = r\<lparr>ur_usedBy := AList.delete node (ur_usedBy r)\<rparr>"

definition drop_using :: "string \<Rightarrow> UsageRecord \<Rightarrow> UsageRecord" where
  "drop_using node r = r\<lparr>ur_using := AList.delete node (ur_using r)\<rparr>"

definition Unregister :: "string \<Rightarrow> UsageTracker \<Rightarrow> UsageTracker" where
  "Unregister node tracker =
     (case map_of tracker node of
        None \<Rightarrow> tracker
      | Some r \<Rightarrow>
          let t1 = foldl (in_record (drop_usedBy node)) tracker (map fst (ur_using r));
              t2 = foldl (in_record (drop_using node)) t1 (map fst (ur_usedBy (lookup_default new_record t1 node)))
          in AList.delete node t2)"

definition filterOutOld :: "time \<Rightarrow> (string, time) gomap \<Rightarrow> (string, time) gomap" where
  "filterOutOld cutoff m = filter (\<lambda>(key, timestamp). \<not> time_Before timestamp cutoff) m"

definition clean_record :: "time \<Rightarrow> UsageRecord \<Rightarrow> UsageRecord" where
  "clean_record cutoff r =
     (let r1 = (if usingTooMany r then r else r\<lparr>ur_using := filterOutOld cutoff (ur_using r)\<rparr>)
      in if usedByTooMany r1 then r1 else r1\<lparr>ur_usedBy := filterOutOld cutoff (ur_usedBy r1)\<rparr>)"

definition record_empty :: "UsageRecord \<Rightarrow> bool" where
  "record_empty r \<longleftrightarrow> \<not> usingTooMany r \<and> \<not> usedByTooMany r \<and> length (ur_using r) = 0 \<and> length (ur_usedBy r) = 0"

definition CleanUp :: "time \<Rightarrow> UsageTracker \<Rightarrow> UsageTracker" where
  "CleanUp cutoff tracker = filter (\<lambda>(key, r). \<not> record_empty r) (map_values (\<lambda>_. clean_record cutoff) tracker)"

fun keys_to_remove :: "UsageTracker \<Rightarrow> (string, time) gomap \<Rightarrow> string list \<Rightarrow> string list \<Rightarrow> string list" where
  "keys_to_remove tracker utilization [] keys = keys"
| "keys_to_remove tracker utilization (usedNode # nodes) keys =
     (case tracker_Get tracker usedNode of
        None \<Rightarrow> keys_to_remove tracker utilization nodes keys
      | Some r \<Rightarrow> if usedByTooMany r then map fst utilization
                  else keys_to_remove tracker utilization nodes (keys @ map fst (ur_usedBy r)))"

definition RemoveNodeFromTracker ::
    "UsageTracker \<Rightarrow> string \<Rightarrow> (string, time) gomap \<Rightarrow> UsageTracker \<times> (string, time) gomap" where
  "RemoveNodeFromTracker tracker node utilization =
     (let keys = (case tracker_Get tracker node of
                    None \<Rightarrow> []
                  | Some r \<Rightarrow> if usingTooMany r then map fst utilization
                              else keys_to_remove tracker utilization (map fst (ur_using r)) [])
      in (Unregister node tracker, foldl (\<lambda>m k. AList.delete k m) (AList.delete node utilization) keys))"

section \<open>Bounds\<close>

definition record_ok :: "UsageRecord \<Rightarrow> bool" where
  "record_ok r \<longleftrightarrow> gomap_ok (ur_using r) \<and> gomap_ok (ur_usedBy r) \<and>
     length (ur_using r) \<le> maxUsageRecorded \<and> length (ur_usedBy r) \<le> maxUsageRecorded"

definition tracker_ok :: "UsageTracker \<Rightarrow> bool" where
  "tracker_ok t \<longleftrightarrow> gomap_ok t \<and> (\<forall>k r. map_of t k = Some r \<longrightarrow> record_ok r)"

lemma length_update: "length (AList.update k v m) \<le> Suc (length m)"
  by (induction m) auto

lemma length_delete: "length (AList.delete k m) \<le> length m"
  by (simp add: AList.delete_eq)

lemma record_ok_steps:
  "record_ok new_record"
  "record_ok r \<Longrightarrow> record_ok (add_using b t r)" "record_ok r \<Longrightarrow> record_ok (add_usedBy a t r)"
  "record_ok r \<Longrightarrow> record_ok (drop_using n r)" "record_ok r \<Longrightarrow> record_ok (drop_usedBy n r)"
  "record_ok r \<Longrightarrow> record_ok (clean_record c r)"
proof -
  show "record_ok new_record" by (simp add: record_ok_def new_record_def maxUsageRecorded_def)
  show "record_ok (add_using b t r)" if "record_ok r"
    using that length_update [of b t "ur_using r"] by (auto simp: record_ok_def add_using_def)
  show "record_ok (add_usedBy a t r)" if "record_ok r"
    using that length_update [of a t "ur_usedBy r"] by (auto simp: record_ok_def add_usedBy_def)
  show "record_ok (drop_using n r)" if "record_ok r"
    using that length_delete [of n "ur_using r"] by (auto simp: record_ok_def drop_using_def)
  show "record_ok (drop_usedBy n r)" if "record_ok r"
    using that length_delete [of n "ur_usedBy r"] by (auto simp: record_ok_def drop_usedBy_def)
  have f: "gomap_ok (filterOutOld c m) \<and> length (filterOutOld c m) \<le> length m" if "gomap_ok m" for m
    using that by (simp add: filterOutOld_def gomap_ok_def distinct_map_filter)
  show "record_ok (clean_record c r)" if "record_ok r"
    using that f [of "ur_using r"] f [of "ur_usedBy r"] by (auto simp: record_ok_def clean_record_def Let_def)
qed

lemma tracker_ok_change: "(\<And>r. record_ok r \<Longrightarrow> record_ok (f r)) \<Longrightarrow> tracker_ok t \<Longrightarrow> tracker_ok (change_record f n t)"
  using record_ok_steps(1) by (auto simp: tracker_ok_def change_record_def update_conv' lookup_default_def split: option.splits)

lemma tracker_ok_in_record: "(\<And>r. record_ok r \<Longrightarrow> record_ok (f r)) \<Longrightarrow> tracker_ok t \<Longrightarrow> tracker_ok (in_record f t n)"
  by (auto simp: tracker_ok_def in_record_def update_conv' split: option.split)

lemma tracker_ok_foldl: "(\<And>r. record_ok r \<Longrightarrow> record_ok (f r)) \<Longrightarrow> tracker_ok t \<Longrightarrow> tracker_ok (foldl (in_record f) t ns)"
  by (induction ns arbitrary: t) (auto intro: tracker_ok_in_record)

lemma tracker_ok_delete: "tracker_ok t \<Longrightarrow> tracker_ok (AList.delete n t)"
  by (auto simp: tracker_ok_def delete_conv')

lemma Unregister_ok: "tracker_ok t \<Longrightarrow> tracker_ok (Unregister n t)"
  by (auto simp: Unregister_def Let_def split: option.split intro!: tracker_ok_delete tracker_ok_foldl record_ok_steps)

section \<open>Both directions in step\<close>

text \<open>When a node was recorded as using another one, and as used by it.\<close>

definition using_at :: "UsageTracker \<Rightarrow> string \<Rightarrow> string \<Rightarrow> time option" where
  "using_at t a b = (case map_of t a of Some r \<Rightarrow> map_of (ur_using r) b | None \<Rightarrow> None)"

definition usedBy_at :: "UsageTracker \<Rightarrow> string \<Rightarrow> string \<Rightarrow> time option" where
  "usedBy_at t b a = (case map_of t b of Some r \<Rightarrow> map_of (ur_usedBy r) a | None \<Rightarrow> None)"

definition no_overflow :: "UsageTracker \<Rightarrow> bool" where
  "no_overflow t \<longleftrightarrow> (\<forall>k r. map_of t k = Some r \<longrightarrow> \<not> usingTooMany r \<and> \<not> usedByTooMany r)"

definition in_step :: "UsageTracker \<Rightarrow> bool" where
  "in_step t \<longleftrightarrow> tracker_ok t \<and> no_overflow t \<and> (\<forall>a b. usedBy_at t b a = using_at t a b)"

definition room_for :: "UsageTracker \<Rightarrow> string \<Rightarrow> string \<Rightarrow> bool" where
  "room_for t a b \<longleftrightarrow> length (ur_using (lookup_default new_record t a)) < maxUsageRecorded \<and>
     length (ur_usedBy (lookup_default new_record t b)) < maxUsageRecorded"

lemma RegisterUsage_room:
  assumes "room_for t a b"
  shows "using_at (RegisterUsage a b s t) x y = (if x = a \<and> y = b then Some s else using_at t x y)"
    and "usedBy_at (RegisterUsage a b s t) y x = (if x = a \<and> y = b then Some s else usedBy_at t y x)"
    and "no_overflow t \<Longrightarrow> no_overflow (RegisterUsage a b s t)"
proof -
  have r: "map_of (RegisterUsage a b s t) k =
      (let r0 = lookup_default new_record t k; r1 = (if k = a then r0\<lparr>ur_using := AList.update b s (ur_using r0)\<rparr> else r0);
           r2 = (if k = b then r1\<lparr>ur_usedBy := AList.update a s (ur_usedBy r1)\<rparr> else r1)
       in if k = a \<or> k = b then Some r2 else map_of t k)" for k
    using assms by (auto simp: RegisterUsage_def change_record_def add_using_def add_usedBy_def room_for_def update_conv' lookup_default_def Let_def)
  have n: "map_of (ur_using new_record) y = None" "map_of (ur_usedBy new_record) y = None" for y by (simp_all add: new_record_def)
  show "using_at (RegisterUsage a b s t) x y = (if x = a \<and> y = b then Some s else using_at t x y)"
    unfolding using_at_def r using n by (auto simp: Let_def update_conv' lookup_default_def split: option.split)
  show "usedBy_at (RegisterUsage a b s t) y x = (if x = a \<and> y = b then Some s else usedBy_at t y x)"
    unfolding usedBy_at_def r using n by (auto simp: Let_def update_conv' lookup_default_def split: option.split)
  show "no_overflow (RegisterUsage a b s t)" if "no_overflow t"
    using that unfolding no_overflow_def r by (auto simp: Let_def lookup_default_def new_record_def split: option.splits if_splits)
qed

lemma loop_drop_usedBy:
  "using_at (foldl (in_record (drop_usedBy n)) t ns) x y = using_at t x y"
  "usedBy_at (foldl (in_record (drop_usedBy n)) t ns) x y = (if x \<in> set ns \<and> y = n then None else usedBy_at t x y)"
  "no_overflow t \<Longrightarrow> no_overflow (foldl (in_record (drop_usedBy n)) t ns)"
proof -
  have one: "using_at (in_record (drop_usedBy n) t m) = using_at t"
    "usedBy_at (in_record (drop_usedBy n) t m) = (\<lambda>x y. if x = m \<and> y = n then None else usedBy_at t x y)"
    "no_overflow t \<Longrightarrow> no_overflow (in_record (drop_usedBy n) t m)" for t m
    by (auto simp: fun_eq_iff using_at_def usedBy_at_def no_overflow_def in_record_def drop_usedBy_def update_conv' delete_conv' split: option.split)
  show "using_at (foldl (in_record (drop_usedBy n)) t ns) x y = using_at t x y" by (induction ns arbitrary: t) (simp_all add: one)
  show "usedBy_at (foldl (in_record (drop_usedBy n)) t ns) x y = (if x \<in> set ns \<and> y = n then None else usedBy_at t x y)"
    by (induction ns arbitrary: t) (auto simp: one)
  show "no_overflow (foldl (in_record (drop_usedBy n)) t ns)" if "no_overflow t"
    using that by (induction ns arbitrary: t) (simp_all add: one)
qed

lemma loop_drop_using:
  "usedBy_at (foldl (in_record (drop_using n)) t ns) x y = usedBy_at t x y"
  "using_at (foldl (in_record (drop_using n)) t ns) x y = (if x \<in> set ns \<and> y = n then None else using_at t x y)"
  "no_overflow t \<Longrightarrow> no_overflow (foldl (in_record (drop_using n)) t ns)"
proof -
  have one: "usedBy_at (in_record (drop_using n) t m) = usedBy_at t"
    "using_at (in_record (drop_using n) t m) = (\<lambda>x y. if x = m \<and> y = n then None else using_at t x y)"
    "no_overflow t \<Longrightarrow> no_overflow (in_record (drop_using n) t m)" for t m
    by (auto simp: fun_eq_iff using_at_def usedBy_at_def no_overflow_def in_record_def drop_using_def update_conv' delete_conv' split: option.split)
  show "usedBy_at (foldl (in_record (drop_using n)) t ns) x y = usedBy_at t x y" by (induction ns arbitrary: t) (simp_all add: one)
  show "using_at (foldl (in_record (drop_using n)) t ns) x y = (if x \<in> set ns \<and> y = n then None else using_at t x y)"
    by (induction ns arbitrary: t) (auto simp: one)
  show "no_overflow (foldl (in_record (drop_using n)) t ns)" if "no_overflow t"
    using that by (induction ns arbitrary: t) (simp_all add: one)
qed

lemma keys_iff: "k \<in> set (map fst m) \<longleftrightarrow> map_of m k \<noteq> None"
  by (simp add: map_of_eq_None_iff)

lemma Unregister_in_step:
  assumes "in_step t"
  shows "using_at (Unregister n t) x y = (if x = n \<or> y = n then None else using_at t x y)"
    and "in_step (Unregister n t)"
proof -
  have ok: "tracker_ok t" "no_overflow t" and sym: "usedBy_at t b a = using_at t a b" for a b using assms by (auto simp: in_step_def)
  have both: "using_at (Unregister n t) x y = (if x = n \<or> y = n then None else using_at t x y) \<and>
      usedBy_at (Unregister n t) y x = (if x = n \<or> y = n then None else using_at t x y)" for x y
  proof (cases "map_of t n")
    case None
    then have "using_at t n y = None" "usedBy_at t n x = None" for x y by (simp_all add: using_at_def usedBy_at_def)
    then show ?thesis using None sym by (auto simp: Unregister_def)
  next
    case (Some r)
    define t1 where "t1 = foldl (in_record (drop_usedBy n)) t (map fst (ur_using r))"
    define r1 where "r1 = lookup_default new_record t1 n"
    define t2 where "t2 = foldl (in_record (drop_using n)) t1 (map fst (ur_usedBy r1))"
    have U: "Unregister n t = AList.delete n t2" using Some by (simp add: Unregister_def t2_def r1_def t1_def Let_def)
    have u1: "k \<in> set (map fst (ur_using r)) \<longleftrightarrow> using_at t n k \<noteq> None" for k
      using Some by (simp only: keys_iff using_at_def option.case)
    have u2: "k \<in> set (map fst (ur_usedBy r1)) \<longleftrightarrow> usedBy_at t1 n k \<noteq> None" for k
      by (simp only: keys_iff r1_def) (simp add: usedBy_at_def lookup_default_def new_record_def split: option.split)
    have a1: "using_at t1 x y = using_at t x y" "usedBy_at t1 y x = (if using_at t n y \<noteq> None \<and> x = n then None else usedBy_at t y x)" for x y
      unfolding t1_def loop_drop_usedBy u1 by simp_all
    have a2: "usedBy_at t2 y x = usedBy_at t1 y x" "using_at t2 x y = (if usedBy_at t1 n x \<noteq> None \<and> y = n then None else using_at t1 x y)" for x y
      unfolding t2_def loop_drop_using u2 by simp_all
    have d: "using_at (AList.delete n t2) x y = (if x = n then None else using_at t2 x y)"
      "usedBy_at (AList.delete n t2) y x = (if y = n then None else usedBy_at t2 y x)" for x y
      by (simp_all add: using_at_def usedBy_at_def delete_conv')
    show ?thesis unfolding U d a2 a1 using sym by auto
  qed
  then show "using_at (Unregister n t) x y = (if x = n \<or> y = n then None else using_at t x y)" by blast
  have "no_overflow (AList.delete k s)" if "no_overflow s" for k s using that by (auto simp: no_overflow_def delete_conv')
  then have "no_overflow (Unregister n t)" using ok(2)
    by (auto simp: Unregister_def Let_def split: option.split intro!: loop_drop_using(3) loop_drop_usedBy(3))
  then show "in_step (Unregister n t)" using both Unregister_ok [OF ok(1)] by (auto simp: in_step_def)
qed

lemma CleanUp_lookup:
  assumes "tracker_ok t"
  shows "gomap_ok (CleanUp c t)"
    and "map_of (CleanUp c t) k =
      (case map_of t k of Some r \<Rightarrow> if record_empty (clean_record c r) then None else Some (clean_record c r) | None \<Rightarrow> None)"
proof -
  have "gomap_ok (map_values (\<lambda>_. clean_record c) t)" using assms by (simp add: tracker_ok_def)
  note f = map_of_filter_ok [OF this, of "\<lambda>(key, r). \<not> record_empty r" k]
  show "gomap_ok (CleanUp c t)" using f by (simp add: CleanUp_def)
  show "map_of (CleanUp c t) k =
      (case map_of t k of Some r \<Rightarrow> if record_empty (clean_record c r) then None else Some (clean_record c r) | None \<Rightarrow> None)"
    using f by (auto simp: CleanUp_def map_of_map_values split: option.split)
qed

lemma filterOutOld_lookup:
  "gomap_ok m \<Longrightarrow> map_of (filterOutOld c m) k = (case map_of m k of Some s \<Rightarrow> if s < c then None else Some s | None \<Rightarrow> None)"
  using map_of_filter_ok [of m "\<lambda>(key, timestamp). \<not> time_Before timestamp c" k]
  by (auto simp: filterOutOld_def time_Before_def split: option.splits)

lemma CleanUp_ok: "tracker_ok t \<Longrightarrow> tracker_ok (CleanUp c t)"
  using CleanUp_lookup [of t c] record_ok_steps(6) by (auto simp: tracker_ok_def split: option.splits if_splits)

lemma RegisterUsage_ok: "tracker_ok t \<Longrightarrow> tracker_ok (RegisterUsage a b s t)"
  unfolding RegisterUsage_def by (intro tracker_ok_change record_ok_steps)

lemma CleanUp_in_step:
  assumes "in_step t"
  shows "in_step (CleanUp c t)"
proof -
  have ok: "tracker_ok t" "no_overflow t" and sym: "usedBy_at t b a = using_at t a b" for a b using assms by (auto simp: in_step_def)
  have cl: "clean_record c r = r\<lparr>ur_using := filterOutOld c (ur_using r), ur_usedBy := filterOutOld c (ur_usedBy r)\<rparr>"
    and g: "gomap_ok (ur_using r)" "gomap_ok (ur_usedBy r)" and nf: "\<not> usingTooMany r" "\<not> usedByTooMany r" if "map_of t k = Some r" for k r
    using ok that by (auto simp: clean_record_def Let_def no_overflow_def tracker_ok_def record_ok_def)
  define old where "old = (\<lambda>o'. case o' of Some s \<Rightarrow> if s < c then None else Some s | None \<Rightarrow> None)"
  have e: "old (map_of (ur_using r) y) = map_of (filterOutOld c (ur_using r)) y" "old (map_of (ur_usedBy r) y) = map_of (filterOutOld c (ur_usedBy r)) y"
    if "map_of t k = Some r" for k r y using g [OF that] by (simp_all add: old_def filterOutOld_lookup)
  have "using_at (CleanUp c t) x y = old (using_at t x y)" for x y
    by (cases "map_of t x") (auto simp: using_at_def CleanUp_lookup(2) [OF ok(1)] cl e record_empty_def, simp add: old_def)
  moreover have "usedBy_at (CleanUp c t) x y = old (usedBy_at t x y)" for x y
    by (cases "map_of t x") (auto simp: usedBy_at_def CleanUp_lookup(2) [OF ok(1)] cl e record_empty_def, simp add: old_def)
  moreover have "no_overflow (CleanUp c t)" using nf cl
    by (auto simp: no_overflow_def CleanUp_lookup(2) [OF ok(1)] split: option.splits if_splits)
  ultimately show ?thesis using CleanUp_ok [OF ok(1)] sym by (simp add: in_step_def)
qed

text \<open>The trackers of runs in which no record has overflowed.\<close>

inductive tracker_run :: "UsageTracker \<Rightarrow> bool" where
  start: "tracker_run NewUsageTracker"
| use: "tracker_run t \<Longrightarrow> room_for t a b \<Longrightarrow> tracker_run (RegisterUsage a b s t)"
| unregister: "tracker_run t \<Longrightarrow> tracker_run (Unregister n t)"
| clean_up: "tracker_run t \<Longrightarrow> tracker_run (CleanUp c t)"

lemma tracker_run_in_step: "tracker_run t \<Longrightarrow> in_step t"
proof (induction rule: tracker_run.induct)
  case start
  then show ?case by (simp add: in_step_def NewUsageTracker_def tracker_ok_def no_overflow_def using_at_def usedBy_at_def)
next
  case (use t a b s)
  then show ?case using RegisterUsage_room [OF use(2)] RegisterUsage_ok by (simp add: in_step_def)
qed (simp_all add: Unregister_in_step(2) CleanUp_in_step)

lemma keys_to_remove_in_step:
  assumes "no_overflow t"
  shows "set (keys_to_remove t util us keys) = set keys \<union> {a. \<exists>u \<in> set us. usedBy_at t u a \<noteq> None}"
proof (induction us arbitrary: keys)
  case (Cons u us)
  show ?case
  proof (cases "map_of t u")
    case None
    then have "usedBy_at t u a = None" for a by (simp add: usedBy_at_def)
    then show ?thesis using Cons None by (simp add: tracker_Get_def)
  next
    case (Some r)
    then have "\<not> usedByTooMany r" using assms by (auto simp: no_overflow_def)
    moreover have "a \<in> fst ` set (ur_usedBy r) \<longleftrightarrow> usedBy_at t u a \<noteq> None" for a
      using keys_iff [of a "ur_usedBy r"] Some by (simp add: usedBy_at_def)
    ultimately show ?thesis using Cons Some by (auto simp: tracker_Get_def)
  qed
qed simp

lemma delete_keys: "map_of (foldl (\<lambda>m k. AList.delete k m) m ks) k = (if k \<in> set ks then None else map_of m k)"
  by (induction ks arbitrary: m) (auto simp: delete_conv')

text \<open>
  C19. Removing a node, in any run in which no record has overflowed, takes it out of every record, and
  drops exactly the timers of the node itself and of the nodes some pod of which would have gone to
  the same node as some pod of the removed one; every other relation and timer stays.
\<close>

theorem RemoveNodeFromTracker_exact:
  assumes "tracker_run t" "RemoveNodeFromTracker t n utilization = (t', utilization')"
  shows "tracker_run t' \<and>
    (\<forall>a b. using_at t' a b = (if a = n \<or> b = n then None else using_at t a b)) \<and>
    (\<forall>m. map_of utilization' m =
       (if m = n \<or> (\<exists>u. using_at t n u \<noteq> None \<and> using_at t m u \<noteq> None) then None else map_of utilization m))"
proof -
  have s: "in_step t" by (rule tracker_run_in_step [OF assms(1)])
  then have no: "no_overflow t" and sym: "usedBy_at t b a = using_at t a b" for a b by (auto simp: in_step_def)
  define keys where "keys = (case tracker_Get t n of None \<Rightarrow> [] | Some r \<Rightarrow> if usingTooMany r then map fst utilization
      else keys_to_remove t utilization (map fst (ur_using r)) [])"
  have t': "t' = Unregister n t" and u': "utilization' = foldl (\<lambda>m k. AList.delete k m) (AList.delete n utilization) keys"
    using assms(2) by (auto simp: RemoveNodeFromTracker_def Let_def keys_def)
  have k: "m \<in> set keys \<longleftrightarrow> (\<exists>u. using_at t n u \<noteq> None \<and> using_at t m u \<noteq> None)" for m
  proof (cases "map_of t n")
    case None
    then show ?thesis by (simp add: keys_def tracker_Get_def using_at_def)
  next
    case (Some r)
    then have "keys = keys_to_remove t utilization (map fst (ur_using r)) []" using no by (auto simp: keys_def tracker_Get_def no_overflow_def)
    moreover have "u \<in> set (map fst (ur_using r)) \<longleftrightarrow> using_at t n u \<noteq> None" for u
      using Some by (simp only: keys_iff using_at_def option.case)
    ultimately show ?thesis by (simp del: set_map add: keys_to_remove_in_step [OF no] Bex_def sym)
  qed
  have "tracker_run t'" unfolding t' by (rule tracker_run.unregister [OF assms(1)])
  moreover have "map_of utilization' m = (if m = n \<or> m \<in> set keys then None else map_of utilization m)" for m
    by (simp add: u' delete_keys delete_conv')
  ultimately show ?thesis using Unregister_in_step(1) [OF s] unfolding t' k by blast
qed

theorem RemoveNodeFromTracker_exact_witness:
  "map_of (snd (RemoveNodeFromTracker (RegisterUsage ''b'' ''c'' 2 (RegisterUsage ''a'' ''c'' 1 NewUsageTracker)) ''a''
     [(''b'', 5), (''d'', 6)])) ''b'' = None"
proof -
  let ?t1 = "RegisterUsage ''a'' ''c'' 1 NewUsageTracker" and ?u = "[(''b'', 5), (''d'', 6)] :: (string, time) gomap"
  let ?t = "RegisterUsage ''b'' ''c'' 2 ?t1"
  have r: "room_for NewUsageTracker ''a'' ''c''" "room_for ?t1 ''b'' ''c''" by code_simp+
  then have run: "tracker_run ?t" by (intro tracker_run.intros)
  have "using_at ?t ''a'' ''c'' = Some 1" "using_at ?t ''b'' ''c'' = Some 2" by code_simp+
  then show ?thesis
    using RemoveNodeFromTracker_exact [OF run surjective_pairing, of "''a''" ?u] by (auto split: if_splits)
qed

text \<open>
  The comment of \<open>Unregister\<close> says that it removes the node from all usage records. It does not
  when the node is used by more nodes than are recorded: a node that was not recorded any more as
  one of its users goes on using the node that is gone.
\<close>

theorem Unregister_leaves_overflow:
  assumes "map_of t n = Some r" "maxUsageRecorded \<le> length (ur_usedBy r)" "map_of (ur_usedBy r) a = None" "a \<noteq> n"
    and "length (ur_using (lookup_default new_record t a)) < maxUsageRecorded"
  shows "using_at (Unregister n (RegisterUsage a n s t)) a n = Some s"
proof -
  let ?t = "RegisterUsage a n s t"
  have n: "map_of ?t n = Some (r\<lparr>usedByTooMany := True\<rparr>)" and a: "using_at ?t a n = Some s"
    using assms by (auto simp: RegisterUsage_def change_record_def add_usedBy_def add_using_def update_conv' lookup_default_def using_at_def)
  define t1 where "t1 = foldl (in_record (drop_usedBy n)) ?t (map fst (ur_using r))"
  define r1 where "r1 = lookup_default new_record t1 n"
  have "usedBy_at t1 n a = None" unfolding t1_def loop_drop_usedBy using n assms(3,4) by (simp add: usedBy_at_def)
  then have "map_of (ur_usedBy r1) a = None" by (auto simp: r1_def usedBy_at_def lookup_default_def new_record_def split: option.splits)
  then have "a \<notin> set (map fst (ur_usedBy r1))" by (simp only: keys_iff) simp
  then have "using_at (foldl (in_record (drop_using n)) t1 (map fst (ur_usedBy r1))) a n = Some s"
    unfolding loop_drop_using unfolding t1_def loop_drop_usedBy using a by simp
  then show ?thesis using n assms(4) by (simp add: Unregister_def Let_def t1_def r1_def using_at_def delete_conv')
qed

theorem Unregister_leaves_overflow_witness:
  "using_at (Unregister ''n'' (RegisterUsage ''a'' ''n'' 1
     [(''n'', \<lparr>usingTooMany = False, ur_using = [], usedByTooMany = False, ur_usedBy = map (\<lambda>i. (replicate i CHR ''x'', 0)) [0..<50]\<rparr>)])) ''a'' ''n'' = Some 1"
  by (rule Unregister_leaves_overflow) (auto simp: maxUsageRecorded_def map_of_eq_None_iff lookup_default_def new_record_def Cons_replicate_eq)

end
