(* ===== verification/Predicate_Checker.thy ===== *)
theory Predicate_Checker
  imports Snapshot_Refinement
begin

text \<open>
  The predicate checker of the cluster autoscaler (\<open>simulator/scheduler_based_predicates_checker.go\<close>,
  \<open>simulator/predicate_error.go\<close>): whether a pod fits a node of a cluster snapshot, decided by the filter
  plugins of the scheduler. The plugins are a parameter. The plugins that run before the filters see
  the snapshot through the listers the checker delegates to, that is the list of all nodes and the
  two lists of nodes that have pods with affinity; asking for the lists fills the caches of a delta
  snapshot, hence the snapshot is passed on. A snapshot is given by the function that executes its
  operations, so that everything here holds for both implementations.
\<close>

section \<open>Operations of a snapshot\<close>

type_synonym ('n, 'p, 'i, 's) executor = "('n, 'p) snapshot_op \<Rightarrow> 's \<Rightarrow> 'i observation \<times> 's"

definition perform :: "('n, 'p, 'i, 's) executor \<Rightarrow> ('n, 'p) snapshot_op \<Rightarrow> 's \<Rightarrow> 's outcome" where
  "perform exec op s = (let (obs, s') = exec op s in (case obs of Done e \<Rightarrow> e | _ \<Rightarrow> None, s'))"

definition list_infos :: "('n, 'p, 'i, 's) executor \<Rightarrow> ('n, 'p) snapshot_op \<Rightarrow> 's \<Rightarrow> 'i list \<times> 's" where
  "list_infos exec op s = (let (obs, s') = exec op s in (case obs of Infos l \<Rightarrow> l | _ \<Rightarrow> [], s'))"

definition get_info :: "('n, 'p, 'i, 's) executor \<Rightarrow> string \<Rightarrow> 's \<Rightarrow> 'i option \<times> 's" where
  "get_info exec name s = (let (obs, s') = exec (GetNode name) s in (case obs of Info i \<Rightarrow> i | _ \<Rightarrow> None, s'))"

section \<open>The checker\<close>

datatype FilterStatus = Success | Unschedulable "string list" | Failed "string list"

text \<open>
  The plugins: the state they compute before filtering, from the lists of the snapshot, the statuses
  of the filters by name, and whether a node is marked unschedulable.
\<close>

record ('p, 'i, 'c) scheduler =
  RunPreFilterPlugins :: "'i list \<Rightarrow> 'i list \<Rightarrow> 'i list \<Rightarrow> 'p \<Rightarrow> 'c result"
  RunFilterPlugins :: "'c \<Rightarrow> 'p \<Rightarrow> 'i \<Rightarrow> (string, FilterStatus) gomap"
  Spec_Unschedulable :: "'i \<Rightarrow> bool"

datatype PredicateErrorType = NotSchedulablePredicateError | InternalPredicateError

record PredicateError =
  pe_errorType :: PredicateErrorType
  pe_predicateName :: string
  pe_errorMessage :: string
  pe_reasons :: "string list"

definition pe_Message :: "PredicateError \<Rightarrow> string" where
  "pe_Message pe = (if pe_errorMessage pe = [] then ''unknown error'' else pe_errorMessage pe)"

definition GenericPredicateError :: PredicateError where
  "GenericPredicateError =
     \<lparr>pe_errorType = NotSchedulablePredicateError, pe_predicateName = [], pe_errorMessage = ''generic predicate failure'', pe_reasons = []\<rparr>"

definition pre_filter ::
    "('n, 'p, 'i, 's) executor \<Rightarrow> ('p, 'i, 'c) scheduler \<Rightarrow> 'p \<Rightarrow> 's \<Rightarrow> 'c result \<times> 's" where
  "pre_filter exec sch pod s =
     (let (l1, s1) = list_infos exec ListNodes s;
          (l2, s2) = list_infos exec ListPodsWithAffinity s1;
          (l3, s3) = list_infos exec ListPodsWithRequiredAntiAffinity s2
      in (RunPreFilterPlugins sch l1 l2 l3 pod, s3))"

definition passes_filters :: "('p, 'i, 'c) scheduler \<Rightarrow> 'c \<Rightarrow> 'p \<Rightarrow> 'i \<Rightarrow> bool" where
  "passes_filters sch c pod info \<longleftrightarrow> list_all (\<lambda>(_, st). st = Success) (RunFilterPlugins sch c pod info)"

definition FitsAnyNodeMatching ::
    "('n, 'p, 'i) framework \<Rightarrow> ('n, 'p, 'i, 's) executor \<Rightarrow> ('p, 'i, 'c) scheduler \<Rightarrow> 'p \<Rightarrow> ('i \<Rightarrow> bool) \<Rightarrow> 's \<Rightarrow> string result \<times> 's" where
  "FitsAnyNodeMatching fw exec sch pod nodeMatches s =
     (let (nodeInfosList, s1) = list_infos exec ListNodes s;
          (status, s2) = pre_filter exec sch pod s1
      in (case status of
            Inl e \<Rightarrow> (Inl (Err ''error running pre filter plugins''), s2)
          | Inr c \<Rightarrow>
              (case find (\<lambda>info. nodeMatches info \<and> \<not> Spec_Unschedulable sch info \<and> passes_filters sch c pod info) nodeInfosList of
                 Some info \<Rightarrow> (Inr (fw_InfoName fw info), s2)
               | None \<Rightarrow> (Inl (Err ''cannot put pod on any node''), s2))))"

definition FitsAnyNode ::
    "('n, 'p, 'i) framework \<Rightarrow> ('n, 'p, 'i, 's) executor \<Rightarrow> ('p, 'i, 'c) scheduler \<Rightarrow> 'p \<Rightarrow> 's \<Rightarrow> string result \<times> 's" where
  "FitsAnyNode fw exec sch pod s = FitsAnyNodeMatching fw exec sch pod (\<lambda>_. True) s"

fun join_comma :: "string list \<Rightarrow> string" where
  "join_comma [] = []"
| "join_comma [x] = x"
| "join_comma (x # y # xs) = x @ '', '' @ join_comma (y # xs)"

fun first_failure :: "(string, FilterStatus) gomap \<Rightarrow> PredicateError option" where
  "first_failure [] = None"
| "first_failure ((name, Success) # sts) = first_failure sts"
| "first_failure ((name, Unschedulable rs) # sts) =
     Some \<lparr>pe_errorType = NotSchedulablePredicateError, pe_predicateName = name, pe_errorMessage = join_comma rs, pe_reasons = rs\<rparr>"
| "first_failure ((name, Failed rs) # sts) =
     Some \<lparr>pe_errorType = InternalPredicateError, pe_predicateName = name, pe_errorMessage = join_comma rs, pe_reasons = rs\<rparr>"

definition CheckPredicates ::
    "('n, 'p, 'i, 's) executor \<Rightarrow> ('p, 'i, 'c) scheduler \<Rightarrow> 'p \<Rightarrow> string \<Rightarrow> 's \<Rightarrow> PredicateError option \<times> 's" where
  "CheckPredicates exec sch pod nodeName s =
     (let (nodeInfo, s1) = get_info exec nodeName s;
          internal = (\<lambda>msg. Some \<lparr>pe_errorType = InternalPredicateError, pe_predicateName = [], pe_errorMessage = msg, pe_reasons = []\<rparr>)
      in (case nodeInfo of
            None \<Rightarrow> (internal ''Error obtaining NodeInfo'', s1)
          | Some info \<Rightarrow>
              (case pre_filter exec sch pod s1 of
                 (Inl e, s2) \<Rightarrow> (internal ''pre filter plugins failed'', s2)
               | (Inr c, s2) \<Rightarrow> (first_failure (RunFilterPlugins sch c pod info), s2))))"

section \<open>Correctness\<close>

text \<open>
  A node info is accepted for a pod in a map of nodes when the filters pass it, after the plugins have
  seen the nodes of the map in some order.
\<close>

definition accepted :: "('n, 'p, 'i) framework \<Rightarrow> ('p, 'i, 'c) scheduler \<Rightarrow> (string \<rightharpoonup> 'i) \<Rightarrow> 'p \<Rightarrow> 'i \<Rightarrow> bool" where
  "accepted fw sch m pod info \<longleftrightarrow>
     (\<exists>l1 l2 l3 c. enumerates fw (\<lambda>_. True) l1 m \<and> enumerates fw (\<lambda>i. 0 < length (fw_PodsWithAffinity fw i)) l2 m \<and>
        enumerates fw (\<lambda>i. 0 < length (fw_PodsWithRequiredAntiAffinity fw i)) l3 m \<and>
        RunPreFilterPlugins sch l1 l2 l3 pod = Inr c \<and> passes_filters sch c pod info)"

text \<open>A node info is refused when the plugins fail or some filter does not pass it.\<close>

definition refused :: "('n, 'p, 'i) framework \<Rightarrow> ('p, 'i, 'c) scheduler \<Rightarrow> (string \<rightharpoonup> 'i) \<Rightarrow> 'p \<Rightarrow> 'i \<Rightarrow> bool" where
  "refused fw sch m pod info \<longleftrightarrow>
     (\<exists>l1 l2 l3. enumerates fw (\<lambda>_. True) l1 m \<and> enumerates fw (\<lambda>i. 0 < length (fw_PodsWithAffinity fw i)) l2 m \<and>
        enumerates fw (\<lambda>i. 0 < length (fw_PodsWithRequiredAntiAffinity fw i)) l3 m \<and>
        (\<forall>c. RunPreFilterPlugins sch l1 l2 l3 pod = Inr c \<longrightarrow> \<not> passes_filters sch c pod info))"

lemma first_failure_None: "first_failure sts = None \<longleftrightarrow> list_all (\<lambda>(_, st). st = Success) sts"
  by (induction sts rule: first_failure.induct) auto

context cluster_snapshot
begin

lemma list_infos_meets:
  assumes "framework_ok fw" "inv fw s" "spec_exec fw op (view s) = (Selection P, view s)" "list_infos (exec fw) op s = (l, s')"
  shows "inv fw s' \<and> view s' = view s \<and> enumerates fw P l (fst (view s))"
proof -
  obtain obs where e: "exec fw op s = (obs, s')" using assms(4) by (cases "exec fw op s") (auto simp: list_infos_def)
  then show ?thesis using simulates [OF assms(1,2) e] assms(3,4) by (cases obs) (auto simp: list_infos_def)
qed

lemma get_info_meets:
  assumes "framework_ok fw" "inv fw s" "get_info (exec fw) name s = (i, s')"
  shows "inv fw s' \<and> view s' = view s \<and> i = fst (view s) name"
proof -
  obtain obs where e: "exec fw (GetNode name) s = (obs, s')" using assms(3) by (cases "exec fw (GetNode name) s") (auto simp: get_info_def)
  then show ?thesis using simulates [OF assms(1,2) e] assms(3) by (cases obs) (auto simp: get_info_def)
qed

lemma perform_meets:
  assumes "framework_ok fw" "inv fw s" "spec_exec fw op (view s) = (Outcome err, v)" "perform (exec fw) op s = (err', s')"
  shows "inv fw s' \<and> view s' = v \<and> err' = err"
proof -
  obtain obs where e: "exec fw op s = (obs, s')" using assms(4) by (cases "exec fw op s") (auto simp: perform_def)
  then show ?thesis using simulates [OF assms(1,2) e] assms(3,4) by (cases obs) (auto simp: perform_def)
qed

lemma pre_filter_meets:
  assumes "framework_ok fw" "inv fw s" "pre_filter (exec fw) sch pod s = (r, s')"
  shows "inv fw s' \<and> view s' = view s \<and>
    (\<forall>c info. r = Inr c \<longrightarrow> passes_filters sch c pod info \<longrightarrow> accepted fw sch (fst (view s)) pod info) \<and>
    (\<forall>info. (\<forall>c. r = Inr c \<longrightarrow> \<not> passes_filters sch c pod info) \<longrightarrow> refused fw sch (fst (view s)) pod info)"
proof -
  obtain l1 s1 where 1: "list_infos (exec fw) ListNodes s = (l1, s1)" by (cases "list_infos (exec fw) ListNodes s")
  obtain l2 s2 where 2: "list_infos (exec fw) ListPodsWithAffinity s1 = (l2, s2)" by (cases "list_infos (exec fw) ListPodsWithAffinity s1")
  obtain l3 s3 where 3: "list_infos (exec fw) ListPodsWithRequiredAntiAffinity s2 = (l3, s3)"
    by (cases "list_infos (exec fw) ListPodsWithRequiredAntiAffinity s2")
  have r: "r = RunPreFilterPlugins sch l1 l2 l3 pod" "s' = s3" using assms(3) 1 2 3 by (simp_all add: pre_filter_def)
  note m1 = list_infos_meets [OF assms(1,2) _ 1, of "\<lambda>_. True"]
  note m2 = list_infos_meets [OF assms(1) _ _ 2, of "\<lambda>i. 0 < length (fw_PodsWithAffinity fw i)"]
  note m3 = list_infos_meets [OF assms(1) _ _ 3, of "\<lambda>i. 0 < length (fw_PodsWithRequiredAntiAffinity fw i)"]
  have e: "inv fw s3" "view s3 = view s" "enumerates fw (\<lambda>_. True) l1 (fst (view s))"
      "enumerates fw (\<lambda>i. 0 < length (fw_PodsWithAffinity fw i)) l2 (fst (view s))"
      "enumerates fw (\<lambda>i. 0 < length (fw_PodsWithRequiredAntiAffinity fw i)) l3 (fst (view s))"
    using m1 m2 m3 by auto
  show ?thesis using e unfolding accepted_def refused_def r by blast
qed

text \<open>A node that the checker returns is in the snapshot, matches, and accepts the pod.\<close>

lemma FitsAnyNodeMatching_meets:
  assumes "framework_ok fw" "inv fw s" "FitsAnyNodeMatching fw (exec fw) sch pod nodeMatches s = (r, s')"
  shows "inv fw s' \<and> view s' = view s \<and>
    (\<forall>name. r = Inr name \<longrightarrow> (\<exists>info. fst (view s) name = Some info \<and> fw_InfoName fw info = name \<and> nodeMatches info \<and>
       \<not> Spec_Unschedulable sch info \<and> accepted fw sch (fst (view s)) pod info)) \<and>
    (\<forall>e info. r = Inl e \<longrightarrow> fst (view s) (fw_InfoName fw info) = Some info \<longrightarrow> nodeMatches info \<longrightarrow>
       \<not> Spec_Unschedulable sch info \<longrightarrow> refused fw sch (fst (view s)) pod info)"
proof -
  obtain l s1 where 1: "list_infos (exec fw) ListNodes s = (l, s1)" by (cases "list_infos (exec fw) ListNodes s")
  obtain st s2 where 2: "pre_filter (exec fw) sch pod s1 = (st, s2)" by (cases "pre_filter (exec fw) sch pod s1")
  note m1 = list_infos_meets [OF assms(1,2) _ 1, of "\<lambda>_. True"]
  have i1: "inv fw s1" "view s1 = view s" "enumerates fw (\<lambda>_. True) l (fst (view s))" using m1 by simp_all
  note m2 = pre_filter_meets [OF assms(1) i1(1) 2]
  have s': "s' = s2" using assms(3) 1 2 by (auto simp: FitsAnyNodeMatching_def split: sum.splits option.splits)
  have "\<exists>info. fst (view s) name = Some info \<and> fw_InfoName fw info = name \<and> nodeMatches info \<and>
       \<not> Spec_Unschedulable sch info \<and> accepted fw sch (fst (view s)) pod info" if name: "r = Inr name" for name
  proof -
    obtain c info where c: "st = Inr c" and n: "name = fw_InfoName fw info"
      and f: "find (\<lambda>info. nodeMatches info \<and> \<not> Spec_Unschedulable sch info \<and> passes_filters sch c pod info) l = Some info"
      using assms(3) 1 2 name by (auto simp: FitsAnyNodeMatching_def split: sum.splits option.splits)
    have "info \<in> set l" and p: "nodeMatches info" "\<not> Spec_Unschedulable sch info" "passes_filters sch c pod info"
      using f by (auto simp: find_Some_iff)
    then have "fst (view s) (fw_InfoName fw info) = Some info" using i1(3) by (simp add: enumerates_def)
    then show ?thesis using m2 p c i1(2) n by auto
  qed
  moreover have "refused fw sch (fst (view s)) pod info"
    if r: "r = Inl e" "fst (view s) (fw_InfoName fw info) = Some info" "nodeMatches info" "\<not> Spec_Unschedulable sch info" for e info
  proof -
    have "info \<in> set l" using r(2) i1(3) by (simp add: enumerates_def)
    then have "\<not> passes_filters sch c pod info" if "st = Inr c" for c
      using assms(3) 1 2 r that by (auto simp: FitsAnyNodeMatching_def find_None_iff split: option.splits)
    then show ?thesis using m2 i1(2) by simp
  qed
  ultimately show ?thesis using m2 i1 s' by simp
qed

lemma CheckPredicates_meets:
  assumes "framework_ok fw" "inv fw s" "CheckPredicates (exec fw) sch pod name s = (r, s')"
  shows "inv fw s' \<and> view s' = view s \<and>
    (r = None \<longrightarrow> (\<exists>info. fst (view s) name = Some info \<and> accepted fw sch (fst (view s)) pod info))"
proof -
  obtain i s1 where 1: "get_info (exec fw) name s = (i, s1)" by (cases "get_info (exec fw) name s")
  note m1 = get_info_meets [OF assms(1,2) 1]
  obtain st s2 where 2: "pre_filter (exec fw) sch pod s1 = (st, s2)" by (cases "pre_filter (exec fw) sch pod s1")
  note m2 = pre_filter_meets [OF assms(1) _ 2]
  show ?thesis using assms(3) m1 m2 1 2
    by (auto simp: CheckPredicates_def first_failure_None passes_filters_def [symmetric] split: option.splits sum.splits)
qed

end

end
