(* ===== verification/Removal_Simulation.thy ===== *)
theory Removal_Simulation
  imports Drain Usage_Tracker Predicate_Checker Node_State
begin

text \<open>
  The simulation of the removal of nodes (\<open>cluster-autoscaler/simulator/cluster.go\<close>, \<open>utils/gpu/gpu.go\<close>):
  which nodes can be drained, with a place for each of their pods, which nodes are empty, and how much
  of a node is used. The snapshot is given by its executor, the scheduler by its plugins. The node
  that \<open>nodeInfo.Node()\<close> returns is represented by the node info.
\<close>

section \<open>Nodes and their use\<close>

record ca_Node = Node +
  node_Labels :: "(string, string) gomap"
  node_Allocatable :: ResourceList
  node_Capacity :: ResourceList

definition ResourceNvidiaGPU :: string where "ResourceNvidiaGPU = ''nvidia.com/gpu''"

definition NodeHasGpu :: "string \<Rightarrow> ca_Node \<Rightarrow> bool" where
  "NodeHasGpu GPULabel node \<longleftrightarrow>
     map_of (node_Labels node) GPULabel \<noteq> None \<or>
     (case map_of (node_Allocatable node) ResourceNvidiaGPU of Some q \<Rightarrow> \<not> q_IsZero q | None \<Rightarrow> False)"

definition PodRequestsGpu :: "'z Pod_scheme \<Rightarrow> bool" where
  "PodRequestsGpu pod =
     list_ex (\<lambda>c. map_of (list_of (Requests (c_Resources c))) ResourceNvidiaGPU \<noteq> None) (pod_Containers pod)"

definition unready_gpu :: "string \<Rightarrow> ca_Node \<Rightarrow> bool" where
  "unready_gpu GPULabel node \<longleftrightarrow>
     map_of (node_Labels node) GPULabel \<noteq> None \<and>
     (case map_of (node_Allocatable node) ResourceNvidiaGPU of None \<Rightarrow> True | Some q \<Rightarrow> q_IsZero q)"

definition FilterOutNodesWithUnreadyGpus :: "string \<Rightarrow> ca_Node list \<Rightarrow> ca_Node list \<Rightarrow> ca_Node list \<times> ca_Node list" where
  "FilterOutNodesWithUnreadyGpus GPULabel allNodes readyNodes =
     (let nodesWithUnreadyGpu = foldl (\<lambda>m n. AList.update (node_Name n) (GetUnreadyNodeCopy n) m) [] (filter (unready_gpu GPULabel) readyNodes)
      in (map (\<lambda>n. case map_of nodesWithUnreadyGpu (node_Name n) of Some n' \<Rightarrow> n' | None \<Rightarrow> n) allNodes,
          filter (\<lambda>n. \<not> unready_gpu GPULabel n) readyNodes))"

record UtilizationInfo =
  CpuUtil :: float64
  MemUtil :: float64
  GpuUtil :: float64
  ResourceName_of :: string
  Utilization :: float64

definition requested :: "string \<Rightarrow> 'z Pod_scheme \<Rightarrow> Quantity" where
  "requested resourceName pod =
     sum_list (map (\<lambda>c. lookup_default 0 (list_of (Requests (c_Resources c))) resourceName) (pod_Containers pod))"

definition calculateUtilizationOfResource :: "ca_Node \<Rightarrow> ca_Pod list \<Rightarrow> string \<Rightarrow> bool \<Rightarrow> bool \<Rightarrow> float64 result" where
  "calculateUtilizationOfResource node infoPods resourceName skipDaemonSetPods skipMirrorPods =
     (case map_of (node_Allocatable node) resourceName of
        None \<Rightarrow> Inl (Err ''failed to get resource'')
      | Some nodeAllocatable \<Rightarrow>
          if q_MilliValue nodeAllocatable = 0 then Inl (Err ''resource is 0'')
          else let counted = filter (\<lambda>p. \<not> (skipDaemonSetPods \<and> IsDaemonSetPod p) \<and> \<not> (skipMirrorPods \<and> IsMirrorPod p)) infoPods;
                   podsRequest = sum_list (map (requested resourceName) counted)
               in Inr (of_int (q_MilliValue podsRequest) / of_int (q_MilliValue nodeAllocatable)))"

definition CalculateUtilization :: "ca_Node \<Rightarrow> ca_Pod list \<Rightarrow> bool \<Rightarrow> bool \<Rightarrow> string \<Rightarrow> UtilizationInfo result" where
  "CalculateUtilization node infoPods skipDaemonSetPods skipMirrorPods gpuLabel =
     (let util = (\<lambda>r. calculateUtilizationOfResource node infoPods r skipDaemonSetPods skipMirrorPods) in
      if NodeHasGpu gpuLabel node
      then (case util ResourceNvidiaGPU of
              Inl _ \<Rightarrow> Inr \<lparr>CpuUtil = 0, MemUtil = 0, GpuUtil = 0, ResourceName_of = ResourceNvidiaGPU, Utilization = 0\<rparr>
            | Inr gpuUtil \<Rightarrow> Inr \<lparr>CpuUtil = 0, MemUtil = 0, GpuUtil = gpuUtil, ResourceName_of = ResourceNvidiaGPU, Utilization = gpuUtil\<rparr>)
      else rbind (util ResourceCPU) (\<lambda>cpu. rbind (util ResourceMemory) (\<lambda>mem.
             Inr \<lparr>CpuUtil = cpu, MemUtil = mem, GpuUtil = 0,
                  ResourceName_of = (if cpu > mem then ResourceCPU else ResourceMemory),
                  Utilization = (if cpu > mem then cpu else mem)\<rparr>)))"

section \<open>A place for every pod\<close>

definition podKey :: "ca_Pod \<Rightarrow> string" where
  "podKey pod = pod_Namespace pod @ ''/'' @ pod_Name pod"

definition put_pod ::
    "('n, ca_Pod, 'i, 's) executor \<Rightarrow> ca_Pod \<Rightarrow> string \<Rightarrow> 's \<Rightarrow> string result \<times> 's" where
  "put_pod exec pod target s =
     (let (e, s') = perform exec (AddPod_to pod target) s
      in (if e \<noteq> None then Inl (Err ''Simulating scheduling returned an error'') else Inr target, s'))"

definition search_place ::
    "('n, ca_Pod, 'i) framework \<Rightarrow> ('n, ca_Pod, 'i, 's) executor \<Rightarrow> (ca_Pod, 'i, 'c) scheduler \<Rightarrow> string \<Rightarrow> ca_Pod \<Rightarrow> 's \<Rightarrow> string result \<times> 's" where
  "search_place fw exec sch removedNode pod s =
     (let (r, s1) = FitsAnyNodeMatching fw exec sch pod (\<lambda>info. fw_InfoName fw info \<noteq> removedNode) s
      in (case r of Inl _ \<Rightarrow> (Inl (Err ''failed to find place''), s1) | Inr name \<Rightarrow> put_pod exec pod name s1))"

definition place_pod ::
    "('n, ca_Pod, 'i) framework \<Rightarrow> ('n, ca_Pod, 'i, 's) executor \<Rightarrow> (ca_Pod, 'i, 'c) scheduler \<Rightarrow> string \<Rightarrow> (string, string) gomap \<Rightarrow>
     ca_Pod \<Rightarrow> 's \<Rightarrow> string result \<times> 's" where
  "place_pod fw exec sch removedNode oldHints pod s =
     (case map_of oldHints (podKey pod) of
        Some hintedNode \<Rightarrow>
          if hintedNode \<noteq> removedNode
          then (let (pe, s1) = CheckPredicates exec sch pod hintedNode s
                in if pe = None then put_pod exec pod hintedNode s1 else search_place fw exec sch removedNode pod s1)
          else search_place fw exec sch removedNode pod s
      | None \<Rightarrow> search_place fw exec sch removedNode pod s)"

fun place_pods ::
    "('n, ca_Pod, 'i) framework \<Rightarrow> ('n, ca_Pod, 'i, 's) executor \<Rightarrow> (ca_Pod, 'i, 'c) scheduler \<Rightarrow> string \<Rightarrow> (string, string) gomap \<Rightarrow> time \<Rightarrow>
     ca_Pod list \<Rightarrow> (string, string) gomap \<Rightarrow> UsageTracker \<Rightarrow> 's \<Rightarrow> go_error option \<times> (string, string) gomap \<times> UsageTracker \<times> 's" where
  "place_pods fw exec sch removedNode oldHints timestamp [] newHints tracker s = (None, newHints, tracker, s)"
| "place_pods fw exec sch removedNode oldHints timestamp (p # ps) newHints tracker s =
     (let pod = p\<lparr>pod_NodeName := []\<rparr>; (r, s1) = place_pod fw exec sch removedNode oldHints pod s
      in (case r of
            Inl e \<Rightarrow> (Some e, newHints, tracker, s1)
          | Inr target \<Rightarrow> place_pods fw exec sch removedNode oldHints timestamp ps (AList.update (podKey pod) target newHints)
                            (RegisterUsage removedNode target timestamp tracker) s1))"

definition remove_pods :: "('n, ca_Pod, 'i, 's) executor \<Rightarrow> string \<Rightarrow> ca_Pod list \<Rightarrow> 's \<Rightarrow> 's" where
  "remove_pods exec removedNode pods s =
     foldl (\<lambda>s p. snd (perform exec (RemovePod (pod_Namespace p) (pod_Name p) removedNode) s)) s pods"

text \<open>A failure to revert ends the process; it is a panic here.\<close>

definition findPlaceFor ::
    "('n, ca_Pod, 'i) framework \<Rightarrow> ('n, ca_Pod, 'i, 's) executor \<Rightarrow> (ca_Pod, 'i, 'c) scheduler \<Rightarrow> string \<Rightarrow> ca_Pod list \<Rightarrow>
     (string, string) gomap \<Rightarrow> (string, string) gomap \<Rightarrow> UsageTracker \<Rightarrow> time \<Rightarrow> 's \<Rightarrow>
     go_error option \<times> (string, string) gomap \<times> UsageTracker \<times> 's" where
  "findPlaceFor fw exec sch removedNode pods oldHints newHints tracker timestamp s =
     (let (e, s1) = perform exec Fork s in
      if e \<noteq> None then (Some (Err ''cannot fork''), newHints, tracker, s1)
      else let pods' = ClearTPURequests pods;
               (r, hints, tracker', s3) = place_pods fw exec sch removedNode oldHints timestamp pods' newHints tracker (remove_pods exec removedNode pods' s1);
               (e4, s4) = perform exec Revert s3
           in (if e4 \<noteq> None then Some (Panic ''Got error when calling ClusterSnapshot.Revert()'') else r, hints, tracker', s4))"

section \<open>Nodes to remove\<close>

datatype UnremovableReason =
    NoUnremovableReason | ScaleDownDisabledAnnotation | NotAutoscaled | NotUnneededLongEnough | NotUnreadyLongEnough
  | NodeGroupMinSizeReached | MinimalResourceLimitExceeded | CurrentlyBeingDeleted | NotUnderutilized
  | NotUnneededOtherReason | RecentlyUnremovable | NoPlaceToMovePods | BlockedByPod | UnexpectedNodeError

record 'i NodeToBeRemoved =
  ntr_Node :: 'i
  PodsToReschedule :: "ca_Pod list"

record 'i UnremovableNode =
  unr_Node :: "'i option"
  unr_Reason :: UnremovableReason
  unr_BlockingPod :: "BlockingPod option"

text \<open>The flags of the simulator, the listers, the budgets, and the current time.\<close>

record drain_settings =
  skipNodesWithSystemPods :: bool
  skipNodesWithLocalStorage :: bool
  minReplicaCount :: int
  ds_listers :: ListerRegistry
  ds_labels :: label_rules
  podDisruptionBudgets :: "PodDisruptionBudget list"
  ds_now :: time

definition pods_to_move :: "drain_settings \<Rightarrow> bool \<Rightarrow> ca_Pod list \<Rightarrow> ca_Pod list drain_result" where
  "pods_to_move ds fastCheck infoPods =
     (if fastCheck
      then FastGetPodsToMove (ds_labels ds) (ds_listers ds) (ds_now ds) infoPods (skipNodesWithSystemPods ds) (skipNodesWithLocalStorage ds)
             (podDisruptionBudgets ds)
      else DetailedGetPodsForMove (ds_labels ds) (ds_now ds) infoPods (skipNodesWithSystemPods ds) (skipNodesWithLocalStorage ds)
             (ds_listers ds) (minReplicaCount ds) (podDisruptionBudgets ds))"

record 'i removal_state =
  rs_result :: "'i NodeToBeRemoved list"
  rs_unremovable :: "'i UnremovableNode list"
  rs_hints :: "(string, string) gomap"
  rs_tracker :: UsageTracker

text \<open>
  A candidate that is a destination and is not in the snapshot makes the code read the pods of a nil
  node info.
\<close>

fun remove_candidates ::
    "('n, ca_Pod, 'i) framework \<Rightarrow> ('n, ca_Pod, 'i, 's) executor \<Rightarrow> (ca_Pod, 'i, 'c) scheduler \<Rightarrow> drain_settings \<Rightarrow> bool \<Rightarrow> string list \<Rightarrow> int \<Rightarrow>
     (string, string) gomap \<Rightarrow> time \<Rightarrow> string list \<Rightarrow> 'i removal_state \<Rightarrow> 's \<Rightarrow> 'i removal_state result \<times> 's" where
  "remove_candidates fw exec sch ds fastCheck destinations maxCount oldHints timestamp [] st s = (Inr st, s)"
| "remove_candidates fw exec sch ds fastCheck destinations maxCount oldHints timestamp (nodeName # candidates) st s =
     (let (nodeInfo, s1) = get_info exec nodeName s;
          continue_with = remove_candidates fw exec sch ds fastCheck destinations maxCount oldHints timestamp candidates;
          unremovable = (\<lambda>st reason pod. st\<lparr>rs_unremovable := rs_unremovable st @ [\<lparr>unr_Node = nodeInfo, unr_Reason = reason, unr_BlockingPod = pod\<rparr>]\<rparr>)
      in if nodeName \<notin> set destinations then continue_with (unremovable st UnexpectedNodeError None) s1
         else (case nodeInfo of
             None \<Rightarrow> (Inl (Panic ''nil pointer dereference''), s1)
           | Some info \<Rightarrow>
               (case pods_to_move ds fastCheck (fw_Pods fw info) of
                  Inl (Some bp, _) \<Rightarrow> continue_with (unremovable st BlockedByPod (Some bp)) s1
                | Inl (None, _) \<Rightarrow> continue_with (unremovable st UnexpectedNodeError None) s1
                | Inr podsToRemove \<Rightarrow>
                    (case findPlaceFor fw exec sch nodeName podsToRemove oldHints (rs_hints st) (rs_tracker st) timestamp s1 of
                       (problem, hints, tracker, s2) \<Rightarrow>
                         let st1 = st\<lparr>rs_hints := hints, rs_tracker := tracker\<rparr> in
                         (case problem of
                            None \<Rightarrow>
                              let st2 = st1\<lparr>rs_result := rs_result st1 @ [\<lparr>ntr_Node = info, PodsToReschedule = podsToRemove\<rparr>]\<rparr>
                              in if int (length (rs_result st2)) \<ge> maxCount then (Inr st2, s2) else continue_with st2 s2
                          | Some (Panic e) \<Rightarrow> (Inl (Panic e), s2)
                          | Some _ \<Rightarrow> continue_with (unremovable st1 NoPlaceToMovePods None) s2)))))"

definition FindNodesToRemove ::
    "('n, ca_Pod, 'i) framework \<Rightarrow> ('n, ca_Pod, 'i, 's) executor \<Rightarrow> (ca_Pod, 'i, 'c) scheduler \<Rightarrow> drain_settings \<Rightarrow> string list \<Rightarrow> string list \<Rightarrow>
     int \<Rightarrow> bool \<Rightarrow> (string, string) gomap \<Rightarrow> UsageTracker \<Rightarrow> time \<Rightarrow> 's \<Rightarrow> 'i removal_state result \<times> 's" where
  "FindNodesToRemove fw exec sch ds candidates destinations maxCount fastCheck oldHints tracker timestamp s =
     remove_candidates fw exec sch ds fastCheck destinations maxCount oldHints timestamp candidates
       \<lparr>rs_result = [], rs_unremovable = [], rs_hints = [], rs_tracker = tracker\<rparr> s"

fun FindEmptyNodesToRemove ::
    "('n, ca_Pod, 'i) framework \<Rightarrow> ('n, ca_Pod, 'i, 's) executor \<Rightarrow> drain_settings \<Rightarrow> string list \<Rightarrow> 's \<Rightarrow> string list \<times> 's" where
  "FindEmptyNodesToRemove fw exec ds [] s = ([], s)"
| "FindEmptyNodesToRemove fw exec ds (node # candidates) s =
     (let (nodeInfo, s1) = get_info exec node s; (rest, s2) = FindEmptyNodesToRemove fw exec ds candidates s1
      in (case nodeInfo of
            None \<Rightarrow> (rest, s2)
          | Some info \<Rightarrow>
              if FastGetPodsToMove (ds_labels ds) (ds_listers ds) (ds_now ds) (fw_Pods fw info) True True [] = Inr []
              then (node # rest, s2) else (rest, s2)))"

end
