(* ===== verification/Removal_Correct.thy ===== *)
theory Removal_Correct
  imports Removal_Simulation "HOL-Library.Sublist"
begin

text \<open>
  The simulation of removals is right, on any snapshot that keeps its promise: it leaves the snapshot
  as it was, every node it reports as removable can be drained and has a place for each of its
  pods on other nodes, which the scheduler accepts with the pods placed before, and every candidate it
  refuses is reported with what stands in the way.
\<close>

section \<open>What a removal needs\<close>

text \<open>The pods can be placed one after the other on nodes other than the removed one.\<close>

fun placeable ::
    "('n, ca_Pod, 'i) framework \<Rightarrow> (ca_Pod, 'i, 'c) scheduler \<Rightarrow> string \<Rightarrow> (string \<rightharpoonup> 'i) \<Rightarrow> ca_Pod list \<Rightarrow> bool" where
  "placeable fw sch removedNode m [] \<longleftrightarrow> True"
| "placeable fw sch removedNode m (p # ps) \<longleftrightarrow>
     (\<exists>k info. m k = Some info \<and> k \<noteq> removedNode \<and> accepted fw sch m (p\<lparr>pod_NodeName := []\<rparr>) info \<and>
        placeable fw sch removedNode (m(k \<mapsto> fw_AddPod fw (p\<lparr>pod_NodeName := []\<rparr>) info)) ps)"

text \<open>One of them cannot, after those before it have been: the scheduler refuses it on every other node.\<close>

definition no_other_place ::
    "('n, ca_Pod, 'i) framework \<Rightarrow> (ca_Pod, 'i, 'c) scheduler \<Rightarrow> string \<Rightarrow> (string \<rightharpoonup> 'i) \<Rightarrow> ca_Pod \<Rightarrow> bool" where
  "no_other_place fw sch removedNode m pod \<longleftrightarrow>
     (\<forall>info. m (fw_InfoName fw info) = Some info \<longrightarrow> fw_InfoName fw info \<noteq> removedNode \<longrightarrow> \<not> Spec_Unschedulable sch info \<longrightarrow> refused fw sch m pod info)"

fun stuck ::
    "('n, ca_Pod, 'i) framework \<Rightarrow> (ca_Pod, 'i, 'c) scheduler \<Rightarrow> string \<Rightarrow> (string \<rightharpoonup> 'i) \<Rightarrow> ca_Pod list \<Rightarrow> bool" where
  "stuck fw sch removedNode m [] \<longleftrightarrow> False"
| "stuck fw sch removedNode m (p # ps) \<longleftrightarrow>
     no_other_place fw sch removedNode m (p\<lparr>pod_NodeName := []\<rparr>) \<or>
     (\<exists>k info. m k = Some info \<and> k \<noteq> removedNode \<and> accepted fw sch m (p\<lparr>pod_NodeName := []\<rparr>) info \<and>
        stuck fw sch removedNode (m(k \<mapsto> fw_AddPod fw (p\<lparr>pod_NodeName := []\<rparr>) info)) ps)"

definition without_pods :: "('n, ca_Pod, 'i) framework \<Rightarrow> string \<Rightarrow> ca_Pod list \<Rightarrow> (string \<rightharpoonup> 'i) \<Rightarrow> (string \<rightharpoonup> 'i)" where
  "without_pods fw node pods m =
     foldl (\<lambda>m p. snd (spec_modify (remove_from_info fw (pod_Namespace p) (pod_Name p)) node m)) m pods"

definition removable ::
    "('n, ca_Pod, 'i) framework \<Rightarrow> (ca_Pod, 'i, 'c) scheduler \<Rightarrow> drain_settings \<Rightarrow> bool \<Rightarrow> (string \<rightharpoonup> 'i) \<Rightarrow> string \<Rightarrow> 'i NodeToBeRemoved \<Rightarrow> bool" where
  "removable fw sch ds fastCheck m name n \<longleftrightarrow>
     m name = Some (ntr_Node n) \<and> pods_to_move ds fastCheck (fw_Pods fw (ntr_Node n)) = Inr (PodsToReschedule n) \<and>
     placeable fw sch name (without_pods fw name (ClearTPURequests (PodsToReschedule n)) m) (ClearTPURequests (PodsToReschedule n))"

text \<open>The reason a candidate is refused for is the first thing that stands in the way of its removal.\<close>

definition true_reason ::
    "('n, ca_Pod, 'i) framework \<Rightarrow> (ca_Pod, 'i, 'c) scheduler \<Rightarrow> drain_settings \<Rightarrow> bool \<Rightarrow> string list \<Rightarrow> (string \<rightharpoonup> 'i) \<Rightarrow> string \<Rightarrow>
     'i UnremovableNode \<Rightarrow> bool" where
  "true_reason fw sch ds fastCheck destinations m name u \<longleftrightarrow> unr_Node u = m name \<and>
     (if name \<notin> set destinations then unr_Reason u = UnexpectedNodeError \<and> unr_BlockingPod u = None
      else \<exists>info. m name = Some info \<and>
        (case pods_to_move ds fastCheck (fw_Pods fw info) of
           Inl (bp, _) \<Rightarrow> unr_Reason u = (if bp = None then UnexpectedNodeError else BlockedByPod) \<and> unr_BlockingPod u = bp
         | Inr pods \<Rightarrow> unr_Reason u = NoPlaceToMovePods \<and> unr_BlockingPod u = None \<and>
             stuck fw sch name (without_pods fw name (ClearTPURequests pods) m) (ClearTPURequests pods)))"

type_synonym 'i verdict = "string \<times> ('i NodeToBeRemoved + 'i UnremovableNode)"

fun offered :: "'i verdict list \<Rightarrow> 'i NodeToBeRemoved list" where
  "offered [] = []"
| "offered ((name, Inl n) # vs) = n # offered vs"
| "offered ((name, Inr u) # vs) = offered vs"

fun rejected :: "'i verdict list \<Rightarrow> 'i UnremovableNode list" where
  "rejected [] = []"
| "rejected ((name, Inl n) # vs) = rejected vs"
| "rejected ((name, Inr u) # vs) = u # rejected vs"

lemma offered_length: "length (offered vs) \<le> length vs"
  by (induction vs rule: offered.induct) auto

definition fair ::
    "('n, ca_Pod, 'i) framework \<Rightarrow> (ca_Pod, 'i, 'c) scheduler \<Rightarrow> drain_settings \<Rightarrow> bool \<Rightarrow> string list \<Rightarrow> (string \<rightharpoonup> 'i) \<Rightarrow> 'i verdict \<Rightarrow> bool" where
  "fair fw sch ds fastCheck destinations m v \<longleftrightarrow>
     (case snd v of
        Inl n \<Rightarrow> fst v \<in> set destinations \<and> removable fw sch ds fastCheck m (fst v) n
      | Inr u \<Rightarrow> true_reason fw sch ds fastCheck destinations m (fst v) u)"

lemma fair_present: "fair fw sch ds fastCheck destinations m v \<Longrightarrow> fst v \<in> set destinations \<Longrightarrow> m (fst v) \<noteq> None"
  by (cases "snd v") (auto simp: fair_def removable_def true_reason_def)

text \<open>
  What has been decided when the candidates of a list have been looked at: a verdict on each, in their
  order, up to the one with which the number of removable nodes is reached.
\<close>

definition decided ::
    "('n, ca_Pod, 'i) framework \<Rightarrow> (ca_Pod, 'i, 'c) scheduler \<Rightarrow> drain_settings \<Rightarrow> bool \<Rightarrow> string list \<Rightarrow> (string \<rightharpoonup> 'i) \<Rightarrow> int \<Rightarrow> string list \<Rightarrow>
     'i removal_state \<Rightarrow> 'i removal_state \<Rightarrow> bool" where
  "decided fw sch ds fastCheck destinations m maxCount candidates st st' \<longleftrightarrow>
     (\<exists>vs. rs_result st' = rs_result st @ offered vs \<and> rs_unremovable st' = rs_unremovable st @ rejected vs \<and>
        prefix (map fst vs) candidates \<and> (map fst vs = candidates \<or> maxCount \<le> int (length (rs_result st'))) \<and>
        (\<forall>v \<in> set vs. fair fw sch ds fastCheck destinations m v))"

lemma decided_Nil: "decided fw sch ds fastCheck destinations m maxCount [] st st"
  unfolding decided_def by (rule exI [of _ "[]"]) simp

lemma decided_enough: "maxCount \<le> int (length (rs_result st)) \<Longrightarrow> decided fw sch ds fastCheck destinations m maxCount candidates st st"
  unfolding decided_def by (rule exI [of _ "[]"]) simp

lemma decided_Cons:
  assumes "rs_result st1 = rs_result st @ offered [(name, v)]" "rs_unremovable st1 = rs_unremovable st @ rejected [(name, v)]"
    and "fair fw sch ds fastCheck destinations m (name, v)" "decided fw sch ds fastCheck destinations m maxCount candidates st1 st'"
  shows "decided fw sch ds fastCheck destinations m maxCount (name # candidates) st st'"
proof -
  obtain vs where vs: "rs_result st' = rs_result st1 @ offered vs" "rs_unremovable st' = rs_unremovable st1 @ rejected vs"
    "prefix (map fst vs) candidates" "map fst vs = candidates \<or> maxCount \<le> int (length (rs_result st'))"
    "\<forall>v \<in> set vs. fair fw sch ds fastCheck destinations m v" using assms(4) unfolding decided_def by blast
  show ?thesis unfolding decided_def by (rule exI [of _ "(name, v) # vs"]) (use vs assms(1-3) in \<open>cases v; auto\<close>)
qed

section \<open>On a snapshot that keeps its promise\<close>

locale removal_snapshot = cluster_snapshot exec inv view empty
  for exec :: "('n, ca_Pod, 'i) framework \<Rightarrow> ('n, ca_Pod) snapshot_op \<Rightarrow> 's \<Rightarrow> 'i observation \<times> 's"
    and inv view empty
begin

lemma put_pod_meets:
  assumes "framework_ok fw" "inv fw s" "put_pod (exec fw) pod target s = (r, s')"
  shows "inv fw s' \<and> snd (view s') = snd (view s) \<and>
    (\<forall>name. r = Inr name \<longrightarrow> name = target \<and> (\<exists>info. fst (view s) target = Some info \<and>
       fst (view s') = (fst (view s))(target \<mapsto> fw_AddPod fw pod info))) \<and>
    (\<forall>e. r = Inl e \<longrightarrow> fst (view s) target = None)"
proof -
  obtain e s1 where p: "perform (exec fw) (AddPod_to pod target) s = (e, s1)" by (cases "perform (exec fw) (AddPod_to pod target) s")
  have r: "r = (if e \<noteq> None then Inl (Err ''Simulating scheduling returned an error'') else Inr target)" "s' = s1"
    using assms(3) p by (simp_all add: put_pod_def)
  obtain err v where sp: "spec_exec fw (AddPod_to pod target) (view s) = (Outcome err, v)" by (simp add: on_current_def case_prod_beta Let_def)
  note m = perform_meets [OF assms(1,2) sp p]
  have v: "v = (snd (spec_modify (\<lambda>i. Inr (fw_AddPod fw pod i)) target (fst (view s))), snd (view s))"
      "err = fst (spec_modify (\<lambda>i. Inr (fw_AddPod fw pod i)) target (fst (view s)))"
    using sp by (auto simp: on_current_def case_prod_beta Let_def)
  show ?thesis using m r unfolding v by (auto simp: spec_modify_def split: option.splits if_splits)
qed

definition placed where
  "placed fw sch removedNode pod s target s' \<longleftrightarrow>
     (\<exists>info. fst (view s) target = Some info \<and> target \<noteq> removedNode \<and> accepted fw sch (fst (view s)) pod info \<and>
        fst (view s') = (fst (view s))(target \<mapsto> fw_AddPod fw pod info))"

lemma search_place_meets:
  assumes "framework_ok fw" "inv fw s" "search_place fw (exec fw) sch removedNode pod s = (r, s')"
  shows "inv fw s' \<and> snd (view s') = snd (view s) \<and> (\<forall>target. r = Inr target \<longrightarrow> placed fw sch removedNode pod s target s') \<and>
    (\<forall>e. r = Inl e \<longrightarrow> no_other_place fw sch removedNode (fst (view s)) pod)"
proof -
  obtain q s1 where f: "FitsAnyNodeMatching fw (exec fw) sch pod (\<lambda>info. fw_InfoName fw info \<noteq> removedNode) s = (q, s1)"
    by (cases "FitsAnyNodeMatching fw (exec fw) sch pod (\<lambda>info. fw_InfoName fw info \<noteq> removedNode) s")
  note m = FitsAnyNodeMatching_meets [OF assms(1,2) f]
  show ?thesis
  proof (cases q)
    case (Inl e)
    then show ?thesis using assms(3) f m by (auto simp: search_place_def no_other_place_def)
  next
    case (Inr name)
    then have p: "put_pod (exec fw) pod name s1 = (r, s')" using assms(3) f by (simp add: search_place_def)
    show ?thesis using put_pod_meets [OF assms(1) _ p] m Inr unfolding placed_def by fastforce
  qed
qed

lemma place_pod_meets:
  assumes "framework_ok fw" "inv fw s" "place_pod fw (exec fw) sch removedNode oldHints pod s = (r, s')"
  shows "inv fw s' \<and> snd (view s') = snd (view s) \<and> (\<forall>target. r = Inr target \<longrightarrow> placed fw sch removedNode pod s target s') \<and>
    (\<forall>e. r = Inl e \<longrightarrow> no_other_place fw sch removedNode (fst (view s)) pod)"
proof (cases "\<exists>h. map_of oldHints (podKey pod) = Some h \<and> h \<noteq> removedNode")
  case False
  then have "search_place fw (exec fw) sch removedNode pod s = (r, s')" using assms(3) by (auto simp: place_pod_def split: option.splits)
  then show ?thesis by (rule search_place_meets [OF assms(1,2)])
next
  case True
  then obtain h where h: "map_of oldHints (podKey pod) = Some h" "h \<noteq> removedNode" by blast
  obtain pe s1 where c: "CheckPredicates (exec fw) sch pod h s = (pe, s1)" by (cases "CheckPredicates (exec fw) sch pod h s")
  note m = CheckPredicates_meets [OF assms(1,2) c]
  have i: "inv fw s1" "view s1 = view s" using m by auto
  show ?thesis
  proof (cases pe)
    case None
    then have p: "put_pod (exec fw) pod h s1 = (r, s')" using assms(3) h c by (simp add: place_pod_def)
    show ?thesis using put_pod_meets [OF assms(1) i(1) p] m None h(2) i(2) unfolding placed_def by fastforce
  next
    case (Some e)
    then have "search_place fw (exec fw) sch removedNode pod s1 = (r, s')" using assms(3) h c by (simp add: place_pod_def)
    from search_place_meets [OF assms(1) i(1) this] show ?thesis by (simp add: i(2) placed_def)
  qed
qed

lemma place_pods_meets:
  assumes "framework_ok fw"
  shows "inv fw s \<Longrightarrow> place_pods fw (exec fw) sch removedNode oldHints timestamp pods newHints tracker s = (r, hints, tracker', s') \<Longrightarrow>
    inv fw s' \<and> snd (view s') = snd (view s) \<and> (r = None \<longrightarrow> placeable fw sch removedNode (fst (view s)) pods) \<and>
    (r \<noteq> None \<longrightarrow> stuck fw sch removedNode (fst (view s)) pods) \<and> (\<forall>e. r \<noteq> Some (Panic e))"
proof (induction pods arbitrary: newHints tracker s)
  case (Cons p pods)
  let ?pod = "p\<lparr>pod_NodeName := []\<rparr>"
  obtain q s1 where f: "place_pod fw (exec fw) sch removedNode oldHints ?pod s = (q, s1)" by (cases "place_pod fw (exec fw) sch removedNode oldHints ?pod s")
  note m = place_pod_meets [OF assms Cons.prems(1) f]
  show ?case
  proof (cases q)
    case (Inl e)
    have "\<not> (\<exists>x. e = Panic x)" using f unfolding Inl
      by (auto simp: place_pod_def search_place_def put_pod_def Let_def case_prod_beta split: option.splits if_splits sum.splits)
    then show ?thesis using Cons.prems(2) f m Inl by auto
  next
    case (Inr target)
    have "place_pods fw (exec fw) sch removedNode oldHints timestamp pods (AList.update (podKey ?pod) target newHints)
       (RegisterUsage removedNode target timestamp tracker) s1 = (r, hints, tracker', s')"
      using Cons.prems(2) f Inr by simp
    note ih = Cons.IH [OF conjunct1 [OF m] this]
    obtain info where info: "fst (view s) target = Some info" "target \<noteq> removedNode" "accepted fw sch (fst (view s)) ?pod info"
        "fst (view s1) = (fst (view s))(target \<mapsto> fw_AddPod fw ?pod info)" using m Inr unfolding placed_def by blast
    have "placeable fw sch removedNode (fst (view s)) (p # pods)" if "placeable fw sch removedNode (fst (view s1)) pods"
      using that info unfolding placeable.simps by metis
    moreover have "stuck fw sch removedNode (fst (view s)) (p # pods)" if "stuck fw sch removedNode (fst (view s1)) pods"
      using that info unfolding stuck.simps by metis
    ultimately show ?thesis using ih m by simp
  qed
qed auto

lemma remove_pods_meets:
  assumes "framework_ok fw" "inv fw s"
  shows "inv fw (remove_pods (exec fw) node pods s) \<and> snd (view (remove_pods (exec fw) node pods s)) = snd (view s) \<and>
    fst (view (remove_pods (exec fw) node pods s)) = without_pods fw node pods (fst (view s))"
  using assms(2)
proof (induction pods arbitrary: s)
  case (Cons p pods)
  let ?op = "RemovePod (pod_Namespace p) (pod_Name p) node"
  obtain e s1 where q: "perform (exec fw) ?op s = (e, s1)" by (cases "perform (exec fw) ?op s")
  obtain err v where sp: "spec_exec fw ?op (view s) = (Outcome err, v)" by (simp add: on_current_def case_prod_beta Let_def)
  have v: "snd v = snd (view s)" "fst v = snd (spec_modify (remove_from_info fw (pod_Namespace p) (pod_Name p)) node (fst (view s)))"
    using sp by (auto simp: on_current_def case_prod_beta Let_def)
  note m = perform_meets [OF assms(1) Cons.prems sp q]
  show ?case using Cons.IH [of s1] m v q by (simp add: remove_pods_def without_pods_def)
qed (simp add: remove_pods_def without_pods_def)

lemma findPlaceFor_meets:
  assumes "framework_ok fw" "inv fw s" "snd (view s) = None"
    and "findPlaceFor fw (exec fw) sch removedNode pods oldHints newHints tracker timestamp s = (r, hints, tracker', s')"
  shows "inv fw s' \<and> view s' = view s \<and> (\<forall>e. r \<noteq> Some (Panic e)) \<and>
    (r = None \<longrightarrow> placeable fw sch removedNode (without_pods fw removedNode (ClearTPURequests pods) (fst (view s))) (ClearTPURequests pods)) \<and>
    (r \<noteq> None \<longrightarrow> stuck fw sch removedNode (without_pods fw removedNode (ClearTPURequests pods) (fst (view s))) (ClearTPURequests pods))"
proof -
  let ?pods = "ClearTPURequests pods"
  obtain e s1 where 1: "perform (exec fw) Fork s = (e, s1)" by (cases "perform (exec fw) Fork s")
  have m1: "inv fw s1 \<and> view s1 = (fst (view s), Some (fst (view s))) \<and> e = None"
    using perform_meets [OF assms(1,2) _ 1, of None "(fst (view s), Some (fst (view s)))"] assms(3) by simp
  define s2 where "s2 = remove_pods (exec fw) removedNode ?pods s1"
  have m2: "inv fw s2" "snd (view s2) = Some (fst (view s))" "fst (view s2) = without_pods fw removedNode ?pods (fst (view s))"
    using remove_pods_meets [OF assms(1), of s1 removedNode ?pods] m1 by (simp_all add: s2_def)
  obtain r1 h t s3 where 3: "place_pods fw (exec fw) sch removedNode oldHints timestamp ?pods newHints tracker s2 = (r1, h, t, s3)"
    by (cases "place_pods fw (exec fw) sch removedNode oldHints timestamp ?pods newHints tracker s2") auto
  note m3 = place_pods_meets [OF assms(1) m2(1) 3]
  obtain e4 s4 where 4: "perform (exec fw) Revert s3 = (e4, s4)" by (cases "perform (exec fw) Revert s3")
  have m4: "inv fw s4 \<and> view s4 = view s \<and> e4 = None"
    using perform_meets [OF assms(1) _ _ 4, of None "view s"] m3 m2 assms(3) by (cases "view s") simp
  have "r = r1" "s' = s4" using assms(4) 1 3 4 m1 m4 by (auto simp: findPlaceFor_def s2_def)
  then show ?thesis using m3 m4 m2(3) by auto
qed

lemma remove_candidates_meets:
  assumes "framework_ok fw"
  shows "inv fw s \<Longrightarrow> snd (view s) = None \<Longrightarrow>
    remove_candidates fw (exec fw) sch ds fastCheck destinations maxCount oldHints timestamp candidates st s = (r, s') \<Longrightarrow>
    inv fw s' \<and> view s' = view s \<and>
    (\<forall>st'. r = Inr st' \<longrightarrow> decided fw sch ds fastCheck destinations (fst (view s)) maxCount candidates st st' \<and>
       (int (length (rs_result st')) \<le> max (int (length (rs_result st)) + 1) maxCount)) \<and>
    (\<forall>e. r = Inl e \<longrightarrow> e = Panic ''nil pointer dereference'' \<and> (\<exists>name \<in> set candidates. name \<in> set destinations \<and> fst (view s) name = None))"
proof (induction candidates arbitrary: st s)
  case Nil
  then show ?case by (auto intro: decided_Nil)
next
  case (Cons name candidates)
  let ?loop = "remove_candidates fw (exec fw) sch ds fastCheck destinations maxCount oldHints timestamp"
  obtain i s1 where g: "get_info (exec fw) name s = (i, s1)" by (cases "get_info (exec fw) name s")
  have i: "inv fw s1" "view s1 = view s" "i = fst (view s) name" using get_info_meets [OF assms Cons.prems(1) g] by auto
  have skip: ?case if "rs_result st1 = rs_result st" "rs_unremovable st1 = rs_unremovable st @ [u]"
      "true_reason fw sch ds fastCheck destinations (fst (view s)) name u"
      "?loop candidates st1 s2 = (r, s')" "inv fw s2" "view s2 = view s" for st1 s2 u
  proof -
    have "decided fw sch ds fastCheck destinations (fst (view s)) maxCount (name # candidates) st st'"
      if "decided fw sch ds fastCheck destinations (fst (view s)) maxCount candidates st1 st'" for st'
      by (rule decided_Cons [OF _ _ _ that, of _ _ "Inr u"]) (simp_all add: \<open>rs_result st1 = _\<close> \<open>rs_unremovable st1 = _\<close> \<open>true_reason _ _ _ _ _ _ _ u\<close> fair_def)
    then show ?thesis using Cons.IH [OF that(5) _ that(4)] that(1,6) Cons.prems(2) by auto
  qed
  show ?case
  proof (cases "name \<in> set destinations")
    case False
    let ?u = "\<lparr>unr_Node = i, unr_Reason = UnexpectedNodeError, unr_BlockingPod = None\<rparr>"
    have "?loop candidates (st\<lparr>rs_unremovable := rs_unremovable st @ [?u]\<rparr>) s1 = (r, s')" using Cons.prems(3) g False by (simp add: Let_def)
    then show ?thesis by (rule skip [rotated 3, OF _ i(1,2), of _ ?u]) (simp_all add: true_reason_def False i(3))
  next
    case d: True
    show ?thesis
    proof (cases i)
      case None
      then have "r = Inl (Panic ''nil pointer dereference'')" "s' = s1" using Cons.prems(3) g d by (auto simp: Let_def)
      then show ?thesis using i None d by auto
    next
      case (Some info)
      then have here: "fst (view s) name = Some info" using i(3) by simp
      show ?thesis
      proof (cases "pods_to_move ds fastCheck (fw_Pods fw info)")
        case (Inl p)
        obtain bp e where p: "p = (bp, e)" by (cases p)
        let ?u = "\<lparr>unr_Node = i, unr_Reason = (if bp = None then UnexpectedNodeError else BlockedByPod), unr_BlockingPod = bp\<rparr>"
        have "?loop candidates (st\<lparr>rs_unremovable := rs_unremovable st @ [?u]\<rparr>) s1 = (r, s')"
          using Cons.prems(3) g d Some Inl p by (cases bp) (simp_all add: Let_def)
        then show ?thesis by (rule skip [rotated 3, OF _ i(1,2), of _ ?u]) (simp_all add: true_reason_def d i(3) here Inl p)
      next
        case (Inr pods)
        obtain q h t s2 where f: "findPlaceFor fw (exec fw) sch name pods oldHints (rs_hints st) (rs_tracker st) timestamp s1 = (q, h, t, s2)"
          by (cases "findPlaceFor fw (exec fw) sch name pods oldHints (rs_hints st) (rs_tracker st) timestamp s1") auto
        have m: "inv fw s2" "view s2 = view s" "\<forall>e. q \<noteq> Some (Panic e)"
            "q = None \<Longrightarrow> placeable fw sch name (without_pods fw name (ClearTPURequests pods) (fst (view s))) (ClearTPURequests pods)"
            "q \<noteq> None \<Longrightarrow> stuck fw sch name (without_pods fw name (ClearTPURequests pods) (fst (view s))) (ClearTPURequests pods)"
          using findPlaceFor_meets [OF assms i(1) _ f] i(2) Cons.prems(2) by auto
        let ?st1 = "st\<lparr>rs_hints := h, rs_tracker := t\<rparr>"
        show ?thesis
        proof (cases q)
          case (Some e)
          let ?u = "\<lparr>unr_Node = i, unr_Reason = NoPlaceToMovePods, unr_BlockingPod = None\<rparr>"
          have "\<not> (\<exists>x. e = Panic x)" using m(3) Some by auto
          then have "?loop candidates (?st1\<lparr>rs_unremovable := rs_unremovable ?st1 @ [?u]\<rparr>) s2 = (r, s')"
            using Cons.prems(3) g d \<open>i = Some info\<close> Inr f Some by (cases e) (simp_all add: Let_def)
          then show ?thesis
            by (rule skip [rotated 3, OF _ m(1,2), of _ ?u]) (simp_all add: true_reason_def d i(3) here Inr m(5) Some)
        next
          case None
          let ?n = "\<lparr>ntr_Node = info, PodsToReschedule = pods\<rparr>"
          let ?st2 = "?st1\<lparr>rs_result := rs_result ?st1 @ [?n]\<rparr>"
          have rem: "removable fw sch ds fastCheck (fst (view s)) name ?n"
            using m(4) [OF None] Inr i(3) Some by (simp add: removable_def)
          have step: "(if int (length (rs_result ?st2)) \<ge> maxCount then (Inr ?st2, s2) else ?loop candidates ?st2 s2) = (r, s')"
            using Cons.prems(3) g d Some Inr f None by (simp add: Let_def split: if_splits)
          have dec: "decided fw sch ds fastCheck destinations (fst (view s)) maxCount (name # candidates) st st'"
            if "decided fw sch ds fastCheck destinations (fst (view s)) maxCount candidates ?st2 st'" for st'
            by (rule decided_Cons [OF _ _ _ that, of _ _ "Inl ?n"]) (simp_all add: fair_def rem d)
          show ?thesis
          proof (cases "int (length (rs_result ?st2)) \<ge> maxCount")
            case True
            then have "r = Inr ?st2" "s' = s2" using step by auto
            then show ?thesis using m dec [OF decided_enough [OF True]] by simp
          next
            case False
            then have "?loop candidates ?st2 s2 = (r, s')" using step by simp
            from Cons.IH [OF m(1) _ this] show ?thesis using m(2) dec False Cons.prems(2) by auto
          qed
        qed
      qed
    qed
  qed
qed

lemma FindEmptyNodesToRemove_meets:
  assumes "framework_ok fw"
  shows "inv fw s \<Longrightarrow> FindEmptyNodesToRemove fw (exec fw) ds candidates s = (names, s') \<Longrightarrow>
    inv fw s' \<and> view s' = view s \<and>
    names = filter (\<lambda>name. \<exists>info. fst (view s) name = Some info \<and>
       FastGetPodsToMove (ds_labels ds) (ds_listers ds) (ds_now ds) (fw_Pods fw info) True True [] = Inr []) candidates"
proof (induction candidates arbitrary: s names s')
  case (Cons name candidates)
  obtain i s1 where g: "get_info (exec fw) name s = (i, s1)" by (cases "get_info (exec fw) name s")
  have i: "inv fw s1" "view s1 = view s" "i = fst (view s) name" using get_info_meets [OF assms Cons.prems(1) g] by auto
  obtain rest s2 where f: "FindEmptyNodesToRemove fw (exec fw) ds candidates s1 = (rest, s2)"
    by (cases "FindEmptyNodesToRemove fw (exec fw) ds candidates s1")
  show ?case using Cons.IH [OF i(1) f] Cons.prems(2) g f i by (auto split: option.splits if_splits)
qed auto

end

interpretation removal_basic: removal_snapshot basic_exec basic_inv basic_view basic_Clear
  by unfold_locales

interpretation removal_delta: removal_snapshot delta_exec delta_inv delta_view delta_Clear
  by unfold_locales

section \<open>The simulation on the delta snapshot\<close>

text \<open>
  C8. The search for nodes to remove, on an unforked snapshot that has all candidates that are destinations,
  returns without a panic and leaves the snapshot as it was. It gives a verdict on each candidate, in their
  order, until the requested number of removable nodes (at least one) is reached. A removable node is a
  destination too, passes the drain check, and each of its pods has a place on another node that the
  scheduler accepts, given the places of the pods before it and with the pods of the removed node gone.
  Every other candidate is reported as unremovable with its true reason: it is no destination, or the drain
  check fails (the pod that blocks it is reported), or the pods can be moved, but after some of them have
  been placed the scheduler refuses the next one on every other schedulable node.
\<close>

theorem FindNodesToRemove_correct:
  assumes "framework_ok fw" "delta_inv fw c" "length c = 1"
    and "\<forall>name \<in> set candidates \<inter> set destinations. getNodeInfo c name \<noteq> None"
    and "FindNodesToRemove fw (delta_exec fw) sch ds candidates destinations maxCount fastCheck oldHints tracker timestamp c = (r, c')"
  shows "delta_view c' = delta_view c \<and>
    (\<exists>st vs. r = Inr st \<and> rs_result st = offered vs \<and> rs_unremovable st = rejected vs \<and> prefix (map fst vs) candidates \<and>
       (map fst vs = candidates \<or> maxCount \<le> int (length (rs_result st))) \<and> int (length (rs_result st)) \<le> max 1 maxCount \<and>
       (\<forall>(name, v) \<in> set vs. case v of
          Inl n \<Rightarrow> name \<in> set destinations \<and> removable fw sch ds fastCheck (getNodeInfo c) name n
        | Inr u \<Rightarrow> true_reason fw sch ds fastCheck destinations (getNodeInfo c) name u))"
proof -
  have v: "snd (delta_view c) = None" "fst (delta_view c) = getNodeInfo c" using assms(3) by (simp_all add: delta_view_def)
  note m = removal_delta.remove_candidates_meets [OF assms(1,2) v(1) assms(5) [unfolded FindNodesToRemove_def]]
  have "r \<noteq> Inl e" for e using m assms(4) v(2) by (metis IntI)
  then obtain st where st: "r = Inr st" by (cases r) auto
  then obtain vs where vs: "rs_result st = offered vs" "rs_unremovable st = rejected vs" "prefix (map fst vs) candidates"
      "map fst vs = candidates \<or> maxCount \<le> int (length (rs_result st))" "\<forall>v \<in> set vs. fair fw sch ds fastCheck destinations (getNodeInfo c) v"
    using m v unfolding decided_def by auto
  have "int (length (rs_result st)) \<le> max 1 maxCount" using m st by simp
  moreover have "\<forall>(name, v) \<in> set vs. case v of
      Inl n \<Rightarrow> name \<in> set destinations \<and> removable fw sch ds fastCheck (getNodeInfo c) name n
    | Inr u \<Rightarrow> true_reason fw sch ds fastCheck destinations (getNodeInfo c) name u" using vs(5) by (simp add: fair_def case_prod_beta)
  ultimately show ?thesis using m st vs(1-4) by blast
qed

text \<open>
  C39. A candidate that the snapshot does not have is only logged, and the search goes on with a nil
  node info. When at least as many nodes may be removed as there are candidates, so that all of them are
  looked at, the autoscaler crashes exactly when one of them is missing from the snapshot and is also a
  destination, wherever it stands among them and whatever the drain check and the scheduler say; a
  missing candidate that is no destination does no harm.
\<close>

theorem FindNodesToRemove_panics_on_missing_node:
  assumes "framework_ok fw" "delta_inv fw c" "length c = 1" "int (length candidates) \<le> maxCount"
    and "FindNodesToRemove fw (delta_exec fw) sch ds candidates destinations maxCount fastCheck oldHints tracker timestamp c = (r, c')"
  shows "(if \<exists>name \<in> set candidates. name \<in> set destinations \<and> getNodeInfo c name = None
     then r = Inl (Panic ''nil pointer dereference'') else \<exists>st. r = Inr st)"
proof -
  have v: "snd (delta_view c) = None" "fst (delta_view c) = getNodeInfo c" using assms(3) by (simp_all add: delta_view_def)
  note m = removal_delta.remove_candidates_meets [OF assms(1,2) v(1) assms(5) [unfolded FindNodesToRemove_def]]
  show ?thesis
  proof (cases r)
    case (Inr st)
    then obtain vs where vs: "rs_result st = offered vs" "prefix (map fst vs) candidates"
        "map fst vs = candidates \<or> maxCount \<le> int (length (rs_result st))" "\<forall>v \<in> set vs. fair fw sch ds fastCheck destinations (getNodeInfo c) v"
      using m v unfolding decided_def by auto
    obtain zs where zs: "candidates = map fst vs @ zs" using vs(2) by (auto simp: prefix_def)
    have "length candidates = length vs + length zs" by (simp add: zs)
    then have "length zs = 0" if "maxCount \<le> int (length (offered vs))" using that assms(4) offered_length [of vs] by linarith
    then have "map fst vs = candidates" using vs(1,3) zs by auto
    then have "\<forall>name \<in> set candidates. name \<in> set destinations \<longrightarrow> getNodeInfo c name \<noteq> None" using vs(4) fair_present by fastforce
    then show ?thesis using Inr by auto
  qed (use m v in auto)
qed

text \<open>
  The empty nodes that may be deleted without a drain are exactly the candidates whose pods are all
  mirror pods, daemon set pods or pods whose deletion has timed out.
\<close>

theorem FindEmptyNodesToRemove_correct:
  assumes "framework_ok fw" "delta_inv fw c" "FindEmptyNodesToRemove fw (delta_exec fw) ds candidates c = (names, c')"
  shows "delta_view c' = delta_view c \<and>
    names = filter (\<lambda>name. \<exists>info. getNodeInfo c name = Some info \<and> list_all (left_alone (ds_now ds)) (fw_Pods fw info)) candidates"
proof -
  have "FastGetPodsToMove lr listers now pods True True [] = Inr [] \<longleftrightarrow> list_all (left_alone now) pods" for lr listers now pods
    unfolding FastGetPodsToMove_def with_pdbs_Inr
    by (auto simp: list_all_iff empty_filter_conv selectors_valid_def controller_fine_def)
  then show ?thesis using removal_delta.FindEmptyNodesToRemove_meets [OF assms] by (simp add: delta_view_def)
qed

section \<open>A small cluster\<close>

type_synonym small_info = "string \<times> ca_Pod list"

definition pod_framework :: "(string, ca_Pod, small_info) framework" where
  "pod_framework =
     \<lparr>fw_NodeName = (\<lambda>n. n), fw_SetNode = (\<lambda>n. Inr (n, [])), fw_InfoName = fst, fw_Pods = snd,
      fw_PodIs = (\<lambda>ns n p. pod_Namespace p = ns \<and> pod_Name p = n), fw_AddPod = (\<lambda>p i. (fst i, snd i @ [p])),
      fw_RemovePod = (\<lambda>p i. Inr (fst i, remove1 p (snd i))),
      fw_PodsWithAffinity = (\<lambda>i. []), fw_PodsWithRequiredAntiAffinity = (\<lambda>i. [])\<rparr>"

lemma pod_framework_ok: "framework_ok pod_framework"
  by (auto simp: framework_ok_def pod_framework_def)

text \<open>A scheduler that puts at most two pods on a node.\<close>

definition two_pods :: "(ca_Pod, small_info, unit) scheduler" where
  "two_pods =
     \<lparr>RunPreFilterPlugins = (\<lambda>_ _ _ _. Inr ()),
      RunFilterPlugins = (\<lambda>_ _ info. [(''Fit'', if length (snd info) < 2 then Success else Unschedulable [''full''])]),
      Spec_Unschedulable = (\<lambda>_. False)\<rparr>"

definition small_cluster :: "small_info chain" where
  "small_cluster = state_after (delta_exec pod_framework) [AddNodes [''n'', ''m''], AddPod_to sample_pod ''n''] delta_Clear"

lemma small_cluster_inv: "delta_inv pod_framework small_cluster"
  unfolding small_cluster_def using delta.state_after_view [OF pod_framework_ok] delta.starts by blast

definition small_settings :: drain_settings where
  "small_settings =
     \<lparr>skipNodesWithSystemPods = True, skipNodesWithLocalStorage = True, minReplicaCount = 1, ds_listers = sample_listers,
      ds_labels = \<lparr>ValidKey = (\<lambda>_. True), ValidValue = (\<lambda>_. True)\<rparr>, podDisruptionBudgets = [], ds_now = 0\<rparr>"

lemma small_cluster_facts: "length small_cluster = 1" "getNodeInfo small_cluster ''n'' = Some (''n'', [sample_pod])"
  "getNodeInfo small_cluster ''x'' = None" "getNodeInfo small_cluster ''m'' = Some (''m'', [])"
  by code_simp+

theorem FindNodesToRemove_correct_witness:
  "delta_view (snd (FindNodesToRemove pod_framework (delta_exec pod_framework) two_pods small_settings [''n''] [''n'', ''m''] 1 False [] [] 0 small_cluster))
     = delta_view small_cluster \<and>
   (\<exists>st. fst (FindNodesToRemove pod_framework (delta_exec pod_framework) two_pods small_settings [''n''] [''n'', ''m''] 1 False [] [] 0 small_cluster) = Inr st)"
  using FindNodesToRemove_correct [OF pod_framework_ok small_cluster_inv small_cluster_facts(1) _ surjective_pairing, of "[''n'']"]
  by (fastforce simp: small_cluster_facts)

theorem FindNodesToRemove_panics_on_missing_node_witness:
  "fst (FindNodesToRemove pod_framework (delta_exec pod_framework) two_pods small_settings [''n'', ''x''] [''n'', ''m'', ''x''] 2 False [] [] 0 small_cluster) =
     Inl (Panic ''nil pointer dereference'')"
  using FindNodesToRemove_panics_on_missing_node [OF pod_framework_ok small_cluster_inv small_cluster_facts(1) _ surjective_pairing,
      of "[''n'', ''x'']" 2 "[''n'', ''m'', ''x'']" two_pods small_settings False "[]" "[]" 0]
  by (simp add: small_cluster_facts)

theorem FindEmptyNodesToRemove_correct_witness:
  "fst (FindEmptyNodesToRemove pod_framework (delta_exec pod_framework) small_settings [''n'', ''m''] small_cluster) = [''m'']"
  using FindEmptyNodesToRemove_correct [OF pod_framework_ok small_cluster_inv surjective_pairing, of small_settings "[''n'', ''m'']"]
  by (simp add: small_cluster_facts pod_framework_def small_settings_def left_alone_def sample_pod_def IsMirrorPod_def annotation_def
      deleted_long_ago_def IsDaemonSetPod_def refKind_def DaemonSetPodAnnotationKey_def)

end
