(* ===== verification/Binpacking.thy ===== *)
theory Binpacking
  imports Removal_Simulation Go_Sort Go_Strings
begin

text \<open>
  The binpacking estimator of the cluster autoscaler (\<open>estimator/binpacking_estimator.go\<close>): how many
  nodes like a template are needed for pods that do not fit, by first fit decreasing in a forked
  snapshot. Sorting is a parameter with its documented contract.
\<close>

section \<open>The estimator\<close>

record podInfo =
  score :: float64
  pi_pod :: ca_Pod

record node_template =
  tmpl_Node :: ca_Node
  tmpl_Pods :: "ca_Pod list"

definition share :: "int \<Rightarrow> int option \<Rightarrow> float64" where
  "share amount capacity = (case capacity of Some c \<Rightarrow> if c > 0 then of_int amount / of_int c else 0 | None \<Rightarrow> 0)"

definition calculatePodScore :: "ca_Pod list \<Rightarrow> node_template \<Rightarrow> podInfo list" where
  "calculatePodScore pods template =
     (let allocatable = node_Allocatable (tmpl_Node template) in
      map (\<lambda>pod. \<lparr>score = share (q_MilliValue (requested ResourceCPU pod)) (map_option q_MilliValue (map_of allocatable ResourceCPU))
                       + share (q_Value (requested ResourceMemory pod)) (map_option q_Value (map_of allocatable ResourceMemory)),
                  pi_pod = pod\<rparr>) pods)"

text \<open>Seconds since 1970; times are counted from the year 1.\<close>

definition time_Unix :: "time \<Rightarrow> int" where
  "time_Unix t = t div second - 62135596800"

definition new_node_name :: "node_template \<Rightarrow> time \<Rightarrow> nat \<Rightarrow> string" where
  "new_node_name template nameTimestamp nameIndex =
     node_Name (tmpl_Node template) @ ''-'' @ show_int (time_Unix nameTimestamp) @ ''-'' @ show_nat nameIndex"

definition new_node :: "node_template \<Rightarrow> time \<Rightarrow> nat \<Rightarrow> ca_Node" where
  "new_node template nameTimestamp nameIndex =
     (let name = new_node_name template nameTimestamp nameIndex; node = tmpl_Node template
      in node\<lparr>node_Name := name, node_Labels := AList.update ''kubernetes.io/hostname'' name (node_Labels node)\<rparr>)"

definition addNewNodeToSnapshot ::
    "(ca_Node, ca_Pod, 'i, 's) executor \<Rightarrow> node_template \<Rightarrow> time \<Rightarrow> nat \<Rightarrow> 's \<Rightarrow> string result \<times> 's" where
  "addNewNodeToSnapshot exec template nameTimestamp nameIndex s =
     (let node = new_node template nameTimestamp nameIndex;
          (e, s') = perform exec (AddNodeWithPods node (tmpl_Pods template)) s
      in (if e \<noteq> None then Inl (Err ''cannot add node'') else Inr (node_Name node), s'))"

definition fit_pod ::
    "(ca_Node, ca_Pod, 'i) framework \<Rightarrow> (ca_Node, ca_Pod, 'i, 's) executor \<Rightarrow> (ca_Pod, 'i, 'c) scheduler \<Rightarrow> node_template \<Rightarrow> time \<Rightarrow>
     ca_Pod \<Rightarrow> nat \<times> string list \<Rightarrow> 's \<Rightarrow> (nat \<times> string list) result \<times> 's" where
  "fit_pod fw exec sch template ts pod acc s =
     (let (index, newNodeNames) = acc;
          (r, s1) = FitsAnyNodeMatching fw exec sch pod (\<lambda>info. fw_InfoName fw info \<in> set newNodeNames) s
      in (case r of
            Inr nodeName \<Rightarrow>
              (let (e, s2) = perform exec (AddPod_to pod nodeName) s1
               in (if e \<noteq> None then Inl (Err ''Error adding pod'') else Inr (index, newNodeNames), s2))
          | Inl _ \<Rightarrow>
              (case addNewNodeToSnapshot exec template ts index s1 of
                 (Inl e, s2) \<Rightarrow> (Inl e, s2)
               | (Inr name, s2) \<Rightarrow>
                   (let (e, s3) = perform exec (AddPod_to pod name) s2
                    in (if e \<noteq> None then Inl (Err ''Error adding pod'')
                        else Inr (Suc index, if name \<in> set newNodeNames then newNodeNames else newNodeNames @ [name]), s3)))))"

fun fit_pods ::
    "(ca_Node, ca_Pod, 'i) framework \<Rightarrow> (ca_Node, ca_Pod, 'i, 's) executor \<Rightarrow> (ca_Pod, 'i, 'c) scheduler \<Rightarrow> node_template \<Rightarrow> time \<Rightarrow>
     podInfo list \<Rightarrow> nat \<times> string list \<Rightarrow> 's \<Rightarrow> nat result \<times> 's" where
  "fit_pods fw exec sch template ts [] acc s = (Inr (length (snd acc)), s)"
| "fit_pods fw exec sch template ts (p # ps) acc s =
     (case fit_pod fw exec sch template ts (pi_pod p) acc s of
        (Inl e, s1) \<Rightarrow> (Inl e, s1)
      | (Inr acc1, s1) \<Rightarrow> fit_pods fw exec sch template ts ps acc1 s1)"

definition higher_score :: "podInfo \<Rightarrow> podInfo \<Rightarrow> bool" where
  "higher_score a b \<longleftrightarrow> score a > score b"

text \<open>Errors are logged and the estimate is 0; a failure to revert ends the process.\<close>

definition Estimate ::
    "(ca_Node, ca_Pod, 'i) framework \<Rightarrow> (ca_Node, ca_Pod, 'i, 's) executor \<Rightarrow> (ca_Pod, 'i, 'c) scheduler \<Rightarrow>
     ((podInfo \<Rightarrow> podInfo \<Rightarrow> bool) \<Rightarrow> podInfo list \<Rightarrow> podInfo list) \<Rightarrow> time \<Rightarrow> ca_Pod list \<Rightarrow> node_template \<Rightarrow> 's \<Rightarrow> nat result \<times> 's" where
  "Estimate fw exec sch sort_Slice now pods template s =
     (let podInfos = sort_Slice higher_score (calculatePodScore pods template);
          (e, s1) = perform exec Fork s
      in if e \<noteq> None then (Inr 0, s1)
         else let (r, s2) = fit_pods fw exec sch template now podInfos (0, []) s1;
                  (e3, s3) = perform exec Revert s2
              in (if e3 \<noteq> None then Inl (Panic ''Error while calling ClusterSnapshot.Revert'')
                  else Inr (case r of Inr n \<Rightarrow> n | Inl _ \<Rightarrow> 0), s3))"

section \<open>First fit\<close>

definition fresh_info :: "(ca_Node, ca_Pod, 'i) framework \<Rightarrow> ca_Node \<Rightarrow> ca_Pod list \<Rightarrow> 'i" where
  "fresh_info fw node pods = foldl (\<lambda>i p. fw_AddPod fw p i) (projr (fw_SetNode fw node)) pods"

text \<open>
  The pods, in this order, go to \<open>n\<close> nodes, when \<open>k\<close> nodes are open: each to an open node that accepts
  it, or to a new node when every open node refuses it.
\<close>

fun first_fit ::
    "(ca_Node, ca_Pod, 'i) framework \<Rightarrow> (ca_Pod, 'i, 'c) scheduler \<Rightarrow> node_template \<Rightarrow> time \<Rightarrow> (string \<rightharpoonup> 'i) \<Rightarrow> nat \<Rightarrow> ca_Pod list \<Rightarrow> nat \<Rightarrow> bool" where
  "first_fit fw sch template ts m k [] n \<longleftrightarrow> n = k"
| "first_fit fw sch template ts m k (p # ps) n \<longleftrightarrow>
     (\<exists>j < k. \<exists>info. m (new_node_name template ts j) = Some info \<and> accepted fw sch m p info \<and>
        first_fit fw sch template ts (m(new_node_name template ts j \<mapsto> fw_AddPod fw p info)) k ps n) \<or>
     ((\<forall>j < k. \<forall>info. fw_InfoName fw info = new_node_name template ts j \<and> m (fw_InfoName fw info) = Some info \<and>
         \<not> Spec_Unschedulable sch info \<longrightarrow> refused fw sch m p info) \<and>
      first_fit fw sch template ts
        (m(new_node_name template ts k \<mapsto> fw_AddPod fw p (fresh_info fw (new_node template ts k) (tmpl_Pods template)))) (Suc k) ps n)"

lemma first_fit_bounds: "first_fit fw sch template ts m k ps n \<Longrightarrow> k \<le> n \<and> n \<le> k + length ps"
  by (induction fw sch template ts m k ps n rule: first_fit.induct) fastforce+

lemma first_fit_some: "first_fit fw sch template ts m 0 (p # ps) n \<Longrightarrow> 1 \<le> n"
  using first_fit_bounds [of fw sch template ts _ 1 ps n] by auto

lemma new_node_name_inject: "new_node_name template ts i = new_node_name template ts j \<longleftrightarrow> i = j"
  by (simp add: new_node_name_def show_nat_inject)

lemma add_pods_spec:
  "m name = Some i \<Longrightarrow> until_error (\<lambda>p. spec_modify (\<lambda>i. Inr (fw_AddPod fw p i)) name) ps m =
     (None, m(name \<mapsto> foldl (\<lambda>i p. fw_AddPod fw p i) i ps))"
proof (induction ps arbitrary: m i)
  case (Cons p ps)
  let ?f = "\<lambda>p. spec_modify (\<lambda>i. Inr (fw_AddPod fw p i)) name" and ?i = "fw_AddPod fw p i"
  have "?f p m = (None, m(name \<mapsto> ?i))" using Cons.prems by (simp add: spec_modify_def)
  then have "until_error ?f (p # ps) m = until_error ?f ps (m(name \<mapsto> ?i))" by simp
  also have "\<dots> = (None, m(name \<mapsto> ?i, name \<mapsto> foldl (\<lambda>i p. fw_AddPod fw p i) ?i ps))" by (rule Cons.IH) simp
  finally show ?case by (simp only: fun_upd_upd foldl_Cons)
qed (auto simp: fun_upd_idem)

lemma add_node_spec:
  assumes "framework_ok fw" "m (fw_NodeName fw node) = None"
  shows "with_pods (spec_addNode fw node) (\<lambda>p. spec_modify (\<lambda>i. Inr (fw_AddPod fw p i)) (fw_NodeName fw node)) pods m =
    (None, m(fw_NodeName fw node \<mapsto> fresh_info fw node pods))"
proof -
  obtain i where "fw_SetNode fw node = Inr i" using assms(1) unfolding framework_ok_def by blast
  then show ?thesis using assms(2) add_pods_spec [of "m(fw_NodeName fw node \<mapsto> i)" "fw_NodeName fw node" i fw pods]
    by (simp add: with_pods_def spec_addNode_def fresh_info_def)
qed

section \<open>On a snapshot that keeps its promise\<close>

locale packing_snapshot = cluster_snapshot exec inv view empty
  for exec :: "(ca_Node, ca_Pod, 'i) framework \<Rightarrow> (ca_Node, ca_Pod) snapshot_op \<Rightarrow> 's \<Rightarrow> 'i observation \<times> 's"
    and inv view empty
begin

lemma add_pod_meets:
  assumes "framework_ok fw" "inv fw s" "fst (view s) name = Some info" "perform (exec fw) (AddPod_to pod name) s = (e, s')"
  shows "e = None \<and> inv fw s' \<and> view s' = ((fst (view s))(name \<mapsto> fw_AddPod fw pod info), snd (view s))"
  using perform_meets [OF assms(1,2) _ assms(4), of None "((fst (view s))(name \<mapsto> fw_AddPod fw pod info), snd (view s))"] assms(3)
  by (simp add: on_current_def spec_modify_def)

lemma add_node_meets:
  assumes "framework_ok fw" "inv fw s" "fst (view s) (fw_NodeName fw node) = None" "perform (exec fw) (AddNodeWithPods node pods) s = (e, s')"
  shows "e = None \<and> inv fw s' \<and> view s' = ((fst (view s))(fw_NodeName fw node \<mapsto> fresh_info fw node pods), snd (view s))"
  using perform_meets [OF assms(1,2) _ assms(4), of None "((fst (view s))(fw_NodeName fw node \<mapsto> fresh_info fw node pods), snd (view s))"]
    add_node_spec [of fw "fst (view s)" node pods] assms(1,3) by (simp add: on_current_def)

lemma fit_pods_meets:
  fixes template :: node_template and ts :: time
  assumes fw: "framework_ok fw" "fw_NodeName fw = node_Name"
  defines "nm \<equiv> new_node_name template ts"
  shows "inv fw s \<Longrightarrow> (\<forall>j < length ps. fst (view s) (nm (k + j)) = None) \<Longrightarrow>
    fit_pods fw (exec fw) sch template ts ps (k, map nm [0..<k]) s = (r, s') \<Longrightarrow>
    inv fw s' \<and> snd (view s') = snd (view s) \<and>
    (\<exists>n. r = Inr n \<and> first_fit fw sch template ts (fst (view s)) k (map pi_pod ps) n)"
proof (induction ps arbitrary: k s)
  case (Cons p ps)
  let ?pod = "pi_pod p" and ?m = "fst (view s)"
  obtain q s1 where f: "FitsAnyNodeMatching fw (exec fw) sch ?pod (\<lambda>info. fw_InfoName fw info \<in> set (map nm [0..<k])) s = (q, s1)"
    by (cases "FitsAnyNodeMatching fw (exec fw) sch ?pod (\<lambda>info. fw_InfoName fw info \<in> set (map nm [0..<k])) s")
  note m = FitsAnyNodeMatching_meets [OF fw(1) Cons.prems(1) f]
  have i1: "inv fw s1" "view s1 = view s" using m by auto
  have inj: "nm i = nm j \<longleftrightarrow> i = j" for i j by (simp add: nm_def new_node_name_inject)
  have node: "node_Name (new_node template ts k) = nm k" by (simp add: new_node_def nm_def Let_def)
  show ?case
  proof (cases q)
    case (Inr name)
    then obtain info where info: "?m name = Some info" "fw_InfoName fw info = name" "name \<in> set (map nm [0..<k])" "accepted fw sch ?m ?pod info"
      using m by blast
    then obtain j where j: "j < k" "name = nm j" by auto
    obtain e s2 where p: "perform (exec fw) (AddPod_to ?pod name) s1 = (e, s2)" by (cases "perform (exec fw) (AddPod_to ?pod name) s1")
    have m2: "e = None" "inv fw s2" "view s2 = (?m(name \<mapsto> fw_AddPod fw ?pod info), snd (view s))"
      using add_pod_meets [OF fw(1) i1(1) _ p] info(1) i1(2) by auto
    have rest: "fit_pods fw (exec fw) sch template ts ps (k, map nm [0..<k]) s2 = (r, s')"
      using Cons.prems(3) f Inr p m2(1) by (simp add: fit_pod_def)
    have "\<forall>i < length ps. fst (view s2) (nm (k + i)) = None" using Cons.prems(2) m2(3) j by (auto simp: inj)
    note ih = Cons.IH [OF m2(2) this rest]
    have v: "fst (view s2) = ?m(name \<mapsto> fw_AddPod fw ?pod info)" "snd (view s2) = snd (view s)" by (simp_all only: m2(3) fst_conv snd_conv)
    show ?thesis using ih info(1,4) j unfolding v list.map first_fit.simps nm_def by blast
  next
    case (Inl e)
    have free: "?m (nm k) = None" using Cons.prems(2) by (auto dest: spec [of _ 0])
    obtain e1 s2 where a: "perform (exec fw) (AddNodeWithPods (new_node template ts k) (tmpl_Pods template)) s1 = (e1, s2)"
      by (cases "perform (exec fw) (AddNodeWithPods (new_node template ts k) (tmpl_Pods template)) s1")
    define info where "info = fresh_info fw (new_node template ts k) (tmpl_Pods template)"
    have m2: "e1 = None" "inv fw s2" "view s2 = (?m(nm k \<mapsto> info), snd (view s))"
      using add_node_meets [OF fw(1) i1(1) _ a] i1(2) free fw(2) node by (auto simp: info_def)
    obtain e3 s3 where p: "perform (exec fw) (AddPod_to ?pod (nm k)) s2 = (e3, s3)" by (cases "perform (exec fw) (AddPod_to ?pod (nm k)) s2")
    have m3: "e3 = None" "inv fw s3" "view s3 = (?m(nm k \<mapsto> fw_AddPod fw ?pod info), snd (view s))"
      using add_pod_meets [OF fw(1) m2(2) _ p, of info] m2(3) by auto
    have new: "nm k \<notin> set (map nm [0..<k])" by (auto simp: inj)
    have rest: "fit_pods fw (exec fw) sch template ts ps (Suc k, map nm [0..<Suc k]) s3 = (r, s')"
      using Cons.prems(3) f Inl a p m2(1) m3(1) new node by (simp add: fit_pod_def addNewNodeToSnapshot_def)
    have "\<forall>i < length ps. fst (view s3) (nm (Suc k + i)) = None"
    proof (intro allI impI)
      fix i assume "i < length ps"
      then have "?m (nm (k + Suc i)) = None" using Cons.prems(2) by (auto dest: spec [of _ "Suc i"])
      then show "fst (view s3) (nm (Suc k + i)) = None" using m3(3) by (auto simp: inj)
    qed
    note ih = Cons.IH [OF m3(2) this rest]
    have "refused fw sch ?m ?pod i" if "j < k" "fw_InfoName fw i = nm j" "?m (fw_InfoName fw i) = Some i" "\<not> Spec_Unschedulable sch i" for i j
      using m Inl that by auto
    moreover have v: "fst (view s3) = ?m(nm k \<mapsto> fw_AddPod fw ?pod info)" "snd (view s3) = snd (view s)" by (simp_all only: m3(3) fst_conv snd_conv)
    ultimately show ?thesis using ih unfolding v list.map first_fit.simps nm_def info_def by blast
  qed
qed auto

lemma Estimate_meets:
  assumes fw: "framework_ok fw" "fw_NodeName fw = node_Name" and s: "inv fw s" "snd (view s) = None" and sort: "sort_ok sort_Slice"
    and fresh: "\<forall>j < length pods. fst (view s) (new_node_name template now j) = None"
    and e: "Estimate fw (exec fw) sch sort_Slice now pods template s = (r, s')"
  shows "inv fw s' \<and> view s' = view s \<and>
    (\<exists>n infos. r = Inr n \<and> mset infos = mset (calculatePodScore pods template) \<and> sorted_wrt (\<lambda>a b. score a \<ge> score b) infos \<and>
       first_fit fw sch template now (fst (view s)) 0 (map pi_pod infos) n)"
proof -
  define infos where "infos = sort_Slice higher_score (calculatePodScore pods template)"
  have "strict_weak_order higher_score" by (auto simp: strict_weak_order_def higher_score_def)
  then have srt: "mset infos = mset (calculatePodScore pods template)" "sorted_wrt (\<lambda>a b. \<not> higher_score b a) infos"
    using sort unfolding sort_ok_def infos_def by blast+
  have len: "length infos = length pods" using mset_eq_length [OF srt(1)] by (simp add: calculatePodScore_def Let_def)
  obtain e1 s1 where 1: "perform (exec fw) Fork s = (e1, s1)" by (cases "perform (exec fw) Fork s")
  have m1: "inv fw s1 \<and> view s1 = (fst (view s), Some (fst (view s))) \<and> e1 = None"
    using perform_meets [OF fw(1) s(1) _ 1, of None "(fst (view s), Some (fst (view s)))"] s(2) by simp
  obtain q s2 where 2: "fit_pods fw (exec fw) sch template now infos (0, []) s1 = (q, s2)"
    by (cases "fit_pods fw (exec fw) sch template now infos (0, []) s1")
  have m2: "inv fw s2" "snd (view s2) = Some (fst (view s))" "\<exists>n. q = Inr n \<and> first_fit fw sch template now (fst (view s)) 0 (map pi_pod infos) n"
    using fit_pods_meets [OF fw, of s1 infos template now 0 sch q s2] m1 2 fresh len by auto
  obtain e3 s3 where 3: "perform (exec fw) Revert s2 = (e3, s3)" by (cases "perform (exec fw) Revert s2")
  have m3: "inv fw s3 \<and> view s3 = view s \<and> e3 = None"
    using perform_meets [OF fw(1) m2(1) _ 3, of None "view s"] m2(2) s(2) by (cases "view s") simp
  have "s' = s3" "r = Inr (case q of Inr n \<Rightarrow> n | Inl _ \<Rightarrow> 0)" using e 1 2 3 m1 m3 by (auto simp: Estimate_def infos_def)
  moreover have "sorted_wrt (\<lambda>a b. score a \<ge> score b) infos"
    using srt(2) by (rule sorted_wrt_mono_rel [rotated]) (simp add: higher_score_def not_less)
  ultimately show ?thesis using m2(3) m3 srt(1) by auto
qed

end

interpretation packing_basic: packing_snapshot basic_exec basic_inv basic_view basic_Clear
  by unfold_locales

interpretation packing_delta: packing_snapshot delta_exec delta_inv delta_view delta_Clear
  by unfold_locales

text \<open>
  C13. The estimate of the binpacking estimator, on an unforked snapshot without nodes of the names it
  makes up: the snapshot is left as it was, and the estimate is the number of nodes of a first-fit
  packing of the pods in the order of decreasing score, in which a node is only opened for a pod that
  every open node refuses; it is at least 1 and at most the number of pods, when there are pods.
\<close>

theorem Estimate_correct:
  assumes "framework_ok fw" "fw_NodeName fw = node_Name" "delta_inv fw c" "length c = 1" "sort_ok sort_Slice"
    and "\<forall>j < length pods. getNodeInfo c (new_node_name template now j) = None"
    and "Estimate fw (delta_exec fw) sch sort_Slice now pods template c = (r, c')"
  shows "delta_view c' = delta_view c \<and>
    (\<exists>n infos. r = Inr n \<and> mset infos = mset (calculatePodScore pods template) \<and> sorted_wrt (\<lambda>a b. score a \<ge> score b) infos \<and>
       first_fit fw sch template now (getNodeInfo c) 0 (map pi_pod infos) n \<and>
       n \<le> length pods \<and> (pods \<noteq> [] \<longrightarrow> 1 \<le> n))"
proof -
  have v: "snd (delta_view c) = None" "fst (delta_view c) = getNodeInfo c" using assms(4) by (simp_all add: delta_view_def)
  obtain n infos where n: "r = Inr n" "mset infos = mset (calculatePodScore pods template)" "sorted_wrt (\<lambda>a b. score a \<ge> score b) infos"
      "first_fit fw sch template now (getNodeInfo c) 0 (map pi_pod infos) n" and c': "delta_view c' = delta_view c"
    using packing_delta.Estimate_meets [OF assms(1-3) v(1) assms(5) _ assms(7)] assms(6) v(2) by auto
  have len: "length infos = length pods" using mset_eq_length [OF n(2)] by (simp add: calculatePodScore_def Let_def)
  have "n \<le> length pods" using first_fit_bounds [OF n(4)] len by simp
  moreover have "1 \<le> n" if "pods \<noteq> []" using n(4) len that first_fit_some by (cases infos) auto
  ultimately show ?thesis using n c' by blast
qed

text \<open>A framework of nodes with their pods, and a scheduler that puts at most two pods on a node.\<close>

definition node_framework :: "(ca_Node, ca_Pod, string \<times> ca_Pod list) framework" where
  "node_framework =
     \<lparr>fw_NodeName = node_Name, fw_SetNode = (\<lambda>n. Inr (node_Name n, [])), fw_InfoName = fst, fw_Pods = snd,
      fw_PodIs = (\<lambda>ns n p. pod_Namespace p = ns \<and> pod_Name p = n), fw_AddPod = (\<lambda>p i. (fst i, snd i @ [p])),
      fw_RemovePod = (\<lambda>p i. Inr (fst i, remove1 p (snd i))),
      fw_PodsWithAffinity = (\<lambda>i. []), fw_PodsWithRequiredAntiAffinity = (\<lambda>i. [])\<rparr>"

definition pair_scheduler :: "(ca_Pod, string \<times> ca_Pod list, unit) scheduler" where
  "pair_scheduler =
     \<lparr>RunPreFilterPlugins = (\<lambda>_ _ _ _. Inr ()),
      RunFilterPlugins = (\<lambda>_ _ info. [(''Fit'', if length (snd info) < 2 then Success else Unschedulable [''full''])]),
      Spec_Unschedulable = (\<lambda>_. False)\<rparr>"

definition sample_template :: node_template where
  "sample_template =
     \<lparr>tmpl_Node = \<lparr>node_Name = ''t'', node_ProviderID = [], node_CreationTimestamp = 0, node_Unschedulable = False, node_Taints = [],
        node_Conditions = [], node_Labels = [], node_Allocatable = [], node_Capacity = []\<rparr>, tmpl_Pods = []\<rparr>"

theorem Estimate_correct_witness:
  "\<exists>n. fst (Estimate node_framework (delta_exec node_framework) pair_scheduler insertionSort 0 [sample_pod, sample_pod, sample_pod] sample_template
     delta_Clear) = Inr n \<and> 1 \<le> n \<and> n \<le> 3"
proof -
  have fw: "framework_ok node_framework" "fw_NodeName node_framework = node_Name" by (auto simp: framework_ok_def node_framework_def)
  have c: "delta_inv node_framework delta_Clear" "length (delta_Clear :: (string \<times> ca_Pod list) chain) = 1"
    and none: "getNodeInfo (delta_Clear :: (string \<times> ca_Pod list) chain) k = None" for k
    using delta.starts [of node_framework] by (auto simp: delta_Clear_def getNodeInfoLocal_def newInternalDeltaSnapshotData_def)
  show ?thesis
    using Estimate_correct [OF fw c insertionSort_ok _ surjective_pairing, of "[sample_pod, sample_pod, sample_pod]" sample_template 0 pair_scheduler]
    by (auto simp: none)
qed

end
