(* ===== verification/Pending_Pods.thy ===== *)
theory Pending_Pods
  imports Binpacking
begin

text \<open>
  What happens to pending pods before a scale-up is considered (\<open>cluster-autoscaler/core/equivalence_groups.go\<close>,
  \<open>core/filter_out_schedulable.go\<close>, \<open>core/utils/expendable.go\<close>, \<open>core/utils/pod_schedulable.go\<close>): expendable
  pods are dropped, pods that fit on the nodes there are are packed there, with a cache of what did
  not fit, and the rest is grouped by equal scheduling properties. The semantic comparison of two
  pod specifications is a parameter; label maps are compared as maps, so that a pod without labels
  has the same labels as one with an empty map, which \<open>reflect.DeepEqual\<close> tells apart.
\<close>

section \<open>Expendable pods\<close>

definition IsExpendablePod :: "ca_Pod \<Rightarrow> int \<Rightarrow> bool" where
  "IsExpendablePod pod cutoff = (case pod_Priority pod of None \<Rightarrow> False | Some p \<Rightarrow> p < cutoff)"

definition FilterOutExpendablePods :: "ca_Pod list \<Rightarrow> int \<Rightarrow> ca_Pod list" where
  "FilterOutExpendablePods pods cutoff = filter (\<lambda>pod. \<not> IsExpendablePod pod cutoff) pods"

fun FilterOutExpendableAndSplit :: "ca_Pod list \<Rightarrow> ca_Node list \<Rightarrow> int \<Rightarrow> ca_Pod list \<times> ca_Pod list" where
  "FilterOutExpendableAndSplit [] nodes cutoff = ([], [])"
| "FilterOutExpendableAndSplit (pod # pods) nodes cutoff =
     (let (nonExpendable, waiting) = FilterOutExpendableAndSplit pods nodes cutoff in
      if IsExpendablePod pod cutoff then (nonExpendable, waiting)
      else if NominatedNodeName pod \<noteq> []
      then (if NominatedNodeName pod \<in> set (map node_Name nodes) then (nonExpendable, pod # waiting) else (pod # nonExpendable, waiting))
      else (pod # nonExpendable, waiting))"

section \<open>Groups of equivalent pods\<close>

type_synonym spec_equality = "ca_Pod \<Rightarrow> ca_Pod \<Rightarrow> bool"

definition same_properties :: "spec_equality \<Rightarrow> ca_Pod \<Rightarrow> labels \<Rightarrow> ca_Pod \<Rightarrow> bool" where
  "same_properties SpecEqual pod ls spec_of \<longleftrightarrow> set (pod_Labels pod) = set ls \<and> SpecEqual pod spec_of"

record grouping =
  gr_groups :: "(nat, ca_Pod list) gomap"
  gr_byController :: "(string, (nat \<times> ca_Pod) list) gomap"
  gr_next :: nat

definition group_pod :: "spec_equality \<Rightarrow> grouping \<Rightarrow> ca_Pod \<Rightarrow> grouping" where
  "group_pod SpecEqual st pod =
     (case GetControllerOf (OwnerReferences pod) of
        None \<Rightarrow> st\<lparr>gr_groups := AList.update (gr_next st) [pod] (gr_groups st), gr_next := Suc (gr_next st)\<rparr>
      | Some ref \<Rightarrow>
          (let known = lookup_default [] (gr_byController st) (or_UID ref) in
           case find (\<lambda>(_, representant). same_properties SpecEqual pod (pod_Labels representant) representant) known of
             Some (i, _) \<Rightarrow> st\<lparr>gr_groups := AList.update i (lookup_default [] (gr_groups st) i @ [pod]) (gr_groups st)\<rparr>
           | None \<Rightarrow>
               st\<lparr>gr_groups := AList.update (gr_next st) (lookup_default [] (gr_groups st) (gr_next st) @ [pod]) (gr_groups st),
                  gr_byController := AList.update (or_UID ref) (known @ [(gr_next st, pod)]) (gr_byController st),
                  gr_next := Suc (gr_next st)\<rparr>))"

definition groupPodsBySchedulingProperties :: "spec_equality \<Rightarrow> ca_Pod list \<Rightarrow> (nat, ca_Pod list) gomap" where
  "groupPodsBySchedulingProperties SpecEqual pods =
     gr_groups (foldl (group_pod SpecEqual) \<lparr>gr_groups = [], gr_byController = [], gr_next = 0\<rparr> pods)"

text \<open>Why a group of nodes does not help a pod: the predicates reject it, or it was skipped.\<close>

datatype Reasons = Rejected PredicateError | Skipped "string list"

record podEquivalenceGroup =
  eg_pods :: "ca_Pod list"
  schedulingErrors :: "(string, Reasons) gomap"
  eg_schedulable :: bool

definition buildPodEquivalenceGroups :: "spec_equality \<Rightarrow> ca_Pod list \<Rightarrow> podEquivalenceGroup list" where
  "buildPodEquivalenceGroups SpecEqual pods =
     map (\<lambda>(_, ps). \<lparr>eg_pods = ps, schedulingErrors = [], eg_schedulable = False\<rparr>) (groupPodsBySchedulingProperties SpecEqual pods)"

section \<open>The cache of what did not fit\<close>

record PodSchedulableInfo =
  psi_spec :: ca_Pod
  psi_labels :: labels
  schedulingError :: "PredicateError option"

type_synonym PodSchedulableMap = "(string, PodSchedulableInfo list) gomap"

definition psi_Match :: "spec_equality \<Rightarrow> PodSchedulableInfo \<Rightarrow> ca_Pod \<Rightarrow> bool" where
  "psi_Match SpecEqual psi pod = same_properties SpecEqual pod (psi_labels psi) (psi_spec psi)"

definition psm_Get :: "spec_equality \<Rightarrow> PodSchedulableMap \<Rightarrow> ca_Pod \<Rightarrow> PredicateError option option" where
  "psm_Get SpecEqual podMap pod =
     (case GetControllerOf (OwnerReferences pod) of
        None \<Rightarrow> None
      | Some ref \<Rightarrow> map_option schedulingError (find (\<lambda>info. psi_Match SpecEqual info pod) (lookup_default [] podMap (or_UID ref))))"

definition psm_Set :: "PodSchedulableMap \<Rightarrow> ca_Pod \<Rightarrow> PredicateError option \<Rightarrow> PodSchedulableMap" where
  "psm_Set podMap pod err =
     (case GetControllerOf (OwnerReferences pod) of
        None \<Rightarrow> podMap
      | Some ref \<Rightarrow> AList.update (or_UID ref)
          (lookup_default [] podMap (or_UID ref) @ [\<lparr>psi_spec = pod, psi_labels = pod_Labels pod, schedulingError = err\<rparr>]) podMap)"

section \<open>Packing on the nodes there are\<close>

definition GetPodPriority :: "ca_Pod \<Rightarrow> int" where
  "GetPodPriority pod = (case pod_Priority pod of Some p \<Rightarrow> p | None \<Rightarrow> 0)"

definition moreImportantPod :: "ca_Pod \<Rightarrow> ca_Pod \<Rightarrow> bool" where
  "moreImportantPod pod1 pod2 \<longleftrightarrow> GetPodPriority pod1 > GetPodPriority pod2"

text \<open>The loop over the hints of an earlier run: the pods that are left to check, and the hints that are left.\<close>

fun hint_loop ::
    "(ca_Node, ca_Pod, 'i, 's) executor \<Rightarrow> (ca_Pod, 'i, 'c) scheduler \<Rightarrow> ca_Pod list \<Rightarrow> (string, string) gomap \<Rightarrow> 's \<Rightarrow>
     (ca_Pod list result \<times> (string, string) gomap) \<times> 's" where
  "hint_loop exec sch [] hints s = ((Inr [], hints), s)"
| "hint_loop exec sch (pod # pods) hints s =
     (let check_later = (\<lambda>s. let ((r, hints'), s') = hint_loop exec sch pods (AList.delete (pod_UID pod) hints) s
                               in ((rbind r (\<lambda>ps. Inr (pod # ps)), hints'), s'))
      in (case map_of hints (pod_UID pod) of
            None \<Rightarrow> check_later s
          | Some hintedNodeName \<Rightarrow>
              (let (pe, s1) = CheckPredicates exec sch pod hintedNodeName s in
               if pe \<noteq> None then check_later s1
               else let (e, s2) = perform exec (AddPod_to pod hintedNodeName) s1
                    in if e \<noteq> None then ((Inl (Err ''cannot add pod''), hints), s2) else hint_loop exec sch pods hints s2)))"

fun pack_loop ::
    "spec_equality \<Rightarrow> (ca_Node, ca_Pod, 'i) framework \<Rightarrow> (ca_Node, ca_Pod, 'i, 's) executor \<Rightarrow> (ca_Pod, 'i, 'c) scheduler \<Rightarrow>
     ca_Pod list \<Rightarrow> PodSchedulableMap \<Rightarrow> (string, string) gomap \<Rightarrow> 's \<Rightarrow> (ca_Pod list result \<times> (string, string) gomap) \<times> 's" where
  "pack_loop SpecEqual fw exec sch [] unschedulablePodsCache hints s = ((Inr [], hints), s)"
| "pack_loop SpecEqual fw exec sch (pod # pods) unschedulablePodsCache hints s =
     (if psm_Get SpecEqual unschedulablePodsCache pod \<noteq> None
      then (let ((r, hints'), s') = pack_loop SpecEqual fw exec sch pods unschedulablePodsCache hints s
            in ((rbind r (\<lambda>ps. Inr (pod # ps)), hints'), s'))
      else (case FitsAnyNode fw exec sch pod s of
              (Inr nodeName, s1) \<Rightarrow>
                (let (e, s2) = perform exec (AddPod_to pod nodeName) s1
                 in if e \<noteq> None then ((Inl (Err ''cannot add pod''), hints), s2)
                    else pack_loop SpecEqual fw exec sch pods unschedulablePodsCache (AList.update (pod_UID pod) nodeName hints) s2)
            | (Inl _, s1) \<Rightarrow>
                (let ((r, hints'), s') = pack_loop SpecEqual fw exec sch pods (psm_Set unschedulablePodsCache pod None) hints s1
                 in ((rbind r (\<lambda>ps. Inr (pod # ps)), hints'), s'))))"

definition filterOutSchedulableByPacking ::
    "spec_equality \<Rightarrow> (ca_Node, ca_Pod, 'i) framework \<Rightarrow> (ca_Node, ca_Pod, 'i, 's) executor \<Rightarrow> (ca_Pod, 'i, 'c) scheduler \<Rightarrow>
     ((ca_Pod \<Rightarrow> ca_Pod \<Rightarrow> bool) \<Rightarrow> ca_Pod list \<Rightarrow> ca_Pod list) \<Rightarrow> ca_Pod list \<Rightarrow> (string, string) gomap \<Rightarrow> 's \<Rightarrow>
     (ca_Pod list result \<times> (string, string) gomap) \<times> 's" where
  "filterOutSchedulableByPacking SpecEqual fw exec sch sort_Slice unschedulableCandidates hints s =
     (let candidates = sort_Slice moreImportantPod unschedulableCandidates;
          ((r, hints1), s1) = hint_loop exec sch candidates hints s
      in (case r of
            Inl e \<Rightarrow> ((Inl e, hints1), s1)
          | Inr podsToCheckAgainstAllNodes \<Rightarrow>
              (let hints2 = filter (\<lambda>(uid, _). uid \<in> set (map pod_UID candidates)) hints1
               in pack_loop SpecEqual fw exec sch podsToCheckAgainstAllNodes [] hints2 s1)))"

text \<open>The processor; the flag says whether scale-down is disabled for the iteration.\<close>

definition filter_Process ::
    "spec_equality \<Rightarrow> (ca_Node, ca_Pod, 'i) framework \<Rightarrow> (ca_Node, ca_Pod, 'i, 's) executor \<Rightarrow> (ca_Pod, 'i, 'c) scheduler \<Rightarrow>
     ((ca_Pod \<Rightarrow> ca_Pod \<Rightarrow> bool) \<Rightarrow> ca_Pod list \<Rightarrow> ca_Pod list) \<Rightarrow> ca_Pod list \<Rightarrow> (string, string) gomap \<Rightarrow> 's \<Rightarrow>
     ((ca_Pod list \<times> bool) result \<times> (string, string) gomap) \<times> 's" where
  "filter_Process SpecEqual fw exec sch sort_Slice unschedulablePods hints s =
     (let ((r, hints'), s') = filterOutSchedulableByPacking SpecEqual fw exec sch sort_Slice unschedulablePods hints s
      in ((rbind r (\<lambda>pods. Inr (pods, length pods \<noteq> length unschedulablePods)), hints'), s'))"

section \<open>The groups partition the pods\<close>

definition equivalent_to :: "spec_equality \<Rightarrow> ca_Pod \<Rightarrow> ca_Pod \<Rightarrow> bool" where
  "equivalent_to SpecEqual p q \<longleftrightarrow>
     (\<exists>r r'. GetControllerOf (OwnerReferences p) = Some r \<and> GetControllerOf (OwnerReferences q) = Some r' \<and> or_UID r = or_UID r') \<and>
     same_properties SpecEqual p (pod_Labels q) q"

definition group_ok :: "spec_equality \<Rightarrow> ca_Pod list \<Rightarrow> bool" where
  "group_ok SpecEqual ps \<longleftrightarrow> ps \<noteq> [] \<and> list_all (\<lambda>p. equivalent_to SpecEqual p (hd ps)) (tl ps)"

definition grouping_inv ::
    "spec_equality \<Rightarrow> ca_Pod list \<Rightarrow> (nat, ca_Pod list) gomap \<Rightarrow> (string, (nat \<times> ca_Pod) list) gomap \<Rightarrow> nat \<Rightarrow> bool" where
  "grouping_inv SpecEqual pods groups byController n \<longleftrightarrow>
     mset (concat (map snd groups)) = mset pods \<and> distinct (map fst groups) \<and>
     (\<forall>i ps. map_of groups i = Some ps \<longrightarrow> i < n \<and> group_ok SpecEqual ps) \<and>
     (\<forall>uid i representant. (i, representant) \<in> set (lookup_default [] byController uid) \<longrightarrow>
        (\<exists>ps r. map_of groups i = Some ps \<and> hd ps = representant \<and>
           GetControllerOf (OwnerReferences representant) = Some r \<and> or_UID r = uid))"

abbreviation grouping_of :: "spec_equality \<Rightarrow> ca_Pod list \<Rightarrow> grouping \<Rightarrow> bool" where
  "grouping_of SpecEqual pods st \<equiv> grouping_inv SpecEqual pods (gr_groups st) (gr_byController st) (gr_next st)"

lemma mset_concat_update:
  "distinct (map fst m) \<Longrightarrow>
   mset (concat (map snd (AList.update k (lookup_default [] m k @ [p]) m))) = add_mset p (mset (concat (map snd m)))"
  by (induction m) (auto simp: lookup_default_def split: option.splits)

lemma lookup_default_update_same: "lookup_default d (AList.update k v m) k' = (if k' = k then v else lookup_default d m k')"
  by (simp add: lookup_default_def update_conv')

lemma group_ok_snoc: "group_ok SpecEqual ps \<Longrightarrow> equivalent_to SpecEqual p (hd ps) \<Longrightarrow> group_ok SpecEqual (ps @ [p])"
  by (cases ps) (auto simp: group_ok_def)

lemma group_pod_inv:
  assumes "grouping_of SpecEqual pods st"
  shows "grouping_of SpecEqual (pods @ [pod]) (group_pod SpecEqual st pod)"
proof -
  have inv: "mset (concat (map snd (gr_groups st))) = mset pods" "distinct (map fst (gr_groups st))"
      "\<And>i ps. map_of (gr_groups st) i = Some ps \<Longrightarrow> i < gr_next st \<and> group_ok SpecEqual ps"
      "\<And>uid i rep. (i, rep) \<in> set (lookup_default [] (gr_byController st) uid) \<Longrightarrow>
         (\<exists>ps r. map_of (gr_groups st) i = Some ps \<and> hd ps = rep \<and> GetControllerOf (OwnerReferences rep) = Some r \<and> or_UID r = uid)"
    using assms unfolding grouping_inv_def by blast+
  let ?add = "\<lambda>i. AList.update i (lookup_default [] (gr_groups st) i @ [pod]) (gr_groups st)"
  have ms: "mset (concat (map snd (?add i))) = mset (pods @ [pod])" for i using mset_concat_update [OF inv(2)] inv(1) by simp
  have ds: "distinct (map fst (?add i))" for i using inv(2) by (rule distinct_update)
  have new: "map_of (gr_groups st) (gr_next st) = None" using inv(3) by (cases "map_of (gr_groups st) (gr_next st)") auto
  have fresh: "lookup_default [] (gr_groups st) (gr_next st) = []" using new by (simp add: lookup_default_def)
  have grown: "map_of (?add (gr_next st)) i = (if i = gr_next st then Some [pod] else map_of (gr_groups st) i)" for i
    by (simp add: update_conv' fresh)
  have third: "\<forall>i ps. map_of (?add (gr_next st)) i = Some ps \<longrightarrow> i < Suc (gr_next st) \<and> group_ok SpecEqual ps"
    using inv(3) by (auto simp: grown fresh less_Suc_eq group_ok_def split: if_splits)
  have kept: "map_of (?add (gr_next st)) i = Some ps" if "map_of (gr_groups st) i = Some ps" for i ps
    using that new by (auto simp: grown)
  let ?find = "\<lambda>r. find (\<lambda>(_, rep). same_properties SpecEqual pod (pod_Labels rep) rep) (lookup_default [] (gr_byController st) (or_UID r))"
  consider (none) "GetControllerOf (OwnerReferences pod) = None"
    | (new) r where "GetControllerOf (OwnerReferences pod) = Some r" "?find r = None"
    | (old) r i rep where "GetControllerOf (OwnerReferences pod) = Some r" "?find r = Some (i, rep)"
  proof (cases "GetControllerOf (OwnerReferences pod)")
    case (Some r)
    then show ?thesis using that by (cases "?find r") auto
  qed (rule that(1))
  then show ?thesis
  proof cases
    case none
    have "group_pod SpecEqual st pod = st\<lparr>gr_groups := ?add (gr_next st), gr_next := Suc (gr_next st)\<rparr>"
      using none fresh by (simp add: group_pod_def)
    moreover have "grouping_inv SpecEqual (pods @ [pod]) (?add (gr_next st)) (gr_byController st) (Suc (gr_next st))"
      unfolding grouping_inv_def using ms ds third inv(4) kept by (intro conjI) blast+
    ultimately show ?thesis by simp
  next
    case (new r)
    have "group_pod SpecEqual st pod = st\<lparr>gr_groups := ?add (gr_next st),
        gr_byController := AList.update (or_UID r) (lookup_default [] (gr_byController st) (or_UID r) @ [(gr_next st, pod)]) (gr_byController st),
        gr_next := Suc (gr_next st)\<rparr>"
      using new by (simp add: group_pod_def)
    moreover have "\<exists>ps r'. map_of (?add (gr_next st)) i = Some ps \<and> hd ps = rep \<and> GetControllerOf (OwnerReferences rep) = Some r' \<and> or_UID r' = uid"
      if "(i, rep) \<in> set (lookup_default [] (AList.update (or_UID r) (lookup_default [] (gr_byController st) (or_UID r) @ [(gr_next st, pod)])
            (gr_byController st)) uid)" for i rep uid
    proof (cases "(i, rep) \<in> set (lookup_default [] (gr_byController st) uid)")
      case True
      show ?thesis using inv(4) [OF True] kept by blast
    next
      case False
      then have "i = gr_next st" "rep = pod" "uid = or_UID r" using that by (auto simp: lookup_default_update_same split: if_splits)
      then show ?thesis using new(1) by (auto simp: grown fresh)
    qed
    then have "grouping_inv SpecEqual (pods @ [pod]) (?add (gr_next st))
        (AList.update (or_UID r) (lookup_default [] (gr_byController st) (or_UID r) @ [(gr_next st, pod)]) (gr_byController st)) (Suc (gr_next st))"
      unfolding grouping_inv_def using ms ds third by (intro conjI) blast+
    ultimately show ?thesis by simp
  next
    case (old r i rep)
    have "(i, rep) \<in> set (lookup_default [] (gr_byController st) (or_UID r))" and same: "same_properties SpecEqual pod (pod_Labels rep) rep"
      using old(2) unfolding find_Some_iff by (auto, metis nth_mem)
    then obtain ps r' where ps: "map_of (gr_groups st) i = Some ps" "hd ps = rep" "GetControllerOf (OwnerReferences rep) = Some r'" "or_UID r' = or_UID r"
      using inv(4) by blast
    have ok: "group_ok SpecEqual (ps @ [pod])" "ps \<noteq> []"
      using group_ok_snoc [of SpecEqual ps pod] inv(3) [OF ps(1)] ps same old(1) by (auto simp: equivalent_to_def group_ok_def)
    have "group_pod SpecEqual st pod = st\<lparr>gr_groups := AList.update i (ps @ [pod]) (gr_groups st)\<rparr>"
      using old ps(1) by (simp add: group_pod_def lookup_default_def)
    moreover have up: "map_of (AList.update i (ps @ [pod]) (gr_groups st)) j = (if j = i then Some (ps @ [pod]) else map_of (gr_groups st) j)" for j
      by (simp add: update_conv')
    moreover have "\<exists>qs. map_of (AList.update i (ps @ [pod]) (gr_groups st)) j = Some qs \<and> hd qs = hd qs'" if "map_of (gr_groups st) j = Some qs'" for j qs'
      using that ps(1) ok(2) by (auto simp: up)
    then have "grouping_inv SpecEqual (pods @ [pod]) (AList.update i (ps @ [pod]) (gr_groups st)) (gr_byController st) (gr_next st)"
      unfolding grouping_inv_def using ms [of i] ds [of i] ok(1) inv(3) inv(3) [OF ps(1)] inv(4) ps(1)
      by (intro conjI) (fastforce simp: lookup_default_def up split: if_splits)+
    ultimately show ?thesis by simp
  qed
qed

lemma equivalence_groups:
  "mset (concat (map eg_pods (buildPodEquivalenceGroups SpecEqual pods))) = mset pods \<and>
   list_all (\<lambda>g. eg_pods g \<noteq> [] \<and> list_all (\<lambda>p. equivalent_to SpecEqual p (hd (eg_pods g))) (tl (eg_pods g)) \<and> \<not> eg_schedulable g)
     (buildPodEquivalenceGroups SpecEqual pods)"
proof -
  define st where "st = foldl (group_pod SpecEqual) \<lparr>gr_groups = [], gr_byController = [], gr_next = 0\<rparr> pods"
  have "grouping_of SpecEqual pods st"
    unfolding st_def
  proof (induction pods rule: rev_induct)
    case Nil
    then show ?case by (simp add: grouping_inv_def lookup_default_def)
  qed (simp add: group_pod_inv)
  then have inv: "mset (concat (map snd (gr_groups st))) = mset pods" "distinct (map fst (gr_groups st))"
      "\<And>i ps. map_of (gr_groups st) i = Some ps \<Longrightarrow> group_ok SpecEqual ps"
    unfolding grouping_inv_def by blast+
  have b: "buildPodEquivalenceGroups SpecEqual pods = map (\<lambda>(_, ps). \<lparr>eg_pods = ps, schedulingErrors = [], eg_schedulable = False\<rparr>) (gr_groups st)"
    by (simp add: buildPodEquivalenceGroups_def groupPodsBySchedulingProperties_def st_def)
  have "map eg_pods (buildPodEquivalenceGroups SpecEqual pods) = map snd (gr_groups st)" by (auto simp: b)
  then have "mset (concat (map eg_pods (buildPodEquivalenceGroups SpecEqual pods))) = mset pods" using inv(1) by (simp only:)
  moreover have "group_ok SpecEqual ps" if "(i, ps) \<in> set (gr_groups st)" for i ps using inv(2,3) that by simp
  ultimately show ?thesis unfolding b by (auto simp: list_all_iff group_ok_def)
qed

text \<open>
  C16. The equivalence groups of pods are a partition of the pods: together they hold every pod, none is
  empty, and the pods of a group have the controller, the labels and the specification of its first pod,
  so that a check of the first pod stands for all of them.
\<close>

theorem buildPodEquivalenceGroups_correct:
  "mset (concat (map eg_pods (buildPodEquivalenceGroups SpecEqual pods))) = mset pods \<and>
   list_all (\<lambda>g. eg_pods g \<noteq> [] \<and> list_all (\<lambda>p. equivalent_to SpecEqual p (hd (eg_pods g))) (tl (eg_pods g)) \<and> \<not> eg_schedulable g)
     (buildPodEquivalenceGroups SpecEqual pods)"
  by (rule equivalence_groups)

section \<open>Packing is sound\<close>

text \<open>
  What the two loops do to the nodes. With hints a pod goes to a node that accepts it or is kept for
  later; without, it goes to a node that accepts it, or it is left over because every schedulable node
  refuses it or because an equivalent pod was left over before.
\<close>

inductive hinted :: "(ca_Node, ca_Pod, 'i) framework \<Rightarrow> (ca_Pod, 'i, 'c) scheduler \<Rightarrow> (string \<rightharpoonup> 'i) \<Rightarrow> ca_Pod list \<Rightarrow> ca_Pod list \<Rightarrow> (string \<rightharpoonup> 'i) \<Rightarrow> bool"
  for fw sch where
  no_pods: "hinted fw sch m [] [] m"
| to_hint: "m n = Some info \<Longrightarrow> accepted fw sch m p info \<Longrightarrow> hinted fw sch (m(n \<mapsto> fw_AddPod fw p info)) ps rest m' \<Longrightarrow> hinted fw sch m (p # ps) rest m'"
| to_check: "hinted fw sch m ps rest m' \<Longrightarrow> hinted fw sch m (p # ps) (p # rest) m'"

definition fits_nowhere :: "(ca_Node, ca_Pod, 'i) framework \<Rightarrow> (ca_Pod, 'i, 'c) scheduler \<Rightarrow> (string \<rightharpoonup> 'i) \<Rightarrow> ca_Pod \<Rightarrow> bool" where
  "fits_nowhere fw sch m p \<longleftrightarrow>
     (\<forall>info. m (fw_InfoName fw info) = Some info \<and> \<not> Spec_Unschedulable sch info \<longrightarrow> refused fw sch m p info)"

inductive packed ::
    "spec_equality \<Rightarrow> (ca_Node, ca_Pod, 'i) framework \<Rightarrow> (ca_Pod, 'i, 'c) scheduler \<Rightarrow> ca_Pod list \<Rightarrow> (string \<rightharpoonup> 'i) \<Rightarrow> ca_Pod list \<Rightarrow> ca_Pod list \<Rightarrow> (string \<rightharpoonup> 'i) \<Rightarrow> bool"
  for SpecEqual fw sch where
  nothing: "packed SpecEqual fw sch seen m [] [] m"
| placed: "m n = Some info \<Longrightarrow> accepted fw sch m p info \<Longrightarrow> packed SpecEqual fw sch seen (m(n \<mapsto> fw_AddPod fw p info)) ps us m' \<Longrightarrow>
    packed SpecEqual fw sch seen m (p # ps) us m'"
| refused: "fits_nowhere fw sch m p \<Longrightarrow> packed SpecEqual fw sch (p # seen) m ps us m' \<Longrightarrow> packed SpecEqual fw sch seen m (p # ps) (p # us) m'"
| similar: "q \<in> set seen \<Longrightarrow> equivalent_to SpecEqual p q \<Longrightarrow> packed SpecEqual fw sch seen m ps us m' \<Longrightarrow>
    packed SpecEqual fw sch seen m (p # ps) (p # us) m'"

definition cache_ok :: "PodSchedulableMap \<Rightarrow> ca_Pod list \<Rightarrow> bool" where
  "cache_ok cache seen \<longleftrightarrow>
     (\<forall>uid. \<forall>info \<in> set (lookup_default [] cache uid). psi_spec info \<in> set seen \<and> psi_labels info = pod_Labels (psi_spec info) \<and>
        (\<exists>r. GetControllerOf (OwnerReferences (psi_spec info)) = Some r \<and> or_UID r = uid))"

lemma psm_Get_hit: "cache_ok cache seen \<Longrightarrow> psm_Get SpecEqual cache p \<noteq> None \<Longrightarrow> \<exists>q \<in> set seen. equivalent_to SpecEqual p q"
proof -
  assume c: "cache_ok cache seen" and g: "psm_Get SpecEqual cache p \<noteq> None"
  obtain r info where r: "GetControllerOf (OwnerReferences p) = Some r" "info \<in> set (lookup_default [] cache (or_UID r))" "psi_Match SpecEqual info p"
    using g by (auto simp: psm_Get_def find_Some_iff split: option.splits) (metis nth_mem)
  then show ?thesis using c unfolding cache_ok_def equivalent_to_def psi_Match_def by metis
qed

lemma psm_Set_ok: "cache_ok cache seen \<Longrightarrow> cache_ok (psm_Set cache p e) (p # seen)"
  unfolding cache_ok_def psm_Set_def by (auto simp: lookup_default_update_same split: option.splits if_splits)

context packing_snapshot
begin

lemma hint_loop_meets:
  assumes "framework_ok fw"
  shows "inv fw s \<Longrightarrow> hint_loop (exec fw) sch ps hints s = ((r, hints'), s') \<Longrightarrow>
    inv fw s' \<and> snd (view s') = snd (view s) \<and> (\<exists>rest. r = Inr rest \<and> hinted fw sch (fst (view s)) ps rest (fst (view s')))"
proof (induction ps arbitrary: hints s r)
  case Nil
  then show ?case by (auto intro: hinted.intros)
next
  case (Cons p ps)
  have later: "inv fw s' \<and> snd (view s') = snd (view s) \<and> (\<exists>rest. r = Inr rest \<and> hinted fw sch (fst (view s)) (p # ps) rest (fst (view s')))"
    if l: "(let ((r, h), s') = hint_loop (exec fw) sch ps (AList.delete (pod_UID p) hints) s1 in ((rbind r (\<lambda>ps. Inr (p # ps)), h), s')) = ((r, hints'), s')"
      and i: "inv fw s1" "view s1 = view s" for s1
  proof -
    obtain r1 where h: "hint_loop (exec fw) sch ps (AList.delete (pod_UID p) hints) s1 = ((r1, hints'), s')" "r = rbind r1 (\<lambda>ps. Inr (p # ps))"
      using l by (auto split: prod.splits)
    from Cons.IH [OF i(1) h(1)] h(2) i(2) show ?thesis by (auto intro: hinted.to_check)
  qed
  show ?case
  proof (cases "map_of hints (pod_UID p)")
    case None
    then show ?thesis using later [OF _ Cons.prems(1)] Cons.prems(2) by simp
  next
    case (Some h)
    obtain pe s1 where c: "CheckPredicates (exec fw) sch p h s = (pe, s1)" by (cases "CheckPredicates (exec fw) sch p h s")
    note m = CheckPredicates_meets [OF assms Cons.prems(1) c]
    have i: "inv fw s1" "view s1 = view s" using m by auto
    show ?thesis
    proof (cases pe)
      case (Some e)
      then show ?thesis using later [OF _ i] Cons.prems(2) \<open>map_of hints (pod_UID p) = Some h\<close> c by simp
    next
      case None
      then obtain info where info: "fst (view s) h = Some info" "accepted fw sch (fst (view s)) p info" using m by blast
      obtain e s2 where a: "perform (exec fw) (AddPod_to p h) s1 = (e, s2)" by (cases "perform (exec fw) (AddPod_to p h) s1")
      have m2: "e = None" "inv fw s2" "view s2 = ((fst (view s))(h \<mapsto> fw_AddPod fw p info), snd (view s))"
        using add_pod_meets [OF assms i(1) _ a] info(1) i(2) by auto
      have v: "fst (view s2) = (fst (view s))(h \<mapsto> fw_AddPod fw p info)" "snd (view s2) = snd (view s)" by (simp_all only: m2(3) fst_conv snd_conv)
      have "hint_loop (exec fw) sch ps hints s2 = ((r, hints'), s')"
        using Cons.prems(2) Some None c a m2(1) by simp
      from Cons.IH [OF m2(2) this] show ?thesis unfolding v using hinted.to_hint [of "fst (view s)" h info fw sch p, OF info] by blast
    qed
  qed
qed

lemma pack_loop_meets:
  assumes "framework_ok fw"
  shows "inv fw s \<Longrightarrow> cache_ok cache seen \<Longrightarrow> pack_loop SpecEqual fw (exec fw) sch ps cache hints s = ((r, hints'), s') \<Longrightarrow>
    inv fw s' \<and> snd (view s') = snd (view s) \<and> (\<exists>us. r = Inr us \<and> packed SpecEqual fw sch seen (fst (view s)) ps us (fst (view s')))"
proof (induction ps arbitrary: cache seen hints s r)
  case Nil
  then show ?case by (auto intro: packed.intros)
next
  case (Cons p ps)
  show ?case
  proof (cases "psm_Get SpecEqual cache p")
    case (Some x)
    then obtain r1 where h: "pack_loop SpecEqual fw (exec fw) sch ps cache hints s = ((r1, hints'), s')" "r = rbind r1 (\<lambda>ps. Inr (p # ps))"
      using Cons.prems(3) by (auto split: prod.splits)
    obtain q where q: "q \<in> set seen" "equivalent_to SpecEqual p q" using psm_Get_hit [OF Cons.prems(2)] Some by blast
    from Cons.IH [OF Cons.prems(1,2) h(1)] h(2) show ?thesis by (auto intro: packed.similar [OF q])
  next
    case None
    obtain q s1 where f: "FitsAnyNode fw (exec fw) sch p s = (q, s1)" by (cases "FitsAnyNode fw (exec fw) sch p s")
    note m = FitsAnyNodeMatching_meets [OF assms Cons.prems(1) f [unfolded FitsAnyNode_def]]
    have i: "inv fw s1" "view s1 = view s" using m by auto
    show ?thesis
    proof (cases q)
      case (Inl e)
      then have nowhere: "fits_nowhere fw sch (fst (view s)) p" using m by (auto simp: fits_nowhere_def)
      obtain r1 where h: "pack_loop SpecEqual fw (exec fw) sch ps (psm_Set cache p None) hints s1 = ((r1, hints'), s')"
          "r = rbind r1 (\<lambda>ps. Inr (p # ps))"
        using Cons.prems(3) None f Inl by (auto split: prod.splits)
      from Cons.IH [OF i(1) psm_Set_ok [OF Cons.prems(2)] h(1)] h(2) i(2) show ?thesis by (auto intro: packed.refused [OF nowhere])
    next
      case (Inr n)
      then obtain info where info: "fst (view s) n = Some info" "accepted fw sch (fst (view s)) p info" using m by blast
      obtain e s2 where a: "perform (exec fw) (AddPod_to p n) s1 = (e, s2)" by (cases "perform (exec fw) (AddPod_to p n) s1")
      have m2: "e = None" "inv fw s2" "view s2 = ((fst (view s))(n \<mapsto> fw_AddPod fw p info), snd (view s))"
        using add_pod_meets [OF assms i(1) _ a] info(1) i(2) by auto
      have v: "fst (view s2) = (fst (view s))(n \<mapsto> fw_AddPod fw p info)" "snd (view s2) = snd (view s)" by (simp_all only: m2(3) fst_conv snd_conv)
      have "pack_loop SpecEqual fw (exec fw) sch ps cache (AList.update (pod_UID p) n hints) s2 = ((r, hints'), s')"
        using Cons.prems(3) None f Inr a m2(1) by simp
      from Cons.IH [OF m2(2) Cons.prems(2) this] show ?thesis unfolding v using packed.placed [of "fst (view s)" n info fw sch p, OF info] by blast
    qed
  qed
qed

end

text \<open>
  C15. The pods that are left for a scale-up, on a snapshot of the nodes there are: the processor never
  fails; it takes the pods in the order of their priority, first tries the nodes of its hints, then all nodes;
  every pod that it drops is placed on a node that accepts it at that moment, beside the pods placed
  before, and every pod that it keeps is refused by all schedulable nodes, or is equivalent to a pod
  that was.
\<close>

theorem filterOutSchedulable_correct:
  assumes "framework_ok fw" "delta_inv fw c" "sort_ok sort_Slice"
    and "filterOutSchedulableByPacking SpecEqual fw (delta_exec fw) sch sort_Slice pods hints c = ((r, hints'), c')"
  shows "\<exists>us candidates rest m. r = Inr us \<and> mset candidates = mset pods \<and>
    sorted_wrt (\<lambda>a b. GetPodPriority a \<ge> GetPodPriority b) candidates \<and>
    hinted fw sch (fst (delta_view c)) candidates rest m \<and> packed SpecEqual fw sch [] m rest us (fst (delta_view c'))"
proof -
  define candidates where "candidates = sort_Slice moreImportantPod pods"
  have "strict_weak_order moreImportantPod" by (auto simp: strict_weak_order_def moreImportantPod_def)
  then have srt: "mset candidates = mset pods" "sorted_wrt (\<lambda>a b. \<not> moreImportantPod b a) candidates"
    using assms(3) unfolding sort_ok_def candidates_def by blast+
  obtain r1 h1 c1 where 1: "hint_loop (delta_exec fw) sch candidates hints c = ((r1, h1), c1)" by (metis surj_pair)
  obtain rest where m1: "delta_inv fw c1" "r1 = Inr rest" "hinted fw sch (fst (delta_view c)) candidates rest (fst (delta_view c1))"
    using packing_delta.hint_loop_meets [OF assms(1,2) 1] by blast
  have 2: "pack_loop SpecEqual fw (delta_exec fw) sch rest [] (filter (\<lambda>(uid, _). uid \<in> set (map pod_UID candidates)) h1) c1 = ((r, hints'), c')"
    using assms(4) 1 m1(2) by (simp add: filterOutSchedulableByPacking_def candidates_def)
  have "cache_ok [] []" by (simp add: cache_ok_def lookup_default_def)
  then obtain us where "r = Inr us" "packed SpecEqual fw sch [] (fst (delta_view c1)) rest us (fst (delta_view c'))"
    using packing_delta.pack_loop_meets [OF assms(1) m1(1) _ 2] by blast
  moreover have "sorted_wrt (\<lambda>a b. GetPodPriority a \<ge> GetPodPriority b) candidates"
    using srt(2) by (rule sorted_wrt_mono_rel [rotated]) (simp add: moreImportantPod_def not_less)
  ultimately show ?thesis using srt(1) m1(3) by blast
qed

theorem filterOutSchedulable_correct_witness:
  "\<exists>us candidates rest m. fst (fst (filterOutSchedulableByPacking (=) node_framework (delta_exec node_framework) pair_scheduler insertionSort
       [sample_pod, sample_pod] [] delta_Clear)) = Inr us \<and>
     mset candidates = mset [sample_pod, sample_pod] \<and>
     hinted node_framework pair_scheduler (fst (delta_view delta_Clear)) candidates rest m"
proof -
  have fw: "framework_ok node_framework" by (auto simp: framework_ok_def node_framework_def)
  have c: "delta_inv node_framework delta_Clear" using delta.starts by blast
  obtain r h c' where "filterOutSchedulableByPacking (=) node_framework (delta_exec node_framework) pair_scheduler insertionSort
       [sample_pod, sample_pod] [] delta_Clear = ((r, h), c')" by (metis surj_pair)
  from filterOutSchedulable_correct [OF fw c insertionSort_ok this] this show ?thesis by auto
qed

end
