(* ===== verification/Scale_Up_Limits.thy ===== *)
theory Scale_Up_Limits
  imports Binpacking Cluster_Registry
begin

text \<open>
  The resource limits of a scale-up (\<open>cluster-autoscaler/core/scale_up.go\<close>, \<open>cloudprovider/resource_limiter.go\<close>,
  the GPU counts of \<open>utils/gpu/gpu.go\<close> and the node capacities of \<open>core/utils/utils.go\<close>): how much of each
  resource the cluster may still grow by, and how many nodes of a template fit into that. Sums and
  products of \<open>int64\<close> wrap around.
\<close>

section \<open>The limiter\<close>

definition ResourceNameCores :: string where "ResourceNameCores = ''cpu''"
definition ResourceNameMemory :: string where "ResourceNameMemory = ''memory''"

definition IsGpuResource :: "string \<Rightarrow> bool" where
  "IsGpuResource resourceName \<longleftrightarrow> resourceName \<noteq> ResourceNameCores \<and> resourceName \<noteq> ResourceNameMemory"

definition ContainsGpuResources :: "string list \<Rightarrow> bool" where
  "ContainsGpuResources resources = list_ex IsGpuResource resources"

record ResourceLimiter =
  minLimits :: "(string, int) gomap"
  maxLimits :: "(string, int) gomap"

definition NewResourceLimiter :: "(string, int) gomap \<Rightarrow> (string, int) gomap \<Rightarrow> ResourceLimiter" where
  "NewResourceLimiter mins maxs = \<lparr>minLimits = filter (\<lambda>(_, v). v > 0) mins, maxLimits = maxs\<rparr>"

definition GetMin :: "ResourceLimiter \<Rightarrow> string \<Rightarrow> int" where
  "GetMin r resourceName = lookup_default 0 (minLimits r) resourceName"

definition GetMax :: "ResourceLimiter \<Rightarrow> string \<Rightarrow> int" where
  "GetMax r resourceName = lookup_default int64_max (maxLimits r) resourceName"

definition GetResources :: "ResourceLimiter \<Rightarrow> string list" where
  "GetResources r = sort (remdups (map fst (minLimits r) @ map fst (maxLimits r)))"

definition HasMinLimitSet :: "ResourceLimiter \<Rightarrow> string \<Rightarrow> bool" where
  "HasMinLimitSet r resourceName \<longleftrightarrow> map_of (minLimits r) resourceName \<noteq> None"

definition HasMaxLimitSet :: "ResourceLimiter \<Rightarrow> string \<Rightarrow> bool" where
  "HasMaxLimitSet r resourceName \<longleftrightarrow> map_of (maxLimits r) resourceName \<noteq> None"

section \<open>The resources of nodes\<close>

text \<open>The cloud provider, with what a scale-up asks of it beside the sizes of the groups.\<close>

record 'g provider =
  pv_cp :: "'g cloud_provider"
  pv_GPULabel :: string
  ng_TemplateNode :: "'g \<Rightarrow> ca_Node result"
  ng_Exist :: "'g \<Rightarrow> bool"
  pv_ResourceLimiter :: "ResourceLimiter result"

definition template_gpus :: "'g provider \<Rightarrow> string \<Rightarrow> 'g option \<Rightarrow> (string \<times> int) result" where
  "template_gpus pv gpuLabel nodeGroup =
     (case nodeGroup of
        None \<Rightarrow> Inl (Err ''node with gpu label, without capacity not belonging to autoscaled node group'')
      | Some g \<Rightarrow> rbind (ng_TemplateNode pv g) (\<lambda>template.
          Inr (case map_of (node_Capacity template) ResourceNvidiaGPU of Some q \<Rightarrow> (gpuLabel, q_Value q) | None \<Rightarrow> ([], 0))))"

definition GetNodeTargetGpus :: "'g provider \<Rightarrow> ca_Node \<Rightarrow> 'g option \<Rightarrow> (string \<times> int) result" where
  "GetNodeTargetGpus pv node nodeGroup =
     (case map_of (node_Labels node) (pv_GPULabel pv) of
        None \<Rightarrow> Inr ([], 0)
      | Some gpuLabel \<Rightarrow>
          (case map_of (node_Allocatable node) ResourceNvidiaGPU of
             Some q \<Rightarrow> if q_Value q > 0 then Inr (gpuLabel, q_Value q) else template_gpus pv gpuLabel nodeGroup
           | None \<Rightarrow> template_gpus pv gpuLabel nodeGroup))"

definition getNodeResource :: "ca_Node \<Rightarrow> string \<Rightarrow> int" where
  "getNodeResource node resource =
     (case map_of (node_Capacity node) resource of None \<Rightarrow> 0 | Some q \<Rightarrow> if q_Value q < 0 then 0 else q_Value q)"

definition GetNodeCoresAndMemory :: "ca_Node \<Rightarrow> int \<times> int" where
  "GetNodeCoresAndMemory node = (getNodeResource node ResourceCPU, getNodeResource node ResourceMemory)"

definition getNodeInfoCoresAndMemory :: "node_template \<Rightarrow> int \<times> int" where
  "getNodeInfoCoresAndMemory nodeInfo = GetNodeCoresAndMemory (tmpl_Node nodeInfo)"

section \<open>What is left\<close>

definition scaleUpLimitUnknown :: int where "scaleUpLimitUnknown = int64_max"

fun cores_of_groups ::
    "'g provider \<Rightarrow> (string, node_template) gomap \<Rightarrow> 'g list \<Rightarrow> int \<times> int \<Rightarrow> (int \<times> int) result" where
  "cores_of_groups pv nodeInfos [] totals = Inr totals"
| "cores_of_groups pv nodeInfos (ng # ngs) totals =
     rbind (ng_TargetSize (pv_cp pv) ng) (\<lambda>currentSize.
       case map_of nodeInfos (ng_Id (pv_cp pv) ng) of
         None \<Rightarrow> Inl (Err ''No node info'')
       | Some nodeInfo \<Rightarrow>
           (let (coresTotal, memoryTotal) = totals; (nodeCPU, nodeMemory) = getNodeInfoCoresAndMemory nodeInfo
            in cores_of_groups pv nodeInfos ngs
                 (if currentSize > 0
                  then (wrap64 (coresTotal + currentSize * nodeCPU), wrap64 (memoryTotal + currentSize * nodeMemory))
                  else totals)))"

definition calculateScaleUpCoresMemoryTotal ::
    "'g provider \<Rightarrow> 'g list \<Rightarrow> (string, node_template) gomap \<Rightarrow> ca_Node list \<Rightarrow> (int \<times> int) result" where
  "calculateScaleUpCoresMemoryTotal pv nodeGroups nodeInfos nodesFromNotAutoscaledGroups =
     rbind (cores_of_groups pv nodeInfos nodeGroups (0, 0)) (\<lambda>totals.
       Inr (foldl (\<lambda>(coresTotal, memoryTotal) node. let (cores, memory) = GetNodeCoresAndMemory node
                     in (wrap64 (coresTotal + cores), wrap64 (memoryTotal + memory)))
              totals nodesFromNotAutoscaledGroups))"

definition add_count :: "string \<Rightarrow> int \<Rightarrow> (string, int) gomap \<Rightarrow> (string, int) gomap" where
  "add_count k n m = AList.update k (wrap64 (lookup_default 0 m k + n)) m"

fun gpus_of_groups ::
    "'g provider \<Rightarrow> (string, node_template) gomap \<Rightarrow> 'g list \<Rightarrow> (string, int) gomap \<Rightarrow> (string, int) gomap result" where
  "gpus_of_groups pv nodeInfos [] acc = Inr acc"
| "gpus_of_groups pv nodeInfos (ng # ngs) acc =
     rbind (ng_TargetSize (pv_cp pv) ng) (\<lambda>currentSize.
       case map_of nodeInfos (ng_Id (pv_cp pv) ng) of
         None \<Rightarrow> Inl (Err ''No node info'')
       | Some nodeInfo \<Rightarrow>
           if currentSize > 0
           then rbind (GetNodeTargetGpus pv (tmpl_Node nodeInfo) (Some ng)) (\<lambda>(gpuType, gpuCount).
                  gpus_of_groups pv nodeInfos ngs (if gpuType = [] then acc else add_count gpuType (gpuCount * currentSize) acc))
           else gpus_of_groups pv nodeInfos ngs acc)"

fun gpus_of_nodes :: "'g provider \<Rightarrow> ca_Node list \<Rightarrow> (string, int) gomap \<Rightarrow> (string, int) gomap result" where
  "gpus_of_nodes pv [] acc = Inr acc"
| "gpus_of_nodes pv (node # nodes) acc =
     rbind (GetNodeTargetGpus pv node None) (\<lambda>(gpuType, gpuCount). gpus_of_nodes pv nodes (add_count gpuType gpuCount acc))"

definition calculateScaleUpGpusTotal ::
    "'g provider \<Rightarrow> 'g list \<Rightarrow> (string, node_template) gomap \<Rightarrow> ca_Node list \<Rightarrow> (string, int) gomap result" where
  "calculateScaleUpGpusTotal pv nodeGroups nodeInfos nodesFromNotAutoscaledGroups =
     rbind (gpus_of_groups pv nodeInfos nodeGroups []) (gpus_of_nodes pv nodesFromNotAutoscaledGroups)"

definition computeBelowMax :: "int \<Rightarrow> int \<Rightarrow> int" where
  "computeBelowMax total_amount maximum = (if total_amount < maximum then maximum - total_amount else 0)"

text \<open>
  The branch for cores and memory when their totals are missing is not reached: the function has
  returned before.
\<close>

fun left_limits ::
    "ResourceLimiter \<Rightarrow> (int \<times> int) result \<Rightarrow> (string, int) gomap result \<Rightarrow> string list \<Rightarrow> (string, int) gomap \<Rightarrow> (string, int) gomap result" where
  "left_limits rl coresMem totalGpus [] acc = Inr acc"
| "left_limits rl coresMem totalGpus (resource # resources) acc =
     (let maximum = GetMax rl resource in
      if maximum > 0
      then (if resource = ResourceNameCores
            then rbind coresMem (\<lambda>(totalCores, _).
                   left_limits rl coresMem totalGpus resources (AList.update resource (computeBelowMax totalCores maximum) acc))
            else if resource = ResourceNameMemory
            then rbind coresMem (\<lambda>(_, totalMem).
                   left_limits rl coresMem totalGpus resources (AList.update resource (computeBelowMax totalMem maximum) acc))
            else left_limits rl coresMem totalGpus resources (AList.update resource
                   (case totalGpus of Inl _ \<Rightarrow> scaleUpLimitUnknown | Inr gpus \<Rightarrow> computeBelowMax (lookup_default 0 gpus resource) maximum) acc))
      else left_limits rl coresMem totalGpus resources acc)"

definition computeScaleUpResourcesLeftLimits ::
    "'g provider \<Rightarrow> 'g list \<Rightarrow> (string, node_template) gomap \<Rightarrow> ca_Node list \<Rightarrow> ResourceLimiter \<Rightarrow> (string, int) gomap result" where
  "computeScaleUpResourcesLeftLimits pv nodeGroups nodeInfos nodesFromNotAutoscaledGroups rl =
     (let coresMem = calculateScaleUpCoresMemoryTotal pv nodeGroups nodeInfos nodesFromNotAutoscaledGroups;
          totalGpus = (if ContainsGpuResources (GetResources rl)
                       then calculateScaleUpGpusTotal pv nodeGroups nodeInfos nodesFromNotAutoscaledGroups else Inr [])
      in left_limits rl coresMem totalGpus (GetResources rl) [])"

definition computeScaleUpResourcesDelta :: "'g provider \<Rightarrow> node_template \<Rightarrow> 'g \<Rightarrow> ResourceLimiter \<Rightarrow> (string, int) gomap result" where
  "computeScaleUpResourcesDelta pv nodeInfo nodeGroup rl =
     (let (nodeCPU, nodeMemory) = getNodeInfoCoresAndMemory nodeInfo;
          delta = [(ResourceNameCores, nodeCPU), (ResourceNameMemory, nodeMemory)]
      in if ContainsGpuResources (GetResources rl)
         then rbind (GetNodeTargetGpus pv (tmpl_Node nodeInfo) (Some nodeGroup)) (\<lambda>(gpuType, gpuCount).
                Inr (AList.update gpuType gpuCount delta))
         else Inr delta)"

section \<open>The checks\<close>

definition limit_exceeded :: "(string, int) gomap \<Rightarrow> string \<times> int \<Rightarrow> bool" where
  "limit_exceeded limits entry =
     (case map_of limits (fst entry) of
        None \<Rightarrow> False
      | Some resourceLeft \<Rightarrow> snd entry > 0 \<and> (resourceLeft = scaleUpLimitUnknown \<or> snd entry > resourceLeft))"

record scaleUpLimitsCheckResult =
  exceeded :: bool
  exceededResources :: "string list"

definition checkScaleUpDeltaWithinLimits :: "(string, int) gomap \<Rightarrow> (string, int) gomap \<Rightarrow> scaleUpLimitsCheckResult" where
  "checkScaleUpDeltaWithinLimits limits delta =
     (let resources = sort (remdups (map fst (filter (limit_exceeded limits) delta)))
      in if resources \<noteq> [] then \<lparr>exceeded = True, exceededResources = resources\<rparr>
         else \<lparr>exceeded = False, exceededResources = []\<rparr>)"

fun apply_limits :: "(string, int) gomap \<Rightarrow> (string, int) gomap \<Rightarrow> int \<Rightarrow> int result" where
  "apply_limits scaleUpResourcesLeft [] newNodes = Inr newNodes"
| "apply_limits scaleUpResourcesLeft ((resource, resourceDelta) # delta) newNodes =
     (case map_of scaleUpResourcesLeft resource of
        None \<Rightarrow> apply_limits scaleUpResourcesLeft delta newNodes
      | Some limit \<Rightarrow>
          if limit = scaleUpLimitUnknown then Inl (Err ''limit unknown for resource'')
          else if wrap64 (newNodes * resourceDelta) \<le> limit then apply_limits scaleUpResourcesLeft delta newNodes
          else if resourceDelta = 0 then Inl (Panic ''integer divide by zero'')
          else (let newNodes' = go_div limit resourceDelta
                in if newNodes' < 1 then Inl (Err ''cannot create any node; max limit reached'')
                   else apply_limits scaleUpResourcesLeft delta newNodes'))"

definition applyScaleUpResourcesLimits ::
    "'g provider \<Rightarrow> int \<Rightarrow> (string, int) gomap \<Rightarrow> node_template \<Rightarrow> 'g \<Rightarrow> ResourceLimiter \<Rightarrow> int result" where
  "applyScaleUpResourcesLimits pv newNodes scaleUpResourcesLeft nodeInfo nodeGroup rl =
     rbind (computeScaleUpResourcesDelta pv nodeInfo nodeGroup rl) (\<lambda>delta. apply_limits scaleUpResourcesLeft delta newNodes)"

section \<open>Correctness\<close>

text \<open>Within the limits, as many as asked for or as the tightest limit allows.\<close>

definition fits_limits :: "(string, int) gomap \<Rightarrow> (string, int) gomap \<Rightarrow> int \<Rightarrow> bool" where
  "fits_limits left delta n \<longleftrightarrow> (\<forall>(r, d) \<in> set delta. \<forall>l. map_of left r = Some l \<longrightarrow> n * d \<le> l)"

definition amounts_ok :: "(string, int) gomap \<Rightarrow> (string, int) gomap \<Rightarrow> int \<Rightarrow> bool" where
  "amounts_ok left delta n \<longleftrightarrow> 1 \<le> n \<and> (\<forall>r l. map_of left r = Some l \<longrightarrow> 0 \<le> l) \<and> (\<forall>(r, d) \<in> set delta. 0 \<le> d \<and> n * d \<le> int64_max)"

lemma wrap64_small: "0 \<le> n \<Longrightarrow> n \<le> int64_max \<Longrightarrow> wrap64 n = n"
  by (simp add: wrap64_def int64_max_def)

lemma amounts_ok_mono: "amounts_ok left delta n \<Longrightarrow> 1 \<le> n' \<Longrightarrow> n' \<le> n \<Longrightarrow> amounts_ok left delta n'"
  unfolding amounts_ok_def by (fastforce intro: order_trans [OF mult_right_mono])

lemma fits_limits_mono: "fits_limits left delta n \<Longrightarrow> n' \<le> n \<Longrightarrow> amounts_ok left delta n \<Longrightarrow> fits_limits left delta n'"
  unfolding amounts_ok_def fits_limits_def by (fastforce intro: order_trans [OF mult_right_mono])

definition limited :: "(string, int) gomap \<Rightarrow> (string, int) gomap \<Rightarrow> int \<Rightarrow> int result \<Rightarrow> bool" where
  "limited left delta n result =
     (case result of
        Inr n' \<Rightarrow> 1 \<le> n' \<and> n' \<le> n \<and> fits_limits left delta n' \<and> (n' = n \<or> \<not> fits_limits left delta (n' + 1))
      | Inl e \<Rightarrow> (\<exists>m. e = Err m) \<and> ((\<exists>(r, d) \<in> set delta. map_of left r = Some scaleUpLimitUnknown) \<or> \<not> fits_limits left delta 1))"

lemma fits_limits_Cons:
  "fits_limits left ((r, d) # delta) k \<longleftrightarrow> (\<forall>l. map_of left r = Some l \<longrightarrow> k * d \<le> l) \<and> fits_limits left delta k"
  by (auto simp: fits_limits_def)

lemma limited_Cons:
  assumes "limited left delta n result" "\<And>k l. k \<le> n \<Longrightarrow> map_of left r = Some l \<Longrightarrow> k * d \<le> l"
  shows "limited left ((r, d) # delta) n result"
  using assms by (auto simp: limited_def fits_limits_Cons split: sum.splits)

lemma limited_lower:
  assumes "limited left delta n' result" "n' < n" "map_of left r = Some l" "l < (n' + 1) * d" "\<And>k. k \<le> n' \<Longrightarrow> k * d \<le> l"
  shows "limited left ((r, d) # delta) n result"
  using assms by (auto simp: limited_def fits_limits_Cons split: sum.splits)

lemma apply_limits_ok: "amounts_ok left delta n \<Longrightarrow> limited left delta n (apply_limits left delta n)"
proof (induction delta arbitrary: n)
  case Nil
  then show ?case by (simp add: amounts_ok_def fits_limits_def limited_def)
next
  case (Cons e delta)
  obtain r d where e: "e = (r, d)" by (cases e)
  have ok: "amounts_ok left delta n" "0 \<le> d" "n * d \<le> int64_max" "1 \<le> n" using Cons.prems by (auto simp: amounts_ok_def e)
  have w: "wrap64 (n * d) = n * d" using ok by (simp add: wrap64_small)
  have mono: "k * d \<le> l" if "k \<le> m" "m * d \<le> l" for k m l using mult_right_mono [OF that(1) ok(2)] that(2) by linarith
  show ?case
  proof (cases "map_of left r")
    case None
    then show ?thesis using limited_Cons [OF Cons.IH [OF ok(1)], of r d] by (simp add: e)
  next
    case (Some l)
    have l: "0 \<le> l" using Cons.prems Some by (auto simp: amounts_ok_def)
    consider "l = scaleUpLimitUnknown" | "l \<noteq> scaleUpLimitUnknown" "n * d \<le> l" | "l \<noteq> scaleUpLimitUnknown" "l < n * d" by linarith
    then show ?thesis
    proof cases
      case 1
      then show ?thesis using Some by (auto simp: e limited_def)
    next
      case 2
      then show ?thesis using limited_Cons [OF Cons.IH [OF ok(1)], of r d] mono Some by (simp add: e w)
    next
      case 3
      then have d: "0 < d" using ok(2) l by (cases "d = 0") auto
      define n' where "n' = l div d"
      have g: "go_div l d = n'" using l d by (cases "l = 0") (simp_all add: go_div_def n'_def)
      have le: "n' * d \<le> l" using pos_mod_sign [OF d, of l] div_mult_mod_eq [of l d] unfolding n'_def by linarith
      have gt: "l < (n' + 1) * d" using pos_mod_bound [OF d, of l] div_mult_mod_eq [of l d] unfolding n'_def distrib_right by linarith
      have lt: "n' < n" using le 3(2) d by (meson mult_right_less_imp_less order_le_less_trans order_less_imp_le)
      show ?thesis
      proof (cases "n' < 1")
        case True
        then have "l < d" using gt mult_right_mono [of "n' + 1" 1 d] d by linarith
        then show ?thesis using True 3 Some d g by (auto simp: e w fits_limits_Cons limited_def)
      next
        case False
        then have ok': "amounts_ok left delta n'" using amounts_ok_mono [OF ok(1)] lt by simp
        show ?thesis using limited_lower [OF Cons.IH [OF ok'] lt Some gt] mono [OF _ le] 3 False Some d g by (simp add: e w)
      qed
    qed
  qed
qed

definition total_of :: "int \<times> int \<Rightarrow> (string, int) gomap \<Rightarrow> string \<Rightarrow> int" where
  "total_of coresMem gpus r =
     (if r = ResourceNameCores then fst coresMem else if r = ResourceNameMemory then snd coresMem else lookup_default 0 gpus r)"

lemma left_limits_lookup:
  "left_limits rl coresMem totalGpus rs acc = Inr left \<Longrightarrow>
   map_of left r =
     (if r \<in> set rs \<and> GetMax rl r > 0
      then Some (if IsGpuResource r
                 then (case totalGpus of Inl _ \<Rightarrow> scaleUpLimitUnknown | Inr gpus \<Rightarrow> computeBelowMax (lookup_default 0 gpus r) (GetMax rl r))
                 else computeBelowMax (total_of (projr coresMem) [] r) (GetMax rl r))
      else map_of acc r)"
proof (induction rl coresMem totalGpus rs acc rule: left_limits.induct)
  case (2 rl coresMem totalGpus resource resources acc)
  then show ?case
    by (cases coresMem) (auto simp: Let_def IsGpuResource_def total_of_def ResourceNameCores_def ResourceNameMemory_def update_conv' split: if_splits)
qed simp

lemma computeBelowMax_le: "0 < x \<Longrightarrow> x \<le> computeBelowMax t m \<Longrightarrow> t + x \<le> m"
  by (simp add: computeBelowMax_def split: if_splits)

lemma left_limits_nonneg: "left_limits rl coresMem totalGpus rs [] = Inr left \<Longrightarrow> map_of left r = Some l \<Longrightarrow> 0 \<le> l"
  using left_limits_lookup [of rl coresMem totalGpus rs "[]" left r]
  by (auto simp: computeBelowMax_def scaleUpLimitUnknown_def int64_max_def split: if_splits sum.splits)

text \<open>
  C14. The number of nodes of a scale-up is lowered to what the resource limits of the cluster allow,
  for every order in which the resources are visited: at least one node and at most as many as asked
  for; one more node would break a limit; and with the new nodes the total of each resource that
  has a maximum stays within it. Only small enough numbers are considered, so that no product overflows.
\<close>

theorem applyScaleUpResourcesLimits_correct:
  assumes "computeScaleUpResourcesLeftLimits pv nodeGroups nodeInfos others rl = Inr left"
    and totals: "calculateScaleUpCoresMemoryTotal pv nodeGroups nodeInfos others = Inr coresMem"
    and gpus: "calculateScaleUpGpusTotal pv nodeGroups nodeInfos others = Inr gpus"
    and delta: "computeScaleUpResourcesDelta pv nodeInfo g rl = Inr delta"
    and small: "1 \<le> newNodes" "\<forall>(r, d) \<in> set delta. 0 \<le> d \<and> newNodes * d \<le> int64_max"
  shows "case applyScaleUpResourcesLimits pv newNodes left nodeInfo g rl of
      Inr n \<Rightarrow> 1 \<le> n \<and> n \<le> newNodes \<and> (n = newNodes \<or> \<not> fits_limits left delta (n + 1)) \<and>
        (\<forall>(r, d) \<in> set delta. r \<in> set (GetResources rl) \<and> 0 < GetMax rl r \<and> 0 < d \<longrightarrow> total_of coresMem gpus r + n * d \<le> GetMax rl r)
    | Inl e \<Rightarrow> (\<exists>m. e = Err m) \<and> ((\<exists>(r, d) \<in> set delta. map_of left r = Some scaleUpLimitUnknown) \<or> \<not> fits_limits left delta 1)"
proof -
  let ?gpus = "if ContainsGpuResources (GetResources rl) then Inr gpus else Inr []"
  have left: "left_limits rl (Inr coresMem) ?gpus (GetResources rl) [] = Inr left"
    using assms(1) unfolding computeScaleUpResourcesLeftLimits_def Let_def totals gpus by (simp split: if_splits)
  have "amounts_ok left delta newNodes" using small left_limits_nonneg [OF left] by (auto simp: amounts_ok_def)
  note lim = apply_limits_ok [OF this]
  have kept: "total_of coresMem gpus r + n * d \<le> GetMax rl r"
    if fit: "fits_limits left delta n" and n: "1 \<le> n" and r: "(r, d) \<in> set delta" "r \<in> set (GetResources rl)" "0 < GetMax rl r" "0 < d" for n r d
  proof -
    have "ContainsGpuResources (GetResources rl)" if "IsGpuResource r"
      using that r(2) by (auto simp: ContainsGpuResources_def list_ex_iff)
    then have l: "map_of left r = Some (computeBelowMax (total_of coresMem gpus r) (GetMax rl r))"
      using left_limits_lookup [OF left, of r] r(2,3) by (auto simp: total_of_def IsGpuResource_def)
    show ?thesis using fit n r l by (intro computeBelowMax_le) (auto simp: fits_limits_def)
  qed
  show ?thesis using lim kept unfolding applyScaleUpResourcesLimits_def delta rbind_simps limited_def
    by (auto split: sum.splits)
qed

text \<open>
  A resource of GPUs with a minimum but no maximum, of which the cluster has none yet, has the limit
  of the largest integer left, which is the mark of an unknown limit: a node group that would add such a
  GPU is refused, although nothing limits it.
\<close>

theorem missing_maximum_blocks_first_gpu:
  assumes "computeScaleUpResourcesLeftLimits pv nodeGroups nodeInfos others rl = Inr left"
    and "calculateScaleUpGpusTotal pv nodeGroups nodeInfos others = Inr gpus" "lookup_default 0 gpus r = 0"
    and "IsGpuResource r" "HasMinLimitSet rl r" "\<not> HasMaxLimitSet rl r" "(r, d) \<in> set delta" "0 < d"
  shows "exceeded (checkScaleUpDeltaWithinLimits left delta)"
proof -
  have r: "r \<in> set (GetResources rl)" using assms(5) by (auto simp: GetResources_def HasMinLimitSet_def map_of_eq_None_iff)
  then have c: "ContainsGpuResources (GetResources rl)" using assms(4) by (auto simp: ContainsGpuResources_def list_ex_iff)
  have m: "GetMax rl r = int64_max" using assms(6) by (simp add: GetMax_def HasMaxLimitSet_def lookup_default_def)
  have "left_limits rl (calculateScaleUpCoresMemoryTotal pv nodeGroups nodeInfos others) (Inr gpus) (GetResources rl) [] = Inr left"
    using assms(1,2) c by (simp add: computeScaleUpResourcesLeftLimits_def Let_def)
  then have "map_of left r = Some scaleUpLimitUnknown"
    using left_limits_lookup [of rl _ "Inr gpus" "GetResources rl" "[]" left r] r assms(3,4)
    by (simp add: m computeBelowMax_def scaleUpLimitUnknown_def int64_max_def)
  then have "(r, d) \<in> set (filter (limit_exceeded left) delta)" using assms(7,8) by (simp add: limit_exceeded_def)
  then have "sort (remdups (map fst (filter (limit_exceeded left) delta))) \<noteq> []" by (metis empty_iff empty_set fst_conv image_eqI list.set_map set_remdups set_sort)
  then show ?thesis by (simp add: checkScaleUpDeltaWithinLimits_def Let_def)
qed

section \<open>Concrete instances\<close>

definition limits_provider :: "string provider" where
  "limits_provider = \<lparr>pv_cp = \<lparr>ng_Id = (\<lambda>g. g), ng_TargetSize = (\<lambda>_. Inr 1), ng_MaxSize = (\<lambda>_. 10), cp_NodeGroups = [''a''],
      ng_MinSize = (\<lambda>_. 0), ng_Nodes = (\<lambda>_ _. Inr []), cp_NodeGroupForNode = (\<lambda>_. (None, None))\<rparr>,
     pv_GPULabel = ''gpu'', ng_TemplateNode = (\<lambda>_. Inl (Err ''no template'')), ng_Exist = (\<lambda>_. True),
     pv_ResourceLimiter = Inr \<lparr>minLimits = [(''tesla'', 1)], maxLimits = [(ResourceNameCores, 5)]\<rparr>\<rparr>"

definition two_cores :: node_template where
  "two_cores = \<lparr>tmpl_Node = \<lparr>node_Name = ''t'', node_ProviderID = [], node_CreationTimestamp = 0, node_Unschedulable = False,
      node_Taints = [], node_Conditions = [], node_Labels = [], node_Allocatable = [], node_Capacity = [(''cpu'', 2000000000)]\<rparr>,
     tmpl_Pods = []\<rparr>"

definition cores_limiter :: ResourceLimiter where
  "cores_limiter = \<lparr>minLimits = [(''tesla'', 1)], maxLimits = [(''cpu'', 5)]\<rparr>"

lemma sample_limits:
  "computeScaleUpResourcesLeftLimits limits_provider [''a''] [(''a'', two_cores)] [] cores_limiter = Inr [(''cpu'', 3), (''tesla'', int64_max)]"
  "calculateScaleUpCoresMemoryTotal limits_provider [''a''] [(''a'', two_cores)] [] = Inr (2, 0)"
  "calculateScaleUpGpusTotal limits_provider [''a''] [(''a'', two_cores)] [] = Inr []"
  "computeScaleUpResourcesDelta limits_provider two_cores ''a'' cores_limiter = Inr [(''cpu'', 2), (''memory'', 0), ([], 0)]"
  by code_simp+

theorem applyScaleUpResourcesLimits_correct_witness:
  "case applyScaleUpResourcesLimits limits_provider 3 [(''cpu'', 3), (''tesla'', int64_max)] two_cores ''a'' cores_limiter of
     Inr n \<Rightarrow> 1 \<le> n \<and> n \<le> 3 \<and> 2 + n * 2 \<le> 5 | Inl e \<Rightarrow> (\<exists>m. e = Err m)"
  using applyScaleUpResourcesLimits_correct [OF sample_limits, of 3]
  by (auto simp: int64_max_def cores_limiter_def GetResources_def GetMax_def lookup_default_def total_of_def ResourceNameCores_def split: sum.splits)

theorem missing_maximum_blocks_first_gpu_witness:
  "exceeded (checkScaleUpDeltaWithinLimits [(''cpu'', 3), (''tesla'', int64_max)] [(''cpu'', 2), (''memory'', 0), (''tesla'', 1)])"
  by (rule missing_maximum_blocks_first_gpu [OF sample_limits(1,3), of "''tesla''" 1])
    (simp_all add: lookup_default_def IsGpuResource_def ResourceNameCores_def ResourceNameMemory_def HasMinLimitSet_def HasMaxLimitSet_def cores_limiter_def)

end
