(* ===== verification/Expander.thy ===== *)
theory Expander
  imports Removal_Simulation Balancing Go_Float
begin

text \<open>
  The expanders of the cluster autoscaler (\<open>cluster-autoscaler/expander\<close>): the choice of the node group
  to grow among the options of a scale-up. A strategy is a function of the options and of the template
  node of each group. The random choice is a draw that is reduced to the number of options; regular
  expressions, YAML and the prices of the cloud provider are parameters. Scores that come from
  divisions are \<open>xfloat\<close>, so that division by zero is as in the code.
\<close>

section \<open>Options and the fallback strategy\<close>

record 'g Option =
  opt_NodeGroup :: 'g
  opt_NodeCount :: int
  opt_Debug :: string
  opt_Pods :: "ca_Pod list"

type_synonym template_nodes = "(string, ca_Node) gomap"
type_synonym 'g Strategy = "'g Option list \<Rightarrow> template_nodes \<Rightarrow> 'g Option option"

definition random_BestOption :: "nat \<Rightarrow> 'g Strategy" where
  "random_BestOption draw options nodeInfo =
     (if options = [] then None else Some (options ! (draw mod length options)))"

text \<open>What the other strategies rely on when they leave the choice among equals to a fallback.\<close>

locale fallback_strategy =
  fixes fallback :: "'g Option list \<Rightarrow> template_nodes \<Rightarrow> 'g Option option"
  assumes fallback_empty: "fallback [] nodeInfo = None"
    and fallback_member: "options \<noteq> [] \<Longrightarrow> \<exists>o' \<in> set options. fallback options nodeInfo = Some o'"
begin

lemma fallback_Some: "fallback options nodeInfo = Some o' \<Longrightarrow> o' \<in> set options"
  by (metis fallback_empty fallback_member option.inject option.distinct(1))

lemma fallback_None [simp]: "fallback options nodeInfo = None \<longleftrightarrow> options = []"
  by (metis fallback_empty fallback_member option.distinct(1))

end

interpretation random_fallback: fallback_strategy "random_BestOption draw" for draw
  by unfold_locales (auto simp: random_BestOption_def)

section \<open>Most pods\<close>

definition most_step :: "nat \<times> 'g Option list \<Rightarrow> 'g Option \<Rightarrow> nat \<times> 'g Option list" where
  "most_step acc option =
     (let (maxPods, maxOptions) = acc; n = length (opt_Pods option);
          maxOptions1 = (if n = maxPods then maxOptions @ [option] else maxOptions)
      in if n > maxPods then (n, [option]) else (maxPods, maxOptions1))"

definition mostpods_BestOption :: "'g Strategy \<Rightarrow> 'g Strategy" where
  "mostpods_BestOption fallback options nodeInfo =
     (let maxOptions = snd (foldl most_step (0, []) options)
      in if maxOptions = [] then None else fallback maxOptions nodeInfo)"

section \<open>Least waste\<close>

fun xless :: "xfloat \<Rightarrow> xfloat \<Rightarrow> bool" where
  "xless (Fin x) (Fin y) \<longleftrightarrow> x < y"
| "xless (Fin x) PosInf \<longleftrightarrow> True"
| "xless NegInf (Fin y) \<longleftrightarrow> True"
| "xless NegInf PosInf \<longleftrightarrow> True"
| "xless _ _ \<longleftrightarrow> False"

definition xeq :: "xfloat \<Rightarrow> xfloat \<Rightarrow> bool" where
  "xeq x y \<longleftrightarrow> x = y \<and> x \<noteq> NaN"

definition resourcesForPods :: "ca_Pod list \<Rightarrow> Quantity \<times> Quantity" where
  "resourcesForPods pods = (sum_list (map (requested ResourceCPU) pods), sum_list (map (requested ResourceMemory) pods))"

definition resourcesForNode :: "ca_Node \<Rightarrow> Quantity \<times> Quantity" where
  "resourcesForNode node = (lookup_default 0 (node_Capacity node) ResourceCPU, lookup_default 0 (node_Capacity node) ResourceMemory)"

definition wasted :: "int \<Rightarrow> int \<Rightarrow> xfloat" where
  "wasted avail asked = xdiv (Fin (of_int (avail - asked))) (Fin (of_int avail))"

definition waste_score :: "('g \<Rightarrow> string) \<Rightarrow> template_nodes \<Rightarrow> 'g Option \<Rightarrow> xfloat option" where
  "waste_score gid nodeInfo option =
     (case map_of nodeInfo (gid (opt_NodeGroup option)) of
        None \<Rightarrow> None
      | Some node \<Rightarrow>
          (let (requestedCPU, requestedMemory) = resourcesForPods (opt_Pods option);
               (nodeCPU, nodeMemory) = resourcesForNode node;
               availCPU = wrap64 (q_MilliValue nodeCPU * opt_NodeCount option);
               availMemory = wrap64 (q_Value nodeMemory * opt_NodeCount option)
           in Some (xadd (wasted availCPU (q_MilliValue requestedCPU)) (wasted availMemory (q_Value requestedMemory)))))"

definition waste_step :: "('g \<Rightarrow> string) \<Rightarrow> template_nodes \<Rightarrow> xfloat \<times> 'g Option list \<Rightarrow> 'g Option \<Rightarrow> xfloat \<times> 'g Option list" where
  "waste_step gid nodeInfo acc option =
     (case waste_score gid nodeInfo option of
        None \<Rightarrow> acc
      | Some wastedScore \<Rightarrow>
          (let (leastWastedScore, leastWastedOptions) = acc;
               options1 = (if xeq wastedScore leastWastedScore then leastWastedOptions @ [option] else leastWastedOptions)
           in if options1 = [] \<or> xless wastedScore leastWastedScore then (wastedScore, [option])
              else (leastWastedScore, options1)))"

definition leastwaste_BestOption :: "('g \<Rightarrow> string) \<Rightarrow> 'g Strategy \<Rightarrow> 'g Strategy" where
  "leastwaste_BestOption gid fallback options nodeInfo =
     (let leastWastedOptions = snd (foldl (waste_step gid nodeInfo) (Fin 0, []) options)
      in if leastWastedOptions = [] then None else fallback leastWastedOptions nodeInfo)"

section \<open>Priorities of the user\<close>

definition PriorityConfigMapName :: string where "PriorityConfigMapName = ''cluster-autoscaler-priority-expander''"
definition ConfigMapKey :: string where "ConfigMapKey = ''priorities''"

text \<open>The two counters of the strategy, and the libraries it calls.\<close>

record priority =
  okConfigUpdates :: nat
  badConfigUpdates :: nat

record 're config_rules =
  configMapLister :: "string \<Rightarrow> (string, string) gomap result"
  yaml_Unmarshal :: "string \<Rightarrow> (int, string list) gomap result"
  regexp_Compile :: "string \<Rightarrow> 're result"
  FindStringIndex :: "'re \<Rightarrow> string \<Rightarrow> (nat \<times> nat) option"

type_synonym 're priorities = "(int, 're list) gomap"

definition logConfigWarning :: "priority \<Rightarrow> priority" where
  "logConfigWarning p = p\<lparr>badConfigUpdates := Suc (badConfigUpdates p)\<rparr>"

fun compile_list :: "'re config_rules \<Rightarrow> string list \<Rightarrow> 're list result" where
  "compile_list cr [] = Inr []"
| "compile_list cr (re # res) = rbind (regexp_Compile cr re) (\<lambda>r. rbind (compile_list cr res) (\<lambda>rs. Inr (r # rs)))"

fun compile_config :: "'re config_rules \<Rightarrow> (int, string list) gomap \<Rightarrow> 're priorities result" where
  "compile_config cr [] = Inr []"
| "compile_config cr ((prio, reList) # config) =
     rbind (compile_list cr reList) (\<lambda>rs. rbind (compile_config cr config) (\<lambda>ps.
       Inr (if rs = [] then ps else (prio, rs) # ps)))"

definition parsePrioritiesYAMLString :: "'re config_rules \<Rightarrow> string \<Rightarrow> priority \<Rightarrow> 're priorities result \<times> priority" where
  "parsePrioritiesYAMLString cr prioritiesYAML p =
     (if prioritiesYAML = [] then (Inl (Err ''priority configuration is empty''), p)
      else case rbind (yaml_Unmarshal cr prioritiesYAML) (compile_config cr) of
        Inl e \<Rightarrow> (Inl e, p)
      | Inr newPriorities \<Rightarrow> (Inr newPriorities, p\<lparr>okConfigUpdates := Suc (okConfigUpdates p)\<rparr>))"

definition reloadConfigMap :: "'re config_rules \<Rightarrow> priority \<Rightarrow> 're priorities result \<times> priority" where
  "reloadConfigMap cr p =
     (case configMapLister cr PriorityConfigMapName of
        Inl e \<Rightarrow> (Inl (Err ''Priority expander config map not found''), p)
      | Inr cm \<Rightarrow>
          (case map_of cm ConfigMapKey of
             None \<Rightarrow> (Inl (Err ''Wrong configmap for priority expander''), logConfigWarning p)
           | Some prioString \<Rightarrow>
               (case parsePrioritiesYAMLString cr prioString p of
                  (Inl e, p1) \<Rightarrow> (Inl e, logConfigWarning p1)
                | (Inr newPriorities, p1) \<Rightarrow> (Inr newPriorities, p1))))"

definition groupIDMatchesList :: "'re config_rules \<Rightarrow> string \<Rightarrow> 're list \<Rightarrow> bool" where
  "groupIDMatchesList cr i nameRegexpList = list_ex (\<lambda>re. FindStringIndex cr re i \<noteq> None) nameRegexpList"

definition prio_step ::
    "'re config_rules \<Rightarrow> string \<Rightarrow> 'g Option \<Rightarrow> int \<times> 'g Option list \<times> bool \<Rightarrow> int \<times> 're list \<Rightarrow> int \<times> 'g Option list \<times> bool" where
  "prio_step cr i option acc entry =
     (let (maxPrio, best, found) = acc; (prio, nameRegexpList) = entry in
      if prio < maxPrio then acc
      else if \<not> groupIDMatchesList cr i nameRegexpList then acc
      else let (maxPrio1, best1) = (if prio > maxPrio then (prio, []) else (maxPrio, best))
           in (maxPrio1, best1 @ [option], True))"

definition rate_option ::
    "'re config_rules \<Rightarrow> ('g \<Rightarrow> string) \<Rightarrow> 're priorities \<Rightarrow> (int \<times> 'g Option list) \<times> priority \<Rightarrow> 'g Option \<Rightarrow> (int \<times> 'g Option list) \<times> priority" where
  "rate_option cr gid priorities acc option =
     (let ((maxPrio, best), p) = acc;
          (maxPrio1, best1, found) = foldl (prio_step cr (gid (opt_NodeGroup option)) option) (maxPrio, best, False) priorities
      in ((maxPrio1, best1), if found then p else logConfigWarning p))"

definition priority_BestOption ::
    "'re config_rules \<Rightarrow> ('g \<Rightarrow> string) \<Rightarrow> 'g Strategy \<Rightarrow> 'g Option list \<Rightarrow> template_nodes \<Rightarrow> priority \<Rightarrow> 'g Option option \<times> priority" where
  "priority_BestOption cr gid fallback options nodeInfo p =
     (if options = [] then (None, p)
      else case reloadConfigMap cr p of
        (Inl e, p1) \<Rightarrow> (None, p1)
      | (Inr priorities, p1) \<Rightarrow>
          (let ((maxPrio, best), p2) = foldl (rate_option cr gid priorities) ((-1, []), p1) options
           in if best = [] then (fallback options nodeInfo, logConfigWarning p2) else (fallback best nodeInfo, p2)))"

section \<open>Price\<close>

definition GiB :: int where "GiB = 1024 * 1024 * 1024"
definition MiB :: int where "MiB = 1024 * 1024"

definition buildNode :: "int \<Rightarrow> int \<Rightarrow> ca_Node" where
  "buildNode millicpu mem =
     (let capacity = [(''pods'', 100 * 10 ^ 9), (ResourceCPU, millicpu * 10 ^ 6), (ResourceMemory, mem * 10 ^ 9)]
      in \<lparr>node_Name = ''CA-PreferredNode'', node_ProviderID = [], node_CreationTimestamp = zero_time, node_Unschedulable = False,
          node_Taints = [], node_Conditions = [], node_Labels = [], node_Allocatable = capacity, node_Capacity = capacity\<rparr>)"

definition preferred_Node :: "nat result \<Rightarrow> ca_Node result" where
  "preferred_Node listed =
     rbind listed (\<lambda>n.
       Inr (if n \<le> 2 then buildNode 1000 (3750 * MiB)
            else if n \<le> 6 then buildNode 2000 (7500 * MiB)
            else if n \<le> 20 then buildNode 4000 (15000 * MiB)
            else if n \<le> 60 then buildNode 8000 (30000 * MiB)
            else if n \<le> 200 then buildNode 16000 (60000 * MiB)
            else buildNode 32000 (120000 * MiB)))"

definition defaultPreferredNode :: ca_Node where
  "defaultPreferredNode = buildNode (4 * 1000) (4 * 4 * GiB)"

fun math_Max :: "xfloat \<Rightarrow> xfloat \<Rightarrow> xfloat" where
  "math_Max PosInf y = PosInf"
| "math_Max x PosInf = PosInf"
| "math_Max NaN y = NaN"
| "math_Max x NaN = NaN"
| "math_Max NegInf y = y"
| "math_Max x NegInf = x"
| "math_Max (Fin x) (Fin y) = Fin (max x y)"

definition SimpleNodeUnfitness :: "ca_Node \<Rightarrow> ca_Node \<Rightarrow> xfloat" where
  "SimpleNodeUnfitness preferredNode evaluatedNode =
     (let preferredCpu = Fin (of_int (q_MilliValue (lookup_default 0 (node_Capacity preferredNode) ResourceCPU)));
          evaluatedCpu = Fin (of_int (q_MilliValue (lookup_default 0 (node_Capacity evaluatedNode) ResourceCPU)))
      in math_Max (xdiv preferredCpu evaluatedCpu) (xdiv evaluatedCpu preferredCpu))"

definition buildPod :: "string \<Rightarrow> int \<Rightarrow> int \<Rightarrow> ca_Pod" where
  "buildPod name millicpu mem =
     \<lparr>pod_Namespace = ''default'', pod_Name = name, pod_GenerateName = [], pod_Labels = [], pod_Annotations = None, OwnerReferences = [],
      pod_Containers = [\<lparr>c_Name = [], c_Resources = \<lparr>Limits = None,
                                                Requests = Some [(ResourceCPU, millicpu * 10 ^ 6), (ResourceMemory, mem * 10 ^ 9)]\<rparr>\<rparr>],
      Phase = [], StartTime = None, ContainerStatuses = [], DeletionTimestamp = None, RestartPolicy = [], pod_Volumes = [], pod_NodeName = [],
      pod_UID = [], pod_Priority = None, NominatedNodeName = []\<rparr>"

definition priceStabilizationPod :: ca_Pod where
  "priceStabilizationPod = buildPod ''stabilize'' 500 (500 * MiB)"

text \<open>
  What the strategy asks the cloud provider. A price comes with an error that may be nil; the price
  of the stabilisation pod is used also when there is an error.
\<close>

record pricing_model =
  NodePrice :: "ca_Node \<Rightarrow> time \<Rightarrow> time \<Rightarrow> float64 \<times> go_error option"
  PodPrice :: "ca_Pod \<Rightarrow> time \<Rightarrow> time \<Rightarrow> float64 \<times> go_error option"

record 'g priceBased =
  pb_Id :: "'g \<Rightarrow> string"
  pb_Exist :: "'g \<Rightarrow> bool"
  pb_GPULabel :: string
  pb_Pricing :: "pricing_model result"
  preferredNodeProvider :: "ca_Node result"
  nodeUnfitness :: "ca_Node \<Rightarrow> ca_Node \<Rightarrow> xfloat"

definition notExistCoeficient :: float64 where "notExistCoeficient = 2"
definition gpuUnfitnessOverride :: float64 where "gpuUnfitnessOverride = 1000"

fun pods_price :: "pricing_model \<Rightarrow> time \<Rightarrow> time \<Rightarrow> ca_Pod list \<Rightarrow> float64 \<Rightarrow> float64 option" where
  "pods_price pm now in_an_hour [] totalPodPrice = Some totalPodPrice"
| "pods_price pm now in_an_hour (pod # pods) totalPodPrice =
     (let (podPrice, err) = PodPrice pm pod now in_an_hour
      in if err \<noteq> None then None else pods_price pm now in_an_hour pods (totalPodPrice + podPrice))"

definition suppressed_unfitness :: "'g priceBased \<Rightarrow> ca_Node \<Rightarrow> ca_Node \<Rightarrow> int \<Rightarrow> xfloat" where
  "suppressed_unfitness p preferredNode node nodeCount =
     (if NodeHasGpu (pb_GPULabel p) node then Fin gpuUnfitnessOverride
      else xadd (xmul (xadd (nodeUnfitness p preferredNode node) (Fin (-1))) (Fin (1 - tanh (of_int (nodeCount - 1) / 15)))) (Fin 1))"

definition price_score :: "'g priceBased \<Rightarrow> pricing_model \<Rightarrow> ca_Node \<Rightarrow> float64 \<Rightarrow> time \<Rightarrow> time \<Rightarrow> template_nodes \<Rightarrow> 'g Option \<Rightarrow> xfloat option" where
  "price_score p pm preferredNode stabilizationPrice now in_an_hour nodeInfos option =
     (case map_of nodeInfos (pb_Id p (opt_NodeGroup option)) of
        None \<Rightarrow> None
      | Some node \<Rightarrow>
          (let (nodePrice, err) = NodePrice pm node now in_an_hour in
           if err \<noteq> None then None
           else (case pods_price pm now in_an_hour (opt_Pods option) 0 of
                   None \<Rightarrow> None
                 | Some totalPodPrice \<Rightarrow>
                     (let totalNodePrice = nodePrice * of_int (opt_NodeCount option);
                          priceSubScore = xdiv (Fin (totalNodePrice + stabilizationPrice)) (Fin (totalPodPrice + stabilizationPrice));
                          optionScore = xmul (suppressed_unfitness p preferredNode node (opt_NodeCount option)) priceSubScore
                      in Some (if pb_Exist p (opt_NodeGroup option) then optionScore else xmul optionScore (Fin notExistCoeficient))))))"

definition price_step ::
    "('g Option \<Rightarrow> xfloat option) \<Rightarrow> ('g Option \<Rightarrow> string) \<Rightarrow> 'g Option option \<times> xfloat \<Rightarrow> 'g Option \<Rightarrow> 'g Option option \<times> xfloat" where
  "price_step score_of debug acc option =
     (case score_of option of
        None \<Rightarrow> acc
      | Some optionScore \<Rightarrow>
          (let (bestOption, bestOptionScore) = acc in
           if bestOption = None \<or> xless optionScore bestOptionScore
           then (Some (option\<lparr>opt_Debug := opt_Debug option @ '' | price-expander: '' @ debug option\<rparr>), optionScore)
           else acc))"

text \<open>The strategy goes on without a pricing model when the provider has none, and dereferences nil.\<close>

definition price_BestOption :: "'g priceBased \<Rightarrow> ('g Option \<Rightarrow> string) \<Rightarrow> time \<Rightarrow> 'g Option list \<Rightarrow> template_nodes \<Rightarrow> 'g Option option result" where
  "price_BestOption p debug now options nodeInfos =
     (let in_an_hour = time_Add now hour;
          preferredNode = (case preferredNodeProvider p of Inr node \<Rightarrow> node | Inl _ \<Rightarrow> defaultPreferredNode)
      in (case pb_Pricing p of
            Inl _ \<Rightarrow> Inl (Panic ''invalid memory address or nil pointer dereference'')
          | Inr pm \<Rightarrow>
              (let (stabilizationPrice, err) = PodPrice pm priceStabilizationPod now in_an_hour
               in Inr (fst (foldl (price_step (price_score p pm preferredNode stabilizationPrice now in_an_hour nodeInfos) debug) (None, Fin 0) options)))))"

section \<open>Most pods, least waste and price are optimal\<close>

definition most_inv :: "'g Option list \<Rightarrow> nat \<times> 'g Option list \<Rightarrow> bool" where
  "most_inv xs acc \<longleftrightarrow>
     (\<forall>x \<in> set xs. length (opt_Pods x) \<le> fst acc) \<and> snd acc = filter (\<lambda>x. length (opt_Pods x) = fst acc) xs \<and>
     (if xs = [] then fst acc = 0 else snd acc \<noteq> [])"

lemma most_step_inv: "most_inv xs acc \<Longrightarrow> most_inv (xs @ [x]) (most_step acc x)"
  unfolding most_inv_def most_step_def Let_def case_prod_beta
  by (cases "length (opt_Pods x)" "fst acc" rule: linorder_cases) (auto simp: filter_empty_conv split: if_splits)

lemma foldl_snoc_inv:
  assumes "I [] a" "\<And>xs acc x. P x \<Longrightarrow> I xs acc \<Longrightarrow> I (xs @ [x]) (f acc x)"
  shows "\<forall>y \<in> set ys. P y \<Longrightarrow> I ys (foldl f a ys)"
  by (induction ys rule: rev_induct) (simp_all add: assms)

lemma mostpods_options: "most_inv options (foldl most_step (0, []) options)"
  by (rule foldl_snoc_inv [where P = "\<lambda>_. True"]) (simp_all add: most_step_inv, simp add: most_inv_def)

text \<open>Scores of options, when there is one, are ordinary numbers.\<close>

definition finite_score :: "('g Option \<Rightarrow> xfloat option) \<Rightarrow> 'g Option \<Rightarrow> bool" where
  "finite_score score_of x \<longleftrightarrow> (\<forall>y. score_of x = Some y \<longrightarrow> (\<exists>v. y = Fin v))"

definition least_score :: "('g Option \<Rightarrow> xfloat option) \<Rightarrow> 'g Option list \<Rightarrow> float64 \<Rightarrow> bool" where
  "least_score score_of xs v \<longleftrightarrow> (\<forall>x \<in> set xs. \<forall>w. score_of x = Some (Fin w) \<longrightarrow> v \<le> w)"

definition waste_inv :: "('g Option \<Rightarrow> xfloat option) \<Rightarrow> 'g Option list \<Rightarrow> xfloat \<times> 'g Option list \<Rightarrow> bool" where
  "waste_inv score_of xs acc \<longleftrightarrow>
     (if snd acc = [] then fst acc = Fin 0 \<and> (\<forall>x \<in> set xs. score_of x = None)
      else \<exists>v. fst acc = Fin v \<and> snd acc = filter (\<lambda>x. score_of x = Some (Fin v)) xs \<and> least_score score_of xs v)"

lemma waste_step_inv:
  assumes "finite_score (waste_score gid nodeInfo) x" "waste_inv (waste_score gid nodeInfo) xs acc"
  shows "waste_inv (waste_score gid nodeInfo) (xs @ [x]) (waste_step gid nodeInfo acc x)"
proof (cases "waste_score gid nodeInfo x")
  case None
  then show ?thesis using assms(2) by (auto simp: waste_step_def waste_inv_def least_score_def)
next
  case (Some y)
  then obtain w where w: "waste_score gid nodeInfo x = Some (Fin w)" using assms(1) by (auto simp: finite_score_def)
  show ?thesis
  proof (cases "snd acc = []")
    case True
    then show ?thesis using assms(2) w
      by (auto simp: waste_step_def waste_inv_def least_score_def Let_def case_prod_beta xeq_def filter_empty_conv)
  next
    case False
    then obtain v where v: "fst acc = Fin v" "snd acc = filter (\<lambda>x. waste_score gid nodeInfo x = Some (Fin v)) xs"
        "least_score (waste_score gid nodeInfo) xs v"
      using assms(2) by (auto simp: waste_inv_def)
    show ?thesis using w v False
      by (cases w v rule: linorder_cases)
        (auto simp: waste_step_def waste_inv_def least_score_def Let_def case_prod_beta xeq_def filter_empty_conv)
  qed
qed

lemma leastwaste_options:
  "\<forall>x \<in> set options. finite_score (waste_score gid nodeInfo) x \<Longrightarrow>
   waste_inv (waste_score gid nodeInfo) options (foldl (waste_step gid nodeInfo) (Fin 0, []) options)"
  by (rule foldl_snoc_inv [where P = "finite_score (waste_score gid nodeInfo)"]) (simp add: waste_inv_def, rule waste_step_inv)

definition price_inv ::
    "('g Option \<Rightarrow> xfloat option) \<Rightarrow> ('g Option \<Rightarrow> string) \<Rightarrow> 'g Option list \<Rightarrow> 'g Option option \<times> xfloat \<Rightarrow> bool" where
  "price_inv score_of debug xs acc \<longleftrightarrow>
     (case fst acc of
        None \<Rightarrow> \<forall>x \<in> set xs. score_of x = None
      | Some best \<Rightarrow> \<exists>x \<in> set xs. \<exists>v. score_of x = Some (Fin v) \<and> snd acc = Fin v \<and> least_score score_of xs v \<and>
          best = x\<lparr>opt_Debug := opt_Debug x @ '' | price-expander: '' @ debug x\<rparr>)"

lemma price_step_inv:
  assumes "finite_score score_of x" "price_inv score_of debug xs acc"
  shows "price_inv score_of debug (xs @ [x]) (price_step score_of debug acc x)"
proof (cases "score_of x")
  case None
  then show ?thesis using assms(2) by (auto simp: price_step_def price_inv_def least_score_def split: option.splits)
next
  case (Some y)
  then obtain w where w: "score_of x = Some (Fin w)" using assms(1) by (auto simp: finite_score_def)
  show ?thesis
  proof (cases "fst acc")
    case None
    then show ?thesis using assms(2) w by (auto simp: price_step_def price_inv_def least_score_def case_prod_beta)
  next
    case (Some best)
    then obtain x0 v where v: "x0 \<in> set xs" "score_of x0 = Some (Fin v)" "snd acc = Fin v" "least_score score_of xs v"
        "best = x0\<lparr>opt_Debug := opt_Debug x0 @ '' | price-expander: '' @ debug x0\<rparr>"
      using assms(2) by (auto simp: price_inv_def)
    show ?thesis
    proof (cases "w < v")
      case True
      then have "least_score score_of (xs @ [x]) w" using v(4) w by (fastforce simp: least_score_def)
      then show ?thesis using True w v Some by (auto simp: price_step_def price_inv_def case_prod_beta)
    next
      case False
      then have "least_score score_of (xs @ [x]) v" using v(4) w by (fastforce simp: least_score_def)
      then show ?thesis using False w v Some unfolding price_step_def price_inv_def case_prod_beta by (auto intro!: bexI [of _ x0])
    qed
  qed
qed

lemma price_options:
  "\<forall>x \<in> set options. finite_score score_of x \<Longrightarrow> price_inv score_of debug options (foldl (price_step score_of debug) (None, Fin 0) options)"
  by (rule foldl_snoc_inv [where P = "finite_score score_of"]) (simp add: price_inv_def, rule price_step_inv)

context fallback_strategy
begin

lemma mostpods_best:
  "mostpods_BestOption fallback options nodeInfo = None \<longleftrightarrow> options = []"
  "mostpods_BestOption fallback options nodeInfo = Some best \<Longrightarrow>
     best \<in> set options \<and> (\<forall>x \<in> set options. length (opt_Pods x) \<le> length (opt_Pods best))"
  using mostpods_options [of options] fallback_Some
  by (auto simp: most_inv_def mostpods_BestOption_def Let_def split: if_splits) fastforce+

lemma leastwaste_best:
  assumes "\<forall>x \<in> set options. finite_score (waste_score gid nodeInfo) x"
  shows "leastwaste_BestOption gid fallback options nodeInfo = None \<longleftrightarrow> (\<forall>x \<in> set options. waste_score gid nodeInfo x = None)"
    and "leastwaste_BestOption gid fallback options nodeInfo = Some best \<Longrightarrow>
      best \<in> set options \<and> (\<exists>v. waste_score gid nodeInfo best = Some (Fin v) \<and> least_score (waste_score gid nodeInfo) options v)"
  using leastwaste_options [OF assms]
  by (auto simp: waste_inv_def leastwaste_BestOption_def Let_def filter_empty_conv dest: fallback_Some split: if_splits) blast

end

section \<open>The highest priority wins\<close>

text \<open>A group has a priority when an expression of that priority matches its name.\<close>

definition has_priority :: "'re config_rules \<Rightarrow> ('g \<Rightarrow> string) \<Rightarrow> 're priorities \<Rightarrow> 'g Option \<Rightarrow> int \<Rightarrow> bool" where
  "has_priority cr gid priorities option prio \<longleftrightarrow>
     (\<exists>res. (prio, res) \<in> set priorities \<and> groupIDMatchesList cr (gid (opt_NodeGroup option)) res)"

text \<open>The loop over the priorities, for one option: whether the group is found, and the new maximum.\<close>

lemma prio_loop:
  assumes "distinct (map fst priorities)" "foldl (prio_step cr (gid (opt_NodeGroup option)) option) (m, best, False) priorities = (m', best', found)"
  shows "if found then m \<le> m' \<and> has_priority cr gid priorities option m' \<and> (\<forall>p. has_priority cr gid priorities option p \<longrightarrow> p \<le> m') \<and>
             best' = (if m < m' then [option] else best @ [option])
         else m' = m \<and> best' = best \<and> (\<forall>p. has_priority cr gid priorities option p \<longrightarrow> p < m)"
  using assms
proof (induction priorities arbitrary: m' best' found rule: rev_induct)
  case (snoc e ps)
  obtain m1 b1 f1 where f: "foldl (prio_step cr (gid (opt_NodeGroup option)) option) (m, best, False) ps = (m1, b1, f1)"
    by (cases "foldl (prio_step cr (gid (opt_NodeGroup option)) option) (m, best, False) ps") auto
  obtain prio res where e: "e = (prio, res)" by (cases e)
  have new: "\<not> has_priority cr gid ps option prio" using snoc.prems(1) unfolding has_priority_def e by force
  have has: "has_priority cr gid (ps @ [e]) option p \<longleftrightarrow>
      has_priority cr gid ps option p \<or> p = prio \<and> groupIDMatchesList cr (gid (opt_NodeGroup option)) res" for p
    unfolding has_priority_def e by auto
  have step: "prio_step cr (gid (opt_NodeGroup option)) option (m1, b1, f1) (prio, res) = (m', best', found)"
    using snoc.prems(2) f e by simp
  note IH = snoc.IH [OF _ f]
  have d: "distinct (map fst ps)" using snoc.prems(1) by simp
  show ?case
  proof (cases "prio < m1 \<or> \<not> groupIDMatchesList cr (gid (opt_NodeGroup option)) res")
    case True
    then have "(m', best', found) = (m1, b1, f1)" using step by (auto simp: prio_step_def split: if_splits)
    then show ?thesis using IH [OF d] True unfolding has by (auto split: if_splits)
  next
    case False
    then have r: "found" "m' = (if prio > m1 then prio else m1)" "best' = (if prio > m1 then [] else b1) @ [option]"
      using step by (auto simp: prio_step_def split: if_splits)
    have "f1 \<Longrightarrow> prio \<noteq> m1" using IH [OF d] new by auto
    then show ?thesis using IH [OF d] False r unfolding has by (fastforce split: if_splits)
  qed
qed (simp add: has_priority_def)

definition rate_inv :: "'re config_rules \<Rightarrow> ('g \<Rightarrow> string) \<Rightarrow> 're priorities \<Rightarrow> 'g Option list \<Rightarrow> (int \<times> 'g Option list) \<times> priority \<Rightarrow> bool" where
  "rate_inv cr gid priorities xs acc \<longleftrightarrow>
     (let m = fst (fst acc); best = snd (fst acc) in
      -1 \<le> m \<and> best = filter (\<lambda>x. has_priority cr gid priorities x m) xs \<and>
      (\<forall>x \<in> set xs. \<forall>p. has_priority cr gid priorities x p \<longrightarrow> p \<le> m) \<and> (best = [] \<longrightarrow> m = -1))"

lemma rate_option_inv:
  assumes "distinct (map fst priorities)" "rate_inv cr gid priorities xs acc"
  shows "rate_inv cr gid priorities (xs @ [x]) (rate_option cr gid priorities acc x)"
proof -
  obtain m best p where acc: "acc = ((m, best), p)" by (metis surj_pair)
  obtain m' best' found where f: "foldl (prio_step cr (gid (opt_NodeGroup x)) x) (m, best, False) priorities = (m', best', found)"
    by (metis surj_pair)
  have r: "fst (rate_option cr gid priorities acc x) = (m', best')" by (simp add: rate_option_def acc f)
  note loop = prio_loop [where gid = gid and option = x, OF assms(1) f]
  have inv: "-1 \<le> m" "best = filter (\<lambda>x. has_priority cr gid priorities x m) xs" "best = [] \<longrightarrow> m = -1"
      "\<And>z p. z \<in> set xs \<Longrightarrow> has_priority cr gid priorities z p \<Longrightarrow> p \<le> m"
    using assms(2) unfolding rate_inv_def acc Let_def fst_conv snd_conv by blast+
  have goal: "rate_inv cr gid priorities (xs @ [x]) (rate_option cr gid priorities acc x)" if "-1 \<le> m'" "best' = filter (\<lambda>x. has_priority cr gid priorities x m') (xs @ [x])" "best' = [] \<longrightarrow> m' = -1" "m \<le> m'"
      "\<And>p. has_priority cr gid priorities x p \<Longrightarrow> p \<le> m'"
    unfolding rate_inv_def r Let_def fst_conv snd_conv using that(1-3,5) order_trans [OF inv(4) that(4)]
    by (simp only: set_append list.set Un_iff insert_iff empty_iff) blast
  show ?thesis
  proof (cases "found \<and> m < m'")
    case True
    then have "filter (\<lambda>x. has_priority cr gid priorities x m') xs = []" using inv(4) by (fastforce simp: filter_empty_conv)
    then show ?thesis using True loop inv(1) by (intro goal) auto
  next
    case False
    have eq: "m' = m" using loop False by (cases found) simp_all
    have best': "best' = filter (\<lambda>x. has_priority cr gid priorities x m') (xs @ [x])"
    proof (cases found)
      case True
      then have "has_priority cr gid priorities x m" "best' = best @ [x]" using loop eq by simp_all
      then show ?thesis using inv(2) eq by simp
    next
      case False
      then have "\<not> has_priority cr gid priorities x m" "best' = best" using loop by auto
      then show ?thesis using inv(2) eq by simp
    qed
    have "best' = [] \<longrightarrow> best = []" using loop eq by (cases found) simp_all
    then have 3: "best' = [] \<longrightarrow> m' = -1" using inv(3) unfolding eq by blast
    have 5: "p \<le> m'" if "has_priority cr gid priorities x p" for p
      using loop eq that by (cases found) (simp_all add: order_less_imp_le)
    show ?thesis by (rule goal [OF _ best' 3 _ 5]) (simp_all add: eq inv(1))
  qed
qed

lemma rate_options:
  assumes "distinct (map fst priorities)"
  shows "rate_inv cr gid priorities options (foldl (rate_option cr gid priorities) ((-1, []), p) options)"
  by (rule foldl_snoc_inv [where P = "\<lambda>_. True"]) (simp_all add: rate_option_inv [OF assms], simp add: rate_inv_def)

lemma rated_best:
  assumes "distinct (map fst priorities)" "foldl (rate_option cr gid priorities) ((-1, []), p) options = ((m, best), p')"
  shows "-1 \<le> m" "set best = {x \<in> set options. has_priority cr gid priorities x m}"
    "\<And>x q. x \<in> set options \<Longrightarrow> has_priority cr gid priorities x q \<Longrightarrow> q \<le> m"
    "\<And>x q. best = [] \<Longrightarrow> x \<in> set options \<Longrightarrow> has_priority cr gid priorities x q \<Longrightarrow> q < -1"
proof -
  have inv: "-1 \<le> m" "best = filter (\<lambda>x. has_priority cr gid priorities x m) options"
      "\<forall>x \<in> set options. \<forall>q. has_priority cr gid priorities x q \<longrightarrow> q \<le> m" "best = [] \<longrightarrow> m = -1"
    using rate_options [OF assms(1), of cr gid options p] unfolding assms(2) rate_inv_def Let_def fst_conv snd_conv by blast+
  show "-1 \<le> m" "set best = {x \<in> set options. has_priority cr gid priorities x m}" using inv(1,2) by auto
  show le: "\<And>x q. x \<in> set options \<Longrightarrow> has_priority cr gid priorities x q \<Longrightarrow> q \<le> m" using inv(3) by blast
  fix x q assume b: "best = []" and x: "x \<in> set options" "has_priority cr gid priorities x q"
  have m: "m = -1" using inv(4) b by blast
  have "x \<notin> set best" using b by simp
  then have "q \<noteq> m" using x inv(2) by auto
  then show "q < -1" using le [OF x] m by linarith
qed

lemma compile_config_keys: "compile_config cr config = Inr ps \<Longrightarrow> set (map fst ps) \<subseteq> set (map fst config) \<and>
    (distinct (map fst config) \<longrightarrow> distinct (map fst ps))"
proof (induction cr config arbitrary: ps rule: compile_config.induct)
  case (2 cr prio reList config)
  then show ?case by (fastforce split: if_splits)
qed simp

text \<open>Decoding YAML gives a Go map.\<close>

definition yaml_ok :: "'re config_rules \<Rightarrow> bool" where
  "yaml_ok cr \<longleftrightarrow> (\<forall>y config. yaml_Unmarshal cr y = Inr config \<longrightarrow> distinct (map fst config))"

lemma reloadConfigMap_ok:
  assumes "reloadConfigMap cr p = (Inr priorities, p1)" "yaml_ok cr"
  shows "distinct (map fst priorities)"
proof -
  obtain y config where "yaml_Unmarshal cr y = Inr config" "compile_config cr config = Inr priorities"
    using assms(1) by (auto simp: reloadConfigMap_def parsePrioritiesYAMLString_def split: sum.splits option.splits if_splits)
  then show ?thesis using assms(2) compile_config_keys unfolding yaml_ok_def by blast
qed

section \<open>Properties\<close>

text \<open>
  The most-pods strategy chooses an option, whatever the random draw, exactly when there is one,
  and no option places more pods than the one it chooses.
\<close>

theorem mostpods_BestOption_correct:
  "case mostpods_BestOption (random_BestOption draw) options nodeInfo of
     None \<Rightarrow> options = []
   | Some best \<Rightarrow> best \<in> set options \<and> list_all (\<lambda>x. length (opt_Pods x) \<le> length (opt_Pods best)) options"
  using random_fallback.mostpods_best [of draw options nodeInfo] by (auto simp: list_all_iff split: option.splits)

text \<open>
  The least-waste strategy, for templates with CPU and memory: it chooses an option exactly when some
  group has a template node, and the share of CPU and memory that the chosen option leaves idle is
  minimal among those options.
\<close>

theorem leastwaste_BestOption_correct:
  assumes "\<And>x node. x \<in> set options \<Longrightarrow> map_of nodeInfo (gid (opt_NodeGroup x)) = Some node \<Longrightarrow>
      wrap64 (q_MilliValue (lookup_default 0 (node_Capacity node) ResourceCPU) * opt_NodeCount x) \<noteq> 0 \<and>
      wrap64 (q_Value (lookup_default 0 (node_Capacity node) ResourceMemory) * opt_NodeCount x) \<noteq> 0"
  shows "case leastwaste_BestOption gid (random_BestOption draw) options nodeInfo of
      None \<Rightarrow> \<forall>x \<in> set options. map_of nodeInfo (gid (opt_NodeGroup x)) = None
    | Some best \<Rightarrow> best \<in> set options \<and> (\<exists>v. waste_score gid nodeInfo best = Some (Fin v) \<and>
        (\<forall>x \<in> set options. \<forall>w. waste_score gid nodeInfo x = Some (Fin w) \<longrightarrow> v \<le> w))"
proof -
  have fin: "\<forall>x \<in> set options. finite_score (waste_score gid nodeInfo) x"
    using assms by (auto simp: finite_score_def waste_score_def wasted_def resourcesForNode_def Let_def case_prod_beta split: option.splits)
  have none: "waste_score gid nodeInfo x = None \<longleftrightarrow> map_of nodeInfo (gid (opt_NodeGroup x)) = None" for x
    by (simp add: waste_score_def case_prod_beta Let_def split: option.splits)
  show ?thesis using random_fallback.leastwaste_best [OF fin, of draw] unfolding none least_score_def by (auto split: option.splits)
qed

text \<open>
  A template without a resource of which the pods of its option request nothing has the score NaN.
  When it is the first option, the least-waste strategy chooses it, however little others waste.
\<close>

theorem leastwaste_NaN_hides_options:
  assumes "waste_score gid nodeInfo x = Some NaN"
  shows "leastwaste_BestOption gid (random_BestOption draw) (x # options) nodeInfo = Some x"
proof -
  have "foldl (waste_step gid nodeInfo) (NaN, [x]) options = (NaN, [x])"
    by (induction options) (auto simp: waste_step_def xeq_def Let_def split: option.splits)
  moreover have "waste_step gid nodeInfo (Fin 0, []) x = (NaN, [x])" using assms by (simp add: waste_step_def xeq_def)
  ultimately show ?thesis by (simp add: leastwaste_BestOption_def random_BestOption_def)
qed

text \<open>
  C17. The priority strategy, with a configuration that can be read: it chooses one of the options. The
  group of the chosen option has a priority of at least -1 that no priority of an option exceeds,
  or no group has such a priority and the choice is left to the fallback. The order in which the
  priorities are visited is of no importance.
\<close>

theorem priority_BestOption_correct:
  assumes "options \<noteq> []" "reloadConfigMap cr p = (Inr priorities, p1)"
    "yaml_ok cr"
  shows "\<exists>best \<in> set options. fst (priority_BestOption cr gid (random_BestOption draw) options nodeInfo p) = Some best \<and>
    ((\<exists>m \<ge> -1. has_priority cr gid priorities best m \<and> (\<forall>x \<in> set options. \<forall>q. has_priority cr gid priorities x q \<longrightarrow> q \<le> m)) \<or>
     (\<forall>x \<in> set options. \<forall>q. has_priority cr gid priorities x q \<longrightarrow> q < -1))"
proof -
  obtain m best p2 where f: "foldl (rate_option cr gid priorities) ((-1, []), p1) options = ((m, best), p2)" by (metis surj_pair)
  note inv = rated_best [OF reloadConfigMap_ok [OF assms(2,3)] f]
  let ?chosen = "if best = [] then options else best"
  have choice: "fst (priority_BestOption cr gid (random_BestOption draw) options nodeInfo p) = random_BestOption draw ?chosen nodeInfo"
    using assms(1,2) f by (simp add: priority_BestOption_def)
  have "?chosen \<noteq> []" using assms(1) by simp
  then obtain x where x: "x \<in> set ?chosen" "random_BestOption draw ?chosen nodeInfo = Some x"
    using random_fallback.fallback_member by blast
  show ?thesis
  proof (cases "best = []")
    case True
    then show ?thesis unfolding choice using x inv(4) by auto
  next
    case False
    then have "x \<in> set options" "has_priority cr gid priorities x m" using x(1) inv(2) by auto
    then show ?thesis unfolding choice x(2) using inv(1,3) by blast
  qed
qed

text \<open>
  A group whose priority is lower than that of an earlier option is reported as missing from the
  configuration, and the configuration counts as bad, although the group is configured.
\<close>

theorem lower_priority_reported_missing:
  assumes "reloadConfigMap cr p = (Inr priorities, p1)"
    "yaml_ok cr"
    "has_priority cr gid priorities x m" "-1 \<le> m" "has_priority cr gid priorities y n" "n < m"
    "\<And>q. has_priority cr gid priorities y q \<Longrightarrow> q < m"
  shows "badConfigUpdates (snd (priority_BestOption cr gid fallback [x, y] nodeInfo p)) = Suc (badConfigUpdates p1)"
proof -
  note d = reloadConfigMap_ok [OF assms(1,2)]
  obtain m1 b1 f1 where f: "foldl (prio_step cr (gid (opt_NodeGroup x)) x) (-1, [], False) priorities = (m1, b1, f1)" by (metis surj_pair)
  obtain m2 b2 f2 where g: "foldl (prio_step cr (gid (opt_NodeGroup y)) y) (m1, b1, False) priorities = (m2, b2, f2)" by (metis surj_pair)
  note lx = prio_loop [where gid = gid and option = x, OF d f] and ly = prio_loop [where gid = gid and option = y, OF d g]
  have x: "f1" "m \<le> m1" "b1 = [x]" using lx assms(3,4) by (fastforce split: if_splits)+
  have y: "\<not> f2" "b2 = b1" using ly assms(7) x(2) by (fastforce split: if_splits)+
  show ?thesis using assms(1) x y f g
    by (simp add: priority_BestOption_def rate_option_def logConfigWarning_def)
qed

text \<open>
  The price strategy, for a provider with prices whose scores are numbers: it chooses an option exactly
  when one can be priced, the chosen option is one of them up to its debug text, and its score is
  minimal. Without a pricing model the strategy panics.
\<close>

theorem price_BestOption_correct:
  assumes "pb_Pricing p = Inr pm"
    "score_of = price_score p pm (case preferredNodeProvider p of Inr node \<Rightarrow> node | Inl _ \<Rightarrow> defaultPreferredNode)
       (fst (PodPrice pm priceStabilizationPod now (time_Add now hour))) now (time_Add now hour) nodeInfos"
    "\<And>x y. x \<in> set options \<Longrightarrow> score_of x = Some y \<Longrightarrow> \<exists>v. y = Fin v"
  shows "case price_BestOption p debug now options nodeInfos of
      Inl _ \<Rightarrow> False
    | Inr None \<Rightarrow> \<forall>x \<in> set options. score_of x = None
    | Inr (Some best) \<Rightarrow> \<exists>x \<in> set options. opt_NodeGroup best = opt_NodeGroup x \<and> opt_NodeCount best = opt_NodeCount x \<and>
        opt_Pods best = opt_Pods x \<and> (\<exists>v. score_of x = Some (Fin v) \<and> (\<forall>z \<in> set options. \<forall>w. score_of z = Some (Fin w) \<longrightarrow> v \<le> w))"
proof -
  have "\<forall>x \<in> set options. finite_score score_of x" using assms(3) by (auto simp: finite_score_def)
  from price_options [OF this, of debug] show ?thesis unfolding price_BestOption_def assms(1) price_inv_def least_score_def
    by (auto simp: Let_def case_prod_beta assms(2) split: option.splits)
qed

theorem price_BestOption_panics_without_prices:
  assumes "pb_Pricing p = Inl e"
  shows "\<exists>msg. price_BestOption p debug now options nodeInfos = Inl (Panic msg)"
  using assms by (simp add: price_BestOption_def)

section \<open>Concrete instances\<close>

definition option_of :: "string \<Rightarrow> string Option" where
  "option_of g = \<lparr>opt_NodeGroup = g, opt_NodeCount = 1, opt_Debug = [], opt_Pods = []\<rparr>"

definition plain_rules :: "string config_rules" where
  "plain_rules = \<lparr>configMapLister = (\<lambda>_. Inr [(ConfigMapKey, ''y'')]), yaml_Unmarshal = (\<lambda>_. Inr [(10, [''a'']), (5, [''b''])]),
     regexp_Compile = Inr, FindStringIndex = (\<lambda>re i. if re = i then Some (0, length re) else None)\<rparr>"

definition flat_prices :: pricing_model where
  "flat_prices = \<lparr>NodePrice = (\<lambda>_ _ _. (1, None)), PodPrice = (\<lambda>_ _ _. (1, None))\<rparr>"

definition flat_strategy :: "string priceBased" where
  "flat_strategy = \<lparr>pb_Id = (\<lambda>g. g), pb_Exist = (\<lambda>g. True), pb_GPULabel = ''gpu'', pb_Pricing = Inr flat_prices,
     preferredNodeProvider = preferred_Node (Inr 3), nodeUnfitness = (\<lambda>_ _. Fin 1)\<rparr>"

lemma buildNode_capacity:
  "lookup_default 0 (node_Capacity (buildNode c m)) ResourceCPU = c * 10 ^ 6"
  "lookup_default 0 (node_Capacity (buildNode c m)) ResourceMemory = m * 10 ^ 9"
  by (simp_all add: buildNode_def lookup_default_def ResourceCPU_def ResourceMemory_def Let_def)

lemma plain_rules_ok: "yaml_ok plain_rules"
  by (simp add: yaml_ok_def plain_rules_def)

lemma plain_rules_load: "reloadConfigMap plain_rules p = (Inr [(10, [''a'']), (5, [''b''])], p\<lparr>okConfigUpdates := Suc (okConfigUpdates p)\<rparr>)"
  by (simp add: reloadConfigMap_def parsePrioritiesYAMLString_def plain_rules_def)

lemma plain_priority:
  "has_priority plain_rules (\<lambda>g. g) [(10, [''a'']), (5, [''b''])] (option_of g) q \<longleftrightarrow> q = 10 \<and> g = ''a'' \<or> q = 5 \<and> g = ''b''"
  by (auto simp: has_priority_def groupIDMatchesList_def plain_rules_def option_of_def)

theorem leastwaste_BestOption_correct_witness:
  "case leastwaste_BestOption (\<lambda>g. g) (random_BestOption 3) [option_of ''a'', option_of ''b''] [(''a'', buildNode 1000 4)] of
     None \<Rightarrow> \<forall>x \<in> set [option_of ''a'', option_of ''b'']. map_of [(''a'', buildNode 1000 4)] (opt_NodeGroup x) = None
   | Some best \<Rightarrow> best \<in> set [option_of ''a'', option_of ''b''] \<and>
       (\<exists>v. waste_score (\<lambda>g. g) [(''a'', buildNode 1000 4)] best = Some (Fin v) \<and>
          (\<forall>x \<in> set [option_of ''a'', option_of ''b'']. \<forall>w. waste_score (\<lambda>g. g) [(''a'', buildNode 1000 4)] x = Some (Fin w) \<longrightarrow> v \<le> w))"
  by (rule leastwaste_BestOption_correct)
    (auto simp: option_of_def buildNode_capacity q_MilliValue_def q_Value_def div_away_def wrap64_def split: if_splits)

theorem leastwaste_NaN_hides_options_witness:
  "waste_score (\<lambda>g. g) [(''a'', buildNode 0 0), (''b'', buildNode 1000 4)] (option_of ''a'') = Some NaN \<and>
   leastwaste_BestOption (\<lambda>g. g) (random_BestOption 0) [option_of ''a'', option_of ''b''] [(''a'', buildNode 0 0), (''b'', buildNode 1000 4)]
     = Some (option_of ''a'')"
proof -
  have n: "waste_score (\<lambda>g. g) [(''a'', buildNode 0 0), (''b'', buildNode 1000 4)] (option_of ''a'') = Some NaN"
    by (simp add: waste_score_def wasted_def option_of_def buildNode_capacity resourcesForNode_def resourcesForPods_def
        q_MilliValue_def q_Value_def div_away_def wrap64_def)
  show ?thesis using n leastwaste_NaN_hides_options [OF n, of 0 "[option_of ''b'']"] by simp
qed

theorem priority_BestOption_correct_witness:
  "\<exists>best \<in> set [option_of ''a'', option_of ''b''].
     fst (priority_BestOption plain_rules (\<lambda>g. g) (random_BestOption 7) [option_of ''a'', option_of ''b''] [] \<lparr>okConfigUpdates = 0, badConfigUpdates = 0\<rparr>)
       = Some best \<and>
     ((\<exists>m \<ge> -1. has_priority plain_rules (\<lambda>g. g) [(10, [''a'']), (5, [''b''])] best m \<and>
        (\<forall>x \<in> set [option_of ''a'', option_of ''b'']. \<forall>q. has_priority plain_rules (\<lambda>g. g) [(10, [''a'']), (5, [''b''])] x q \<longrightarrow> q \<le> m)) \<or>
      (\<forall>x \<in> set [option_of ''a'', option_of ''b'']. \<forall>q. has_priority plain_rules (\<lambda>g. g) [(10, [''a'']), (5, [''b''])] x q \<longrightarrow> q < -1))"
  by (rule priority_BestOption_correct [OF _ plain_rules_load plain_rules_ok]) simp

theorem lower_priority_reported_missing_witness:
  "badConfigUpdates (snd (priority_BestOption plain_rules (\<lambda>g. g) (random_BestOption 0) [option_of ''a'', option_of ''b''] []
     \<lparr>okConfigUpdates = 0, badConfigUpdates = 0\<rparr>)) = 1"
  using lower_priority_reported_missing [OF plain_rules_load plain_rules_ok, of "\<lambda>g. g" "option_of ''a''" 10 "option_of ''b''" 5
      "random_BestOption 0" "[]" "\<lparr>okConfigUpdates = 0, badConfigUpdates = 0\<rparr>"]
  by (simp add: plain_priority)

theorem price_BestOption_correct_witness:
  "case price_BestOption flat_strategy (\<lambda>_. []) 0 [option_of ''a''] [(''a'', buildNode 1000 4)] of
     Inl _ \<Rightarrow> False
   | Inr None \<Rightarrow> False
   | Inr (Some best) \<Rightarrow> opt_NodeGroup best = ''a''"
proof -
  let ?score = "price_score flat_strategy flat_prices (case preferredNodeProvider flat_strategy of Inr node \<Rightarrow> node | Inl _ \<Rightarrow> defaultPreferredNode)
       (fst (PodPrice flat_prices priceStabilizationPod 0 (time_Add 0 hour))) 0 (time_Add 0 hour) [(''a'', buildNode 1000 4)]"
  have v: "\<exists>v. ?score (option_of ''a'') = Some (Fin v)"
    by (simp add: price_score_def flat_strategy_def flat_prices_def option_of_def suppressed_unfitness_def buildNode_def NodeHasGpu_def
        ResourceNvidiaGPU_def ResourceCPU_def ResourceMemory_def)
  have "pb_Pricing flat_strategy = Inr flat_prices" by (simp add: flat_strategy_def)
  note t = price_BestOption_correct [OF this refl, where now = 0 and nodeInfos = "[(''a'', buildNode 1000 4)]" and options = "[option_of ''a'']"
      and debug = "\<lambda>_. []"]
  have g: "opt_NodeGroup (option_of ''a'') = ''a''" by (simp add: option_of_def)
  show ?thesis using v t by (fastforce simp: g split: sum.splits option.splits)
qed

theorem price_BestOption_panics_without_prices_witness:
  "\<exists>msg. price_BestOption (flat_strategy\<lparr>pb_Pricing := Inl (Err ''Not implemented'')\<rparr>) (\<lambda>_. []) 0 [option_of ''a''] [] = Inl (Panic msg)"
  by (rule price_BestOption_panics_without_prices [where e = "Err ''Not implemented''"]) simp

end
