(* ===== verification/Scale_Up.thy ===== *)
theory Scale_Up
  imports Pending_Pods Scale_Up_Limits Expander Registry_Correct
begin

text \<open>
  The scale-up of the cluster autoscaler (\<open>cluster-autoscaler/core/scale_up.go\<close>): node groups that may
  grow are checked against the pending pods in a forked snapshot, the expander chooses one, its size is
  capped by the total number of nodes and by the resource limits, and the increase is balanced over
  similar groups and registered. It composes the snapshot with its predicate checker, the
  estimator, an expander, the balancing processor and the cluster state registry.

  The processors for node group lists and node group creation, the expander and the cloud provider are
  parameters. Calls that change sizes are collected, in order; \<open>su_After\<close> is what the provider reports
  after such calls, and \<open>su_Created\<close> what it reports after a group was created. Node infos of groups are templates.
  Pods are identified by their value instead of their address.
\<close>

section \<open>State and parameters\<close>

type_synonym node_infos = "(string, node_template) gomap"

record 'g CreateNodeGroupResult =
  MainCreatedNodeGroup :: 'g
  ExtraCreatedNodeGroups :: "'g list"

record 'g AutoscalingContext =
  su_now :: time
  su_CloudProvider :: "'g provider"
  su_Created :: "'g CreateNodeGroupResult \<Rightarrow> 'g provider"
  su_After :: "'g cloud_provider \<Rightarrow> ('g \<times> int) list \<Rightarrow> 'g cloud_provider"
  su_IncreaseSize :: "'g \<Rightarrow> int \<Rightarrow> go_error option"
  su_clock :: "nat \<Rightarrow> time"
  su_estimate_time :: "'g \<Rightarrow> time"
  MaxNodesTotal :: int
  BalanceSimilarNodeGroups :: bool
  su_Comparator :: "node_template \<Rightarrow> node_template \<Rightarrow> bool"
  su_SpecEqual :: spec_equality
  su_ListProcessor :: "'g list \<Rightarrow> node_infos \<Rightarrow> ca_Pod list \<Rightarrow> ('g list \<times> node_infos) result"
  su_CreateNodeGroup :: "'g \<Rightarrow> 'g CreateNodeGroupResult result"
  su_InfoFromTemplate :: "'g \<Rightarrow> node_template result"
  su_BestOption :: "'g Option list \<Rightarrow> template_nodes \<Rightarrow> 'g Option option"
  su_sort_pods :: "(podInfo \<Rightarrow> podInfo \<Rightarrow> bool) \<Rightarrow> podInfo list \<Rightarrow> podInfo list"
  su_sort_infos :: "('g ScaleUpInfo \<Rightarrow> 'g ScaleUpInfo \<Rightarrow> bool) \<Rightarrow> 'g ScaleUpInfo list \<Rightarrow> 'g ScaleUpInfo list"

text \<open>The simulated scheduler on a snapshot.\<close>

record ('i, 's, 'c) simulation =
  sim_fw :: "(ca_Node, ca_Pod, 'i) framework"
  sim_exec :: "(ca_Node, ca_Pod, 'i, 's) executor"
  sim_sch :: "(ca_Pod, 'i, 'c) scheduler"

datatype ScaleUpResult =
  ScaleUpSuccessful | ScaleUpError | ScaleUpNoOptionsAvailable | ScaleUpNotNeeded | ScaleUpNotTried | ScaleUpInCooldown

record NoScaleUpInfo =
  nsi_Pod :: ca_Pod
  RejectedNodeGroups :: "(string, Reasons) gomap"
  SkippedNodeGroups :: "(string, Reasons) gomap"

record 'g ScaleUpStatus =
  sus_Result :: ScaleUpResult
  ScaleUpInfos :: "'g ScaleUpInfo list"
  PodsTriggeredScaleUp :: "ca_Pod list"
  PodsRemainUnschedulable :: "NoScaleUpInfo list"
  PodsAwaitEvaluation :: "ca_Pod list"
  CreateNodeGroupResults :: "'g CreateNodeGroupResult list"
  ConsideredNodeGroups :: "'g list"

definition status_of :: "ScaleUpResult \<Rightarrow> 'g ScaleUpStatus" where
  "status_of r = \<lparr>sus_Result = r, ScaleUpInfos = [], PodsTriggeredScaleUp = [], PodsRemainUnschedulable = [],
     PodsAwaitEvaluation = [], CreateNodeGroupResults = [], ConsideredNodeGroups = []\<rparr>"

definition WasSuccessful :: "'g ScaleUpStatus \<Rightarrow> bool" where
  "WasSuccessful st \<longleftrightarrow> sus_Result st = ScaleUpSuccessful"

text \<open>What a scale-up returns, the sizes it asked the provider for, and the registry after it.\<close>

record 'g scale_up_outcome =
  so_status :: "'g ScaleUpStatus"
  so_error :: "go_error option"
  so_calls :: "('g \<times> int) list"
  so_registry :: "'g ClusterStateRegistry"

section \<open>One option\<close>

fun check_groups ::
    "('i, 's, 'c) simulation \<Rightarrow> string \<Rightarrow> string \<Rightarrow> podEquivalenceGroup list \<Rightarrow> 's \<Rightarrow> (podEquivalenceGroup list \<times> ca_Pod list) result \<times> 's" where
  "check_groups sim gid nodeName [] s = (Inr ([], []), s)"
| "check_groups sim gid nodeName (eg # egs) s =
     (if eg_pods eg = [] then (Inl (Panic ''index out of range''), s)
      else let (err, s1) = CheckPredicates (sim_exec sim) (sim_sch sim) (hd (eg_pods eg)) nodeName s;
               (eg', pods) = (case err of
                   None \<Rightarrow> (eg\<lparr>eg_schedulable := True\<rparr>, eg_pods eg)
                 | Some e \<Rightarrow> (eg\<lparr>schedulingErrors := AList.update gid (Rejected e) (schedulingErrors eg)\<rparr>, []));
               (r, s2) = check_groups sim gid nodeName egs s1
           in (rbind r (\<lambda>(egs', pods'). Inr (eg' # egs', pods @ pods')), s2))"

definition computeExpansionOption ::
    "'g AutoscalingContext \<Rightarrow> ('i, 's, 'c) simulation \<Rightarrow> string \<Rightarrow> podEquivalenceGroup list \<Rightarrow> 'g \<Rightarrow> node_template \<Rightarrow> 's \<Rightarrow>
     ('g Option \<times> podEquivalenceGroup list) result \<times> 's" where
  "computeExpansionOption ctx sim gid egs nodeGroup nodeInfo s =
     (let (e1, s1) = perform (sim_exec sim) Fork s in
      if e1 \<noteq> None then (Inl (Err ''Error while calling ClusterSnapshot.Fork''), s1)
      else let (e2, s2) = perform (sim_exec sim) (AddNodeWithPods (tmpl_Node nodeInfo) (tmpl_Pods nodeInfo)) s1 in
      if e2 \<noteq> None
      then (let (e3, s3) = perform (sim_exec sim) Revert s2
            in (Inl (if e3 \<noteq> None then Panic ''Error while calling ClusterSnapshot.Revert'' else Err ''Error while adding test Node''), s3))
      else case check_groups sim gid (node_Name (tmpl_Node nodeInfo)) egs s2 of
        (Inl e, s3) \<Rightarrow> (Inl e, s3)
      | (Inr (egs', pods), s3) \<Rightarrow>
          (let (e4, s4) = perform (sim_exec sim) Revert s3 in
           if e4 \<noteq> None then (Inl (Panic ''Error while calling ClusterSnapshot.Revert''), s4)
           else let option = (\<lambda>n. \<lparr>opt_NodeGroup = nodeGroup, opt_NodeCount = n, opt_Debug = [], opt_Pods = pods\<rparr>)
                in if pods = [] then (Inr (option 0, egs'), s4)
                   else let (n, s5) = Estimate (sim_fw sim) (sim_exec sim) (sim_sch sim) (su_sort_pods ctx) (su_estimate_time ctx nodeGroup) pods nodeInfo s4
                        in (rbind n (\<lambda>n. Inr (option (int n), egs')), s5)))"

section \<open>All options\<close>

definition backoffReason :: Reasons where "backoffReason = Skipped [''in backoff after failed scale-up'']"
definition maxLimitReachedReason :: Reasons where "maxLimitReachedReason = Skipped [''max node group size reached'']"
definition notReadyReason :: Reasons where "notReadyReason = Skipped [''not ready for scale-up'']"

definition maxResourceLimitReached :: "string list \<Rightarrow> Reasons" where
  "maxResourceLimitReached resources = Skipped [''max cluster '' @ join_comma resources @ '' limit reached'']"

text \<open>Why a group is skipped, or its template.\<close>

definition may_grow ::
    "'g provider \<Rightarrow> time \<Rightarrow> 'g ClusterStateRegistry \<Rightarrow> ResourceLimiter \<Rightarrow> (string, int) gomap \<Rightarrow> node_infos \<Rightarrow> 'g \<Rightarrow> Reasons + node_template" where
  "may_grow pv now csr rl left nodeInfos nodeGroup =
     (let cp = pv_cp pv; gid = ng_Id cp nodeGroup in
      if ng_Exist pv nodeGroup \<and> \<not> IsNodeGroupSafeToScaleUp cp csr nodeGroup now
      then Inl (if \<not> IsNodeGroupHealthy csr gid then notReadyReason else backoffReason)
      else case ng_TargetSize cp nodeGroup of
        Inl _ \<Rightarrow> Inl notReadyReason
      | Inr currentTargetSize \<Rightarrow>
          if currentTargetSize \<ge> ng_MaxSize cp nodeGroup then Inl maxLimitReachedReason
          else case map_of nodeInfos gid of
            None \<Rightarrow> Inl notReadyReason
          | Some nodeInfo \<Rightarrow>
              (case computeScaleUpResourcesDelta pv nodeInfo nodeGroup rl of
                 Inl _ \<Rightarrow> Inl notReadyReason
               | Inr delta \<Rightarrow>
                   (let checkResult = checkScaleUpDeltaWithinLimits left delta in
                    if exceeded checkResult then Inl (maxResourceLimitReached (exceededResources checkResult)) else Inr nodeInfo)))"

record 'g expansion =
  ex_options :: "(string, 'g Option) gomap"
  ex_groups :: "podEquivalenceGroup list"
  ex_skipped :: "(string, Reasons) gomap"

definition add_option :: "string \<Rightarrow> 'g Option \<Rightarrow> (string, 'g Option) gomap \<Rightarrow> (string, 'g Option) gomap" where
  "add_option gid option options =
     (if length (opt_Pods option) > 0 \<and> opt_NodeCount option > 0 then AList.update gid option options else options)"

fun expansion_options ::
    "'g AutoscalingContext \<Rightarrow> ('i, 's, 'c) simulation \<Rightarrow> 'g ClusterStateRegistry \<Rightarrow> ResourceLimiter \<Rightarrow> (string, int) gomap \<Rightarrow> node_infos \<Rightarrow>
     'g list \<Rightarrow> 'g expansion \<Rightarrow> 's \<Rightarrow> 'g expansion result \<times> 's" where
  "expansion_options ctx sim csr rl left nodeInfos [] ex s = (Inr ex, s)"
| "expansion_options ctx sim csr rl left nodeInfos (nodeGroup # nodeGroups) ex s =
     (let pv = su_CloudProvider ctx; gid = ng_Id (pv_cp pv) nodeGroup in
      case may_grow pv (su_now ctx) csr rl left nodeInfos nodeGroup of
        Inl reason \<Rightarrow> expansion_options ctx sim csr rl left nodeInfos nodeGroups (ex\<lparr>ex_skipped := AList.update gid reason (ex_skipped ex)\<rparr>) s
      | Inr nodeInfo \<Rightarrow>
          (case computeExpansionOption ctx sim gid (ex_groups ex) nodeGroup nodeInfo s of
             (Inl e, s1) \<Rightarrow> (Inl e, s1)
           | (Inr (option, egs), s1) \<Rightarrow>
               expansion_options ctx sim csr rl left nodeInfos nodeGroups
                 (ex\<lparr>ex_options := add_option gid option (ex_options ex), ex_groups := egs\<rparr>) s1))"

definition getRemainingPods :: "podEquivalenceGroup list \<Rightarrow> (string, Reasons) gomap \<Rightarrow> NoScaleUpInfo list" where
  "getRemainingPods egs skipped =
     concat (map (\<lambda>eg. if eg_schedulable eg then []
       else map (\<lambda>pod. \<lparr>nsi_Pod = pod, RejectedNodeGroups = schedulingErrors eg, SkippedNodeGroups = skipped\<rparr>) (eg_pods eg)) egs)"

definition getPodsAwaitingEvaluation :: "podEquivalenceGroup list \<Rightarrow> string \<Rightarrow> ca_Pod list" where
  "getPodsAwaitingEvaluation egs bestOption =
     concat (map (\<lambda>eg. if eg_schedulable eg \<and> map_of (schedulingErrors eg) bestOption \<noteq> None then eg_pods eg else []) egs)"

definition filterNodeGroupsByPods :: "('g \<Rightarrow> string) \<Rightarrow> 'g list \<Rightarrow> ca_Pod list \<Rightarrow> (string, 'g Option) gomap \<Rightarrow> 'g list" where
  "filterNodeGroupsByPods gid groups podsRequiredToFit expansionOptions =
     filter (\<lambda>g. case map_of expansionOptions (gid g) of
         None \<Rightarrow> False
       | Some option \<Rightarrow> list_all (\<lambda>pod. pod \<in> set (opt_Pods option)) podsRequiredToFit) groups"

section \<open>The execution\<close>

definition executeScaleUp ::
    "'g AutoscalingContext \<Rightarrow> 'g cloud_provider \<Rightarrow> nat \<Rightarrow> 'g ScaleUpInfo \<Rightarrow> 'g ClusterStateRegistry \<Rightarrow> go_error option \<times> 'g ClusterStateRegistry" where
  "executeScaleUp ctx cp n info csr =
     (let increase = NewSize info - CurrentSize info in
      case su_IncreaseSize ctx (Group info) increase of
        Some e \<Rightarrow> (Some (Err ''failed to increase node group size''), RegisterFailedScaleUp cp (Group info) ''cloudProviderError'' (su_now ctx) csr)
      | None \<Rightarrow> (None, RegisterOrUpdateScaleUp cp (Group info) increase (su_clock ctx n) csr))"

fun execute_plan ::
    "'g AutoscalingContext \<Rightarrow> 'g cloud_provider \<Rightarrow> 'g ScaleUpInfo list \<Rightarrow> ('g \<times> int) list \<Rightarrow> 'g ClusterStateRegistry \<Rightarrow>
     go_error option \<times> ('g \<times> int) list \<times> 'g ClusterStateRegistry" where
  "execute_plan ctx cp [] calls csr = (None, calls, csr)"
| "execute_plan ctx cp (info # infos) calls csr =
     (let (err, csr') = executeScaleUp ctx cp (length calls) info csr; calls' = calls @ [(Group info, NewSize info - CurrentSize info)]
      in if err \<noteq> None then (err, calls', csr') else execute_plan ctx cp infos calls' csr')"

text \<open>The creation of a node group that does not exist yet, with the infos and options it changes.\<close>

fun extra_groups ::
    "'g AutoscalingContext \<Rightarrow> ('i, 's, 'c) simulation \<Rightarrow> ('g \<Rightarrow> string) \<Rightarrow> 'g list \<Rightarrow> node_infos \<times> 'g expansion \<Rightarrow> 's \<Rightarrow>
     (node_infos \<times> 'g expansion) result \<times> 's" where
  "extra_groups ctx sim gid [] acc s = (Inr acc, s)"
| "extra_groups ctx sim gid (nodeGroup # nodeGroups) acc s =
     (case su_InfoFromTemplate ctx nodeGroup of
        Inl _ \<Rightarrow> extra_groups ctx sim gid nodeGroups acc s
      | Inr nodeInfo \<Rightarrow>
          (let (nodeInfos, ex) = acc; nodeInfos' = AList.update (gid nodeGroup) nodeInfo nodeInfos in
           case computeExpansionOption ctx sim (gid nodeGroup) (ex_groups ex) nodeGroup nodeInfo s of
             (Inl e, s1) \<Rightarrow> (Inl e, s1)
           | (Inr (option, egs), s1) \<Rightarrow>
               extra_groups ctx sim gid nodeGroups
                 (nodeInfos', ex\<lparr>ex_options := add_option (gid nodeGroup) option (ex_options ex), ex_groups := egs\<rparr>) s1))"

definition create_group ::
    "'g AutoscalingContext \<Rightarrow> ('i, 's, 'c) simulation \<Rightarrow> 'g \<Rightarrow> node_infos \<Rightarrow> 'g expansion \<Rightarrow> 's \<Rightarrow>
     ('g CreateNodeGroupResult \<times> node_infos \<times> 'g expansion) result \<times> 's" where
  "create_group ctx sim nodeGroup nodeInfos ex s =
     (let gid = ng_Id (pv_cp (su_CloudProvider ctx)); oldId = gid nodeGroup in
      case su_CreateNodeGroup ctx nodeGroup of
        Inl e \<Rightarrow> (Inl e, s)
      | Inr created \<Rightarrow>
          (let main = MainCreatedNodeGroup created;
               infos1 = (case su_InfoFromTemplate ctx main of
                   Inr nodeInfo \<Rightarrow> AList.update (gid main) nodeInfo nodeInfos
                 | Inl _ \<Rightarrow> (case map_of nodeInfos oldId of Some i \<Rightarrow> AList.update (gid main) i nodeInfos | None \<Rightarrow> nodeInfos));
               infos2 = (if oldId \<noteq> gid main then AList.delete oldId infos1 else infos1);
               (r, s1) = extra_groups ctx sim gid (ExtraCreatedNodeGroups created) (infos2, ex) s
           in (rbind r (\<lambda>(infos3, ex'). Inr (created, infos3, ex')), s1)))"

section \<open>The scale-up\<close>

definition cap_total_nodes :: "'g AutoscalingContext \<Rightarrow> int \<Rightarrow> int \<Rightarrow> int \<Rightarrow> int result" where
  "cap_total_nodes ctx nodeCount upcoming newNodes =
     (if MaxNodesTotal ctx > 0 \<and> nodeCount + newNodes + upcoming > MaxNodesTotal ctx
      then (let newNodes' = MaxNodesTotal ctx - nodeCount - upcoming
            in if newNodes' < 1 then Inl (Err ''max node total count already reached'') else Inr newNodes')
      else Inr newNodes)"

definition target_groups ::
    "'g AutoscalingContext \<Rightarrow> 'g provider \<Rightarrow> 'g ClusterStateRegistry \<Rightarrow> 'g Option \<Rightarrow> node_infos \<Rightarrow> (string, 'g Option) gomap \<Rightarrow> 'g list result" where
  "target_groups ctx pv csr bestOption nodeInfos options =
     (if BalanceSimilarNodeGroups ctx
      then rbind (FindSimilarNodeGroups (node_groups.truncate (pv_cp pv)) (su_Comparator ctx) (cp_NodeGroups (pv_cp pv)) (opt_NodeGroup bestOption) nodeInfos)
             (\<lambda>similar. Inr (opt_NodeGroup bestOption #
                filter (\<lambda>ng. IsNodeGroupSafeToScaleUp (pv_cp pv) csr ng (su_now ctx))
                  (filterNodeGroupsByPods (ng_Id (pv_cp pv)) similar (opt_Pods bestOption) options)))
      else Inr [opt_NodeGroup bestOption])"

text \<open>From the chosen option on, with the number of nodes after the cap: limits, balancing, execution.\<close>

definition grow ::
    "'g AutoscalingContext \<Rightarrow> 'g provider \<Rightarrow> ResourceLimiter \<Rightarrow> (string, int) gomap \<Rightarrow> 'g Option \<Rightarrow> int \<Rightarrow> node_infos \<Rightarrow> 'g expansion \<Rightarrow>
     'g CreateNodeGroupResult list \<Rightarrow> 'g list \<Rightarrow> 'g ClusterStateRegistry \<Rightarrow> 'g scale_up_outcome" where
  "grow ctx pv rl left bestOption newNodes nodeInfos ex created considered csr =
     (let cp = pv_cp pv; gid = ng_Id cp (opt_NodeGroup bestOption);
          failed = (\<lambda>e calls csr. \<lparr>so_status = (status_of ScaleUpError)\<lparr>CreateNodeGroupResults := created\<rparr>, so_error = Some e, so_calls = calls, so_registry = csr\<rparr>)
      in case map_of nodeInfos gid of
           None \<Rightarrow> failed (Err ''No node info for best expansion option!'') [] csr
         | Some nodeInfo \<Rightarrow>
             (case rbind (applyScaleUpResourcesLimits pv newNodes left nodeInfo (opt_NodeGroup bestOption) rl) (\<lambda>newNodes'.
                     rbind (target_groups ctx pv csr bestOption nodeInfos (ex_options ex)) (\<lambda>targets.
                       BalanceScaleUpBetweenGroups (su_sort_infos ctx) (node_groups.truncate cp) targets newNodes')) of
                Inl e \<Rightarrow> failed e [] csr
              | Inr infos \<Rightarrow>
                  (let (err, calls, csr1) = execute_plan ctx cp infos [] csr
                   in case err of
                        Some e \<Rightarrow> failed e calls csr1
                      | None \<Rightarrow>
                          \<lparr>so_status = \<lparr>sus_Result = ScaleUpSuccessful, ScaleUpInfos = infos, PodsTriggeredScaleUp = opt_Pods bestOption,
                             PodsRemainUnschedulable = getRemainingPods (ex_groups ex) (ex_skipped ex),
                             PodsAwaitEvaluation = getPodsAwaitingEvaluation (ex_groups ex) gid,
                             CreateNodeGroupResults = created, ConsideredNodeGroups = considered\<rparr>,
                           so_error = None, so_calls = calls, so_registry = Recalculate (su_After ctx cp calls) csr1\<rparr>)))"

definition FilterOutNodesFromNotAutoscaledGroups :: "'g cloud_provider \<Rightarrow> ca_Node list \<Rightarrow> ca_Node list result" where
  "FilterOutNodesFromNotAutoscaledGroups cp nodes =
     foldr (\<lambda>node r. case cp_NodeGroupForNode cp (Node.truncate node) of
         (_, Some e) \<Rightarrow> Inl e
       | (g, None) \<Rightarrow> rbind r (\<lambda>ns. Inr (if g = None then node # ns else ns))) nodes (Inr [])"

definition upcoming_nodes :: "'g cloud_provider \<Rightarrow> 'g ClusterStateRegistry \<Rightarrow> node_infos \<Rightarrow> node_template list result" where
  "upcoming_nodes cp csr nodeInfos =
     foldr (\<lambda>(gid, n) r. case map_of nodeInfos gid of
         None \<Rightarrow> Inl (Err ''failed to find template node for node group'')
       | Some t \<Rightarrow> rbind r (\<lambda>ts. Inr (replicate (nat n) t @ ts))) (GetUpcomingNodes cp csr) (Inr [])"

text \<open>What is computed before the groups are looked at: limits, upcoming nodes, groups and their infos.\<close>

definition scale_up_inputs ::
    "'g AutoscalingContext \<Rightarrow> ca_Pod list \<Rightarrow> ca_Node list \<Rightarrow> node_infos \<Rightarrow> 'g ClusterStateRegistry \<Rightarrow>
     (ResourceLimiter \<times> (string, int) gomap \<times> node_template list \<times> 'g list \<times> node_infos) result" where
  "scale_up_inputs ctx pods nodes nodeInfos csr =
     (let pv = su_CloudProvider ctx; cp = pv_cp pv in
      rbind (FilterOutNodesFromNotAutoscaledGroups cp nodes) (\<lambda>others.
      rbind (pv_ResourceLimiter pv) (\<lambda>rl.
      rbind (computeScaleUpResourcesLeftLimits pv (cp_NodeGroups cp) nodeInfos others rl) (\<lambda>left.
      rbind (upcoming_nodes cp csr nodeInfos) (\<lambda>upcoming.
      rbind (su_ListProcessor ctx (cp_NodeGroups cp) nodeInfos pods) (\<lambda>(groups, infos).
        Inr (rl, left, upcoming, groups, infos)))))))"

definition ScaleUp ::
    "'g AutoscalingContext \<Rightarrow> ('i, 's, 'c) simulation \<Rightarrow> ca_Pod list \<Rightarrow> ca_Node list \<Rightarrow> node_infos \<Rightarrow> 'g ClusterStateRegistry \<Rightarrow> 's \<Rightarrow>
     'g scale_up_outcome \<times> 's" where
  "ScaleUp ctx sim unschedulablePods nodes nodeInfos csr s =
     (let outcome = (\<lambda>st e csr. \<lparr>so_status = st, so_error = e, so_calls = [], so_registry = csr\<rparr>);
          failed = (\<lambda>e. outcome (status_of ScaleUpError) (Some e) csr)
      in if unschedulablePods = [] then (outcome (status_of ScaleUpNotNeeded) None csr, s)
         else case scale_up_inputs ctx unschedulablePods nodes nodeInfos csr of
           Inl e \<Rightarrow> (failed e, s)
         | Inr (rl, left, upcoming, groups, infos) \<Rightarrow>
             (let egs = buildPodEquivalenceGroups (su_SpecEqual ctx) unschedulablePods;
                  (r, s1) = expansion_options ctx sim csr rl left infos groups \<lparr>ex_options = [], ex_groups = egs, ex_skipped = []\<rparr> s
              in case r of
                   Inl e \<Rightarrow> (failed e, s1)
                 | Inr ex \<Rightarrow>
                     (let none = outcome ((status_of ScaleUpNoOptionsAvailable)\<lparr>PodsRemainUnschedulable := getRemainingPods (ex_groups ex) (ex_skipped ex),
                                            ConsideredNodeGroups := groups\<rparr>) None csr;
                          options = map snd (ex_options ex)
                      in if options = [] then (none, s1)
                         else case su_BestOption ctx options (map (\<lambda>(i, t). (i, tmpl_Node t)) infos) of
                           None \<Rightarrow> (none, s1)
                         | Some best \<Rightarrow>
                             if opt_NodeCount best \<le> 0 then (none, s1)
                             else case cap_total_nodes ctx (int (length nodes)) (int (length upcoming)) (opt_NodeCount best) of
                               Inl e \<Rightarrow> (failed e, s1)
                             | Inr newNodes \<Rightarrow>
                                 if ng_Exist (su_CloudProvider ctx) (opt_NodeGroup best)
                                 then (grow ctx (su_CloudProvider ctx) rl left best newNodes infos ex [] groups csr, s1)
                                 else case create_group ctx sim (opt_NodeGroup best) infos ex s1 of
                                   (Inl e, s2) \<Rightarrow> (failed e, s2)
                                 | (Inr (created, infos', ex'), s2) \<Rightarrow>
                                     (let pv = su_Created ctx created
                                      in (grow ctx pv rl left (best\<lparr>opt_NodeGroup := MainCreatedNodeGroup created\<rparr>) newNodes infos' ex' [created] groups
                                            (Recalculate (pv_cp pv) csr), s2)))))"

end
