(* ===== verification/Scale_Up_Safety.thy ===== *)
theory Scale_Up_Safety
  imports Scale_Up
begin

text \<open>
  What a scale-up may do. On any snapshot that keeps the promise of the interface \<open>cluster_snapshot\<close> the simulations
  leave no trace; the groups that grow may grow, within their sizes, the total number of nodes and the
  resource limits; and the registry stays well-formed. The expander is an interface: what it returns is
  one of the options, up to the text for the log.
\<close>

section \<open>The interface of an expander\<close>

definition same_option :: "'g Option \<Rightarrow> 'g Option \<Rightarrow> bool" where
  "same_option a b \<longleftrightarrow> opt_NodeGroup a = opt_NodeGroup b \<and> opt_NodeCount a = opt_NodeCount b \<and> opt_Pods a = opt_Pods b"

lemma same_option_refl [simp]: "same_option a a"
  by (simp add: same_option_def)

locale expander =
  fixes best_of :: "'g Option list \<Rightarrow> template_nodes \<Rightarrow> 'g Option option"
  assumes chooses_option: "best_of options nodeInfos = Some best \<Longrightarrow> \<exists>x \<in> set options. same_option best x"

interpretation random_expander: expander "random_BestOption draw" for draw
  by unfold_locales (blast intro: random_fallback.fallback_Some same_option_refl)

interpretation mostpods_expander: expander "mostpods_BestOption (random_BestOption draw)" for draw
  by unfold_locales (blast dest: random_fallback.mostpods_best(2) intro: same_option_refl)

lemma waste_step_subset: "set (snd (foldl (waste_step gid nodeInfo) acc options)) \<subseteq> set (snd acc) \<union> set options"
  by (induction options arbitrary: acc) (force simp: waste_step_def Let_def case_prod_beta split: if_splits option.splits)+

interpretation leastwaste_expander: expander "leastwaste_BestOption gid (random_BestOption draw)" for gid draw
proof
  fix options nodeInfos best
  assume "leastwaste_BestOption gid (random_BestOption draw) options nodeInfos = Some best"
  then have "best \<in> set (snd (foldl (waste_step gid nodeInfos) (Fin 0, []) options))"
    using random_fallback.fallback_Some by (auto simp: leastwaste_BestOption_def Let_def split: if_splits)
  then have "best \<in> set options" using waste_step_subset [of gid nodeInfos "(Fin 0, [])" options] by auto
  then show "\<exists>x \<in> set options. same_option best x" by (auto simp: same_option_def)
qed

lemma prio_step_subset:
  "set (fst (snd (foldl (prio_step cr i x) acc ps))) \<subseteq> insert x (set (fst (snd acc)))"
  by (induction ps arbitrary: acc) (force simp: prio_step_def Let_def case_prod_beta split: if_splits)+

lemma rate_option_subset:
  "set (snd (fst (foldl (rate_option cr gid ps) acc options))) \<subseteq> set (snd (fst acc)) \<union> set options"
proof (induction options arbitrary: acc)
  case (Cons x options)
  have "set (snd (fst (rate_option cr gid ps acc x))) \<subseteq> insert x (set (snd (fst acc)))"
    using prio_step_subset [of cr "gid (opt_NodeGroup x)" x "(fst (fst acc), snd (fst acc), False)" ps]
    by (simp add: rate_option_def Let_def case_prod_beta)
  then show ?case using Cons.IH [of "rate_option cr gid ps acc x"] by auto
qed simp

interpretation priority_expander: expander "\<lambda>options nodeInfos. fst (priority_BestOption cr gid (random_BestOption draw) options nodeInfos p)" for cr gid draw p
proof
  fix options nodeInfos best
  assume "fst (priority_BestOption cr gid (random_BestOption draw) options nodeInfos p) = Some best"
  then have "best \<in> set options"
    using random_fallback.fallback_Some rate_option_subset [of cr gid _ "((-1, []), _)" options]
    by (fastforce simp: priority_BestOption_def Let_def case_prod_beta split: if_splits sum.splits prod.splits)
  then show "\<exists>x \<in> set options. same_option best x" by (auto simp: same_option_def)
qed

lemma price_step_member:
  "fst (foldl (price_step f d) (None, v) options) = Some best \<Longrightarrow> \<exists>x \<in> set options. same_option best x"
proof (induction options arbitrary: best rule: rev_induct)
  case (snoc x options)
  then show ?case
    by (cases "fst (price_step f d (foldl (price_step f d) (None, v) options) x) = fst (foldl (price_step f d) (None, v) options)")
      (auto simp: price_step_def same_option_def Let_def case_prod_beta split: option.splits if_splits)
qed simp

interpretation price_expander:
  expander "\<lambda>options nodeInfos. case price_BestOption p debug now options nodeInfos of Inr best \<Rightarrow> best | Inl _ \<Rightarrow> None" for p debug now
  by unfold_locales (auto simp: price_BestOption_def Let_def case_prod_beta intro: price_step_member split: sum.splits)

section \<open>Frames of the simulations\<close>

text \<open>An option is for a group that may grow, and its node count is bounded.\<close>

definition option_fine ::
    "'g provider \<Rightarrow> time \<Rightarrow> 'g ClusterStateRegistry \<Rightarrow> ResourceLimiter \<Rightarrow> (string, int) gomap \<Rightarrow> node_infos \<Rightarrow> int \<Rightarrow> string \<times> 'g Option \<Rightarrow> bool" where
  "option_fine pv now csr rl left nodeInfos N entry \<longleftrightarrow>
     (\<exists>info. may_grow pv now csr rl left nodeInfos (opt_NodeGroup (snd entry)) = Inr info) \<and>
     fst entry = ng_Id (pv_cp pv) (opt_NodeGroup (snd entry)) \<and> 0 < opt_NodeCount (snd entry) \<and> opt_NodeCount (snd entry) \<le> N"

lemma snd_on_current [simp]: "snd (snd (on_current f v)) = snd v"
  by (simp add: on_current_def case_prod_beta Let_def)

context packing_snapshot
begin

lemma perform_frame:
  assumes "framework_ok fw" "inv fw s" "perform (exec fw) op s = (e, s')" "op = AddPod_to p n \<or> op = AddNodeWithPods node ps"
  shows "inv fw s' \<and> snd (view s') = snd (view s)"
proof -
  obtain obs where "exec fw op s = (obs, s')" using assms(3) by (cases "exec fw op s") (auto simp: perform_def)
  from simulates [OF assms(1,2) this] assms(4) show ?thesis by auto
qed

lemma fit_pod_frame:
  assumes "framework_ok fw" "inv fw s" "fit_pod fw (exec fw) sch template ts pod acc s = (r, s')"
  shows "inv fw s' \<and> snd (view s') = snd (view s) \<and> (\<forall>acc'. r = Inr acc' \<longrightarrow> length (snd acc') \<le> Suc (length (snd acc)))"
proof -
  obtain q s1 where f: "FitsAnyNodeMatching fw (exec fw) sch pod (\<lambda>info. fw_InfoName fw info \<in> set (snd acc)) s = (q, s1)" by (metis surj_pair)
  note m = FitsAnyNodeMatching_meets [OF assms(1,2) f]
  have i: "inv fw s1" "view s1 = view s" using m by auto
  show ?thesis
  proof (cases q)
    case (Inr name)
    obtain e s2 where p: "perform (exec fw) (AddPod_to pod name) s1 = (e, s2)" by (metis surj_pair)
    show ?thesis using assms(3) f Inr p perform_frame [OF assms(1) i(1) p] i(2) by (auto simp: fit_pod_def case_prod_beta Let_def split: if_splits)
  next
    case (Inl x)
    let ?node = "new_node template ts (fst acc)"
    obtain e s2 where a: "perform (exec fw) (AddNodeWithPods ?node (tmpl_Pods template)) s1 = (e, s2)" by (metis surj_pair)
    note fa = perform_frame [OF assms(1) i(1) a]
    obtain e3 s3 where p: "perform (exec fw) (AddPod_to pod (node_Name ?node)) s2 = (e3, s3)" by (metis surj_pair)
    show ?thesis using assms(3) f Inl a p fa perform_frame [OF assms(1) _ p] i(2)
      by (auto simp: fit_pod_def addNewNodeToSnapshot_def case_prod_beta Let_def split: if_splits)
  qed
qed

lemma fit_pods_frame:
  assumes "framework_ok fw"
  shows "inv fw s \<Longrightarrow> fit_pods fw (exec fw) sch template ts ps acc s = (r, s') \<Longrightarrow>
    inv fw s' \<and> snd (view s') = snd (view s) \<and> (\<forall>n. r = Inr n \<longrightarrow> n \<le> length (snd acc) + length ps)"
proof (induction ps arbitrary: acc s)
  case (Cons p ps)
  obtain q s1 where f: "fit_pod fw (exec fw) sch template ts (pi_pod p) acc s = (q, s1)" by (metis surj_pair)
  note m = fit_pod_frame [OF assms Cons.prems(1) f]
  show ?case
  proof (cases q)
    case (Inr acc1)
    then have "fit_pods fw (exec fw) sch template ts ps acc1 s1 = (r, s')" using Cons.prems(2) f by simp
    from Cons.IH [OF _ this] show ?thesis using m Inr by fastforce
  qed (use Cons.prems(2) f m in auto)
qed auto

lemma fork_revert:
  assumes "framework_ok fw" "inv fw s" "snd (view s) = None" "perform (exec fw) Fork s = (e, s1)"
  shows "e = None" "inv fw s1" "snd (view s1) = Some (fst (view s))" "fst (view s1) = fst (view s)"
    "inv fw s2 \<Longrightarrow> snd (view s2) = Some (fst (view s)) \<Longrightarrow> perform (exec fw) Revert s2 = (e', s3) \<Longrightarrow> e' = None \<and> inv fw s3 \<and> view s3 = view s"
proof -
  have "inv fw s1 \<and> view s1 = (fst (view s), Some (fst (view s))) \<and> e = None"
    using perform_meets [OF assms(1,2) _ assms(4), of None "(fst (view s), Some (fst (view s)))"] assms(3) by simp
  then show "e = None" "inv fw s1" "snd (view s1) = Some (fst (view s))" "fst (view s1) = fst (view s)" by auto
  assume "inv fw s2" "snd (view s2) = Some (fst (view s))" "perform (exec fw) Revert s2 = (e', s3)"
  then show "e' = None \<and> inv fw s3 \<and> view s3 = view s"
    using perform_meets [OF assms(1), of s2 Revert None "view s" e' s3] assms(3) by (cases "view s") simp
qed

lemma Estimate_frame:
  assumes "framework_ok fw" "inv fw s" "snd (view s) = None" "sort_ok sort_Slice"
    and e: "Estimate fw (exec fw) sch sort_Slice now pods template s = (r, s')"
  shows "inv fw s' \<and> view s' = view s \<and> (\<exists>n. r = Inr n \<and> n \<le> length pods)"
proof -
  define infos where "infos = sort_Slice higher_score (calculatePodScore pods template)"
  have "strict_weak_order higher_score" by (auto simp: strict_weak_order_def higher_score_def)
  then have "mset infos = mset (calculatePodScore pods template)" using assms(4) unfolding sort_ok_def infos_def by blast
  then have "length infos = length (calculatePodScore pods template)" by (rule mset_eq_length)
  then have len: "length infos = length pods" by (simp add: calculatePodScore_def Let_def)
  obtain e1 s1 where 1: "perform (exec fw) Fork s = (e1, s1)" by (metis surj_pair)
  note f = fork_revert [OF assms(1-3) 1]
  obtain q s2 where 2: "fit_pods fw (exec fw) sch template now infos (0, []) s1 = (q, s2)" by (metis surj_pair)
  note m2 = fit_pods_frame [OF assms(1) f(2) 2]
  obtain e3 s3 where 3: "perform (exec fw) Revert s2 = (e3, s3)" by (metis surj_pair)
  have m3: "e3 = None \<and> inv fw s3 \<and> view s3 = view s" using f(5) [OF _ _ 3] m2 f(3) by simp
  have "s' = s3" "r = Inr (case q of Inr n \<Rightarrow> n | Inl _ \<Rightarrow> 0)" using e 1 2 3 f(1) m3 by (auto simp: Estimate_def infos_def)
  then show ?thesis using m2 m3 len by (auto split: sum.splits)
qed

lemma check_groups_frame:
  assumes "framework_ok fw" "sim_exec sim = exec fw"
  shows "inv fw s \<Longrightarrow> \<forall>eg \<in> set egs. eg_pods eg \<noteq> [] \<Longrightarrow> check_groups sim gid nodeName egs s = (r, s') \<Longrightarrow>
    inv fw s' \<and> view s' = view s \<and>
    (\<exists>egs' pods. r = Inr (egs', pods) \<and> map eg_pods egs' = map eg_pods egs \<and> length pods \<le> length (concat (map eg_pods egs)))"
proof (induction egs arbitrary: s r s')
  case (Cons eg egs)
  obtain err s1 where c: "CheckPredicates (exec fw) (sim_sch sim) (hd (eg_pods eg)) nodeName s = (err, s1)" by (metis surj_pair)
  note m = CheckPredicates_meets [OF assms(1) Cons.prems(1) c]
  obtain r2 s2 where 2: "check_groups sim gid nodeName egs s1 = (r2, s2)" by (metis surj_pair)
  obtain egs' pods where ih: "inv fw s2" "view s2 = view s1" "r2 = Inr (egs', pods)" "map eg_pods egs' = map eg_pods egs"
      "length pods \<le> length (concat (map eg_pods egs))"
    using Cons.IH [OF _ _ 2] m Cons.prems(2) by auto
  show ?case using Cons.prems(2,3) c 2 ih m by (auto simp: assms(2) Let_def split: option.splits)
qed auto

lemma computeExpansionOption_frame:
  assumes "framework_ok fw" "sim_fw sim = fw" "sim_exec sim = exec fw" "inv fw s" "snd (view s) = None" "sort_ok (su_sort_pods ctx)"
    and "\<forall>eg \<in> set egs. eg_pods eg \<noteq> []" and c: "computeExpansionOption ctx sim gid egs g nodeInfo s = (r, s')"
  shows "inv fw s' \<and> view s' = view s \<and>
    (\<forall>option egs'. r = Inr (option, egs') \<longrightarrow> opt_NodeGroup option = g \<and> 0 \<le> opt_NodeCount option \<and>
       opt_NodeCount option \<le> int (length (concat (map eg_pods egs))) \<and> map eg_pods egs' = map eg_pods egs)"
proof -
  obtain e1 s1 where 1: "perform (exec fw) Fork s = (e1, s1)" by (metis surj_pair)
  note f = fork_revert [OF assms(1,4,5) 1]
  obtain e2 s2 where 2: "perform (exec fw) (AddNodeWithPods (tmpl_Node nodeInfo) (tmpl_Pods nodeInfo)) s1 = (e2, s2)" by (metis surj_pair)
  have m2: "inv fw s2" "snd (view s2) = Some (fst (view s))" using perform_frame [OF assms(1) f(2) 2] f(3) by auto
  show ?thesis
  proof (cases e2)
    case (Some e)
    obtain e3 s3 where 3: "perform (exec fw) Revert s2 = (e3, s3)" by (metis surj_pair)
    have "e3 = None \<and> inv fw s3 \<and> view s3 = view s" using f(5) [OF m2 3] .
    then show ?thesis using c 1 2 3 Some f(1) by (auto simp: computeExpansionOption_def assms(3))
  next
    case None
    obtain q s3 where 3: "check_groups sim gid (node_Name (tmpl_Node nodeInfo)) egs s2 = (q, s3)" by (metis surj_pair)
    obtain egs' pods where m3: "inv fw s3" "view s3 = view s2" "q = Inr (egs', pods)" "map eg_pods egs' = map eg_pods egs"
        "length pods \<le> length (concat (map eg_pods egs))"
      using check_groups_frame [OF assms(1,3) m2(1) assms(7) 3] by blast
    obtain e4 s4 where 4: "perform (exec fw) Revert s3 = (e4, s4)" by (metis surj_pair)
    have m4: "e4 = None" "inv fw s4" "view s4 = view s" using f(5) [OF m3(1) _ 4] m2(2) m3(2) by auto
    show ?thesis
    proof (cases "pods = []")
      case True
      then show ?thesis using c 1 2 3 4 None f(1) m3 m4 by (auto simp: computeExpansionOption_def assms(3))
    next
      case False
      obtain n s5 where 5: "Estimate fw (exec fw) (sim_sch sim) (su_sort_pods ctx) (su_estimate_time ctx g) pods nodeInfo s4 = (n, s5)" by (metis surj_pair)
      obtain k where m5: "inv fw s5" "view s5 = view s4" "n = Inr k" "k \<le> length pods"
        using Estimate_frame [OF assms(1) m4(2) _ assms(6) 5] m4(3) assms(5) by auto
      have "r = Inr (\<lparr>opt_NodeGroup = g, opt_NodeCount = int k, opt_Debug = [], opt_Pods = pods\<rparr>, egs')" "s' = s5"
        using c 1 2 3 4 5 None f(1) m3(3) m4(1) m5(3) False by (auto simp: computeExpansionOption_def assms(2,3))
      then show ?thesis using m5 m4(3) m3(4,5) by auto
    qed
  qed
qed

lemma expansion_options_frame:
  assumes "framework_ok fw" "sim_fw sim = fw" "sim_exec sim = exec fw" "sort_ok (su_sort_pods ctx)"
  defines "pv \<equiv> su_CloudProvider ctx"
  shows "inv fw s \<Longrightarrow> snd (view s) = None \<Longrightarrow> \<forall>eg \<in> set (ex_groups ex). eg_pods eg \<noteq> [] \<Longrightarrow>
    \<forall>x \<in> set (ex_options ex). option_fine pv (su_now ctx) csr rl left nodeInfos (int (length (concat (map eg_pods (ex_groups ex))))) x \<Longrightarrow>
    expansion_options ctx sim csr rl left nodeInfos groups ex s = (r, s') \<Longrightarrow>
    inv fw s' \<and> view s' = view s \<and> (\<forall>ex'. r = Inr ex' \<longrightarrow> map eg_pods (ex_groups ex') = map eg_pods (ex_groups ex) \<and>
      (\<forall>x \<in> set (ex_options ex'). option_fine pv (su_now ctx) csr rl left nodeInfos (int (length (concat (map eg_pods (ex_groups ex))))) x) \<and>
      opt_NodeGroup ` snd ` set (ex_options ex') \<subseteq> opt_NodeGroup ` snd ` set (ex_options ex) \<union> set groups)"
proof (induction groups arbitrary: ex s)
  case (Cons g groups)
  let ?gid = "ng_Id (pv_cp pv) g" and ?N = "int (length (concat (map eg_pods (ex_groups ex))))"
  show ?case
  proof (cases "may_grow pv (su_now ctx) csr rl left nodeInfos g")
    case (Inl reason)
    then have "expansion_options ctx sim csr rl left nodeInfos groups (ex\<lparr>ex_skipped := AList.update ?gid reason (ex_skipped ex)\<rparr>) s = (r, s')"
      using Cons.prems(5) by (simp add: pv_def)
    from Cons.IH [OF Cons.prems(1,2) _ _ this] show ?thesis using Cons.prems(3,4) by (simp; blast)
  next
    case (Inr info)
    obtain q s1 where c: "computeExpansionOption ctx sim ?gid (ex_groups ex) g info s = (q, s1)" by (metis surj_pair)
    note m = computeExpansionOption_frame [OF assms(1-3) Cons.prems(1,2) assms(4) Cons.prems(3) c]
    show ?thesis
    proof (cases q)
      case (Inl e)
      then show ?thesis using Cons.prems(5) Inr c m by (auto simp: pv_def)
    next
      case q: (Inr y)
      obtain option egs where y: "y = (option, egs)" by (metis surj_pair)
      have o: "opt_NodeGroup option = g" "opt_NodeCount option \<le> ?N" "map eg_pods egs = map eg_pods (ex_groups ex)" and s1: "inv fw s1" "view s1 = view s"
        using m q y by auto
      have rest: "expansion_options ctx sim csr rl left nodeInfos groups
          (ex\<lparr>ex_options := add_option ?gid option (ex_options ex), ex_groups := egs\<rparr>) s1 = (r, s')"
        using Cons.prems(5) Inr c q y by (simp add: pv_def)
      have "option_fine pv (su_now ctx) csr rl left nodeInfos ?N (?gid, option)" if "0 < opt_NodeCount option"
        using Inr o(1,2) that by (simp add: option_fine_def)
      then have "\<forall>x \<in> set (add_option ?gid option (ex_options ex)). option_fine pv (su_now ctx) csr rl left nodeInfos ?N x"
        using Cons.prems(4) set_AList_update [of ?gid option "ex_options ex"] unfolding add_option_def by (auto split: if_splits)
      moreover have "\<forall>eg \<in> set egs. eg_pods eg \<noteq> []"
        using Cons.prems(3) o(3) by (metis (no_types, lifting) image_iff list.set_map)
      ultimately have ih: "inv fw s' \<and> view s' = view s \<and> (\<forall>ex'. r = Inr ex' \<longrightarrow> map eg_pods (ex_groups ex') = map eg_pods (ex_groups ex) \<and>
          (\<forall>x \<in> set (ex_options ex'). option_fine pv (su_now ctx) csr rl left nodeInfos ?N x) \<and>
          opt_NodeGroup ` snd ` set (ex_options ex') \<subseteq> opt_NodeGroup ` snd ` set (add_option ?gid option (ex_options ex)) \<union> set groups)"
        using Cons.IH [OF s1(1) _ _ _ rest] Cons.prems(2) o(3) s1(2) by simp
      have grows: "A \<subseteq> insert x B \<Longrightarrow> C \<subseteq> A \<union> D \<Longrightarrow> C \<subseteq> B \<union> insert x D" for A B C D :: "'g set" and x by blast
      have "opt_NodeGroup ` snd ` set (add_option ?gid option (ex_options ex)) \<subseteq> insert g (opt_NodeGroup ` snd ` set (ex_options ex))"
        using o(1) image_mono [OF image_mono [OF set_AList_update [of ?gid option "ex_options ex"]], of opt_NodeGroup snd]
        unfolding add_option_def by (auto split: if_splits)
      note grows [OF this]
      then show ?thesis using ih unfolding list.simps(15) by (elim conjE, intro conjI allI impI) simp_all
    qed
  qed
qed auto

end

section \<open>The plan and its execution\<close>

lemma truncate_fields [simp]:
  "ng_Id (node_groups.truncate cp) = ng_Id cp" "ng_TargetSize (node_groups.truncate cp) = ng_TargetSize cp"
  "ng_MaxSize (node_groups.truncate cp) = ng_MaxSize cp"
  by (simp_all add: node_groups.truncate_def)

lemma scale_up_infos_sizes: "scale_up_infos cp gs = Inr x \<Longrightarrow> g \<in> set gs \<Longrightarrow> \<exists>k. ng_TargetSize cp g = Inr k"
  by (induction gs arbitrary: x) auto

abbreviation increase_of :: "'g ScaleUpInfo \<Rightarrow> int" where
  "increase_of i \<equiv> NewSize i - CurrentSize i"

lemma balance_plan:
  assumes "sort_ok sort_Slice" "BalanceScaleUpBetweenGroups sort_Slice cp targets n = Inr infos" "0 \<le> n"
  shows "i \<in> set infos \<Longrightarrow> Group i \<in> set targets \<and> ng_TargetSize cp (Group i) = Inr (CurrentSize i) \<and> 0 < increase_of i \<and>
      CurrentSize i + increase_of i \<le> ng_MaxSize cp (Group i)"
    and "sum_list (map increase_of infos) \<le> n"
proof -
  have t: "targets \<noteq> []" "\<exists>x. scale_up_infos cp targets = Inr x"
    using assms(2) by (auto simp: BalanceScaleUpBetweenGroups_def split: if_splits)
  then have "\<forall>g \<in> set targets. ng_TargetSize cp g = Inr (projr (ng_TargetSize cp g))" using scale_up_infos_sizes [of cp targets] by fastforce
  from balance_scale_up [OF assms(1) t(1) this, of n] obtain xs where
    r: "BalanceScaleUpBetweenGroups sort_Slice cp targets n = Inr (filter (\<lambda>x. NewSize x \<noteq> CurrentSize x) xs)" and
    xs0: "mset (map ident xs) = mset (map (\<lambda>g. (g, projr (ng_TargetSize cp g), ng_MaxSize cp g))
         (filter (\<lambda>g. projr (ng_TargetSize cp g) \<noteq> ng_MaxSize cp g) targets))"
      "sum_list (map increase_of xs) = max 0 (min n (sum_list (map (\<lambda>g. max 0 (ng_MaxSize cp g - projr (ng_TargetSize cp g))) targets)))"
      "within_limits xs" by blast
  have xs: "infos = filter (\<lambda>x. NewSize x \<noteq> CurrentSize x) xs" "within_limits xs"
      "mset (map ident xs) = mset (map (\<lambda>g. (g, projr (ng_TargetSize cp g), ng_MaxSize cp g))
         (filter (\<lambda>g. projr (ng_TargetSize cp g) \<noteq> ng_MaxSize cp g) targets))"
      "sum_list (map increase_of xs) \<le> n"
    using assms(2,3) r xs0 by auto
  show "sum_list (map increase_of infos) \<le> n"
    using xs(4) unfolding xs(1) by (subst sum_list_map_filter) auto
  assume "i \<in> set infos"
  then have i: "i \<in> set xs" "NewSize i \<noteq> CurrentSize i" by (auto simp: xs(1))
  have "ident i \<in> set (map (\<lambda>g. (g, projr (ng_TargetSize cp g), ng_MaxSize cp g))
      (filter (\<lambda>g. projr (ng_TargetSize cp g) \<noteq> ng_MaxSize cp g) targets))"
    using i(1) mset_eq_setD [OF xs(3)] by auto
  then have "Group i \<in> set targets" "CurrentSize i = projr (ng_TargetSize cp (Group i))" "MaxSize i = ng_MaxSize cp (Group i)"
    by (auto simp: ident_def)
  then show "Group i \<in> set targets \<and> ng_TargetSize cp (Group i) = Inr (CurrentSize i) \<and> 0 < increase_of i \<and>
      CurrentSize i + increase_of i \<le> ng_MaxSize cp (Group i)"
    using xs(2) i \<open>\<forall>g \<in> set targets. _\<close> unfolding within_limits_def by fastforce
qed

lemma execute_plan_calls:
  "execute_plan ctx cp infos calls csr = (err, calls', csr') \<Longrightarrow>
   \<exists>executed rest. map (\<lambda>i. (Group i, increase_of i)) infos = executed @ rest \<and> calls' = calls @ executed \<and> (err = None \<longrightarrow> rest = [])"
proof (induction infos arbitrary: calls csr)
  case (Cons i infos)
  obtain e csr1 where e: "executeScaleUp ctx cp (length calls) i csr = (e, csr1)" by (metis surj_pair)
  show ?case
  proof (cases e)
    case None
    then have "execute_plan ctx cp infos (calls @ [(Group i, increase_of i)]) csr1 = (err, calls', csr')" using Cons.prems e by simp
    from Cons.IH [OF this] obtain ex rest where "map (\<lambda>i. (Group i, increase_of i)) infos = ex @ rest"
      "calls' = (calls @ [(Group i, increase_of i)]) @ ex" "err = None \<longrightarrow> rest = []" by blast
    then show ?thesis by (intro exI [of _ "(Group i, increase_of i) # ex"] exI [of _ rest]) simp
  next
    case (Some x)
    then show ?thesis using Cons.prems e
      by (intro exI [of _ "[(Group i, increase_of i)]"] exI [of _ "map (\<lambda>i. (Group i, increase_of i)) infos"]) auto
  qed
qed simp

text \<open>The nodes a registry waits for in a group.\<close>

definition pending :: "'g ClusterStateRegistry \<Rightarrow> string \<Rightarrow> int" where
  "pending csr kk = (case map_of (scaleUpRequests csr) kk of None \<Rightarrow> 0 | Some r \<Rightarrow> Increase r)"

definition asked :: "('g \<Rightarrow> string) \<Rightarrow> ('g \<times> int) list \<Rightarrow> string \<Rightarrow> int" where
  "asked idf calls kk = sum_list (map snd (filter (\<lambda>(g, _). idf g = kk) calls))"

lemma pending_nonneg: "registry_ok idf csr \<Longrightarrow> 0 \<le> pending csr kk"
  by (fastforce simp: pending_def registry_ok_def requests_ok_def request_ok_def dest: map_of_SomeD split: option.splits)

lemma RegisterOrUpdateScaleUp_pending:
  assumes "registry_ok idf csr" "0 < k"
  shows "pending (RegisterOrUpdateScaleUp cp g k t csr) kk = pending csr kk + (if ng_Id cp g = kk then k else 0)"
  using pending_nonneg [OF assms(1), of "ng_Id cp g"] assms(2)
  by (auto simp: pending_def RegisterOrUpdateScaleUp_def Let_def update_conv' split: option.splits if_splits)

lemma execute_plan_registry:
  assumes "ng_Id cp = idf"
  shows "registry_ok idf csr \<Longrightarrow> \<forall>i \<in> set infos. 0 < increase_of i \<Longrightarrow> execute_plan ctx cp infos calls csr = (err, calls', csr') \<Longrightarrow>
    registry_ok idf csr' \<and> (err = None \<longrightarrow> (\<forall>kk. pending csr' kk - asked idf calls' kk = pending csr kk - asked idf calls kk))"
proof (induction infos arbitrary: calls csr)
  case (Cons i infos)
  show ?case
  proof (cases "su_IncreaseSize ctx (Group i) (increase_of i)")
    case (Some e)
    then have "csr' = RegisterFailedScaleUp cp (Group i) ''cloudProviderError'' (su_now ctx) csr" "err \<noteq> None"
      using Cons.prems(3) by (auto simp: executeScaleUp_def Let_def)
    then show ?thesis using registry_step_ok [OF registry_step.failed Cons.prems(1)] by auto
  next
    case None
    define csr1 where "csr1 = RegisterOrUpdateScaleUp cp (Group i) (increase_of i) (su_clock ctx (length calls)) csr"
    have ok: "registry_ok idf csr1" unfolding csr1_def by (rule registry_step_ok [OF registry_step.scale_up [OF assms] Cons.prems(1)])
    have "execute_plan ctx cp infos (calls @ [(Group i, increase_of i)]) csr1 = (err, calls', csr')"
      using Cons.prems(3) None by (simp add: executeScaleUp_def Let_def csr1_def)
    from Cons.IH [OF ok _ this] Cons.prems(2) show ?thesis
      using RegisterOrUpdateScaleUp_pending [OF Cons.prems(1), of "increase_of i" cp "Group i"] assms by (auto simp: csr1_def asked_def)
  qed
qed auto

definition idle :: "'g ClusterStateRegistry \<Rightarrow> 'g scale_up_outcome \<Rightarrow> bool" where
  "idle csr out \<longleftrightarrow> so_calls out = [] \<and> so_registry out = csr \<and> (so_error out \<noteq> None \<or> sus_Result (so_status out) \<noteq> ScaleUpSuccessful)"

lemma idle_simps [simp]:
  "idle csr \<lparr>so_status = st, so_error = e, so_calls = calls, so_registry = csr'\<rparr> \<longleftrightarrow>
     calls = [] \<and> csr' = csr \<and> (e \<noteq> None \<or> sus_Result st \<noteq> ScaleUpSuccessful)"
  by (auto simp: idle_def)

lemma status_of_Result [simp]: "sus_Result (status_of r) = r"
  by (simp add: status_of_def)

lemma grow_steps:
  assumes "grow ctx pv rl left best newNodes infos ex created considered csr = out"
  obtains "idle csr out"
  | info n targets plan err csr1 where "map_of infos (ng_Id (pv_cp pv) (opt_NodeGroup best)) = Some info"
      "applyScaleUpResourcesLimits pv newNodes left info (opt_NodeGroup best) rl = Inr n"
      "target_groups ctx pv csr best infos (ex_options ex) = Inr targets"
      "BalanceScaleUpBetweenGroups (su_sort_infos ctx) (node_groups.truncate (pv_cp pv)) targets n = Inr plan"
      "execute_plan ctx (pv_cp pv) plan [] csr = (err, so_calls out, csr1)"
      "so_error out = err" "so_registry out = (if err = None then Recalculate (su_After ctx (pv_cp pv) (so_calls out)) csr1 else csr1)"
proof -
  let ?gid = "ng_Id (pv_cp pv) (opt_NodeGroup best)"
  show thesis
  proof (cases "map_of infos ?gid")
    case None
    then show ?thesis using that(1) assms by (auto simp: grow_def Let_def)
  next
    case (Some info)
    let ?plan = "rbind (applyScaleUpResourcesLimits pv newNodes left info (opt_NodeGroup best) rl) (\<lambda>newNodes'.
        rbind (target_groups ctx pv csr best infos (ex_options ex)) (\<lambda>targets.
          BalanceScaleUpBetweenGroups (su_sort_infos ctx) (node_groups.truncate (pv_cp pv)) targets newNodes'))"
    show ?thesis
    proof (cases ?plan)
      case (Inl e)
      then show ?thesis using that(1) assms Some by (auto simp: grow_def Let_def)
    next
      case (Inr plan)
      obtain n targets where p: "applyScaleUpResourcesLimits pv newNodes left info (opt_NodeGroup best) rl = Inr n"
          "target_groups ctx pv csr best infos (ex_options ex) = Inr targets"
          "BalanceScaleUpBetweenGroups (su_sort_infos ctx) (node_groups.truncate (pv_cp pv)) targets n = Inr plan"
        using Inr by auto
      obtain err calls csr1 where e: "execute_plan ctx (pv_cp pv) plan [] csr = (err, calls, csr1)" by (metis surj_pair)
      have "so_calls out = calls" "so_error out = err" "so_registry out = (if err = None then Recalculate (su_After ctx (pv_cp pv) calls) csr1 else csr1)"
        using assms Some Inr e by (auto simp: grow_def Let_def split: option.splits)
      then show ?thesis using that(2) [OF Some p] e by simp
    qed
  qed
qed

lemma ScaleUp_steps:
  assumes "ScaleUp ctx sim pods nodes nodeInfos csr s = (out, s')"
  defines "start \<equiv> \<lparr>ex_options = [], ex_groups = buildPodEquivalenceGroups (su_SpecEqual ctx) pods, ex_skipped = []\<rparr>"
  obtains "idle csr out" "s' = s"
  | rl left upcoming groups infos r where "scale_up_inputs ctx pods nodes nodeInfos csr = Inr (rl, left, upcoming, groups, infos)"
      "expansion_options ctx sim csr rl left infos groups start s = (r, s')" "idle csr out"
  | rl left upcoming groups infos ex s1 best newNodes where
      "scale_up_inputs ctx pods nodes nodeInfos csr = Inr (rl, left, upcoming, groups, infos)"
      "expansion_options ctx sim csr rl left infos groups start s = (Inr ex, s1)"
      "su_BestOption ctx (map snd (ex_options ex)) (map (\<lambda>(i, t). (i, tmpl_Node t)) infos) = Some best"
      "cap_total_nodes ctx (int (length nodes)) (int (length upcoming)) (opt_NodeCount best) = Inr newNodes" "0 < opt_NodeCount best"
      "ng_Exist (su_CloudProvider ctx) (opt_NodeGroup best) \<Longrightarrow>
         s' = s1 \<and> grow ctx (su_CloudProvider ctx) rl left best newNodes infos ex [] groups csr = out"
      "\<not> ng_Exist (su_CloudProvider ctx) (opt_NodeGroup best) \<Longrightarrow>
         \<exists>q. create_group ctx sim (opt_NodeGroup best) infos ex s1 = (q, s') \<and>
           (idle csr out \<or> (\<exists>created infos' ex'. q = Inr (created, infos', ex') \<and>
              grow ctx (su_Created ctx created) rl left (best\<lparr>opt_NodeGroup := MainCreatedNodeGroup created\<rparr>) newNodes infos' ex' [created] groups
                (Recalculate (pv_cp (su_Created ctx created)) csr) = out))"
proof (cases "pods = []")
  case True
  then show ?thesis using that(1) assms(1) by (auto simp: ScaleUp_def Let_def)
next
  case False
  show ?thesis
  proof (cases "scale_up_inputs ctx pods nodes nodeInfos csr")
    case (Inl e)
    then show ?thesis using that(1) assms(1) False by (auto simp: ScaleUp_def Let_def)
  next
    case (Inr i)
    obtain rl left upcoming groups infos where i: "i = (rl, left, upcoming, groups, infos)" by (metis surj_pair)
    obtain r s1 where r: "expansion_options ctx sim csr rl left infos groups start s = (r, s1)" by (metis surj_pair)
    note step = assms(1) [unfolded ScaleUp_def Let_def Inr i sum.case prod.case start_def [symmetric] r]
    show ?thesis
    proof (cases "(\<exists>e. r = Inl e) \<or> (\<exists>ex. r = Inr ex \<and> (map snd (ex_options ex) = [] \<or>
        (case su_BestOption ctx (map snd (ex_options ex)) (map (\<lambda>(i, t). (i, tmpl_Node t)) infos) of
           None \<Rightarrow> True
         | Some best \<Rightarrow> opt_NodeCount best \<le> 0 \<or>
             (\<exists>e. cap_total_nodes ctx (int (length nodes)) (int (length upcoming)) (opt_NodeCount best) = Inl e))))")
      case True
      then have "idle csr out \<and> s' = s1" using step False by (auto split: option.splits if_splits)
      then show ?thesis using that(2) Inr i r by auto
    next
      case False
      then obtain ex best newNodes where ex: "r = Inr ex"
          "su_BestOption ctx (map snd (ex_options ex)) (map (\<lambda>(i, t). (i, tmpl_Node t)) infos) = Some best"
          "cap_total_nodes ctx (int (length nodes)) (int (length upcoming)) (opt_NodeCount best) = Inr newNodes"
          "\<not> opt_NodeCount best \<le> 0" "map snd (ex_options ex) \<noteq> []"
        by (cases r) (auto split: option.splits, metis Inr_Inl_False old.sum.exhaust)
      have pos: "0 < opt_NodeCount best" using ex(4) by simp
      have step': "(if ng_Exist (su_CloudProvider ctx) (opt_NodeGroup best)
            then (grow ctx (su_CloudProvider ctx) rl left best newNodes infos ex [] groups csr, s1)
            else case create_group ctx sim (opt_NodeGroup best) infos ex s1 of
              (Inl e, s2) \<Rightarrow> (\<lparr>so_status = status_of ScaleUpError, so_error = Some e, so_calls = [], so_registry = csr\<rparr>, s2)
            | (Inr (created, infos', ex'), s2) \<Rightarrow>
                (grow ctx (su_Created ctx created) rl left (best\<lparr>opt_NodeGroup := MainCreatedNodeGroup created\<rparr>) newNodes infos' ex' [created] groups
                   (Recalculate (pv_cp (su_Created ctx created)) csr), s2)) = (out, s')"
        using step ex \<open>pods \<noteq> []\<close> by simp
      show ?thesis
      proof (rule that(3) [OF Inr [unfolded i] r [unfolded ex(1)] ex(2,3) pos])
        assume "ng_Exist (su_CloudProvider ctx) (opt_NodeGroup best)"
        then show "s' = s1 \<and> grow ctx (su_CloudProvider ctx) rl left best newNodes infos ex [] groups csr = out" using step' by simp
      next
        assume "\<not> ng_Exist (su_CloudProvider ctx) (opt_NodeGroup best)"
        then show "\<exists>q. create_group ctx sim (opt_NodeGroup best) infos ex s1 = (q, s') \<and>
           (idle csr out \<or> (\<exists>created infos' ex'. q = Inr (created, infos', ex') \<and>
              grow ctx (su_Created ctx created) rl left (best\<lparr>opt_NodeGroup := MainCreatedNodeGroup created\<rparr>) newNodes infos' ex' [created] groups
                (Recalculate (pv_cp (su_Created ctx created)) csr) = out))"
          using step' by (cases "create_group ctx sim (opt_NodeGroup best) infos ex s1") (auto split: sum.splits)
      qed
    qed
  qed
qed

section \<open>The whole scale-up\<close>

lemma equivalence_groups_pods:
  "length (concat (map eg_pods (buildPodEquivalenceGroups SpecEqual pods))) = length pods"
  "\<forall>eg \<in> set (buildPodEquivalenceGroups SpecEqual pods). eg_pods eg \<noteq> []"
  using equivalence_groups [of SpecEqual pods] by (auto simp: list_all_iff dest: mset_eq_length)

lemma create_group_runs:
  "create_group ctx sim g infos ex s = (q, s') \<Longrightarrow>
   s' = s \<or> (\<exists>groups acc r. snd acc = ex \<and> extra_groups ctx sim (ng_Id (pv_cp (su_CloudProvider ctx))) groups acc s = (r, s'))"
proof (cases "su_CreateNodeGroup ctx g")
  case (Inr created)
  assume c: "create_group ctx sim g infos ex s = (q, s')"
  have "\<exists>infos2 r. extra_groups ctx sim (ng_Id (pv_cp (su_CloudProvider ctx))) (ExtraCreatedNodeGroups created) (infos2, ex) s = (r, s')"
    using c unfolding create_group_def Inr Let_def sum.case by (auto split: prod.splits)
  then show ?thesis by (metis snd_conv)
qed (simp add: create_group_def Let_def)

context packing_snapshot
begin

lemma extra_groups_frame:
  assumes "framework_ok fw" "sim_fw sim = fw" "sim_exec sim = exec fw" "sort_ok (su_sort_pods ctx)"
  shows "inv fw s \<Longrightarrow> snd (view s) = None \<Longrightarrow> \<forall>eg \<in> set (ex_groups (snd acc)). eg_pods eg \<noteq> [] \<Longrightarrow>
    extra_groups ctx sim gid groups acc s = (r, s') \<Longrightarrow> inv fw s' \<and> view s' = view s"
proof (induction groups arbitrary: acc s)
  case (Cons g groups)
  obtain infos ex where acc: "acc = (infos, ex)" by (cases acc)
  show ?case
  proof (cases "su_InfoFromTemplate ctx g")
    case (Inl e)
    then show ?thesis using Cons by simp
  next
    case (Inr info)
    obtain q s1 where c: "computeExpansionOption ctx sim (gid g) (ex_groups ex) g info s = (q, s1)" by (metis surj_pair)
    note m = computeExpansionOption_frame [OF assms(1-3) Cons.prems(1,2) assms(4) _ c]
    show ?thesis
    proof (cases q)
      case (Inl e)
      then show ?thesis using Cons.prems(3,4) Inr c m acc by auto
    next
      case q: (Inr y)
      obtain option egs where y: "y = (option, egs)" by (metis surj_pair)
      have egs: "map eg_pods egs = map eg_pods (ex_groups ex)" "inv fw s1" "view s1 = view s" using m q y Cons.prems(3) acc by auto
      have "\<forall>eg \<in> set egs. eg_pods eg \<noteq> []" using Cons.prems(3) egs(1) acc by (metis (no_types, lifting) image_iff list.set_map snd_conv)
      moreover have rest: "extra_groups ctx sim gid groups (AList.update (gid g) info infos,
          ex\<lparr>ex_options := add_option (gid g) option (ex_options ex), ex_groups := egs\<rparr>) s1 = (r, s')"
        using Cons.prems(4) Inr c q y acc by simp
      ultimately show ?thesis using Cons.IH [OF egs(2) _ _ rest] Cons.prems(2) egs(3) by simp
    qed
  qed
qed auto

lemma ScaleUp_frame:
  assumes "framework_ok fw" "sim_fw sim = fw" "sim_exec sim = exec fw" "sort_ok (su_sort_pods ctx)" "inv fw s" "snd (view s) = None"
    and run: "ScaleUp ctx sim pods nodes nodeInfos csr s = (out, s')"
  shows "inv fw s' \<and> view s' = view s"
  using run
proof (cases rule: ScaleUp_steps)
  case (2 rl left upcoming groups infos r)
  show ?thesis using expansion_options_frame [OF assms(1-6) _ _ 2(2)] equivalence_groups_pods(2) by simp
next
  case (3 rl left upcoming groups infos ex s1 best newNodes)
  have m: "inv fw s1" "view s1 = view s"
    "map eg_pods (ex_groups ex) = map eg_pods (buildPodEquivalenceGroups (su_SpecEqual ctx) pods)"
    using expansion_options_frame [OF assms(1-6) _ _ 3(2)] equivalence_groups_pods(2) [of "su_SpecEqual ctx" pods] by auto
  then have egs: "\<forall>eg \<in> set (ex_groups ex). eg_pods eg \<noteq> []"
    using equivalence_groups_pods(2) by (metis (no_types, lifting) image_iff list.set_map)
  show ?thesis
  proof (cases "ng_Exist (su_CloudProvider ctx) (opt_NodeGroup best)")
    case False
    then obtain q where "create_group ctx sim (opt_NodeGroup best) infos ex s1 = (q, s')" using 3(7) by blast
    from create_group_runs [OF this] show ?thesis
    proof
      assume "\<exists>groups acc r. snd acc = ex \<and> extra_groups ctx sim (ng_Id (pv_cp (su_CloudProvider ctx))) groups acc s1 = (r, s')"
      then show ?thesis using extra_groups_frame [OF assms(1-4) m(1)] m(2) assms(6) egs by metis
    qed (use m in simp)
  qed (use 3(6) m in simp)
qed (use assms(5) in simp)

end

lemma sum_prefix_le: "map f xs = ys @ zs \<Longrightarrow> \<forall>x \<in> set xs. 0 < snd (f x) \<Longrightarrow> sum_list (map snd ys) \<le> (sum_list (map snd (map f xs)) :: int)"
proof -
  assume m: "map f xs = ys @ zs" and pos: "\<forall>x \<in> set xs. 0 < snd (f x)"
  have "set zs \<subseteq> f ` set xs" using arg_cong [OF m, of set] by auto
  then have "\<forall>z \<in> set zs. 0 \<le> snd z" using pos by (auto dest!: subsetD intro: order_less_imp_le)
  then have "0 \<le> sum_list (map snd zs)" by (intro sum_list_nonneg) auto
  then show ?thesis unfolding m by simp
qed

lemma may_grow_safe:
  "may_grow pv now csr rl left nodeInfos g = Inr info \<Longrightarrow> ng_Exist pv g \<Longrightarrow> IsNodeGroupSafeToScaleUp (pv_cp pv) csr g now"
  by (auto simp: may_grow_def Let_def split: if_splits)

lemma cap_total_nodes_bounds:
  assumes "cap_total_nodes ctx a b n = Inr m" "0 < n"
  shows "1 \<le> m" "m \<le> n" "0 < MaxNodesTotal ctx \<Longrightarrow> a + b + m \<le> MaxNodesTotal ctx"
  using assms by (auto simp: cap_total_nodes_def Let_def split: if_splits)

text \<open>The group of the chosen option, and when the scale-up is balanced the groups like it.\<close>

definition shares_growth :: "'g AutoscalingContext \<Rightarrow> 'g provider \<Rightarrow> node_infos \<Rightarrow> 'g \<Rightarrow> 'g \<Rightarrow> bool" where
  "shares_growth ctx pv nodeInfos chosen g \<longleftrightarrow> g = chosen \<or> BalanceSimilarNodeGroups ctx \<and>
     (\<exists>similar. FindSimilarNodeGroups (node_groups.truncate (pv_cp pv)) (su_Comparator ctx) (cp_NodeGroups (pv_cp pv)) chosen nodeInfos = Inr similar \<and>
        g \<in> set similar)"

lemma target_groups_safe:
  "target_groups ctx pv csr best infos options = Inr targets \<Longrightarrow> g \<in> set targets \<Longrightarrow>
   (g = opt_NodeGroup best \<or> IsNodeGroupSafeToScaleUp (pv_cp pv) csr g (su_now ctx)) \<and> shares_growth ctx pv infos (opt_NodeGroup best) g"
  by (auto simp: target_groups_def shares_growth_def filterNodeGroupsByPods_def split: if_splits)

text \<open>The calls of a plan, as far as it is executed: groups that are safe, within their sizes, and not too many nodes.\<close>

lemma grow_safe:
  assumes "sort_ok (su_sort_infos ctx)" "grow ctx pv rl left best newNodes infos ex created considered csr = out"
    and "IsNodeGroupSafeToScaleUp (pv_cp pv) csr (opt_NodeGroup best) (su_now ctx)"
    and amounts: "\<And>info delta. map_of infos (ng_Id (pv_cp pv) (opt_NodeGroup best)) = Some info \<Longrightarrow>
        computeScaleUpResourcesDelta pv info (opt_NodeGroup best) rl = Inr delta \<Longrightarrow> amounts_ok left delta newNodes"
  shows "(\<forall>(g, k) \<in> set (so_calls out). 0 < k \<and> IsNodeGroupSafeToScaleUp (pv_cp pv) csr g (su_now ctx) \<and>
      shares_growth ctx pv infos (opt_NodeGroup best) g \<and>
      (\<exists>current. ng_TargetSize (pv_cp pv) g = Inr current \<and> current + k \<le> ng_MaxSize (pv_cp pv) g)) \<and>
    (so_calls out \<noteq> [] \<longrightarrow> (\<exists>info delta. map_of infos (ng_Id (pv_cp pv) (opt_NodeGroup best)) = Some info \<and>
       computeScaleUpResourcesDelta pv info (opt_NodeGroup best) rl = Inr delta \<and>
       sum_list (map snd (so_calls out)) \<le> newNodes \<and> fits_limits left delta (sum_list (map snd (so_calls out)))))"
  using assms(2)
proof (cases rule: grow_steps)
  case 1
  then show ?thesis by (simp add: idle_def)
next
  case (2 info n targets plan err csr1)
  obtain delta where delta: "computeScaleUpResourcesDelta pv info (opt_NodeGroup best) rl = Inr delta" "apply_limits left delta newNodes = Inr n"
    using 2(2) by (auto simp: applyScaleUpResourcesLimits_def)
  note ok = amounts [OF 2(1) delta(1)]
  have n: "1 \<le> n" "n \<le> newNodes" "fits_limits left delta n" using apply_limits_ok [OF ok] delta(2) by (auto simp: limited_def)
  note plan = balance_plan [OF assms(1) 2(4)]
  obtain rest where calls: "map (\<lambda>i. (Group i, increase_of i)) plan = so_calls out @ rest" using execute_plan_calls [OF 2(5)] by auto
  have "sum_list (map snd (so_calls out)) \<le> sum_list (map snd (map (\<lambda>i. (Group i, increase_of i)) plan))"
    by (rule sum_prefix_le [OF calls]) (use plan(1) n(1) in auto)
  also have "\<dots> = sum_list (map increase_of plan)" by (simp add: comp_def)
  also have "\<dots> \<le> n" using plan(2) n(1) by simp
  finally have sum: "sum_list (map snd (so_calls out)) \<le> n" .
  have "fits_limits left delta (sum_list (map snd (so_calls out)))"
    by (rule fits_limits_mono [OF n(3) sum amounts_ok_mono [OF ok n(1,2)]])
  moreover have "\<exists>i \<in> set plan. g = Group i \<and> k = increase_of i" if "(g, k) \<in> set (so_calls out)" for g k
  proof -
    have "(g, k) \<in> set (map (\<lambda>i. (Group i, increase_of i)) plan)" unfolding calls using that by simp
    then show ?thesis by auto
  qed
  then have "\<forall>(g, k) \<in> set (so_calls out). 0 < k \<and> IsNodeGroupSafeToScaleUp (pv_cp pv) csr g (su_now ctx) \<and>
      shares_growth ctx pv infos (opt_NodeGroup best) g \<and>
      (\<exists>current. ng_TargetSize (pv_cp pv) g = Inr current \<and> current + k \<le> ng_MaxSize (pv_cp pv) g)"
    using plan(1) n(1) target_groups_safe [OF 2(3)] assms(3) by fastforce
  ultimately show ?thesis using 2(1) delta(1) sum n(2) by auto
qed

text \<open>
  C6. A scale-up is safe, with the default processors, node groups that exist, any of the expanders and
  numbers small enough not to overflow: the snapshot of the cluster is left as it was; every size that
  the cloud provider is asked for is an increase of a group that is healthy and not backed off, up to
  at most its maximal size; no more nodes are asked for than there are pending pods; and when any are,
  the nodes there are, the upcoming ones and these together stay within the maximal number of nodes. They
  all go to one group of the provider and, when the scale-up is balanced, to groups that the comparator
  finds similar to it, and that many nodes of that group fit into what is left of every resource that
  the limiter of the provider limits, after the nodes of the cluster have been counted.
\<close>

theorem ScaleUp_safe:
  assumes fw: "framework_ok fw" "delta_inv fw c" "length c = 1"
    and sorts: "sort_ok (su_sort_pods ctx)" "sort_ok (su_sort_infos ctx)" and best: "expander (su_BestOption ctx)"
    and default: "\<And>gs is ps. su_ListProcessor ctx gs is ps = Inr (gs, is)" "\<And>g. ng_Exist (su_CloudProvider ctx) g"
    and small: "\<And>k info g rl delta r d. (k, info) \<in> set nodeInfos \<Longrightarrow> computeScaleUpResourcesDelta (su_CloudProvider ctx) info g rl = Inr delta \<Longrightarrow>
        (r, d) \<in> set delta \<Longrightarrow> 0 \<le> d \<and> int (length pods) * d \<le> int64_max"
    and run: "ScaleUp ctx \<lparr>sim_fw = fw, sim_exec = delta_exec fw, sim_sch = sch\<rparr> pods nodes nodeInfos csr c = (out, c')"
  shows "delta_view c' = delta_view c \<and>
    (\<forall>(g, k) \<in> set (so_calls out). 0 < k \<and> IsNodeGroupSafeToScaleUp (pv_cp (su_CloudProvider ctx)) csr g (su_now ctx) \<and>
      (\<exists>current. ng_TargetSize (pv_cp (su_CloudProvider ctx)) g = Inr current \<and> current + k \<le> ng_MaxSize (pv_cp (su_CloudProvider ctx)) g)) \<and>
    sum_list (map snd (so_calls out)) \<le> int (length pods) \<and>
    (so_calls out \<noteq> [] \<longrightarrow> (\<exists>upcoming others rl left chosen info delta.
       upcoming_nodes (pv_cp (su_CloudProvider ctx)) csr nodeInfos = Inr upcoming \<and>
       (0 < MaxNodesTotal ctx \<longrightarrow> int (length nodes) + int (length upcoming) + sum_list (map snd (so_calls out)) \<le> MaxNodesTotal ctx) \<and>
       FilterOutNodesFromNotAutoscaledGroups (pv_cp (su_CloudProvider ctx)) nodes = Inr others \<and> pv_ResourceLimiter (su_CloudProvider ctx) = Inr rl \<and>
       computeScaleUpResourcesLeftLimits (su_CloudProvider ctx) (cp_NodeGroups (pv_cp (su_CloudProvider ctx))) nodeInfos others rl = Inr left \<and>
       chosen \<in> set (cp_NodeGroups (pv_cp (su_CloudProvider ctx))) \<and>
       (\<forall>(g, k) \<in> set (so_calls out). shares_growth ctx (su_CloudProvider ctx) nodeInfos chosen g) \<and>
       map_of nodeInfos (ng_Id (pv_cp (su_CloudProvider ctx)) chosen) = Some info \<and>
       computeScaleUpResourcesDelta (su_CloudProvider ctx) info chosen rl = Inr delta \<and> fits_limits left delta (sum_list (map snd (so_calls out)))))"
proof -
  let ?pv = "su_CloudProvider ctx"
  let ?sim = "\<lparr>sim_fw = fw, sim_exec = delta_exec fw, sim_sch = sch\<rparr>"
  have un: "snd (delta_view c) = None" using fw(3) by (simp add: delta_view_def)
  have view: "delta_view c' = delta_view c"
    using packing_delta.ScaleUp_frame [OF fw(1) _ _ sorts(1) fw(2) un run] by simp
  have quiet: ?thesis if "so_calls out = []" using that view by simp
  show ?thesis
  proof (rule ScaleUp_steps [OF run])
    fix rl left upcoming groups infos ex s1 best newNodes
    assume inputs: "scale_up_inputs ctx pods nodes nodeInfos csr = Inr (rl, left, upcoming, groups, infos)"
      and opts: "expansion_options ctx ?sim csr rl left infos groups
          \<lparr>ex_options = [], ex_groups = buildPodEquivalenceGroups (su_SpecEqual ctx) pods, ex_skipped = []\<rparr> c = (Inr ex, s1)"
      and b: "su_BestOption ctx (map snd (ex_options ex)) (map (\<lambda>(i, t). (i, tmpl_Node t)) infos) = Some best"
      and cap: "cap_total_nodes ctx (int (length nodes)) (int (length upcoming)) (opt_NodeCount best) = Inr newNodes"
      and grown: "ng_Exist ?pv (opt_NodeGroup best) \<Longrightarrow> c' = s1 \<and> grow ctx ?pv rl left best newNodes infos ex [] groups csr = out"
    obtain others where ins: "infos = nodeInfos" "groups = cp_NodeGroups (pv_cp ?pv)" "FilterOutNodesFromNotAutoscaledGroups (pv_cp ?pv) nodes = Inr others"
        "pv_ResourceLimiter ?pv = Inr rl" "upcoming_nodes (pv_cp ?pv) csr nodeInfos = Inr upcoming"
        "computeScaleUpResourcesLeftLimits ?pv (cp_NodeGroups (pv_cp ?pv)) nodeInfos others rl = Inr left"
      using inputs default(1) by (auto simp: scale_up_inputs_def Let_def)
    have fine: "\<forall>x \<in> set (ex_options ex). option_fine ?pv (su_now ctx) csr rl left infos (int (length pods)) x"
        "opt_NodeGroup ` snd ` set (ex_options ex) \<subseteq> set groups"
      using packing_delta.expansion_options_frame [OF fw(1) _ _ sorts(1) fw(2) un _ _ opts] equivalence_groups_pods [of "su_SpecEqual ctx" pods] by simp_all
    obtain x where x: "x \<in> set (map snd (ex_options ex))" "same_option best x" using expander.chooses_option [OF \<open>expander _\<close> b] by blast
    then obtain k where "option_fine ?pv (su_now ctx) csr rl left infos (int (length pods)) (k, x)" "opt_NodeGroup x \<in> set groups" using fine by force
    then have g: "opt_NodeGroup best \<in> set groups"
      and o: "IsNodeGroupSafeToScaleUp (pv_cp ?pv) csr (opt_NodeGroup best) (su_now ctx)" "0 < opt_NodeCount best" "opt_NodeCount best \<le> int (length pods)"
      using x(2) by (auto simp: option_fine_def same_option_def dest: may_grow_safe [OF _ default(2)])
    note c = cap_total_nodes_bounds [OF cap o(2)]
    have "amounts_ok left delta newNodes" if "map_of nodeInfos i = Some info" "computeScaleUpResourcesDelta ?pv info g rl = Inr delta" for i info g delta
    proof -
      have "0 \<le> d \<and> newNodes * d \<le> int64_max" if "(r, d) \<in> set delta" for r d
      proof -
        have "0 \<le> d" "int (length pods) * d \<le> int64_max" using small [OF map_of_SomeD [OF \<open>map_of nodeInfos i = Some info\<close>] \<open>_ = Inr delta\<close> that] by auto
        then show ?thesis using mult_right_mono [of newNodes "int (length pods)" d] c(2) o(3) by linarith
      qed
      then show ?thesis using left_limits_nonneg ins(6) c(1) unfolding amounts_ok_def computeScaleUpResourcesLeftLimits_def Let_def by blast
    qed
    with grow_safe [OF sorts(2) conjunct2 [OF grown] o(1)] default(2) ins(1)
    have safe: "(\<forall>(g, k) \<in> set (so_calls out). 0 < k \<and> IsNodeGroupSafeToScaleUp (pv_cp ?pv) csr g (su_now ctx) \<and>
          shares_growth ctx ?pv nodeInfos (opt_NodeGroup best) g \<and>
          (\<exists>current. ng_TargetSize (pv_cp ?pv) g = Inr current \<and> current + k \<le> ng_MaxSize (pv_cp ?pv) g)) \<and>
        (so_calls out \<noteq> [] \<longrightarrow> (\<exists>info delta. map_of nodeInfos (ng_Id (pv_cp ?pv) (opt_NodeGroup best)) = Some info \<and>
          computeScaleUpResourcesDelta ?pv info (opt_NodeGroup best) rl = Inr delta \<and>
          sum_list (map snd (so_calls out)) \<le> newNodes \<and> fits_limits left delta (sum_list (map snd (so_calls out)))))" by blast
    show ?thesis
    proof (cases "so_calls out = []")
      case False
      then obtain info delta where d: "map_of nodeInfos (ng_Id (pv_cp ?pv) (opt_NodeGroup best)) = Some info"
          "computeScaleUpResourcesDelta ?pv info (opt_NodeGroup best) rl = Inr delta" "sum_list (map snd (so_calls out)) \<le> newNodes"
          "fits_limits left delta (sum_list (map snd (so_calls out)))" using safe by blast
      have "0 < MaxNodesTotal ctx \<longrightarrow> int (length nodes) + int (length upcoming) + sum_list (map snd (so_calls out)) \<le> MaxNodesTotal ctx"
        using c(3) d(3) by linarith
      moreover have "sum_list (map snd (so_calls out)) \<le> int (length pods)" using c(2) d(3) o(3) by linarith
      moreover have "\<forall>(g, k) \<in> set (so_calls out). shares_growth ctx ?pv nodeInfos (opt_NodeGroup best) g" using safe by blast
      ultimately show ?thesis using view safe ins(3-6) g [unfolded ins(2)] d(1,2,4) by blast
    qed (rule quiet)
  qed (rule quiet, simp add: idle_def)+
qed

lemma Recalculate_requests: "scaleUpRequests (Recalculate cp csr) = scaleUpRequests csr"
  by (simp add: Recalculate_def)

lemma pending_Recalculate [simp]: "pending (Recalculate cp csr) kk = pending csr kk"
  by (simp add: pending_def Recalculate_requests)

lemma apply_limits_nonneg: "apply_limits left delta n = Inr m \<Longrightarrow> 1 \<le> n \<Longrightarrow> 1 \<le> m"
  by (induction left delta n rule: apply_limits.induct) (auto simp: Let_def split: option.splits if_splits)

lemma grow_registered:
  assumes "sort_ok (su_sort_infos ctx)" "ng_Id (pv_cp pv) = idf" "registry_ok idf csr" "1 \<le> newNodes"
    and "grow ctx pv rl left best newNodes infos ex created considered csr = out"
  shows "registry_ok idf (so_registry out) \<and>
    (so_error out = None \<longrightarrow> (\<forall>kk. pending (so_registry out) kk = pending csr kk + asked idf (so_calls out) kk))"
  using assms(5)
proof (cases rule: grow_steps)
  case 1
  then show ?thesis using assms(3) by (simp add: idle_def asked_def)
next
  case (2 info n targets plan err csr1)
  have "0 \<le> n" using 2(2) assms(4) by (auto simp: applyScaleUpResourcesLimits_def dest: apply_limits_nonneg)
  then have "\<forall>i \<in> set plan. 0 < increase_of i" using balance_plan(1) [OF assms(1) 2(4)] by blast
  from execute_plan_registry [OF assms(2,3) this 2(5)] have "registry_ok idf csr1"
      "err = None \<longrightarrow> (\<forall>kk. pending csr1 kk = pending csr kk + asked idf (so_calls out) kk)"
    by (auto simp: asked_def algebra_simps)
  then show ?thesis using 2(6,7) registry_step_ok [OF registry_step.recalculate] by auto
qed

text \<open>
  C7. A scale-up keeps the registry well-formed, whatever the provider and the processors do, and when it
  returns without an error the registry waits for exactly the nodes it has asked for, in addition to
  those it was waiting for before, group by group.
\<close>

theorem ScaleUp_registered:
  assumes "sort_ok (su_sort_infos ctx)" "registry_ok idf csr"
    and ids: "ng_Id (pv_cp (su_CloudProvider ctx)) = idf" "\<And>created. ng_Id (pv_cp (su_Created ctx created)) = idf"
    and run: "ScaleUp ctx sim pods nodes nodeInfos csr s = (out, s')"
  shows "registry_ok idf (so_registry out) \<and>
    (so_error out = None \<longrightarrow> (\<forall>group. pending (so_registry out) group = pending csr group + asked idf (so_calls out) group))"
proof -
  have quiet: ?thesis if "idle csr out" using that assms(2) by (simp add: idle_def asked_def)
  show ?thesis
  proof (rule ScaleUp_steps [OF run])
    fix rl left upcoming groups infos ex s1 best newNodes
    assume cap: "cap_total_nodes ctx (int (length nodes)) (int (length upcoming)) (opt_NodeCount best) = Inr newNodes" "0 < opt_NodeCount best"
      and grown: "ng_Exist (su_CloudProvider ctx) (opt_NodeGroup best) \<Longrightarrow>
          s' = s1 \<and> grow ctx (su_CloudProvider ctx) rl left best newNodes infos ex [] groups csr = out"
      and created: "\<not> ng_Exist (su_CloudProvider ctx) (opt_NodeGroup best) \<Longrightarrow>
         \<exists>q. create_group ctx sim (opt_NodeGroup best) infos ex s1 = (q, s') \<and>
           (idle csr out \<or> (\<exists>created infos' ex'. q = Inr (created, infos', ex') \<and>
              grow ctx (su_Created ctx created) rl left (best\<lparr>opt_NodeGroup := MainCreatedNodeGroup created\<rparr>) newNodes infos' ex' [created] groups
                (Recalculate (pv_cp (su_Created ctx created)) csr) = out))"
    have n: "1 \<le> newNodes" by (rule cap_total_nodes_bounds(1) [OF cap])
    note reg = grow_registered [OF assms(1) _ _ n]
    show ?thesis
    proof (cases "ng_Exist (su_CloudProvider ctx) (opt_NodeGroup best)")
      case True
      then show ?thesis using reg [OF ids(1) assms(2)] grown by blast
    next
      case False
      then show ?thesis using created quiet reg [OF ids(2) registry_step_ok [OF registry_step.recalculate assms(2)]] by fastforce
    qed
  qed (use quiet in blast)+
qed

section \<open>A concrete scale-up\<close>

definition small_context :: "string AutoscalingContext" where
  "small_context =
     \<lparr>su_now = 0, su_CloudProvider = limits_provider, su_Created = (\<lambda>_. limits_provider), su_After = (\<lambda>cp _. cp),
      su_IncreaseSize = (\<lambda>_ _. None), su_clock = (\<lambda>_. 0), su_estimate_time = (\<lambda>_. 0), MaxNodesTotal = 5, BalanceSimilarNodeGroups = True,
      su_Comparator = (\<lambda>_ _. True), su_SpecEqual = (=), su_ListProcessor = (\<lambda>gs is _. Inr (gs, is)),
      su_CreateNodeGroup = (\<lambda>_. Inl (Err ''not implemented'')), su_InfoFromTemplate = (\<lambda>_. Inl (Err ''not implemented'')),
      su_BestOption = random_BestOption 0, su_sort_pods = insertionSort, su_sort_infos = insertionSort\<rparr>"

definition small_registry :: "string ClusterStateRegistry" where
  "small_registry = (NewClusterStateRegistry \<lparr>MaxTotalUnreadyPercentage = 45, OkTotalUnreadyCount = 3, MaxNodeProvisionTime = 15\<rparr> default_backoff)
     \<lparr>acceptableRanges := [(''a'', \<lparr>MinNodes = 0, MaxNodes = 1, CurrentTarget = 1\<rparr>)]\<rparr>"

definition small_simulation :: "(string \<times> ca_Pod list, (string \<times> ca_Pod list) chain, unit) simulation" where
  "small_simulation = \<lparr>sim_fw = node_framework, sim_exec = delta_exec node_framework, sim_sch = pair_scheduler\<rparr>"

lemma two_cores_small:
  "computeScaleUpResourcesDelta limits_provider two_cores g rl = Inr delta \<Longrightarrow> (r, d) \<in> set delta \<Longrightarrow> 0 \<le> d \<and> d \<le> int64_max"
  by (auto simp: computeScaleUpResourcesDelta_def getNodeInfoCoresAndMemory_def GetNodeCoresAndMemory_def getNodeResource_def two_cores_def
      ResourceCPU_def ResourceMemory_def ResourceNameCores_def ResourceNameMemory_def q_Value_def div_away_def int64_max_def
      GetNodeTargetGpus_def limits_provider_def Let_def split: if_splits)

lemma node_framework_ok: "framework_ok node_framework"
  by (auto simp: framework_ok_def node_framework_def)

theorem ScaleUp_safe_witness:
  "\<exists>out c'. ScaleUp small_context \<lparr>sim_fw = node_framework, sim_exec = delta_exec node_framework, sim_sch = pair_scheduler\<rparr>
      [sample_pod] [] [(''a'', two_cores)] small_registry delta_Clear = (out, c') \<and>
     delta_view c' = delta_view delta_Clear \<and> sum_list (map snd (so_calls out)) \<le> 1"
proof -
  have c: "delta_inv node_framework delta_Clear" "length (delta_Clear :: (string \<times> ca_Pod list) chain) = 1"
    using delta.starts [of node_framework] by (auto simp: delta_Clear_def)
  obtain out c' where run: "ScaleUp small_context \<lparr>sim_fw = node_framework, sim_exec = delta_exec node_framework, sim_sch = pair_scheduler\<rparr>
      [sample_pod] [] [(''a'', two_cores)] small_registry delta_Clear = (out, c')" by (metis surj_pair)
  have sorts: "sort_ok (su_sort_pods small_context)" "sort_ok (su_sort_infos small_context)" and best: "expander (su_BestOption small_context)"
    using insertionSort_ok random_expander.expander_axioms by (simp_all add: small_context_def)
  have default: "\<And>gs is ps. su_ListProcessor small_context gs is ps = Inr (gs, is)" "\<And>g. ng_Exist (su_CloudProvider small_context) g"
    and pv: "su_CloudProvider small_context = limits_provider" by (simp_all add: small_context_def limits_provider_def)
  have small: "0 \<le> d \<and> int (length [sample_pod]) * d \<le> int64_max"
    if "(k, info) \<in> set [(''a'', two_cores)]" "computeScaleUpResourcesDelta (su_CloudProvider small_context) info g rl = Inr delta" "(r, d) \<in> set delta"
    for k info g rl delta r d
    using that two_cores_small [of g rl delta r d] by (simp add: pv)
  note safe = ScaleUp_safe [OF node_framework_ok c sorts best default _ run]
  have "delta_view c' = delta_view delta_Clear \<and> sum_list (map snd (so_calls out)) \<le> int (length [sample_pod])"
    by (rule conjI [OF conjunct1 [OF safe] conjunct1 [OF conjunct2 [OF conjunct2 [OF safe]]]]) (erule (2) small)+
  then show ?thesis using run by auto
qed

theorem ScaleUp_registered_witness:
  "\<exists>out c'. ScaleUp small_context small_simulation [sample_pod] [] [(''a'', two_cores)] small_registry delta_Clear = (out, c') \<and>
     registry_ok (\<lambda>g. g) (so_registry out) \<and>
     (so_error out = None \<longrightarrow> (\<forall>group. pending (so_registry out) group = pending small_registry group + asked (\<lambda>g. g) (so_calls out) group))"
proof -
  have ok: "registry_ok (\<lambda>g. g) small_registry"
    using no_Readiness_ok(1) default_backoff_ok by (simp add: registry_ok_def requests_ok_def NewClusterStateRegistry_def small_registry_def)
  obtain out c' where run: "ScaleUp small_context small_simulation [sample_pod] [] [(''a'', two_cores)] small_registry delta_Clear = (out, c')"
    by (metis surj_pair)
  show ?thesis
    using ScaleUp_registered [OF _ ok _ _ run] run insertionSort_ok by (auto simp: small_context_def limits_provider_def)
qed

end
