(* ===== verification/Spec2Isabelle.thy ===== *)
theory Spec2Isabelle
  imports Recommender_Correct Updater Admission_Patches Status_Lease Decaying_Histogram Snapshot_Refinement Nanny_Correct Registry_Safety
    Removal_Correct Binpacking Scale_Up_Safety
begin

text \<open>
  Verification of the Kubernetes autoscalers: the vertical pod autoscaler (VPA), the addon resizer
  and the decisions of the cluster autoscaler.

  The sources are the Go packages under \<open>src/kubernetes-vpa/autoscaler\<close>: \<open>vertical-pod-autoscaler/pkg\<close>,
  \<open>addon-resizer\<close> and \<open>cluster-autoscaler\<close>.

  \<^bold>\<open>The program.\<close> The VPA adjusts the resource requests of the containers of a Kubernetes cluster.
  The \<^emph>\<open>recommender\<close> keeps a model of the cluster (pods, containers, VPA objects), feeds samples of
  CPU and memory usage into decaying histograms shared by equally labelled containers, and derives
  from their percentiles a lower bound, a target and an upper bound of the requests. The
  \<^emph>\<open>updater\<close> evicts pods whose requests are far from the recommendation, within a disruption
  budget per group of replicas. The \<^emph>\<open>admission controller\<close> sets the requests of the pods that
  are created instead, by JSON patches, and validates VPA objects. Updater and admission
  controller adjust the recommendation to policies, limits and limit ranges first (capping).

  The \<^emph>\<open>addon resizer\<close> sets the resources of a single deployment from the number of nodes of the cluster.

  The \<^emph>\<open>cluster autoscaler\<close> changes the number of nodes. It keeps a registry of what it asked the cloud
  provider for and what came of it, simulates the scheduler on a snapshot of the cluster that can be
  forked and reverted, and decides on this ground. To scale up, it drops the pending pods that fit on
  existing nodes, groups the others by their scheduling properties, estimates for each node group how many
  nodes they need, lets an expander choose, caps the size by the limits of the cluster, balances it over
  similar groups and registers the request. To scale down, it looks for nodes whose pods may be
  drained and find a place elsewhere.

  \<^bold>\<open>The theories.\<close>

  \<^item> \<open>Go_Prelude\<close>, \<open>Go_Float\<close>: what is shared. Results of fallible code are values of a sum type
    whose left side is an error or a panic; Go maps are association lists with distinct keys whose
    order is the order of iteration, so that a theorem about a model function holds for every order
    of iteration; times and durations are integers; conversion of floats to integers.
  \<^item> \<open>Histogram_Options\<close>, \<open>Histogram\<close>, \<open>Decaying_Histogram\<close> (\<open>recommender/util\<close>): the bucketing
    schemes, the histogram and the exponentially decaying histogram, with their checkpoints.
    The histogram is an interface (a locale) to the code that uses it. The histograms the code can build,
    from samples, merges, scaling and checkpoints, are an inductive predicate (\<open>hist_reach\<close>). The invariant
    of the first and last non-empty bucket, the correctness of \<open>Percentile\<close>, the meaning of the weights
    independently of the reference time, and the error of a checkpoint are proved for them.
  \<^item> \<open>Resource_Types\<close>, \<open>Kube_Types\<close> (\<open>recommender/model/types.go\<close>, the API types,
    \<open>utils/vpa/api.go\<close>): amounts, quantities, pods and VPA objects with the fields the code reads,
    and the choice of the VPA that controls a pod.
  \<^item> \<open>Aggregate_State\<close>, \<open>Container_State\<close>, \<open>Vpa_Model\<close>, \<open>Cluster_State\<close>, \<open>Cluster_Lifecycle\<close>
    (\<open>recommender/model\<close>): the state of the recommender. Aggregate states are shared between
    containers and VPAs in the code, hence they live in an explicit store and are referred to by
    their keys. \<open>Cluster_Lifecycle\<close> has the reachable states of the cluster model as an inductive
    predicate and the invariant that the links between pods, aggregates and VPAs are right.
    \<open>Cluster_Bounds\<close> adds what every operation leaves alone, stated once as a frame (a locale over
    the aggregators), and joins it with the invariant to \<open>model_ok\<close>, which each operation keeps;
    \<open>Vpa_Aggregation\<close> shows the same for the aggregation of one VPA by container name.
  \<^item> \<open>Estimators\<close> (\<open>recommender/logic\<close>): the estimators as functions, their composition, and that
    recommendations are ordered.
  \<^item> \<open>Input_Sources\<close>, \<open>Controller_Fetcher\<close>, \<open>Target_Fetcher\<close>, \<open>Cluster_Feeder\<close>, \<open>Feeder_Correct\<close>
    (\<open>recommender/input\<close>, \<open>target\<close>): what the recommender reads (pod specifications, metrics, OOM
    events, history), the search for the topmost controller of a target, which terminates on
    cyclic owner references, the selector of a target, and the feeder that loads all of it into
    the cluster model; the feeder keeps \<open>model_ok\<close>, brings VPAs and pods in step with the API server
    and removes orphaned checkpoints.
  \<^item> \<open>Checkpoint_Writer\<close> (\<open>recommender/checkpoint\<close>): which checkpoints are written, in which order and
    how many before the deadline. \<open>Go_Sort\<close> has the contract of Go's sorting.
  \<^item> \<open>Recommender\<close>, \<open>Recommender_Correct\<close> (\<open>recommender/routines\<close>): the main loop as a step of a state
    machine; it never panics in a reachable state, and what it publishes is ordered and obeys the
    resource policies.
  \<^item> \<open>Status_Lease\<close> (\<open>utils/status\<close>): the heartbeat of the admission controller and its check by the
    updater, with retries.
  \<^item> \<open>Limit_Scaling\<close>, \<open>Capping\<close> (\<open>utils/vpa\<close>, \<open>utils/limitrange\<close>): proportional limits, limit ranges
    and the capping of a recommendation to policy, limits and limit range.
  \<^item> \<open>Eviction\<close>, \<open>Priority\<close>, \<open>Annotations\<close>, \<open>Updater\<close> (\<open>updater\<close>, \<open>utils/annotations\<close>): the disruption
    budget as a state machine over evictions, the priority of pods against a reference computation,
    the annotation the admission controller leaves for the updater, and one iteration of the
    updater, whose evictions are shown to be safe.
  \<^item> \<open>Admission\<close>, \<open>Admission_Patches\<close> (\<open>admission-controller\<close>): the calculation of the patches, the
    handlers of pods and VPA objects, the decision of the server; that the patches apply to the
    document of the pod and establish the recommendation, and which objects are refused.
  \<^item> \<open>Go_Strings\<close>, \<open>Nanny\<close>, \<open>Nanny_Correct\<close> (\<open>addon-resizer/nanny\<close>, \<open>addon-resizer/main.go\<close>): printing
    and scanning of numbers, the estimator and the polling loop with its delays. The estimate is linear
    in the number of nodes, rewritten resources are accepted by the next check, and the delays are kept.
  \<^item> \<open>Cluster_Snapshot\<close>, \<open>Snapshot_Refinement\<close> (\<open>simulator/*_cluster_snapshot.go\<close>): the reference snapshot and
    the layered one, both as an executor of snapshot operations. The layered one is shown to
    refine the reference for every sequence of operations; clients use the interface (a locale).
  \<^item> \<open>Predicate_Checker\<close>, \<open>Drain\<close>, \<open>Usage_Tracker\<close>, \<open>Removal_Simulation\<close>, \<open>Removal_Correct\<close> (\<open>simulator\<close>,
    \<open>utils/drain\<close>): the search for a node that accepts a pod, the rules by which a pod may be moved,
    which nodes were used as destinations, and the simulated removal of nodes: what it offers is
    drainable and its pods find a place one after the other, and what it refuses it refuses for the reason
    it gives.
  \<^item> \<open>Balancing\<close> (\<open>processors/nodegroupset\<close>), \<open>Backoff\<close> (\<open>utils/backoff\<close>): the division of new nodes over
    similar groups, and the exponential backoff of groups that failed.
  \<^item> \<open>Node_State\<close>, \<open>Cluster_Registry\<close>, \<open>Cluster_Status\<close>, \<open>Registry_Correct\<close>, \<open>Registry_Safety\<close>
    (\<open>clusterstate\<close>, \<open>utils/kubernetes/ready.go\<close>): readiness of nodes, the registry with its cache of cloud
    instances as a state machine over updates and requests, the status it reports, the invariant
    of its reachable states, and that a scale-up that timed out is held back.
  \<^item> \<open>Binpacking\<close> (\<open>estimator\<close>): first fit by descending score in a fork, which is undone.
  \<^item> \<open>Expander\<close> (\<open>expander\<close>): the strategies random, most-pods, least-waste, priority and price, each with
    the optimality of its choice; the fallback is an interface (a locale).
  \<^item> \<open>Scale_Up_Limits\<close> (\<open>cloudprovider/resource_limiter.go\<close>, \<open>core/scale_up.go\<close>): what the limits of cores,
    memory and GPUs leave, and the capping to it, which is exact.
  \<^item> \<open>Pending_Pods\<close> (\<open>core/filter_out_schedulable.go\<close>, \<open>core/equivalence_groups.go\<close>, \<open>core/utils\<close>): which pods
    need new nodes, and their partition into groups that are checked by one pod.
  \<^item> \<open>Scale_Up\<close>, \<open>Scale_Up_Safety\<close> (\<open>core/scale_up.go\<close>): the whole of a scale-up as a function on the snapshot and
    the registry that collects the calls to the cloud provider. It keeps to the sizes of the
    groups and to all limits, leaves the snapshot as it was, and the registry waits for what was asked
    for. It is proved for every expander that chooses among its options (the locale \<open>expander\<close>, which each
    strategy interprets).

  \<^bold>\<open>Numbers.\<close> A \<open>float64\<close> is a real number: rounding is not modelled, and statements about floats
  are statements about exact arithmetic. Infinities and NaN are modelled where the code can divide by zero
  (\<open>xfloat\<close>: the estimators of the VPA and the scores of expanders). Integers that the code converts from floats or
  saturates have the bounds written out, as have the 64-bit products of resource totals; other integers are unbounded. Quantities are counted in
  billionths of their unit, the finest scale they have.

  \<^bold>\<open>Parameters.\<close> What is outside of the modelled packages is an argument of the definitions: the
  listers and informers, the REST mapper and scale client, the Prometheus client, the clock, the API
  server's answers, the rate limiter, the context with its deadline, JSON and YAML decoding, regular
  expressions, printing and parsing of quantities, the semantic comparison of statuses and pod
  specifications, the scheduler framework with its plugins, the cloud provider with its node groups,
  templates and prices, the processors that create and list node groups, and \<open>sort.Sort\<close> and \<open>sort.Slice\<close> with
  their contract as the hypothesis \<open>sort_ok\<close>, which a concrete sorting function satisfies in the
  witnesses.

  \<^bold>\<open>Bounds.\<close> No definition uses fuel: loops are recursion over the lists they range over, or
  functions with a termination proof. The one loop that need not end, the search for the topmost
  controller, is a partial function, and that it returns is a theorem. Times are counted from the
  year 1, and differences of times saturate after 292 years; the statements about whole runs
  require the times of samples to lie in one such era (\<open>time_in\<close>).

  \<^bold>\<open>Not modelled.\<close> Logging and metrics; process set-up, flags, certificates and HTTP; the
  generated clients; of the cluster autoscaler the main loop, the orchestration of scale-down (timers,
  taints, deletion of nodes), autoprovisioning and the cloud providers.
\<close>

end
